(* ===== verification/Prelude.thy ===== *)
theory Prelude
  imports Main "HOL-Library.Word" "HOL-Library.Sublist"
begin

section \<open>Shared vocabulary of the PRoot model\<close>

text \<open>
  Error numbers, C strings, limits and the canonical form of paths, shared by every
  component.  A C string is a list of characters without the terminating NUL; reading the
  index right after the last character gives the NUL (\<open>char_at\<close>).  The source runs on
  arm64-v8a only (core/proot/build.gradle.kts), in release builds, where \<open>assert\<close> is
  compiled out: an assertion of the source is no branch of the model, and a lemma shows
  it where it matters.
\<close>

named_theorems path_simps \<open>rewriting of canonical paths\<close>
named_theorems binding_simps \<open>unfolding of the accessors of bindings and namespaces\<close>

datatype errno =
    EPERM | ENOENT | EIO | E2BIG | ENOEXEC | EBADF | ENOMEM | EACCES | EFAULT
  | EEXIST | ENOTDIR | EISDIR | EINVAL | ERANGE | ENAMETOOLONG | ENOSYS | ELOOP | ENOTSUP | ESRCH
  | ECHILD | EINTR | EAGAIN | EIDRM | ENOMSG | ENOSPC | EFBIG | EAFNOSUPPORT | EOTHER nat

text \<open>
  A function that returns \<open>-errno\<close> or a result is a sum: \<open>Inl (Errno e)\<close> is the return of
  \<open>-e\<close>, \<open>Inr r\<close> a result.  \<open>Inl Undefined\<close> marks an execution whose behaviour C leaves
  undefined (an access outside an array): the properties show where it cannot happen.
  \<open>EOTHER n\<close> is any error number the source never names.
\<close>

datatype failure = Errno errno | Undefined

type_synonym 'a res = "failure + 'a"

abbreviation Err :: "errno \<Rightarrow> 'a res" where
  "Err e \<equiv> Inl (Errno e)"

text \<open>Limits of the C library headers (linux/limits.h).\<close>

definition PATH_MAX :: nat where "PATH_MAX = 4096"
definition NAME_MAX :: nat where "NAME_MAX = 255"

definition NUL :: char where "NUL = CHR 0x00"

definition char_at :: "string \<Rightarrow> nat \<Rightarrow> char" where
  "char_at s i = (if i < length s then s ! i else NUL)"

text \<open>What a C string function sees of a buffer: everything before the first NUL.\<close>

definition cstr :: "string \<Rightarrow> string" where
  "cstr s = takeWhile (\<lambda>c. c \<noteq> NUL) s"

lemma cstr_no_NUL [simp]: "NUL \<notin> set (cstr s)"
  by (auto simp: cstr_def dest: set_takeWhileD)

lemma cstr_id [simp]: "NUL \<notin> set s \<Longrightarrow> cstr s = s"
  by (auto simp: cstr_def takeWhile_eq_all_conv)

lemma char_at_in [simp]: "i < length s \<Longrightarrow> char_at s i = s ! i"
  by (simp add: char_at_def)

lemma char_at_out [simp]: "length s \<le> i \<Longrightarrow> char_at s i = NUL"
  by (simp add: char_at_def)

lemma NUL_neq_slash [simp]: "NUL \<noteq> CHR ''/''" "CHR ''/'' \<noteq> NUL"
  by (simp_all add: NUL_def)

subsection \<open>Canonical absolute paths\<close>

text \<open>
  The abstract view of a path is the list of its components.  \<open>path_of\<close> renders it:
  ''/'' for the root, otherwise each component after a slash, with no slash at the end.  The
  components of a canonical path are neither empty nor ''.'' nor ''..''.
\<close>

definition valid_comp :: "string \<Rightarrow> bool" where
  "valid_comp c \<longleftrightarrow> c \<noteq> [] \<and> CHR ''/'' \<notin> set c \<and> NUL \<notin> set c
     \<and> c \<noteq> ''.'' \<and> c \<noteq> ''..''"

abbreviation valid_comps :: "string list \<Rightarrow> bool" where
  "valid_comps cs \<equiv> list_all valid_comp cs"

definition slashed :: "string list \<Rightarrow> string" where
  "slashed cs = concat (map (\<lambda>c. CHR ''/'' # c) cs)"

definition path_of :: "string list \<Rightarrow> string" where
  "path_of cs = (if cs = [] then ''/'' else slashed cs)"

definition canonical :: "string \<Rightarrow> bool" where
  "canonical p \<longleftrightarrow> (\<exists>cs. valid_comps cs \<and> p = path_of cs)"

lemma slashed_Nil [simp]: "slashed [] = []"
  by (simp add: slashed_def)

lemma slashed_Cons [simp]: "slashed (c # cs) = CHR ''/'' # c @ slashed cs"
  by (simp add: slashed_def)

lemma slashed_append [simp]: "slashed (xs @ ys) = slashed xs @ slashed ys"
  by (simp add: slashed_def)

lemma path_of_Nil [simp]: "path_of [] = ''/''"
  by (simp add: path_of_def)

lemma path_of_nonempty [simp]: "cs \<noteq> [] \<Longrightarrow> path_of cs = slashed cs"
  by (simp add: path_of_def)

lemma slashed_eq_Nil [simp]: "slashed cs = [] \<longleftrightarrow> cs = []"
  by (cases cs) simp_all

lemma path_of_neq_Nil [simp]: "path_of cs \<noteq> []"
  by (cases cs) simp_all

lemma path_of_hd [simp]: "path_of cs ! 0 = CHR ''/''"
  by (cases cs) simp_all

lemma hd_path_of [simp]: "hd (path_of cs) = CHR ''/''"
  by (cases cs) simp_all

lemma canonicalI [intro]: "valid_comps cs \<Longrightarrow> canonical (path_of cs)"
  by (auto simp: canonical_def)

lemma canonicalE [elim!]:
  assumes "canonical p"
  obtains cs where "valid_comps cs" and "p = path_of cs"
  using assms by (auto simp: canonical_def)

lemma slashed_last:
  assumes "valid_comps cs" and "cs \<noteq> []"
  shows "last (slashed cs) \<noteq> CHR ''/''"
proof -
  from assms(2) obtain ds d where cs: "cs = ds @ [d]"
    by (cases cs rule: rev_cases) auto
  with assms(1) have d: "d \<noteq> []" "CHR ''/'' \<notin> set d"
    by (auto simp: valid_comp_def)
  then have "last d \<noteq> CHR ''/''"
    by (metis last_in_set)
  with cs d show ?thesis by simp
qed

lemma slashed_last_nth:
  assumes "valid_comps cs" and "cs \<noteq> []"
  shows "slashed cs ! (length (slashed cs) - 1) \<noteq> CHR ''/''"
  using slashed_last[OF assms] assms(2) by (simp add: last_conv_nth)

lemma length_path_of_ge_1: "1 \<le> length (path_of cs)"
  by (cases "path_of cs") (use path_of_neq_Nil in auto)

lemma length_path_of_suffix: "length (path_of ys) \<le> length (path_of (xs @ ys))"
  by (cases "ys = []") (auto simp: path_of_def Suc_le_eq)

lemma slashed_no_NUL: "valid_comps cs \<Longrightarrow> NUL \<notin> set (slashed cs)"
  by (induction cs) (auto simp: valid_comp_def NUL_def)

lemma path_of_no_NUL: "valid_comps cs \<Longrightarrow> NUL \<notin> set (path_of cs)"
  using slashed_no_NUL[of cs] by (auto simp: path_of_def NUL_def split: if_splits)

text \<open>Equal component strings up to a separator are equal components.\<close>

lemma comp_append_cancel:
  assumes "CHR ''/'' \<notin> set a" and "CHR ''/'' \<notin> set b"
    and "a @ xs = b @ ys" and "xs = [] \<or> hd xs = CHR ''/''" and "ys = [] \<or> hd ys = CHR ''/''"
  shows "a = b \<and> xs = ys"
  using assms
proof (induction a arbitrary: b)
  case Nil
  then show ?case
    by (cases b) auto
next
  case (Cons x a)
  then show ?case
    by (cases b) auto
qed

lemma hd_slashed: "slashed cs = [] \<or> hd (slashed cs) = CHR ''/''"
  by (cases cs) simp_all

lemma slashed_prefix_sep:
  assumes "valid_comps as" and "valid_comps bs"
    and "slashed bs = slashed as @ r" and "r = [] \<or> hd r = CHR ''/''"
  shows "\<exists>cs. bs = as @ cs \<and> r = slashed cs"
  using assms
proof (induction as arbitrary: bs)
  case Nil
  then show ?case by simp
next
  case (Cons a as)
  from Cons.prems(3) obtain b bs' where bs: "bs = b # bs'"
    by (cases bs) auto
  have "hd (slashed as @ r) = CHR ''/'' \<or> slashed as @ r = []"
    using hd_slashed[of as] Cons.prems(4) by (cases "slashed as") auto
  with Cons.prems bs have "b = a \<and> slashed bs' = slashed as @ r"
    using comp_append_cancel[of b a "slashed bs'" "slashed as @ r"] hd_slashed[of bs']
    by (auto simp: valid_comp_def)
  then have ba: "b = a" and eq: "slashed bs' = slashed as @ r"
    by auto
  have "\<exists>cs. bs' = as @ cs \<and> r = slashed cs"
    using Cons.IH[of bs'] Cons.prems bs eq by auto
  with bs ba show ?case by auto
qed

lemma slashed_inject:
  assumes "valid_comps as" and "valid_comps bs" and "slashed as = slashed bs"
  shows "as = bs"
  using slashed_prefix_sep[of as bs "[]"] assms by (metis append_Nil2 slashed_eq_Nil)

lemma slashed_neq_slash: "valid_comps cs \<Longrightarrow> slashed cs \<noteq> ''/''"
  by (cases cs) (auto simp: valid_comp_def)

lemma path_of_inject:
  assumes "valid_comps as" and "valid_comps bs" and "path_of as = path_of bs"
  shows "as = bs"
  using assms slashed_inject[of as bs] slashed_neq_slash[of as] slashed_neq_slash[of bs]
  by (auto simp: path_of_def split: if_splits)

lemma prefix_take_eq: "prefix xs ys \<longleftrightarrow> take (length xs) ys = xs \<and> length xs \<le> length ys"
  by (metis append_eq_conv_conj prefix_def take_is_prefix prefix_length_le)

end
