(* ===== verification/Paths.thy ===== *)
theory Paths
  imports Prelude
begin

section \<open>String operations on paths\<close>

text \<open>
  The pure part of core/proot/src/main/cpp/path/path.c: joining, comparing and chopping
  paths and substituting a prefix, with the enumerations of path/path.h.  The comparison
  and the substitution are shown to implement operations on lists of components.
\<close>

datatype Side = GUEST | HOST | PENDING

datatype Finality = NOT_FINAL | FINAL_NORMAL | FINAL_SLASH | FINAL_DOT

definition IS_FINAL :: "Finality \<Rightarrow> bool" where
  "IS_FINAL a \<longleftrightarrow> a \<noteq> NOT_FINAL"

datatype Comparison =
  PATHS_ARE_EQUAL | PATH1_IS_PREFIX | PATH2_IS_PREFIX | PATHS_ARE_NOT_COMPARABLE

text \<open>A path with its cached length (the \<open>side\<close> field is never used by the source).\<close>

record Path =
  path_str :: string
  path_len :: nat

definition mk_Path :: "string \<Rightarrow> Path" where
  "mk_Path s = \<lparr>path_str = s, path_len = length s\<rparr>"

definition wf_Path :: "Path \<Rightarrow> bool" where
  "wf_Path p \<longleftrightarrow> path_len p = length (path_str p) \<and> canonical (path_str p)
     \<and> length (path_str p) < PATH_MAX"

subsection \<open>Joining\<close>

text \<open>
  The variadic arguments of \<open>join_paths\<close> are a list of optional strings, NULL being
  \<open>None\<close>.  After an error no caller reads the buffer, so its content is not modelled.
\<close>

fun join_loop :: "string \<Rightarrow> string option list \<Rightarrow> string res" where
  "join_loop result [] = Inr result"
| "join_loop result (None # paths) = join_loop result paths"
| "join_loop result (Some path # paths) =
     (let len = length result; path_length = length path in
      if 0 < len \<and> char_at result (len - 1) \<noteq> CHR ''/'' \<and> char_at path 0 \<noteq> CHR ''/'' then
        (let new_length = len + path_length + 1 in
         if new_length + 1 \<ge> PATH_MAX then Err ENAMETOOLONG
         else join_loop (result @ ''/'' @ path) paths)
      else if 0 < len \<and> char_at result (len - 1) = CHR ''/'' \<and> char_at path 0 = CHR ''/'' then
        (let new_length = len + path_length - 1 in
         if new_length + 1 \<ge> PATH_MAX then Err ENAMETOOLONG
         else join_loop (result @ tl path) paths)
      else
        (let new_length = len + path_length in
         if new_length + 1 \<ge> PATH_MAX then Err ENAMETOOLONG
         else join_loop (result @ path) paths))"

definition join_paths :: "string option list \<Rightarrow> string res" where
  "join_paths paths = join_loop [] paths"

text \<open>Joining two paths that are both there, the only way the path translation uses it.\<close>

abbreviation join2 :: "string \<Rightarrow> string \<Rightarrow> string res" where
  "join2 a b \<equiv> join_paths [Some a, Some b]"

definition sep_join :: "string \<Rightarrow> string \<Rightarrow> string" where
  "sep_join r p =
     (if r \<noteq> [] \<and> last r \<noteq> CHR ''/'' \<and> (p = [] \<or> hd p \<noteq> CHR ''/'') then r @ ''/'' @ p
      else if r \<noteq> [] \<and> last r = CHR ''/'' \<and> p \<noteq> [] \<and> hd p = CHR ''/'' then r @ tl p
      else r @ p)"

lemma join_loop_Some:
  "join_loop r (Some p # ps) =
     (if PATH_MAX \<le> length (sep_join r p) + 1 then Err ENAMETOOLONG
      else join_loop (sep_join r p) ps)"
  by (cases "r = []"; cases p)
    (auto simp: Let_def sep_join_def char_at_def NUL_def last_conv_nth)

lemma join_loop_bound:
  "join_loop r paths = Inr s \<Longrightarrow> length r + 2 \<le> PATH_MAX \<Longrightarrow> length s + 2 \<le> PATH_MAX"
proof (induction paths arbitrary: r)
  case (Cons a paths)
  then show ?case
    by (cases a) (auto simp: join_loop_Some simp del: join_loop.simps(3) split: if_splits)
qed simp

lemma join_paths_bound: "join_paths paths = Inr s \<Longrightarrow> length s + 2 \<le> PATH_MAX"
  unfolding join_paths_def by (erule join_loop_bound) (simp add: PATH_MAX_def)

lemma join2_eq:
  "join2 a b =
     (if PATH_MAX \<le> length a + 1 \<or> PATH_MAX \<le> length (sep_join a b) + 1 then Err ENAMETOOLONG
      else Inr (sep_join a b))"
  by (simp add: join_paths_def join_loop_Some sep_join_def[of "[]"] del: join_loop.simps(3))

lemma sep_join_component:
  assumes "valid_comps cs" and "CHR ''/'' \<notin> set c"
  shows "sep_join (path_of cs) c = slashed cs @ ''/'' @ c"
  using assms slashed_last[OF assms(1)] by (cases "cs = []"; cases c) (auto simp: sep_join_def)

lemma join2_component:
  assumes "valid_comps cs" and "valid_comp c"
  shows "join2 (path_of cs) c =
    (if PATH_MAX \<le> length (path_of (cs @ [c])) + 1 then Err ENAMETOOLONG
     else Inr (path_of (cs @ [c])))"
proof -
  have sj: "sep_join (path_of cs) c = path_of (cs @ [c])"
    using assms by (simp add: sep_join_component valid_comp_def)
  have "length (path_of cs) \<le> length (path_of (cs @ [c]))"
    using assms(2) by (cases "cs = []") (auto simp: valid_comp_def)
  then show ?thesis by (auto simp: join2_eq sj)
qed

subsection \<open>Comparing\<close>

definition compare_paths2 :: "string \<Rightarrow> nat \<Rightarrow> string \<Rightarrow> nat \<Rightarrow> Comparison" where
  "compare_paths2 path1 length1 path2 length2 =
     (if length1 = 0 \<or> length2 = 0 then PATHS_ARE_NOT_COMPARABLE
      else
        let length1 = (if char_at path1 (length1 - 1) = CHR ''/'' then length1 - 1 else length1);
            length2 = (if char_at path2 (length2 - 1) = CHR ''/'' then length2 - 1 else length2);
            length_min = (if length1 < length2 then length1 else length2);
            sentinel = (if length1 < length2 then char_at path2 length_min
                        else char_at path1 length_min)
        in if sentinel \<noteq> CHR ''/'' \<and> sentinel \<noteq> NUL then PATHS_ARE_NOT_COMPARABLE
           else if take length_min path1 \<noteq> take length_min path2 then PATHS_ARE_NOT_COMPARABLE
           else if length1 = length2 then PATHS_ARE_EQUAL
           else if length1 < length2 then PATH1_IS_PREFIX
           else PATH2_IS_PREFIX)"

definition compare_paths :: "string \<Rightarrow> string \<Rightarrow> Comparison" where
  "compare_paths path1 path2 = compare_paths2 path1 (length path1) path2 (length path2)"

text \<open>The abstract comparison: prefixes of component lists.\<close>

definition compare_comps :: "string list \<Rightarrow> string list \<Rightarrow> Comparison" where
  "compare_comps as bs =
     (if as = bs then PATHS_ARE_EQUAL
      else if prefix as bs then PATH1_IS_PREFIX
      else if prefix bs as then PATH2_IS_PREFIX
      else PATHS_ARE_NOT_COMPARABLE)"

text \<open>Trimming the final slash of a canonical path leaves its slashed components.\<close>

lemma trimmed_length:
  assumes "valid_comps cs"
  shows "(if char_at (path_of cs) (length (path_of cs) - 1) = CHR ''/''
          then length (path_of cs) - 1 else length (path_of cs)) = length (slashed cs)"
  using slashed_last_nth[OF assms] by (cases "cs = []") (auto simp: char_at_def)

lemma take_path_of:
  "n \<le> length (slashed cs) \<Longrightarrow> take n (path_of cs) = take n (slashed cs)"
  by (cases "cs = []") auto

lemma char_at_path_of:
  "cs \<noteq> [] \<or> 0 < n \<Longrightarrow> char_at (path_of cs) n = char_at (slashed cs) n"
  by (cases "cs = []") (auto simp: char_at_def)

lemma slashed_prefix_iff:
  assumes "valid_comps as" and "valid_comps bs"
  shows "prefix as bs \<longleftrightarrow>
    take (length (slashed as)) (slashed bs) = slashed as
    \<and> length (slashed as) \<le> length (slashed bs)
    \<and> char_at (slashed bs) (length (slashed as)) \<in> {CHR ''/'', NUL}"
    (is "_ \<longleftrightarrow> ?R")
proof
  assume "prefix as bs"
  then obtain cs where "bs = as @ cs" by (auto simp: prefix_def)
  then show ?R by (cases cs) (auto simp: char_at_def)
next
  assume R: ?R
  define r where "r = drop (length (slashed as)) (slashed bs)"
  from R have eq: "slashed bs = slashed as @ r"
    unfolding r_def by (metis append_take_drop_id)
  have "r = [] \<or> hd r = CHR ''/''"
    using R eq slashed_no_NUL[OF assms(2)] by (cases r) (auto simp: char_at_def)
  then show "prefix as bs"
    using slashed_prefix_sep[OF assms eq] by (auto simp: prefix_def)
qed

lemma compare_paths_comps:
  assumes as: "valid_comps as" and bs: "valid_comps bs"
  shows "compare_paths (path_of as) (path_of bs) = compare_comps as bs"
proof -
  let ?a = "slashed as" and ?b = "slashed bs"
  let ?m = "if length ?a < length ?b then length ?a else length ?b"
  let ?s = "if length ?a < length ?b then char_at (path_of bs) ?m else char_at (path_of as) ?m"
  have unfolded: "compare_paths (path_of as) (path_of bs) =
      (if ?s \<noteq> CHR ''/'' \<and> ?s \<noteq> NUL then PATHS_ARE_NOT_COMPARABLE
       else if take ?m (path_of as) \<noteq> take ?m (path_of bs) then PATHS_ARE_NOT_COMPARABLE
       else if length ?a = length ?b then PATHS_ARE_EQUAL
       else if length ?a < length ?b then PATH1_IS_PREFIX else PATH2_IS_PREFIX)"
    unfolding compare_paths_def compare_paths2_def Let_def
      trimmed_length[OF as] trimmed_length[OF bs]
    by (simp only: length_0_conv path_of_neq_Nil simp_thms if_False)
  consider (lt) "length ?a < length ?b" | (gt) "length ?b < length ?a" | (eq) "length ?a = length ?b"
    by linarith
  then show ?thesis
  proof cases
    case lt
    then have "bs \<noteq> []" "as \<noteq> bs" "\<not> prefix bs as" by (auto simp: prefix_def)
    then show ?thesis
      using lt unfolded slashed_prefix_iff[OF as bs]
      by (auto simp: compare_comps_def take_path_of)
  next
    case gt
    then have "as \<noteq> []" "as \<noteq> bs" "\<not> prefix as bs" by (auto simp: prefix_def)
    then show ?thesis
      using gt unfolded slashed_prefix_iff[OF bs as]
      by (auto simp: compare_comps_def take_path_of)
  next
    case eq
    have tk: "take (length ?a) (path_of as) = take (length ?b) (path_of bs) \<longleftrightarrow> as = bs"
      using slashed_inject[OF as bs] by (auto simp: take_path_of)
    have sent: "char_at (path_of as) (length ?a) \<in> {CHR ''/'', NUL}"
      by (cases "as = []") (auto simp: char_at_def)
    have "length (slashed (ds @ es)) = length (slashed ds) \<Longrightarrow> es = []" for ds es
      by simp
    then have pre: "prefix as bs \<longleftrightarrow> as = bs" "prefix bs as \<longleftrightarrow> as = bs"
      using eq by (metis append_Nil2 prefix_def)+
    have m: "?m = length ?b" "?s = char_at (path_of as) (length ?a)"
      using eq by simp_all
    show ?thesis
    proof (cases "as = bs")
      case True
      then show ?thesis using sent unfolded by (simp add: compare_comps_def)
    next
      case False
      with tk have "take ?m (path_of as) \<noteq> take ?m (path_of bs)"
        unfolding m using eq by simp
      with unfolded have "compare_paths (path_of as) (path_of bs) = PATHS_ARE_NOT_COMPARABLE"
        by presburger
      with False pre show ?thesis by (simp add: compare_comps_def)
    qed
  qed
qed


subsection \<open>Substituting a prefix\<close>

text \<open>
  \<open>substitute_path_prefix\<close> computes lengths in \<open>size_t\<close>: they wrap modulo \<open>2 ^ 64\<close>.  Where
  the old prefix is longer than the path the source moves a wrapped number of bytes, which
  is undefined: the model's result is \<open>Inl Undefined\<close>.  \<open>Err ENAMETOOLONG\<close> is the error
  return (which leaves the path alone), \<open>Inr p\<close> the new path, whose length the
  source returns.
\<close>

definition substitute_path_prefix :: "string \<Rightarrow> nat \<Rightarrow> string \<Rightarrow> nat \<Rightarrow> string res" where
  "substitute_path_prefix path old_prefix_length new_prefix new_prefix_length =
     (let path_length = length path in
      if new_prefix_length = 1 then
        (if path_length < old_prefix_length then Inl Undefined
         else if path_length - old_prefix_length \<noteq> 0 then Inr (drop old_prefix_length path)
         else Inr ''/'')
      else if old_prefix_length = 1 then
        (if new_prefix_length + path_length \<ge> PATH_MAX then Err ENAMETOOLONG
         else if 1 < path_length then Inr (take new_prefix_length new_prefix @ path)
         else Inr (take new_prefix_length new_prefix))
      else
        (let new_length =
           (int path_length - int old_prefix_length + int new_prefix_length) mod 2 ^ 64
         in if new_length \<ge> int PATH_MAX then Err ENAMETOOLONG
            else if path_length < old_prefix_length then Inl Undefined
            else Inr (take new_prefix_length new_prefix @ drop old_prefix_length path)))"

definition substitution_fits :: "string list \<Rightarrow> string list \<Rightarrow> string list \<Rightarrow> bool" where
  "substitution_fits os ns rest \<longleftrightarrow>
     ns = [] \<or> (if os = [] then length (path_of ns) + length (path_of rest) < PATH_MAX
               else length (path_of (ns @ rest)) < PATH_MAX)"

lemma length_slashed_eq_1: "valid_comps cs \<Longrightarrow> length (slashed cs) \<noteq> Suc 0"
  by (cases cs) (auto simp: valid_comp_def)

lemma length_path_of_eq_1 [simp]:
  "valid_comps cs \<Longrightarrow> length (path_of cs) = Suc 0 \<longleftrightarrow> cs = []"
  using length_slashed_eq_1[of cs] by (cases "cs = []") auto

lemma path_of_append_drop:
  "os \<noteq> [] \<Longrightarrow> drop (length (path_of os)) (path_of (os @ rest)) = slashed rest"
  by simp

lemma small_mod_size_t:
  assumes "0 \<le> n" and "n < 2 ^ 64"
  shows "(n::int) mod 2 ^ 64 = n"
  using assms by simp

text \<open>
  On canonical paths, and on a path that fits in the address space, the routine replaces
  the leading components.  The pair of roots is excluded: the source never substitutes a
  symmetric binding.
\<close>

lemma substitute_path_prefix_comps:
  assumes os: "valid_comps os" and ns: "valid_comps ns" and rest: "valid_comps rest"
    and distinct: "os \<noteq> [] \<or> ns \<noteq> []"
    and space: "length (path_of (ns @ rest)) < 2 ^ 64"
  shows "substitute_path_prefix (path_of (os @ rest)) (length (path_of os))
           (path_of ns) (length (path_of ns)) =
         (if substitution_fits os ns rest then Inr (path_of (ns @ rest)) else Err ENAMETOOLONG)"
proof -
  consider (root_new) "ns = []" | (root_old) "ns \<noteq> []" "os = []" | (generic) "ns \<noteq> []" "os \<noteq> []"
    by blast
  then show ?thesis
  proof cases
    case root_new
    with distinct show ?thesis
      by (cases "rest = []") (auto simp: substitute_path_prefix_def substitution_fits_def)
  next
    case root_old
    moreover have "1 < length (path_of rest) \<longleftrightarrow> rest \<noteq> []"
      using length_path_of_eq_1[OF rest] length_path_of_ge_1[of rest] by fastforce
    ultimately show ?thesis
      using length_path_of_eq_1[OF ns]
      by (auto simp: substitute_path_prefix_def substitution_fits_def)
  next
    case generic
    have len: "int (length (path_of (os @ rest))) - int (length (path_of os))
        + int (length (path_of ns)) = int (length (path_of (ns @ rest)))"
      using generic by simp
    have wrap: "int (length (path_of (ns @ rest))) mod 2 ^ 64 = int (length (path_of (ns @ rest)))"
      using space by (intro small_mod_size_t) simp_all
    have ok: "\<not> length (path_of (os @ rest)) < length (path_of os)"
      using generic by simp
    show ?thesis
      using generic ok length_path_of_eq_1[OF ns] length_path_of_eq_1[OF os]
      unfolding substitute_path_prefix_def Let_def len wrap
      by (simp add: substitution_fits_def)
  qed
qed

subsection \<open>Chopping the end\<close>

text \<open>
  \<open>chop_finality\<close> indexes the last character, so an empty path, and the path ''.'', make it
  write before the buffer: \<open>Inl Undefined\<close>.
\<close>

definition chop_finality :: "string \<Rightarrow> string res" where
  "chop_finality path =
     (let len = length path in
      if len = 0 then Inl Undefined
      else if char_at path (len - 1) = CHR ''.'' then
        (if len = 2 then Inr (take (len - 1) path)
         else if len < 2 then Inl Undefined
         else Inr (take (len - 2) path))
      else if char_at path (len - 1) = CHR ''/'' then
        (if 1 < len then Inr (take (len - 1) path) else Inr path)
      else Inr path)"

text \<open>What \<open>canonicalize\<close> leaves at its first level: a canonical path and an ending.\<close>

definition with_finality :: "string list \<Rightarrow> Finality \<Rightarrow> string" where
  "with_finality cs f =
     (case f of FINAL_SLASH \<Rightarrow> slashed cs @ ''/'' | FINAL_DOT \<Rightarrow> slashed cs @ ''/.''
      | _ \<Rightarrow> path_of cs)"

lemma path_of_last:
  "cs \<noteq> [] \<Longrightarrow> valid_comps cs \<Longrightarrow> last (path_of cs) = last (last cs)"
  by (cases cs rule: rev_cases) (auto simp: valid_comp_def)

lemma chop_finality_comps:
  assumes cs: "valid_comps cs"
    and dot: "cs = [] \<or> f \<in> {FINAL_SLASH, FINAL_DOT} \<or> last (last cs) \<noteq> CHR ''.''"
  shows "chop_finality (with_finality cs f) = Inr (path_of cs)"
proof -
  have len: "cs \<noteq> [] \<Longrightarrow> 2 \<le> length (slashed cs)"
    using length_slashed_eq_1[OF cs] by (cases cs) (auto simp: valid_comp_def Suc_le_eq)
  have last: "cs \<noteq> [] \<Longrightarrow> slashed cs ! (length (slashed cs) - Suc 0) = last (last cs)"
    using path_of_last[OF _ cs] by (simp add: last_conv_nth)
  have slash: "cs \<noteq> [] \<Longrightarrow> last (last cs) \<noteq> CHR ''/''"
    using slashed_last_nth[OF cs] last by simp
  show ?thesis
  proof (cases "cs = []")
    case True
    then show ?thesis
      by (cases f) (simp_all add: chop_finality_def with_finality_def numeral_2_eq_2)
  next
    case False
    then show ?thesis
      using dot len last slash
      by (cases f) (auto simp: chop_finality_def with_finality_def Let_def nth_append)
  qed
qed

end
