(* ===== verification/Bindings.thy ===== *)
theory Bindings
  imports Paths
begin

section \<open>Bindings\<close>

text \<open>
  core/proot/src/main/cpp/path/binding.c: the lists of bindings of a file-system name-space,
  the look-up of the binding that covers a path, the substitution of a path and the sorted
  insertion.  The circular lists of the source are HOL lists in their forward order, a list
  not allocated yet is \<open>None\<close>, and an object is identified by its address \<open>b_addr\<close>, since
  the same object is linked in several lists.  The memory management (Talloc references,
  destructors) is not modelled.
\<close>

subsection \<open>The order of bindings: an interface\<close>

text \<open>
  The sorted insertion and the look-up rely on the comparison of paths being a preorder whose
  lower sets are linear.  Both directions (guest and host) are instances, see below.
\<close>

definition covers :: "('a \<Rightarrow> 'a \<Rightarrow> Comparison) \<Rightarrow> 'a \<Rightarrow> 'a \<Rightarrow> bool" where
  "covers cmp x y \<longleftrightarrow> cmp x y = PATHS_ARE_EQUAL \<or> cmp x y = PATH1_IS_PREFIX"

text \<open>In a nested list no element strictly contains a later one: the deepest come first.\<close>

definition nested :: "('a \<Rightarrow> 'a \<Rightarrow> Comparison) \<Rightarrow> ('b \<Rightarrow> 'a) \<Rightarrow> 'b list \<Rightarrow> bool" where
  "nested cmp key bs \<longleftrightarrow> sorted_wrt (\<lambda>x y. cmp (key x) (key y) \<noteq> PATH1_IS_PREFIX) bs"

locale path_order =
  fixes cmp :: "'a \<Rightarrow> 'a \<Rightarrow> Comparison"
    and ok :: "'a \<Rightarrow> bool"
  assumes cmp_equal_sym: "ok x \<Longrightarrow> ok y \<Longrightarrow> cmp x y = PATHS_ARE_EQUAL \<Longrightarrow> cmp y x = PATHS_ARE_EQUAL"
    and cmp_flip: "ok x \<Longrightarrow> ok y \<Longrightarrow> cmp x y = PATH1_IS_PREFIX \<longleftrightarrow> cmp y x = PATH2_IS_PREFIX"
    and covers_trans: "ok x \<Longrightarrow> ok y \<Longrightarrow> ok z \<Longrightarrow> covers cmp x y \<Longrightarrow> covers cmp y z \<Longrightarrow> covers cmp x z"
    and strict_left: "ok x \<Longrightarrow> ok y \<Longrightarrow> ok z \<Longrightarrow>
      cmp x y = PATH1_IS_PREFIX \<Longrightarrow> covers cmp y z \<Longrightarrow> cmp x z = PATH1_IS_PREFIX"
    and strict_right: "ok x \<Longrightarrow> ok y \<Longrightarrow> ok z \<Longrightarrow>
      covers cmp x y \<Longrightarrow> cmp y z = PATH1_IS_PREFIX \<Longrightarrow> cmp x z = PATH1_IS_PREFIX"
    and linear: "ok x \<Longrightarrow> ok y \<Longrightarrow> ok z \<Longrightarrow>
      covers cmp x z \<Longrightarrow> covers cmp y z \<Longrightarrow> covers cmp x y \<or> cmp y x = PATH1_IS_PREFIX"
begin

lemma equal_strict_left:
  assumes "ok x" "ok y" "ok z" "cmp x y = PATHS_ARE_EQUAL" "cmp x z = PATH1_IS_PREFIX"
  shows "cmp y z = PATH1_IS_PREFIX"
  using assms strict_right[of y x z] cmp_equal_sym[of x y] by (simp add: covers_def)

text \<open>Inserting right after the last element that the new one covers keeps the order.\<close>

lemma nested_insert_after:
  assumes ok: "ok (key b)" "\<forall>x \<in> set (xs @ p # ys). ok (key x)"
    and nested: "nested cmp key (xs @ p # ys)"
    and p: "covers cmp (key b) (key p)"
    and ys: "\<forall>y \<in> set ys. cmp (key b) (key y) \<noteq> PATH1_IS_PREFIX"
  shows "nested cmp key (xs @ p # b # ys)"
proof -
  have xs: "cmp (key x) (key b) \<noteq> PATH1_IS_PREFIX" if "x \<in> set xs" for x
    using that nested ok p strict_left[of "key x" "key b" "key p"]
    by (auto simp: nested_def sorted_wrt_append)
  have "cmp (key p) (key b) \<noteq> PATH1_IS_PREFIX"
    using ok p cmp_equal_sym[of "key b" "key p"] cmp_flip[of "key p" "key b"]
    by (auto simp: covers_def)
  with xs ys nested show ?thesis
    by (auto simp: nested_def sorted_wrt_append)
qed

text \<open>Replacing an element by an equal one keeps the order.\<close>

lemma nested_replace:
  assumes ok: "ok (key b)" "\<forall>x \<in> set (xs @ p # ys). ok (key x)"
    and nested: "nested cmp key (xs @ p # ys)"
    and p: "cmp (key b) (key p) = PATHS_ARE_EQUAL"
  shows "nested cmp key (xs @ b # ys)"
proof -
  have "cmp (key x) (key b) \<noteq> PATH1_IS_PREFIX" if "x \<in> set xs" for x
    using that nested ok p strict_left[of "key x" "key b" "key p"]
    by (auto simp: nested_def sorted_wrt_append covers_def)
  moreover have "cmp (key b) (key y) \<noteq> PATH1_IS_PREFIX" if "y \<in> set ys" for y
    using that nested ok p equal_strict_left[of "key b" "key p" "key y"]
    by (auto simp: nested_def sorted_wrt_append)
  ultimately show ?thesis
    using nested by (auto simp: nested_def sorted_wrt_append)
qed

text \<open>The first element that covers \<open>z\<close> is the deepest: every other one covers it.\<close>

lemma find_deepest:
  assumes ok: "ok z" "\<forall>x \<in> set bs. ok (key x)"
    and nested: "nested cmp key bs"
    and find: "find (\<lambda>x. covers cmp (key x) z) bs = Some b"
    and y: "y \<in> set bs" "covers cmp (key y) z"
  shows "y = b \<or> covers cmp (key y) (key b)"
proof -
  from find obtain i where i: "i < length bs" "bs ! i = b" "covers cmp (key b) z"
    and first: "\<forall>j<i. \<not> covers cmp (key (bs ! j)) z"
    by (auto simp: find_Some_iff)
  from y(1) obtain j where j: "j < length bs" "bs ! j = y"
    by (auto simp: in_set_conv_nth)
  with first y(2) have "i \<le> j" by (meson not_le)
  then consider "i = j" | "i < j" by linarith
  then show ?thesis
  proof cases
    case 2
    have in_bs: "b \<in> set bs" using i by auto
    from 2 nested i j have "cmp (key b) (key y) \<noteq> PATH1_IS_PREFIX"
      by (auto simp: nested_def sorted_wrt_iff_nth_less)
    then show ?thesis
      using linear[of "key y" "key b" z] ok y i(3) in_bs by blast
  qed (use i j in auto)
qed

end

lemma covers_comps: "covers compare_comps as bs \<longleftrightarrow> prefix as bs"
  by (auto simp: covers_def compare_comps_def)

lemma compare_comps_P1: "compare_comps as bs = PATH1_IS_PREFIX \<longleftrightarrow> strict_prefix as bs"
  by (auto simp: compare_comps_def strict_prefix_def)

lemma compare_comps_P2: "compare_comps as bs = PATH2_IS_PREFIX \<longleftrightarrow> strict_prefix bs as"
  by (auto simp: compare_comps_def strict_prefix_def)

lemma compare_comps_EQ: "compare_comps as bs = PATHS_ARE_EQUAL \<longleftrightarrow> as = bs"
  by (auto simp: compare_comps_def)

lemmas compare_comps_iffs = covers_comps compare_comps_P1 compare_comps_P2 compare_comps_EQ

interpretation comps: path_order compare_comps "\<lambda>_. True"
proof (unfold_locales, unfold compare_comps_iffs)
  fix x y z :: "string list"
  assume "prefix x z" and "prefix y z"
  then show "prefix x y \<or> strict_prefix y x"
    using prefix_same_cases[of x z y] by (auto simp: strict_prefix_def)
qed (auto simp: strict_prefix_def dest: prefix_order.trans prefix_order.antisym)

lemma covers_paths:
  assumes "valid_comps as" and "valid_comps bs"
  shows "covers compare_paths (path_of as) (path_of bs) \<longleftrightarrow> prefix as bs"
  using assms by (simp add: covers_def compare_paths_comps flip: covers_comps)

text \<open>The comparison of the source is such an order on canonical paths.\<close>

interpretation paths: path_order compare_paths canonical
proof (unfold_locales, goal_cases)
  case (1 x y) then show ?case
    by (auto simp: compare_paths_comps compare_comps_iffs)
next
  case (2 x y) then show ?case
    by (auto simp: compare_paths_comps compare_comps_iffs)
next
  case (3 x y z) then show ?case
    by (auto simp: covers_paths dest: prefix_order.trans)
next
  case (4 x y z) then show ?case
    by (auto simp: covers_paths compare_paths_comps compare_comps_iffs
        dest: prefix_order.less_le_trans)
next
  case (5 x y z) then show ?case
    by (auto simp: covers_paths compare_paths_comps compare_comps_iffs
        dest: prefix_order.le_less_trans)
next
  case (6 x y z) then show ?case
    by (auto simp: covers_paths compare_paths_comps compare_comps_iffs strict_prefix_def
        dest: prefix_same_cases)
qed


subsection \<open>The data\<close>

record Binding =
  b_addr :: nat
  b_host :: Path
  b_guest :: Path
  need_substitution :: bool

record FileSystemNameSpace =
  fs_pending :: "Binding list option"
  fs_guest :: "Binding list option"
  fs_host :: "Binding list option"
  fs_cwd :: string

text \<open>
  The macros HEAD, NEXT and CIRCLEQ_FOREACH_: the list of a side.  A list that is not
  allocated is iterated as an empty one (the source would follow a NULL pointer).
\<close>

definition HEAD :: "FileSystemNameSpace \<Rightarrow> Side \<Rightarrow> Binding list option" where
  "HEAD fs side =
     (case side of GUEST \<Rightarrow> fs_guest fs | HOST \<Rightarrow> fs_host fs | PENDING \<Rightarrow> fs_pending fs)"

definition set_HEAD ::
  "FileSystemNameSpace \<Rightarrow> Side \<Rightarrow> Binding list option \<Rightarrow> FileSystemNameSpace" where
  "set_HEAD fs side bs =
     (case side of GUEST \<Rightarrow> fs\<lparr>fs_guest := bs\<rparr> | HOST \<Rightarrow> fs\<lparr>fs_host := bs\<rparr>
      | PENDING \<Rightarrow> fs\<lparr>fs_pending := bs\<rparr>)"

definition foreach :: "FileSystemNameSpace \<Rightarrow> Side \<Rightarrow> Binding list" where
  "foreach fs side = (case HEAD fs side of None \<Rightarrow> [] | Some bs \<Rightarrow> bs)"

fun insert_after :: "nat \<Rightarrow> Binding \<Rightarrow> Binding list \<Rightarrow> Binding list" where
  "insert_after a b [] = []"
| "insert_after a b (x # xs) = (if b_addr x = a then x # b # xs else x # insert_after a b xs)"

fun insert_before :: "nat \<Rightarrow> Binding \<Rightarrow> Binding list \<Rightarrow> Binding list" where
  "insert_before a b [] = []"
| "insert_before a b (x # xs) = (if b_addr x = a then b # x # xs else x # insert_before a b xs)"

definition remove_addr :: "nat \<Rightarrow> Binding list \<Rightarrow> Binding list" where
  "remove_addr a bs = filter (\<lambda>x. b_addr x \<noteq> a) bs"

subsection \<open>Look-up and substitution\<close>

definition get_root :: "FileSystemNameSpace \<Rightarrow> string option" where
  "get_root fs =
     (case fs_guest fs of
        None \<Rightarrow>
          (case fs_pending fs of
             None \<Rightarrow> None
           | Some [] \<Rightarrow> None
           | Some bs \<Rightarrow>
               (if compare_paths (path_str (b_guest (last bs))) ''/'' \<noteq> PATHS_ARE_EQUAL then None
                else Some (path_str (b_host (last bs)))))
      | Some [] \<Rightarrow> None
      | Some bs \<Rightarrow> Some (path_str (b_host (last bs))))"

text \<open>The root as the comparisons read it (they would follow a NULL pointer otherwise).\<close>

definition root_path :: "FileSystemNameSpace \<Rightarrow> string" where
  "root_path fs = (case get_root fs of None \<Rightarrow> [] | Some r \<Rightarrow> r)"

definition belongs_to_guestfs :: "FileSystemNameSpace \<Rightarrow> string \<Rightarrow> bool" where
  "belongs_to_guestfs fs host_path =
     (let comparison = compare_paths (root_path fs) host_path in
      comparison = PATHS_ARE_EQUAL \<or> comparison = PATH1_IS_PREFIX)"

fun get_binding_loop ::
  "FileSystemNameSpace \<Rightarrow> Side \<Rightarrow> string \<Rightarrow> Binding list \<Rightarrow> Binding option" where
  "get_binding_loop fs side path [] = None"
| "get_binding_loop fs side path (binding # rest) =
     (case side of
        PENDING \<Rightarrow> None
      | _ \<Rightarrow>
        (let ref = (if side = GUEST then b_guest binding else b_host binding);
             comparison = compare_paths2 (path_str ref) (path_len ref) path (length path)
         in if comparison \<noteq> PATHS_ARE_EQUAL \<and> comparison \<noteq> PATH1_IS_PREFIX
            then get_binding_loop fs side path rest
            else if side = HOST
                    \<and> compare_paths (root_path fs) ''/'' \<noteq> PATHS_ARE_EQUAL
                    \<and> belongs_to_guestfs fs path
            then get_binding_loop fs side path rest
            else Some binding))"

definition get_binding :: "FileSystemNameSpace \<Rightarrow> Side \<Rightarrow> string \<Rightarrow> Binding option" where
  "get_binding fs side path = get_binding_loop fs side path (foreach fs side)"

definition get_path_binding :: "FileSystemNameSpace \<Rightarrow> Side \<Rightarrow> string \<Rightarrow> string option" where
  "get_path_binding fs side path =
     (case get_binding fs side path of
        None \<Rightarrow> None
      | Some binding \<Rightarrow>
          (case side of
             GUEST \<Rightarrow> Some (path_str (b_guest binding))
           | HOST \<Rightarrow> Some (path_str (b_host binding))
           | PENDING \<Rightarrow> None))"

text \<open>
  The status of \<open>substitute_binding\<close> is 0 for a symmetric binding and 1 for a substitution,
  paired with the new content of the path.  The source ignores the error return of
  \<open>substitute_path_prefix\<close>: then the path is unchanged and the status is 1.
\<close>

definition substitute_binding ::
  "FileSystemNameSpace \<Rightarrow> Side \<Rightarrow> string \<Rightarrow> (nat \<times> string) res" where
  "substitute_binding fs side path =
     (case get_binding fs side path of
        None \<Rightarrow> Err ENOENT
      | Some binding \<Rightarrow>
          (if \<not> need_substitution binding then Inr (0, path)
           else
             (case side of
                PENDING \<Rightarrow> Err EACCES
              | _ \<Rightarrow>
                (let ref = (if side = GUEST then b_guest binding else b_host binding);
                     reverse_ref = (if side = GUEST then b_host binding else b_guest binding)
                 in case substitute_path_prefix path (path_len ref)
                           (path_str reverse_ref) (path_len reverse_ref) of
                      Inl (Errno e) \<Rightarrow> Inr (1, path)
                    | Inl Undefined \<Rightarrow> Inl Undefined
                    | Inr path' \<Rightarrow> Inr (1, path')))))"

subsection \<open>Insertion\<close>

definition remove_binding_from_all_lists ::
  "FileSystemNameSpace \<Rightarrow> Binding \<Rightarrow> FileSystemNameSpace" where
  "remove_binding_from_all_lists fs binding =
     fs\<lparr>fs_pending := map_option (remove_addr (b_addr binding)) (fs_pending fs),
        fs_guest := map_option (remove_addr (b_addr binding)) (fs_guest fs),
        fs_host := map_option (remove_addr (b_addr binding)) (fs_host fs)\<rparr>"

text \<open>Where the loop of \<open>insort_binding\<close> decides to put the new binding.\<close>

datatype insort_pos = Replace Binding | After Binding | Before Binding | At_Head

definition sort_path :: "Side \<Rightarrow> Binding \<Rightarrow> Path" where
  "sort_path side b = (case side of HOST \<Rightarrow> b_host b | _ \<Rightarrow> b_guest b)"

text \<open>\<open>nxt\<close> is \<open>None\<close> where the variable \<open>next\<close> of the source is the head of the list.\<close>

fun insort_loop ::
  "Side \<Rightarrow> Binding \<Rightarrow> Binding list \<Rightarrow> Binding option \<Rightarrow> Binding option \<Rightarrow> insort_pos" where
  "insort_loop side binding [] previous nxt =
     (case previous of
        Some p \<Rightarrow> After p
      | None \<Rightarrow> (case nxt of Some n \<Rightarrow> Before n | None \<Rightarrow> At_Head))"
| "insort_loop side binding (iterator # rest) previous nxt =
     (let binding_path = sort_path side binding; iterator_path = sort_path side iterator in
      case compare_paths2 (path_str binding_path) (path_len binding_path)
             (path_str iterator_path) (path_len iterator_path) of
        PATHS_ARE_EQUAL \<Rightarrow>
          (if side = HOST then insort_loop side binding rest (Some iterator) nxt
           else Replace iterator)
      | PATH1_IS_PREFIX \<Rightarrow> insort_loop side binding rest (Some iterator) nxt
      | PATH2_IS_PREFIX \<Rightarrow>
          insort_loop side binding rest previous (if nxt = None then Some iterator else nxt)
      | PATHS_ARE_NOT_COMPARABLE \<Rightarrow> insort_loop side binding rest previous nxt)"

definition insort_binding :: "FileSystemNameSpace \<Rightarrow> Side \<Rightarrow> Binding \<Rightarrow> FileSystemNameSpace" where
  "insort_binding fs side binding =
     (let bs = foreach fs side;
          first = (case bs of [] \<Rightarrow> None | x # _ \<Rightarrow> Some x)
      in case insort_loop side binding bs None first of
           Replace iterator \<Rightarrow>
             remove_binding_from_all_lists
               (set_HEAD fs side (Some (insert_after (b_addr iterator) binding bs))) iterator
         | After p \<Rightarrow> set_HEAD fs side (Some (insert_after (b_addr p) binding bs))
         | Before n \<Rightarrow> set_HEAD fs side (Some (insert_before (b_addr n) binding bs))
         | At_Head \<Rightarrow> set_HEAD fs side (Some (binding # bs)))"

definition insort_binding2 :: "FileSystemNameSpace \<Rightarrow> Binding \<Rightarrow> FileSystemNameSpace" where
  "insort_binding2 fs binding =
     (let binding = binding\<lparr>need_substitution :=
            compare_paths (path_str (b_host binding)) (path_str (b_guest binding))
              \<noteq> PATHS_ARE_EQUAL\<rparr>
      in insort_binding (insort_binding fs GUEST binding) HOST binding)"

text \<open>\<open>insort_binding3\<close>: the address stands for the one the allocator returns.\<close>

definition insort_binding3 ::
  "FileSystemNameSpace \<Rightarrow> nat \<Rightarrow> string \<Rightarrow> string \<Rightarrow> FileSystemNameSpace" where
  "insort_binding3 fs addr host_path guest_path =
     insort_binding2 fs
       \<lparr>b_addr = addr, b_host = mk_Path host_path, b_guest = mk_Path guest_path,
        need_substitution = False\<rparr>"

end
