(* ===== verification/Bindings_Order.thy ===== *)
theory Bindings_Order
  imports Bindings
begin

section \<open>The invariant of a file-system name-space\<close>

text \<open>
  Once initialised, a name-space holds the same bindings in its guest and in its host list,
  both with the deepest bindings first; guest locations are unique and the root binding is
  there.  The sorted insertion of path/binding.c keeps this invariant, and the look-up finds
  the deepest binding because of it.
\<close>

definition guest_key :: "Binding \<Rightarrow> string" where
  "guest_key b = path_str (b_guest b)"

definition host_key :: "Binding \<Rightarrow> string" where
  "host_key b = path_str (b_host b)"

definition side_key :: "Side \<Rightarrow> Binding \<Rightarrow> string" where
  "side_key side b = path_str (sort_path side b)"

definition wf_binding :: "Binding \<Rightarrow> bool" where
  "wf_binding b \<longleftrightarrow> wf_Path (b_host b) \<and> wf_Path (b_guest b)
     \<and> need_substitution b = (host_key b \<noteq> guest_key b)"

definition wf_fs :: "FileSystemNameSpace \<Rightarrow> bool" where
  "wf_fs fs \<longleftrightarrow>
     (\<exists>gs hs. fs_guest fs = Some gs \<and> fs_host fs = Some hs \<and> set gs = set hs
        \<and> (\<forall>b \<in> set gs. wf_binding b)
        \<and> distinct (map b_addr gs) \<and> distinct (map b_addr hs) \<and> distinct (map guest_key gs)
        \<and> nested compare_paths guest_key gs \<and> nested compare_paths host_key hs
        \<and> (\<exists>r \<in> set gs. guest_key r = ''/''))"

text \<open>The same without the root, which a name-space may lack for a moment.\<close>

definition sorted_fs :: "FileSystemNameSpace \<Rightarrow> bool" where
  "sorted_fs fs \<longleftrightarrow>
     (\<exists>gs hs. fs_guest fs = Some gs \<and> fs_host fs = Some hs \<and> set gs = set hs
        \<and> (\<forall>b \<in> set gs. wf_binding b)
        \<and> distinct (map b_addr gs) \<and> distinct (map b_addr hs) \<and> distinct (map guest_key gs)
        \<and> nested compare_paths guest_key gs \<and> nested compare_paths host_key hs)"

lemma wf_fs_sorted:
  "wf_fs fs \<longleftrightarrow> sorted_fs fs \<and> (\<exists>r \<in> set (foreach fs GUEST). guest_key r = ''/'')"
  by (auto simp: wf_fs_def sorted_fs_def foreach_def HEAD_def)

lemma side_key_simps [simp]:
  "side_key GUEST = guest_key" "side_key PENDING = guest_key" "side_key HOST = host_key"
  by (auto simp: side_key_def guest_key_def host_key_def sort_path_def)

lemma wf_binding_paths:
  assumes "wf_binding b"
  shows "canonical (guest_key b)" and "canonical (host_key b)" and "canonical (side_key side b)"
    and "path_len (b_guest b) = length (guest_key b)" and "path_len (b_host b) = length (host_key b)"
    and "path_len (sort_path side b) = length (side_key side b)"
  using assms
  by (cases side; auto simp: wf_binding_def wf_Path_def guest_key_def host_key_def side_key_def
      sort_path_def)+

lemma canonical_root [simp]: "canonical ''/''"
  using canonicalI[of "[]"] by simp

lemma compare_paths_equal_iff:
  "canonical p \<Longrightarrow> canonical q \<Longrightarrow> compare_paths p q = PATHS_ARE_EQUAL \<longleftrightarrow> p = q"
  by (auto simp: compare_paths_comps compare_comps_EQ dest: path_of_inject)

lemma root_covers: "canonical p \<Longrightarrow> covers compare_paths ''/'' p"
  using covers_paths[of "[]"] by auto

subsection \<open>What the insertion does to a list\<close>

lemma insert_after_split:
  "distinct (map b_addr (xs @ p # ys)) \<Longrightarrow>
     insert_after (b_addr p) b (xs @ p # ys) = xs @ p # b # ys"
  by (induction xs) (auto simp: image_iff)

lemma insert_before_hd [simp]: "insert_before (b_addr x) b (x # xs) = b # x # xs"
  by simp

lemma remove_addr_split:
  "distinct (map b_addr (xs @ p # ys)) \<Longrightarrow> remove_addr (b_addr p) (xs @ p # ys) = xs @ ys"
  by (induction xs) (auto simp: remove_addr_def image_iff intro!: filter_True)

lemma set_remove_addr: "set (remove_addr a bs) = {x \<in> set bs. b_addr x \<noteq> a}"
  by (auto simp: remove_addr_def)

lemma foreach_set_HEAD [simp]: "HEAD (set_HEAD fs side bs) side = bs"
  by (cases side) (simp_all add: HEAD_def set_HEAD_def)

lemma HEAD_remove:
  "HEAD (remove_binding_from_all_lists fs b) side =
     map_option (remove_addr (b_addr b)) (HEAD fs side)"
  by (cases side) (simp_all add: HEAD_def remove_binding_from_all_lists_def)

text \<open>
  \<open>Before\<close> only ever names the first element: the variable \<open>next\<close> starts at the head of a
  non-empty list, so its update in the loop is never reached.
\<close>

definition insort_post ::
  "(Binding \<Rightarrow> Comparison) \<Rightarrow> Side \<Rightarrow> Binding list \<Rightarrow> Binding option \<Rightarrow> Binding option
     \<Rightarrow> insort_pos \<Rightarrow> bool" where
  "insort_post c side bs previous nxt pos \<longleftrightarrow>
     (case pos of
        Replace it \<Rightarrow> side \<noteq> HOST \<and> c it = PATHS_ARE_EQUAL \<and> (\<exists>xs ys. bs = xs @ it # ys)
      | After p \<Rightarrow> (side \<noteq> HOST \<longrightarrow> (\<forall>x \<in> set bs. c x \<noteq> PATHS_ARE_EQUAL)) \<and>
          ((previous = Some p \<and> (\<forall>x \<in> set bs. c x \<noteq> PATH1_IS_PREFIX)) \<or>
           (\<exists>xs ys. bs = xs @ p # ys \<and> (c p = PATHS_ARE_EQUAL \<or> c p = PATH1_IS_PREFIX)
              \<and> (\<forall>y \<in> set ys. c y \<noteq> PATH1_IS_PREFIX)))
      | Before n \<Rightarrow> previous = None \<and> (nxt \<noteq> None \<longrightarrow> nxt = Some n) \<and>
          (\<forall>x \<in> set bs. c x \<noteq> PATH1_IS_PREFIX \<and> c x \<noteq> PATHS_ARE_EQUAL)
      | At_Head \<Rightarrow> previous = None \<and> nxt = None \<and>
          (\<forall>x \<in> set bs. c x \<noteq> PATH1_IS_PREFIX \<and> c x \<noteq> PATHS_ARE_EQUAL))"

lemma insort_post_skip:
  assumes "insort_post c side bs previous nxt' pos" and "c x \<noteq> PATHS_ARE_EQUAL"
    and "c x \<noteq> PATH1_IS_PREFIX" and "nxt \<noteq> None \<Longrightarrow> nxt' = nxt" and "nxt' = None \<Longrightarrow> nxt = None"
  shows "insort_post c side (x # bs) previous nxt pos"
proof (cases pos)
  case (Replace it)
  then show ?thesis using assms by (auto simp: insort_post_def) (metis append_Cons)
next
  case (After p)
  then show ?thesis using assms by (auto simp: insort_post_def) (metis append_Cons)+
next
  case (Before n)
  then show ?thesis
    using assms by (cases nxt) (simp_all add: insort_post_def)
next
  case At_Head
  then show ?thesis using assms by (simp add: insort_post_def)
qed

lemma insort_post_previous:
  assumes "insort_post c side bs (Some x) nxt pos"
    and "c x = PATH1_IS_PREFIX \<or> c x = PATHS_ARE_EQUAL \<and> side = HOST"
  shows "insort_post c side (x # bs) previous nxt pos"
proof (cases pos)
  case (Replace it)
  then show ?thesis using assms by (auto simp: insort_post_def) (metis append_Cons)
next
  case (After p)
  from assms After consider "x = p" "\<forall>x \<in> set bs. c x \<noteq> PATH1_IS_PREFIX"
    | xs ys where "bs = xs @ p # ys" "c p = PATHS_ARE_EQUAL \<or> c p = PATH1_IS_PREFIX"
        "\<forall>y \<in> set ys. c y \<noteq> PATH1_IS_PREFIX"
    by (auto simp: insort_post_def)
  then have "\<exists>xs ys. x # bs = xs @ p # ys \<and> (c p = PATHS_ARE_EQUAL \<or> c p = PATH1_IS_PREFIX)
      \<and> (\<forall>y \<in> set ys. c y \<noteq> PATH1_IS_PREFIX)"
  proof cases
    case 1
    then show ?thesis using assms(2) by (intro exI[of _ "[]"] exI[of _ bs]) auto
  next
    case (2 xs ys)
    then show ?thesis by (intro exI[of _ "x # xs"] exI[of _ ys]) auto
  qed
  then show ?thesis using assms After by (auto simp: insort_post_def)
qed (use assms in \<open>auto simp: insort_post_def\<close>)

lemma insort_loop_post:
  assumes wf: "wf_binding b" and bs: "\<forall>x \<in> set bs. wf_binding x"
  shows "insort_post (\<lambda>x. compare_paths (side_key side b) (side_key side x)) side bs previous nxt
           (insort_loop side b bs previous nxt)"
  using bs
proof (induction bs arbitrary: previous nxt)
  case Nil
  then show ?case by (auto simp: insort_post_def split: option.splits)
next
  case (Cons x bs)
  let ?c = "\<lambda>x. compare_paths (side_key side b) (side_key side x)"
  have cmp: "compare_paths2 (path_str (sort_path side b)) (path_len (sort_path side b))
      (path_str (sort_path side x)) (path_len (sort_path side x)) = ?c x"
    using wf_binding_paths(6)[OF wf, of side] wf_binding_paths(6)[of x side] Cons.prems
    by (simp add: compare_paths_def side_key_def)
  have IH: "insort_post ?c side bs previous nxt (insort_loop side b bs previous nxt)"
    for previous nxt using Cons by simp
  show ?case
  proof (cases "?c x")
    case PATHS_ARE_EQUAL
    show ?thesis
    proof (cases "side = HOST")
      case True
      then show ?thesis
        using PATHS_ARE_EQUAL cmp insort_post_previous[OF IH[of "Some x"]] by simp
    next
      case False
      then have "insort_loop side b (x # bs) previous nxt = Replace x"
        using PATHS_ARE_EQUAL cmp by simp
      moreover have "\<exists>xs ys. x # bs = xs @ x # ys" by (metis append_Nil)
      ultimately show ?thesis using False PATHS_ARE_EQUAL by (simp add: insort_post_def)
    qed
  next
    case PATH1_IS_PREFIX
    then show ?thesis using cmp insort_post_previous[OF IH[of "Some x"]] by simp
  next
    case PATH2_IS_PREFIX
    then have "insort_loop side b (x # bs) previous nxt =
        insort_loop side b bs previous (if nxt = None then Some x else nxt)"
      using cmp by simp
    moreover have "insort_post ?c side (x # bs) previous nxt
        (insort_loop side b bs previous (if nxt = None then Some x else nxt))"
      by (rule insort_post_skip[OF IH]) (use PATH2_IS_PREFIX in \<open>auto split: if_splits\<close>)
    ultimately show ?thesis by simp
  next
    case PATHS_ARE_NOT_COMPARABLE
    then have "insort_loop side b (x # bs) previous nxt = insort_loop side b bs previous nxt"
      using cmp by simp
    moreover have "insort_post ?c side (x # bs) previous nxt (insort_loop side b bs previous nxt)"
      by (rule insort_post_skip[OF IH]) (use PATHS_ARE_NOT_COMPARABLE in auto)
    ultimately show ?thesis by simp
  qed
qed


subsection \<open>The insertion keeps the invariant\<close>

definition inserted :: "FileSystemNameSpace \<Rightarrow> Side \<Rightarrow> Binding \<Rightarrow> Binding list \<Rightarrow> Binding list \<Rightarrow> bool" where
  "inserted fs side b bs bs' \<longleftrightarrow>
     nested compare_paths (side_key side) bs' \<and> distinct (map b_addr bs') \<and>
     ((\<exists>it \<in> set bs. side \<noteq> HOST \<and> side_key side it = side_key side b
         \<and> set bs' = insert b (set bs - {it})
         \<and> insort_binding fs side b =
             set_HEAD (remove_binding_from_all_lists fs it) side (Some bs'))
      \<or> (set bs' = insert b (set bs)
         \<and> (side \<noteq> HOST \<longrightarrow> (\<forall>x \<in> set bs. side_key side x \<noteq> side_key side b))
         \<and> insort_binding fs side b = set_HEAD fs side (Some bs')))"

lemma remove_from_all_set_HEAD:
  "remove_binding_from_all_lists (set_HEAD fs side (Some bs)) it =
     set_HEAD (remove_binding_from_all_lists fs it) side (Some (remove_addr (b_addr it) bs))"
  by (cases side) (simp_all add: remove_binding_from_all_lists_def set_HEAD_def)

lemma insort_binding_inserted:
  assumes H: "HEAD fs side = Some bs"
    and wf: "wf_binding b" "\<forall>x \<in> set bs. wf_binding x"
    and dist: "distinct (map b_addr bs)" and fresh: "b_addr b \<notin> b_addr ` set bs"
    and nested: "nested compare_paths (side_key side) bs"
  shows "\<exists>bs'. inserted fs side b bs bs'"
proof -
  let ?key = "side_key side"
  let ?c = "\<lambda>x. compare_paths (?key b) (?key x)"
  let ?first = "case bs of [] \<Rightarrow> None | x # _ \<Rightarrow> Some x"
  have fe: "foreach fs side = bs" using H by (simp add: foreach_def)
  have canon: "canonical (?key b)" "\<forall>x \<in> set bs. canonical (?key x)"
    using wf wf_binding_paths(3) by auto
  have eq: "?c x = PATHS_ARE_EQUAL \<longleftrightarrow> ?key x = ?key b" if "x \<in> set bs" for x
    using that canon compare_paths_equal_iff by auto
  have post: "insort_post ?c side bs None ?first (insort_loop side b bs None ?first)"
    by (rule insort_loop_post[OF wf])
  show ?thesis
  proof (cases "insort_loop side b bs None ?first")
    case (Replace it)
    with post obtain xs ys where it: "side \<noteq> HOST" "?c it = PATHS_ARE_EQUAL" "bs = xs @ it # ys"
      by (auto simp: insort_post_def)
    have "b_addr it \<noteq> b_addr b" using fresh it(3) by auto
    moreover have "remove_addr (b_addr it) (xs @ it # b # ys) = xs @ b # ys"
      using dist it(3) fresh by (intro remove_addr_split) auto
    ultimately have "insort_binding fs side b =
        set_HEAD (remove_binding_from_all_lists fs it) side (Some (xs @ b # ys))"
      using Replace it dist
      by (simp add: insort_binding_def fe insert_after_split remove_from_all_set_HEAD)
    moreover have "nested compare_paths ?key (xs @ b # ys)"
      using paths.nested_replace[of ?key b xs it ys] canon nested it by auto
    moreover have "distinct (map b_addr (xs @ b # ys))" "it \<in> set bs" "?key it = ?key b"
      using dist fresh it eq by auto
    moreover have "set (xs @ b # ys) = insert b (set bs - {it})"
      using it dist by auto
    ultimately show ?thesis
      using it(1) unfolding inserted_def by blast
  next
    case (After p)
    with post obtain xs ys where p: "bs = xs @ p # ys" "covers compare_paths (?key b) (?key p)"
        "\<forall>y \<in> set ys. ?c y \<noteq> PATH1_IS_PREFIX"
      and neq: "side \<noteq> HOST \<longrightarrow> (\<forall>x \<in> set bs. ?c x \<noteq> PATHS_ARE_EQUAL)"
      by (auto simp: insort_post_def covers_def)
    have "insort_binding fs side b = set_HEAD fs side (Some (xs @ p # b # ys))"
      using After p(1) dist by (simp add: insort_binding_def fe insert_after_split)
    moreover have "nested compare_paths ?key (xs @ p # b # ys)"
      using paths.nested_insert_after[of ?key b xs p ys] canon nested p by auto
    moreover have "distinct (map b_addr (xs @ p # b # ys))"
      "set (xs @ p # b # ys) = insert b (set bs)"
      using dist fresh p(1) by auto
    ultimately show ?thesis using neq eq unfolding inserted_def by blast
  next
    case (Before n)
    with post have n: "\<forall>x \<in> set bs. ?c x \<noteq> PATH1_IS_PREFIX \<and> ?c x \<noteq> PATHS_ARE_EQUAL"
        "?first \<noteq> None \<longrightarrow> ?first = Some n"
      by (auto simp: insort_post_def)
    have "bs \<noteq> []" using Before by auto
    with n(2) obtain rest where rest: "bs = n # rest" by (cases bs) auto
    have "insort_binding fs side b = set_HEAD fs side (Some (b # bs))"
      using Before rest by (simp add: insort_binding_def fe)
    moreover have "nested compare_paths ?key (b # bs)" "distinct (map b_addr (b # bs))"
      using n nested dist fresh by (auto simp: nested_def)
    ultimately show ?thesis
      using n eq unfolding inserted_def by (intro exI[of _ "b # bs"]) auto
  next
    case At_Head
    with post have n: "bs = []" by (auto simp: insort_post_def split: list.splits)
    then have "insort_binding fs side b = set_HEAD fs side (Some [b])"
      using At_Head by (simp add: insort_binding_def fe)
    then show ?thesis
      using n unfolding inserted_def by (intro exI[of _ "[b]"]) (auto simp: nested_def)
  qed
qed

text \<open>In an ordered list the binding of the root comes last.\<close>

lemma root_last:
  assumes nested: "nested compare_paths guest_key gs" and "\<forall>b \<in> set gs. wf_binding b"
    and "distinct (map guest_key gs)" and r: "r \<in> set gs" "guest_key r = ''/''"
  shows "last gs = r"
proof -
  from r(1) obtain xs ys where gs: "gs = xs @ r # ys" by (metis split_list)
  have "ys = []"
  proof (rule ccontr)
    assume "ys \<noteq> []"
    then obtain y where y: "y \<in> set ys" by (cases ys) auto
    have "covers compare_paths ''/'' (guest_key y)"
      using assms(2) y gs wf_binding_paths(1) by (intro root_covers) auto
    moreover have "compare_paths ''/'' (guest_key y) \<noteq> PATH1_IS_PREFIX"
      using nested gs y r(2) by (auto simp: nested_def sorted_wrt_append)
    ultimately have "compare_paths ''/'' (guest_key y) = PATHS_ARE_EQUAL"
      by (simp add: covers_def)
    moreover have "canonical (guest_key y)"
      using assms(2) y gs wf_binding_paths(1) by auto
    ultimately have "guest_key y = ''/''"
      by (auto simp: compare_paths_equal_iff)
    with assms(3) gs y r(2) show False by (auto simp: image_iff)
  qed
  with gs show ?thesis by simp
qed


text \<open>
  \<open>insort_binding2\<close> keeps the invariant, for a binding with canonical paths whose object is
  not linked yet.  The binding it replaces, if any, is the one at the same guest location.
\<close>

lemma insort_binding2_sorted:
  assumes fs: "sorted_fs fs" and b: "wf_Path (b_host b)" "wf_Path (b_guest b)"
    and fresh: "\<forall>x \<in> set (foreach fs GUEST). b_addr x \<noteq> b_addr b"
  shows "sorted_fs (insort_binding2 fs b)"
    and "\<exists>b'. guest_key b' = guest_key b \<and> host_key b' = host_key b \<and> b_addr b' = b_addr b \<and>
      set (foreach (insort_binding2 fs b) GUEST) =
        insert b' {x \<in> set (foreach fs GUEST). guest_key x \<noteq> guest_key b}"
proof -
  define b' where "b' = b\<lparr>need_substitution :=
    compare_paths (path_str (b_host b)) (path_str (b_guest b)) \<noteq> PATHS_ARE_EQUAL\<rparr>"
  have keys: "guest_key b' = guest_key b" "host_key b' = host_key b" "b_addr b' = b_addr b"
    by (simp_all add: b'_def guest_key_def host_key_def)
  have wb: "wf_binding b'"
    using b by (auto simp: wf_binding_def b'_def wf_Path_def host_key_def guest_key_def
        compare_paths_equal_iff)
  from fs obtain gs hs where gs: "fs_guest fs = Some gs" and hs: "fs_host fs = Some hs"
    and same: "set gs = set hs" and wf: "\<forall>x \<in> set gs. wf_binding x"
    and dg: "distinct (map b_addr gs)" and dh: "distinct (map b_addr hs)"
    and dk: "distinct (map guest_key gs)"
    and ng: "nested compare_paths guest_key gs" and nh: "nested compare_paths host_key hs"
    by (auto simp: sorted_fs_def)
  have fe: "foreach fs GUEST = gs" using gs by (simp add: foreach_def HEAD_def)
  have fr: "b_addr b' \<notin> b_addr ` set gs" using fresh fe keys by auto
  obtain gs' where G: "inserted fs GUEST b' gs gs'"
    using insort_binding_inserted[of fs GUEST gs b'] gs wb wf dg fr ng by (auto simp: HEAD_def)
  define fs1 where "fs1 = insort_binding fs GUEST b'"
  define hs1 where "hs1 = (case HEAD fs1 HOST of None \<Rightarrow> [] | Some l \<Rightarrow> l)"
  have one: "fs_guest fs1 = Some gs' \<and> fs_host fs1 = Some hs1
      \<and> set gs' = insert b' {x \<in> set gs. guest_key x \<noteq> guest_key b'}
      \<and> set hs1 = {x \<in> set gs. guest_key x \<noteq> guest_key b'}
      \<and> distinct (map b_addr hs1) \<and> nested compare_paths host_key hs1"
    using G[unfolded inserted_def]
  proof (elim conjE disjE bexE)
    fix it assume it: "it \<in> set gs" "side_key GUEST it = side_key GUEST b'"
      "set gs' = insert b' (set gs - {it})"
      and fs1': "insort_binding fs GUEST b' =
        set_HEAD (remove_binding_from_all_lists fs it) GUEST (Some gs')"
    have uniq: "x = it" if "x \<in> set gs" "guest_key x = guest_key b'" for x
      using that it dk by (auto simp: distinct_map inj_on_def)
    have uniq_addr: "x = it" if "x \<in> set gs" "b_addr x = b_addr it" for x
      using that it dg by (auto simp: distinct_map inj_on_def)
    have "hs1 = remove_addr (b_addr it) hs"
      using fs1' hs by (simp add: hs1_def fs1_def HEAD_def set_HEAD_def
          remove_binding_from_all_lists_def)
    moreover have "nested compare_paths host_key (remove_addr (b_addr it) hs)"
      using nh by (simp add: nested_def remove_addr_def sorted_wrt_filter)
    moreover have "distinct (map b_addr (remove_addr (b_addr it) hs))"
      using dh by (simp add: remove_addr_def distinct_map_filter)
    moreover have "fs_guest fs1 = Some gs' \<and> fs_host fs1 = Some (remove_addr (b_addr it) hs)"
      using fs1' hs by (simp add: fs1_def set_HEAD_def remove_binding_from_all_lists_def)
    moreover have others: "{x \<in> set gs. guest_key x \<noteq> guest_key b'} = set gs - {it}"
      using uniq it(2) by auto
    moreover have "set (remove_addr (b_addr it) hs) = set gs - {it}"
      unfolding set_remove_addr same[symmetric] using uniq_addr by auto
    ultimately show ?thesis
      using it(3) by simp
  next
    assume "set gs' = insert b' (set gs)"
      and "GUEST \<noteq> HOST \<longrightarrow> (\<forall>x \<in> set gs. side_key GUEST x \<noteq> side_key GUEST b')"
      and "insort_binding fs GUEST b' = set_HEAD fs GUEST (Some gs')"
    then show ?thesis
      using hs same nh dh by (auto simp: hs1_def fs1_def HEAD_def set_HEAD_def)
  qed
  have fr1: "b_addr b' \<notin> b_addr ` set hs1" using one fr by auto
  obtain hs2 where H2: "inserted fs1 HOST b' hs1 hs2"
    using insort_binding_inserted[of fs1 HOST hs1 b'] one wb wf fr1 by (auto simp: HEAD_def)
  then have two: "insort_binding fs1 HOST b' = set_HEAD fs1 HOST (Some hs2)"
    "set hs2 = insert b' (set hs1)" "nested compare_paths host_key hs2" "distinct (map b_addr hs2)"
    by (auto simp: inserted_def)
  have res: "insort_binding2 fs b = set_HEAD fs1 HOST (Some hs2)"
    using two(1) by (simp add: insort_binding2_def Let_def fs1_def b'_def)
  have G': "nested compare_paths guest_key gs'" "distinct (map b_addr gs')"
    using G by (auto simp: inserted_def)
  have inj: "inj_on guest_key (set gs')"
    using dk one by (auto simp: distinct_map inj_on_def)
  have dgs': "distinct (map guest_key gs')"
    using inj G'(2) by (simp add: distinct_map)
  show "sorted_fs (insort_binding2 fs b)"
    unfolding sorted_fs_def res using one two G' dgs' wf wb by (auto simp: set_HEAD_def)
  show "\<exists>b'. guest_key b' = guest_key b \<and> host_key b' = host_key b \<and> b_addr b' = b_addr b \<and>
      set (foreach (insort_binding2 fs b) GUEST) =
        insert b' {x \<in> set (foreach fs GUEST). guest_key x \<noteq> guest_key b}"
    using keys one fe by (intro exI[of _ b']) (auto simp: res foreach_def HEAD_def set_HEAD_def)
qed

lemma insort_binding2_wf_fs:
  assumes fs: "wf_fs fs" and b: "wf_Path (b_host b)" "wf_Path (b_guest b)"
    and fresh: "\<forall>x \<in> set (foreach fs GUEST). b_addr x \<noteq> b_addr b"
  shows "wf_fs (insort_binding2 fs b)"
    and "\<exists>b'. guest_key b' = guest_key b \<and> host_key b' = host_key b \<and> b_addr b' = b_addr b \<and>
      set (foreach (insort_binding2 fs b) GUEST) =
        insert b' {x \<in> set (foreach fs GUEST). guest_key x \<noteq> guest_key b}"
proof -
  have root: "sorted_fs fs" "\<exists>r \<in> set (foreach fs GUEST). guest_key r = ''/''"
    using fs by (simp_all add: wf_fs_sorted)
  note ins = insort_binding2_sorted[OF root(1) b fresh]
  show "\<exists>b'. guest_key b' = guest_key b \<and> host_key b' = host_key b \<and> b_addr b' = b_addr b \<and>
      set (foreach (insort_binding2 fs b) GUEST) =
        insert b' {x \<in> set (foreach fs GUEST). guest_key x \<noteq> guest_key b}"
    by (rule ins(2))
  then show "wf_fs (insort_binding2 fs b)"
    unfolding wf_fs_sorted using ins(1) root(2) by (cases "guest_key b = ''/''") auto
qed

end
