(* ===== verification/Substitution.thy ===== *)
theory Substitution
  imports Bindings_Order
begin

section \<open>Look-up and substitution in an initialised name-space\<close>

text \<open>
  Under the invariant, the look-up of path/binding.c always finds the deepest binding, and the
  substitution replaces the location of that binding by its other side, component-wise.
\<close>

lemma wf_binding_lengths:
  assumes "wf_binding b"
  shows "length (guest_key b) < PATH_MAX" and "length (host_key b) < PATH_MAX"
  using assms by (auto simp: wf_binding_def wf_Path_def guest_key_def host_key_def)

lemma wf_fsE:
  assumes "wf_fs fs"
  obtains gs hs where "fs_guest fs = Some gs" and "fs_host fs = Some hs" and "set gs = set hs"
    and "\<forall>b \<in> set gs. wf_binding b"
    and "nested compare_paths guest_key gs" and "nested compare_paths host_key hs"
    and "distinct (map guest_key gs)" and "gs \<noteq> []" and "guest_key (last gs) = ''/''"
proof -
  from assms obtain gs hs where *: "fs_guest fs = Some gs" "fs_host fs = Some hs" "set gs = set hs"
    "\<forall>b \<in> set gs. wf_binding b" "nested compare_paths guest_key gs"
    "nested compare_paths host_key hs" "distinct (map guest_key gs)"
    "\<exists>r \<in> set gs. guest_key r = ''/''"
    by (auto simp: wf_fs_def)
  then obtain r where r: "r \<in> set gs" "guest_key r = ''/''" by blast
  then have "gs \<noteq> []" "guest_key (last gs) = ''/''"
    using root_last[OF *(5) *(4) *(7) r] by auto
  with * that show thesis by blast
qed

text \<open>The bindings of a name-space, and its root binding, the last of the guest list.\<close>

definition bindings_of :: "FileSystemNameSpace \<Rightarrow> Binding set" where
  "bindings_of fs = set (foreach fs GUEST)"

lemma foreach_sides:
  assumes "wf_fs fs"
  shows "set (foreach fs HOST) = bindings_of fs"
  using assms by (auto simp: wf_fs_def foreach_def HEAD_def bindings_of_def)

lemma bindings_of_wf: "wf_fs fs \<Longrightarrow> b \<in> bindings_of fs \<Longrightarrow> wf_binding b"
  by (auto simp: wf_fs_def foreach_def HEAD_def bindings_of_def)

lemma get_root_wf:
  assumes "wf_fs fs"
  obtains r where "r \<in> bindings_of fs" and "guest_key r = ''/''"
    and "get_root fs = Some (host_key r)" and "root_path fs = host_key r"
proof -
  from assms obtain gs where "fs_guest fs = Some gs" "gs \<noteq> []" "guest_key (last gs) = ''/''"
    by (elim wf_fsE)
  then show thesis
    using that[of "last gs"]
    by (auto simp: get_root_def root_path_def host_key_def bindings_of_def foreach_def HEAD_def
        split: list.splits)
qed

lemma compare_ref:
  assumes "wf_binding b"
  shows "compare_paths2 (path_str (b_guest b)) (path_len (b_guest b)) p (length p)
           = compare_paths (guest_key b) p"
    and "compare_paths2 (path_str (b_host b)) (path_len (b_host b)) p (length p)
           = compare_paths (host_key b) p"
  using assms wf_binding_paths[of b] by (auto simp: compare_paths_def guest_key_def host_key_def)

lemma get_binding_loop_GUEST:
  assumes "\<forall>b \<in> set bs. wf_binding b"
  shows "get_binding_loop fs GUEST p bs = find (\<lambda>b. covers compare_paths (guest_key b) p) bs"
  using assms by (induction bs) (auto simp: compare_ref covers_def)

lemma get_binding_loop_HOST:
  assumes "\<forall>b \<in> set bs. wf_binding b"
  shows "get_binding_loop fs HOST p bs =
    (if compare_paths (root_path fs) ''/'' \<noteq> PATHS_ARE_EQUAL \<and> belongs_to_guestfs fs p then None
     else find (\<lambda>b. covers compare_paths (host_key b) p) bs)"
  using assms by (induction bs) (auto simp: compare_ref covers_def)

lemma get_binding_HOST_eq:
  assumes "wf_fs fs"
  shows "get_binding fs HOST p =
    (if compare_paths (root_path fs) ''/'' \<noteq> PATHS_ARE_EQUAL \<and> belongs_to_guestfs fs p then None
     else find (\<lambda>b. covers compare_paths (host_key b) p) (foreach fs HOST))"
proof -
  have "\<forall>b \<in> set (foreach fs HOST). wf_binding b"
    using assms foreach_sides bindings_of_wf by blast
  then show ?thesis by (simp add: get_binding_def get_binding_loop_HOST)
qed

text \<open>Every canonical path is covered, and the binding found is the deepest.\<close>

lemma get_binding_GUEST_deepest:
  assumes fs: "wf_fs fs" and p: "canonical p"
  shows "\<exists>b \<in> bindings_of fs. get_binding fs GUEST p = Some b \<and> covers compare_paths (guest_key b) p
    \<and> (\<forall>y \<in> bindings_of fs. covers compare_paths (guest_key y) p \<longrightarrow>
          covers compare_paths (guest_key y) (guest_key b))"
proof -
  from fs obtain gs where gs: "fs_guest fs = Some gs" "\<forall>b \<in> set gs. wf_binding b"
    "nested compare_paths guest_key gs"
    by (elim wf_fsE)
  have fe: "foreach fs GUEST = gs" using gs by (simp add: foreach_def HEAD_def)
  have look: "get_binding fs GUEST p = find (\<lambda>b. covers compare_paths (guest_key b) p) gs"
    using gs(2) by (simp add: get_binding_def fe get_binding_loop_GUEST)
  obtain r where "r \<in> set gs" "guest_key r = ''/''"
    using get_root_wf[OF fs] fe by (auto simp: bindings_of_def)
  with root_covers[OF p] have "find (\<lambda>b. covers compare_paths (guest_key b) p) gs \<noteq> None"
    by (metis find_None_iff)
  then obtain b where b: "find (\<lambda>b. covers compare_paths (guest_key b) p) gs = Some b" by blast
  then have inb: "b \<in> set gs" "covers compare_paths (guest_key b) p"
    by (auto simp: find_Some_iff)
  have canon: "\<forall>x \<in> set gs. canonical (guest_key x)"
    using gs(2) wf_binding_paths(1) by auto
  have "covers compare_paths (guest_key y) (guest_key b)"
    if "y \<in> set gs" "covers compare_paths (guest_key y) p" for y
    using paths.find_deepest[OF p canon gs(3) b that] canon inb(1)
    by (auto simp: covers_def compare_paths_equal_iff)
  then show ?thesis
    using look b inb fe by (auto simp: bindings_of_def)
qed

lemma get_binding_HOST_deepest:
  assumes fs: "wf_fs fs" and p: "canonical p" and b: "get_binding fs HOST p = Some b"
  shows "b \<in> bindings_of fs \<and> covers compare_paths (host_key b) p
    \<and> (\<forall>y \<in> bindings_of fs. covers compare_paths (host_key y) p \<longrightarrow>
          covers compare_paths (host_key y) (host_key b))"
proof -
  from fs obtain gs hs where hs: "fs_host fs = Some hs" "set gs = set hs"
    "\<forall>b \<in> set gs. wf_binding b" "nested compare_paths host_key hs"
    by (elim wf_fsE)
  have fe: "foreach fs HOST = hs" using hs by (simp add: foreach_def HEAD_def)
  have find: "find (\<lambda>b. covers compare_paths (host_key b) p) hs = Some b"
    using b by (simp add: get_binding_HOST_eq[OF fs] fe split: if_splits)
  then have inb: "b \<in> set hs" "covers compare_paths (host_key b) p"
    by (auto simp: find_Some_iff)
  have canon: "\<forall>x \<in> set hs. canonical (host_key x)"
    using hs wf_binding_paths(2) by auto
  have "covers compare_paths (host_key y) (host_key b)"
    if "y \<in> set hs" "covers compare_paths (host_key y) p" for y
    using paths.find_deepest[OF p canon hs(4) find that] canon inb(1)
    by (auto simp: covers_def compare_paths_equal_iff)
  then show ?thesis
    using inb fe foreach_sides[OF fs] by auto
qed

subsection \<open>Substitution\<close>

text \<open>The component lists of a binding.\<close>

lemma wf_binding_comps:
  assumes "wf_binding b"
  obtains gc hc where "valid_comps gc" and "valid_comps hc" and "guest_key b = path_of gc"
    and "host_key b = path_of hc"
  using wf_binding_paths(1,2)[OF assms] by auto

lemma substitute_by_binding:
  assumes b: "wf_binding b" and need: "need_substitution b"
    and old: "old = path_of os" "valid_comps os" and new: "new = path_of ns" "valid_comps ns"
    and sides: "(old = guest_key b \<and> new = host_key b) \<or> (old = host_key b \<and> new = guest_key b)"
    and rest: "valid_comps rest" and short: "length (path_of (os @ rest)) < PATH_MAX"
  shows "substitute_path_prefix (path_of (os @ rest)) (length old) new (length new) =
    (if substitution_fits os ns rest then Inr (path_of (ns @ rest)) else Err ENAMETOOLONG)"
proof -
  have "os \<noteq> ns"
    using need b sides old new by (auto simp: wf_binding_def)
  then have d: "os \<noteq> [] \<or> ns \<noteq> []" by auto
  have "length (path_of ns) < PATH_MAX"
    using wf_binding_lengths[OF b] sides new by auto
  moreover have "length (slashed rest) \<le> length (path_of (os @ rest))"
    by (cases "os @ rest = []") (auto simp: path_of_def)
  moreover have "length (path_of (ns @ rest)) \<le> length (path_of ns) + length (slashed rest) + 1"
    by (auto simp: path_of_def)
  ultimately have "length (path_of (ns @ rest)) < 2 ^ 64"
    using short by (simp add: PATH_MAX_def)
  then show ?thesis
    using substitute_path_prefix_comps[OF old(2) new(2) rest d] old new by simp
qed

lemma substitute_binding_GUEST_comps:
  assumes fs: "wf_fs fs" and cs: "valid_comps cs" and short: "length (path_of cs) < PATH_MAX"
  shows "\<exists>b gc hc rest. b \<in> bindings_of fs \<and> get_binding fs GUEST (path_of cs) = Some b
    \<and> guest_key b = path_of gc \<and> host_key b = path_of hc \<and> valid_comps gc \<and> valid_comps hc
    \<and> cs = gc @ rest \<and>
    substitute_binding fs GUEST (path_of cs) =
      (if gc = hc then Inr (0, path_of cs)
       else if substitution_fits gc hc rest then Inr (1, path_of (hc @ rest))
       else Inr (1, path_of cs))"
proof -
  obtain b where b: "b \<in> bindings_of fs" "get_binding fs GUEST (path_of cs) = Some b"
    "covers compare_paths (guest_key b) (path_of cs)"
    using get_binding_GUEST_deepest[OF fs canonicalI[OF cs]] by blast
  have wb: "wf_binding b" using bindings_of_wf[OF fs b(1)] .
  obtain gc hc where k: "valid_comps gc" "valid_comps hc" "guest_key b = path_of gc"
    "host_key b = path_of hc"
    by (rule wf_binding_comps[OF wb])
  from b(3) k cs have "prefix gc cs" by (simp add: covers_paths)
  then obtain rest where rest: "cs = gc @ rest" by (auto simp: prefix_def)
  have need: "need_substitution b = (gc \<noteq> hc)"
    using wb path_of_inject[OF k(1,2)] unfolding wf_binding_def k(3,4) by metis
  have "substitute_binding fs GUEST (path_of cs) =
      (if gc = hc then Inr (0, path_of cs)
       else if substitution_fits gc hc rest then Inr (1, path_of (hc @ rest))
       else Inr (1, path_of cs))"
  proof (cases "gc = hc")
    case True
    then show ?thesis using b(2) need by (simp add: substitute_binding_def)
  next
    case False
    have sub: "substitute_path_prefix (path_of cs) (length (guest_key b)) (host_key b)
        (length (host_key b)) =
      (if substitution_fits gc hc rest then Inr (path_of (hc @ rest)) else Err ENAMETOOLONG)"
      unfolding rest
    proof (rule substitute_by_binding[OF wb _ k(3) k(1) k(4) k(2)])
      show "need_substitution b" using False need by simp
      show "valid_comps rest" using cs rest by simp
      show "length (path_of (gc @ rest)) < PATH_MAX" using short rest by simp
    qed simp
    have "substitute_binding fs GUEST (path_of cs) =
        (case substitute_path_prefix (path_of cs) (length (guest_key b)) (host_key b)
            (length (host_key b)) of
           Inl (Errno e) \<Rightarrow> Inr (1, path_of cs) | Inl Undefined \<Rightarrow> Inl Undefined
         | Inr path' \<Rightarrow> Inr (1, path'))"
      using False need wf_binding_paths(4,5)[OF wb]
      unfolding substitute_binding_def b(2) guest_key_def host_key_def by (simp add: Let_def)
    then show ?thesis
      unfolding sub using False by simp
  qed
  with b k rest show ?thesis by blast
qed


text \<open>In the other direction the look-up may find nothing.\<close>

lemma substitute_binding_HOST_comps:
  assumes fs: "wf_fs fs" and cs: "valid_comps cs" and short: "length (path_of cs) < PATH_MAX"
    and get: "get_binding fs HOST (path_of cs) = Some b"
  shows "\<exists>gc hc rest. b \<in> bindings_of fs
    \<and> guest_key b = path_of gc \<and> host_key b = path_of hc \<and> valid_comps gc \<and> valid_comps hc
    \<and> cs = hc @ rest \<and>
    substitute_binding fs HOST (path_of cs) =
      (if gc = hc then Inr (0, path_of cs)
       else if substitution_fits hc gc rest then Inr (1, path_of (gc @ rest))
       else Inr (1, path_of cs))"
proof -
  have b: "b \<in> bindings_of fs" "covers compare_paths (host_key b) (path_of cs)"
    using get_binding_HOST_deepest[OF fs canonicalI[OF cs] get] by auto
  have wb: "wf_binding b" using bindings_of_wf[OF fs b(1)] .
  obtain gc hc where k: "valid_comps gc" "valid_comps hc" "guest_key b = path_of gc"
    "host_key b = path_of hc"
    by (rule wf_binding_comps[OF wb])
  from b(2) k cs have "prefix hc cs" by (simp add: covers_paths)
  then obtain rest where rest: "cs = hc @ rest" by (auto simp: prefix_def)
  have need: "need_substitution b = (gc \<noteq> hc)"
    using wb path_of_inject[OF k(1,2)] unfolding wf_binding_def k(3,4) by metis
  have "substitute_binding fs HOST (path_of cs) =
      (if gc = hc then Inr (0, path_of cs)
       else if substitution_fits hc gc rest then Inr (1, path_of (gc @ rest))
       else Inr (1, path_of cs))"
  proof (cases "gc = hc")
    case True
    then show ?thesis using get need by (simp add: substitute_binding_def)
  next
    case False
    have sub: "substitute_path_prefix (path_of cs) (length (host_key b)) (guest_key b)
        (length (guest_key b)) =
      (if substitution_fits hc gc rest then Inr (path_of (gc @ rest)) else Err ENAMETOOLONG)"
      unfolding rest
    proof (rule substitute_by_binding[OF wb _ k(4) k(2) k(3) k(1)])
      show "need_substitution b" using False need by simp
      show "valid_comps rest" using cs rest by simp
      show "length (path_of (hc @ rest)) < PATH_MAX" using short rest by simp
    qed simp
    have "substitute_binding fs HOST (path_of cs) =
        (case substitute_path_prefix (path_of cs) (length (host_key b)) (guest_key b)
            (length (guest_key b)) of
           Inl (Errno e) \<Rightarrow> Inr (1, path_of cs) | Inl Undefined \<Rightarrow> Inl Undefined
         | Inr path' \<Rightarrow> Inr (1, path'))"
      using False need wf_binding_paths(4,5)[OF wb]
      unfolding substitute_binding_def get guest_key_def host_key_def by (simp add: Let_def)
    then show ?thesis
      unfolding sub using False by simp
  qed
  with b k rest show ?thesis by blast
qed

lemma substitution_fits_length:
  assumes "substitution_fits os ns rest" and "length (path_of (os @ rest)) < PATH_MAX"
  shows "length (path_of (ns @ rest)) < PATH_MAX"
proof (cases "ns = []")
  case True
  then show ?thesis using length_path_of_suffix[of rest os] assms(2) by simp
next
  case False
  then show ?thesis
    using assms(1) by (auto simp: substitution_fits_def path_of_def split: if_splits)
qed

text \<open>Substituting never fails on a canonical guest path, and its result is canonical.\<close>

lemma substitute_binding_GUEST_canonical:
  assumes fs: "wf_fs fs" and p: "canonical p" "length p < PATH_MAX"
  shows "\<exists>n q. substitute_binding fs GUEST p = Inr (n, q) \<and> canonical q \<and> length q < PATH_MAX"
proof -
  from p(1) obtain cs where cs: "valid_comps cs" "p = path_of cs" by auto
  obtain b gc hc rest where r: "b \<in> bindings_of fs" "host_key b = path_of hc" "valid_comps gc"
    "valid_comps hc" "cs = gc @ rest"
    and sub: "substitute_binding fs GUEST (path_of cs) =
      (if gc = hc then Inr (0, path_of cs)
       else if substitution_fits gc hc rest then Inr (1, path_of (hc @ rest))
       else Inr (1, path_of cs))"
    using substitute_binding_GUEST_comps[OF fs cs(1)] p(2) cs(2) by blast
  have fits: "length (path_of (hc @ rest)) < PATH_MAX" if "substitution_fits gc hc rest"
    using substitution_fits_length[OF that] p(2) cs(2) r(5) by simp
  have "valid_comps (hc @ rest)" using cs(1) r by simp
  then show ?thesis
    using sub p cs fits canonicalI[of "hc @ rest"] by auto
qed

text \<open>
  Round trip.  If a guest path is substituted through a binding and the deepest binding of the
  resulting host path is that same one, substituting back gives the guest path.
\<close>

lemma substitute_binding_roundtrip:
  assumes fs: "wf_fs fs" and p: "canonical p" "length p + 1 < PATH_MAX"
    and to: "get_binding fs GUEST p = Some b" "substitute_binding fs GUEST p = Inr (n, q)"
    and fits: "n = 1 \<Longrightarrow> q \<noteq> p"
    and rev: "get_binding fs HOST q = Some b"
  shows "substitute_binding fs HOST q = Inr (n, p)"
proof -
  from p(1) obtain cs where cs: "valid_comps cs" "p = path_of cs" by auto
  have short: "length (path_of cs) < PATH_MAX" using p cs by simp
  obtain gc hc rest where g: "guest_key b = path_of gc" "host_key b = path_of hc"
    "valid_comps gc" "valid_comps hc" "cs = gc @ rest"
    and sub: "substitute_binding fs GUEST (path_of cs) =
      (if gc = hc then Inr (0, path_of cs)
       else if substitution_fits gc hc rest then Inr (1, path_of (hc @ rest))
       else Inr (1, path_of cs))"
    using substitute_binding_GUEST_comps[OF fs cs(1) short] to(1) cs(2) by force
  have q: "(gc = hc \<and> n = 0 \<and> q = p) \<or> (gc \<noteq> hc \<and> n = 1 \<and> q = path_of (hc @ rest))"
    using sub to(2) cs(2) fits by (auto split: if_splits)
  have v: "valid_comps (hc @ rest)" using cs(1) g by simp
  obtain n' q' where q': "substitute_binding fs GUEST p = Inr (n', q')" "length q' < PATH_MAX"
    using substitute_binding_GUEST_canonical[OF fs p(1)] p(2) by fastforce
  then have lq: "length q < PATH_MAX" using to(2) by simp
  have qc: "q = path_of (hc @ rest)" using q cs(2) g(5) by auto
  obtain gc' hc' rest' where h: "guest_key b = path_of gc'" "host_key b = path_of hc'"
    "valid_comps gc'" "valid_comps hc'" "hc @ rest = hc' @ rest'"
    and sub': "substitute_binding fs HOST (path_of (hc @ rest)) =
      (if gc' = hc' then Inr (0, path_of (hc @ rest))
       else if substitution_fits hc' gc' rest' then Inr (1, path_of (gc' @ rest'))
       else Inr (1, path_of (hc @ rest)))"
    using substitute_binding_HOST_comps[OF fs v] rev qc lq by blast
  have same: "gc' = gc" "hc' = hc" "rest' = rest"
    using path_of_inject[of gc' gc] path_of_inject[of hc' hc] g h by auto
  show ?thesis
  proof (cases "gc = hc")
    case True
    then show ?thesis using sub' same q qc cs g by auto
  next
    case False
    have "substitution_fits hc gc rest"
      using short cs(2) g(5) lq qc p(2)
      by (auto simp: substitution_fits_def path_of_def split: if_splits)
    then show ?thesis using sub' same q qc cs g False by auto
  qed
qed

end
