(* ===== verification/Cnum.thy ===== *)
theory Cnum
  imports Prelude
begin

section \<open>Decimal numbers of the C library\<close>

text \<open>
  The conversions path/proc.c and path/path.c rely on: the \<open>%d\<close> directive of \<open>snprintf\<close>,
  \<open>strtol\<close> in base ten and \<open>atoi\<close> on the LP64 data model of arm64 (\<open>long\<close> has 64 bits and
  \<open>strtol\<close> saturates, \<open>atoi\<close> truncates to the 32 bits of \<open>int\<close>).
\<close>

definition digit_char :: "nat \<Rightarrow> char" where
  "digit_char d = char_of (48 + d)"

definition is_digit :: "char \<Rightarrow> bool" where
  "is_digit c \<longleftrightarrow> 48 \<le> (of_char c :: nat) \<and> (of_char c :: nat) \<le> 57"

definition digit_value :: "char \<Rightarrow> nat" where
  "digit_value c = of_char c - 48"

fun string_of_nat :: "nat \<Rightarrow> string" where
  "string_of_nat n =
     (if n < 10 then [digit_char n] else string_of_nat (n div 10) @ [digit_char (n mod 10)])"

declare string_of_nat.simps [simp del]

definition string_of_int :: "int \<Rightarrow> string" where
  "string_of_int i = (if i < 0 then CHR ''-'' # string_of_nat (nat (- i)) else string_of_nat (nat i))"

definition is_space :: "char \<Rightarrow> bool" where
  "is_space c \<longleftrightarrow> c \<in> {CHR '' '', CHR 0x09, CHR 0x0A, CHR 0x0B, CHR 0x0C, CHR 0x0D}"

definition decimal_value :: "string \<Rightarrow> nat" where
  "decimal_value ds = foldl (\<lambda>n c. 10 * n + digit_value c) 0 ds"

text \<open>
  \<open>strtol10 s\<close> is \<open>None\<close> where no digit is found (\<open>end_ptr\<close> is the start of the string),
  otherwise the value before saturation.
\<close>

definition strtol10 :: "string \<Rightarrow> int option" where
  "strtol10 s =
     (let s = dropWhile is_space s;
          negative = (s \<noteq> [] \<and> hd s = CHR ''-'');
          s = (if s \<noteq> [] \<and> (hd s = CHR ''-'' \<or> hd s = CHR ''+'') then tl s else s);
          ds = takeWhile is_digit s
      in if ds = [] then None
         else Some (if negative then - int (decimal_value ds) else int (decimal_value ds)))"

definition long_range :: "int \<Rightarrow> bool" where
  "long_range v \<longleftrightarrow> - (2 ^ 63) \<le> v \<and> v < 2 ^ 63"

definition clamp_long :: "int \<Rightarrow> int" where
  "clamp_long v = max (- (2 ^ 63)) (min (2 ^ 63 - 1) v)"

definition atoi :: "string \<Rightarrow> int" where
  "atoi s = (case strtol10 s of None \<Rightarrow> 0 | Some v \<Rightarrow> sint (word_of_int (clamp_long v) :: 32 word))"

subsection \<open>Printing and reading are inverse\<close>

lemma digit_char_value [simp]: "d < 10 \<Longrightarrow> digit_value (digit_char d) = d"
  by (simp add: digit_value_def digit_char_def)

lemma is_digit_char [simp]: "d < 10 \<Longrightarrow> is_digit (digit_char d)"
  by (simp add: is_digit_def digit_char_def)

lemma string_of_nat_digits: "\<forall>c \<in> set (string_of_nat n). is_digit c"
proof (induction n rule: string_of_nat.induct)
  case (1 n)
  then show ?case by (subst string_of_nat.simps) auto
qed

lemma string_of_nat_neq_Nil [simp]: "string_of_nat n \<noteq> []"
  by (subst string_of_nat.simps) simp

lemma decimal_value_snoc: "decimal_value (ds @ [c]) = 10 * decimal_value ds + digit_value c"
  by (simp add: decimal_value_def)

lemma decimal_value_string_of_nat [simp]: "decimal_value (string_of_nat n) = n"
proof (induction n rule: string_of_nat.induct)
  case (1 n)
  then show ?case
    by (subst string_of_nat.simps) (auto simp: decimal_value_snoc, simp add: decimal_value_def)
qed

lemma is_digit_not_special:
  assumes "is_digit c"
  shows "\<not> is_space c" and "c \<noteq> CHR ''-''" and "c \<noteq> CHR ''+''" and "c \<noteq> CHR ''/''"
    and "c \<noteq> NUL"
  using assms by (auto simp: is_digit_def is_space_def NUL_def)

lemma takeWhile_digits [simp]:
  assumes "s = [] \<or> \<not> is_digit (hd s)"
  shows "takeWhile is_digit (string_of_nat n @ s) = string_of_nat n"
  using assms string_of_nat_digits[of n] by (cases s) (auto simp: takeWhile_append)

lemma string_of_nat_Cons:
  obtains c cs where "string_of_nat n = c # cs" and "is_digit c"
  using string_of_nat_digits[of n] string_of_nat_neq_Nil[of n] by (cases "string_of_nat n") auto

lemma strtol10_string_of_int:
  assumes "s = [] \<or> \<not> is_digit (hd s)"
  shows "strtol10 (string_of_int i @ s) = Some i"
proof (cases "i < 0")
  case True
  then have "string_of_int i @ s = CHR ''-'' # string_of_nat (nat (- i)) @ s"
    by (simp add: string_of_int_def)
  moreover have "\<not> is_space CHR ''-''" by (simp add: is_space_def)
  ultimately show ?thesis
    using True takeWhile_digits[OF assms] by (simp add: strtol10_def)
next
  case False
  obtain c cs where c: "string_of_nat (nat i) = c # cs" "is_digit c"
    by (rule string_of_nat_Cons)
  have tk: "takeWhile is_digit (c # cs @ s) = c # cs"
    using takeWhile_digits[OF assms, of "nat i"] c(1) by simp
  have dv: "decimal_value (c # cs) = nat i"
    using decimal_value_string_of_nat[of "nat i"] c(1) by simp
  have "string_of_int i @ s = c # cs @ s"
    using False c by (simp add: string_of_int_def)
  with False c(2) tk dv is_digit_not_special[OF c(2)] show ?thesis
    by (auto simp: strtol10_def Let_def)
qed

lemma atoi_string_of_int:
  assumes "s = [] \<or> \<not> is_digit (hd s)" and "- (2 ^ 31) \<le> i" and "i < 2 ^ 31"
  shows "atoi (string_of_int i @ s) = i"
proof -
  have "clamp_long i = i" using assms by (simp add: clamp_long_def)
  moreover have "sint (word_of_int i :: 32 word) = i"
    using assms by (simp add: int_word_sint)
  ultimately show ?thesis
    using assms by (simp add: atoi_def strtol10_string_of_int)
qed

lemma string_of_int_chars: "c \<in> set (string_of_int i) \<Longrightarrow> c = CHR ''-'' \<or> is_digit c"
  using string_of_nat_digits by (auto simp: string_of_int_def split: if_splits)

lemma string_of_int_no_slash: "CHR ''/'' \<notin> set (string_of_int i)"
  using string_of_int_chars[of "CHR ''/''" i] by (auto simp: is_digit_def)

lemma string_of_int_no_NUL: "NUL \<notin> set (string_of_int i)"
  using string_of_int_chars[of NUL i] by (auto simp: is_digit_def NUL_def)

lemma valid_comp_string_of_int: "valid_comp (string_of_int i)"
proof -
  have "CHR ''.'' \<notin> set (string_of_int i)"
    using string_of_int_chars[of "CHR ''.''" i] by (auto simp: is_digit_def)
  then show ?thesis
    using string_of_int_no_slash[of i] string_of_int_no_NUL[of i]
    by (auto simp: valid_comp_def string_of_int_def)
qed

end
