(* ===== verification/Proc_Links.thy ===== *)
theory Proc_Links
  imports Substitution Cnum
begin

section \<open>Tracees and the links of /proc\<close>

text \<open>
  The fields of \<open>Tracee\<close> (tracee/tracee.h) that the path translation reads, the search of a
  tracee by pid (tracee/tracee.c) and the emulation of the symbolic links of /proc that
  depend on the tracee (path/proc.c).
\<close>

type_synonym mode = "32 word"

record Tracee =
  t_pid :: int
  t_exe :: string
  t_fs :: FileSystemNameSpace
  t_glue_type :: mode
  t_glue :: "string option"

text \<open>
  \<open>get_tracee\<close> without creation: the current tracee first, then the list of all tracees.
  (Flushing the memory collector of the tracee found is not modelled.)
\<close>

definition get_tracee :: "Tracee list \<Rightarrow> Tracee \<Rightarrow> int \<Rightarrow> Tracee option" where
  "get_tracee tracees current_tracee pid =
     (if t_pid current_tracee = pid then Some current_tracee
      else find (\<lambda>t. t_pid t = pid) tracees)"

datatype Action = DEFAULT | CANONICALIZE | DONT_CANONICALIZE

text \<open>The macro SUBSTITUTE: the content of a field as the target of a link.\<close>

definition SUBSTITUTE :: "string \<Rightarrow> (Action \<times> string) res" where
  "SUBSTITUTE content =
     (if length content \<ge> PATH_MAX then Err EPERM else Inr (CANONICALIZE, content))"

text \<open>
  \<open>readlink_proc\<close>: the action and, for other actions than \<open>DEFAULT\<close>, the emulated content of
  the link.  The buffer \<open>proc_path\<close> has 64 bytes.
\<close>

definition readlink_proc ::
  "Tracee list \<Rightarrow> Tracee \<Rightarrow> string \<Rightarrow> string \<Rightarrow> Comparison \<Rightarrow> (Action \<times> string) res" where
  "readlink_proc tracees tracee base component comparison =
     (case comparison of
        PATHS_ARE_EQUAL \<Rightarrow>
          (if component \<noteq> ''self'' then Inr (DEFAULT, [])
           else
             (let result = ''/proc/'' @ string_of_int (t_pid tracee) in
              if length result \<ge> PATH_MAX then Err EPERM else Inr (CANONICALIZE, result)))
      | PATH1_IS_PREFIX \<Rightarrow>
          (let pid = atoi (drop (length ''/proc/'') base) in
           if pid = 0 then Inr (DEFAULT, [])
           else
             (let proc_path = ''/proc/'' @ string_of_int pid in
              if length proc_path \<ge> 64 then Err EPERM
              else
                (case compare_paths proc_path base of
                   PATHS_ARE_EQUAL \<Rightarrow>
                     (case get_tracee tracees tracee pid of
                        None \<Rightarrow> Inr (DEFAULT, [])
                      | Some known_tracee \<Rightarrow>
                          (if component = ''exe'' then SUBSTITUTE (t_exe known_tracee)
                           else if component = ''cwd'' then SUBSTITUTE (fs_cwd (t_fs known_tracee))
                           else if component = ''root''
                           then SUBSTITUTE (root_path (t_fs known_tracee))
                           else Inr (DEFAULT, [])))
                 | PATH1_IS_PREFIX \<Rightarrow>
                     (let proc_path = ''/proc/'' @ string_of_int pid @ ''/fd'' in
                      if length proc_path \<ge> 64 then Err EPERM
                      else
                        (case compare_paths proc_path base of
                           PATHS_ARE_EQUAL \<Rightarrow>
                             (case strtol10 component of
                                None \<Rightarrow> Err EPERM
                              | Some v \<Rightarrow>
                                  (if \<not> long_range v then Err EPERM
                                   else
                                     (let result = base @ ''/'' @ component in
                                      if length result \<ge> PATH_MAX then Err EPERM
                                      else Inr (DONT_CANONICALIZE, result))))
                         | _ \<Rightarrow> Inr (DEFAULT, [])))
                 | _ \<Rightarrow> Inr (DEFAULT, []))))
      | _ \<Rightarrow> Inr (DEFAULT, []))"

text \<open>
  \<open>readlink_proc2\<close> splits the referrer at its last slash.  It returns the length of the emulated
  content, 0 where there is none.  An error of \<open>readlink_proc\<close> is an action different from
  \<open>CANONICALIZE\<close>, hence 0.  (For a referrer right under /proc the source's \<open>atoi\<close> reads the
  component instead of the end of the base; the action is \<open>DEFAULT\<close> in both readings, because
  no path of a process is a prefix of /proc.)
\<close>

definition last_slash :: "string \<Rightarrow> nat option" where
  "last_slash s =
     (if CHR ''/'' \<in> set s
      then Some (length s - Suc (length (takeWhile (\<lambda>c. c \<noteq> CHR ''/'') (rev s)))) else None)"

definition readlink_proc2 ::
  "Tracee list \<Rightarrow> Tracee \<Rightarrow> string \<Rightarrow> (nat \<times> string) res" where
  "readlink_proc2 tracees tracee referer =
     (if length referer \<ge> PATH_MAX then Err ENAMETOOLONG
      else
        (case last_slash referer of
           None \<Rightarrow> Inl Undefined
         | Some i \<Rightarrow>
             (let base = take i referer; component = drop (Suc i) referer in
              if component = [] then Inr (0, [])
              else
                (case readlink_proc tracees tracee base component PATH1_IS_PREFIX of
                   Inr (CANONICALIZE, result) \<Rightarrow> Inr (length result, result)
                 | Inl Undefined \<Rightarrow> Inl Undefined
                 | _ \<Rightarrow> Inr (0, [])))))"

subsection \<open>Behaviour\<close>

lemma proc_comps: "''/proc'' = path_of [''proc'']"
  by simp

lemma valid_proc [simp]: "valid_comp ''proc''" "valid_comp ''fd''"
  by (simp_all add: valid_comp_def NUL_def)

lemma proc_pid_path: "''/proc/'' @ string_of_int pid = path_of [''proc'', string_of_int pid]"
  by simp

text \<open>/proc/self is the directory of the tracee, whatever its pid.\<close>

lemma length_string_of_nat_bound: "n < 10 ^ k \<Longrightarrow> 0 < k \<Longrightarrow> length (string_of_nat n) \<le> k"
proof (induction k arbitrary: n)
  case (Suc k)
  show ?case
  proof (cases "n < 10")
    case True
    then show ?thesis by (subst string_of_nat.simps) simp
  next
    case False
    with Suc.prems(1) have k: "0 < k" by (cases k) auto
    have "n div 10 < 10 ^ k" using Suc.prems(1) by auto
    with Suc.IH k have "length (string_of_nat (n div 10)) \<le> k" by simp
    with False show ?thesis by (subst string_of_nat.simps) simp
  qed
qed simp

lemma length_string_of_int_bound:
  assumes "- (2 ^ 31) \<le> i" and "i < 2 ^ 31"
  shows "length (string_of_int i) \<le> 11"
proof -
  have "nat \<bar>i\<bar> < 10 ^ 10" using assms by (simp add: nat_less_iff)
  then have "length (string_of_nat (nat \<bar>i\<bar>)) \<le> 10"
    by (rule length_string_of_nat_bound) simp
  then show ?thesis by (auto simp: string_of_int_def split: if_splits)
qed

lemma readlink_proc_self:
  assumes "- (2 ^ 31) \<le> t_pid t" and "t_pid t < 2 ^ 31"
  shows "readlink_proc ts t base ''self'' PATHS_ARE_EQUAL =
    Inr (CANONICALIZE, path_of [''proc'', string_of_int (t_pid t)])"
  using length_string_of_int_bound[OF assms] by (simp add: readlink_proc_def Let_def PATH_MAX_def)

text \<open>The links of the directory of a known tracee are the fields of that tracee.\<close>

lemma readlink_proc_known:
  assumes pid: "- (2 ^ 31) \<le> pid" "pid < 2 ^ 31" "pid \<noteq> 0"
    and known: "get_tracee ts t pid = Some k"
  shows "readlink_proc ts t (path_of [''proc'', string_of_int pid]) component PATH1_IS_PREFIX =
    (if component = ''exe'' then SUBSTITUTE (t_exe k)
     else if component = ''cwd'' then SUBSTITUTE (fs_cwd (t_fs k))
     else if component = ''root'' then SUBSTITUTE (root_path (t_fs k))
     else Inr (DEFAULT, []))"
proof -
  have at: "atoi (string_of_int pid) = pid"
    using atoi_string_of_int[of "[]" pid] pid by simp
  have eq: "compare_paths (path_of [''proc'', string_of_int pid])
      (path_of [''proc'', string_of_int pid]) = PATHS_ARE_EQUAL"
    by (subst compare_paths_comps)
      (simp_all add: valid_comp_string_of_int compare_comps_def)
  show ?thesis
    using length_string_of_int_bound[OF pid(1,2)] pid known eq at
    by (simp add: readlink_proc_def Let_def)
qed

text \<open>A file descriptor is never dereferenced, and the path stays canonical.\<close>

lemma readlink_proc_dont:
  assumes r: "readlink_proc ts t base component c = Inr (DONT_CANONICALIZE, result)"
    and base: "canonical base" and comp: "valid_comp component"
  shows "canonical result \<and> length result < PATH_MAX"
proof -
  have res: "result = base @ ''/'' @ component" "length result < PATH_MAX" "c = PATH1_IS_PREFIX"
    "compare_paths (''/proc/'' @ string_of_int (atoi (drop (length ''/proc/'') base)) @ ''/fd'')
       base = PATHS_ARE_EQUAL"
    using r by (auto simp: readlink_proc_def SUBSTITUTE_def Let_def
        split: Comparison.splits option.splits if_splits)
  obtain cs where cs: "valid_comps cs" "base = path_of cs" using base by auto
  have "cs \<noteq> []"
  proof
    assume "cs = []"
    with cs(2) res(4) show False by (simp add: compare_paths_def compare_paths2_def Let_def
          split: if_splits)
  qed
  then have "result = path_of (cs @ [component])"
    using res(1) cs(2) by simp
  moreover have "valid_comps (cs @ [component])" using cs(1) comp by simp
  ultimately show ?thesis using res(2) canonicalI by metis
qed

end
