(* ===== verification/Canon.thy ===== *)
theory Canon
  imports Proc_Links
begin

section \<open>Canonicalization of guest paths\<close>

text \<open>
  path/canon.c and path/glue.c: walking along the components of a path, following symbolic
  links inside the guest name-space, and building the glue for bindings whose location does
  not exist; \<open>detranslate_path\<close> of path/path.c, on which the walk depends.
\<close>

unbundle bit_operations_syntax

subsection \<open>The environment\<close>

text \<open>
  What the translation uses of the kernel, of the C library and of the extensions is an
  argument of the definitions: a record of functions over a state \<open>'w\<close>.  \<open>h_readlink\<close>
  yields the whole content of a link (the buffers truncate it); a hook of the extensions
  yields its status and the new content of the path it was given.  \<open>h_listdir\<close> stands for a
  whole \<open>opendir\<close>/\<open>readdir\<close> walk.
\<close>

record 'w Env =
  h_lstat :: "'w \<Rightarrow> string \<Rightarrow> mode res"
  h_readlink :: "'w \<Rightarrow> string \<Rightarrow> string res"
  h_realpath :: "'w \<Rightarrow> string \<Rightarrow> string res"
  h_getcwd :: "'w \<Rightarrow> string res"
  h_listdir :: "'w \<Rightarrow> string \<Rightarrow> string list option"
  h_mkdir :: "'w \<Rightarrow> string \<Rightarrow> mode \<Rightarrow> errno option \<times> 'w"
  h_mknod :: "'w \<Rightarrow> string \<Rightarrow> mode \<Rightarrow> errno option \<times> 'w"
  h_create_temp_directory :: "'w \<Rightarrow> string option \<times> 'w"
  h_getenv :: "string \<Rightarrow> string option"
  h_skip_f2fs :: "'w \<Rightarrow> string \<Rightarrow> bool \<times> 'w"
  h_max_symlinks :: nat
  x_guest_path :: "'w \<Rightarrow> string \<Rightarrow> string \<Rightarrow> nat res \<times> string \<times> 'w"
  x_host_path :: "'w \<Rightarrow> string \<Rightarrow> bool \<Rightarrow> nat res \<times> string \<times> 'w"
  x_translated_path :: "'w \<Rightarrow> string \<Rightarrow> nat res \<times> string \<times> 'w"
  e_tracees :: "Tracee list"

text \<open>The type bits of a mode (sys/stat.h).\<close>

definition S_IFMT :: mode where "S_IFMT = 0xF000"
definition S_IFREG :: mode where "S_IFREG = 0x8000"
definition S_IFDIR :: mode where "S_IFDIR = 0x4000"
definition S_IFLNK :: mode where "S_IFLNK = 0xA000"

definition S_ISDIR :: "mode \<Rightarrow> bool" where "S_ISDIR m \<longleftrightarrow> m AND S_IFMT = S_IFDIR"
definition S_ISLNK :: "mode \<Rightarrow> bool" where "S_ISLNK m \<longleftrightarrow> m AND S_IFMT = S_IFLNK"


subsection \<open>From the host to the guest\<close>

text \<open>
  \<open>detranslate_path\<close>: the status (0, or the length of the new path with its terminator) and
  the new path.  Its first half decides whether bindings are followed and whether a path
  outside the root is an error; it may also return early.
\<close>

datatype detranslation = Return "(nat \<times> string) res" | Go bool bool

definition detranslate_mode ::
  "Tracee list \<Rightarrow> Tracee \<Rightarrow> string \<Rightarrow> string option \<Rightarrow> detranslation" where
  "detranslate_mode tracees tracee path t_referrer =
     (case t_referrer of
        None \<Rightarrow> Go True True
      | Some referrer \<Rightarrow>
          (if compare_paths ''/proc'' referrer = PATH1_IS_PREFIX then
             (case readlink_proc2 tracees tracee referrer of
                Inl e \<Rightarrow> Return (Inl e)
              | Inr (new_length, proc_path) \<Rightarrow>
                  (if new_length \<noteq> 0 then Return (Inr (new_length + 1, proc_path))
                   else Go False True))
           else if \<not> belongs_to_guestfs (t_fs tracee) referrer then
             (case get_path_binding (t_fs tracee) HOST path of
                None \<Rightarrow> Go False False
              | Some binding_referree \<Rightarrow>
                  (case get_path_binding (t_fs tracee) HOST referrer of
                     None \<Rightarrow> Return (Inl Undefined)
                   | Some binding_referrer \<Rightarrow>
                       Go False (compare_paths binding_referree binding_referrer = PATHS_ARE_EQUAL)))
           else Go False False))"

definition strip_root :: "FileSystemNameSpace \<Rightarrow> string \<Rightarrow> bool \<Rightarrow> (nat \<times> string) res" where
  "strip_root fs path sanity_check =
     (case compare_paths (root_path fs) path of
        PATH1_IS_PREFIX \<Rightarrow>
          (let prefix_length = length (root_path fs);
               prefix_length = (if prefix_length = 1 then 0 else prefix_length);
               new_path = drop prefix_length path
           in Inr (length new_path + 1, new_path))
      | PATHS_ARE_EQUAL \<Rightarrow> Inr (2, ''/'')
      | _ \<Rightarrow> (if sanity_check then Err EPERM else Inr (0, path)))"

definition detranslate_path ::
  "Tracee list \<Rightarrow> Tracee \<Rightarrow> string \<Rightarrow> string option \<Rightarrow> (nat \<times> string) res" where
  "detranslate_path tracees tracee path t_referrer =
     (if length path \<ge> PATH_MAX then Err ENAMETOOLONG
      else if char_at path 0 \<noteq> CHR ''/'' then Inr (0, path)
      else
        (case detranslate_mode tracees tracee path t_referrer of
           Return r \<Rightarrow> r
         | Go sanity_check follow_binding \<Rightarrow>
             (if follow_binding then
                (case substitute_binding (t_fs tracee) HOST path of
                   Inr (n, path') \<Rightarrow> (if n = 0 then Inr (0, path) else Inr (length path' + 1, path'))
                 | Inl Undefined \<Rightarrow> Inl Undefined
                 | Inl (Errno e) \<Rightarrow> strip_root (t_fs tracee) path sanity_check)
              else strip_root (t_fs tracee) path sanity_check)))"

subsection \<open>Components\<close>

fun skip_back :: "(char \<Rightarrow> bool) \<Rightarrow> string \<Rightarrow> nat \<Rightarrow> nat" where
  "skip_back P path offset =
     (if 1 < offset \<and> P (path ! offset) then skip_back P path (offset - 1) else offset)"

declare skip_back.simps [simp del]

definition pop_component :: "string \<Rightarrow> string res" where
  "pop_component path =
     (if path = [] then Inl Undefined
      else
        (let offset = length path - 1 in
         if offset = 0 then Inr path
         else
           (let offset = skip_back (\<lambda>c. c = CHR ''/'') path offset;
                offset = skip_back (\<lambda>c. c \<noteq> CHR ''/'') path offset
            in Inr (take offset path))))"

text \<open>\<open>next_component\<close>: the finality, the component and what is left of the path.\<close>

definition next_component :: "string \<Rightarrow> (Finality \<times> string \<times> string) res" where
  "next_component cursor =
     (let start = dropWhile (\<lambda>c. c = CHR ''/'') cursor;
          component = takeWhile (\<lambda>c. c \<noteq> CHR ''/'') start;
          cursor = dropWhile (\<lambda>c. c \<noteq> CHR ''/'') start
      in if length component \<ge> NAME_MAX then Err ENAMETOOLONG
         else
           (let want_dir = (char_at cursor 0 = CHR ''/'');
                cursor = dropWhile (\<lambda>c. c = CHR ''/'') cursor
            in Inr (if cursor = [] then (if want_dir then FINAL_SLASH else FINAL_NORMAL)
                    else NOT_FINAL,
                    component, cursor)))"

subsection \<open>The glue\<close>

text \<open>The address of a new object: the allocator gives one that is not in use.\<close>

definition fresh_addr :: "FileSystemNameSpace \<Rightarrow> nat" where
  "fresh_addr fs =
     Suc (sum_list (map b_addr (foreach fs PENDING @ foreach fs GUEST @ foreach fs HOST)))"

text \<open>
  \<open>build_glue\<close>: the type of the component, 0 for an error.  (The destructor that removes the
  place-holders at the exit of PRoot is not modelled.)
\<close>

definition create_glue_binding ::
  "Tracee \<Rightarrow> string \<Rightarrow> string \<Rightarrow> mode \<Rightarrow> mode \<times> Tracee" where
  "create_glue_binding tracee glue guest_path type =
     (if length glue \<ge> PATH_MAX \<or> length guest_path \<ge> PATH_MAX then (0, tracee)
      else (type, tracee\<lparr>t_fs := insort_binding3 (t_fs tracee) (fresh_addr (t_fs tracee))
                                  glue guest_path\<rparr>))"

definition build_glue ::
  "'w Env \<Rightarrow> Tracee \<Rightarrow> 'w \<Rightarrow> string \<Rightarrow> string \<Rightarrow> Finality \<Rightarrow> mode \<times> Tracee \<times> 'w" where
  "build_glue E tracee w guest_path host_path finality =
     (case (case t_glue tracee of Some g \<Rightarrow> (Some g, w) | None \<Rightarrow> h_create_temp_directory E w) of
        (None, w) \<Rightarrow> (0, tracee, w)
      | (Some glue, w) \<Rightarrow>
          (let tracee = tracee\<lparr>t_glue := Some glue\<rparr>;
               comparison = compare_paths glue host_path;
               belongs_to_gluefs =
                 (comparison = PATHS_ARE_EQUAL \<or> comparison = PATH1_IS_PREFIX);
               type = (if IS_FINAL finality then t_glue_type tracee else S_IFDIR);
               mode = (if IS_FINAL finality then (if belongs_to_gluefs then 0x1FF else 0)
                       else 0x1FF)
           in if h_getenv E ''PROOT_DONT_POLLUTE_ROOTFS'' \<noteq> None \<and> \<not> belongs_to_gluefs then
                (case create_glue_binding tracee glue guest_path type of
                   (type, tracee) \<Rightarrow> (type, tracee, w))
              else
                (case (if S_ISDIR type then h_mkdir E w host_path mode
                       else h_mknod E w host_path (mode OR type)) of
                   (status, w) \<Rightarrow>
                     (if status = None \<or> status = Some EEXIST \<or> IS_FINAL finality
                      then (type, tracee, w)
                      else if belongs_to_gluefs then (0, tracee, w)
                      else
                        (case create_glue_binding tracee glue guest_path type of
                           (type, tracee) \<Rightarrow> (type, tracee, w))))))"


subsection \<open>The walk\<close>

text \<open>Whether the component is a symbolic link, and its host path.\<close>

definition substitute_binding_stat ::
  "'w Env \<Rightarrow> Tracee \<Rightarrow> 'w \<Rightarrow> Finality \<Rightarrow> nat \<Rightarrow> string
     \<Rightarrow> (bool \<times> string) res \<times> Tracee \<times> 'w" where
  "substitute_binding_stat E tracee w finality recursion_level guest_path =
     (case substitute_binding (t_fs tracee) GUEST guest_path of
        Inl e \<Rightarrow> (Inl e, tracee, w)
      | Inr (_, host_path) \<Rightarrow>
          (case (if t_glue_type tracee = 0
                 then x_host_path E w host_path (IS_FINAL finality \<and> recursion_level = 0)
                 else (Inr 0, host_path, w)) of
             (Inl e, _, w) \<Rightarrow> (Inl e, tracee, w)
           | (Inr _, host_path, w) \<Rightarrow>
               (case h_skip_f2fs E w host_path of
                  (skip, w) \<Rightarrow>
                    (let (failed, st_mode) =
                       (if skip then (True, 0)
                        else
                          (case h_lstat E w host_path of
                             Inr m \<Rightarrow> (False, m)
                           | Inl e \<Rightarrow>
                               (if e = Errno EACCES \<and> host_path = ''/linkerconfig''
                                then (False, S_IFDIR) else (True, 0))))
                     in case (if failed \<and> t_glue_type tracee \<noteq> 0
                              then build_glue E tracee w guest_path host_path finality
                              else (st_mode, tracee, w)) of
                          (st_mode, tracee, w) \<Rightarrow>
                            (if \<not> IS_FINAL finality \<and> \<not> S_ISDIR st_mode \<and> \<not> S_ISLNK st_mode
                             then (Err (if failed then ENOENT else ENOTDIR), tracee, w)
                             else (Inr (S_ISLNK st_mode, host_path), tracee, w))))))"

text \<open>
  What a symbolic link is resolved to: \<open>Final\<close> for a descriptor under /proc that must stay as
  it is, \<open>Target\<close> for a path to canonicalize.
\<close>

datatype link = Final string | Target string

definition read_host_link ::
  "'w Env \<Rightarrow> Tracee \<Rightarrow> 'w \<Rightarrow> string \<Rightarrow> link res" where
  "read_host_link E tracee w host_path =
     (case h_readlink E w host_path of
        Inl _ \<Rightarrow> Err EPERM
      | Inr target \<Rightarrow>
          (if length target \<ge> PATH_MAX then Err ENAMETOOLONG
           else
             (case detranslate_path (e_tracees E) tracee (cstr target) (Some host_path) of
                Inl e \<Rightarrow> Inl e
              | Inr (_, path) \<Rightarrow> Inr (Target path))))"

text \<open>
  Which path is compared with /proc: the guest path or, where that is not under /proc, its host
  path if a binding changes it (\<open>alias_base\<close>).
\<close>

definition proc_base ::
  "FileSystemNameSpace \<Rightarrow> string \<Rightarrow> (Comparison \<times> string) res" where
  "proc_base fs guest_path =
     (let comparison = compare_paths ''/proc'' guest_path in
      if comparison \<noteq> PATHS_ARE_EQUAL \<and> comparison \<noteq> PATH1_IS_PREFIX then
        (let alias_base = take (PATH_MAX - 1) guest_path in
         case (case substitute_binding fs GUEST alias_base of
                 Inr (_, substituted) \<Rightarrow> Inr substituted
               | Inl Undefined \<Rightarrow> Inl Undefined
               | Inl (Errno e) \<Rightarrow> Inr alias_base) of
           Inl e \<Rightarrow> Inl e
         | Inr alias_base \<Rightarrow>
             Inr (if alias_base \<noteq> guest_path
                  then (compare_paths ''/proc'' alias_base, alias_base)
                  else (comparison, guest_path)))
      else Inr (comparison, guest_path))"

definition dereference ::
  "'w Env \<Rightarrow> Tracee \<Rightarrow> 'w \<Rightarrow> string \<Rightarrow> string \<Rightarrow> string \<Rightarrow> Finality \<Rightarrow> link res" where
  "dereference E tracee w guest_path component host_path finality =
     (case proc_base (t_fs tracee) guest_path of
        Inl e \<Rightarrow> Inl e
      | Inr (comparison, base) \<Rightarrow>
          (if comparison = PATHS_ARE_EQUAL \<or> comparison = PATH1_IS_PREFIX then
             (case readlink_proc (e_tracees E) tracee base component comparison of
                Inl e \<Rightarrow> Inl e
              | Inr (action, path) \<Rightarrow>
                  (if action = CANONICALIZE then Inr (Target path)
                   else if action = DONT_CANONICALIZE \<and> finality = FINAL_NORMAL
                   then Inr (Final path)
                   else read_host_link E tracee w host_path))
           else read_host_link E tracee w host_path))"

text \<open>
  One turn of the loop of \<open>canonicalize\<close>, after \<open>next_component\<close>.  \<open>rec n path guest\<close> is the
  recursive call for a link when \<open>n\<close> links were followed at this level before.  \<open>Done\<close> is the
  early return, \<open>Next\<close> the guest path and the number of links followed so far.
\<close>

datatype turn = Done string | Next string nat

type_synonym 'w canon = "nat \<Rightarrow> string \<Rightarrow> string \<Rightarrow> Tracee \<Rightarrow> 'w \<Rightarrow> string res \<times> Tracee \<times> 'w"

definition follow_link ::
  "'w Env \<Rightarrow> 'w canon \<Rightarrow> nat \<Rightarrow> Finality \<Rightarrow> string \<Rightarrow> string \<Rightarrow> nat \<Rightarrow> Tracee \<Rightarrow> 'w
     \<Rightarrow> turn res \<times> Tracee \<times> 'w" where
  "follow_link E rec recursion_level finality path guest_path symlinks_followed tracee w =
     (case rec symlinks_followed path guest_path tracee w of
        (Inl e, tracee, w) \<Rightarrow> (Inl e, tracee, w)
      | (Inr new_guest_path, tracee, w) \<Rightarrow>
          (if guest_path = new_guest_path then (Err ELOOP, tracee, w)
           else
             (case substitute_binding_stat E tracee w finality recursion_level new_guest_path of
                (Inl e, tracee, w) \<Rightarrow> (Inl e, tracee, w)
              | (Inr _, tracee, w) \<Rightarrow>
                  (Inr (Next new_guest_path (Suc symlinks_followed)), tracee, w))))"

definition canon_turn ::
  "'w Env \<Rightarrow> 'w canon \<Rightarrow> nat \<Rightarrow> bool \<Rightarrow> Finality \<Rightarrow> string \<Rightarrow> string \<Rightarrow> nat \<Rightarrow> Tracee \<Rightarrow> 'w
     \<Rightarrow> turn res \<times> Tracee \<times> 'w" where
  "canon_turn E rec recursion_level deref_final finality component guest_path symlinks_followed
     tracee w =
     (if component = ''.'' then (Inr (Next guest_path symlinks_followed), tracee, w)
      else if component = ''..'' then
        (case pop_component guest_path of
           Inl e \<Rightarrow> (Inl e, tracee, w)
         | Inr guest_path \<Rightarrow> (Inr (Next guest_path symlinks_followed), tracee, w))
      else
        (case join2 guest_path component of
           Inl e \<Rightarrow> (Inl e, tracee, w)
         | Inr scratch_path \<Rightarrow>
             (case substitute_binding_stat E tracee w finality recursion_level scratch_path of
                (Inl e, tracee, w) \<Rightarrow> (Inl e, tracee, w)
              | (Inr (is_link, host_path), tracee, w) \<Rightarrow>
                  (if \<not> is_link \<or> finality = FINAL_NORMAL \<and> \<not> deref_final then
                     (Inr (Next scratch_path symlinks_followed), tracee, w)
                   else
                     (case dereference E tracee w guest_path component host_path finality of
                        Inl e \<Rightarrow> (Inl e, tracee, w)
                      | Inr (Final path) \<Rightarrow> (Inr (Done path), tracee, w)
                      | Inr (Target path) \<Rightarrow>
                          follow_link E rec recursion_level finality path guest_path
                            symlinks_followed tracee w)))))"

text \<open>The two places where the source changes the finality of the last component.\<close>

definition end_finality :: "Finality \<Rightarrow> string \<Rightarrow> Finality" where
  "end_finality finality component =
     (if component = ''.'' \<and> IS_FINAL finality then FINAL_DOT
      else if component = ''..'' \<and> IS_FINAL finality then FINAL_SLASH
      else finality)"

lemma IS_FINAL_end_finality [simp]: "IS_FINAL (end_finality f c) = IS_FINAL f"
  by (simp add: end_finality_def IS_FINAL_def)

lemma next_component_shorter:
  assumes "next_component cursor = Inr (finality, component, rest)" and "\<not> IS_FINAL finality"
  shows "length rest < length cursor"
proof -
  let ?start = "dropWhile (\<lambda>c. c = CHR ''/'') cursor"
  let ?after = "dropWhile (\<lambda>c. c \<noteq> CHR ''/'') ?start"
  have eq: "(if length comp \<ge> NAME_MAX then Err ENAMETOOLONG
      else Inr (if cur = [] then (if b then FINAL_SLASH else FINAL_NORMAL) else NOT_FINAL, comp, cur))
      = Inr (finality, component, rest) \<Longrightarrow> rest = cur \<and> rest \<noteq> []" for comp cur b
    using assms(2) by (cases "cur = []"; cases b) (simp_all add: IS_FINAL_def split: if_splits)
  have rest: "rest = dropWhile (\<lambda>c. c = CHR ''/'') ?after \<and> rest \<noteq> []"
    by (rule eq) (rule assms(1)[unfolded next_component_def Let_def])
  then have ne: "?start \<noteq> []" by force
  then have "hd ?start \<noteq> CHR ''/''" by (rule hd_dropWhile)
  then obtain c cs where "?start = c # cs" "c \<noteq> CHR ''/''"
    using ne by (metis list.exhaust_sel)
  then have "length ?after < length ?start"
    using length_dropWhile_le[of "\<lambda>c. c \<noteq> CHR ''/''" cs] by simp
  then show ?thesis
    using length_dropWhile_le[of "\<lambda>c. c = CHR ''/''" ?after]
      length_dropWhile_le[of "\<lambda>c. c = CHR ''/''" cursor]
    unfolding conjunct1[OF rest] by linarith
qed

text \<open>
  The loop, until a final component: the guest path and its finality, \<open>None\<close> where the source
  returns early.
\<close>

function canon_loop ::
  "'w Env \<Rightarrow> 'w canon \<Rightarrow> nat \<Rightarrow> bool \<Rightarrow> string \<Rightarrow> string \<Rightarrow> nat \<Rightarrow> Tracee \<Rightarrow> 'w
     \<Rightarrow> (string \<times> Finality option) res \<times> Tracee \<times> 'w" where
  "canon_loop E rec recursion_level deref_final cursor guest_path symlinks_followed tracee w =
     (case next_component cursor of
        Inl e \<Rightarrow> (Inl e, tracee, w)
      | Inr (finality, component, cursor') \<Rightarrow>
          (case canon_turn E rec recursion_level deref_final finality component guest_path
                  symlinks_followed tracee w of
             (Inl e, tracee, w) \<Rightarrow> (Inl e, tracee, w)
           | (Inr (Done path), tracee, w) \<Rightarrow> (Inr (path, None), tracee, w)
           | (Inr (Next guest_path symlinks_followed), tracee, w) \<Rightarrow>
               (if IS_FINAL (end_finality finality component)
                then (Inr (guest_path, Some (end_finality finality component)), tracee, w)
                else canon_loop E rec recursion_level deref_final cursor' guest_path
                       symlinks_followed tracee w)))"
  by pat_completeness auto
termination
proof (relation "measure (\<lambda>(E, rec, l, d, cursor, g, n, t, w). length cursor)", goal_cases)
  case 1
  then show ?case by simp
next
  case 2
  then show ?case
    by (auto simp only: in_measure prod.case IS_FINAL_end_finality prod.inject
        split: prod.splits intro: next_component_shorter)
qed

declare canon_loop.simps [simp del]

text \<open>
  \<open>canonicalize_at d\<close> is \<open>canonicalize\<close> at the recursion level \<open>h_max_symlinks E + 1 - d\<close>: with no
  level left, that is above MAXSYMLINKS, it is ELOOP.  The recursive call is \<open>n + 1\<close> levels
  deeper where \<open>n\<close> links were followed before.
\<close>

definition restore_finality :: "nat \<Rightarrow> string \<Rightarrow> Finality option \<Rightarrow> string res" where
  "restore_finality recursion_level guest_path finality =
     (if recursion_level \<noteq> 0 then Inr guest_path
      else
        (case finality of
           Some FINAL_SLASH \<Rightarrow> join2 guest_path []
         | Some FINAL_DOT \<Rightarrow> join2 guest_path ''.''
         | _ \<Rightarrow> Inr guest_path))"

fun canonicalize_at ::
  "'w Env \<Rightarrow> nat \<Rightarrow> string \<Rightarrow> bool \<Rightarrow> string \<Rightarrow> Tracee \<Rightarrow> 'w \<Rightarrow> string res \<times> Tracee \<times> 'w" where
  "canonicalize_at E 0 user_path deref_final guest_path tracee w = (Err ELOOP, tracee, w)"
| "canonicalize_at E (Suc d) user_path deref_final guest_path tracee w =
     (if length guest_path \<ge> PATH_MAX then (Err ENAMETOOLONG, tracee, w)
      else if char_at user_path 0 \<noteq> CHR ''/'' \<and> char_at guest_path 0 \<noteq> CHR ''/''
      then (Err EINVAL, tracee, w)
      else
        (let recursion_level = h_max_symlinks E - d;
             guest_path = (if char_at user_path 0 = CHR ''/'' then ''/'' else guest_path)
         in case canon_loop E
                   (\<lambda>n path guest tracee w. canonicalize_at E (d - n) path True guest tracee w)
                   recursion_level deref_final user_path guest_path 0 tracee w of
              (Inl e, tracee, w) \<Rightarrow> (Inl e, tracee, w)
            | (Inr (guest_path, finality), tracee, w) \<Rightarrow>
                (restore_finality recursion_level guest_path finality, tracee, w)))"

definition canonicalize ::
  "'w Env \<Rightarrow> string \<Rightarrow> bool \<Rightarrow> string \<Rightarrow> nat \<Rightarrow> Tracee \<Rightarrow> 'w \<Rightarrow> string res \<times> Tracee \<times> 'w" where
  "canonicalize E user_path deref_final guest_path recursion_level tracee w =
     canonicalize_at E (Suc (h_max_symlinks E) - recursion_level) user_path deref_final guest_path
       tracee w"

end
