(* ===== verification/Canon_Props.thy ===== *)
theory Canon_Props
  imports Canon
begin

section \<open>Canonicalization stays inside the guest name-space\<close>

text \<open>
  Whatever the host file system contains, a path that \<open>canonicalize\<close> returns is absolute and
  made of proper components: no link and no ''..'' leads outside the guest root.  The glue it
  may build on the way keeps the invariant of the bindings.
\<close>

subsection \<open>Components\<close>

lemma skip_back_to:
  assumes "m \<le> n" and "1 \<le> m" and "\<forall>i. m < i \<and> i \<le> n \<longrightarrow> P (path ! i)"
    and "m = 1 \<or> \<not> P (path ! m)"
  shows "skip_back P path n = m"
  using assms
proof (induction n)
  case (Suc n)
  show ?case
  proof (cases "m = Suc n")
    case True
    then show ?thesis using Suc.prems by (subst skip_back.simps) auto
  next
    case False
    then have "skip_back P path n = m" using Suc by auto
    moreover have "P (path ! Suc n)" "1 < Suc n" using Suc.prems False by auto
    ultimately show ?thesis by (subst skip_back.simps) simp
  qed
qed simp

lemma pop_component_comps:
  assumes cs: "valid_comps cs"
  shows "pop_component (path_of cs) = Inr (path_of (butlast cs))"
proof (cases cs rule: rev_cases)
  case Nil
  then show ?thesis by (simp add: pop_component_def)
next
  case (snoc ds d)
  let ?p = "path_of cs" and ?n = "length (slashed ds)"
  have d: "d \<noteq> []" "CHR ''/'' \<notin> set d" using cs snoc by (auto simp: valid_comp_def)
  have p: "?p = slashed ds @ CHR ''/'' # d" using snoc by simp
  have last: "?p ! (length ?p - 1) \<noteq> CHR ''/''"
    using slashed_last_nth[OF cs] snoc by simp
  have tail: "?p ! i \<noteq> CHR ''/''" if "?n < i" "i \<le> length ?p - 1" for i
  proof -
    have "?p ! i = d ! (i - Suc ?n)" using that by (simp add: p nth_append nth_Cons')
    moreover have "i - Suc ?n < length d" using that by (simp add: p)
    ultimately show ?thesis using d(2) by (metis nth_mem)
  qed
  have one: "skip_back (\<lambda>c. c = CHR ''/'') ?p (length ?p - 1) = length ?p - 1"
    using last by (subst skip_back.simps) simp
  have n1: "length ?p - 1 \<noteq> 0" using d(1) by (simp add: p)
  show ?thesis
  proof (cases "ds = []")
    case True
    have "skip_back (\<lambda>c. c \<noteq> CHR ''/'') ?p (length ?p - 1) = 1"
      by (rule skip_back_to) (use tail n1 True in auto)
    then show ?thesis using one n1 True snoc by (simp add: pop_component_def Let_def)
  next
    case False
    have "?p ! ?n = CHR ''/''" by (simp add: p)
    moreover have "1 \<le> ?n" using False by (cases ds) auto
    moreover have "?n \<le> length ?p - 1" using d(1) by (simp add: p)
    ultimately have "skip_back (\<lambda>c. c \<noteq> CHR ''/'') ?p (length ?p - 1) = ?n"
      by (intro skip_back_to) (use tail in auto)
    then show ?thesis using one n1 False snoc by (simp add: pop_component_def Let_def)
  qed
qed

text \<open>The part of a path that is left: not empty, and absolute only while the guest path is the root.\<close>

definition cursor_ok :: "string \<Rightarrow> string \<Rightarrow> bool" where
  "cursor_ok cursor guest \<longleftrightarrow> cursor \<noteq> [] \<and> NUL \<notin> set cursor
     \<and> (hd cursor = CHR ''/'' \<longrightarrow> guest = ''/'')"

lemma next_component_Inr:
  assumes "next_component cursor = Inr (finality, component, rest)"
  shows "component = takeWhile (\<lambda>c. c \<noteq> CHR ''/'') (dropWhile (\<lambda>c. c = CHR ''/'') cursor)"
    and "rest = dropWhile (\<lambda>c. c = CHR ''/'')
           (dropWhile (\<lambda>c. c \<noteq> CHR ''/'') (dropWhile (\<lambda>c. c = CHR ''/'') cursor))"
    and "finality = NOT_FINAL \<longleftrightarrow> rest \<noteq> []"
    and "length component < NAME_MAX"
  using assms unfolding next_component_def Let_def
  by (simp_all del: dropWhile_eq_Nil_conv split: if_split_asm)

lemma hd_dropWhile_not:
  "dropWhile P xs \<noteq> [] \<Longrightarrow> \<not> P (hd (dropWhile P xs))"
  by (rule hd_dropWhile)

lemma next_component_ok:
  assumes nc: "next_component cursor = Inr (finality, component, rest)"
    and ok: "cursor_ok cursor guest"
  shows "valid_comp component \<or> component = ''.'' \<or> component = ''..''
      \<or> component = [] \<and> guest = ''/''"
    and "\<not> IS_FINAL finality \<Longrightarrow> cursor_ok rest guest'"
proof -
  let ?s = "dropWhile (\<lambda>c. c = CHR ''/'') cursor"
  note c = next_component_Inr(1)[OF nc] and r = next_component_Inr(2)[OF nc]
  have nul: "NUL \<notin> set ?s" using ok set_dropWhileD by (fastforce simp: cursor_ok_def)
  have "CHR ''/'' \<notin> set component" unfolding c by (auto dest: set_takeWhileD)
  moreover have "NUL \<notin> set component" unfolding c using nul by (auto dest: set_takeWhileD)
  moreover have "guest = ''/''" if "component = []"
  proof -
    have "?s = []"
      using that hd_dropWhile_not[of "\<lambda>c. c = CHR ''/''" cursor] c
      by (cases ?s) (auto split: if_splits)
    then have "hd cursor = CHR ''/''"
      using ok by (cases cursor) (auto simp: cursor_ok_def split: if_splits)
    then show ?thesis using ok by (simp add: cursor_ok_def)
  qed
  ultimately show "valid_comp component \<or> component = ''.'' \<or> component = ''..''
      \<or> component = [] \<and> guest = ''/''"
    by (auto simp: valid_comp_def)
  assume "\<not> IS_FINAL finality"
  then have ne: "rest \<noteq> []" using next_component_Inr(3)[OF nc] by (simp add: IS_FINAL_def)
  have "NUL \<notin> set rest" unfolding r using nul by (auto dest!: set_dropWhileD)
  moreover have "hd rest \<noteq> CHR ''/''"
    using ne hd_dropWhile_not unfolding r by fast
  ultimately show "cursor_ok rest guest'" using ne by (simp add: cursor_ok_def)
qed

subsection \<open>What the translation relies on\<close>

text \<open>
  A tracee is well formed if its name-space is, its glue directory is canonical, and the
  strings that /proc may expose are not empty.  The environment is: a link of the host has a
  content, and a temporary directory has a canonical path that fits.
\<close>

definition text_ok :: "string \<Rightarrow> bool" where
  "text_ok s \<longleftrightarrow> s \<noteq> [] \<and> NUL \<notin> set s"

definition tracee_ok :: "Tracee \<Rightarrow> bool" where
  "tracee_ok t \<longleftrightarrow> wf_fs (t_fs t) \<and> text_ok (t_exe t) \<and> text_ok (fs_cwd (t_fs t))
     \<and> (\<forall>g. t_glue t = Some g \<longrightarrow> canonical g \<and> length g < PATH_MAX)"

definition env_ok :: "'w Env \<Rightarrow> bool" where
  "env_ok E \<longleftrightarrow>
     (\<forall>w p s. h_readlink E w p = Inr s \<longrightarrow> cstr s \<noteq> [])
     \<and> (\<forall>w g w'. h_create_temp_directory E w = (Some g, w') \<longrightarrow> canonical g \<and> length g < PATH_MAX)
     \<and> (\<forall>t \<in> set (e_tracees E). tracee_ok t)"

definition path_ok :: "string \<Rightarrow> bool" where
  "path_ok p \<longleftrightarrow> canonical p \<and> length p < PATH_MAX"

lemma env_ok_temp:
  "env_ok E \<Longrightarrow> h_create_temp_directory E w = (Some g, w') \<Longrightarrow> canonical g \<and> length g < PATH_MAX"
  by (auto simp only: env_ok_def)

lemma env_ok_readlink: "env_ok E \<Longrightarrow> h_readlink E w p = Inr s \<Longrightarrow> cstr s \<noteq> []"
  by (auto simp only: env_ok_def)

lemma env_ok_tracees: "env_ok E \<Longrightarrow> t \<in> set (e_tracees E) \<Longrightarrow> tracee_ok t"
  by (auto simp only: env_ok_def)

lemma text_okI [intro]: "s \<noteq> [] \<Longrightarrow> NUL \<notin> set s \<Longrightarrow> text_ok s"
  by (simp add: text_ok_def)

lemma canonical_text_ok: "canonical p \<Longrightarrow> text_ok p"
  by (auto simp: text_ok_def path_of_no_NUL)

lemma path_ok_text_ok: "path_ok p \<Longrightarrow> text_ok p"
  by (simp add: path_ok_def canonical_text_ok)

lemma wf_binding_path_ok:
  "wf_binding b \<Longrightarrow> path_ok (guest_key b)" "wf_binding b \<Longrightarrow> path_ok (host_key b)"
  by (auto simp: path_ok_def dest: wf_binding_paths wf_binding_lengths)

lemma root_path_ok: "wf_fs fs \<Longrightarrow> path_ok (root_path fs)"
  by (metis bindings_of_wf get_root_wf wf_binding_path_ok(2))

subsection \<open>The glue keeps the invariant\<close>

lemma insort_binding_cwd: "fs_cwd (insort_binding fs side b) = fs_cwd fs"
  by (cases side)
    (auto simp: insort_binding_def Let_def set_HEAD_def remove_binding_from_all_lists_def
      split: insort_pos.splits)

lemma insort_binding3_cwd: "fs_cwd (insort_binding3 fs a h g) = fs_cwd fs"
  by (simp add: insort_binding3_def insort_binding2_def Let_def insort_binding_cwd)

lemma fresh_addr_fresh: "b \<in> set (foreach fs GUEST) \<Longrightarrow> b_addr b < fresh_addr fs"
  using member_le_sum_list[of "b_addr b" "map b_addr (foreach fs GUEST)"]
  by (simp add: fresh_addr_def)

lemma create_glue_binding_ok:
  assumes "tracee_ok t" and "canonical glue" and "canonical guest"
    and "create_glue_binding t glue guest type = (m, t')"
  shows "tracee_ok t'"
proof (cases "length glue \<ge> PATH_MAX \<or> length guest \<ge> PATH_MAX")
  case True
  then show ?thesis using assms by (auto simp: create_glue_binding_def)
next
  case False
  have "wf_fs (insort_binding3 (t_fs t) (fresh_addr (t_fs t)) glue guest)"
    unfolding insort_binding3_def
    using assms False
    by (intro insort_binding2_wf_fs(1))
      (auto simp: tracee_ok_def wf_Path_def mk_Path_def dest!: fresh_addr_fresh)
  then show ?thesis
    using assms False by (auto simp: create_glue_binding_def tracee_ok_def insort_binding3_cwd)
qed

lemma build_glue_ok:
  assumes E: "env_ok E" and t: "tracee_ok t" and guest: "canonical guest"
    and r: "build_glue E t w guest host f = (m, t', w')"
  shows "tracee_ok t'"
proof -
  define start where
    "start = (case t_glue t of Some g \<Rightarrow> (Some g, w) | None \<Rightarrow> h_create_temp_directory E w)"
  obtain og w1 where start: "start = (og, w1)" by (cases start)
  show ?thesis
  proof (cases og)
    case None
    then show ?thesis using r t start by (simp add: build_glue_def start_def[symmetric])
  next
    case (Some g)
    then have g: "canonical g" "length g < PATH_MAX"
      using env_ok_temp[OF E] t start
      by (auto simp only: start_def tracee_ok_def split: option.splits)
    then have t1: "tracee_ok (t\<lparr>t_glue := Some g\<rparr>)"
      using t by (simp add: tracee_ok_def)
    note create = create_glue_binding_ok[OF t1 g(1) guest]
    show ?thesis
      using r t1 create unfolding build_glue_def start_def[symmetric] start Some Let_def
      by (auto split: prod.splits if_split_asm)
  qed
qed

lemma substitute_binding_stat_ok:
  assumes E: "env_ok E" and t: "tracee_ok t" and guest: "canonical guest"
    and r: "substitute_binding_stat E t w f l guest = (res, t', w')"
  shows "tracee_ok t'"
  using r t unfolding substitute_binding_stat_def Let_def
  by (auto split: sum.splits prod.splits if_split_asm
      dest!: build_glue_ok[OF E t guest])

subsection \<open>The targets of links\<close>

text \<open>What is canonicalized next, the target of a link, is a non-empty C string.\<close>

lemma get_binding_loop_mem: "get_binding_loop fs side p bs = Some b \<Longrightarrow> b \<in> set bs"
  by (induction bs) (auto split: Side.splits if_splits simp: Let_def)

lemma get_binding_PENDING [simp]: "get_binding fs PENDING p = None"
  by (cases "foreach fs PENDING") (simp_all add: get_binding_def)

lemma get_binding_wf: "wf_fs fs \<Longrightarrow> get_binding fs side p = Some b \<Longrightarrow> wf_binding b"
  using bindings_of_wf[of fs b] foreach_sides[of fs]
    get_binding_loop_mem[of fs side p "foreach fs side" b]
  by (cases side) (auto simp: get_binding_def[of _ GUEST] get_binding_def[of _ HOST] bindings_of_def)

lemma text_ok_drop: "text_ok s \<Longrightarrow> n < length s \<Longrightarrow> text_ok (drop n s)"
  by (auto simp: text_ok_def dest: in_set_dropD)

lemma substitute_path_prefix_text:
  assumes "text_ok path" and "text_ok new"
    and "substitute_path_prefix path old_length new (length new) = Inr q"
  shows "text_ok q"
  using assms
  by (auto simp: substitute_path_prefix_def Let_def text_ok_def NUL_def dest: in_set_dropD
      split: if_split_asm)

lemma substitute_binding_text:
  assumes fs: "wf_fs fs" and p: "text_ok p" and r: "substitute_binding fs side p = Inr (n, q)"
  shows "text_ok q"
proof (cases "get_binding fs side p")
  case None
  then show ?thesis using r by (simp add: substitute_binding_def)
next
  case (Some b)
  note wf = get_binding_wf[OF fs Some]
  have keys: "text_ok (path_str (b_host b))" "path_len (b_host b) = length (path_str (b_host b))"
    "text_ok (path_str (b_guest b))" "path_len (b_guest b) = length (path_str (b_guest b))"
    using wf_binding_path_ok[OF wf, THEN path_ok_text_ok] wf_binding_paths(4,5)[OF wf]
    by (simp_all add: host_key_def guest_key_def)
  show ?thesis
    using r p keys substitute_path_prefix_text[OF p keys(1)] substitute_path_prefix_text[OF p keys(3)]
    by (auto simp: substitute_binding_def Some Let_def
        split: Side.splits sum.splits failure.splits if_split_asm)
qed

lemma strip_root_text:
  assumes fs: "wf_fs fs" and p: "text_ok p" and r: "strip_root fs p sanity = Inr (n, q)"
  shows "text_ok q"
proof (cases "compare_paths (root_path fs) p")
  case PATH1_IS_PREFIX
  let ?r = "root_path fs"
  from root_path_ok[OF fs] obtain cs where cs: "valid_comps cs" "?r = path_of cs"
    by (auto simp: path_ok_def)
  have "length (slashed cs) < length p"
    using PATH1_IS_PREFIX trimmed_length[OF cs(1)] cs(2)
    by (auto simp: compare_paths_def compare_paths2_def Let_def split: if_split_asm)
  then have "(if length ?r = 1 then 0 else length ?r) < length p"
    using cs by (cases "cs = []") auto
  then show ?thesis
    using r p PATH1_IS_PREFIX text_ok_drop[OF p]
    by (auto simp: strip_root_def Let_def split: if_split_asm)
qed (use r p in \<open>auto simp: strip_root_def text_ok_def NUL_def split: if_split_asm\<close>)

lemma get_tracee_ok:
  assumes "\<forall>t \<in> set ts. tracee_ok t" and "tracee_ok t" and "get_tracee ts t pid = Some k"
  shows "tracee_ok k"
  using assms by (auto simp: get_tracee_def find_Some_iff split: if_split_asm)

lemma readlink_proc_text:
  assumes ts: "\<forall>t \<in> set ts. tracee_ok t" and t: "tracee_ok t"
    and r: "readlink_proc ts t base component c = Inr (CANONICALIZE, q)"
  shows "text_ok q"
proof -
  have "text_ok (''/proc/'' @ string_of_int n)" for n
    using string_of_int_no_NUL[of n] by (auto simp: text_ok_def NUL_def)
  moreover have "text_ok (t_exe k)" "text_ok (fs_cwd (t_fs k))" "text_ok (root_path (t_fs k))"
    if "get_tracee ts t pid = Some k" for pid k
    using get_tracee_ok[OF ts t that] by (auto simp: tracee_ok_def root_path_ok path_ok_text_ok)
  ultimately show ?thesis
    using r unfolding readlink_proc_def SUBSTITUTE_def Let_def
    by (auto split: Comparison.splits option.splits if_split_asm)
qed

lemma readlink_proc2_text:
  assumes "\<forall>t \<in> set ts. tracee_ok t" and "tracee_ok t"
    and "readlink_proc2 ts t p = Inr (n, q)" and "n \<noteq> 0"
  shows "text_ok q"
  using assms readlink_proc_text[OF assms(1,2)]
  by (auto simp: readlink_proc2_def Let_def
      split: option.splits sum.splits failure.splits Action.splits prod.splits if_split_asm)

lemma detranslate_path_text:
  assumes ts: "\<forall>t \<in> set ts. tracee_ok t" and t: "tracee_ok t" and p: "text_ok p"
    and r: "detranslate_path ts t p referrer = Inr (n, q)"
  shows "text_ok q"
proof -
  have fs: "wf_fs (t_fs t)" using t by (simp add: tracee_ok_def)
  have early: "text_ok q" if "detranslate_mode ts t p referrer = Return (Inr (n, q))"
    using that readlink_proc2_text[OF ts t]
    by (auto simp: detranslate_mode_def split: option.splits sum.splits if_split_asm)
  show ?thesis
    using r p early strip_root_text[OF fs p] substitute_binding_text[OF fs p, of HOST]
    unfolding detranslate_path_def
    by (auto split: detranslation.splits sum.splits failure.splits prod.splits if_split_asm)
qed

subsection \<open>The walk keeps the guest path canonical\<close>

lemma substitute_binding_GUEST_path_ok:
  assumes "wf_fs fs" and "path_ok p" and "substitute_binding fs GUEST p = Inr (n, q)"
  shows "path_ok q"
  using substitute_binding_GUEST_canonical[of fs p] assms by (auto simp: path_ok_def)

lemma read_host_link_ok:
  assumes E: "env_ok E" and t: "tracee_ok t" and r: "read_host_link E t w host = Inr l"
  shows "\<exists>q. l = Target q \<and> text_ok q"
proof -
  from r obtain s n q where "h_readlink E w host = Inr s" "l = Target q"
    and d: "detranslate_path (e_tracees E) t (cstr s) (Some host) = Inr (n, q)"
    by (auto simp: read_host_link_def split: sum.splits prod.splits if_split_asm)
  moreover have "text_ok (cstr s)" using env_ok_readlink[OF E] calculation by (auto simp: text_ok_def)
  ultimately show ?thesis
    using detranslate_path_text[OF _ t _ d] env_ok_tracees[OF E] by blast
qed

fun link_ok :: "link \<Rightarrow> bool" where
  "link_ok (Final p) = path_ok p"
| "link_ok (Target q) = text_ok q"

lemma readlink_proc_dont_Nil: "readlink_proc ts t base [] k \<noteq> Inr (DONT_CANONICALIZE, q)"
  by (simp add: readlink_proc_def SUBSTITUTE_def Let_def strtol10_def
      split: Comparison.splits option.splits)

lemma proc_link_ok:
  assumes E: "env_ok E" and t: "tracee_ok t" and base: "path_ok base" and c: "valid_comp c \<or> c = []"
  shows "readlink_proc (e_tracees E) t base c k = Inr (CANONICALIZE, q) \<Longrightarrow> text_ok q"
    and "readlink_proc (e_tracees E) t base c k = Inr (DONT_CANONICALIZE, q) \<Longrightarrow> path_ok q"
  using readlink_proc_text[of "e_tracees E" t base c k q] env_ok_tracees[OF E] t
    readlink_proc_dont[of "e_tracees E" t base c k q] base c
  by (auto simp: path_ok_def readlink_proc_dont_Nil)

lemma proc_base_ok:
  assumes fs: "wf_fs fs" and guest: "path_ok guest" and r: "proc_base fs guest = Inr (k, base)"
  shows "path_ok base"
proof -
  have whole: "take (PATH_MAX - 1) guest = guest"
    using guest unfolding path_ok_def by (intro take_all) linarith
  show ?thesis
    using r guest substitute_binding_GUEST_path_ok[OF fs guest] unfolding proc_base_def whole Let_def
    by (auto split: sum.splits failure.splits prod.splits if_split_asm)
qed

lemma dereference_ok:
  assumes E: "env_ok E" and t: "tracee_ok t" and guest: "path_ok guest"
    and c: "valid_comp c \<or> c = []" and r: "dereference E t w guest c host f = Inr l"
  shows "link_ok l"
proof -
  have fs: "wf_fs (t_fs t)" using t by (simp add: tracee_ok_def)
  have host: "link_ok l" if "read_host_link E t w host = Inr l"
    using read_host_link_ok[OF E t that] by auto
  show ?thesis
    using r host proc_base_ok[OF fs guest] proc_link_ok[OF E t _ c]
    by (auto simp: dereference_def split: sum.splits prod.splits if_split_asm)
qed

text \<open>What the recursive call promises to the loop.\<close>

definition canon_ok :: "'w canon \<Rightarrow> bool" where
  "canon_ok rec \<longleftrightarrow>
     (\<forall>n p g t w r t' w'. text_ok p \<longrightarrow> path_ok g \<longrightarrow> tracee_ok t \<longrightarrow> rec n p g t w = (r, t', w') \<longrightarrow>
        tracee_ok t' \<and> (\<forall>q. r = Inr q \<longrightarrow> path_ok q))"

lemma canon_okI:
  assumes "\<And>n p g t w r t' w'. text_ok p \<Longrightarrow> path_ok g \<Longrightarrow> tracee_ok t \<Longrightarrow>
    rec n p g t w = (r, t', w') \<Longrightarrow> tracee_ok t' \<and> (\<forall>q. r = Inr q \<longrightarrow> path_ok q)"
  shows "canon_ok rec"
  unfolding canon_ok_def by (intro allI impI) (rule assms)

definition turn_ok :: "turn res \<Rightarrow> bool" where
  "turn_ok r \<longleftrightarrow> (\<forall>q n. r = Inr (Done q) \<or> r = Inr (Next q n) \<longrightarrow> path_ok q)"

lemma turn_ok_simps [simp]:
  "turn_ok (Inl e)" "turn_ok (Inr (Done q)) = path_ok q" "turn_ok (Inr (Next q n)) = path_ok q"
  by (simp_all add: turn_ok_def)

lemma follow_link_ok:
  assumes E: "env_ok E" and rec: "canon_ok rec" and t: "tracee_ok t" and p: "text_ok p"
    and guest: "path_ok guest" and r: "follow_link E rec l f p guest n t w = (res, t', w')"
  shows "tracee_ok t' \<and> turn_ok res"
proof -
  obtain r1 t1 w1 where c: "rec n p guest t w = (r1, t1, w1)" by (metis prod.exhaust)
  then have ok: "tracee_ok t1" "\<And>q. r1 = Inr q \<Longrightarrow> path_ok q"
    using rec p guest t unfolding canon_ok_def by blast+
  show ?thesis
  proof (cases r1)
    case (Inl e)
    then show ?thesis using r c ok by (simp add: follow_link_def) auto
  next
    case (Inr q)
    then have q: "canonical q" using ok by (simp add: path_ok_def)
    show ?thesis
      using r c ok Inr substitute_binding_stat_ok[OF E ok(1) q]
      by (auto simp: follow_link_def split: if_split_asm prod.splits sum.splits)
  qed
qed

lemma canon_turn_ok:
  assumes E: "env_ok E" and rec: "canon_ok rec" and t: "tracee_ok t" and guest: "path_ok guest"
    and c: "valid_comp c \<or> c = ''.'' \<or> c = ''..'' \<or> c = [] \<and> guest = ''/''"
    and r: "canon_turn E rec l d f c guest n t w = (res, t', w')"
  shows "tracee_ok t' \<and> turn_ok res"
proof -
  from guest obtain cs where cs: "valid_comps cs" "guest = path_of cs" by (auto simp: path_ok_def)
  consider "c = ''.''" | "c = ''..''" | (walk) "c \<noteq> ''.''" "c \<noteq> ''..''" by blast
  then show ?thesis
  proof cases
    case 1
    then show ?thesis using r t guest by (auto simp: canon_turn_def)
  next
    case 2
    have "length (path_of (butlast cs)) \<le> length (path_of cs)"
      by (cases cs rule: rev_cases) (auto simp: path_of_def Suc_le_eq)
    moreover have "valid_comps (butlast cs)"
      using cs(1) by (auto simp: list_all_iff dest: in_set_butlastD)
    ultimately have "path_ok (path_of (butlast cs))"
      using guest cs(2) by (auto simp: path_ok_def)
    then show ?thesis
      using 2 r t cs by (auto simp: canon_turn_def pop_component_comps)
  next
    case walk
    have join: "path_ok q" if "join2 guest c = Inr q" for q
    proof (cases "c = []")
      case True
      then show ?thesis
        using that guest c by (auto simp: join2_eq sep_join_def valid_comp_def split: if_split_asm)
    next
      case False
      then have v: "valid_comp c" using c walk by auto
      then have "valid_comps (cs @ [c])" using cs by simp
      then show ?thesis
        using that canonicalI[of "cs @ [c]"] unfolding cs(2) join2_component[OF cs(1) v] path_ok_def
        by (simp del: path_of_nonempty split: if_split_asm)
    qed
    show ?thesis
    proof (cases "join2 guest c")
      case (Inl e)
      then show ?thesis using r t walk by (auto simp: canon_turn_def)
    next
      case (Inr scratch)
      note scratch = join[OF Inr]
      obtain r1 t1 w1 where s: "substitute_binding_stat E t w f l scratch = (r1, t1, w1)"
        by (metis prod.exhaust)
      have t1: "tracee_ok t1"
        using substitute_binding_stat_ok[OF E t _ s] scratch by (simp add: path_ok_def)
      have "valid_comp c \<or> c = []" using c walk by blast
      note deref = dereference_ok[OF E t1 guest this]
      have final: "path_ok q" if "dereference E t1 w1 guest c h f = Inr (Final q)" for h q
        using deref[OF that] by simp
      have follow: "tracee_ok t' \<and> turn_ok res"
        if "dereference E t1 w1 guest c h f = Inr (Target q)"
          and "follow_link E rec l f q guest n t1 w1 = (res, t', w')" for h q
        using deref[OF that(1)] follow_link_ok[OF E rec t1 _ guest that(2)] by simp
      show ?thesis
        using r t1 scratch
        by (auto simp: canon_turn_def walk Inr s final
            split: sum.splits prod.splits link.splits if_split_asm dest: follow)
    qed
  qed
qed


lemma canon_loop_ok:
  assumes E: "env_ok E" and rec: "canon_ok rec"
  shows "cursor_ok cursor guest \<Longrightarrow> path_ok guest \<Longrightarrow> tracee_ok t \<Longrightarrow>
    canon_loop E rec l d cursor guest n t w = (res, t', w') \<Longrightarrow>
    tracee_ok t' \<and> (\<forall>q f. res = Inr (q, f) \<longrightarrow> path_ok q)"
proof (induction "length cursor" arbitrary: cursor guest n t w rule: less_induct)
  case less
  show ?case
  proof (cases "next_component cursor")
    case (Inl e)
    then show ?thesis using less.prems by (subst (asm) canon_loop.simps) auto
  next
    case (Inr x)
    obtain f c rest where x: "x = (f, c, rest)" by (metis prod.exhaust)
    note nc = Inr[unfolded x]
    obtain r1 t1 w1 where turn: "canon_turn E rec l d f c guest n t w = (r1, t1, w1)"
      by (metis prod.exhaust)
    have ok: "tracee_ok t1 \<and> turn_ok r1"
      using canon_turn_ok[OF E rec less.prems(3,2) _ turn] next_component_ok(1)[OF nc less.prems(1)]
      by blast
    have step: "canon_loop E rec l d cursor guest n t w =
      (case r1 of Inl e \<Rightarrow> (Inl e, t1, w1) | Inr (Done path) \<Rightarrow> (Inr (path, None), t1, w1)
       | Inr (Next g' n') \<Rightarrow>
           (if IS_FINAL f then (Inr (g', Some (end_finality f c)), t1, w1)
            else canon_loop E rec l d rest g' n' t1 w1))"
      by (subst canon_loop.simps) (simp add: nc turn split: sum.split turn.split)
    show ?thesis
    proof (cases "\<exists>g' n'. r1 = Inr (Next g' n') \<and> \<not> IS_FINAL f")
      case True
      then obtain g' n' where r1: "r1 = Inr (Next g' n')" "\<not> IS_FINAL f" by blast
      have "canon_loop E rec l d rest g' n' t1 w1 = (res, t', w')"
        using step r1 less.prems(4) by simp
      moreover have "path_ok g'" "tracee_ok t1" using ok r1 by simp_all
      ultimately show ?thesis
        using less.hyps[OF next_component_shorter[OF nc r1(2)]
            next_component_ok(2)[OF nc less.prems(1) r1(2)]] by blast
    next
      case False
      then show ?thesis
        using step ok less.prems(4) by (auto split: sum.splits turn.splits if_split_asm)
    qed
  qed
qed

text \<open>
  Below the first level the result is canonical; at the first level it also carries the
  ending that the user's path asked for.
\<close>

lemma start_ok:
  assumes "text_ok p" and "path_ok g"
  shows "cursor_ok p (if char_at p 0 = CHR ''/'' then ''/'' else g)"
    and "path_ok (if char_at p 0 = CHR ''/'' then ''/'' else g)"
  using assms
  by (auto simp: cursor_ok_def text_ok_def path_ok_def PATH_MAX_def char_at_def hd_conv_nth)

lemma path_of_length_slash: "length (slashed cs) + 1 \<le> Suc (length (path_of cs))"
  by (simp add: path_of_def)

lemma restore_finality_eq:
  assumes r: "restore_finality 0 (path_of cs) f = Inr q" and cs: "valid_comps cs"
  shows "q = with_finality cs (case f of None \<Rightarrow> FINAL_NORMAL | Some f \<Rightarrow> f)"
proof (cases "f = Some FINAL_SLASH \<or> f = Some FINAL_DOT")
  case True
  have "sep_join (path_of cs) [] = slashed cs @ ''/''" "sep_join (path_of cs) ''.'' = slashed cs @ ''/.''"
    using sep_join_component[OF cs, of "[]"] sep_join_component[OF cs, of "''.''"] by simp_all
  then show ?thesis
    using True r by (auto simp: restore_finality_def join2_eq with_finality_def split: if_split_asm)
next
  case False
  then show ?thesis
    using r by (cases f) (auto simp: restore_finality_def with_finality_def split: Finality.splits)
qed

lemma canonicalize_at_ok:
  assumes E: "env_ok E"
  shows "d \<le> h_max_symlinks E \<Longrightarrow> text_ok p \<Longrightarrow> path_ok g \<Longrightarrow> tracee_ok t \<Longrightarrow>
    canonicalize_at E d p deref g t w = (r, t', w') \<Longrightarrow>
    tracee_ok t' \<and> (\<forall>q. r = Inr q \<longrightarrow> path_ok q)"
proof (induction d arbitrary: p deref g t w r t' w' rule: less_induct)
  case (less d)
  show ?case
  proof (cases d)
    case 0
    then show ?thesis using less.prems by auto
  next
    case (Suc d')
    let ?rec = "\<lambda>n path guest tracee w. canonicalize_at E (d' - n) path True guest tracee w"
    let ?g = "if char_at p 0 = CHR ''/'' then ''/'' else g"
    let ?l = "h_max_symlinks E - d'"
    have rec: "canon_ok ?rec"
    proof (rule canon_okI)
      fix n p g t w r t' w'
      assume "text_ok p" "path_ok g" "tracee_ok t"
        "canonicalize_at E (d' - n) p True g t w = (r, t', w')"
      then show "tracee_ok t' \<and> (\<forall>q. r = Inr q \<longrightarrow> path_ok q)"
        by (rule less.IH[rotated 2]) (use less.prems(1) Suc in linarith)+
    qed
    have l: "?l \<noteq> 0" using less.prems(1) Suc by simp
    obtain r1 t1 w1 where loop: "canon_loop E ?rec ?l deref p ?g 0 t w = (r1, t1, w1)"
      by (metis prod.exhaust)
    have "tracee_ok t1 \<and> (\<forall>q f. r1 = Inr (q, f) \<longrightarrow> path_ok q)"
      using canon_loop_ok[OF E rec start_ok[OF less.prems(2,3)] less.prems(4) loop] .
    then show ?thesis
      using less.prems(4,5) loop l Suc
      by (auto simp: Let_def restore_finality_def split: sum.splits if_split_asm)
  qed
qed

text \<open>The main fact: containment, at every level and for every host file system.\<close>

lemma canonicalize_contained:
  assumes E: "env_ok E" and p: "text_ok p" and g: "path_ok g" and t: "tracee_ok t"
    and r: "canonicalize E p deref g 0 t w = (r, t', w')"
  shows "tracee_ok t' \<and>
    (\<forall>q. r = Inr q \<longrightarrow> (\<exists>cs f. valid_comps cs \<and> length (path_of cs) < PATH_MAX \<and> q = with_finality cs f))"
proof -
  let ?d = "h_max_symlinks E"
  let ?rec = "\<lambda>n path guest tracee w. canonicalize_at E (?d - n) path True guest tracee w"
  let ?g = "if char_at p 0 = CHR ''/'' then ''/'' else g"
  have rec: "canon_ok ?rec"
    by (rule canon_okI) (rule canonicalize_at_ok[OF E diff_le_self])
  obtain r1 t1 w1 where loop: "canon_loop E ?rec 0 deref p ?g 0 t w = (r1, t1, w1)"
    by (metis prod.exhaust)
  have ok: "tracee_ok t1 \<and> (\<forall>q f. r1 = Inr (q, f) \<longrightarrow> path_ok q)"
    using canon_loop_ok[OF E rec start_ok[OF p g] t loop] .
  have "\<exists>cs f. valid_comps cs \<and> length (path_of cs) < PATH_MAX \<and> q = with_finality cs f"
    if "r1 = Inr (s, f)" "restore_finality 0 s f = Inr q" for s f q
  proof -
    from ok that(1) obtain cs where "valid_comps cs" "s = path_of cs" "length (path_of cs) < PATH_MAX"
      by (auto simp: path_ok_def)
    with restore_finality_eq that(2) show ?thesis by blast
  qed
  then show ?thesis
    using r loop ok g t
    by (auto simp: canonicalize_def Let_def split: sum.splits if_split_asm)
qed

end
