(* ===== verification/Canon_Lexical.thy ===== *)
theory Canon_Lexical
  imports Canon_Props
begin

section \<open>Canonicalization without links\<close>

text \<open>
  The functional specification of \<open>canonicalize\<close>: where every component exists and is a
  directory, and no extension interferes, it is the lexical normalization of the list of
  components, and it fails exactly when an intermediate path is too long.
\<close>

subsection \<open>The specification\<close>

fun normalize_comps :: "string list \<Rightarrow> string list \<Rightarrow> string list option" where
  "normalize_comps cs [] = Some cs"
| "normalize_comps cs (c # us) =
     (if c = ''.'' then normalize_comps cs us
      else if c = ''..'' then normalize_comps (butlast cs) us
      else if PATH_MAX \<le> length (path_of (cs @ [c])) + 1 then None
      else normalize_comps (cs @ [c]) us)"

definition user_comp :: "string \<Rightarrow> bool" where
  "user_comp c \<longleftrightarrow> c \<noteq> [] \<and> CHR ''/'' \<notin> set c \<and> NUL \<notin> set c \<and> length c < NAME_MAX"

definition typed_path :: "string list \<Rightarrow> bool \<Rightarrow> string" where
  "typed_path us slash = slashed us @ (if slash then ''/'' else [])"

definition typed_finality :: "string list \<Rightarrow> bool \<Rightarrow> Finality" where
  "typed_finality us slash =
     end_finality (if slash then FINAL_SLASH else FINAL_NORMAL) (last us)"

definition all_directories :: "'w Env \<Rightarrow> bool" where
  "all_directories E \<longleftrightarrow>
     (\<forall>w p. \<exists>m. h_lstat E w p = Inr m \<and> S_ISDIR m) \<and> (\<forall>w p. h_skip_f2fs E w p = (False, w))
     \<and> (\<forall>w p b. x_host_path E w p b = (Inr 0, p, w))"

lemma user_comp_valid: "user_comp c \<Longrightarrow> c \<noteq> ''.'' \<Longrightarrow> c \<noteq> ''..'' \<Longrightarrow> valid_comp c"
  by (simp add: user_comp_def valid_comp_def)

subsection \<open>The steps of the walk\<close>

lemma takeWhile_comp:
  "CHR ''/'' \<notin> set c \<Longrightarrow> r = [] \<or> hd r = CHR ''/'' \<Longrightarrow>
     takeWhile (\<lambda>x. x \<noteq> CHR ''/'') (c @ r) = c \<and> dropWhile (\<lambda>x. x \<noteq> CHR ''/'') (c @ r) = r"
  by (cases r; induction c) auto

lemma next_component_user:
  assumes c: "user_comp c" and us: "\<forall>u \<in> set us. user_comp u"
    and k: "cursor = c @ typed_path us slash \<or> cursor = typed_path (c # us) slash"
  shows "next_component cursor =
    Inr (if us = [] then (if slash then FINAL_SLASH else FINAL_NORMAL) else NOT_FINAL, c,
         if us = [] then [] else hd us @ typed_path (tl us) slash)"
proof -
  let ?r = "typed_path us slash"
  have r: "?r = [] \<or> hd ?r = CHR ''/''"
    by (cases us) (simp_all add: typed_path_def)
  have c': "c \<noteq> []" "CHR ''/'' \<notin> set c" "length c < NAME_MAX" using c by (auto simp: user_comp_def)
  have start: "dropWhile (\<lambda>x. x = CHR ''/'') cursor = c @ ?r"
    using k c' by (cases c) (auto simp: typed_path_def)
  note tw = takeWhile_comp[OF c'(2) r]
  show ?thesis
  proof (cases us)
    case Nil
    then show ?thesis
      using c' unfolding next_component_def start Let_def tw[THEN conjunct1] tw[THEN conjunct2]
      by (simp add: typed_path_def char_at_def)
  next
    case (Cons u us')
    then have "u \<noteq> []" "hd u \<noteq> CHR ''/''" using us by (auto simp: user_comp_def) (metis hd_in_set)
    then have rest: "dropWhile (\<lambda>x. x = CHR ''/'') ?r = u @ typed_path us' slash"
      using Cons by (cases u) (simp_all add: typed_path_def)
    then show ?thesis
      using c' Cons \<open>u \<noteq> []\<close>
      unfolding next_component_def start Let_def tw[THEN conjunct1] tw[THEN conjunct2] rest
      by simp
  qed
qed

lemma S_ISDIR_not_LNK: "S_ISDIR m \<Longrightarrow> \<not> S_ISLNK m"
  by (simp add: S_ISDIR_def S_ISLNK_def S_IFDIR_def S_IFLNK_def)

lemma substitute_binding_stat_directory:
  assumes E: "all_directories E" and t: "tracee_ok t" and g: "path_ok g"
  shows "\<exists>host. substitute_binding_stat E t w f l g = (Inr (False, host), t, w)"
proof -
  obtain n q where q: "substitute_binding (t_fs t) GUEST g = Inr (n, q)"
    using substitute_binding_GUEST_canonical[of "t_fs t" g] t g
    by (auto simp: tracee_ok_def path_ok_def)
  obtain m where m: "h_lstat E w q = Inr m" "S_ISDIR m"
    using E unfolding all_directories_def by blast
  have "h_skip_f2fs E w q = (False, w)" "x_host_path E w q b = (Inr 0, q, w)" for b
    using E unfolding all_directories_def by blast+
  then show ?thesis
    using m S_ISDIR_not_LNK[OF m(2)] by (simp add: substitute_binding_stat_def q Let_def)
qed

lemma path_ok_snoc:
  assumes "path_ok (path_of cs)" and "valid_comps cs" and "valid_comp c"
    and "\<not> PATH_MAX \<le> length (path_of (cs @ [c])) + 1"
  shows "path_ok (path_of (cs @ [c]))" and "valid_comps (cs @ [c])"
  using assms canonicalI[of "cs @ [c]"] unfolding path_ok_def by (simp_all del: path_of_nonempty)

lemma path_ok_butlast:
  assumes "path_ok (path_of cs)" and "valid_comps cs"
  shows "path_ok (path_of (butlast cs))" and "valid_comps (butlast cs)"
proof -
  show v: "valid_comps (butlast cs)"
    using assms(2) by (auto simp: list_all_iff dest: in_set_butlastD)
  have "length (path_of (butlast cs)) \<le> length (path_of cs)"
    by (cases cs rule: rev_cases) (auto simp: path_of_def Suc_le_eq)
  then show "path_ok (path_of (butlast cs))"
    using assms v by (auto simp: path_ok_def)
qed

lemma canon_turn_directory:
  assumes E: "all_directories E" and t: "tracee_ok t" and cs: "valid_comps cs" "path_ok (path_of cs)"
    and c: "user_comp c"
  shows "canon_turn E rec l d f c (path_of cs) n t w =
    (case normalize_comps cs [c] of None \<Rightarrow> Err ENAMETOOLONG | Some cs' \<Rightarrow> Inr (Next (path_of cs') n), t, w)"
proof -
  consider "c = ''.''" | "c = ''..''" | (walk) "c \<noteq> ''.''" "c \<noteq> ''..''" by blast
  then show ?thesis
  proof cases
    case walk
    note v = user_comp_valid[OF c walk]
    show ?thesis
    proof (cases "PATH_MAX \<le> length (path_of (cs @ [c])) + 1")
      case True
      then show ?thesis
        using walk by (simp add: canon_turn_def join2_component[OF cs(1) v] del: path_of_nonempty)
    next
      case False
      obtain host where "substitute_binding_stat E t w f l (path_of (cs @ [c])) =
          (Inr (False, host), t, w)"
        using substitute_binding_stat_directory[OF E t path_ok_snoc(1)[OF cs(2,1) v False]] by blast
      with False show ?thesis
        using walk by (simp add: canon_turn_def join2_component[OF cs(1) v] del: path_of_nonempty)
    qed
  qed (use cs in \<open>simp_all add: canon_turn_def pop_component_comps\<close>)
qed

lemma normalize_comps_ok:
  assumes "normalize_comps cs us = Some cs'" and "valid_comps cs" and "path_ok (path_of cs)"
    and "\<forall>u \<in> set us. user_comp u"
  shows "valid_comps cs' \<and> path_ok (path_of cs')"
  using assms
proof (induction us arbitrary: cs)
  case (Cons u us)
  consider "u = ''.''" | "u = ''..''" | (walk) "u \<noteq> ''.''" "u \<noteq> ''..''" by blast
  then show ?case
  proof cases
    case 1
    then show ?thesis using Cons by simp
  next
    case 2
    then show ?thesis using Cons path_ok_butlast[of cs] by simp
  next
    case walk
    then have "valid_comp u" "\<not> PATH_MAX \<le> length (path_of (cs @ [u])) + 1"
      "normalize_comps (cs @ [u]) us = Some cs'"
      using Cons.prems user_comp_valid[of u] by (auto split: if_split_asm)
    then show ?thesis
      using Cons.IH[of "cs @ [u]"] Cons.prems path_ok_snoc[of cs u] by simp
  qed
qed simp

lemma normalize_comps_Cons:
  "normalize_comps cs (c # us) = (case normalize_comps cs [c] of None \<Rightarrow> None | Some cs' \<Rightarrow> normalize_comps cs' us)"
  by simp

lemma canon_loop_directory:
  assumes E: "all_directories E" and t: "tracee_ok t"
  shows "user_comp c \<Longrightarrow> \<forall>u \<in> set us. user_comp u \<Longrightarrow> valid_comps cs \<Longrightarrow> path_ok (path_of cs) \<Longrightarrow>
    cursor = c @ typed_path us slash \<or> cursor = typed_path (c # us) slash \<Longrightarrow>
    canon_loop E rec l d cursor (path_of cs) n t w =
      (case normalize_comps cs (c # us) of
         None \<Rightarrow> Err ENAMETOOLONG
       | Some cs' \<Rightarrow> Inr (path_of cs', Some (typed_finality (c # us) slash)), t, w)"
proof (induction us arbitrary: c cs cursor)
  case Nil
  note nc = next_component_user[OF Nil.prems(1,2,5)]
  have "IS_FINAL FINAL_SLASH" "IS_FINAL FINAL_NORMAL" by (simp_all add: IS_FINAL_def)
  then show ?case
    using canon_turn_directory[OF E t Nil.prems(3,4,1)]
    by (subst canon_loop.simps)
      (simp add: nc typed_finality_def del: normalize_comps.simps split: option.split)
next
  case (Cons u us)
  note nc = next_component_user[OF Cons.prems(1,2,5)]
  note turn = canon_turn_directory[OF E t Cons.prems(3,4,1)]
  have nf: "\<not> IS_FINAL NOT_FINAL" by (simp add: IS_FINAL_def)
  show ?case
  proof (cases "normalize_comps cs [c]")
    case None
    then show ?thesis
      unfolding normalize_comps_Cons[of cs c "u # us"] by (subst canon_loop.simps) (simp add: nc turn del: normalize_comps.simps)
  next
    case (Some cs')
    then have ok: "valid_comps cs' \<and> path_ok (path_of cs')"
      using normalize_comps_ok[OF Some] Cons.prems by simp
    have "canon_loop E rec l d (u @ typed_path us slash) (path_of cs') n t w =
      (case normalize_comps cs' (u # us) of
         None \<Rightarrow> Err ENAMETOOLONG
       | Some cs' \<Rightarrow> Inr (path_of cs', Some (typed_finality (u # us) slash)), t, w)"
      using Cons.IH[of u cs' "u @ typed_path us slash"] Cons.prems ok by simp
    moreover have "typed_finality (c # u # us) slash = typed_finality (u # us) slash"
      by (simp add: typed_finality_def)
    ultimately show ?thesis
      unfolding normalize_comps_Cons[of cs c "u # us"]
      by (subst canon_loop.simps) (simp add: nc turn Some nf del: normalize_comps.simps split: option.split)
  qed
qed

text \<open>The specification of \<open>canonicalize\<close> for an absolute path without links.\<close>

lemma canonicalize_directories:
  assumes E: "all_directories E" and t: "tracee_ok t" and us: "us \<noteq> []" "\<forall>u \<in> set us. user_comp u"
    and g: "length g < PATH_MAX"
  shows "canonicalize E (typed_path us slash) deref g 0 t w =
    (case normalize_comps [] us of
       None \<Rightarrow> Err ENAMETOOLONG
     | Some cs \<Rightarrow> restore_finality 0 (path_of cs) (Some (typed_finality us slash)), t, w)"
proof -
  obtain c us' where c: "us = c # us'" using us(1) by (cases us) auto
  have "char_at (typed_path us slash) 0 = CHR ''/''" by (simp add: c typed_path_def)
  moreover have "path_ok (path_of [])" by (auto simp: path_ok_def PATH_MAX_def)
  ultimately show ?thesis
    using canon_loop_directory[OF E t, of c us' "[]" "typed_path us slash" slash] us(2) g
    by (simp add: canonicalize_def c del: normalize_comps.simps path_of_nonempty split: option.split)
qed

end
