(* ===== verification/Translate.thy ===== *)
theory Translate
  imports Canon_Lexical
begin

section \<open>Translation between guest and host paths\<close>

text \<open>
  The rest of path/path.c: the translation of a user's path, relative to the root, to a
  descriptor or to the current directory, into a host path; \<open>realpath2\<close>, \<open>getcwd2\<close> and the walk
  over the open descriptors.  The shared lemmas follow: how an ending survives the
  substitution, and what the opposite translation gives.
\<close>

subsection \<open>The operations\<close>

definition AT_FDCWD :: int where "AT_FDCWD = -100"

text \<open>\<open>readlink_proc_pid_fd\<close>; its buffer for the name of the link has 32 bytes.\<close>

definition readlink_proc_pid_fd :: "'w Env \<Rightarrow> 'w \<Rightarrow> int \<Rightarrow> int \<Rightarrow> string res" where
  "readlink_proc_pid_fd E w pid fd =
     (let link = ''/proc/'' @ string_of_int pid @ ''/fd/'' @ string_of_int fd in
      if length link \<ge> 32 then Err EBADF
      else
        (case h_readlink E w link of
           Inl _ \<Rightarrow> Err EBADF
         | Inr path \<Rightarrow> (if length path \<ge> PATH_MAX then Err ENAMETOOLONG else Inr (cstr path))))"

definition getcwd2 :: "'w Env \<Rightarrow> Tracee option \<Rightarrow> 'w \<Rightarrow> string res" where
  "getcwd2 E tracee w =
     (case tracee of
        None \<Rightarrow> h_getcwd E w
      | Some t \<Rightarrow>
          (if length (fs_cwd (t_fs t)) \<ge> PATH_MAX then Err ENAMETOOLONG else Inr (fs_cwd (t_fs t))))"

text \<open>The base that a relative path is joined to.\<close>

definition translation_base :: "'w Env \<Rightarrow> Tracee \<Rightarrow> 'w \<Rightarrow> int \<Rightarrow> string \<Rightarrow> string res" where
  "translation_base E tracee w dir_fd user_path =
     (if char_at user_path 0 = CHR ''/'' then Inr ''/''
      else if dir_fd \<noteq> AT_FDCWD then
        (case readlink_proc_pid_fd E w (t_pid tracee) dir_fd of
           Inl e \<Rightarrow> Inl e
         | Inr result \<Rightarrow>
             (if char_at result 0 \<noteq> CHR ''/'' then Err ENOTDIR
              else
                (case detranslate_path (e_tracees E) tracee result None of
                   Inl e \<Rightarrow> Inl e
                 | Inr (_, result) \<Rightarrow> Inr result)))
      else getcwd2 E (Some tracee) w)"

definition notify_translated ::
  "'w Env \<Rightarrow> string \<Rightarrow> Tracee \<Rightarrow> 'w \<Rightarrow> string res \<times> Tracee \<times> 'w" where
  "notify_translated E result tracee w =
     (case x_translated_path E w result of
        (Inl e, _, w) \<Rightarrow> (Inl e, tracee, w)
      | (Inr _, result, w) \<Rightarrow> (Inr result, tracee, w))"

definition translate_path ::
  "'w Env \<Rightarrow> Tracee \<Rightarrow> 'w \<Rightarrow> int \<Rightarrow> string \<Rightarrow> bool \<Rightarrow> string res \<times> Tracee \<times> 'w" where
  "translate_path E tracee w dir_fd user_path deref_final =
     (case translation_base E tracee w dir_fd user_path of
        Inl e \<Rightarrow> (Inl e, tracee, w)
      | Inr result \<Rightarrow>
          (case x_guest_path E w result user_path of
             (Inl e, _, w) \<Rightarrow> (Inl e, tracee, w)
           | (Inr status, result, w) \<Rightarrow>
               (if 0 < status then notify_translated E result tracee w
                else
                  (case join2 result user_path of
                     Inl e \<Rightarrow> (Inl e, tracee, w)
                   | Inr guest_path \<Rightarrow>
                       (case canonicalize E guest_path deref_final ''/'' 0 tracee w of
                          (Inl e, tracee, w) \<Rightarrow> (Inl e, tracee, w)
                        | (Inr result, tracee, w) \<Rightarrow>
                            (case substitute_binding (t_fs tracee) GUEST result of
                               Inl e \<Rightarrow> (Inl e, tracee, w)
                             | Inr (_, result) \<Rightarrow> notify_translated E result tracee w))))))"

text \<open>\<open>realpath2\<close>: without a tracee it is \<open>realpath(3)\<close>.\<close>

definition realpath2 ::
  "'w Env \<Rightarrow> Tracee option \<Rightarrow> 'w \<Rightarrow> string \<Rightarrow> bool \<Rightarrow> string res \<times> Tracee option \<times> 'w" where
  "realpath2 E tracee w path deref_final =
     (case tracee of
        None \<Rightarrow> (h_realpath E w path, None, w)
      | Some t \<Rightarrow>
          (case translate_path E t w AT_FDCWD path deref_final of
             (r, t, w) \<Rightarrow> (r, Some t, w)))"

text \<open>
  \<open>foreach_fd\<close>: the calls of the callback on the open descriptors that refer to a path, until the
  first failure.
\<close>

fun foreach_fd_loop ::
  "'w Env \<Rightarrow> 'w \<Rightarrow> string \<Rightarrow> (int \<Rightarrow> string \<Rightarrow> 's \<Rightarrow> errno option \<times> 's) \<Rightarrow> string list \<Rightarrow> 's
     \<Rightarrow> errno option \<times> 's" where
  "foreach_fd_loop E w proc_fd callback [] s = (None, s)"
| "foreach_fd_loop E w proc_fd callback (name # names) s =
     (if length proc_fd + length name + 1 \<ge> PATH_MAX then foreach_fd_loop E w proc_fd callback names s
      else
        (case h_readlink E w (proc_fd @ ''/'' @ name) of
           Inl _ \<Rightarrow> foreach_fd_loop E w proc_fd callback names s
         | Inr path \<Rightarrow>
             (if length path \<ge> PATH_MAX \<or> char_at (cstr path) 0 \<noteq> CHR ''/''
              then foreach_fd_loop E w proc_fd callback names s
              else
                (case callback (atoi name) (cstr path) s of
                   (Some e, s) \<Rightarrow> (Some e, s)
                 | (None, s) \<Rightarrow> foreach_fd_loop E w proc_fd callback names s))))"

definition foreach_fd ::
  "'w Env \<Rightarrow> 'w \<Rightarrow> Tracee \<Rightarrow> (int \<Rightarrow> string \<Rightarrow> 's \<Rightarrow> errno option \<times> 's) \<Rightarrow> 's \<Rightarrow> errno option \<times> 's"
  where
  "foreach_fd E w tracee callback s =
     (let proc_fd = ''/proc/'' @ string_of_int (t_pid tracee) @ ''/fd'' in
      if length proc_fd \<ge> 32 then (None, s)
      else
        (case h_listdir E w proc_fd of
           None \<Rightarrow> (None, s)
         | Some names \<Rightarrow> foreach_fd_loop E w proc_fd callback names s))"

subsection \<open>An ending does not change the binding\<close>

lemma slashed_prefix_names:
  assumes "valid_comps as" and "\<forall>b \<in> set bs. CHR ''/'' \<notin> set b"
    and "slashed bs = slashed as @ r" and "r = [] \<or> hd r = CHR ''/''"
  shows "\<exists>cs. bs = as @ cs \<and> r = slashed cs"
  using assms
proof (induction as arbitrary: bs)
  case (Cons a as)
  from Cons.prems(3) obtain b bs' where bs: "bs = b # bs'"
    by (cases bs) auto
  have "slashed as @ r = [] \<or> hd (slashed as @ r) = CHR ''/''"
    using hd_slashed[of as] Cons.prems(4) by (cases "slashed as") auto
  moreover have "CHR ''/'' \<notin> set a" using Cons.prems(1) by (auto simp: valid_comp_def)
  ultimately have "b = a \<and> slashed bs' = slashed as @ r"
    using comp_append_cancel[of b a "slashed bs'" "slashed as @ r"] hd_slashed[of bs'] Cons.prems bs
    by auto
  then show ?case
    using Cons.IH[of bs'] Cons.prems bs by auto
qed auto

text \<open>When a canonical path covers any path: it is a prefix that ends at a separator.\<close>

lemma covers_any:
  assumes gs: "valid_comps gs" and q: "q \<noteq> []" "NUL \<notin> set q"
  shows "covers compare_paths (path_of gs) q \<longleftrightarrow>
    (\<exists>r. q = slashed gs @ r \<and> (r = [] \<or> hd r = CHR ''/''))"
proof -
  let ?g = "slashed gs" and ?p = "path_of gs"
  define m where "m = (if char_at q (length q - 1) = CHR ''/'' then length q - 1 else length q)"
  have m: "m \<le> length q" "m = length q \<or> (m + 1 = length q \<and> q ! m = CHR ''/'')"
    using q(1) by (auto simp: m_def char_at_def)
  have sep: "char_at q n = CHR ''/'' \<or> char_at q n = NUL \<longleftrightarrow> n \<ge> length q \<or> q ! n = CHR ''/''" for n
    using q(2) by (auto simp: char_at_def) (metis nth_mem)
  have self: "char_at ?p (length ?g) = CHR ''/'' \<or> char_at ?p (length ?g) = NUL"
    by (cases "gs = []") (auto simp: char_at_def)
  have "covers compare_paths ?p q \<longleftrightarrow>
      length ?g \<le> m \<and> (char_at q (length ?g) = CHR ''/'' \<or> char_at q (length ?g) = NUL)
      \<and> take (length ?g) q = ?g"
  proof -
    consider (lt) "length ?g < m" | (eq) "length ?g = m" | (gt) "m < length ?g" by linarith
    then show ?thesis
    proof cases
      case lt
      then show ?thesis
        unfolding covers_def compare_paths_def compare_paths2_def Let_def trimmed_length[OF gs] m_def[symmetric]
        using q(1) by (auto simp: take_path_of split: if_split_asm)
    next
      case eq
      then have "char_at q m = CHR ''/'' \<or> char_at q m = NUL"
        using m sep by auto
      then show ?thesis
        unfolding covers_def compare_paths_def compare_paths2_def Let_def trimmed_length[OF gs] m_def[symmetric]
        using q(1) eq self by (auto simp: take_path_of split: if_split_asm)
    next
      case gt
      then show ?thesis
        unfolding covers_def compare_paths_def compare_paths2_def Let_def trimmed_length[OF gs] m_def[symmetric]
        using q(1) by (auto split: if_split_asm)
    qed
  qed
  also have "\<dots> \<longleftrightarrow> (\<exists>r. q = ?g @ r \<and> (r = [] \<or> hd r = CHR ''/''))"
  proof
    assume h: "length ?g \<le> m \<and> (char_at q (length ?g) = CHR ''/'' \<or> char_at q (length ?g) = NUL)
      \<and> take (length ?g) q = ?g"
    let ?r = "drop (length ?g) q"
    have "q = ?g @ ?r" using h by (metis append_take_drop_id)
    moreover have "?r = [] \<or> hd ?r = CHR ''/''"
      using h sep[of "length ?g"] by (cases "length ?g < length q") (auto simp: hd_drop_conv_nth)
    ultimately show "\<exists>r. q = ?g @ r \<and> (r = [] \<or> hd r = CHR ''/'')" by blast
  next
    assume "\<exists>r. q = ?g @ r \<and> (r = [] \<or> hd r = CHR ''/'')"
    then obtain r where r: "q = ?g @ r" "r = [] \<or> hd r = CHR ''/''" by blast
    have "?g ! m \<noteq> CHR ''/''" if len: "Suc m = length ?g"
    proof -
      from len have "gs \<noteq> []" "m = length ?g - 1" by auto
      then show ?thesis using slashed_last_nth[OF gs] by simp
    qed
    then have "length ?g \<le> m" using m r by (cases r) auto
    moreover have "length ?g \<ge> length q \<or> q ! length ?g = CHR ''/''"
      using r by (cases r) (auto simp: nth_append)
    ultimately show "length ?g \<le> m \<and> (char_at q (length ?g) = CHR ''/'' \<or> char_at q (length ?g) = NUL)
      \<and> take (length ?g) q = ?g"
      using r(1) sep by auto
  qed
  finally show ?thesis .
qed

definition ending :: "string list \<Rightarrow> Finality \<Rightarrow> string" where
  "ending cs f = (case f of FINAL_SLASH \<Rightarrow> (if cs = [] then [] else ''/'')
     | FINAL_DOT \<Rightarrow> (if cs = [] then ''.'' else ''/.'') | _ \<Rightarrow> [])"

lemma with_finality_ending: "with_finality cs f = path_of cs @ ending cs f"
  by (cases f) (auto simp: with_finality_def ending_def)

lemma with_finality_neq_Nil [simp]: "with_finality cs f \<noteq> []"
  by (simp add: with_finality_ending)

lemma with_finality_no_NUL: "valid_comps cs \<Longrightarrow> NUL \<notin> set (with_finality cs f)"
  using path_of_no_NUL[of cs] by (cases f) (auto simp: with_finality_ending ending_def NUL_def)

lemma covers_with_finality:
  assumes gs: "valid_comps gs" and cs: "valid_comps cs"
  shows "covers compare_paths (path_of gs) (with_finality cs f) \<longleftrightarrow> prefix gs cs"
proof -
  have names: "\<forall>b \<in> set (cs @ [''.'']). CHR ''/'' \<notin> set b"
    using cs by (auto simp: list_all_iff valid_comp_def)
  have "prefix gs cs" if q: "with_finality cs f = slashed gs @ r" "r = [] \<or> hd r = CHR ''/''" for r
  proof (cases "f = FINAL_DOT")
    case True
    then have "slashed (cs @ [''.'']) = slashed gs @ r"
      using q(1) by (simp add: with_finality_def)
    then obtain es where es: "cs @ [''.''] = gs @ es"
      using slashed_prefix_names[OF gs names _ q(2)] by blast
    have "es \<noteq> []"
    proof
      assume "es = []"
      then have "''.'' \<in> set gs" using es by (metis append_Nil2 in_set_conv_decomp)
      then show False using gs by (auto simp: list_all_iff valid_comp_def)
    qed
    then show ?thesis using es by (cases es rule: rev_cases) auto
  next
    case False
    show ?thesis
    proof (cases "cs = []")
      case True
      have "slashed gs = [] \<or> slashed gs = ''/''"
        using q(1) True \<open>f \<noteq> FINAL_DOT\<close>
        by (cases f) (auto simp: with_finality_def Cons_eq_append_conv)
      then show ?thesis using slashed_neq_slash[OF gs] True by auto
    next
      case ne: False
      then have w: "with_finality cs f = slashed cs @ (if f = FINAL_SLASH then ''/'' else [])"
        using False by (cases f) (auto simp: with_finality_def)
      have "prefix (slashed gs) (with_finality cs f)" using q(1) by simp
      moreover have "slashed gs \<noteq> slashed cs @ ''/''"
        using slashed_last[OF gs] by (cases "gs = []") auto
      ultimately have "prefix (slashed gs) (slashed cs)"
        unfolding w by (auto simp: prefix_snoc split: if_split_asm)
      then obtain s where s: "slashed cs = slashed gs @ s" by (auto simp: prefix_def)
      then have "s = [] \<or> hd s = CHR ''/''"
        using q w by (cases s) auto
      then show ?thesis
        using slashed_prefix_sep[OF gs cs s] by (auto simp: prefix_def)
    qed
  qed
  moreover have "\<exists>r. with_finality cs f = slashed gs @ r \<and> (r = [] \<or> hd r = CHR ''/'')"
    if "prefix gs cs"
  proof -
    from that obtain es where es: "cs = gs @ es" by (auto simp: prefix_def)
    show ?thesis
      unfolding es by (cases f; cases es; cases gs) (auto simp: with_finality_def path_of_def)
  qed
  ultimately show ?thesis
    using covers_any[OF gs with_finality_neq_Nil with_finality_no_NUL[OF cs]] by blast
qed

lemma get_binding_with_finality:
  assumes fs: "wf_fs fs" and cs: "valid_comps cs"
  shows "get_binding fs GUEST (with_finality cs f) = get_binding fs GUEST (path_of cs)"
proof -
  have wf: "\<forall>b \<in> set (foreach fs GUEST). wf_binding b"
    using bindings_of_wf[OF fs] by (simp add: bindings_of_def)
  have same: "covers compare_paths (guest_key b) (with_finality cs f)
      \<longleftrightarrow> covers compare_paths (guest_key b) (path_of cs)" if "b \<in> set (foreach fs GUEST)" for b
    using wf_binding_paths(1)[OF wf[rule_format, OF that]] covers_with_finality[OF _ cs]
      covers_paths[OF _ cs] by auto
  show ?thesis
    unfolding get_binding_def get_binding_loop_GUEST[OF wf]
    by (rule find_cong) (use same in auto)
qed

lemma find_spec_slash:
  "valid_comps ns \<Longrightarrow> ns \<noteq> [] \<Longrightarrow> 1 < length (path_of ns)"
  using length_path_of_eq_1[of ns] length_path_of_ge_1[of ns] by fastforce

text \<open>The substitution replaces the leading components and keeps the ending.\<close>

lemma substitute_path_prefix_ending:
  assumes os: "valid_comps os" and ns: "valid_comps ns" and rest: "valid_comps rest"
    and distinct: "os \<noteq> ns"
    and old: "length (with_finality (os @ rest) f) < PATH_MAX" and new: "length (path_of ns) < PATH_MAX"
  shows "substitute_path_prefix (with_finality (os @ rest) f) (length (path_of os))
           (path_of ns) (length (path_of ns)) =
         (if ns = [] \<or> length (path_of ns) + length (with_finality (os @ rest) f) < PATH_MAX + length (slashed os)
          then Inr (if os @ rest = [] \<and> f = FINAL_SLASH then path_of ns else with_finality (ns @ rest) f)
          else Err ENAMETOOLONG)"
  (is "?sub = ?rhs")
proof -
  let ?p = "with_finality (os @ rest) f"
  consider (root_new) "ns = []" | (root_old) "ns \<noteq> []" "os = []" | (generic) "ns \<noteq> []" "os \<noteq> []"
    by blast
  then show ?thesis
  proof cases
    case root_new
    with distinct have "os \<noteq> []" by simp
    with root_new show ?thesis
      by (cases f; cases "rest = []") (auto simp: substitute_path_prefix_def with_finality_def)
  next
    case root_old
    have "1 < length ?p \<longleftrightarrow> \<not> (rest = [] \<and> f \<noteq> FINAL_DOT)"
      using find_spec_slash[OF rest] root_old
      by (cases f; cases "rest = []") (auto simp: with_finality_def)
    moreover have "with_finality (ns @ rest) f = path_of ns @ ?p" if "\<not> (rest = [] \<and> f \<noteq> FINAL_DOT)"
      using that root_old by (cases f; cases "rest = []") (auto simp: with_finality_def)
    moreover have "with_finality ns f = path_of ns" if "f \<noteq> FINAL_SLASH" "f \<noteq> FINAL_DOT"
      using that by (cases f) (simp_all add: with_finality_def)
    ultimately show ?thesis
      using length_path_of_eq_1[OF ns] root_old
      by (cases "f = FINAL_SLASH") (auto simp: substitute_path_prefix_def Let_def)
  next
    case generic
    have p: "?p = slashed os @ slashed rest @ ending (os @ rest) f"
      using generic by (cases f) (auto simp: with_finality_def ending_def)
    have q: "with_finality (ns @ rest) f = slashed ns @ slashed rest @ ending (os @ rest) f"
      using generic by (cases f) (auto simp: with_finality_def ending_def)
    let ?n = "length (slashed ns) + length (slashed rest @ ending (os @ rest) f)"
    have len: "int (length ?p) - int (length (path_of os)) + int (length (path_of ns)) = int ?n"
      using generic by (simp add: p)
    have "?n < 2 ^ 64" using old new generic by (simp add: p PATH_MAX_def)
    then have wrap: "int ?n mod 2 ^ 64 = int ?n" by simp
    have ok: "\<not> length ?p < length (path_of os)" "drop (length (path_of os)) ?p = slashed rest @ ending (os @ rest) f"
      using generic by (simp_all add: p)
    show ?thesis
      unfolding substitute_path_prefix_def Let_def len wrap
      using generic ok length_path_of_eq_1[OF ns] length_path_of_eq_1[OF os]
      by (auto simp: q p)
  qed
qed

subsection \<open>Where a translated path lies\<close>

text \<open>
  \<open>placed fs q\<close>: the path is below the host side of the deepest binding of its guest path, or
  the substitution was too long and the guest path was left as it is.
\<close>

definition placed :: "FileSystemNameSpace \<Rightarrow> string \<Rightarrow> bool" where
  "placed fs q \<longleftrightarrow>
     (\<exists>b gc hc rest f. b \<in> bindings_of fs \<and> guest_key b = path_of gc \<and> host_key b = path_of hc
        \<and> valid_comps (hc @ rest) \<and> get_binding fs GUEST (path_of (gc @ rest)) = Some b
        \<and> (q = with_finality (hc @ rest) f
           \<or> (q = with_finality (gc @ rest) f \<and> PATH_MAX \<le> length q + length (host_key b))))"

lemma substitute_binding_placed:
  assumes fs: "wf_fs fs" and cs: "valid_comps cs" "length (with_finality cs f) < PATH_MAX"
    and r: "substitute_binding fs GUEST (with_finality cs f) = Inr (n, q)"
  shows "placed fs q"
proof -
  have "length (path_of cs) < PATH_MAX" using cs(2) by (simp add: with_finality_ending)
  then obtain b gc hc rest where b: "b \<in> bindings_of fs" "get_binding fs GUEST (path_of cs) = Some b"
    "guest_key b = path_of gc" "host_key b = path_of hc" "valid_comps gc" "valid_comps hc" "cs = gc @ rest"
    using substitute_binding_GUEST_comps[OF fs cs(1)] by blast
  note wb = bindings_of_wf[OF fs b(1)]
  have get: "get_binding fs GUEST (with_finality cs f) = Some b"
    using get_binding_with_finality[OF fs cs(1)] b(2) by simp
  have need: "need_substitution b = (gc \<noteq> hc)"
    using wb path_of_inject[OF b(5,6)] unfolding wf_binding_def b(3,4) by metis
  have rest: "valid_comps rest" using cs(1) b(7) by simp
  have "\<exists>f'. q = with_finality (hc @ rest) f'
      \<or> (q = with_finality (gc @ rest) f' \<and> PATH_MAX \<le> length q + length (host_key b))"
  proof (cases "gc = hc")
    case True
    then show ?thesis using r get need b(7) by (auto simp: substitute_binding_def)
  next
    case False
    have lens: "length (path_of hc) < PATH_MAX" "path_len (b_guest b) = length (path_of gc)"
      "path_len (b_host b) = length (path_of hc)" "path_str (b_host b) = path_of hc"
      using wf_binding_lengths[OF wb] wf_binding_paths(4,5)[OF wb] b(3,4)
      by (simp_all add: host_key_def)
    note sub = substitute_path_prefix_ending[OF b(5,6) rest False cs(2)[unfolded b(7)] lens(1)]
    have q: "q = (if hc = [] \<or> length (path_of hc) + length (with_finality (gc @ rest) f)
                   < PATH_MAX + length (slashed gc)
                  then (if gc @ rest = [] \<and> f = FINAL_SLASH then path_of hc else with_finality (hc @ rest) f)
                  else with_finality (gc @ rest) f)"
      using r get need False sub lens
      by (auto simp: substitute_binding_def Let_def b(7) split: if_split_asm)
    have "path_of hc = with_finality (hc @ rest) FINAL_NORMAL" if "gc @ rest = []"
      using that by (simp add: with_finality_def)
    then show ?thesis
      unfolding q b(4) by (auto intro: exI[of _ f] exI[of _ FINAL_NORMAL])
  qed
  then obtain f' where f': "q = with_finality (hc @ rest) f'
      \<or> (q = with_finality (gc @ rest) f' \<and> PATH_MAX \<le> length q + length (host_key b))" by blast
  have "valid_comps (hc @ rest)" using rest b(6) by simp
  then show ?thesis
    unfolding placed_def using b f' by (intro exI[of _ b] exI[of _ gc] exI[of _ hc] exI[of _ rest] exI[of _ f']) auto
qed

text \<open>No extension is there: the hooks leave the path alone.\<close>

definition no_extension :: "'w Env \<Rightarrow> bool" where
  "no_extension E \<longleftrightarrow> (\<forall>w p u. x_guest_path E w p u = (Inr 0, p, w))
     \<and> (\<forall>w p. x_translated_path E w p = (Inr 0, p, w))"

lemma translation_base_text:
  assumes E: "env_ok E" and t: "tracee_ok t" and r: "translation_base E t w fd user = Inr base"
  shows "text_ok base"
proof -
  have fd: "text_ok q" if "readlink_proc_pid_fd E w p fd = Inr s" "char_at s 0 = CHR ''/''"
      "detranslate_path (e_tracees E) t s None = Inr (n, q)" for p s n q
  proof (rule detranslate_path_text[OF _ t _ that(3)])
    have "NUL \<notin> set s"
      using that(1) by (auto simp: readlink_proc_pid_fd_def Let_def split: sum.splits if_split_asm)
    then show "text_ok s" using that(2) by (cases s) (auto simp: text_ok_def)
  qed (use env_ok_tracees[OF E] in blast)
  have cwd: "text_ok q" if "getcwd2 E (Some t) w = Inr q" for q
    using that t by (auto simp: getcwd2_def tracee_ok_def split: if_split_asm)
  have "text_ok ''/''" by (simp add: text_ok_def NUL_def)
  then show ?thesis
    using r fd cwd unfolding translation_base_def
    by (auto split: sum.splits prod.splits if_split_asm)
qed

lemma sep_join_text: "text_ok a \<Longrightarrow> NUL \<notin> set b \<Longrightarrow> text_ok (sep_join a b)"
  by (cases b) (auto simp: sep_join_def text_ok_def NUL_def)

lemma restore_finality_length:
  "restore_finality 0 g f = Inr q \<Longrightarrow> length g < PATH_MAX \<Longrightarrow> length q < PATH_MAX"
  by (auto simp: restore_finality_def join2_eq split: option.splits Finality.splits if_split_asm)

lemma canonicalize_contained_short:
  assumes E: "env_ok E" and p: "text_ok p" and t: "tracee_ok t"
    and r: "canonicalize E p deref ''/'' 0 t w = (r, t', w')"
  shows "tracee_ok t' \<and>
    (\<forall>q. r = Inr q \<longrightarrow> (\<exists>cs f. valid_comps cs \<and> q = with_finality cs f \<and> length q < PATH_MAX))"
proof -
  have g: "path_ok ''/''" by (simp add: path_ok_def PATH_MAX_def)
  note c = canonicalize_contained[OF E p g t r]
  have "length q < PATH_MAX" if "r = Inr q" for q
  proof -
    let ?rec = "\<lambda>n path guest tracee w. canonicalize_at E (h_max_symlinks E - n) path True guest tracee w"
    obtain r1 t1 w1 where loop: "canon_loop E ?rec 0 deref p ''/'' 0 t w = (r1, t1, w1)"
      by (metis prod.exhaust)
    have rec: "canon_ok ?rec"
      by (rule canon_okI) (rule canonicalize_at_ok[OF E diff_le_self])
    have "path_ok s" if "r1 = Inr (s, f)" for s f
      using canon_loop_ok[OF E rec _ g t loop] start_ok(1)[OF p g] that by simp
    then show ?thesis
      using r loop that
      by (auto simp: canonicalize_def Let_def path_ok_def restore_finality_length
          split: sum.splits if_split_asm)
  qed
  with c show ?thesis by blast
qed

lemma translate_path_placed:
  assumes E: "env_ok E" and x: "no_extension E" and t: "tracee_ok t" and u: "NUL \<notin> set user"
    and r: "translate_path E t w fd user deref = (Inr q, t', w')"
  shows "tracee_ok t' \<and> placed (t_fs t') q"
proof -
  have hooks: "x_guest_path E w p u = (Inr 0, p, w)" "x_translated_path E w p = (Inr 0, p, w)" for w p u
    using x by (auto simp: no_extension_def)
  from r obtain base guest c w1 n where base: "translation_base E t w fd user = Inr base"
    and guest: "join2 base user = Inr guest"
    and c: "canonicalize E guest deref ''/'' 0 t w = (Inr c, t', w1)"
    and s: "substitute_binding (t_fs t') GUEST c = Inr (n, q)"
    by (auto simp: translate_path_def notify_translated_def hooks
        split: sum.splits prod.splits if_split_asm)
  have "guest = sep_join base user" using guest by (simp add: join2_eq split: if_split_asm)
  then have g: "text_ok guest"
    using sep_join_text[OF translation_base_text[OF E t base] u] by simp
  from canonicalize_contained_short[OF E g t c] obtain cs f
    where "tracee_ok t'" "valid_comps cs" "c = with_finality cs f" "length c < PATH_MAX" by blast
  then show ?thesis
    using substitute_binding_placed[of "t_fs t'" cs f n q] s by (simp add: tracee_ok_def)
qed

subsection \<open>The opposite translation\<close>

text \<open>
  Without a referrer, a host path under the guest root is stripped of it; outside, the
  deepest binding decides; a path that nothing covers is refused.
\<close>

lemma root_path_comps:
  assumes "wf_fs fs"
  obtains r rc where "r \<in> bindings_of fs" and "guest_key r = ''/''" and "host_key r = path_of rc"
    and "valid_comps rc" and "root_path fs = path_of rc"
proof -
  obtain r where r: "r \<in> bindings_of fs" "guest_key r = ''/''" "root_path fs = host_key r"
    using get_root_wf[OF assms] by blast
  moreover obtain rc where "valid_comps rc" "host_key r = path_of rc"
    using wf_binding_paths(2)[OF bindings_of_wf[OF assms r(1)]] by auto
  ultimately show thesis using that by simp
qed

lemma belongs_covers: "belongs_to_guestfs fs p = covers compare_paths (root_path fs) p"
  by (simp add: belongs_to_guestfs_def covers_def Let_def)

lemma strip_root_comps:
  assumes rc: "valid_comps rc" "root_path fs = path_of rc" and cs: "valid_comps cs"
  shows "strip_root fs (path_of cs) sanity =
    (if prefix rc cs then Inr (Suc (length (path_of (drop (length rc) cs))), path_of (drop (length rc) cs))
     else if sanity then Err EPERM else Inr (0, path_of cs))"
proof -
  have cmp: "compare_paths (root_path fs) (path_of cs) = compare_comps rc cs"
    by (simp only: rc(2) compare_paths_comps[OF rc(1) cs])
  show ?thesis
  proof (cases "prefix rc cs")
    case True
    then obtain rest where rest: "cs = rc @ rest" by (auto simp: prefix_def)
    show ?thesis
      using length_path_of_eq_1[OF rc(1)] unfolding strip_root_def cmp
      by (cases "rest = []"; cases "rc = []") (auto simp: rest rc(2) compare_comps_def Let_def)
  next
    case False
    then show ?thesis
      unfolding strip_root_def cmp by (auto simp: compare_comps_def)
  qed
qed

text \<open>Which binding the opposite translation goes through.\<close>

definition reverse_binding :: "FileSystemNameSpace \<Rightarrow> string \<Rightarrow> Binding option" where
  "reverse_binding fs p =
     (if compare_paths (root_path fs) ''/'' \<noteq> PATHS_ARE_EQUAL \<and> belongs_to_guestfs fs p
      then find (\<lambda>b. guest_key b = ''/'') (foreach fs GUEST)
      else get_binding fs HOST p)"

lemma detranslate_path_None:
  assumes "length p < PATH_MAX" and "char_at p 0 = CHR ''/''"
  shows "detranslate_path ts t p None =
    (case substitute_binding (t_fs t) HOST p of
       Inr (n, q) \<Rightarrow> (if n = 0 then Inr (0, p) else Inr (length q + 1, q))
     | Inl Undefined \<Rightarrow> Inl Undefined
     | Inl (Errno e) \<Rightarrow> strip_root (t_fs t) p True)"
  using assms by (simp add: detranslate_path_def detranslate_mode_def)

lemma substitute_binding_HOST_None:
  "get_binding fs HOST p = None \<Longrightarrow> substitute_binding fs HOST p = Err ENOENT"
  by (simp add: substitute_binding_def)

lemma detranslate_path_uncovered:
  assumes "length p < PATH_MAX" and "char_at p 0 = CHR ''/''" and "get_binding (t_fs t) HOST p = None"
  shows "detranslate_path ts t p None = strip_root (t_fs t) p True"
  by (simp add: detranslate_path_None[OF assms(1,2)] substitute_binding_HOST_None[OF assms(3)])

text \<open>A path that no binding and not the root covers is refused, and only such a path.\<close>

lemma detranslate_path_refused:
  assumes t: "wf_fs (t_fs t)" and p: "canonical p" "length p < PATH_MAX"
  shows "detranslate_path ts t p None = Err EPERM \<longleftrightarrow> reverse_binding (t_fs t) p = None"
proof -
  let ?fs = "t_fs t"
  from p obtain cs where cs: "valid_comps cs" "p = path_of cs" by auto
  obtain r rc where r: "r \<in> bindings_of ?fs" "guest_key r = ''/''" "valid_comps rc"
    "root_path ?fs = path_of rc" "host_key r = path_of rc"
    using root_path_comps[OF t] by blast
  have slash: "char_at p 0 = CHR ''/''" using cs by (simp add: char_at_def)
  note det = detranslate_path_None[OF p(2) slash]
  have bel: "belongs_to_guestfs ?fs p \<longleftrightarrow> prefix rc cs"
    by (simp only: belongs_covers r(4) cs(2) covers_paths[OF r(3) cs(1)])
  have eq: "compare_paths (root_path ?fs) ''/'' = PATHS_ARE_EQUAL \<longleftrightarrow> rc = []"
    using compare_paths_comps[OF r(3), of "[]"] by (simp add: r(4) compare_comps_EQ)
  have root: "find (\<lambda>b. guest_key b = ''/'') (foreach ?fs GUEST) \<noteq> None"
    using r(1,2) by (auto simp: find_None_iff bindings_of_def)
  show ?thesis
  proof (cases "get_binding ?fs HOST p")
    case None
    have "rc \<noteq> [] \<or> \<not> prefix rc cs"
    proof (rule ccontr)
      assume "\<not> (rc \<noteq> [] \<or> \<not> prefix rc cs)"
      then have rc: "rc = []" by simp
      have "covers compare_paths (host_key r) p"
        using covers_paths[OF r(3) cs(1)] rc cs(2) r(5) by simp
      moreover have "r \<in> set (foreach ?fs HOST)" using r(1) foreach_sides[OF t] by simp
      ultimately have "find (\<lambda>b. covers compare_paths (host_key b) p) (foreach ?fs HOST) \<noteq> None"
        by (auto simp: find_None_iff)
      then show False using None rc eq by (simp add: get_binding_HOST_eq[OF t])
    qed
    then show ?thesis
      using None root bel eq
      unfolding detranslate_path_uncovered[OF p(2) slash None] reverse_binding_def
      unfolding cs(2) strip_root_comps[OF r(3,4) cs(1)] by (auto simp: cs(2))
  next
    case (Some b)
    obtain n q where "substitute_binding ?fs HOST p = Inr (n, q)"
      using substitute_binding_HOST_comps[OF t cs(1) p(2)[unfolded cs(2)] Some[unfolded cs(2)]] cs(2)
      by (metis (no_types))
    moreover have "reverse_binding ?fs p \<noteq> None" using Some root by (simp add: reverse_binding_def)
    ultimately show ?thesis by (simp add: det split: if_split)
  qed
qed

text \<open>
  The guest path names the host path again: if its look-up finds the binding that the opposite
  translation went through, substituting it gives back the host path.
\<close>

lemma detranslate_path_inverse:
  assumes t: "wf_fs (t_fs t)" and p: "canonical p" "length p + 1 < PATH_MAX"
    and d: "detranslate_path ts t p None = Inr (n, q)"
    and rev: "reverse_binding (t_fs t) p = Some b"
    and sub: "n \<noteq> 0 \<Longrightarrow> q \<noteq> p"
    and get: "get_binding (t_fs t) GUEST q = Some b"
  shows "\<exists>m. substitute_binding (t_fs t) GUEST q = Inr (m, p)"
proof -
  let ?fs = "t_fs t"
  from p obtain cs where cs: "valid_comps cs" "p = path_of cs" by auto
  obtain r rc where r: "r \<in> bindings_of ?fs" "guest_key r = ''/''" "valid_comps rc"
    "root_path ?fs = path_of rc" "host_key r = path_of rc"
    using root_path_comps[OF t] by blast
  have slash: "char_at p 0 = CHR ''/''" using cs by (simp add: char_at_def)
  have short: "length p < PATH_MAX" using p(2) by simp
  note det = detranslate_path_None[OF short slash]
  have bel: "belongs_to_guestfs ?fs p \<longleftrightarrow> prefix rc cs"
    by (simp only: belongs_covers r(4) cs(2) covers_paths[OF r(3) cs(1)])
  have eq: "compare_paths (root_path ?fs) ''/'' = PATHS_ARE_EQUAL \<longleftrightarrow> rc = []"
    using compare_paths_comps[OF r(3), of "[]"] by (simp add: r(4) compare_comps_EQ)
  show ?thesis
  proof (cases "get_binding ?fs HOST p")
    case None
    then have strip: "rc \<noteq> []" "prefix rc cs" "find (\<lambda>b. guest_key b = ''/'') (foreach ?fs GUEST) = Some b"
      using rev eq bel by (auto simp: reverse_binding_def split: if_split_asm)
    then obtain rest where rest: "cs = rc @ rest" by (auto simp: prefix_def)
    have b: "b \<in> bindings_of ?fs" "guest_key b = ''/''"
      using strip(3) by (auto simp: find_Some_iff bindings_of_def)
    have "b = r"
      using b r(1,2) t
      by (auto simp: wf_fs_def bindings_of_def foreach_def HEAD_def distinct_map inj_on_def)
    have q: "q = path_of rest"
      using d unfolding detranslate_path_uncovered[OF short slash None]
      unfolding cs(2) strip_root_comps[OF r(3,4) cs(1)] by (simp add: rest)
    have vr: "valid_comps rest" "length (path_of rest) < PATH_MAX"
      using cs(1) rest length_path_of_suffix[of rest rc] short unfolding cs(2) by simp_all
    obtain gc hc rest' where g: "guest_key b = path_of gc" "host_key b = path_of hc"
      "valid_comps gc" "valid_comps hc" "rest = gc @ rest'"
      and res: "substitute_binding ?fs GUEST (path_of rest) =
        (if gc = hc then Inr (0, path_of rest)
         else if substitution_fits gc hc rest' then Inr (1, path_of (hc @ rest'))
         else Inr (1, path_of rest))"
      using substitute_binding_GUEST_comps[OF t vr] get unfolding q by force
    have "gc = []"
      by (rule path_of_inject[OF g(3)]) (use g(1) b(2) in simp_all)
    moreover have "hc = rc"
      by (rule path_of_inject[OF g(4) r(3)]) (use g(2) r(5) \<open>b = r\<close> in simp)
    moreover have "substitution_fits [] rc rest"
      using p(2) rest cs(2) strip(1) by (auto simp: substitution_fits_def path_of_def split: if_split_asm)
    ultimately show ?thesis
      using res g(5) strip(1) by (auto simp: q cs(2) rest)
  next
    case (Some b')
    then have b': "b' = b"
      using rev by (auto simp: reverse_binding_def get_binding_HOST_eq[OF t] split: if_split_asm)
    obtain gc hc rest where g: "guest_key b = path_of gc" "host_key b = path_of hc"
      "valid_comps gc" "valid_comps hc" "cs = hc @ rest"
      and res: "substitute_binding ?fs HOST (path_of cs) =
        (if gc = hc then Inr (0, path_of cs)
         else if substitution_fits hc gc rest then Inr (1, path_of (gc @ rest))
         else Inr (1, path_of cs))"
      using substitute_binding_HOST_comps[OF t cs(1) short[unfolded cs(2)] Some[unfolded cs(2)]] b'
      by blast
    have q: "(gc = hc \<and> q = p) \<or> (gc \<noteq> hc \<and> substitution_fits hc gc rest \<and> q = path_of (gc @ rest))"
      using d[unfolded det res[folded cs(2)]] sub by (auto split: if_split_asm)
    then have vq: "valid_comps (gc @ rest)" "q = path_of (gc @ rest)"
      using g cs by auto
    have "length q < PATH_MAX"
      using q substitution_fits_length[of hc gc rest] short cs(2) g(5) by auto
    then obtain gc' hc' rest' where h: "guest_key b = path_of gc'" "host_key b = path_of hc'"
      "valid_comps gc'" "valid_comps hc'" "gc @ rest = gc' @ rest'"
      and res': "substitute_binding ?fs GUEST (path_of (gc @ rest)) =
        (if gc' = hc' then Inr (0, path_of (gc @ rest))
         else if substitution_fits gc' hc' rest' then Inr (1, path_of (hc' @ rest'))
         else Inr (1, path_of (gc @ rest)))"
      using substitute_binding_GUEST_comps[OF t vq(1)] get unfolding vq(2) by force
    have same: "gc' = gc" "hc' = hc"
      using path_of_inject[OF h(3) g(3)] path_of_inject[OF h(4) g(4)] g(1,2) h(1,2) by simp_all
    then have "rest' = rest" using h(5) by simp
    have "gc \<noteq> hc \<Longrightarrow> substitution_fits gc hc rest"
      using p(2) g(5) cs(2) by (auto simp: substitution_fits_def path_of_def split: if_split_asm)
    then show ?thesis
      using res' same \<open>rest' = rest\<close> q vq cs g by auto
  qed
qed

end
