(* ===== verification/Effects.thy ===== *)
theory Effects
  imports Translate
begin

section \<open>What a translation changes\<close>

text \<open>
  The walk of path/canon.c changes the tracee only by building glue.  A relation that relates
  the tracee before and after one \<open>substitute_binding_stat\<close> relates it before and after a
  whole translation: the contract \<open>walk_effect\<close>.  Two relations meet it: sequences of glue
  steps, and equality as soon as no binding is being initialised.
\<close>

locale walk_effect =
  fixes E :: "'w Env" and R :: "Tracee \<Rightarrow> Tracee \<Rightarrow> bool"
  assumes R_refl: "R t t"
    and R_trans: "R t t' \<Longrightarrow> R t' t'' \<Longrightarrow> R t t''"
    and R_stat: "substitute_binding_stat E t w f l g = (r, t', w') \<Longrightarrow> R t t'"
begin

definition rec_effect :: "'w canon \<Rightarrow> bool" where
  "rec_effect rec \<longleftrightarrow> (\<forall>n p g t w r t' w'. rec n p g t w = (r, t', w') \<longrightarrow> R t t')"

lemma follow_link_effect:
  assumes "rec_effect rec" and r: "follow_link E rec l f p guest n t w = (res, t', w')"
  shows "R t t'"
proof -
  obtain r1 t1 w1 where c: "rec n p guest t w = (r1, t1, w1)" by (metis prod.exhaust)
  then have 1: "R t t1" using assms(1) unfolding rec_effect_def by blast
  moreover have "R t1 t'"
    using r R_refl[of t1] R_stat[of t1]
    by (auto simp: follow_link_def c split: sum.splits if_split_asm prod.splits)
  ultimately show ?thesis by (rule R_trans)
qed

lemma canon_turn_effect:
  assumes rec: "rec_effect rec"
    and r: "canon_turn E rec l d f c guest n t w = (res, t', w')"
  shows "R t t'"
proof (cases "c = ''.'' \<or> c = ''..'' \<or> (\<exists>e. join2 guest c = Inl e)")
  case True
  then show ?thesis
    using r R_refl[of t] by (auto simp: canon_turn_def split: sum.splits if_split_asm)
next
  case False
  then obtain scratch where scratch: "join2 guest c = Inr scratch"
    by (cases "join2 guest c") auto
  obtain r1 t1 w1 where s: "substitute_binding_stat E t w f l scratch = (r1, t1, w1)"
    by (metis prod.exhaust)
  have "R t1 t'"
    using r False R_refl[of t1] follow_link_effect[OF rec, of l f _ guest n t1 w1 res t' w']
    by (auto simp: canon_turn_def scratch s split: sum.splits link.splits if_split_asm prod.splits)
  then show ?thesis by (rule R_trans[OF R_stat[OF s]])
qed

lemma canon_loop_effect:
  assumes rec: "rec_effect rec"
  shows "canon_loop E rec l d cursor guest n t w = (res, t', w') \<Longrightarrow> R t t'"
proof (induction "length cursor" arbitrary: cursor guest n t w rule: less_induct)
  case less
  show ?case
  proof (cases "next_component cursor")
    case (Inl e)
    then show ?thesis using less.prems R_refl[of t] by (subst (asm) canon_loop.simps) auto
  next
    case (Inr x)
    obtain f c rest where x: "x = (f, c, rest)" by (metis prod.exhaust)
    note nc = Inr[unfolded x]
    obtain r1 t1 w1 where turn: "canon_turn E rec l d f c guest n t w = (r1, t1, w1)"
      by (metis prod.exhaust)
    have "R t1 t'"
    proof (cases "\<exists>g' n'. r1 = Inr (Next g' n') \<and> \<not> IS_FINAL f")
      case True
      then obtain g' n' where r1: "r1 = Inr (Next g' n')" "\<not> IS_FINAL f" by blast
      have "canon_loop E rec l d rest g' n' t1 w1 = (res, t', w')"
        using less.prems by (subst (asm) canon_loop.simps) (simp add: nc turn r1)
      then show ?thesis
        using less.hyps[OF next_component_shorter[OF nc r1(2)]] by blast
    next
      case False
      then show ?thesis
        using less.prems R_refl[of t1]
        by (subst (asm) canon_loop.simps) (auto simp: nc turn split: sum.splits turn.splits)
    qed
    then show ?thesis by (rule R_trans[OF canon_turn_effect[OF rec turn]])
  qed
qed

lemma canonicalize_at_effect:
  "canonicalize_at E d p deref g t w = (r, t', w') \<Longrightarrow> R t t'"
proof (induction d arbitrary: p deref g t w r t' w' rule: less_induct)
  case (less d)
  show ?case
  proof (cases d)
    case 0
    then show ?thesis using less.prems R_refl[of t] by simp
  next
    case (Suc d')
    let ?rec = "\<lambda>n path guest tracee w. canonicalize_at E (d' - n) path True guest tracee w"
    have rec: "rec_effect ?rec"
      unfolding rec_effect_def using less.IH Suc by (meson diff_less_Suc)
    show ?thesis
      using less.prems R_refl[of t] canon_loop_effect[OF rec]
      unfolding Suc canonicalize_at.simps Let_def
      by (auto split: sum.splits prod.splits if_split_asm)
  qed
qed

lemma canonicalize_effect:
  "canonicalize E p deref g l t w = (r, t', w') \<Longrightarrow> R t t'"
  unfolding canonicalize_def by (rule canonicalize_at_effect)

lemma translate_path_effect:
  assumes "translate_path E t w fd user deref = (r, t', w')"
  shows "R t t'"
  using assms R_refl[of t] canonicalize_effect[of _ deref "''/''" 0 t]
  unfolding translate_path_def notify_translated_def
  by (auto split: sum.splits prod.splits if_split_asm)

end

subsection \<open>Outside the initialisation of a binding nothing changes\<close>

lemma substitute_binding_stat_pure:
  assumes "t_glue_type t = 0"
  shows "substitute_binding_stat E t w f l g = (r, t', w') \<Longrightarrow> t' = t"
  using assms
  by (auto simp: substitute_binding_stat_def Let_def split: sum.splits prod.splits if_split_asm)

interpretation pure: walk_effect E "\<lambda>t t'. t_glue_type t = 0 \<longrightarrow> t' = t" for E
  by unfold_locales (auto dest: substitute_binding_stat_pure)

subsection \<open>The steps that build glue\<close>

inductive glue_step :: "'w Env \<Rightarrow> Tracee \<Rightarrow> Tracee \<Rightarrow> bool" for E where
  directory: "t_glue t = None \<Longrightarrow> h_create_temp_directory E w = (Some g, w') \<Longrightarrow>
    glue_step E t (t\<lparr>t_glue := Some g\<rparr>)"
| placeholder: "glue_step E t (t\<lparr>t_fs := insort_binding3 (t_fs t) (fresh_addr (t_fs t)) glue guest\<rparr>)"

inductive_cases glue_stepE [elim!]: "glue_step E t t'"

abbreviation glue_steps :: "'w Env \<Rightarrow> Tracee \<Rightarrow> Tracee \<Rightarrow> bool" where
  "glue_steps E \<equiv> (glue_step E)\<^sup>*\<^sup>*"

lemma create_glue_binding_steps:
  "create_glue_binding t glue guest type = (m, t') \<Longrightarrow> glue_steps E t t'"
  by (auto simp: create_glue_binding_def split: if_split_asm intro: glue_step.placeholder)

lemma build_glue_steps:
  assumes r: "build_glue E t w guest host f = (m, t', w')"
  shows "glue_steps E t t'"
proof -
  define start where
    "start = (case t_glue t of Some g \<Rightarrow> (Some g, w) | None \<Rightarrow> h_create_temp_directory E w)"
  obtain og w1 where start: "start = (og, w1)" by (cases start)
  show ?thesis
  proof (cases og)
    case None
    then show ?thesis using r start by (simp add: build_glue_def start_def[symmetric])
  next
    case (Some g)
    let ?t = "t\<lparr>t_glue := Some g\<rparr>"
    have 1: "glue_steps E t ?t"
    proof (cases "t_glue t")
      case None
      then show ?thesis using start Some unfolding start_def
        by (intro r_into_rtranclp glue_step.directory) auto
    next
      case (Some g')
      then have "?t = t" using start \<open>og = Some g\<close> unfolding start_def by simp
      then show ?thesis by simp
    qed
    have "glue_steps E ?t t'"
      using r create_glue_binding_steps[of ?t, where E = E]
      unfolding build_glue_def start_def[symmetric] start Some Let_def
      by (auto split: prod.splits if_split_asm)
    with 1 show ?thesis by simp
  qed
qed

lemma substitute_binding_stat_steps:
  "substitute_binding_stat E t w f l g = (r, t', w') \<Longrightarrow> glue_steps E t t'"
  unfolding substitute_binding_stat_def Let_def
  by (auto split: sum.splits prod.splits if_split_asm dest!: build_glue_steps)

interpretation glue: walk_effect E "glue_steps E" for E
  by unfold_locales (auto dest: substitute_binding_stat_steps)

end
