(* ===== verification/Init_Bindings.thy ===== *)
theory Init_Bindings
  imports Effects
begin

section \<open>Creation and initialisation of bindings\<close>

text \<open>
  The end of path/binding.c: \<open>new_binding\<close> puts a binding asked by the user in the pending
  list, \<open>initialize_bindings\<close> canonicalizes their guest locations and installs them, the root
  first.  The field \<open>reconf.tracee\<close> is an argument: nothing in the sources ever sets it, so the
  callers of the model pass \<open>None\<close>.
\<close>

subsection \<open>The operations\<close>

definition S_IFBLK :: mode where "S_IFBLK = 0x6000"
definition S_IFCHR :: mode where "S_IFCHR = 0x2000"

definition new_binding ::
  "'w Env \<Rightarrow> Tracee option \<Rightarrow> nat \<Rightarrow> string \<Rightarrow> string option \<Rightarrow> Tracee \<Rightarrow> 'w
     \<Rightarrow> Binding option \<times> Tracee \<times> 'w" where
  "new_binding E reconf addr host guest tracee w =
     (let fs = (case fs_pending (t_fs tracee) of
                  None \<Rightarrow> (t_fs tracee)\<lparr>fs_pending := Some []\<rparr> | Some _ \<Rightarrow> t_fs tracee);
          tracee = tracee\<lparr>t_fs := fs\<rparr>
      in case realpath2 E reconf w host True of
           (Inl _, _, w) \<Rightarrow> (None, tracee, w)
         | (Inr host_path, reconf, w) \<Rightarrow>
             (let guest = (case guest of None \<Rightarrow> host | Some g \<Rightarrow> g) in
              case (if char_at guest 0 \<noteq> CHR ''/'' then getcwd2 E reconf w else Inr ''/'') of
                Inl _ \<Rightarrow> (None, tracee, w)
              | Inr base \<Rightarrow>
                  (case join2 base guest of
                     Inl _ \<Rightarrow> (None, tracee, w)
                   | Inr guest_path \<Rightarrow>
                       (let binding = \<lparr>b_addr = addr, b_host = mk_Path host_path,
                              b_guest = mk_Path guest_path, need_substitution = False\<rparr>
                        in (Some binding,
                            tracee\<lparr>t_fs := insort_binding (t_fs tracee) PENDING binding\<rparr>, w)))))"

text \<open>The type the glue gives to the final component of a binding.\<close>

definition glue_type_of :: "mode res \<Rightarrow> mode" where
  "glue_type_of st =
     (case st of
        Inl _ \<Rightarrow> S_IFREG
      | Inr m \<Rightarrow> (if m AND S_IFMT = S_IFBLK \<or> m AND S_IFMT = S_IFCHR then S_IFREG else m AND S_IFMT))"

text \<open>
  \<open>initialize_binding\<close>.  Where the canonicalization fails the source returns at once: the binding
  is not installed, and the type of the glue is not reset.
\<close>

definition initialize_binding ::
  "'w Env \<Rightarrow> Tracee \<Rightarrow> 'w \<Rightarrow> Binding \<Rightarrow> (Tracee \<times> 'w) res" where
  "initialize_binding E tracee w binding =
     (let guest = path_str (b_guest binding) in
      if compare_paths guest ''/'' \<noteq> PATHS_ARE_EQUAL then
        (let path = guest;
             len = length path;
             dereference = (char_at path (len - 1) \<noteq> CHR ''!'');
             path = (if dereference then path else take (len - 1) path);
             tracee = tracee\<lparr>t_glue_type := glue_type_of (h_lstat E w (path_str (b_host binding)))\<rparr>
         in case canonicalize E path dereference ''/'' 0 tracee w of
              (Inl Undefined, _, _) \<Rightarrow> Inl Undefined
            | (Inl (Errno _), tracee, w) \<Rightarrow> Inr (tracee, w)
            | (Inr guest, tracee, w) \<Rightarrow>
                (case chop_finality guest of
                   Inl e \<Rightarrow> Inl e
                 | Inr guest \<Rightarrow>
                     (let tracee = tracee\<lparr>t_glue_type := 0\<rparr>;
                          binding = binding\<lparr>b_guest := mk_Path guest\<rparr>
                      in Inr (tracee\<lparr>t_fs := insort_binding2 (t_fs tracee) binding\<rparr>, w))))
      else
        (let binding = binding\<lparr>b_guest := mk_Path guest\<rparr>
         in Inr (tracee\<lparr>t_fs := insort_binding2 (t_fs tracee) binding\<rparr>, w)))"

text \<open>\<open>add_induced_bindings\<close>, over the guest list of the tracee being reconfigured.\<close>

fun induced_loop ::
  "string \<Rightarrow> Binding \<Rightarrow> Binding list \<Rightarrow> FileSystemNameSpace \<Rightarrow> FileSystemNameSpace" where
  "induced_loop path new [] fs = fs"
| "induced_loop path new (old # olds) fs =
     (if compare_paths path (path_str (b_guest old)) \<noteq> PATH1_IS_PREFIX
      then induced_loop path new olds fs
      else
        (let prefix_length = (if length path = 1 then 0 else length path) in
         case join2 (path_str (b_guest new)) (drop prefix_length (path_str (b_guest old))) of
           Inl _ \<Rightarrow> induced_loop path new olds fs
         | Inr path2 \<Rightarrow>
             induced_loop path new olds
               (insort_binding2 fs
                  \<lparr>b_addr = fresh_addr fs, b_host = mk_Path (path_str (b_host old)),
                   b_guest = mk_Path path2, need_substitution = False\<rparr>)))"

definition add_induced_bindings ::
  "'w Env \<Rightarrow> Tracee option \<Rightarrow> Binding \<Rightarrow> FileSystemNameSpace \<Rightarrow> FileSystemNameSpace" where
  "add_induced_bindings E reconf new fs =
     (case reconf of
        None \<Rightarrow> fs
      | Some old_tracee \<Rightarrow>
          (case detranslate_path (e_tracees E) old_tracee (path_str (b_host new)) None of
             Inl _ \<Rightarrow> fs
           | Inr (_, path) \<Rightarrow> induced_loop path new (foreach (t_fs old_tracee) GUEST) fs))"

text \<open>\<open>initialize_bindings\<close>: the pending list in reverse order, from the last one, the root.\<close>

fun initialize_loop :: "'w Env \<Rightarrow> Binding list \<Rightarrow> Tracee \<Rightarrow> 'w \<Rightarrow> (Tracee \<times> 'w) res" where
  "initialize_loop E [] tracee w = Inr (tracee, w)"
| "initialize_loop E (binding # rest) tracee w =
     (case initialize_binding E tracee w binding of
        Inl e \<Rightarrow> Inl e
      | Inr (tracee, w) \<Rightarrow>
          initialize_loop E rest
            (tracee\<lparr>t_fs := add_induced_bindings E None binding (t_fs tracee)\<rparr>) w)"

definition initialize_bindings :: "'w Env \<Rightarrow> Tracee \<Rightarrow> 'w \<Rightarrow> (Tracee \<times> 'w) res" where
  "initialize_bindings E tracee w =
     (let pending = foreach (t_fs tracee) PENDING;
          fs = (t_fs tracee)\<lparr>fs_guest := Some [], fs_host := Some []\<rparr>
      in case initialize_loop E (rev pending) (tracee\<lparr>t_fs := fs\<rparr>) w of
           Inl e \<Rightarrow> Inl e
         | Inr (tracee, w) \<Rightarrow> Inr (tracee\<lparr>t_fs := (t_fs tracee)\<lparr>fs_pending := None\<rparr>\<rparr>, w))"

subsection \<open>The bindings that wait are not disturbed\<close>

text \<open>
  While the pending list is worked off, the objects that wait keep addresses that the guest list
  does not use: neither the installation of a binding nor the glue takes them.
\<close>

definition waiting :: "Binding list \<Rightarrow> FileSystemNameSpace \<Rightarrow> bool" where
  "waiting bs fs \<longleftrightarrow> set bs \<subseteq> set (foreach fs PENDING)
     \<and> (\<forall>b \<in> set bs. \<forall>x \<in> set (foreach fs GUEST). b_addr x \<noteq> b_addr b)"

lemma insort_loop_Replace:
  "insort_loop side b bs p n = Replace x \<Longrightarrow> x \<in> set bs"
  by (induction bs arbitrary: p n)
    (auto simp: Let_def split: Comparison.splits if_split_asm option.splits)

lemma in_insert_after: "x \<in> set (insert_after a b bs) \<Longrightarrow> x = b \<or> x \<in> set bs"
  by (induction bs) (auto split: if_split_asm)

lemma in_insert_before: "x \<in> set (insert_before a b bs) \<Longrightarrow> x = b \<or> x \<in> set bs"
  by (induction bs) (auto split: if_split_asm)

lemma HEAD_set_HEAD:
  "HEAD (set_HEAD fs side bs) side' = (if side' = side then bs else HEAD fs side')"
  by (cases side; cases side') (simp_all add: HEAD_def set_HEAD_def)

lemma foreach_set_HEAD_other:
  "foreach (set_HEAD fs side (Some bs)) side' = (if side' = side then bs else foreach fs side')"
  by (simp add: foreach_def HEAD_set_HEAD)

lemma foreach_remove:
  "foreach (remove_binding_from_all_lists fs x) side = remove_addr (b_addr x) (foreach fs side)"
  by (simp add: foreach_def HEAD_remove remove_addr_def split: option.split)

lemma insort_binding_foreach:
  assumes "side \<noteq> PENDING"
  shows "set (foreach (insort_binding fs side b) GUEST) \<subseteq> insert b (set (foreach fs GUEST))"
    and "foreach (insort_binding fs side b) PENDING = foreach fs PENDING
      \<or> (\<exists>x \<in> set (foreach fs side). side = GUEST \<and>
            foreach (insort_binding fs side b) PENDING = remove_addr (b_addr x) (foreach fs PENDING))"
proof -
  define pos where "pos = insort_loop side b (foreach fs side) None
    (case foreach fs side of [] \<Rightarrow> None | x # _ \<Rightarrow> Some x)"
  have eq: "insort_binding fs side b =
    (case pos of
       Replace x \<Rightarrow> remove_binding_from_all_lists
         (set_HEAD fs side (Some (insert_after (b_addr x) b (foreach fs side)))) x
     | After p \<Rightarrow> set_HEAD fs side (Some (insert_after (b_addr p) b (foreach fs side)))
     | Before n \<Rightarrow> set_HEAD fs side (Some (insert_before (b_addr n) b (foreach fs side)))
     | At_Head \<Rightarrow> set_HEAD fs side (Some (b # foreach fs side)))"
    by (simp add: insort_binding_def pos_def Let_def)
  have host: "side = GUEST" if "pos = Replace x" for x
  proof (rule ccontr)
    assume "side \<noteq> GUEST"
    then have "side = HOST" using assms by (cases side) auto
    then have "insort_loop side b bs p n \<noteq> Replace x" for bs p n
      by (induction bs arbitrary: p n)
        (auto simp: Let_def split: Comparison.splits if_split_asm option.splits)
    then show False using that by (simp add: pos_def)
  qed
  show "set (foreach (insort_binding fs side b) GUEST) \<subseteq> insert b (set (foreach fs GUEST))"
    unfolding eq
    by (auto simp: foreach_set_HEAD_other foreach_remove set_remove_addr
        dest!: in_insert_after in_insert_before split: insort_pos.splits if_split_asm)
  show "foreach (insort_binding fs side b) PENDING = foreach fs PENDING
      \<or> (\<exists>x \<in> set (foreach fs side). side = GUEST \<and>
            foreach (insort_binding fs side b) PENDING = remove_addr (b_addr x) (foreach fs PENDING))"
  proof (cases pos)
    case (Replace x)
    have "x \<in> set (foreach fs side)"
      by (rule insort_loop_Replace) (rule Replace[unfolded pos_def])
    moreover have "foreach (insort_binding fs side b) PENDING = remove_addr (b_addr x) (foreach fs PENDING)"
      using assms by (simp add: eq Replace foreach_remove foreach_set_HEAD_other)
    ultimately show ?thesis using host[OF Replace] by blast
  qed (use assms in \<open>simp_all add: eq foreach_set_HEAD_other\<close>)
qed

lemma waiting_insort_binding2:
  assumes w: "waiting bs fs" and b: "\<forall>x \<in> set bs. b_addr b \<noteq> b_addr x"
  shows "waiting bs (insort_binding2 fs b)"
proof -
  define b' where "b' = b\<lparr>need_substitution :=
    compare_paths (path_str (b_host b)) (path_str (b_guest b)) \<noteq> PATHS_ARE_EQUAL\<rparr>"
  define fs1 where "fs1 = insort_binding fs GUEST b'"
  have res: "insort_binding2 fs b = insort_binding fs1 HOST b'"
    by (simp add: insort_binding2_def fs1_def b'_def Let_def)
  have addr: "b_addr b' = b_addr b" by (simp add: b'_def)
  have "waiting bs fs1"
    using w b insort_binding_foreach[of GUEST fs b']
    unfolding waiting_def fs1_def by (fastforce simp: set_remove_addr addr)
  then show ?thesis
    using b insort_binding_foreach[of HOST fs1 b']
    unfolding waiting_def res by (fastforce simp: addr)
qed

lemma fresh_addr_pending: "b \<in> set (foreach fs PENDING) \<Longrightarrow> b_addr b < fresh_addr fs"
  using member_le_sum_list[of "b_addr b" "map b_addr (foreach fs PENDING)"]
  by (simp add: fresh_addr_def)

lemma waiting_glue_steps:
  assumes "glue_steps E t t'" and "waiting bs (t_fs t)"
  shows "waiting bs (t_fs t')"
  using assms
proof (induction rule: rtranclp_induct)
  case (step t1 t2)
  from step.hyps(2) step.IH[OF step.prems] show ?case
  proof cases
    case (placeholder glue guest)
    have "\<forall>x \<in> set bs. fresh_addr (t_fs t1) \<noteq> b_addr x"
      using step.IH[OF step.prems] fresh_addr_pending by (fastforce simp: waiting_def)
    then show ?thesis
      using placeholder step.IH[OF step.prems]
      by (auto simp: insort_binding3_def intro: waiting_insort_binding2)
  qed simp
qed

subsection \<open>Initialisation establishes the invariant\<close>

text \<open>
  What \<open>new_binding\<close> leaves in the pending list: the host path is canonical, the guest path
  absolute, and only the last one is the root.  \<open>chop_finality\<close> cuts a final dot even where it
  belongs to the name: \<open>well_ended\<close> excludes such names.
\<close>

definition well_ended :: "string \<Rightarrow> bool" where
  "well_ended p \<longleftrightarrow> last p = CHR ''.'' \<longrightarrow> 2 \<le> length p \<and> p ! (length p - 2) = CHR ''/''"

definition asked_path :: "Binding \<Rightarrow> string" where
  "asked_path b =
     (if last (guest_key b) = CHR ''!'' then butlast (guest_key b) else guest_key b)"

definition pending_ok :: "'w Env \<Rightarrow> Binding \<Rightarrow> bool" where
  "pending_ok E b \<longleftrightarrow> path_ok (host_key b) \<and> text_ok (guest_key b) \<and> hd (guest_key b) = CHR ''/''
     \<and> (\<forall>d t w q t' w'. tracee_ok t \<longrightarrow> canonicalize E (asked_path b) d ''/'' 0 t w = (Inr q, t', w') \<longrightarrow> well_ended q)"

lemma chop_finality_well_ended:
  assumes cs: "valid_comps cs" and w: "well_ended (with_finality cs f)"
  shows "chop_finality (with_finality cs f) = Inr (path_of cs)"
proof (rule chop_finality_comps[OF cs])
  show "cs = [] \<or> f \<in> {FINAL_SLASH, FINAL_DOT} \<or> last (last cs) \<noteq> CHR ''.''"
  proof (rule ccontr)
    assume "\<not> ?thesis"
    then have ne: "cs \<noteq> []" and f: "f = NOT_FINAL \<or> f = FINAL_NORMAL" and dot: "last (last cs) = CHR ''.''"
      by (cases f; auto)+
    from ne obtain ds d where ds: "cs = ds @ [d]" by (cases cs rule: rev_cases) auto
    have p: "with_finality cs f = slashed ds @ CHR ''/'' # d"
      using f ds by (auto simp: with_finality_def)
    have d: "d \<noteq> []" "CHR ''/'' \<notin> set d" "d \<noteq> ''.''"
      using cs ds by (auto simp: valid_comp_def)
    from d(1) obtain e x where e: "d = e @ [x]" by (cases d rule: rev_cases) auto
    have x: "x = CHR ''.''" using dot ds e by simp
    have "e \<noteq> []" using d(3) e x by auto
    then obtain e' y where e': "e = e' @ [y]" by (cases e rule: rev_cases) auto
    have "with_finality cs f = (slashed ds @ CHR ''/'' # e') @ [y, x]"
      using p e e' by simp
    then have "y = CHR ''/''"
      using w x by (simp add: well_ended_def nth_append)
    then show False using d(2) e e' by simp
  qed
qed

lemma asked_path_text:
  assumes "text_ok (guest_key b)" and "hd (guest_key b) = CHR ''/''"
  shows "text_ok (asked_path b)"
proof -
  have "butlast (guest_key b) \<noteq> []" if "last (guest_key b) = CHR ''!''"
    using assms that by (cases "guest_key b" rule: rev_cases) (auto simp: text_ok_def)
  then show ?thesis
    using assms(1) by (auto simp: asked_path_def text_ok_def dest: in_set_butlastD)
qed

lemma initialize_binding_eq:
  assumes "text_ok (guest_key b)"
  shows "initialize_binding E t w b =
    (if compare_paths (guest_key b) ''/'' \<noteq> PATHS_ARE_EQUAL then
       (case canonicalize E (asked_path b) (last (guest_key b) \<noteq> CHR ''!'') ''/'' 0
           (t\<lparr>t_glue_type := glue_type_of (h_lstat E w (host_key b))\<rparr>) w of
          (Inl Undefined, _, _) \<Rightarrow> Inl Undefined
        | (Inl (Errno _), t, w) \<Rightarrow> Inr (t, w)
        | (Inr guest, t, w) \<Rightarrow>
            (case chop_finality guest of
               Inl e \<Rightarrow> Inl e
             | Inr guest \<Rightarrow>
                 Inr (t\<lparr>t_glue_type := 0,
                        t_fs := insort_binding2 (t_fs t) (b\<lparr>b_guest := mk_Path guest\<rparr>)\<rparr>, w)))
     else Inr (t\<lparr>t_fs := insort_binding2 (t_fs t) (b\<lparr>b_guest := mk_Path (guest_key b)\<rparr>)\<rparr>, w))"
proof -
  have "char_at (guest_key b) (length (guest_key b) - 1) = last (guest_key b)"
    using assms by (simp add: text_ok_def last_conv_nth)
  then show ?thesis
    by (simp add: initialize_binding_def asked_path_def guest_key_def host_key_def Let_def
        butlast_conv_take split: prod.split sum.split failure.split)
qed

lemma insort_binding2_cwd: "fs_cwd (insort_binding2 fs b) = fs_cwd fs"
  by (simp add: insort_binding2_def Let_def insort_binding_cwd)

lemma install_ok:
  assumes t: "tracee_ok t" and w: "waiting (b # bs) (t_fs t)" and d: "distinct (map b_addr (b # bs))"
    and host: "wf_Path (b_host b')" and guest: "wf_Path (b_guest b')" and addr: "b_addr b' = b_addr b"
  shows "tracee_ok (t\<lparr>t_fs := insort_binding2 (t_fs t) b'\<rparr>)"
    and "waiting bs (insort_binding2 (t_fs t) b')"
proof -
  have "\<forall>x \<in> set (foreach (t_fs t) GUEST). b_addr x \<noteq> b_addr b'"
    using w addr by (simp add: waiting_def)
  then have "wf_fs (insort_binding2 (t_fs t) b')"
    using t host guest by (intro insort_binding2_wf_fs(1)) (auto simp: tracee_ok_def)
  then show "tracee_ok (t\<lparr>t_fs := insort_binding2 (t_fs t) b'\<rparr>)"
    using t by (simp add: tracee_ok_def insort_binding2_cwd)
  show "waiting bs (insort_binding2 (t_fs t) b')"
    by (rule waiting_insort_binding2) (use w d addr in \<open>auto simp: waiting_def\<close>)
qed

lemma compare_paths_root:
  assumes "compare_paths p ''/'' = PATHS_ARE_EQUAL"
  shows "p = ''/''"
proof -
  have "length p \<le> 1 \<and> p \<noteq> [] \<and> char_at p 0 = CHR ''/''"
    using assms by (auto simp: compare_paths_def compare_paths2_def Let_def split: if_split_asm)
  then show ?thesis by (cases p) (auto simp: char_at_def)
qed

lemma initialize_binding_ok:
  assumes E: "env_ok E" and t: "tracee_ok t" and w: "waiting (b # bs) (t_fs t)"
    and d: "distinct (map b_addr (b # bs))" and b: "pending_ok E b" "wf_Path (b_host b)"
    and r: "initialize_binding E t w0 b = Inr (t', w')"
  shows "tracee_ok t' \<and> waiting bs (t_fs t')"
proof (cases "compare_paths (guest_key b) ''/'' = PATHS_ARE_EQUAL")
  case True
  then have g: "guest_key b = ''/''" by (rule compare_paths_root)
  let ?b = "b\<lparr>b_guest := mk_Path ''/''\<rparr>"
  have "text_ok (guest_key b)" using b by (simp add: pending_ok_def)
  then have t': "t' = t\<lparr>t_fs := insort_binding2 (t_fs t) ?b\<rparr>"
    using r True by (simp add: initialize_binding_eq g)
  have "wf_Path (b_guest ?b)" by (simp add: wf_Path_def mk_Path_def PATH_MAX_def)
  then show ?thesis
    using install_ok[OF t w d, of ?b] b(2) unfolding t' by simp
next
  case False
  let ?t = "t\<lparr>t_glue_type := glue_type_of (h_lstat E w0 (host_key b))\<rparr>"
  have g: "text_ok (guest_key b)" "text_ok (asked_path b)"
    using b asked_path_text by (auto simp: pending_ok_def)
  have t1: "tracee_ok ?t" using t by (simp add: tracee_ok_def)
  obtain res t2 w2 where c: "canonicalize E (asked_path b) (last (guest_key b) \<noteq> CHR ''!'') ''/'' 0 ?t w0
      = (res, t2, w2)" by (metis prod.exhaust)
  have root: "path_ok ''/''" by (simp add: path_ok_def PATH_MAX_def)
  note cont = canonicalize_contained[OF E g(2) root t1 c]
  have w2: "waiting (b # bs) (t_fs t2)"
    using waiting_glue_steps[OF glue.canonicalize_effect[OF c]] w by simp
  note eq = initialize_binding_eq[OF g(1), of E t w0] c False
  show ?thesis
  proof (cases res)
    case (Inl e)
    then show ?thesis
      using r cont w2 by (auto simp: eq waiting_def split: failure.splits)
  next
    case (Inr q)
    from cont Inr obtain cs f where q: "valid_comps cs" "length (path_of cs) < PATH_MAX" "q = with_finality cs f"
      by blast
    have "well_ended q" using b(1) c t1 unfolding Inr pending_ok_def by blast
    then have chop: "chop_finality q = Inr (path_of cs)"
      using chop_finality_well_ended q by simp
    let ?b = "b\<lparr>b_guest := mk_Path (path_of cs)\<rparr>"
    have t': "t' = t2\<lparr>t_glue_type := 0, t_fs := insort_binding2 (t_fs t2) ?b\<rparr>"
      using r by (simp add: eq Inr chop)
    have "tracee_ok (t2\<lparr>t_glue_type := 0\<rparr>)" using cont by (simp add: tracee_ok_def)
    moreover have "waiting (b # bs) (t_fs (t2\<lparr>t_glue_type := 0\<rparr>))" using w2 by simp
    moreover have "wf_Path (b_guest ?b)" "wf_Path (b_host ?b)"
      using q b by (auto simp: wf_Path_def mk_Path_def)
    ultimately show ?thesis
      using install_ok[of "t2\<lparr>t_glue_type := 0\<rparr>" b bs ?b] d unfolding t' by simp
  qed
qed


text \<open>The first binding, the root, goes into empty lists.\<close>

lemma insort_binding_empty:
  "foreach fs side = [] \<Longrightarrow> insort_binding fs side b = set_HEAD fs side (Some [b])"
  by (simp add: insort_binding_def)

lemma insort_root:
  assumes fs: "fs_guest fs = Some []" "fs_host fs = Some []"
    and b: "wf_Path (b_host b)" "b_guest b = mk_Path ''/''"
  shows "wf_fs (insort_binding2 fs b)"
proof -
  define b' where "b' = b\<lparr>need_substitution :=
    compare_paths (path_str (b_host b)) (path_str (b_guest b)) \<noteq> PATHS_ARE_EQUAL\<rparr>"
  have root: "wf_Path (mk_Path ''/'')" by (simp add: wf_Path_def mk_Path_def PATH_MAX_def)
  have wb: "wf_binding b'"
    using b root by (auto simp: wf_binding_def b'_def wf_Path_def host_key_def guest_key_def
        compare_paths_equal_iff)
  have "insort_binding2 fs b = fs\<lparr>fs_guest := Some [b'], fs_host := Some [b']\<rparr>"
    using fs by (simp add: insort_binding2_def b'_def[symmetric] insort_binding_empty foreach_def
        HEAD_def set_HEAD_def)
  then show ?thesis
    using wb b(2) by (simp add: wf_fs_def nested_def b'_def guest_key_def mk_Path_def)
qed

lemma waiting_fs:
  "fs_pending fs' = fs_pending fs \<Longrightarrow> fs_guest fs' = fs_guest fs \<Longrightarrow> waiting bs fs' = waiting bs fs"
  by (simp add: waiting_def foreach_def HEAD_def)

lemma initialize_loop_ok:
  assumes E: "env_ok E"
  shows "tracee_ok t \<Longrightarrow> waiting bs (t_fs t) \<Longrightarrow> distinct (map b_addr bs) \<Longrightarrow>
    \<forall>b \<in> set bs. pending_ok E b \<and> wf_Path (b_host b) \<Longrightarrow>
    initialize_loop E bs t w = Inr (t', w') \<Longrightarrow> tracee_ok t'"
proof (induction bs arbitrary: t w)
  case (Cons b bs)
  obtain t1 w1 where one: "initialize_binding E t w b = Inr (t1, w1)"
    using Cons.prems(5) by (auto split: sum.splits)
  then have "initialize_loop E bs t1 w1 = Inr (t', w')"
    using Cons.prems(5) by (simp add: add_induced_bindings_def)
  moreover have "tracee_ok t1 \<and> waiting bs (t_fs t1)"
    using initialize_binding_ok[OF E Cons.prems(1-3) _ _ one] Cons.prems(4) by simp
  moreover have "distinct (map b_addr bs)" "\<forall>b \<in> set bs. pending_ok E b \<and> wf_Path (b_host b)"
    using Cons.prems(3,4) by simp_all
  ultimately show ?case using Cons.IH by blast
qed simp

lemma initialize_bindings_ok:
  assumes E: "env_ok E"
    and pending: "fs_pending (t_fs t) = Some (bs @ [root])"
    and root: "guest_key root = ''/''" "wf_Path (b_host root)"
    and bs: "\<forall>b \<in> set bs. pending_ok E b \<and> wf_Path (b_host b)"
    and d: "distinct (map b_addr (bs @ [root]))"
    and t: "text_ok (t_exe t)" "text_ok (fs_cwd (t_fs t))"
      "\<forall>g. t_glue t = Some g \<longrightarrow> canonical g \<and> length g < PATH_MAX"
    and r: "initialize_bindings E t w = Inr (t', w')"
  shows "tracee_ok t' \<and> fs_pending (t_fs t') = None"
proof -
  let ?fs = "(t_fs t)\<lparr>fs_guest := Some [], fs_host := Some []\<rparr>"
  let ?root = "root\<lparr>b_guest := mk_Path ''/''\<rparr>"
  let ?t1 = "t\<lparr>t_fs := insort_binding2 ?fs ?root\<rparr>"
  have key: "path_str (b_guest root) = ''/''" using root(1) by (simp add: guest_key_def)
  have eq: "compare_paths ''/'' ''/'' = PATHS_ARE_EQUAL"
    by (simp add: compare_paths_equal_iff)
  have one: "initialize_binding E (t\<lparr>t_fs := ?fs\<rparr>) w root = Inr (?t1, w)"
    by (simp add: initialize_binding_def key eq Let_def)
  obtain t2 where two: "initialize_loop E (rev bs) ?t1 w = Inr (t2, w')"
    and t': "t' = t2\<lparr>t_fs := (t_fs t2)\<lparr>fs_pending := None\<rparr>\<rparr>"
    using r pending one
    by (auto simp: initialize_bindings_def foreach_def HEAD_def add_induced_bindings_def
        split: sum.splits)
  have "wf_fs (insort_binding2 ?fs ?root)"
    by (rule insort_root) (use root(2) in simp_all)
  then have t1: "tracee_ok ?t1"
    using t by (simp add: tracee_ok_def insort_binding2_cwd)
  have "waiting (rev bs) ?fs"
    using pending by (auto simp: waiting_def foreach_def HEAD_def)
  then have "waiting (rev bs) (t_fs ?t1)"
    using d by (auto intro!: waiting_insort_binding2 simp: image_iff)
  then have "tracee_ok t2"
    using initialize_loop_ok[OF E t1 _ _ _ two] bs d by (simp flip: rev_map)
  then show ?thesis
    unfolding t' by (simp add: tracee_ok_def wf_fs_def)
qed

subsection \<open>A binding that cannot be canonicalized\<close>

text \<open>
  The type of the glue survives the failure: later translations of this tracee still build
  glue and do not notify the extensions of host paths.
\<close>

lemma glue_steps_type: "glue_steps E t t' \<Longrightarrow> t_glue_type t' = t_glue_type t"
  by (induction rule: rtranclp_induct) auto

lemma initialize_binding_failed:
  assumes g: "text_ok (guest_key b)" "guest_key b \<noteq> ''/''"
    and c: "canonicalize E (asked_path b) (last (guest_key b) \<noteq> CHR ''!'') ''/'' 0
      (t\<lparr>t_glue_type := glue_type_of (h_lstat E w (host_key b))\<rparr>) w = (Err e, t', w')"
  shows "initialize_binding E t w b = Inr (t', w')
    \<and> t_glue_type t' = glue_type_of (h_lstat E w (host_key b))"
proof -
  have "compare_paths (guest_key b) ''/'' \<noteq> PATHS_ARE_EQUAL"
    using g(2) compare_paths_root by blast
  then show ?thesis
    using c glue_steps_type[OF glue.canonicalize_effect[OF c]] by (simp add: initialize_binding_eq[OF g(1)])
qed

end
