(* ===== verification/Example.thy ===== *)
theory Example
  imports Init_Bindings
begin

section \<open>A small guest\<close>

text \<open>
  A concrete name-space, tracee and environment, on which the properties of the path translation
  are evaluated: the guest root is the host directory /r, the host directory /h appears as /x,
  and every file of the host is a directory.
\<close>

definition root_binding :: Binding where
  "root_binding = \<lparr>b_addr = 1, b_host = mk_Path ''/r'', b_guest = mk_Path ''/'', need_substitution = True\<rparr>"

definition x_binding :: Binding where
  "x_binding = \<lparr>b_addr = 2, b_host = mk_Path ''/h'', b_guest = mk_Path ''/x'', need_substitution = True\<rparr>"

definition ex_fs :: FileSystemNameSpace where
  "ex_fs = \<lparr>fs_pending = None, fs_guest = Some [x_binding, root_binding],
     fs_host = Some [x_binding, root_binding], fs_cwd = ''/x''\<rparr>"

definition ex_tracee :: Tracee where
  "ex_tracee = \<lparr>t_pid = 42, t_exe = ''/bin/sh'', t_fs = ex_fs, t_glue_type = 0, t_glue = None\<rparr>"

definition ex_env :: "unit Env" where
  "ex_env = \<lparr>h_lstat = (\<lambda>w p. Inr S_IFDIR), h_readlink = (\<lambda>w p. Err EINVAL),
     h_realpath = (\<lambda>w p. Inr p), h_getcwd = (\<lambda>w. Inr ''/''), h_listdir = (\<lambda>w p. None),
     h_mkdir = (\<lambda>w p m. (None, w)), h_mknod = (\<lambda>w p m. (None, w)),
     h_create_temp_directory = (\<lambda>w. (Some ''/tmp'', w)), h_getenv = (\<lambda>s. None),
     h_skip_f2fs = (\<lambda>w p. (False, w)), h_max_symlinks = 40,
     x_guest_path = (\<lambda>w p u. (Inr 0, p, w)), x_host_path = (\<lambda>w p b. (Inr 0, p, w)),
     x_translated_path = (\<lambda>w p. (Inr 0, p, w)), e_tracees = []\<rparr>"

lemma ex_comps [simp]:
  "valid_comp ''r''" "valid_comp ''x''" "valid_comp ''h''" "valid_comp ''a''" "valid_comp ''tmp''"
  by (simp_all add: valid_comp_def NUL_def)

lemma ex_canonical [simp]:
  "canonical ''/r''" "canonical ''/x''" "canonical ''/h''" "canonical ''/x/a''" "canonical ''/h/a''"
  "canonical ''/r/a''" "canonical ''/tmp''" "canonical ''/a''"
  using canonicalI[of "[''r'']"] canonicalI[of "[''x'']"] canonicalI[of "[''h'']"]
    canonicalI[of "[''x'', ''a'']"] canonicalI[of "[''h'', ''a'']"] canonicalI[of "[''r'', ''a'']"]
    canonicalI[of "[''tmp'']"] canonicalI[of "[''a'']"]
  by simp_all

lemma ex_wf_Path [simp]:
  "wf_Path (mk_Path ''/r'')" "wf_Path (mk_Path ''/x'')" "wf_Path (mk_Path ''/h'')" "wf_Path (mk_Path ''/'')"
  by (simp_all add: wf_Path_def mk_Path_def PATH_MAX_def)

lemma ex_fields [simp]:
  "b_addr root_binding = 1" "b_addr x_binding = 2" "b_host root_binding = mk_Path ''/r''"
  "b_host x_binding = mk_Path ''/h''" "b_guest root_binding = mk_Path ''/''"
  "b_guest x_binding = mk_Path ''/x''" "path_str (mk_Path s) = s" "path_len (mk_Path s) = length s"
  by (simp_all add: root_binding_def x_binding_def mk_Path_def)

lemma ex_compare [simp]:
  "compare_paths ''/x'' ''/'' = PATH2_IS_PREFIX" "compare_paths ''/h'' ''/r'' = PATHS_ARE_NOT_COMPARABLE"
  by (simp_all add: compare_paths_def compare_paths2_def char_at_def NUL_def)

lemma ex_wf_fs [simp]: "wf_fs ex_fs"
  by (simp add: wf_fs_def ex_fs_def x_binding_def root_binding_def wf_binding_def host_key_def
      guest_key_def nested_def)

lemma ex_tracee_ok [simp]: "tracee_ok ex_tracee"
  by (simp add: tracee_ok_def ex_tracee_def text_ok_def NUL_def) (simp add: ex_fs_def)

lemma ex_env_ok [simp]: "env_ok ex_env"
  by (simp add: env_ok_def ex_env_def PATH_MAX_def)

lemma ex_no_extension [simp]: "no_extension ex_env"
  by (simp add: no_extension_def ex_env_def)

lemma ex_all_directories [simp]: "all_directories ex_env"
  by (simp add: all_directories_def ex_env_def S_ISDIR_def S_IFDIR_def S_IFMT_def)

lemma ex_translate:
  "translate_path ex_env ex_tracee () AT_FDCWD ''/x/./b/../a/'' True = (Inr ''/h/a/'', ex_tracee, ())"
  by code_simp

lemma ex_canonicalize:
  "canonicalize ex_env ''/x/./b/../a/'' True ''/'' 0 ex_tracee () = (Inr ''/x/a/'', ex_tracee, ())"
  by code_simp

end
