(* ===== verification/Path_Properties.thy ===== *)
theory Path_Properties
  imports Example
begin

section \<open>Properties of the path translation\<close>

text \<open>
  The promises of path/*.c, each with an instance on the small guest of \<open>Example\<close> where it has
  hypotheses.
\<close>

subsection \<open>Translation\<close>

text \<open>
  C1. Containment of \<open>translate_path\<close>: whatever the user path, the links and the contents of the
  host are, the host path that comes out lies below the host side of the deepest binding of its
  guest path, component-wise and without dots; the one exception is a substitution that exceeds
  PATH_MAX, where the guest path is left as it is.  The tracee stays well formed.
\<close>

theorem translate_path_contained:
  assumes "env_ok E" and "no_extension E" and "tracee_ok t" and "NUL \<notin> set user"
    and "translate_path E t w fd user deref = (Inr q, t', w')"
  shows "tracee_ok t' \<and> placed (t_fs t') q"
  using assms by (rule translate_path_placed)

theorem translate_path_contained_witness:
  "tracee_ok ex_tracee \<and> placed (t_fs ex_tracee) ''/h/a/''"
  using translate_path_contained[OF ex_env_ok ex_no_extension ex_tracee_ok _ ex_translate]
  by (simp add: NUL_def)

text \<open>
  C2. Containment of \<open>canonicalize\<close>, at the first level, for every content of the host file
  system: the result is a canonical guest path that fits, possibly followed by the ending the
  user's path asked for; a link or a ''..'' never leads above the root, and the glue built on
  the way keeps the tracee well formed.
\<close>

theorem canonicalize_stays_in_guest:
  assumes "env_ok E" and "text_ok path" and "path_ok base" and "tracee_ok t"
    and "canonicalize E path deref base 0 t w = (r, t', w')"
  shows "tracee_ok t' \<and>
    (\<forall>q. r = Inr q \<longrightarrow>
      (\<exists>cs f. valid_comps cs \<and> length (path_of cs) < PATH_MAX \<and> q = with_finality cs f))"
  using assms by (rule canonicalize_contained)

theorem canonicalize_stays_in_guest_witness:
  "\<exists>cs f. valid_comps cs \<and> ''/x/a/'' = with_finality cs f"
  using canonicalize_stays_in_guest[OF ex_env_ok _ _ ex_tracee_ok ex_canonicalize]
  by (auto simp: text_ok_def path_ok_def NUL_def PATH_MAX_def)

text \<open>
  C3. Functional behaviour of \<open>canonicalize\<close> where every component is a directory: it computes
  the lexical normalization of the component list, with the ending of the user's path, and is
  ENAMETOOLONG exactly where an intermediate path does not fit.
\<close>

theorem canonicalize_normalizes:
  assumes "all_directories E" and "tracee_ok t" and "us \<noteq> []" and "\<forall>u \<in> set us. user_comp u"
    and "length base < PATH_MAX"
  shows "canonicalize E (typed_path us slash) deref base 0 t w =
    (case normalize_comps [] us of
       None \<Rightarrow> Err ENAMETOOLONG
     | Some cs \<Rightarrow> restore_finality 0 (path_of cs) (Some (typed_finality us slash)), t, w)"
  using assms by (rule canonicalize_directories)

theorem canonicalize_normalizes_witness:
  "canonicalize ex_env (typed_path [''x'', ''.'', ''b'', ''..'', ''a''] True) True ''/'' 0 ex_tracee () =
    (Inr ''/x/a/'', ex_tracee, ())"
  using canonicalize_normalizes[OF ex_all_directories ex_tracee_ok,
      of "[''x'', ''.'', ''b'', ''..'', ''a'']" "''/''" True True "()"]
  by (simp add: user_comp_def NUL_def NAME_MAX_def PATH_MAX_def typed_finality_def end_finality_def
      restore_finality_def join2_eq sep_join_def)





text \<open>
  C6. Without a referrer, \<open>detranslate_path\<close> refuses (EPERM) exactly the host paths that neither
  the guest root nor a binding covers.
\<close>

theorem detranslate_refuses_outside:
  assumes "wf_fs (t_fs t)" and "canonical p" and "length p < PATH_MAX"
  shows "detranslate_path ts t p None = Err EPERM \<longleftrightarrow> reverse_binding (t_fs t) p = None"
  using assms by (rule detranslate_path_refused)

theorem detranslate_refuses_outside_witness:
  "detranslate_path [] ex_tracee ''/a'' None = Err EPERM"
proof -
  have "reverse_binding (t_fs ex_tracee) ''/a'' = None" by code_simp
  then show ?thesis
    using detranslate_refuses_outside[of ex_tracee "''/a''" "[]"]
    by (simp add: ex_tracee_def PATH_MAX_def)
qed

subsection \<open>Bindings\<close>

text \<open>
  C7. \<open>initialize_bindings\<close> establishes the invariant of the name-space from the pending list:
  both lists sorted with the deepest bindings first, unique guest locations, the root present;
  the pending list is gone.
\<close>

theorem initialize_bindings_establishes:
  assumes "env_ok E" and "fs_pending (t_fs t) = Some (bs @ [root])"
    and "guest_key root = ''/''" and "wf_Path (b_host root)"
    and "\<forall>b \<in> set bs. pending_ok E b \<and> wf_Path (b_host b)"
    and "distinct (map b_addr (bs @ [root]))"
    and "text_ok (t_exe t)" and "text_ok (fs_cwd (t_fs t))"
    and "\<forall>g. t_glue t = Some g \<longrightarrow> canonical g \<and> length g < PATH_MAX"
    and "initialize_bindings E t w = Inr (t', w')"
  shows "tracee_ok t' \<and> fs_pending (t_fs t') = None"
  using assms by (rule initialize_bindings_ok)

definition ex_pending :: "Binding list" where
  "ex_pending = [x_binding\<lparr>b_guest := mk_Path ''/a''\<rparr>, root_binding]"

definition ex_start :: Tracee where
  "ex_start = ex_tracee\<lparr>t_fs := \<lparr>fs_pending = Some ex_pending, fs_guest = None, fs_host = None, fs_cwd = ''/''\<rparr>\<rparr>"

lemma ex_pending_ok: "pending_ok ex_env (x_binding\<lparr>b_guest := mk_Path ''/a''\<rparr>)"
proof -
  have "canonicalize ex_env ''/a'' d ''/'' 0 t w = (Inr ''/a'', t, w)" if "tracee_ok t" for d t w
    using canonicalize_directories[OF ex_all_directories that, of "[''a'']" "''/''" False d w]
    by (simp add: typed_path_def user_comp_def NUL_def NAME_MAX_def PATH_MAX_def typed_finality_def
        end_finality_def restore_finality_def)
  then show ?thesis
    by (auto simp: pending_ok_def path_ok_def text_ok_def asked_path_def guest_key_def host_key_def
        x_binding_def mk_Path_def NUL_def PATH_MAX_def well_ended_def)
qed

theorem initialize_bindings_establishes_witness:
  "\<exists>t'. initialize_bindings ex_env ex_start () = Inr (t', ()) \<and> tracee_ok t'"
proof -
  have "case initialize_bindings ex_env ex_start () of Inr _ \<Rightarrow> True | Inl _ \<Rightarrow> False"
    by code_simp
  then obtain t' where r: "initialize_bindings ex_env ex_start () = Inr (t', ())"
    by (auto split: sum.splits)
  have "fs_pending (t_fs ex_start) = Some ([x_binding\<lparr>b_guest := mk_Path ''/a''\<rparr>] @ [root_binding])"
    by (simp add: ex_start_def ex_pending_def)
  from initialize_bindings_establishes[OF ex_env_ok this _ _ _ _ _ _ _ r] ex_pending_ok show ?thesis
    using r by (simp add: guest_key_def ex_start_def ex_tracee_def text_ok_def NUL_def)
qed

text \<open>
  C8. The sorted insertion \<open>insort_binding2\<close> keeps the invariant, and replaces at most the
  binding at the same guest location.
\<close>

theorem insort_binding2_keeps_order:
  assumes "wf_fs fs" and "wf_Path (b_host b)" and "wf_Path (b_guest b)"
    and "\<forall>x \<in> set (foreach fs GUEST). b_addr x \<noteq> b_addr b"
  shows "wf_fs (insort_binding2 fs b) \<and>
    (\<exists>b'. guest_key b' = guest_key b \<and> host_key b' = host_key b \<and> b_addr b' = b_addr b \<and>
      set (foreach (insort_binding2 fs b) GUEST) =
        insert b' {x \<in> set (foreach fs GUEST). guest_key x \<noteq> guest_key b})"
  using insort_binding2_wf_fs[OF assms] by blast

definition ex_new :: Binding where
  "ex_new = \<lparr>b_addr = 3, b_host = mk_Path ''/h/a'', b_guest = mk_Path ''/x/a'', need_substitution = False\<rparr>"

theorem insort_binding2_keeps_order_witness:
  "wf_fs (insort_binding2 ex_fs ex_new)"
  using insort_binding2_keeps_order[of ex_fs ex_new]
  by (simp add: ex_new_def wf_Path_def PATH_MAX_def)
    (simp add: mk_Path_def ex_fs_def x_binding_def root_binding_def foreach_def HEAD_def)

text \<open>
  C9. The look-up on the guest side always succeeds on a canonical path, and yields the deepest
  binding that covers it.
\<close>

theorem guest_lookup_deepest:
  assumes "wf_fs fs" and "canonical p"
  shows "\<exists>b \<in> bindings_of fs. get_binding fs GUEST p = Some b \<and> covers compare_paths (guest_key b) p
    \<and> (\<forall>y \<in> bindings_of fs. covers compare_paths (guest_key y) p \<longrightarrow>
          covers compare_paths (guest_key y) (guest_key b))"
  using assms by (rule get_binding_GUEST_deepest)

theorem guest_lookup_deepest_witness:
  "\<exists>b \<in> bindings_of ex_fs. get_binding ex_fs GUEST ''/x/a'' = Some b"
  using guest_lookup_deepest[of ex_fs "''/x/a''"] by auto

text \<open>
  What the look-up on the host side yields is a deepest binding that covers the path.
\<close>

theorem host_lookup_deepest:
  assumes "wf_fs fs" and "canonical p" and "get_binding fs HOST p = Some b"
  shows "b \<in> bindings_of fs \<and> covers compare_paths (host_key b) p
    \<and> (\<forall>y \<in> bindings_of fs. covers compare_paths (host_key y) p \<longrightarrow>
          covers compare_paths (host_key y) (host_key b))"
  using assms by (rule get_binding_HOST_deepest)

theorem host_lookup_deepest_witness:
  "x_binding \<in> bindings_of ex_fs \<and> covers compare_paths (host_key x_binding) ''/h/a''"
proof -
  have "get_binding ex_fs HOST ''/h/a'' = Some x_binding" by code_simp
  then show ?thesis using host_lookup_deepest[of ex_fs "''/h/a''" x_binding] by simp
qed

text \<open>
  Substitution round trip: a guest path that was really substituted, and whose host path
  looks up the same binding, is given back by the substitution in the other direction.
\<close>

theorem substitution_round_trip:
  assumes "wf_fs fs" and "canonical p" and "length p + 1 < PATH_MAX"
    and "get_binding fs GUEST p = Some b" and "substitute_binding fs GUEST p = Inr (n, q)"
    and "n = 1 \<Longrightarrow> q \<noteq> p" and "get_binding fs HOST q = Some b"
  shows "substitute_binding fs HOST q = Inr (n, p)"
  using assms by (rule substitute_binding_roundtrip)

theorem substitution_round_trip_witness:
  "substitute_binding ex_fs HOST ''/h/a'' = Inr (1, ''/x/a'')"
proof -
  have "get_binding ex_fs GUEST ''/x/a'' = Some x_binding" by code_simp
  moreover have "substitute_binding ex_fs GUEST ''/x/a'' = Inr (1, ''/h/a'')" by code_simp
  moreover have "get_binding ex_fs HOST ''/h/a'' = Some x_binding" by code_simp
  ultimately show ?thesis
    using substitution_round_trip[of ex_fs "''/x/a''" x_binding 1 "''/h/a''"]
    by (simp add: PATH_MAX_def)
qed

text \<open>
  Where the canonicalization of a binding fails, \<open>initialize_binding\<close> returns normally without
  resetting the type of the glue, which stays the one of that binding.
\<close>

theorem failed_binding_keeps_glue_type:
  assumes "text_ok (guest_key b)" and "guest_key b \<noteq> ''/''"
    and "canonicalize E (asked_path b) (last (guest_key b) \<noteq> CHR ''!'') ''/'' 0
      (t\<lparr>t_glue_type := glue_type_of (h_lstat E w (host_key b))\<rparr>) w = (Err e, t', w')"
  shows "initialize_binding E t w b = Inr (t', w')
    \<and> t_glue_type t' = glue_type_of (h_lstat E w (host_key b))"
  using assms by (rule initialize_binding_failed)


definition ex_long :: string where
  "ex_long = CHR ''/'' # replicate 255 CHR ''a''"

theorem failed_binding_keeps_glue_type_witness:
  "\<exists>t' w'. initialize_binding ex_env ex_tracee () (x_binding\<lparr>b_guest := mk_Path ex_long\<rparr>) = Inr (t', w')
    \<and> t_glue_type t' = S_IFDIR"
proof -
  let ?b = "x_binding\<lparr>b_guest := mk_Path ex_long\<rparr>"
  have key: "guest_key ?b = ex_long" "asked_path ?b = ex_long" "last ex_long = CHR ''a''"
    by (simp_all add: guest_key_def asked_path_def mk_Path_def ex_long_def)
  have type: "glue_type_of (h_lstat ex_env () (host_key ?b)) = S_IFDIR"
    by (simp add: glue_type_of_def ex_env_def S_IFDIR_def S_IFMT_def S_IFBLK_def S_IFCHR_def)
  have "next_component ex_long = Err ENAMETOOLONG"
    by (simp add: next_component_def ex_long_def takeWhile_replicate NAME_MAX_def)
  then have "canonicalize ex_env ex_long True ''/'' 0 t () = (Err ENAMETOOLONG, t, ())" for t
    by (simp add: canonicalize_def PATH_MAX_def ex_long_def canon_loop.simps)
  then show ?thesis
    using failed_binding_keeps_glue_type[where b = ?b and E = ex_env and t = ex_tracee and w = "()"
        and e = ENAMETOOLONG] key type
    by (simp add: text_ok_def ex_long_def NUL_def)
qed

end
