(* ===== verification/Sysnum_Tables.thy ===== *)
theory Sysnum_Tables
  imports Prelude
begin

section \<open>System call numbers\<close>

text \<open>
  The enumeration \<open>Sysnum\<close> (syscall/sysnum.h, from syscall/sysnums.list), whose values are natural
  numbers here, \<open>PR_void\<close> being 0, the names of its items in the order of the list, and the two
  tables an arm64 build includes: syscall/sysnums-arm64.h and syscall/sysnums-arm.h.
\<close>

subsection \<open>The enumeration\<close>

abbreviation (input) PR_void :: nat where "PR_void \<equiv> 0"

abbreviation (input) PR_ARM_BASE :: nat where "PR_ARM_BASE \<equiv> Suc 0"
abbreviation (input) PR_ARM_breakpoint :: nat where "PR_ARM_breakpoint \<equiv> 2"
abbreviation (input) PR_ARM_cacheflush :: nat where "PR_ARM_cacheflush \<equiv> 3"
abbreviation (input) PR_ARM_set_tls :: nat where "PR_ARM_set_tls \<equiv> 4"
abbreviation (input) PR_ARM_usr26 :: nat where "PR_ARM_usr26 \<equiv> 5"
abbreviation (input) PR_ARM_usr32 :: nat where "PR_ARM_usr32 \<equiv> 6"
abbreviation (input) PR_X32_SYSCALL_BIT :: nat where "PR_X32_SYSCALL_BIT \<equiv> 7"
abbreviation (input) PR__llseek :: nat where "PR__llseek \<equiv> 8"
abbreviation (input) PR__newselect :: nat where "PR__newselect \<equiv> 9"
abbreviation (input) PR__sysctl :: nat where "PR__sysctl \<equiv> 10"
abbreviation (input) PR_accept :: nat where "PR_accept \<equiv> 11"
abbreviation (input) PR_accept4 :: nat where "PR_accept4 \<equiv> 12"
abbreviation (input) PR_access :: nat where "PR_access \<equiv> 13"
abbreviation (input) PR_acct :: nat where "PR_acct \<equiv> 14"
abbreviation (input) PR_add_key :: nat where "PR_add_key \<equiv> 15"
abbreviation (input) PR_adjtimex :: nat where "PR_adjtimex \<equiv> 16"
abbreviation (input) PR_afs_syscall :: nat where "PR_afs_syscall \<equiv> 17"
abbreviation (input) PR_alarm :: nat where "PR_alarm \<equiv> 18"
abbreviation (input) PR_arch_prctl :: nat where "PR_arch_prctl \<equiv> 19"
abbreviation (input) PR_arch_specific_syscall :: nat where "PR_arch_specific_syscall \<equiv> 20"
abbreviation (input) PR_arm_fadvise64_64 :: nat where "PR_arm_fadvise64_64 \<equiv> 21"
abbreviation (input) PR_arm_sync_file_range :: nat where "PR_arm_sync_file_range \<equiv> 22"
abbreviation (input) PR_bdflush :: nat where "PR_bdflush \<equiv> 23"
abbreviation (input) PR_bind :: nat where "PR_bind \<equiv> 24"
abbreviation (input) PR_bpf :: nat where "PR_bpf \<equiv> 25"
abbreviation (input) PR_break :: nat where "PR_break \<equiv> 26"
abbreviation (input) PR_brk :: nat where "PR_brk \<equiv> 27"
abbreviation (input) PR_cacheflush :: nat where "PR_cacheflush \<equiv> 28"
abbreviation (input) PR_capget :: nat where "PR_capget \<equiv> 29"
abbreviation (input) PR_capset :: nat where "PR_capset \<equiv> 30"
abbreviation (input) PR_chdir :: nat where "PR_chdir \<equiv> 31"
abbreviation (input) PR_chmod :: nat where "PR_chmod \<equiv> 32"
abbreviation (input) PR_chown :: nat where "PR_chown \<equiv> 33"
abbreviation (input) PR_chown32 :: nat where "PR_chown32 \<equiv> 34"
abbreviation (input) PR_chroot :: nat where "PR_chroot \<equiv> 35"
abbreviation (input) PR_clock_adjtime :: nat where "PR_clock_adjtime \<equiv> 36"
abbreviation (input) PR_clock_getres :: nat where "PR_clock_getres \<equiv> 37"
abbreviation (input) PR_clock_gettime :: nat where "PR_clock_gettime \<equiv> 38"
abbreviation (input) PR_clock_nanosleep :: nat where "PR_clock_nanosleep \<equiv> 39"
abbreviation (input) PR_clock_settime :: nat where "PR_clock_settime \<equiv> 40"
abbreviation (input) PR_clone :: nat where "PR_clone \<equiv> 41"
abbreviation (input) PR_clone3 :: nat where "PR_clone3 \<equiv> 42"
abbreviation (input) PR_close :: nat where "PR_close \<equiv> 43"
abbreviation (input) PR_connect :: nat where "PR_connect \<equiv> 44"
abbreviation (input) PR_copy_file_range :: nat where "PR_copy_file_range \<equiv> 45"
abbreviation (input) PR_creat :: nat where "PR_creat \<equiv> 46"
abbreviation (input) PR_create_module :: nat where "PR_create_module \<equiv> 47"
abbreviation (input) PR_delete_module :: nat where "PR_delete_module \<equiv> 48"
abbreviation (input) PR_dup :: nat where "PR_dup \<equiv> 49"
abbreviation (input) PR_dup2 :: nat where "PR_dup2 \<equiv> 50"
abbreviation (input) PR_dup3 :: nat where "PR_dup3 \<equiv> 51"
abbreviation (input) PR_epoll_create :: nat where "PR_epoll_create \<equiv> 52"
abbreviation (input) PR_epoll_create1 :: nat where "PR_epoll_create1 \<equiv> 53"
abbreviation (input) PR_epoll_ctl :: nat where "PR_epoll_ctl \<equiv> 54"
abbreviation (input) PR_epoll_ctl_old :: nat where "PR_epoll_ctl_old \<equiv> 55"
abbreviation (input) PR_epoll_pwait :: nat where "PR_epoll_pwait \<equiv> 56"
abbreviation (input) PR_epoll_wait :: nat where "PR_epoll_wait \<equiv> 57"
abbreviation (input) PR_epoll_wait_old :: nat where "PR_epoll_wait_old \<equiv> 58"
abbreviation (input) PR_eventfd :: nat where "PR_eventfd \<equiv> 59"
abbreviation (input) PR_eventfd2 :: nat where "PR_eventfd2 \<equiv> 60"
abbreviation (input) PR_execve :: nat where "PR_execve \<equiv> 61"
abbreviation (input) PR_execveat :: nat where "PR_execveat \<equiv> 62"
abbreviation (input) PR_exit :: nat where "PR_exit \<equiv> 63"
abbreviation (input) PR_exit_group :: nat where "PR_exit_group \<equiv> 64"
abbreviation (input) PR_faccessat :: nat where "PR_faccessat \<equiv> 65"
abbreviation (input) PR_faccessat2 :: nat where "PR_faccessat2 \<equiv> 66"
abbreviation (input) PR_fadvise64 :: nat where "PR_fadvise64 \<equiv> 67"
abbreviation (input) PR_fadvise64_64 :: nat where "PR_fadvise64_64 \<equiv> 68"
abbreviation (input) PR_fallocate :: nat where "PR_fallocate \<equiv> 69"
abbreviation (input) PR_fanotify_init :: nat where "PR_fanotify_init \<equiv> 70"
abbreviation (input) PR_fanotify_mark :: nat where "PR_fanotify_mark \<equiv> 71"
abbreviation (input) PR_fchdir :: nat where "PR_fchdir \<equiv> 72"
abbreviation (input) PR_fchmod :: nat where "PR_fchmod \<equiv> 73"
abbreviation (input) PR_fchmodat :: nat where "PR_fchmodat \<equiv> 74"
abbreviation (input) PR_fchown :: nat where "PR_fchown \<equiv> 75"
abbreviation (input) PR_fchown32 :: nat where "PR_fchown32 \<equiv> 76"
abbreviation (input) PR_fchownat :: nat where "PR_fchownat \<equiv> 77"
abbreviation (input) PR_fcntl :: nat where "PR_fcntl \<equiv> 78"
abbreviation (input) PR_fcntl64 :: nat where "PR_fcntl64 \<equiv> 79"
abbreviation (input) PR_fdatasync :: nat where "PR_fdatasync \<equiv> 80"
abbreviation (input) PR_fgetxattr :: nat where "PR_fgetxattr \<equiv> 81"
abbreviation (input) PR_finit_module :: nat where "PR_finit_module \<equiv> 82"
abbreviation (input) PR_flistxattr :: nat where "PR_flistxattr \<equiv> 83"
abbreviation (input) PR_flock :: nat where "PR_flock \<equiv> 84"
abbreviation (input) PR_fork :: nat where "PR_fork \<equiv> 85"
abbreviation (input) PR_fremovexattr :: nat where "PR_fremovexattr \<equiv> 86"
abbreviation (input) PR_fsetxattr :: nat where "PR_fsetxattr \<equiv> 87"
abbreviation (input) PR_fstat :: nat where "PR_fstat \<equiv> 88"
abbreviation (input) PR_fstat64 :: nat where "PR_fstat64 \<equiv> 89"
abbreviation (input) PR_fstatat64 :: nat where "PR_fstatat64 \<equiv> 90"
abbreviation (input) PR_fstatfs :: nat where "PR_fstatfs \<equiv> 91"
abbreviation (input) PR_fstatfs64 :: nat where "PR_fstatfs64 \<equiv> 92"
abbreviation (input) PR_fsync :: nat where "PR_fsync \<equiv> 93"
abbreviation (input) PR_ftime :: nat where "PR_ftime \<equiv> 94"
abbreviation (input) PR_ftruncate :: nat where "PR_ftruncate \<equiv> 95"
abbreviation (input) PR_ftruncate64 :: nat where "PR_ftruncate64 \<equiv> 96"
abbreviation (input) PR_futex :: nat where "PR_futex \<equiv> 97"
abbreviation (input) PR_futimesat :: nat where "PR_futimesat \<equiv> 98"
abbreviation (input) PR_get_kernel_syms :: nat where "PR_get_kernel_syms \<equiv> 99"
abbreviation (input) PR_get_mempolicy :: nat where "PR_get_mempolicy \<equiv> 100"
abbreviation (input) PR_get_robust_list :: nat where "PR_get_robust_list \<equiv> 101"
abbreviation (input) PR_get_thread_area :: nat where "PR_get_thread_area \<equiv> 102"
abbreviation (input) PR_getcpu :: nat where "PR_getcpu \<equiv> 103"
abbreviation (input) PR_getcwd :: nat where "PR_getcwd \<equiv> 104"
abbreviation (input) PR_getdents :: nat where "PR_getdents \<equiv> 105"
abbreviation (input) PR_getdents64 :: nat where "PR_getdents64 \<equiv> 106"
abbreviation (input) PR_getegid :: nat where "PR_getegid \<equiv> 107"
abbreviation (input) PR_getegid32 :: nat where "PR_getegid32 \<equiv> 108"
abbreviation (input) PR_geteuid :: nat where "PR_geteuid \<equiv> 109"
abbreviation (input) PR_geteuid32 :: nat where "PR_geteuid32 \<equiv> 110"
abbreviation (input) PR_getgid :: nat where "PR_getgid \<equiv> 111"
abbreviation (input) PR_getgid32 :: nat where "PR_getgid32 \<equiv> 112"
abbreviation (input) PR_getgroups :: nat where "PR_getgroups \<equiv> 113"
abbreviation (input) PR_getgroups32 :: nat where "PR_getgroups32 \<equiv> 114"
abbreviation (input) PR_getitimer :: nat where "PR_getitimer \<equiv> 115"
abbreviation (input) PR_getpeername :: nat where "PR_getpeername \<equiv> 116"
abbreviation (input) PR_getpgid :: nat where "PR_getpgid \<equiv> 117"
abbreviation (input) PR_getpgrp :: nat where "PR_getpgrp \<equiv> 118"
abbreviation (input) PR_getpid :: nat where "PR_getpid \<equiv> 119"
abbreviation (input) PR_getpmsg :: nat where "PR_getpmsg \<equiv> 120"
abbreviation (input) PR_getppid :: nat where "PR_getppid \<equiv> 121"
abbreviation (input) PR_getpriority :: nat where "PR_getpriority \<equiv> 122"
abbreviation (input) PR_getrandom :: nat where "PR_getrandom \<equiv> 123"
abbreviation (input) PR_getresgid :: nat where "PR_getresgid \<equiv> 124"
abbreviation (input) PR_getresgid32 :: nat where "PR_getresgid32 \<equiv> 125"
abbreviation (input) PR_getresuid :: nat where "PR_getresuid \<equiv> 126"
abbreviation (input) PR_getresuid32 :: nat where "PR_getresuid32 \<equiv> 127"
abbreviation (input) PR_getrlimit :: nat where "PR_getrlimit \<equiv> 128"
abbreviation (input) PR_getrusage :: nat where "PR_getrusage \<equiv> 129"
abbreviation (input) PR_getsid :: nat where "PR_getsid \<equiv> 130"
abbreviation (input) PR_getsockname :: nat where "PR_getsockname \<equiv> 131"
abbreviation (input) PR_getsockopt :: nat where "PR_getsockopt \<equiv> 132"
abbreviation (input) PR_gettid :: nat where "PR_gettid \<equiv> 133"
abbreviation (input) PR_gettimeofday :: nat where "PR_gettimeofday \<equiv> 134"
abbreviation (input) PR_getuid :: nat where "PR_getuid \<equiv> 135"
abbreviation (input) PR_getuid32 :: nat where "PR_getuid32 \<equiv> 136"
abbreviation (input) PR_getxattr :: nat where "PR_getxattr \<equiv> 137"
abbreviation (input) PR_gtty :: nat where "PR_gtty \<equiv> 138"
abbreviation (input) PR_idle :: nat where "PR_idle \<equiv> 139"
abbreviation (input) PR_init_module :: nat where "PR_init_module \<equiv> 140"
abbreviation (input) PR_inotify_add_watch :: nat where "PR_inotify_add_watch \<equiv> 141"
abbreviation (input) PR_inotify_init :: nat where "PR_inotify_init \<equiv> 142"
abbreviation (input) PR_inotify_init1 :: nat where "PR_inotify_init1 \<equiv> 143"
abbreviation (input) PR_inotify_rm_watch :: nat where "PR_inotify_rm_watch \<equiv> 144"
abbreviation (input) PR_io_cancel :: nat where "PR_io_cancel \<equiv> 145"
abbreviation (input) PR_io_destroy :: nat where "PR_io_destroy \<equiv> 146"
abbreviation (input) PR_io_getevents :: nat where "PR_io_getevents \<equiv> 147"
abbreviation (input) PR_io_setup :: nat where "PR_io_setup \<equiv> 148"
abbreviation (input) PR_io_submit :: nat where "PR_io_submit \<equiv> 149"
abbreviation (input) PR_ioctl :: nat where "PR_ioctl \<equiv> 150"
abbreviation (input) PR_ioperm :: nat where "PR_ioperm \<equiv> 151"
abbreviation (input) PR_iopl :: nat where "PR_iopl \<equiv> 152"
abbreviation (input) PR_ioprio_get :: nat where "PR_ioprio_get \<equiv> 153"
abbreviation (input) PR_ioprio_set :: nat where "PR_ioprio_set \<equiv> 154"
abbreviation (input) PR_ipc :: nat where "PR_ipc \<equiv> 155"
abbreviation (input) PR_kcmp :: nat where "PR_kcmp \<equiv> 156"
abbreviation (input) PR_kexec_file_load :: nat where "PR_kexec_file_load \<equiv> 157"
abbreviation (input) PR_kexec_load :: nat where "PR_kexec_load \<equiv> 158"
abbreviation (input) PR_keyctl :: nat where "PR_keyctl \<equiv> 159"
abbreviation (input) PR_kill :: nat where "PR_kill \<equiv> 160"
abbreviation (input) PR_lchown :: nat where "PR_lchown \<equiv> 161"
abbreviation (input) PR_lchown32 :: nat where "PR_lchown32 \<equiv> 162"
abbreviation (input) PR_lgetxattr :: nat where "PR_lgetxattr \<equiv> 163"
abbreviation (input) PR_link :: nat where "PR_link \<equiv> 164"
abbreviation (input) PR_linkat :: nat where "PR_linkat \<equiv> 165"
abbreviation (input) PR_listen :: nat where "PR_listen \<equiv> 166"
abbreviation (input) PR_listxattr :: nat where "PR_listxattr \<equiv> 167"
abbreviation (input) PR_llistxattr :: nat where "PR_llistxattr \<equiv> 168"
abbreviation (input) PR_lock :: nat where "PR_lock \<equiv> 169"
abbreviation (input) PR_lookup_dcookie :: nat where "PR_lookup_dcookie \<equiv> 170"
abbreviation (input) PR_lremovexattr :: nat where "PR_lremovexattr \<equiv> 171"
abbreviation (input) PR_lseek :: nat where "PR_lseek \<equiv> 172"
abbreviation (input) PR_lsetxattr :: nat where "PR_lsetxattr \<equiv> 173"
abbreviation (input) PR_lstat :: nat where "PR_lstat \<equiv> 174"
abbreviation (input) PR_lstat64 :: nat where "PR_lstat64 \<equiv> 175"
abbreviation (input) PR_madvise :: nat where "PR_madvise \<equiv> 176"
abbreviation (input) PR_mbind :: nat where "PR_mbind \<equiv> 177"
abbreviation (input) PR_membarrier :: nat where "PR_membarrier \<equiv> 178"
abbreviation (input) PR_memfd_create :: nat where "PR_memfd_create \<equiv> 179"
abbreviation (input) PR_migrate_pages :: nat where "PR_migrate_pages \<equiv> 180"
abbreviation (input) PR_mincore :: nat where "PR_mincore \<equiv> 181"
abbreviation (input) PR_mkdir :: nat where "PR_mkdir \<equiv> 182"
abbreviation (input) PR_mkdirat :: nat where "PR_mkdirat \<equiv> 183"
abbreviation (input) PR_mknod :: nat where "PR_mknod \<equiv> 184"
abbreviation (input) PR_mknodat :: nat where "PR_mknodat \<equiv> 185"
abbreviation (input) PR_mlock :: nat where "PR_mlock \<equiv> 186"
abbreviation (input) PR_mlock2 :: nat where "PR_mlock2 \<equiv> 187"
abbreviation (input) PR_mlockall :: nat where "PR_mlockall \<equiv> 188"
abbreviation (input) PR_mmap :: nat where "PR_mmap \<equiv> 189"
abbreviation (input) PR_mmap2 :: nat where "PR_mmap2 \<equiv> 190"
abbreviation (input) PR_modify_ldt :: nat where "PR_modify_ldt \<equiv> 191"
abbreviation (input) PR_mount :: nat where "PR_mount \<equiv> 192"
abbreviation (input) PR_move_pages :: nat where "PR_move_pages \<equiv> 193"
abbreviation (input) PR_mprotect :: nat where "PR_mprotect \<equiv> 194"
abbreviation (input) PR_mpx :: nat where "PR_mpx \<equiv> 195"
abbreviation (input) PR_mq_getsetattr :: nat where "PR_mq_getsetattr \<equiv> 196"
abbreviation (input) PR_mq_notify :: nat where "PR_mq_notify \<equiv> 197"
abbreviation (input) PR_mq_open :: nat where "PR_mq_open \<equiv> 198"
abbreviation (input) PR_mq_timedreceive :: nat where "PR_mq_timedreceive \<equiv> 199"
abbreviation (input) PR_mq_timedsend :: nat where "PR_mq_timedsend \<equiv> 200"
abbreviation (input) PR_mq_unlink :: nat where "PR_mq_unlink \<equiv> 201"
abbreviation (input) PR_mremap :: nat where "PR_mremap \<equiv> 202"
abbreviation (input) PR_msgctl :: nat where "PR_msgctl \<equiv> 203"
abbreviation (input) PR_msgget :: nat where "PR_msgget \<equiv> 204"
abbreviation (input) PR_msgrcv :: nat where "PR_msgrcv \<equiv> 205"
abbreviation (input) PR_msgsnd :: nat where "PR_msgsnd \<equiv> 206"
abbreviation (input) PR_msync :: nat where "PR_msync \<equiv> 207"
abbreviation (input) PR_munlock :: nat where "PR_munlock \<equiv> 208"
abbreviation (input) PR_munlockall :: nat where "PR_munlockall \<equiv> 209"
abbreviation (input) PR_munmap :: nat where "PR_munmap \<equiv> 210"
abbreviation (input) PR_name_to_handle_at :: nat where "PR_name_to_handle_at \<equiv> 211"
abbreviation (input) PR_nanosleep :: nat where "PR_nanosleep \<equiv> 212"
abbreviation (input) PR_newfstatat :: nat where "PR_newfstatat \<equiv> 213"
abbreviation (input) PR_nfsservctl :: nat where "PR_nfsservctl \<equiv> 214"
abbreviation (input) PR_nice :: nat where "PR_nice \<equiv> 215"
abbreviation (input) PR_oldfstat :: nat where "PR_oldfstat \<equiv> 216"
abbreviation (input) PR_oldlstat :: nat where "PR_oldlstat \<equiv> 217"
abbreviation (input) PR_oldolduname :: nat where "PR_oldolduname \<equiv> 218"
abbreviation (input) PR_oldstat :: nat where "PR_oldstat \<equiv> 219"
abbreviation (input) PR_olduname :: nat where "PR_olduname \<equiv> 220"
abbreviation (input) PR_open :: nat where "PR_open \<equiv> 221"
abbreviation (input) PR_open_by_handle_at :: nat where "PR_open_by_handle_at \<equiv> 222"
abbreviation (input) PR_openat :: nat where "PR_openat \<equiv> 223"
abbreviation (input) PR_openat2 :: nat where "PR_openat2 \<equiv> 224"
abbreviation (input) PR_pause :: nat where "PR_pause \<equiv> 225"
abbreviation (input) PR_pciconfig_iobase :: nat where "PR_pciconfig_iobase \<equiv> 226"
abbreviation (input) PR_pciconfig_read :: nat where "PR_pciconfig_read \<equiv> 227"
abbreviation (input) PR_pciconfig_write :: nat where "PR_pciconfig_write \<equiv> 228"
abbreviation (input) PR_perf_event_open :: nat where "PR_perf_event_open \<equiv> 229"
abbreviation (input) PR_personality :: nat where "PR_personality \<equiv> 230"
abbreviation (input) PR_pipe :: nat where "PR_pipe \<equiv> 231"
abbreviation (input) PR_pipe2 :: nat where "PR_pipe2 \<equiv> 232"
abbreviation (input) PR_pivot_root :: nat where "PR_pivot_root \<equiv> 233"
abbreviation (input) PR_pkey_alloc :: nat where "PR_pkey_alloc \<equiv> 234"
abbreviation (input) PR_pkey_free :: nat where "PR_pkey_free \<equiv> 235"
abbreviation (input) PR_pkey_mprotect :: nat where "PR_pkey_mprotect \<equiv> 236"
abbreviation (input) PR_poll :: nat where "PR_poll \<equiv> 237"
abbreviation (input) PR_ppoll :: nat where "PR_ppoll \<equiv> 238"
abbreviation (input) PR_prctl :: nat where "PR_prctl \<equiv> 239"
abbreviation (input) PR_pread64 :: nat where "PR_pread64 \<equiv> 240"
abbreviation (input) PR_preadv :: nat where "PR_preadv \<equiv> 241"
abbreviation (input) PR_preadv2 :: nat where "PR_preadv2 \<equiv> 242"
abbreviation (input) PR_prlimit64 :: nat where "PR_prlimit64 \<equiv> 243"
abbreviation (input) PR_process_vm_readv :: nat where "PR_process_vm_readv \<equiv> 244"
abbreviation (input) PR_process_vm_writev :: nat where "PR_process_vm_writev \<equiv> 245"
abbreviation (input) PR_prof :: nat where "PR_prof \<equiv> 246"
abbreviation (input) PR_profil :: nat where "PR_profil \<equiv> 247"
abbreviation (input) PR_pselect6 :: nat where "PR_pselect6 \<equiv> 248"
abbreviation (input) PR_ptrace :: nat where "PR_ptrace \<equiv> 249"
abbreviation (input) PR_putpmsg :: nat where "PR_putpmsg \<equiv> 250"
abbreviation (input) PR_pwrite64 :: nat where "PR_pwrite64 \<equiv> 251"
abbreviation (input) PR_pwritev :: nat where "PR_pwritev \<equiv> 252"
abbreviation (input) PR_pwritev2 :: nat where "PR_pwritev2 \<equiv> 253"
abbreviation (input) PR_query_module :: nat where "PR_query_module \<equiv> 254"
abbreviation (input) PR_quotactl :: nat where "PR_quotactl \<equiv> 255"
abbreviation (input) PR_read :: nat where "PR_read \<equiv> 256"
abbreviation (input) PR_readahead :: nat where "PR_readahead \<equiv> 257"
abbreviation (input) PR_readdir :: nat where "PR_readdir \<equiv> 258"
abbreviation (input) PR_readlink :: nat where "PR_readlink \<equiv> 259"
abbreviation (input) PR_readlinkat :: nat where "PR_readlinkat \<equiv> 260"
abbreviation (input) PR_readv :: nat where "PR_readv \<equiv> 261"
abbreviation (input) PR_reboot :: nat where "PR_reboot \<equiv> 262"
abbreviation (input) PR_recv :: nat where "PR_recv \<equiv> 263"
abbreviation (input) PR_recvfrom :: nat where "PR_recvfrom \<equiv> 264"
abbreviation (input) PR_recvmmsg :: nat where "PR_recvmmsg \<equiv> 265"
abbreviation (input) PR_recvmsg :: nat where "PR_recvmsg \<equiv> 266"
abbreviation (input) PR_remap_file_pages :: nat where "PR_remap_file_pages \<equiv> 267"
abbreviation (input) PR_removexattr :: nat where "PR_removexattr \<equiv> 268"
abbreviation (input) PR_rename :: nat where "PR_rename \<equiv> 269"
abbreviation (input) PR_renameat :: nat where "PR_renameat \<equiv> 270"
abbreviation (input) PR_renameat2 :: nat where "PR_renameat2 \<equiv> 271"
abbreviation (input) PR_request_key :: nat where "PR_request_key \<equiv> 272"
abbreviation (input) PR_restart_syscall :: nat where "PR_restart_syscall \<equiv> 273"
abbreviation (input) PR_rmdir :: nat where "PR_rmdir \<equiv> 274"
abbreviation (input) PR_rt_sigaction :: nat where "PR_rt_sigaction \<equiv> 275"
abbreviation (input) PR_rt_sigpending :: nat where "PR_rt_sigpending \<equiv> 276"
abbreviation (input) PR_rt_sigprocmask :: nat where "PR_rt_sigprocmask \<equiv> 277"
abbreviation (input) PR_rt_sigqueueinfo :: nat where "PR_rt_sigqueueinfo \<equiv> 278"
abbreviation (input) PR_rt_sigreturn :: nat where "PR_rt_sigreturn \<equiv> 279"
abbreviation (input) PR_rt_sigsuspend :: nat where "PR_rt_sigsuspend \<equiv> 280"
abbreviation (input) PR_rt_sigtimedwait :: nat where "PR_rt_sigtimedwait \<equiv> 281"
abbreviation (input) PR_rt_tgsigqueueinfo :: nat where "PR_rt_tgsigqueueinfo \<equiv> 282"
abbreviation (input) PR_sched_get_priority_max :: nat where "PR_sched_get_priority_max \<equiv> 283"
abbreviation (input) PR_sched_get_priority_min :: nat where "PR_sched_get_priority_min \<equiv> 284"
abbreviation (input) PR_sched_getaffinity :: nat where "PR_sched_getaffinity \<equiv> 285"
abbreviation (input) PR_sched_getattr :: nat where "PR_sched_getattr \<equiv> 286"
abbreviation (input) PR_sched_getparam :: nat where "PR_sched_getparam \<equiv> 287"
abbreviation (input) PR_sched_getscheduler :: nat where "PR_sched_getscheduler \<equiv> 288"
abbreviation (input) PR_sched_rr_get_interval :: nat where "PR_sched_rr_get_interval \<equiv> 289"
abbreviation (input) PR_sched_setaffinity :: nat where "PR_sched_setaffinity \<equiv> 290"
abbreviation (input) PR_sched_setattr :: nat where "PR_sched_setattr \<equiv> 291"
abbreviation (input) PR_sched_setparam :: nat where "PR_sched_setparam \<equiv> 292"
abbreviation (input) PR_sched_setscheduler :: nat where "PR_sched_setscheduler \<equiv> 293"
abbreviation (input) PR_sched_yield :: nat where "PR_sched_yield \<equiv> 294"
abbreviation (input) PR_seccomp :: nat where "PR_seccomp \<equiv> 295"
abbreviation (input) PR_security :: nat where "PR_security \<equiv> 296"
abbreviation (input) PR_select :: nat where "PR_select \<equiv> 297"
abbreviation (input) PR_semctl :: nat where "PR_semctl \<equiv> 298"
abbreviation (input) PR_semget :: nat where "PR_semget \<equiv> 299"
abbreviation (input) PR_semop :: nat where "PR_semop \<equiv> 300"
abbreviation (input) PR_semtimedop :: nat where "PR_semtimedop \<equiv> 301"
abbreviation (input) PR_send :: nat where "PR_send \<equiv> 302"
abbreviation (input) PR_sendfile :: nat where "PR_sendfile \<equiv> 303"
abbreviation (input) PR_sendfile64 :: nat where "PR_sendfile64 \<equiv> 304"
abbreviation (input) PR_sendmmsg :: nat where "PR_sendmmsg \<equiv> 305"
abbreviation (input) PR_sendmsg :: nat where "PR_sendmsg \<equiv> 306"
abbreviation (input) PR_sendto :: nat where "PR_sendto \<equiv> 307"
abbreviation (input) PR_set_mempolicy :: nat where "PR_set_mempolicy \<equiv> 308"
abbreviation (input) PR_set_robust_list :: nat where "PR_set_robust_list \<equiv> 309"
abbreviation (input) PR_set_thread_area :: nat where "PR_set_thread_area \<equiv> 310"
abbreviation (input) PR_set_tid_address :: nat where "PR_set_tid_address \<equiv> 311"
abbreviation (input) PR_setdomainname :: nat where "PR_setdomainname \<equiv> 312"
abbreviation (input) PR_setfsgid :: nat where "PR_setfsgid \<equiv> 313"
abbreviation (input) PR_setfsgid32 :: nat where "PR_setfsgid32 \<equiv> 314"
abbreviation (input) PR_setfsuid :: nat where "PR_setfsuid \<equiv> 315"
abbreviation (input) PR_setfsuid32 :: nat where "PR_setfsuid32 \<equiv> 316"
abbreviation (input) PR_setgid :: nat where "PR_setgid \<equiv> 317"
abbreviation (input) PR_setgid32 :: nat where "PR_setgid32 \<equiv> 318"
abbreviation (input) PR_setgroups :: nat where "PR_setgroups \<equiv> 319"
abbreviation (input) PR_setgroups32 :: nat where "PR_setgroups32 \<equiv> 320"
abbreviation (input) PR_sethostname :: nat where "PR_sethostname \<equiv> 321"
abbreviation (input) PR_setitimer :: nat where "PR_setitimer \<equiv> 322"
abbreviation (input) PR_setns :: nat where "PR_setns \<equiv> 323"
abbreviation (input) PR_setpgid :: nat where "PR_setpgid \<equiv> 324"
abbreviation (input) PR_setpriority :: nat where "PR_setpriority \<equiv> 325"
abbreviation (input) PR_setregid :: nat where "PR_setregid \<equiv> 326"
abbreviation (input) PR_setregid32 :: nat where "PR_setregid32 \<equiv> 327"
abbreviation (input) PR_setresgid :: nat where "PR_setresgid \<equiv> 328"
abbreviation (input) PR_setresgid32 :: nat where "PR_setresgid32 \<equiv> 329"
abbreviation (input) PR_setresuid :: nat where "PR_setresuid \<equiv> 330"
abbreviation (input) PR_setresuid32 :: nat where "PR_setresuid32 \<equiv> 331"
abbreviation (input) PR_setreuid :: nat where "PR_setreuid \<equiv> 332"
abbreviation (input) PR_setreuid32 :: nat where "PR_setreuid32 \<equiv> 333"
abbreviation (input) PR_setrlimit :: nat where "PR_setrlimit \<equiv> 334"
abbreviation (input) PR_setsid :: nat where "PR_setsid \<equiv> 335"
abbreviation (input) PR_setsockopt :: nat where "PR_setsockopt \<equiv> 336"
abbreviation (input) PR_settimeofday :: nat where "PR_settimeofday \<equiv> 337"
abbreviation (input) PR_setuid :: nat where "PR_setuid \<equiv> 338"
abbreviation (input) PR_setuid32 :: nat where "PR_setuid32 \<equiv> 339"
abbreviation (input) PR_setxattr :: nat where "PR_setxattr \<equiv> 340"
abbreviation (input) PR_sgetmask :: nat where "PR_sgetmask \<equiv> 341"
abbreviation (input) PR_shmat :: nat where "PR_shmat \<equiv> 342"
abbreviation (input) PR_shmctl :: nat where "PR_shmctl \<equiv> 343"
abbreviation (input) PR_shmdt :: nat where "PR_shmdt \<equiv> 344"
abbreviation (input) PR_shmget :: nat where "PR_shmget \<equiv> 345"
abbreviation (input) PR_shutdown :: nat where "PR_shutdown \<equiv> 346"
abbreviation (input) PR_sigaction :: nat where "PR_sigaction \<equiv> 347"
abbreviation (input) PR_sigaltstack :: nat where "PR_sigaltstack \<equiv> 348"
abbreviation (input) PR_signal :: nat where "PR_signal \<equiv> 349"
abbreviation (input) PR_signalfd :: nat where "PR_signalfd \<equiv> 350"
abbreviation (input) PR_signalfd4 :: nat where "PR_signalfd4 \<equiv> 351"
abbreviation (input) PR_sigpending :: nat where "PR_sigpending \<equiv> 352"
abbreviation (input) PR_sigprocmask :: nat where "PR_sigprocmask \<equiv> 353"
abbreviation (input) PR_sigreturn :: nat where "PR_sigreturn \<equiv> 354"
abbreviation (input) PR_sigsuspend :: nat where "PR_sigsuspend \<equiv> 355"
abbreviation (input) PR_socket :: nat where "PR_socket \<equiv> 356"
abbreviation (input) PR_socketcall :: nat where "PR_socketcall \<equiv> 357"
abbreviation (input) PR_socketpair :: nat where "PR_socketpair \<equiv> 358"
abbreviation (input) PR_splice :: nat where "PR_splice \<equiv> 359"
abbreviation (input) PR_ssetmask :: nat where "PR_ssetmask \<equiv> 360"
abbreviation (input) PR_stat :: nat where "PR_stat \<equiv> 361"
abbreviation (input) PR_stat64 :: nat where "PR_stat64 \<equiv> 362"
abbreviation (input) PR_statfs :: nat where "PR_statfs \<equiv> 363"
abbreviation (input) PR_statfs64 :: nat where "PR_statfs64 \<equiv> 364"
abbreviation (input) PR_statx :: nat where "PR_statx \<equiv> 365"
abbreviation (input) PR_stime :: nat where "PR_stime \<equiv> 366"
abbreviation (input) PR_stty :: nat where "PR_stty \<equiv> 367"
abbreviation (input) PR_swapoff :: nat where "PR_swapoff \<equiv> 368"
abbreviation (input) PR_swapon :: nat where "PR_swapon \<equiv> 369"
abbreviation (input) PR_symlink :: nat where "PR_symlink \<equiv> 370"
abbreviation (input) PR_symlinkat :: nat where "PR_symlinkat \<equiv> 371"
abbreviation (input) PR_sync :: nat where "PR_sync \<equiv> 372"
abbreviation (input) PR_sync_file_range :: nat where "PR_sync_file_range \<equiv> 373"
abbreviation (input) PR_sync_file_range2 :: nat where "PR_sync_file_range2 \<equiv> 374"
abbreviation (input) PR_syncfs :: nat where "PR_syncfs \<equiv> 375"
abbreviation (input) PR_sysfs :: nat where "PR_sysfs \<equiv> 376"
abbreviation (input) PR_sysinfo :: nat where "PR_sysinfo \<equiv> 377"
abbreviation (input) PR_syslog :: nat where "PR_syslog \<equiv> 378"
abbreviation (input) PR_tee :: nat where "PR_tee \<equiv> 379"
abbreviation (input) PR_tgkill :: nat where "PR_tgkill \<equiv> 380"
abbreviation (input) PR_time :: nat where "PR_time \<equiv> 381"
abbreviation (input) PR_timer_create :: nat where "PR_timer_create \<equiv> 382"
abbreviation (input) PR_timer_delete :: nat where "PR_timer_delete \<equiv> 383"
abbreviation (input) PR_timer_getoverrun :: nat where "PR_timer_getoverrun \<equiv> 384"
abbreviation (input) PR_timer_gettime :: nat where "PR_timer_gettime \<equiv> 385"
abbreviation (input) PR_timer_settime :: nat where "PR_timer_settime \<equiv> 386"
abbreviation (input) PR_timerfd_create :: nat where "PR_timerfd_create \<equiv> 387"
abbreviation (input) PR_timerfd_gettime :: nat where "PR_timerfd_gettime \<equiv> 388"
abbreviation (input) PR_timerfd_settime :: nat where "PR_timerfd_settime \<equiv> 389"
abbreviation (input) PR_times :: nat where "PR_times \<equiv> 390"
abbreviation (input) PR_tkill :: nat where "PR_tkill \<equiv> 391"
abbreviation (input) PR_truncate :: nat where "PR_truncate \<equiv> 392"
abbreviation (input) PR_truncate64 :: nat where "PR_truncate64 \<equiv> 393"
abbreviation (input) PR_tuxcall :: nat where "PR_tuxcall \<equiv> 394"
abbreviation (input) PR_ugetrlimit :: nat where "PR_ugetrlimit \<equiv> 395"
abbreviation (input) PR_ulimit :: nat where "PR_ulimit \<equiv> 396"
abbreviation (input) PR_umask :: nat where "PR_umask \<equiv> 397"
abbreviation (input) PR_umount :: nat where "PR_umount \<equiv> 398"
abbreviation (input) PR_umount2 :: nat where "PR_umount2 \<equiv> 399"
abbreviation (input) PR_uname :: nat where "PR_uname \<equiv> 400"
abbreviation (input) PR_unlink :: nat where "PR_unlink \<equiv> 401"
abbreviation (input) PR_unlinkat :: nat where "PR_unlinkat \<equiv> 402"
abbreviation (input) PR_unshare :: nat where "PR_unshare \<equiv> 403"
abbreviation (input) PR_uselib :: nat where "PR_uselib \<equiv> 404"
abbreviation (input) PR_userfaultfd :: nat where "PR_userfaultfd \<equiv> 405"
abbreviation (input) PR_ustat :: nat where "PR_ustat \<equiv> 406"
abbreviation (input) PR_utime :: nat where "PR_utime \<equiv> 407"
abbreviation (input) PR_utimensat :: nat where "PR_utimensat \<equiv> 408"
abbreviation (input) PR_utimes :: nat where "PR_utimes \<equiv> 409"
abbreviation (input) PR_vfork :: nat where "PR_vfork \<equiv> 410"
abbreviation (input) PR_vhangup :: nat where "PR_vhangup \<equiv> 411"
abbreviation (input) PR_vm86 :: nat where "PR_vm86 \<equiv> 412"
abbreviation (input) PR_vm86old :: nat where "PR_vm86old \<equiv> 413"
abbreviation (input) PR_vmsplice :: nat where "PR_vmsplice \<equiv> 414"
abbreviation (input) PR_vserver :: nat where "PR_vserver \<equiv> 415"
abbreviation (input) PR_wait4 :: nat where "PR_wait4 \<equiv> 416"
abbreviation (input) PR_waitid :: nat where "PR_waitid \<equiv> 417"
abbreviation (input) PR_waitpid :: nat where "PR_waitpid \<equiv> 418"
abbreviation (input) PR_write :: nat where "PR_write \<equiv> 419"
abbreviation (input) PR_writev :: nat where "PR_writev \<equiv> 420"
abbreviation (input) PR_x32_execve :: nat where "PR_x32_execve \<equiv> 421"
abbreviation (input) PR_x32_get_robust_list :: nat where "PR_x32_get_robust_list \<equiv> 422"
abbreviation (input) PR_x32_ioctl :: nat where "PR_x32_ioctl \<equiv> 423"
abbreviation (input) PR_x32_kexec_load :: nat where "PR_x32_kexec_load \<equiv> 424"
abbreviation (input) PR_x32_move_pages :: nat where "PR_x32_move_pages \<equiv> 425"
abbreviation (input) PR_x32_mq_notify :: nat where "PR_x32_mq_notify \<equiv> 426"
abbreviation (input) PR_x32_preadv :: nat where "PR_x32_preadv \<equiv> 427"
abbreviation (input) PR_x32_process_vm_readv :: nat where "PR_x32_process_vm_readv \<equiv> 428"
abbreviation (input) PR_x32_process_vm_writev :: nat where "PR_x32_process_vm_writev \<equiv> 429"
abbreviation (input) PR_x32_ptrace :: nat where "PR_x32_ptrace \<equiv> 430"
abbreviation (input) PR_x32_pwritev :: nat where "PR_x32_pwritev \<equiv> 431"
abbreviation (input) PR_x32_readv :: nat where "PR_x32_readv \<equiv> 432"
abbreviation (input) PR_x32_recvfrom :: nat where "PR_x32_recvfrom \<equiv> 433"
abbreviation (input) PR_x32_recvmmsg :: nat where "PR_x32_recvmmsg \<equiv> 434"
abbreviation (input) PR_x32_recvmsg :: nat where "PR_x32_recvmsg \<equiv> 435"
abbreviation (input) PR_x32_rt_sigaction :: nat where "PR_x32_rt_sigaction \<equiv> 436"
abbreviation (input) PR_x32_rt_sigpending :: nat where "PR_x32_rt_sigpending \<equiv> 437"
abbreviation (input) PR_x32_rt_sigqueueinfo :: nat where "PR_x32_rt_sigqueueinfo \<equiv> 438"
abbreviation (input) PR_x32_rt_sigreturn :: nat where "PR_x32_rt_sigreturn \<equiv> 439"
abbreviation (input) PR_x32_rt_sigtimedwait :: nat where "PR_x32_rt_sigtimedwait \<equiv> 440"
abbreviation (input) PR_x32_rt_tgsigqueueinfo :: nat where "PR_x32_rt_tgsigqueueinfo \<equiv> 441"
abbreviation (input) PR_x32_sendmmsg :: nat where "PR_x32_sendmmsg \<equiv> 442"
abbreviation (input) PR_x32_sendmsg :: nat where "PR_x32_sendmsg \<equiv> 443"
abbreviation (input) PR_x32_set_robust_list :: nat where "PR_x32_set_robust_list \<equiv> 444"
abbreviation (input) PR_x32_sigaltstack :: nat where "PR_x32_sigaltstack \<equiv> 445"
abbreviation (input) PR_x32_timer_create :: nat where "PR_x32_timer_create \<equiv> 446"
abbreviation (input) PR_x32_vmsplice :: nat where "PR_x32_vmsplice \<equiv> 447"
abbreviation (input) PR_x32_waitid :: nat where "PR_x32_waitid \<equiv> 448"
abbreviation (input) PR_x32_writev :: nat where "PR_x32_writev \<equiv> 449"
abbreviation (input) PR_NB_SYSNUM :: nat where "PR_NB_SYSNUM \<equiv> 450"

subsection \<open>The names\<close>

definition sysnum_names_1 :: "(nat \<times> string) list" where
  "sysnum_names_1 = [
    (PR_ARM_BASE, ''ARM_BASE''),
    (PR_ARM_breakpoint, ''ARM_breakpoint''),
    (PR_ARM_cacheflush, ''ARM_cacheflush''),
    (PR_ARM_set_tls, ''ARM_set_tls''),
    (PR_ARM_usr26, ''ARM_usr26''),
    (PR_ARM_usr32, ''ARM_usr32''),
    (PR_X32_SYSCALL_BIT, ''X32_SYSCALL_BIT''),
    (PR__llseek, ''_llseek''),
    (PR__newselect, ''_newselect''),
    (PR__sysctl, ''_sysctl''),
    (PR_accept, ''accept''),
    (PR_accept4, ''accept4''),
    (PR_access, ''access''),
    (PR_acct, ''acct''),
    (PR_add_key, ''add_key''),
    (PR_adjtimex, ''adjtimex''),
    (PR_afs_syscall, ''afs_syscall''),
    (PR_alarm, ''alarm''),
    (PR_arch_prctl, ''arch_prctl''),
    (PR_arch_specific_syscall, ''arch_specific_syscall''),
    (PR_arm_fadvise64_64, ''arm_fadvise64_64''),
    (PR_arm_sync_file_range, ''arm_sync_file_range''),
    (PR_bdflush, ''bdflush''),
    (PR_bind, ''bind''),
    (PR_bpf, ''bpf''),
    (PR_break, ''break''),
    (PR_brk, ''brk''),
    (PR_cacheflush, ''cacheflush''),
    (PR_capget, ''capget''),
    (PR_capset, ''capset''),
    (PR_chdir, ''chdir''),
    (PR_chmod, ''chmod''),
    (PR_chown, ''chown''),
    (PR_chown32, ''chown32''),
    (PR_chroot, ''chroot''),
    (PR_clock_adjtime, ''clock_adjtime''),
    (PR_clock_getres, ''clock_getres''),
    (PR_clock_gettime, ''clock_gettime''),
    (PR_clock_nanosleep, ''clock_nanosleep''),
    (PR_clock_settime, ''clock_settime''),
    (PR_clone, ''clone''),
    (PR_clone3, ''clone3''),
    (PR_close, ''close''),
    (PR_connect, ''connect''),
    (PR_copy_file_range, ''copy_file_range''),
    (PR_creat, ''creat''),
    (PR_create_module, ''create_module''),
    (PR_delete_module, ''delete_module''),
    (PR_dup, ''dup''),
    (PR_dup2, ''dup2''),
    (PR_dup3, ''dup3''),
    (PR_epoll_create, ''epoll_create''),
    (PR_epoll_create1, ''epoll_create1''),
    (PR_epoll_ctl, ''epoll_ctl''),
    (PR_epoll_ctl_old, ''epoll_ctl_old''),
    (PR_epoll_pwait, ''epoll_pwait''),
    (PR_epoll_wait, ''epoll_wait''),
    (PR_epoll_wait_old, ''epoll_wait_old''),
    (PR_eventfd, ''eventfd''),
    (PR_eventfd2, ''eventfd2''),
    (PR_execve, ''execve''),
    (PR_execveat, ''execveat''),
    (PR_exit, ''exit''),
    (PR_exit_group, ''exit_group''),
    (PR_faccessat, ''faccessat''),
    (PR_faccessat2, ''faccessat2''),
    (PR_fadvise64, ''fadvise64''),
    (PR_fadvise64_64, ''fadvise64_64''),
    (PR_fallocate, ''fallocate''),
    (PR_fanotify_init, ''fanotify_init''),
    (PR_fanotify_mark, ''fanotify_mark''),
    (PR_fchdir, ''fchdir''),
    (PR_fchmod, ''fchmod''),
    (PR_fchmodat, ''fchmodat''),
    (PR_fchown, ''fchown''),
    (PR_fchown32, ''fchown32''),
    (PR_fchownat, ''fchownat''),
    (PR_fcntl, ''fcntl''),
    (PR_fcntl64, ''fcntl64''),
    (PR_fdatasync, ''fdatasync''),
    (PR_fgetxattr, ''fgetxattr''),
    (PR_finit_module, ''finit_module''),
    (PR_flistxattr, ''flistxattr''),
    (PR_flock, ''flock''),
    (PR_fork, ''fork''),
    (PR_fremovexattr, ''fremovexattr''),
    (PR_fsetxattr, ''fsetxattr''),
    (PR_fstat, ''fstat''),
    (PR_fstat64, ''fstat64''),
    (PR_fstatat64, ''fstatat64''),
    (PR_fstatfs, ''fstatfs''),
    (PR_fstatfs64, ''fstatfs64''),
    (PR_fsync, ''fsync''),
    (PR_ftime, ''ftime''),
    (PR_ftruncate, ''ftruncate''),
    (PR_ftruncate64, ''ftruncate64''),
    (PR_futex, ''futex''),
    (PR_futimesat, ''futimesat''),
    (PR_get_kernel_syms, ''get_kernel_syms''),
    (PR_get_mempolicy, ''get_mempolicy''),
    (PR_get_robust_list, ''get_robust_list''),
    (PR_get_thread_area, ''get_thread_area''),
    (PR_getcpu, ''getcpu''),
    (PR_getcwd, ''getcwd''),
    (PR_getdents, ''getdents''),
    (PR_getdents64, ''getdents64''),
    (PR_getegid, ''getegid''),
    (PR_getegid32, ''getegid32''),
    (PR_geteuid, ''geteuid''),
    (PR_geteuid32, ''geteuid32''),
    (PR_getgid, ''getgid''),
    (PR_getgid32, ''getgid32''),
    (PR_getgroups, ''getgroups''),
    (PR_getgroups32, ''getgroups32''),
    (PR_getitimer, ''getitimer''),
    (PR_getpeername, ''getpeername''),
    (PR_getpgid, ''getpgid''),
    (PR_getpgrp, ''getpgrp''),
    (PR_getpid, ''getpid''),
    (PR_getpmsg, ''getpmsg''),
    (PR_getppid, ''getppid''),
    (PR_getpriority, ''getpriority''),
    (PR_getrandom, ''getrandom''),
    (PR_getresgid, ''getresgid''),
    (PR_getresgid32, ''getresgid32''),
    (PR_getresuid, ''getresuid''),
    (PR_getresuid32, ''getresuid32''),
    (PR_getrlimit, ''getrlimit''),
    (PR_getrusage, ''getrusage''),
    (PR_getsid, ''getsid''),
    (PR_getsockname, ''getsockname''),
    (PR_getsockopt, ''getsockopt''),
    (PR_gettid, ''gettid''),
    (PR_gettimeofday, ''gettimeofday''),
    (PR_getuid, ''getuid''),
    (PR_getuid32, ''getuid32''),
    (PR_getxattr, ''getxattr''),
    (PR_gtty, ''gtty''),
    (PR_idle, ''idle''),
    (PR_init_module, ''init_module''),
    (PR_inotify_add_watch, ''inotify_add_watch''),
    (PR_inotify_init, ''inotify_init''),
    (PR_inotify_init1, ''inotify_init1''),
    (PR_inotify_rm_watch, ''inotify_rm_watch''),
    (PR_io_cancel, ''io_cancel''),
    (PR_io_destroy, ''io_destroy''),
    (PR_io_getevents, ''io_getevents''),
    (PR_io_setup, ''io_setup''),
    (PR_io_submit, ''io_submit''),
    (PR_ioctl, ''ioctl'')]"

definition sysnum_names_2 :: "(nat \<times> string) list" where
  "sysnum_names_2 = [
    (PR_ioperm, ''ioperm''),
    (PR_iopl, ''iopl''),
    (PR_ioprio_get, ''ioprio_get''),
    (PR_ioprio_set, ''ioprio_set''),
    (PR_ipc, ''ipc''),
    (PR_kcmp, ''kcmp''),
    (PR_kexec_file_load, ''kexec_file_load''),
    (PR_kexec_load, ''kexec_load''),
    (PR_keyctl, ''keyctl''),
    (PR_kill, ''kill''),
    (PR_lchown, ''lchown''),
    (PR_lchown32, ''lchown32''),
    (PR_lgetxattr, ''lgetxattr''),
    (PR_link, ''link''),
    (PR_linkat, ''linkat''),
    (PR_listen, ''listen''),
    (PR_listxattr, ''listxattr''),
    (PR_llistxattr, ''llistxattr''),
    (PR_lock, ''lock''),
    (PR_lookup_dcookie, ''lookup_dcookie''),
    (PR_lremovexattr, ''lremovexattr''),
    (PR_lseek, ''lseek''),
    (PR_lsetxattr, ''lsetxattr''),
    (PR_lstat, ''lstat''),
    (PR_lstat64, ''lstat64''),
    (PR_madvise, ''madvise''),
    (PR_mbind, ''mbind''),
    (PR_membarrier, ''membarrier''),
    (PR_memfd_create, ''memfd_create''),
    (PR_migrate_pages, ''migrate_pages''),
    (PR_mincore, ''mincore''),
    (PR_mkdir, ''mkdir''),
    (PR_mkdirat, ''mkdirat''),
    (PR_mknod, ''mknod''),
    (PR_mknodat, ''mknodat''),
    (PR_mlock, ''mlock''),
    (PR_mlock2, ''mlock2''),
    (PR_mlockall, ''mlockall''),
    (PR_mmap, ''mmap''),
    (PR_mmap2, ''mmap2''),
    (PR_modify_ldt, ''modify_ldt''),
    (PR_mount, ''mount''),
    (PR_move_pages, ''move_pages''),
    (PR_mprotect, ''mprotect''),
    (PR_mpx, ''mpx''),
    (PR_mq_getsetattr, ''mq_getsetattr''),
    (PR_mq_notify, ''mq_notify''),
    (PR_mq_open, ''mq_open''),
    (PR_mq_timedreceive, ''mq_timedreceive''),
    (PR_mq_timedsend, ''mq_timedsend''),
    (PR_mq_unlink, ''mq_unlink''),
    (PR_mremap, ''mremap''),
    (PR_msgctl, ''msgctl''),
    (PR_msgget, ''msgget''),
    (PR_msgrcv, ''msgrcv''),
    (PR_msgsnd, ''msgsnd''),
    (PR_msync, ''msync''),
    (PR_munlock, ''munlock''),
    (PR_munlockall, ''munlockall''),
    (PR_munmap, ''munmap''),
    (PR_name_to_handle_at, ''name_to_handle_at''),
    (PR_nanosleep, ''nanosleep''),
    (PR_newfstatat, ''newfstatat''),
    (PR_nfsservctl, ''nfsservctl''),
    (PR_nice, ''nice''),
    (PR_oldfstat, ''oldfstat''),
    (PR_oldlstat, ''oldlstat''),
    (PR_oldolduname, ''oldolduname''),
    (PR_oldstat, ''oldstat''),
    (PR_olduname, ''olduname''),
    (PR_open, ''open''),
    (PR_open_by_handle_at, ''open_by_handle_at''),
    (PR_openat, ''openat''),
    (PR_openat2, ''openat2''),
    (PR_pause, ''pause''),
    (PR_pciconfig_iobase, ''pciconfig_iobase''),
    (PR_pciconfig_read, ''pciconfig_read''),
    (PR_pciconfig_write, ''pciconfig_write''),
    (PR_perf_event_open, ''perf_event_open''),
    (PR_personality, ''personality''),
    (PR_pipe, ''pipe''),
    (PR_pipe2, ''pipe2''),
    (PR_pivot_root, ''pivot_root''),
    (PR_pkey_alloc, ''pkey_alloc''),
    (PR_pkey_free, ''pkey_free''),
    (PR_pkey_mprotect, ''pkey_mprotect''),
    (PR_poll, ''poll''),
    (PR_ppoll, ''ppoll''),
    (PR_prctl, ''prctl''),
    (PR_pread64, ''pread64''),
    (PR_preadv, ''preadv''),
    (PR_preadv2, ''preadv2''),
    (PR_prlimit64, ''prlimit64''),
    (PR_process_vm_readv, ''process_vm_readv''),
    (PR_process_vm_writev, ''process_vm_writev''),
    (PR_prof, ''prof''),
    (PR_profil, ''profil''),
    (PR_pselect6, ''pselect6''),
    (PR_ptrace, ''ptrace''),
    (PR_putpmsg, ''putpmsg''),
    (PR_pwrite64, ''pwrite64''),
    (PR_pwritev, ''pwritev''),
    (PR_pwritev2, ''pwritev2''),
    (PR_query_module, ''query_module''),
    (PR_quotactl, ''quotactl''),
    (PR_read, ''read''),
    (PR_readahead, ''readahead''),
    (PR_readdir, ''readdir''),
    (PR_readlink, ''readlink''),
    (PR_readlinkat, ''readlinkat''),
    (PR_readv, ''readv''),
    (PR_reboot, ''reboot''),
    (PR_recv, ''recv''),
    (PR_recvfrom, ''recvfrom''),
    (PR_recvmmsg, ''recvmmsg''),
    (PR_recvmsg, ''recvmsg''),
    (PR_remap_file_pages, ''remap_file_pages''),
    (PR_removexattr, ''removexattr''),
    (PR_rename, ''rename''),
    (PR_renameat, ''renameat''),
    (PR_renameat2, ''renameat2''),
    (PR_request_key, ''request_key''),
    (PR_restart_syscall, ''restart_syscall''),
    (PR_rmdir, ''rmdir''),
    (PR_rt_sigaction, ''rt_sigaction''),
    (PR_rt_sigpending, ''rt_sigpending''),
    (PR_rt_sigprocmask, ''rt_sigprocmask''),
    (PR_rt_sigqueueinfo, ''rt_sigqueueinfo''),
    (PR_rt_sigreturn, ''rt_sigreturn''),
    (PR_rt_sigsuspend, ''rt_sigsuspend''),
    (PR_rt_sigtimedwait, ''rt_sigtimedwait''),
    (PR_rt_tgsigqueueinfo, ''rt_tgsigqueueinfo''),
    (PR_sched_get_priority_max, ''sched_get_priority_max''),
    (PR_sched_get_priority_min, ''sched_get_priority_min''),
    (PR_sched_getaffinity, ''sched_getaffinity''),
    (PR_sched_getattr, ''sched_getattr''),
    (PR_sched_getparam, ''sched_getparam''),
    (PR_sched_getscheduler, ''sched_getscheduler''),
    (PR_sched_rr_get_interval, ''sched_rr_get_interval''),
    (PR_sched_setaffinity, ''sched_setaffinity''),
    (PR_sched_setattr, ''sched_setattr''),
    (PR_sched_setparam, ''sched_setparam''),
    (PR_sched_setscheduler, ''sched_setscheduler''),
    (PR_sched_yield, ''sched_yield''),
    (PR_seccomp, ''seccomp''),
    (PR_security, ''security''),
    (PR_select, ''select''),
    (PR_semctl, ''semctl''),
    (PR_semget, ''semget''),
    (PR_semop, ''semop'')]"

definition sysnum_names_3 :: "(nat \<times> string) list" where
  "sysnum_names_3 = [
    (PR_semtimedop, ''semtimedop''),
    (PR_send, ''send''),
    (PR_sendfile, ''sendfile''),
    (PR_sendfile64, ''sendfile64''),
    (PR_sendmmsg, ''sendmmsg''),
    (PR_sendmsg, ''sendmsg''),
    (PR_sendto, ''sendto''),
    (PR_set_mempolicy, ''set_mempolicy''),
    (PR_set_robust_list, ''set_robust_list''),
    (PR_set_thread_area, ''set_thread_area''),
    (PR_set_tid_address, ''set_tid_address''),
    (PR_setdomainname, ''setdomainname''),
    (PR_setfsgid, ''setfsgid''),
    (PR_setfsgid32, ''setfsgid32''),
    (PR_setfsuid, ''setfsuid''),
    (PR_setfsuid32, ''setfsuid32''),
    (PR_setgid, ''setgid''),
    (PR_setgid32, ''setgid32''),
    (PR_setgroups, ''setgroups''),
    (PR_setgroups32, ''setgroups32''),
    (PR_sethostname, ''sethostname''),
    (PR_setitimer, ''setitimer''),
    (PR_setns, ''setns''),
    (PR_setpgid, ''setpgid''),
    (PR_setpriority, ''setpriority''),
    (PR_setregid, ''setregid''),
    (PR_setregid32, ''setregid32''),
    (PR_setresgid, ''setresgid''),
    (PR_setresgid32, ''setresgid32''),
    (PR_setresuid, ''setresuid''),
    (PR_setresuid32, ''setresuid32''),
    (PR_setreuid, ''setreuid''),
    (PR_setreuid32, ''setreuid32''),
    (PR_setrlimit, ''setrlimit''),
    (PR_setsid, ''setsid''),
    (PR_setsockopt, ''setsockopt''),
    (PR_settimeofday, ''settimeofday''),
    (PR_setuid, ''setuid''),
    (PR_setuid32, ''setuid32''),
    (PR_setxattr, ''setxattr''),
    (PR_sgetmask, ''sgetmask''),
    (PR_shmat, ''shmat''),
    (PR_shmctl, ''shmctl''),
    (PR_shmdt, ''shmdt''),
    (PR_shmget, ''shmget''),
    (PR_shutdown, ''shutdown''),
    (PR_sigaction, ''sigaction''),
    (PR_sigaltstack, ''sigaltstack''),
    (PR_signal, ''signal''),
    (PR_signalfd, ''signalfd''),
    (PR_signalfd4, ''signalfd4''),
    (PR_sigpending, ''sigpending''),
    (PR_sigprocmask, ''sigprocmask''),
    (PR_sigreturn, ''sigreturn''),
    (PR_sigsuspend, ''sigsuspend''),
    (PR_socket, ''socket''),
    (PR_socketcall, ''socketcall''),
    (PR_socketpair, ''socketpair''),
    (PR_splice, ''splice''),
    (PR_ssetmask, ''ssetmask''),
    (PR_stat, ''stat''),
    (PR_stat64, ''stat64''),
    (PR_statfs, ''statfs''),
    (PR_statfs64, ''statfs64''),
    (PR_statx, ''statx''),
    (PR_stime, ''stime''),
    (PR_stty, ''stty''),
    (PR_swapoff, ''swapoff''),
    (PR_swapon, ''swapon''),
    (PR_symlink, ''symlink''),
    (PR_symlinkat, ''symlinkat''),
    (PR_sync, ''sync''),
    (PR_sync_file_range, ''sync_file_range''),
    (PR_sync_file_range2, ''sync_file_range2''),
    (PR_syncfs, ''syncfs''),
    (PR_sysfs, ''sysfs''),
    (PR_sysinfo, ''sysinfo''),
    (PR_syslog, ''syslog''),
    (PR_tee, ''tee''),
    (PR_tgkill, ''tgkill''),
    (PR_time, ''time''),
    (PR_timer_create, ''timer_create''),
    (PR_timer_delete, ''timer_delete''),
    (PR_timer_getoverrun, ''timer_getoverrun''),
    (PR_timer_gettime, ''timer_gettime''),
    (PR_timer_settime, ''timer_settime''),
    (PR_timerfd_create, ''timerfd_create''),
    (PR_timerfd_gettime, ''timerfd_gettime''),
    (PR_timerfd_settime, ''timerfd_settime''),
    (PR_times, ''times''),
    (PR_tkill, ''tkill''),
    (PR_truncate, ''truncate''),
    (PR_truncate64, ''truncate64''),
    (PR_tuxcall, ''tuxcall''),
    (PR_ugetrlimit, ''ugetrlimit''),
    (PR_ulimit, ''ulimit''),
    (PR_umask, ''umask''),
    (PR_umount, ''umount''),
    (PR_umount2, ''umount2''),
    (PR_uname, ''uname''),
    (PR_unlink, ''unlink''),
    (PR_unlinkat, ''unlinkat''),
    (PR_unshare, ''unshare''),
    (PR_uselib, ''uselib''),
    (PR_userfaultfd, ''userfaultfd''),
    (PR_ustat, ''ustat''),
    (PR_utime, ''utime''),
    (PR_utimensat, ''utimensat''),
    (PR_utimes, ''utimes''),
    (PR_vfork, ''vfork''),
    (PR_vhangup, ''vhangup''),
    (PR_vm86, ''vm86''),
    (PR_vm86old, ''vm86old''),
    (PR_vmsplice, ''vmsplice''),
    (PR_vserver, ''vserver''),
    (PR_wait4, ''wait4''),
    (PR_waitid, ''waitid''),
    (PR_waitpid, ''waitpid''),
    (PR_write, ''write''),
    (PR_writev, ''writev''),
    (PR_x32_execve, ''x32_execve''),
    (PR_x32_get_robust_list, ''x32_get_robust_list''),
    (PR_x32_ioctl, ''x32_ioctl''),
    (PR_x32_kexec_load, ''x32_kexec_load''),
    (PR_x32_move_pages, ''x32_move_pages''),
    (PR_x32_mq_notify, ''x32_mq_notify''),
    (PR_x32_preadv, ''x32_preadv''),
    (PR_x32_process_vm_readv, ''x32_process_vm_readv''),
    (PR_x32_process_vm_writev, ''x32_process_vm_writev''),
    (PR_x32_ptrace, ''x32_ptrace''),
    (PR_x32_pwritev, ''x32_pwritev''),
    (PR_x32_readv, ''x32_readv''),
    (PR_x32_recvfrom, ''x32_recvfrom''),
    (PR_x32_recvmmsg, ''x32_recvmmsg''),
    (PR_x32_recvmsg, ''x32_recvmsg''),
    (PR_x32_rt_sigaction, ''x32_rt_sigaction''),
    (PR_x32_rt_sigpending, ''x32_rt_sigpending''),
    (PR_x32_rt_sigqueueinfo, ''x32_rt_sigqueueinfo''),
    (PR_x32_rt_sigreturn, ''x32_rt_sigreturn''),
    (PR_x32_rt_sigtimedwait, ''x32_rt_sigtimedwait''),
    (PR_x32_rt_tgsigqueueinfo, ''x32_rt_tgsigqueueinfo''),
    (PR_x32_sendmmsg, ''x32_sendmmsg''),
    (PR_x32_sendmsg, ''x32_sendmsg''),
    (PR_x32_set_robust_list, ''x32_set_robust_list''),
    (PR_x32_sigaltstack, ''x32_sigaltstack''),
    (PR_x32_timer_create, ''x32_timer_create''),
    (PR_x32_vmsplice, ''x32_vmsplice''),
    (PR_x32_waitid, ''x32_waitid''),
    (PR_x32_writev, ''x32_writev'')]"

definition sysnum_names :: "(nat \<times> string) list" where
  "sysnum_names = sysnum_names_1 @ sysnum_names_2 @ sysnum_names_3"

subsection \<open>The table of arm64\<close>

definition sysnums_arm64_1 :: "(nat \<times> nat) list" where
  "sysnums_arm64_1 = [
    (0, PR_io_setup),
    (1, PR_io_destroy),
    (2, PR_io_submit),
    (3, PR_io_cancel),
    (4, PR_io_getevents),
    (5, PR_setxattr),
    (6, PR_lsetxattr),
    (7, PR_fsetxattr),
    (8, PR_getxattr),
    (9, PR_lgetxattr),
    (10, PR_fgetxattr),
    (11, PR_listxattr),
    (12, PR_llistxattr),
    (13, PR_flistxattr),
    (14, PR_removexattr),
    (15, PR_lremovexattr),
    (16, PR_fremovexattr),
    (17, PR_getcwd),
    (18, PR_lookup_dcookie),
    (19, PR_eventfd2),
    (20, PR_epoll_create1),
    (21, PR_epoll_ctl),
    (22, PR_epoll_pwait),
    (23, PR_dup),
    (24, PR_dup3),
    (25, PR_fcntl),
    (26, PR_inotify_init1),
    (27, PR_inotify_add_watch),
    (28, PR_inotify_rm_watch),
    (29, PR_ioctl),
    (30, PR_ioprio_set),
    (31, PR_ioprio_get),
    (32, PR_flock),
    (33, PR_mknodat),
    (34, PR_mkdirat),
    (35, PR_unlinkat),
    (36, PR_symlinkat),
    (37, PR_linkat),
    (38, PR_renameat),
    (39, PR_umount2),
    (40, PR_mount),
    (41, PR_pivot_root),
    (42, PR_nfsservctl),
    (43, PR_statfs),
    (44, PR_fstatfs),
    (45, PR_truncate),
    (46, PR_ftruncate),
    (47, PR_fallocate),
    (48, PR_faccessat),
    (49, PR_chdir),
    (50, PR_fchdir),
    (51, PR_chroot),
    (52, PR_fchmod),
    (53, PR_fchmodat),
    (54, PR_fchownat),
    (55, PR_fchown),
    (56, PR_openat),
    (57, PR_close),
    (58, PR_vhangup),
    (59, PR_pipe2),
    (60, PR_quotactl),
    (61, PR_getdents64),
    (62, PR_lseek),
    (63, PR_read),
    (64, PR_write),
    (65, PR_readv),
    (66, PR_writev),
    (67, PR_pread64),
    (68, PR_pwrite64),
    (69, PR_preadv),
    (70, PR_pwritev),
    (71, PR_sendfile),
    (72, PR_pselect6),
    (73, PR_ppoll),
    (74, PR_signalfd4),
    (75, PR_vmsplice),
    (76, PR_splice),
    (77, PR_tee),
    (78, PR_readlinkat),
    (79, PR_fstatat64),
    (80, PR_fstat),
    (81, PR_sync),
    (82, PR_fsync),
    (83, PR_fdatasync),
    (84, PR_sync_file_range),
    (85, PR_timerfd_create),
    (86, PR_timerfd_settime),
    (87, PR_timerfd_gettime),
    (88, PR_utimensat),
    (89, PR_acct),
    (90, PR_capget),
    (91, PR_capset),
    (92, PR_personality),
    (93, PR_exit),
    (94, PR_exit_group),
    (95, PR_waitid),
    (96, PR_set_tid_address),
    (97, PR_unshare),
    (98, PR_futex),
    (99, PR_set_robust_list),
    (100, PR_get_robust_list),
    (101, PR_nanosleep),
    (102, PR_getitimer),
    (103, PR_setitimer),
    (104, PR_kexec_load),
    (105, PR_init_module),
    (106, PR_delete_module),
    (107, PR_timer_create),
    (108, PR_timer_gettime),
    (109, PR_timer_getoverrun),
    (110, PR_timer_settime),
    (111, PR_timer_delete),
    (112, PR_clock_settime),
    (113, PR_clock_gettime),
    (114, PR_clock_getres),
    (115, PR_clock_nanosleep),
    (116, PR_syslog),
    (117, PR_ptrace),
    (118, PR_sched_setparam),
    (119, PR_sched_setscheduler),
    (120, PR_sched_getscheduler),
    (121, PR_sched_getparam),
    (122, PR_sched_setaffinity),
    (123, PR_sched_getaffinity),
    (124, PR_sched_yield),
    (125, PR_sched_get_priority_max),
    (126, PR_sched_get_priority_min),
    (127, PR_sched_rr_get_interval),
    (128, PR_restart_syscall),
    (129, PR_kill),
    (130, PR_tkill),
    (131, PR_tgkill),
    (132, PR_sigaltstack),
    (133, PR_rt_sigsuspend),
    (134, PR_rt_sigaction),
    (135, PR_rt_sigprocmask),
    (136, PR_rt_sigpending),
    (137, PR_rt_sigtimedwait),
    (138, PR_rt_sigqueueinfo),
    (139, PR_rt_sigreturn),
    (140, PR_setpriority),
    (141, PR_getpriority),
    (142, PR_reboot),
    (143, PR_setregid),
    (144, PR_setgid),
    (145, PR_setreuid),
    (146, PR_setuid),
    (147, PR_setresuid),
    (148, PR_getresuid),
    (149, PR_setresgid)]"

definition sysnums_arm64_2 :: "(nat \<times> nat) list" where
  "sysnums_arm64_2 = [
    (150, PR_getresgid),
    (151, PR_setfsuid),
    (152, PR_setfsgid),
    (153, PR_times),
    (154, PR_setpgid),
    (155, PR_getpgid),
    (156, PR_getsid),
    (157, PR_setsid),
    (158, PR_getgroups),
    (159, PR_setgroups),
    (160, PR_uname),
    (161, PR_sethostname),
    (162, PR_setdomainname),
    (163, PR_getrlimit),
    (164, PR_setrlimit),
    (165, PR_getrusage),
    (166, PR_umask),
    (167, PR_prctl),
    (168, PR_getcpu),
    (169, PR_gettimeofday),
    (170, PR_settimeofday),
    (171, PR_adjtimex),
    (172, PR_getpid),
    (173, PR_getppid),
    (174, PR_getuid),
    (175, PR_geteuid),
    (176, PR_getgid),
    (177, PR_getegid),
    (178, PR_gettid),
    (179, PR_sysinfo),
    (180, PR_mq_open),
    (181, PR_mq_unlink),
    (182, PR_mq_timedsend),
    (183, PR_mq_timedreceive),
    (184, PR_mq_notify),
    (185, PR_mq_getsetattr),
    (186, PR_msgget),
    (187, PR_msgctl),
    (188, PR_msgrcv),
    (189, PR_msgsnd),
    (190, PR_semget),
    (191, PR_semctl),
    (192, PR_semtimedop),
    (193, PR_semop),
    (194, PR_shmget),
    (195, PR_shmctl),
    (196, PR_shmat),
    (197, PR_shmdt),
    (198, PR_socket),
    (199, PR_socketpair),
    (200, PR_bind),
    (201, PR_listen),
    (202, PR_accept),
    (203, PR_connect),
    (204, PR_getsockname),
    (205, PR_getpeername),
    (206, PR_sendto),
    (207, PR_recvfrom),
    (208, PR_setsockopt),
    (209, PR_getsockopt),
    (210, PR_shutdown),
    (211, PR_sendmsg),
    (212, PR_recvmsg),
    (213, PR_readahead),
    (214, PR_brk),
    (215, PR_munmap),
    (216, PR_mremap),
    (217, PR_add_key),
    (218, PR_request_key),
    (219, PR_keyctl),
    (220, PR_clone),
    (221, PR_execve),
    (222, PR_mmap),
    (223, PR_fadvise64),
    (224, PR_swapon),
    (225, PR_swapoff),
    (226, PR_mprotect),
    (227, PR_msync),
    (228, PR_mlock),
    (229, PR_munlock),
    (230, PR_mlockall),
    (231, PR_munlockall),
    (232, PR_mincore),
    (233, PR_madvise),
    (234, PR_remap_file_pages),
    (235, PR_mbind),
    (236, PR_get_mempolicy),
    (237, PR_set_mempolicy),
    (238, PR_migrate_pages),
    (239, PR_move_pages),
    (240, PR_rt_tgsigqueueinfo),
    (241, PR_perf_event_open),
    (242, PR_accept4),
    (243, PR_recvmmsg),
    (244, PR_arch_specific_syscall),
    (260, PR_wait4),
    (261, PR_prlimit64),
    (262, PR_fanotify_init),
    (263, PR_fanotify_mark),
    (264, PR_name_to_handle_at),
    (265, PR_open_by_handle_at),
    (266, PR_clock_adjtime),
    (267, PR_syncfs),
    (268, PR_setns),
    (269, PR_sendmmsg),
    (270, PR_process_vm_readv),
    (271, PR_process_vm_writev),
    (272, PR_kcmp),
    (273, PR_finit_module),
    (274, PR_sched_setattr),
    (275, PR_sched_getattr),
    (276, PR_renameat2),
    (277, PR_seccomp),
    (278, PR_getrandom),
    (279, PR_memfd_create),
    (280, PR_bpf),
    (281, PR_execveat),
    (282, PR_userfaultfd),
    (283, PR_membarrier),
    (284, PR_mlock2),
    (285, PR_copy_file_range),
    (286, PR_preadv2),
    (287, PR_pwritev2),
    (288, PR_pkey_mprotect),
    (289, PR_pkey_alloc),
    (290, PR_pkey_free),
    (291, PR_statx),
    (435, PR_clone3),
    (437, PR_openat2),
    (439, PR_faccessat2)]"

definition sysnums_arm64 :: "(nat \<times> nat) list" where
  "sysnums_arm64 = sysnums_arm64_1 @ sysnums_arm64_2"

subsection \<open>The table of arm\<close>

definition sysnums_arm_1 :: "(nat \<times> nat) list" where
  "sysnums_arm_1 = [
    (0, PR_restart_syscall),
    (1, PR_exit),
    (2, PR_fork),
    (3, PR_read),
    (4, PR_write),
    (5, PR_open),
    (6, PR_close),
    (8, PR_creat),
    (9, PR_link),
    (10, PR_unlink),
    (11, PR_execve),
    (12, PR_chdir),
    (14, PR_mknod),
    (15, PR_chmod),
    (16, PR_lchown),
    (19, PR_lseek),
    (20, PR_getpid),
    (21, PR_mount),
    (23, PR_setuid),
    (24, PR_getuid),
    (26, PR_ptrace),
    (29, PR_pause),
    (30, PR_utime),
    (33, PR_access),
    (34, PR_nice),
    (36, PR_sync),
    (37, PR_kill),
    (38, PR_rename),
    (39, PR_mkdir),
    (40, PR_rmdir),
    (41, PR_dup),
    (42, PR_pipe),
    (43, PR_times),
    (45, PR_brk),
    (46, PR_setgid),
    (47, PR_getgid),
    (49, PR_geteuid),
    (50, PR_getegid),
    (51, PR_acct),
    (52, PR_umount2),
    (54, PR_ioctl),
    (55, PR_fcntl),
    (57, PR_setpgid),
    (60, PR_umask),
    (61, PR_chroot),
    (62, PR_ustat),
    (63, PR_dup2),
    (64, PR_getppid),
    (65, PR_getpgrp),
    (66, PR_setsid),
    (67, PR_sigaction),
    (70, PR_setreuid),
    (71, PR_setregid),
    (72, PR_sigsuspend),
    (73, PR_sigpending),
    (74, PR_sethostname),
    (75, PR_setrlimit),
    (77, PR_getrusage),
    (78, PR_gettimeofday),
    (79, PR_settimeofday),
    (80, PR_getgroups),
    (81, PR_setgroups),
    (83, PR_symlink),
    (85, PR_readlink),
    (86, PR_uselib),
    (87, PR_swapon),
    (88, PR_reboot),
    (91, PR_munmap),
    (92, PR_truncate),
    (93, PR_ftruncate),
    (94, PR_fchmod),
    (95, PR_fchown),
    (96, PR_getpriority),
    (97, PR_setpriority),
    (99, PR_statfs),
    (100, PR_fstatfs),
    (103, PR_syslog),
    (104, PR_setitimer),
    (105, PR_getitimer),
    (106, PR_stat),
    (107, PR_lstat),
    (108, PR_fstat),
    (111, PR_vhangup),
    (114, PR_wait4),
    (115, PR_swapoff),
    (116, PR_sysinfo),
    (118, PR_fsync),
    (119, PR_sigreturn),
    (120, PR_clone),
    (121, PR_setdomainname),
    (122, PR_uname),
    (124, PR_adjtimex),
    (125, PR_mprotect),
    (126, PR_sigprocmask),
    (128, PR_init_module),
    (129, PR_delete_module),
    (131, PR_quotactl),
    (132, PR_getpgid),
    (133, PR_fchdir),
    (134, PR_bdflush),
    (135, PR_sysfs),
    (136, PR_personality),
    (138, PR_setfsuid),
    (139, PR_setfsgid),
    (140, PR__llseek),
    (141, PR_getdents),
    (142, PR__newselect),
    (143, PR_flock),
    (144, PR_msync),
    (145, PR_readv),
    (146, PR_writev),
    (147, PR_getsid),
    (148, PR_fdatasync),
    (149, PR__sysctl),
    (150, PR_mlock),
    (151, PR_munlock),
    (152, PR_mlockall),
    (153, PR_munlockall),
    (154, PR_sched_setparam),
    (155, PR_sched_getparam),
    (156, PR_sched_setscheduler),
    (157, PR_sched_getscheduler),
    (158, PR_sched_yield),
    (159, PR_sched_get_priority_max),
    (160, PR_sched_get_priority_min),
    (161, PR_sched_rr_get_interval),
    (162, PR_nanosleep),
    (163, PR_mremap),
    (164, PR_setresuid),
    (165, PR_getresuid),
    (168, PR_poll),
    (169, PR_nfsservctl),
    (170, PR_setresgid),
    (171, PR_getresgid),
    (172, PR_prctl),
    (173, PR_rt_sigreturn),
    (174, PR_rt_sigaction),
    (175, PR_rt_sigprocmask),
    (176, PR_rt_sigpending),
    (177, PR_rt_sigtimedwait),
    (178, PR_rt_sigqueueinfo),
    (179, PR_rt_sigsuspend),
    (180, PR_pread64),
    (181, PR_pwrite64),
    (182, PR_chown),
    (183, PR_getcwd),
    (184, PR_capget),
    (185, PR_capset),
    (186, PR_sigaltstack),
    (187, PR_sendfile)]"

definition sysnums_arm_2 :: "(nat \<times> nat) list" where
  "sysnums_arm_2 = [
    (190, PR_vfork),
    (191, PR_ugetrlimit),
    (192, PR_mmap2),
    (193, PR_truncate64),
    (194, PR_ftruncate64),
    (195, PR_stat64),
    (196, PR_lstat64),
    (197, PR_fstat64),
    (198, PR_lchown32),
    (199, PR_getuid32),
    (200, PR_getgid32),
    (201, PR_geteuid32),
    (202, PR_getegid32),
    (203, PR_setreuid32),
    (204, PR_setregid32),
    (205, PR_getgroups32),
    (206, PR_setgroups32),
    (207, PR_fchown32),
    (208, PR_setresuid32),
    (209, PR_getresuid32),
    (210, PR_setresgid32),
    (211, PR_getresgid32),
    (212, PR_chown32),
    (213, PR_setuid32),
    (214, PR_setgid32),
    (215, PR_setfsuid32),
    (216, PR_setfsgid32),
    (217, PR_getdents64),
    (218, PR_pivot_root),
    (219, PR_mincore),
    (220, PR_madvise),
    (221, PR_fcntl64),
    (222, PR_void),
    (224, PR_gettid),
    (225, PR_readahead),
    (226, PR_setxattr),
    (227, PR_lsetxattr),
    (228, PR_fsetxattr),
    (229, PR_getxattr),
    (230, PR_lgetxattr),
    (231, PR_fgetxattr),
    (232, PR_listxattr),
    (233, PR_llistxattr),
    (234, PR_flistxattr),
    (235, PR_removexattr),
    (236, PR_lremovexattr),
    (237, PR_fremovexattr),
    (238, PR_tkill),
    (239, PR_sendfile64),
    (240, PR_futex),
    (241, PR_sched_setaffinity),
    (242, PR_sched_getaffinity),
    (243, PR_io_setup),
    (244, PR_io_destroy),
    (245, PR_io_getevents),
    (246, PR_io_submit),
    (247, PR_io_cancel),
    (248, PR_exit_group),
    (249, PR_lookup_dcookie),
    (250, PR_epoll_create),
    (251, PR_epoll_ctl),
    (252, PR_epoll_wait),
    (253, PR_remap_file_pages),
    (256, PR_set_tid_address),
    (257, PR_timer_create),
    (258, PR_timer_settime),
    (259, PR_timer_gettime),
    (260, PR_timer_getoverrun),
    (261, PR_timer_delete),
    (262, PR_clock_settime),
    (263, PR_clock_gettime),
    (264, PR_clock_getres),
    (265, PR_clock_nanosleep),
    (266, PR_statfs64),
    (267, PR_fstatfs64),
    (268, PR_tgkill),
    (269, PR_utimes),
    (270, PR_arm_fadvise64_64),
    (271, PR_pciconfig_iobase),
    (272, PR_pciconfig_read),
    (273, PR_pciconfig_write),
    (274, PR_mq_open),
    (275, PR_mq_unlink),
    (276, PR_mq_timedsend),
    (277, PR_mq_timedreceive),
    (278, PR_mq_notify),
    (279, PR_mq_getsetattr),
    (280, PR_waitid),
    (281, PR_socket),
    (282, PR_bind),
    (283, PR_connect),
    (284, PR_listen),
    (285, PR_accept),
    (286, PR_getsockname),
    (287, PR_getpeername),
    (288, PR_socketpair),
    (289, PR_send),
    (290, PR_sendto),
    (291, PR_recv),
    (292, PR_recvfrom),
    (293, PR_shutdown),
    (294, PR_setsockopt),
    (295, PR_getsockopt),
    (296, PR_sendmsg),
    (297, PR_recvmsg),
    (298, PR_semop),
    (299, PR_semget),
    (300, PR_semctl),
    (301, PR_msgsnd),
    (302, PR_msgrcv),
    (303, PR_msgget),
    (304, PR_msgctl),
    (305, PR_shmat),
    (306, PR_shmdt),
    (307, PR_shmget),
    (308, PR_shmctl),
    (309, PR_add_key),
    (310, PR_request_key),
    (311, PR_keyctl),
    (312, PR_semtimedop),
    (313, PR_vserver),
    (314, PR_ioprio_set),
    (315, PR_ioprio_get),
    (316, PR_inotify_init),
    (317, PR_inotify_add_watch),
    (318, PR_inotify_rm_watch),
    (319, PR_mbind),
    (320, PR_get_mempolicy),
    (321, PR_set_mempolicy),
    (322, PR_openat),
    (323, PR_mkdirat),
    (324, PR_mknodat),
    (325, PR_fchownat),
    (326, PR_futimesat),
    (327, PR_fstatat64),
    (328, PR_unlinkat),
    (329, PR_renameat),
    (330, PR_linkat),
    (331, PR_symlinkat),
    (332, PR_readlinkat),
    (333, PR_fchmodat),
    (334, PR_faccessat),
    (335, PR_pselect6),
    (336, PR_ppoll),
    (337, PR_unshare),
    (338, PR_set_robust_list),
    (339, PR_get_robust_list),
    (340, PR_splice),
    (341, PR_arm_sync_file_range),
    (342, PR_tee)]"

definition sysnums_arm_3 :: "(nat \<times> nat) list" where
  "sysnums_arm_3 = [
    (343, PR_vmsplice),
    (344, PR_move_pages),
    (345, PR_getcpu),
    (346, PR_epoll_pwait),
    (347, PR_kexec_load),
    (348, PR_utimensat),
    (349, PR_signalfd),
    (350, PR_timerfd_create),
    (351, PR_eventfd),
    (352, PR_fallocate),
    (353, PR_timerfd_settime),
    (354, PR_timerfd_gettime),
    (355, PR_signalfd4),
    (356, PR_eventfd2),
    (357, PR_epoll_create1),
    (358, PR_dup3),
    (359, PR_pipe2),
    (360, PR_inotify_init1),
    (361, PR_preadv),
    (362, PR_pwritev),
    (363, PR_rt_tgsigqueueinfo),
    (364, PR_perf_event_open),
    (365, PR_recvmmsg),
    (366, PR_accept4),
    (367, PR_fanotify_init),
    (368, PR_fanotify_mark),
    (369, PR_prlimit64),
    (370, PR_name_to_handle_at),
    (371, PR_open_by_handle_at),
    (372, PR_clock_adjtime),
    (373, PR_syncfs),
    (374, PR_sendmmsg),
    (375, PR_setns),
    (376, PR_process_vm_readv),
    (377, PR_process_vm_writev),
    (378, PR_kcmp),
    (379, PR_finit_module),
    (380, PR_sched_setattr),
    (381, PR_sched_getattr),
    (382, PR_renameat2),
    (383, PR_seccomp),
    (384, PR_getrandom),
    (385, PR_memfd_create),
    (386, PR_bpf),
    (387, PR_execveat),
    (388, PR_userfaultfd),
    (389, PR_membarrier),
    (390, PR_mlock2),
    (391, PR_copy_file_range),
    (392, PR_preadv2),
    (393, PR_pwritev2),
    (394, PR_pkey_mprotect),
    (395, PR_pkey_alloc),
    (396, PR_pkey_free),
    (397, PR_statx),
    (439, PR_faccessat2),
    (435, PR_clone3),
    (437, PR_openat2)]"

definition sysnums_arm :: "(nat \<times> nat) list" where
  "sysnums_arm = sysnums_arm_1 @ sysnums_arm_2 @ sysnums_arm_3"

end
