(* ===== verification/Sysnum.thy ===== *)
theory Sysnum
  imports Sysnum_Tables "HOL-Library.Code_Target_Nat" "HOL-Library.Multiset"
begin

section \<open>Translation of system call numbers\<close>

text \<open>
  syscall/sysnum.c for an arm64 build (arch.h): between the neutral numbers of the enumeration and
  those of the two ABIs, 64-bit and 32-bit.  A table is an array indexed by the architecture's
  number; the entries its initializer skips are \<open>PR_void\<close>.
\<close>

type_synonym word_t = "64 word"

definition SYSCALL_AVOIDER :: word_t where "SYSCALL_AVOIDER = -1"

datatype Abi = ABI_DEFAULT | ABI_2 | ABI_3

record Sysnums =
  sn_table :: "nat \<Rightarrow> nat"
  sn_offset :: word_t
  sn_length :: nat

text \<open>What the designated initializers of C build from a list of entries.\<close>

definition array_get :: "(nat \<times> nat) list \<Rightarrow> nat \<Rightarrow> nat" where
  "array_get entries i = (case map_of entries i of None \<Rightarrow> PR_void | Some s \<Rightarrow> s)"

fun array_length :: "(nat \<times> nat) list \<Rightarrow> nat" where
  "array_length [] = 0"
| "array_length (e # entries) = max (Suc (fst e)) (array_length entries)"

text \<open>On arm64 there is no third ABI: with assertions compiled out nothing is initialised.\<close>

definition get_sysnums :: "Abi \<Rightarrow> Sysnums res" where
  "get_sysnums abi =
     (case abi of
        ABI_DEFAULT \<Rightarrow>
          Inr \<lparr>sn_table = array_get sysnums_arm64, sn_offset = 0, sn_length = array_length sysnums_arm64\<rparr>
      | ABI_2 \<Rightarrow>
          Inr \<lparr>sn_table = array_get sysnums_arm, sn_offset = 0, sn_length = array_length sysnums_arm\<rparr>
      | ABI_3 \<Rightarrow> Inl Undefined)"

text \<open>The check of the source lets the index be the length of the table: that read is undefined.\<close>

definition translate_sysnum :: "Abi \<Rightarrow> word_t \<Rightarrow> nat res" where
  "translate_sysnum abi sysnum =
     (case get_sysnums abi of
        Inl e \<Rightarrow> Inl e
      | Inr sysnums \<Rightarrow>
          (if sysnum < sn_offset sysnums then Inr PR_void
           else
             (let index = unat (sysnum - sn_offset sysnums) in
              if index > sn_length sysnums then Inr PR_void
              else if index = sn_length sysnums then Inl Undefined
              else Inr (sn_table sysnums index))))"

definition detranslate_sysnum :: "Abi \<Rightarrow> nat \<Rightarrow> word_t res" where
  "detranslate_sysnum abi sysnum =
     (if sysnum = PR_void then Inr SYSCALL_AVOIDER
      else
        (case get_sysnums abi of
           Inl e \<Rightarrow> Inl e
         | Inr sysnums \<Rightarrow>
             (case find (\<lambda>i. sn_table sysnums i = sysnum) [0..<sn_length sysnums] of
                None \<Rightarrow> Inr SYSCALL_AVOIDER
              | Some i \<Rightarrow> Inr (of_nat i + sn_offset sysnums))))"

definition stringify_sysnum :: "nat \<Rightarrow> string" where
  "stringify_sysnum sysnum =
     (if sysnum = 0 then ''void''
      else if sysnum \<ge> PR_NB_SYSNUM then []
      else (case map_of sysnum_names sysnum of None \<Rightarrow> [] | Some name \<Rightarrow> name))"

subsection \<open>Tables\<close>

text \<open>
  The contract of a table: its entries have distinct indices, its values that are not void are
  distinct, and it fits well below the avoided number.
\<close>

lemma unat_avoider: "unat SYSCALL_AVOIDER = 2 ^ 64 - 1"
  by code_simp

locale sysnum_table =
  fixes entries :: "(nat \<times> nat) list"
  assumes distinct_index: "distinct (map fst entries)"
    and distinct_value: "distinct (filter (\<lambda>s. s \<noteq> PR_void) (map snd entries))"
    and short: "array_length entries < 2 ^ 63"
begin

lemma array_get_Some: "array_get entries i = s \<Longrightarrow> s \<noteq> PR_void \<Longrightarrow> (i, s) \<in> set entries"
  by (auto simp: array_get_def split: option.splits dest: map_of_SomeD)

lemma array_get_inject:
  assumes "array_get entries i = s" and "array_get entries j = s" and "s \<noteq> PR_void"
  shows "i = j"
proof -
  note i = array_get_Some[OF assms(1,3)] and j = array_get_Some[OF assms(2,3)]
  have "distinct (map snd (filter (\<lambda>e. snd e \<noteq> PR_void) entries))"
    using distinct_value by (simp add: filter_map comp_def)
  then have inj: "inj_on snd (set (filter (\<lambda>e. snd e \<noteq> PR_void) entries))"
    by (simp add: distinct_map)
  have "(i, s) \<in> set (filter (\<lambda>e. snd e \<noteq> PR_void) entries)"
    "(j, s) \<in> set (filter (\<lambda>e. snd e \<noteq> PR_void) entries)"
    using i j assms(3) by auto
  then have "(i, s) = (j, s)" by (intro inj_onD[OF inj]) simp_all
  then show ?thesis by simp
qed

lemma index_word:
  assumes "i < array_length entries"
  shows "unat (of_nat i :: word_t) = i" and "(of_nat i :: word_t) \<noteq> SYSCALL_AVOIDER"
proof -
  have i: "i < 2 ^ 63" using assms short by simp
  then show u: "unat (of_nat i :: word_t) = i" by (simp add: unat_of_nat)
  show "(of_nat i :: word_t) \<noteq> SYSCALL_AVOIDER" 
    using u i unat_avoider by auto
qed

lemma find_index:
  assumes "i < array_length entries" and "array_get entries i = s" and "s \<noteq> PR_void"
  shows "find (\<lambda>i. array_get entries i = s) [0..<array_length entries] = Some i"
  unfolding find_Some_iff
proof (intro exI[of _ i] conjI allI impI)
  fix j assume "j < i"
  then show "array_get entries ([0..<array_length entries] ! j) \<noteq> s"
    using assms array_get_inject[of j s i] by auto
qed (use assms in auto)

lemma find_index_Some:
  assumes "find (\<lambda>i. array_get entries i = s) [0..<array_length entries] = Some i"
  shows "i < array_length entries \<and> array_get entries i = s"
  using assms by (auto simp: find_Some_iff)

end

text \<open>Distinctness is checked by merging, which evaluates fast.\<close>

fun ascending :: "nat list \<Rightarrow> bool" where
  "ascending (x # y # zs) = (x < y \<and> ascending (y # zs))"
| "ascending _ = True"

fun merge_two :: "nat list \<Rightarrow> nat list \<Rightarrow> nat list" where
  "merge_two [] ys = ys"
| "merge_two (x # xs) [] = x # xs"
| "merge_two (x # xs) (y # ys) =
     (if x \<le> y then x # merge_two xs (y # ys) else y # merge_two (x # xs) ys)"

fun merge_pairs :: "nat list list \<Rightarrow> nat list list" where
  "merge_pairs (a # b # cs) = merge_two a b # merge_pairs cs"
| "merge_pairs cs = cs"

definition ascends :: "nat list \<Rightarrow> bool" where
  "ascends xs = ascending (concat ((merge_pairs ^^ 9) (map (\<lambda>x. [x]) xs)))"

lemma ascending_distinct: "ascending xs \<Longrightarrow> distinct xs \<and> (\<forall>x \<in> set xs. hd xs \<le> x)"
  by (induction xs rule: ascending.induct) force+

lemma mset_merge_two: "mset (merge_two xs ys) = mset xs + mset ys"
  by (induction xs ys rule: merge_two.induct) auto

lemma mset_merge_pairs: "mset (concat (merge_pairs xss)) = mset (concat xss)"
  by (induction xss rule: merge_pairs.induct) (auto simp: mset_merge_two)

lemma mset_merge_pairs_iter: "mset (concat ((merge_pairs ^^ n) xss)) = mset (concat xss)"
  by (induction n) (auto simp: mset_merge_pairs)

lemma ascends_distinct:
  assumes "ascends xs"
  shows "distinct xs"
proof -
  let ?ys = "concat ((merge_pairs ^^ 9) (map (\<lambda>x. [x]) xs))"
  have "mset ?ys = mset xs"
    by (simp only: mset_merge_pairs_iter) simp
  moreover have "distinct ?ys"
    using assms ascending_distinct by (simp only: ascends_def)
  ultimately show ?thesis using mset_eq_imp_distinct_iff by blast
qed

lemma array_lengths:
  "array_length sysnums_arm64 = 440" "array_length sysnums_arm = 440"
  by code_simp+

interpretation arm64: sysnum_table sysnums_arm64
proof
  show "distinct (map fst sysnums_arm64)" by (rule ascends_distinct) code_simp
  show "distinct (filter (\<lambda>s. s \<noteq> PR_void) (map snd sysnums_arm64))"
    by (rule ascends_distinct) code_simp
  show "array_length sysnums_arm64 < 2 ^ 63" by (simp add: array_lengths)
qed

interpretation arm: sysnum_table sysnums_arm
proof
  show "distinct (map fst sysnums_arm)" by (rule ascends_distinct) code_simp
  show "distinct (filter (\<lambda>s. s \<noteq> PR_void) (map snd sysnums_arm))"
    by (rule ascends_distinct) code_simp
  show "array_length sysnums_arm < 2 ^ 63" by (simp add: array_lengths)
qed

lemmas sysnums_simps = get_sysnums_def array_lengths

subsection \<open>Both directions agree\<close>

lemma translate_detranslate:
  assumes "detranslate_sysnum abi s = Inr n" and "n \<noteq> SYSCALL_AVOIDER"
  shows "translate_sysnum abi n = Inr s"
proof -
  have void: "s \<noteq> PR_void"
  proof
    assume "s = PR_void"
    then show False using assms by (simp add: detranslate_sysnum_def)
  qed
  show ?thesis
  proof (cases abi)
    case ABI_DEFAULT
    then obtain i where i: "find (\<lambda>i. array_get sysnums_arm64 i = s) [0..<440] = Some i" "n = of_nat i"
      using assms void by (auto simp: detranslate_sysnum_def sysnums_simps split: option.splits)
    have "i < 440 \<and> array_get sysnums_arm64 i = s"
      using arm64.find_index_Some[of s i] i(1) by (simp add: array_lengths)
    then show ?thesis
      using arm64.index_word(1)[of i] ABI_DEFAULT i(2)
      by (simp add: translate_sysnum_def sysnums_simps)
  next
    case ABI_2
    then obtain i where i: "find (\<lambda>i. array_get sysnums_arm i = s) [0..<440] = Some i" "n = of_nat i"
      using assms void by (auto simp: detranslate_sysnum_def sysnums_simps split: option.splits)
    have "i < 440 \<and> array_get sysnums_arm i = s"
      using arm.find_index_Some[of s i] i(1) by (simp add: array_lengths)
    then show ?thesis
      using arm.index_word(1)[of i] ABI_2 i(2)
      by (simp add: translate_sysnum_def sysnums_simps)
  next
    case ABI_3
    then show ?thesis using assms void by (simp add: detranslate_sysnum_def sysnums_simps)
  qed
qed

lemma detranslate_translate:
  assumes "translate_sysnum abi n = Inr s" and "s \<noteq> PR_void"
  shows "detranslate_sysnum abi s = Inr n"
proof (cases abi)
  case ABI_DEFAULT
  then have i: "unat n < 440" "array_get sysnums_arm64 (unat n) = s"
    using assms by (auto simp: translate_sysnum_def sysnums_simps Let_def split: if_split_asm)
  then show ?thesis
    using arm64.find_index[of "unat n" s] assms(2) ABI_DEFAULT
    by (simp add: detranslate_sysnum_def sysnums_simps)
next
  case ABI_2
  then have i: "unat n < 440" "array_get sysnums_arm (unat n) = s"
    using assms by (auto simp: translate_sysnum_def sysnums_simps Let_def split: if_split_asm)
  then show ?thesis
    using arm.find_index[of "unat n" s] assms(2) ABI_2
    by (simp add: detranslate_sysnum_def sysnums_simps)
qed (use assms in \<open>simp add: translate_sysnum_def sysnums_simps\<close>)

lemma detranslate_sysnum_defined: "abi \<noteq> ABI_3 \<Longrightarrow> \<exists>n. detranslate_sysnum abi s = Inr n"
  by (cases abi) (auto simp: detranslate_sysnum_def sysnums_simps split: option.split)

lemma detranslate_sysnum_small:
  assumes "detranslate_sysnum abi s = Inr n" and "n \<noteq> SYSCALL_AVOIDER"
  shows "unat n < 440"
proof -
  have "translate_sysnum abi n = Inr s" by (rule translate_detranslate[OF assms])
  moreover have "s \<noteq> PR_void" using assms by (auto simp: detranslate_sysnum_def split: if_split_asm)
  ultimately show ?thesis
    by (cases abi) (auto simp: translate_sysnum_def sysnums_simps Let_def split: if_split_asm)
qed

text \<open>The only read outside a table.\<close>

lemma translate_sysnum_undefined:
  "translate_sysnum abi n = Inl e \<longleftrightarrow> e = Undefined \<and> (abi = ABI_3 \<or> n = 440)"
proof -
  have "unat n = 440 \<longleftrightarrow> n = 440" by (simp add: word_unat_eq_iff)
  then show ?thesis
    by (cases abi) (auto simp: translate_sysnum_def sysnums_simps Let_def)
qed

lemma translate_avoider: "abi \<noteq> ABI_3 \<Longrightarrow> translate_sysnum abi SYSCALL_AVOIDER = Inr PR_void"
  by (cases abi) (simp_all add: translate_sysnum_def sysnums_simps Let_def unat_avoider)

text \<open>The names, in the order of the enumeration.\<close>

fun consecutive :: "nat \<Rightarrow> nat list \<Rightarrow> bool" where
  "consecutive n [] = True"
| "consecutive n (x # xs) = (x = n \<and> consecutive (Suc n) xs)"

lemma consecutive_upt: "consecutive n xs \<Longrightarrow> xs = [n..<n + length xs]"
proof (induction n xs rule: consecutive.induct)
  case (2 n x xs)
  then have "xs = [Suc n..<Suc n + length xs]" by simp
  then have "n # xs = [n..<n + length (x # xs)]"
    by (subst upt_conv_Cons) (simp_all del: upt_Suc)
  then show ?case using 2(2) by (simp del: upt_Suc)
qed simp

lemmas sysnum_names_defs = sysnum_names_def sysnum_names_1_def sysnum_names_2_def sysnum_names_3_def

lemma sysnum_names_complete: "map fst sysnum_names = [1..<PR_NB_SYSNUM]"
proof -
  have "consecutive 1 (map fst sysnum_names)" by (simp add: sysnum_names_defs)
  moreover have "length sysnum_names = 449" by (simp add: sysnum_names_defs)
  ultimately show ?thesis using consecutive_upt[of 1 "map fst sysnum_names"] by simp
qed

lemma stringify_sysnum_named:
  assumes "(s, name) \<in> set sysnum_names"
  shows "stringify_sysnum s = name"
proof -
  have "s \<in> set (map fst sysnum_names)" using assms by force
  then have "1 \<le> s" "s < 450" unfolding sysnum_names_complete by simp_all
  moreover have "distinct (map fst sysnum_names)" unfolding sysnum_names_complete by simp
  ultimately show ?thesis using assms by (simp add: stringify_sysnum_def)
qed

end
