(* ===== verification/Registers.thy ===== *)
theory Registers
  imports Sysnum
begin

section \<open>Registers of a tracee\<close>

text \<open>
  tracee/reg.c and the parts of tracee/abi.h it uses, for an arm64 build: the cached banks of
  registers, read and written at the offsets of the current ABI, and written back to the process.
  A bank is the memory of a \<open>struct user_regs_struct\<close> (x0 to x30, sp, pc, pstate), byte by byte.
\<close>

unbundle bit_operations_syntax

subsection \<open>Memory\<close>

type_synonym bank = "nat \<Rightarrow> 8 word"

text \<open>The machine is little-endian.\<close>

fun load_bytes :: "bank \<Rightarrow> nat \<Rightarrow> nat \<Rightarrow> word_t" where
  "load_bytes b off 0 = 0"
| "load_bytes b off (Suc n) = ucast (b off) OR push_bit 8 (load_bytes b (Suc off) n)"

definition store_bytes :: "nat \<Rightarrow> bank \<Rightarrow> nat \<Rightarrow> word_t \<Rightarrow> bank" where
  "store_bytes n b off v =
     (\<lambda>i. if off \<le> i \<and> i < off + n then ucast (drop_bit (8 * (i - off)) v) else b i)"

definition load64 :: "bank \<Rightarrow> nat \<Rightarrow> word_t" where
  "load64 b off = load_bytes b off 8"

lemma bit_load_bytes:
  "bit (load_bytes b off n) k \<longleftrightarrow> k < 8 * n \<and> k < 64 \<and> bit (b (off + k div 8)) (k mod 8)"
proof (induction n arbitrary: off k)
  case (Suc n)
  show ?case
  proof (cases "k < 8")
    case True
    then show ?thesis
      by (simp add: bit_or_iff bit_ucast_iff bit_push_bit_iff)
  next
    case False
    then obtain j where "k = 8 + j" by (metis le_add_diff_inverse not_le)
    then have "off + k div 8 = Suc off + (k - 8) div 8" "(k - 8) mod 8 = k mod 8"
      by auto
    moreover have "\<not> bit (b off) k" using False bit_imp_le_length[of "b off" k] by auto
    ultimately show ?thesis
      using False Suc.IH[of "Suc off" "k - 8"]
      by (auto simp: bit_or_iff bit_ucast_iff bit_push_bit_iff)
  qed
qed simp

lemma bit_load64: "bit (load64 b off) k \<longleftrightarrow> k < 64 \<and> bit (b (off + k div 8)) (k mod 8)"
  by (auto simp: load64_def bit_load_bytes)

lemma load64_cong: "(\<And>i. off \<le> i \<Longrightarrow> i < off + 8 \<Longrightarrow> b i = b' i) \<Longrightarrow> load64 b off = load64 b' off"
  by (rule bit_word_eqI) (auto simp: bit_load64)

lemma load64_store64: "load64 (store_bytes 8 b off v) off = v"
proof (rule bit_word_eqI)
  fix k assume "k < LENGTH(64)"
  then have "k div 8 < 8" "8 * (k div 8) + k mod 8 = k" by auto
  then show "bit (load64 (store_bytes 8 b off v) off) k = bit v k"
    using \<open>k < LENGTH(64)\<close> by (simp add: bit_load64 store_bytes_def bit_ucast_iff bit_drop_bit_eq)
qed

lemma store_load64:
  "store_bytes 8 b off (load64 b' off) = (\<lambda>i. if off \<le> i \<and> i < off + 8 then b' i else b i)"
proof (rule ext)
  fix i
  have "ucast (drop_bit (8 * (i - off)) (load64 b' off)) = b' i" if "off \<le> i" "i < off + 8"
  proof (rule bit_word_eqI)
    fix k assume k: "k < LENGTH(8)"
    have "(8 * (i - off) + k) div 8 = i - off" "(8 * (i - off) + k) mod 8 = k"
      using k by auto
    moreover have "8 * (i - off) + k < 64" using k that by auto
    ultimately show "bit (ucast (drop_bit (8 * (i - off)) (load64 b' off)) :: 8 word) k = bit (b' i) k"
      using k that by (simp add: bit_ucast_iff bit_drop_bit_eq bit_load64 add.commute)
  qed
  then show "store_bytes 8 b off (load64 b' off) i = (if off \<le> i \<and> i < off + 8 then b' i else b i)"
    by (simp add: store_bytes_def)
qed

lemma load64_store_other:
  "off + 8 \<le> off' \<or> off' + n \<le> off \<Longrightarrow> load64 (store_bytes n b off' v) off = load64 b off"
  by (rule load64_cong) (auto simp: store_bytes_def)

lemma low32: "bit (v AND 0xFFFFFFFF :: word_t) k \<longleftrightarrow> bit v k \<and> k < 32"
proof -
  have "(0xFFFFFFFF :: word_t) = mask 32" by (simp add: mask_eq_exp_minus_1)
  then show ?thesis
    unfolding \<open>0xFFFFFFFF = mask 32\<close> bit_and_iff bit_mask_iff by (auto dest: bit_imp_le_length)
qed

lemma load32_store32:
  "load64 (store_bytes 4 b off v) off AND 0xFFFFFFFF = v AND 0xFFFFFFFF"
proof (rule bit_word_eqI)
  fix k assume k: "k < LENGTH(64)"
  have "bit (load64 (store_bytes 4 b off v) off) k = bit v k" if "k < 32"
  proof -
    have "k div 8 < 4" "8 * (k div 8) + k mod 8 = k" using that by auto
    then show ?thesis
      using k by (simp add: bit_load64 store_bytes_def bit_ucast_iff bit_drop_bit_eq)
  qed
  then show "bit (load64 (store_bytes 4 b off v) off AND 0xFFFFFFFF) k = bit (v AND 0xFFFFFFFF) k"
    by (auto simp: low32)
qed

lemma load32_store_other:
  assumes "off + 4 \<le> off' \<or> off' + n \<le> off"
  shows "load64 (store_bytes n b off' v) off AND 0xFFFFFFFF = load64 b off AND 0xFFFFFFFF"
proof (rule bit_word_eqI)
  fix k
  have "store_bytes n b off' v (off + k div 8) = b (off + k div 8)" if "k < 32"
    using that assms by (auto simp: store_bytes_def)
  then show "bit (load64 (store_bytes n b off' v) off AND 0xFFFFFFFF) k
      = bit (load64 b off AND 0xFFFFFFFF) k"
    by (auto simp: low32 bit_load64)
qed

subsection \<open>The data\<close>

datatype RegVersion = CURRENT | ORIGINAL | MODIFIED | ORIGINAL_SECCOMP_REWRITE

datatype Reg =
    SYSARG_NUM | SYSARG_1 | SYSARG_2 | SYSARG_3 | SYSARG_4 | SYSARG_5 | SYSARG_6 | SYSARG_RESULT
  | STACK_POINTER | INSTR_POINTER | RTLD_FINI | STATE_FLAGS | USERARG_1

text \<open>The fields of \<open>Tracee\<close> that concern its registers.\<close>

record Tracee_Regs =
  regs :: "RegVersion \<Rightarrow> bank"
  regs_were_changed :: bool
  restore_original_regs :: bool
  restore_original_regs_after_seccomp_event :: bool
  is_aarch32 :: bool

text \<open>
  Offsets in \<open>struct user_regs_struct\<close>; the two registers that the initializers of the arrays skip
  have offset 0.
\<close>

definition reg_offset :: "Reg \<Rightarrow> nat" where
  "reg_offset reg =
     (case reg of
        SYSARG_NUM \<Rightarrow> 8 * 8 | SYSARG_1 \<Rightarrow> 0 | SYSARG_2 \<Rightarrow> 8 | SYSARG_3 \<Rightarrow> 8 * 2 | SYSARG_4 \<Rightarrow> 8 * 3
      | SYSARG_5 \<Rightarrow> 8 * 4 | SYSARG_6 \<Rightarrow> 8 * 5 | SYSARG_RESULT \<Rightarrow> 0 | STACK_POINTER \<Rightarrow> 8 * 31
      | INSTR_POINTER \<Rightarrow> 8 * 32 | RTLD_FINI \<Rightarrow> 0 | STATE_FLAGS \<Rightarrow> 0 | USERARG_1 \<Rightarrow> 0)"

definition reg_offset_armeabi :: "Reg \<Rightarrow> nat" where
  "reg_offset_armeabi reg =
     (case reg of
        SYSARG_NUM \<Rightarrow> 7 * 4 | SYSARG_1 \<Rightarrow> 0 | SYSARG_2 \<Rightarrow> 4 | SYSARG_3 \<Rightarrow> 2 * 4 | SYSARG_4 \<Rightarrow> 3 * 4
      | SYSARG_5 \<Rightarrow> 4 * 4 | SYSARG_6 \<Rightarrow> 5 * 4 | SYSARG_RESULT \<Rightarrow> 0 | STACK_POINTER \<Rightarrow> 13 * 4
      | INSTR_POINTER \<Rightarrow> 15 * 4 | RTLD_FINI \<Rightarrow> 0 | STATE_FLAGS \<Rightarrow> 0 | USERARG_1 \<Rightarrow> 0)"

definition REG_offset :: "Tracee_Regs \<Rightarrow> Reg \<Rightarrow> nat" where
  "REG_offset t reg = (if is_aarch32 t then reg_offset_armeabi reg else reg_offset reg)"

definition REG :: "Tracee_Regs \<Rightarrow> RegVersion \<Rightarrow> Reg \<Rightarrow> word_t" where
  "REG t version reg = load64 (regs t version) (REG_offset t reg)"

definition get_abi :: "Tracee_Regs \<Rightarrow> Abi" where
  "get_abi t = (if is_aarch32 t then ABI_2 else ABI_DEFAULT)"

definition is_32on64_mode :: "Tracee_Regs \<Rightarrow> bool" where
  "is_32on64_mode t = is_aarch32 t"

definition sizeof_word :: "Tracee_Regs \<Rightarrow> nat" where
  "sizeof_word t = (if is_32on64_mode t then 8 div 2 else 8)"

subsection \<open>The operations\<close>

definition peek_reg :: "Tracee_Regs \<Rightarrow> RegVersion \<Rightarrow> Reg \<Rightarrow> word_t" where
  "peek_reg t version reg =
     (let result = REG t version reg
      in if is_32on64_mode t then result AND 0xFFFFFFFF else result)"

definition set_bank :: "Tracee_Regs \<Rightarrow> RegVersion \<Rightarrow> bank \<Rightarrow> Tracee_Regs" where
  "set_bank t version b = t\<lparr>regs := (regs t)(version := b)\<rparr>"

definition poke_reg :: "Tracee_Regs \<Rightarrow> Reg \<Rightarrow> word_t \<Rightarrow> Tracee_Regs" where
  "poke_reg t reg v =
     (if peek_reg t CURRENT reg = v then t
      else
        (set_bank t CURRENT
           (store_bytes (if is_32on64_mode t then 4 else 8) (regs t CURRENT) (REG_offset t reg) v))
        \<lparr>regs_were_changed := True\<rparr>)"

definition save_current_regs :: "Tracee_Regs \<Rightarrow> RegVersion \<Rightarrow> Tracee_Regs" where
  "save_current_regs t version =
     (let t = (if version = ORIGINAL then t\<lparr>regs_were_changed := False\<rparr> else t)
      in set_bank t version (regs t CURRENT))"

text \<open>
  The requests of \<open>ptrace(2)\<close> that read and write the registers, over a state of the kernel: they
  fail with the value -1, which the source returns as it is, hence as -EPERM.
\<close>

record 'k Ptrace_Regs =
  p_getregset :: "'k \<Rightarrow> bank \<Rightarrow> bank option \<times> 'k"
  p_setregset :: "'k \<Rightarrow> bank \<Rightarrow> bool \<times> 'k"
  p_set_system_call :: "'k \<Rightarrow> word_t \<Rightarrow> bool \<times> 'k"

definition fetch_regs :: "'k Ptrace_Regs \<Rightarrow> Tracee_Regs \<Rightarrow> 'k \<Rightarrow> errno option \<times> Tracee_Regs \<times> 'k" where
  "fetch_regs P t k =
     (case p_getregset P k (regs t CURRENT) of
        (None, k) \<Rightarrow> (Some EPERM, t, k)
      | (Some b, k) \<Rightarrow> (None, set_bank t CURRENT b, k))"

definition RESTORE :: "RegVersion \<Rightarrow> Reg \<Rightarrow> Tracee_Regs \<Rightarrow> Tracee_Regs" where
  "RESTORE restore_from sysarg t =
     (if reg_offset SYSARG_RESULT \<noteq> reg_offset sysarg
      then set_bank t CURRENT
             (store_bytes 8 (regs t CURRENT) (REG_offset t sysarg) (REG t restore_from sysarg))
      else t)"

definition restore_regs :: "Tracee_Regs \<Rightarrow> Tracee_Regs" where
  "restore_regs t =
     (let restore_from = (if restore_original_regs_after_seccomp_event t
                          then ORIGINAL_SECCOMP_REWRITE else ORIGINAL);
          t = t\<lparr>restore_original_regs_after_seccomp_event := False\<rparr>
      in fold (RESTORE restore_from)
           [SYSARG_NUM, SYSARG_1, SYSARG_2, SYSARG_3, SYSARG_4, SYSARG_5, SYSARG_6, STACK_POINTER] t)"

definition push_specific_regs ::
  "'k Ptrace_Regs \<Rightarrow> Tracee_Regs \<Rightarrow> bool \<Rightarrow> 'k \<Rightarrow> errno option \<times> Tracee_Regs \<times> 'k" where
  "push_specific_regs P t including_sysnum k =
     (if regs_were_changed t
         \<or> (restore_original_regs t \<and> restore_original_regs_after_seccomp_event t) then
        (let t = (if restore_original_regs t then restore_regs t else t);
             current_sysnum = REG t CURRENT SYSARG_NUM
         in case (if including_sysnum \<and> current_sysnum \<noteq> REG t ORIGINAL SYSARG_NUM
                  then p_set_system_call P k current_sysnum else (True, k)) of
              (False, k) \<Rightarrow> (Some EPERM, t, k)
            | (True, k) \<Rightarrow>
                (case p_setregset P k (regs t CURRENT) of
                   (done, k) \<Rightarrow> (if done then None else Some EPERM, t, k)))
      else (None, t, k))"

definition push_regs :: "'k Ptrace_Regs \<Rightarrow> Tracee_Regs \<Rightarrow> 'k \<Rightarrow> errno option \<times> Tracee_Regs \<times> 'k" where
  "push_regs P t k = push_specific_regs P t True k"

definition SYSTRAP_SIZE :: word_t where "SYSTRAP_SIZE = 4"

definition get_systrap_size :: "Tracee_Regs \<Rightarrow> word_t" where
  "get_systrap_size t =
     (if is_aarch32 t \<and> regs t CURRENT 0x40 AND 0x20 \<noteq> 0 then 2 else SYSTRAP_SIZE)"

definition get_sysnum :: "Tracee_Regs \<Rightarrow> RegVersion \<Rightarrow> nat res" where
  "get_sysnum t version = translate_sysnum (get_abi t) (peek_reg t version SYSARG_NUM)"

definition set_sysnum :: "Tracee_Regs \<Rightarrow> nat \<Rightarrow> Tracee_Regs res" where
  "set_sysnum t sysnum =
     (case detranslate_sysnum (get_abi t) sysnum of
        Inl e \<Rightarrow> Inl e
      | Inr n \<Rightarrow> Inr (poke_reg t SYSARG_NUM n))"

subsection \<open>Reading after writing\<close>

lemma REG_offset_poke [simp]: "REG_offset (poke_reg t r v) r' = REG_offset t r'"
  by (simp add: poke_reg_def set_bank_def REG_offset_def)

lemma is_aarch32_poke [simp]: "is_aarch32 (poke_reg t r v) = is_aarch32 t"
  by (simp add: poke_reg_def set_bank_def)

lemma REG_offset_aligned:
  obtains k where "REG_offset t r = (if is_aarch32 t then 4 else 8) * k"
proof -
  have "4 dvd reg_offset_armeabi r" "8 dvd reg_offset r"
    by (cases r; simp add: reg_offset_armeabi_def reg_offset_def)+
  then obtain k k' where "reg_offset_armeabi r = 4 * k" "reg_offset r = 8 * k'"
    by (auto simp: dvd_def)
  then show thesis using that[of k] that[of k'] by (cases "is_aarch32 t") (simp_all add: REG_offset_def)
qed

lemma offsets_apart:
  assumes "REG_offset t r \<noteq> REG_offset t r'"
  shows "REG_offset t r + (if is_aarch32 t then 4 else 8) \<le> REG_offset t r'
    \<or> REG_offset t r' + (if is_aarch32 t then 4 else 8) \<le> REG_offset t r"
proof -
  obtain k where "REG_offset t r = (if is_aarch32 t then 4 else 8) * k" by (rule REG_offset_aligned)
  moreover obtain k' where "REG_offset t r' = (if is_aarch32 t then 4 else 8) * k'"
    by (rule REG_offset_aligned)
  ultimately show ?thesis using assms by (cases k k' rule: linorder_cases) auto
qed

lemma peek_poke_same:
  "peek_reg (poke_reg t r v) CURRENT r' =
     (if is_aarch32 t then v AND 0xFFFFFFFF else v)"
  if same: "REG_offset t r' = REG_offset t r"
proof (cases "peek_reg t CURRENT r = v")
  case True
  have "peek_reg t CURRENT r' = peek_reg t CURRENT r"
    by (simp add: peek_reg_def REG_def same)
  moreover have "v AND 0xFFFFFFFF = v" if "is_aarch32 t"
    using True that by (auto simp: peek_reg_def is_32on64_mode_def Let_def and.assoc)
  ultimately show ?thesis using True by (auto simp: poke_reg_def)
next
  case False
  then have "poke_reg t r v = (set_bank t CURRENT
      (store_bytes (if is_aarch32 t then 4 else 8) (regs t CURRENT) (REG_offset t r) v))
      \<lparr>regs_were_changed := True\<rparr>"
    by (simp add: poke_reg_def is_32on64_mode_def)
  then show ?thesis
    by (auto simp: peek_reg_def REG_def Let_def is_32on64_mode_def set_bank_def REG_offset_def
        load64_store64 load32_store32 same[unfolded REG_offset_def])
qed

lemma peek_poke_other:
  assumes other: "REG_offset t r' \<noteq> REG_offset t r"
  shows "peek_reg (poke_reg t r v) CURRENT r' = peek_reg t CURRENT r'"
proof (cases "peek_reg t CURRENT r = v")
  case False
  then have p: "poke_reg t r v = (set_bank t CURRENT
      (store_bytes (if is_aarch32 t then 4 else 8) (regs t CURRENT) (REG_offset t r) v))
      \<lparr>regs_were_changed := True\<rparr>"
    by (simp add: poke_reg_def is_32on64_mode_def)
  have REG: "REG (poke_reg t r v) CURRENT r' =
      load64 (store_bytes (if is_aarch32 t then 4 else 8) (regs t CURRENT) (REG_offset t r) v)
        (REG_offset t r')"
    by (simp add: REG_def) (simp add: p set_bank_def)
  show ?thesis
    using offsets_apart[OF other] unfolding peek_reg_def REG Let_def is_32on64_mode_def
    by (auto simp: REG_def load32_store_other load64_store_other split: if_split_asm)
qed (simp add: poke_reg_def)

lemma peek_poke_version: "version \<noteq> CURRENT \<Longrightarrow> peek_reg (poke_reg t r v) version r' = peek_reg t version r'"
  by (auto simp: peek_reg_def REG_def poke_reg_def set_bank_def is_32on64_mode_def REG_offset_def)

subsection \<open>What a restoration writes\<close>

text \<open>The bytes of the current bank that come from the saved one.\<close>

definition restored :: "bool \<Rightarrow> nat \<Rightarrow> bool" where
  "restored aarch32 i \<longleftrightarrow>
     (if aarch32 then 4 \<le> i \<and> i < 36 \<or> 52 \<le> i \<and> i < 60
      else 8 \<le> i \<and> i < 48 \<or> 64 \<le> i \<and> i < 72 \<or> 248 \<le> i \<and> i < 256)"

lemma RESTORE_eq:
  "RESTORE from_version r t =
     (if reg_offset r = 0 then t
      else set_bank t CURRENT
        (\<lambda>i. if REG_offset t r \<le> i \<and> i < REG_offset t r + 8 then regs t from_version i
             else regs t CURRENT i))"
  by (auto simp: RESTORE_def REG_def store_load64 reg_offset_def[of SYSARG_RESULT])

lemma set_bank_simps [simp]:
  "is_aarch32 (set_bank t v b) = is_aarch32 t" "regs (set_bank t v b) = (regs t)(v := b)"
  "restore_original_regs (set_bank t v b) = restore_original_regs t"
  "REG_offset (set_bank t v b) r = REG_offset t r"
  by (simp_all add: set_bank_def REG_offset_def)

lemma fold_RESTORE:
  assumes "from_version \<noteq> CURRENT"
  shows "regs (fold (RESTORE from_version) rs t) CURRENT =
      (\<lambda>i. if \<exists>r \<in> set rs. reg_offset r \<noteq> 0 \<and> REG_offset t r \<le> i \<and> i < REG_offset t r + 8
           then regs t from_version i else regs t CURRENT i)
    \<and> (\<forall>v. v \<noteq> CURRENT \<longrightarrow> regs (fold (RESTORE from_version) rs t) v = regs t v)
    \<and> is_aarch32 (fold (RESTORE from_version) rs t) = is_aarch32 t"
proof (induction rs arbitrary: t)
  case (Cons r rs)
  let ?t = "RESTORE from_version r t"
  have "is_aarch32 ?t = is_aarch32 t" "\<forall>v. v \<noteq> CURRENT \<longrightarrow> regs ?t v = regs t v"
    "REG_offset ?t = REG_offset t"
    by (auto simp: RESTORE_eq)
  moreover have "regs ?t CURRENT = (\<lambda>i. if reg_offset r \<noteq> 0 \<and> REG_offset t r \<le> i
      \<and> i < REG_offset t r + 8 then regs t from_version i else regs t CURRENT i)"
    by (auto simp: RESTORE_eq)
  ultimately show ?case using Cons.IH[of ?t] assms by (auto simp: fun_eq_iff)
qed simp

text \<open>The registers in the order of their restoration.\<close>

abbreviation restored_regs :: "Reg list" where
  "restored_regs \<equiv>
     [SYSARG_NUM, SYSARG_1, SYSARG_2, SYSARG_3, SYSARG_4, SYSARG_5, SYSARG_6, STACK_POINTER]"

lemma restored_bytes:
  assumes "rs = restored_regs"
  shows "(\<exists>r \<in> set rs. reg_offset r \<noteq> 0 \<and> REG_offset t r \<le> i \<and> i < REG_offset t r + 8)
    \<longleftrightarrow> restored (is_aarch32 t) i"
  unfolding assms
  by (cases "is_aarch32 t")
    (simp_all add: REG_offset_def reg_offset_def reg_offset_armeabi_def restored_def, linarith+)

definition restore_version :: "Tracee_Regs \<Rightarrow> RegVersion" where
  "restore_version t =
     (if restore_original_regs_after_seccomp_event t then ORIGINAL_SECCOMP_REWRITE else ORIGINAL)"

lemma restore_regs_bytes:
  shows regs_restored: "regs (restore_regs t) CURRENT =
    (\<lambda>i. if restored (is_aarch32 t) i then regs t (restore_version t) i else regs t CURRENT i)"
    and regs_not_restored: "v \<noteq> CURRENT \<Longrightarrow> regs (restore_regs t) v = regs t v"
    and restore_regs_aarch32: "is_aarch32 (restore_regs t) = is_aarch32 t"
proof -
  obtain rs where rs: "rs = restored_regs" by blast
  let ?t = "t\<lparr>restore_original_regs_after_seccomp_event := False\<rparr>"
  have eq: "restore_regs t = fold (RESTORE (restore_version t)) rs ?t"
    by (simp only: restore_regs_def Let_def restore_version_def rs)
  have v: "restore_version t \<noteq> CURRENT" by (simp add: restore_version_def)
  note f = fold_RESTORE[OF v, of rs ?t]
  have "REG_offset ?t = REG_offset t" by (simp add: REG_offset_def fun_eq_iff)
  then show "regs (restore_regs t) CURRENT =
    (\<lambda>i. if restored (is_aarch32 t) i then regs t (restore_version t) i else regs t CURRENT i)"
    using f restored_bytes[OF rs, of t] unfolding eq by (simp cong: if_cong)
  show "v \<noteq> CURRENT \<Longrightarrow> regs (restore_regs t) v = regs t v"
    "is_aarch32 (restore_regs t) = is_aarch32 t"
    using f unfolding eq by simp_all
qed

text \<open>What the process gets: the saved registers, but its own result and program counter.\<close>

definition kept :: "Reg set" where
  "kept = {SYSARG_1, SYSARG_RESULT, INSTR_POINTER, RTLD_FINI, STATE_FLAGS, USERARG_1}"

lemma peek_restore_regs:
  "peek_reg (restore_regs t) CURRENT r =
     (if r \<in> kept then peek_reg t CURRENT r else peek_reg t (restore_version t) r)"
proof -
  have off: "REG_offset (restore_regs t) r = REG_offset t r"
    by (simp add: REG_offset_def restore_regs_bytes)
  have val: "load64 (regs (restore_regs t) CURRENT) (REG_offset t r) AND 0xFFFFFFFF =
      load64 (regs t (if r \<in> kept then CURRENT else restore_version t)) (REG_offset t r) AND 0xFFFFFFFF"
    if "is_aarch32 t"
  proof (rule bit_word_eqI)
    fix k
    have "restored True (REG_offset t r + k div 8) \<longleftrightarrow> r \<notin> kept" if "k < 32"
      using that \<open>is_aarch32 t\<close>
      by (cases r) (auto simp: REG_offset_def reg_offset_armeabi_def restored_def kept_def)
    then show "bit (load64 (regs (restore_regs t) CURRENT) (REG_offset t r) AND 0xFFFFFFFF) k =
        bit (load64 (regs t (if r \<in> kept then CURRENT else restore_version t)) (REG_offset t r) AND 0xFFFFFFFF) k"
      using that by (auto simp: low32 bit_load64 restore_regs_bytes)
  qed
  have val64: "load64 (regs (restore_regs t) CURRENT) (REG_offset t r) =
      load64 (regs t (if r \<in> kept then CURRENT else restore_version t)) (REG_offset t r)"
    if "\<not> is_aarch32 t"
  proof (rule load64_cong)
    fix i assume "REG_offset t r \<le> i" "i < REG_offset t r + 8"
    then have "restored False i \<longleftrightarrow> r \<notin> kept"
      using that by (cases r) (auto simp: REG_offset_def reg_offset_def restored_def kept_def)
    then show "regs (restore_regs t) CURRENT i =
        regs t (if r \<in> kept then CURRENT else restore_version t) i"
      using that by (auto simp: restore_regs_bytes)
  qed
  show ?thesis
    using val val64
    by (cases "is_aarch32 t")
      (auto simp: peek_reg_def REG_def is_32on64_mode_def off restore_regs_bytes)
qed

text \<open>Pushing after a change or on request of the seccomp event.\<close>

lemma push_regs_restores:
  assumes "regs_were_changed t \<or> restore_original_regs_after_seccomp_event t"
    and "restore_original_regs t"
  shows "peek_reg (fst (snd (push_specific_regs P t b k))) CURRENT r =
    (if r \<in> kept then peek_reg t CURRENT r else peek_reg t (restore_version t) r)"
  using assms peek_restore_regs[of t r]
  by (auto simp: push_specific_regs_def Let_def split: prod.splits bool.splits)

subsection \<open>System call numbers\<close>

lemma detranslate_sysnum_32bit:
  assumes "detranslate_sysnum ABI_2 s = Inr n" and "n \<noteq> SYSCALL_AVOIDER"
  shows "n AND 0xFFFFFFFF = n"
proof -
  have "unat n < 440" by (rule detranslate_sysnum_small[OF assms])
  then have "n < 440" by (simp add: word_less_nat_alt)
  then have "n < 2 ^ 32" by (rule less_trans) simp
  then have "n AND mask 32 = n" by (rule less_mask_eq)
  then show ?thesis by (simp add: mask_eq_exp_minus_1)
qed

text \<open>What is set is read again; a number the ABI does not have reads as void.\<close>

lemma get_set_sysnum:
  assumes "set_sysnum t s = Inr t'"
  shows "get_sysnum t' CURRENT =
    Inr (if detranslate_sysnum (get_abi t) s = Inr SYSCALL_AVOIDER then PR_void else s)"
proof -
  have abi: "get_abi t \<noteq> ABI_3" by (simp add: get_abi_def)
  obtain n where n: "detranslate_sysnum (get_abi t) s = Inr n" "t' = poke_reg t SYSARG_NUM n"
    using assms by (auto simp: set_sysnum_def split: sum.splits)
  have peek: "peek_reg t' CURRENT SYSARG_NUM = (if is_aarch32 t then n AND 0xFFFFFFFF else n)"
    by (simp add: n(2) peek_poke_same)
  have abi': "get_abi t' = get_abi t" by (simp add: n(2) get_abi_def)
  show ?thesis
  proof (cases "n = SYSCALL_AVOIDER")
    case True
    have "SYSCALL_AVOIDER AND 0xFFFFFFFF = 0xFFFFFFFF" by (simp add: SYSCALL_AVOIDER_def)
    then show ?thesis
      using translate_avoider[OF abi] True n peek abi'
      by (auto simp: get_sysnum_def get_abi_def translate_sysnum_def sysnums_simps)
  next
    case False
    then have "peek_reg t' CURRENT SYSARG_NUM = n"
      using detranslate_sysnum_32bit[of s n] n(1) by (auto simp: peek get_abi_def)
    then show ?thesis
      using translate_detranslate[OF n(1) False] False n(1) by (simp add: get_sysnum_def abi')
  qed
qed

end
