(* ===== verification/Seccomp.thy ===== *)
theory Seccomp
  imports Sysnum
begin

section \<open>The filter of system calls\<close>

text \<open>
  syscall/seccomp.c: the table of the system calls PRoot wants to see, its merge with the tables of
  the extensions, and the BPF program that tells the kernel about them.  An array that ends with
  FILTERED_SYSNUM_END is the list of the entries before it.  Allocations succeed.
\<close>

unbundle bit_operations_syntax

subsection \<open>Data\<close>

record FilteredSysnum =
  fs_value :: nat
  fs_flags :: word_t

abbreviation (input) filtered :: "nat \<times> word_t \<Rightarrow> FilteredSysnum" where
  "filtered f \<equiv> \<lparr>fs_value = fst f, fs_flags = snd f\<rparr>"

definition FILTER_SYSEXIT :: word_t where "FILTER_SYSEXIT = 1"

record SeccompArch =
  sa_value :: "32 word"
  sa_abis :: "Abi list"

definition AUDIT_ARCH_AARCH64 :: "32 word" where "AUDIT_ARCH_AARCH64 = 0xC00000B7"
definition AUDIT_ARCH_ARM :: "32 word" where "AUDIT_ARCH_ARM = 0x40000028"

definition SECCOMP_ARCHS :: "SeccompArch list" where
  "SECCOMP_ARCHS =
     [\<lparr>sa_value = AUDIT_ARCH_AARCH64, sa_abis = [ABI_DEFAULT]\<rparr>,
      \<lparr>sa_value = AUDIT_ARCH_ARM, sa_abis = [ABI_2]\<rparr>]"

text \<open>The structures and the constants of linux/filter.h and linux/seccomp.h.\<close>

record sock_filter =
  code :: "16 word"
  jt :: "8 word"
  jf :: "8 word"
  k_field :: "32 word"

record sock_fprog =
  prog_filter :: "sock_filter list"
  prog_len :: "16 word"

definition BPF_STMT :: "16 word \<Rightarrow> 32 word \<Rightarrow> sock_filter" where
  "BPF_STMT c k = \<lparr>code = c, jt = 0, jf = 0, k_field = k\<rparr>"

definition BPF_JUMP :: "16 word \<Rightarrow> 32 word \<Rightarrow> 8 word \<Rightarrow> 8 word \<Rightarrow> sock_filter" where
  "BPF_JUMP c k t f = \<lparr>code = c, jt = t, jf = f, k_field = k\<rparr>"

text \<open>BPF_LD + BPF_W + BPF_ABS, BPF_JMP + BPF_JEQ + BPF_K, BPF_JMP + BPF_JA + BPF_K, BPF_RET + BPF_K.\<close>

definition BPF_LD_W_ABS :: "16 word" where "BPF_LD_W_ABS = 0x20"
definition BPF_JMP_JEQ_K :: "16 word" where "BPF_JMP_JEQ_K = 0x15"
definition BPF_JMP_JA_K :: "16 word" where "BPF_JMP_JA_K = 0x05"
definition BPF_RET_K :: "16 word" where "BPF_RET_K = 0x06"

definition SECCOMP_RET_KILL :: "32 word" where "SECCOMP_RET_KILL = 0"
definition SECCOMP_RET_TRACE :: "32 word" where "SECCOMP_RET_TRACE = 0x7FF00000"
definition SECCOMP_RET_ALLOW :: "32 word" where "SECCOMP_RET_ALLOW = 0x7FFF0000"

definition UINT32_MAX :: nat where "UINT32_MAX = 4294967295"

text \<open>Offsets of the fields nr and arch of \<open>struct seccomp_data\<close>.\<close>

definition nr_offset :: "32 word" where "nr_offset = 0"
definition arch_offset :: "32 word" where "arch_offset = 4"

lemmas bpf_codes = BPF_LD_W_ABS_def BPF_JMP_JEQ_K_def BPF_JMP_JA_K_def BPF_RET_K_def

subsection \<open>Construction of the program\<close>

definition new_program_filter :: "sock_fprog" where
  "new_program_filter = \<lparr>prog_filter = [], prog_len = 0\<rparr>"

definition add_statements :: "sock_fprog \<Rightarrow> sock_filter list \<Rightarrow> sock_fprog" where
  "add_statements program statements = program\<lparr>prog_filter := prog_filter program @ statements\<rparr>"

definition LENGTH_TRACE_SYSCALL :: nat where "LENGTH_TRACE_SYSCALL = 2"
definition LENGTH_END_SECTION :: nat where "LENGTH_END_SECTION = 1"

definition trace_statements :: "word_t \<Rightarrow> 32 word \<Rightarrow> sock_filter list" where
  "trace_statements syscall flag =
     [BPF_JUMP BPF_JMP_JEQ_K (ucast syscall) 0 1, BPF_STMT BPF_RET_K (SECCOMP_RET_TRACE + flag)]"

definition add_trace_syscall :: "sock_fprog \<Rightarrow> word_t \<Rightarrow> 32 word \<Rightarrow> sock_fprog res" where
  "add_trace_syscall program syscall flag =
     (if unat syscall > UINT32_MAX then Err ERANGE
      else Inr (add_statements program (trace_statements syscall flag)))"

text \<open>The 16-bit length of the program is the length before this section.\<close>

definition end_arch_section :: "sock_fprog \<Rightarrow> nat \<Rightarrow> sock_fprog res" where
  "end_arch_section program nb_traced_syscalls =
     (let program = add_statements program [BPF_STMT BPF_RET_K SECCOMP_RET_ALLOW]
      in if int (length (prog_filter program)) - uint (prog_len program)
            \<noteq> int (LENGTH_END_SECTION + nb_traced_syscalls * LENGTH_TRACE_SYSCALL)
         then Err ERANGE else Inr program)"

definition start_statements :: "32 word \<Rightarrow> nat \<Rightarrow> sock_filter list" where
  "start_statements arch section_length =
     [BPF_STMT BPF_LD_W_ABS arch_offset,
      BPF_JUMP BPF_JMP_JEQ_K arch 1 0,
      BPF_STMT BPF_JMP_JA_K (of_nat (section_length + 1)),
      BPF_STMT BPF_LD_W_ABS nr_offset]"

definition start_arch_section :: "sock_fprog \<Rightarrow> 32 word \<Rightarrow> nat \<Rightarrow> sock_fprog res" where
  "start_arch_section program arch nb_traced_syscalls =
     (let section_length = LENGTH_END_SECTION + nb_traced_syscalls * LENGTH_TRACE_SYSCALL
      in if section_length > UINT32_MAX - 1 then Err ERANGE
         else
           (let program = add_statements program (start_statements arch section_length)
            in Inr (program\<lparr>prog_len := of_nat (length (prog_filter program))\<rparr>)))"

definition finalize_program_filter :: "sock_fprog \<Rightarrow> sock_fprog" where
  "finalize_program_filter program =
     (let program = add_statements program [BPF_STMT BPF_RET_K SECCOMP_RET_KILL]
      in program\<lparr>prog_len := of_nat (length (prog_filter program))\<rparr>)"

text \<open>The loops of \<open>set_seccomp_filters\<close>.\<close>

definition traced :: "Abi \<Rightarrow> FilteredSysnum \<Rightarrow> bool" where
  "traced abi f \<longleftrightarrow> detranslate_sysnum abi (fs_value f) \<noteq> Inr SYSCALL_AVOIDER"

definition nb_traced :: "Abi list \<Rightarrow> FilteredSysnum list \<Rightarrow> nat" where
  "nb_traced abis sysnums = sum_list (map (\<lambda>abi. length (filter (traced abi) sysnums)) abis)"

fun add_traces_abi :: "sock_fprog \<Rightarrow> Abi \<Rightarrow> FilteredSysnum list \<Rightarrow> sock_fprog res" where
  "add_traces_abi program abi [] = Inr program"
| "add_traces_abi program abi (f # sysnums) =
     (case detranslate_sysnum abi (fs_value f) of
        Inl e \<Rightarrow> Inl e
      | Inr syscall \<Rightarrow>
          (if syscall = SYSCALL_AVOIDER then add_traces_abi program abi sysnums
           else
             (case add_trace_syscall program syscall (ucast (fs_flags f)) of
                Inl e \<Rightarrow> Inl e
              | Inr program \<Rightarrow> add_traces_abi program abi sysnums)))"

fun add_traces :: "sock_fprog \<Rightarrow> Abi list \<Rightarrow> FilteredSysnum list \<Rightarrow> sock_fprog res" where
  "add_traces program [] sysnums = Inr program"
| "add_traces program (abi # abis) sysnums =
     (case add_traces_abi program abi sysnums of
        Inl e \<Rightarrow> Inl e
      | Inr program \<Rightarrow> add_traces program abis sysnums)"

fun add_archs :: "sock_fprog \<Rightarrow> SeccompArch list \<Rightarrow> FilteredSysnum list \<Rightarrow> sock_fprog res" where
  "add_archs program [] sysnums = Inr program"
| "add_archs program (arch # archs) sysnums =
     (let n = nb_traced (sa_abis arch) sysnums in
      case start_arch_section program (sa_value arch) n of
        Inl e \<Rightarrow> Inl e
      | Inr program \<Rightarrow>
          (case add_traces program (sa_abis arch) sysnums of
             Inl e \<Rightarrow> Inl e
           | Inr program \<Rightarrow>
               (case end_arch_section program n of
                  Inl e \<Rightarrow> Inl e
                | Inr program \<Rightarrow> add_archs program archs sysnums)))"

definition build_filter :: "FilteredSysnum list \<Rightarrow> sock_fprog res" where
  "build_filter sysnums =
     (case add_archs new_program_filter SECCOMP_ARCHS sysnums of
        Inl e \<Rightarrow> Inl e
      | Inr program \<Rightarrow> Inr (finalize_program_filter program))"

text \<open>The two requests of \<open>prctl(2)\<close>, which fail with -1.\<close>

record 'k Prctl =
  k_no_new_privs :: "'k \<Rightarrow> bool \<times> 'k"
  k_set_seccomp :: "'k \<Rightarrow> sock_fprog \<Rightarrow> bool \<times> 'k"

definition set_seccomp_filters :: "'k Prctl \<Rightarrow> FilteredSysnum list \<Rightarrow> 'k \<Rightarrow> unit res \<times> 'k" where
  "set_seccomp_filters K sysnums k =
     (case build_filter sysnums of
        Inl e \<Rightarrow> (Inl e, k)
      | Inr program \<Rightarrow>
          (case k_no_new_privs K k of
             (False, k) \<Rightarrow> (Err EPERM, k)
           | (True, k) \<Rightarrow>
               (case k_set_seccomp K k program of
                  (False, k) \<Rightarrow> (Err EPERM, k)
                | (True, k) \<Rightarrow> (Inr (), k))))"

subsection \<open>The table of PRoot and the merge\<close>

text \<open>As built for Android.\<close>

definition proot_sysnums :: "(nat \<times> word_t) list" where
  "proot_sysnums =
  [(PR_accept, FILTER_SYSEXIT), (PR_accept4, FILTER_SYSEXIT), (PR_access, 0),
   (PR_acct, 0), (PR_bind, 0), (PR_brk, FILTER_SYSEXIT),
   (PR_chdir, FILTER_SYSEXIT), (PR_chmod, 0), (PR_chown, 0),
   (PR_chown32, 0), (PR_chroot, 0), (PR_clone, 0),
   (PR_clone3, 0), (PR_close, 0), (PR_connect, 0),
   (PR_creat, 0), (PR_recvfrom, 0), (PR_recvmsg, 0),
   (PR_sendmsg, 0), (PR_sendto, 0), (PR_socket, FILTER_SYSEXIT),
   (PR_execve, FILTER_SYSEXIT), (PR_execveat, FILTER_SYSEXIT), (PR_faccessat, 0),
   (PR_faccessat2, FILTER_SYSEXIT), (PR_fchdir, FILTER_SYSEXIT), (PR_fchmodat, 0),
   (PR_fchownat, 0), (PR_fstatat64, 0), (PR_futimesat, 0),
   (PR_getcwd, FILTER_SYSEXIT), (PR_getpeername, FILTER_SYSEXIT), (PR_getsockname, FILTER_SYSEXIT),
   (PR_getxattr, 0), (PR_inotify_add_watch, 0), (PR_ioctl, FILTER_SYSEXIT),
   (PR_lchown, 0), (PR_lchown32, 0), (PR_lgetxattr, 0),
   (PR_link, 0), (PR_linkat, 0), (PR_listxattr, 0),
   (PR_llistxattr, 0), (PR_lremovexattr, 0), (PR_lsetxattr, 0),
   (PR_lstat, 0), (PR_lstat64, 0), (PR_memfd_create, 0),
   (PR_mkdir, 0), (PR_mkdirat, 0), (PR_mknod, 0),
   (PR_mknodat, 0), (PR_mount, FILTER_SYSEXIT), (PR_name_to_handle_at, 0),
   (PR_newfstatat, 0), (PR_oldlstat, 0), (PR_oldstat, 0),
   (PR_open, 0), (PR_openat, 0), (PR_openat2, 0),
   (PR_pivot_root, FILTER_SYSEXIT), (PR_prctl, 0), (PR_prlimit64, FILTER_SYSEXIT),
   (PR_ptrace, FILTER_SYSEXIT), (PR_readlink, FILTER_SYSEXIT), (PR_readlinkat, FILTER_SYSEXIT),
   (PR_removexattr, 0), (PR_rename, FILTER_SYSEXIT), (PR_renameat, FILTER_SYSEXIT),
   (PR_renameat2, FILTER_SYSEXIT), (PR_rmdir, 0), (PR_setrlimit, FILTER_SYSEXIT),
   (PR_setxattr, 0), (PR_socketcall, FILTER_SYSEXIT), (PR_stat, 0),
   (PR_stat64, 0), (PR_statfs, FILTER_SYSEXIT), (PR_statfs64, FILTER_SYSEXIT),
   (PR_statx, FILTER_SYSEXIT), (PR_swapoff, 0), (PR_swapon, 0),
   (PR_symlink, 0), (PR_symlinkat, 0), (PR_truncate, 0),
   (PR_truncate64, 0), (PR_umount, FILTER_SYSEXIT), (PR_umount2, FILTER_SYSEXIT),
   (PR_uname, FILTER_SYSEXIT), (PR_unshare, FILTER_SYSEXIT), (PR_setns, FILTER_SYSEXIT),
   (PR_unlink, 0), (PR_unlinkat, 0), (PR_uselib, 0),
   (PR_utime, FILTER_SYSEXIT), (PR_utimensat, 0), (PR_utimes, 0),
   (PR_wait4, FILTER_SYSEXIT), (PR_waitpid, FILTER_SYSEXIT)]"

fun merge_one :: "FilteredSysnum list \<Rightarrow> FilteredSysnum \<Rightarrow> FilteredSysnum list" where
  "merge_one [] new = [new]"
| "merge_one (s # sysnums) new =
     (if fs_value s = fs_value new then s\<lparr>fs_flags := fs_flags s OR fs_flags new\<rparr> # sysnums
      else s # merge_one sysnums new)"

definition merge_filtered_sysnums ::
  "FilteredSysnum list option \<Rightarrow> FilteredSysnum list \<Rightarrow> FilteredSysnum list" where
  "merge_filtered_sysnums sysnums new_sysnums =
     foldl merge_one (case sysnums of None \<Rightarrow> [] | Some l \<Rightarrow> l) new_sysnums"

text \<open>The tables of the extensions, in the order of the list; an extension may have none.\<close>

definition filtered_sysnums :: "FilteredSysnum list option list \<Rightarrow> FilteredSysnum list" where
  "filtered_sysnums extensions =
     foldl (\<lambda>sysnums ext. case ext of None \<Rightarrow> sysnums
                          | Some new \<Rightarrow> merge_filtered_sysnums (Some sysnums) new)
       (merge_filtered_sysnums None (map filtered proot_sysnums)) extensions"

definition enable_syscall_filtering ::
  "'k Prctl \<Rightarrow> FilteredSysnum list option list \<Rightarrow> 'k \<Rightarrow> unit res \<times> 'k" where
  "enable_syscall_filtering K extensions k = set_seccomp_filters K (filtered_sysnums extensions) k"

subsection \<open>The merge\<close>

text \<open>A table as a map from numbers to flags, and all the entries of the tables merged.\<close>

definition flags_of :: "FilteredSysnum list \<Rightarrow> nat \<Rightarrow> word_t option" where
  "flags_of sysnums = map_of (map (\<lambda>f. (fs_value f, fs_flags f)) sysnums)"

definition all_entries :: "FilteredSysnum list option list \<Rightarrow> FilteredSysnum set" where
  "all_entries extensions = set (map filtered proot_sysnums) \<union> (\<Union>l \<in> {l. Some l \<in> set extensions}. set l)"

text \<open>What every merge keeps: one entry for a number, holding the flags of all those merged.\<close>

definition merged :: "FilteredSysnum list \<Rightarrow> FilteredSysnum set \<Rightarrow> bool" where
  "merged sysnums entries \<longleftrightarrow>
     distinct (map fs_value sysnums) \<and> fs_value ` set sysnums = fs_value ` entries
     \<and> (\<forall>f \<in> set sysnums. \<forall>i. bit (fs_flags f) i \<longleftrightarrow>
          (\<exists>e \<in> entries. fs_value e = fs_value f \<and> bit (fs_flags e) i))"

lemma merge_one_values:
  "fs_value ` set (merge_one sysnums new) = insert (fs_value new) (fs_value ` set sysnums)"
  by (induction sysnums new rule: merge_one.induct) auto

lemma merge_one_distinct:
  "distinct (map fs_value sysnums) \<Longrightarrow> distinct (map fs_value (merge_one sysnums new))"
proof (induction sysnums new rule: merge_one.induct)
  case (2 s sysnums new)
  then have "fs_value s \<notin> fs_value ` set (merge_one sysnums new)" if "fs_value s \<noteq> fs_value new"
    using that by (auto simp: merge_one_values)
  then show ?case using 2 by auto
qed simp

lemma merge_one_entry:
  assumes "distinct (map fs_value sysnums)" and "f \<in> set (merge_one sysnums new)"
  shows "if fs_value f = fs_value new
    then bit (fs_flags f) i \<longleftrightarrow>
      bit (fs_flags new) i \<or> (\<exists>s \<in> set sysnums. fs_value s = fs_value f \<and> bit (fs_flags s) i)
    else f \<in> set sysnums"
  using assms
proof (induction sysnums new rule: merge_one.induct)
  case (2 s sysnums new)
  show ?case
  proof (cases "fs_value s = fs_value new")
    case True
    then have "f = s\<lparr>fs_flags := fs_flags s OR fs_flags new\<rparr> \<or> f \<in> set sysnums"
      using 2(3) by auto
    moreover have "fs_value x \<noteq> fs_value s" if "x \<in> set sysnums" for x
    proof
      assume "fs_value x = fs_value s"
      then have "fs_value s \<in> fs_value ` set sysnums" using that by (metis imageI)
      then show False using 2(2) by simp
    qed
    ultimately show ?thesis using True by (auto simp: bit_or_iff)
  next
    case False
    then show ?thesis using 2 by (cases "f = s") auto
  qed
qed simp

lemma merge_one_merged:
  assumes "merged sysnums entries"
  shows "merged (merge_one sysnums new) (insert new entries)"
  unfolding merged_def
proof (intro conjI ballI allI)
  have d: "distinct (map fs_value sysnums)" and v: "fs_value ` set sysnums = fs_value ` entries"
    and b: "\<And>f i. f \<in> set sysnums \<Longrightarrow> bit (fs_flags f) i \<longleftrightarrow>
      (\<exists>e \<in> entries. fs_value e = fs_value f \<and> bit (fs_flags e) i)"
    using assms by (auto simp: merged_def)
  show "distinct (map fs_value (merge_one sysnums new))" by (rule merge_one_distinct[OF d])
  show "fs_value ` set (merge_one sysnums new) = fs_value ` insert new entries"
    using v by (simp add: merge_one_values)
  fix f i assume f: "f \<in> set (merge_one sysnums new)"
  show "bit (fs_flags f) i \<longleftrightarrow> (\<exists>e \<in> insert new entries. fs_value e = fs_value f \<and> bit (fs_flags e) i)"
  proof (cases "fs_value f = fs_value new")
    case True
    have "(\<exists>s \<in> set sysnums. fs_value s = fs_value f \<and> bit (fs_flags s) i) \<longleftrightarrow>
        (\<exists>e \<in> entries. fs_value e = fs_value f \<and> bit (fs_flags e) i)"
      using v b by (metis (no_types, lifting) image_iff)
    then show ?thesis using merge_one_entry[OF d f, of i] True by auto
  next
    case False
    then show ?thesis using merge_one_entry[OF d f, of i] b[of f i] by auto
  qed
qed

lemma foldl_merged:
  "merged sysnums entries \<Longrightarrow> merged (foldl merge_one sysnums new) (set new \<union> entries)"
proof (induction new arbitrary: sysnums entries)
  case (Cons n new)
  then show ?case using merge_one_merged[of sysnums entries n] by fastforce
qed simp

lemma filtered_sysnums_merged: "merged (filtered_sysnums extensions) (all_entries extensions)"
proof -
  let ?step = "\<lambda>sysnums ext. case ext of None \<Rightarrow> sysnums
                          | Some new \<Rightarrow> merge_filtered_sysnums (Some sysnums) new"
  have step: "merged (foldl ?step sysnums exts)
      (entries \<union> (\<Union>l \<in> {l. Some l \<in> set exts}. set l))"
    if "merged sysnums entries" for sysnums exts entries
    using that
  proof (induction exts arbitrary: sysnums entries)
    case (Cons x exts)
    show ?case
    proof (cases x)
      case (Some l)
      then have "merged (?step sysnums x) (set l \<union> entries)"
        using foldl_merged[OF Cons.prems, of l] by (simp add: merge_filtered_sysnums_def)
      note Cons.IH[OF this]
      moreover have "(\<Union>l \<in> {l'. Some l' \<in> set (x # exts)}. set l) =
          set l \<union> (\<Union>l \<in> {l'. Some l' \<in> set exts}. set l)" using Some by auto
      ultimately show ?thesis by (simp only: foldl_Cons Un_assoc Un_left_commute)
    qed (use Cons in simp)
  qed simp
  have "merged [] {}" by (simp add: merged_def)
  then have "merged (merge_filtered_sysnums None (map filtered proot_sysnums))
      (set (map filtered proot_sysnums))"
    using foldl_merged[of "[]" "{}" "map filtered proot_sysnums"]
    by (simp add: merge_filtered_sysnums_def)
  from step[OF this] show ?thesis by (simp only: filtered_sysnums_def all_entries_def)
qed

subsection \<open>The program built\<close>

text \<open>The section of an architecture, for the system calls \<open>calls\<close> and their flags.\<close>

definition arch_calls :: "Abi \<Rightarrow> FilteredSysnum list \<Rightarrow> (word_t \<times> 32 word) list" where
  "arch_calls abi sysnums =
     concat (map (\<lambda>f. case detranslate_sysnum abi (fs_value f) of
       Inl e \<Rightarrow> [] | Inr n \<Rightarrow> if n = SYSCALL_AVOIDER then [] else [(n, ucast (fs_flags f))]) sysnums)"

definition traces :: "(word_t \<times> 32 word) list \<Rightarrow> sock_filter list" where
  "traces calls = concat (map (\<lambda>(n, flag). trace_statements n flag) calls)"

definition arch_section :: "32 word \<Rightarrow> (word_t \<times> 32 word) list \<Rightarrow> sock_filter list" where
  "arch_section arch calls =
     start_statements arch (1 + length calls * 2) @ traces calls @ [BPF_STMT BPF_RET_K SECCOMP_RET_ALLOW]"

lemma length_traces [simp]: "length (traces calls) = 2 * length calls"
  by (induction calls) (auto simp: traces_def trace_statements_def)

lemma length_arch_section [simp]: "length (arch_section arch calls) = 5 + 2 * length calls"
  by (simp add: arch_section_def start_statements_def)

lemma length_arch_calls: "length (arch_calls abi sysnums) \<le> length sysnums"
  by (induction sysnums) (auto simp: arch_calls_def split: sum.splits)

lemma add_traces_abi_eq:
  assumes "abi \<noteq> ABI_3"
  shows "add_traces_abi program abi sysnums =
      Inr (add_statements program (traces (arch_calls abi sysnums)))
    \<and> length (filter (traced abi) sysnums) = length (arch_calls abi sysnums)"
proof (induction sysnums arbitrary: program)
  case Nil
  then show ?case by (simp add: arch_calls_def traces_def add_statements_def)
next
  case (Cons f sysnums)
  obtain n where n: "detranslate_sysnum abi (fs_value f) = Inr n"
    using detranslate_sysnum_defined[OF assms] by blast
  show ?case
  proof (cases "n = SYSCALL_AVOIDER")
    case True
    then show ?thesis using Cons n by (simp add: traced_def arch_calls_def)
  next
    case False
    then have "\<not> unat n > UINT32_MAX"
      using detranslate_sysnum_small[OF n] by (simp add: UINT32_MAX_def)
    then show ?thesis
      using Cons n False
      by (simp add: traced_def arch_calls_def add_trace_syscall_def add_statements_def traces_def)
  qed
qed

lemma uint_len: "n < 65536 \<Longrightarrow> uint (of_nat n :: 16 word) = int n"
  by (simp add: uint_nat unat_of_nat)

lemma unat_offset: "n < 4294967296 \<Longrightarrow> unat (of_nat n :: 32 word) = n"
  by (simp add: unat_of_nat)

lemma add_archs_section:
  assumes "sa_abis arch = [abi]" and "abi \<noteq> ABI_3"
    and small: "length (prog_filter program) + 2 * length sysnums < 60000"
  shows "\<exists>len. add_archs program (arch # archs) sysnums =
    add_archs \<lparr>prog_filter = prog_filter program @ arch_section (sa_value arch) (arch_calls abi sysnums),
               prog_len = len\<rparr> archs sysnums"
proof -
  let ?calls = "arch_calls abi sysnums"
  note t = add_traces_abi_eq[OF assms(2), of _ sysnums]
  have n: "nb_traced (sa_abis arch) sysnums = length ?calls"
    using t by (simp add: nb_traced_def assms(1))
  define started where "started = prog_filter program @ start_statements (sa_value arch) (1 + length ?calls * 2)"
  define len where "len = (of_nat (length started) :: 16 word)"
  have bound: "length ?calls \<le> length sysnums" by (rule length_arch_calls)
  have length_started: "length started = length (prog_filter program) + 4"
    by (simp add: started_def start_statements_def)
  then have len: "uint len = int (length started)"
    using small by (simp add: len_def uint_len del: of_nat_add)
  have "start_arch_section program (sa_value arch) (length ?calls) =
      Inr \<lparr>prog_filter = started, prog_len = len\<rparr>"
    using small bound
    by (simp add: start_arch_section_def Let_def add_statements_def UINT32_MAX_def started_def len_def
        LENGTH_END_SECTION_def LENGTH_TRACE_SYSCALL_def)
  moreover have "add_traces \<lparr>prog_filter = started, prog_len = len\<rparr> (sa_abis arch) sysnums =
      Inr \<lparr>prog_filter = started @ traces ?calls, prog_len = len\<rparr>"
    by (simp add: assms(1) t add_statements_def)
  moreover have "end_arch_section \<lparr>prog_filter = started @ traces ?calls, prog_len = len\<rparr> (length ?calls) =
      Inr \<lparr>prog_filter = prog_filter program @ arch_section (sa_value arch) ?calls, prog_len = len\<rparr>"
    using len
    by (simp add: end_arch_section_def Let_def add_statements_def LENGTH_END_SECTION_def
        LENGTH_TRACE_SYSCALL_def arch_section_def) (simp add: started_def)
  ultimately show ?thesis by (auto simp: n Let_def)
qed

text \<open>The whole program: a section for each architecture, then the refusal of any other.\<close>

definition whole_filter :: "FilteredSysnum list \<Rightarrow> sock_filter list" where
  "whole_filter sysnums =
     arch_section AUDIT_ARCH_AARCH64 (arch_calls ABI_DEFAULT sysnums)
     @ arch_section AUDIT_ARCH_ARM (arch_calls ABI_2 sysnums)
     @ [BPF_STMT BPF_RET_K SECCOMP_RET_KILL]"

lemma build_filter_eq:
  assumes "length sysnums \<le> 10000"
  shows "build_filter sysnums =
    Inr \<lparr>prog_filter = whole_filter sysnums, prog_len = of_nat (length (whole_filter sysnums))\<rparr>"
proof -
  let ?arm64 = "arch_section AUDIT_ARCH_AARCH64 (arch_calls ABI_DEFAULT sysnums)"
  obtain len where 1: "add_archs new_program_filter SECCOMP_ARCHS sysnums =
      add_archs \<lparr>prog_filter = ?arm64, prog_len = len\<rparr>
        [\<lparr>sa_value = AUDIT_ARCH_ARM, sa_abis = [ABI_2]\<rparr>] sysnums"
    using add_archs_section[of "\<lparr>sa_value = AUDIT_ARCH_AARCH64, sa_abis = [ABI_DEFAULT]\<rparr>" ABI_DEFAULT
        new_program_filter sysnums "[\<lparr>sa_value = AUDIT_ARCH_ARM, sa_abis = [ABI_2]\<rparr>]"] assms
    by (auto simp: new_program_filter_def SECCOMP_ARCHS_def)
  have "length ?arm64 + 2 * length sysnums < 60000"
    using length_arch_calls[of ABI_DEFAULT sysnums] assms by simp
  then obtain len' where 2: "add_archs \<lparr>prog_filter = ?arm64, prog_len = len\<rparr>
        [\<lparr>sa_value = AUDIT_ARCH_ARM, sa_abis = [ABI_2]\<rparr>] sysnums =
      Inr \<lparr>prog_filter = ?arm64 @ arch_section AUDIT_ARCH_ARM (arch_calls ABI_2 sysnums), prog_len = len'\<rparr>"
    using add_archs_section[of "\<lparr>sa_value = AUDIT_ARCH_ARM, sa_abis = [ABI_2]\<rparr>" ABI_2
        "\<lparr>prog_filter = ?arm64, prog_len = len\<rparr>" sysnums "[]"]
    by auto
  show ?thesis
    unfolding build_filter_def 1 2
    by (simp add: finalize_program_filter_def Let_def add_statements_def whole_filter_def)
qed

lemma length_whole_filter:
  "length sysnums \<le> 10000 \<Longrightarrow> length (whole_filter sysnums) < 65536"
  using length_arch_calls[of ABI_DEFAULT sysnums] length_arch_calls[of ABI_2 sysnums]
  by (simp add: whole_filter_def)

subsection \<open>What the kernel makes of it\<close>

text \<open>
  The interpreter of BPF belongs to the kernel (Documentation/networking/filter.rst): it runs a
  program from an instruction on, over the words of \<open>struct seccomp_data\<close> and the accumulator.
  Its laws for the four instructions that a filter of PRoot is made of:
\<close>

locale bpf_machine =
  fixes run :: "sock_filter list \<Rightarrow> (32 word \<Rightarrow> 32 word) \<Rightarrow> nat \<Rightarrow> 32 word \<Rightarrow> 32 word option"
  assumes run_ret: "\<lbrakk>pc < length prog; prog ! pc = BPF_STMT BPF_RET_K k\<rbrakk>
      \<Longrightarrow> run prog data pc acc = Some k"
    and run_load: "\<lbrakk>pc < length prog; prog ! pc = BPF_STMT BPF_LD_W_ABS k\<rbrakk>
      \<Longrightarrow> run prog data pc acc = run prog data (pc + 1) (data k)"
    and run_ja: "\<lbrakk>pc < length prog; prog ! pc = BPF_STMT BPF_JMP_JA_K k\<rbrakk>
      \<Longrightarrow> run prog data pc acc = run prog data (pc + 1 + unat k) acc"
    and run_jeq: "\<lbrakk>pc < length prog; prog ! pc = BPF_JUMP BPF_JMP_JEQ_K k t f\<rbrakk>
      \<Longrightarrow> run prog data pc acc = run prog data (pc + 1 + unat (if acc = k then t else f)) acc"
begin

lemma run_trace:
  assumes "prog = pre @ trace_statements n flag @ post"
  shows "run prog data (length pre) acc =
    (if acc = ucast n then Some (SECCOMP_RET_TRACE + flag) else run prog data (length pre + 2) acc)"
proof -
  have "run prog data (length pre) acc =
      run prog data (length pre + 1 + unat (if acc = ucast n then 0 else 1 :: 8 word)) acc"
    by (rule run_jeq) (simp_all add: assms trace_statements_def nth_append)
  moreover have "run prog data (length pre + 1) acc = Some (SECCOMP_RET_TRACE + flag)"
    by (rule run_ret) (simp_all add: assms trace_statements_def nth_append)
  ultimately show ?thesis by (cases "acc = ucast n") simp_all
qed

lemma run_traces:
  assumes "prog = pre @ traces calls @ BPF_STMT BPF_RET_K SECCOMP_RET_ALLOW # post"
  shows "run prog data (length pre) acc =
    Some (case find (\<lambda>(n, flag). ucast n = acc) calls of
            None \<Rightarrow> SECCOMP_RET_ALLOW | Some (n, flag) \<Rightarrow> SECCOMP_RET_TRACE + flag)"
  using assms
proof (induction calls arbitrary: pre)
  case Nil
  have "run prog data (length pre) acc = Some SECCOMP_RET_ALLOW"
    by (rule run_ret) (simp_all add: Nil traces_def nth_append)
  then show ?case by simp
next
  case (Cons c calls)
  obtain n flag where c: "c = (n, flag)" by (cases c)
  let ?pre = "pre @ trace_statements n flag"
  have "prog = ?pre @ traces calls @ BPF_STMT BPF_RET_K SECCOMP_RET_ALLOW # post"
    using Cons.prems by (simp add: traces_def c)
  note IH = Cons.IH[OF this]
  have "length ?pre = length pre + 2" by (simp add: trace_statements_def)
  moreover have "prog = pre @ trace_statements n flag @ (traces calls @ BPF_STMT BPF_RET_K SECCOMP_RET_ALLOW # post)"
    using Cons.prems by (simp add: traces_def c)
  note run_trace[OF this, of data acc]
  ultimately show ?case using IH by (auto simp: c)
qed

lemma run_section:
  assumes "prog = pre @ arch_section arch calls @ post" and "length prog < 65536"
  shows "run prog data (length pre) acc =
    (if data arch_offset = arch
     then Some (case find (\<lambda>(n, flag). ucast n = data nr_offset) calls of
            None \<Rightarrow> SECCOMP_RET_ALLOW | Some (n, flag) \<Rightarrow> SECCOMP_RET_TRACE + flag)
     else run prog data (length pre + length (arch_section arch calls)) (data arch_offset))"
proof -
  let ?l = "length pre"
  let ?start = "start_statements arch (1 + length calls * 2)"
  have split: "prog = pre @ ?start @ traces calls @ BPF_STMT BPF_RET_K SECCOMP_RET_ALLOW # post"
    by (simp add: assms(1) arch_section_def)
  have length_start: "length ?start = 4" by (simp add: start_statements_def)
  have at: "prog ! (?l + i) = ?start ! i" "?l + i < length prog" if "i < 4" for i
    using that length_start by (simp_all add: split nth_append)
  have 0: "run prog data ?l acc = run prog data (?l + 1) (data arch_offset)"
    using at[of 0] by (intro run_load) (simp_all add: start_statements_def)
  have 1: "run prog data (?l + 1) (data arch_offset) =
      run prog data (if data arch_offset = arch then ?l + 3 else ?l + 2) (data arch_offset)"
    using at[of 1] run_jeq[of "?l + 1" prog arch 1 0 data "data arch_offset"]
    by (simp add: start_statements_def numeral_3_eq_3)
  have small: "unat (of_nat (1 + length calls * 2 + 1) :: 32 word) = 1 + length calls * 2 + 1"
    by (rule unat_offset) (use assms in simp)
  have pos: "?l + 2 + 1 + (1 + length calls * 2 + 1) = ?l + length (arch_section arch calls)" by simp
  have 2: "run prog data (?l + 2) (data arch_offset) =
      run prog data (?l + length (arch_section arch calls)) (data arch_offset)"
    using run_ja[of "?l + 2" prog "of_nat (1 + length calls * 2 + 1)" data "data arch_offset", unfolded small pos]
      at[of 2]
    by (simp add: start_statements_def)
  have 3: "run prog data (?l + 3) (data arch_offset) = run prog data (?l + 4) (data nr_offset)"
    using at[of 3] run_load[of "?l + 3" prog nr_offset data] by (simp add: start_statements_def algebra_simps)
  have "run prog data (length (pre @ ?start)) (data nr_offset) =
      Some (case find (\<lambda>(n, flag). ucast n = data nr_offset) calls of
            None \<Rightarrow> SECCOMP_RET_ALLOW | Some (n, flag) \<Rightarrow> SECCOMP_RET_TRACE + flag)"
    by (rule run_traces) (simp add: split)
  then show ?thesis using 0 1 2 3 length_start by (cases "data arch_offset = arch") simp_all
qed

end

text \<open>The decision meant for a system call: by architecture, then by number.\<close>

definition call_decision :: "(word_t \<times> 32 word) list \<Rightarrow> 32 word \<Rightarrow> 32 word" where
  "call_decision calls nr =
     (case find (\<lambda>(n, flag). ucast n = nr) calls of
        None \<Rightarrow> SECCOMP_RET_ALLOW | Some (n, flag) \<Rightarrow> SECCOMP_RET_TRACE + flag)"

definition filter_decision :: "FilteredSysnum list \<Rightarrow> 32 word \<Rightarrow> 32 word \<Rightarrow> 32 word" where
  "filter_decision sysnums arch nr =
     (if arch = AUDIT_ARCH_AARCH64 then call_decision (arch_calls ABI_DEFAULT sysnums) nr
      else if arch = AUDIT_ARCH_ARM then call_decision (arch_calls ABI_2 sysnums) nr
      else SECCOMP_RET_KILL)"

context bpf_machine
begin

lemma run_whole_filter:
  assumes "length sysnums \<le> 10000"
  shows "run (whole_filter sysnums) data 0 acc =
    Some (filter_decision sysnums (data arch_offset) (data nr_offset))"
proof -
  let ?arm64 = "arch_section AUDIT_ARCH_AARCH64 (arch_calls ABI_DEFAULT sysnums)"
  let ?arm = "arch_section AUDIT_ARCH_ARM (arch_calls ABI_2 sysnums)"
  let ?prog = "whole_filter sysnums"
  note len = length_whole_filter[OF assms]
  note 1 = run_section[of ?prog "[]" _ _ _ data acc, OF _ len]
  note 2 = run_section[of ?prog ?arm64 _ _ _ data "data arch_offset", OF _ len]
  have refused: "run ?prog data (length (?arm64 @ ?arm)) (data arch_offset) = Some SECCOMP_RET_KILL"
    by (rule run_ret) (simp_all add: whole_filter_def nth_append)
  show ?thesis
    using 1[of AUDIT_ARCH_AARCH64 "arch_calls ABI_DEFAULT sysnums" "?arm @ [BPF_STMT BPF_RET_K SECCOMP_RET_KILL]"]
      2[of AUDIT_ARCH_ARM "arch_calls ABI_2 sysnums" "[BPF_STMT BPF_RET_K SECCOMP_RET_KILL]"] refused
    by (simp add: whole_filter_def filter_decision_def call_decision_def)
qed

end

text \<open>The instructions of classic BPF that a filter uses, as the documentation describes them.\<close>

function classic_bpf ::
  "sock_filter list \<Rightarrow> (32 word \<Rightarrow> 32 word) \<Rightarrow> nat \<Rightarrow> 32 word \<Rightarrow> 32 word option" where
  "classic_bpf prog data pc acc =
     (if pc \<ge> length prog then None
      else
        (let i = prog ! pc in
         if code i = BPF_RET_K then Some (k_field i)
         else if code i = BPF_LD_W_ABS then classic_bpf prog data (pc + 1) (data (k_field i))
         else if code i = BPF_JMP_JA_K then classic_bpf prog data (pc + 1 + unat (k_field i)) acc
         else if code i = BPF_JMP_JEQ_K
         then classic_bpf prog data (pc + 1 + unat (if acc = k_field i then jt i else jf i)) acc
         else None))"
  by pat_completeness auto

termination
  by (relation "measure (\<lambda>(prog, data, pc, acc). length prog - pc)") (auto simp: Let_def)

declare classic_bpf.simps [simp del]

interpretation classic: bpf_machine classic_bpf
  by unfold_locales
    (subst classic_bpf.simps, simp add: BPF_STMT_def BPF_JUMP_def bpf_codes)+

subsection \<open>The decision on the merged tables\<close>

lemma arch_calls_set:
  "(n, flag) \<in> set (arch_calls abi sysnums) \<longleftrightarrow>
    (\<exists>f \<in> set sysnums. detranslate_sysnum abi (fs_value f) = Inr n \<and> n \<noteq> SYSCALL_AVOIDER
       \<and> flag = ucast (fs_flags f))"
  (is "?l \<longleftrightarrow> ?r")
proof
  assume ?l
  then show ?r by (auto simp: arch_calls_def split: sum.splits if_splits)
next
  assume ?r
  then obtain f where "f \<in> set sysnums" "detranslate_sysnum abi (fs_value f) = Inr n"
    "n \<noteq> SYSCALL_AVOIDER" "flag = ucast (fs_flags f)" by blast
  then have "f \<in> set sysnums \<and> (n, flag) \<in> set (case detranslate_sysnum abi (fs_value f) of
       Inl e \<Rightarrow> [] | Inr n \<Rightarrow> if n = SYSCALL_AVOIDER then [] else [(n, ucast (fs_flags f))])"
    by simp
  then show ?l unfolding arch_calls_def set_concat set_map by blast
qed

lemma unat_ucast_up: "unat (ucast (nr :: 32 word) :: word_t) = unat nr"
  using unsigned_less[of nr, where ?'a = nat] by (simp add: unsigned_ucast_eq take_bit_nat_eq_self)

lemma ucast_number:
  assumes "detranslate_sysnum abi s = Inr n" and "n \<noteq> SYSCALL_AVOIDER"
  shows "ucast n = (nr :: 32 word) \<longleftrightarrow> n = ucast nr"
proof -
  have "unat n < 440" by (rule detranslate_sysnum_small[OF assms])
  then have "unat (ucast n :: 32 word) = unat n" by (simp add: unsigned_ucast_eq take_bit_nat_eq_self)
  moreover have "unat (ucast nr :: word_t) = unat nr" by (rule unat_ucast_up)
  ultimately show ?thesis by (metis word_unat_eq_iff)
qed

lemma ucast_no_avoider: "ucast (nr :: 32 word) \<noteq> SYSCALL_AVOIDER"
proof
  assume "ucast nr = SYSCALL_AVOIDER"
  then have "unat (ucast nr :: word_t) = 2 ^ 64 - 1" by (simp only: unat_avoider)
  moreover have "unat (ucast nr :: word_t) < 2 ^ 32"
    using unsigned_less[of nr, where ?'a = nat] by (simp only: unat_ucast_up) simp
  ultimately show False by simp
qed

text \<open>The entries of the tables that name a number of an ABI.\<close>

definition naming :: "Abi \<Rightarrow> 32 word \<Rightarrow> FilteredSysnum set \<Rightarrow> FilteredSysnum set" where
  "naming abi nr entries = {e \<in> entries. detranslate_sysnum abi (fs_value e) = Inr (ucast nr)}"

lemma call_decision_merged:
  assumes "merged sysnums entries"
  shows "if naming abi nr entries = {} then call_decision (arch_calls abi sysnums) nr = SECCOMP_RET_ALLOW
    else \<exists>flags :: word_t. call_decision (arch_calls abi sysnums) nr = SECCOMP_RET_TRACE + ucast flags
      \<and> (\<forall>i. bit flags i \<longleftrightarrow> (\<exists>e \<in> naming abi nr entries. bit (fs_flags e) i))"
proof (cases "find (\<lambda>(n, flag). ucast n = nr) (arch_calls abi sysnums)")
  case None
  have "naming abi nr entries = {}"
  proof (rule ccontr)
    assume "naming abi nr entries \<noteq> {}"
    then obtain e where e: "e \<in> entries" "detranslate_sysnum abi (fs_value e) = Inr (ucast nr)"
      by (auto simp: naming_def)
    moreover obtain f where "f \<in> set sysnums" "fs_value f = fs_value e"
      using e(1) assms unfolding merged_def by (metis imageE imageI)
    ultimately have "(ucast nr, ucast (fs_flags f)) \<in> set (arch_calls abi sysnums)"
      using ucast_no_avoider[of nr] e(2) by (auto simp: arch_calls_set intro!: bexI[of _ f])
    moreover have "ucast (ucast nr :: word_t) = nr"
      using ucast_number[OF e(2) ucast_no_avoider] by simp
    ultimately show False using None by (auto simp: find_None_iff)
  qed
  then show ?thesis using None by (simp add: call_decision_def)
next
  case (Some c)
  then obtain i where i: "i < length (arch_calls abi sysnums)" "c = arch_calls abi sysnums ! i"
    "case c of (n, flag) \<Rightarrow> ucast n = nr"
    by (auto simp: find_Some_iff)
  then have "c \<in> set (arch_calls abi sysnums)" by simp
  moreover obtain n flag where n_flag: "c = (n, flag)" by (cases c)
  ultimately have c: "c = (n, flag)" "ucast n = nr" "(n, flag) \<in> set (arch_calls abi sysnums)"
    using i(3) by simp_all
  then obtain f where f: "f \<in> set sysnums" "detranslate_sysnum abi (fs_value f) = Inr n"
    "n \<noteq> SYSCALL_AVOIDER" "flag = ucast (fs_flags f)"
    by (auto simp: arch_calls_set)
  have n: "n = ucast nr" using ucast_number[OF f(2,3)] c(2) by blast
  have same: "e \<in> naming abi nr entries \<longleftrightarrow> e \<in> entries \<and> fs_value e = fs_value f" for e
    using f(2,3) translate_detranslate[of abi "fs_value e" n] translate_detranslate[of abi "fs_value f" n]
    by (auto simp: naming_def n)
  have "fs_value f \<in> fs_value ` entries" using f(1) assms unfolding merged_def by (metis imageI)
  then have ne: "naming abi nr entries \<noteq> {}" using same by auto
  have dec: "call_decision (arch_calls abi sysnums) nr = SECCOMP_RET_TRACE + ucast (fs_flags f)"
    using Some c(1) f(4) by (simp add: call_decision_def)
  have bits: "bit (fs_flags f) i \<longleftrightarrow> (\<exists>e \<in> naming abi nr entries. bit (fs_flags e) i)" for i
    using assms f(1) same by (auto simp: merged_def)
  show ?thesis
    unfolding if_not_P[OF ne] by (rule exI[of _ "fs_flags f"], rule conjI[OF dec], rule allI, rule bits)
qed

text \<open>No table is too long: the numbers are those of the enumeration.\<close>

lemma filtered_sysnums_short:
  assumes "\<forall>e \<in> all_entries extensions. fs_value e < PR_NB_SYSNUM"
  shows "length (filtered_sysnums extensions) \<le> PR_NB_SYSNUM"
proof -
  have m: "merged (filtered_sysnums extensions) (all_entries extensions)"
    by (rule filtered_sysnums_merged)
  then have "length (filtered_sysnums extensions) = card (fs_value ` all_entries extensions)"
    unfolding merged_def by (metis distinct_card length_map set_map)
  also have "\<dots> \<le> card {..<PR_NB_SYSNUM}" using assms by (intro card_mono) auto
  finally show ?thesis by simp
qed

end
