(* ===== verification/Syscall_Properties.thy ===== *)
theory Syscall_Properties
  imports Registers Seccomp
begin

section \<open>Properties of the system call layer\<close>

text \<open>
  The promises of syscall/sysnum.c, syscall/seccomp.c and tracee/reg.c, with instances.
\<close>

text \<open>
  C13. The two translations of system call numbers are inverse to each other, for both ABIs: away
  from the void number and from the avoided one, a number means \<open>s\<close> exactly if \<open>s\<close> is emitted as it.
\<close>

theorem sysnum_translations_inverse:
  assumes "s \<noteq> PR_void" and "n \<noteq> SYSCALL_AVOIDER"
  shows "translate_sysnum abi n = Inr s \<longleftrightarrow> detranslate_sysnum abi s = Inr n"
  using translate_detranslate[of abi s n] detranslate_translate[of abi n s] assms by blast

theorem sysnum_translations_inverse_witness:
  "translate_sysnum ABI_DEFAULT 214 = Inr PR_brk \<longleftrightarrow> detranslate_sysnum ABI_DEFAULT PR_brk = Inr 214"
  using sysnum_translations_inverse[of PR_brk 214 ABI_DEFAULT] by (simp add: SYSCALL_AVOIDER_def)

text \<open>
  Error behaviour of \<open>translate_sysnum\<close>: its only undefined read on arm64 is at the number 440,
  the length of both tables, which the bound check lets through (the third ABI does not exist there).
\<close>

theorem translate_sysnum_reads_past_end:
  "translate_sysnum abi n = Inl e \<longleftrightarrow> e = Undefined \<and> (abi = ABI_3 \<or> n = 440)"
  by (rule translate_sysnum_undefined)

text \<open>
  What \<open>set_sysnum\<close> sets, \<open>get_sysnum\<close> gets, in 32-bit and 64-bit mode; a system call the ABI
  does not have is avoided and reads as void.
\<close>

theorem set_sysnum_then_get:
  assumes "set_sysnum t s = Inr t'"
  shows "get_sysnum t' CURRENT =
    Inr (if detranslate_sysnum (get_abi t) s = Inr SYSCALL_AVOIDER then PR_void else s)"
  using assms by (rule get_set_sysnum)

definition ex_regs :: "bool \<Rightarrow> Tracee_Regs" where
  "ex_regs aarch32 = \<lparr>regs = (\<lambda>v i. 0), regs_were_changed = False, restore_original_regs = True,
     restore_original_regs_after_seccomp_event = False, is_aarch32 = aarch32\<rparr>"

theorem set_sysnum_then_get_witness:
  "\<exists>t'. set_sysnum (ex_regs True) PR_brk = Inr t' \<and> get_sysnum t' CURRENT = Inr PR_brk"
proof -
  have "array_get sysnums_arm 45 = PR_brk"
    by (simp add: array_get_def sysnums_arm_def sysnums_arm_1_def)
  then have "translate_sysnum ABI_2 45 = Inr PR_brk"
    by (simp add: translate_sysnum_def sysnums_simps)
  then have n: "detranslate_sysnum ABI_2 PR_brk = Inr 45" by (rule detranslate_translate) simp
  then have "set_sysnum (ex_regs True) PR_brk = Inr (poke_reg (ex_regs True) SYSARG_NUM 45)"
    by (simp add: set_sysnum_def get_abi_def ex_regs_def)
  from set_sysnum_then_get[OF this] show ?thesis
    using n \<open>set_sysnum _ _ = _\<close> by (auto simp: get_abi_def ex_regs_def SYSCALL_AVOIDER_def)
qed

text \<open>
  The cached registers behave as registers: a write is read back at every name of the same
  place (its low 32 bits for a 32-bit tracee), and no other place changes, although the 32-bit
  registers are read as overlapping 64-bit words.
\<close>

theorem peek_after_poke:
  "peek_reg (poke_reg t r v) CURRENT r' =
    (if REG_offset t r' = REG_offset t r then (if is_aarch32 t then v AND 0xFFFFFFFF else v)
     else peek_reg t CURRENT r')"
  using peek_poke_same[of t r' r v] peek_poke_other[of t r' r v] by simp


lemma load64_zero: "load64 (\<lambda>i. 0) off = 0"
  by (rule bit_word_eqI) (simp add: bit_load64)

definition ex_ptrace :: "unit Ptrace_Regs" where
  "ex_ptrace = \<lparr>p_getregset = (\<lambda>k b. (Some b, k)), p_setregset = (\<lambda>k b. (True, k)),
     p_set_system_call = (\<lambda>k n. (True, k))\<rparr>"


text \<open>
  The merge of the tables of PRoot and of its extensions, for any extensions: exactly the
  numbers of the tables, each once, with the union of its flags.
\<close>

theorem merged_tables:
  "distinct (map fs_value (filtered_sysnums extensions))
    \<and> fs_value ` set (filtered_sysnums extensions) = fs_value ` all_entries extensions
    \<and> (\<forall>f \<in> set (filtered_sysnums extensions). \<forall>i. bit (fs_flags f) i \<longleftrightarrow>
        (\<exists>e \<in> all_entries extensions. fs_value e = fs_value f \<and> bit (fs_flags e) i))"
  using filtered_sysnums_merged[of extensions] by (simp add: merged_def)

theorem merged_tables_witness:
  "distinct (map fs_value (filtered_sysnums [None]))"
  using merged_tables[of "[None]"] by simp

text \<open>
  C19. Correctness of the filter: run by any machine that obeys the laws of BPF on the words of a
  system call, the program PRoot installs kills other architectures, and on arm64 and arm reports
  exactly the system calls named by the tables, with the union of their flags, and allows the rest.
\<close>

theorem filter_reports_tables:
  assumes "bpf_machine run" and "\<forall>e \<in> all_entries extensions. fs_value e < PR_NB_SYSNUM"
    and "abi = (if data arch_offset = AUDIT_ARCH_AARCH64 then ABI_DEFAULT else ABI_2)"
    and "named = naming abi (data nr_offset) (all_entries extensions)"
  shows "\<exists>program decision. build_filter (filtered_sysnums extensions) = Inr program
    \<and> length (prog_filter program) = unat (prog_len program)
    \<and> run (prog_filter program) data 0 acc = Some decision
    \<and> (if data arch_offset \<notin> {AUDIT_ARCH_AARCH64, AUDIT_ARCH_ARM} then decision = SECCOMP_RET_KILL
       else if named = {} then decision = SECCOMP_RET_ALLOW
       else \<exists>flags :: word_t. decision = SECCOMP_RET_TRACE + ucast flags
         \<and> (\<forall>i. bit flags i \<longleftrightarrow> (\<exists>e \<in> named. bit (fs_flags e) i)))"
proof -
  let ?sysnums = "filtered_sysnums extensions"
  have short: "length ?sysnums \<le> 10000" using filtered_sysnums_short[OF assms(2)] by simp
  note build = build_filter_eq[OF short]
  have len: "unat (of_nat (length (whole_filter ?sysnums)) :: 16 word) = length (whole_filter ?sysnums)"
    using length_whole_filter[OF short] by (simp add: unat_of_nat)
  note decision = call_decision_merged[OF filtered_sysnums_merged[of extensions], of abi "data nr_offset"]
  show ?thesis
    unfolding build using len bpf_machine.run_whole_filter[OF assms(1) short, of data acc] decision assms(3,4)
    by (auto simp: filter_decision_def AUDIT_ARCH_AARCH64_def AUDIT_ARCH_ARM_def split: if_split_asm)
qed

definition ex_close :: "32 word \<Rightarrow> 32 word" where
  "ex_close off = (if off = arch_offset then AUDIT_ARCH_AARCH64 else 57)"

theorem filter_reports_tables_witness:
  "\<exists>program flags. build_filter (filtered_sysnums []) = Inr program
    \<and> classic_bpf (prog_filter program) ex_close 0 0 = Some (SECCOMP_RET_TRACE + ucast (flags :: word_t))"
proof -
  have small: "\<forall>e \<in> all_entries []. fs_value e < PR_NB_SYSNUM"
    by (simp add: all_entries_def proot_sysnums_def)
  have "array_get sysnums_arm64 57 = PR_close"
    by (simp add: array_get_def sysnums_arm64_def sysnums_arm64_1_def)
  then have "translate_sysnum ABI_DEFAULT 57 = Inr PR_close" by (simp add: translate_sysnum_def sysnums_simps)
  then have close: "detranslate_sysnum ABI_DEFAULT PR_close = Inr 57" by (rule detranslate_translate) simp
  have "filtered (PR_close, 0) \<in> all_entries []" by (simp add: all_entries_def proot_sysnums_def)
  then have "naming ABI_DEFAULT 57 (all_entries []) \<noteq> {}" using close by (auto simp: naming_def)
  moreover have "ex_close arch_offset = AUDIT_ARCH_AARCH64" "ex_close nr_offset = 57"
    by (simp_all add: ex_close_def arch_offset_def nr_offset_def)
  ultimately show ?thesis
    using filter_reports_tables[OF classic.bpf_machine_axioms small refl refl, where data = ex_close and acc = 0]
    by auto
qed

text \<open>
  Bounds of the filter: whatever the tables of the extensions, their numbers being those of the
  enumeration, its construction succeeds and its length fits the 16 bits of the kernel's structure.
\<close>

theorem filter_fits:
  assumes "\<forall>e \<in> all_entries extensions. fs_value e < PR_NB_SYSNUM"
  shows "\<exists>program. build_filter (filtered_sysnums extensions) = Inr program
    \<and> length (prog_filter program) = unat (prog_len program)
    \<and> length (prog_filter program) \<le> 11 + 4 * PR_NB_SYSNUM"
proof -
  let ?sysnums = "filtered_sysnums extensions"
  have n: "length ?sysnums \<le> PR_NB_SYSNUM" by (rule filtered_sysnums_short[OF assms])
  then have short: "length ?sysnums \<le> 10000" by simp
  have "unat (of_nat (length (whole_filter ?sysnums)) :: 16 word) = length (whole_filter ?sysnums)"
    using length_whole_filter[OF short] by (simp add: unat_of_nat)
  moreover have "length (whole_filter ?sysnums) \<le> 11 + 4 * PR_NB_SYSNUM"
    using n length_arch_calls[of ABI_DEFAULT ?sysnums] length_arch_calls[of ABI_2 ?sysnums]
    by (simp add: whole_filter_def)
  ultimately show ?thesis unfolding build_filter_eq[OF short] by simp
qed

theorem filter_fits_witness:
  "\<exists>program. build_filter (filtered_sysnums [None]) = Inr program \<and> length (prog_filter program) \<le> 1811"
proof -
  have "\<forall>e \<in> all_entries [None]. fs_value e < PR_NB_SYSNUM"
    by (simp add: all_entries_def proot_sysnums_def)
  from filter_fits[OF this] show ?thesis by auto
qed

end
