(* ===== verification/Memory.thy ===== *)
theory Memory
  imports Registers
begin

section \<open>Memory of a tracee\<close>

text \<open>
  tracee/mem.c and the inline functions of tracee/mem.h.  The header build.h of the source directory
  comes first in the include path and leaves HAVE_PROCESS_VM out, so that the memory of a tracee is
  read and written word by word with \<open>ptrace(2)\<close>.  These two requests are parameters (record
  \<open>Ptrace_Mem\<close>), over a state of the kernel; the request that writes stands for
  \<open>ptrace_pokedata_or_via_stub\<close>, whose fallback for kernels without POKEDATA is not modelled.
\<close>

unbundle bit_operations_syntax

type_synonym byte = "8 word"

text \<open>A word and its bytes, least significant first.\<close>

definition byte_at :: "word_t \<Rightarrow> nat \<Rightarrow> byte" where
  "byte_at w i = ucast (drop_bit (8 * i) w)"

definition store_word :: "word_t \<Rightarrow> byte list" where
  "store_word w = map (byte_at w) [0..<8]"

fun load_word :: "byte list \<Rightarrow> word_t" where
  "load_word [] = 0"
| "load_word (b # bs) = ucast b OR push_bit 8 (load_word bs)"

lemma length_store_word [simp]: "length (store_word w) = 8"
  by (simp add: store_word_def)

lemma nth_store_word [simp]: "i < 8 \<Longrightarrow> store_word w ! i = byte_at w i"
  by (simp add: store_word_def)

lemma bit_load_word:
  "bit (load_word bs) k \<longleftrightarrow> k < 64 \<and> k div 8 < length bs \<and> bit (bs ! (k div 8)) (k mod 8)"
proof (induction bs arbitrary: k)
  case (Cons b bs)
  show ?case
  proof (cases "k < 8")
    case True
    then show ?thesis by (simp add: bit_or_iff bit_ucast_iff bit_push_bit_iff)
  next
    case False
    then obtain j where j: "k = 8 + j" by (metis le_add_diff_inverse not_le)
    have "\<not> bit b k" using False bit_imp_le_length[of b k] by auto
    moreover have "(8 + j) div 8 = Suc (j div 8)" by simp
    ultimately show ?thesis
      using Cons.IH[of j] by (auto simp: j bit_or_iff bit_ucast_iff bit_push_bit_iff)
  qed
qed simp

lemma byte_load_word: "length bs = 8 \<Longrightarrow> i < 8 \<Longrightarrow> byte_at (load_word bs) i = bs ! i"
proof (rule bit_word_eqI)
  fix k assume "length bs = 8" "i < 8" "k < LENGTH(8)"
  moreover from this have "8 * i + k < 64" "(8 * i + k) div 8 = i" "(8 * i + k) mod 8 = k" by simp_all
  ultimately show "bit (byte_at (load_word bs) i) k = bit (bs ! i) k"
    by (simp add: byte_at_def bit_ucast_iff bit_drop_bit_eq bit_load_word add.commute)
qed

lemma store_load_word: "length bs = 8 \<Longrightarrow> store_word (load_word bs) = bs"
  by (rule nth_equalityI) (simp_all add: byte_load_word)

lemma load_store_word: "load_word (store_word w) = w"
proof (rule bit_word_eqI)
  fix k assume k: "k < LENGTH(64)"
  then have "k div 8 < 8" "8 * (k div 8) + k mod 8 = k" by auto
  then show "bit (load_word (store_word w)) k = bit w k"
    using k by (simp add: bit_load_word byte_at_def bit_ucast_iff bit_drop_bit_eq)
qed

subsection \<open>The operations\<close>

record 'k Ptrace_Mem =
  p_peekdata :: "'k \<Rightarrow> word_t \<Rightarrow> word_t res"
  p_pokedata :: "'k \<Rightarrow> word_t \<Rightarrow> word_t \<Rightarrow> errno option \<times> 'k"

definition untag_pointer :: "word_t \<Rightarrow> word_t" where
  "untag_pointer addr = addr AND 0x00FFFFFFFFFFFFFF"

fun write_full_words :: "'k Ptrace_Mem \<Rightarrow> 'k \<Rightarrow> word_t \<Rightarrow> byte list \<Rightarrow> nat \<Rightarrow> bool \<times> 'k" where
  "write_full_words P k dest src 0 = (True, k)"
| "write_full_words P k dest src (Suc n) =
     (case p_pokedata P k dest (load_word (take 8 src)) of
        (Some e, k) \<Rightarrow> (False, k)
      | (None, k) \<Rightarrow> write_full_words P k (dest + 8) (drop 8 src) n)"

text \<open>The last word is read first, so that the bytes after the data stay as they are.\<close>

definition write_trailing_bytes ::
  "'k Ptrace_Mem \<Rightarrow> 'k \<Rightarrow> word_t \<Rightarrow> byte list \<Rightarrow> bool \<times> 'k" where
  "write_trailing_bytes P k dest src =
     (case p_peekdata P k dest of
        Inl e \<Rightarrow> (False, k)
      | Inr word \<Rightarrow>
          (case p_pokedata P k dest (load_word (src @ drop (length src) (store_word word))) of
             (Some e, k) \<Rightarrow> (False, k)
           | (None, k) \<Rightarrow> (True, k)))"

definition write_data :: "'k Ptrace_Mem \<Rightarrow> 'k \<Rightarrow> word_t \<Rightarrow> byte list \<Rightarrow> unit res \<times> 'k" where
  "write_data P k dest_tracee src =
     (let dest = untag_pointer dest_tracee;
          nb_trailing_bytes = length src mod 8;
          nb_full_words = (length src - nb_trailing_bytes) div 8
      in case write_full_words P k dest src nb_full_words of
           (False, k) \<Rightarrow> (Err EFAULT, k)
         | (True, k) \<Rightarrow>
             (if nb_trailing_bytes = 0 then (Inr (), k)
              else
                (case write_trailing_bytes P k (dest + of_nat (8 * nb_full_words))
                        (drop (8 * nb_full_words) src) of
                   (False, k) \<Rightarrow> (Err EFAULT, k)
                 | (True, k) \<Rightarrow> (Inr (), k))))"

fun writev_data_loop :: "'k Ptrace_Mem \<Rightarrow> 'k \<Rightarrow> word_t \<Rightarrow> byte list list \<Rightarrow> unit res \<times> 'k" where
  "writev_data_loop P k dest [] = (Inr (), k)"
| "writev_data_loop P k dest (v # vs) =
     (case write_data P k dest v of
        (Inl e, k) \<Rightarrow> (Inl e, k)
      | (Inr _, k) \<Rightarrow> writev_data_loop P k (dest + of_nat (length v)) vs)"

definition writev_data :: "'k Ptrace_Mem \<Rightarrow> 'k \<Rightarrow> word_t \<Rightarrow> byte list list \<Rightarrow> unit res \<times> 'k" where
  "writev_data P k dest_tracee vectors = writev_data_loop P k (untag_pointer dest_tracee) vectors"

fun read_full_words :: "'k Ptrace_Mem \<Rightarrow> 'k \<Rightarrow> word_t \<Rightarrow> nat \<Rightarrow> byte list res" where
  "read_full_words P k src 0 = Inr []"
| "read_full_words P k src (Suc n) =
     (case p_peekdata P k src of
        Inl e \<Rightarrow> Err EFAULT
      | Inr word \<Rightarrow>
          (case read_full_words P k (src + 8) n of
             Inl e \<Rightarrow> Inl e
           | Inr bs \<Rightarrow> Inr (store_word word @ bs)))"

definition read_data :: "'k Ptrace_Mem \<Rightarrow> 'k \<Rightarrow> word_t \<Rightarrow> nat \<Rightarrow> byte list res" where
  "read_data P k src_tracee sz =
     (let src = untag_pointer src_tracee;
          nb_trailing_bytes = sz mod 8;
          nb_full_words = (sz - nb_trailing_bytes) div 8
      in case read_full_words P k src nb_full_words of
           Inl e \<Rightarrow> Inl e
         | Inr bs \<Rightarrow>
             (if nb_trailing_bytes = 0 then Inr bs
              else
                (case p_peekdata P k (src + of_nat (8 * nb_full_words)) of
                   Inl e \<Rightarrow> Err EFAULT
                 | Inr word \<Rightarrow> Inr (bs @ take nb_trailing_bytes (store_word word)))))"

definition string_length :: "byte list \<Rightarrow> nat" where
  "string_length bs = length (takeWhile (\<lambda>b. b \<noteq> 0) bs)"

text \<open>The bytes copied and the value returned.\<close>

fun read_string_loop ::
  "'k Ptrace_Mem \<Rightarrow> 'k \<Rightarrow> word_t \<Rightarrow> nat \<Rightarrow> nat \<Rightarrow> (byte list \<times> nat) res" where
  "read_string_loop P k src 0 nb_trailing_bytes =
     (case p_peekdata P k src of
        Inl e \<Rightarrow> Err EFAULT
      | Inr word \<Rightarrow>
          (let bs = take nb_trailing_bytes (store_word word); j = string_length bs
           in Inr (take (j + 1) bs, j + 1)))"
| "read_string_loop P k src (Suc n) nb_trailing_bytes =
     (case p_peekdata P k src of
        Inl e \<Rightarrow> Err EFAULT
      | Inr word \<Rightarrow>
          (let j = string_length (store_word word)
           in if j < 8 then Inr (store_word word, j + 1)
              else
                (case read_string_loop P k (src + 8) n nb_trailing_bytes of
                   Inl e \<Rightarrow> Inl e
                 | Inr (bs, m) \<Rightarrow> Inr (store_word word @ bs, 8 + m))))"

definition read_string :: "'k Ptrace_Mem \<Rightarrow> 'k \<Rightarrow> word_t \<Rightarrow> nat \<Rightarrow> (byte list \<times> nat) res" where
  "read_string P k src_tracee max_size =
     (let nb_trailing_bytes = max_size mod 8
      in read_string_loop P k (untag_pointer src_tracee)
           ((max_size - nb_trailing_bytes) div 8) nb_trailing_bytes)"

text \<open>A C string in a buffer.\<close>

definition string_of :: "byte list \<Rightarrow> string" where
  "string_of bs = map (\<lambda>b. char_of (unat b)) (takeWhile (\<lambda>b. b \<noteq> 0) bs)"

text \<open>A string with its terminator, in memory; a character of a path is its code.\<close>

definition string_bytes :: "string \<Rightarrow> byte list" where
  "string_bytes s = map of_char s @ [0]"

definition read_path :: "'k Ptrace_Mem \<Rightarrow> 'k \<Rightarrow> word_t \<Rightarrow> (string \<times> nat) res" where
  "read_path P k src_tracee =
     (case read_string P k src_tracee PATH_MAX of
        Inl e \<Rightarrow> Inl e
      | Inr (bs, n) \<Rightarrow> if n \<ge> PATH_MAX then Err ENAMETOOLONG else Inr (string_of bs, n))"

definition peek_word :: "'k Ptrace_Mem \<Rightarrow> Tracee_Regs \<Rightarrow> 'k \<Rightarrow> word_t \<Rightarrow> word_t res" where
  "peek_word P t k address =
     (case p_peekdata P k (untag_pointer address) of
        Inl (Errno e) \<Rightarrow> Err (if e = EIO then EFAULT else e)
      | Inl Undefined \<Rightarrow> Inl Undefined
      | Inr result \<Rightarrow> Inr (if is_32on64_mode t then result AND 0xFFFFFFFF else result))"

definition poke_word ::
  "'k Ptrace_Mem \<Rightarrow> Tracee_Regs \<Rightarrow> 'k \<Rightarrow> word_t \<Rightarrow> word_t \<Rightarrow> errno option \<times> 'k" where
  "poke_word P t k address v =
     (let address = untag_pointer address
      in case (if is_32on64_mode t
               then (case p_peekdata P k address of
                       Inl (Errno e) \<Rightarrow> Inl e
                     | Inl Undefined \<Rightarrow> Inl EIO
                     | Inr tmp \<Rightarrow> Inr (v OR (tmp AND 0xFFFFFFFF00000000)))
               else Inr v) of
           Inl e \<Rightarrow> (Some e, k)
         | Inr v \<Rightarrow>
             (case p_pokedata P k address v of
                (Some e, k) \<Rightarrow> (Some (if e = EIO then EFAULT else e), k)
              | (None, k) \<Rightarrow> (None, k)))"

definition RED_ZONE_SIZE :: int where "RED_ZONE_SIZE = 0"

definition ULONG_MAX :: int where "ULONG_MAX = 2 ^ 64 - 1"

text \<open>The address allocated below the stack pointer, 0 on overflow.\<close>

definition alloc_mem :: "Tracee_Regs \<Rightarrow> int \<Rightarrow> word_t \<times> Tracee_Regs" where
  "alloc_mem t sz =
     (let stack_pointer = peek_reg t CURRENT STACK_POINTER;
          sz = (if stack_pointer = peek_reg t ORIGINAL STACK_POINTER then sz + RED_ZONE_SIZE else sz)
      in if (sz > 0 \<and> uint stack_pointer \<le> sz) \<or> (sz < 0 \<and> uint stack_pointer \<ge> ULONG_MAX + sz)
         then (0, t)
         else
           (let stack_pointer = stack_pointer - of_int sz
            in (stack_pointer, poke_reg t STACK_POINTER stack_pointer)))"

text \<open>The zero page comes from \<open>mmap(2)\<close>, that may fail.\<close>

definition clear_mem ::
  "'k Ptrace_Mem \<Rightarrow> (nat \<Rightarrow> errno option) \<Rightarrow> 'k \<Rightarrow> word_t \<Rightarrow> nat \<Rightarrow> unit res \<times> 'k" where
  "clear_mem P zeros k address sz =
     (case zeros sz of
        Some e \<Rightarrow> (Err e, k)
      | None \<Rightarrow> write_data P k (untag_pointer address) (replicate sz 0))"

text \<open>The functions generated for each integer type: its size in bytes.\<close>

definition peek_uint :: "'k Ptrace_Mem \<Rightarrow> nat \<Rightarrow> 'k \<Rightarrow> word_t \<Rightarrow> word_t res" where
  "peek_uint P sz k address =
     (case read_data P k address sz of Inl e \<Rightarrow> Inl e | Inr bs \<Rightarrow> Inr (load_word bs))"

definition poke_uint :: "'k Ptrace_Mem \<Rightarrow> nat \<Rightarrow> 'k \<Rightarrow> word_t \<Rightarrow> word_t \<Rightarrow> unit res \<times> 'k" where
  "poke_uint P sz k address v = write_data P k address (take sz (store_word v))"

lemma length_string_bytes [simp]: "length (string_bytes s) = length s + 1"
  by (simp add: string_bytes_def)

lemma unat_of_char: "unat (of_char c :: byte) = of_char c"
proof -
  have "unat (of_nat (of_char c) :: byte) = of_char c" by (simp add: unat_of_nat del: of_nat_of_char)
  then show ?thesis by (simp only: of_nat_of_char)
qed

lemma char_of_byte: "char_of (unat (of_char c :: byte)) = c"
  by (simp only: unat_of_char char_of_char)

lemma of_char_eq_0: "(of_char c :: byte) = 0 \<longleftrightarrow> c = NUL"
proof
  assume "(of_char c :: byte) = 0"
  then have "char_of (unat (of_char c :: byte)) = (char_of (0 :: nat) :: char)" by simp
  then have "c = char_of (0 :: nat)" by (simp only: char_of_byte)
  also have "\<dots> = NUL" by code_simp
  finally show "c = NUL" .
qed (simp add: NUL_def)

lemma zero_free: "NUL \<notin> set s \<Longrightarrow> 0 \<notin> set (map of_char s :: byte list)"
  using of_char_eq_0 by (auto simp: image_iff)

subsection \<open>Memory as a map of bytes\<close>

definition mapped :: "(word_t \<Rightarrow> byte option) \<Rightarrow> word_t \<Rightarrow> nat \<Rightarrow> bool" where
  "mapped m a n \<longleftrightarrow> (\<forall>i<n. m (a + of_nat i) \<noteq> None)"

definition contents :: "(word_t \<Rightarrow> byte option) \<Rightarrow> word_t \<Rightarrow> nat \<Rightarrow> byte list" where
  "contents m a n = map (\<lambda>i. the (m (a + of_nat i))) [0..<n]"

definition put :: "(word_t \<Rightarrow> byte option) \<Rightarrow> word_t \<Rightarrow> byte list \<Rightarrow> word_t \<Rightarrow> byte option" where
  "put m a bs = (\<lambda>x. if unat (x - a) < length bs then Some (bs ! unat (x - a)) else m x)"

lemma length_contents [simp]: "length (contents m a n) = n"
  by (simp add: contents_def)

lemma unat_minus_nat:
  "m < 2 ^ 64 \<Longrightarrow>
    unat (y - of_nat m :: word_t) = (if m \<le> unat y then unat y - m else unat y + 2 ^ 64 - m)"
  by (simp add: unat_sub_if_size word_size unat_of_nat)

lemma put_put:
  assumes "length xs + length ys \<le> 2 ^ 64" and "ys \<noteq> []"
  shows "put (put m a xs) (a + of_nat (length xs)) ys = put m a (xs @ ys)"
proof (rule ext)
  fix x
  have "length xs < 2 ^ 64" using assms by (cases ys) auto
  moreover have "x - (a + of_nat (length xs)) = (x - a) - of_nat (length xs)" by simp
  ultimately have "unat (x - (a + of_nat (length xs))) =
      (if length xs \<le> unat (x - a) then unat (x - a) - length xs else unat (x - a) + 2 ^ 64 - length xs)"
    by (simp only: unat_minus_nat)
  then show "put (put m a xs) (a + of_nat (length xs)) ys x = put m a (xs @ ys) x"
    using assms(1) by (auto simp: put_def nth_append)
qed

lemma put_Nil [simp]: "put m a [] = m"
  by (simp add: put_def)

lemma mapped_put: "mapped m a n \<Longrightarrow> mapped (put m b bs) a n"
  by (auto simp: mapped_def put_def)

lemma mapped_put_back:
  assumes "mapped m b (length bs)" and "mapped (put m b bs) a n"
  shows "mapped m a n"
  unfolding mapped_def
proof (intro allI impI)
  fix i assume "i < n"
  then have "put m b bs (a + of_nat i) \<noteq> None" using assms(2) by (simp add: mapped_def)
  moreover have "m (a + of_nat i) \<noteq> None" if "unat (a + of_nat i - b) < length bs"
    using assms(1)[unfolded mapped_def, rule_format, OF that] by simp
  ultimately show "m (a + of_nat i) \<noteq> None" by (auto simp: put_def split: if_splits)
qed

lemma mapped_shift: "mapped m a (i + n) \<Longrightarrow> mapped m (a + of_nat i) n"
  by (auto simp: mapped_def algebra_simps) (metis add.commute add_less_cancel_left of_nat_add)

lemma mapped_mono: "mapped m a n \<Longrightarrow> k \<le> n \<Longrightarrow> mapped m a k"
  by (auto simp: mapped_def)

lemma contents_split: "contents m a (i + n) = contents m a i @ contents m (a + of_nat i) n"
  by (rule nth_equalityI) (auto simp: contents_def nth_append algebra_simps of_nat_diff)

lemma contents_take: "i \<le> n \<Longrightarrow> take i (contents m a n) = contents m a i"
  by (rule nth_equalityI) (auto simp: contents_def)

lemma unat_of_nat_small: "i < 2 ^ 64 \<Longrightarrow> unat (of_nat i :: word_t) = i"
  by (simp add: unat_of_nat)

lemma contents_put: "length bs \<le> 2 ^ 64 \<Longrightarrow> contents (put m a bs) a (length bs) = bs"
  by (rule nth_equalityI) (simp_all add: contents_def put_def unat_of_nat_small)

lemma contents_put_apart:
  assumes "\<And>i. i < n \<Longrightarrow> length bs \<le> unat (b + of_nat i - a)"
  shows "contents (put m a bs) b n = contents m b n"
  using assms by (auto simp: contents_def put_def not_less[symmetric])

text \<open>Rewriting the end of a word as it was.\<close>

lemma put_rest:
  assumes "mapped m a n" and "length bs \<le> n" and "n < 2 ^ 64"
  shows "put m a (bs @ drop (length bs) (contents m a n)) = put m a bs"
proof (rule ext)
  fix x
  have "m x = Some (contents m a n ! unat (x - a))" if "unat (x - a) < n"
  proof -
    have "x = a + of_nat (unat (x - a))" by simp
    then have "m x \<noteq> None" using assms(1) that by (auto simp: mapped_def)
    then show ?thesis using that by (simp add: contents_def)
  qed
  then show "put m a (bs @ drop (length bs) (contents m a n)) x = put m a bs x"
    using assms by (auto simp: put_def nth_append)
qed

text \<open>
  What the requests of \<open>ptrace(2)\<close> promise: they read and write the eight bytes at an address, or
  fail where one of them is not mapped.
\<close>

locale ptrace_memory =
  fixes P :: "'k Ptrace_Mem"
    and bytes :: "'k \<Rightarrow> word_t \<Rightarrow> byte option"
  assumes peek_mapped: "mapped (bytes k) a 8 \<Longrightarrow> p_peekdata P k a = Inr (load_word (contents (bytes k) a 8))"
    and peek_unmapped: "\<not> mapped (bytes k) a 8 \<Longrightarrow> \<exists>e. p_peekdata P k a = Err e"
    and poke_mapped: "mapped (bytes k) a 8 \<Longrightarrow>
        \<exists>k'. p_pokedata P k a w = (None, k') \<and> bytes k' = put (bytes k) a (store_word w)"
    and poke_unmapped: "\<not> mapped (bytes k) a 8 \<Longrightarrow>
        \<exists>e k'. p_pokedata P k a w = (Some e, k') \<and> bytes k' = bytes k"
begin

lemma write_full_words_put:
  assumes "mapped (bytes k) a (8 * n)" and "8 * n \<le> length src" and "length src < 2 ^ 64"
  shows "\<exists>k'. write_full_words P k a src n = (True, k') \<and> bytes k' = put (bytes k) a (take (8 * n) src)"
  using assms
proof (induction n arbitrary: k a src)
  case (Suc n)
  let ?w = "load_word (take 8 src)"
  have m: "mapped (bytes k) a (8 + 8 * n)" using Suc.prems(1) by simp
  then have "mapped (bytes k) a 8" by (rule mapped_mono) simp
  then obtain k1 where k1: "p_pokedata P k a ?w = (None, k1)" "bytes k1 = put (bytes k) a (store_word ?w)"
    using poke_mapped by blast
  have stored: "store_word ?w = take 8 src" using Suc.prems(2) by (simp add: store_load_word)
  have "mapped (bytes k1) (a + 8) (8 * n)"
    using mapped_put[OF mapped_shift[OF m]] by (simp add: k1(2))
  moreover have len: "8 * n \<le> length (drop 8 src)" "length (drop 8 src) < 2 ^ 64"
    using Suc.prems(2,3) by auto
  ultimately obtain k2 where k2: "write_full_words P k1 (a + 8) (drop 8 src) n = (True, k2)"
    "bytes k2 = put (bytes k1) (a + 8) (take (8 * n) (drop 8 src))"
    using Suc.IH[of k1 "a + 8" "drop 8 src", OF _ len] by blast
  have "put (bytes k1) (a + 8) (take (8 * n) (drop 8 src)) = put (bytes k) a (take (8 * Suc n) src)"
  proof (cases "n = 0")
    case True
    then show ?thesis by (simp add: k1(2) stored)
  next
    case False
    have "length (take 8 src) = 8" using Suc.prems(2) by simp
    then have eight: "of_nat (length (take 8 src)) = (8 :: word_t)" by (simp del: length_take)
    have split: "take (8 * Suc n) src = take 8 src @ take (8 * n) (drop 8 src)"
      by (simp add: take_add)
    have "put (put (bytes k) a (take 8 src)) (a + of_nat (length (take 8 src))) (take (8 * n) (drop 8 src)) =
        put (bytes k) a (take 8 src @ take (8 * n) (drop 8 src))"
      by (rule put_put) (use Suc.prems False in auto)
    then show ?thesis unfolding eight k1(2) stored split .
  qed
  then show ?case using k1(1) k2 by simp
qed simp

lemma write_trailing_bytes_put:
  assumes "mapped (bytes k) a 8" and "length src \<le> 8"
  shows "\<exists>k'. write_trailing_bytes P k a src = (True, k') \<and> bytes k' = put (bytes k) a src"
proof -
  let ?bs = "src @ drop (length src) (contents (bytes k) a 8)"
  have "length ?bs = 8" using assms(2) by simp
  then obtain k' where "p_pokedata P k a (load_word ?bs) = (None, k')" "bytes k' = put (bytes k) a ?bs"
    using poke_mapped[OF assms(1), of "load_word ?bs"] by (auto simp: store_load_word)
  moreover have "put (bytes k) a ?bs = put (bytes k) a src"
    by (rule put_rest[OF assms]) simp
  ultimately show ?thesis
    by (simp add: write_trailing_bytes_def peek_mapped[OF assms(1)] store_load_word)
qed

text \<open>The number of bytes that the accesses to \<open>n\<close> bytes touch.\<close>

lemma write_data_put:
  assumes m: "mapped (bytes k) (untag_pointer a) (8 * ((length src + 7) div 8))" and small: "length src < 2 ^ 63"
  shows "\<exists>k'. write_data P k a src = (Inr (), k') \<and> bytes k' = put (bytes k) (untag_pointer a) src"
proof -
  let ?a = "untag_pointer a" and ?n = "length src div 8"
  have n: "(length src - length src mod 8) div 8 = ?n" by (simp add: minus_mod_eq_div_mult)
  have "mapped (bytes k) ?a (8 * ?n)" using m by (rule mapped_mono) simp
  then obtain k1 where k1: "write_full_words P k ?a src ?n = (True, k1)"
    "bytes k1 = put (bytes k) ?a (take (8 * ?n) src)"
    using write_full_words_put[of k ?a ?n src] small by auto
  show ?thesis
  proof (cases "length src mod 8 = 0")
    case True
    then have "take (8 * ?n) src = src" by (auto simp: mult_div_mod_eq)
    then show ?thesis using k1 True n by (simp add: write_data_def Let_def)
  next
    case False
    let ?rest = "drop (8 * ?n) src"
    have "length src = 8 * ?n + length src mod 8" "length src mod 8 < 8" by simp_all
    then have rest: "length ?rest \<le> 8" "length ?rest \<noteq> 0" "length (take (8 * ?n) src) = 8 * ?n"
      using False unfolding length_drop length_take by linarith+
    have "8 * ((length src + 7) div 8) = 8 * ?n + 8" using False by presburger
    then have "mapped (bytes k1) (?a + of_nat (8 * ?n)) 8"
      using mapped_put[OF mapped_shift[of "bytes k" ?a "8 * ?n" 8]] m k1(2) by simp
    then obtain k2 where k2: "write_trailing_bytes P k1 (?a + of_nat (8 * ?n)) ?rest = (True, k2)"
      "bytes k2 = put (bytes k1) (?a + of_nat (8 * ?n)) ?rest"
      using write_trailing_bytes_put[OF _ rest(1)] by blast
    have "put (put (bytes k) ?a (take (8 * ?n) src)) (?a + of_nat (length (take (8 * ?n) src))) ?rest =
        put (bytes k) ?a (take (8 * ?n) src @ ?rest)"
      by (rule put_put) (use small rest(2) in auto)
    then have "bytes k2 = put (bytes k) ?a src" unfolding rest(3) k1(2)[symmetric] k2(2) by simp
    then show ?thesis using k1(1) k2(1) False n by (simp add: write_data_def Let_def)
  qed
qed

lemma read_full_words_contents:
  "mapped (bytes k) a (8 * n) \<Longrightarrow> read_full_words P k a n = Inr (contents (bytes k) a (8 * n))"
proof (induction n arbitrary: a)
  case (Suc n)
  have m: "mapped (bytes k) a (8 + 8 * n)" using Suc.prems by simp
  have "mapped (bytes k) a 8" using m by (rule mapped_mono) simp
  moreover have "mapped (bytes k) (a + 8) (8 * n)" using mapped_shift[OF m] by simp
  moreover have "contents (bytes k) a (8 * Suc n) = contents (bytes k) a 8 @ contents (bytes k) (a + 8) (8 * n)"
    using contents_split[of "bytes k" a 8 "8 * n"] by simp
  ultimately show ?case using Suc.IH[of "a + 8"] by (simp add: peek_mapped store_load_word)
qed (simp add: contents_def)

lemma read_data_contents:
  assumes m: "mapped (bytes k) (untag_pointer a) (8 * ((n + 7) div 8))"
  shows "read_data P k a n = Inr (contents (bytes k) (untag_pointer a) n)"
proof -
  let ?a = "untag_pointer a"
  have n: "(n - n mod 8) div 8 = n div 8" by (simp add: minus_mod_eq_div_mult)
  have "mapped (bytes k) ?a (8 * (n div 8))" using m by (rule mapped_mono) simp
  then have full: "read_full_words P k ?a (n div 8) = Inr (contents (bytes k) ?a (8 * (n div 8)))"
    by (rule read_full_words_contents)
  show ?thesis
  proof (cases "n mod 8 = 0")
    case True
    then have "8 * (n div 8) = n" by auto
    then show ?thesis using full True n by (simp add: read_data_def Let_def)
  next
    case False
    then have "8 * ((n + 7) div 8) = 8 * (n div 8) + 8" by presburger
    then have "mapped (bytes k) (?a + of_nat (8 * (n div 8))) 8"
      using mapped_shift[of "bytes k" ?a "8 * (n div 8)" 8] m by simp
    moreover have "contents (bytes k) ?a n = contents (bytes k) ?a (8 * (n div 8))
        @ take (n mod 8) (contents (bytes k) (?a + of_nat (8 * (n div 8))) 8)"
      using contents_split[of "bytes k" ?a "8 * (n div 8)" "n mod 8"] by (simp add: contents_take)
    ultimately show ?thesis
      using full False n by (simp add: read_data_def Let_def peek_mapped store_load_word)
  qed
qed

end

lemma takeWhile_nul:
  assumes "take (Suc (length s)) bs = s @ [0]" and "0 \<notin> set s"
  shows "takeWhile (\<lambda>b. b \<noteq> 0) bs = (s :: byte list)"
proof -
  have "bs = s @ 0 # drop (Suc (length s)) bs"
    using append_take_drop_id[of "Suc (length s)" bs] unfolding assms(1) by simp
  then have "takeWhile (\<lambda>b. b \<noteq> 0) bs = takeWhile (\<lambda>b. b \<noteq> 0) (s @ 0 # drop (Suc (length s)) bs)"
    by (rule arg_cong)
  also have "\<dots> = s" using assms(2) by (subst takeWhile_append2) auto
  finally show ?thesis .
qed

lemma string_length_nul:
  "take (Suc (length s)) bs = s @ [0] \<Longrightarrow> 0 \<notin> set s \<Longrightarrow> string_length bs = length s"
  by (simp add: string_length_def takeWhile_nul)

context ptrace_memory
begin

lemma read_string_loop_contents:
  assumes "contents (bytes k) a (Suc (length s)) = s @ [0]" and "0 \<notin> set s"
    and "mapped (bytes k) a (8 * (length s div 8 + 1))"
    and "length s < 8 * n + t" and "t < 8"
  shows "\<exists>bs. read_string_loop P k a n t = Inr (bs, length s + 1) \<and> takeWhile (\<lambda>b. b \<noteq> 0) bs = s"
  using assms
proof (induction n arbitrary: a s)
  case 0
  let ?bs = "take t (contents (bytes k) a 8)"
  have "mapped (bytes k) a 8" using "0.prems"(3) by (rule mapped_mono) simp
  moreover have bs: "take (Suc (length s)) ?bs = s @ [0]"
    using 0 by (simp add: contents_take min_def)
  then have "string_length ?bs = length s" "takeWhile (\<lambda>b. b \<noteq> 0) ?bs = s"
    using 0 by (simp_all add: string_length_nul takeWhile_nul)
  moreover have "takeWhile (\<lambda>b. b \<noteq> 0) (take (length s + 1) ?bs) = s"
    using bs 0 by (intro takeWhile_nul) simp_all
  ultimately show ?case by (simp add: peek_mapped store_load_word Let_def)
next
  case (Suc n)
  let ?bs = "contents (bytes k) a 8"
  have peek: "p_peekdata P k a = Inr (load_word ?bs)"
    by (rule peek_mapped, rule mapped_mono[OF Suc.prems(3)]) simp
  show ?case
  proof (cases "length s < 8")
    case True
    then have "take (Suc (length s)) ?bs = s @ [0]" using Suc.prems(1) by (simp add: contents_take)
    then have "string_length ?bs = length s" "takeWhile (\<lambda>b. b \<noteq> 0) ?bs = s"
      using Suc.prems(2) by (simp_all add: string_length_nul takeWhile_nul)
    then show ?thesis using True peek by (simp add: store_load_word Let_def)
  next
    case False
    have "contents (bytes k) a (8 + Suc (length s - 8)) = s @ [0]" using Suc.prems(1) False by simp
    then have split: "?bs @ contents (bytes k) (a + 8) (Suc (length s - 8)) = s @ [0]"
      using contents_split[of "bytes k" a 8 "Suc (length s - 8)"] by simp
    then have bs: "?bs = take 8 s" "contents (bytes k) (a + 8) (Suc (length (drop 8 s))) = drop 8 s @ [0]"
      using False by (auto simp: append_eq_append_conv_if)
    have "mapped (bytes k) (a + 8) (8 * (length (drop 8 s) div 8 + 1))"
    proof -
      have "8 * (length s div 8 + 1) = 8 + 8 * (length (drop 8 s) div 8 + 1)"
        using False by (simp add: le_div_geq)
      then show ?thesis using Suc.prems(3) mapped_shift[of "bytes k" a 8] by simp
    qed
    moreover have "0 \<notin> set (drop 8 s)" using Suc.prems(2) by (meson in_set_dropD)
    moreover have "length (drop 8 s) < 8 * n + t" using Suc.prems(4) False by simp
    ultimately obtain bs' where IH: "read_string_loop P k (a + 8) n t = Inr (bs', length (drop 8 s) + 1)"
      "takeWhile (\<lambda>b. b \<noteq> 0) bs' = drop 8 s"
      using Suc.IH[OF bs(2)] Suc.prems(5) by blast
    have no: "\<forall>b \<in> set (take 8 s). b \<noteq> 0" using Suc.prems(2) by (metis in_set_takeD)
    then have "string_length ?bs = 8" using False by (simp add: bs(1) string_length_def takeWhile_eq_all_conv[THEN iffD2])
    moreover have "takeWhile (\<lambda>b. b \<noteq> 0) (?bs @ bs') = s"
      using no IH(2) by (simp add: bs(1) takeWhile_append2)
    ultimately show ?thesis using peek IH(1) False by (simp add: store_load_word Let_def)
  qed
qed

lemma read_string_contents:
  assumes "contents (bytes k) (untag_pointer a) (Suc (length s)) = s @ [0]" and "0 \<notin> set s"
    and "mapped (bytes k) (untag_pointer a) (8 * (length s div 8 + 1))" and "length s < max_size"
  shows "\<exists>bs. read_string P k a max_size = Inr (bs, length s + 1) \<and> takeWhile (\<lambda>b. b \<noteq> 0) bs = s"
  unfolding read_string_def Let_def
  by (rule read_string_loop_contents[OF assms(1-3)]) (use assms(4) in \<open>simp_all add: minus_mod_eq_div_mult\<close>)

text \<open>A write that succeeds has found all its words mapped.\<close>

lemma write_full_words_mapped:
  "write_full_words P k a src n = (True, k') \<Longrightarrow> 8 * n \<le> length src \<Longrightarrow> mapped (bytes k) a (8 * n)"
proof (induction n arbitrary: k a src)
  case (Suc n)
  let ?w = "store_word (load_word (take 8 src))"
  have a: "mapped (bytes k) a 8"
    using poke_unmapped[of k a "load_word (take 8 src)"] Suc.prems by fastforce
  obtain k1 where k1: "p_pokedata P k a (load_word (take 8 src)) = (None, k1)" "bytes k1 = put (bytes k) a ?w"
    using poke_mapped[OF a] by blast
  moreover have "8 * n \<le> length (drop 8 src)" using Suc.prems(2) by simp
  ultimately have "mapped (bytes k1) (a + 8) (8 * n)"
    using Suc.prems(1) Suc.IH[of k1 "a + 8" "drop 8 src"] by simp
  then have rest: "mapped (bytes k) (a + 8) (8 * n)"
    unfolding k1(2) by (rule mapped_put_back[rotated]) (simp add: a)
  show ?case unfolding mapped_def
  proof (intro allI impI)
    fix i assume i: "i < 8 * Suc n"
    show "bytes k (a + of_nat i) \<noteq> None"
    proof (cases "i < 8")
      case False
      then obtain j where "i = 8 + j" using le_Suc_ex not_less by blast
      then show ?thesis using rest i by (simp add: mapped_def add.assoc)
    qed (use a in \<open>simp add: mapped_def\<close>)
  qed
qed (simp add: mapped_def)

lemma write_data_mapped:
  assumes "write_data P k a src = (Inr (), k')" and "length src < 2 ^ 63"
  shows "mapped (bytes k) (untag_pointer a) (8 * ((length src + 7) div 8))"
proof -
  let ?a = "untag_pointer a" and ?n = "length src div 8"
  have n: "(length src - length src mod 8) div 8 = ?n" by (simp add: minus_mod_eq_div_mult)
  obtain k1 where k1: "write_full_words P k ?a src ?n = (True, k1)"
    using assms(1) by (auto simp: write_data_def n Let_def split: prod.splits bool.splits)
  have full: "mapped (bytes k) ?a (8 * ?n)" using write_full_words_mapped[OF k1] by simp
  show ?thesis
  proof (cases "length src mod 8 = 0")
    case True
    then have "8 * ((length src + 7) div 8) = 8 * ?n" by presburger
    then show ?thesis using full by simp
  next
    case False
    obtain k1' where k1': "write_full_words P k ?a src ?n = (True, k1')"
      "bytes k1' = put (bytes k) ?a (take (8 * ?n) src)"
      using write_full_words_put[OF full, of src] assms(2) by auto
    then have "k1' = k1" using k1 by simp
    then have trail: "fst (write_trailing_bytes P k1 (?a + of_nat (8 * ?n)) (drop (8 * ?n) src)) = True"
      using assms(1) k1 False by (auto simp: write_data_def n Let_def split: prod.splits bool.splits)
    have "mapped (bytes k1) (?a + of_nat (8 * ?n)) 8"
    proof (rule ccontr)
      assume "\<not> ?thesis"
      then obtain e where "p_peekdata P k1 (?a + of_nat (8 * ?n)) = Err e" using peek_unmapped by blast
      then show False using trail by (simp add: write_trailing_bytes_def)
    qed
    then have last: "mapped (bytes k) (?a + of_nat (8 * ?n)) 8"
      unfolding \<open>k1' = k1\<close>[symmetric] k1'(2) by (rule mapped_put_back[rotated]) (simp add: full)
    have "8 * ((length src + 7) div 8) = 8 * ?n + 8" using False by presburger
    show ?thesis unfolding \<open>8 * ((length src + 7) div 8) = _\<close> mapped_def
    proof (intro allI impI)
      fix i assume i: "i < 8 * ?n + 8"
      show "bytes k (?a + of_nat i) \<noteq> None"
      proof (cases "i < 8 * ?n")
        case False
        then obtain j where "i = 8 * ?n + j" using le_Suc_ex not_less by blast
        then show ?thesis using last i by (simp add: mapped_def add.assoc)
      qed (use full in \<open>simp add: mapped_def\<close>)
    qed
  qed
qed

text \<open>What is written is read again.\<close>

lemma write_read_data:
  assumes m: "mapped (bytes k) (untag_pointer a) (8 * ((length src + 7) div 8))" and "length src < 2 ^ 63"
  shows "\<exists>k'. write_data P k a src = (Inr (), k') \<and> read_data P k' a (length src) = Inr src"
proof -
  obtain k' where k': "write_data P k a src = (Inr (), k')" "bytes k' = put (bytes k) (untag_pointer a) src"
    using write_data_put[OF assms] by blast
  have "mapped (bytes k') (untag_pointer a) (8 * ((length src + 7) div 8))"
    using mapped_put[OF m] by (simp add: k'(2))
  then show ?thesis
    using read_data_contents[of k' a "length src"] k' assms(2) by (simp add: contents_put)
qed

end

text \<open>A memory as a map of bytes has these requests.\<close>

definition plain_memory :: "(word_t \<Rightarrow> byte option) Ptrace_Mem" where
  "plain_memory = \<lparr>
     p_peekdata = (\<lambda>m a. if mapped m a 8 then Inr (load_word (contents m a 8)) else Err EIO),
     p_pokedata = (\<lambda>m a w. if mapped m a 8 then (None, put m a (store_word w)) else (Some EIO, m))\<rparr>"

interpretation plain: ptrace_memory plain_memory "\<lambda>m. m"
  by unfold_locales (simp_all add: plain_memory_def)

end
