(* ===== verification/Elf.thy ===== *)
theory Elf
  imports Memory
begin

section \<open>ELF files\<close>

text \<open>
  execve/elf.c and execve/elf.h: the header of a file and its program headers.  A header is its
  bytes, and a field is read at its offset in the structure of the class.
\<close>

subsection \<open>Layout\<close>

type_synonym ElfHeader = "byte list"
type_synonym ProgramHeader = "byte list"

definition field :: "byte list \<Rightarrow> nat \<Rightarrow> nat \<Rightarrow> word_t" where
  "field bs off n = load_word (take n (drop off bs))"

definition set_field :: "byte list \<Rightarrow> nat \<Rightarrow> nat \<Rightarrow> word_t \<Rightarrow> byte list" where
  "set_field bs off n v = take off bs @ take n (store_word v) @ drop (off + n) bs"

definition EI_NIDENT :: nat where "EI_NIDENT = 16"
definition sizeof_ElfHeader :: nat where "sizeof_ElfHeader = 64"
definition sizeof_ProgramHeader32 :: nat where "sizeof_ProgramHeader32 = 32"
definition sizeof_ProgramHeader64 :: nat where "sizeof_ProgramHeader64 = 56"

definition ELF_IDENT :: "ElfHeader \<Rightarrow> nat \<Rightarrow> byte" where
  "ELF_IDENT header i = header ! i"

definition ELF_CLASS :: "ElfHeader \<Rightarrow> byte" where "ELF_CLASS header = ELF_IDENT header 4"

definition IS_CLASS32 :: "ElfHeader \<Rightarrow> bool" where "IS_CLASS32 header \<longleftrightarrow> ELF_CLASS header = 1"
definition IS_CLASS64 :: "ElfHeader \<Rightarrow> bool" where "IS_CLASS64 header \<longleftrightarrow> ELF_CLASS header = 2"

datatype Elf_Field = E_type | E_machine | E_entry | E_phoff | E_phentsize | E_phnum

text \<open>Offset and size of a field in \<open>ElfHeader64\<close> and in \<open>ElfHeader32\<close>.\<close>

definition elf_field64 :: "Elf_Field \<Rightarrow> nat \<times> nat" where
  "elf_field64 f =
     (case f of E_type \<Rightarrow> (16, 2) | E_machine \<Rightarrow> (18, 2) | E_entry \<Rightarrow> (24, 8) | E_phoff \<Rightarrow> (32, 8)
      | E_phentsize \<Rightarrow> (54, 2) | E_phnum \<Rightarrow> (56, 2))"

definition elf_field32 :: "Elf_Field \<Rightarrow> nat \<times> nat" where
  "elf_field32 f =
     (case f of E_type \<Rightarrow> (16, 2) | E_machine \<Rightarrow> (18, 2) | E_entry \<Rightarrow> (24, 4) | E_phoff \<Rightarrow> (28, 4)
      | E_phentsize \<Rightarrow> (42, 2) | E_phnum \<Rightarrow> (44, 2))"

definition elf_place :: "ElfHeader \<Rightarrow> Elf_Field \<Rightarrow> nat \<times> nat" where
  "elf_place header f = (if IS_CLASS64 header then elf_field64 f else elf_field32 f)"

definition ELF_FIELD :: "ElfHeader \<Rightarrow> Elf_Field \<Rightarrow> word_t" where
  "ELF_FIELD header f = (case elf_place header f of (off, n) \<Rightarrow> field header off n)"

datatype Program_Field = P_type | P_flags | P_offset | P_vaddr | P_filesz | P_memsz

definition program_field64 :: "Program_Field \<Rightarrow> nat \<times> nat" where
  "program_field64 f =
     (case f of P_type \<Rightarrow> (0, 4) | P_flags \<Rightarrow> (4, 4) | P_offset \<Rightarrow> (8, 8) | P_vaddr \<Rightarrow> (16, 8)
      | P_filesz \<Rightarrow> (32, 8) | P_memsz \<Rightarrow> (40, 8))"

definition program_field32 :: "Program_Field \<Rightarrow> nat \<times> nat" where
  "program_field32 f =
     (case f of P_type \<Rightarrow> (0, 4) | P_flags \<Rightarrow> (24, 4) | P_offset \<Rightarrow> (4, 4) | P_vaddr \<Rightarrow> (8, 4)
      | P_filesz \<Rightarrow> (16, 4) | P_memsz \<Rightarrow> (20, 4))"

definition PROGRAM_FIELD :: "ElfHeader \<Rightarrow> ProgramHeader \<Rightarrow> Program_Field \<Rightarrow> word_t" where
  "PROGRAM_FIELD ehdr phdr f =
     (case (if IS_CLASS64 ehdr then program_field64 f else program_field32 f) of
        (off, n) \<Rightarrow> field phdr off n)"

definition ET_EXEC :: word_t where "ET_EXEC = 2"
definition ET_DYN :: word_t where "ET_DYN = 3"
definition PF_X :: word_t where "PF_X = 1"
definition PF_W :: word_t where "PF_W = 2"
definition PF_R :: word_t where "PF_R = 4"
definition PT_LOAD :: word_t where "PT_LOAD = 1"
definition PT_INTERP :: word_t where "PT_INTERP = 3"
definition PT_GNU_STACK :: word_t where "PT_GNU_STACK = 0x6474E551"

definition KNOWN_PHENTSIZE :: "ElfHeader \<Rightarrow> nat \<Rightarrow> bool" where
  "KNOWN_PHENTSIZE header n \<longleftrightarrow>
     (IS_CLASS32 header \<and> n = sizeof_ProgramHeader32) \<or> (IS_CLASS64 header \<and> n = sizeof_ProgramHeader64)"

definition IS_POSITION_INDENPENDANT :: "ElfHeader \<Rightarrow> bool" where
  "IS_POSITION_INDENPENDANT header \<longleftrightarrow> ELF_FIELD header E_type = ET_DYN"

subsection \<open>Reading a file\<close>

text \<open>
  An opened file: its bytes, or the error each read gives (a directory can be opened, not read);
  a read past the end yields less than asked.  \<open>f_errno\<close> is the value errno happens to have.
\<close>

record File =
  f_bytes :: "byte list"
  f_error :: "errno option"
  f_errno :: "errno option"

definition read_at :: "File \<Rightarrow> nat \<Rightarrow> nat \<Rightarrow> byte list res" where
  "read_at f pos n =
     (case f_error f of Some e \<Rightarrow> Err e | None \<Rightarrow> Inr (take n (drop pos (f_bytes f))))"

text \<open>\<open>files\<close> is \<open>open(2)\<close> for reading.\<close>

definition open_elf :: "(string \<Rightarrow> File res) \<Rightarrow> string \<Rightarrow> (File \<times> ElfHeader) res" where
  "open_elf files path =
     (case files path of
        Inl e \<Rightarrow> Inl e
      | Inr f \<Rightarrow>
          (case read_at f 0 sizeof_ElfHeader of
             Inl e \<Rightarrow> Inl e
           | Inr header \<Rightarrow>
               (if length header < sizeof_ElfHeader \<or> ELF_IDENT header 0 \<noteq> 0x7F
                   \<or> ELF_IDENT header 1 \<noteq> 0x45 \<or> ELF_IDENT header 2 \<noteq> 0x4C \<or> ELF_IDENT header 3 \<noteq> 0x46
                then Err ENOEXEC
                else if \<not> IS_CLASS32 header \<and> \<not> IS_CLASS64 header then Err ENOEXEC
                else Inr (f, header))))"

text \<open>
  \<open>lseek(2)\<close> refuses an offset that is negative as a signed number; the source converts the
  offset it returns to \<open>int\<close>.
\<close>

definition lseek_status :: "File \<Rightarrow> word_t \<Rightarrow> errno option \<times> bool" where
  "lseek_status f off =
     (if sint off < 0 then (Some EINVAL, True)
      else (f_errno f, sint (ucast off :: 32 word) < 0))"

text \<open>
  The iteration: an error, the value \<open>\<noteq> 0\<close> of the callback, or \<open>None\<close> at the end, with the
  state of the callback.
\<close>

fun iterate_loop ::
  "File \<Rightarrow> nat \<Rightarrow> nat \<Rightarrow> (ProgramHeader \<Rightarrow> 's \<Rightarrow> 'r option \<times> 's) \<Rightarrow> nat \<Rightarrow> 's \<Rightarrow> 'r option res \<times> 's" where
  "iterate_loop f pos phentsize callback 0 s = (Inr None, s)"
| "iterate_loop f pos phentsize callback (Suc n) s =
     (case read_at f pos phentsize of
        Inl e \<Rightarrow> (Inl e, s)
      | Inr bs \<Rightarrow>
          (if length bs \<noteq> phentsize then (Err ENOTSUP, s)
           else
             (case callback bs s of
                (Some r, s) \<Rightarrow> (Inr (Some r), s)
              | (None, s) \<Rightarrow> iterate_loop f (pos + phentsize) phentsize callback n s)))"

definition iterate_program_headers ::
  "File \<Rightarrow> ElfHeader \<Rightarrow> (ProgramHeader \<Rightarrow> 's \<Rightarrow> 'r option \<times> 's) \<Rightarrow> 's \<Rightarrow> 'r option res \<times> 's" where
  "iterate_program_headers f elf_header callback s =
     (let elf_phnum = unat (ELF_FIELD elf_header E_phnum);
          elf_phentsize = unat (ELF_FIELD elf_header E_phentsize);
          elf_phoff = ELF_FIELD elf_header E_phoff
      in if elf_phnum \<ge> 0xFFFF then (Err ENOTSUP, s)
         else if \<not> KNOWN_PHENTSIZE elf_header elf_phentsize then (Err ENOTSUP, s)
         else
           (case lseek_status f elf_phoff of
              (e, True) \<Rightarrow> (case e of None \<Rightarrow> (Inr None, s) | Some e \<Rightarrow> (Err e, s))
            | (_, False) \<Rightarrow>
                iterate_loop f (unat elf_phoff) elf_phentsize callback elf_phnum s))"

definition HOST_ELF_MACHINE :: "word_t list" where "HOST_ELF_MACHINE = [183]"

definition is_host_elf :: "(string \<Rightarrow> File res) \<Rightarrow> bool \<Rightarrow> bool \<Rightarrow> string \<Rightarrow> bool" where
  "is_host_elf files force_foreign has_qemu host_path =
     (if force_foreign \<or> \<not> has_qemu then False
      else
        (case open_elf files host_path of
           Inl e \<Rightarrow> False
         | Inr (f, elf_header) \<Rightarrow> ELF_FIELD elf_header E_machine \<in> set HOST_ELF_MACHINE))"

subsection \<open>Fields\<close>

lemma length_set_field [simp]: "off + n \<le> length bs \<Longrightarrow> n \<le> 8 \<Longrightarrow> length (set_field bs off n v) = length bs"
  by (simp add: set_field_def)

lemma field_set_field:
  assumes "off + n \<le> length bs" and "n \<le> 8"
  shows "field (set_field bs off n v) off n = take_bit (8 * n) v"
proof -
  have "take n (drop off (set_field bs off n v)) = take n (store_word v)"
    using assms by (simp add: set_field_def)
  then show ?thesis
    by (intro bit_word_eqI)
      (use assms in \<open>auto simp: field_def bit_load_word bit_take_bit_iff byte_at_def bit_ucast_iff bit_drop_bit_eq\<close>)
qed

lemma field_set_other:
  assumes "off + n \<le> off' \<or> off' + m \<le> off" and "off + n \<le> length bs" and "n \<le> 8"
    and "off' + m \<le> length bs"
  shows "field (set_field bs off n v) off' m = field bs off' m"
proof -
  have "take m (drop off' (set_field bs off n v)) = take m (drop off' bs)"
    using assms by (intro nth_equalityI) (auto simp: set_field_def nth_append)
  then show ?thesis by (simp add: field_def)
qed

text \<open>The iteration goes over every header exactly once, in the order of the file.\<close>

lemma iterate_loop_fold:
  assumes "f_error f = None" and "pos + n * sz \<le> length (f_bytes f)"
    and "\<And>i s. i < n \<Longrightarrow> fst (callback (take sz (drop (pos + i * sz) (f_bytes f))) s) = None"
  shows "iterate_loop f pos sz callback n s =
    (Inr None, fold (\<lambda>i s. snd (callback (take sz (drop (pos + i * sz) (f_bytes f))) s)) [0..<n] s)"
  using assms(2,3)
proof (induction n arbitrary: pos s)
  case (Suc n)
  have "min sz (length (f_bytes f) - pos) = sz" using Suc.prems(1) by simp
  moreover obtain s' where s': "callback (take sz (drop pos (f_bytes f))) s = (None, s')"
    using Suc.prems(2)[of 0 s] by (cases "callback (take sz (drop pos (f_bytes f))) s") auto
  moreover have "iterate_loop f (pos + sz) sz callback n s' =
      (Inr None, fold (\<lambda>i s. snd (callback (take sz (drop (pos + sz + i * sz) (f_bytes f))) s)) [0..<n] s')"
    using Suc.IH[of "pos + sz" s'] Suc.prems(1) Suc.prems(2)[of "Suc _"] by (simp add: add.assoc)
  moreover have "fold (\<lambda>i s. snd (callback (take sz (drop (pos + i * sz) (f_bytes f))) s)) [0..<Suc n] s =
      fold (\<lambda>i s. snd (callback (take sz (drop (pos + sz + i * sz) (f_bytes f))) s)) [0..<n] s'"
    unfolding upt_conv_Cons[OF zero_less_Suc]
    by (simp add: s' map_Suc_upt[symmetric] fold_map comp_def add.assoc del: upt_Suc)
  ultimately show ?case using assms(1) by (simp add: read_at_def del: upt_Suc)
qed simp

end
