(* ===== verification/Load_Info.thy ===== *)
theory Load_Info
  imports Elf Translate
begin

section \<open>Load information of a program\<close>

text \<open>
  The first half of execve/enter.c: from the program headers of an ELF file to the memory mappings
  that the loader will make, the path of its interpreter, and the addresses of what is position
  independent.
\<close>

unbundle bit_operations_syntax

subsection \<open>Data\<close>

record Mapping =
  m_addr :: word_t
  m_length :: word_t
  m_clear_length :: word_t
  m_prot :: word_t
  m_flags :: word_t
  m_fd :: word_t
  m_offset :: word_t

text \<open>
  \<open>LoadInfo\<close> without its interpreter; \<open>li_interp_path\<close> holds the host and the user path of a
  \<open>LoadInfo\<close> made for the interpreter and not yet extracted.
\<close>

record Load_Part =
  li_host_path :: string
  li_user_path :: string
  li_mappings :: "Mapping list"
  li_elf_header :: ElfHeader
  li_exec_stack :: bool
  li_interp_path :: "(string \<times> string) option"

definition new_load_part :: "string \<Rightarrow> string \<Rightarrow> Load_Part" where
  "new_load_part host user = \<lparr>li_host_path = host, li_user_path = user, li_mappings = [],
     li_elf_header = [], li_exec_stack = False, li_interp_path = None\<rparr>"

definition MAP_PRIVATE :: word_t where "MAP_PRIVATE = 0x02"
definition MAP_FIXED :: word_t where "MAP_FIXED = 0x10"
definition MAP_ANONYMOUS :: word_t where "MAP_ANONYMOUS = 0x20"
definition PROT_READ :: word_t where "PROT_READ = 1"
definition PROT_WRITE :: word_t where "PROT_WRITE = 2"
definition PROT_EXEC :: word_t where "PROT_EXEC = 4"

text \<open>What \<open>sysconf\<close> gives, with the value the source falls back to.\<close>

definition page_size_of :: "word_t \<Rightarrow> word_t" where
  "page_size_of sysconf = (if sint (ucast sysconf :: 32 word) \<le> 0 then 0x1000 else sysconf)"

definition page_mask_of :: "word_t \<Rightarrow> word_t" where
  "page_mask_of page_size = NOT (page_size - 1)"

subsection \<open>Mappings\<close>

definition prot_of :: "word_t \<Rightarrow> word_t" where
  "prot_of p_flags =
     (if p_flags AND PF_R \<noteq> 0 then PROT_READ else 0)
     OR (if p_flags AND PF_W \<noteq> 0 then PROT_WRITE else 0)
     OR (if p_flags AND PF_X \<noteq> 0 then PROT_EXEC else 0)"

definition add_mapping :: "word_t \<Rightarrow> ElfHeader \<Rightarrow> ProgramHeader \<Rightarrow> Mapping list \<Rightarrow> Mapping list" where
  "add_mapping page_size ehdr phdr ms =
     (let P = PROGRAM_FIELD ehdr phdr;
          page_mask = page_mask_of page_size;
          start_address = P P_vaddr AND page_mask;
          end_address = (P P_vaddr + P P_filesz + page_size) AND page_mask;
          m = \<lparr>m_addr = start_address, m_length = end_address - start_address, m_clear_length = 0,
               m_prot = prot_of (P P_flags), m_flags = MAP_PRIVATE OR MAP_FIXED, m_fd = -1,
               m_offset = P P_offset AND page_mask\<rparr>
      in if P P_memsz > P P_filesz then
           (let m = m\<lparr>m_clear_length := end_address - P P_vaddr - P P_filesz\<rparr>;
                start_address = end_address;
                end_address = (P P_vaddr + P P_memsz + page_size) AND page_mask
            in if end_address > start_address then
                 ms @ [m, \<lparr>m_addr = start_address, m_length = end_address - start_address,
                           m_clear_length = 0, m_prot = m_prot m,
                           m_flags = MAP_PRIVATE OR MAP_ANONYMOUS OR MAP_FIXED, m_fd = -1, m_offset = 0\<rparr>]
               else ms @ [m])
         else ms @ [m])"

subsection \<open>The interpreter\<close>

text \<open>
  What the program loading uses of the system beside the path translation: \<open>access(2)\<close>, opening
  for reading, the page size, and whether a QEMU command was given.
\<close>

record 'w Exec =
  x_env :: "'w Env"
  x_access_f :: "'w \<Rightarrow> string \<Rightarrow> bool"
  x_access_x :: "'w \<Rightarrow> string \<Rightarrow> bool"
  x_open :: "'w \<Rightarrow> string \<Rightarrow> File res"
  x_page_size :: word_t
  x_qemu :: "string list option"

definition translate_and_check_exec ::
  "'w Exec \<Rightarrow> string \<Rightarrow> Tracee \<Rightarrow> 'w \<Rightarrow> string res \<times> Tracee \<times> 'w" where
  "translate_and_check_exec X user_path tracee w =
     (if user_path = [] then (Err ENOEXEC, tracee, w)
      else
        (case translate_path (x_env X) tracee w AT_FDCWD user_path True of
           (Inl e, tracee, w) \<Rightarrow> (Inl e, tracee, w)
         | (Inr host_path, tracee, w) \<Rightarrow>
             (if \<not> x_access_f X w host_path then Err ENOENT
              else if \<not> x_access_x X w host_path then Err EACCES
              else (case h_lstat (x_env X) w host_path of Inl e \<Rightarrow> Err EPERM | Inr m \<Rightarrow> Inr host_path),
              tracee, w)))"

definition HOST_ROOTFS :: string where "HOST_ROOTFS = ''/host-rootfs''"

definition add_interp ::
  "'w Exec \<Rightarrow> File \<Rightarrow> ElfHeader \<Rightarrow> ProgramHeader \<Rightarrow> Load_Part \<Rightarrow> Tracee \<Rightarrow> 'w
   \<Rightarrow> failure option \<times> Load_Part \<times> Tracee \<times> 'w" where
  "add_interp X f ehdr phdr info tracee w =
     (let filesz = PROGRAM_FIELD ehdr phdr P_filesz;
          r = read_at f (unat (PROGRAM_FIELD ehdr phdr P_offset)) (unat filesz);
          status = (case r of Inl e \<Rightarrow> -1 | Inr bs \<Rightarrow> (of_nat (length bs) :: 32 word))
      in if li_interp_path info \<noteq> None then (Some (Errno EINVAL), info, tracee, w)
         else if (scast status :: word_t) \<noteq> filesz then (Some (Errno EACCES), info, tracee, w)
         else if sint status < 0 then (Some (Errno EPERM), info, tracee, w)
         else
           (let user = (case r of Inl e \<Rightarrow> [] | Inr bs \<Rightarrow> string_of bs);
                user = (if x_qemu X \<noteq> None \<and> char_at user 0 = CHR ''/'' then HOST_ROOTFS @ user else user)
            in case translate_and_check_exec X user tracee w of
                 (Inl e, tracee, w) \<Rightarrow> (Some e, info, tracee, w)
               | (Inr host, tracee, w) \<Rightarrow> (None, info\<lparr>li_interp_path := Some (host, user)\<rparr>, tracee, w)))"

text \<open>The iterator of program headers, over the load information and the state of the system.\<close>

definition add_load_info ::
  "'w Exec \<Rightarrow> File \<Rightarrow> ElfHeader \<Rightarrow> ProgramHeader \<Rightarrow> Load_Part \<times> Tracee \<times> 'w
   \<Rightarrow> failure option \<times> Load_Part \<times> Tracee \<times> 'w" where
  "add_load_info X f ehdr phdr s =
     (case s of (info, tracee, w) \<Rightarrow>
        (let t = PROGRAM_FIELD ehdr phdr P_type
         in if t = PT_LOAD then
              (None, info\<lparr>li_mappings := add_mapping (page_size_of (x_page_size X)) ehdr phdr (li_mappings info)\<rparr>,
               tracee, w)
            else if t = PT_INTERP then add_interp X f ehdr phdr info tracee w
            else if t = PT_GNU_STACK then
              (None, info\<lparr>li_exec_stack := li_exec_stack info \<or> PROGRAM_FIELD ehdr phdr P_flags AND PF_X \<noteq> 0\<rparr>,
               tracee, w)
            else (None, info, tracee, w)))"

definition extract_load_info ::
  "'w Exec \<Rightarrow> Load_Part \<Rightarrow> Tracee \<Rightarrow> 'w \<Rightarrow> Load_Part res \<times> Tracee \<times> 'w" where
  "extract_load_info X info tracee w =
     (case open_elf (x_open X w) (li_host_path info) of
        Inl e \<Rightarrow> (Inl e, tracee, w)
      | Inr (f, header) \<Rightarrow>
          (let info = info\<lparr>li_elf_header := header\<rparr>
           in if ELF_FIELD header E_type \<noteq> ET_EXEC \<and> ELF_FIELD header E_type \<noteq> ET_DYN
              then (Err EINVAL, tracee, w)
              else
                (case iterate_program_headers f header (add_load_info X f header) (info, tracee, w) of
                   (Inl e, _, tracee, w) \<Rightarrow> (Inl e, tracee, w)
                 | (Inr (Some e), _, tracee, w) \<Rightarrow> (Inl e, tracee, w)
                 | (Inr None, info, tracee, w) \<Rightarrow> (Inr info, tracee, w))))"

subsection \<open>Addresses\<close>

record LoadInfo =
  ld_main :: Load_Part
  ld_raw_path :: "string option"
  ld_interp :: "Load_Part option"

definition EXEC_PIC_ADDRESS :: word_t where "EXEC_PIC_ADDRESS = 0x3000000000"
definition INTERP_PIC_ADDRESS :: word_t where "INTERP_PIC_ADDRESS = 0x3F00000000"

definition add_load_base :: "Load_Part \<Rightarrow> word_t \<Rightarrow> Load_Part" where
  "add_load_base info load_base =
     (let header = li_elf_header info; (off, n) = elf_place header E_entry
      in info\<lparr>li_mappings := map (\<lambda>m. m\<lparr>m_addr := m_addr m + load_base\<rparr>) (li_mappings info),
              li_elf_header := set_field header off n (field header off n + load_base)\<rparr>)"

text \<open>The first mapping is read without a check that there is one.\<close>

definition place_part :: "Load_Part \<Rightarrow> word_t \<Rightarrow> Load_Part res" where
  "place_part info base =
     (if IS_POSITION_INDENPENDANT (li_elf_header info) then
        (case li_mappings info of
           [] \<Rightarrow> Inl Undefined
         | m # ms \<Rightarrow> Inr (if m_addr m = 0 then add_load_base info base else info))
      else Inr info)"

definition compute_load_addresses :: "LoadInfo \<Rightarrow> LoadInfo res" where
  "compute_load_addresses info =
     (case place_part (ld_main info) EXEC_PIC_ADDRESS of
        Inl e \<Rightarrow> Inl e
      | Inr main \<Rightarrow>
          (case ld_interp info of
             None \<Rightarrow> Inr (info\<lparr>ld_main := main\<rparr>)
           | Some interp \<Rightarrow>
               (case place_part interp INTERP_PIC_ADDRESS of
                  Inl e \<Rightarrow> Inl e
                | Inr interp \<Rightarrow> Inr (info\<lparr>ld_main := main, ld_interp := Some interp\<rparr>))))"

text \<open>
  The extraction in \<open>translate_execve_enter\<close>: the program, then its interpreter, whose own
  interpreter is dropped; then the addresses.
\<close>

definition load_program ::
  "'w Exec \<Rightarrow> string \<Rightarrow> string \<Rightarrow> string option \<Rightarrow> Tracee \<Rightarrow> 'w \<Rightarrow> LoadInfo res \<times> Tracee \<times> 'w" where
  "load_program X host user raw tracee w =
     (case extract_load_info X (new_load_part host user) tracee w of
        (Inl e, tracee, w) \<Rightarrow> (Inl e, tracee, w)
      | (Inr main, tracee, w) \<Rightarrow>
          (case li_interp_path main of
             None \<Rightarrow>
               (compute_load_addresses \<lparr>ld_main = main, ld_raw_path = raw, ld_interp = None\<rparr>, tracee, w)
           | Some (ihost, iuser) \<Rightarrow>
               (case extract_load_info X (new_load_part ihost iuser) tracee w of
                  (Inl e, tracee, w) \<Rightarrow> (Inl e, tracee, w)
                | (Inr interp, tracee, w) \<Rightarrow>
                    (compute_load_addresses
                       \<lparr>ld_main = main, ld_raw_path = raw,
                        ld_interp = Some (interp\<lparr>li_interp_path := None\<rparr>)\<rparr>, tracee, w))))"

subsection \<open>What a segment becomes\<close>

text \<open>What an address holds once the mappings are made in their order: the last one that covers it
  decides, and a file mapping is cleared at its end.\<close>

datatype source = File_Byte nat | Zero | Unmapped

definition covers :: "Mapping \<Rightarrow> nat \<Rightarrow> bool" where
  "covers m x \<longleftrightarrow> unat (m_addr m) \<le> x \<and> x < unat (m_addr m) + unat (m_length m)"

definition source_in :: "Mapping \<Rightarrow> nat \<Rightarrow> source" where
  "source_in m x =
     (if m_flags m AND MAP_ANONYMOUS \<noteq> 0 then Zero
      else if unat (m_addr m) + unat (m_length m) - unat (m_clear_length m) \<le> x then Zero
      else File_Byte (unat (m_offset m) + (x - unat (m_addr m))))"

fun source_at :: "Mapping list \<Rightarrow> nat \<Rightarrow> source" where
  "source_at [] x = Unmapped"
| "source_at (m # ms) x =
     (case source_at ms x of
        Unmapped \<Rightarrow> if covers m x then source_in m x else Unmapped
      | s \<Rightarrow> s)"

lemma source_at_append:
  "source_at (ms @ ms') x = (case source_at ms' x of Unmapped \<Rightarrow> source_at ms x | s \<Rightarrow> s)"
  by (induction ms) (auto split: source.splits)

lemma unat_floor: "unat (x AND NOT (mask k) :: word_t) = unat x div 2 ^ k * 2 ^ k"
proof -
  have "x AND NOT (mask k) = x AND NOT (take_bit k x)"
    by (rule bit_word_eqI) (auto simp: bit_and_iff bit_not_iff bit_mask_iff bit_take_bit_iff)
  also have "\<dots> = x - take_bit k x"
    by (rule disjunctive_diff[symmetric]) (simp add: bit_take_bit_iff)
  finally have eq: "x AND NOT (mask k) = x - take_bit k x" .
  have low: "unat (take_bit k x) = unat x mod 2 ^ k"
    by (simp only: unsigned_take_bit_eq take_bit_nat_def)
  then have "take_bit k x \<le> x" by (simp add: word_le_nat_alt)
  then show ?thesis unfolding eq by (simp add: unat_sub low minus_mod_eq_div_mult)
qed

lemma page_floor: "page_mask_of (2 ^ k) = NOT (mask k)"
  by (simp add: page_mask_of_def mask_eq_exp_minus_1)

lemma unat_add_small: "unat a + unat b < 2 ^ 64 \<Longrightarrow> unat (a + b :: word_t) = unat a + unat b"
  by (simp add: unat_plus_if_size word_size)

lemma unat_page: "k < 32 \<Longrightarrow> unat (2 ^ k :: word_t) = 2 ^ k"
  using unat_of_nat_small[of "2 ^ k"] power_strict_increasing[of k 64 "2 :: nat"] by simp

lemma floor_bounds: "x < (x + 2 ^ k) div 2 ^ k * 2 ^ k" "(x + 2 ^ k) div 2 ^ k * 2 ^ k \<le> x + (2 ^ k :: nat)"
proof -
  have "x mod 2 ^ k < 2 ^ k" "x mod 2 ^ k \<le> x" by simp_all
  then show "x < (x + 2 ^ k) div 2 ^ k * 2 ^ k" "(x + 2 ^ k) div 2 ^ k * 2 ^ k \<le> x + 2 ^ k"
    unfolding minus_mod_eq_div_mult[symmetric] mod_add_self2 by linarith+
qed

lemma unat_end:
  assumes "k < 32" and "unat a + unat b + 2 ^ k < 2 ^ 64"
  shows "unat ((a + b + 2 ^ k) AND NOT (mask k) :: word_t) = (unat a + unat b + 2 ^ k) div 2 ^ k * 2 ^ k"
  using assms unat_add_small[of a b] unat_add_small[of "a + b" "2 ^ k"]
  by (simp add: unat_floor unat_page)

lemma unat_minus: "b \<le> unat (y :: word_t) \<Longrightarrow> unat x = b \<Longrightarrow> unat (y - x) = unat y - b"
  by (simp add: unat_sub word_le_nat_alt)

text \<open>
  The segment of a program header whose sizes do not overflow and whose file offset agrees with its
  address modulo the page: its file bytes, then zeros up to its size in memory.
\<close>

text \<open>The same over the words involved.\<close>

lemma file_mapping:
  assumes "unat (m_addr m) = S" and "unat (m_addr m + m_length m) = E" and "S \<le> E"
    and "unat (m_clear_length m) = c" and "unat (m_offset m) = F" and "m_flags m AND MAP_ANONYMOUS = 0"
  shows "covers m x \<longleftrightarrow> S \<le> x \<and> x < E"
    and "source_in m x = (if E - c \<le> x then Zero else File_Byte (F + (x - S)))"
proof -
  have "unat (m_length m) = E - S"
    using unat_minus[of S "m_addr m + m_length m" "m_addr m"] assms by simp
  then show "covers m x \<longleftrightarrow> S \<le> x \<and> x < E"
    "source_in m x = (if E - c \<le> x then Zero else File_Byte (F + (x - S)))"
    using assms by (auto simp: covers_def source_in_def)
qed

lemma anonymous_mapping:
  assumes "unat (m_addr m) = S" and "unat (m_addr m + m_length m) = E" and "S \<le> E"
    and "m_flags m AND MAP_ANONYMOUS \<noteq> 0"
  shows "covers m x \<longleftrightarrow> S \<le> x \<and> x < E" and "source_in m x = Zero"
proof -
  have "unat (m_length m) = E - S"
    using unat_minus[of S "m_addr m + m_length m" "m_addr m"] assms by simp
  then show "covers m x \<longleftrightarrow> S \<le> x \<and> x < E" "source_in m x = Zero"
    using assms by (auto simp: covers_def source_in_def)
qed

lemma mapping_flags:
  "(MAP_PRIVATE OR MAP_FIXED) AND MAP_ANONYMOUS = 0"
  "(MAP_PRIVATE OR MAP_ANONYMOUS OR MAP_FIXED) AND MAP_ANONYMOUS \<noteq> 0"
  by (simp_all add: MAP_PRIVATE_def MAP_FIXED_def MAP_ANONYMOUS_def)

lemma source_at_file:
  "covers m x \<Longrightarrow> source_in m x = s \<Longrightarrow> s \<noteq> Unmapped \<Longrightarrow> source_at (ms @ [m]) x = s"
  by (auto simp: source_at_append split: source.split)

lemma source_at_two:
  assumes "source_in a x = Zero"
  shows "source_at (ms @ [m, a]) x = (if covers a x then Zero else source_at (ms @ [m]) x)"
  using assms by (auto simp: source_at_append split: source.split)

lemma add_mapping_segment:
  fixes k e p ms
  defines "v \<equiv> unat (PROGRAM_FIELD e p P_vaddr)" and "fs \<equiv> unat (PROGRAM_FIELD e p P_filesz)"
    and "mz \<equiv> unat (PROGRAM_FIELD e p P_memsz)" and "off \<equiv> unat (PROGRAM_FIELD e p P_offset)"
  assumes k: "k < 32" and small: "v + max fs mz + 2 ^ k < 2 ^ 64"
    and congruent: "v mod 2 ^ k = off mod 2 ^ k"
    and x: "v \<le> x" "x < v + max fs mz"
  shows "source_at (add_mapping (2 ^ k) e p ms) x =
    (if x < v + fs then File_Byte (off + (x - v)) else Zero)"
proof -
  define S where "S = v div 2 ^ k * 2 ^ k"
  define E where "E = (v + fs + 2 ^ k) div 2 ^ k * 2 ^ k"
  define E2 where "E2 = (v + mz + 2 ^ k) div 2 ^ k * 2 ^ k"
  define F where "F = off div 2 ^ k * 2 ^ k"
  define start where "start = PROGRAM_FIELD e p P_vaddr AND NOT (mask k)"
  define en where "en = (PROGRAM_FIELD e p P_vaddr + PROGRAM_FIELD e p P_filesz + 2 ^ k) AND NOT (mask k)"
  define en2 where "en2 = (PROGRAM_FIELD e p P_vaddr + PROGRAM_FIELD e p P_memsz + 2 ^ k) AND NOT (mask k)"
  define fo where "fo = PROGRAM_FIELD e p P_offset AND NOT (mask k)"
  define c where "c = en - PROGRAM_FIELD e p P_vaddr - PROGRAM_FIELD e p P_filesz"
  define m where "m cl = \<lparr>m_addr = start, m_length = en - start, m_clear_length = cl,
      m_prot = prot_of (PROGRAM_FIELD e p P_flags), m_flags = MAP_PRIVATE OR MAP_FIXED, m_fd = -1,
      m_offset = fo\<rparr>" for cl
  define a where "a = \<lparr>m_addr = en, m_length = en2 - en, m_clear_length = 0,
      m_prot = prot_of (PROGRAM_FIELD e p P_flags),
      m_flags = MAP_PRIVATE OR MAP_ANONYMOUS OR MAP_FIXED, m_fd = -1, m_offset = 0\<rparr>"
  have res: "add_mapping (2 ^ k) e p ms =
      (if PROGRAM_FIELD e p P_memsz > PROGRAM_FIELD e p P_filesz
       then if en2 > en then ms @ [m c, a] else ms @ [m c] else ms @ [m 0])"
    by (simp add: add_mapping_def Let_def page_floor start_def en_def en2_def fo_def c_def m_def a_def)
  have words: "unat start = S" "unat fo = F" "unat en = E" "unat en2 = E2"
    using small unat_end[OF k, of "PROGRAM_FIELD e p P_vaddr"]
    by (simp_all only: start_def fo_def en_def en2_def unat_floor v_def off_def fs_def mz_def S_def
        F_def E_def E2_def)
  have E: "v + fs < E" "v + mz < E2" using floor_bounds by (simp_all add: E_def E2_def)
  have S: "S \<le> v" "F + (x - S) = off + (x - v)"
  proof -
    have "S = v - v mod 2 ^ k" "F = off - off mod 2 ^ k" "v mod 2 ^ k \<le> v" "off mod 2 ^ k \<le> off"
      by (simp_all add: S_def F_def minus_mod_eq_div_mult)
    then show "S \<le> v" "F + (x - S) = off + (x - v)" using congruent x by linarith+
  qed
  have en_v: "unat (en - PROGRAM_FIELD e p P_vaddr) = unat en - v"
    by (rule unat_minus) (simp_all only: v_def[symmetric] words, use E in linarith)
  have "unat c = unat (en - PROGRAM_FIELD e p P_vaddr) - fs"
    unfolding c_def by (rule unat_minus) (simp_all only: fs_def[symmetric] en_v words, use E in linarith)
  then have clear: "unat c = E - v - fs" by (simp only: en_v words)
  have m: "covers (m cl) x" "source_in (m cl) x = (if E - unat cl \<le> x then Zero else File_Byte (F + (x - S)))"
    if "x < E" for cl
    using file_mapping[of "m cl" S E "unat cl" F x] words E S x(1) that
    by (simp_all add: m_def mapping_flags)
  have last: "source_at (ms @ [m c]) x = (if x < v + fs then File_Byte (off + (x - v)) else Zero)"
    if "x < E"
    using m[OF that, of c] E(1) clear S(2) by (intro source_at_file) auto
  show ?thesis
  proof (cases "PROGRAM_FIELD e p P_memsz > PROGRAM_FIELD e p P_filesz")
    case False
    then have "mz \<le> fs" by (simp add: fs_def mz_def word_less_nat_alt)
    then have "x < v + fs" "x < E" using x E by simp_all
    then show ?thesis
      using m[of 0] False S(2) E unfolding res by (simp add: source_at_file)
  next
    case True
    then have "fs < mz" by (simp add: fs_def mz_def word_less_nat_alt)
    show ?thesis
    proof (cases "en2 > en")
      case anon: True
      then have "E < E2" using words by (simp add: word_less_nat_alt)
      then have "covers a x \<longleftrightarrow> E \<le> x \<and> x < E2" "source_in a x = Zero"
        using anonymous_mapping[of a E E2 x] words by (simp_all add: a_def mapping_flags)
      then show ?thesis
        using True anon last E x \<open>fs < mz\<close> unfolding res by (auto simp: source_at_two)
    next
      case False
      then have "x < E" using words E x \<open>fs < mz\<close> by (simp add: word_less_nat_alt)
      then show ?thesis using True False last unfolding res by simp
    qed
  qed
qed

end
