(* ===== verification/Load_Script.thy ===== *)
theory Load_Script
  imports Load_Info
begin

section \<open>The load script\<close>

text \<open>
  loader/script.h and \<open>transfer_load_script\<close> of execve/exit.c: the statements that tell the loader
  what to map and where to start, and their transfer, with the strings they refer to, below the
  stack of the tracee.
\<close>

unbundle bit_operations_syntax

subsection \<open>Statements\<close>

record Mmap_Args =
  mm_addr :: word_t
  mm_length :: word_t
  mm_prot :: word_t
  mm_offset :: word_t
  mm_clear_length :: word_t

record Start_Args =
  sa_stack_pointer :: word_t
  sa_entry_point :: word_t
  sa_at_phdr :: word_t
  sa_at_phent :: word_t
  sa_at_phnum :: word_t
  sa_at_entry :: word_t
  sa_at_execfn :: word_t

datatype LoadStatement =
    LOAD_OPEN_NEXT word_t
  | LOAD_OPEN word_t
  | LOAD_MMAP_FILE Mmap_Args
  | LOAD_MMAP_ANON Mmap_Args
  | LOAD_MAKE_STACK_EXEC word_t
  | LOAD_START_TRACED Start_Args
  | LOAD_START Start_Args

definition mmap_words :: "Mmap_Args \<Rightarrow> word_t list" where
  "mmap_words a = [mm_addr a, mm_length a, mm_prot a, mm_offset a, mm_clear_length a]"

definition start_words :: "Start_Args \<Rightarrow> word_t list" where
  "start_words a = [sa_stack_pointer a, sa_entry_point a, sa_at_phdr a, sa_at_phent a, sa_at_phnum a,
     sa_at_entry a, sa_at_execfn a]"

text \<open>A statement as the structure holds it: the action, then the member of the union.\<close>

fun statement_words :: "LoadStatement \<Rightarrow> word_t list" where
  "statement_words (LOAD_OPEN_NEXT a) = [0, a]"
| "statement_words (LOAD_OPEN a) = [1, a]"
| "statement_words (LOAD_MMAP_FILE m) = 2 # mmap_words m"
| "statement_words (LOAD_MMAP_ANON m) = 3 # mmap_words m"
| "statement_words (LOAD_MAKE_STACK_EXEC a) = [4, a]"
| "statement_words (LOAD_START_TRACED s) = 5 # start_words s"
| "statement_words (LOAD_START s) = 6 # start_words s"

definition LOAD_STATEMENT_SIZE :: "LoadStatement \<Rightarrow> nat" where
  "LOAD_STATEMENT_SIZE s = 8 * length (statement_words s)"

definition transcript_mapping :: "Mapping \<Rightarrow> LoadStatement" where
  "transcript_mapping m =
     (let args = \<lparr>mm_addr = m_addr m, mm_length = m_length m, mm_prot = m_prot m,
                  mm_offset = m_offset m, mm_clear_length = m_clear_length m\<rparr>
      in if m_flags m AND MAP_ANONYMOUS \<noteq> 0 then LOAD_MMAP_ANON args else LOAD_MMAP_FILE args)"

definition transcript_mappings :: "Mapping list \<Rightarrow> LoadStatement list" where
  "transcript_mappings ms = map transcript_mapping ms"

subsection \<open>Addresses and sizes\<close>

record Script_Layout =
  string1_size :: nat
  string2_size :: nat
  string3_size :: nat
  padding_size :: nat
  strings_size :: nat
  string1_address :: word_t
  string2_address :: word_t
  string3_address :: word_t

definition script_layout :: "LoadInfo \<Rightarrow> word_t \<Rightarrow> Script_Layout" where
  "script_layout info stack_pointer =
     (let string1 = length (li_user_path (ld_main info)) + 1;
          string2 = (case ld_interp info of None \<Rightarrow> 0 | Some i \<Rightarrow> length (li_user_path i) + 1);
          string3 = (case ld_raw_path info of None \<Rightarrow> 0 | Some raw \<Rightarrow> length raw + 1);
          padding = unat ((stack_pointer - of_nat string1 - of_nat string2 - of_nat string3) mod 16);
          strings = string1 + string2 + string3 + padding;
          address1 = stack_pointer - of_nat strings
      in \<lparr>string1_size = string1, string2_size = string2, string3_size = string3,
          padding_size = padding, strings_size = strings, string1_address = address1,
          string2_address = address1 + of_nat string1,
          string3_address = (if string3 = 0 then address1
                             else address1 + of_nat string1 + of_nat string2)\<rparr>)"

definition needs_executable_stack :: "LoadInfo \<Rightarrow> bool" where
  "needs_executable_stack info \<longleftrightarrow>
     li_exec_stack (ld_main info) \<or> (\<exists>i \<in> set_option (ld_interp info). li_exec_stack i)"

text \<open>
  The statements, in the order they are generated: those before the start, the start, and all of
  them.  The program must have a mapping (its first one is read unconditionally).
\<close>

definition script_body :: "LoadInfo \<Rightarrow> word_t \<Rightarrow> word_t \<Rightarrow> LoadStatement list" where
  "script_body info page_mask stack_pointer =
     (let layout = script_layout info stack_pointer
      in [LOAD_OPEN (string1_address layout)]
         @ transcript_mappings (li_mappings (ld_main info))
         @ (case ld_interp info of
              None \<Rightarrow> []
            | Some i \<Rightarrow> LOAD_OPEN_NEXT (string2_address layout) # transcript_mappings (li_mappings i))
         @ (if needs_executable_stack info then [LOAD_MAKE_STACK_EXEC (stack_pointer AND page_mask)] else []))"

definition script_start :: "LoadInfo \<Rightarrow> word_t \<Rightarrow> Mapping \<Rightarrow> Start_Args" where
  "script_start info stack_pointer m0 =
     (let header = li_elf_header (ld_main info)
      in \<lparr>sa_stack_pointer = stack_pointer,
          sa_entry_point = ELF_FIELD (case ld_interp info of None \<Rightarrow> header | Some i \<Rightarrow> li_elf_header i) E_entry,
          sa_at_phdr = ELF_FIELD header E_phoff + m_addr m0,
          sa_at_phent = ELF_FIELD header E_phentsize,
          sa_at_phnum = ELF_FIELD header E_phnum,
          sa_at_entry = ELF_FIELD header E_entry,
          sa_at_execfn = string3_address (script_layout info stack_pointer)\<rparr>)"

definition load_script :: "LoadInfo \<Rightarrow> bool \<Rightarrow> word_t \<Rightarrow> word_t \<Rightarrow> LoadStatement list res" where
  "load_script info traced page_mask stack_pointer =
     (case li_mappings (ld_main info) of
        [] \<Rightarrow> Inl Undefined
      | m0 # _ \<Rightarrow>
          (let start = script_start info stack_pointer m0
           in Inr (script_body info page_mask stack_pointer
                   @ [if traced then LOAD_START_TRACED start else LOAD_START start])))"

text \<open>The size computed before the script is generated.\<close>

definition script_size :: "LoadInfo \<Rightarrow> nat" where
  "script_size info =
     16 + 48 * length (li_mappings (ld_main info))
     + (case ld_interp info of None \<Rightarrow> 0 | Some i \<Rightarrow> 16 + 48 * length (li_mappings i))
     + (if needs_executable_stack info then 16 else 0) + 64"

text \<open>
  The conversion for a 32-bit tracee works in place: the words are halved at the beginning of the
  script, and what was in its second half stays.
\<close>

definition script_bytes :: "bool \<Rightarrow> LoadStatement list \<Rightarrow> byte list" where
  "script_bytes halved script =
     (let ws = concat (map statement_words script); bytes = concat (map store_word ws)
      in if halved then concat (map (\<lambda>w. take 4 (store_word w)) ws) @ drop (4 * length ws) bytes
         else bytes)"

definition strings_bytes :: "LoadInfo \<Rightarrow> nat \<Rightarrow> byte list" where
  "strings_bytes info padding =
     string_bytes (li_user_path (ld_main info))
     @ (case ld_interp info of None \<Rightarrow> [] | Some i \<Rightarrow> string_bytes (li_user_path i))
     @ (case ld_raw_path info of None \<Rightarrow> [] | Some raw \<Rightarrow> string_bytes raw)
     @ replicate padding 0"

text \<open>
  \<open>transfer_load_script\<close>: the status, the address of the real AT_EXECFN, the registers and the
  memory.  A failed read of that address leaves all its bits set.
\<close>

definition execfn_address :: "'k Ptrace_Mem \<Rightarrow> Tracee_Regs \<Rightarrow> 'k \<Rightarrow> word_t" where
  "execfn_address P t k =
     (case peek_word P t k (peek_reg t CURRENT STACK_POINTER + of_nat (sizeof_word t)) of
        Inl e \<Rightarrow> if is_32on64_mode t then 0xFFFFFFFF else -1
      | Inr a \<Rightarrow> a)"

definition transfer_load_script ::
  "'k Ptrace_Mem \<Rightarrow> word_t \<Rightarrow> bool \<Rightarrow> LoadInfo \<Rightarrow> Tracee_Regs \<Rightarrow> 'k
   \<Rightarrow> unit res \<times> word_t \<times> Tracee_Regs \<times> 'k" where
  "transfer_load_script P page_size traced info t k =
     (let stack_pointer = peek_reg t CURRENT STACK_POINTER;
          page_mask = page_mask_of (page_size_of page_size);
          execfn = execfn_address P t k;
          layout = script_layout info stack_pointer;
          buffer_size = script_size info + strings_size layout
      in case load_script info traced page_mask stack_pointer of
           Inl e \<Rightarrow> (Inl e, execfn, t, k)
         | Inr script \<Rightarrow>
             (let buffer = script_bytes (is_32on64_mode t) script @ strings_bytes info (padding_size layout);
                  t = poke_reg t STACK_POINTER (stack_pointer - of_nat buffer_size);
                  t = poke_reg t USERARG_1 (stack_pointer - of_nat buffer_size)
              in case write_data P k (stack_pointer - of_nat buffer_size) buffer of
                   (Inl e, k) \<Rightarrow> (Inl e, execfn, t, k)
                 | (Inr _, k) \<Rightarrow>
                     (Inr (), execfn, (save_current_regs t ORIGINAL)\<lparr>regs_were_changed := True\<rparr>, k)))"

subsection \<open>Sizes and alignment\<close>

lemma length_statement_words [simp]:
  "length (mmap_words a) = 5" "length (start_words s) = 7"
  by (simp_all add: mmap_words_def start_words_def)

lemma length_transcript [simp]:
  "length (concat (map statement_words (transcript_mappings ms))) = 6 * length ms"
  by (induction ms) (simp_all add: transcript_mappings_def transcript_mapping_def Let_def)

lemma length_concat_store [simp]: "length (concat (map store_word ws)) = 8 * length ws"
  by (induction ws) simp_all

lemma length_concat_half [simp]: "length (concat (map (\<lambda>w. take 4 (store_word w)) ws)) = 4 * length ws"
  by (induction ws) simp_all

lemma length_script_bytes [simp]:
  "length (script_bytes halved script) = 8 * length (concat (map statement_words script))"
  by (simp add: script_bytes_def Let_def)

text \<open>What is generated has the size computed for it.\<close>

lemma script_size_exact:
  assumes "load_script info traced page_mask sp = Inr script"
  shows "length (script_bytes halved script) = script_size info"
  using assms
  by (auto simp: load_script_def script_body_def script_size_def Let_def split: list.splits option.splits if_splits)

lemma script_size_16: "script_size info mod 16 = 0"
proof -
  have "script_size info = 16 * (5 + 3 * length (li_mappings (ld_main info))
     + (case ld_interp info of None \<Rightarrow> 0 | Some i \<Rightarrow> 1 + 3 * length (li_mappings i))
     + (if needs_executable_stack info then 1 else 0))"
    by (simp add: script_size_def split: option.split)
  then show ?thesis by simp
qed

lemma length_strings_bytes:
  "length (strings_bytes info (padding_size (script_layout info sp))) = strings_size (script_layout info sp)"
  by (simp add: strings_bytes_def script_layout_def Let_def split: option.split)

lemma script_layout_addresses:
  "string1_address (script_layout info sp) = sp - of_nat (strings_size (script_layout info sp))"
  "string2_address (script_layout info sp) =
    string1_address (script_layout info sp) + of_nat (string1_size (script_layout info sp))"
  "string3_address (script_layout info sp) =
    (case ld_raw_path info of None \<Rightarrow> string1_address (script_layout info sp)
     | Some raw \<Rightarrow> string1_address (script_layout info sp) + of_nat (string1_size (script_layout info sp))
         + of_nat (string2_size (script_layout info sp)))"
  by (simp_all only: script_layout_def Let_def Script_Layout.simps split: option.split) simp_all

lemma unat_mod_16: "unat (x mod 16 :: word_t) = unat x mod 16"
  by (simp add: unat_mod)

lemma unat_minus_small: "n \<le> unat (x :: word_t) \<Longrightarrow> unat (x - of_nat n) = unat x - n"
  using unat_minus_nat[of n x] unsigned_less[of x, where ?'a = nat] by simp

lemma strings_aligned:
  assumes "strings_size (script_layout info sp) \<le> unat sp"
  shows "unat (sp - of_nat (strings_size (script_layout info sp))) mod 16 = 0"
proof -
  let ?l = "script_layout info sp"
  define n where "n = string1_size ?l + string2_size ?l + string3_size ?l"
  have n: "strings_size ?l = n + padding_size ?l"
    by (simp add: n_def script_layout_def Let_def)
  have pad: "padding_size ?l = unat ((sp - of_nat n) mod 16)"
    by (simp add: n_def script_layout_def Let_def algebra_simps)
  have "unat (sp - of_nat n) = unat sp - n" using assms n by (simp add: unat_minus_small)
  then have "padding_size ?l = (unat sp - n) mod 16" by (simp add: pad unat_mod_16)
  moreover have "unat (sp - of_nat (strings_size ?l)) = (unat sp - n) - padding_size ?l"
    unfolding n using unat_minus_small[of "n + padding_size ?l" sp] assms n by simp
  ultimately show ?thesis by (simp add: minus_mod_eq_mult_div)
qed

lemma script_aligned:
  assumes "script_size info + strings_size (script_layout info sp) \<le> unat sp"
  shows "unat (sp - of_nat (script_size info + strings_size (script_layout info sp))) mod 16 = 0"
proof -
  let ?n = "strings_size (script_layout info sp)"
  have "unat (sp - of_nat ?n) = unat sp - ?n" by (rule unat_minus_small) (use assms in simp)
  then have "16 dvd unat sp - ?n"
    using strings_aligned[of info sp] assms by (intro mod_0_imp_dvd) (simp only: add_leD2)
  moreover have "unat (sp - of_nat (script_size info + ?n)) = unat sp - (script_size info + ?n)"
    by (rule unat_minus_small[OF assms])
  then have "unat (sp - of_nat (script_size info + ?n)) = (unat sp - ?n) - script_size info"
    by (simp only: diff_diff_left add.commute)
  ultimately have "16 dvd unat (sp - of_nat (script_size info + ?n))"
    using mod_0_imp_dvd[OF script_size_16] by (simp only: dvd_diff_nat)
  then show ?thesis by (rule dvd_imp_mod_0)
qed

subsection \<open>What the loader finds in memory\<close>

lemma contents_put_part:
  assumes "i + n \<le> length bs" and "length bs < 2 ^ 64"
  shows "contents (put m a bs) (a + of_nat i) n = take n (drop i bs)"
proof (rule nth_equalityI)
  fix j assume "j < length (contents (put m a bs) (a + of_nat i) n)"
  then have j: "j < n" by simp
  have "a + of_nat i + of_nat j - a = of_nat (i + j)" by simp
  moreover have "unat (of_nat (i + j) :: word_t) = i + j"
    by (rule unat_of_nat_small) (use assms j in simp)
  ultimately have "unat (a + of_nat i + of_nat j - a) = i + j" by (simp only:)
  then show "contents (put m a bs) (a + of_nat i) n ! j = take n (drop i bs) ! j"
    using assms j by (simp add: contents_def put_def)
qed (use assms in simp)

text \<open>The three strings, at the addresses the script gives them, as parts of the buffer.\<close>

definition interp_string :: "LoadInfo \<Rightarrow> byte list" where
  "interp_string info = (case ld_interp info of None \<Rightarrow> [] | Some i \<Rightarrow> string_bytes (li_user_path i))"

definition raw_string :: "LoadInfo \<Rightarrow> byte list" where
  "raw_string info = string_bytes (case ld_raw_path info of None \<Rightarrow> li_user_path (ld_main info) | Some raw \<Rightarrow> raw)"

definition holds_strings :: "(word_t \<Rightarrow> byte option) \<Rightarrow> LoadInfo \<Rightarrow> Script_Layout \<Rightarrow> bool" where
  "holds_strings m info layout \<longleftrightarrow>
     contents m (string1_address layout) (string1_size layout) = string_bytes (li_user_path (ld_main info))
     \<and> contents m (string2_address layout) (string2_size layout) = interp_string info
     \<and> contents m (string3_address layout) (length (raw_string info)) = raw_string info"

lemma buffer_strings:
  fixes info sp buffer base
  defines "layout \<equiv> script_layout info sp"
  assumes script: "length script = script_size info"
    and buffer: "buffer = script @ strings_bytes info (padding_size layout)"
    and base: "base = sp - of_nat (script_size info + strings_size layout)"
    and small: "length buffer < 2 ^ 64"
  shows "holds_strings (put m base buffer) info layout"
    and "contents (put m base buffer) base (script_size info) = script"
proof -
  let ?s1 = "string_bytes (li_user_path (ld_main info))"
  let ?n = "script_size info"
  have part: "contents (put m base buffer) (base + of_nat (?n + i)) n =
      take n (drop i (strings_bytes info (padding_size layout)))"
    if "?n + i + n \<le> length buffer" for i n
    using contents_put_part[OF that small, of m base] script by (simp add: buffer)
  have strings: "strings_bytes info (padding_size layout) = ?s1 @ interp_string info
      @ (case ld_raw_path info of None \<Rightarrow> [] | Some raw \<Rightarrow> string_bytes raw) @ replicate (padding_size layout) 0"
    by (simp add: strings_bytes_def interp_string_def)
  have len: "length buffer = ?n + length (strings_bytes info (padding_size layout))"
    using script by (simp add: buffer)
  have sizes: "string1_size layout = length ?s1" "string2_size layout = length (interp_string info)"
    by (simp_all add: layout_def script_layout_def Let_def interp_string_def split: option.split)
  note addresses = script_layout_addresses[of info sp, folded layout_def]
  have a1: "string1_address layout = base + of_nat ?n"
    by (simp add: addresses base)
  then have a2: "string2_address layout = base + of_nat (?n + length ?s1)"
    by (simp add: addresses sizes del: length_string_bytes)
  have a3: "string3_address layout = base + of_nat (?n + (case ld_raw_path info of None \<Rightarrow> 0
      | Some raw \<Rightarrow> length ?s1 + length (interp_string info)))"
    using a1 by (simp add: addresses sizes split: option.split del: length_string_bytes)
  have "contents (put m base buffer) (string1_address layout) (length ?s1) = ?s1"
    using part[of 0 "length ?s1"] by (simp add: a1 len strings)
  moreover have "contents (put m base buffer) (string2_address layout) (length (interp_string info)) =
      interp_string info"
    using part[of "length ?s1" "length (interp_string info)"] by (simp add: a2 len strings)
  moreover have "contents (put m base buffer) (string3_address layout) (length (raw_string info)) = raw_string info"
  proof (cases "ld_raw_path info")
    case None
    then show ?thesis using part[of 0 "length ?s1"] by (simp add: a3 len strings raw_string_def)
  next
    case (Some raw)
    then show ?thesis
      using part[of "length ?s1 + length (interp_string info)" "length (raw_string info)"]
      by (simp add: a3 len strings raw_string_def)
  qed
  ultimately show "holds_strings (put m base buffer) info layout"
    by (simp add: holds_strings_def sizes)
  show "contents (put m base buffer) base (script_size info) = script"
    using contents_put_part[of 0 ?n buffer m base] small script by (simp add: buffer)
qed

context ptrace_memory
begin

lemma transfer_puts_script:
  fixes info t
  defines "sp \<equiv> peek_reg t CURRENT STACK_POINTER"
  defines "n \<equiv> script_size info + strings_size (script_layout info sp)"
  assumes mode: "\<not> is_aarch32 t" and room: "n \<le> unat sp" "n < 2 ^ 63"
    and user: "untag_pointer (sp - of_nat n) = sp - of_nat n"
    and mapped: "mapped (bytes k) (sp - of_nat n) (8 * ((n + 7) div 8))"
    and script: "load_script info traced (page_mask_of (page_size_of page_size)) sp = Inr script"
  shows "\<exists>t' k'. transfer_load_script P page_size traced info t k = (Inr (), execfn_address P t k, t', k')
    \<and> peek_reg t' CURRENT STACK_POINTER = sp - of_nat n \<and> peek_reg t' CURRENT USERARG_1 = sp - of_nat n
    \<and> contents (bytes k') (sp - of_nat n) (script_size info) = script_bytes False script
    \<and> holds_strings (bytes k') info (script_layout info sp)"
proof -
  let ?buffer = "script_bytes False script @ strings_bytes info (padding_size (script_layout info sp))"
  have len: "length ?buffer = n"
    using script_size_exact[OF script, of False] length_strings_bytes[of info sp] by (simp add: n_def)
  obtain k' where k': "write_data P k (sp - of_nat n) ?buffer = (Inr (), k')"
    "bytes k' = put (bytes k) (sp - of_nat n) ?buffer"
    using write_data_put[of k "sp - of_nat n" ?buffer] mapped room(2) unfolding len user by blast
  define t1 where "t1 = poke_reg (poke_reg t STACK_POINTER (sp - of_nat n)) USERARG_1 (sp - of_nat n)"
  let ?t' = "(save_current_regs t1 ORIGINAL)\<lparr>regs_were_changed := True\<rparr>"
  have same: "peek_reg ?t' CURRENT r = peek_reg t1 CURRENT r" for r
    by (simp add: peek_reg_def REG_def save_current_regs_def Let_def set_bank_def is_32on64_mode_def REG_offset_def)
  have "peek_reg t1 CURRENT USERARG_1 = sp - of_nat n"
    using mode by (simp add: t1_def peek_poke_same)
  moreover have "peek_reg t1 CURRENT STACK_POINTER = sp - of_nat n"
    using mode by (simp add: t1_def peek_poke_same peek_poke_other REG_offset_def reg_offset_def)
  moreover have "transfer_load_script P page_size traced info t k = (Inr (), execfn_address P t k, ?t', k')"
    using script k'(1) mode
    by (simp add: transfer_load_script_def Let_def sp_def[symmetric] n_def[symmetric] t1_def
        is_32on64_mode_def del: of_nat_add)
  moreover have "length (script_bytes False script) = script_size info"
    by (rule script_size_exact[OF script])
  then have "holds_strings (put (bytes k) (sp - of_nat n) ?buffer) info (script_layout info sp)"
    "contents (put (bytes k) (sp - of_nat n) ?buffer) (sp - of_nat n) (script_size info) = script_bytes False script"
    using buffer_strings[of "script_bytes False script" info ?buffer sp "sp - of_nat n"] room(2) len
    by (simp_all only: n_def) simp_all
  ultimately show ?thesis unfolding k'(2)[symmetric] same[symmetric] by blast
qed

end

end
