(* ===== verification/Loader.thy ===== *)
theory Loader
  imports Load_Script
begin

section \<open>The loader\<close>

text \<open>
  loader/loader.c: the program that PRoot executes instead of the one asked for.  It runs inside the
  tracee, on its memory, and interprets the load script.  The system calls are parameters (record
  \<open>Loader_Sys\<close>); a statement is read once, before it is executed; a branch to a program and
  \<open>exit(182)\<close> are the outcomes.  Loops over memory take a fuel.
\<close>

unbundle bit_operations_syntax

subsection \<open>State\<close>

type_synonym mem = "word_t \<Rightarrow> byte"

definition load_mem :: "mem \<Rightarrow> word_t \<Rightarrow> word_t" where
  "load_mem m a = load_word (map (\<lambda>i. m (a + of_nat i)) [0..<8])"

definition store_mem :: "mem \<Rightarrow> word_t \<Rightarrow> word_t \<Rightarrow> mem" where
  "store_mem m a v = (\<lambda>x. if unat (x - a) < 8 then byte_at v (unat (x - a)) else m x)"

record 'k Loader_Sys =
  l_open :: "'k \<Rightarrow> mem \<Rightarrow> word_t \<Rightarrow> word_t \<times> 'k"
  l_close :: "'k \<Rightarrow> word_t \<Rightarrow> word_t \<times> 'k"
  l_mmap :: "'k \<Rightarrow> mem \<Rightarrow> word_t \<Rightarrow> word_t \<Rightarrow> word_t \<Rightarrow> word_t \<Rightarrow> word_t \<Rightarrow> word_t
             \<Rightarrow> word_t \<times> mem \<times> 'k"
  l_mprotect :: "'k \<Rightarrow> word_t \<Rightarrow> word_t \<Rightarrow> word_t \<Rightarrow> 'k"
  l_set_name :: "'k \<Rightarrow> mem \<Rightarrow> word_t \<Rightarrow> 'k"

record Loader_State =
  ls_traced :: bool
  ls_reset_at_base :: bool
  ls_at_base :: word_t
  ls_fd :: word_t

datatype Outcome =
    Fatal
  | Branch word_t word_t
  | Notify word_t word_t
  | No_Fuel

definition loader_start :: Loader_State where
  "loader_start = \<lparr>ls_traced = False, ls_reset_at_base = True, ls_at_base = 0, ls_fd = -1\<rparr>"

text \<open>A status that is negative as an \<open>int\<close>.\<close>

definition failed :: "word_t \<Rightarrow> bool" where
  "failed status \<longleftrightarrow> sint (ucast status :: 32 word) < 0"

subsection \<open>Clearing memory\<close>

fun clear_bytes :: "mem \<Rightarrow> word_t \<Rightarrow> nat \<Rightarrow> mem" where
  "clear_bytes m a 0 = m"
| "clear_bytes m a (Suc n) = clear_bytes (m(a := 0)) (a + 1) n"

fun clear_words :: "mem \<Rightarrow> word_t \<Rightarrow> nat \<Rightarrow> mem" where
  "clear_words m a 0 = m"
| "clear_words m a (Suc n) = clear_words (store_mem m a 0) (a + 8) n"

text \<open>The three loops, each counting the steps from its pointer up to its bound.\<close>

definition clear :: "mem \<Rightarrow> word_t \<Rightarrow> word_t \<Rightarrow> mem" where
  "clear m start stop =
     (let start_bytes = start mod 8;
          end_bytes = stop mod 8;
          start_aligned = (if start_bytes \<noteq> 0 then start + 8 - start_bytes else start);
          end_aligned = stop - end_bytes;
          m = clear_bytes m start (unat start_aligned - unat start);
          m = clear_words m start_aligned ((unat end_aligned - unat start_aligned + 7) div 8)
      in clear_bytes m end_aligned (unat stop - unat end_aligned))"

subsection \<open>The last component of a path\<close>

fun find_nul :: "nat \<Rightarrow> mem \<Rightarrow> word_t \<Rightarrow> word_t option" where
  "find_nul 0 m cursor = None"
| "find_nul (Suc fuel) m cursor = (if m cursor = 0 then Some cursor else find_nul fuel m (cursor + 1))"

text \<open>Backwards, for the \<open>n\<close> bytes between the cursor and the beginning of the string.\<close>

fun find_slash :: "mem \<Rightarrow> word_t \<Rightarrow> nat \<Rightarrow> word_t" where
  "find_slash m cursor 0 = cursor"
| "find_slash m cursor (Suc n) = (if m cursor = 0x2F then cursor else find_slash m (cursor - 1) n)"

definition loader_basename :: "nat \<Rightarrow> mem \<Rightarrow> word_t \<Rightarrow> word_t option" where
  "loader_basename fuel m string =
     (case find_nul fuel m string of
        None \<Rightarrow> None
      | Some cursor \<Rightarrow>
          (let cursor = find_slash m cursor (unat cursor - unat string)
           in Some (if cursor \<noteq> string then cursor + 1 else cursor)))"

subsection \<open>The statements\<close>

definition AT_NULL :: word_t where "AT_NULL = 0"
definition AT_PHDR :: word_t where "AT_PHDR = 3"
definition AT_PHENT :: word_t where "AT_PHENT = 4"
definition AT_PHNUM :: word_t where "AT_PHNUM = 5"
definition AT_BASE :: word_t where "AT_BASE = 7"
definition AT_ENTRY :: word_t where "AT_ENTRY = 9"
definition AT_EXECFN :: word_t where "AT_EXECFN = 31"

lemmas at_defs = AT_NULL_def AT_PHDR_def AT_PHENT_def AT_PHNUM_def AT_BASE_def AT_ENTRY_def AT_EXECFN_def

definition PROT_GROWSDOWN :: word_t where "PROT_GROWSDOWN = 0x01000000"

text \<open>The new value of an entry of the auxiliary vector; the others stay.\<close>

definition auxv_value :: "Start_Args \<Rightarrow> word_t \<Rightarrow> word_t \<Rightarrow> word_t \<Rightarrow> word_t option" where
  "auxv_value s at_base at_execfn type =
     (if type = AT_PHDR then Some (sa_at_phdr s)
      else if type = AT_PHENT then Some (sa_at_phent s)
      else if type = AT_PHNUM then Some (sa_at_phnum s)
      else if type = AT_ENTRY then Some (sa_at_entry s)
      else if type = AT_BASE then Some at_base
      else if type = AT_EXECFN then Some at_execfn
      else None)"

text \<open>The loop tests after the body, so that the first entry is always looked at.\<close>

fun adjust_auxv :: "nat \<Rightarrow> Start_Args \<Rightarrow> word_t \<Rightarrow> word_t \<Rightarrow> mem \<Rightarrow> word_t \<Rightarrow> mem option" where
  "adjust_auxv 0 s at_base at_execfn m cursor2 = None"
| "adjust_auxv (Suc fuel) s at_base at_execfn m cursor2 =
     (let m = (case auxv_value s at_base at_execfn (load_mem m cursor2) of
                 None \<Rightarrow> m
               | Some v \<Rightarrow> store_mem m (cursor2 + 8) v)
      in if load_mem m (cursor2 + 16) \<noteq> AT_NULL then adjust_auxv fuel s at_base at_execfn m (cursor2 + 16)
         else Some m)"

text \<open>Past the environment, whose end is a null pointer.\<close>

fun skip_envp :: "nat \<Rightarrow> mem \<Rightarrow> word_t \<Rightarrow> word_t option" where
  "skip_envp 0 m cursor2 = None"
| "skip_envp (Suc fuel) m cursor2 =
     (let cursor2 = cursor2 + 8
      in if load_mem m cursor2 \<noteq> 0 then skip_envp fuel m cursor2 else Some cursor2)"

definition start_program ::
  "nat \<Rightarrow> 'k Loader_Sys \<Rightarrow> Start_Args \<Rightarrow> Loader_State \<Rightarrow> mem \<Rightarrow> 'k \<Rightarrow> Outcome \<times> mem \<times> 'k" where
  "start_program fuel L s ls m k =
     (let cursor2 = sa_stack_pointer s;
          argc = load_mem m cursor2;
          at_execfn = load_mem m (cursor2 + 8)
      in case l_close L k (ls_fd ls) of
           (status, k) \<Rightarrow>
             (if failed status then (Fatal, m, k)
              else
                (case skip_envp fuel m (cursor2 + 8 * (argc + 1)) of
                   None \<Rightarrow> (No_Fuel, m, k)
                 | Some cursor2 \<Rightarrow>
                     (case adjust_auxv fuel s (ls_at_base ls) at_execfn m (cursor2 + 8) of
                        None \<Rightarrow> (No_Fuel, m, k)
                      | Some m \<Rightarrow>
                          (case loader_basename fuel m (sa_at_execfn s) of
                             None \<Rightarrow> (No_Fuel, m, k)
                           | Some name \<Rightarrow>
                               (let k = l_set_name L k m name
                                in ((if ls_traced ls then Notify else Branch)
                                      (sa_stack_pointer s) (sa_entry_point s), m, k)))))))"

definition open_file ::
  "'k Loader_Sys \<Rightarrow> word_t \<Rightarrow> Loader_State \<Rightarrow> mem \<Rightarrow> 'k \<Rightarrow> Loader_State option \<times> mem \<times> 'k" where
  "open_file L string_address ls m k =
     (case l_open L k m string_address of
        (fd, k) \<Rightarrow>
          (if failed fd then None else Some (ls\<lparr>ls_fd := fd, ls_reset_at_base := True\<rparr>), m, k))"

text \<open>A statement ends the loader, or leaves a new state.\<close>

definition exec_statement ::
  "nat \<Rightarrow> 'k Loader_Sys \<Rightarrow> LoadStatement \<Rightarrow> Loader_State \<Rightarrow> mem \<Rightarrow> 'k
   \<Rightarrow> (Outcome + Loader_State) \<times> mem \<times> 'k" where
  "exec_statement fuel L stmt ls m k =
     (case stmt of
        LOAD_OPEN_NEXT a \<Rightarrow>
          (case l_close L k (ls_fd ls) of
             (status, k) \<Rightarrow>
               (if failed status then (Inl Fatal, m, k)
                else
                  (case open_file L a ls m k of
                     (None, m, k) \<Rightarrow> (Inl Fatal, m, k) | (Some ls, m, k) \<Rightarrow> (Inr ls, m, k))))
      | LOAD_OPEN a \<Rightarrow>
          (case open_file L a ls m k of
             (None, m, k) \<Rightarrow> (Inl Fatal, m, k) | (Some ls, m, k) \<Rightarrow> (Inr ls, m, k))
      | LOAD_MMAP_FILE a \<Rightarrow>
          (case l_mmap L k m (mm_addr a) (mm_length a) (mm_prot a) (MAP_PRIVATE OR MAP_FIXED) (ls_fd ls)
                  (mm_offset a) of
             (status, m, k) \<Rightarrow>
               (if status \<noteq> mm_addr a then (Inl Fatal, m, k)
                else
                  (let m = (if mm_clear_length a \<noteq> 0
                            then clear m (mm_addr a + mm_length a - mm_clear_length a) (mm_addr a + mm_length a)
                            else m);
                       ls = (if ls_reset_at_base ls
                             then ls\<lparr>ls_at_base := mm_addr a, ls_reset_at_base := False\<rparr> else ls)
                   in (Inr ls, m, k))))
      | LOAD_MMAP_ANON a \<Rightarrow>
          (case l_mmap L k m (mm_addr a) (mm_length a) (mm_prot a)
                  (MAP_PRIVATE OR MAP_FIXED OR MAP_ANONYMOUS) (-1) 0 of
             (status, m, k) \<Rightarrow> (if status \<noteq> mm_addr a then Inl Fatal else Inr ls, m, k))
      | LOAD_MAKE_STACK_EXEC a \<Rightarrow>
          (Inr ls, m, l_mprotect L k a 1 (PROT_READ OR PROT_WRITE OR PROT_EXEC OR PROT_GROWSDOWN))
      | LOAD_START_TRACED s \<Rightarrow>
          (case start_program fuel L s (ls\<lparr>ls_traced := True\<rparr>) m k of (out, m, k) \<Rightarrow> (Inl out, m, k))
      | LOAD_START s \<Rightarrow>
          (case start_program fuel L s ls m k of (out, m, k) \<Rightarrow> (Inl out, m, k)))"

subsection \<open>The interpreter\<close>

definition load_mmap_args :: "mem \<Rightarrow> word_t \<Rightarrow> Mmap_Args" where
  "load_mmap_args m a = \<lparr>mm_addr = load_mem m a, mm_length = load_mem m (a + 8), mm_prot = load_mem m (a + 16),
     mm_offset = load_mem m (a + 24), mm_clear_length = load_mem m (a + 32)\<rparr>"

definition load_start_args :: "mem \<Rightarrow> word_t \<Rightarrow> Start_Args" where
  "load_start_args m a = \<lparr>sa_stack_pointer = load_mem m a, sa_entry_point = load_mem m (a + 8),
     sa_at_phdr = load_mem m (a + 16), sa_at_phent = load_mem m (a + 24), sa_at_phnum = load_mem m (a + 32),
     sa_at_entry = load_mem m (a + 40), sa_at_execfn = load_mem m (a + 48)\<rparr>"

definition fetch_statement :: "mem \<Rightarrow> word_t \<Rightarrow> LoadStatement option" where
  "fetch_statement m cursor =
     (let action = load_mem m cursor; a = cursor + 8
      in if action = 0 then Some (LOAD_OPEN_NEXT (load_mem m a))
         else if action = 1 then Some (LOAD_OPEN (load_mem m a))
         else if action = 2 then Some (LOAD_MMAP_FILE (load_mmap_args m a))
         else if action = 3 then Some (LOAD_MMAP_ANON (load_mmap_args m a))
         else if action = 4 then Some (LOAD_MAKE_STACK_EXEC (load_mem m a))
         else if action = 5 then Some (LOAD_START_TRACED (load_start_args m a))
         else if action = 6 then Some (LOAD_START (load_start_args m a))
         else None)"

fun run_loader ::
  "nat \<Rightarrow> 'k Loader_Sys \<Rightarrow> word_t \<Rightarrow> Loader_State \<Rightarrow> mem \<Rightarrow> 'k \<Rightarrow> Outcome \<times> mem \<times> 'k" where
  "run_loader 0 L cursor ls m k = (No_Fuel, m, k)"
| "run_loader (Suc fuel) L cursor ls m k =
     (case fetch_statement m cursor of
        None \<Rightarrow> (Fatal, m, k)
      | Some stmt \<Rightarrow>
          (case exec_statement fuel L stmt ls m k of
             (Inl out, m, k) \<Rightarrow> (out, m, k)
           | (Inr ls, m, k) \<Rightarrow> run_loader fuel L (cursor + of_nat (LOAD_STATEMENT_SIZE stmt)) ls m k))"

subsection \<open>Clearing\<close>

lemma unat_range:
  assumes "unat a + n \<le> 2 ^ 64"
  shows "unat (x - a :: word_t) < n \<longleftrightarrow> unat a \<le> unat x \<and> unat x < unat a + n"
proof -
  have "unat a < 2 ^ 64" using unsigned_less[of a, where ?'a = nat] by simp
  then have "unat (x - a) = (if unat a \<le> unat x then unat x - unat a else unat x + 2 ^ 64 - unat a)"
    using unat_minus_nat[of "unat a" x] by simp
  then show ?thesis using assms by auto
qed

lemma unat_minus_one: "unat (y - 1 :: word_t) = (if y = 0 then 2 ^ 64 - 1 else unat y - 1)"
  using unat_minus_nat[of 1 y] by (auto simp: unat_eq_zero Suc_le_eq)

lemma clear_bytes_eq: "n \<le> 2 ^ 64 \<Longrightarrow> clear_bytes m a n = (\<lambda>x. if unat (x - a) < n then 0 else m x)"
proof (induction n arbitrary: m a)
  case (Suc n)
  have "unat (x - (a + 1)) < n \<or> x = a \<longleftrightarrow> unat (x - a) < Suc n" for x
  proof -
    have eq: "x - (a + 1) = (x - a) - 1" by simp
    show ?thesis
    proof (cases "x = a")
      case False
      then have "unat (x - a) \<noteq> 0" by (simp add: unat_eq_zero)
      then show ?thesis using False unfolding eq unat_minus_one by auto
    qed (use Suc.prems in simp)
  qed
  then show ?case using Suc by (auto simp: fun_eq_iff)
qed simp

lemma store_zero: "store_mem m a 0 = clear_bytes m a 8"
  unfolding clear_bytes_eq[OF _, of 8 m a, simplified] by (simp add: store_mem_def byte_at_def fun_eq_iff)

lemma clear_bytes_add: "clear_bytes (clear_bytes m a i) (a + of_nat i) n = clear_bytes m a (i + n)"
proof (induction i arbitrary: m a)
  case (Suc i)
  have "a + of_nat (Suc i) = (a + 1) + of_nat i" by simp
  then show ?case by (simp only: clear_bytes.simps add_Suc Suc.IH)
qed simp

lemma clear_words_eq: "clear_words m a n = clear_bytes m a (8 * n)"
proof (induction n arbitrary: m a)
  case (Suc n)
  then show ?case using clear_bytes_add[of m a 8 "8 * n"] by (simp add: store_zero)
qed simp

lemma unat_mod_8: "unat (x mod 8 :: word_t) = unat x mod 8"
  by (simp add: unat_mod)

lemma word_aligned: "unat x mod 8 = 0 \<Longrightarrow> x mod 8 = (0 :: word_t)"
proof -
  assume "unat x mod 8 = 0"
  then have "unat (x mod 8) = 0" by (simp only: unat_mod_8)
  then show "x mod 8 = 0" by (simp only: unat_eq_zero)
qed

text \<open>The first word boundary from an address on, as a distance.\<close>

definition gap :: "word_t \<Rightarrow> nat" where
  "gap a = (if unat a mod 8 = 0 then 0 else 8 - unat a mod 8)"

lemma gap_up: "\<exists>q. unat a + gap a = 8 * q \<and> (\<forall>p. unat a \<le> 8 * p \<longrightarrow> 8 * q \<le> 8 * p)"
proof -
  define q r where "q = unat a div 8" and "r = unat a mod 8"
  have a: "unat a = 8 * q + r" "r < 8" by (simp_all add: q_def r_def)
  show ?thesis
  proof (cases "r = 0")
    case True
    then show ?thesis using a by (intro exI[of _ q]) (simp add: gap_def r_def[symmetric])
  next
    case False
    then have "gap a = 8 - r" by (simp add: gap_def r_def[symmetric])
    moreover have "8 * Suc q \<le> 8 * p" if "unat a \<le> 8 * p" for p
    proof -
      have "q < p" using that a False by linarith
      then show ?thesis by simp
    qed
    ultimately show ?thesis using a by (intro exI[of _ "Suc q"]) auto
  qed
qed

lemma aligned_up: "(if a mod 8 \<noteq> 0 then a + 8 - a mod 8 else a) = a + of_nat (gap a)"
proof (cases "unat a mod 8 = 0")
  case True
  then have "gap a = 0" by (simp only: gap_def if_True simp_thms)
  then have "a + of_nat (gap a) = a" by simp
  then show ?thesis using word_aligned[OF True] by (simp only: simp_thms if_False)
next
  case False
  have "gap a = 8 - unat a mod 8" using False by (simp only: gap_def if_False simp_thms)
  moreover have "unat a mod 8 < 8" by (rule mod_less_divisor) simp
  then have "unat a mod 8 \<le> 8" by (rule order.strict_implies_order)
  ultimately have "of_nat (gap a) = (8 - of_nat (unat a mod 8) :: word_t)"
    by (simp only: of_nat_diff of_nat_numeral)
  moreover have inverse: "of_nat (unat y) = y" for y :: word_t by simp
  have "of_nat (unat a mod 8) = a mod 8" unfolding unat_mod_8[symmetric] by (rule inverse)
  moreover have "a mod 8 \<noteq> 0" using False by (simp only: unat_mod_8[symmetric] unat_eq_zero not_False_eq_True)
  ultimately show ?thesis by (simp only: add_diff_eq if_True simp_thms)
qed

text \<open>
  Up to a word boundary exactly the range is cleared.  (A range inside one word would be cleared
  beyond both of its ends; the mappings end at a page boundary.)
\<close>

lemma clear_range:
  assumes "unat start \<le> unat stop" and stop: "unat stop mod 8 = 0"
  shows "clear m start stop = (\<lambda>x. if unat start \<le> unat x \<and> unat x < unat stop then 0 else m x)"
proof -
  have bound: "unat stop < 2 ^ 64" using unsigned_less[of stop, where ?'a = nat] by simp
  obtain p where p: "unat stop = 8 * p" using mod_0_imp_dvd[OF stop] by (rule dvdE)
  obtain q where q: "unat start + gap start = 8 * q" "8 * q \<le> 8 * p"
    using gap_up[of start] assms(1) unfolding p by blast
  then have le: "unat start + gap start \<le> unat stop" by (simp only: p)
  have "unat (of_nat (gap start) :: word_t) = gap start"
    by (rule unat_of_nat_small) (use le bound in linarith)
  then have up: "unat (start + of_nat (gap start)) = unat start + gap start"
    using unat_add_small[of start "of_nat (gap start)"] le bound by simp
  define n where "n = unat stop - (unat start + gap start)"
  have "n = 8 * (p - q)" by (simp add: n_def p q(1) right_diff_distrib')
  then have n: "8 * ((n + 7) div 8) = n" by simp
  have "clear m start stop = clear_bytes (clear_bytes m start (gap start)) (start + of_nat (gap start)) n"
    unfolding clear_def Let_def aligned_up word_aligned[OF stop] diff_zero up clear_words_eq
    by (simp only: n n_def[symmetric] add_diff_cancel_left' diff_self_eq_0 clear_bytes.simps)
  also have "\<dots> = clear_bytes m start (unat stop - unat start)"
    unfolding clear_bytes_add using le by (simp add: n_def)
  also have "\<dots> = (\<lambda>x. if unat start \<le> unat x \<and> unat x < unat stop then 0 else m x)"
    using unat_range[of start "unat stop - unat start"] assms(1) bound
    by (simp add: clear_bytes_eq)
  finally show ?thesis .
qed

subsection \<open>Reading a script back\<close>

fun words_at :: "mem \<Rightarrow> word_t \<Rightarrow> word_t list \<Rightarrow> bool" where
  "words_at m a [] \<longleftrightarrow> True"
| "words_at m a (w # ws) \<longleftrightarrow> load_mem m a = w \<and> words_at m (a + 8) ws"

abbreviation script_at :: "mem \<Rightarrow> word_t \<Rightarrow> LoadStatement list \<Rightarrow> bool" where
  "script_at m a script \<equiv> words_at m a (concat (map statement_words script))"

lemma words_at_append:
  "words_at m a (xs @ ys) \<longleftrightarrow> words_at m a xs \<and> words_at m (a + of_nat (8 * length xs)) ys"
  by (induction xs arbitrary: a) (simp_all add: algebra_simps)

lemma actions_differ:
  "(1 :: word_t) \<noteq> 0" "(2 :: word_t) \<noteq> 0" "(2 :: word_t) \<noteq> 1" "(3 :: word_t) \<noteq> 0" "(3 :: word_t) \<noteq> 1"
  "(3 :: word_t) \<noteq> 2" "(4 :: word_t) \<noteq> 0" "(4 :: word_t) \<noteq> 1" "(4 :: word_t) \<noteq> 2" "(4 :: word_t) \<noteq> 3"
  "(5 :: word_t) \<noteq> 0" "(5 :: word_t) \<noteq> 1" "(5 :: word_t) \<noteq> 2" "(5 :: word_t) \<noteq> 3" "(5 :: word_t) \<noteq> 4"
  "(6 :: word_t) \<noteq> 0" "(6 :: word_t) \<noteq> 1" "(6 :: word_t) \<noteq> 2" "(6 :: word_t) \<noteq> 3" "(6 :: word_t) \<noteq> 4"
  "(6 :: word_t) \<noteq> 5"
  by simp_all

text \<open>The loader decodes what PRoot encoded.\<close>

lemma fetch_statement_words: "words_at m a (statement_words stmt) \<Longrightarrow> fetch_statement m a = Some stmt"
  by (cases stmt)
    (simp_all add: fetch_statement_def Let_def actions_differ mmap_words_def start_words_def
      load_mmap_args_def load_start_args_def add.assoc)

lemma load_mem_cong: "(\<And>i. i < 8 \<Longrightarrow> m (a + of_nat i) = m' (a + of_nat i)) \<Longrightarrow> load_mem m a = load_mem m' a"
  unfolding load_mem_def by (rule arg_cong[where f = load_word], rule map_cong) simp_all

lemma words_at_cong:
  "(\<And>i. i < 8 * length ws \<Longrightarrow> m (a + of_nat i) = m' (a + of_nat i)) \<Longrightarrow> words_at m a ws = words_at m' a ws"
proof (induction ws arbitrary: a)
  case (Cons w ws)
  have "load_mem m a = load_mem m' a" by (rule load_mem_cong) (use Cons.prems in simp)
  moreover have "words_at m (a + 8) ws = words_at m' (a + 8) ws"
  proof (rule Cons.IH)
    fix i assume "i < 8 * length ws"
    then show "m (a + 8 + of_nat i) = m' (a + 8 + of_nat i)" using Cons.prems[of "8 + i"] by (simp add: add.assoc)
  qed
  ultimately show ?case by simp
qed simp

subsection \<open>The script as a program\<close>

text \<open>The meaning of a script, statement after statement, without its encoding.\<close>

fun run_statements ::
  "nat \<Rightarrow> 'k Loader_Sys \<Rightarrow> LoadStatement list \<Rightarrow> Loader_State \<Rightarrow> mem \<Rightarrow> 'k \<Rightarrow> Outcome \<times> mem \<times> 'k" where
  "run_statements 0 L script ls m k = (No_Fuel, m, k)"
| "run_statements (Suc fuel) L [] ls m k = (Fatal, m, k)"
| "run_statements (Suc fuel) L (stmt # script) ls m k =
     (case exec_statement fuel L stmt ls m k of
        (Inl out, m, k) \<Rightarrow> (out, m, k)
      | (Inr ls, m, k) \<Rightarrow> run_statements fuel L script ls m k)"

text \<open>A statement that maps memory leaves a region alone: no overflow, no overlap, whole words.\<close>

fun mapped_range :: "LoadStatement \<Rightarrow> Mmap_Args option" where
  "mapped_range (LOAD_MMAP_FILE a) = Some a"
| "mapped_range (LOAD_MMAP_ANON a) = Some a"
| "mapped_range _ = None"

definition range_ok :: "Mmap_Args \<Rightarrow> bool" where
  "range_ok a \<longleftrightarrow> unat (mm_addr a) + unat (mm_length a) < 2 ^ 64 \<and> unat (mm_clear_length a) \<le> unat (mm_length a)
     \<and> (unat (mm_addr a) + unat (mm_length a)) mod 8 = 0"

definition outside :: "Mmap_Args \<Rightarrow> word_t \<Rightarrow> bool" where
  "outside a x \<longleftrightarrow> unat x < unat (mm_addr a) \<or> unat (mm_addr a) + unat (mm_length a) \<le> unat x"

definition leaves_alone :: "LoadStatement \<Rightarrow> word_t \<Rightarrow> bool" where
  "leaves_alone stmt x \<longleftrightarrow> (case mapped_range stmt of None \<Rightarrow> True | Some a \<Rightarrow> range_ok a \<and> outside a x)"

text \<open>What \<open>mmap(2)\<close> with MAP_FIXED promises: the memory outside the new mapping stays.\<close>

locale loader_system =
  fixes L :: "'k Loader_Sys"
  assumes mmap_outside: "\<lbrakk>l_mmap L k m a len p fl f off = (status, m', k'); status = a;
      unat x < unat a \<or> unat a + unat len \<le> unat x\<rbrakk> \<Longrightarrow> m' x = m x"
begin

lemma exec_statement_outside:
  assumes "exec_statement fuel L stmt ls m k = (Inr ls', m', k')" and "leaves_alone stmt x"
  shows "m' x = m x"
proof (cases stmt)
  case (LOAD_MMAP_FILE a)
  then have ok: "range_ok a" "outside a x" using assms(2) by (simp_all add: leaves_alone_def)
  obtain status m1 k1 where call: "l_mmap L k m (mm_addr a) (mm_length a) (mm_prot a)
      (MAP_PRIVATE OR MAP_FIXED) (ls_fd ls) (mm_offset a) = (status, m1, k1)" by (metis prod_cases3)
  then have status: "status = mm_addr a"
    and m': "m' = (if mm_clear_length a \<noteq> 0 then clear m1 (mm_addr a + mm_length a - mm_clear_length a)
        (mm_addr a + mm_length a) else m1)"
    using assms(1) by (auto simp: exec_statement_def LOAD_MMAP_FILE Let_def split: if_split_asm)
  have m1: "m1 x = m x" using mmap_outside[OF call status, of x] ok(2) by (simp add: outside_def)
  have e: "unat (mm_addr a + mm_length a) = unat (mm_addr a) + unat (mm_length a)"
    using ok(1) by (simp add: range_ok_def unat_add_small)
  then have s: "unat (mm_addr a + mm_length a - mm_clear_length a) =
      unat (mm_addr a) + unat (mm_length a) - unat (mm_clear_length a)"
    using ok(1) unat_minus[of "unat (mm_clear_length a)" "mm_addr a + mm_length a" "mm_clear_length a"]
    by (simp add: range_ok_def)
  have "clear m1 (mm_addr a + mm_length a - mm_clear_length a) (mm_addr a + mm_length a) =
      (\<lambda>x. if unat (mm_addr a + mm_length a - mm_clear_length a) \<le> unat x
            \<and> unat x < unat (mm_addr a + mm_length a) then 0 else m1 x)"
    by (rule clear_range) (use ok(1) e s in \<open>simp_all add: range_ok_def\<close>)
  then have "clear m1 (mm_addr a + mm_length a - mm_clear_length a) (mm_addr a + mm_length a) x = m1 x"
    using ok e s by (auto simp: outside_def range_ok_def)
  then show ?thesis using m1 m' by auto
next
  case (LOAD_MMAP_ANON a)
  then have ok: "outside a x" using assms(2) by (simp add: leaves_alone_def)
  obtain status m1 k1 where call: "l_mmap L k m (mm_addr a) (mm_length a) (mm_prot a)
      (MAP_PRIVATE OR MAP_FIXED OR MAP_ANONYMOUS) (-1) 0 = (status, m1, k1)" by (metis prod_cases3)
  then have "status = mm_addr a" "m' = m1"
    using assms(1) by (auto simp: exec_statement_def LOAD_MMAP_ANON split: if_split_asm)
  then show ?thesis using mmap_outside[OF call, of x] ok by (simp add: outside_def)
qed (use assms(1) in \<open>auto simp: exec_statement_def open_file_def split: prod.splits option.splits if_split_asm\<close>)

text \<open>The loader executes the script that is in its memory.\<close>

lemma run_loader_script:
  assumes "script_at m cursor script" and "script \<noteq> []"
    and "\<And>stmt i. stmt \<in> set script \<Longrightarrow> i < 8 * length (concat (map statement_words script))
      \<Longrightarrow> leaves_alone stmt (cursor + of_nat i)"
    and "\<exists>s. last script = LOAD_START s \<or> last script = LOAD_START_TRACED s"
  shows "run_loader fuel L cursor ls m k = run_statements fuel L script ls m k"
  using assms
proof (induction fuel arbitrary: script cursor ls m k)
  case (Suc fuel)
  obtain stmt rest where script: "script = stmt # rest" using Suc.prems(2) by (cases script) auto
  let ?n = "8 * length (statement_words stmt)"
  have at: "words_at m cursor (statement_words stmt)" "script_at m (cursor + of_nat ?n) rest"
    using Suc.prems(1) by (simp_all add: script words_at_append)
  have fetch: "fetch_statement m cursor = Some stmt" by (rule fetch_statement_words[OF at(1)])
  obtain r m1 k1 where exec: "exec_statement fuel L stmt ls m k = (r, m1, k1)" by (metis prod_cases3)
  show ?case
  proof (cases r)
    case (Inl out)
    then show ?thesis by (simp add: script fetch exec)
  next
    case (Inr ls1)
    have "rest \<noteq> []"
    proof
      assume "rest = []"
      then obtain s where "stmt = LOAD_START s \<or> stmt = LOAD_START_TRACED s"
        using Suc.prems(4) by (auto simp: script)
      then show False using exec Inr by (auto simp: exec_statement_def split: prod.splits)
    qed
    have alone: "leaves_alone stmt' (cursor + of_nat ?n + of_nat i)"
      if "stmt' \<in> set script" "i < 8 * length (concat (map statement_words rest))" for stmt' i
      using Suc.prems(3)[OF that(1), of "?n + i"] that(2) by (simp add: script add.assoc)
    have "m1 (cursor + of_nat ?n + of_nat i) = m (cursor + of_nat ?n + of_nat i)"
      if "i < 8 * length (concat (map statement_words rest))" for i
      using exec_statement_outside[of fuel stmt ls m k ls1 m1 k1] exec Inr alone[OF _ that] by (simp add: script)
    then have "script_at m1 (cursor + of_nat ?n) rest"
      using at(2) words_at_cong[of "concat (map statement_words rest)" m1 "cursor + of_nat ?n" m] by blast
    moreover have "\<exists>s. last rest = LOAD_START s \<or> last rest = LOAD_START_TRACED s"
      using Suc.prems(4) \<open>rest \<noteq> []\<close> by (simp add: script)
    ultimately have "run_loader fuel L (cursor + of_nat ?n) ls1 m1 k1 = run_statements fuel L rest ls1 m1 k1"
      using Suc.IH[of m1 "cursor + of_nat ?n" rest ls1 k1] \<open>rest \<noteq> []\<close> alone by (simp add: script)
    then show ?thesis by (simp add: script fetch exec Inr LOAD_STATEMENT_SIZE_def)
  qed
qed simp

end

subsection \<open>From the transfer to the program\<close>

lemma words_at_contents:
  assumes "contents b a (8 * length ws) = concat (map store_word ws)"
    and "\<And>i. i < 8 * length ws \<Longrightarrow> b (a + of_nat i) = Some (m (a + of_nat i))"
  shows "words_at m a ws"
  using assms
proof (induction ws arbitrary: a)
  case (Cons w ws)
  have "contents b a 8 @ contents b (a + 8) (8 * length ws) = store_word w @ concat (map store_word ws)"
    using contents_split[of b a 8 "8 * length ws"] Cons.prems(1) by simp
  then have parts: "contents b a 8 = store_word w" "contents b (a + 8) (8 * length ws) = concat (map store_word ws)"
    by (simp_all add: append_eq_append_conv)
  have "contents b a 8 = map (\<lambda>i. m (a + of_nat i)) [0..<8]"
    unfolding contents_def by (rule map_cong) (use Cons.prems(2) in simp_all)
  then have "load_mem m a = w" by (metis load_mem_def load_store_word parts(1))
  moreover have "words_at m (a + 8) ws"
  proof (rule Cons.IH[OF parts(2)])
    fix i assume "i < 8 * length ws"
    then show "b (a + 8 + of_nat i) = Some (m (a + 8 + of_nat i))"
      using Cons.prems(2)[of "8 + i"] by (simp add: add.assoc)
  qed
  ultimately show ?case by simp
qed simp

text \<open>The last statement of a script starts the program.\<close>

definition start_of :: "LoadInfo \<Rightarrow> word_t \<Rightarrow> Start_Args \<Rightarrow> bool" where
  "start_of info sp s \<longleftrightarrow> sa_stack_pointer s = sp
     \<and> sa_entry_point s = ELF_FIELD (li_elf_header (case ld_interp info of None \<Rightarrow> ld_main info | Some i \<Rightarrow> i)) E_entry"

lemma load_script_last:
  assumes "load_script info traced page_mask sp = Inr script"
  obtains pre s where "script = pre @ [if traced then LOAD_START_TRACED s else LOAD_START s]"
    and "start_of info sp s" and "\<forall>stmt \<in> set pre. \<forall>s. stmt \<noteq> LOAD_START s \<and> stmt \<noteq> LOAD_START_TRACED s"
proof -
  obtain m0 ms where "li_mappings (ld_main info) = m0 # ms"
    and script: "script = script_body info page_mask sp
      @ [if traced then LOAD_START_TRACED (script_start info sp m0) else LOAD_START (script_start info sp m0)]"
    using assms by (auto simp: load_script_def Let_def split: list.splits)
  have "transcript_mapping m \<noteq> LOAD_START s \<and> transcript_mapping m \<noteq> LOAD_START_TRACED s" for m s
    by (simp add: transcript_mapping_def Let_def)
  then have "\<forall>stmt \<in> set (script_body info page_mask sp). \<forall>s. stmt \<noteq> LOAD_START s \<and> stmt \<noteq> LOAD_START_TRACED s"
    by (auto simp: script_body_def Let_def transcript_mappings_def split: option.splits)
  moreover have "start_of info sp (script_start info sp m0)"
    by (simp add: start_of_def script_start_def Let_def split: option.split)
  ultimately show thesis using that script by blast
qed

text \<open>Whatever the system calls give, the loader goes nowhere but to the program's entry point.\<close>

lemma run_statements_outcome:
  assumes "script = pre @ [if traced then LOAD_START_TRACED s else LOAD_START s]"
    and "\<forall>stmt \<in> set pre. \<forall>s. stmt \<noteq> LOAD_START s \<and> stmt \<noteq> LOAD_START_TRACED s"
    and "ls_traced ls \<longrightarrow> traced"
  shows "fst (run_statements fuel L script ls m k) \<in>
    {Fatal, No_Fuel, (if traced then Notify else Branch) (sa_stack_pointer s) (sa_entry_point s)}"
  using assms
proof (induction pre arbitrary: script fuel ls m k)
  case Nil
  then show ?case
    by (cases fuel)
      (auto simp: exec_statement_def start_program_def Let_def split: prod.splits option.splits if_splits)
next
  case (Cons stmt pre)
  show ?case
  proof (cases fuel)
    case (Suc n)
    obtain r m1 k1 where exec: "exec_statement n L stmt ls m k = (r, m1, k1)" by (metis prod_cases3)
    have "\<forall>s. stmt \<noteq> LOAD_START s \<and> stmt \<noteq> LOAD_START_TRACED s" using Cons.prems(2) by simp
    then have r: "r = Inl Fatal \<or> (\<exists>ls'. r = Inr ls' \<and> ls_traced ls' = ls_traced ls)"
      using exec
      by (cases stmt)
        (auto simp: exec_statement_def open_file_def Let_def split: prod.splits option.splits if_splits)
    then show ?thesis
    proof (elim disjE exE conjE)
      fix ls' assume "r = Inr ls'" "ls_traced ls' = ls_traced ls"
      moreover have "fst (run_statements n L (pre @ [if traced then LOAD_START_TRACED s else LOAD_START s]) ls' m1 k1)
          \<in> {Fatal, No_Fuel, (if traced then Notify else Branch) (sa_stack_pointer s) (sa_entry_point s)}"
        by (rule Cons.IH[OF refl]) (use Cons.prems(2,3) calculation in auto)
      ultimately show ?thesis by (simp add: Suc Cons.prems(1) exec)
    qed (simp add: Suc Cons.prems(1) exec)
  qed simp
qed

end
