(* ===== verification/Exec_Properties.thy ===== *)
theory Exec_Properties
  imports Loader Syscall_Properties
begin

section \<open>Properties of program loading\<close>

text \<open>
  The promises of tracee/mem.c, execve/enter.c, execve/exit.c and loader/loader.c, with instances.
\<close>

text \<open>
  C21. A segment of an ELF program is mapped as its program header asks: each of its bytes in memory
  is the byte of the file at the same distance from the offset of the segment, then zero, provided
  that the sizes do not overflow and that the file offset agrees with the address modulo the page.
\<close>

theorem segment_mapped:
  assumes "k < 32"
    and "unat (PROGRAM_FIELD e p P_vaddr) + max (unat (PROGRAM_FIELD e p P_filesz)) (unat (PROGRAM_FIELD e p P_memsz))
      + 2 ^ k < 2 ^ 64"
    and "unat (PROGRAM_FIELD e p P_vaddr) mod 2 ^ k = unat (PROGRAM_FIELD e p P_offset) mod 2 ^ k"
    and "unat (PROGRAM_FIELD e p P_vaddr) \<le> x"
    and "x < unat (PROGRAM_FIELD e p P_vaddr)
      + max (unat (PROGRAM_FIELD e p P_filesz)) (unat (PROGRAM_FIELD e p P_memsz))"
  shows "source_at (add_mapping (2 ^ k) e p ms) x =
    (if x < unat (PROGRAM_FIELD e p P_vaddr) + unat (PROGRAM_FIELD e p P_filesz)
     then File_Byte (unat (PROGRAM_FIELD e p P_offset) + (x - unat (PROGRAM_FIELD e p P_vaddr)))
     else Zero)"
  using assms by (rule add_mapping_segment)

definition ex_ehdr :: ElfHeader where "ex_ehdr = [0x7F, 0x45, 0x4C, 0x46, 2] @ replicate 59 0"

definition ex_phdr :: ProgramHeader where
  "ex_phdr = [0x01, 0, 0, 0, 0x06, 0, 0, 0, 0x23, 0x01, 0, 0, 0, 0, 0, 0, 0x23, 0x51, 0, 0, 0, 0, 0, 0, 0, 0,
     0, 0, 0, 0, 0, 0, 0x10, 0, 0, 0, 0, 0, 0, 0, 0, 0x20, 0, 0, 0, 0, 0, 0, 0, 0x10, 0, 0, 0, 0, 0,
     0]"

lemma ex_phdr_fields:
  "unat (PROGRAM_FIELD ex_ehdr ex_phdr P_vaddr) = 0x5123" "unat (PROGRAM_FIELD ex_ehdr ex_phdr P_offset) = 0x123"
  "unat (PROGRAM_FIELD ex_ehdr ex_phdr P_filesz) = 0x10" "unat (PROGRAM_FIELD ex_ehdr ex_phdr P_memsz) = 0x2000"
  by (simp_all add: PROGRAM_FIELD_def IS_CLASS64_def ELF_CLASS_def ELF_IDENT_def ex_ehdr_def ex_phdr_def
      program_field64_def field_def)

theorem segment_mapped_witness:
  "source_at (add_mapping (2 ^ 12) ex_ehdr ex_phdr []) 0x5130 = File_Byte 0x130
    \<and> source_at (add_mapping (2 ^ 12) ex_ehdr ex_phdr []) 0x6130 = Zero"
proof -
  note at = segment_mapped[where e = ex_ehdr and p = ex_phdr and k = 12 and ms = "[]", unfolded ex_phdr_fields]
  have "source_at (add_mapping (2 ^ 12) ex_ehdr ex_phdr []) 0x5130 =
      (if (0x5130 :: nat) < 0x5123 + 0x10 then File_Byte (0x123 + (0x5130 - 0x5123)) else Zero)"
    by (rule at) simp_all
  moreover have "source_at (add_mapping (2 ^ 12) ex_ehdr ex_phdr []) 0x6130 =
      (if (0x6130 :: nat) < 0x5123 + 0x10 then File_Byte (0x123 + (0x6130 - 0x5123)) else Zero)"
    by (rule at) simp_all
  ultimately show ?thesis by (simp only:) simp
qed


definition ex_loader_sys :: "unit Loader_Sys" where
  "ex_loader_sys = \<lparr>l_open = (\<lambda>k m a. (3, k)), l_close = (\<lambda>k fd. (0, k)),
     l_mmap = (\<lambda>k m a len p fl fd off. (a, \<lambda>x. if unat a \<le> unat x \<and> unat x < unat a + unat len then 1 else m x, k)),
     l_mprotect = (\<lambda>k a len p. k), l_set_name = (\<lambda>k m a. k)\<rparr>"

interpretation ex_loader: loader_system ex_loader_sys
  by unfold_locales (auto simp: ex_loader_sys_def)

definition ex_info :: LoadInfo where
  "ex_info = \<lparr>ld_main = \<lparr>li_host_path = ''/r/a'', li_user_path = ''/a'',
     li_mappings = [\<lparr>m_addr = 0x10000, m_length = 0x1000, m_clear_length = 0, m_prot = PROT_READ,
       m_flags = MAP_PRIVATE OR MAP_FIXED, m_fd = -1, m_offset = 0\<rparr>],
     li_elf_header = ex_ehdr, li_exec_stack = False, li_interp_path = None\<rparr>,
     ld_raw_path = None, ld_interp = None\<rparr>"

definition ex_stack :: Tracee_Regs where
  "ex_stack = poke_reg (ex_regs False) STACK_POINTER 0x7FFF0000"

lemma ex_stack_sp: "peek_reg ex_stack CURRENT STACK_POINTER = 0x7FFF0000" "\<not> is_aarch32 ex_stack"
  by (simp_all add: ex_stack_def peek_poke_same ex_regs_def)

lemma ex_info_sizes:
  "script_size ex_info = 128" "strings_size (script_layout ex_info 0x7FFF0000) = 16"
  by (simp_all add: script_size_def ex_info_def needs_executable_stack_def script_layout_def Let_def)


text \<open>
  C23. The buffer transferred has the size computed beforehand (the assertions of the source), in
  both formats, and the new stack pointer is a multiple of 16, as AArch64 requires, whatever the
  strings are.
\<close>

theorem script_size_and_alignment:
  assumes "load_script info ptraced page_mask sp = Inr script"
    and "script_size info + strings_size (script_layout info sp) \<le> unat sp"
  shows "length (script_bytes halved script) = script_size info
    \<and> length (strings_bytes info (padding_size (script_layout info sp))) = strings_size (script_layout info sp)
    \<and> unat (sp - of_nat (script_size info + strings_size (script_layout info sp))) mod 16 = 0"
  using script_size_exact[OF assms(1)] length_strings_bytes script_aligned[OF assms(2)] by blast

theorem script_size_and_alignment_witness:
  "\<exists>script. load_script ex_info True 0 0x7FFF0000 = Inr script \<and> length (script_bytes True script) = 128"
proof -
  obtain script where script: "load_script ex_info True 0 0x7FFF0000 = Inr script"
    by (auto simp: load_script_def ex_info_def)
  have "script_size ex_info + strings_size (script_layout ex_info 0x7FFF0000) \<le> unat (0x7FFF0000 :: word_t)"
    by (simp add: ex_info_sizes)
  from script_size_and_alignment[OF script this] script show ?thesis by (auto simp: ex_info_sizes)
qed

text \<open>
  C24. Writing into a tracee, word by word, changes exactly the bytes written, although the last
  word is written as a whole, and reading gives them back.
\<close>

theorem write_data_then_read:
  assumes "ptrace_memory P bytes"
    and "mapped (bytes k) (untag_pointer a) (8 * ((length src + 7) div 8))" and "length src < 2 ^ 63"
  shows "\<exists>k'. write_data P k a src = (Inr (), k') \<and> bytes k' = put (bytes k) (untag_pointer a) src
    \<and> read_data P k' a (length src) = Inr src"
  using ptrace_memory.write_data_put[OF assms] ptrace_memory.write_read_data[OF assms] by auto

theorem write_data_then_read_witness:
  "\<exists>k'. write_data plain_memory (\<lambda>x. Some 0) 0x1000 [1, 2, 3] = (Inr (), k') \<and> k' 0x1003 = Some 0
    \<and> read_data plain_memory k' 0x1000 (length [1, 2, 3 :: byte]) = Inr [1, 2, 3]"
proof -
  have "mapped (\<lambda>x. Some 0) (untag_pointer 0x1000) (8 * ((length [1, 2, 3 :: byte] + 7) div 8))"
    by (simp add: mapped_def)
  then obtain k' where "write_data plain_memory (\<lambda>x. Some 0) 0x1000 [1, 2, 3] = (Inr (), k')"
    "k' = put (\<lambda>x. Some 0) (untag_pointer 0x1000) [1, 2, 3]"
    "read_data plain_memory k' 0x1000 (length [1, 2, 3 :: byte]) = Inr [1, 2, 3]"
    using write_data_then_read[OF plain.ptrace_memory_axioms, of "\<lambda>x. Some 0" "0x1000" "[1, 2, 3]"] by auto
  moreover have "put (\<lambda>x. Some 0) (untag_pointer 0x1000) [1, 2, 3] 0x1003 = Some (0 :: byte)"
    by (simp add: put_def untag_pointer_def)
  ultimately show ?thesis by blast
qed

text \<open>
  Reading a path from a tracee: a string in mapped memory is read in full, without its
  terminator, if it takes less than PATH_MAX bytes with it, otherwise the error is ENAMETOOLONG;
  a path of exactly PATH_MAX bytes is refused too.
\<close>

theorem read_path_string:
  assumes "ptrace_memory P bytes"
    and "contents (bytes k) (untag_pointer a) (Suc (length s)) = s @ [0]" and "0 \<notin> set s"
    and "mapped (bytes k) (untag_pointer a) (8 * (length s div 8 + 1))" and "length s < PATH_MAX"
  shows "read_path P k a =
    (if length s + 1 = PATH_MAX then Err ENAMETOOLONG else Inr (map (\<lambda>b. char_of (unat b)) s, length s + 1))"
proof -
  obtain bs where "read_string P k a PATH_MAX = Inr (bs, length s + 1)" "takeWhile (\<lambda>b. b \<noteq> 0) bs = s"
    using ptrace_memory.read_string_contents[OF assms] by blast
  then show ?thesis using assms(5) by (simp add: read_path_def string_of_def)
qed

theorem read_path_string_witness:
  "read_path plain_memory (put (\<lambda>x. Some 0) 0x1000 [0x2F, 0x61]) 0x1000 = Inr (''/a'', 3)"
proof -
  let ?m = "put (\<lambda>x. Some 0) 0x1000 [0x2F, 0x61]"
  have "contents ?m (untag_pointer 0x1000) (Suc (length [0x2F, 0x61 :: byte])) = [0x2F, 0x61] @ [0]"
    by (simp add: contents_def put_def untag_pointer_def)
  moreover have "mapped ?m (untag_pointer 0x1000) (8 * (length [0x2F, 0x61 :: byte] div 8 + 1))"
    by (simp add: mapped_def put_def)
  ultimately have "read_path plain_memory ?m 0x1000 = Inr (map (\<lambda>b. char_of (unat b)) [0x2F, 0x61 :: byte], 3)"
    using read_path_string[OF plain.ptrace_memory_axioms, of ?m "0x1000" "[0x2F, 0x61]"]
    by (simp add: PATH_MAX_def)
  moreover have "map (\<lambda>b. char_of (unat b)) [0x2F, 0x61 :: byte] = ''/a''" by code_simp
  ultimately show ?thesis by simp
qed

end
