(* ===== verification/Heap.thy ===== *)
theory Heap
  imports Load_Info Registers
begin

section \<open>The emulated heap\<close>

text \<open>
  syscall/heap.c: \<open>brk(2)\<close> is replaced by \<open>mmap(2)\<close> for the first call and by \<open>mremap(2)\<close> for
  the next ones, and its result is computed from what the kernel returned.  The static variable
  \<open>heap_offset\<close> is a field here, next to those of \<open>struct Heap\<close>; \<open>page_size\<close> is what
  \<open>sysconf(_SC_PAGE_SIZE)\<close> returns.
\<close>

record Heap =
  h_base :: word_t
  h_size :: word_t
  h_disabled :: bool
  heap_offset :: word_t

definition PROT_RW :: word_t where "PROT_RW = 3"
definition MAP_PRIVATE_ANONYMOUS :: word_t where "MAP_PRIVATE_ANONYMOUS = 0x22"

text \<open>The conversion \<open>(int) x\<close> of a word.\<close>

definition int_of_word :: "word_t \<Rightarrow> int" where
  "int_of_word x = sint (ucast x :: 32 word)"

definition init_heap_offset :: "word_t \<Rightarrow> Heap \<Rightarrow> Heap" where
  "init_heap_offset page_size heap =
     (if heap_offset heap = 0 then
        heap\<lparr>heap_offset := (if int_of_word page_size \<le> 0 then 0x1000 else page_size)\<rparr>
      else heap)"

text \<open>Several registers in the order of the source.\<close>

definition poke_regs :: "(Reg \<times> word_t) list \<Rightarrow> Tracee_Regs \<Rightarrow> Tracee_Regs" where
  "poke_regs rvs t = fold (\<lambda>(r, v) t. poke_reg t r v) rvs t"

text \<open>
  \<open>mappings\<close> are those of \<open>tracee->load_info\<close>, which is null before the first \<open>execve(2)\<close>; the
  last one is the one of the BSS.
\<close>

definition translate_brk_enter ::
  "word_t \<Rightarrow> Mapping list option \<Rightarrow> Heap \<Rightarrow> Tracee_Regs \<Rightarrow> (Heap \<times> Tracee_Regs) res" where
  "translate_brk_enter page_size load_info heap t =
     (if h_disabled heap then Inr (heap, t)
      else
        (let heap = init_heap_offset page_size heap;
             new_brk_address = peek_reg t CURRENT SYSARG_1
         in
         if h_base heap = 0 then
           (if new_brk_address \<noteq> 0 then Inr (heap, t)
            else
              (case load_info of
                 None \<Rightarrow> Inl Undefined
               | Some mappings \<Rightarrow>
                   (if mappings = [] then Inl Undefined
                    else
                      (let bss = last mappings;
                           new_brk_address = m_addr bss + m_length bss
                       in case detranslate_sysnum (get_abi t) PR_mmap2 of
                            Inl e \<Rightarrow> Inl e
                          | Inr n \<Rightarrow>
                              (case set_sysnum t (if n \<noteq> SYSCALL_AVOIDER then PR_mmap2 else PR_mmap) of
                                 Inl e \<Rightarrow> Inl e
                               | Inr t \<Rightarrow>
                                   Inr (heap, poke_regs [(SYSARG_1, new_brk_address),
                                     (SYSARG_2, heap_offset heap), (SYSARG_3, PROT_RW),
                                     (SYSARG_4, MAP_PRIVATE_ANONYMOUS), (SYSARG_5, -1),
                                     (SYSARG_6, 0)] t))))))
         else if new_brk_address < h_base heap then
           (case set_sysnum t PR_void of Inl e \<Rightarrow> Inl e | Inr t \<Rightarrow> Inr (heap, t))
         else
           (let new_heap_size = new_brk_address - h_base heap;
                old_heap_size = h_size heap
            in case set_sysnum t PR_mremap of
                 Inl e \<Rightarrow> Inl e
               | Inr t \<Rightarrow>
                   Inr (heap, poke_regs [(SYSARG_1, h_base heap - heap_offset heap),
                     (SYSARG_2, old_heap_size + heap_offset heap),
                     (SYSARG_3, new_heap_size + heap_offset heap),
                     (SYSARG_4, 0), (SYSARG_5, 0)] t))))"

definition translate_brk_exit :: "Heap \<Rightarrow> Tracee_Regs \<Rightarrow> (Heap \<times> Tracee_Regs) res" where
  "translate_brk_exit heap t =
     (if h_disabled heap then Inr (heap, t)
      else
        (case get_sysnum t MODIFIED of
           Inl e \<Rightarrow> Inl e
         | Inr sysnum \<Rightarrow>
             (let result = peek_reg t CURRENT SYSARG_RESULT;
                  tracee_errno = int_of_word result;
                  failed = (tracee_errno < 0 \<and> tracee_errno > -4096);
                  current = h_base heap + h_size heap
              in if sysnum = PR_void then Inr (heap, poke_reg t SYSARG_RESULT current)
                 else if sysnum = PR_mmap \<or> sysnum = PR_mmap2 then
                   (if failed then Inr (heap, poke_reg t SYSARG_RESULT 0)
                    else
                      (let heap = heap\<lparr>h_base := result + heap_offset heap, h_size := 0\<rparr>
                       in Inr (heap, poke_reg t SYSARG_RESULT (h_base heap + h_size heap))))
                 else if sysnum = PR_mremap then
                   (if failed \<or> h_base heap \<noteq> result + heap_offset heap
                    then Inr (heap, poke_reg t SYSARG_RESULT current)
                    else
                      (let heap = heap\<lparr>h_size := peek_reg t MODIFIED SYSARG_3 - heap_offset heap\<rparr>
                       in Inr (heap, poke_reg t SYSARG_RESULT (h_base heap + h_size heap))))
                 else if sysnum = PR_brk then
                   Inr (if result = peek_reg t ORIGINAL SYSARG_1
                        then heap\<lparr>h_disabled := True\<rparr> else heap, t)
                 else Inr (heap, t))))"

subsection \<open>Reading the registers\<close>

definition fits :: "Tracee_Regs \<Rightarrow> word_t \<Rightarrow> bool" where
  "fits t v \<longleftrightarrow> (is_aarch32 t \<longrightarrow> v AND 0xFFFFFFFF = v)"

lemma peek_poke:
  "peek_reg (poke_reg t r v) CURRENT r' =
    (if REG_offset t r' = REG_offset t r then (if is_aarch32 t then v AND 0xFFFFFFFF else v)
     else peek_reg t CURRENT r')"
  using peek_poke_same[of t r' r v] peek_poke_other[of t r' r v] by simp

lemma peek_poke_fits:
  "fits t v \<Longrightarrow> peek_reg (poke_reg t r v) CURRENT r' =
    (if REG_offset t r' = REG_offset t r then v else peek_reg t CURRENT r')"
  by (auto simp: peek_poke fits_def)

lemma fits_cong: "is_aarch32 t = is_aarch32 t' \<Longrightarrow> fits t = fits t'"
  by (simp add: fits_def fun_eq_iff)

lemma get_abi_poke [simp]: "get_abi (poke_reg t r v) = get_abi t"
  by (simp add: get_abi_def)

lemma fits_poke [simp]: "fits (poke_reg t r v) = fits t"
  by (simp add: fits_def fun_eq_iff)

lemma poke_regs_simps [simp]:
  "poke_regs [] t = t" "poke_regs ((r, v) # rvs) t = poke_regs rvs (poke_reg t r v)"
  by (simp_all add: poke_regs_def)

lemma poke_regs_keeps [simp]:
  "is_aarch32 (poke_regs rvs t) = is_aarch32 t" "get_abi (poke_regs rvs t) = get_abi t"
  by (induction rvs arbitrary: t) auto

text \<open>Registers with different names have different places, apart from the result.\<close>

lemma REG_offset_args [simp]:
  "REG_offset t SYSARG_NUM \<noteq> REG_offset t SYSARG_1" "REG_offset t SYSARG_NUM \<noteq> REG_offset t SYSARG_2"
  "REG_offset t SYSARG_NUM \<noteq> REG_offset t SYSARG_3" "REG_offset t SYSARG_NUM \<noteq> REG_offset t SYSARG_4"
  "REG_offset t SYSARG_NUM \<noteq> REG_offset t SYSARG_5" "REG_offset t SYSARG_NUM \<noteq> REG_offset t SYSARG_6"
  "REG_offset t SYSARG_3 \<noteq> REG_offset t SYSARG_1" "REG_offset t SYSARG_3 \<noteq> REG_offset t SYSARG_2"
  "REG_offset t SYSARG_3 \<noteq> REG_offset t SYSARG_4" "REG_offset t SYSARG_3 \<noteq> REG_offset t SYSARG_5"
  "REG_offset t SYSARG_1 \<noteq> REG_offset t SYSARG_NUM"
  by (auto simp: REG_offset_def reg_offset_def reg_offset_armeabi_def)

lemma get_sysnum_pokes:
  "SYSARG_NUM \<notin> fst ` set rvs \<Longrightarrow> RTLD_FINI \<notin> fst ` set rvs \<Longrightarrow>
    get_sysnum (poke_regs rvs t) CURRENT = get_sysnum t CURRENT"
proof (induction rvs arbitrary: t)
  case (Cons rv rvs)
  obtain r v where rv: "rv = (r, v)" by force
  then have "REG_offset t SYSARG_NUM \<noteq> REG_offset t r"
    using Cons.prems by (cases r) (auto simp: REG_offset_def reg_offset_def reg_offset_armeabi_def)
  then have "get_sysnum (poke_reg t r v) CURRENT = get_sysnum t CURRENT"
    by (simp add: get_sysnum_def peek_poke_other)
  then show ?case using Cons.IH[of "poke_reg t r v"] Cons.prems by (simp add: rv)
qed simp

subsection \<open>Results of the kernel\<close>

text \<open>
  A result that is a multiple of the page size is never taken for an error, although only its
  low 32 bits are looked at.
\<close>

lemma low_bits_zero_dvd:
  fixes x :: "32 word"
  assumes "take_bit 12 x = 0"
  shows "4096 dvd sint x"
proof -
  have "take_bit 12 (sint x) = take_bit 12 (uint x)"
    by (simp add: sint_uint take_bit_signed_take_bit)
  also have "\<dots> = 0"
    using arg_cong[OF assms, of uint] by (simp add: unsigned_take_bit_eq)
  finally show ?thesis by (simp add: take_bit_eq_mod mod_eq_0_iff_dvd)
qed

lemma aligned_not_error:
  assumes "take_bit 12 v = 0"
  shows "\<not> (int_of_word v < 0 \<and> int_of_word v > -4096)"
proof -
  have "take_bit 12 (ucast v :: 32 word) = 0"
  proof (rule bit_word_eqI)
    fix n
    have "\<not> (n < 12 \<and> bit v n)" using assms by (metis bit_0_eq bit_take_bit_iff bot_apply bot_bool_def)
    then show "bit (take_bit 12 (ucast v :: 32 word)) n = bit 0 n"
      by (auto simp: bit_take_bit_iff bit_ucast_iff)
  qed
  then have "4096 dvd int_of_word v" unfolding int_of_word_def by (rule low_bits_zero_dvd)
  then show ?thesis by (auto simp: dvd_def)
qed

subsection \<open>The system calls that replace \<open>brk\<close>\<close>

lemma table_entries:
  "array_get sysnums_arm64 216 = PR_mremap" "array_get sysnums_arm 163 = PR_mremap"
  "array_get sysnums_arm64 222 = PR_mmap" "array_get sysnums_arm 192 = PR_mmap2"
  by (simp_all add: array_get_def sysnums_arm64_def sysnums_arm64_1_def sysnums_arm64_2_def
        sysnums_arm_def sysnums_arm_1_def sysnums_arm_2_def)

lemma table_numbers:
  "detranslate_sysnum ABI_DEFAULT PR_mremap = Inr 216" "detranslate_sysnum ABI_2 PR_mremap = Inr 163"
  "detranslate_sysnum ABI_DEFAULT PR_mmap = Inr 222" "detranslate_sysnum ABI_2 PR_mmap2 = Inr 192"
  by (rule detranslate_translate,
      simp_all add: translate_sysnum_def sysnums_simps table_entries)+

lemma set_sysnum_defined: "\<exists>t'. set_sysnum t s = Inr t' \<and> is_aarch32 t' = is_aarch32 t"
  using detranslate_sysnum_defined[of "get_abi t" s]
  by (auto simp: set_sysnum_def get_abi_def split: if_split_asm)

lemma set_sysnum_other:
  "set_sysnum t s = Inr t' \<Longrightarrow> REG_offset t r \<noteq> REG_offset t SYSARG_NUM \<Longrightarrow>
    peek_reg t' CURRENT r = peek_reg t CURRENT r"
  by (auto simp: set_sysnum_def peek_poke_other split: sum.splits)

lemma set_mremap:
  assumes "set_sysnum t PR_mremap = Inr t'"
  shows "get_sysnum t' CURRENT = Inr PR_mremap"
  using get_set_sysnum[OF assms] table_numbers
  by (auto simp: get_abi_def SYSCALL_AVOIDER_def split: if_split_asm)

lemma set_void:
  assumes "set_sysnum t PR_void = Inr t'"
  shows "get_sysnum t' CURRENT = Inr PR_void"
  using get_set_sysnum[OF assms] by simp

lemma set_mmap:
  assumes "detranslate_sysnum (get_abi t) PR_mmap2 = Inr n"
    and "set_sysnum t (if n \<noteq> SYSCALL_AVOIDER then PR_mmap2 else PR_mmap) = Inr t'"
  shows "get_sysnum t' CURRENT = Inr (if n \<noteq> SYSCALL_AVOIDER then PR_mmap2 else PR_mmap)"
  using get_set_sysnum[OF assms(2)] assms(1) table_numbers
  by (cases "is_aarch32 t") (auto simp: get_abi_def SYSCALL_AVOIDER_def split: if_split_asm)

subsection \<open>Between the two stages\<close>

text \<open>
  The registers at the exit stage, after the kernel returned \<open>v\<close> for the system call that the
  enter stage left in \<open>t\<close>.
\<close>

definition kernel_returned :: "Tracee_Regs \<Rightarrow> word_t \<Rightarrow> Tracee_Regs \<Rightarrow> bool" where
  "kernel_returned t v t' \<longleftrightarrow> regs t' MODIFIED = regs t CURRENT \<and> is_aarch32 t' = is_aarch32 t
     \<and> peek_reg t' CURRENT SYSARG_RESULT = v"

lemma kernel_returned_modified:
  assumes "kernel_returned t v t'"
  shows "peek_reg t' MODIFIED r = peek_reg t CURRENT r" "get_sysnum t' MODIFIED = get_sysnum t CURRENT"
    "peek_reg t' CURRENT SYSARG_RESULT = v" "fits t' = fits t"
proof -
  have eq: "regs t' MODIFIED = regs t CURRENT" "is_aarch32 t' = is_aarch32 t"
    using assms by (simp_all only: kernel_returned_def)
  show m: "peek_reg t' MODIFIED r = peek_reg t CURRENT r" for r
    by (simp only: peek_reg_def REG_def REG_offset_def is_32on64_mode_def eq)
  show "get_sysnum t' MODIFIED = get_sysnum t CURRENT"
    by (simp only: get_sysnum_def m get_abi_def eq)
  show "peek_reg t' CURRENT SYSARG_RESULT = v" "fits t' = fits t"
    using assms fits_cong[OF eq(2)] by (simp_all only: kernel_returned_def)
qed

text \<open>What the process reads as the result.\<close>

definition result_of :: "Tracee_Regs \<Rightarrow> word_t" where
  "result_of t = peek_reg t CURRENT SYSARG_RESULT"

lemma result_of_poke: "fits t v \<Longrightarrow> result_of (poke_reg t SYSARG_RESULT v) = v"
  by (simp add: result_of_def peek_poke_fits)

lemma init_heap_offset_other [simp]:
  "h_base (init_heap_offset p h) = h_base h" "h_size (init_heap_offset p h) = h_size h"
  "h_disabled (init_heap_offset p h) = h_disabled h"
  by (simp_all add: init_heap_offset_def)

lemma init_heap_offset_idem: "heap_offset h \<noteq> 0 \<Longrightarrow> init_heap_offset p h = h"
  by (simp add: init_heap_offset_def)

text \<open>
  The contract of \<open>brk(2)\<close>: a request at or above the start of the heap that the kernel grants
  becomes the new end; any other leaves the end where it was; the result is the end.
\<close>

definition brk_spec :: "word_t \<Rightarrow> word_t \<Rightarrow> word_t \<Rightarrow> bool \<Rightarrow> word_t" where
  "brk_spec base current request granted =
     (if base \<le> request \<and> granted then request else current)"

lemma brk_exit_void:
  assumes "get_sysnum t MODIFIED = Inr PR_void" and "\<not> h_disabled h"
  shows "translate_brk_exit h t = Inr (h, poke_reg t SYSARG_RESULT (h_base h + h_size h))"
  using assms by (simp add: translate_brk_exit_def)

lemma brk_exit_mremap:
  assumes "get_sysnum t MODIFIED = Inr PR_mremap" and "\<not> h_disabled h"
    and "v = peek_reg t CURRENT SYSARG_RESULT"
  shows "translate_brk_exit h t =
    (if int_of_word v < 0 \<and> int_of_word v > -4096 \<or> h_base h \<noteq> v + heap_offset h
     then Inr (h, poke_reg t SYSARG_RESULT (h_base h + h_size h))
     else let h = h\<lparr>h_size := peek_reg t MODIFIED SYSARG_3 - heap_offset h\<rparr>
       in Inr (h, poke_reg t SYSARG_RESULT (h_base h + h_size h)))"
  using assms by (auto simp: translate_brk_exit_def Let_def)

lemma brk_exit_mmap:
  assumes "get_sysnum t MODIFIED = Inr (if b then PR_mmap2 else PR_mmap)" and "\<not> h_disabled h"
    and "v = peek_reg t CURRENT SYSARG_RESULT"
  shows "translate_brk_exit h t =
    (if int_of_word v < 0 \<and> int_of_word v > -4096 then Inr (h, poke_reg t SYSARG_RESULT 0)
     else let h = h\<lparr>h_base := v + heap_offset h, h_size := 0\<rparr>
       in Inr (h, poke_reg t SYSARG_RESULT (h_base h + h_size h)))"
  using assms by (cases b) (simp_all add: translate_brk_exit_def Let_def)

text \<open>
  One round after the first: the kernel either keeps the mapping where it is (it was asked for no
  move) and returns its address, or returns something else, an error.
\<close>

lemma brk_round:
  assumes h: "\<not> h_disabled h" "h_base h \<noteq> 0" "heap_offset h \<noteq> 0"
    and start: "take_bit 12 (h_base h - heap_offset h) = 0"
    and enter: "translate_brk_enter page_size info h t = Inr (h1, t1)"
    and kernel: "kernel_returned t1 v t2"
    and fit: "fits t (h_base h + h_size h)" "fits t request" "fits t (request - h_base h + heap_offset h)"
    and request: "request = peek_reg t CURRENT SYSARG_1"
    and granted: "granted \<longleftrightarrow> v = h_base h - heap_offset h"
  shows "\<exists>h3 t3. translate_brk_exit h1 t2 = Inr (h3, t3)
    \<and> h_base h3 = h_base h \<and> heap_offset h3 = heap_offset h \<and> \<not> h_disabled h3
    \<and> h_base h3 + h_size h3 = brk_spec (h_base h) (h_base h + h_size h) request granted
    \<and> result_of t3 = h_base h3 + h_size h3"
proof (cases "request < h_base h")
  case True
  then have t1: "h1 = h" "set_sysnum t PR_void = Inr t1"
    using enter h request by (auto simp: translate_brk_enter_def init_heap_offset_idem split: sum.splits)
  have "get_sysnum t2 MODIFIED = Inr PR_void"
    using set_void[OF t1(2)] kernel_returned_modified(2)[OF kernel] by simp
  moreover have "fits t2 = fits t"
    using set_sysnum_defined[of t PR_void] t1(2) kernel_returned_modified(4)[OF kernel]
    by (auto simp: fits_def fun_eq_iff)
  moreover have "\<not> h_base h \<le> request" using True by simp
  ultimately show ?thesis
    using brk_exit_void[of t2 h] h(1) fit(1) result_of_poke[of t2 "h_base h + h_size h"] t1(1)
    by (simp add: brk_spec_def)
next
  case False
  then obtain t0 where t0: "h1 = h" "set_sysnum t PR_mremap = Inr t0"
    and t1: "t1 = poke_regs [(SYSARG_1, h_base h - heap_offset h), (SYSARG_2, h_size h + heap_offset h),
        (SYSARG_3, request - h_base h + heap_offset h), (SYSARG_4, 0), (SYSARG_5, 0)] t0"
    using enter h request
    by (auto simp: translate_brk_enter_def init_heap_offset_idem Let_def split: sum.splits)
  have f0: "fits t0 = fits t"
    using set_sysnum_defined[of t PR_mremap] t0(2) by (auto simp: fits_def fun_eq_iff)
  have "get_sysnum t1 CURRENT = Inr PR_mremap"
    unfolding t1 by (subst get_sysnum_pokes) (use set_mremap[OF t0(2)] in auto)
  then have num: "get_sysnum t2 MODIFIED = Inr PR_mremap"
    using kernel_returned_modified(2)[OF kernel] by simp
  have "peek_reg t1 CURRENT SYSARG_3 = request - h_base h + heap_offset h"
    unfolding t1 poke_regs_simps using fit(3) f0
    by (simp only: peek_poke_other[OF REG_offset_args(9)] peek_poke_other[OF REG_offset_args(10)])
      (simp add: peek_poke_fits)
  then have size3: "peek_reg t2 MODIFIED SYSARG_3 = request - h_base h + heap_offset h"
    using kernel_returned_modified(1)[OF kernel] by simp
  have f2: "fits t2 = fits t"
    using kernel_returned_modified(4)[OF kernel] f0 unfolding t1 by (simp add: fits_def fun_eq_iff)
  have "\<not> (int_of_word v < 0 \<and> int_of_word v > -4096)" if "v = h_base h - heap_offset h"
    using aligned_not_error[OF start] that by simp
  then have exit: "translate_brk_exit h t2 =
      (if granted then Inr (h\<lparr>h_size := request - h_base h\<rparr>, poke_reg t2 SYSARG_RESULT request)
       else Inr (h, poke_reg t2 SYSARG_RESULT (h_base h + h_size h)))"
    unfolding brk_exit_mremap[OF num h(1) kernel_returned_modified(3)[OF kernel, symmetric]] granted
    by (auto simp: size3 Let_def algebra_simps)
  have "h_base h \<le> request" using False by simp
  then show ?thesis
    using h(1) fit(1,2) result_of_poke[of t2] t0(1) f2
    by (simp add: exit brk_spec_def)
qed

text \<open>
  The first call asks for the current end: the heap then starts one \<open>heap_offset\<close> after the
  mapping that the kernel made, and is empty.
\<close>

lemma brk_first:
  assumes h: "\<not> h_disabled h" "h_base h = 0" and request: "peek_reg t CURRENT SYSARG_1 = 0"
    and info: "info = Some mappings" "mappings \<noteq> []"
    and enter: "translate_brk_enter page_size info h t = Inr (h1, t1)"
    and kernel: "kernel_returned t1 v t2" and v: "take_bit 12 v = 0"
    and fit: "fits t (v + heap_offset h1)"
  shows "\<exists>h3 t3. translate_brk_exit h1 t2 = Inr (h3, t3)
    \<and> h_base h3 = v + heap_offset h1 \<and> h_size h3 = 0 \<and> result_of t3 = h_base h3 + h_size h3"
proof -
  obtain n where n: "detranslate_sysnum (get_abi t) PR_mmap2 = Inr n"
    using detranslate_sysnum_defined[of "get_abi t" PR_mmap2] by (cases "is_aarch32 t") (auto simp: get_abi_def)
  let ?s = "if n \<noteq> SYSCALL_AVOIDER then PR_mmap2 else PR_mmap"
  let ?rvs = "[(SYSARG_1, m_addr (last mappings) + m_length (last mappings)), (SYSARG_2, heap_offset h1),
      (SYSARG_3, PROT_RW), (SYSARG_4, MAP_PRIVATE_ANONYMOUS), (SYSARG_5, -1), (SYSARG_6, 0)]"
  obtain t0 where t0: "h1 = init_heap_offset page_size h" "set_sysnum t ?s = Inr t0"
    and t1: "t1 = poke_regs ?rvs t0"
    using enter h request info n
    by (cases "set_sysnum t ?s") (auto simp: translate_brk_enter_def Let_def split: if_split_asm)
  have "get_sysnum t1 CURRENT = Inr ?s"
    unfolding t1 by (subst get_sysnum_pokes) (use set_mmap[OF n t0(2)] in auto)
  then have num: "get_sysnum t2 MODIFIED = Inr ?s"
    using kernel_returned_modified(2)[OF kernel] by simp
  have f: "fits t2 = fits t"
    using set_sysnum_defined[of t ?s] t0(2) kernel_returned_modified(4)[OF kernel] unfolding t1
    by (auto simp: fits_def fun_eq_iff)
  have "translate_brk_exit h1 t2 = Inr (h1\<lparr>h_base := v + heap_offset h1, h_size := 0\<rparr>,
      poke_reg t2 SYSARG_RESULT (v + heap_offset h1))"
    by (subst brk_exit_mmap[OF num]) (use h(1) aligned_not_error[OF v] kernel_returned_modified(3)[OF kernel] t0(1)
      in \<open>auto simp: Let_def\<close>)
  then show ?thesis using fit f by (simp add: result_of_poke)
qed

text \<open>The enter stage never fails with a load information; a possible state at the exit stage.\<close>

lemma translate_brk_enter_defined:
  assumes "info = Some mappings" and "mappings \<noteq> []"
  shows "\<exists>h1 t1. translate_brk_enter page_size info h t = Inr (h1, t1) \<and> is_aarch32 t1 = is_aarch32 t"
proof -
  obtain n where n: "detranslate_sysnum (get_abi t) PR_mmap2 = Inr n"
    using detranslate_sysnum_defined[of "get_abi t" PR_mmap2] by (cases "is_aarch32 t") (auto simp: get_abi_def)
  obtain t0 where "set_sysnum t (if n \<noteq> SYSCALL_AVOIDER then PR_mmap2 else PR_mmap) = Inr t0"
    "is_aarch32 t0 = is_aarch32 t"
    using set_sysnum_defined[of t "if n \<noteq> SYSCALL_AVOIDER then PR_mmap2 else PR_mmap"] by blast
  moreover obtain t' where "set_sysnum t PR_void = Inr t'" "is_aarch32 t' = is_aarch32 t"
    using set_sysnum_defined by blast
  moreover obtain t'' where "set_sysnum t PR_mremap = Inr t''" "is_aarch32 t'' = is_aarch32 t"
    using set_sysnum_defined by blast
  ultimately show ?thesis
    using assms n by (auto simp: translate_brk_enter_def Let_def)
qed

lemma kernel_returned_poke:
  assumes "fits t v"
  shows "kernel_returned t v (poke_reg (save_current_regs t MODIFIED) SYSARG_RESULT v)"
proof -
  have f: "fits (save_current_regs t MODIFIED) v"
    using assms by (simp add: fits_def save_current_regs_def)
  have "regs (poke_reg (save_current_regs t MODIFIED) SYSARG_RESULT v) MODIFIED = regs t CURRENT"
    by (simp add: poke_reg_def save_current_regs_def set_bank_def)
  then show ?thesis
    using peek_poke_fits[OF f, of SYSARG_RESULT SYSARG_RESULT]
    by (simp add: kernel_returned_def) (simp add: save_current_regs_def)
qed

end
