(* ===== verification/Shebang.thy ===== *)
theory Shebang
  imports Load_Info
begin

section \<open>Interpreter scripts\<close>

text \<open>
  \<open>extract_shebang\<close> of execve/shebang.c.  The function reads the file one byte at a time; the
  loops below walk the bytes that are left.  \<open>buf\<close> is what was written to the buffer
  \<open>user_path\<close> or \<open>argument\<close> so far, so that the index \<open>i\<close> of the source is its length, and
  \<open>n\<close> is \<open>current_length\<close>.
\<close>

text \<open>From linux/binfmts.h.\<close>

definition BINPRM_BUF_SIZE :: nat where "BINPRM_BUF_SIZE = 256"

definition blank :: "char \<Rightarrow> bool" where
  "blank c \<longleftrightarrow> c = CHR '' '' \<or> c = CHR 0x09"

definition newline :: "char \<Rightarrow> bool" where
  "newline c \<longleftrightarrow> c = CHR 0x0A \<or> c = CHR 0x0D"

subsection \<open>The reader\<close>

text \<open>
  The loop that removes the trailing blanks of the argument: from the end down to, and not
  including, the first character.
\<close>

definition chop_blanks :: "string \<Rightarrow> string" where
  "chop_blanks buf =
     (case buf of
        [] \<Rightarrow> []
      | c # cs \<Rightarrow> c # rev (dropWhile blank (rev cs)))"

text \<open>\<open>tmp\<close> is the character at hand, \<open>rest\<close> what follows in the file.\<close>

fun slurp_argument :: "nat \<Rightarrow> char \<Rightarrow> string \<Rightarrow> string \<Rightarrow> string" where
  "slurp_argument n tmp rest buf =
     (if \<not> n < BINPRM_BUF_SIZE then buf
      else if newline tmp then chop_blanks buf
      else
        (case rest of
           [] \<Rightarrow> []
         | c # rest \<Rightarrow> slurp_argument (n + 1) c rest (buf @ [tmp])))"

fun slurp_path :: "nat \<Rightarrow> char \<Rightarrow> string \<Rightarrow> string \<Rightarrow> string \<times> string" where
  "slurp_path n tmp rest buf =
     (if \<not> n < BINPRM_BUF_SIZE then (cstr buf, [])
      else if newline tmp then (cstr buf, [])
      else if \<not> blank tmp \<and> length buf > 1 \<and> last buf = NUL then
        (cstr buf, cstr (slurp_argument n tmp rest []))
      else
        (case rest of
           [] \<Rightarrow> (cstr buf, [])
         | c # rest \<Rightarrow> slurp_path (n + 1) c rest (buf @ [if blank tmp then NUL else tmp])))"

fun skip_spaces :: "nat \<Rightarrow> string \<Rightarrow> (nat \<times> char \<times> string) option" where
  "skip_spaces n [] = None"
| "skip_spaces n (tmp # rest) =
     (if blank tmp \<and> n + 1 < BINPRM_BUF_SIZE then skip_spaces (n + 1) rest
      else Some (n + 1, tmp, rest))"

text \<open>The bytes of a file as characters.\<close>

definition chars :: "byte list \<Rightarrow> string" where
  "chars bs = map (\<lambda>b. char_of (unat b)) bs"

text \<open>\<open>None\<close> is the status 0, no script; otherwise the interpreter and the argument.\<close>

definition extract_shebang ::
  "(string \<Rightarrow> File res) \<Rightarrow> string \<Rightarrow> (string \<times> string) option res" where
  "extract_shebang files host_path =
     (case files host_path of
        Inl e \<Rightarrow> Inl e
      | Inr f \<Rightarrow>
          (case read_at f 0 2 of
             Inl e \<Rightarrow> Inl e
           | Inr tmp2 \<Rightarrow>
               (if length tmp2 < 2 \<or> chars tmp2 \<noteq> ''#!'' then Inr None
                else
                  (case skip_spaces 2 (chars (drop 2 (f_bytes f))) of
                     None \<Rightarrow> Err ENOEXEC
                   | Some (n, tmp, rest) \<Rightarrow> Inr (Some (slurp_path n tmp rest []))))))"

subsection \<open>Reference parser\<close>

text \<open>
  The documented syntax of the line: the interpreter is the first word, the argument everything
  after it without the blanks around.
\<close>

definition parse_line :: "string \<Rightarrow> string \<times> string" where
  "parse_line line =
     (let line = dropWhile blank line
      in (takeWhile (\<lambda>c. \<not> blank c) line,
          rev (dropWhile blank (rev (dropWhile blank (dropWhile (\<lambda>c. \<not> blank c) line))))))"

definition plain :: "string \<Rightarrow> bool" where
  "plain s \<longleftrightarrow> (\<forall>c \<in> set s. \<not> newline c \<and> c \<noteq> NUL)"

lemma plain_simps [simp]:
  "plain []" "plain (c # s) \<longleftrightarrow> \<not> newline c \<and> c \<noteq> NUL \<and> plain s"
  "plain (s @ s') \<longleftrightarrow> plain s \<and> plain s'"
  by (auto simp: plain_def)

lemma plain_cstr: "plain s \<Longrightarrow> cstr s = s"
  by (auto simp: plain_def)

lemma plain_subset: "plain s \<Longrightarrow> set s' \<subseteq> set s \<Longrightarrow> plain s'"
  by (auto simp: plain_def)

lemma blank_newline: "blank c \<Longrightarrow> \<not> newline c" "blank c \<Longrightarrow> c \<noteq> NUL"
  by (auto simp: blank_def newline_def NUL_def)

declare slurp_argument.simps [simp del] slurp_path.simps [simp del]

lemma slurp_argument_steps:
  "newline c \<Longrightarrow> n < BINPRM_BUF_SIZE \<Longrightarrow> slurp_argument n c rest buf = chop_blanks buf"
  "\<not> newline c \<Longrightarrow> n < BINPRM_BUF_SIZE \<Longrightarrow>
    rest \<noteq> [] \<Longrightarrow> slurp_argument n c rest buf = slurp_argument (n + 1) (hd rest) (tl rest) (buf @ [c])"
  by (cases rest; simp add: slurp_argument.simps[of n c])+

lemma slurp_path_steps:
  "newline c \<Longrightarrow> n < BINPRM_BUF_SIZE \<Longrightarrow> slurp_path n c rest buf = (cstr buf, [])"
  "\<not> newline c \<Longrightarrow> n < BINPRM_BUF_SIZE \<Longrightarrow> \<not> blank c \<Longrightarrow> length buf > 1 \<Longrightarrow> last buf = NUL \<Longrightarrow>
    slurp_path n c rest buf = (cstr buf, cstr (slurp_argument n c rest []))"
  "\<not> newline c \<Longrightarrow> n < BINPRM_BUF_SIZE \<Longrightarrow> \<not> (\<not> blank c \<and> length buf > 1 \<and> last buf = NUL) \<Longrightarrow>
    rest \<noteq> [] \<Longrightarrow>
    slurp_path n c rest buf = slurp_path (n + 1) (hd rest) (tl rest) (buf @ [if blank c then NUL else c])"
  by (cases rest; subst slurp_path.simps, auto)+

lemma cstr_terminated: "NUL \<notin> set s \<Longrightarrow> cstr (s @ [NUL]) = s"
  by (induction s) (auto simp: cstr_def)

lemma skip_spaces_line:
  assumes "newline nl" and "n + length line + 1 < BINPRM_BUF_SIZE"
  shows "skip_spaces n (line @ nl # rest) =
    (case dropWhile blank line of
       [] \<Rightarrow> Some (n + length line + 1, nl, rest)
     | c # cs \<Rightarrow> Some (n + (length line - length cs), c, cs @ nl # rest))"
  using assms(2)
proof (induction line arbitrary: n)
  case Nil
  then show ?case using assms(1) blank_newline(1)[of nl] by auto
next
  case (Cons c line)
  have len: "length (dropWhile blank line) \<le> length line" by (rule length_dropWhile_le)
  show ?case
  proof (cases "dropWhile blank line")
    case Nil
    note ih = Cons.IH[of "Suc n", unfolded Nil list.case]
    show ?thesis using ih Cons.prems Nil by (cases "blank c") (simp_all del: dropWhile_eq_Nil_conv)
  next
    case (Cons d ds)
    note ih = Cons.IH[of "Suc n", unfolded Cons list.case]
    then show ?thesis
      using Cons.prems Cons len by (cases "blank c") (simp_all add: Suc_diff_le)
  qed
qed

lemma slurp_argument_line:
  assumes "newline nl" and "plain line" and "n + length line < BINPRM_BUF_SIZE"
  shows "slurp_argument n (hd (line @ nl # rest)) (tl (line @ nl # rest)) buf = chop_blanks (buf @ line)"
  using assms(2,3)
proof (induction line arbitrary: n buf)
  case Nil
  then show ?case by (simp add: slurp_argument_steps(1)[OF assms(1)])
next
  case (Cons c line)
  from Cons.prems have c: "\<not> newline c" "n < BINPRM_BUF_SIZE" by auto
  then show ?case
    using Cons.IH[of "n + 1" "buf @ [c]"] Cons.prems by (simp add: slurp_argument_steps(2)[OF c])
qed

text \<open>The states of the first loop: in the interpreter, then in the blanks after it.\<close>

lemma slurp_path_blanks:
  assumes "newline nl" and "plain line" and "n + length line < BINPRM_BUF_SIZE"
    and "length buf > 1" and "last buf = NUL"
  shows "slurp_path n (hd (line @ nl # rest)) (tl (line @ nl # rest)) buf =
    (cstr buf, cstr (chop_blanks (dropWhile blank line)))"
  using assms(2-)
proof (induction line arbitrary: n buf)
  case Nil
  then show ?case by (simp add: slurp_path_steps(1)[OF assms(1)] chop_blanks_def cstr_def)
next
  case (Cons c line)
  from Cons.prems have c: "\<not> newline c" "n < BINPRM_BUF_SIZE" by auto
  show ?case
  proof (cases "blank c")
    case True
    have "NUL \<in> set buf" using Cons.prems(3,4) by (cases buf rule: rev_cases) auto
    then have buf: "cstr (buf @ [NUL]) = cstr buf" by (auto simp: cstr_def)
    have "slurp_path (n + 1) (hd (line @ nl # rest)) (tl (line @ nl # rest)) (buf @ [NUL]) =
      (cstr (buf @ [NUL]), cstr (chop_blanks (dropWhile blank line)))"
      by (rule Cons.IH) (use Cons.prems in auto)
    then show ?thesis
      using True c by (simp add: slurp_path_steps(3) buf)
  next
    case False
    then show ?thesis
      using c Cons.prems slurp_argument_line[OF assms(1) Cons.prems(1,2), of rest "[]"]
      by (simp add: slurp_path_steps(2))
  qed
qed

lemma slurp_path_word:
  assumes "newline nl" and "plain line" and "n + length line < BINPRM_BUF_SIZE"
    and "NUL \<notin> set buf" and "length buf > 0"
  shows "slurp_path n (hd (line @ nl # rest)) (tl (line @ nl # rest)) buf =
    (buf @ takeWhile (\<lambda>c. \<not> blank c) line,
     cstr (chop_blanks (dropWhile blank (dropWhile (\<lambda>c. \<not> blank c) line))))"
  using assms(2-)
proof (induction line arbitrary: n buf)
  case Nil
  have "cstr [] = []" by simp
  with Nil show ?case by (simp add: slurp_path_steps(1)[OF assms(1)] chop_blanks_def)
next
  case (Cons c line)
  from Cons.prems have c: "\<not> newline c" "n < BINPRM_BUF_SIZE" "c \<noteq> NUL" by auto
  have last: "last buf \<noteq> NUL" using Cons.prems(3,4) by (metis last_in_set length_greater_0_conv)
  show ?case
  proof (cases "blank c")
    case True
    have "cstr (buf @ [NUL]) = buf" by (rule cstr_terminated[OF Cons.prems(3)])
    moreover have "slurp_path (n + 1) (hd (line @ nl # rest)) (tl (line @ nl # rest)) (buf @ [NUL]) =
      (cstr (buf @ [NUL]), cstr (chop_blanks (dropWhile blank line)))"
      by (rule slurp_path_blanks[OF assms(1)]) (use Cons.prems in auto)
    ultimately show ?thesis using True c last by (simp add: slurp_path_steps(3))
  next
    case False
    have "slurp_path (n + 1) (hd (line @ nl # rest)) (tl (line @ nl # rest)) (buf @ [c]) =
      ((buf @ [c]) @ takeWhile (\<lambda>c. \<not> blank c) line,
        cstr (chop_blanks (dropWhile blank (dropWhile (\<lambda>c. \<not> blank c) line))))"
      by (rule Cons.IH) (use Cons.prems c in auto)
    then show ?thesis using False c last by (simp add: slurp_path_steps(3))
  qed
qed

lemma chop_blanks_arg:
  "s = [] \<or> \<not> blank (hd s) \<Longrightarrow> chop_blanks s = rev (dropWhile blank (rev s))"
  by (cases s) (auto simp: chop_blanks_def dropWhile_append dropWhile_eq_Nil_conv)

text \<open>
  A script whose first line ends within the buffer: the reader computes what the reference parser
  gives for the line.
\<close>

lemma extract_shebang_line:
  assumes f: "files path = Inr f" "f_error f = None"
    and bytes: "chars (f_bytes f) = ''#!'' @ line @ nl # rest"
    and line: "newline nl" "plain line" "length line + 3 < BINPRM_BUF_SIZE"
  shows "extract_shebang files path = Inr (Some (parse_line line))"
proof -
  have len: "length (f_bytes f) \<ge> 2"
    using arg_cong[OF bytes, of length] by (simp add: chars_def)
  have two: "chars (take 2 (f_bytes f)) = ''#!''" "chars (drop 2 (f_bytes f)) = line @ nl # rest"
    using bytes by (simp_all add: chars_def take_map[symmetric] drop_map[symmetric])
  have skip: "skip_spaces 2 (line @ nl # rest) =
    (case dropWhile blank line of
       [] \<Rightarrow> Some (2 + length line + 1, nl, rest)
     | c # cs \<Rightarrow> Some (2 + (length line - length cs), c, cs @ nl # rest))"
    by (rule skip_spaces_line) (use line in auto)
  show ?thesis
  proof (cases "dropWhile blank line")
    case Nil
    then show ?thesis
      using f len two skip[unfolded Nil list.case] line
      by (simp add: extract_shebang_def read_at_def slurp_path_steps(1) parse_line_def cstr_def
          flip: dropWhile_eq_Nil_conv)
  next
    case (Cons c cs)
    let ?n = "2 + (length line - length cs)"
    have "length (c # cs) \<le> length line" unfolding Cons[symmetric] by (rule length_dropWhile_le)
    then have n: "?n + 1 + length cs < BINPRM_BUF_SIZE" "?n < BINPRM_BUF_SIZE" using line(3) by auto
    have "plain (c # cs)"
      using line(2) unfolding Cons[symmetric] by (rule plain_subset) (auto dest: set_dropWhileD)
    then have c: "\<not> newline c" "c \<noteq> NUL" "plain cs" by auto
    have "\<not> blank c" using hd_dropWhile[of blank line] Cons by auto
    have "slurp_path (?n + 1) (hd (cs @ nl # rest)) (tl (cs @ nl # rest)) [c] =
      ([c] @ takeWhile (\<lambda>c. \<not> blank c) cs,
       cstr (chop_blanks (dropWhile blank (dropWhile (\<lambda>c. \<not> blank c) cs))))"
      by (rule slurp_path_word[OF line(1) c(3) n(1)]) (use c in auto)
    then have path: "slurp_path ?n c (cs @ nl # rest) [] =
      (c # takeWhile (\<lambda>c. \<not> blank c) cs,
       cstr (chop_blanks (dropWhile blank (dropWhile (\<lambda>c. \<not> blank c) cs))))"
      using c n(2) \<open>\<not> blank c\<close> by (simp add: slurp_path_steps(3))
    let ?arg = "dropWhile blank (dropWhile (\<lambda>c. \<not> blank c) cs)"
    have "?arg = [] \<or> \<not> blank (hd ?arg)" using hd_dropWhile[of blank] by blast
    then have chop: "chop_blanks ?arg = rev (dropWhile blank (rev ?arg))" by (rule chop_blanks_arg)
    have "plain (chop_blanks ?arg)" unfolding chop
      by (rule plain_subset[OF c(3)]) (auto dest!: set_dropWhileD)
    then have "cstr (chop_blanks ?arg) = rev (dropWhile blank (rev ?arg))"
      by (simp add: plain_cstr chop)
    then show ?thesis
      using f len two skip[unfolded Cons list.case] path Cons \<open>\<not> blank c\<close>
      by (simp add: extract_shebang_def read_at_def parse_line_def)
  qed
qed

text \<open>
  A script whose only line is an interpreter without a newline: the last character is lost.
\<close>

lemma slurp_path_eof:
  assumes "plain word" and "\<forall>c \<in> set word. \<not> blank c" and "n + length word < BINPRM_BUF_SIZE"
    and "NUL \<notin> set buf" and "word \<noteq> []"
  shows "slurp_path n (hd word) (tl word) buf = (buf @ butlast word, [])"
  using assms
proof (induction word arbitrary: n buf)
  case (Cons c word)
  have last: "(length buf > 1 \<and> last buf = NUL) = False"
    using Cons.prems(4) by (cases buf rule: rev_cases) auto
  show ?case
  proof (cases word)
    case Nil
    then show ?thesis
      using Cons.prems last by (subst slurp_path.simps) auto
  next
    case (Cons d ds)
    have "slurp_path (n + 1) (hd word) (tl word) (buf @ [c]) = ((buf @ [c]) @ butlast word, [])"
      by (rule Cons.IH) (use Cons.prems \<open>word = d # ds\<close> in auto)
    moreover have "slurp_path n c word buf = slurp_path (n + 1) (hd word) (tl word) (buf @ [c])"
      by (subst slurp_path_steps(3)) (use Cons.prems last \<open>word = d # ds\<close> in auto)
    ultimately show ?thesis using \<open>word = d # ds\<close> by simp
  qed
qed simp

lemma extract_shebang_eof:
  assumes f: "files path = Inr f" "f_error f = None"
    and bytes: "chars (f_bytes f) = ''#!'' @ word"
    and word: "word \<noteq> []" "plain word" "\<forall>c \<in> set word. \<not> blank c" "length word + 3 < BINPRM_BUF_SIZE"
  shows "extract_shebang files path = Inr (Some (butlast word, []))"
proof -
  have len: "length (f_bytes f) \<ge> 2"
    using arg_cong[OF bytes, of length] by (simp add: chars_def)
  have two: "chars (take 2 (f_bytes f)) = ''#!''" "chars (drop 2 (f_bytes f)) = word"
    using bytes by (simp_all add: chars_def take_map[symmetric] drop_map[symmetric])
  have "skip_spaces 2 word = Some (3, hd word, tl word)"
    using word(1,3) by (cases word) auto
  moreover have "slurp_path 3 (hd word) (tl word) [] = (butlast word, [])"
    using slurp_path_eof[OF word(2,3), of 3 "[]"] word by simp
  ultimately show ?thesis
    using f len two by (simp add: extract_shebang_def read_at_def)
qed

end
