(* ===== verification/Sysargs.thy ===== *)
theory Sysargs
  imports Heap Translate Load_Script
begin

section \<open>Arguments of a system call\<close>

text \<open>
  \<open>get_sysarg_path\<close>, \<open>set_sysarg_data\<close>, \<open>set_sysarg_path\<close> of syscall/syscall.c, and
  \<open>translate_path2\<close>, \<open>translate_sysarg\<close> of syscall/enter.c: a path argument is read from the
  memory of the tracee, translated, written below its stack pointer, and its register is redirected.
  The state is that of one tracee: its registers, its name-space, its memory and the rest of the
  system.
\<close>

record ('k, 'w) Sys =
  s_regs :: Tracee_Regs
  s_tracee :: Tracee
  s_mem :: 'k
  s_world :: 'w

datatype Type = REGULAR | SYMLINK

definition peek :: "('k, 'w, 'z) Sys_scheme \<Rightarrow> Reg \<Rightarrow> word_t" where
  "peek s reg = peek_reg (s_regs s) CURRENT reg"

definition poke :: "Reg \<Rightarrow> word_t \<Rightarrow> ('k, 'w, 'z) Sys_scheme \<Rightarrow> ('k, 'w, 'z) Sys_scheme" where
  "poke reg v s = s\<lparr>s_regs := poke_reg (s_regs s) reg v\<rparr>"

definition get_sysarg_path :: "'k Ptrace_Mem \<Rightarrow> Reg \<Rightarrow> ('k, 'w, 'z) Sys_scheme \<Rightarrow> string res" where
  "get_sysarg_path P reg s =
     (let src = peek s reg
      in if src = 0 then Inr []
         else (case read_path P (s_mem s) src of Inl e \<Rightarrow> Inl e | Inr (path, n) \<Rightarrow> Inr path))"

definition set_sysarg_data ::
  "'k Ptrace_Mem \<Rightarrow> byte list \<Rightarrow> Reg \<Rightarrow> ('k, 'w, 'z) Sys_scheme \<Rightarrow> unit res \<times> ('k, 'w, 'z) Sys_scheme" where
  "set_sysarg_data P data reg s =
     (case alloc_mem (s_regs s) (int (length data)) of
        (tracee_ptr, t) \<Rightarrow>
          (if tracee_ptr = 0 then (Err EFAULT, s\<lparr>s_regs := t\<rparr>)
           else
             (case write_data P (s_mem s) tracee_ptr data of
                (Inl e, k) \<Rightarrow> (Inl e, s\<lparr>s_regs := t, s_mem := k\<rparr>)
              | (Inr _, k) \<Rightarrow> (Inr (), s\<lparr>s_regs := poke_reg t reg tracee_ptr, s_mem := k\<rparr>))))"

definition set_sysarg_path ::
  "'k Ptrace_Mem \<Rightarrow> string \<Rightarrow> Reg \<Rightarrow> ('k, 'w, 'z) Sys_scheme \<Rightarrow> unit res \<times> ('k, 'w, 'z) Sys_scheme" where
  "set_sysarg_path P path reg s = set_sysarg_data P (string_bytes path) reg s"

definition translate_path2 ::
  "'k Ptrace_Mem \<Rightarrow> 'w Env \<Rightarrow> int \<Rightarrow> string \<Rightarrow> Reg \<Rightarrow> Type \<Rightarrow> ('k, 'w, 'z) Sys_scheme
   \<Rightarrow> unit res \<times> ('k, 'w, 'z) Sys_scheme" where
  "translate_path2 P E dir_fd path reg type s =
     (if path = [] then (Inr (), s)
      else
        (case translate_path E (s_tracee s) (s_world s) dir_fd path (type \<noteq> SYMLINK) of
           (Inl e, t, w) \<Rightarrow> (Inl e, s\<lparr>s_tracee := t, s_world := w\<rparr>)
         | (Inr new_path, t, w) \<Rightarrow> set_sysarg_path P new_path reg (s\<lparr>s_tracee := t, s_world := w\<rparr>)))"

definition translate_sysarg ::
  "'k Ptrace_Mem \<Rightarrow> 'w Env \<Rightarrow> Reg \<Rightarrow> Type \<Rightarrow> ('k, 'w, 'z) Sys_scheme
   \<Rightarrow> unit res \<times> ('k, 'w, 'z) Sys_scheme" where
  "translate_sysarg P E reg type s =
     (case get_sysarg_path P reg s of
        Inl e \<Rightarrow> (Inl e, s)
      | Inr old_path \<Rightarrow> translate_path2 P E AT_FDCWD old_path reg type s)"

subsection \<open>Allocation below the stack pointer\<close>

lemma peek_reg_32: "is_aarch32 t \<Longrightarrow> unat (peek_reg t v r) < 2 ^ 32"
proof -
  assume "is_aarch32 t"
  then have "peek_reg t v r = peek_reg t v r AND mask 32"
    by (simp add: peek_reg_def is_32on64_mode_def Let_def and.assoc mask_eq_exp_minus_1)
  then have "unat (peek_reg t v r) = unat (take_bit 32 (peek_reg t v r))" by (simp add: take_bit_eq_mask)
  also have "\<dots> = take_bit 32 (unat (peek_reg t v r))" by (rule unsigned_take_bit_eq)
  also have "\<dots> = unat (peek_reg t v r) mod 2 ^ 32" by (rule take_bit_eq_mod)
  finally show ?thesis by (metis mod_less_divisor zero_less_numeral zero_less_power)
qed

lemma fits_small: "unat v < 2 ^ 32 \<Longrightarrow> fits t v"
proof -
  assume "unat v < 2 ^ 32"
  then have "v < 2 ^ 32" by (simp add: word_less_nat_alt)
  then have "v AND mask 32 = v" by (rule less_mask_eq)
  then show ?thesis by (simp add: fits_def mask_eq_exp_minus_1)
qed

lemma alloc_mem_eq:
  "alloc_mem t sz = (let sp = peek_reg t CURRENT STACK_POINTER
    in if (sz > 0 \<and> uint sp \<le> sz) \<or> (sz < 0 \<and> uint sp \<ge> ULONG_MAX + sz) then (0, t)
       else (sp - of_int sz, poke_reg t STACK_POINTER (sp - of_int sz)))"
  by (simp only: alloc_mem_def RED_ZONE_SIZE_def Let_def add_0_right if_cancel)

text \<open>Enough room below the stack pointer: the address is it less the size, never 0.\<close>

lemma alloc_mem_room:
  assumes "0 < n" and "n < unat (peek_reg t CURRENT STACK_POINTER)"
  shows "alloc_mem t (int n) = (let p = peek_reg t CURRENT STACK_POINTER - of_nat n in (p, poke_reg t STACK_POINTER p))"
    and "peek_reg t CURRENT STACK_POINTER - of_nat n \<noteq> 0"
    and "fits t (peek_reg t CURRENT STACK_POINTER - of_nat n)"
proof -
  let ?sp = "peek_reg t CURRENT STACK_POINTER"
  have "unat ?sp < 2 ^ 64" using unsigned_less[of ?sp] by simp
  then have "n < 2 ^ 64" using assms(2) by (rule less_trans[rotated])
  then have u: "unat (?sp - of_nat n) = unat ?sp - n" using assms(2) by (simp only: unat_minus_nat) simp
  have "\<not> uint ?sp \<le> int n" using assms(2) by (metis not_less of_nat_less_iff uint_nat)
  then show "alloc_mem t (int n) = (let p = ?sp - of_nat n in (p, poke_reg t STACK_POINTER p))"
    using assms(1) by (simp add: alloc_mem_eq Let_def)
  have "unat (?sp - of_nat n) \<noteq> 0" unfolding u using assms(2) by simp
  then show "?sp - of_nat n \<noteq> 0" by (metis unat_0)
  show "fits t (?sp - of_nat n)"
  proof (cases "is_aarch32 t")
    case True
    then show ?thesis using peek_reg_32[OF True, of CURRENT STACK_POINTER] by (intro fits_small) (simp only: u)
  qed (simp add: fits_def)
qed

text \<open>No room: the allocation fails and changes nothing.\<close>

lemma alloc_mem_no_room:
  assumes "0 < n" and "unat (peek_reg t CURRENT STACK_POINTER) \<le> n"
  shows "alloc_mem t (int n) = (0, t)"
proof -
  have "uint (peek_reg t CURRENT STACK_POINTER) \<le> int n" using assms(2) by (metis of_nat_le_iff uint_nat)
  then show ?thesis using assms(1) by (simp add: alloc_mem_eq Let_def)
qed

lemma alloc_mem_some:
  assumes "alloc_mem t (int n) = (p, t')" and "p \<noteq> 0" and "0 < n"
  shows "n < unat (peek_reg t CURRENT STACK_POINTER)"
    and "p = peek_reg t CURRENT STACK_POINTER - of_nat n"
proof -
  show n: "n < unat (peek_reg t CURRENT STACK_POINTER)"
  proof (rule ccontr)
    assume "\<not> ?thesis"
    from alloc_mem_no_room[OF assms(3), of t] this assms(1,2) show False by simp
  qed
  show "p = peek_reg t CURRENT STACK_POINTER - of_nat n"
    using alloc_mem_room(1)[OF assms(3) n] assms(1) by (simp add: Let_def)
qed

subsection \<open>What the kernel reads\<close>

text \<open>The registers that hold arguments, apart from the stack pointer.\<close>

definition argument :: "Reg \<Rightarrow> bool" where
  "argument r \<longleftrightarrow> r \<in> {SYSARG_1, SYSARG_2, SYSARG_3, SYSARG_4, SYSARG_5, SYSARG_6}"

lemma argument_offset: "argument r \<Longrightarrow> REG_offset t r \<noteq> REG_offset t STACK_POINTER"
  by (auto simp: argument_def REG_offset_def reg_offset_def reg_offset_armeabi_def)

text \<open>The room needed for \<open>n\<close> bytes: below the stack pointer, mapped up to a whole word.\<close>

definition room :: "('k \<Rightarrow> word_t \<Rightarrow> byte option) \<Rightarrow> ('k, 'w, 'z) Sys_scheme \<Rightarrow> nat \<Rightarrow> bool" where
  "room bytes s n \<longleftrightarrow> 0 < n \<and> n < unat (peek s STACK_POINTER) \<and> n < 2 ^ 63
     \<and> mapped (bytes (s_mem s)) (untag_pointer (peek s STACK_POINTER - of_nat n)) (8 * ((n + 7) div 8))"

context ptrace_memory
begin

lemma set_sysarg_data_put:
  assumes "room bytes s (length data)" and "argument reg"
  shows "\<exists>s' k. set_sysarg_data P data reg s = (Inr (), s')
    \<and> s' = s\<lparr>s_regs := s_regs s', s_mem := k\<rparr>
    \<and> bytes k = put (bytes (s_mem s)) (untag_pointer (peek s STACK_POINTER - of_nat (length data))) data
    \<and> peek s' reg = peek s STACK_POINTER - of_nat (length data)
    \<and> (\<forall>r. REG_offset (s_regs s) r \<noteq> REG_offset (s_regs s) reg \<longrightarrow>
          REG_offset (s_regs s) r \<noteq> REG_offset (s_regs s) STACK_POINTER \<longrightarrow> peek s' r = peek s r)
    \<and> is_aarch32 (s_regs s') = is_aarch32 (s_regs s)"
proof -
  let ?t = "s_regs s"
  let ?p = "peek_reg ?t CURRENT STACK_POINTER - of_nat (length data)"
  have n: "0 < length data" "length data < unat (peek_reg ?t CURRENT STACK_POINTER)"
    using assms(1) by (auto simp: room_def peek_def)
  note alloc = alloc_mem_room[OF n]
  obtain k where k: "write_data P (s_mem s) ?p data = (Inr (), k)"
    "bytes k = put (bytes (s_mem s)) (untag_pointer ?p) data"
    using write_data_put[of "s_mem s" ?p data] assms(1) by (auto simp: room_def peek_def)
  let ?t' = "poke_reg (poke_reg ?t STACK_POINTER ?p) reg ?p"
  have set: "set_sysarg_data P data reg s = (Inr (), s\<lparr>s_regs := ?t', s_mem := k\<rparr>)"
    using alloc(2) k by (simp add: set_sysarg_data_def alloc(1) Let_def)
  have "peek_reg ?t' CURRENT reg = ?p" using alloc(3) by (simp add: peek_poke_fits)
  moreover have "peek_reg ?t' CURRENT r = peek_reg ?t CURRENT r"
    if "REG_offset ?t r \<noteq> REG_offset ?t reg" "REG_offset ?t r \<noteq> REG_offset ?t STACK_POINTER" for r
    using that by (simp add: peek_poke_other)
  ultimately show ?thesis using set k(2)
    by (intro exI[of _ "s\<lparr>s_regs := ?t', s_mem := k\<rparr>"] exI[of _ k]) (simp add: peek_def)
qed

text \<open>A path that was written is read again.\<close>

lemma path_in_memory:
  assumes "bytes k = put m (untag_pointer a) (string_bytes path)"
    and "mapped m (untag_pointer a) (8 * ((length (string_bytes path) + 7) div 8))"
    and "NUL \<notin> set path" and "length path + 1 < PATH_MAX"
  shows "read_path P k a = Inr (path, length path + 1)"
proof -
  let ?bs = "map of_char path :: byte list"
  have m: "mapped (bytes k) (untag_pointer a) (8 * (length path div 8 + 1))"
    unfolding assms(1)
  proof (rule mapped_put, rule mapped_mono[OF assms(2)])
    have "(length path + 1 + 7) div 8 = length path div 8 + 1" by simp
    then show "8 * (length path div 8 + 1) \<le> 8 * ((length (string_bytes path) + 7) div 8)"
      by (simp only: length_string_bytes le_refl)
  qed
  have len: "length (string_bytes path) = Suc (length ?bs)" by simp
  have "length (string_bytes path) \<le> 2 ^ 64" using assms(4) by (simp add: PATH_MAX_def)
  then have "contents (bytes k) (untag_pointer a) (length (string_bytes path)) = string_bytes path"
    unfolding assms(1) by (rule contents_put)
  then have c: "contents (bytes k) (untag_pointer a) (Suc (length ?bs)) = ?bs @ [0]"
    unfolding len by (simp add: string_bytes_def)
  have "\<exists>bs. read_string P k a PATH_MAX = Inr (bs, length ?bs + 1) \<and> takeWhile (\<lambda>b. b \<noteq> 0) bs = ?bs"
    by (rule read_string_contents[OF c zero_free[OF assms(3)]]) (use m assms(4) in simp_all)
  then show ?thesis
    using assms(4) by (auto simp: read_path_def string_of_def char_of_byte comp_def)
qed

lemma written_path_read:
  assumes "write_data P k a (string_bytes path) = (Inr (), k')" and "NUL \<notin> set path" and "length path + 1 < PATH_MAX"
  shows "read_path P k' a = Inr (path, length path + 1)"
proof -
  have small: "length (string_bytes path) < 2 ^ 63" using assms(3) by (simp add: PATH_MAX_def)
  note m = write_data_mapped[OF assms(1) small]
  obtain k'' where "write_data P k a (string_bytes path) = (Inr (), k'')"
    "bytes k'' = put (bytes k) (untag_pointer a) (string_bytes path)"
    using write_data_put[OF m small] by blast
  then show ?thesis using path_in_memory[of k' "bytes k" a path] m assms by simp
qed

lemma set_then_get_path:
  assumes "room bytes s (length path + 1)" and "argument reg" and "NUL \<notin> set path" and "length path + 1 < PATH_MAX"
  shows "\<exists>s'. set_sysarg_path P path reg s = (Inr (), s') \<and> get_sysarg_path P reg s' = Inr path
    \<and> s' = s\<lparr>s_regs := s_regs s', s_mem := s_mem s'\<rparr>
    \<and> (\<forall>r. REG_offset (s_regs s) r \<noteq> REG_offset (s_regs s) reg \<longrightarrow>
          REG_offset (s_regs s) r \<noteq> REG_offset (s_regs s) STACK_POINTER \<longrightarrow> peek s' r = peek s r)"
proof -
  let ?n = "length path + 1" let ?p = "peek s STACK_POINTER - of_nat ?n"
  have len: "length (string_bytes path) = ?n" by simp
  obtain s' k where s': "set_sysarg_data P (string_bytes path) reg s = (Inr (), s')"
    "s' = s\<lparr>s_regs := s_regs s', s_mem := k\<rparr>"
    "bytes k = put (bytes (s_mem s)) (untag_pointer ?p) (string_bytes path)" "peek s' reg = ?p"
    "\<forall>r. REG_offset (s_regs s) r \<noteq> REG_offset (s_regs s) reg \<longrightarrow>
          REG_offset (s_regs s) r \<noteq> REG_offset (s_regs s) STACK_POINTER \<longrightarrow> peek s' r = peek s r"
    using set_sysarg_data_put[of s "string_bytes path" reg] assms(1,2) unfolding len by blast
  have mem: "s_mem s' = k" by (subst s'(2)) simp
  have p0: "?p \<noteq> 0"
    using alloc_mem_room(2)[of ?n "s_regs s"] assms(1) by (simp add: room_def peek_def)
  have "mapped (bytes (s_mem s)) (untag_pointer ?p) (8 * ((length (string_bytes path) + 7) div 8))"
    using assms(1) unfolding room_def len by blast
  then have "read_path P k ?p = Inr (path, length path + 1)"
    using path_in_memory[OF s'(3) _ assms(3,4)] by blast
  then have "get_sysarg_path P reg s' = Inr path"
    using p0 by (simp add: get_sysarg_path_def s'(4) mem)
  then show ?thesis using s'(1,2,5) mem by (auto simp: set_sysarg_path_def)
qed

text \<open>So a path that was put there is what the kernel reads.\<close>

lemma set_sysarg_path_success:
  assumes "set_sysarg_path P path reg s = (Inr (), s')" and "argument reg" and "NUL \<notin> set path"
    and "length path + 1 < PATH_MAX"
  shows "get_sysarg_path P reg s' = Inr path \<and> s' = s\<lparr>s_regs := s_regs s', s_mem := s_mem s'\<rparr>"
proof -
  have len: "length (string_bytes path) = length path + 1" by simp
  have small: "length path + 1 < 2 ^ 63" using assms(4) by (simp add: PATH_MAX_def)
  obtain p t k where p: "alloc_mem (s_regs s) (int (length path + 1)) = (p, t)" "p \<noteq> 0"
    "write_data P (s_mem s) p (string_bytes path) = (Inr (), k)"
    using assms(1) unfolding set_sysarg_path_def set_sysarg_data_def len
    by (auto split: prod.splits sum.splits if_split_asm)
  note a = alloc_mem_some[OF p(1,2)]
  have "room bytes s (length path + 1)"
    using a write_data_mapped[OF p(3)] small unfolding room_def peek_def len by simp
  from set_then_get_path[OF this assms(2-4)] assms(1) show ?thesis by auto
qed

text \<open>
  The translation of an argument: what the kernel then reads is the translation of what the tracee
  wrote.
\<close>

lemma translate_sysarg_translates:
  assumes "get_sysarg_path P reg s = Inr user" and "user \<noteq> []"
    and "translate_path E (s_tracee s) (s_world s) AT_FDCWD user (type \<noteq> SYMLINK) = (Inr q, t, w)"
    and "room bytes s (length q + 1)" and "argument reg" and "NUL \<notin> set q" and "length q + 1 < PATH_MAX"
  shows "\<exists>s'. translate_sysarg P E reg type s = (Inr (), s') \<and> get_sysarg_path P reg s' = Inr q
    \<and> s_tracee s' = t \<and> s_world s' = w
    \<and> (\<forall>r. REG_offset (s_regs s) r \<noteq> REG_offset (s_regs s) reg \<longrightarrow>
          REG_offset (s_regs s) r \<noteq> REG_offset (s_regs s) STACK_POINTER \<longrightarrow> peek s' r = peek s r)"
proof -
  let ?s = "s\<lparr>s_tracee := t, s_world := w\<rparr>"
  have "room bytes ?s (length q + 1)" using assms(4) by (simp add: room_def peek_def)
  from set_then_get_path[OF this assms(5-7)] obtain s' where s':
    "set_sysarg_path P q reg ?s = (Inr (), s')" "get_sysarg_path P reg s' = Inr q"
    "s' = ?s\<lparr>s_regs := s_regs s', s_mem := s_mem s'\<rparr>"
    "\<forall>r. REG_offset (s_regs s) r \<noteq> REG_offset (s_regs s) reg \<longrightarrow>
          REG_offset (s_regs s) r \<noteq> REG_offset (s_regs s) STACK_POINTER \<longrightarrow> peek s' r = peek ?s r"
    by auto
  have "s_tracee s' = t" "s_world s' = w" by (subst s'(3); simp)+
  moreover have "peek ?s = peek s" by (simp add: peek_def fun_eq_iff)
  ultimately show ?thesis
    using s'(1,2,4) assms(2) by (simp add: translate_sysarg_def assms(1) translate_path2_def assms(3))
qed

end

end
