(* ===== verification/Netlink.thy ===== *)
theory Netlink
  imports Sysargs
begin

section \<open>Emulated netlink sockets\<close>

text \<open>
  The part of syscall/enter.c that answers requests on a NETLINK_ROUTE socket which the host
  refuses: the replies it builds in \<open>fake_netlink_reply\<close> from the interfaces of the host, and the
  descriptors it watches.  The buffer is an array of bytes and an offset.  What the host says
  (\<open>getifaddrs(3)\<close>, \<open>if_nametoindex(3)\<close>, two requests of \<open>ioctl(2)\<close>, the datagrams of a dump of
  the routing table) is a parameter, the record \<open>Host_Net\<close>.
\<close>

subsection \<open>Bytes\<close>

text \<open>
  \<open>le n w\<close> are the low bytes of a word in memory, \<open>get n off bs\<close> the field of \<open>n\<close> bytes at an offset.
  \<open>copy_to\<close> is \<open>memcpy\<close> into a buffer: a write past its end would make the list longer.
\<close>

definition le :: "nat \<Rightarrow> word_t \<Rightarrow> byte list" where
  "le n w = take n (store_word w)"

definition get :: "nat \<Rightarrow> nat \<Rightarrow> byte list \<Rightarrow> word_t" where
  "get n off bs = load_word (take n (drop off bs))"

definition copy_to :: "byte list \<Rightarrow> nat \<Rightarrow> byte list \<Rightarrow> byte list" where
  "copy_to buf off bs = take off buf @ bs @ drop (off + length bs) buf"

definition align4 :: "nat \<Rightarrow> nat" where
  "align4 n = (n + 3) div 4 * 4"

text \<open>Constants of the kernel's headers.\<close>

definition NLMSG_HDRLEN :: nat where "NLMSG_HDRLEN = 16"
definition RTM_NEWLINK :: word_t where "RTM_NEWLINK = 16"
definition RTM_GETLINK :: word_t where "RTM_GETLINK = 18"
definition RTM_NEWADDR :: word_t where "RTM_NEWADDR = 20"
definition RTM_GETADDR :: word_t where "RTM_GETADDR = 22"
definition RTM_GETROUTE :: word_t where "RTM_GETROUTE = 26"
definition NLMSG_ERROR :: word_t where "NLMSG_ERROR = 2"
definition NLMSG_DONE :: word_t where "NLMSG_DONE = 3"
definition NLM_F_MULTI :: word_t where "NLM_F_MULTI = 2"
definition NLM_F_DUMP :: word_t where "NLM_F_DUMP = 0x300"
definition IFLA_ADDRESS :: word_t where "IFLA_ADDRESS = 1"
definition IFLA_BROADCAST :: word_t where "IFLA_BROADCAST = 2"
definition IFLA_IFNAME :: word_t where "IFLA_IFNAME = 3"
definition IFLA_MTU :: word_t where "IFLA_MTU = 4"
definition IFLA_TXQLEN :: word_t where "IFLA_TXQLEN = 13"
definition IFLA_OPERSTATE :: word_t where "IFLA_OPERSTATE = 16"
definition IFA_ADDRESS :: word_t where "IFA_ADDRESS = 1"
definition IFA_LOCAL :: word_t where "IFA_LOCAL = 2"
definition IFA_LABEL :: word_t where "IFA_LABEL = 3"
definition IFA_F_PERMANENT :: word_t where "IFA_F_PERMANENT = 0x80"
definition IFF_UP :: word_t where "IFF_UP = 1"
definition IFF_LOOPBACK :: word_t where "IFF_LOOPBACK = 8"
definition IFF_RUNNING :: word_t where "IFF_RUNNING = 0x40"
definition IFF_LOWER_UP :: word_t where "IFF_LOWER_UP = 0x10000"
definition ARPHRD_ETHER :: word_t where "ARPHRD_ETHER = 1"
definition ARPHRD_LOOPBACK :: word_t where "ARPHRD_LOOPBACK = 772"
definition AF_UNSPEC :: nat where "AF_UNSPEC = 0"
definition AF_INET :: nat where "AF_INET = 2"
definition AF_INET6 :: nat where "AF_INET6 = 10"
definition AF_NETLINK :: nat where "AF_NETLINK = 16"
definition RT_SCOPE_UNIVERSE :: word_t where "RT_SCOPE_UNIVERSE = 0"
definition RT_SCOPE_LINK :: word_t where "RT_SCOPE_LINK = 253"
definition RT_SCOPE_HOST :: word_t where "RT_SCOPE_HOST = 254"
definition IFNAMSIZ :: nat where "IFNAMSIZ = 16"
definition ENODEV_value :: word_t where "ENODEV_value = 19"
definition MAX_FAKE_NETLINK_FDS :: nat where "MAX_FAKE_NETLINK_FDS = 8"
definition MAX_FAKE_NETLINK_REPLY :: nat where "MAX_FAKE_NETLINK_REPLY = 8192"

subsection \<open>The descriptors\<close>

definition is_fake_netlink_fd :: "int list \<Rightarrow> int \<Rightarrow> bool" where
  "is_fake_netlink_fd fds fd \<longleftrightarrow> 0 \<le> fd \<and> fd \<in> set fds"

text \<open>The last descriptor takes the place of the first one that is found.\<close>

definition unmark_fake_netlink_fd :: "int list \<Rightarrow> int \<Rightarrow> int list" where
  "unmark_fake_netlink_fd fds fd =
     (case find (\<lambda>i. fds ! i = fd) [0..<length fds] of
        None \<Rightarrow> fds
      | Some i \<Rightarrow> butlast (fds[i := last fds]))"

text \<open>The exit stage of \<open>socket(2)\<close> in syscall/exit.c.\<close>

definition mark_fake_netlink_fd :: "int list \<Rightarrow> int \<Rightarrow> int list" where
  "mark_fake_netlink_fd fds fd =
     (if 0 \<le> fd \<and> length fds < MAX_FAKE_NETLINK_FDS \<and> fd \<notin> set fds then fds @ [fd] else fds)"

subsection \<open>Building messages\<close>

text \<open>A builder takes and returns the buffer with its offset; \<open>maxlen\<close> is the size it is given.\<close>

definition nl_add_attr ::
  "byte list \<times> nat \<Rightarrow> nat \<Rightarrow> word_t \<Rightarrow> byte list \<Rightarrow> byte list \<times> nat" where
  "nl_add_attr s maxlen type data =
     (case s of (buf, off) \<Rightarrow>
        (let dlen = length data mod 2 ^ 16;
             space = align4 (4 + dlen)
         in if off + space > maxlen then (buf, off)
            else
              (let buf = copy_to buf off (le 2 (of_nat (4 + dlen)) @ le 2 type);
                   buf = copy_to buf (off + 4) (take dlen data);
                   buf = copy_to buf (off + (4 + dlen)) (replicate (space - (4 + dlen)) 0)
               in (buf, off + space))))"

definition put_header ::
  "byte list \<Rightarrow> nat \<Rightarrow> nat \<Rightarrow> word_t \<Rightarrow> word_t \<Rightarrow> word_t \<Rightarrow> word_t \<Rightarrow> byte list" where
  "put_header buf start len type flags seq pid =
     copy_to buf start (le 4 (of_nat len) @ le 2 type @ le 2 flags @ le 4 seq @ le 4 pid)"

definition cstring :: "string \<Rightarrow> byte list" where
  "cstring name = string_bytes (cstr name)"

definition nl_build_link ::
  "byte list \<times> nat \<Rightarrow> nat \<Rightarrow> word_t \<Rightarrow> word_t \<Rightarrow> word_t \<Rightarrow> word_t \<Rightarrow> word_t \<Rightarrow> word_t \<Rightarrow> word_t
   \<Rightarrow> string \<Rightarrow> byte list \<Rightarrow> byte list \<times> nat" where
  "nl_build_link s maxlen seq pid nlflags ifindex iftype ifflags mtu name hwaddr =
     (case s of (buf, start) \<Rightarrow>
        if start + NLMSG_HDRLEN + 16 > maxlen then (buf, start)
        else
          (let operstate = (if ifflags AND IFF_UP \<noteq> 0 then 6 else 2);
               flags = ifflags OR (if ifflags AND IFF_RUNNING \<noteq> 0 then IFF_LOWER_UP else 0);
               ifi = [0, 0] @ le 2 iftype @ le 4 ifindex @ le 4 flags @ le 4 0;
               off = start + NLMSG_HDRLEN;
               buf = copy_to buf off ifi;
               s = (buf, off + 16);
               s = nl_add_attr s maxlen IFLA_IFNAME (cstring name);
               s = nl_add_attr s maxlen IFLA_MTU (le 4 mtu);
               s = nl_add_attr s maxlen IFLA_TXQLEN (le 4 1000);
               s = nl_add_attr s maxlen IFLA_OPERSTATE (le 1 operstate);
               s = (if length hwaddr > 0 then
                      (let brd = replicate (length hwaddr) (if iftype = ARPHRD_LOOPBACK then 0 else 0xFF);
                           s = nl_add_attr s maxlen IFLA_ADDRESS hwaddr
                       in nl_add_attr s maxlen IFLA_BROADCAST brd)
                    else s)
           in case s of (buf, off) \<Rightarrow>
             (let len = off - start
              in (put_header buf start len RTM_NEWLINK nlflags seq pid, start + align4 len))))"

definition nl_build_addr ::
  "byte list \<times> nat \<Rightarrow> nat \<Rightarrow> word_t \<Rightarrow> word_t \<Rightarrow> word_t \<Rightarrow> nat \<Rightarrow> word_t \<Rightarrow> byte list
   \<Rightarrow> word_t \<Rightarrow> word_t \<Rightarrow> string option \<Rightarrow> byte list \<times> nat" where
  "nl_build_addr s maxlen seq pid nlflags family ifindex addr prefixlen scope label =
     (case s of (buf, start) \<Rightarrow>
        if start + NLMSG_HDRLEN + 8 > maxlen then (buf, start)
        else
          (let ifa = le 1 (of_nat family) @ le 1 prefixlen @ le 1 IFA_F_PERMANENT @ le 1 scope @ le 4 ifindex;
               off = start + NLMSG_HDRLEN;
               buf = copy_to buf off ifa;
               s = (buf, off + 8);
               s = nl_add_attr s maxlen IFA_ADDRESS addr;
               s = nl_add_attr s maxlen IFA_LOCAL addr;
               s = (case label of
                      Some name \<Rightarrow> if family = AF_INET then nl_add_attr s maxlen IFA_LABEL (cstring name) else s
                    | None \<Rightarrow> s)
           in case s of (buf, off) \<Rightarrow>
             (let len = off - start
              in (put_header buf start len RTM_NEWADDR nlflags seq pid, start + align4 len))))"

definition nl_build_done :: "byte list \<times> nat \<Rightarrow> nat \<Rightarrow> word_t \<Rightarrow> word_t \<Rightarrow> byte list \<times> nat" where
  "nl_build_done s maxlen seq pid =
     (case s of (buf, off) \<Rightarrow>
        (let len = NLMSG_HDRLEN + 4
         in if off + align4 len > maxlen then (buf, off)
            else
              (let buf = copy_to buf (off + NLMSG_HDRLEN) (le 4 0)
               in (put_header buf off len NLMSG_DONE NLM_F_MULTI seq pid, off + align4 len))))"

text \<open>\<open>struct nlmsgerr\<close> is the error and the header of the request, zeroed.\<close>

definition nl_build_error ::
  "byte list \<times> nat \<Rightarrow> nat \<Rightarrow> word_t \<Rightarrow> word_t \<Rightarrow> word_t \<Rightarrow> byte list \<times> nat" where
  "nl_build_error s maxlen seq pid error =
     (case s of (buf, off) \<Rightarrow>
        (let len = NLMSG_HDRLEN + 20
         in if off + align4 len > maxlen then (buf, off)
            else
              (let buf = copy_to buf (off + NLMSG_HDRLEN) (le 4 error @ replicate 16 0)
               in (put_header buf off len NLMSG_ERROR 0 seq pid, off + align4 len))))"

subsection \<open>Reading requests\<close>

text \<open>
  The walk along the attributes of a request, from the offset \<open>off\<close>; \<open>name\<close> is what the last
  IFLA_IFNAME gave.  Both readers copy at most 15 bytes and terminate them.
\<close>

function walk_attrs :: "byte list \<Rightarrow> nat \<Rightarrow> string option \<Rightarrow> string option" where
  "walk_attrs req off name =
     (if off + 4 \<le> length req then
        (let rlen = unat (get 2 off req)
         in if rlen < 4 \<or> off + rlen > length req then name
            else
              (let name = (if get 2 (off + 2) req = IFLA_IFNAME then
                             (let dlen = rlen - 4;
                                  cpy = (if dlen < IFNAMSIZ then dlen else IFNAMSIZ - 1)
                              in Some (string_of (take cpy (drop (off + 4) req) @ [0])))
                           else name)
               in walk_attrs req (off + align4 rlen) name))
      else name)"
  by pat_completeness auto

termination walk_attrs
proof (relation "measure (\<lambda>(req, off, name). length req - off)")
  fix req :: "byte list" and off rlen
  assume "off + 4 \<le> length req" "rlen = unat (get 2 off req)" "\<not> (rlen < 4 \<or> off + rlen > length req)"
  then have "align4 rlen > 0" "off < length req" by (auto simp: align4_def)
  then show "((req, off + align4 rlen, name), req, off, name') \<in> measure (\<lambda>(req, off, name). length req - off)"
    for name name' by simp
qed simp

declare walk_attrs.simps [simp del]

text \<open>\<open>ifi_index\<close> is a signed number at offset 4 of \<open>struct ifinfomsg\<close>.\<close>

definition ifi_index :: "byte list \<Rightarrow> int" where
  "ifi_index req = int_of_word (get 4 (NLMSG_HDRLEN + 4) req)"

definition nl_request_is_loopback :: "byte list \<Rightarrow> bool" where
  "nl_request_is_loopback req =
     (if length req < NLMSG_HDRLEN + 16 then True
      else
        (case walk_attrs req (NLMSG_HDRLEN + 16) None of
           Some name \<Rightarrow> name = ''lo''
         | None \<Rightarrow> ifi_index req = 0 \<or> ifi_index req = 1))"

definition nl_request_link_target :: "byte list \<Rightarrow> int \<times> string" where
  "nl_request_link_target req =
     (if length req < NLMSG_HDRLEN + 16 then (0, [])
      else
        (ifi_index req,
         case walk_attrs req (NLMSG_HDRLEN + 16) None of Some name \<Rightarrow> name | None \<Rightarrow> []))"

subsection \<open>Addresses\<close>

text \<open>The inner loop of \<open>nl_prefixlen\<close> shifts the set bits of a byte out at its top.\<close>

lemma card_shift_out:
  assumes "bit (b :: byte) 7"
  shows "card {i. bit (push_bit 1 b) i} < card {i. bit b i}"
proof -
  have fin: "finite {i. bit b i}"
    by (rule finite_subset[of _ "{..<8}"]) (use bit_imp_le_length[of b] in auto)
  have "{i. bit (push_bit 1 b) i} \<subseteq> Suc ` ({i. bit b i} - {7})"
  proof
    fix i assume "i \<in> {i. bit (push_bit 1 b) i}"
    then have i: "bit (push_bit 1 b) i" by simp
    then have "1 \<le> i" "bit b (i - 1)" "i < 8"
      using bit_imp_le_length[OF i] unfolding bit_push_bit_iff by simp_all
    then show "i \<in> Suc ` ({i. bit b i} - {7})" by (intro image_eqI[of _ _ "i - 1"]) auto
  qed
  then have "card {i. bit (push_bit 1 b) i} \<le> card (Suc ` ({i. bit b i} - {7}))"
    using fin by (intro card_mono) auto
  also have "\<dots> = card ({i. bit b i} - {7})" by (simp add: card_image)
  also have "\<dots> < card {i. bit b i}" using fin assms by (intro card_Diff1_less) auto
  finally show ?thesis .
qed

function count_high_bits :: "byte \<Rightarrow> nat" where
  "count_high_bits b = (if b AND 0x80 \<noteq> 0 then Suc (count_high_bits (push_bit 1 b)) else 0)"
  by pat_completeness auto

lemma top_bit: "b AND 0x80 \<noteq> 0 \<longleftrightarrow> bit (b :: byte) 7"
proof -
  have one: "bit (0x80 :: byte) i \<longleftrightarrow> i = 7" for i
  proof -
    have "bit (push_bit 7 (1 :: byte)) i \<longleftrightarrow> i = 7"
      unfolding bit_push_bit_iff bit_1_iff by auto
    then show ?thesis by simp
  qed
  show ?thesis
  proof
    assume "b AND 0x80 \<noteq> 0"
    then obtain i where "bit (b AND 0x80) i" by (metis bit_eq_iff bit_0_eq bot_apply bot_bool_def)
    then show "bit b 7" unfolding bit_and_iff one by blast
  next
    assume "bit b 7"
    then have "bit (b AND 0x80) 7" unfolding bit_and_iff one by simp
    then show "b AND 0x80 \<noteq> 0" by (metis bit_0_eq bot_apply bot_bool_def)
  qed
qed

termination count_high_bits
  by (relation "measure (\<lambda>b. card {i. bit b i})") (simp_all only: wf_measure in_measure top_bit card_shift_out)

declare count_high_bits.simps [simp del]

fun nl_prefixlen :: "byte list \<Rightarrow> nat" where
  "nl_prefixlen [] = 0"
| "nl_prefixlen (b # bs) = (if b = 0xFF then 8 + nl_prefixlen bs else count_high_bits b)"

definition nl_addr_scope :: "nat \<Rightarrow> byte list \<Rightarrow> word_t" where
  "nl_addr_scope family addr =
     (if family = AF_INET then
        (if addr ! 0 = 127 then RT_SCOPE_HOST
         else if addr ! 0 = 169 \<and> addr ! 1 = 254 then RT_SCOPE_LINK
         else RT_SCOPE_UNIVERSE)
      else if addr = replicate 15 0 @ [1] then RT_SCOPE_HOST
      else if addr ! 0 = 0xFE \<and> addr ! 1 AND 0xC0 = 0x80 then RT_SCOPE_LINK
      else RT_SCOPE_UNIVERSE)"

definition nl_build_loopback_link ::
  "byte list \<times> nat \<Rightarrow> nat \<Rightarrow> word_t \<Rightarrow> word_t \<Rightarrow> word_t \<Rightarrow> byte list \<times> nat" where
  "nl_build_loopback_link s maxlen seq pid nlflags =
     nl_build_link s maxlen seq pid nlflags 1 ARPHRD_LOOPBACK (IFF_UP OR IFF_LOOPBACK OR IFF_RUNNING)
       65536 ''lo'' (replicate 6 0)"

definition nl_build_loopback_addr ::
  "byte list \<times> nat \<Rightarrow> nat \<Rightarrow> word_t \<Rightarrow> word_t \<Rightarrow> nat \<Rightarrow> word_t \<Rightarrow> byte list \<times> nat" where
  "nl_build_loopback_addr s maxlen seq pid family nlflags =
     (if family = AF_INET6 then
        nl_build_addr s maxlen seq pid nlflags AF_INET6 1 (replicate 15 0 @ [1]) 128 RT_SCOPE_HOST None
      else
        nl_build_addr s maxlen seq pid nlflags AF_INET 1 [127, 0, 0, 1] 8 RT_SCOPE_HOST (Some ''lo''))"

subsection \<open>The interfaces of the host\<close>

text \<open>
  An entry of \<open>getifaddrs(3)\<close>; the address of an AF_PACKET entry is its index, hardware type and
  hardware address, its netmask is given by the bytes of the address in it.
\<close>

datatype Sockaddr =
    Sa_Inet "byte list" | Sa_Inet6 "byte list" | Sa_Packet word_t word_t "byte list" | Sa_Other nat

record Ifaddr =
  ifa_name :: "string option"
  ifa_flags :: word_t
  ifa_addr :: "Sockaddr option"
  ifa_netmask :: "byte list option"

record Host_Net =
  hn_getifaddrs :: "Ifaddr list option"
  hn_nametoindex :: "string \<Rightarrow> word_t"
  hn_inet_socket :: bool
  hn_mtu :: "string \<Rightarrow> word_t option"
  hn_hwaddr :: "string \<Rightarrow> (word_t \<times> byte list) option"
  hn_route_dump :: "word_t \<Rightarrow> word_t \<Rightarrow> byte list list option"

text \<open>Index, type, MTU and hardware address of an interface.\<close>

definition link_details :: "Host_Net \<Rightarrow> string \<Rightarrow> Ifaddr \<Rightarrow> word_t \<times> word_t \<times> word_t \<times> byte list" where
  "link_details H name ifa =
     (let loopback = (ifa_flags ifa AND IFF_LOOPBACK \<noteq> 0);
          iftype = (if loopback then ARPHRD_LOOPBACK else ARPHRD_ETHER);
          mtu = (if loopback then 65536 else 1500);
          ifindex = hn_nametoindex H name;
          (ifindex, iftype, hwaddr) =
            (case ifa_addr ifa of
               Some (Sa_Packet sll_ifindex sll_hatype sll_addr) \<Rightarrow>
                 (if sll_ifindex \<noteq> 0 then sll_ifindex else ifindex, sll_hatype,
                  if length sll_addr \<le> 8 then sll_addr else [])
             | _ \<Rightarrow> (ifindex, iftype, []));
          short = take (IFNAMSIZ - 1) name;
          mtu = (if hn_inet_socket H then (case hn_mtu H short of Some m \<Rightarrow> m | None \<Rightarrow> mtu) else mtu);
          (iftype, hwaddr) =
            (if hn_inet_socket H \<and> hwaddr = [] then
               (case hn_hwaddr H short of Some (t, a) \<Rightarrow> (t, take 6 a) | None \<Rightarrow> (iftype, hwaddr))
             else (iftype, hwaddr))
      in (ifindex, iftype, mtu, hwaddr))"

text \<open>The loop of \<open>build_host_links\<close>, over the entries that are left.\<close>

fun host_links ::
  "Host_Net \<Rightarrow> nat \<Rightarrow> word_t \<Rightarrow> word_t \<Rightarrow> string option \<Rightarrow> int \<Rightarrow> bool \<Rightarrow> Ifaddr list \<Rightarrow> string list
   \<Rightarrow> byte list \<times> nat \<Rightarrow> nat \<Rightarrow> (byte list \<times> nat) \<times> nat" where
  "host_links H maxlen seq pid want_name want_index dump [] seen s built = (s, built)"
| "host_links H maxlen seq pid want_name want_index dump (ifa # ifas) seen s built =
     (case ifa_name ifa of
        None \<Rightarrow> host_links H maxlen seq pid want_name want_index dump ifas seen s built
      | Some name \<Rightarrow>
          (if take IFNAMSIZ name \<in> set seen then
             host_links H maxlen seq pid want_name want_index dump ifas seen s built
           else
             (let seen = (if length seen < 64 then seen @ [take (IFNAMSIZ - 1) name] else seen);
                  (ifindex, iftype, mtu, hwaddr) = link_details H name ifa;
                  named = (case want_name of Some n \<Rightarrow> n \<noteq> [] | None \<Rightarrow> False)
              in if \<not> dump \<and> (if named then want_name \<noteq> Some name
                              else want_index > 0 \<and> int_of_word ifindex \<noteq> want_index)
                 then host_links H maxlen seq pid want_name want_index dump ifas seen s built
                 else if snd s + 256 > maxlen then (s, built)
                 else
                   (let s = nl_build_link s maxlen seq pid (if dump then NLM_F_MULTI else 0) ifindex iftype
                              (ifa_flags ifa) mtu name hwaddr
                    in if dump
                       then host_links H maxlen seq pid want_name want_index dump ifas seen s (built + 1)
                       else (s, built + 1)))))"

definition build_host_links ::
  "Host_Net \<Rightarrow> byte list \<Rightarrow> nat \<Rightarrow> word_t \<Rightarrow> word_t \<Rightarrow> string option \<Rightarrow> int \<Rightarrow> bool
   \<Rightarrow> (byte list \<times> nat) \<times> nat" where
  "build_host_links H out maxlen seq pid want_name want_index dump =
     (case hn_getifaddrs H of
        None \<Rightarrow> ((out, 0), 0)
      | Some ifas \<Rightarrow> host_links H maxlen seq pid want_name want_index dump ifas [] (out, 0) 0)"

text \<open>The loop of \<open>build_host_addrs\<close>.\<close>

fun host_addrs ::
  "Host_Net \<Rightarrow> nat \<Rightarrow> word_t \<Rightarrow> word_t \<Rightarrow> nat \<Rightarrow> bool \<Rightarrow> Ifaddr list \<Rightarrow> byte list \<times> nat \<Rightarrow> nat
   \<Rightarrow> (byte list \<times> nat) \<times> nat" where
  "host_addrs H maxlen seq pid want_family dump [] s built = (s, built)"
| "host_addrs H maxlen seq pid want_family dump (ifa # ifas) s built =
     (case (case (ifa_name ifa, ifa_addr ifa) of
              (Some name, Some (Sa_Inet addr)) \<Rightarrow> Some (name, AF_INET, addr, 32)
            | (Some name, Some (Sa_Inet6 addr)) \<Rightarrow> Some (name, AF_INET6, addr, 128)
            | _ \<Rightarrow> None) of
        None \<Rightarrow> host_addrs H maxlen seq pid want_family dump ifas s built
      | Some (name, family, addr, full) \<Rightarrow>
          (if want_family \<noteq> AF_UNSPEC \<and> family \<noteq> want_family then
             host_addrs H maxlen seq pid want_family dump ifas s built
           else
             (let prefixlen = (case ifa_netmask ifa of Some bytes \<Rightarrow> nl_prefixlen bytes | None \<Rightarrow> full);
                  scope = nl_addr_scope family addr;
                  ifindex = hn_nametoindex H name
              in if snd s + 256 > maxlen then (s, built)
                 else host_addrs H maxlen seq pid want_family dump ifas
                        (nl_build_addr s maxlen seq pid (if dump then NLM_F_MULTI else 0) family ifindex
                          addr (of_nat prefixlen) scope (Some name))
                        (built + 1))))"

definition build_host_addrs ::
  "Host_Net \<Rightarrow> byte list \<Rightarrow> nat \<Rightarrow> word_t \<Rightarrow> word_t \<Rightarrow> nat \<Rightarrow> bool \<Rightarrow> (byte list \<times> nat) \<times> nat" where
  "build_host_addrs H out maxlen seq pid want_family dump =
     (case hn_getifaddrs H of
        None \<Rightarrow> ((out, 0), 0)
      | Some ifas \<Rightarrow> host_addrs H maxlen seq pid want_family dump ifas (out, 0) 0)"

subsection \<open>The routing table\<close>

text \<open>
  The walk along the messages of one datagram: the state, whether to stop and whether the end
  mark was copied.  The remaining length is unsigned: a last message whose aligned length exceeds
  it would make it wrap around, and the walk leave the datagram.
\<close>

function relay_datagram ::
  "nat \<Rightarrow> word_t \<Rightarrow> word_t \<Rightarrow> byte list \<Rightarrow> byte list \<times> nat \<Rightarrow> ((byte list \<times> nat) \<times> bool \<times> bool) res" where
  "relay_datagram maxlen seq pid data s =
     (let mlen = unat (get 4 0 data); aligned = align4 mlen
      in if \<not> (length data \<ge> 16 \<and> mlen \<ge> 16 \<and> mlen \<le> length data) then Inr (s, False, False)
         else if snd s + aligned + 64 > maxlen then Inr (s, True, False)
         else
           (let h = copy_to data 8 (le 4 seq @ le 4 pid);
                buf = copy_to (fst s) (snd s) (take mlen h);
                buf = copy_to buf (snd s + mlen) (replicate (aligned - mlen) 0);
                s = (buf, snd s + aligned)
            in if get 2 4 data = NLMSG_DONE then Inr (s, True, True)
               else if aligned > length data then Inl Undefined
               else relay_datagram maxlen seq pid (drop aligned data) s))"
  by pat_completeness auto

termination relay_datagram
  by (relation "measure (\<lambda>(maxlen, seq, pid, data, s). length data)") (auto simp: align4_def)

declare relay_datagram.simps [simp del]

fun relay_rounds ::
  "nat \<Rightarrow> word_t \<Rightarrow> word_t \<Rightarrow> nat \<Rightarrow> byte list list \<Rightarrow> byte list \<times> nat \<Rightarrow> ((byte list \<times> nat) \<times> bool) res" where
  "relay_rounds maxlen seq pid 0 ds s = Inr (s, False)"
| "relay_rounds maxlen seq pid (Suc rounds) [] s = Inr (s, False)"
| "relay_rounds maxlen seq pid (Suc rounds) (d # ds) s =
     (if d = [] then Inr (s, False)
      else
        (case relay_datagram maxlen seq pid (take 8192 d) s of
           Inl e \<Rightarrow> Inl e
         | Inr (s, stop, saw_done) \<Rightarrow>
             (if stop then Inr (s, saw_done) else relay_rounds maxlen seq pid rounds ds s)))"

definition relay_route_dump ::
  "Host_Net \<Rightarrow> byte list \<Rightarrow> byte list \<Rightarrow> nat \<Rightarrow> word_t \<Rightarrow> word_t \<Rightarrow> (byte list \<times> nat) res" where
  "relay_route_dump H req out maxlen seq pid =
     (let family = (if length req > NLMSG_HDRLEN then get 1 NLMSG_HDRLEN req else 0)
      in case hn_route_dump H seq family of
           None \<Rightarrow> Inr (out, 0)
         | Some ds \<Rightarrow>
             (case relay_rounds maxlen seq pid 64 ds (out, 0) of
                Inl e \<Rightarrow> Inl e
              | Inr (s, saw_done) \<Rightarrow>
                  Inr (if snd s = 0 then (fst s, 0)
                       else if saw_done then s else nl_build_done s maxlen seq pid)))"

subsection \<open>The reply\<close>

text \<open>\<open>netlink_reply\<close> is the switch of \<open>build_fake_netlink_reply\<close>, on the request that was read.\<close>

definition reply_links ::
  "Host_Net \<Rightarrow> byte list \<Rightarrow> byte list \<Rightarrow> nat \<Rightarrow> word_t \<Rightarrow> word_t \<Rightarrow> bool \<Rightarrow> byte list \<times> nat" where
  "reply_links H req out maxlen seq pid dump =
     (case nl_request_link_target req of
        (want_index, want_name) \<Rightarrow>
          (case build_host_links H out maxlen seq pid (if dump then None else Some want_name)
                  (if dump then 0 else want_index) dump of
             (s, n) \<Rightarrow>
               (let s = (if n = 0 then
                           (let s = (fst s, 0)
                            in if dump then nl_build_loopback_link s maxlen seq pid NLM_F_MULTI
                               else if nl_request_is_loopback req then nl_build_loopback_link s maxlen seq pid 0
                               else nl_build_error s maxlen seq pid (- ENODEV_value))
                         else s)
                in if dump then nl_build_done s maxlen seq pid else s)))"

definition reply_addrs ::
  "Host_Net \<Rightarrow> byte list \<Rightarrow> byte list \<Rightarrow> nat \<Rightarrow> word_t \<Rightarrow> word_t \<Rightarrow> bool \<Rightarrow> byte list \<times> nat" where
  "reply_addrs H req out maxlen seq pid dump =
     (let family = (if length req > NLMSG_HDRLEN then unat (get 1 NLMSG_HDRLEN req) else 0);
          want_family = (if family = AF_INET \<or> family = AF_INET6 then family else AF_UNSPEC);
          nlflags = (if dump then NLM_F_MULTI else 0)
      in case build_host_addrs H out maxlen seq pid want_family dump of
           (s, n) \<Rightarrow>
             (let s = (if n = 0 then
                         (let s = (fst s, 0);
                              s = (if family = 0 \<or> family = AF_INET
                                   then nl_build_loopback_addr s maxlen seq pid AF_INET nlflags else s)
                          in if family = 0 \<or> family = AF_INET6
                             then nl_build_loopback_addr s maxlen seq pid AF_INET6 nlflags else s)
                       else s)
              in if dump then nl_build_done s maxlen seq pid else s))"

definition netlink_reply ::
  "Host_Net \<Rightarrow> byte list \<Rightarrow> byte list \<Rightarrow> nat \<Rightarrow> word_t \<Rightarrow> (byte list \<times> nat) res" where
  "netlink_reply H req out maxlen pid =
     (let type = get 2 4 req; flags = get 2 6 req; seq = get 4 8 req;
          dump = (flags AND NLM_F_DUMP = NLM_F_DUMP)
      in if type = RTM_GETLINK then Inr (reply_links H req out maxlen seq pid dump)
         else if type = RTM_GETADDR then Inr (reply_addrs H req out maxlen seq pid dump)
         else if type = RTM_GETROUTE \<and> dump then
           (case relay_route_dump H req out maxlen seq pid of
              Inl e \<Rightarrow> Inl e
            | Inr s \<Rightarrow> Inr (if snd s = 0 then nl_build_done (fst s, 0) maxlen seq pid else s))
         else if dump then Inr (nl_build_done (out, 0) maxlen seq pid)
         else Inr (nl_build_error (out, 0) maxlen seq pid 0))"

end
