(* ===== verification/Netlink_Props.thy ===== *)
theory Netlink_Props
  imports Netlink
begin

section \<open>Well-formed netlink replies\<close>

text \<open>
  Every builder appends to the buffer, within its size; what a reader of netlink messages then
  finds in the reply is a sequence of messages with the numbers the request asked for, closed by
  the end mark where it was a dump.
\<close>

subsection \<open>Appending\<close>

definition appended :: "byte list \<times> nat \<Rightarrow> byte list \<Rightarrow> byte list \<times> nat \<Rightarrow> bool" where
  "appended s bs t \<longleftrightarrow> snd t = snd s + length bs \<and> snd t \<le> length (fst t)
     \<and> length (fst t) = length (fst s) \<and> take (snd t) (fst t) = take (snd s) (fst s) @ bs"

lemma length_copy_to: "off + length bs \<le> length buf \<Longrightarrow> length (copy_to buf off bs) = length buf"
  by (simp add: copy_to_def)

lemma copy_to_appended:
  "off + length bs \<le> length buf \<Longrightarrow> appended (buf, off) bs (copy_to buf off bs, off + length bs)"
  by (simp add: appended_def copy_to_def)

lemma appended_trans: "appended s as t \<Longrightarrow> appended t bs u \<Longrightarrow> appended s (as @ bs) u"
  by (auto simp: appended_def)

lemma appended_refl: "snd s \<le> length (fst s) \<Longrightarrow> appended s [] s"
  by (simp add: appended_def)

lemma appended_fits: "appended s bs t \<Longrightarrow> snd t \<le> length (fst t) \<and> length (fst t) = length (fst s)"
  by (simp add: appended_def)

lemma length_le [simp]: "n \<le> 8 \<Longrightarrow> length (le n w) = n"
  by (simp add: le_def)

lemma align4_ge: "n \<le> align4 n" "align4 n < n + 4" "4 dvd align4 n"
  by (auto simp: align4_def)

lemma align4_dvd: "4 dvd n \<Longrightarrow> align4 n = n"
  by (auto simp: align4_def dvd_def)

text \<open>One attribute, in full or not at all.\<close>

definition attr :: "word_t \<Rightarrow> byte list \<Rightarrow> byte list" where
  "attr type data = le 2 (of_nat (4 + length data)) @ le 2 type @ data
     @ replicate (align4 (4 + length data) - (4 + length data)) 0"

lemma length_attr: "length (attr type data) = align4 (4 + length data)"
  using align4_ge(1)[of "4 + length data"] by (simp add: attr_def)

lemma nl_add_attr_appended:
  assumes "length data < 2 ^ 16" and "maxlen \<le> length (fst s)" and "snd s \<le> length (fst s)"
  shows "appended s (if snd s + align4 (4 + length data) \<le> maxlen then attr type data else [])
    (nl_add_attr s maxlen type data)"
proof (cases "snd s + align4 (4 + length data) \<le> maxlen")
  case False
  then show ?thesis using assms by (cases s) (simp add: nl_add_attr_def appended_def)
next
  case True
  obtain buf off where s: "s = (buf, off)" by force
  let ?n = "4 + length data" let ?pad = "replicate (align4 ?n - ?n) (0 :: byte)"
  let ?b1 = "copy_to buf off (le 2 (of_nat ?n) @ le 2 type)"
  let ?b2 = "copy_to ?b1 (off + 4) data"
  have le: "?n \<le> align4 ?n" by (rule align4_ge)
  have fits: "off + align4 ?n \<le> length buf" using True assms(2) s by simp
  have 1: "appended (buf, off) (le 2 (of_nat ?n) @ le 2 type) (?b1, off + 4)"
    using copy_to_appended[of off "le 2 (of_nat ?n) @ le 2 type" buf] fits le by simp
  have 2: "appended (?b1, off + 4) data (?b2, off + ?n)"
    using copy_to_appended[of "off + 4" data ?b1] appended_fits[OF 1] fits le by (simp add: add.assoc)
  have 3: "appended (?b2, off + ?n) ?pad (copy_to ?b2 (off + ?n) ?pad, off + align4 ?n)"
    using copy_to_appended[of "off + ?n" ?pad ?b2] appended_fits[OF 1] appended_fits[OF 2] fits le by simp
  have "appended (buf, off) (attr type data) (copy_to ?b2 (off + ?n) ?pad, off + align4 ?n)"
    using appended_trans[OF appended_trans[OF 1 2] 3] by (simp add: attr_def)
  moreover have "nl_add_attr s maxlen type data = (copy_to ?b2 (off + ?n) ?pad, off + align4 ?n)"
    using True assms(1) by (simp add: s nl_add_attr_def Let_def)
  ultimately show ?thesis using True by (simp add: s)
qed

text \<open>What several builders append: at most \<open>n\<close> bytes, a multiple of four.\<close>

definition grows :: "byte list \<times> nat \<Rightarrow> nat \<Rightarrow> byte list \<times> nat \<Rightarrow> bool" where
  "grows s n t \<longleftrightarrow> (\<exists>bs. appended s bs t \<and> length bs \<le> n \<and> 4 dvd length bs)"

lemma grows_attr:
  assumes "grows s n t" and "length data < 2 ^ 16" and "maxlen \<le> length (fst s)"
  shows "grows s (n + align4 (4 + length data)) (nl_add_attr t maxlen type data)"
proof -
  obtain as where as: "appended s as t" "length as \<le> n" "4 dvd length as"
    using assms(1) by (auto simp: grows_def)
  then have "maxlen \<le> length (fst t)" "snd t \<le> length (fst t)"
    using assms(3) by (auto simp: appended_def)
  note bs = appended_trans[OF as(1) nl_add_attr_appended[OF assms(2) this, of type]]
  moreover have "4 dvd length (attr type data)" by (simp add: length_attr align4_ge)
  moreover note length_attr[of type data]
  ultimately show ?thesis
    unfolding grows_def using as(2,3) by (intro exI conjI) (assumption, auto)
qed

lemma grows_refl: "snd s \<le> length (fst s) \<Longrightarrow> grows s n s"
  unfolding grows_def by (intro exI[of _ "[]"]) (simp add: appended_refl)

lemma grows_mono: "grows s n t \<Longrightarrow> n \<le> n' \<Longrightarrow> grows s n' t"
  by (auto simp: grows_def)

subsection \<open>Messages\<close>

definition msg :: "word_t \<Rightarrow> word_t \<Rightarrow> word_t \<Rightarrow> word_t \<Rightarrow> byte list \<Rightarrow> byte list" where
  "msg type flags seq pid body =
     le 4 (of_nat (16 + length body)) @ le 2 type @ le 2 flags @ le 4 seq @ le 4 pid @ body"

lemma length_msg [simp]: "length (msg type flags seq pid body) = 16 + length body"
  by (simp add: msg_def)

text \<open>The header is written over the 16 bytes that were left for it.\<close>

lemma put_header_appended:
  assumes "appended (buf, start + 16) body (buf', off)" and "start + 16 \<le> length buf"
  shows "appended (buf, start) (msg type flags seq pid body)
    (put_header buf' start (off - start) type flags seq pid, off)"
proof -
  let ?h = "le 4 (of_nat (off - start)) @ le 2 type @ le 2 flags @ le 4 seq @ le 4 pid"
  have off: "off = start + 16 + length body" "off \<le> length buf'" "length buf' = length buf"
    "take off buf' = take (start + 16) buf @ body"
    using assms(1) by (auto simp: appended_def)
  have h: "length ?h = 16" by simp
  have "take off (copy_to buf' start ?h) = take start buf' @ ?h @ take (length body) (drop (start + 16) buf')"
    using off(1,2) by (simp add: copy_to_def)
  moreover have "take start buf' = take start buf"
    using arg_cong[OF off(4), of "take start"] off(1) assms(2) by (simp add: min_def)
  moreover have "take (length body) (drop (start + 16) buf') = body"
    using arg_cong[OF off(4), of "drop (start + 16)"] off(1) assms(2) by (simp add: drop_take)
  moreover have "length (copy_to buf' start ?h) = length buf'" using off(1,2) by (simp add: length_copy_to)
  ultimately show ?thesis
    using off(1,2,3) by (simp add: appended_def put_header_def msg_def)
qed

text \<open>A message is appended, or nothing where there is no room.\<close>

definition emits :: "byte list \<times> nat \<Rightarrow> word_t \<Rightarrow> word_t \<Rightarrow> word_t \<Rightarrow> word_t \<Rightarrow> nat \<Rightarrow> byte list \<times> nat \<Rightarrow> bool" where
  "emits s type flags seq pid n t \<longleftrightarrow>
     (\<exists>body. appended s (msg type flags seq pid body) t \<and> length body \<le> n \<and> 4 dvd length body)"

lemma emits_grows:
  assumes "grows (buf, start + 16) n (buf', off)" and "start + 16 \<le> length buf"
  shows "emits (buf, start) type flags seq pid n
    (put_header buf' start (off - start) type flags seq pid, start + align4 (off - start))"
proof -
  obtain body where body: "appended (buf, start + 16) body (buf', off)" "length body \<le> n" "4 dvd length body"
    using assms(1) by (auto simp: grows_def)
  then have "off = start + (16 + length body)" by (simp add: appended_def)
  moreover have "4 dvd (16 + length body)" using body(3) by simp
  ultimately have "start + align4 (off - start) = off" by (simp add: align4_dvd)
  then show ?thesis
    unfolding emits_def
    by (intro exI[of _ body] conjI) (simp_all add: put_header_appended[OF body(1) assms(2)] body(2,3))
qed

lemma length_cstring: "length (cstring name) \<le> length name + 1"
  by (simp add: cstring_def string_bytes_def cstr_def length_takeWhile_le)

lemma align4_mono: "m \<le> n \<Longrightarrow> align4 m \<le> align4 n"
  by (simp add: align4_def div_le_mono)

lemma nl_build_link_emits:
  assumes "start + 32 \<le> maxlen" and "maxlen \<le> length buf" and "length name < 16" and "length hwaddr \<le> 8"
  shows "emits (buf, start) RTM_NEWLINK nlflags seq pid 84
    (nl_build_link (buf, start) maxlen seq pid nlflags ifindex iftype ifflags mtu name hwaddr)"
proof -
  define ifi where "ifi = [0, 0] @ le 2 iftype @ le 4 ifindex
      @ le 4 (ifflags OR (if ifflags AND IFF_RUNNING \<noteq> 0 then IFF_LOWER_UP else 0)) @ le 4 0"
  have ifi: "length ifi = 16" by (simp add: ifi_def)
  let ?s = "(buf, start + 16)"
  have max: "maxlen \<le> length (fst ?s)" using assms(2) by simp
  have "grows ?s 16 (copy_to buf (start + 16) ifi, start + 32)"
    unfolding grows_def using copy_to_appended[of "start + 16" ifi buf] assms(1,2)
    by (intro exI[of _ ifi]) (simp add: ifi add.assoc add.commute)
  note g1 = grows_attr[OF this _ max, of "cstring name" IFLA_IFNAME]
  have name: "length (cstring name) < 2 ^ 16" "align4 (4 + length (cstring name)) \<le> 20"
    using length_cstring[of name] assms(3) align4_mono[of "4 + length (cstring name)" 20]
    by (simp_all add: align4_def[of 20])
  note g2 = grows_attr[OF g1[OF name(1)] _ max, of "le 4 mtu" IFLA_MTU]
  note g3 = grows_attr[OF g2 _ max, of "le 4 1000" IFLA_TXQLEN]
  note g4 = grows_attr[OF g3 _ max, of "le 1 (if ifflags AND IFF_UP \<noteq> 0 then 6 else 2)" IFLA_OPERSTATE]
  define s4 where "s4 = nl_add_attr (nl_add_attr (nl_add_attr (nl_add_attr
      (copy_to buf (start + 16) ifi, start + 32) maxlen IFLA_IFNAME (cstring name)) maxlen IFLA_MTU (le 4 mtu))
      maxlen IFLA_TXQLEN (le 4 1000)) maxlen IFLA_OPERSTATE (le 1 (if ifflags AND IFF_UP \<noteq> 0 then 6 else 2))"
  have s4: "grows ?s 60 s4"
    unfolding s4_def by (rule grows_mono[OF g4]) (use name(2) in \<open>simp_all add: align4_def[of 8] align4_def[of 5]\<close>)
  define brd where "brd = replicate (length hwaddr) (if iftype = ARPHRD_LOOPBACK then 0 else 0xFF :: byte)"
  have hw: "length hwaddr < 2 ^ 16" "length brd < 2 ^ 16" "align4 (4 + length hwaddr) \<le> 12" "length brd = length hwaddr"
    using assms(4) align4_mono[of "4 + length hwaddr" 12] by (simp_all add: brd_def align4_def[of 12])
  define s6 where "s6 = (if length hwaddr > 0
      then nl_add_attr (nl_add_attr s4 maxlen IFLA_ADDRESS hwaddr) maxlen IFLA_BROADCAST brd else s4)"
  have "grows ?s 84 s6"
  proof (cases "length hwaddr > 0")
    case True
    note g6 = grows_attr[OF grows_attr[OF s4 hw(1) max, of IFLA_ADDRESS] hw(2) max, of IFLA_BROADCAST]
    show ?thesis
      unfolding s6_def using True hw(3,4) grows_mono[OF g6, of 84] by simp
  next
    case False
    then show ?thesis unfolding s6_def using grows_mono[OF s4] by simp
  qed
  then have "emits (buf, start) RTM_NEWLINK nlflags seq pid 84
      (put_header (fst s6) start (snd s6 - start) RTM_NEWLINK nlflags seq pid, start + align4 (snd s6 - start))"
    using assms(1,2) by (intro emits_grows) simp_all
  moreover have "nl_build_link (buf, start) maxlen seq pid nlflags ifindex iftype ifflags mtu name hwaddr =
      (put_header (fst s6) start (snd s6 - start) RTM_NEWLINK nlflags seq pid, start + align4 (snd s6 - start))"
  proof -
    have "\<not> start + NLMSG_HDRLEN + 16 > maxlen" using assms(1) by (simp add: NLMSG_HDRLEN_def)
    moreover have "start + NLMSG_HDRLEN = start + 16" "start + 16 + 16 = start + 32" by (simp_all add: NLMSG_HDRLEN_def)
    ultimately show ?thesis
      by (simp only: nl_build_link_def prod.case if_False Let_def s6_def s4_def brd_def ifi_def)
        (simp add: case_prod_unfold)
  qed
  ultimately show ?thesis by simp
qed

lemma nl_build_addr_emits:
  assumes "start + 24 \<le> maxlen" and "maxlen \<le> length buf" and "length addr \<le> 16"
    and "\<forall>name. label = Some name \<longrightarrow> length name < 16"
  shows "emits (buf, start) RTM_NEWADDR nlflags seq pid 68
    (nl_build_addr (buf, start) maxlen seq pid nlflags family ifindex addr prefixlen scope label)"
proof -
  define ifa where "ifa = le 1 (of_nat family) @ le 1 prefixlen @ le 1 IFA_F_PERMANENT @ le 1 scope @ le 4 ifindex"
  have ifa: "length ifa = 8" by (simp add: ifa_def)
  let ?s = "(buf, start + 16)"
  have max: "maxlen \<le> length (fst ?s)" using assms(2) by simp
  have g0: "grows ?s 8 (copy_to buf (start + 16) ifa, start + 24)"
    unfolding grows_def using copy_to_appended[of "start + 16" ifa buf] assms(1,2)
    by (intro exI[of _ ifa]) (simp add: ifa add.assoc add.commute)
  have len: "length addr < 2 ^ 16" "align4 (4 + length addr) \<le> 20"
    using assms(3) align4_mono[of "4 + length addr" 20] by (simp_all add: align4_def[of 20])
  note g2 = grows_attr[OF grows_attr[OF g0 len(1) max, of IFA_ADDRESS] len(1) max, of IFA_LOCAL]
  define s2 where "s2 = nl_add_attr (nl_add_attr (copy_to buf (start + 16) ifa, start + 24) maxlen IFA_ADDRESS addr)
      maxlen IFA_LOCAL addr"
  have s2: "grows ?s 48 s2" unfolding s2_def by (rule grows_mono[OF g2]) (use len(2) in simp)
  define s3 where "s3 = (case label of
      Some name \<Rightarrow> if family = AF_INET then nl_add_attr s2 maxlen IFA_LABEL (cstring name) else s2 | None \<Rightarrow> s2)"
  have "grows ?s 68 s3"
  proof (cases "\<exists>name. label = Some name \<and> family = AF_INET")
    case True
    then obtain name where name: "label = Some name" "family = AF_INET" by blast
    then have "length (cstring name) < 2 ^ 16" "align4 (4 + length (cstring name)) \<le> 20"
      using length_cstring[of name] assms(4) align4_mono[of "4 + length (cstring name)" 20]
      by (auto simp: align4_def[of 20])
    then show ?thesis
      unfolding s3_def using grows_mono[OF grows_attr[OF s2 _ max, of "cstring name" IFA_LABEL], of 68] name by simp
  next
    case False
    then have "s3 = s2" by (auto simp: s3_def split: option.splits)
    then show ?thesis using grows_mono[OF s2] by simp
  qed
  then have "emits (buf, start) RTM_NEWADDR nlflags seq pid 68
      (put_header (fst s3) start (snd s3 - start) RTM_NEWADDR nlflags seq pid, start + align4 (snd s3 - start))"
    using assms(1,2) by (intro emits_grows) simp_all
  moreover have "nl_build_addr (buf, start) maxlen seq pid nlflags family ifindex addr prefixlen scope label =
      (put_header (fst s3) start (snd s3 - start) RTM_NEWADDR nlflags seq pid, start + align4 (snd s3 - start))"
  proof -
    have "\<not> start + NLMSG_HDRLEN + 8 > maxlen" using assms(1) by (simp add: NLMSG_HDRLEN_def)
    moreover have "start + NLMSG_HDRLEN = start + 16" "start + 16 + 8 = start + 24" by (simp_all add: NLMSG_HDRLEN_def)
    ultimately show ?thesis
      by (simp only: nl_build_addr_def prod.case if_False Let_def s3_def s2_def ifa_def)
        (simp add: case_prod_unfold)
  qed
  ultimately show ?thesis by simp
qed

lemma short_msg_emits:
  assumes "start + 16 + length body \<le> length buf" and "4 dvd length body"
  shows "emits (buf, start) type flags seq pid (length body)
    (put_header (copy_to buf (start + 16) body) start (16 + length body) type flags seq pid,
     start + align4 (16 + length body))"
proof -
  have "appended (buf, start + 16) body (copy_to buf (start + 16) body, start + 16 + length body)"
    by (rule copy_to_appended) (use assms(1) in simp)
  then have "grows (buf, start + 16) (length body) (copy_to buf (start + 16) body, start + 16 + length body)"
    using assms(2) by (auto simp: grows_def)
  from emits_grows[OF this] assms(1) show ?thesis by simp
qed

lemma nl_build_done_emits:
  assumes "start + 20 \<le> maxlen" and "maxlen \<le> length buf"
  shows "emits (buf, start) NLMSG_DONE NLM_F_MULTI seq pid 4 (nl_build_done (buf, start) maxlen seq pid)"
  using short_msg_emits[of start "le 4 0" buf NLMSG_DONE NLM_F_MULTI seq pid] assms
  by (simp add: nl_build_done_def NLMSG_HDRLEN_def Let_def align4_def)

lemma nl_build_error_emits:
  assumes "start + 36 \<le> maxlen" and "maxlen \<le> length buf"
  shows "emits (buf, start) NLMSG_ERROR 0 seq pid 20 (nl_build_error (buf, start) maxlen seq pid error)"
  using short_msg_emits[of start "le 4 error @ replicate 16 0" buf NLMSG_ERROR 0 seq pid] assms
  by (simp add: nl_build_error_def NLMSG_HDRLEN_def Let_def align4_def)

subsection \<open>Reading messages\<close>

text \<open>
  A reader of netlink messages, in the way of NLMSG_OK and NLMSG_NEXT: type, flags, sequence
  number, port and body of each; \<open>None\<close> where the bytes are no sequence of messages.
\<close>

record Message =
  msg_type :: word_t
  msg_flags :: word_t
  msg_seq :: word_t
  msg_pid :: word_t
  msg_body :: "byte list"

function messages :: "byte list \<Rightarrow> Message list option" where
  "messages bs =
     (if bs = [] then Some []
      else
        (let len = unat (get 4 0 bs)
         in if length bs < 16 \<or> len < 16 \<or> align4 len > length bs then None
            else map_option ((#) \<lparr>msg_type = get 2 4 bs, msg_flags = get 2 6 bs, msg_seq = get 4 8 bs,
                   msg_pid = get 4 12 bs, msg_body = take (len - 16) (drop 16 bs)\<rparr>)
                   (messages (drop (align4 len) bs))))"
  by pat_completeness auto

termination messages
  by (relation "measure length") (auto simp: align4_def)

declare messages.simps [simp del]

lemma messages_Nil [simp]: "messages [] = Some []"
  by (simp add: messages.simps)

lemma get_le:
  assumes "n \<le> 8"
  shows "load_word (le n w) = take_bit (8 * n) w"
proof (rule bit_word_eqI)
  fix k assume "k < LENGTH(64)"
  then have "8 * (k div 8) + k mod 8 = k" "k mod 8 < 8" "k < 8 * n \<longleftrightarrow> k div 8 < n"
    by (auto simp: less_mult_imp_div_less mult.commute div_less_iff_less_mult)
  then show "bit (load_word (le n w)) k = bit (take_bit (8 * n) w) k"
    using assms \<open>k < LENGTH(64)\<close>
    by (auto simp: bit_load_word le_def byte_at_def bit_ucast_iff bit_drop_bit_eq bit_take_bit_iff)
qed

lemma get_at:
  assumes "n \<le> 8" and "off = length as" and "bs = as @ le n w @ cs"
  shows "get n off bs = take_bit (8 * n) w"
  using assms get_le[of n w] by (simp add: get_def)

text \<open>Reading one message and going on.\<close>

lemma messages_chunk:
  assumes "c = hd4 @ rest" and "length hd4 = 4" and "unat (load_word hd4) = len" and "16 \<le> len"
    and "length c = align4 len"
  shows "messages (c @ bs) = map_option ((#) \<lparr>msg_type = get 2 4 c, msg_flags = get 2 6 c, msg_seq = get 4 8 c,
      msg_pid = get 4 12 c, msg_body = take (len - 16) (drop 16 c)\<rparr>) (messages bs)"
proof -
  have len: "16 \<le> length c" "len \<le> length c" using assms(4,5) align4_ge(1)[of len] by auto
  have pre: "get n off (c @ bs) = get n off c" if "off + n \<le> 16" for n off
    using that len(1) by (simp add: get_def)
  have "unat (get 4 0 (c @ bs)) = len"
    using assms(1-3) by (simp add: get_def)
  moreover have "c @ bs \<noteq> []" using len(1) by auto
  moreover have "take (len - 16) (drop 16 (c @ bs)) = take (len - 16) (drop 16 c)"
    using len by simp
  ultimately show ?thesis
    using len assms(4,5) by (subst messages.simps) (simp add: Let_def pre)
qed

lemma take_bit_small: "unat (w :: word_t) < 2 ^ n \<Longrightarrow> take_bit n w = w"
  by (metis take_bit_nat_eq_self_iff unsigned_take_bit_eq word_unat_eq_iff)

lemma messages_msg:
  assumes "4 dvd length body" and "length body < 2 ^ 31"
  shows "messages (msg type flags seq pid body @ bs) =
    map_option ((#) \<lparr>msg_type = take_bit 16 type, msg_flags = take_bit 16 flags, msg_seq = take_bit 32 seq,
      msg_pid = take_bit 32 pid, msg_body = body\<rparr>) (messages bs)"
proof -
  let ?c = "msg type flags seq pid body" let ?len = "16 + length body"
  let ?l = "le 4 (of_nat ?len)"
  have u: "unat (of_nat ?len :: word_t) = ?len" by (rule unat_of_nat_small) (use assms(2) in simp)
  have "load_word ?l = of_nat ?len"
    using assms(2) take_bit_small[of "of_nat ?len" 32] u by (simp add: get_le)
  then have hd: "unat (load_word ?l) = ?len" using u by simp
  have c: "?c = ?l @ (le 2 type @ le 2 flags @ le 4 seq @ le 4 pid @ body)" by (simp add: msg_def)
  have "get 2 4 ?c = take_bit (8 * 2) type"
    by (rule get_at[of 2 4 ?l]) (simp_all only: msg_def append_assoc, simp_all)
  moreover have "get 2 6 ?c = take_bit (8 * 2) flags"
    by (rule get_at[of 2 6 "?l @ le 2 type"]) (simp_all only: msg_def append_assoc, simp_all)
  moreover have "get 4 8 ?c = take_bit (8 * 4) seq"
    by (rule get_at[of 4 8 "?l @ le 2 type @ le 2 flags"]) (simp_all only: msg_def append_assoc, simp_all)
  moreover have "get 4 12 ?c = take_bit (8 * 4) pid"
    by (rule get_at[of 4 12 "?l @ le 2 type @ le 2 flags @ le 4 seq"]) (simp_all only: msg_def append_assoc, simp_all)
  moreover have "take (?len - 16) (drop 16 ?c) = body" by (simp add: msg_def)
  moreover have "length ?c = align4 ?len" using assms(1) by (simp add: align4_dvd)
  ultimately show ?thesis using messages_chunk[OF c _ hd, of bs] by (simp del: unat_of_nat)
qed

subsection \<open>Replies\<close>

text \<open>
  \<open>reads s ms\<close>: a reader finds the messages \<open>ms\<close> in what was built, then goes on.
  \<open>reply_ok\<close> is the invariant of the replies: at most \<open>n\<close> bytes of the buffer are used, and every
  message carries the numbers of the request.
\<close>

definition reads :: "byte list \<times> nat \<Rightarrow> Message list \<Rightarrow> bool" where
  "reads s ms \<longleftrightarrow> (\<forall>bs. messages (take (snd s) (fst s) @ bs) = map_option ((@) ms) (messages bs))"

definition numbered :: "word_t \<Rightarrow> word_t \<Rightarrow> Message \<Rightarrow> bool" where
  "numbered seq pid m \<longleftrightarrow> msg_seq m = take_bit 32 seq \<and> msg_pid m = take_bit 32 pid"

definition reply_ok :: "nat \<Rightarrow> word_t \<Rightarrow> word_t \<Rightarrow> nat \<Rightarrow> byte list \<times> nat \<Rightarrow> bool" where
  "reply_ok maxlen seq pid n s \<longleftrightarrow> length (fst s) = maxlen \<and> snd s \<le> n \<and> n \<le> maxlen
     \<and> (\<exists>ms. reads s ms \<and> (\<forall>m \<in> set ms. numbered seq pid m))"

lemma map_option_append: "map_option ((@) as) (map_option ((@) bs) x) = map_option ((@) (as @ bs)) x"
  by (cases x) simp_all

lemma reads_appended:
  assumes "reads s ms" and "appended s c t"
    and "\<And>bs. messages (c @ bs) = map_option ((#) m) (messages bs)"
  shows "reads t (ms @ [m])"
proof -
  have "messages (take (snd t) (fst t) @ bs) = map_option ((@) (ms @ [m])) (messages bs)" for bs
  proof -
    have "take (snd t) (fst t) @ bs = take (snd s) (fst s) @ (c @ bs)"
      using assms(2) unfolding appended_def by (metis append_assoc)
    then have "messages (take (snd t) (fst t) @ bs) = map_option ((@) ms) (messages (c @ bs))"
      using assms(1) by (simp add: reads_def)
    also have "\<dots> = map_option ((@) ms) (map_option ((@) [m]) (messages bs))"
      by (cases "messages bs") (simp_all add: assms(3))
    finally show ?thesis by (simp only: map_option_append)
  qed
  then show ?thesis by (simp add: reads_def)
qed

lemma reads_start [simp]: "reads (out, 0) []"
proof -
  have "map_option ((@) []) x = x" for x :: "Message list option" by (cases x) simp_all
  then show ?thesis by (simp add: reads_def)
qed

lemma reply_ok_start: "length out = maxlen \<Longrightarrow> n \<le> maxlen \<Longrightarrow> reply_ok maxlen seq pid n (out, 0)"
  unfolding reply_ok_def by (auto intro!: exI[of _ "[]"])

lemma reply_ok_mono: "reply_ok maxlen seq pid n s \<Longrightarrow> n \<le> n' \<Longrightarrow> n' \<le> maxlen \<Longrightarrow> reply_ok maxlen seq pid n' s"
  by (auto simp: reply_ok_def)

lemma emits_reads:
  assumes "emits s type flags seq pid n t" and "n < 2 ^ 31" and "reads s ms"
  shows "\<exists>m. reads t (ms @ [m]) \<and> numbered seq pid m \<and> msg_type m = take_bit 16 type
    \<and> snd t \<le> snd s + 16 + n \<and> snd s < snd t \<and> length (fst t) = length (fst s) \<and> snd t \<le> length (fst t)"
proof -
  obtain body where body: "appended s (msg type flags seq pid body) t" "length body \<le> n" "4 dvd length body"
    using assms(1) by (auto simp: emits_def)
  have "length body < 2 ^ 31" using body(2) assms(2) by simp
  note m = messages_msg[OF body(3) this]
  show ?thesis
    using reads_appended[OF assms(3) body(1) m] body(1,2) by (auto simp: numbered_def appended_def)
qed

lemma reply_ok_emits:
  assumes "emits s type flags seq pid n t" and "n < 2 ^ 31" and "reply_ok maxlen seq pid k s"
    and "snd s + 16 + n \<le> k'" and "k' \<le> maxlen"
  shows "reply_ok maxlen seq pid k' t"
proof -
  obtain ms where "reads s ms" "\<forall>m \<in> set ms. numbered seq pid m" "length (fst s) = maxlen"
    using assms(3) by (auto simp: reply_ok_def)
  then show ?thesis
    using emits_reads[OF assms(1,2) \<open>reads s ms\<close>] assms(4,5)
    unfolding reply_ok_def by (force intro!: exI[of _ "ms @ _"])
qed

text \<open>
  What is assumed of the host: the names of interfaces are shorter than 16 characters, IP addresses
  have at most 16 bytes.
\<close>

definition ifaddr_ok :: "Ifaddr \<Rightarrow> bool" where
  "ifaddr_ok ifa \<longleftrightarrow> (\<forall>name. ifa_name ifa = Some name \<longrightarrow> length name < 16)
     \<and> (\<forall>a. ifa_addr ifa = Some (Sa_Inet a) \<or> ifa_addr ifa = Some (Sa_Inet6 a) \<longrightarrow> length a \<le> 16)"

definition host_net_ok :: "Host_Net \<Rightarrow> bool" where
  "host_net_ok H \<longleftrightarrow> (\<forall>ifas. hn_getifaddrs H = Some ifas \<longrightarrow> (\<forall>ifa \<in> set ifas. ifaddr_ok ifa))"

lemma link_details_hwaddr: "link_details H name ifa = (i, t, m, hw) \<Longrightarrow> length hw \<le> 8"
  by (auto simp: link_details_def Let_def split: option.splits Sockaddr.splits if_split_asm)

lemma host_links_ok:
  assumes "\<forall>ifa \<in> set ifas. ifaddr_ok ifa" and "reply_ok maxlen seq pid (maxlen - 156) s" and "156 \<le> maxlen"
  shows "reply_ok maxlen seq pid (maxlen - 156) (fst (host_links H maxlen seq pid wn wi dump ifas seen s built))"
  using assms(1,2)
proof (induction ifas arbitrary: seen s built)
  case (Cons ifa ifas)
  note IH = Cons.IH[OF _ Cons.prems(2)]
  show ?case
  proof (cases "ifa_name ifa")
    case None
    then show ?thesis using IH Cons.prems(1) by simp
  next
    case (Some name)
    obtain i t m hw where d: "link_details H name ifa = (i, t, m, hw)" by (metis prod.exhaust)
    let ?s = "nl_build_link s maxlen seq pid (if dump then NLM_F_MULTI else 0) i t (ifa_flags ifa) m name hw"
    have step: "reply_ok maxlen seq pid (maxlen - 156) ?s" if "\<not> maxlen < snd s + 256"
    proof -
      obtain buf off where s: "s = (buf, off)" by force
      have "length name < 16" using Cons.prems(1) Some by (simp add: ifaddr_ok_def)
      then have "emits s RTM_NEWLINK (if dump then NLM_F_MULTI else 0) seq pid 84 ?s"
        using that link_details_hwaddr[OF d] Cons.prems(2) unfolding s
        by (intro nl_build_link_emits) (auto simp: reply_ok_def)
      then show ?thesis
        by (rule reply_ok_emits[OF _ _ Cons.prems(2)]) (use that in auto)
    qed
    show ?thesis
      using IH Cons.IH[OF _ step] step Cons.prems Some by (auto simp: d Let_def)
  qed
qed simp

lemma host_addrs_ok:
  assumes "\<forall>ifa \<in> set ifas. ifaddr_ok ifa" and "reply_ok maxlen seq pid (maxlen - 156) s" and "156 \<le> maxlen"
  shows "reply_ok maxlen seq pid (maxlen - 156) (fst (host_addrs H maxlen seq pid fam dump ifas s built))"
  using assms(1,2)
proof (induction ifas arbitrary: s built)
  case (Cons ifa ifas)
  note IH = Cons.IH[OF _ Cons.prems(2)]
  let ?e = "case (ifa_name ifa, ifa_addr ifa) of
              (Some name, Some (Sa_Inet addr)) \<Rightarrow> Some (name, AF_INET, addr, 32 :: nat)
            | (Some name, Some (Sa_Inet6 addr)) \<Rightarrow> Some (name, AF_INET6, addr, 128)
            | _ \<Rightarrow> None"
  show ?case
  proof (cases ?e)
    case None
    then show ?thesis using IH Cons.prems(1) by (simp only: host_addrs.simps option.case) simp
  next
    case (Some e)
    obtain name family addr full where e: "e = (name, family, addr, full)" by (metis prod.exhaust)
    have small: "length name < 16" "length addr \<le> 16"
      using Some Cons.prems(1) unfolding e
      by (auto simp: ifaddr_ok_def split: option.splits Sockaddr.splits)
    let ?s = "\<lambda>fl i p sc. nl_build_addr s maxlen seq pid fl family i addr p sc (Some name)"
    have step: "reply_ok maxlen seq pid (maxlen - 156) (?s fl i p sc)" if "\<not> maxlen < snd s + 256" for fl i p sc
    proof -
      obtain buf off where s: "s = (buf, off)" by force
      have "emits s RTM_NEWADDR fl seq pid 68 (?s fl i p sc)"
        using that small Cons.prems(2) unfolding s by (intro nl_build_addr_emits) (auto simp: reply_ok_def)
      then show ?thesis
        by (rule reply_ok_emits[OF _ _ Cons.prems(2)]) (use that in auto)
    qed
    show ?thesis
      using IH Cons.IH[OF _ step] Cons.prems
      by (simp only: host_addrs.simps Some e option.case) (auto simp: Let_def)
  qed
qed simp

lemma build_host_ok:
  assumes "host_net_ok H" and "length out = maxlen" and "156 \<le> maxlen"
  shows "reply_ok maxlen seq pid (maxlen - 156) (fst (build_host_links H out maxlen seq pid wn wi dump))"
    and "reply_ok maxlen seq pid (maxlen - 156) (fst (build_host_addrs H out maxlen seq pid fam dump))"
  using assms host_links_ok[OF _ reply_ok_start] host_addrs_ok[OF _ reply_ok_start]
  by (auto simp: build_host_links_def build_host_addrs_def host_net_ok_def reply_ok_start split: option.split)

lemma loopback_ok:
  assumes "reply_ok maxlen seq pid k s" and "snd s + 100 \<le> maxlen"
  shows "reply_ok maxlen seq pid (snd s + 100) (nl_build_loopback_link s maxlen seq pid fl)"
    and "reply_ok maxlen seq pid (snd s + 100) (nl_build_loopback_addr s maxlen seq pid fam fl)"
proof -
  obtain buf off where s: "s = (buf, off)" by force
  have "emits s RTM_NEWLINK fl seq pid 84 (nl_build_loopback_link s maxlen seq pid fl)"
    unfolding s nl_build_loopback_link_def
    using assms s by (intro nl_build_link_emits) (auto simp: reply_ok_def)
  then show "reply_ok maxlen seq pid (snd s + 100) (nl_build_loopback_link s maxlen seq pid fl)"
    by (rule reply_ok_emits[OF _ _ assms(1)]) (use assms(2) in auto)
  have "emits s RTM_NEWADDR fl seq pid 68 (nl_build_loopback_addr s maxlen seq pid fam fl)"
    unfolding s nl_build_loopback_addr_def
    using assms s by (auto intro!: nl_build_addr_emits simp: reply_ok_def)
  then show "reply_ok maxlen seq pid (snd s + 100) (nl_build_loopback_addr s maxlen seq pid fam fl)"
    by (rule reply_ok_emits[OF _ _ assms(1)]) (use assms(2) in auto)
qed

subsection \<open>The relayed routing table\<close>

text \<open>A message of the kernel, with the numbers rewritten and its padding.\<close>

lemma relayed_message:
  assumes "mlen = unat (get 4 0 data)" and "16 \<le> length data" and "16 \<le> mlen" and "mlen \<le> length data"
    and "c = take mlen (copy_to data 8 (le 4 seq @ le 4 pid)) @ replicate (align4 mlen - mlen) 0"
  shows "\<exists>m. numbered seq pid m \<and> msg_type m = get 2 4 data
    \<and> (\<forall>bs. messages (c @ bs) = map_option ((#) m) (messages bs))"
proof -
  let ?h = "copy_to data 8 (le 4 seq @ le 4 pid)"
  have h: "?h = take 8 data @ le 4 seq @ le 4 pid @ drop 16 data" by (simp add: copy_to_def)
  have len: "length ?h = length data" using assms(2) by (simp add: length_copy_to)
  have c: "c = take 8 data @ le 4 seq @ le 4 pid @ take (mlen - 16) (drop 16 data) @ replicate (align4 mlen - mlen) 0"
    unfolding assms(5) h using assms(2,3) by (simp add: take_append)
  let ?rest = "drop 4 c"
  have c4: "c = take 4 data @ ?rest"
    unfolding c using assms(2) append_take_drop_id[of 4 "take 8 data"] by (simp add: min_def)
  have "length c = align4 mlen"
    using assms(2-4) align4_ge(1)[of mlen] unfolding c by simp
  moreover have "unat (load_word (take 4 data)) = mlen" using assms(1) by (simp add: get_def)
  ultimately have m: "messages (c @ bs) = map_option ((#) \<lparr>msg_type = get 2 4 c, msg_flags = get 2 6 c,
      msg_seq = get 4 8 c, msg_pid = get 4 12 c, msg_body = take (mlen - 16) (drop 16 c)\<rparr>) (messages bs)" for bs
    using assms(2,3) by (intro messages_chunk[OF c4]) simp_all
  have "get 4 8 c = take_bit (8 * 4) seq"
    by (rule get_at[of 4 8 "take 8 data"]) (use assms(2) in \<open>simp_all add: c\<close>)
  moreover have "get 4 12 c = take_bit (8 * 4) pid"
    by (rule get_at[of 4 12 "take 8 data @ le 4 seq"]) (use assms(2) in \<open>simp_all add: c\<close>)
  moreover have "get 2 4 c = get 2 4 data"
    unfolding c get_def using assms(2) by (simp add: drop_take)
  ultimately show ?thesis using m by (intro exI conjI allI) (auto simp: numbered_def)
qed

text \<open>A complete dump: the last message is the end mark.\<close>

definition ended :: "byte list \<times> nat \<Rightarrow> bool" where
  "ended s \<longleftrightarrow> (\<exists>ms. reads s ms \<and> ms \<noteq> [] \<and> msg_type (last ms) = NLMSG_DONE)"

lemma copies_appended:
  assumes "length c = mlen" and "off + align4 mlen \<le> length buf"
  shows "appended (buf, off) (c @ replicate (align4 mlen - mlen) 0)
    (copy_to (copy_to buf off c) (off + mlen) (replicate (align4 mlen - mlen) 0), off + align4 mlen)"
proof -
  have le: "mlen \<le> align4 mlen" by (rule align4_ge)
  have 1: "appended (buf, off) c (copy_to buf off c, off + mlen)"
    using copy_to_appended[of off c buf] assms le by simp
  have "appended (copy_to buf off c, off + mlen) (replicate (align4 mlen - mlen) 0)
      (copy_to (copy_to buf off c) (off + mlen) (replicate (align4 mlen - mlen) 0), off + align4 mlen)"
    using copy_to_appended[of "off + mlen" "replicate (align4 mlen - mlen) 0" "copy_to buf off c"]
      appended_fits[OF 1] assms(2) le by simp
  with 1 show ?thesis by (rule appended_trans)
qed

lemma relay_datagram_ok:
  assumes "relay_datagram maxlen seq pid data s = Inr (s', stop, saw)"
    and "reply_ok maxlen seq pid (maxlen - 64) s" and "64 \<le> maxlen"
  shows "reply_ok maxlen seq pid (maxlen - 64) s' \<and> (saw \<longrightarrow> ended s' \<and> 0 < snd s')"
  using assms
proof (induction maxlen seq pid data s rule: relay_datagram.induct)
  case (1 maxlen seq pid data s)
  define mlen where "mlen = unat (get 4 0 data)"
  define c where "c = take mlen (copy_to data 8 (le 4 seq @ le 4 pid))"
  define pad where "pad = replicate (align4 mlen - mlen) (0 :: byte)"
  define t where "t = (copy_to (copy_to (fst s) (snd s) c) (snd s + mlen) pad, snd s + align4 mlen)"
  have step: "relay_datagram maxlen seq pid data s =
     (if \<not> (length data \<ge> 16 \<and> mlen \<ge> 16 \<and> mlen \<le> length data) then Inr (s, False, False)
      else if snd s + align4 mlen + 64 > maxlen then Inr (s, True, False)
      else if get 2 4 data = NLMSG_DONE then Inr (t, True, True)
      else if align4 mlen > length data then Inl Undefined
      else relay_datagram maxlen seq pid (drop (align4 mlen) data) t)"
    by (subst relay_datagram.simps) (simp add: Let_def t_def c_def pad_def mlen_def)
  show ?case
  proof (cases "length data \<ge> 16 \<and> mlen \<ge> 16 \<and> mlen \<le> length data \<and> \<not> snd s + align4 mlen + 64 > maxlen")
    case False
    then show ?thesis using "1.prems" unfolding step by (auto split: if_split_asm)
  next
    case True
    then have len: "16 \<le> length data" "16 \<le> mlen" "mlen \<le> length data" "snd s + align4 mlen + 64 \<le> maxlen"
      by auto
    obtain ms where ms: "reads s ms" "\<forall>m \<in> set ms. numbered seq pid m" "length (fst s) = maxlen"
      using "1.prems"(2) by (auto simp: reply_ok_def)
    have lc: "length c = mlen" using len by (simp add: c_def length_copy_to)
    have app: "appended s (c @ pad) t"
      using copies_appended[OF lc, of "snd s" "fst s"] len(4) ms(3) by (simp add: t_def pad_def)
    obtain m where m: "numbered seq pid m" "msg_type m = get 2 4 data"
      "\<forall>bs. messages ((c @ pad) @ bs) = map_option ((#) m) (messages bs)"
      using relayed_message[OF mlen_def len(1-3), of "c @ pad" seq pid] by (auto simp: c_def pad_def)
    have reads: "reads t (ms @ [m])" using reads_appended[OF ms(1) app] m(3) by blast
    then have ok: "reply_ok maxlen seq pid (maxlen - 64) t"
      using ms m(1) len(4) app unfolding reply_ok_def
      by (intro conjI exI[of _ "ms @ [m]"]) (auto simp: appended_def t_def)
    show ?thesis
    proof (cases "get 2 4 data = NLMSG_DONE")
      case True
      then have "s' = t" "saw" using "1.prems"(1) len unfolding step by auto
      moreover have "ended t" unfolding ended_def using reads m(2) True by (intro exI[of _ "ms @ [m]"]) simp
      moreover have "0 < snd t" using len(2) align4_ge(1)[of mlen] by (simp add: t_def)
      ultimately show ?thesis using ok by simp
    next
      case False
      then have rest: "relay_datagram maxlen seq pid (drop (align4 mlen) data) t = Inr (s', stop, saw)"
        "\<not> align4 mlen > length data"
        using "1.prems"(1) len unfolding step by (auto split: if_split_asm)
      show ?thesis
        by (rule "1.IH"[OF mlen_def refl _ _ refl refl refl refl])
          (use False len rest ok "1.prems"(3) in \<open>auto simp: t_def c_def pad_def\<close>)
    qed
  qed
qed

lemma relay_rounds_ok:
  assumes "relay_rounds maxlen seq pid n ds s = Inr (s', saw)"
    and "reply_ok maxlen seq pid (maxlen - 64) s" and "64 \<le> maxlen"
  shows "reply_ok maxlen seq pid (maxlen - 64) s' \<and> (saw \<longrightarrow> ended s' \<and> 0 < snd s')"
  using assms
proof (induction maxlen seq pid n ds s rule: relay_rounds.induct)
  case (3 maxlen seq pid rounds d ds s)
  show ?case
  proof (cases "d = []")
    case False
    then obtain t stop saw' where t: "relay_datagram maxlen seq pid (take 8192 d) s = Inr (t, stop, saw')"
      using "3.prems"(1) by (auto split: sum.splits)
    then show ?thesis
      using relay_datagram_ok[OF t "3.prems"(2,3)] "3.IH"[OF False t refl refl] "3.prems" False
      by (cases stop) auto
  qed (use "3.prems" in simp)
qed auto

lemma done_ends:
  assumes "reply_ok maxlen seq pid k s" and "snd s + 20 \<le> maxlen"
  shows "reply_ok maxlen seq pid maxlen (nl_build_done s maxlen seq pid)
    \<and> ended (nl_build_done s maxlen seq pid) \<and> 0 < snd (nl_build_done s maxlen seq pid)"
proof -
  obtain buf off where s: "s = (buf, off)" by force
  obtain ms where ms: "reads s ms" using assms(1) by (auto simp: reply_ok_def)
  have e: "emits s NLMSG_DONE NLM_F_MULTI seq pid 4 (nl_build_done s maxlen seq pid)"
    unfolding s using assms s by (intro nl_build_done_emits) (auto simp: reply_ok_def)
  have "reply_ok maxlen seq pid maxlen (nl_build_done s maxlen seq pid)"
    by (rule reply_ok_emits[OF e _ assms(1)]) (use assms(2) in auto)
  moreover obtain m where "reads (nl_build_done s maxlen seq pid) (ms @ [m])"
    "msg_type m = take_bit 16 NLMSG_DONE" "snd s < snd (nl_build_done s maxlen seq pid)"
    using emits_reads[OF e _ ms] by auto
  moreover have "take_bit 16 NLMSG_DONE = NLMSG_DONE" by (simp add: NLMSG_DONE_def)
  ultimately show ?thesis
    unfolding ended_def by (auto intro!: exI[of _ "ms @ [m]"])
qed

subsection \<open>The whole reply\<close>

definition dump_request :: "byte list \<Rightarrow> bool" where
  "dump_request req \<longleftrightarrow> get 2 6 req AND NLM_F_DUMP = NLM_F_DUMP"

lemma error_ok:
  assumes "length out = maxlen" and "36 \<le> maxlen"
  shows "reply_ok maxlen seq pid 36 (nl_build_error (out, 0) maxlen seq pid e)"
proof -
  have "emits (out, 0) NLMSG_ERROR 0 seq pid 20 (nl_build_error (out, 0) maxlen seq pid e)"
    using assms by (intro nl_build_error_emits) simp_all
  then show ?thesis
    by (rule reply_ok_emits[OF _ _ reply_ok_start[OF assms(1), of 0]]) (use assms in auto)
qed

text \<open>The optional end mark.\<close>

lemma done_if_dump:
  assumes "reply_ok maxlen seq pid (maxlen - 20) s" and "20 \<le> maxlen"
  shows "reply_ok maxlen seq pid maxlen (if dump then nl_build_done s maxlen seq pid else s)
    \<and> (dump \<longrightarrow> ended (if dump then nl_build_done s maxlen seq pid else s))"
  using done_ends[OF assms(1)] reply_ok_mono[OF assms(1), of maxlen] assms
  by (auto simp: reply_ok_def)

lemma reply_links_ok:
  assumes "host_net_ok H" and "length out = maxlen" and "256 \<le> maxlen"
  shows "reply_ok maxlen seq pid maxlen (reply_links H req out maxlen seq pid dump)
    \<and> (dump \<longrightarrow> ended (reply_links H req out maxlen seq pid dump))"
proof -
  obtain wi wn where target: "nl_request_link_target req = (wi, wn)" by force
  obtain s n where build: "build_host_links H out maxlen seq pid (if dump then None else Some wn)
      (if dump then 0 else wi) dump = (s, n)" by (metis prod.exhaust)
  have s: "reply_ok maxlen seq pid (maxlen - 156) s"
    using build_host_ok(1)[OF assms(1,2), of seq pid "if dump then None else Some wn" "if dump then 0 else wi" dump]
      assms(3) by (simp add: build)
  define t where "t = (if n = 0 then
      (if dump then nl_build_loopback_link (fst s, 0) maxlen seq pid NLM_F_MULTI
       else if nl_request_is_loopback req then nl_build_loopback_link (fst s, 0) maxlen seq pid 0
       else nl_build_error (fst s, 0) maxlen seq pid (- ENODEV_value)) else s)"
  have len: "length (fst s) = maxlen" using s by (simp add: reply_ok_def)
  have zero: "reply_ok maxlen seq pid 0 (fst s, 0)" by (rule reply_ok_start[OF len]) simp
  have "reply_ok maxlen seq pid (maxlen - 20) t"
    unfolding t_def using reply_ok_mono[OF loopback_ok(1)[OF zero], of "maxlen - 20"]
      reply_ok_mono[OF error_ok[OF len, of seq pid], of "maxlen - 20"]
      reply_ok_mono[OF s, of "maxlen - 20"] assms(3)
    by auto
  note ok = done_if_dump[OF this, of dump]
  have "reply_links H req out maxlen seq pid dump = (if dump then nl_build_done t maxlen seq pid else t)"
    by (simp only: reply_links_def Let_def target build prod.case t_def)
  then show ?thesis using ok assms(3) by (cases dump) simp_all
qed

lemma reply_addrs_ok:
  assumes "host_net_ok H" and "length out = maxlen" and "256 \<le> maxlen"
  shows "reply_ok maxlen seq pid maxlen (reply_addrs H req out maxlen seq pid dump)
    \<and> (dump \<longrightarrow> ended (reply_addrs H req out maxlen seq pid dump))"
proof -
  define family where "family = (if length req > NLMSG_HDRLEN then unat (get 1 NLMSG_HDRLEN req) else 0)"
  define wf where "wf = (if family = AF_INET \<or> family = AF_INET6 then family else AF_UNSPEC)"
  define fl where "fl = (if dump then NLM_F_MULTI else 0)"
  obtain s n where build: "build_host_addrs H out maxlen seq pid wf dump = (s, n)" by (metis prod.exhaust)
  have s: "reply_ok maxlen seq pid (maxlen - 156) s"
    using build_host_ok(2)[OF assms(1,2), of seq pid wf dump] assms(3) by (simp add: build)
  have len: "length (fst s) = maxlen" using s by (simp add: reply_ok_def)
  define t1 where "t1 = (if family = 0 \<or> family = AF_INET
      then nl_build_loopback_addr (fst s, 0) maxlen seq pid AF_INET fl else (fst s, 0))"
  define t2 where "t2 = (if family = 0 \<or> family = AF_INET6
      then nl_build_loopback_addr t1 maxlen seq pid AF_INET6 fl else t1)"
  have zero: "reply_ok maxlen seq pid 0 (fst s, 0)" by (rule reply_ok_start[OF len]) simp
  have t1: "reply_ok maxlen seq pid 100 t1"
    unfolding t1_def using loopback_ok(2)[OF zero] zero assms(3) by (auto elim: reply_ok_mono)
  then have small: "snd t1 \<le> 100" by (simp add: reply_ok_def)
  have "reply_ok maxlen seq pid (maxlen - 20) t2"
    unfolding t2_def using reply_ok_mono[OF loopback_ok(2)[OF t1], of "maxlen - 20"]
      reply_ok_mono[OF t1, of "maxlen - 20"] small assms(3) by auto
  then have "reply_ok maxlen seq pid (maxlen - 20) (if n = 0 then t2 else s)"
    using reply_ok_mono[OF s, of "maxlen - 20"] assms(3) by auto
  note ok = done_if_dump[OF this, of dump]
  have "reply_addrs H req out maxlen seq pid dump =
      (if dump then nl_build_done (if n = 0 then t2 else s) maxlen seq pid else if n = 0 then t2 else s)"
    by (simp only: reply_addrs_def Let_def family_def[symmetric] wf_def[symmetric] fl_def[symmetric]
        build prod.case t1_def t2_def)
  then show ?thesis using ok assms(3) by (cases dump) simp_all
qed

lemma relay_route_dump_ok:
  assumes "relay_route_dump H req out maxlen seq pid = Inr s" and "length out = maxlen" and "256 \<le> maxlen"
  shows "length (fst s) = maxlen \<and> (snd s = 0 \<or> reply_ok maxlen seq pid maxlen s \<and> ended s)"
proof -
  define family where "family = (if length req > NLMSG_HDRLEN then get 1 NLMSG_HDRLEN req else 0)"
  show ?thesis
  proof (cases "hn_route_dump H seq family")
    case None
    then show ?thesis using assms by (auto simp: relay_route_dump_def family_def)
  next
    case (Some ds)
    then obtain t saw where t: "relay_rounds maxlen seq pid 64 ds (out, 0) = Inr (t, saw)"
      "s = (if snd t = 0 then (fst t, 0) else if saw then t else nl_build_done t maxlen seq pid)"
      using assms(1) by (auto simp: relay_route_dump_def family_def split: sum.splits)
    have "reply_ok maxlen seq pid (maxlen - 64) (out, 0)" by (rule reply_ok_start[OF assms(2)]) simp
    then have ok: "reply_ok maxlen seq pid (maxlen - 64) t" "saw \<longrightarrow> ended t"
      using relay_rounds_ok[OF t(1)] assms(3) by auto
    have "snd t \<le> maxlen - 64" using ok(1) by (simp add: reply_ok_def)
    then have "snd t + 20 \<le> maxlen" using assms(3) by linarith
    then show ?thesis
      using done_ends[OF ok(1)] ok reply_ok_mono[OF ok(1), of maxlen] unfolding t(2)
      by (auto simp: reply_ok_def[of maxlen seq pid "maxlen - 64"] dest: appended_fits)
        (auto simp: reply_ok_def)
  qed
qed

lemma netlink_reply_ok:
  assumes "host_net_ok H" and "length out = maxlen" and "256 \<le> maxlen"
    and "netlink_reply H req out maxlen pid = Inr s"
  shows "reply_ok maxlen (get 4 8 req) pid maxlen s \<and> (dump_request req \<longrightarrow> ended s)"
proof -
  let ?seq = "get 4 8 req"
  have done_alone: "reply_ok maxlen ?seq pid maxlen (nl_build_done (o', 0) maxlen ?seq pid)
      \<and> ended (nl_build_done (o', 0) maxlen ?seq pid)" if "length o' = maxlen" for o'
    using done_ends[OF reply_ok_start[OF that, of 0]] assms(3) by simp
  have error: "reply_ok maxlen ?seq pid maxlen (nl_build_error (out, 0) maxlen ?seq pid 0)"
    using reply_ok_mono[OF error_ok[OF assms(2)]] assms(3) by auto
  consider (link) "get 2 4 req = RTM_GETLINK" | (addr) "get 2 4 req = RTM_GETADDR"
    | (route) "get 2 4 req = RTM_GETROUTE" "dump_request req" "get 2 4 req \<noteq> RTM_GETLINK" "get 2 4 req \<noteq> RTM_GETADDR"
    | (other) "\<not> (get 2 4 req = RTM_GETROUTE \<and> dump_request req)" "get 2 4 req \<noteq> RTM_GETLINK" "get 2 4 req \<noteq> RTM_GETADDR"
    by blast
  then show ?thesis
  proof cases
    case link
    then show ?thesis
      using assms(4) reply_links_ok[OF assms(1-3), of ?seq pid req "dump_request req"]
      by (auto simp: netlink_reply_def dump_request_def Let_def)
  next
    case addr
    then have "get 2 4 req \<noteq> RTM_GETLINK" by (simp add: RTM_GETADDR_def RTM_GETLINK_def)
    then show ?thesis
      using addr assms(4) reply_addrs_ok[OF assms(1-3), of ?seq pid req "dump_request req"]
      by (auto simp: netlink_reply_def dump_request_def Let_def)
  next
    case route
    then obtain t where t: "relay_route_dump H req out maxlen ?seq pid = Inr t"
      "s = (if snd t = 0 then nl_build_done (fst t, 0) maxlen ?seq pid else t)"
      using assms(4) by (auto simp: netlink_reply_def dump_request_def Let_def split: sum.splits)
    then show ?thesis
      using relay_route_dump_ok[OF t(1) assms(2,3)] done_alone[of "fst t"] by auto
  next
    case other
    then show ?thesis
      using assms(4) done_alone[OF assms(2)] error
      by (auto simp: netlink_reply_def dump_request_def Let_def split: if_split_asm)
  qed
qed

text \<open>The unsigned length wraps only on a datagram whose last message is not padded.\<close>

definition padded :: "byte list \<Rightarrow> bool" where
  "padded data \<longleftrightarrow> 4 dvd length data"

lemma align4_fits: "n \<le> m \<Longrightarrow> 4 dvd m \<Longrightarrow> align4 n \<le> m"
  using align4_mono[of n m] by (simp add: align4_dvd)

lemma relay_datagram_defined:
  assumes "padded data"
  shows "\<exists>r. relay_datagram maxlen seq pid data s = Inr r"
  using assms
proof (induction maxlen seq pid data s rule: relay_datagram.induct)
  case (1 maxlen seq pid data s)
  define mlen where "mlen = unat (get 4 0 data)"
  have fits: "align4 n \<le> length data" if "n \<le> length data" for n
    using that "1.prems" by (auto simp: padded_def intro: align4_fits)
  have rest: "padded (drop (align4 n) data)" if "n \<le> length data" for n
    using fits[OF that] "1.prems" align4_ge(3)[of n] by (simp add: padded_def dvd_diff_nat)
  note IH = "1.IH"[OF mlen_def refl _ _ refl refl refl refl]
  have rec: "\<exists>r. relay_datagram maxlen seq pid (drop (align4 mlen) data)
      (copy_to (copy_to (fst s) (snd s) (take mlen (copy_to data 8 (le 4 seq @ le 4 pid)))) (snd s + mlen)
        (replicate (align4 mlen - mlen) 0), snd s + align4 mlen) = Inr r"
    if "length data \<ge> 16 \<and> mlen \<ge> 16 \<and> mlen \<le> length data" "\<not> snd s + align4 mlen + 64 > maxlen"
      "get 2 4 data \<noteq> NLMSG_DONE"
    by (rule IH) (use that fits[of mlen] rest[of mlen] in auto)
  show ?case
    by (subst relay_datagram.simps) (use rec fits[of mlen] in \<open>auto simp: Let_def mlen_def[symmetric]\<close>)
qed

end
