(* ===== verification/Entry_Properties.thy ===== *)
theory Entry_Properties
  imports Path_Properties Exec_Properties Heap Shebang Netlink_Props
begin

section \<open>Properties of the entry of system calls\<close>

text \<open>
  The promises of syscall/heap.c, of the scripts of execve/shebang.c, of the path arguments and of
  the emulated netlink sockets of syscall/enter.c, with instances.
\<close>

subsection \<open>The heap\<close>

text \<open>
  C26. Refinement of \<open>brk(2)\<close>: after the first call, the pair of \<open>translate_brk_enter\<close> and
  \<open>translate_brk_exit\<close> around an \<open>mremap(2)\<close> implements its contract, whatever the kernel answers:
  a request at or above the start of the heap becomes the new end if the kernel kept the mapping in
  place, any other request leaves the end where it was, and the process reads the end.
\<close>

theorem brk_refines_contract:
  assumes "\<not> h_disabled h" and "h_base h \<noteq> 0" and "heap_offset h \<noteq> 0"
    and "take_bit 12 (h_base h - heap_offset h) = 0"
    and "translate_brk_enter page_size info h t = Inr (h1, t1)" and "kernel_returned t1 v t2"
    and "fits t (h_base h + h_size h)" and "fits t request" and "fits t (request - h_base h + heap_offset h)"
    and "request = peek_reg t CURRENT SYSARG_1" and "granted \<longleftrightarrow> v = h_base h - heap_offset h"
  shows "\<exists>h3 t3. translate_brk_exit h1 t2 = Inr (h3, t3)
    \<and> h_base h3 = h_base h \<and> heap_offset h3 = heap_offset h \<and> \<not> h_disabled h3
    \<and> h_base h3 + h_size h3 = brk_spec (h_base h) (h_base h + h_size h) request granted
    \<and> result_of t3 = h_base h3 + h_size h3"
  using assms by (rule brk_round)

definition ex_heap :: Heap where
  "ex_heap = \<lparr>h_base = 0x5000, h_size = 0x1000, h_disabled = False, heap_offset = 0x1000\<rparr>"

definition ex_mapping :: Mapping where
  "ex_mapping = \<lparr>m_addr = 0x1000, m_length = 0x3000, m_clear_length = 0, m_prot = 3, m_flags = 0x22,
     m_fd = -1, m_offset = 0\<rparr>"

theorem brk_refines_contract_witness:
  "\<exists>h1 t1 h3 t3. translate_brk_enter 0x1000 (Some [ex_mapping]) ex_heap (poke_reg (ex_regs False) SYSARG_1 0x7000)
      = Inr (h1, t1)
    \<and> translate_brk_exit h1 (poke_reg (save_current_regs t1 MODIFIED) SYSARG_RESULT 0x4000) = Inr (h3, t3)
    \<and> result_of t3 = 0x7000"
proof -
  let ?t = "poke_reg (ex_regs False) SYSARG_1 0x7000"
  have arch: "\<not> is_aarch32 ?t" by (simp add: ex_regs_def)
  obtain h1 t1 where enter: "translate_brk_enter 0x1000 (Some [ex_mapping]) ex_heap ?t = Inr (h1, t1)"
    "is_aarch32 t1 = is_aarch32 ?t"
    using translate_brk_enter_defined by blast
  have kernel: "kernel_returned t1 0x4000 (poke_reg (save_current_regs t1 MODIFIED) SYSARG_RESULT 0x4000)"
    using arch enter(2) by (intro kernel_returned_poke) (simp add: fits_def)
  have request: "0x7000 = peek_reg ?t CURRENT SYSARG_1" by (simp add: peek_poke ex_regs_def)
  have "take_bit 12 (h_base ex_heap - heap_offset ex_heap) = 0" by (simp add: ex_heap_def)
  from brk_refines_contract[OF _ _ _ this enter(1) kernel _ _ _ request refl] show ?thesis
    using enter(1) arch by (auto simp: ex_heap_def fits_def brk_spec_def)
qed

text \<open>
  C27. The first call of \<open>brk(2)\<close>: wherever the kernel puts the new mapping, its address being a
  multiple of the page size is never mistaken for an error although only 32 bits of it are looked
  at, and the heap starts empty one page after it.
\<close>

theorem brk_first_call:
  assumes "\<not> h_disabled h" and "h_base h = 0" and "peek_reg t CURRENT SYSARG_1 = 0"
    and "info = Some mappings" and "mappings \<noteq> []"
    and "translate_brk_enter page_size info h t = Inr (h1, t1)"
    and "kernel_returned t1 v t2" and "take_bit 12 v = 0" and "fits t (v + heap_offset h1)"
  shows "\<exists>h3 t3. translate_brk_exit h1 t2 = Inr (h3, t3)
    \<and> h_base h3 = v + heap_offset h1 \<and> h_size h3 = 0 \<and> result_of t3 = h_base h3 + h_size h3"
  using assms by (rule brk_first)

theorem brk_first_call_witness:
  "\<exists>h1 t1 h3 t3. translate_brk_enter 0x1000 (Some [ex_mapping]) (ex_heap\<lparr>h_base := 0, heap_offset := 0\<rparr>)
      (poke_reg (ex_regs False) SYSARG_1 0) = Inr (h1, t1)
    \<and> translate_brk_exit h1 (poke_reg (save_current_regs t1 MODIFIED) SYSARG_RESULT 0xFFFFF000) = Inr (h3, t3)
    \<and> h_base h3 = 0xFFFFF000 + heap_offset h1"
proof -
  let ?t = "poke_reg (ex_regs False) SYSARG_1 0" let ?h = "ex_heap\<lparr>h_base := 0, heap_offset := 0\<rparr>"
  have arch: "\<not> is_aarch32 ?t" by (simp add: ex_regs_def)
  obtain h1 t1 where enter: "translate_brk_enter 0x1000 (Some [ex_mapping]) ?h ?t = Inr (h1, t1)"
    "is_aarch32 t1 = is_aarch32 ?t"
    using translate_brk_enter_defined by blast
  have kernel: "kernel_returned t1 0xFFFFF000 (poke_reg (save_current_regs t1 MODIFIED) SYSARG_RESULT 0xFFFFF000)"
    using arch enter(2) by (intro kernel_returned_poke) (simp add: fits_def)
  have request: "peek_reg ?t CURRENT SYSARG_1 = 0" by (simp add: peek_poke ex_regs_def)
  have fit: "fits ?t (0xFFFFF000 + heap_offset h1)" using arch by (simp add: fits_def)
  show ?thesis
    using brk_first_call[OF _ _ request refl _ enter(1) kernel _ fit] enter(1)
    by (auto simp: ex_heap_def)
qed

subsection \<open>Interpreter scripts\<close>

text \<open>
  C28. Equivalence of the byte-by-byte reader with the documented syntax: on a file whose first line
  ends within the buffer of 256 bytes, \<open>extract_shebang\<close> finds the first word of the line as
  the interpreter, and what follows without the blanks around as the single argument.
\<close>

theorem shebang_line_parsed:
  assumes "files path = Inr f" and "f_error f = None"
    and "chars (f_bytes f) = ''#!'' @ line @ nl # rest"
    and "newline nl" and "plain line" and "length line + 3 < BINPRM_BUF_SIZE"
  shows "extract_shebang files path = Inr (Some (parse_line line))"
  using assms by (rule extract_shebang_line)

definition script_file :: "string \<Rightarrow> File" where
  "script_file s = \<lparr>f_bytes = map of_char s, f_error = None, f_errno = None\<rparr>"

lemma chars_script_file: "chars (f_bytes (script_file s)) = s"
  by (simp add: chars_def script_file_def char_of_byte comp_def)

theorem shebang_line_parsed_witness:
  "extract_shebang (\<lambda>p. Inr (script_file ''#! /bin/sh  -x -e \<newline>ls'')) ''/s''
    = Inr (Some (''/bin/sh'', ''-x -e''))"
proof -
  have "parse_line '' /bin/sh  -x -e '' = (''/bin/sh'', ''-x -e'')"
    by (simp add: parse_line_def blank_def)
  moreover have "plain '' /bin/sh  -x -e ''" by (simp add: newline_def NUL_def)
  ultimately show ?thesis
    using shebang_line_parsed[where files = "\<lambda>p. Inr (script_file ''#! /bin/sh  -x -e \<newline>ls'')" and path = "''/s''"
        and line = "'' /bin/sh  -x -e ''" and nl = "CHR 0x0A" and rest = "''ls''", OF refl]
    by (simp add: chars_script_file newline_def BINPRM_BUF_SIZE_def) (simp add: script_file_def)
qed

text \<open>
  Error behaviour at the end of the file: an interpreter that no newline follows loses its
  last character, because the terminator is written over it, so that another path is executed than
  the one the script names.
\<close>

theorem shebang_without_newline:
  assumes "files path = Inr f" and "f_error f = None"
    and "chars (f_bytes f) = ''#!'' @ word"
    and "word \<noteq> []" and "plain word" and "\<forall>c \<in> set word. \<not> blank c" and "length word + 3 < BINPRM_BUF_SIZE"
  shows "extract_shebang files path = Inr (Some (butlast word, []))"
  using assms by (rule extract_shebang_eof)

theorem shebang_without_newline_witness:
  "extract_shebang (\<lambda>p. Inr (script_file ''#!/bin/sh'')) ''/s'' = Inr (Some (''/bin/s'', []))"
  using shebang_without_newline[where files = "\<lambda>p. Inr (script_file ''#!/bin/sh'')" and path = "''/s''"
      and word = "''/bin/sh''", OF refl]
  by (simp add: chars_script_file newline_def blank_def NUL_def BINPRM_BUF_SIZE_def) (simp add: script_file_def)

subsection \<open>Path arguments\<close>

lemma get_sysarg_path_text: "get_sysarg_path P reg s = Inr user \<Longrightarrow> NUL \<notin> set user"
proof -
  have "b = 0" if "(char_of (unat b) :: char) = NUL" for b :: byte
  proof -
    have "(of_char (char_of (unat b) :: char) :: nat) = 0" unfolding that by (simp add: NUL_def)
    moreover have "unat b < 256" using unsigned_less[of b] by simp
    ultimately show ?thesis by (simp add: unat_eq_zero)
  qed
  then have "NUL \<notin> set (string_of bs)" for bs
    by (auto simp: string_of_def dest!: set_takeWhileD)
  then show "get_sysarg_path P reg s = Inr user \<Longrightarrow> NUL \<notin> set user"
    by (auto simp: get_sysarg_path_def read_path_def Let_def split: if_split_asm sum.splits prod.splits)
qed

lemma placed_text:
  assumes "wf_fs fs" and "placed fs q"
  shows "NUL \<notin> set q"
proof -
  obtain b gc hc rest f where b: "b \<in> bindings_of fs" "guest_key b = path_of gc" "valid_comps (hc @ rest)"
    and q: "q = with_finality (hc @ rest) f \<or> q = with_finality (gc @ rest) f"
    using assms(2) unfolding placed_def by blast
  have "canonical (guest_key b)"
    using bindings_of_wf[OF assms(1) b(1)] by (simp add: wf_binding_def wf_Path_def guest_key_def)
  then have "NUL \<notin> set (path_of gc)" using path_of_no_NUL by (metis b(2) canonicalE)
  then have gc: "NUL \<notin> set (slashed gc)" by (cases gc) (auto simp: NUL_def)
  have rest: "NUL \<notin> set (slashed rest)" "NUL \<notin> set (slashed hc)"
    using b(3) slashed_no_NUL by auto
  have "NUL \<notin> set (with_finality (cs @ rest) f)" if "NUL \<notin> set (slashed cs)" for cs
    using that rest(1) by (cases f) (auto simp: with_finality_def path_of_def NUL_def)
  with q gc rest(2) show ?thesis by blast
qed


definition ex_argument :: "(word_t \<Rightarrow> byte option, unit) Sys" where
  "ex_argument = \<lparr>s_regs = poke_reg (poke_reg (ex_regs False) STACK_POINTER 0x7FFF0000) SYSARG_1 0x1000,
     s_tracee = ex_tracee, s_mem = put (\<lambda>x. Some 0) 0x1000 (string_bytes ''/x/./b/../a/''), s_world = ()\<rparr>"

lemma ex_argument_registers:
  "peek ex_argument STACK_POINTER = 0x7FFF0000" "peek ex_argument SYSARG_1 = 0x1000"
  by (simp_all add: ex_argument_def peek_def peek_poke ex_regs_def REG_offset_def reg_offset_def)

lemma ex_argument_path: "get_sysarg_path plain_memory SYSARG_1 ex_argument = Inr ''/x/./b/../a/''"
proof -
  let ?p = "''/x/./b/../a/''" let ?m = "put (\<lambda>x. Some 0) 0x1000 (string_bytes ?p)"
  let ?bs = "map of_char ?p :: byte list"
  have tag: "untag_pointer 0x1000 = 0x1000" by (simp add: untag_pointer_def)
  have "contents ?m 0x1000 (length (string_bytes ?p)) = string_bytes ?p"
    by (rule contents_put) simp
  then have c: "contents ?m (untag_pointer 0x1000) (Suc (length ?bs)) = ?bs @ [0]"
    by (simp add: tag string_bytes_def)
  have nz: "0 \<notin> set ?bs" by (rule zero_free) (simp add: NUL_def)
  have m: "mapped ?m (untag_pointer 0x1000) (8 * (length ?bs div 8 + 1))" by (simp add: mapped_def put_def)
  have "\<exists>bs. read_string plain_memory ?m 0x1000 PATH_MAX = Inr (bs, length ?bs + 1)
      \<and> takeWhile (\<lambda>b. b \<noteq> 0) bs = ?bs"
    by (rule plain.read_string_contents[OF c nz m]) (simp add: PATH_MAX_def)
  then obtain bs where bs: "read_string plain_memory ?m 0x1000 PATH_MAX = Inr (bs, length ?bs + 1)"
    "takeWhile (\<lambda>b. b \<noteq> 0) bs = ?bs" by blast
  have "map (\<lambda>b. char_of (unat b)) ?bs = ?p" unfolding map_map comp_def char_of_byte by simp
  then have "read_path plain_memory ?m 0x1000 = Inr (?p, length ?bs + 1)"
    using bs by (simp only: read_path_def sum.case prod.case string_of_def) (simp add: PATH_MAX_def)
  then show ?thesis by (simp add: get_sysarg_path_def ex_argument_registers) (simp add: ex_argument_def)
qed


subsection \<open>Netlink replies\<close>

text \<open>
  C31. Type of the netlink replies: whatever the request and the interfaces, addresses and routes of
  the host, what is built stays within the buffer, is a sequence of well-formed messages that carry
  the sequence number of the request and the port of the tracee, and ends with NLMSG_DONE if a dump
  was asked for.
\<close>

theorem netlink_reply_well_formed:
  assumes "host_net_ok H" and "length out = MAX_FAKE_NETLINK_REPLY"
    and "netlink_reply H req out MAX_FAKE_NETLINK_REPLY pid = Inr (buf, off)"
  shows "length buf = MAX_FAKE_NETLINK_REPLY \<and> off \<le> MAX_FAKE_NETLINK_REPLY
    \<and> (\<exists>ms. messages (take off buf) = Some ms
        \<and> (\<forall>m \<in> set ms. msg_seq m = take_bit 32 (get 4 8 req) \<and> msg_pid m = take_bit 32 pid)
        \<and> (dump_request req \<longrightarrow> ms \<noteq> [] \<and> msg_type (last ms) = NLMSG_DONE))"
proof -
  have reply: "reply_ok MAX_FAKE_NETLINK_REPLY (get 4 8 req) pid MAX_FAKE_NETLINK_REPLY (buf, off)"
    "dump_request req \<Longrightarrow> ended (buf, off)"
    using netlink_reply_ok[OF assms(1,2) _ assms(3)] by (simp_all add: MAX_FAKE_NETLINK_REPLY_def)
  have whole: "messages (take off buf) = Some ms" if "reads (buf, off) ms" for ms
    using that[unfolded reads_def, rule_format, of "[]"] by simp
  obtain ms where ms: "reads (buf, off) ms" "\<forall>m \<in> set ms. numbered (get 4 8 req) pid m"
    using reply(1) by (auto simp: reply_ok_def)
  have "ms \<noteq> [] \<and> msg_type (last ms) = NLMSG_DONE" if "dump_request req"
    using reply(2)[OF that] whole whole[OF ms(1)] by (auto simp: ended_def)
  then show ?thesis
    using reply(1) whole[OF ms(1)] ms(2) by (auto simp: reply_ok_def numbered_def)
qed

definition ex_getlink :: "byte list" where
  "ex_getlink = le 4 32 @ le 2 RTM_GETLINK @ le 2 (1 OR NLM_F_DUMP) @ le 4 77 @ replicate 20 0"

definition ex_host_net :: Host_Net where
  "ex_host_net = \<lparr>hn_getifaddrs = None, hn_nametoindex = (\<lambda>n. 0), hn_inet_socket = False,
     hn_mtu = (\<lambda>n. None), hn_hwaddr = (\<lambda>n. None), hn_route_dump = (\<lambda>s f. None)\<rparr>"

theorem netlink_reply_well_formed_witness:
  "\<exists>buf off ms. netlink_reply ex_host_net ex_getlink (replicate 8192 0) MAX_FAKE_NETLINK_REPLY 42 = Inr (buf, off)
    \<and> messages (take off buf) = Some ms \<and> off \<le> 8192"
proof -
  have "get 2 4 ex_getlink = take_bit (8 * 2) RTM_GETLINK"
    by (rule get_at[of 2 4 "le 4 32"]) (simp_all add: ex_getlink_def)
  then have "get 2 4 ex_getlink = RTM_GETLINK" by (simp add: RTM_GETLINK_def)
  then obtain buf off where r: "netlink_reply ex_host_net ex_getlink (replicate 8192 0) MAX_FAKE_NETLINK_REPLY 42
      = Inr (buf, off)"
    by (simp add: netlink_reply_def Let_def) (metis prod.exhaust)
  have "host_net_ok ex_host_net" by (simp add: host_net_ok_def ex_host_net_def)
  from netlink_reply_well_formed[OF this _ r] r show ?thesis
    by (auto simp: MAX_FAKE_NETLINK_REPLY_def)
qed

end
