(* ===== verification/Mounts.thy ===== *)
theory Mounts
  imports Init_Bindings Sysargs
begin

section \<open>Emulation of mounts\<close>

text \<open>
  \<open>guest_canonicalize\<close>, \<open>emulate_mount\<close>, \<open>emulate_umount\<close>, \<open>emulate_pivot_root\<close> and the three
  functions that read their arguments, of syscall/enter.c: the mount calls of the tracee become
  changes of its bindings.  These functions return nothing: \<open>Inl Undefined\<close> is an undefined
  execution, every failure of the source is an early return.  The objects of the snapshot of
  \<open>emulate_pivot_root\<close> keep their value when they leave the lists (the source reads them even where
  Talloc may have released them).
\<close>

unbundle bit_operations_syntax

subsection \<open>The operations\<close>

definition MS_REMOUNT :: word_t where "MS_REMOUNT = 32"
definition MS_BIND :: word_t where "MS_BIND = 4096"

definition guest_canonicalize ::
  "'w Env \<Rightarrow> Tracee \<Rightarrow> 'w \<Rightarrow> string \<Rightarrow> string res \<times> Tracee \<times> 'w" where
  "guest_canonicalize E t w user_path =
     (case (if char_at user_path 0 = CHR ''/'' then Inr ''/'' else getcwd2 E (Some t) w) of
        Inl e \<Rightarrow> (Inl e, t, w)
      | Inr guest_path \<Rightarrow>
          (case canonicalize E user_path True guest_path 0 t w of
             (Inl e, t, w) \<Rightarrow> (Inl e, t, w)
           | (Inr guest_path, t, w) \<Rightarrow> (chop_finality guest_path, t, w)))"

text \<open>
  The host directory of a mount, before its end is chopped: \<open>None\<close> where the function returns.  The
  error of \<open>translate_path\<close> is kept only where it is undefined.
\<close>

definition mount_source ::
  "'w Env \<Rightarrow> string \<Rightarrow> string \<Rightarrow> word_t \<Rightarrow> Tracee \<Rightarrow> 'w \<Rightarrow> string option res \<times> Tracee \<times> 'w" where
  "mount_source E src_user fstype flags t w =
     (if flags AND MS_REMOUNT \<noteq> 0 then (Inr None, t, w)
      else if flags AND MS_BIND \<noteq> 0 then
        (case translate_path E t w AT_FDCWD src_user True of
           (Inl Undefined, t, w) \<Rightarrow> (Inl Undefined, t, w)
         | (Inl (Errno e), t, w) \<Rightarrow> (Inr None, t, w)
         | (Inr host_path, t, w) \<Rightarrow> (Inr (Some host_path), t, w))
      else if fstype = ''proc'' then (Inr (Some ''/proc''), t, w)
      else if fstype = ''sysfs'' then (Inr (Some ''/sys''), t, w)
      else if fstype = ''devtmpfs'' then (Inr (Some ''/dev''), t, w)
      else if fstype = ''devpts'' then (Inr (Some ''/dev/pts''), t, w)
      else if fstype = ''tmpfs'' then
        (case h_create_temp_directory E w of
           (None, w) \<Rightarrow> (Inr None, t, w)
         | (Some tmpdir, w) \<Rightarrow> (Inr (Some (take (PATH_MAX - 1) tmpdir)), t, w))
      else (Inr None, t, w))"

definition insert_mount :: "string \<Rightarrow> string \<Rightarrow> Tracee \<Rightarrow> Tracee" where
  "insert_mount host_path guest_path t =
     t\<lparr>t_fs := insort_binding3 (t_fs t) (fresh_addr (t_fs t)) host_path guest_path\<rparr>"

definition emulate_mount ::
  "'w Env \<Rightarrow> string \<Rightarrow> string \<Rightarrow> string \<Rightarrow> word_t \<Rightarrow> Tracee \<Rightarrow> 'w \<Rightarrow> (Tracee \<times> 'w) res" where
  "emulate_mount E src_user target_user fstype flags t w =
     (case mount_source E src_user fstype flags t w of
        (Inl e, t, w) \<Rightarrow> Inl e
      | (Inr None, t, w) \<Rightarrow> Inr (t, w)
      | (Inr (Some host_path), t, w) \<Rightarrow>
          (case chop_finality host_path of
             Inl e \<Rightarrow> Inl e
           | Inr host_path \<Rightarrow>
               (case guest_canonicalize E t w target_user of
                  (Inl Undefined, t, w) \<Rightarrow> Inl Undefined
                | (Inl (Errno e), t, w) \<Rightarrow> Inr (t, w)
                | (Inr guest_path, t, w) \<Rightarrow> Inr (insert_mount host_path guest_path t, w))))"

definition remove_mount :: "Binding \<Rightarrow> Tracee \<Rightarrow> Tracee" where
  "remove_mount b t = t\<lparr>t_fs := remove_binding_from_all_lists (t_fs t) b\<rparr>"

definition emulate_umount :: "'w Env \<Rightarrow> string \<Rightarrow> Tracee \<Rightarrow> 'w \<Rightarrow> (Tracee \<times> 'w) res" where
  "emulate_umount E target_user t w =
     (case guest_canonicalize E t w target_user of
        (Inl Undefined, t, w) \<Rightarrow> Inl Undefined
      | (Inl (Errno e), t, w) \<Rightarrow> Inr (t, w)
      | (Inr guest_path, t, w) \<Rightarrow>
          (if guest_path = ''/'' then Inr (t, w)
           else
             (case get_binding (t_fs t) GUEST guest_path of
                None \<Rightarrow> Inr (t, w)
              | Some binding \<Rightarrow>
                  (if path_str (b_guest binding) \<noteq> guest_path then Inr (t, w)
                   else Inr (remove_mount binding t, w)))))"

text \<open>Where the previous root becomes reachable, if anywhere: the part of \<open>put_old\<close> below the new root.\<close>

definition put_old_below :: "string \<Rightarrow> string \<Rightarrow> string option" where
  "put_old_below new_root_guest put_old_guest =
     (let new_root_len = length new_root_guest in
      if new_root_len > 0 \<and> take new_root_len put_old_guest = new_root_guest
         \<and> (char_at put_old_guest new_root_len = CHR ''/''
            \<or> (new_root_len = 1 \<and> char_at new_root_guest 0 = CHR ''/''))
      then
        (let after = drop (if new_root_len = 1 then 0 else new_root_len) put_old_guest
         in if char_at after 0 = CHR ''/'' \<and> char_at after 1 \<noteq> NUL
            then Some (take (PATH_MAX - 1) after) else None)
      else None)"

text \<open>
  The turn of the loop over the snapshot.  A new object has an address that no object of the lists
  or of the snapshot has.
\<close>

definition insert_pivoted :: "Binding list \<Rightarrow> string \<Rightarrow> string \<Rightarrow> FileSystemNameSpace \<Rightarrow> FileSystemNameSpace" where
  "insert_pivoted snapshot host_path guest_path fs =
     insort_binding3 fs (fresh_addr fs + sum_list (map b_addr snapshot)) host_path guest_path"

definition pivot_binding ::
  "Binding list \<Rightarrow> Binding \<Rightarrow> string \<Rightarrow> string option \<Rightarrow> Binding \<Rightarrow> FileSystemNameSpace \<Rightarrow> FileSystemNameSpace"
  where
  "pivot_binding snapshot root_binding new_root_guest put_old_after b fs =
     (let guest = path_str (b_guest b); blen = length guest; new_root_len = length new_root_guest in
      if b_addr b = b_addr root_binding \<or> guest = ''/'' then fs
      else if new_root_len > 0 \<and> blen > new_root_len \<and> take new_root_len guest = new_root_guest
              \<and> char_at guest new_root_len = CHR ''/''
      then remove_binding_from_all_lists
             (insert_pivoted snapshot (path_str (b_host b)) (drop new_root_len guest) fs) b
      else
        (case put_old_after of
           None \<Rightarrow> fs
         | Some put_old \<Rightarrow>
             (if take (length put_old) guest = put_old
                 \<and> (char_at guest (length put_old) = NUL \<or> char_at guest (length put_old) = CHR ''/'')
              then fs
              else if length (put_old @ guest) \<ge> PATH_MAX then fs
              else insert_pivoted snapshot (path_str (b_host b)) (put_old @ guest) fs)))"

definition pivot_bindings ::
  "string \<Rightarrow> string \<Rightarrow> string option \<Rightarrow> Binding \<Rightarrow> FileSystemNameSpace \<Rightarrow> FileSystemNameSpace" where
  "pivot_bindings new_root_host new_root_guest put_old_after root_binding fs =
     (let old_root_host = take (PATH_MAX - 1) (path_str (b_host root_binding));
          snapshot = foreach fs GUEST;
          fs = remove_binding_from_all_lists fs root_binding;
          fs = insert_pivoted snapshot new_root_host ''/'' fs;
          fs = (case put_old_after of
                  Some put_old \<Rightarrow> insert_pivoted snapshot old_root_host put_old fs
                | None \<Rightarrow> fs)
      in fold (pivot_binding snapshot root_binding new_root_guest put_old_after) snapshot fs)"

definition emulate_pivot_root ::
  "'w Env \<Rightarrow> string \<Rightarrow> string \<Rightarrow> Tracee \<Rightarrow> 'w \<Rightarrow> (Tracee \<times> 'w) res" where
  "emulate_pivot_root E new_root_user put_old_user t w =
     (case translate_path E t w AT_FDCWD new_root_user True of
        (Inl Undefined, t, w) \<Rightarrow> Inl Undefined
      | (Inl (Errno e), t, w) \<Rightarrow> Inr (t, w)
      | (Inr new_root_host, t, w) \<Rightarrow>
          (case chop_finality new_root_host of
             Inl e \<Rightarrow> Inl e
           | Inr new_root_host \<Rightarrow>
               (case guest_canonicalize E t w new_root_user of
                  (Inl Undefined, t, w) \<Rightarrow> Inl Undefined
                | (Inl (Errno e), t, w) \<Rightarrow> Inr (t, w)
                | (Inr new_root_guest, t, w) \<Rightarrow>
                    (case canonicalize E put_old_user True
                            (if char_at put_old_user 0 = CHR ''/'' then ''/'' else new_root_guest) 0 t w of
                       (Inl Undefined, t, w) \<Rightarrow> Inl Undefined
                     | (Inl (Errno e), t, w) \<Rightarrow> Inr (t, w)
                     | (Inr put_old_guest, t, w) \<Rightarrow>
                         (case get_binding (t_fs t) GUEST ''/'' of
                            None \<Rightarrow> Inr (t, w)
                          | Some root_binding \<Rightarrow>
                              Inr (t\<lparr>t_fs := pivot_bindings new_root_host new_root_guest
                                       (put_old_below new_root_guest put_old_guest) root_binding (t_fs t)\<rparr>, w))))))"

text \<open>
  The arguments of the calls: paths that cannot be read make them do nothing.  The buffer of the
  type of file system has 256 bytes, the last one being a NUL; where the reading fails the name is not
  known, and is taken as empty.
\<close>

definition update :: "(Tracee \<times> 'w) res \<Rightarrow> ('k, 'w, 'z) Sys_scheme \<Rightarrow> ('k, 'w, 'z) Sys_scheme res" where
  "update r s = (case r of Inl e \<Rightarrow> Inl e | Inr (t, w) \<Rightarrow> Inr (s\<lparr>s_tracee := t, s_world := w\<rparr>))"

definition read_fstype :: "'k Ptrace_Mem \<Rightarrow> 'k \<Rightarrow> word_t \<Rightarrow> string" where
  "read_fstype P k fstype_addr =
     (if fstype_addr = 0 then []
      else (case read_string P k fstype_addr 255 of Inl e \<Rightarrow> [] | Inr (bs, n) \<Rightarrow> string_of bs))"

definition apply_emulated_umount ::
  "'k Ptrace_Mem \<Rightarrow> 'w Env \<Rightarrow> ('k, 'w, 'z) Sys_scheme \<Rightarrow> ('k, 'w, 'z) Sys_scheme res" where
  "apply_emulated_umount P E s =
     (case get_sysarg_path P SYSARG_1 s of
        Inl e \<Rightarrow> Inr s
      | Inr target_user \<Rightarrow> update (emulate_umount E target_user (s_tracee s) (s_world s)) s)"

definition apply_emulated_mount ::
  "'k Ptrace_Mem \<Rightarrow> 'w Env \<Rightarrow> ('k, 'w, 'z) Sys_scheme \<Rightarrow> ('k, 'w, 'z) Sys_scheme res" where
  "apply_emulated_mount P E s =
     (case get_sysarg_path P SYSARG_1 s of
        Inl e \<Rightarrow> Inr s
      | Inr src_user \<Rightarrow>
          (case get_sysarg_path P SYSARG_2 s of
             Inl e \<Rightarrow> Inr s
           | Inr target_user \<Rightarrow>
               update (emulate_mount E src_user target_user (read_fstype P (s_mem s) (peek s SYSARG_3))
                         (peek s SYSARG_4) (s_tracee s) (s_world s)) s))"

definition apply_emulated_pivot_root ::
  "'k Ptrace_Mem \<Rightarrow> 'w Env \<Rightarrow> ('k, 'w, 'z) Sys_scheme \<Rightarrow> ('k, 'w, 'z) Sys_scheme res" where
  "apply_emulated_pivot_root P E s =
     (case get_sysarg_path P SYSARG_1 s of
        Inl e \<Rightarrow> Inr s
      | Inr new_root_user \<Rightarrow>
          (case get_sysarg_path P SYSARG_2 s of
             Inl e \<Rightarrow> Inr s
           | Inr put_old_user \<Rightarrow>
               update (emulate_pivot_root E new_root_user put_old_user (s_tracee s) (s_world s)) s))"

subsection \<open>Insertion and removal keep the lists sorted\<close>

lemma remove_binding_sorted:
  assumes "sorted_fs fs"
  shows "sorted_fs (remove_binding_from_all_lists fs b)"
    and "set (foreach (remove_binding_from_all_lists fs b) GUEST) =
      {x \<in> set (foreach fs GUEST). b_addr x \<noteq> b_addr b}"
proof -
  from assms obtain gs hs where fs: "fs_guest fs = Some gs" "fs_host fs = Some hs" "set gs = set hs"
    "\<forall>b \<in> set gs. wf_binding b" "distinct (map b_addr gs)" "distinct (map b_addr hs)"
    "distinct (map guest_key gs)" "nested compare_paths guest_key gs" "nested compare_paths host_key hs"
    by (auto simp: sorted_fs_def)
  then show "sorted_fs (remove_binding_from_all_lists fs b)"
    by (auto simp: sorted_fs_def remove_binding_from_all_lists_def remove_addr_def nested_def
        distinct_map_filter sorted_wrt_filter)
  show "set (foreach (remove_binding_from_all_lists fs b) GUEST) =
      {x \<in> set (foreach fs GUEST). b_addr x \<noteq> b_addr b}"
    using fs(1) by (auto simp: foreach_def HEAD_def remove_binding_from_all_lists_def remove_addr_def)
qed

lemma insort_binding3_sorted:
  assumes "sorted_fs fs" and "path_ok h" and "path_ok g"
    and "\<forall>x \<in> set (foreach fs GUEST). b_addr x \<noteq> a"
  shows "sorted_fs (insort_binding3 fs a h g)"
    and "\<exists>b. guest_key b = g \<and> host_key b = h \<and> b_addr b = a \<and>
      set (foreach (insort_binding3 fs a h g) GUEST) =
        insert b {x \<in> set (foreach fs GUEST). guest_key x \<noteq> g}"
proof -
  have wf: "wf_Path (mk_Path h)" "wf_Path (mk_Path g)"
    using assms(2,3) by (simp_all add: wf_Path_def mk_Path_def path_ok_def)
  define b where "b = \<lparr>b_addr = a, b_host = mk_Path h, b_guest = mk_Path g, need_substitution = False\<rparr>"
  have b: "b_host b = mk_Path h" "b_guest b = mk_Path g" "b_addr b = a" "guest_key b = g" "host_key b = h"
    by (simp_all add: b_def guest_key_def host_key_def mk_Path_def)
  note ins = insort_binding2_sorted[OF assms(1), of b]
  have eq: "insort_binding3 fs a h g = insort_binding2 fs b"
    by (simp add: insort_binding3_def b_def)
  show "sorted_fs (insort_binding3 fs a h g)"
    unfolding eq using ins(1) wf assms(4) b by simp
  show "\<exists>b. guest_key b = g \<and> host_key b = h \<and> b_addr b = a \<and>
      set (foreach (insort_binding3 fs a h g) GUEST) =
        insert b {x \<in> set (foreach fs GUEST). guest_key x \<noteq> g}"
    unfolding eq using ins(2) wf assms(4) b by simp
qed

lemma bindings_of_foreach: "bindings_of fs = set (foreach fs GUEST)"
  by (simp add: bindings_of_def)

lemma insort_binding3_wf:
  assumes "wf_fs fs" and "path_ok h" and "path_ok g" and "\<forall>x \<in> bindings_of fs. b_addr x \<noteq> a"
  shows "wf_fs (insort_binding3 fs a h g)"
    and "\<exists>b. guest_key b = g \<and> host_key b = h \<and>
      bindings_of (insort_binding3 fs a h g) = insert b {x \<in> bindings_of fs. guest_key x \<noteq> g}"
proof -
  have s: "sorted_fs fs" "\<exists>r \<in> bindings_of fs. guest_key r = ''/''"
    using assms(1) by (simp_all add: wf_fs_sorted bindings_of_foreach)
  note ins = insort_binding3_sorted[OF s(1) assms(2,3) assms(4)[unfolded bindings_of_foreach]]
  show e: "\<exists>b. guest_key b = g \<and> host_key b = h \<and>
      bindings_of (insort_binding3 fs a h g) = insert b {x \<in> bindings_of fs. guest_key x \<noteq> g}"
    using ins(2) unfolding bindings_of_foreach by blast
  show "wf_fs (insort_binding3 fs a h g)"
    using ins(1) e s(2) unfolding wf_fs_sorted bindings_of_foreach[symmetric]
    by (cases "g = ''/''") auto
qed

lemma remove_binding_wf:
  assumes "wf_fs fs" and "b \<in> bindings_of fs" and "guest_key b \<noteq> ''/''"
  shows "wf_fs (remove_binding_from_all_lists fs b)"
    and "bindings_of (remove_binding_from_all_lists fs b) = bindings_of fs - {b}"
proof -
  have s: "sorted_fs fs" "\<exists>r \<in> bindings_of fs. guest_key r = ''/''"
    using assms(1) by (simp_all add: wf_fs_sorted bindings_of_foreach)
  have uniq: "x = b" if "x \<in> bindings_of fs" "b_addr x = b_addr b" for x
    using that assms(1,2) by (auto simp: wf_fs_def bindings_of_def foreach_def HEAD_def distinct_map inj_on_def)
  show e: "bindings_of (remove_binding_from_all_lists fs b) = bindings_of fs - {b}"
    using remove_binding_sorted(2)[OF s(1), of b] uniq by (auto simp: bindings_of_foreach)
  show "wf_fs (remove_binding_from_all_lists fs b)"
    using remove_binding_sorted(1)[OF s(1)] s(2) e assms(3)
    unfolding wf_fs_sorted bindings_of_foreach[symmetric] by auto
qed

lemma fresh_addr_bindings: "b \<in> bindings_of fs \<Longrightarrow> b_addr b \<noteq> fresh_addr fs"
  using fresh_addr_fresh[of b fs] by (auto simp: bindings_of_foreach)

subsection \<open>What a mount does\<close>

text \<open>Outside the initialisation of a binding the resolution of a mount changes no binding.\<close>

lemma guest_canonicalize_pure:
  assumes "t_glue_type t = 0" and "guest_canonicalize E t w u = (r, t', w')"
  shows "t' = t"
  using assms pure.canonicalize_effect[of E u True _ 0 t]
  by (auto simp: guest_canonicalize_def split: sum.splits prod.splits if_split_asm)

lemma mount_source_pure:
  assumes "t_glue_type t = 0" and "mount_source E src fstype flags t w = (r, t', w')"
  shows "t' = t"
  using assms pure.translate_path_effect[of E t w AT_FDCWD src True]
  by (auto simp: mount_source_def split: sum.splits prod.splits failure.splits if_split_asm option.splits)

lemma path_ok_slash: "path_ok ''/''"
  by (simp add: path_ok_def PATH_MAX_def)

text \<open>A path whose end was chopped is canonical, unless its last name ends in a dot.\<close>

lemma guest_canonicalize_ok:
  assumes "env_ok E" and "tracee_ok t" and "text_ok user" and "path_ok (fs_cwd (t_fs t))"
    and "guest_canonicalize E t w user = (Inr g, t', w')"
    and "\<And>base q t' w'. canonicalize E user True base 0 t w = (Inr q, t', w') \<Longrightarrow> well_ended q"
  shows "path_ok g \<and> tracee_ok t'"
proof -
  define base where "base = (if char_at user 0 = CHR ''/'' then ''/'' else fs_cwd (t_fs t))"
  have base: "path_ok base" using assms(4) path_ok_slash by (simp add: base_def)
  have "length (fs_cwd (t_fs t)) < PATH_MAX" using assms(4) by (simp add: path_ok_def)
  then have "(if char_at user 0 = CHR ''/'' then Inr ''/'' else getcwd2 E (Some t) w) = Inr base"
    by (simp add: getcwd2_def base_def)
  then obtain q where "canonicalize E user True base 0 t w = (Inr q, t', w')" "chop_finality q = Inr g"
    using assms(5) by (auto simp: guest_canonicalize_def split: sum.splits prod.splits)
  note c = base this
  from canonicalize_contained[OF assms(1,3) c(1) assms(2) c(2)] obtain cs f
    where "tracee_ok t'" "valid_comps cs" "length (path_of cs) < PATH_MAX" "q = with_finality cs f" by blast
  then show ?thesis
    using chop_finality_well_ended[of cs f] assms(6)[OF c(2)] c(3) by (auto simp: path_ok_def)
qed

lemma get_binding_exact:
  assumes "wf_fs fs" and "b \<in> bindings_of fs"
  shows "get_binding fs GUEST (guest_key b) = Some b"
proof -
  have c: "canonical (guest_key b)" using bindings_of_wf[OF assms] wf_binding_paths(1) by blast
  obtain d where d: "d \<in> bindings_of fs" "get_binding fs GUEST (guest_key b) = Some d"
    "Bindings.covers compare_paths (guest_key d) (guest_key b)"
    and deep: "\<forall>y \<in> bindings_of fs. Bindings.covers compare_paths (guest_key y) (guest_key b) \<longrightarrow>
          Bindings.covers compare_paths (guest_key y) (guest_key d)"
    using get_binding_GUEST_deepest[OF assms(1) c] by blast
  have cd: "canonical (guest_key d)" using bindings_of_wf[OF assms(1) d(1)] wf_binding_paths(1) by blast
  have "Bindings.covers compare_paths (guest_key b) (guest_key b)"
    using c by (simp add: Bindings.covers_def compare_paths_equal_iff)
  with deep assms(2) have "Bindings.covers compare_paths (guest_key b) (guest_key d)" by blast
  with d(3) c cd have "guest_key d = guest_key b"
    by (elim canonicalE) (auto simp: covers_paths dest: prefix_order.antisym)
  then have "d = b"
    using assms d(1) by (auto simp: wf_fs_def bindings_of_def foreach_def HEAD_def distinct_map inj_on_def)
  then show ?thesis using d(2) by simp
qed

lemma substitute_binding_exact:
  assumes "wf_fs fs" and "b \<in> bindings_of fs" and "length (host_key b) + 1 < PATH_MAX"
  shows "\<exists>n. substitute_binding fs GUEST (guest_key b) = Inr (n, host_key b)"
proof -
  note wb = bindings_of_wf[OF assms(1,2)]
  obtain gc where gc: "valid_comps gc" "guest_key b = path_of gc" using wf_binding_paths(1)[OF wb] by auto
  have "length (path_of gc) < PATH_MAX" using wf_binding_path_ok(1)[OF wb] by (simp add: path_ok_def gc(2))
  from substitute_binding_GUEST_comps[OF assms(1) gc(1) this]
  obtain d gc' hc rest where d: "get_binding fs GUEST (path_of gc) = Some d" "guest_key d = path_of gc'"
    "host_key d = path_of hc" "valid_comps gc'" "gc = gc' @ rest" "substitute_binding fs GUEST (path_of gc) =
        (if gc' = hc then Inr (0, path_of gc)
         else if substitution_fits gc' hc rest then Inr (1, path_of (hc @ rest))
         else Inr (1, path_of gc))" by blast
  have "d = b" using d(1) get_binding_exact[OF assms(1,2)] gc(2) by simp
  note s = d(2,3,4,5,6)[unfolded this]
  have "gc' = gc" using path_of_inject[OF s(3) gc(1)] s(1) gc(2) by simp
  moreover have "substitution_fits gc' hc []"
    using assms(3) by (auto simp: substitution_fits_def s(2))
  ultimately show ?thesis using s(2,4,5) gc(2) by auto
qed

lemma emulate_mount_binds:
  assumes "wf_fs (t_fs t)" and "t_glue_type t = 0"
    and "mount_source E src fstype flags t w = (Inr (Some h0), t1, w1)" and "chop_finality h0 = Inr h"
    and "guest_canonicalize E t w1 target = (Inr g, t2, w2)" and "path_ok h" and "path_ok g"
  shows "\<exists>t'. emulate_mount E src target fstype flags t w = Inr (t', w2) \<and> t' = t\<lparr>t_fs := t_fs t'\<rparr>
    \<and> wf_fs (t_fs t') \<and> (\<exists>b. guest_key b = g \<and> host_key b = h
        \<and> bindings_of (t_fs t') = insert b {x \<in> bindings_of (t_fs t). guest_key x \<noteq> g})"
proof -
  have t: "t1 = t" "t2 = t"
    using mount_source_pure[OF assms(2,3)] guest_canonicalize_pure[OF assms(2,5)] by simp_all
  have "\<forall>x \<in> bindings_of (t_fs t). b_addr x \<noteq> fresh_addr (t_fs t)"
    using fresh_addr_bindings by blast
  note ins = insort_binding3_wf[OF assms(1,6,7) this]
  have r: "emulate_mount E src target fstype flags t w = Inr (insert_mount h g t, w2)"
    by (simp add: emulate_mount_def assms(3,4,5) t)
  show ?thesis
    by (rule exI[of _ "insert_mount h g t"]) (use r ins in \<open>simp add: insert_mount_def\<close>)
qed

lemma emulate_umount_removes:
  assumes "wf_fs (t_fs t)" and "t_glue_type t = 0"
    and "guest_canonicalize E t w target = (Inr g, t1, w1)" and "canonical g"
  shows "\<exists>t'. emulate_umount E target t w = Inr (t', w1) \<and> t' = t\<lparr>t_fs := t_fs t'\<rparr>
    \<and> wf_fs (t_fs t')
    \<and> bindings_of (t_fs t') = {x \<in> bindings_of (t_fs t). guest_key x = ''/'' \<or> guest_key x \<noteq> g}"
proof -
  have t: "t1 = t" using guest_canonicalize_pure[OF assms(2,3)] .
  obtain b where b: "b \<in> bindings_of (t_fs t)" "get_binding (t_fs t) GUEST g = Some b"
    using get_binding_GUEST_deepest[OF assms(1,4)] by blast
  have key: "path_str (b_guest b) = guest_key b" by (simp add: guest_key_def)
  have exact: "guest_key b = g" if "x \<in> bindings_of (t_fs t)" "guest_key x = g" for x
    using get_binding_exact[OF assms(1) that(1)] that(2) b(2) by simp
  show ?thesis
  proof (cases "g \<noteq> ''/'' \<and> guest_key b = g")
    case True
    have uniq: "x = b" if "x \<in> bindings_of (t_fs t)" "guest_key x = g" for x
      using get_binding_exact[OF assms(1) that(1)] that(2) b(2) by simp
    have "bindings_of (t_fs t) - {b} = {x \<in> bindings_of (t_fs t). guest_key x = ''/'' \<or> guest_key x \<noteq> g}"
      using uniq True by auto
    moreover have "emulate_umount E target t w = Inr (remove_mount b t, w1)"
      using True b(2) by (simp add: emulate_umount_def assms(3) t key)
    ultimately show ?thesis
      using remove_binding_wf[OF assms(1) b(1)] True
      by (intro exI[of _ "remove_mount b t"]) (simp add: remove_mount_def)
  next
    case False
    then have "emulate_umount E target t w = Inr (t, w1)"
      using b(2) by (auto simp: emulate_umount_def assms(3) t key)
    moreover have "bindings_of (t_fs t) = {x \<in> bindings_of (t_fs t). guest_key x = ''/'' \<or> guest_key x \<noteq> g}"
      using False exact by auto
    ultimately show ?thesis using assms(1) by (intro exI[of _ t]) simp
  qed
qed

subsection \<open>What a change of root does\<close>

text \<open>The part of a canonical path below another one is canonical.\<close>

lemma below_canonical:
  assumes "canonical a" and "path_ok p" and "length a < length p" and "take (length a) p = a"
    and "p ! length a = CHR ''/''"
  shows "path_ok (drop (length a) p) \<and> drop (length a) p \<noteq> ''/''"
proof -
  obtain as ps where as: "valid_comps as" "a = path_of as" and ps: "valid_comps ps" "p = path_of ps"
    using assms(1,2) by (auto simp: path_ok_def)
  have p: "p = a @ drop (length a) p" using assms(4) by (metis append_take_drop_id)
  have h: "hd (drop (length a) p) = CHR ''/''" using assms(3,5) by (simp add: hd_drop_conv_nth)
  show ?thesis
  proof (cases "as = []")
    case True
    then have "1 < length p" "p ! 1 = CHR ''/''" using assms(3,5) as by simp_all
    moreover obtain c cs where "ps = c # cs" "c \<noteq> []" "CHR ''/'' \<notin> set c"
      using ps \<open>1 < length p\<close> by (cases ps) (auto simp: valid_comp_def)
    ultimately show ?thesis using ps by (cases c) auto
  next
    case False
    have "ps \<noteq> []"
    proof
      assume "ps = []"
      then have "length a < 1" using assms(3) ps by simp
      then show False using as by simp
    qed
    then have "slashed ps = slashed as @ drop (length a) p"
      using p ps as False by simp
    from slashed_prefix_sep[OF as(1) ps(1) this] h obtain rest
      where rest: "ps = as @ rest" "drop (length a) p = slashed rest" by blast
    have "rest \<noteq> []" using rest(2) assms(3) by auto
    moreover have "valid_comps rest" using ps(1) rest(1) by simp
    moreover have "length (drop (length a) p) < PATH_MAX" using assms(2) by (auto simp: path_ok_def)
    ultimately show ?thesis
      using rest(2) slashed_neq_slash[of rest] canonicalI[of rest] by (simp add: path_ok_def)
  qed
qed

lemma put_old_below_ok:
  assumes "canonical a" and "path_ok p" and "put_old_below a p = Some q"
  shows "path_ok q \<and> q \<noteq> ''/''"
proof -
  obtain ps where ps: "valid_comps ps" "p = path_of ps" using assms(2) by (auto simp: path_ok_def)
  let ?n = "if length a = 1 then 0 else length a"
  have q: "q = take (PATH_MAX - 1) (drop ?n p)" "take (length a) p = a"
    "char_at (drop ?n p) 0 = CHR ''/''" "char_at (drop ?n p) 1 \<noteq> NUL"
    using assms(3) by (auto simp: put_old_below_def Let_def split: if_split_asm)
  have q': "q = drop ?n p" using q(1) assms(2) by (auto simp: path_ok_def)
  have len: "1 < length (drop ?n p)" using q(4) by (rule contrapos_np) simp
  show ?thesis
  proof (cases "length a = 1")
    case True
    then show ?thesis using q' len assms(2) by auto
  next
    case False
    then have l: "length a < length p" using len by simp
    moreover have "p ! length a = CHR ''/''" using q(3) l False by simp
    ultimately show ?thesis using below_canonical[OF assms(1,2) l q(2)] q' False by simp
  qed
qed

lemma alias_canonical:
  assumes "path_ok a" and "path_ok g" and "a \<noteq> ''/''" and "g \<noteq> ''/''" and "length (a @ g) < PATH_MAX"
  shows "path_ok (a @ g)" and "a @ g \<noteq> ''/''"
proof -
  obtain as gs where "valid_comps as" "a = path_of as" "valid_comps gs" "g = path_of gs"
    using assms(1,2) by (auto simp: path_ok_def)
  then show "path_ok (a @ g)" "a @ g \<noteq> ''/''"
    using assms(3-5) canonicalI[of "as @ gs"] slashed_neq_slash[of "as @ gs"]
    by (cases "as = []"; cases "gs = []"; simp add: path_ok_def)+
qed

text \<open>
  What holds between two turns of the loop: the lists are sorted, and the root is the new one, whose
  object is not in the snapshot.
\<close>

definition pivoted :: "Binding list \<Rightarrow> string \<Rightarrow> FileSystemNameSpace \<Rightarrow> bool" where
  "pivoted snapshot root fs \<longleftrightarrow> sorted_fs fs
     \<and> (\<exists>r \<in> bindings_of fs. guest_key r = ''/'' \<and> host_key r = root \<and> b_addr r \<notin> b_addr ` set snapshot)"

lemma fresh_pivoted:
  "b \<in> bindings_of fs \<Longrightarrow> b_addr b \<noteq> fresh_addr fs + sum_list (map b_addr snapshot)"
  "fresh_addr fs + sum_list (map b_addr snapshot) \<notin> b_addr ` set snapshot"
proof -
  show "b_addr b \<noteq> fresh_addr fs + sum_list (map b_addr snapshot)" if "b \<in> bindings_of fs"
    using fresh_addr_fresh[of b fs] that by (simp add: bindings_of_foreach)
  show "fresh_addr fs + sum_list (map b_addr snapshot) \<notin> b_addr ` set snapshot"
  proof
    assume "fresh_addr fs + sum_list (map b_addr snapshot) \<in> b_addr ` set snapshot"
    then obtain x where "x \<in> set snapshot" "b_addr x = fresh_addr fs + sum_list (map b_addr snapshot)" by auto
    moreover have "0 < fresh_addr fs" by (simp add: fresh_addr_def)
    moreover have "b_addr x \<le> sum_list (map b_addr snapshot)"
      using \<open>x \<in> set snapshot\<close> by (intro member_le_sum_list) simp_all
    ultimately show False by simp
  qed
qed

lemma insert_pivoted_sorted:
  assumes "sorted_fs fs" and "path_ok h" and "path_ok g"
  shows "sorted_fs (insert_pivoted snapshot h g fs)"
    and "\<exists>b. guest_key b = g \<and> host_key b = h \<and> b_addr b \<notin> b_addr ` set snapshot \<and>
      bindings_of (insert_pivoted snapshot h g fs) = insert b {x \<in> bindings_of fs. guest_key x \<noteq> g}"
proof -
  let ?a = "fresh_addr fs + sum_list (map b_addr snapshot)"
  have "\<forall>x \<in> set (foreach fs GUEST). b_addr x \<noteq> ?a"
    using fresh_pivoted(1) unfolding bindings_of_foreach[symmetric] by blast
  note ins = insort_binding3_sorted[OF assms this, folded insert_pivoted_def bindings_of_foreach]
  show "sorted_fs (insert_pivoted snapshot h g fs)" by (rule ins(1))
  show "\<exists>b. guest_key b = g \<and> host_key b = h \<and> b_addr b \<notin> b_addr ` set snapshot \<and>
      bindings_of (insert_pivoted snapshot h g fs) = insert b {x \<in> bindings_of fs. guest_key x \<noteq> g}"
    using ins(2) fresh_pivoted(2)[of fs snapshot] by metis
qed

lemma pivoted_insert:
  assumes "pivoted snapshot root fs" and "path_ok h" and "path_ok g" and "g \<noteq> ''/''"
  shows "pivoted snapshot root (insert_pivoted snapshot h g fs)"
proof -
  have s: "sorted_fs fs" using assms(1) by (simp add: pivoted_def)
  show ?thesis
    using insert_pivoted_sorted[OF s assms(2,3), of snapshot] assms(1,4) unfolding pivoted_def by auto
qed

lemma pivoted_remove:
  assumes "pivoted snapshot root fs" and "b \<in> set snapshot"
  shows "pivoted snapshot root (remove_binding_from_all_lists fs b)"
  using assms remove_binding_sorted[of fs b] unfolding pivoted_def bindings_of_foreach by auto

lemma pivot_binding_pivoted:
  assumes "pivoted snapshot root fs" and "b \<in> set snapshot" and "wf_binding b" and "canonical new_root"
    and "\<And>q. put_old = Some q \<Longrightarrow> path_ok q \<and> q \<noteq> ''/''"
  shows "pivoted snapshot root (pivot_binding snapshot r new_root put_old b fs)"
proof -
  have keys: "path_ok (path_str (b_guest b))" "path_ok (path_str (b_host b))"
    using wf_binding_path_ok[OF assms(3)] by (simp_all add: guest_key_def host_key_def)
  let ?g = "path_str (b_guest b)"
  show ?thesis
  proof (cases "b_addr b = b_addr r \<or> ?g = ''/''")
    case True
    then have "pivot_binding snapshot r new_root put_old b fs = fs"
      unfolding pivot_binding_def Let_def by (rule if_P)
    then show ?thesis using assms(1) by simp
  next
    case kept: False
    show ?thesis
    proof (cases "length new_root > 0 \<and> length ?g > length new_root \<and> take (length new_root) ?g = new_root
        \<and> char_at ?g (length new_root) = CHR ''/''")
      case True
      then have eq: "pivot_binding snapshot r new_root put_old b fs = remove_binding_from_all_lists
          (insert_pivoted snapshot (path_str (b_host b)) (drop (length new_root) ?g) fs) b"
        using kept unfolding pivot_binding_def Let_def by (simp only: if_True if_False simp_thms)
      have "?g ! length new_root = CHR ''/''" using True by auto
      then have "path_ok (drop (length new_root) ?g) \<and> drop (length new_root) ?g \<noteq> ''/''"
        using True by (intro below_canonical assms(4) keys(1)) simp_all
      then show ?thesis
        unfolding eq by (intro pivoted_remove pivoted_insert assms(1,2) keys(2)) simp_all
    next
      case below: False
      show ?thesis
      proof (cases put_old)
        case None
        then have "pivot_binding snapshot r new_root put_old b fs = fs"
          using kept below unfolding pivot_binding_def Let_def
          by (simp only: if_False simp_thms option.case)
        then show ?thesis using assms(1) by simp
      next
        case (Some q)
        then have eq: "pivot_binding snapshot r new_root put_old b fs =
            (if take (length q) ?g = q \<and> (char_at ?g (length q) = NUL \<or> char_at ?g (length q) = CHR ''/'')
             then fs
             else if length (q @ ?g) \<ge> PATH_MAX then fs
             else insert_pivoted snapshot (path_str (b_host b)) (q @ ?g) fs)"
          using kept below unfolding pivot_binding_def Let_def
          by (simp only: if_False simp_thms option.case)
        have q: "path_ok q" "q \<noteq> ''/''" using assms(5)[OF Some] by simp_all
        have "pivoted snapshot root (insert_pivoted snapshot (path_str (b_host b)) (q @ ?g) fs)"
          if "length (q @ ?g) < PATH_MAX"
          using kept by (intro pivoted_insert assms(1) keys(2) alias_canonical[OF q(1) keys(1) q(2) _ that]) simp_all
        then show ?thesis using assms(1) unfolding eq by (simp only: not_le split: if_split) blast
      qed
    qed
  qed
qed

lemma pivot_bindings_ok:
  assumes fs: "wf_fs fs" and root: "root \<in> bindings_of fs" and host: "path_ok new_host"
    and guest: "canonical new_root" and put_old: "\<And>q. put_old = Some q \<Longrightarrow> path_ok q \<and> q \<noteq> ''/''"
  shows "wf_fs (pivot_bindings new_host new_root put_old root fs)
    \<and> root_path (pivot_bindings new_host new_root put_old root fs) = new_host"
proof -
  define snapshot where "snapshot = foreach fs GUEST"
  define fs1 where "fs1 = remove_binding_from_all_lists fs root"
  define fs2 where "fs2 = insert_pivoted snapshot new_host ''/'' fs1"
  define old where "old = take (PATH_MAX - 1) (path_str (b_host root))"
  define fs3 where "fs3 = (case put_old of Some q \<Rightarrow> insert_pivoted snapshot old q fs2 | None \<Rightarrow> fs2)"
  have wf: "\<forall>b \<in> set snapshot. wf_binding b"
    using bindings_of_wf[OF fs] by (simp add: snapshot_def bindings_of_foreach)
  have "path_ok (path_str (b_host root))"
    using wf_binding_path_ok(2)[OF bindings_of_wf[OF fs root]] by (simp add: host_key_def)
  then have "path_ok (path_str (b_host root))" and "old = path_str (b_host root)"
    by (auto simp: old_def path_ok_def)
  then have old: "path_ok old" by simp
  have s1: "sorted_fs fs1"
    unfolding fs1_def using fs by (intro remove_binding_sorted(1)) (simp add: wf_fs_sorted)
  have 2: "pivoted snapshot new_host fs2"
    using insert_pivoted_sorted[OF s1 host path_ok_slash, of snapshot]
    unfolding pivoted_def fs2_def by auto
  have 3: "pivoted snapshot new_host fs3"
    using 2 pivoted_insert[OF 2 old] put_old by (cases put_old) (auto simp: fs3_def)
  have fold: "pivoted snapshot new_host (fold (pivot_binding snapshot root new_root put_old) bs fs0)"
    if "pivoted snapshot new_host fs0" "set bs \<subseteq> set snapshot" for bs fs0
    using that
  proof (induction bs arbitrary: fs0)
    case (Cons b bs)
    have "pivoted snapshot new_host (pivot_binding snapshot root new_root put_old b fs0)"
      using Cons.prems wf by (intro pivot_binding_pivoted guest put_old) auto
    then show ?case using Cons.IH Cons.prems(2) by simp
  qed simp
  have end_eq: "pivot_bindings new_host new_root put_old root fs
      = fold (pivot_binding snapshot root new_root put_old) snapshot fs3"
    by (simp only: pivot_bindings_def Let_def snapshot_def[symmetric] fs1_def[symmetric] fs2_def[symmetric]
        old_def[symmetric] fs3_def[symmetric])
  define fs' where "fs' = pivot_bindings new_host new_root put_old root fs"
  have p: "pivoted snapshot new_host fs'" unfolding fs'_def end_eq by (rule fold[OF 3 order_refl])
  then have wf': "wf_fs fs'" unfolding pivoted_def wf_fs_sorted bindings_of_foreach by auto
  obtain r where r: "r \<in> bindings_of fs'" "guest_key r = ''/''" "host_key r = new_host"
    using p by (auto simp: pivoted_def)
  obtain r' where r': "r' \<in> bindings_of fs'" "guest_key r' = ''/''" "root_path fs' = host_key r'"
    using get_root_wf[OF wf'] by metis
  have "r' = r"
    using get_binding_exact[OF wf' r(1)] get_binding_exact[OF wf' r'(1)] r(2) r'(2) by simp
  then show ?thesis using wf' r r' by (simp add: fs'_def)
qed

lemma emulate_pivot_root_ok:
  assumes "wf_fs (t_fs t)" and "t_glue_type t = 0"
    and "translate_path E t w AT_FDCWD new_root True = (Inr h0, t1, w1)" and "chop_finality h0 = Inr h"
    and "guest_canonicalize E t w1 new_root = (Inr g, t2, w2)"
    and "canonicalize E put_old True (if char_at put_old 0 = CHR ''/'' then ''/'' else g) 0 t w2 = (Inr p, t3, w3)"
    and "path_ok h" and "canonical g" and "path_ok p"
  shows "\<exists>t'. emulate_pivot_root E new_root put_old t w = Inr (t', w3) \<and> t' = t\<lparr>t_fs := t_fs t'\<rparr>
    \<and> wf_fs (t_fs t') \<and> root_path (t_fs t') = h"
proof -
  have t: "t1 = t" "t2 = t" "t3 = t"
    using pure.translate_path_effect[OF assms(3)] guest_canonicalize_pure[OF assms(2,5)]
      pure.canonicalize_effect[OF assms(6)] assms(2) by simp_all
  obtain r where r: "r \<in> bindings_of (t_fs t)" "get_binding (t_fs t) GUEST ''/'' = Some r"
    using get_binding_GUEST_deepest[OF assms(1) canonical_root] by blast
  let ?fs = "pivot_bindings h g (put_old_below g p) r (t_fs t)"
  have e: "emulate_pivot_root E new_root put_old t w = Inr (t\<lparr>t_fs := ?fs\<rparr>, w3)"
    by (simp add: emulate_pivot_root_def assms(3,4) t assms(5)[unfolded t] assms(6)[unfolded t] r(2))
  have "wf_fs ?fs \<and> root_path ?fs = h"
    using put_old_below_ok[OF assms(8,9)] by (intro pivot_bindings_ok assms r) auto
  with e show ?thesis by (intro exI[of _ "t\<lparr>t_fs := ?fs\<rparr>"]) simp
qed

end
