(* ===== verification/Chain.thy ===== *)
theory Chain
  imports Heap
begin

section \<open>Chained system calls and the stops of a tracee\<close>

text \<open>
  syscall/chain.c: the queue of the system calls that PRoot makes a tracee execute after one of its
  own; \<open>translate_syscall\<close> of syscall/syscall.c: what happens at each stop of a tracee, at the entry
  or at the exit of a system call, on the arm64 target, which has the work-around for a broken
  PTRACE_POKEDATA.  The translation of the calls themselves and the hooks of the extensions are
  arguments.  The allocations of the queue succeed.
\<close>

subsection \<open>The data\<close>

record chained_syscall =
  cs_sysnum :: nat
  cs_sysargs :: "word_t list"

datatype workaround_state =
    SYSNUM_WORKAROUND_INACTIVE
  | SYSNUM_WORKAROUND_PROCESS_FAULTY_CALL
  | SYSNUM_WORKAROUND_PROCESS_REPLACED_CALL

text \<open>How a tracee is restarted; \<open>RESTART_DEFAULT\<close> is the value 0, not chosen yet.\<close>

datatype restart =
    RESTART_DEFAULT | PTRACE_CONT | PTRACE_SYSCALL | PTRACE_SINGLESTEP | PTRACE_SINGLEBLOCK

text \<open>
  The fields of \<open>Tracee\<close> that concern its stops.  The status is 0 before the entry of a system call,
  1 before its exit, negative before the exit of a call that PRoot refused.
\<close>

record 'k Stop =
  c_regs :: Tracee_Regs
  c_syscalls :: "chained_syscall list option"
  c_force_final_result :: bool
  c_final_result :: word_t
  c_workaround :: workaround_state
  c_restart_how :: restart
  c_status :: int
  c_cancelled :: bool
  c_relaunched :: bool
  c_kernel :: 'k

definition IS_IN_SYSENTER :: "('k, 'z) Stop_scheme \<Rightarrow> bool" where
  "IS_IN_SYSENTER s \<longleftrightarrow> c_status s = 0"

definition c_peek :: "('k, 'z) Stop_scheme \<Rightarrow> RegVersion \<Rightarrow> Reg \<Rightarrow> word_t" where
  "c_peek s version reg = peek_reg (c_regs s) version reg"

definition c_poke :: "Reg \<Rightarrow> word_t \<Rightarrow> ('k, 'z) Stop_scheme \<Rightarrow> ('k, 'z) Stop_scheme" where
  "c_poke reg v s = s\<lparr>c_regs := poke_reg (c_regs s) reg v\<rparr>"

definition SYSARGS :: "Reg list" where
  "SYSARGS = [SYSARG_1, SYSARG_2, SYSARG_3, SYSARG_4, SYSARG_5, SYSARG_6]"

subsection \<open>The queue\<close>

definition register_chained_syscall_internal ::
  "nat \<Rightarrow> word_t list \<Rightarrow> bool \<Rightarrow> ('k, 'z) Stop_scheme \<Rightarrow> ('k, 'z) Stop_scheme" where
  "register_chained_syscall_internal sysnum sysargs at_front s =
     (let syscalls = (case c_syscalls s of None \<Rightarrow> [] | Some cs \<Rightarrow> cs);
          syscall = \<lparr>cs_sysnum = sysnum, cs_sysargs = sysargs\<rparr>
      in s\<lparr>c_syscalls := Some (if at_front then syscall # syscalls else syscalls @ [syscall])\<rparr>)"

definition register_chained_syscall ::
  "nat \<Rightarrow> word_t list \<Rightarrow> ('k, 'z) Stop_scheme \<Rightarrow> ('k, 'z) Stop_scheme" where
  "register_chained_syscall sysnum sysargs s = register_chained_syscall_internal sysnum sysargs False s"

definition force_chain_final_result :: "word_t \<Rightarrow> ('k, 'z) Stop_scheme \<Rightarrow> ('k, 'z) Stop_scheme" where
  "force_chain_final_result forced_result s =
     s\<lparr>c_force_final_result := True, c_final_result := forced_result\<rparr>"

definition restart_original_syscall :: "('k, 'z) Stop_scheme \<Rightarrow> ('k, 'z) Stop_scheme res" where
  "restart_original_syscall s =
     (case get_sysnum (c_regs s) ORIGINAL of
        Inl e \<Rightarrow> Inl e
      | Inr sysnum \<Rightarrow> Inr (register_chained_syscall sysnum (map (c_peek s ORIGINAL) SYSARGS) s))"

definition restart_current_syscall_as_chained :: "('k, 'z) Stop_scheme \<Rightarrow> ('k, 'z) Stop_scheme res" where
  "restart_current_syscall_as_chained s =
     (let s = s\<lparr>c_workaround := SYSNUM_WORKAROUND_PROCESS_FAULTY_CALL\<rparr>
      in case get_sysnum (c_regs s) CURRENT of
           Inl e \<Rightarrow> Inl e
         | Inr sysnum \<Rightarrow>
             Inr (register_chained_syscall_internal sysnum (map (c_peek s CURRENT) SYSARGS) True s))"

text \<open>
  \<open>chain_next_syscall\<close>: the end of the chain, or the next call, forged by moving the program counter
  back to the trap.  A missing queue would be dereferenced.
\<close>

definition chain_next_syscall :: "('k, 'z) Stop_scheme \<Rightarrow> ('k, 'z) Stop_scheme res" where
  "chain_next_syscall s =
     (case c_syscalls s of
        None \<Rightarrow> Inl Undefined
      | Some [] \<Rightarrow>
          (let s = s\<lparr>c_syscalls := None\<rparr>;
               s = (if c_force_final_result s then c_poke SYSARG_RESULT (c_final_result s) s else s)
           in Inr (s\<lparr>c_force_final_result := False, c_final_result := 0\<rparr>))
      | Some (syscall # syscalls) \<Rightarrow>
          (let s = s\<lparr>c_regs := (c_regs s)\<lparr>restore_original_regs := False\<rparr>, c_syscalls := Some syscalls\<rparr>;
               s = fold (\<lambda>(reg, v). c_poke reg v) (zip SYSARGS (cs_sysargs syscall)) s
           in case detranslate_sysnum (get_abi (c_regs s)) (cs_sysnum syscall) of
                Inl e \<Rightarrow> Inl e
              | Inr sysnum \<Rightarrow>
                  (let s = c_poke SYSARG_NUM sysnum s;
                       instr_pointer = c_peek s CURRENT INSTR_POINTER;
                       s = c_poke INSTR_POINTER (instr_pointer - get_systrap_size (c_regs s)) s
                   in Inr (s\<lparr>c_restart_how := PTRACE_SYSCALL\<rparr>))))"

subsection \<open>A stop\<close>

text \<open>What \<open>translate_syscall\<close> calls: the translation of a call, and the hooks of a chained one.\<close>

record 's Handlers =
  x_syscall_enter :: "'s \<Rightarrow> (int \<times> 's) res"
  x_syscall_exit :: "'s \<Rightarrow> 's res"
  x_chained_enter :: "'s \<Rightarrow> int \<times> 's"
  x_chained_exit :: "'s \<Rightarrow> 's"

definition push_stop ::
  "'k Ptrace_Regs \<Rightarrow> bool \<Rightarrow> ('k, 'z) Stop_scheme \<Rightarrow> errno option \<times> ('k, 'z) Stop_scheme" where
  "push_stop P including_sysnum s =
     (case push_specific_regs P (c_regs s) including_sysnum (c_kernel s) of
        (e, t, k) \<Rightarrow> (e, s\<lparr>c_regs := t, c_kernel := k\<rparr>))"

text \<open>
  The stage of the entry, up to the registers being pushed: \<open>None\<close> where the source returns before it.
  The second component is the status that was suppressed.
\<close>

definition sysenter ::
  "'k Ptrace_Regs \<Rightarrow> ('k, 'z) Stop_scheme Handlers \<Rightarrow> ('k, 'z) Stop_scheme
   \<Rightarrow> (int option \<times> ('k, 'z) Stop_scheme) res" where
  "sysenter P X s =
     (let s = s\<lparr>c_regs := (c_regs s)\<lparr>restore_original_regs := False\<rparr>\<rparr> in
      if c_relaunched s then
        Inr (None, s\<lparr>c_relaunched := False, c_status := 1, c_restart_how := PTRACE_SYSCALL\<rparr>)
      else
        (case (if c_syscalls s = None then
                 (case x_syscall_enter X (s\<lparr>c_regs := save_current_regs (c_regs s) ORIGINAL\<rparr>) of
                    Inl e \<Rightarrow> Inl e
                  | Inr (status, s) \<Rightarrow> Inr (status, s\<lparr>c_regs := save_current_regs (c_regs s) MODIFIED\<rparr>))
               else
                 (case (if c_workaround s \<noteq> SYSNUM_WORKAROUND_PROCESS_REPLACED_CALL
                        then x_chained_enter X s else (0, s)) of
                    (status, s) \<Rightarrow> Inr (status, s\<lparr>c_restart_how := PTRACE_SYSCALL\<rparr>))) of
           Inl e \<Rightarrow> Inl e
         | Inr (status, s) \<Rightarrow>
             (case (if status < 0 then
                      (case set_sysnum (c_regs s) PR_void of
                         Inl e \<Rightarrow> Inl e
                       | Inr t \<Rightarrow> Inr (c_poke SYSARG_RESULT (of_int status) (s\<lparr>c_regs := t\<rparr>)\<lparr>c_status := status\<rparr>))
                    else Inr (s\<lparr>c_status := 1\<rparr>)) of
                Inl e \<Rightarrow> Inl e
              | Inr s \<Rightarrow>
                  (if c_cancelled s then
                     (let s = s\<lparr>c_cancelled := False, c_relaunched := True,
                                c_restart_how := PTRACE_SYSCALL, c_status := 0\<rparr>;
                          s = c_poke INSTR_POINTER (c_peek s CURRENT INSTR_POINTER - SYSTRAP_SIZE) s
                      in Inr (None, snd (push_stop P False s)))
                   else if c_restart_how s = PTRACE_CONT then
                     Inr (Some (c_status s),
                          c_poke STACK_POINTER (c_peek s ORIGINAL STACK_POINTER) (s\<lparr>c_status := 0\<rparr>))
                   else Inr (Some 0, s)))))"

definition sysexit ::
  "('k, 'z) Stop_scheme Handlers \<Rightarrow> ('k, 'z) Stop_scheme \<Rightarrow> (int option \<times> ('k, 'z) Stop_scheme) res" where
  "sysexit X s =
     (let s = s\<lparr>c_regs := (c_regs s)\<lparr>restore_original_regs := True\<rparr>\<rparr> in
      if c_relaunched s then Inr (None, s)
      else
        (case (if c_syscalls s = None \<or> c_workaround s = SYSNUM_WORKAROUND_PROCESS_REPLACED_CALL
               then x_syscall_exit X (s\<lparr>c_workaround := SYSNUM_WORKAROUND_INACTIVE\<rparr>)
               else if c_workaround s = SYSNUM_WORKAROUND_PROCESS_FAULTY_CALL
               then Inr (s\<lparr>c_workaround := SYSNUM_WORKAROUND_PROCESS_REPLACED_CALL\<rparr>)
               else Inr (x_chained_exit X s)) of
           Inl e \<Rightarrow> Inl e
         | Inr s \<Rightarrow>
             (let s = s\<lparr>c_status := 0, c_cancelled := False\<rparr>
              in case (if c_syscalls s \<noteq> None then chain_next_syscall s else Inr s) of
                   Inl e \<Rightarrow> Inl e
                 | Inr s \<Rightarrow> Inr (Some 0, s))))"

text \<open>Where the number of the call could not be changed: it is made to fail, and the call wanted is chained.\<close>

definition sysnum_workaround ::
  "'k Ptrace_Regs \<Rightarrow> int \<Rightarrow> ('k, 'z) Stop_scheme \<Rightarrow> ('k, 'z) Stop_scheme res" where
  "sysnum_workaround P suppressed s =
     (let orig_sysnum = c_peek s ORIGINAL SYSARG_NUM; current_sysnum = c_peek s CURRENT SYSARG_NUM in
      if orig_sysnum = current_sysnum then Inr s
      else
        (case (if current_sysnum \<noteq> SYSCALL_AVOIDER then restart_current_syscall_as_chained s
               else if suppressed \<noteq> 0 then Inr (s\<lparr>c_status := suppressed, c_restart_how := PTRACE_SYSCALL\<rparr>)
               else Inr s) of
           Inl e \<Rightarrow> Inl e
         | Inr s \<Rightarrow>
             (let s = fold (\<lambda>reg. c_poke reg (-1)) SYSARGS s
              in case get_sysnum (c_regs s) ORIGINAL of
                   Inl e \<Rightarrow> Inl e
                 | Inr original \<Rightarrow>
                     (let s = (if original = PR_brk then c_poke SYSARG_1 0 s else s)
                      in Inr (snd (push_stop P False s))))))"

definition translate_syscall ::
  "'k Ptrace_Regs \<Rightarrow> ('k, 'z) Stop_scheme Handlers \<Rightarrow> ('k, 'z) Stop_scheme \<Rightarrow> ('k, 'z) Stop_scheme res"
  where
  "translate_syscall P X s =
     (let is_enter_stage = IS_IN_SYSENTER s in
      case fetch_regs P (c_regs s) (c_kernel s) of
        (Some e, t, k) \<Rightarrow> Inr (s\<lparr>c_regs := t, c_kernel := k\<rparr>)
      | (None, t, k) \<Rightarrow>
          (let s = s\<lparr>c_regs := t, c_kernel := k\<rparr>
           in case (if is_enter_stage then sysenter P X s else sysexit X s) of
                Inl e \<Rightarrow> Inl e
              | Inr (None, s) \<Rightarrow> Inr s
              | Inr (Some suppressed, s) \<Rightarrow>
                  (let override_sysnum = (is_enter_stage \<and> c_syscalls s = None)
                   in case push_stop P override_sysnum s of
                        (e, s) \<Rightarrow>
                          (if e \<noteq> None \<and> override_sysnum then sysnum_workaround P suppressed s
                           else Inr s))))"

subsection \<open>Successive stops\<close>

text \<open>Between two stops the process and the kernel do what they want: \<open>exec\<close>.\<close>

definition next_stop ::
  "'k Ptrace_Regs \<Rightarrow> ('k, 'z) Stop_scheme Handlers \<Rightarrow> ('k \<Rightarrow> 'k) \<Rightarrow> ('k, 'z) Stop_scheme
   \<Rightarrow> ('k, 'z) Stop_scheme res" where
  "next_stop P X exec s = translate_syscall P X (s\<lparr>c_kernel := exec (c_kernel s)\<rparr>)"

fun stops ::
  "'k Ptrace_Regs \<Rightarrow> ('k, 'z) Stop_scheme Handlers \<Rightarrow> ('k \<Rightarrow> 'k) \<Rightarrow> nat \<Rightarrow> ('k, 'z) Stop_scheme
   \<Rightarrow> ('k, 'z) Stop_scheme res" where
  "stops P X exec 0 s = Inr s"
| "stops P X exec (Suc n) s =
     (case next_stop P X exec s of Inl e \<Rightarrow> Inl e | Inr s \<Rightarrow> stops P X exec n s)"

text \<open>Reading a register in the registers of the process.\<close>

definition shown :: "Tracee_Regs \<Rightarrow> word_t \<Rightarrow> word_t" where
  "shown t v = (if is_aarch32 t then v AND 0xFFFFFFFF else v)"

definition read_bank :: "Tracee_Regs \<Rightarrow> bank \<Rightarrow> Reg \<Rightarrow> word_t" where
  "read_bank t b reg = shown t (load64 b (REG_offset t reg))"

definition trap_size :: "Tracee_Regs \<Rightarrow> bank \<Rightarrow> word_t" where
  "trap_size t b = (if is_aarch32 t \<and> b 0x40 AND 0x20 \<noteq> 0 then 2 else SYSTRAP_SIZE)"

text \<open>The registers \<open>b\<close> make the process execute the call, from the trap it has just left with \<open>b0\<close>.\<close>

definition issues :: "Tracee_Regs \<Rightarrow> bank \<Rightarrow> chained_syscall \<Rightarrow> bank \<Rightarrow> bool" where
  "issues t b0 c b \<longleftrightarrow>
     (\<forall>i < 6. read_bank t b (SYSARGS ! i) = shown t (cs_sysargs c ! i))
     \<and> (\<exists>n. detranslate_sysnum (get_abi t) (cs_sysnum c) = Inr n \<and> read_bank t b SYSARG_NUM = shown t n)
     \<and> read_bank t b INSTR_POINTER = shown t (read_bank t b0 INSTR_POINTER - trap_size t b0)"

text \<open>What \<open>ptrace(2)\<close> promises about the registers of a stopped process.\<close>

locale ptrace_registers =
  fixes P :: "'k Ptrace_Regs" and bank_of :: "'k \<Rightarrow> bank"
  assumes getregset: "\<exists>k'. p_getregset P k b = (Some (bank_of k), k') \<and> bank_of k' = bank_of k"
    and setregset: "\<exists>k'. p_setregset P k b = (True, k') \<and> bank_of k' = b"
begin

lemma fetch_regs_ok:
  obtains k' where "fetch_regs P t k = (None, set_bank t CURRENT (bank_of k), k')" and "bank_of k' = bank_of k"
  using getregset[of k "regs t CURRENT"] that by (auto simp: fetch_regs_def)

lemma push_specific_regs_changed:
  assumes "regs_were_changed t"
  obtains k' where "push_specific_regs P t False k =
      (None, if restore_original_regs t then restore_regs t else t, k')"
    and "bank_of k' = regs (if restore_original_regs t then restore_regs t else t) CURRENT"
proof -
  let ?t = "if restore_original_regs t then restore_regs t else t"
  obtain k' where "p_setregset P k (regs ?t CURRENT) = (True, k')" "bank_of k' = regs ?t CURRENT"
    using setregset by blast
  then show thesis using that[of k'] assms by (simp add: push_specific_regs_def Let_def)
qed

end

text \<open>A process that is its registers has these requests.\<close>

definition plain_registers :: "bank Ptrace_Regs" where
  "plain_registers = \<lparr>p_getregset = (\<lambda>k b. (Some k, k)), p_setregset = (\<lambda>k b. (True, b)),
     p_set_system_call = (\<lambda>k n. (True, k))\<rparr>"

interpretation plain_regs: ptrace_registers plain_registers "\<lambda>b. b"
  by unfold_locales (simp_all add: plain_registers_def)

subsection \<open>What a stop does to the registers\<close>

lemma peek_reg_read_bank: "peek_reg t CURRENT r = read_bank t (regs t CURRENT) r"
  by (simp add: peek_reg_def REG_def read_bank_def shown_def is_32on64_mode_def)

lemma shown_idem [simp]: "shown t (shown t v) = shown t v"
  by (simp add: shown_def and.assoc)

lemma read_bank_cong: "is_aarch32 t = is_aarch32 t' \<Longrightarrow> read_bank t = read_bank t'"
  by (simp add: read_bank_def shown_def REG_offset_def fun_eq_iff)

lemma get_systrap_size_bank: "get_systrap_size t = trap_size t (regs t CURRENT)"
  by (simp add: get_systrap_size_def trap_size_def)

lemma reg_offset_armeabi_le: "reg_offset_armeabi r \<le> 60"
  by (cases r) (simp_all add: reg_offset_armeabi_def)

lemma get_systrap_size_poke [simp]: "get_systrap_size (poke_reg t r v) = get_systrap_size t"
  using reg_offset_armeabi_le[of r]
  by (auto simp: get_systrap_size_def poke_reg_def set_bank_def store_bytes_def is_32on64_mode_def REG_offset_def)

lemma get_systrap_size_pokes [simp]: "get_systrap_size (poke_regs rvs t) = get_systrap_size t"
  by (induction rvs arbitrary: t) auto

lemma systrap_size_nonzero: "get_systrap_size t \<noteq> 0"
  by (simp add: get_systrap_size_def SYSTRAP_SIZE_def)

lemma poke_keeps:
  "restore_original_regs (poke_reg t r v) = restore_original_regs t"
  "restore_original_regs_after_seccomp_event (poke_reg t r v) = restore_original_regs_after_seccomp_event t"
  "w \<noteq> CURRENT \<Longrightarrow> regs (poke_reg t r v) w = regs t w"
  "regs_were_changed t \<Longrightarrow> regs_were_changed (poke_reg t r v)"
  by (simp_all add: poke_reg_def set_bank_def)

lemma pokes_keep:
  "restore_original_regs (poke_regs rvs t) = restore_original_regs t"
  "restore_original_regs_after_seccomp_event (poke_regs rvs t) = restore_original_regs_after_seccomp_event t"
  "w \<noteq> CURRENT \<Longrightarrow> regs (poke_regs rvs t) w = regs t w"
  by (induction rvs arbitrary: t) (auto simp: poke_keeps)

lemma fold_c_poke: "fold (\<lambda>(reg, v). c_poke reg v) rvs s = s\<lparr>c_regs := poke_regs rvs (c_regs s)\<rparr>"
  by (induction rvs arbitrary: s) (auto simp: c_poke_def)

lemma peek_poke_shown:
  "peek_reg (poke_reg t r v) CURRENT r' =
    (if REG_offset t r' = REG_offset t r then shown t v else peek_reg t CURRENT r')"
  by (simp add: peek_poke shown_def)

lemma SYSARGS_offsets:
  "i < 6 \<Longrightarrow> j < 6 \<Longrightarrow> REG_offset t (SYSARGS ! i) = REG_offset t (SYSARGS ! j) \<longleftrightarrow> i = j"
  "i < 6 \<Longrightarrow> REG_offset t (SYSARGS ! i) \<noteq> REG_offset t SYSARG_NUM"
  "i < 6 \<Longrightarrow> REG_offset t (SYSARGS ! i) \<noteq> REG_offset t INSTR_POINTER"
  "REG_offset t SYSARG_NUM \<noteq> REG_offset t INSTR_POINTER"
proof -
  have cases6: "n = 0 \<or> n = 1 \<or> n = 2 \<or> n = 3 \<or> n = 4 \<or> n = 5" if "n < 6" for n :: nat
    using that by linarith
  show "REG_offset t (SYSARGS ! i) = REG_offset t (SYSARGS ! j) \<longleftrightarrow> i = j" if "i < 6" "j < 6"
    using cases6[OF that(1)] cases6[OF that(2)]
    by (elim disjE; simp add: SYSARGS_def REG_offset_def reg_offset_def reg_offset_armeabi_def)
  show "REG_offset t (SYSARGS ! i) \<noteq> REG_offset t SYSARG_NUM"
    "REG_offset t (SYSARGS ! i) \<noteq> REG_offset t INSTR_POINTER" if "i < 6"
    using cases6[OF that]
    by (elim disjE; simp add: SYSARGS_def REG_offset_def reg_offset_def reg_offset_armeabi_def)+
  show "REG_offset t SYSARG_NUM \<noteq> REG_offset t INSTR_POINTER"
    by (simp add: REG_offset_def reg_offset_def reg_offset_armeabi_def)
qed

lemma is_aarch32_eqs:
  "is_aarch32 t = is_aarch32 t' \<Longrightarrow> shown t = shown t'"
  "is_aarch32 t = is_aarch32 t' \<Longrightarrow> REG_offset t = REG_offset t'"
  by (simp_all add: shown_def REG_offset_def fun_eq_iff)

lemma poke_args:
  assumes "length vs = 6"
  shows "\<forall>i < 6. peek_reg (poke_regs (zip SYSARGS vs) t) CURRENT (SYSARGS ! i) = shown t (vs ! i)"
    and "(\<forall>i < 6. REG_offset t r \<noteq> REG_offset t (SYSARGS ! i)) \<Longrightarrow>
      peek_reg (poke_regs (zip SYSARGS vs) t) CURRENT r = peek_reg t CURRENT r"
proof -
  have off: "REG_offset (poke_regs rvs t) = REG_offset t" "shown (poke_regs rvs t) = shown t" for rvs t
    by (rule is_aarch32_eqs, simp)+
  have gen: "(n + length ws \<le> 6 \<longrightarrow> (\<forall>i < 6.
        peek_reg (poke_regs (zip (drop n SYSARGS) ws) t) CURRENT (SYSARGS ! i) =
          (if n \<le> i \<and> i < n + length ws then shown t (ws ! (i - n)) else peek_reg t CURRENT (SYSARGS ! i))))
      \<and> (n + length ws \<le> 6 \<longrightarrow> (\<forall>i < 6. REG_offset t r \<noteq> REG_offset t (SYSARGS ! i)) \<longrightarrow>
        peek_reg (poke_regs (zip (drop n SYSARGS) ws) t) CURRENT r = peek_reg t CURRENT r)" for n ws
  proof (induction ws arbitrary: n t)
    case (Cons w ws)
    show ?case
    proof (cases "n < 6")
      case True
      then have d: "drop n SYSARGS = SYSARGS ! n # drop (Suc n) SYSARGS"
        using Cons_nth_drop_Suc[of n SYSARGS] by (simp add: SYSARGS_def)
      let ?t = "poke_reg t (SYSARGS ! n) w"
      have sh: "shown ?t = shown t" "REG_offset ?t = REG_offset t" by (rule is_aarch32_eqs, simp)+
      have pk: "peek_reg ?t CURRENT (SYSARGS ! i) = (if i = n then shown t w else peek_reg t CURRENT (SYSARGS ! i))"
        if "i < 6" for i
        using that True SYSARGS_offsets(1)[of i n t] by (simp add: peek_poke_shown)
      have 1: "peek_reg (poke_regs (zip (drop (Suc n) SYSARGS) ws) ?t) CURRENT (SYSARGS ! i) =
          (if Suc n \<le> i \<and> i < Suc n + length ws then shown t (ws ! (i - Suc n)) else peek_reg ?t CURRENT (SYSARGS ! i))"
        if "i < 6" "n + length (w # ws) \<le> 6" for i
        using Cons.IH[where n = "Suc n" and t = ?t] that unfolding sh by auto
      have 2: "peek_reg (poke_regs (zip (drop (Suc n) SYSARGS) ws) ?t) CURRENT r = peek_reg t CURRENT r"
        if "n + length (w # ws) \<le> 6" "\<forall>i < 6. REG_offset t r \<noteq> REG_offset t (SYSARGS ! i)"
        using Cons.IH[where n = "Suc n" and t = ?t] that True unfolding sh by (simp add: peek_poke_shown)
      show ?thesis
        using 1 2 pk unfolding d by (auto simp: nth_Cons')
    qed auto
  qed auto
  show "\<forall>i < 6. peek_reg (poke_regs (zip SYSARGS vs) t) CURRENT (SYSARGS ! i) = shown t (vs ! i)"
    using gen[of 0 vs] assms by simp
  show "(\<forall>i < 6. REG_offset t r \<noteq> REG_offset t (SYSARGS ! i)) \<Longrightarrow>
      peek_reg (poke_regs (zip SYSARGS vs) t) CURRENT r = peek_reg t CURRENT r"
    using gen[of 0 vs] assms by simp
qed

subsection \<open>The stops of a chain\<close>

text \<open>The extensions leave the chained calls alone.\<close>

definition silent :: "('k, 'z) Stop_scheme Handlers \<Rightarrow> bool" where
  "silent X \<longleftrightarrow> (\<forall>s. x_chained_enter X s = (0, s)) \<and> (\<forall>s. x_chained_exit X s = s)"

text \<open>A call that the tables of system calls know how to encode.\<close>

definition good_call :: "Tracee_Regs \<Rightarrow> chained_syscall \<Rightarrow> bool" where
  "good_call t c \<longleftrightarrow> length (cs_sysargs c) = 6 \<and> (\<exists>n. detranslate_sysnum (get_abi t) (cs_sysnum c) = Inr n)"

text \<open>A chain is in progress: nothing else interferes.\<close>

definition chaining :: "chained_syscall list \<Rightarrow> ('k, 'z) Stop_scheme \<Rightarrow> bool" where
  "chaining cs s \<longleftrightarrow> c_syscalls s = Some cs \<and> c_workaround s = SYSNUM_WORKAROUND_INACTIVE
     \<and> \<not> c_relaunched s \<and> \<not> c_cancelled s"

text \<open>What two stops of a chain have in common.\<close>

definition same_chain :: "('k, 'z) Stop_scheme \<Rightarrow> ('k, 'z) Stop_scheme \<Rightarrow> bool" where
  "same_chain s s' \<longleftrightarrow>
     c_force_final_result s' = c_force_final_result s \<and> c_final_result s' = c_final_result s
     \<and> is_aarch32 (c_regs s') = is_aarch32 (c_regs s)
     \<and> (\<forall>v. v \<noteq> CURRENT \<longrightarrow> regs (c_regs s') v = regs (c_regs s) v)
     \<and> restore_original_regs_after_seccomp_event (c_regs s') = restore_original_regs_after_seccomp_event (c_regs s)"

lemma same_chain_trans: "same_chain s s' \<Longrightarrow> same_chain s' s'' \<Longrightarrow> same_chain s s''"
  by (simp add: same_chain_def)

text \<open>The registers that a chained call is given.\<close>

definition forged :: "word_t list \<Rightarrow> word_t \<Rightarrow> Tracee_Regs \<Rightarrow> Tracee_Regs" where
  "forged sysargs sysnum t =
     (let t = poke_reg (poke_regs (zip SYSARGS sysargs) (t\<lparr>restore_original_regs := False\<rparr>)) SYSARG_NUM sysnum
      in poke_reg t INSTR_POINTER (peek_reg t CURRENT INSTR_POINTER - get_systrap_size t))"

lemma get_abi_cong: "is_aarch32 t = is_aarch32 t' \<Longrightarrow> get_abi t = get_abi t'"
  by (simp add: get_abi_def)

lemma chain_next_syscall_forged:
  assumes "c_syscalls s = Some (c # cs)" and "detranslate_sysnum (get_abi (c_regs s)) (cs_sysnum c) = Inr n"
  shows "chain_next_syscall s = Inr (s\<lparr>c_regs := forged (cs_sysargs c) n (c_regs s), c_syscalls := Some cs,
    c_restart_how := PTRACE_SYSCALL\<rparr>)"
proof -
  have "get_abi ((c_regs s)\<lparr>restore_original_regs := False\<rparr>) = get_abi (c_regs s)" by (rule get_abi_cong) simp
  then show ?thesis
    using assms by (simp add: chain_next_syscall_def fold_c_poke c_poke_def c_peek_def forged_def Let_def)
qed

lemma forged_keeps:
  "is_aarch32 (forged vs n t) = is_aarch32 t" "\<not> restore_original_regs (forged vs n t)"
  "regs_were_changed (forged vs n t)"
  "restore_original_regs_after_seccomp_event (forged vs n t) = restore_original_regs_after_seccomp_event t"
  "w \<noteq> CURRENT \<Longrightarrow> regs (forged vs n t) w = regs t w"
proof -
  have "regs_were_changed (poke_reg t r (peek_reg t CURRENT r - get_systrap_size t))" for t r
    using systrap_size_nonzero[of t] by (simp add: poke_reg_def)
  then show "regs_were_changed (forged vs n t)" by (simp only: forged_def Let_def)
qed (simp_all add: forged_def Let_def poke_keeps pokes_keep)

lemma forged_issues:
  assumes "length (cs_sysargs c) = 6" and "detranslate_sysnum (get_abi t) (cs_sysnum c) = Inr n"
  shows "issues (forged (cs_sysargs c) n t) (regs t CURRENT) c (regs (forged (cs_sysargs c) n t) CURRENT)"
proof -
  let ?vs = "cs_sysargs c"
  define t0 where "t0 = t\<lparr>restore_original_regs := False\<rparr>"
  define t1 where "t1 = poke_regs (zip SYSARGS ?vs) t0"
  define t2 where "t2 = poke_reg t1 SYSARG_NUM n"
  define t3 where "t3 = poke_reg t2 INSTR_POINTER (peek_reg t2 CURRENT INSTR_POINTER - get_systrap_size t2)"
  have forged: "forged ?vs n t = t3"
    by (simp only: forged_def Let_def t0_def t1_def t2_def t3_def)
  have arch: "is_aarch32 t0 = is_aarch32 t" "is_aarch32 t1 = is_aarch32 t" "is_aarch32 t2 = is_aarch32 t"
    "is_aarch32 t3 = is_aarch32 t"
    by (simp_all add: t0_def t1_def t2_def t3_def)
  have sh: "shown t0 = shown t" "shown t1 = shown t" "shown t2 = shown t" "shown t3 = shown t"
    "REG_offset t0 = REG_offset t" "REG_offset t1 = REG_offset t" "REG_offset t2 = REG_offset t"
    using arch by (auto intro: is_aarch32_eqs)
  have regs0: "regs t0 CURRENT = regs t CURRENT" by (simp add: t0_def)
  note args = poke_args[OF assms(1), of t0, folded t1_def, unfolded sh]
  have peek2: "peek_reg t2 CURRENT r = (if REG_offset t r = REG_offset t SYSARG_NUM then shown t n else peek_reg t1 CURRENT r)"
    for r unfolding t2_def by (simp add: peek_poke_shown sh)
  have peek3: "peek_reg t3 CURRENT r = (if REG_offset t r = REG_offset t INSTR_POINTER
      then shown t (peek_reg t2 CURRENT INSTR_POINTER - get_systrap_size t2) else peek_reg t2 CURRENT r)"
    for r unfolding t3_def by (simp add: peek_poke_shown sh)
  have "peek_reg t0 CURRENT INSTR_POINTER = read_bank t (regs t CURRENT) INSTR_POINTER"
    using read_bank_cong[OF arch(1)] by (simp add: peek_reg_read_bank regs0)
  then have ip: "peek_reg t2 CURRENT INSTR_POINTER = read_bank t (regs t CURRENT) INSTR_POINTER"
    using args(2)[of INSTR_POINTER] SYSARGS_offsets(3)[of _ t, THEN not_sym] SYSARGS_offsets(4)[of t]
    by (simp add: peek2)
  have size: "get_systrap_size t2 = trap_size t (regs t CURRENT)"
    using get_systrap_size_bank[of t0] by (simp add: t2_def t1_def) (simp add: regs0 trap_size_def arch)
  have rb: "read_bank t3 = read_bank t" "trap_size t3 = trap_size t"
    using read_bank_cong[OF arch(4)] by (simp_all add: trap_size_def arch fun_eq_iff)
  have peek_t: "peek_reg t3 CURRENT r = read_bank t (regs t3 CURRENT) r" for r
    by (simp add: peek_reg_read_bank rb)
  have "get_abi t3 = get_abi t" using arch(4) by (rule get_abi_cong)
  moreover have "read_bank t (regs t3 CURRENT) (SYSARGS ! i) = shown t (?vs ! i)" if "i < 6" for i
    using args(1) SYSARGS_offsets(2,3)[OF that, of t] that by (simp add: peek_t[symmetric] peek3 peek2)
  moreover have "read_bank t (regs t3 CURRENT) SYSARG_NUM = shown t n"
    using SYSARGS_offsets(4)[of t] by (simp add: peek_t[symmetric] peek3 peek2)
  moreover have "read_bank t (regs t3 CURRENT) INSTR_POINTER =
      shown t (read_bank t (regs t CURRENT) INSTR_POINTER - trap_size t (regs t CURRENT))"
    by (simp add: peek_t[symmetric] peek3 ip size)
  ultimately show ?thesis
    using assms(2) unfolding issues_def forged rb sh by simp
qed

context ptrace_registers
begin

text \<open>At the exit of a call the next one is issued.\<close>

lemma chain_exit_step:
  assumes s: "chaining (c # cs) s" "c_status s \<noteq> 0" and X: "silent X"
    and c: "length (cs_sysargs c) = 6" "detranslate_sysnum (get_abi (c_regs s)) (cs_sysnum c) = Inr n"
  shows "\<exists>s'. next_stop P X exec s = Inr s' \<and> chaining cs s' \<and> same_chain s s' \<and> c_status s' = 0
    \<and> c_restart_how s' = PTRACE_SYSCALL \<and> regs_were_changed (c_regs s')
    \<and> issues (c_regs s) (bank_of (exec (c_kernel s))) c (bank_of (c_kernel s'))"
proof -
  let ?b = "bank_of (exec (c_kernel s))"
  obtain k1 where fetch: "fetch_regs P (c_regs s) (exec (c_kernel s)) = (None, set_bank (c_regs s) CURRENT ?b, k1)"
    by (rule fetch_regs_ok)
  define t where "t = (set_bank (c_regs s) CURRENT ?b)\<lparr>restore_original_regs := True\<rparr>"
  define t' where "t' = forged (cs_sysargs c) n t"
  have t: "is_aarch32 t = is_aarch32 (c_regs s)" "regs t CURRENT = ?b" by (simp_all add: t_def)
  have n: "detranslate_sysnum (get_abi t) (cs_sysnum c) = Inr n"
    using c(2) get_abi_cong[OF t(1)] by simp
  obtain k2 where push: "push_specific_regs P t' False k1 = (None, t', k2)" "bank_of k2 = regs t' CURRENT"
    using push_specific_regs_changed[of t' k1] forged_keeps(2,3)[of "cs_sysargs c" n t] by (auto simp: t'_def)
  define s1 where "s1 = s\<lparr>c_kernel := k1, c_regs := t, c_status := 0, c_cancelled := False\<rparr>"
  define s2 where "s2 = s1\<lparr>c_regs := t', c_syscalls := Some cs, c_restart_how := PTRACE_SYSCALL\<rparr>"
  have "c_syscalls s1 = Some (c # cs)" "c_regs s1 = t" using s(1) by (simp_all add: s1_def chaining_def)
  then have chain: "chain_next_syscall s1 = Inr s2"
    using chain_next_syscall_forged[of s1 c cs n] n by (simp add: s2_def t'_def)
  have ex: "sysexit X (s\<lparr>c_regs := set_bank (c_regs s) CURRENT ?b, c_kernel := k1\<rparr>) = Inr (Some 0, s2)"
    using s(1) X chain by (simp add: sysexit_def chaining_def silent_def Let_def s1_def t_def)
  have "c_regs s2 = t'" "c_kernel s2 = k1" by (simp_all add: s2_def s1_def)
  then have step: "next_stop P X exec s = Inr (s2\<lparr>c_regs := t', c_kernel := k2\<rparr>)"
    using s(2) push(1) ex by (simp add: next_stop_def translate_syscall_def IS_IN_SYSENTER_def fetch push_stop_def)
  have "issues t' ?b c (regs t' CURRENT)"
    using forged_issues[OF c(1) n] t(2) by (simp add: t'_def)
  then have "issues (c_regs s) ?b c (bank_of k2)"
    using t(1) forged_keeps(1)[of "cs_sysargs c" n t] get_abi_cong[of t' "c_regs s"]
      read_bank_cong[of t' "c_regs s"] is_aarch32_eqs(1)[of t' "c_regs s"]
    by (simp add: issues_def push(2) trap_size_def t'_def)
  then show ?thesis
    using step s(1) t(1) forged_keeps[where vs = "cs_sysargs c" and n = n and t = t]
    by (simp add: chaining_def same_chain_def s2_def s1_def t'_def t_def set_bank_def)
qed

text \<open>At the entry of a chained call nothing happens.\<close>

lemma chain_enter_step:
  assumes s: "chaining cs s" "c_status s = 0" and X: "silent X" and changed: "regs_were_changed (c_regs s)"
  shows "\<exists>s'. next_stop P X exec s = Inr s' \<and> chaining cs s' \<and> same_chain s s' \<and> c_status s' = 1
    \<and> c_restart_how s' = PTRACE_SYSCALL \<and> regs_were_changed (c_regs s')
    \<and> bank_of (c_kernel s') = bank_of (exec (c_kernel s))"
proof -
  let ?b = "bank_of (exec (c_kernel s))"
  obtain k1 where fetch: "fetch_regs P (c_regs s) (exec (c_kernel s)) = (None, set_bank (c_regs s) CURRENT ?b, k1)"
    by (rule fetch_regs_ok)
  define t where "t = (set_bank (c_regs s) CURRENT ?b)\<lparr>restore_original_regs := False\<rparr>"
  have t: "regs_were_changed t" "\<not> restore_original_regs t" using changed by (simp_all add: t_def set_bank_def)
  obtain k2 where push: "push_specific_regs P t False k1 = (None, t, k2)" "bank_of k2 = regs t CURRENT"
    using push_specific_regs_changed[OF t(1), of k1] t(2) by auto
  have "next_stop P X exec s = Inr (s\<lparr>c_regs := t, c_kernel := k2, c_status := 1, c_restart_how := PTRACE_SYSCALL\<rparr>)"
    using s X push(1)
    by (simp add: next_stop_def translate_syscall_def IS_IN_SYSENTER_def fetch push_stop_def sysenter_def
        chaining_def silent_def Let_def t_def)
  then show ?thesis
    using s push(2) t by (simp add: chaining_def same_chain_def t_def set_bank_def)
qed

text \<open>At the exit of the last call the registers are restored, and the result is the one that was forced.\<close>

lemma chain_last_step:
  assumes s: "chaining [] s" "c_status s \<noteq> 0" and X: "silent X" and changed: "regs_were_changed (c_regs s)"
  shows "\<exists>s'. next_stop P X exec s = Inr s' \<and> c_syscalls s' = None \<and> c_status s' = 0
    \<and> \<not> c_force_final_result s'
    \<and> read_bank (c_regs s) (bank_of (c_kernel s')) SYSARG_RESULT =
        (if c_force_final_result s then shown (c_regs s) (c_final_result s)
         else read_bank (c_regs s) (bank_of (exec (c_kernel s))) SYSARG_RESULT)
    \<and> (\<forall>r. r \<notin> kept \<longrightarrow> read_bank (c_regs s) (bank_of (c_kernel s')) r =
          peek_reg (c_regs s) (restore_version (c_regs s)) r)"
proof -
  let ?b = "bank_of (exec (c_kernel s))"
  obtain k1 where fetch: "fetch_regs P (c_regs s) (exec (c_kernel s)) = (None, set_bank (c_regs s) CURRENT ?b, k1)"
    by (rule fetch_regs_ok)
  define t where "t = (set_bank (c_regs s) CURRENT ?b)\<lparr>restore_original_regs := True\<rparr>"
  define t' where "t' = (if c_force_final_result s then poke_reg t SYSARG_RESULT (c_final_result s) else t)"
  have t': "is_aarch32 t' = is_aarch32 (c_regs s)" "regs_were_changed t'" "restore_original_regs t'"
    "restore_version t' = restore_version (c_regs s)"
    "w \<noteq> CURRENT \<Longrightarrow> peek_reg t' w r = peek_reg (c_regs s) w r" for w r
    using changed
    by (simp_all add: t'_def t_def set_bank_def poke_keeps restore_version_def peek_reg_def REG_def
        is_32on64_mode_def REG_offset_def)
  define t'' where "t'' = restore_regs t'"
  obtain k2 where push: "push_specific_regs P t' False k1 = (None, t'', k2)" "bank_of k2 = regs t'' CURRENT"
    using push_specific_regs_changed[OF t'(2), of k1] t'(3) by (auto simp: t''_def)
  have step: "next_stop P X exec s = Inr (s\<lparr>c_regs := t'', c_kernel := k2, c_status := 0, c_cancelled := False,
      c_syscalls := None, c_force_final_result := False, c_final_result := 0\<rparr>)"
    using s X push(1)
    by (simp add: next_stop_def translate_syscall_def IS_IN_SYSENTER_def fetch push_stop_def sysexit_def
        chaining_def silent_def Let_def chain_next_syscall_def c_poke_def t'_def t_def split: if_splits)
  have arch: "is_aarch32 t'' = is_aarch32 (c_regs s)" using t'(1) by (simp add: t''_def restore_regs_aarch32)
  have rb: "read_bank t'' = read_bank (c_regs s)" by (rule read_bank_cong[OF arch])
  have peek: "read_bank (c_regs s) (bank_of k2) r = peek_reg t'' CURRENT r" for r
    by (simp add: peek_reg_read_bank rb push(2))
  have "read_bank (c_regs s) (bank_of k2) SYSARG_RESULT = peek_reg t' CURRENT SYSARG_RESULT"
    unfolding peek by (simp add: t''_def peek_restore_regs kept_def)
  moreover have "peek_reg t' CURRENT SYSARG_RESULT =
      (if c_force_final_result s then shown (c_regs s) (c_final_result s)
       else read_bank (c_regs s) ?b SYSARG_RESULT)"
  proof -
    have "shown t = shown (c_regs s)" "read_bank t = read_bank (c_regs s)"
      by (auto intro: is_aarch32_eqs read_bank_cong simp: t_def)
    moreover have "regs t CURRENT = ?b" by (simp add: t_def)
    ultimately show ?thesis
      by (cases "c_force_final_result s") (simp_all add: t'_def peek_poke_shown, simp add: peek_reg_read_bank)
  qed
  moreover have "read_bank (c_regs s) (bank_of k2) r = peek_reg (c_regs s) (restore_version (c_regs s)) r"
    if "r \<notin> kept" for r
  proof -
    have "restore_version (c_regs s) \<noteq> CURRENT" by (simp add: restore_version_def)
    then show ?thesis unfolding peek using that t'(4,5) by (simp add: t''_def peek_restore_regs)
  qed
  ultimately show ?thesis using step by simp
qed

text \<open>
  The whole chain: the calls are issued in their order, one every two stops, and then the result is
  the one that was forced.
\<close>

lemma stops_add:
  "stops P X exec (m + n) s = (case stops P X exec m s of Inl e \<Rightarrow> Inl e | Inr s \<Rightarrow> stops P X exec n s)"
  by (induction m arbitrary: s) (auto split: sum.splits)

lemma stops_one: "stops P X exec (Suc 0) s = next_stop P X exec s"
  by (simp split: sum.splits)

lemma issues_cong:
  assumes "is_aarch32 t = is_aarch32 t'"
  shows "issues t = issues t'"
  using get_abi_cong[OF assms] read_bank_cong[OF assms] is_aarch32_eqs(1)[OF assms] assms
  by (simp add: issues_def trap_size_def fun_eq_iff)

lemma chain_round:
  assumes s: "chaining (c # cs) s" "c_status s \<noteq> 0" and X: "silent X" and c: "good_call (c_regs s) c"
  shows "\<exists>s1 s2. next_stop P X exec s = Inr s1 \<and> next_stop P X exec s1 = Inr s2
    \<and> issues (c_regs s) (bank_of (exec (c_kernel s))) c (bank_of (c_kernel s1))
    \<and> chaining cs s2 \<and> same_chain s s2 \<and> c_status s2 \<noteq> 0 \<and> regs_were_changed (c_regs s2)"
proof -
  obtain n where n: "length (cs_sysargs c) = 6" "detranslate_sysnum (get_abi (c_regs s)) (cs_sysnum c) = Inr n"
    using c by (auto simp: good_call_def)
  obtain s1 where s1: "next_stop P X exec s = Inr s1" "chaining cs s1" "same_chain s s1" "c_status s1 = 0"
    "regs_were_changed (c_regs s1)" "issues (c_regs s) (bank_of (exec (c_kernel s))) c (bank_of (c_kernel s1))"
    using chain_exit_step[OF s X n] by blast
  obtain s2 where s2: "next_stop P X exec s1 = Inr s2" "chaining cs s2" "same_chain s1 s2" "c_status s2 = 1"
    "regs_were_changed (c_regs s2)"
    using chain_enter_step[OF s1(2,4) X s1(5)] by blast
  have "c_status s2 \<noteq> 0" using s2(4) by simp
  then show ?thesis using s1 s2 same_chain_trans[OF s1(3) s2(3)] by blast
qed

lemma chain_rounds:
  assumes "chaining cs s" and "c_status s \<noteq> 0" and "silent X" and "\<forall>c \<in> set cs. good_call (c_regs s) c"
  shows "\<exists>s'. stops P X exec (2 * length cs) s = Inr s' \<and> chaining [] s' \<and> same_chain s s' \<and> c_status s' \<noteq> 0
    \<and> (cs \<noteq> [] \<longrightarrow> regs_were_changed (c_regs s'))
    \<and> (\<forall>i < length cs. \<exists>s0 s1. stops P X exec (2 * i) s = Inr s0 \<and> next_stop P X exec s0 = Inr s1
          \<and> issues (c_regs s) (bank_of (exec (c_kernel s0))) (cs ! i) (bank_of (c_kernel s1)))"
  using assms
proof (induction cs arbitrary: s)
  case Nil
  then show ?case by (simp add: same_chain_def)
next
  case (Cons c cs)
  obtain s1 s2 where r: "next_stop P X exec s = Inr s1" "next_stop P X exec s1 = Inr s2"
    "issues (c_regs s) (bank_of (exec (c_kernel s))) c (bank_of (c_kernel s1))"
    "chaining cs s2" "same_chain s s2" "c_status s2 \<noteq> 0" "regs_were_changed (c_regs s2)"
    using chain_round[OF Cons.prems(1-3)] Cons.prems(4) by (metis list.set_intros(1))
  have arch: "is_aarch32 (c_regs s2) = is_aarch32 (c_regs s)" using r(5) by (simp add: same_chain_def)
  have good: "\<forall>c \<in> set cs. good_call (c_regs s2) c"
    using Cons.prems(4) get_abi_cong[OF arch] by (simp add: good_call_def)
  obtain s' where s': "stops P X exec (2 * length cs) s2 = Inr s'" "chaining [] s'" "same_chain s2 s'" "c_status s' \<noteq> 0"
    "cs \<noteq> [] \<longrightarrow> regs_were_changed (c_regs s')"
    and all: "\<forall>i < length cs. \<exists>s0 s1. stops P X exec (2 * i) s2 = Inr s0 \<and> next_stop P X exec s0 = Inr s1
          \<and> issues (c_regs s2) (bank_of (exec (c_kernel s0))) (cs ! i) (bank_of (c_kernel s1))"
    using Cons.IH[OF r(4,6) Cons.prems(3) good] by blast
  have two: "stops P X exec (2 * Suc n) s = stops P X exec (2 * n) s2" for n
    using r(1,2) by (simp add: eval_nat_numeral)
  have "\<exists>s0 s1. stops P X exec (2 * i) s = Inr s0 \<and> next_stop P X exec s0 = Inr s1
      \<and> issues (c_regs s) (bank_of (exec (c_kernel s0))) ((c # cs) ! i) (bank_of (c_kernel s1))"
    if "i < length (c # cs)" for i
  proof (cases i)
    case 0
    then show ?thesis using r(1,3) by simp
  next
    case (Suc j)
    then have "j < length cs" using that by simp
    with all obtain s0 s1 where "stops P X exec (2 * j) s2 = Inr s0" "next_stop P X exec s0 = Inr s1"
      "issues (c_regs s2) (bank_of (exec (c_kernel s0))) (cs ! j) (bank_of (c_kernel s1))" by blast
    then show ?thesis
      unfolding Suc two using issues_cong[OF arch] by (intro exI[of _ s0] exI[of _ s1]) simp
  qed
  moreover have "regs_were_changed (c_regs s')"
  proof (cases "cs = []")
    case True
    then show ?thesis using s'(1) r(7) by simp
  qed (use s'(5) in blast)
  ultimately show ?case
    using s'(1,2,4) same_chain_trans[OF r(5) s'(3)] two[of "length cs"]
    by (intro exI[of _ s']) simp
qed

lemma chain_completes:
  assumes "chaining cs s" and "cs \<noteq> []" and "c_status s \<noteq> 0" and "silent X"
    and "\<forall>c \<in> set cs. good_call (c_regs s) c"
  shows "(\<forall>i < length cs. \<exists>s0 s1. stops P X exec (2 * i) s = Inr s0 \<and> next_stop P X exec s0 = Inr s1
          \<and> issues (c_regs s) (bank_of (exec (c_kernel s0))) (cs ! i) (bank_of (c_kernel s1)))
    \<and> (\<exists>s'. stops P X exec (2 * length cs + 1) s = Inr s' \<and> c_syscalls s' = None \<and> c_status s' = 0
        \<and> (c_force_final_result s \<longrightarrow>
             read_bank (c_regs s) (bank_of (c_kernel s')) SYSARG_RESULT = shown (c_regs s) (c_final_result s))
        \<and> (\<forall>r. r \<notin> kept \<longrightarrow> read_bank (c_regs s) (bank_of (c_kernel s')) r =
             peek_reg (c_regs s) (restore_version (c_regs s)) r))"
proof -
  obtain s1 where s1: "stops P X exec (2 * length cs) s = Inr s1" "chaining [] s1" "same_chain s s1"
    "c_status s1 \<noteq> 0" "regs_were_changed (c_regs s1)"
    and all: "\<forall>i < length cs. \<exists>s0 s1. stops P X exec (2 * i) s = Inr s0 \<and> next_stop P X exec s0 = Inr s1
          \<and> issues (c_regs s) (bank_of (exec (c_kernel s0))) (cs ! i) (bank_of (c_kernel s1))"
    using chain_rounds[OF assms(1,3,4,5), of exec] assms(2) by blast
  obtain s' where s': "next_stop P X exec s1 = Inr s'" "c_syscalls s' = None" "c_status s' = 0"
    "read_bank (c_regs s1) (bank_of (c_kernel s')) SYSARG_RESULT =
        (if c_force_final_result s1 then shown (c_regs s1) (c_final_result s1)
         else read_bank (c_regs s1) (bank_of (exec (c_kernel s1))) SYSARG_RESULT)"
    "\<forall>r. r \<notin> kept \<longrightarrow> read_bank (c_regs s1) (bank_of (c_kernel s')) r =
          peek_reg (c_regs s1) (restore_version (c_regs s1)) r"
    using chain_last_step[OF s1(2,4) assms(4) s1(5), of exec] by blast
  have arch: "is_aarch32 (c_regs s1) = is_aarch32 (c_regs s)" using s1(3) by (simp add: same_chain_def)
  have "stops P X exec (2 * length cs + 1) s = Inr s'"
    by (simp only: stops_add One_nat_def stops_one sum.case s1(1) s'(1))
  moreover have "restore_version (c_regs s1) = restore_version (c_regs s)"
    using s1(3) by (simp add: same_chain_def restore_version_def)
  moreover have "peek_reg (c_regs s1) (restore_version (c_regs s)) r = peek_reg (c_regs s) (restore_version (c_regs s)) r" for r
    using s1(3) by (simp add: same_chain_def restore_version_def peek_reg_def REG_def is_32on64_mode_def REG_offset_def)
  ultimately show ?thesis
    using all s' read_bank_cong[OF arch] is_aarch32_eqs(1)[OF arch] s1(3)
    by (intro conjI exI[of _ s']) (auto simp: same_chain_def)
qed

end

end
