(* ===== verification/Aoxp.thy ===== *)
theory Aoxp
  imports Sysargs Shebang
begin

section \<open>Arrays of pointers to strings\<close>

text \<open>
  execve/aoxp.c, for the arrays of strings that every caller uses for argv[] and envp[]: the copy of
  an array from the memory of a tracee, the strings read on demand, the array resized, modified and
  pushed back; \<open>expand_shebang\<close> of execve/shebang.c on top of it.  A pointer is mixed: remote as
  long as the string was not read or replaced.  Callbacks are the default ones.  An allocation fails
  where Talloc refuses its size.
\<close>

subsection \<open>The data\<close>

record XPointer =
  x_remote :: word_t
  x_local :: "string option"

type_synonym Xarray = "XPointer list"

definition null_xpointer :: XPointer where
  "null_xpointer = \<lparr>x_remote = 0, x_local = None\<rparr>"

text \<open>From linux/limits.h, and the number of pointers that reaches MAX_TALLOC_SIZE.\<close>

definition LINUX_ARG_MAX :: nat where "LINUX_ARG_MAX = 131072"

definition MAX_XPOINTERS :: nat where "MAX_XPOINTERS = 0x10000000 div 16"

subsection \<open>Strings of the array\<close>

text \<open>An index outside the array is an access outside it.\<close>

definition read_xpointee_as_string ::
  "'k Ptrace_Mem \<Rightarrow> 'k \<Rightarrow> Xarray \<Rightarrow> nat \<Rightarrow> string option res \<times> Xarray" where
  "read_xpointee_as_string P k array index =
     (if index \<ge> length array then (Inl Undefined, array)
      else
        (let x = array ! index in
         if x_local x \<noteq> None then (Inr (x_local x), array)
         else if x_remote x = 0 then (Inr None, array)
         else
           (case read_string P k (x_remote x) LINUX_ARG_MAX of
              Inl e \<Rightarrow> (Inl e, array)
            | Inr (tmp, status) \<Rightarrow>
                (if status \<ge> LINUX_ARG_MAX then (Err ENOMEM, array)
                 else (Inr (Some (string_of tmp)), array[index := x\<lparr>x_local := Some (string_of tmp)\<rparr>])))))"

definition sizeof_xpointee_as_string ::
  "'k Ptrace_Mem \<Rightarrow> 'k \<Rightarrow> Xarray \<Rightarrow> nat \<Rightarrow> nat res \<times> Xarray" where
  "sizeof_xpointee_as_string P k array index =
     (case read_xpointee_as_string P k array index of
        (Inl e, array) \<Rightarrow> (Inl e, array)
      | (Inr None, array) \<Rightarrow> (Inr 0, array)
      | (Inr (Some s), array) \<Rightarrow> (Inr (length s + 1), array))"

text \<open>
  \<open>memcmp\<close> over the size of the object of the array: the reference is at least as long as the common
  part, so that this is the equality of the strings.
\<close>

definition compare_xpointee_generic ::
  "'k Ptrace_Mem \<Rightarrow> 'k \<Rightarrow> Xarray \<Rightarrow> nat \<Rightarrow> string option \<Rightarrow> bool res \<times> Xarray" where
  "compare_xpointee_generic P k array index local_reference =
     (case read_xpointee_as_string P k array index of
        (Inl e, array) \<Rightarrow> (Inl e, array)
      | (Inr object, array) \<Rightarrow>
          (case (object, local_reference) of
             (None, None) \<Rightarrow> (Inr True, array)
           | (None, Some _) \<Rightarrow> (Inr False, array)
           | (Some _, None) \<Rightarrow> (Inr False, array)
           | (Some s, Some r) \<Rightarrow> (Inr (take (length s + 1) (string_bytes r) = string_bytes s), array)))"

fun find_xpointee_loop ::
  "'k Ptrace_Mem \<Rightarrow> 'k \<Rightarrow> Xarray \<Rightarrow> nat \<Rightarrow> nat \<Rightarrow> string option \<Rightarrow> nat res \<times> Xarray" where
  "find_xpointee_loop P k array i 0 local_reference = (Inr i, array)"
| "find_xpointee_loop P k array i (Suc n) local_reference =
     (case compare_xpointee_generic P k array i local_reference of
        (Inl e, array) \<Rightarrow> (Inl e, array)
      | (Inr True, array) \<Rightarrow> (Inr i, array)
      | (Inr False, array) \<Rightarrow> find_xpointee_loop P k array (Suc i) n local_reference)"

definition find_xpointee ::
  "'k Ptrace_Mem \<Rightarrow> 'k \<Rightarrow> Xarray \<Rightarrow> string option \<Rightarrow> nat res \<times> Xarray" where
  "find_xpointee P k array local_reference = find_xpointee_loop P k array 0 (length array) local_reference"

definition write_xpointee_as_string :: "Xarray \<Rightarrow> nat \<Rightarrow> string \<Rightarrow> Xarray res" where
  "write_xpointee_as_string array index s =
     (if index \<ge> length array then Inl Undefined
      else Inr (array[index := (array ! index)\<lparr>x_local := Some s\<rparr>]))"

fun write_xpointees :: "Xarray \<Rightarrow> nat \<Rightarrow> string list \<Rightarrow> Xarray res" where
  "write_xpointees array index [] = Inr array"
| "write_xpointees array index (s # xpointees) =
     (case write_xpointee_as_string array index s of
        Inl e \<Rightarrow> Inl e
      | Inr array \<Rightarrow> write_xpointees array (Suc index) xpointees)"

text \<open>Entries are added at the index, or removed before it.\<close>

definition resize_array_of_xpointers :: "Xarray \<Rightarrow> nat \<Rightarrow> int \<Rightarrow> Xarray res" where
  "resize_array_of_xpointers array index delta_nb_entries =
     (if index \<ge> length array then Inl Undefined
      else if delta_nb_entries = 0 then Inr array
      else if delta_nb_entries > 0 then
        (if length array + nat delta_nb_entries \<ge> MAX_XPOINTERS then Err ENOMEM
         else Inr (take index array @ replicate (nat delta_nb_entries) null_xpointer @ drop index array))
      else
        (if index < nat (- delta_nb_entries) then Inl Undefined
         else Inr (take (index - nat (- delta_nb_entries)) array @ drop index array)))"

subsection \<open>From and to the memory of the tracee\<close>

function fetch_loop ::
  "('k, 'w, 'z) Sys_scheme \<Rightarrow> 'k Ptrace_Mem \<Rightarrow> word_t \<Rightarrow> nat \<Rightarrow> nat \<Rightarrow> word_t \<Rightarrow> Xarray res" where
  "fetch_loop s P address nb_entries i pointer =
     (if \<not> (if nb_entries \<noteq> 0 then i < nb_entries else pointer \<noteq> 0) then Inr []
      else if i + 1 \<ge> MAX_XPOINTERS then Err ENOMEM
      else
        (case peek_word P (s_regs s) (s_mem s) (address + of_nat (i * sizeof_word (s_regs s))) of
           Inl e \<Rightarrow> Inl e
         | Inr pointer \<Rightarrow>
             (case fetch_loop s P address nb_entries (i + 1) pointer of
                Inl e \<Rightarrow> Inl e
              | Inr array \<Rightarrow> Inr (\<lparr>x_remote = pointer, x_local = None\<rparr> # array))))"
  by pat_completeness auto
termination by (relation "measure (\<lambda>(s, P, address, nb_entries, i, pointer). MAX_XPOINTERS - i)") auto

declare fetch_loop.simps [simp del]

definition fetch_array_of_xpointers ::
  "'k Ptrace_Mem \<Rightarrow> Reg \<Rightarrow> nat \<Rightarrow> ('k, 'w, 'z) Sys_scheme \<Rightarrow> Xarray res" where
  "fetch_array_of_xpointers P reg nb_entries s = fetch_loop s P (peek s reg) nb_entries 0 1"

text \<open>
  The offset of each modified string in the block that is pushed, the vectors and the size of the
  block.
\<close>

fun place_xpointees :: "nat \<Rightarrow> Xarray \<Rightarrow> Xarray \<times> byte list list \<times> nat" where
  "place_xpointees total_size [] = ([], [], total_size)"
| "place_xpointees total_size (x # array) =
     (case x_local x of
        None \<Rightarrow> (case place_xpointees total_size array of (xs, vs, end_size) \<Rightarrow> (x # xs, vs, end_size))
      | Some s \<Rightarrow>
          (case place_xpointees (total_size + (length s + 1)) array of
             (xs, vs, end_size) \<Rightarrow> (x\<lparr>x_remote := of_nat total_size\<rparr> # xs, string_bytes s # vs, end_size)))"

definition absolute :: "word_t \<Rightarrow> XPointer \<Rightarrow> word_t" where
  "absolute tracee_ptr x = (if x_local x \<noteq> None then x_remote x + tracee_ptr else x_remote x)"

definition push_array_of_xpointers ::
  "'k Ptrace_Mem \<Rightarrow> Xarray \<Rightarrow> Reg \<Rightarrow> ('k, 'w, 'z) Sys_scheme \<Rightarrow> unit res \<times> ('k, 'w, 'z) Sys_scheme" where
  "push_array_of_xpointers P array reg s =
     (let wsize = sizeof_word (s_regs s) in
      case place_xpointees (length array * wsize) array of
        (array, vectors, total_size) \<Rightarrow>
          (if vectors = [] then (Inr (), s)
           else
             (case alloc_mem (s_regs s) (int total_size) of
                (tracee_ptr, t) \<Rightarrow>
                  (if tracee_ptr = 0 then (Err E2BIG, s\<lparr>s_regs := t\<rparr>)
                   else
                     (let pod_array = concat (map (\<lambda>x. take wsize (store_word (absolute tracee_ptr x))) array)
                      in case writev_data P (s_mem s) tracee_ptr (pod_array # vectors) of
                           (Inl e, k) \<Rightarrow> (Inl e, s\<lparr>s_regs := t, s_mem := k\<rparr>)
                         | (Inr _, k) \<Rightarrow> (Inr (), s\<lparr>s_regs := poke_reg t reg tracee_ptr, s_mem := k\<rparr>))))))"

subsection \<open>The expansion of scripts\<close>

text \<open>The new argv[]: the interpreter, its argument if any, and the script.\<close>

definition shebang_argv :: "Xarray \<Rightarrow> string \<Rightarrow> string \<Rightarrow> string \<Rightarrow> Xarray res" where
  "shebang_argv argv user_path arg old_user_path =
     (let alone = (if length argv = 1 then 1 else 0) in
      if arg \<noteq> [] then
        (case resize_array_of_xpointers argv 0 (2 + alone) of
           Inl e \<Rightarrow> Inl e
         | Inr argv \<Rightarrow> write_xpointees argv 0 [user_path, arg, old_user_path])
      else
        (case resize_array_of_xpointers argv 0 (1 + alone) of
           Inl e \<Rightarrow> Inl e
         | Inr argv \<Rightarrow> write_xpointees argv 0 [user_path, old_user_path]))"

text \<open>
  The loop: \<open>n\<close> turns are left.  The result is the program to execute, for the host and as the user
  named it, and the new argv[], if a script was found; the state of the tracee changes only by the
  translations.
\<close>

definition set_tracee :: "Tracee \<Rightarrow> 'w \<Rightarrow> ('k, 'w, 'z) Sys_scheme \<Rightarrow> ('k, 'w, 'z) Sys_scheme" where
  "set_tracee t w s = s\<lparr>s_tracee := t, s_world := w\<rparr>"

fun expand_loop ::
  "'k Ptrace_Mem \<Rightarrow> 'w Exec \<Rightarrow> nat \<Rightarrow> string \<Rightarrow> Xarray option \<Rightarrow> ('k, 'w, 'z) Sys_scheme
   \<Rightarrow> (string \<times> string \<times> Xarray option) res \<times> ('k, 'w, 'z) Sys_scheme" where
  "expand_loop P X 0 user_path argv s = (Err ELOOP, s)"
| "expand_loop P X (Suc n) user_path argv s =
     (case translate_and_check_exec X user_path (s_tracee s) (s_world s) of
        (Inl e, t, w) \<Rightarrow> (Inl e, set_tracee t w s)
      | (Inr host_path, t, w) \<Rightarrow>
          (let s = set_tracee t w s; old_user_path = user_path in
           case extract_shebang (x_open X w) host_path of
             Inl e \<Rightarrow> (Inl e, s)
           | Inr None \<Rightarrow> (Inr (host_path, user_path, argv), s)
           | Inr (Some (user_path, arg)) \<Rightarrow>
               (case translate_and_check_exec X user_path (s_tracee s) (s_world s) of
                  (Inl e, t, w) \<Rightarrow> (Inl e, set_tracee t w s)
                | (Inr host_path, t, w) \<Rightarrow>
                    (let s = set_tracee t w s in
                     case (case argv of Some a \<Rightarrow> Inr a | None \<Rightarrow> fetch_array_of_xpointers P SYSARG_2 0 s) of
                       Inl e \<Rightarrow> (Inl e, s)
                     | Inr argv \<Rightarrow>
                         (case shebang_argv argv user_path arg old_user_path of
                            Inl e \<Rightarrow> (Inl e, s)
                          | Inr argv \<Rightarrow> expand_loop P X n user_path (Some argv) s)))))"

definition expand_shebang ::
  "'k Ptrace_Mem \<Rightarrow> 'w Exec \<Rightarrow> string \<Rightarrow> ('k, 'w, 'z) Sys_scheme
   \<Rightarrow> (bool \<times> string \<times> string) res \<times> ('k, 'w, 'z) Sys_scheme" where
  "expand_shebang P X user_path s =
     (case expand_loop P X (h_max_symlinks (x_env X)) user_path None s of
        (Inl e, s) \<Rightarrow> (Inl e, s)
      | (Inr (host_path, user_path, None), s) \<Rightarrow> (Inr (False, host_path, user_path), s)
      | (Inr (host_path, user_path, Some argv), s) \<Rightarrow>
          (case push_array_of_xpointers P argv SYSARG_2 s of
             (Inl e, s) \<Rightarrow> (Inl e, s)
           | (Inr _, s) \<Rightarrow> (Inr (True, host_path, user_path), s)))"

subsection \<open>The new arguments of a script\<close>

lemma write_xpointees_effect:
  "index + length ss \<le> length array \<Longrightarrow>
    \<exists>xs. write_xpointees array index ss = Inr (take index array @ xs @ drop (index + length ss) array)
      \<and> map x_local xs = map Some ss"
proof (induction ss arbitrary: array index)
  case (Cons s ss)
  then have i: "index < length array" by simp
  let ?x = "(array ! index)\<lparr>x_local := Some s\<rparr>"
  have "Suc index + length ss \<le> length (array[index := ?x])" using Cons.prems by simp
  from Cons.IH[OF this] obtain xs
    where xs: "write_xpointees (array[index := ?x]) (Suc index) ss =
        Inr (take (Suc index) (array[index := ?x]) @ xs @ drop (Suc index + length ss) (array[index := ?x]))"
      "map x_local xs = map Some ss" by blast
  have "take (Suc index) (array[index := ?x]) = take index array @ [?x]"
    using i by (simp add: take_Suc_conv_app_nth)
  then show ?case
    using xs i by (intro exI[of _ "?x # xs"]) (simp add: write_xpointee_as_string_def)
qed simp

lemma shebang_argv_effect:
  assumes "argv \<noteq> []" and "length argv + 3 < MAX_XPOINTERS"
  shows "\<exists>heads. shebang_argv argv user arg old =
      Inr (heads @ (if length argv = 1 then argv else tl argv))
    \<and> map x_local heads = map Some (user # (if arg = [] then [] else [arg]) @ [old])"
proof -
  let ?d = "(if arg = [] then 1 else 2) + (if length argv = 1 then 1 else 0) :: nat"
  let ?ss = "user # (if arg = [] then [] else [arg]) @ [old]"
  let ?a = "replicate ?d null_xpointer @ argv"
  have d: "length argv + ?d < MAX_XPOINTERS" using assms(2) by simp
  have r: "resize_array_of_xpointers argv 0 (int ?d) = Inr ?a"
  proof -
    have "nat (int ?d) = ?d" "int ?d > 0" "int ?d \<noteq> 0" by simp_all
    then show ?thesis using assms(1) d unfolding resize_array_of_xpointers_def by simp
  qed
  have eq: "shebang_argv argv user arg old = write_xpointees ?a 0 ?ss"
    using r by (cases "arg = []"; cases "length argv = 1") (simp_all add: shebang_argv_def)
  have "0 + length ?ss \<le> length ?a" using assms(1) by (cases argv) auto
  from write_xpointees_effect[OF this] obtain xs
    where xs: "write_xpointees ?a 0 ?ss = Inr (xs @ drop (length ?ss) ?a)" "map x_local xs = map Some ?ss" by auto
  have "drop (length ?ss) ?a = (if length argv = 1 then argv else tl argv)"
    by (cases "arg = []"; cases "length argv = 1") (simp_all add: drop_Suc)
  then show ?thesis unfolding eq xs(1) using xs(2) by (intro exI[of _ xs]) (simp only: simp_thms)
qed

text \<open>
  A script that is its own interpreter, from any level on, is refused.  The array of arguments grows
  by three entries at most at each turn.
\<close>

lemma expand_loop_cycle:
  assumes check: "\<And>p. p \<in> scripts \<Longrightarrow> \<exists>h u a. translate_and_check_exec X p t w = (Inr h, t, w)
      \<and> extract_shebang (x_open X w) h = Inr (Some (u, a)) \<and> u \<in> scripts"
    and start: "s_tracee s = t" "s_world s = w"
    and fetch: "\<And>s'. s' = s \<Longrightarrow> \<exists>a. fetch_array_of_xpointers P SYSARG_2 0 s' = Inr a \<and> a \<noteq> [] \<and> length a \<le> m"
    and size: "m + 3 * n + 3 < MAX_XPOINTERS"
    and argv: "\<And>a. argv = Some a \<Longrightarrow> a \<noteq> [] \<and> length a \<le> m"
    and path: "path \<in> scripts"
  shows "expand_loop P X n path argv s = (Err ELOOP, s)"
  using fetch size argv path
proof (induction n arbitrary: path argv m)
  case (Suc n)
  have s: "set_tracee t w s = s" using start by (simp add: set_tracee_def)
  obtain h u a where h: "translate_and_check_exec X path t w = (Inr h, t, w)"
    "extract_shebang (x_open X w) h = Inr (Some (u, a))" "u \<in> scripts"
    using check[OF Suc.prems(4)] by blast
  obtain h' where h': "translate_and_check_exec X u t w = (Inr h', t, w)" using check[OF h(3)] by blast
  obtain arr where arr: "(case argv of Some a \<Rightarrow> Inr a | None \<Rightarrow> fetch_array_of_xpointers P SYSARG_2 0 s) = Inr arr"
    "arr \<noteq> []" "length arr \<le> m"
    using Suc.prems(1)[OF refl] Suc.prems(3) by (cases argv) auto
  have fetched: "(case argv of Some a \<Rightarrow> Inr a
      | None \<Rightarrow> fetch_array_of_xpointers P SYSARG_2 0 (set_tracee t w s)) = Inr arr"
    using arr(1) by (cases argv) (simp_all add: s)
  obtain arr' where arr': "shebang_argv arr u a path = Inr arr'" "arr' \<noteq> []" "length arr' \<le> length arr + 3"
  proof -
    from shebang_argv_effect[OF arr(2), of u a path] arr(3) Suc.prems(2) obtain heads
      where heads: "shebang_argv arr u a path = Inr (heads @ (if length arr = 1 then arr else tl arr))"
        "map x_local heads = map Some (u # (if a = [] then [] else [a]) @ [path])" by auto
    have "length heads = length (map x_local heads)" by simp
    then have "length heads \<le> 3" unfolding heads(2) by simp
    then show thesis using that[OF heads(1)] arr(2) by (cases arr) auto
  qed
  have "expand_loop P X n u (Some arr') s = (Err ELOOP, s)"
    by (rule Suc.IH[where m = "m + 3"])
      (use Suc.prems(1)[OF refl] Suc.prems(2) arr(3) arr' h(3) in \<open>auto intro: le_trans\<close>)
  then show ?case by (simp add: s start h(1,2) h' fetched arr'(1) Let_def)
qed simp

subsection \<open>What is pushed is fetched again\<close>

lemma untag_small: "unat a < 2 ^ 56 \<Longrightarrow> untag_pointer a = a"
proof -
  assume "unat a < 2 ^ 56"
  then have "a < 2 ^ 56" by (simp add: word_less_nat_alt)
  then have "a AND mask 56 = a" by (rule less_mask_eq)
  then show ?thesis by (simp add: untag_pointer_def mask_eq_exp_minus_1)
qed

lemma contents_put_sub:
  assumes "off + n \<le> length bs" and "length bs \<le> 2 ^ 64"
  shows "contents (put m a bs) (a + of_nat off) n = take n (drop off bs)"
proof -
  obtain r where r: "length bs = off + (n + r)" using assms(1) by (metis add.assoc le_Suc_ex)
  have "bs = contents (put m a bs) a off @ contents (put m a bs) (a + of_nat off) n
      @ contents (put m a bs) (a + of_nat off + of_nat n) r"
    using contents_put[OF assms(2), of m a] unfolding r by (simp only: contents_split)
  then have "drop off bs = contents (put m a bs) (a + of_nat off) n
      @ contents (put m a bs) (a + of_nat off + of_nat n) r"
    by (metis append_eq_conv_conj length_contents)
  then show ?thesis by simp
qed

text \<open>The low half of a word is in its first four bytes.\<close>

lemma load_word_low:
  assumes "length bs = 8" and "take 4 bs = take 4 (store_word v)"
  shows "load_word bs AND 0xFFFFFFFF = v AND 0xFFFFFFFF"
proof (rule bit_word_eqI)
  fix n
  have "byte_at (load_word bs) i = byte_at v i" if "i < 4" for i
  proof -
    have "bs ! i = store_word v ! i" using assms(2) that by (metis nth_take)
    then show ?thesis using that byte_load_word[OF assms(1), of i] by simp
  qed
  moreover have "bit w n \<longleftrightarrow> bit (byte_at w (n div 8)) (n mod 8)" if "n < 64" for w :: word_t
    using that by (simp add: byte_at_def bit_ucast_iff bit_drop_bit_eq)
  ultimately have "bit (load_word bs) n = bit v n" if "n < 32" using that by simp
  then show "bit (load_word bs AND 0xFFFFFFFF) n = bit (v AND 0xFFFFFFFF) n"
    by (auto simp: low32)
qed

lemma place_xpointees_effect:
  assumes "map x_local xs = map Some strs"
  shows "\<exists>ys. place_xpointees n (xs @ [null_xpointer]) =
      (ys @ [null_xpointer], map string_bytes strs, n + length (concat (map string_bytes strs)))
    \<and> length ys = length strs
    \<and> (\<forall>i < length strs. x_local (ys ! i) \<noteq> None
        \<and> x_remote (ys ! i) = of_nat (n + length (concat (map string_bytes (take i strs)))))"
  using assms
proof (induction xs arbitrary: strs n)
  case (Cons x xs)
  then obtain s ss where strs: "strs = s # ss" "x_local x = Some s" "map x_local xs = map Some ss"
    by (cases strs) auto
  obtain ys where ys: "place_xpointees (n + (length s + 1)) (xs @ [null_xpointer]) =
      (ys @ [null_xpointer], map string_bytes ss, n + (length s + 1) + length (concat (map string_bytes ss)))"
    "length ys = length ss"
    "\<forall>i < length ss. x_local (ys ! i) \<noteq> None
        \<and> x_remote (ys ! i) = of_nat (n + (length s + 1) + length (concat (map string_bytes (take i ss))))"
    using Cons.IH[OF strs(3), of "n + (length s + 1)"] by blast
  have 1: "place_xpointees n ((x # xs) @ [null_xpointer]) =
      ((x\<lparr>x_remote := of_nat n\<rparr> # ys) @ [null_xpointer], map string_bytes strs,
       n + length (concat (map string_bytes strs)))"
    using ys(1) strs(1,2) by simp
  have 2: "x_local ((x\<lparr>x_remote := of_nat n\<rparr> # ys) ! i) \<noteq> None
        \<and> x_remote ((x\<lparr>x_remote := of_nat n\<rparr> # ys) ! i) = of_nat (n + length (concat (map string_bytes (take i strs))))"
    if "i < length strs" for i
  proof (cases i)
    case 0
    then show ?thesis using strs(2) by simp
  next
    case (Suc j)
    then show ?thesis using ys(3) that strs(1) by (simp add: add.assoc)
  qed
  show ?case using 1 2 ys(2) strs(1) by (intro exI[of _ "x\<lparr>x_remote := of_nat n\<rparr> # ys"]) simp
qed (simp add: null_xpointer_def)

lemma concat_map_slice:
  assumes "\<forall>x \<in> set xs. length (f x) = w" and "i < length xs"
  shows "take w (drop (i * w) (concat (map f xs))) = f (xs ! i)"
  using assms
proof (induction xs arbitrary: i)
  case (Cons x xs)
  then show ?case by (cases i) simp_all
qed simp

lemma concat_slice:
  assumes "i < length vs"
  shows "take (length (vs ! i)) (drop (length (concat (take i vs))) (concat vs)) = vs ! i"
    and "length (concat (take i vs)) + length (vs ! i) \<le> length (concat vs)"
proof -
  have "concat vs = concat (take i vs) @ vs ! i @ concat (drop (Suc i) vs)"
    using id_take_nth_drop[OF assms] by (metis concat.simps(2) concat_append)
  then show "take (length (vs ! i)) (drop (length (concat (take i vs))) (concat vs)) = vs ! i"
    "length (concat (take i vs)) + length (vs ! i) \<le> length (concat vs)"
    by (metis append_eq_conv_conj, metis (no_types) length_append le_add1 add.assoc)
qed

context ptrace_memory
begin

lemma writev_data_loop_put:
  assumes "mapped (bytes k) d (length (concat vs) + 7)" and "length (concat vs) < 2 ^ 63"
    and "\<forall>i \<le> length (concat vs). untag_pointer (d + of_nat i) = d + of_nat i"
  shows "\<exists>k'. writev_data_loop P k d vs = (Inr (), k') \<and> bytes k' = put (bytes k) d (concat vs)"
  using assms
proof (induction vs arbitrary: k d)
  case (Cons v vs)
  have u: "untag_pointer d = d" using Cons.prems(3) by (auto dest: spec[of _ 0])
  have "8 * ((length v + 7) div 8) \<le> length v + 7" by simp
  then have m: "mapped (bytes k) (untag_pointer d) (8 * ((length v + 7) div 8))"
    unfolding u using Cons.prems(1) by (rule_tac mapped_mono) auto
  obtain k1 where k1: "write_data P k d v = (Inr (), k1)" "bytes k1 = put (bytes k) d v"
    using write_data_put[OF m] Cons.prems(2) u by auto
  have m1: "mapped (bytes k1) (d + of_nat (length v)) (length (concat vs) + 7)"
    unfolding k1(2) using Cons.prems(1) by (intro mapped_put mapped_shift) (simp add: add.assoc)
  have u1: "\<forall>i \<le> length (concat vs). untag_pointer (d + of_nat (length v) + of_nat i) = d + of_nat (length v) + of_nat i"
  proof (intro allI impI)
    fix i assume "i \<le> length (concat vs)"
    then have "length v + i \<le> length (concat (v # vs))" by simp
    then have "untag_pointer (d + of_nat (length v + i)) = d + of_nat (length v + i)"
      using Cons.prems(3) by blast
    then show "untag_pointer (d + of_nat (length v) + of_nat i) = d + of_nat (length v) + of_nat i"
      unfolding of_nat_add add.assoc[symmetric] .
  qed
  obtain k2 where k2: "writev_data_loop P k1 (d + of_nat (length v)) vs = (Inr (), k2)"
    "bytes k2 = put (bytes k1) (d + of_nat (length v)) (concat vs)"
    using Cons.IH[OF m1 _ u1] Cons.prems(2) by auto
  have "bytes k2 = put (bytes k) d (concat (v # vs))"
  proof (cases "concat vs = []")
    case True
    then show ?thesis unfolding k2(2) k1(2) concat.simps True by simp
  next
    case False
    then show ?thesis
      using put_put[of v "concat vs" "bytes k" d] Cons.prems(2) unfolding k2(2) k1(2) by simp
  qed
  then show ?case using k1(1) k2(1) by simp
qed simp

lemma peek_word_contents:
  assumes "contents (bytes k) a (sizeof_word t) = take (sizeof_word t) (store_word v)"
    and "mapped (bytes k) a 8" and "untag_pointer a = a"
  shows "peek_word P t k a = Inr (if is_32on64_mode t then v AND 0xFFFFFFFF else v)"
proof -
  have p: "p_peekdata P k a = Inr (load_word (contents (bytes k) a 8))" using assms(2) by (rule peek_mapped)
  show ?thesis
  proof (cases "is_32on64_mode t")
    case True
    then have "take 4 (contents (bytes k) a 8) = take 4 (store_word v)"
      using assms(1) by (simp add: sizeof_word_def contents_take)
    then have "load_word (contents (bytes k) a 8) AND 0xFFFFFFFF = v AND 0xFFFFFFFF"
      by (intro load_word_low) simp_all
    then show ?thesis using True p assms(3) by (simp add: peek_word_def)
  next
    case False
    then have "contents (bytes k) a 8 = store_word v" using assms(1) by (simp add: sizeof_word_def)
    then show ?thesis using False p assms(3) by (simp add: peek_word_def load_store_word)
  qed
qed

lemma fetch_loop_pointers:
  assumes peek: "\<And>i. i \<le> n \<Longrightarrow> peek_word P (s_regs s) (s_mem s) (base + of_nat (i * sizeof_word (s_regs s)))
      = Inr (if i < n then ptr i else 0)"
    and nonzero: "\<And>i. i < n \<Longrightarrow> ptr i \<noteq> 0" and small: "n + 1 < MAX_XPOINTERS"
  shows "i \<le> n \<Longrightarrow> p \<noteq> 0 \<Longrightarrow> fetch_loop s P base 0 i p =
    Inr (map (\<lambda>j. \<lparr>x_remote = ptr j, x_local = None\<rparr>) [i..<n] @ [null_xpointer])"
proof (induction "n - i" arbitrary: i p)
  case 0
  then have "i = n" by simp
  moreover have "fetch_loop s P base 0 (n + 1) 0 = Inr []" by (simp add: fetch_loop.simps)
  ultimately show ?case
    using 0 peek[of n] small by (subst fetch_loop.simps) (simp add: null_xpointer_def)
next
  case (Suc m)
  then have i: "i < n" by simp
  have "fetch_loop s P base 0 (i + 1) (ptr i) =
      Inr (map (\<lambda>j. \<lparr>x_remote = ptr j, x_local = None\<rparr>) [i + 1..<n] @ [null_xpointer])"
    using Suc(1)[of "i + 1" "ptr i"] Suc(2) i nonzero by simp
  then show ?case
    using Suc.prems peek[of i] i small by (subst fetch_loop.simps) (simp add: upt_rec)
qed

lemma push_then_fetch:
  fixes s :: "('k, 'w, 'z) Sys_scheme"
  assumes xs: "map x_local xs = map Some strs" "strs \<noteq> []"
    and n_all: "n_all = (length strs + 1) * sizeof_word (s_regs s) + length (concat (map string_bytes strs))"
    and sp: "n_all < unat (peek s STACK_POINTER)" "unat (peek s STACK_POINTER) < 2 ^ 56"
    and m: "mapped (bytes (s_mem s)) (peek s STACK_POINTER - of_nat n_all) (n_all + 7)"
    and reg: "argument reg"
    and strs: "\<forall>str \<in> set strs. NUL \<notin> set str \<and> length str + 1 < LINUX_ARG_MAX"
    and small: "length strs + 1 < MAX_XPOINTERS"
  shows "\<exists>s' array. push_array_of_xpointers P (xs @ [null_xpointer]) reg s = (Inr (), s')
    \<and> fetch_array_of_xpointers P reg 0 s' = Inr array \<and> length array = length strs + 1
    \<and> (\<forall>i < length strs. fst (read_xpointee_as_string P (s_mem s') array i) = Inr (Some (strs ! i)))
    \<and> fst (read_xpointee_as_string P (s_mem s') array (length strs)) = Inr None"
proof -
  let ?t = "s_regs s" let ?n = "length strs"
  let ?w = "sizeof_word ?t" and ?sp = "peek_reg ?t CURRENT STACK_POINTER"
  define vs where "vs = map string_bytes strs"
  have w: "?w = 4 \<or> ?w = 8" by (simp add: sizeof_word_def)
  define p where "p = ?sp - of_nat n_all"
  have pos: "0 < n_all" using n_all w by auto
  have sp': "n_all < unat ?sp" "unat ?sp < 2 ^ 56" using sp by (simp_all add: peek_def)
  note alloc = alloc_mem_room[OF pos sp'(1), folded p_def]
  have up: "unat p = unat ?sp - n_all" unfolding p_def
    using sp' by (subst unat_minus_nat) simp_all
  have addr: "unat (p + of_nat j) = unat p + j" if "j \<le> n_all" for j
  proof -
    have "unat p + j < 2 ^ 64" using that up sp' by simp
    moreover have "j < 2 ^ 64" using that sp' by simp
    ultimately show ?thesis by (simp add: unat_word_ariths unat_of_nat)
  qed
  have untag: "untag_pointer (p + of_nat j) = p + of_nat j" if "j \<le> n_all" for j
    using addr[OF that] that up sp' by (intro untag_small) simp
  obtain ys where ys: "place_xpointees (length (xs @ [null_xpointer]) * ?w) (xs @ [null_xpointer]) =
      (ys @ [null_xpointer], vs, length (xs @ [null_xpointer]) * ?w + length (concat vs))"
    "length ys = ?n"
    "\<forall>i < ?n. x_local (ys ! i) \<noteq> None
        \<and> x_remote (ys ! i) = of_nat (length (xs @ [null_xpointer]) * ?w + length (concat (map string_bytes (take i strs))))"
    using place_xpointees_effect[OF xs(1)] unfolding vs_def by blast
  have len: "length (xs @ [null_xpointer]) = ?n + 1" using arg_cong[OF xs(1), of length] by simp
  have tot: "length (xs @ [null_xpointer]) * ?w + length (concat vs) = n_all"
    unfolding len n_all vs_def by simp
  define ptr where "ptr i = p + of_nat ((?n + 1) * ?w + length (concat (take i vs)))" for i
  define pod where "pod = concat (map (\<lambda>x. take ?w (store_word (absolute p x))) (ys @ [null_xpointer]))"
  have wl: "\<forall>x \<in> set (ys @ [null_xpointer]). length (take ?w (store_word (absolute p x))) = ?w" using w by auto
  have podlen: "length pod = (?n + 1) * ?w"
  proof -
    have "min 8 ?w = ?w" using w by auto
    then show ?thesis
      unfolding pod_def using ys(2) by (simp add: length_concat comp_def sum_list_triv)
  qed
  have absolute: "absolute p ((ys @ [null_xpointer]) ! i) = (if i < ?n then ptr i else 0)" if "i \<le> ?n" for i
    using that ys(2,3) unfolding len
    by (auto simp: absolute_def ptr_def vs_def take_map nth_append null_xpointer_def add.commute)
  define block where "block = concat (pod # vs)"
  have blocklen: "length block = n_all" unfolding block_def using podlen tot len by simp
  have m': "mapped (bytes (s_mem s)) p (length (concat (pod # vs)) + 7)"
    using m blocklen by (simp add: block_def p_def peek_def)
  have smallblock: "length (concat (pod # vs)) < 2 ^ 63" using blocklen sp' by (simp add: block_def)
  obtain k where k: "writev_data_loop P (s_mem s) p (pod # vs) = (Inr (), k)" "bytes k = put (bytes (s_mem s)) p block"
    using writev_data_loop_put[OF m' smallblock] untag blocklen unfolding block_def by auto
  have "untag_pointer p = p" using untag[of 0] by simp
  then have writev: "writev_data P (s_mem s) p (pod # vs) = (Inr (), k)" using k(1) by (simp add: writev_data_def)
  define s' where "s' = s\<lparr>s_regs := poke_reg (poke_reg ?t STACK_POINTER p) reg p, s_mem := k\<rparr>"
  have "vs \<noteq> []" using xs(2) by (simp add: vs_def)
  then have push: "push_array_of_xpointers P (xs @ [null_xpointer]) reg s = (Inr (), s')"
    using alloc(1,2) writev
    unfolding push_array_of_xpointers_def Let_def ys(1) tot prod.case s'_def
    by (simp only: prod.case if_False pod_def[symmetric] sum.case)
  have arch: "is_aarch32 (s_regs s') = is_aarch32 ?t" by (simp add: s'_def)
  have mode: "sizeof_word (s_regs s') = ?w" "is_32on64_mode (s_regs s') = is_32on64_mode ?t"
    using arch by (simp_all add: sizeof_word_def is_32on64_mode_def)
  have mem: "s_mem s' = k" by (simp add: s'_def)
  have base: "peek s' reg = p" using alloc(3) by (simp add: s'_def peek_def peek_poke_fits)
  have mk: "mapped (bytes k) p (n_all + 7)" unfolding k(2) using m' blocklen by (intro mapped_put) (simp add: block_def)
  have mapk: "mapped (bytes k) (p + of_nat off) l" if "off + l \<le> n_all + 7" for off l
    by (rule mapped_shift) (rule mapped_mono[OF mk that])
  have con: "contents (bytes k) (p + of_nat off) l = take l (drop off block)" if "off + l \<le> n_all" for off l
    unfolding k(2) using that blocklen sp' by (intro contents_put_sub) simp_all
  have off_i: "(?n + 1) * ?w + length (concat (take i vs)) + length (strs ! i) + 1 \<le> n_all" if "i < ?n" for i
    using concat_slice(2)[of i vs] that unfolding n_all vs_def by simp
  have unat_ptr: "unat (ptr i) = unat p + ((?n + 1) * ?w + length (concat (take i vs)))" if "i < ?n" for i
    unfolding ptr_def by (rule addr) (use off_i[OF that] in simp)
  have fit32: "v AND 0xFFFFFFFF = v" if "is_32on64_mode ?t" "v = (if i < ?n then ptr i else 0)" for v i
  proof -
    have "unat v \<le> unat ?sp" using that(2) unat_ptr[of i] off_i[of i] up sp'(1) by (cases "i < ?n") simp_all
    then have "unat v < 2 ^ 32"
      using peek_reg_32[of ?t CURRENT STACK_POINTER] that(1) by (simp add: is_32on64_mode_def)
    then have "fits ?t v" by (rule fits_small)
    then show ?thesis using that(1) by (simp add: fits_def is_32on64_mode_def)
  qed
  have peek: "peek_word P (s_regs s') (s_mem s') (p + of_nat (i * sizeof_word (s_regs s'))) = Inr (if i < ?n then ptr i else 0)"
    if i: "i \<le> ?n" for i
  proof -
    have off: "i * ?w + ?w \<le> length pod" using i podlen by (metis Suc_eq_plus1 add.commute mult_Suc mult_le_mono1 Suc_le_mono)
    have slice: "take ?w (drop (i * ?w) pod) = take ?w (store_word (absolute p ((ys @ [null_xpointer]) ! i)))"
      unfolding pod_def by (rule concat_map_slice[OF wl]) (use i ys(2) in simp)
    have bound: "i * ?w + ?w \<le> n_all" using off blocklen by (simp add: block_def)
    have "contents (bytes k) (p + of_nat (i * ?w)) ?w = take ?w (store_word (if i < ?n then ptr i else 0))"
      unfolding con[OF bound] using slice off absolute[OF i] by (simp add: block_def)
    moreover have "mapped (bytes k) (p + of_nat (i * ?w)) 8"
      by (rule mapk) (use bound w in auto)
    ultimately have "peek_word P (s_regs s') k (p + of_nat (i * ?w)) =
        Inr (if is_32on64_mode (s_regs s') then (if i < ?n then ptr i else 0) AND 0xFFFFFFFF
             else (if i < ?n then ptr i else 0))"
      using untag[of "i * ?w"] bound by (intro peek_word_contents) (simp_all add: mode)
    then show ?thesis
      unfolding mem mode using fit32[OF _ refl, of i] by (auto split: if_split_asm)
  qed
  have ptr_pos: "ptr i \<noteq> 0" if "i < ?n" for i
  proof -
    have "0 < unat (ptr i)" using unat_ptr[OF that] up sp'(1) by simp
    then show ?thesis by auto
  qed
  let ?array = "map (\<lambda>j. \<lparr>x_remote = ptr j, x_local = None\<rparr>) [0..<?n] @ [null_xpointer]"
  have fetch: "fetch_array_of_xpointers P reg 0 s' = Inr ?array"
    unfolding fetch_array_of_xpointers_def base by (rule fetch_loop_pointers[OF peek ptr_pos small]) simp_all
  have read: "fst (read_xpointee_as_string P (s_mem s') ?array i) = Inr (Some (strs ! i))" if i: "i < ?n" for i
  proof -
    let ?off = "(?n + 1) * ?w + length (concat (take i vs))" and ?str = "strs ! i"
    have str: "NUL \<notin> set ?str" "length ?str + 1 < LINUX_ARG_MAX" using strs i by auto
    have vi: "vs ! i = string_bytes ?str" "i < length vs" using i by (simp_all add: vs_def)
    have ub: "untag_pointer (ptr i) = ptr i" unfolding ptr_def by (rule untag) (use off_i[OF i] in simp)
    have "contents (bytes k) (ptr i) (length (vs ! i)) = take (length (vs ! i)) (drop ?off block)"
      unfolding ptr_def by (rule con) (use off_i[OF i] in \<open>simp add: vi\<close>)
    also have "\<dots> = vs ! i" unfolding block_def using concat_slice(1)[OF vi(2)] podlen by simp
    finally have c: "contents (bytes k) (untag_pointer (ptr i)) (Suc (length (map of_char ?str :: byte list)))
        = map of_char ?str @ [0]"
      by (simp add: ub vi string_bytes_def)
    have "?off + 8 * (length ?str div 8 + 1) \<le> n_all + 7" using off_i[OF i] by simp
    then have mm: "mapped (bytes k) (untag_pointer (ptr i)) (8 * (length (map of_char ?str :: byte list) div 8 + 1))"
      unfolding ub length_map unfolding ptr_def by (rule mapk)
    obtain bs where bs: "read_string P k (ptr i) LINUX_ARG_MAX = Inr (bs, length (map of_char ?str :: byte list) + 1)"
      "takeWhile (\<lambda>b. b \<noteq> 0) bs = map of_char ?str"
      using read_string_contents[OF c zero_free[OF str(1)] mm, of LINUX_ARG_MAX] str(2) by auto
    have "string_of bs = ?str" using bs(2) by (simp add: string_of_def char_of_byte comp_def)
    then show ?thesis
      using bs(1) str(2) i ptr_pos[OF i]
      by (simp add: read_xpointee_as_string_def mem nth_append Let_def)
  qed
  have "fst (read_xpointee_as_string P (s_mem s') ?array ?n) = Inr None"
    by (simp add: read_xpointee_as_string_def nth_append null_xpointer_def)
  then show ?thesis using push fetch read by (intro exI[of _ s'] exI[of _ ?array]) simp
qed

end

end
