(* ===== verification/Sockets.thy ===== *)
theory Sockets
  imports Sysargs
begin

section \<open>Addresses of Unix domain sockets\<close>

text \<open>
  syscall/socket.c: the pathname of a \<open>struct sockaddr_un\<close> is translated at the entry of a call,
  detranslated at its exit.  The structure is its 110 bytes: the family, then the 108 bytes of the
  path, that need not be terminated.
\<close>

definition sizeof_sockaddr_un :: nat where "sizeof_sockaddr_un = 110"
definition offsetof_path :: nat where "offsetof_path = 2"
definition sizeof_path :: nat where "sizeof_path = 108"
definition AF_UNIX :: nat where "AF_UNIX = 1"

definition sun_family :: "byte list \<Rightarrow> nat" where
  "sun_family sockaddr = unat (sockaddr ! 0) + 256 * unat (sockaddr ! 1)"

definition sun_path :: "byte list \<Rightarrow> string" where
  "sun_path sockaddr = string_of (take sizeof_path (drop offsetof_path sockaddr))"

text \<open>\<open>strncpy\<close> into the path: truncated, or padded with zeros.\<close>

definition set_sun_path :: "byte list \<Rightarrow> string \<Rightarrow> byte list" where
  "set_sun_path sockaddr path =
     take offsetof_path sockaddr
     @ take sizeof_path (map of_char path @ replicate sizeof_path 0)"

text \<open>
  What the translation of an address needs of the system: the directory of temporary files, the
  process identifier of PRoot, and \<open>mktemp(3)\<close>.
\<close>

record 'w Temp =
  tmp_directory :: string
  tmp_pid :: int
  tmp_mktemp :: "'w \<Rightarrow> string \<Rightarrow> string \<times> 'w"

definition create_temp_name :: "'w Temp \<Rightarrow> string \<Rightarrow> string" where
  "create_temp_name T stem =
     tmp_directory T @ ''/'' @ stem @ ''-'' @ string_of_int (tmp_pid T) @ ''-XXXXXX''"

subsection \<open>The operations\<close>

text \<open>\<open>None\<close> is the status 0, nothing to do; otherwise the structure and its pathname.\<close>

definition read_sockaddr_un ::
  "'k Ptrace_Mem \<Rightarrow> 'k \<Rightarrow> nat \<Rightarrow> word_t \<Rightarrow> int \<Rightarrow> (byte list \<times> string) option res" where
  "read_sockaddr_un P k max_size address sz =
     (if sz \<le> int offsetof_path \<or> sz > int max_size then Inr None
      else
        (case read_data P k address (nat sz) of
           Inl e \<Rightarrow> Inl e
         | Inr bs \<Rightarrow>
             (let sockaddr = bs @ replicate (sizeof_sockaddr_un - nat sz) 0
              in if sun_family sockaddr \<noteq> AF_UNIX \<or> sockaddr ! offsetof_path = 0 then Inr None
                 else Inr (Some (sockaddr, sun_path sockaddr)))))"

text \<open>A path that does not fit is bound to a shorter one.\<close>

definition shorten_path ::
  "'w Temp \<Rightarrow> 'w Env \<Rightarrow> string \<Rightarrow> Tracee \<Rightarrow> 'w \<Rightarrow> string res \<times> Tracee \<times> 'w" where
  "shorten_path T E host_path t w =
     (if length host_path \<le> sizeof_path then (Inr host_path, t, w)
      else
        (let name = create_temp_name T ''proot'' in
         if length name > sizeof_path then (Err EINVAL, t, w)
         else
           (case tmp_mktemp T w name of
              (shorter, w) \<Rightarrow>
                (if length shorter > sizeof_path then (Err EINVAL, t, w)
                 else
                   (case detranslate_path (e_tracees E) t host_path None of
                      Inl Undefined \<Rightarrow> (Inl Undefined, t, w)
                    | Inl (Errno e) \<Rightarrow> (Err EINVAL, t, w)
                    | Inr (_, user_path) \<Rightarrow>
                        (Inr shorter,
                         t\<lparr>t_fs := insort_binding3 (t_fs t) (fresh_addr (t_fs t)) shorter user_path\<rparr>, w))))))"

text \<open>The status is whether the address was replaced, paired with the new address.\<close>

definition translate_socketcall_enter ::
  "'k Ptrace_Mem \<Rightarrow> 'w Temp \<Rightarrow> 'w Env \<Rightarrow> word_t \<Rightarrow> int \<Rightarrow> ('k, 'w, 'z) Sys_scheme
   \<Rightarrow> (bool \<times> word_t) res \<times> ('k, 'w, 'z) Sys_scheme" where
  "translate_socketcall_enter P T E address sz s =
     (if address = 0 then (Inr (False, address), s)
      else
        (case read_sockaddr_un P (s_mem s) sizeof_sockaddr_un address sz of
           Inl e \<Rightarrow> (Inl e, s)
         | Inr None \<Rightarrow> (Inr (False, address), s)
         | Inr (Some (sockaddr, user_path)) \<Rightarrow>
             (case translate_path E (s_tracee s) (s_world s) AT_FDCWD user_path True of
                (Inl e, t, w) \<Rightarrow> (Inl e, s\<lparr>s_tracee := t, s_world := w\<rparr>)
              | (Inr host_path, t, w) \<Rightarrow>
                  (case shorten_path T E host_path t w of
                     (Inl e, t, w) \<Rightarrow> (Inl e, s\<lparr>s_tracee := t, s_world := w\<rparr>)
                   | (Inr host_path, t, w) \<Rightarrow>
                       (let s = s\<lparr>s_tracee := t, s_world := w\<rparr> in
                        case alloc_mem (s_regs s) (int sizeof_sockaddr_un) of
                          (address, r) \<Rightarrow>
                            (if address = 0 then (Err EFAULT, s\<lparr>s_regs := r\<rparr>)
                             else
                               (case write_data P (s_mem s) address (set_sun_path sockaddr host_path) of
                                  (Inl e, k) \<Rightarrow> (Inl e, s\<lparr>s_regs := r, s_mem := k\<rparr>)
                                | (Inr _, k) \<Rightarrow> (Inr (True, address), s\<lparr>s_regs := r, s_mem := k\<rparr>))))))))"

text \<open>The detranslated path is written back, cut to the buffer of the process.\<close>

definition write_back_sockaddr ::
  "'k Ptrace_Mem \<Rightarrow> byte list \<Rightarrow> string \<Rightarrow> nat \<Rightarrow> word_t \<Rightarrow> word_t \<Rightarrow> 'k \<Rightarrow> unit res \<times> 'k" where
  "write_back_sockaddr P sockaddr path max_size sock_addr size_addr k =
     (let sz = offsetof_path + length path + 1;
          is_truncated = (sz > max_size);
          sz = (if is_truncated then max_size else sz)
      in case write_data P k sock_addr (take sz (set_sun_path sockaddr path)) of
           (Inl e, k) \<Rightarrow> (Inl e, k)
         | (Inr _, k) \<Rightarrow>
             poke_uint P 4 k size_addr (of_nat (if is_truncated then max_size + 1 else sz)))"

definition translate_socketcall_exit ::
  "'k Ptrace_Mem \<Rightarrow> 'w Env \<Rightarrow> Tracee \<Rightarrow> word_t \<Rightarrow> word_t \<Rightarrow> word_t \<Rightarrow> 'k \<Rightarrow> unit res \<times> 'k" where
  "translate_socketcall_exit P E t sock_addr size_addr max_size k =
     (if sock_addr = 0 then (Inr (), k)
      else
        (case peek_uint P 4 k size_addr of
           Inl e \<Rightarrow> (Inl e, k)
         | Inr sz \<Rightarrow>
             (let max_size = min (unat max_size) sizeof_sockaddr_un in
              case read_sockaddr_un P k max_size sock_addr (sint (ucast sz :: 32 word)) of
                Inl e \<Rightarrow> (Inl e, k)
              | Inr None \<Rightarrow> (Inr (), k)
              | Inr (Some (sockaddr, path)) \<Rightarrow>
                  (case detranslate_path (e_tracees E) t path None of
                     Inl e \<Rightarrow> (Inl e, k)
                   | Inr (_, path) \<Rightarrow>
                       write_back_sockaddr P sockaddr path max_size sock_addr size_addr k))))"

subsection \<open>The structures\<close>

lemma set_sun_path_fields:
  assumes "length sockaddr = sizeof_sockaddr_un"
  shows "length (set_sun_path sockaddr path) = sizeof_sockaddr_un"
    and "sun_family (set_sun_path sockaddr path) = sun_family sockaddr"
    and "NUL \<notin> set path \<Longrightarrow> sun_path (set_sun_path sockaddr path) = take sizeof_path path"
proof -
  have two: "length (take 2 sockaddr) = 2" using assms by (simp add: sizeof_sockaddr_un_def)
  show "length (set_sun_path sockaddr path) = sizeof_sockaddr_un"
    using two by (simp add: set_sun_path_def sizeof_sockaddr_un_def offsetof_path_def sizeof_path_def)
  show "sun_family (set_sun_path sockaddr path) = sun_family sockaddr"
    using two by (simp add: sun_family_def set_sun_path_def offsetof_path_def nth_append)
  assume path: "NUL \<notin> set path"
  have "sun_path (set_sun_path sockaddr path) =
      string_of (take sizeof_path (map of_char path @ replicate sizeof_path 0))"
  proof -
    have "drop 2 (take 2 sockaddr @ bs) = bs" for bs :: "byte list" using two by simp
    moreover have "n - min m n = n - m" for n m :: nat by (simp add: min_def)
    ultimately show ?thesis by (simp add: sun_path_def set_sun_path_def offsetof_path_def take_append del: drop_append)
  qed
  also have "\<dots> = take sizeof_path path"
  proof -
    have "takeWhile (\<lambda>b. b \<noteq> 0) (map of_char (take sizeof_path path) @ replicate n 0 :: byte list) =
        map of_char (take sizeof_path path)" for n
    proof -
      have "\<forall>b \<in> set (map of_char (take sizeof_path path) :: byte list). b \<noteq> 0"
        using zero_free[OF path] by (auto simp: of_char_eq_0 dest: in_set_takeD)
      then have "takeWhile (\<lambda>b. b \<noteq> 0) (map of_char (take sizeof_path path) @ replicate n 0 :: byte list)
          = map of_char (take sizeof_path path) @ takeWhile (\<lambda>b. b \<noteq> 0) (replicate n 0)"
        by (intro takeWhile_append2) blast
      then show ?thesis by (cases n) simp_all
    qed
    moreover have "take sizeof_path (map of_char path @ replicate sizeof_path 0 :: byte list) =
        map of_char (take sizeof_path path) @ replicate (sizeof_path - length path) 0"
      by (cases "length path \<le> sizeof_path") (simp_all add: take_map)
    ultimately show ?thesis by (simp add: string_of_def char_of_byte comp_def)
  qed
  finally show "sun_path (set_sun_path sockaddr path) = take sizeof_path path" .
qed

lemma read_data_length: "read_data P k a n = Inr bs \<Longrightarrow> length bs = n"
proof -
  have full: "read_full_words P k b m = Inr bs \<Longrightarrow> length bs = 8 * m" for b m bs
    by (induction m arbitrary: b bs) (auto split: sum.splits)
  have "(n - n mod 8) div 8 * 8 + n mod 8 = n" by (simp add: minus_mod_eq_div_mult)
  then show "read_data P k a n = Inr bs \<Longrightarrow> length bs = n"
    using full by (fastforce simp: read_data_def Let_def split: sum.splits if_split_asm)
qed

lemma read_sockaddr_un_Some:
  assumes "read_sockaddr_un P k max_size address sz = Inr (Some (sockaddr, path))" and "max_size \<le> sizeof_sockaddr_un"
  shows "length sockaddr = sizeof_sockaddr_un" and "sun_family sockaddr = AF_UNIX" and "path = sun_path sockaddr"
    and "int offsetof_path < sz \<and> sz \<le> int max_size"
proof -
  obtain bs where bs: "read_data P k address (nat sz) = Inr bs" "int offsetof_path < sz" "sz \<le> int max_size"
    "sockaddr = bs @ replicate (sizeof_sockaddr_un - nat sz) 0" "sun_family sockaddr = AF_UNIX" "path = sun_path sockaddr"
    using assms(1) by (auto simp: read_sockaddr_un_def Let_def split: if_split_asm sum.splits)
  have "length bs = nat sz" using bs(1) by (rule read_data_length)
  moreover have "nat sz \<le> sizeof_sockaddr_un" using bs(3) assms(2) by linarith
  ultimately show "length sockaddr = sizeof_sockaddr_un" by (simp add: bs(4))
  show "sun_family sockaddr = AF_UNIX" "path = sun_path sockaddr" "int offsetof_path < sz \<and> sz \<le> int max_size"
    using bs by simp_all
qed

subsection \<open>What the kernel and the process read\<close>

lemma of_nat_mapped_round: "mapped m a 112 \<Longrightarrow> n \<le> 110 \<Longrightarrow> mapped m a (8 * ((n + 7) div 8))"
  by (erule mapped_mono) simp

context ptrace_memory
begin

lemma socketcall_enter_translates:
  assumes "address \<noteq> 0"
    and "read_sockaddr_un P (s_mem s) sizeof_sockaddr_un address sz = Inr (Some (sockaddr, user))"
    and "translate_path E (s_tracee s) (s_world s) AT_FDCWD user True = (Inr host, t, w)"
    and "length host \<le> sizeof_path" and "NUL \<notin> set host" and "room bytes s sizeof_sockaddr_un"
  shows "\<exists>s' a sockaddr'. translate_socketcall_enter P T E address sz s = (Inr (True, a), s')
    \<and> read_data P (s_mem s') a sizeof_sockaddr_un = Inr sockaddr'
    \<and> sun_family sockaddr' = AF_UNIX \<and> sun_path sockaddr' = host
    \<and> s_tracee s' = t \<and> s_world s' = w"
proof -
  note read = read_sockaddr_un_Some[OF assms(2) order_refl]
  note set = set_sun_path_fields[OF read(1), of host]
  let ?sp = "peek_reg (s_regs s) CURRENT STACK_POINTER"
  have n: "0 < sizeof_sockaddr_un" "sizeof_sockaddr_un < unat ?sp" using assms(6) by (simp_all add: room_def peek_def)
  note alloc = alloc_mem_room[OF n]
  let ?a = "?sp - of_nat sizeof_sockaddr_un"
  have m: "mapped (bytes (s_mem s)) (untag_pointer ?a) (8 * ((length (set_sun_path sockaddr host) + 7) div 8))"
    using assms(6) unfolding set(1) by (simp add: room_def peek_def)
  have "length (set_sun_path sockaddr host) < 2 ^ 63" unfolding set(1) by (simp add: sizeof_sockaddr_un_def)
  from write_read_data[OF m this] obtain k where k:
    "write_data P (s_mem s) ?a (set_sun_path sockaddr host) = (Inr (), k)"
    "read_data P k ?a sizeof_sockaddr_un = Inr (set_sun_path sockaddr host)" unfolding set(1) by blast
  let ?s' = "s\<lparr>s_tracee := t, s_world := w, s_regs := poke_reg (s_regs s) STACK_POINTER ?a, s_mem := k\<rparr>"
  have "translate_socketcall_enter P T E address sz s = (Inr (True, ?a), ?s')"
    using assms(1,2,3,4) alloc(1,2) k(1)
    by (simp add: translate_socketcall_enter_def shorten_path_def Let_def)
  then show ?thesis
    using k(2) set(2,3) assms(4,5) read(2) by (intro exI[of _ ?s'] exI[of _ ?a] exI) auto
qed

text \<open>The detranslated address never exceeds the buffer of the process.\<close>

lemma write_back_sockaddr_bounds:
  assumes "mapped (bytes k) (untag_pointer sock_addr) 112" and "mapped (bytes k) (untag_pointer size_addr) 8"
    and "length sockaddr = sizeof_sockaddr_un" and "n \<le> sizeof_sockaddr_un"
    and "write_back_sockaddr P sockaddr path n sock_addr size_addr k = (r, k')"
    and "n \<le> unat (x - untag_pointer sock_addr)" and "4 \<le> unat (x - untag_pointer size_addr)"
  shows "r = Inr () \<and> bytes k' x = bytes k x"
proof -
  define sz where "sz = (if offsetof_path + length path + 1 > n then n else offsetof_path + length path + 1)"
  define v where "v = (of_nat (if offsetof_path + length path + 1 > n then n + 1 else sz) :: word_t)"
  let ?bs = "take sz (set_sun_path sockaddr path)"
  have n: "length ?bs = sz" "sz \<le> 110" "sz \<le> n"
    using assms(4) set_sun_path_fields(1)[OF assms(3), of path] by (auto simp: sz_def sizeof_sockaddr_un_def)
  obtain k2 where k2: "write_data P k sock_addr ?bs = (Inr (), k2)"
    "bytes k2 = put (bytes k) (untag_pointer sock_addr) ?bs"
    using write_data_put[of k sock_addr ?bs] of_nat_mapped_round[OF assms(1) n(2)] n by auto
  have four: "length (take 4 (store_word v)) = 4" by simp
  have "mapped (bytes k2) (untag_pointer size_addr) (8 * ((length (take 4 (store_word v)) + 7) div 8))"
    unfolding four k2(2) using assms(2) by (intro mapped_put) simp
  from write_data_put[OF this] obtain k3 where k3: "write_data P k2 size_addr (take 4 (store_word v)) = (Inr (), k3)"
    "bytes k3 = put (bytes k2) (untag_pointer size_addr) (take 4 (store_word v))" by auto
  have "write_back_sockaddr P sockaddr path n sock_addr size_addr k = (Inr (), k3)"
    unfolding write_back_sockaddr_def Let_def sz_def[symmetric] k2(1)
    by (simp only: prod.case sum.case poke_uint_def v_def[symmetric] k3(1))
  then have "r = Inr ()" "k' = k3" using assms(5) by simp_all
  then show ?thesis using k3(2) k2(2) assms(6,7) n(1,3) by (simp add: put_def)
qed

lemma socketcall_exit_bounds:
  assumes "mapped (bytes k) (untag_pointer sock_addr) 112" and "mapped (bytes k) (untag_pointer size_addr) 8"
    and "translate_socketcall_exit P E t sock_addr size_addr max_size k = (r, k')"
    and "min (unat max_size) sizeof_sockaddr_un \<le> unat (x - untag_pointer sock_addr)"
    and "4 \<le> unat (x - untag_pointer size_addr)"
  shows "bytes k' x = bytes k x"
proof (cases "k' = k")
  case False
  let ?n = "min (unat max_size) sizeof_sockaddr_un"
  obtain sockaddr path path' sz where w: "read_sockaddr_un P k ?n sock_addr sz = Inr (Some (sockaddr, path))"
    "write_back_sockaddr P sockaddr path' ?n sock_addr size_addr k = (r, k')"
    using assms(3) False
    by (auto simp: translate_socketcall_exit_def Let_def split: sum.splits if_split_asm option.splits)
  have "length sockaddr = sizeof_sockaddr_un" using read_sockaddr_un_Some(1)[OF w(1)] by simp
  from write_back_sockaddr_bounds[OF assms(1,2) this _ w(2) assms(4,5)] show ?thesis by simp
qed simp

end

end
