(* ===== verification/System_Properties.thy ===== *)
theory System_Properties
  imports Entry_Properties Mounts Chain Aoxp Sockets
begin

section \<open>Properties of the emulated calls and of the stops of a tracee\<close>

text \<open>
  The promises of the emulated mounts of syscall/enter.c, of the chained system calls, of the
  expansion of scripts, of the arrays of arguments and of the addresses of sockets, with instances.
\<close>

subsection \<open>Mounts\<close>

text \<open>
  C32. \<open>emulate_mount\<close>: once the source and the target are resolved, the bindings are those that
  were there, apart from the one at the target, and the new one; the name-space stays well formed
  and the target names the source.
\<close>

theorem mount_binds:
  assumes "wf_fs (t_fs t)" and "t_glue_type t = 0"
    and "mount_source E src fstype flags t w = (Inr (Some h0), t1, w1)" and "chop_finality h0 = Inr h"
    and "guest_canonicalize E t w1 target = (Inr g, t2, w2)"
    and "path_ok h" and "path_ok g" and "length h + 1 < PATH_MAX"
  shows "\<exists>t' b. emulate_mount E src target fstype flags t w = Inr (t', w2) \<and> t' = t\<lparr>t_fs := t_fs t'\<rparr>
    \<and> wf_fs (t_fs t') \<and> bindings_of (t_fs t') = insert b {x \<in> bindings_of (t_fs t). guest_key x \<noteq> g}
    \<and> (\<exists>n. substitute_binding (t_fs t') GUEST g = Inr (n, h))"
proof -
  obtain t' b where t': "emulate_mount E src target fstype flags t w = Inr (t', w2)" "t' = t\<lparr>t_fs := t_fs t'\<rparr>"
    "wf_fs (t_fs t')" "guest_key b = g" "host_key b = h"
    "bindings_of (t_fs t') = insert b {x \<in> bindings_of (t_fs t). guest_key x \<noteq> g}"
    using emulate_mount_binds[OF assms(1-7)] by blast
  then show ?thesis using substitute_binding_exact[of "t_fs t'" b] assms(8) by blast
qed

lemma ex_guest_canonicalize: "guest_canonicalize ex_env ex_tracee () ''/x/./a/'' = (Inr ''/x/a'', ex_tracee, ())"
  by code_simp

lemma ex_glue_type: "t_glue_type ex_tracee = 0" "wf_fs (t_fs ex_tracee)"
  by (simp_all add: ex_tracee_def)

theorem mount_binds_witness:
  "\<exists>t' n. emulate_mount ex_env ''/a'' ''/x/./a/'' [] MS_BIND ex_tracee () = Inr (t', ())
    \<and> substitute_binding (t_fs t') GUEST ''/x/a'' = Inr (n, ''/r/a'')"
proof -
  have 1: "mount_source ex_env ''/a'' [] MS_BIND ex_tracee () = (Inr (Some ''/r/a''), ex_tracee, ())" by code_simp
  have 2: "chop_finality ''/r/a'' = Inr ''/r/a''" by code_simp
  have "path_ok ''/r/a''" "path_ok ''/x/a''" "length ''/r/a'' + 1 < PATH_MAX"
    by (simp_all add: path_ok_def PATH_MAX_def)
  from mount_binds[OF ex_glue_type(2,1) 1 2 ex_guest_canonicalize this] show ?thesis by blast
qed





text \<open>
  With an ending the paths below the old root are no longer translated to it: the separator after
  the root is lost.
\<close>

lemma pivot_root_ending:
  "\<exists>t'. emulate_pivot_root ex_env ''/x'' ''/x/a/'' ex_tracee () = Inr (t', ())
    \<and> substitute_binding (t_fs t') GUEST ''/a/b'' = Inr (1, ''/rb'')"
proof -
  have "case emulate_pivot_root ex_env ''/x'' ''/x/a/'' ex_tracee () of
      Inr (t, _) \<Rightarrow> substitute_binding (t_fs t) GUEST ''/a/b'' = Inr (1, ''/rb'') | Inl _ \<Rightarrow> False"
    by code_simp
  then show ?thesis by (auto split: sum.splits prod.splits)
qed

subsection \<open>Chained system calls\<close>

text \<open>
  C35. Liveness of a chain: from the exit of the system call that started it, whatever the process
  and the kernel do in between, each chained call is issued in its turn, one every two stops, and the
  stop after the last one ends the chain: the process is between two calls again, its result is the
  one that was forced, and its other registers are those it had before the chain.
\<close>

theorem chain_issues_all_then_ends:
  assumes "ptrace_registers P bank_of" and "chaining cs s" and "cs \<noteq> []" and "c_status s \<noteq> 0" and "silent X"
    and "\<forall>c \<in> set cs. good_call (c_regs s) c"
  shows "(\<forall>i < length cs. \<exists>s0 s1. stops P X exec (2 * i) s = Inr s0 \<and> next_stop P X exec s0 = Inr s1
          \<and> issues (c_regs s) (bank_of (exec (c_kernel s0))) (cs ! i) (bank_of (c_kernel s1)))
    \<and> (\<exists>s'. stops P X exec (2 * length cs + 1) s = Inr s' \<and> c_syscalls s' = None \<and> c_status s' = 0
        \<and> (c_force_final_result s \<longrightarrow>
             read_bank (c_regs s) (bank_of (c_kernel s')) SYSARG_RESULT = shown (c_regs s) (c_final_result s))
        \<and> (\<forall>r. r \<notin> kept \<longrightarrow> read_bank (c_regs s) (bank_of (c_kernel s')) r =
             peek_reg (c_regs s) (restore_version (c_regs s)) r))"
  using ptrace_registers.chain_completes[OF assms] .

definition ex_chain :: "bank Stop" where
  "ex_chain = \<lparr>c_regs = ex_regs False,
     c_syscalls = Some [\<lparr>cs_sysnum = PR_brk, cs_sysargs = [0, 0, 0, 0, 0, 0]\<rparr>],
     c_force_final_result = True, c_final_result = 7, c_workaround = SYSNUM_WORKAROUND_INACTIVE,
     c_restart_how = PTRACE_SYSCALL, c_status = 1, c_cancelled = False, c_relaunched = False,
     c_kernel = (\<lambda>i. 0)\<rparr>"

definition ex_handlers :: "bank Stop Handlers" where
  "ex_handlers = \<lparr>x_syscall_enter = (\<lambda>s. Inr (0, s)), x_syscall_exit = (\<lambda>s. Inr s),
     x_chained_enter = (\<lambda>s. (0, s)), x_chained_exit = (\<lambda>s. s)\<rparr>"

theorem chain_issues_all_then_ends_witness:
  "\<exists>s'. stops plain_registers ex_handlers (\<lambda>b. b) 3 ex_chain = Inr s' \<and> c_syscalls s' = None
    \<and> read_bank (ex_regs False) (c_kernel s') SYSARG_RESULT = 7"
proof -
  let ?c = "\<lparr>cs_sysnum = PR_brk, cs_sysargs = [0, 0, 0, 0, 0, 0]\<rparr>"
  have c: "chaining [?c] ex_chain" "[?c] \<noteq> []" "c_status ex_chain \<noteq> 0" "silent ex_handlers"
    "c_regs ex_chain = ex_regs False" "c_force_final_result ex_chain" "c_final_result ex_chain = 7"
    by (simp_all add: chaining_def ex_chain_def silent_def ex_handlers_def)
  have "detranslate_sysnum ABI_DEFAULT PR_brk = Inr 214"
    by (rule detranslate_translate)
      (simp_all add: translate_sysnum_def sysnums_simps array_get_def sysnums_arm64_def sysnums_arm64_1_def
        sysnums_arm64_2_def)
  then have "\<forall>c \<in> set [?c]. good_call (c_regs ex_chain) c"
    by (simp add: good_call_def c(5) get_abi_def ex_regs_def)
  from chain_issues_all_then_ends[OF plain_regs.ptrace_registers_axioms c(1-4) this, of "\<lambda>b. b"]
  obtain s' where "stops plain_registers ex_handlers (\<lambda>b. b) (2 * length [?c] + 1) ex_chain = Inr s'"
    "c_syscalls s' = None" "read_bank (ex_regs False) (c_kernel s') SYSARG_RESULT = shown (ex_regs False) 7"
    unfolding c(5,7) using c(6) by blast
  then show ?thesis by (simp add: shown_def ex_regs_def numeral_3_eq_3)
qed

subsection \<open>Scripts\<close>

text \<open>
  C36. Termination of \<open>expand_shebang\<close>: a script whose interpreter is a script, and so on without end,
  is refused with ELOOP after MAXSYMLINKS levels, the memory and the registers of the process being
  left as they were.
\<close>

theorem endless_scripts_refused:
  assumes "\<And>p. p \<in> scripts \<Longrightarrow>
      \<exists>h u a. translate_and_check_exec X p (s_tracee s) (s_world s) = (Inr h, s_tracee s, s_world s)
        \<and> extract_shebang (x_open X (s_world s)) h = Inr (Some (u, a)) \<and> u \<in> scripts"
    and "fetch_array_of_xpointers P SYSARG_2 0 s = Inr argv" and "argv \<noteq> []"
    and "length argv + 3 * h_max_symlinks (x_env X) + 3 < MAX_XPOINTERS" and "path \<in> scripts"
  shows "expand_shebang P X path s = (Err ELOOP, s)"
proof -
  have "expand_loop P X (h_max_symlinks (x_env X)) path None s = (Err ELOOP, s)"
    by (rule expand_loop_cycle[where m = "length argv" and scripts = scripts and t = "s_tracee s" and w = "s_world s"])
      (use assms in auto)
  then show ?thesis by (simp add: expand_shebang_def)
qed

definition ex_loop_exec :: "unit Exec" where
  "ex_loop_exec = \<lparr>x_env = ex_env, x_access_f = (\<lambda>w p. True), x_access_x = (\<lambda>w p. True),
     x_open = (\<lambda>w p. Inr (script_file ''#!/a\<newline>'')), x_page_size = 4096, x_qemu = None\<rparr>"

theorem endless_scripts_refused_witness:
  "expand_shebang \<lparr>p_peekdata = (\<lambda>k a. Inr 0), p_pokedata = (\<lambda>k a v. (None, k))\<rparr> ex_loop_exec ''/a'' ex_argument
    = (Err ELOOP, ex_argument)"
proof -
  let ?P = "\<lparr>p_peekdata = (\<lambda>k a. Inr 0), p_pokedata = (\<lambda>k a v. (None, k))\<rparr>"
  have s: "s_tracee ex_argument = ex_tracee" "s_world ex_argument = ()" by (simp_all add: ex_argument_def)
  have "translate_path ex_env ex_tracee () AT_FDCWD ''/a'' True = (Inr ''/r/a'', ex_tracee, ())" by code_simp
  then have 1: "translate_and_check_exec ex_loop_exec ''/a'' ex_tracee () = (Inr ''/r/a'', ex_tracee, ())"
    by (simp add: translate_and_check_exec_def ex_loop_exec_def) (simp add: ex_env_def)
  have parse: "parse_line ''/a'' = (''/a'', [])" by (simp add: parse_line_def blank_def)
  have 2: "extract_shebang (x_open ex_loop_exec ()) ''/r/a'' = Inr (Some (''/a'', []))"
    using shebang_line_parsed[where files = "x_open ex_loop_exec ()" and path = "''/r/a''"
        and f = "script_file ''#!/a\<newline>''" and line = "''/a''" and nl = "CHR 0x0A" and rest = "[]"]
    by (simp add: parse ex_loop_exec_def chars_script_file newline_def BINPRM_BUF_SIZE_def NUL_def)
      (simp add: script_file_def)
  have fetch: "fetch_array_of_xpointers ?P SYSARG_2 0 ex_argument = Inr [null_xpointer]"
  proof -
    have "fetch_loop ex_argument ?P a 0 1 0 = Inr []" for a by (subst fetch_loop.simps) simp
    then show ?thesis
      unfolding fetch_array_of_xpointers_def
      by (subst fetch_loop.simps) (simp add: peek_word_def MAX_XPOINTERS_def null_xpointer_def)
  qed
  have max: "h_max_symlinks (x_env ex_loop_exec) = 40" by (simp add: ex_loop_exec_def ex_env_def)
  show ?thesis
    by (rule endless_scripts_refused[where scripts = "{''/a''}", OF _ fetch])
      (use 1 2 s in \<open>simp_all add: max MAX_XPOINTERS_def\<close>)
qed

subsection \<open>Arrays of strings\<close>

text \<open>
  C37. Round trip of \<open>push_array_of_xpointers\<close>: an array of strings put into the memory of the process,
  with the null pointer that ends it, is the array that is fetched from there: as many strings, the
  same ones in the same order.
\<close>

theorem pushed_array_fetched:
  fixes s :: "('k, 'w, 'z) Sys_scheme"
  assumes "ptrace_memory P bytes" and "map x_local xs = map Some strs" and "strs \<noteq> []"
    and "n = (length strs + 1) * sizeof_word (s_regs s) + length (concat (map string_bytes strs))"
    and "n < unat (peek s STACK_POINTER)" and "unat (peek s STACK_POINTER) < 2 ^ 56"
    and "mapped (bytes (s_mem s)) (peek s STACK_POINTER - of_nat n) (n + 7)" and "argument reg"
    and "\<forall>str \<in> set strs. NUL \<notin> set str \<and> length str + 1 < LINUX_ARG_MAX" and "length strs + 1 < MAX_XPOINTERS"
  shows "\<exists>s' array. push_array_of_xpointers P (xs @ [null_xpointer]) reg s = (Inr (), s')
    \<and> fetch_array_of_xpointers P reg 0 s' = Inr array \<and> length array = length strs + 1
    \<and> (\<forall>i < length strs. fst (read_xpointee_as_string P (s_mem s') array i) = Inr (Some (strs ! i)))
    \<and> fst (read_xpointee_as_string P (s_mem s') array (length strs)) = Inr None"
  using ptrace_memory.push_then_fetch[OF assms] .

theorem pushed_array_fetched_witness:
  "\<exists>s' array. push_array_of_xpointers plain_memory
        [\<lparr>x_remote = 0, x_local = Some ''sh''\<rparr>, \<lparr>x_remote = 9, x_local = Some ''-c''\<rparr>, null_xpointer] SYSARG_2 ex_argument
      = (Inr (), s')
    \<and> fetch_array_of_xpointers plain_memory SYSARG_2 0 s' = Inr array \<and> length array = 3
    \<and> fst (read_xpointee_as_string plain_memory (s_mem s') array 1) = Inr (Some ''-c'')"
proof -
  let ?xs = "[\<lparr>x_remote = 0, x_local = Some ''sh''\<rparr>, \<lparr>x_remote = 9 :: word_t, x_local = Some ''-c''\<rparr>]"
  let ?strs = "[''sh'', ''-c'']"
  have 1: "map x_local ?xs = map Some ?strs" "?strs \<noteq> []" by simp_all
  have 2: "(30 :: nat) = (length ?strs + 1) * sizeof_word (s_regs ex_argument) + length (concat (map string_bytes ?strs))"
    by (simp add: ex_argument_def sizeof_word_def is_32on64_mode_def ex_regs_def string_bytes_def)
  have 3: "30 < unat (peek ex_argument STACK_POINTER)" "unat (peek ex_argument STACK_POINTER) < 2 ^ 56"
    "mapped (s_mem ex_argument) (peek ex_argument STACK_POINTER - of_nat 30) (30 + 7)"
    by (simp_all add: ex_argument_registers) (simp add: mapped_def ex_argument_def put_def)
  have 4: "argument SYSARG_2" by (simp add: argument_def)
  have 5: "\<forall>str \<in> set ?strs. NUL \<notin> set str \<and> length str + 1 < LINUX_ARG_MAX" "length ?strs + 1 < MAX_XPOINTERS"
    by (simp_all add: NUL_def LINUX_ARG_MAX_def MAX_XPOINTERS_def)
  obtain s' array where "push_array_of_xpointers plain_memory (?xs @ [null_xpointer]) SYSARG_2 ex_argument = (Inr (), s')"
    "fetch_array_of_xpointers plain_memory SYSARG_2 0 s' = Inr array" "length array = length ?strs + 1"
    "\<forall>i < length ?strs. fst (read_xpointee_as_string plain_memory (s_mem s') array i) = Inr (Some (?strs ! i))"
    using pushed_array_fetched[OF plain.ptrace_memory_axioms 1 2 3 4 5] by blast
  then show ?thesis by (intro exI[of _ s'] exI[of _ array]) (auto dest: spec[of _ 1])
qed

subsection \<open>Addresses of sockets\<close>

text \<open>
  C38. Bounds of \<open>translate_socketcall_exit\<close>: of the memory of the process only the buffer that it gave
  for the address, up to the size it gave, and the size itself are ever written.
\<close>

theorem socket_address_in_buffer:
  assumes "ptrace_memory P bytes"
    and "mapped (bytes k) (untag_pointer sock_addr) 112" and "mapped (bytes k) (untag_pointer size_addr) 8"
    and "translate_socketcall_exit P E t sock_addr size_addr max_size k = (r, k')"
    and "min (unat max_size) sizeof_sockaddr_un \<le> unat (x - untag_pointer sock_addr)"
    and "4 \<le> unat (x - untag_pointer size_addr)"
  shows "bytes k' x = bytes k x"
  using ptrace_memory.socketcall_exit_bounds[OF assms] .

theorem socket_address_in_buffer_witness:
  "snd (translate_socketcall_exit plain_memory ex_env ex_tracee 0x1000 0x2000 6 (\<lambda>x. Some 0)) 0x1006 = Some 0"
proof -
  obtain r k' where e: "translate_socketcall_exit plain_memory ex_env ex_tracee 0x1000 0x2000 6 (\<lambda>x. Some 0) = (r, k')"
    by fastforce
  have "k' 0x1006 = (\<lambda>x :: word_t. Some (0 :: byte)) 0x1006"
    by (rule socket_address_in_buffer[OF plain.ptrace_memory_axioms _ _ e])
      (simp_all add: mapped_def untag_pointer_def)
  then show ?thesis by (simp add: e)
qed

end
