(* ===== verification/Syscall_Enter.thy ===== *)
theory Syscall_Enter
  imports Mounts Sockets Netlink Chain Aoxp
begin

unbundle bit_operations_syntax

section \<open>The entry of a system call\<close>

text \<open>
  \<open>translate_syscall_enter\<close> of syscall/enter.c, the switch over the system calls whose arguments are
  translated or that are emulated, with the functions for netlink sockets that touch the memory of
  the tracee.  The state of a call extends \<open>Sys\<close> by the fields of \<open>Tracee\<close> that the switch uses.  The
  hooks of the extensions and the translations of execve, ptrace and wait are arguments, as is what
  the host says about netlink sockets.
\<close>

subsection \<open>The state\<close>

record ('k, 'w) Call = "('k, 'w) Sys" +
  n_heap :: Heap
  n_load_info :: "Mapping list option"
  n_fds :: "int list"
  n_pending_socket :: bool
  n_reply :: "byte list"
  n_reply_len :: nat
  n_stripped_newns :: bool
  n_sysexit_pending :: bool
  n_restart_how :: restart
  n_execfn_addr :: word_t
  n_auxv_fd :: int
  n_no_new_privs :: bool

record ('w, 's) Calls =
  y_env :: "'w Env"
  y_temp :: "'w Temp"
  y_net :: Host_Net
  y_netlink_blocked :: bool
  y_page_size :: word_t
  y_seccomp_event :: bool
  y_execve_enter :: "'s \<Rightarrow> nat res \<times> 's"
  y_ptrace_enter :: "'s \<Rightarrow> nat res \<times> 's"
  y_wait_enter :: "'s \<Rightarrow> nat res \<times> 's"
  y_enter_start :: "'s \<Rightarrow> nat res \<times> 's"
  y_enter_end :: "nat res \<Rightarrow> 's \<Rightarrow> nat res \<times> 's"

text \<open>The numbers of the errors (asm-generic/errno.h).\<close>

fun errno_code :: "errno \<Rightarrow> int" where
  "errno_code EPERM = 1" | "errno_code ENOENT = 2" | "errno_code ESRCH = 3" | "errno_code EINTR = 4"
| "errno_code EIO = 5" | "errno_code E2BIG = 7" | "errno_code ENOEXEC = 8" | "errno_code EBADF = 9"
| "errno_code ECHILD = 10" | "errno_code EAGAIN = 11" | "errno_code ENOMEM = 12"
| "errno_code EACCES = 13" | "errno_code EFAULT = 14" | "errno_code EEXIST = 17"
| "errno_code ENOTDIR = 20" | "errno_code EISDIR = 21" | "errno_code EINVAL = 22"
| "errno_code EFBIG = 27" | "errno_code ENOSPC = 28" | "errno_code ERANGE = 34"
| "errno_code ENAMETOOLONG = 36" | "errno_code ENOSYS = 38" | "errno_code ELOOP = 40"
| "errno_code ENOMSG = 42" | "errno_code EIDRM = 43" | "errno_code ENOTSUP = 95"
| "errno_code EAFNOSUPPORT = 97" | "errno_code (EOTHER n) = int n"

text \<open>Flags and requests of the kernel's headers, for arm and arm64.\<close>

definition O_CREAT :: word_t where "O_CREAT = 0x40"
definition O_EXCL :: word_t where "O_EXCL = 0x80"
definition O_NOFOLLOW :: word_t where "O_NOFOLLOW = 0x8000"
definition AT_SYMLINK_NOFOLLOW :: word_t where "AT_SYMLINK_NOFOLLOW = 0x100"
definition AT_SYMLINK_FOLLOW :: word_t where "AT_SYMLINK_FOLLOW = 0x400"
definition IN_DONT_FOLLOW :: word_t where "IN_DONT_FOLLOW = 0x02000000"
definition S_IXUSR :: mode where "S_IXUSR = 0x40"
definition CLONE_NEWNS :: word_t where "CLONE_NEWNS = 0x20000"
definition CLONE_NS_MASK :: word_t where
  "CLONE_NS_MASK = CLONE_NEWNS OR 0x04000000 OR 0x08000000 OR 0x10000000 OR 0x20000000 OR 0x40000000
     OR 0x02000000 OR 0x80"
definition MSG_PEEK :: word_t where "MSG_PEEK = 2"
definition MSG_TRUNC :: word_t where "MSG_TRUNC = 0x20"
definition SOCK_DGRAM :: word_t where "SOCK_DGRAM = 2"
definition SOCK_CLOEXEC :: word_t where "SOCK_CLOEXEC = 0x80000"
definition PR_SET_DUMPABLE :: word_t where "PR_SET_DUMPABLE = 4"
definition PR_SET_SECCOMP :: word_t where "PR_SET_SECCOMP = 22"
definition SECCOMP_MODE_FILTER :: word_t where "SECCOMP_MODE_FILTER = 2"
definition PR_SET_NO_NEW_PRIVS :: word_t where "PR_SET_NO_NEW_PRIVS = 38"
definition PR_GET_NO_NEW_PRIVS :: word_t where "PR_GET_NO_NEW_PRIVS = 39"
definition PR_GET_AUXV :: word_t where "PR_GET_AUXV = 0x41555856"
definition SIOCGIFINDEX :: word_t where "SIOCGIFINDEX = 0x8933"

subsection \<open>Shared steps\<close>

text \<open>Forget the value of a success.\<close>

definition status_of :: "unit res \<Rightarrow> nat res" where
  "status_of r = (case r of Inl e \<Rightarrow> Inl e | Inr _ \<Rightarrow> Inr 0)"

definition set_call :: "nat \<Rightarrow> ('k, 'w, 'z) Sys_scheme \<Rightarrow> ('k, 'w, 'z) Sys_scheme res" where
  "set_call sysnum s =
     (case set_sysnum (s_regs s) sysnum of Inl e \<Rightarrow> Inl e | Inr t \<Rightarrow> Inr (s\<lparr>s_regs := t\<rparr>))"

text \<open>The call is not executed, its result is given.\<close>

definition void_call ::
  "word_t \<Rightarrow> ('k, 'w, 'z) Sys_scheme \<Rightarrow> nat res \<times> ('k, 'w, 'z) Sys_scheme" where
  "void_call result s =
     (let s = poke SYSARG_RESULT result s
      in case set_call PR_void s of Inl e \<Rightarrow> (Inl e, s) | Inr s \<Rightarrow> (Inr 0, s))"

text \<open>The exit stage of this call is asked for.\<close>

definition want_sysexit :: "('k, 'w, 'z) Call_scheme \<Rightarrow> ('k, 'w, 'z) Call_scheme" where
  "want_sysexit s = s\<lparr>n_sysexit_pending := True, n_restart_how := PTRACE_SYSCALL\<rparr>"

text \<open>\<open>peek_word\<close> where the error is looked at later or never: \<open>ptrace(2)\<close> returns -1 then.\<close>

definition peek_unchecked :: "'k Ptrace_Mem \<Rightarrow> Tracee_Regs \<Rightarrow> 'k \<Rightarrow> word_t \<Rightarrow> word_t" where
  "peek_unchecked P t k address =
     (case peek_word P t k address of
        Inl e \<Rightarrow> (if is_32on64_mode t then 0xFFFFFFFF else -1)
      | Inr v \<Rightarrow> v)"

definition peek_or_zero :: "'k Ptrace_Mem \<Rightarrow> Tracee_Regs \<Rightarrow> 'k \<Rightarrow> word_t \<Rightarrow> word_t" where
  "peek_or_zero P t k address = (case peek_word P t k address of Inl e \<Rightarrow> 0 | Inr v \<Rightarrow> v)"

text \<open>Two words in a row, the second one only where the first could be read.\<close>

definition peek_pair :: "'k Ptrace_Mem \<Rightarrow> Tracee_Regs \<Rightarrow> 'k \<Rightarrow> word_t \<Rightarrow> word_t \<Rightarrow> word_t \<times> word_t" where
  "peek_pair P t k a b =
     (peek_unchecked P t k a,
      case peek_word P t k a of Inl e \<Rightarrow> 0 | Inr _ \<Rightarrow> peek_unchecked P t k b)"

subsection \<open>Netlink sockets\<close>

definition sockaddr_nl :: "word_t \<Rightarrow> byte list" where
  "sockaddr_nl pid = le 2 (of_nat AF_NETLINK) @ le 2 0 @ le 4 pid @ le 4 0"

definition write_fake_netlink_sockname ::
  "'k Ptrace_Mem \<Rightarrow> word_t \<Rightarrow> word_t \<Rightarrow> ('k, 'w, 'z) Sys_scheme \<Rightarrow> unit res \<times> ('k, 'w, 'z) Sys_scheme"
  where
  "write_fake_netlink_sockname P addr_ptr size_ptr s =
     (if size_ptr = 0 then (Err EINVAL, s)
      else
        (case peek_uint P 4 (s_mem s) size_ptr of
           Inl e \<Rightarrow> (Inl e, s)
         | Inr in_size \<Rightarrow>
             (let snl = sockaddr_nl (of_int (t_pid (s_tracee s)))
              in case (if addr_ptr \<noteq> 0 \<and> in_size > 0
                       then write_data P (s_mem s) addr_ptr (take (unat in_size) snl)
                       else (Inr (), s_mem s)) of
                   (Inl Undefined, k) \<Rightarrow> (Inl Undefined, s\<lparr>s_mem := k\<rparr>)
                 | (Inl (Errno e), k) \<Rightarrow> (Err EFAULT, s\<lparr>s_mem := k\<rparr>)
                 | (Inr _, k) \<Rightarrow>
                     (case poke_uint P 4 k size_ptr (of_nat (length snl)) of
                        (r, k) \<Rightarrow> (r, s\<lparr>s_mem := k\<rparr>)))))"

definition build_fake_netlink_reply ::
  "'k Ptrace_Mem \<Rightarrow> Host_Net \<Rightarrow> word_t \<Rightarrow> word_t \<Rightarrow> ('k, 'w, 'z) Call_scheme
   \<Rightarrow> ('k, 'w, 'z) Call_scheme res" where
  "build_fake_netlink_reply P H buf_addr buf_len s =
     (let s = s\<lparr>n_reply_len := 0\<rparr> in
      if buf_addr = 0 \<or> buf_len < 16 then Inr s
      else
        (let req_len = min (unat buf_len) 256
         in case read_data P (s_mem s) buf_addr req_len of
              Inl e \<Rightarrow> Inr s
            | Inr req \<Rightarrow>
                (case netlink_reply H req (n_reply s) MAX_FAKE_NETLINK_REPLY (of_int (t_pid (s_tracee s))) of
                   Inl e \<Rightarrow> Inl e
                 | Inr (out, off) \<Rightarrow> Inr (s\<lparr>n_reply := out, n_reply_len := off\<rparr>))))"

text \<open>
  The loop of \<open>scatter_fake_netlink_reply\<close>: \<open>n\<close> vectors are left, the next one at \<open>iov\<close>; \<open>reply\<close> is
  what is left of the reply.  The result is the number of bytes scattered.
\<close>

function scatter_loop ::
  "'k Ptrace_Mem \<Rightarrow> Tracee_Regs \<Rightarrow> word_t \<Rightarrow> nat \<Rightarrow> byte list \<Rightarrow> 'k \<Rightarrow> nat \<times> 'k" where
  "scatter_loop P t iov n reply k =
     (if n = 0 \<or> reply = [] then (0, k)
      else
        (let w = of_nat (sizeof_word t);
             (base, len) = peek_pair P t k iov (iov + w);
             chunk = min (length reply) (unat len)
         in case (if base \<noteq> 0 \<and> chunk > 0 then write_data P k base (take chunk reply) else (Inr (), k)) of
              (Inl e, k) \<Rightarrow> (0, k)
            | (Inr _, k) \<Rightarrow>
                (case scatter_loop P t (iov + 2 * w) (n - 1) (drop chunk reply) k of
                   (done_, k) \<Rightarrow> (chunk + done_, k))))"
  by pat_completeness auto
termination by (relation "measure (\<lambda>(P, t, iov, n, reply, k). n)") auto

declare scatter_loop.simps [simp del]

definition scatter_fake_netlink_reply ::
  "'k Ptrace_Mem \<Rightarrow> word_t \<Rightarrow> word_t \<Rightarrow> ('k, 'w, 'z) Call_scheme \<Rightarrow> nat \<times> ('k, 'w, 'z) Call_scheme" where
  "scatter_fake_netlink_reply P iov_ptr iov_count s =
     (case scatter_loop P (s_regs s) iov_ptr (unat iov_count) (take (n_reply_len s) (n_reply s)) (s_mem s) of
        (n, k) \<Rightarrow> (n, s\<lparr>s_mem := k\<rparr>))"

text \<open>The name of the interface has 15 characters at most.\<close>

definition maybe_fake_siocgifindex ::
  "'k Ptrace_Mem \<Rightarrow> Host_Net \<Rightarrow> word_t \<Rightarrow> ('k, 'w, 'z) Sys_scheme \<Rightarrow> bool \<times> ('k, 'w, 'z) Sys_scheme" where
  "maybe_fake_siocgifindex P H arg s =
     (if arg = 0 then (False, s)
      else
        (case read_data P (s_mem s) arg IFNAMSIZ of
           Inl e \<Rightarrow> (False, s)
         | Inr bs \<Rightarrow>
             (let name = string_of (take (IFNAMSIZ - 1) bs);
                  ifindex = hn_nametoindex H name
              in if int_of_word ifindex \<le> 0 \<and> name \<noteq> ''lo'' then (False, s)
                 else
                   (case write_data P (s_mem s) (arg + of_nat IFNAMSIZ)
                           (le 4 (if int_of_word ifindex \<le> 0 then 1 else ifindex)) of
                      (Inl e, k) \<Rightarrow> (False, s\<lparr>s_mem := k\<rparr>)
                    | (Inr _, k) \<Rightarrow> (True, s\<lparr>s_mem := k\<rparr>)))))"

definition is_proc_userns_file :: "string \<Rightarrow> bool" where
  "is_proc_userns_file path =
     (if take 6 path \<noteq> ''/proc/'' then False
      else
        (let p = drop 6 path;
             rest = dropWhile is_digit p;
             suffix = (if take 5 p = ''self/'' then Some (drop 5 p)
                       else if rest = p \<or> char_at rest 0 \<noteq> CHR ''/'' then None
                       else Some (drop 1 rest))
         in suffix \<in> {Some ''uid_map'', Some ''gid_map'', Some ''setgroups''}))"

definition maybe_redirect_userns_file ::
  "'k Ptrace_Mem \<Rightarrow> Reg \<Rightarrow> ('k, 'w, 'z) Sys_scheme \<Rightarrow> ('k, 'w, 'z) Sys_scheme" where
  "maybe_redirect_userns_file P reg s =
     (case get_sysarg_path P reg s of
        Inl e \<Rightarrow> s
      | Inr host_path \<Rightarrow>
          (if is_proc_userns_file host_path then snd (set_sysarg_path P ''/dev/null'' reg s) else s))"

subsection \<open>Calls on sockets\<close>

definition int_arg :: "('k, 'w, 'z) Sys_scheme \<Rightarrow> Reg \<Rightarrow> int" where
  "int_arg s reg = int_of_word (peek s reg)"

text \<open>\<open>bind\<close> and \<open>connect\<close>.\<close>

definition enter_bind ::
  "'k Ptrace_Mem \<Rightarrow> ('w, ('k, 'w, 'z) Call_scheme) Calls \<Rightarrow> nat \<Rightarrow> ('k, 'w, 'z) Call_scheme
   \<Rightarrow> nat res \<times> ('k, 'w, 'z) Call_scheme" where
  "enter_bind P Y sysnum s =
     (if sysnum = PR_bind \<and> is_fake_netlink_fd (n_fds s) (int_arg s SYSARG_1) then void_call 0 s
      else
        (case translate_socketcall_enter P (y_temp Y) (y_env Y) (peek s SYSARG_2) (int_arg s SYSARG_3) s of
           (Inl e, s) \<Rightarrow> (Inl e, s)
         | (Inr (False, _), s) \<Rightarrow> (Inr 0, s)
         | (Inr (True, address), s) \<Rightarrow>
             (Inr 0, poke SYSARG_3 (of_nat sizeof_sockaddr_un) (poke SYSARG_2 address s))))"

text \<open>\<open>accept\<close>, \<open>getsockname\<close> and \<open>getpeername\<close>: the size of the buffer is kept in the sixth argument.\<close>

definition enter_accept ::
  "'k Ptrace_Mem \<Rightarrow> nat \<Rightarrow> ('k, 'w, 'z) Sys_scheme \<Rightarrow> nat res \<times> ('k, 'w, 'z) Sys_scheme" where
  "enter_accept P sysnum s =
     (let special = (sysnum = PR_accept \<or> sysnum = PR_accept4) in
      if special \<and> peek_reg (s_regs s) ORIGINAL SYSARG_2 = 0 then (Inr 0, s)
      else
        (case peek_word P (s_regs s) (s_mem s) (peek_reg (s_regs s) ORIGINAL SYSARG_3) of
           Inl Undefined \<Rightarrow> (Inl Undefined, s)
         | Inl (Errno e) \<Rightarrow> (if special then Err EINVAL else Err e, s)
         | Inr v \<Rightarrow> (Inr 0, poke SYSARG_6 (of_int (int_of_word v)) s)))"

definition enter_getsockname ::
  "'k Ptrace_Mem \<Rightarrow> nat \<Rightarrow> ('k, 'w, 'z) Call_scheme \<Rightarrow> nat res \<times> ('k, 'w, 'z) Call_scheme" where
  "enter_getsockname P sysnum s =
     (if is_fake_netlink_fd (n_fds s) (int_arg s SYSARG_1) then
        (case write_fake_netlink_sockname P (peek s SYSARG_2) (peek s SYSARG_3) s of
           (Inl Undefined, s) \<Rightarrow> (Inl Undefined, s)
         | (Inl (Errno e), s) \<Rightarrow> void_call (of_int (- errno_code e)) s
         | (Inr _, s) \<Rightarrow> void_call 0 s)
      else enter_accept P sysnum s)"

definition enter_socket ::
  "('w, ('k, 'w, 'z) Call_scheme) Calls \<Rightarrow> ('k, 'w, 'z) Call_scheme \<Rightarrow> nat res \<times> ('k, 'w, 'z) Call_scheme"
  where
  "enter_socket Y s =
     (if peek s SYSARG_1 = of_nat AF_NETLINK \<and> peek s SYSARG_3 = 0 \<and> y_netlink_blocked Y then
        (let type = peek s SYSARG_2;
             s = poke SYSARG_1 (of_nat AF_UNIX) s;
             s = poke SYSARG_2 (SOCK_DGRAM OR (type AND SOCK_CLOEXEC)) s;
             s = poke SYSARG_3 0 s
         in (Inr 0, want_sysexit (s\<lparr>n_pending_socket := True\<rparr>)))
      else (Inr 0, s))"

definition enter_sendto ::
  "'k Ptrace_Mem \<Rightarrow> ('w, ('k, 'w, 'z) Call_scheme) Calls \<Rightarrow> ('k, 'w, 'z) Call_scheme
   \<Rightarrow> nat res \<times> ('k, 'w, 'z) Call_scheme" where
  "enter_sendto P Y s =
     (if is_fake_netlink_fd (n_fds s) (int_arg s SYSARG_1) then
        (let buf = peek s SYSARG_2; len = peek s SYSARG_3
         in case build_fake_netlink_reply P (y_net Y) buf len s of
              Inl e \<Rightarrow> (Inl e, s)
            | Inr s \<Rightarrow> void_call len s)
      else (Inr 0, s))"

text \<open>The first vector of the message only.\<close>

definition enter_sendmsg ::
  "'k Ptrace_Mem \<Rightarrow> ('w, ('k, 'w, 'z) Call_scheme) Calls \<Rightarrow> ('k, 'w, 'z) Call_scheme
   \<Rightarrow> nat res \<times> ('k, 'w, 'z) Call_scheme" where
  "enter_sendmsg P Y s =
     (if is_fake_netlink_fd (n_fds s) (int_arg s SYSARG_1) then
        (let msghdr_addr = peek s SYSARG_2; t = s_regs s; k = s_mem s; w = of_nat (sizeof_word t);
             (iov_ptr, iov_count) =
               (if msghdr_addr = 0 then (0, 0) else peek_pair P t k (msghdr_addr + 2 * w) (msghdr_addr + 3 * w))
         in if iov_ptr \<noteq> 0 \<and> iov_count > 0 then
              (case peek_pair P t k iov_ptr (iov_ptr + w) of
                 (base, len) \<Rightarrow>
                   (case build_fake_netlink_reply P (y_net Y) base len s of
                      Inl e \<Rightarrow> (Inl e, s)
                    | Inr s \<Rightarrow> void_call len s))
            else void_call 0 s)
      else (Inr 0, s))"

definition enter_recvfrom ::
  "'k Ptrace_Mem \<Rightarrow> ('k, 'w, 'z) Call_scheme \<Rightarrow> nat res \<times> ('k, 'w, 'z) Call_scheme" where
  "enter_recvfrom P s =
     (if is_fake_netlink_fd (n_fds s) (int_arg s SYSARG_1) then
        (let buf = peek s SYSARG_2; len = peek s SYSARG_3; flags = peek s SYSARG_4;
             addr_ptr = peek s SYSARG_5; size_ptr = peek s SYSARG_6; reply_len = n_reply_len s;
             copied = (if reply_len > 0 \<and> buf \<noteq> 0 then min (unat len) reply_len else 0);
             (copied, k) =
               (if copied > 0 then
                  (case write_data P (s_mem s) buf (take copied (n_reply s)) of
                     (Inl e, k) \<Rightarrow> (0, k) | (Inr _, k) \<Rightarrow> (copied, k))
                else (copied, s_mem s));
             s = s\<lparr>s_mem := k, n_reply_len := (if flags AND MSG_PEEK = 0 then 0 else n_reply_len s)\<rparr>;
             result = (if flags AND MSG_TRUNC \<noteq> 0 then reply_len else copied);
             s = (if addr_ptr \<noteq> 0 \<and> size_ptr \<noteq> 0
                  then snd (write_fake_netlink_sockname P addr_ptr size_ptr s) else s)
         in void_call (of_nat result) s)
      else (Inr 0, s))"

text \<open>The source address of a message: \<open>struct sockaddr_nl\<close> of the kernel.\<close>

definition write_msg_name ::
  "'k Ptrace_Mem \<Rightarrow> word_t \<Rightarrow> word_t \<Rightarrow> ('k, 'w, 'z) Sys_scheme \<Rightarrow> ('k, 'w, 'z) Sys_scheme" where
  "write_msg_name P msg_name namelen_addr s =
     (case peek_uint P 4 (s_mem s) namelen_addr of
        Inl e \<Rightarrow> s
      | Inr in_namelen \<Rightarrow>
          (if in_namelen = 0 then s
           else
             (let k = snd (write_data P (s_mem s) msg_name (take (unat in_namelen) (sockaddr_nl 0)));
                  k = snd (poke_uint P 4 k namelen_addr 12)
              in s\<lparr>s_mem := k\<rparr>)))"

definition enter_recvmsg ::
  "'k Ptrace_Mem \<Rightarrow> ('k, 'w, 'z) Call_scheme \<Rightarrow> nat res \<times> ('k, 'w, 'z) Call_scheme" where
  "enter_recvmsg P s =
     (if is_fake_netlink_fd (n_fds s) (int_arg s SYSARG_1) then
        (let msghdr_addr = peek s SYSARG_2; flags = peek s SYSARG_3; w = of_nat (sizeof_word (s_regs s));
             reply_len = n_reply_len s;
             field = (\<lambda>i. if msghdr_addr = 0 then 0
                          else peek_or_zero P (s_regs s) (s_mem s) (msghdr_addr + i * w));
             msg_name = field 0; iov_ptr = field 2; iov_count = field 3;
             (scattered, s) =
               (if iov_ptr \<noteq> 0 \<and> iov_count > 0 then scatter_fake_netlink_reply P iov_ptr iov_count s
                else (0, s));
             s = s\<lparr>n_reply_len := (if flags AND MSG_PEEK = 0 then 0 else n_reply_len s)\<rparr>;
             result = (if flags AND MSG_TRUNC \<noteq> 0 then reply_len else scattered);
             s = (if msg_name \<noteq> 0 \<and> msghdr_addr \<noteq> 0 then write_msg_name P msg_name (msghdr_addr + w) s else s);
             s = (if msghdr_addr \<noteq> 0
                  then s\<lparr>s_mem := snd (poke_uint P 4 (s_mem s) (msghdr_addr + 6 * w)
                                        (if scattered < reply_len then MSG_TRUNC else 0))\<rparr>
                  else s)
         in void_call (of_nat result) s)
      else (Inr 0, s))"

text \<open>
  \<open>socketcall(2)\<close>: the arguments are words in the memory of the process.  Reading the address and the
  size of its buffer for the calls that fill it, then the translation of those that give an address.
\<close>

definition SYS_BIND :: word_t where "SYS_BIND = 2"
definition SYS_CONNECT :: word_t where "SYS_CONNECT = 3"
definition SYS_ACCEPT :: word_t where "SYS_ACCEPT = 5"
definition SYS_GETSOCKNAME :: word_t where "SYS_GETSOCKNAME = 6"
definition SYS_GETPEERNAME :: word_t where "SYS_GETPEERNAME = 7"
definition SYS_ACCEPT4 :: word_t where "SYS_ACCEPT4 = 18"

definition socketcall_sizes ::
  "'k Ptrace_Mem \<Rightarrow> (nat \<Rightarrow> word_t) \<Rightarrow> bool \<Rightarrow> ('k, 'w, 'z) Sys_scheme
   \<Rightarrow> nat res \<times> ('k, 'w, 'z) Sys_scheme" where
  "socketcall_sizes P sysarg_addr special s =
     (let t = s_regs s; k = s_mem s in
      case (if special then peek_word P t k (sysarg_addr 2) else Inr 1) of
        Inl e \<Rightarrow> (Inl e, s)
      | Inr sock_addr \<Rightarrow>
          (if sock_addr = 0 then (Inr 0, s)
           else
             (case peek_word P t k (sysarg_addr 3) of
                Inl e \<Rightarrow> (Inl e, s)
              | Inr size_addr \<Rightarrow>
                  (case peek_word P t k size_addr of
                     Inl Undefined \<Rightarrow> (Inl Undefined, s)
                   | Inl (Errno e) \<Rightarrow> (if special then Err EINVAL else Err e, s)
                   | Inr v \<Rightarrow> (Inr 0, poke SYSARG_6 (of_int (int_of_word v)) s)))))"

definition socketcall_address ::
  "'k Ptrace_Mem \<Rightarrow> ('w, ('k, 'w, 'z) Call_scheme) Calls \<Rightarrow> (nat \<Rightarrow> word_t) \<Rightarrow> ('k, 'w, 'z) Call_scheme
   \<Rightarrow> nat res \<times> ('k, 'w, 'z) Call_scheme" where
  "socketcall_address P Y sysarg_addr s =
     (case peek_word P (s_regs s) (s_mem s) (sysarg_addr 2) of
        Inl e \<Rightarrow> (Inl e, s)
      | Inr sock_addr \<Rightarrow>
          (case peek_word P (s_regs s) (s_mem s) (sysarg_addr 3) of
             Inl e \<Rightarrow> (Inl e, s)
           | Inr sz \<Rightarrow>
               (case translate_socketcall_enter P (y_temp Y) (y_env Y) sock_addr (int_of_word sz) s of
                  (Inl e, s) \<Rightarrow> (Inl e, s)
                | (Inr (False, _), s) \<Rightarrow> (Inr 0, s)
                | (Inr (True, address), s) \<Rightarrow>
                    (let s = poke SYSARG_6 sz (poke SYSARG_5 sock_addr s)
                     in case poke_word P (s_regs s) (s_mem s) (sysarg_addr 2) address of
                          (Some e, k) \<Rightarrow> (Err e, s\<lparr>s_mem := k\<rparr>)
                        | (None, k) \<Rightarrow>
                            (case poke_word P (s_regs s) k (sysarg_addr 3) (of_nat sizeof_sockaddr_un) of
                               (Some e, k) \<Rightarrow> (Err e, s\<lparr>s_mem := k\<rparr>)
                             | (None, k) \<Rightarrow> (Inr 0, s\<lparr>s_mem := k\<rparr>))))))"

definition enter_socketcall ::
  "'k Ptrace_Mem \<Rightarrow> ('w, ('k, 'w, 'z) Call_scheme) Calls \<Rightarrow> ('k, 'w, 'z) Call_scheme
   \<Rightarrow> nat res \<times> ('k, 'w, 'z) Call_scheme" where
  "enter_socketcall P Y s =
     (let args_addr = peek s SYSARG_2; call = peek s SYSARG_1;
          sysarg_addr = (\<lambda>n. args_addr + of_nat ((n - 1) * sizeof_word (s_regs s)))
      in if call = SYS_BIND \<or> call = SYS_CONNECT then socketcall_address P Y sysarg_addr s
         else if call = SYS_ACCEPT \<or> call = SYS_ACCEPT4 then socketcall_sizes P sysarg_addr True s
         else if call = SYS_GETSOCKNAME \<or> call = SYS_GETPEERNAME then socketcall_sizes P sysarg_addr False s
         else (Inr 0, s))"

subsection \<open>Calls on paths\<close>

text \<open>
  \<open>chdir\<close> and \<open>fchdir\<close>: the directory is translated with an ending dot, checked, detranslated and kept.
  A directory that is not accessible makes the function return at once; the -1 of \<open>lstat(2)\<close>, that is
  EPERM, is the status where it fails.
\<close>

datatype outcome = Break "nat res" | Return_now "nat res"

definition chdir_target :: "'k Ptrace_Mem \<Rightarrow> nat \<Rightarrow> ('k, 'w, 'z) Sys_scheme \<Rightarrow> (int \<times> string) res" where
  "chdir_target P sysnum s =
     (if sysnum = PR_chdir then
        (case get_sysarg_path P SYSARG_1 s of
           Inl e \<Rightarrow> Inl e
         | Inr path \<Rightarrow> (case join2 path ''.'' of Inl e \<Rightarrow> Inl e | Inr oldpath \<Rightarrow> Inr (AT_FDCWD, oldpath)))
      else Inr (int_arg s SYSARG_1, ''.''))"

definition change_cwd :: "string \<Rightarrow> Tracee \<Rightarrow> Tracee" where
  "change_cwd path t = t\<lparr>t_fs := (t_fs t)\<lparr>fs_cwd := path\<rparr>\<rparr>"

definition enter_chdir ::
  "'k Ptrace_Mem \<Rightarrow> ('w, ('k, 'w, 'z) Call_scheme) Calls \<Rightarrow> nat \<Rightarrow> ('k, 'w, 'z) Call_scheme
   \<Rightarrow> outcome \<times> ('k, 'w, 'z) Call_scheme" where
  "enter_chdir P Y sysnum s =
     (case chdir_target P sysnum s of
        Inl e \<Rightarrow> (Break (Inl e), s)
      | Inr (dirfd, oldpath) \<Rightarrow>
          (case translate_path (y_env Y) (s_tracee s) (s_world s) dirfd oldpath True of
             (Inl e, t, w) \<Rightarrow> (Break (Inl e), set_tracee t w s)
           | (Inr path, t, w) \<Rightarrow>
               (let s = set_tracee t w s in
                case h_lstat (y_env Y) w path of
                  Inl e \<Rightarrow> (Break (Err EPERM), s)
                | Inr mode \<Rightarrow>
                    (if mode AND S_IXUSR = 0 then (Return_now (Err EACCES), s)
                     else
                       (case detranslate_path (e_tracees (y_env Y)) (s_tracee s) path None of
                          Inl e \<Rightarrow> (Break (Inl e), s)
                        | Inr (_, path) \<Rightarrow>
                            (case chop_finality path of
                               Inl e \<Rightarrow> (Break (Inl e), s)
                             | Inr path \<Rightarrow>
                                 (case void_call 0 (s\<lparr>s_tracee := change_cwd path (s_tracee s)\<rparr>) of
                                    (r, s) \<Rightarrow> (Break r, s))))))))"

text \<open>The calls whose only path is in a register: which one, and whether a link at its end is followed.\<close>

definition path_argument :: "nat \<Rightarrow> (Reg \<times> Type) option" where
  "path_argument sysnum =
     (if sysnum \<in> set [PR_access, PR_acct, PR_chmod, PR_chown, PR_chown32, PR_chroot, PR_getxattr,
           PR_listxattr, PR_mknod, PR_oldstat, PR_creat, PR_removexattr, PR_setxattr, PR_stat, PR_stat64,
           PR_statfs, PR_statfs64, PR_swapoff, PR_swapon, PR_truncate, PR_truncate64, PR_uselib, PR_utime,
           PR_utimes]
      then Some (SYSARG_1, REGULAR)
      else if sysnum \<in> set [PR_readlink, PR_lchown, PR_lchown32, PR_lgetxattr, PR_llistxattr,
           PR_lremovexattr, PR_lsetxattr, PR_lstat, PR_lstat64, PR_oldlstat, PR_unlink, PR_rmdir, PR_mkdir]
      then Some (SYSARG_1, SYMLINK)
      else if sysnum = PR_symlink then Some (SYSARG_2, SYMLINK)
      else None)"

definition link_type :: "bool \<Rightarrow> Type" where
  "link_type nofollow = (if nofollow then SYMLINK else REGULAR)"

text \<open>The calls whose only path is relative to a descriptor: the registers of both.\<close>

definition path_at_argument :: "nat \<Rightarrow> ('k, 'w, 'z) Sys_scheme \<Rightarrow> (Reg \<times> Reg \<times> Type) option" where
  "path_at_argument sysnum s =
     (let nofollow = (\<lambda>flags. link_type (peek s flags AND AT_SYMLINK_NOFOLLOW \<noteq> 0)) in
      if sysnum = PR_fchownat \<or> sysnum = PR_name_to_handle_at
      then Some (SYSARG_1, SYSARG_2, nofollow SYSARG_5)
      else if sysnum = PR_fstatat64 \<or> sysnum = PR_newfstatat \<or> sysnum = PR_utimensat
      then Some (SYSARG_1, SYSARG_2, nofollow SYSARG_4)
      else if sysnum = PR_fchmodat \<or> sysnum = PR_faccessat \<or> sysnum = PR_faccessat2
           \<or> sysnum = PR_futimesat \<or> sysnum = PR_mknodat
      then Some (SYSARG_1, SYSARG_2, REGULAR)
      else if sysnum = PR_readlinkat \<or> sysnum = PR_unlinkat \<or> sysnum = PR_mkdirat
      then Some (SYSARG_1, SYSARG_2, SYMLINK)
      else if sysnum = PR_symlinkat then Some (SYSARG_2, SYSARG_3, SYMLINK)
      else if sysnum = PR_statx then Some (SYSARG_1, SYSARG_2, nofollow SYSARG_3)
      else None)"

definition translate_sysarg_at ::
  "'k Ptrace_Mem \<Rightarrow> 'w Env \<Rightarrow> Reg \<Rightarrow> Reg \<Rightarrow> Type \<Rightarrow> ('k, 'w, 'z) Sys_scheme
   \<Rightarrow> unit res \<times> ('k, 'w, 'z) Sys_scheme" where
  "translate_sysarg_at P E dirfd reg type s =
     (case get_sysarg_path P reg s of
        Inl e \<Rightarrow> (Inl e, s)
      | Inr path \<Rightarrow> translate_path2 P E (int_arg s dirfd) path reg type s)"

text \<open>The calls with two paths; those relative to descriptors are read before the first is translated.\<close>

definition enter_rename ::
  "'k Ptrace_Mem \<Rightarrow> 'w Env \<Rightarrow> ('k, 'w, 'z) Sys_scheme \<Rightarrow> unit res \<times> ('k, 'w, 'z) Sys_scheme" where
  "enter_rename P E s =
     (case translate_sysarg P E SYSARG_1 SYMLINK s of
        (Inl e, s) \<Rightarrow> (Inl e, s)
      | (Inr _, s) \<Rightarrow> translate_sysarg P E SYSARG_2 SYMLINK s)"

definition enter_renameat ::
  "'k Ptrace_Mem \<Rightarrow> 'w Env \<Rightarrow> nat \<Rightarrow> ('k, 'w, 'z) Sys_scheme \<Rightarrow> unit res \<times> ('k, 'w, 'z) Sys_scheme" where
  "enter_renameat P E sysnum s =
     (let olddirfd = int_arg s SYSARG_1; newdirfd = int_arg s SYSARG_3;
          follow = (sysnum = PR_linkat \<and> peek s SYSARG_5 AND AT_SYMLINK_FOLLOW \<noteq> 0)
      in case get_sysarg_path P SYSARG_2 s of
           Inl e \<Rightarrow> (Inl e, s)
         | Inr oldpath \<Rightarrow>
             (case get_sysarg_path P SYSARG_4 s of
                Inl e \<Rightarrow> (Inl e, s)
              | Inr newpath \<Rightarrow>
                  (case translate_path2 P E olddirfd oldpath SYSARG_2 (link_type (\<not> follow)) s of
                     (Inl e, s) \<Rightarrow> (Inl e, s)
                   | (Inr _, s) \<Rightarrow> translate_path2 P E newdirfd newpath SYSARG_4 SYMLINK s)))"

text \<open>Whether a link at the end of an opened path is followed.\<close>

definition open_type :: "word_t \<Rightarrow> Type" where
  "open_type flags =
     link_type (flags AND O_NOFOLLOW \<noteq> 0 \<or> (flags AND O_EXCL \<noteq> 0 \<and> flags AND O_CREAT \<noteq> 0))"

definition redirected ::
  "'k Ptrace_Mem \<Rightarrow> Reg \<Rightarrow> unit res \<times> ('k, 'w, 'z) Sys_scheme \<Rightarrow> unit res \<times> ('k, 'w, 'z) Sys_scheme" where
  "redirected P reg r =
     (case r of (Inl e, s) \<Rightarrow> (Inl e, s) | (Inr _, s) \<Rightarrow> (Inr (), maybe_redirect_userns_file P reg s))"

definition enter_open ::
  "'k Ptrace_Mem \<Rightarrow> 'w Env \<Rightarrow> ('k, 'w, 'z) Call_scheme \<Rightarrow> unit res \<times> ('k, 'w, 'z) Call_scheme" where
  "enter_open P E s =
     (let flags = peek s SYSARG_2;
          s = (if n_execfn_addr s \<noteq> 0 then
                 (case read_string P (s_mem s) (peek s SYSARG_1) PATH_MAX of
                    Inl e \<Rightarrow> s
                  | Inr (bs, n) \<Rightarrow> if n > 0 \<and> string_of bs = ''/proc/self/auxv'' then want_sysexit s else s)
               else s)
      in redirected P SYSARG_1 (translate_sysarg P E SYSARG_1 (open_type flags) s))"

definition enter_openat ::
  "'k Ptrace_Mem \<Rightarrow> 'w Env \<Rightarrow> ('k, 'w, 'z) Call_scheme \<Rightarrow> unit res \<times> ('k, 'w, 'z) Call_scheme" where
  "enter_openat P E s =
     (let dirfd = int_arg s SYSARG_1; flags = peek s SYSARG_3
      in case get_sysarg_path P SYSARG_2 s of
           Inl e \<Rightarrow> (Inl e, s)
         | Inr path \<Rightarrow>
             (let s = (if n_execfn_addr s \<noteq> 0 \<and> path = ''/proc/self/auxv'' then want_sysexit s else s)
              in redirected P SYSARG_2 (translate_path2 P E dirfd path SYSARG_2 (open_type flags) s)))"

text \<open>\<open>openat2\<close> becomes \<open>openat\<close>: the flags and the mode of \<open>struct open_how\<close> go to registers.\<close>

definition enter_openat2 ::
  "'k Ptrace_Mem \<Rightarrow> 'w Env \<Rightarrow> ('k, 'w, 'z) Call_scheme \<Rightarrow> unit res \<times> ('k, 'w, 'z) Call_scheme" where
  "enter_openat2 P E s =
     (let how_size = min (unat (peek s SYSARG_4)) 24
      in case read_data P (s_mem s) (peek s SYSARG_3) how_size of
           Inl e \<Rightarrow> (Inl e, s)
         | Inr bs \<Rightarrow>
             (let how = bs @ replicate (24 - how_size) 0
              in case set_call PR_openat s of
                   Inl e \<Rightarrow> (Inl e, s)
                 | Inr s \<Rightarrow>
                     enter_openat P E
                       (poke SYSARG_4 (load_word (take 8 (drop 8 how)))
                         (poke SYSARG_3 (load_word (take 8 how)) s))))"

subsection \<open>Other calls\<close>

text \<open>The name-space flags are dropped; the new child will have its own bindings if it asked for them.\<close>

definition strip_namespaces :: "word_t \<Rightarrow> ('k, 'w, 'z) Call_scheme \<Rightarrow> word_t \<times> ('k, 'w, 'z) Call_scheme" where
  "strip_namespaces flags s =
     (flags AND NOT CLONE_NS_MASK,
      s\<lparr>n_stripped_newns := (if flags AND CLONE_NEWNS \<noteq> 0 then True else n_stripped_newns s)\<rparr>)"

definition enter_clone :: "('k, 'w, 'z) Call_scheme \<Rightarrow> ('k, 'w, 'z) Call_scheme" where
  "enter_clone s =
     (let flags = peek s SYSARG_1 in
      if flags AND CLONE_NS_MASK \<noteq> 0
      then (case strip_namespaces flags s of (flags, s) \<Rightarrow> poke SYSARG_1 flags s)
      else s)"

definition enter_clone3 :: "'k Ptrace_Mem \<Rightarrow> ('k, 'w, 'z) Call_scheme \<Rightarrow> ('k, 'w, 'z) Call_scheme" where
  "enter_clone3 P s =
     (let args_addr = peek s SYSARG_1 in
      if args_addr = 0 then s
      else
        (case peek_word P (s_regs s) (s_mem s) args_addr of
           Inl e \<Rightarrow> s
         | Inr flags \<Rightarrow>
             (if flags AND CLONE_NS_MASK \<noteq> 0
              then (case strip_namespaces flags s of
                      (flags, s) \<Rightarrow> s\<lparr>s_mem := snd (poke_word P (s_regs s) (s_mem s) args_addr flags)\<rparr>)
              else s)))"

text \<open>
  The requests of \<open>prctl\<close> are distinct, and no result is one of them (the result shares the register of
  the first argument), so that at most one of the tests of the source holds.
\<close>

definition enter_prctl ::
  "('w, ('k, 'w, 'z) Call_scheme) Calls \<Rightarrow> ('k, 'w, 'z) Call_scheme \<Rightarrow> nat res \<times> ('k, 'w, 'z) Call_scheme"
  where
  "enter_prctl Y s =
     (let request = peek s SYSARG_1 in
      if request = PR_SET_DUMPABLE then void_call 0 s
      else if request = PR_SET_SECCOMP \<and> peek s SYSARG_2 = SECCOMP_MODE_FILTER \<and> \<not> y_seccomp_event Y
      then void_call (of_int (- errno_code EPERM)) s
      else if request = PR_GET_AUXV then (Inr 0, want_sysexit s)
      else if request = PR_GET_NO_NEW_PRIVS then void_call (if n_no_new_privs s then 1 else 0) s
      else if request = PR_SET_NO_NEW_PRIVS then (Inr 0, want_sysexit s)
      else (Inr 0, s))"

text \<open>The terminal requests that Android refuses become others (TCSETSF, TCGETS2, TCSETS2, TCSETSW2, TCSETSF2).\<close>

definition ioctl_request :: "word_t \<Rightarrow> word_t option" where
  "ioctl_request cmd =
     (if cmd = 0x5404 then Some 0x5402
      else if cmd = 0x802C542A then Some 0x5401
      else if cmd = 0x402C542B then Some 0x5402
      else if cmd = 0x402C542C then Some 0x5403
      else if cmd = 0x402C542D then Some 0x5402
      else None)"

definition enter_ioctl ::
  "'k Ptrace_Mem \<Rightarrow> ('w, ('k, 'w, 'z) Call_scheme) Calls \<Rightarrow> ('k, 'w, 'z) Call_scheme
   \<Rightarrow> nat res \<times> ('k, 'w, 'z) Call_scheme" where
  "enter_ioctl P Y s =
     (let cmd = peek s SYSARG_2;
          (faked, s) = (if cmd = SIOCGIFINDEX then maybe_fake_siocgifindex P (y_net Y) (peek s SYSARG_3) s
                        else (False, s))
      in if faked then void_call 0 s
         else (Inr 0, case ioctl_request cmd of None \<Rightarrow> s | Some v \<Rightarrow> poke SYSARG_2 v s))"

definition enter_memfd_create ::
  "'k Ptrace_Mem \<Rightarrow> ('k, 'w, 'z) Sys_scheme \<Rightarrow> nat res" where
  "enter_memfd_create P s =
     (case read_string P (s_mem s) (peek s SYSARG_1) 19 of
        Inl e \<Rightarrow> Inr 0
      | Inr (bs, n) \<Rightarrow>
          (let memfd_name = string_of bs in
           if take 8 memfd_name = ''JITCode:'' \<or> memfd_name = ''opcache_lock''
              \<or> take 13 memfd_name = ''lib/apk/exec/''
           then Err EACCES else Inr 0))"

definition enter_close :: "('k, 'w, 'z) Call_scheme \<Rightarrow> ('k, 'w, 'z) Call_scheme" where
  "enter_close s =
     (let closed_fd = int_arg s SYSARG_1
      in s\<lparr>n_fds := unmark_fake_netlink_fd (n_fds s) closed_fd,
           n_auxv_fd := (if n_auxv_fd s \<ge> 0 \<and> closed_fd = n_auxv_fd s then -1 else n_auxv_fd s)\<rparr>)"

definition enter_execveat ::
  "('w, ('k, 'w, 'z) Call_scheme) Calls \<Rightarrow> ('k, 'w, 'z) Call_scheme \<Rightarrow> nat res \<times> ('k, 'w, 'z) Call_scheme"
  where
  "enter_execveat Y s =
     (if int_arg s SYSARG_1 = AT_FDCWD then
        (case set_call PR_execve s of
           Inl e \<Rightarrow> (Inl e, s)
         | Inr s \<Rightarrow>
             (let s = poke SYSARG_1 (peek s SYSARG_2) s;
                  s = poke SYSARG_2 (peek s SYSARG_3) s;
                  s = poke SYSARG_3 (peek s SYSARG_4) s
              in y_execve_enter Y s))
      else (Err ENOSYS, s))"

definition enter_brk ::
  "('w, ('k, 'w, 'z) Call_scheme) Calls \<Rightarrow> ('k, 'w, 'z) Call_scheme \<Rightarrow> nat res \<times> ('k, 'w, 'z) Call_scheme"
  where
  "enter_brk Y s =
     (case translate_brk_enter (y_page_size Y) (n_load_info s) (n_heap s) (s_regs s) of
        Inl e \<Rightarrow> (Inl e, s)
      | Inr (heap, t) \<Rightarrow> (Inr 0, s\<lparr>n_heap := heap, s_regs := t\<rparr>))"

definition voided ::
  "('k, 'w, 'z) Sys_scheme res \<Rightarrow> ('k, 'w, 'z) Sys_scheme \<Rightarrow> nat res \<times> ('k, 'w, 'z) Sys_scheme" where
  "voided r s = (case r of Inl e \<Rightarrow> (Inl e, s) | Inr s \<Rightarrow> void_call 0 s)"

subsection \<open>The switch\<close>

text \<open>The calls that only translate paths, then the others.\<close>

definition enter_paths ::
  "'k Ptrace_Mem \<Rightarrow> 'w Env \<Rightarrow> nat \<Rightarrow> ('k, 'w, 'z) Call_scheme
   \<Rightarrow> (unit res \<times> ('k, 'w, 'z) Call_scheme) option" where
  "enter_paths P E sysnum s =
     (case path_argument sysnum of
        Some (reg, type) \<Rightarrow> Some (translate_sysarg P E reg type s)
      | None \<Rightarrow>
          (case path_at_argument sysnum s of
             Some (dirfd, reg, type) \<Rightarrow> Some (translate_sysarg_at P E dirfd reg type s)
           | None \<Rightarrow>
               (if sysnum = PR_inotify_add_watch
                then Some (translate_sysarg P E SYSARG_2 (link_type (peek s SYSARG_3 AND IN_DONT_FOLLOW \<noteq> 0)) s)
                else if sysnum = PR_open then Some (enter_open P E s)
                else if sysnum = PR_openat then Some (enter_openat P E s)
                else if sysnum = PR_openat2 then Some (enter_openat2 P E s)
                else if sysnum = PR_link \<or> sysnum = PR_rename then Some (enter_rename P E s)
                else if sysnum = PR_linkat \<or> sysnum = PR_renameat \<or> sysnum = PR_renameat2
                then Some (enter_renameat P E sysnum s)
                else None)))"

definition enter_emulated ::
  "'k Ptrace_Mem \<Rightarrow> ('w, ('k, 'w, 'z) Call_scheme) Calls \<Rightarrow> nat \<Rightarrow> ('k, 'w, 'z) Call_scheme
   \<Rightarrow> nat res \<times> ('k, 'w, 'z) Call_scheme" where
  "enter_emulated P Y sysnum s =
     (if sysnum = PR_execve then y_execve_enter Y s
      else if sysnum = PR_execveat then enter_execveat Y s
      else if sysnum = PR_ptrace then y_ptrace_enter Y s
      else if sysnum = PR_wait4 \<or> sysnum = PR_waitpid then y_wait_enter Y s
      else if sysnum = PR_brk then enter_brk Y s
      else if sysnum = PR_getcwd \<or> sysnum = PR_unshare \<or> sysnum = PR_setns then void_call 0 s
      else if sysnum = PR_bind \<or> sysnum = PR_connect then enter_bind P Y sysnum s
      else if sysnum = PR_accept \<or> sysnum = PR_accept4 then enter_accept P sysnum s
      else if sysnum = PR_getsockname \<or> sysnum = PR_getpeername then enter_getsockname P sysnum s
      else if sysnum = PR_socket then enter_socket Y s
      else if sysnum = PR_sendto then enter_sendto P Y s
      else if sysnum = PR_sendmsg then enter_sendmsg P Y s
      else if sysnum = PR_recvfrom then enter_recvfrom P s
      else if sysnum = PR_recvmsg then enter_recvmsg P s
      else if sysnum = PR_socketcall then enter_socketcall P Y s
      else if sysnum = PR_umount \<or> sysnum = PR_umount2 then voided (apply_emulated_umount P (y_env Y) s) s
      else if sysnum = PR_mount then voided (apply_emulated_mount P (y_env Y) s) s
      else if sysnum = PR_pivot_root then voided (apply_emulated_pivot_root P (y_env Y) s) s
      else if sysnum = PR_clone then (Inr 0, enter_clone s)
      else if sysnum = PR_clone3 then (Inr 0, enter_clone3 P s)
      else if sysnum = PR_prctl then enter_prctl Y s
      else if sysnum = PR_ioctl then enter_ioctl P Y s
      else if sysnum = PR_memfd_create then (enter_memfd_create P s, s)
      else if sysnum = PR_close then (Inr 0, enter_close s)
      else (Inr 0, s))"

definition enter_switch ::
  "'k Ptrace_Mem \<Rightarrow> ('w, ('k, 'w, 'z) Call_scheme) Calls \<Rightarrow> nat \<Rightarrow> ('k, 'w, 'z) Call_scheme
   \<Rightarrow> outcome \<times> ('k, 'w, 'z) Call_scheme" where
  "enter_switch P Y sysnum s =
     (if sysnum = PR_chdir \<or> sysnum = PR_fchdir then enter_chdir P Y sysnum s
      else
        (case enter_paths P (y_env Y) sysnum s of
           Some r \<Rightarrow> (Break (status_of (fst r)), snd r)
         | None \<Rightarrow> (case enter_emulated P Y sysnum s of (r, s) \<Rightarrow> (Break r, s))))"

text \<open>The end of the function: the extensions may replace the status by an error.\<close>

definition enter_end ::
  "('w, ('k, 'w, 'z) Call_scheme) Calls \<Rightarrow> nat res \<Rightarrow> ('k, 'w, 'z) Call_scheme
   \<Rightarrow> nat res \<times> ('k, 'w, 'z) Call_scheme" where
  "enter_end Y status s =
     (if status = Inl Undefined then (status, s)
      else (case y_enter_end Y status s of (Inl e, s) \<Rightarrow> (Inl e, s) | (Inr _, s) \<Rightarrow> (status, s)))"

definition translate_syscall_enter ::
  "'k Ptrace_Mem \<Rightarrow> ('w, ('k, 'w, 'z) Call_scheme) Calls \<Rightarrow> ('k, 'w, 'z) Call_scheme
   \<Rightarrow> nat res \<times> ('k, 'w, 'z) Call_scheme" where
  "translate_syscall_enter P Y s =
     (case y_enter_start Y s of
        (Inl e, s) \<Rightarrow> enter_end Y (Inl e) s
      | (Inr n, s) \<Rightarrow>
          (if n > 0 then (Inr 0, s)
           else
             (case get_sysnum (s_regs s) ORIGINAL of
                Inl e \<Rightarrow> (Inl e, s)
              | Inr sysnum \<Rightarrow>
                  (case enter_switch P Y sysnum s of
                     (Return_now r, s) \<Rightarrow> (r, s)
                   | (Break r, s) \<Rightarrow> enter_end Y r s))))"

subsection \<open>Paths that the kernel reads\<close>

text \<open>
  The calls with one path, as the manual pages describe them: the directory that a relative path
  starts from, the register of the path, and whether a link at its end is followed.
\<close>

definition path_call :: "nat \<Rightarrow> ('k, 'w, 'z) Sys_scheme \<Rightarrow> (int \<times> Reg \<times> Type) option" where
  "path_call sysnum s =
     (case path_argument sysnum of
        Some (reg, type) \<Rightarrow> Some (AT_FDCWD, reg, type)
      | None \<Rightarrow>
          (case path_at_argument sysnum s of
             Some (dirfd, reg, type) \<Rightarrow> Some (int_arg s dirfd, reg, type)
           | None \<Rightarrow>
               (if sysnum = PR_inotify_add_watch
                then Some (AT_FDCWD, SYSARG_2, link_type (peek s SYSARG_3 AND IN_DONT_FOLLOW \<noteq> 0))
                else if sysnum = PR_open then Some (AT_FDCWD, SYSARG_1, open_type (peek s SYSARG_2))
                else if sysnum = PR_openat then Some (int_arg s SYSARG_1, SYSARG_2, open_type (peek s SYSARG_3))
                else None)))"

definition quiet :: "('w, 's) Calls \<Rightarrow> bool" where
  "quiet Y \<longleftrightarrow> (\<forall>s. y_enter_start Y s = (Inr 0, s)) \<and> (\<forall>r s. y_enter_end Y r s = (Inr 0, s))"

lemma quiet_switch:
  assumes "quiet Y" and "get_sysnum (s_regs s) ORIGINAL = Inr sysnum"
  shows "translate_syscall_enter P Y s =
    (case enter_switch P Y sysnum s of (Return_now r, s) \<Rightarrow> (r, s) | (Break r, s) \<Rightarrow> (r, s))"
proof -
  have "enter_end Y r s = (r, s)" for r s
    using assms(1) by (auto simp: enter_end_def quiet_def)
  then show ?thesis
    using assms by (simp add: translate_syscall_enter_def quiet_def split: prod.split outcome.split)
qed

text \<open>The same tracee, registers, memory and host: what the translation of a path depends on.\<close>

definition same_sys :: "('k, 'w, 'z) Sys_scheme \<Rightarrow> ('k, 'w, 'z) Sys_scheme \<Rightarrow> bool" where
  "same_sys s s' \<longleftrightarrow> s_regs s' = s_regs s \<and> s_tracee s' = s_tracee s \<and> s_mem s' = s_mem s \<and> s_world s' = s_world s"

lemma same_sys_want [simp]: "same_sys s (want_sysexit s)" and same_sys_refl [simp]: "same_sys s s"
  by (simp_all add: same_sys_def want_sysexit_def)

lemma same_sys_path: "same_sys s s' \<Longrightarrow> get_sysarg_path P reg s' = get_sysarg_path P reg s"
  by (simp add: same_sys_def get_sysarg_path_def peek_def Let_def)

text \<open>The path argument is translated in one step, whatever the call.\<close>

lemma enter_paths_translates:
  fixes s :: "('k, 'w, 'z) Call_scheme"
  assumes "path_call sysnum s = Some (dirfd, reg, type)" and "get_sysarg_path P reg s = Inr user"
  obtains s0 :: "('k, 'w, 'z) Call_scheme" where "same_sys s s0"
    and "enter_paths P E sysnum s = Some (let r = translate_path2 P E dirfd user reg type s0
           in if sysnum = PR_open \<or> sysnum = PR_openat then redirected P reg r else r)"
proof (cases "path_argument sysnum")
  case (Some a)
  then have a: "a = (reg, type)" "dirfd = AT_FDCWD"
    using assms(1) by (auto simp: path_call_def split: prod.splits)
  have "sysnum \<noteq> PR_open" "sysnum \<noteq> PR_openat"
    using Some by (auto simp: path_argument_def)
  then show ?thesis using that[of s] assms(2) a Some by (simp add: enter_paths_def translate_sysarg_def)
next
  case none: None
  show ?thesis
  proof (cases "path_at_argument sysnum s")
    case (Some a)
    then obtain d where a: "a = (d, reg, type)" "dirfd = int_arg s d"
      using assms(1) none by (auto simp: path_call_def split: prod.splits)
    have "sysnum \<noteq> PR_open" "sysnum \<noteq> PR_openat"
      using Some by (auto simp: path_at_argument_def Let_def)
    then show ?thesis using that[of s] assms(2) a Some none by (simp add: enter_paths_def translate_sysarg_at_def)
  next
    case None
    consider "sysnum = PR_inotify_add_watch" | "sysnum = PR_open" | "sysnum = PR_openat"
      using assms(1) none None by (auto simp: path_call_def split: if_split_asm)
    then show ?thesis
    proof cases
      case 1
      then show ?thesis using that[of s] assms none None by (simp add: path_call_def enter_paths_def translate_sysarg_def)
    next
      case 2
      let ?s0 = "if n_execfn_addr s \<noteq> 0 then
          (case read_string P (s_mem s) (peek s SYSARG_1) PATH_MAX of
             Inl e \<Rightarrow> s
           | Inr (bs, n) \<Rightarrow> if n > 0 \<and> string_of bs = ''/proc/self/auxv'' then want_sysexit s else s) else s"
      have s0: "same_sys s ?s0" by (simp split: sum.split)
      have "dirfd = AT_FDCWD" "reg = SYSARG_1" "type = open_type (peek s SYSARG_2)"
        using assms(1) none None 2 by (auto simp: path_call_def)
      moreover have "get_sysarg_path P SYSARG_1 ?s0 = Inr user"
        using same_sys_path[OF s0, of P] assms(2) calculation(2) by simp
      ultimately show ?thesis using that[OF s0] none None 2
        by (simp add: enter_paths_def enter_open_def translate_sysarg_def Let_def)
    next
      case 3
      let ?s0 = "if n_execfn_addr s \<noteq> 0 \<and> user = ''/proc/self/auxv'' then want_sysexit s else s"
      have s0: "same_sys s ?s0" by simp
      have "dirfd = int_arg s SYSARG_1" "reg = SYSARG_2" "type = open_type (peek s SYSARG_3)"
        using assms(1) none None 3 by (auto simp: path_call_def)
      then show ?thesis using that[OF s0] assms(2) none None 3
        by (simp add: enter_paths_def enter_openat_def Let_def)
    qed
  qed
qed

lemma path_call_not_chdir:
  "path_call sysnum s = Some (dirfd, reg, type) \<Longrightarrow> sysnum \<noteq> PR_chdir \<and> sysnum \<noteq> PR_fchdir \<and> argument reg"
  by (auto simp: path_call_def path_argument_def path_at_argument_def argument_def Let_def split: if_split_asm)

context ptrace_memory
begin

lemma translate_path2_success:
  assumes "translate_path2 P E dirfd user reg type s = (Inr (), s')" and "user \<noteq> []"
    and "translate_path E (s_tracee s) (s_world s) dirfd user (type \<noteq> SYMLINK) = (Inr q, t, w)"
    and "argument reg" and "NUL \<notin> set q" and "length q + 1 < PATH_MAX"
  shows "get_sysarg_path P reg s' = Inr q \<and> s_tracee s' = t \<and> s_world s' = w"
proof -
  have "set_sysarg_path P q reg (s\<lparr>s_tracee := t, s_world := w\<rparr>) = (Inr (), s')"
    using assms(1-3) by (simp add: translate_path2_def)
  from set_sysarg_path_success[OF this assms(4-6)] have
    "get_sysarg_path P reg s' = Inr q" "s' = s\<lparr>s_tracee := t, s_world := w\<rparr>\<lparr>s_regs := s_regs s', s_mem := s_mem s'\<rparr>"
    by simp_all
  moreover have "s_tracee s' = t" "s_world s' = w" by (subst calculation(2), simp)+
  ultimately show ?thesis by simp
qed

lemma path_call_translates:
  fixes s :: "('k, 'w, 'z) Call_scheme"
  assumes "quiet Y" and "get_sysnum (s_regs s) ORIGINAL = Inr sysnum"
    and "path_call sysnum s = Some (dirfd, reg, type)" and "get_sysarg_path P reg s = Inr user" and "user \<noteq> []"
    and "translate_path (y_env Y) (s_tracee s) (s_world s) dirfd user (type \<noteq> SYMLINK) = (Inr q, t, w)"
    and "NUL \<notin> set q" and "length q + 1 < PATH_MAX"
    and "translate_syscall_enter P Y s = (Inr n, s')"
    and "sysnum = PR_open \<or> sysnum = PR_openat \<Longrightarrow> \<not> is_proc_userns_file q"
  shows "get_sysarg_path P reg s' = Inr q \<and> s_tracee s' = t \<and> s_world s' = w"
proof -
  note not_chdir = path_call_not_chdir[OF assms(3)]
  obtain s0 :: "('k, 'w, 'z) Call_scheme" where s0: "same_sys s s0"
    "enter_paths P (y_env Y) sysnum s = Some (let r = translate_path2 P (y_env Y) dirfd user reg type s0
       in if sysnum = PR_open \<or> sysnum = PR_openat then redirected P reg r else r)"
    using enter_paths_translates[OF assms(3,4), of "y_env Y"] by blast
  obtain r s1 where r: "translate_path2 P (y_env Y) dirfd user reg type s0 = (r, s1)" by fastforce
  have enter: "translate_syscall_enter P Y s = (let r' = (if sysnum = PR_open \<or> sysnum = PR_openat
      then redirected P reg (r, s1) else (r, s1)) in (status_of (fst r'), snd r'))"
    using not_chdir quiet_switch[OF assms(1,2), of P] s0(2) by (simp add: enter_switch_def r Let_def)
  then have "r = Inr ()"
    using assms(9) by (cases r) (auto simp: redirected_def status_of_def Let_def split: if_split_asm)
  then have t2: "translate_path2 P (y_env Y) dirfd user reg type s0 = (Inr (), s1)" using r by simp
  have "translate_path (y_env Y) (s_tracee s0) (s_world s0) dirfd user (type \<noteq> SYMLINK) = (Inr q, t, w)"
    using assms(6) s0(1) by (simp add: same_sys_def)
  from translate_path2_success[OF t2 assms(5) this _ assms(7,8)] not_chdir
  have s1: "get_sysarg_path P reg s1 = Inr q" "s_tracee s1 = t" "s_world s1 = w" by auto
  moreover have "s' = s1"
  proof (cases "sysnum = PR_open \<or> sysnum = PR_openat")
    case True
    then have "maybe_redirect_userns_file P reg s1 = s1"
      using assms(10) s1(1) by (simp add: maybe_redirect_userns_file_def)
    then show ?thesis using enter assms(9) \<open>r = Inr ()\<close> True by (simp add: redirected_def Let_def)
  next
    case False
    then show ?thesis using enter assms(9) by (simp only: if_False Let_def snd_conv prod.inject)
  qed
  ultimately show ?thesis by simp
qed

end

end
