(* ===== verification/Events.thy ===== *)
theory Events
  imports Chain Seccomp
begin

unbundle bit_operations_syntax

section \<open>Events of a tracee\<close>

text \<open>
  \<open>handle_tracee_event\<close> and \<open>restart_tracee\<close> of tracee/event.c: what PRoot does with a status of
  \<open>waitpid(2)\<close>, and how it restarts the tracee.  The state extends \<open>Stop\<close> by the fields of \<open>Tracee\<close>
  used there; the static variables of the file are the record \<open>Globals\<close>.  The creation of the child
  after a fork, the handling of a SIGSYS and the requests of \<open>ptrace(2)\<close> are arguments.  Killing all
  tracees when a marked one ends, and the printing, are left out.
\<close>

subsection \<open>The state\<close>

datatype seccomp_state = DISABLED | DISABLING | ENABLED

datatype sigstop_state = SIGSTOP_IGNORED | SIGSTOP_ALLOWED | SIGSTOP_PENDING

record 'k Event = "'k Stop" +
  v_exe :: bool
  v_seccomp :: seccomp_state
  v_sysexit_pending :: bool
  v_handled_enter :: bool
  v_skip_signal :: bool
  v_last_restart_how :: restart
  v_suppressed_signal :: int
  v_sigstop :: sigstop_state
  v_pending :: bool
  v_waits :: bool
  v_running :: bool
  v_terminated :: bool

record Globals =
  g_checked :: bool
  g_after_enter :: bool
  g_detected :: bool
  g_deliver_sigtrap :: bool
  g_event_supported :: bool
  g_last_exit_status :: int

text \<open>
  What the functions call: the environment variable, the options of \<open>ptrace(2)\<close> (with or without the
  events of seccomp), the release of the kernel, the message of an event, whether a SIGSYS comes
  from seccomp and for which call, and the restart.
\<close>

record ('k, 's) Event_Calls =
  z_assume_new :: bool
  z_setoptions :: "'s \<Rightarrow> bool \<Rightarrow> bool"
  z_kernel_supports :: bool
  z_geteventmsg :: "'k \<Rightarrow> word_t option"
  z_siginfo :: "'k \<Rightarrow> bool \<times> word_t"
  z_new_child :: "word_t \<Rightarrow> 's \<Rightarrow> 's"
  z_handle_seccomp_event :: "'s \<Rightarrow> int \<times> 's"
  z_restart :: "'s \<Rightarrow> int \<Rightarrow> bool"

text \<open>PRoot exits, or a function fails.\<close>

datatype halt = Exits | Fails failure

subsection \<open>The status of a process\<close>

type_synonym wait_status = "32 word"

definition WTERMSIG :: "wait_status \<Rightarrow> wait_status" where "WTERMSIG s = s AND 0x7F"
definition WIFEXITED :: "wait_status \<Rightarrow> bool" where "WIFEXITED s \<longleftrightarrow> WTERMSIG s = 0"
definition WIFSTOPPED :: "wait_status \<Rightarrow> bool" where "WIFSTOPPED s \<longleftrightarrow> WTERMSIG s = 0x7F"
definition WIFSIGNALED :: "wait_status \<Rightarrow> bool" where "WIFSIGNALED s \<longleftrightarrow> WTERMSIG (s + 1) \<ge> 2"
definition WEXITSTATUS :: "wait_status \<Rightarrow> int" where "WEXITSTATUS s = uint (drop_bit 8 (s AND 0xFF00))"

definition stop_signal :: "wait_status \<Rightarrow> int" where
  "stop_signal s = uint (drop_bit 8 (s AND 0xFFF00))"

definition SIGTRAP :: int where "SIGTRAP = 5"
definition SIGSTOP :: int where "SIGSTOP = 19"
definition SIGSYS :: int where "SIGSYS = 31"
definition SYSCALL_STOP :: int where "SYSCALL_STOP = 0x85"

text \<open>SIGTRAP with the number of an event above it (PTRACE_EVENT_*).\<close>

definition event :: "int \<Rightarrow> int" where "event n = SIGTRAP + 256 * n"

definition EVENT_FORK :: int where "EVENT_FORK = 1"
definition EVENT_VFORK :: int where "EVENT_VFORK = 2"
definition EVENT_CLONE :: int where "EVENT_CLONE = 3"
definition EVENT_EXEC :: int where "EVENT_EXEC = 4"
definition EVENT_VFORK_DONE :: int where "EVENT_VFORK_DONE = 5"
definition EVENT_EXIT :: int where "EVENT_EXIT = 6"
definition EVENT_SECCOMP :: int where "EVENT_SECCOMP = 7"
definition EVENT_SECCOMP2 :: int where "EVENT_SECCOMP2 = 8"

definition CLONE_VFORK :: word_t where "CLONE_VFORK = 0x4000"

subsection \<open>A stop\<close>

definition sysexit_necessary :: "('k, 'z) Event_scheme \<Rightarrow> bool" where
  "sysexit_necessary s \<longleftrightarrow> v_sysexit_pending s \<or> c_syscalls s \<noteq> None
     \<or> restore_original_regs_after_seccomp_event (c_regs s)"

definition choose_restart :: "('k, 'z) Event_scheme \<Rightarrow> ('k, 'z) Event_scheme" where
  "choose_restart s =
     (if c_restart_how s = RESTART_DEFAULT
      then s\<lparr>c_restart_how :=
               (if v_seccomp s = ENABLED \<and> \<not> sysexit_necessary s then PTRACE_CONT else PTRACE_SYSCALL)\<rparr>
      else s)"

text \<open>The common part of the entry and of the exit, where seccomp has not handled the entry yet.\<close>

definition translate_stop ::
  "'k Ptrace_Regs \<Rightarrow> ('k, 'z) Event_scheme Handlers \<Rightarrow> Globals \<Rightarrow> ('k, 'z) Event_scheme
   \<Rightarrow> (int \<times> ('k, 'z) Event_scheme) res" where
  "translate_stop P X g s =
     (let was_sysenter = IS_IN_SYSENTER s in
      case translate_syscall P X s of
        Inl e \<Rightarrow> Inl e
      | Inr s \<Rightarrow>
          (let s = (if was_sysenter
                    then s\<lparr>v_skip_signal := (g_after_enter g \<and> get_sysnum (c_regs s) CURRENT = Inr PR_void)\<rparr>
                    else s)
           in if v_suppressed_signal s \<noteq> 0 \<and> c_syscalls s = None
                 \<and> \<not> restore_original_regs_after_seccomp_event (c_regs s)
              then Inr (v_suppressed_signal s, s\<lparr>v_suppressed_signal := 0\<rparr>)
              else Inr (0, s)))"

text \<open>
  SIGTRAP | 0x80, the entry or the exit of a call.  The last component tells whether the function
  returns at once.
\<close>

definition syscall_stop ::
  "'k Ptrace_Regs \<Rightarrow> ('k, 'z) Event_scheme Handlers \<Rightarrow> Globals \<Rightarrow> ('k, 'z) Event_scheme
   \<Rightarrow> (int \<times> ('k, 'z) Event_scheme \<times> bool) res" where
  "syscall_stop P X g s =
     (if \<not> v_exe s then Inr (0, s\<lparr>c_restart_how := PTRACE_CONT\<rparr>, True)
      else if v_seccomp s = DISABLING then
        Inr (0, s\<lparr>v_seccomp := DISABLED, c_status := (if IS_IN_SYSENTER s then 1 else c_status s)\<rparr>, False)
      else
        (let s = (if v_seccomp s = ENABLED then
                    (if IS_IN_SYSENTER s
                     then s\<lparr>c_restart_how := PTRACE_SYSCALL, v_sysexit_pending := True\<rparr>
                     else s\<lparr>c_restart_how := PTRACE_CONT, v_sysexit_pending := False\<rparr>)
                  else s)
         in case (if v_handled_enter s
                  then Inr (0, s\<lparr>v_handled_enter := False, c_restart_how := PTRACE_SYSCALL\<rparr>)
                  else translate_stop P X g s) of
              Inl e \<Rightarrow> Inl e
            | Inr (sig, s) \<Rightarrow>
                Inr (sig,
                     if v_seccomp s = DISABLING
                     then s\<lparr>c_restart_how := PTRACE_SYSCALL, v_seccomp := DISABLED\<rparr> else s,
                     False)))"

definition seccomp_detection ::
  "Globals \<Rightarrow> ('k, 'z) Event_scheme \<Rightarrow> Globals \<times> ('k, 'z) Event_scheme" where
  "seccomp_detection g s =
     (let (g, s) = (if \<not> g_detected g
                    then (g\<lparr>g_detected := True, g_after_enter := \<not> IS_IN_SYSENTER s\<rparr>, s\<lparr>v_seccomp := ENABLED\<rparr>)
                    else (g, s))
      in (g, s\<lparr>v_skip_signal := False\<rparr>))"

text \<open>Where the exit of the call has to be handled too, and where it does not.\<close>

definition seccomp_both ::
  "'k Ptrace_Regs \<Rightarrow> ('k, 'z) Event_scheme Handlers \<Rightarrow> Globals \<Rightarrow> ('k, 'z) Event_scheme
   \<Rightarrow> ('k, 'z) Event_scheme res" where
  "seccomp_both P X g s =
     (case (if g_after_enter g then translate_syscall P X (s\<lparr>c_restart_how := PTRACE_SYSCALL\<rparr>) else Inr s) of
        Inl e \<Rightarrow> Inl e
      | Inr s \<Rightarrow> Inr (s\<lparr>c_restart_how := PTRACE_SYSCALL\<rparr>))"

definition seccomp_entry ::
  "'k Ptrace_Regs \<Rightarrow> ('k, 'z) Event_scheme Handlers \<Rightarrow> Globals \<Rightarrow> ('k, 'z) Event_scheme
   \<Rightarrow> ('k, 'z) Event_scheme res" where
  "seccomp_entry P X g s =
     (case translate_syscall P X (s\<lparr>c_restart_how := PTRACE_CONT\<rparr>) of
        Inl e \<Rightarrow> Inl e
      | Inr s \<Rightarrow>
          (let s = (if v_sysexit_pending s \<or> v_seccomp s = DISABLING
                    then s\<lparr>c_restart_how := PTRACE_SYSCALL\<rparr> else s)
           in Inr (if \<not> g_after_enter g \<and> c_restart_how s = PTRACE_SYSCALL
                   then s\<lparr>v_handled_enter := True\<rparr> else s)))"

text \<open>The event of seccomp; \<open>necessary\<close> was computed at the beginning of the function.\<close>

definition seccomp_stop ::
  "'k Ptrace_Regs \<Rightarrow> ('k, 'z) Event_scheme Handlers \<Rightarrow> ('k, ('k, 'z) Event_scheme) Event_Calls \<Rightarrow> bool
   \<Rightarrow> Globals \<Rightarrow> ('k, 'z) Event_scheme \<Rightarrow> (Globals \<times> ('k, 'z) Event_scheme) res" where
  "seccomp_stop P X V necessary g s =
     (case seccomp_detection g s of
        (g, s) \<Rightarrow>
          (if g_after_enter g \<and> \<not> IS_IN_SYSENTER s then Inr (g, s\<lparr>c_restart_how := v_last_restart_how s\<rparr>)
           else if v_seccomp s \<noteq> ENABLED then Inr (g, s)
           else
             (case z_geteventmsg V (c_kernel s) of
                None \<Rightarrow> Inr (g, s)
              | Some flags \<Rightarrow>
                  (case (if flags AND FILTER_SYSEXIT \<noteq> 0 \<or> necessary then seccomp_both P X g s
                         else seccomp_entry P X g s) of
                     Inl e \<Rightarrow> Inl e | Inr s \<Rightarrow> Inr (g, s)))))"

definition sigsys_stop ::
  "'k Ptrace_Regs \<Rightarrow> ('k, 'z) Event_scheme Handlers \<Rightarrow> ('k, ('k, 'z) Event_scheme) Event_Calls \<Rightarrow> Globals
   \<Rightarrow> ('k, 'z) Event_scheme \<Rightarrow> (int \<times> ('k, 'z) Event_scheme) res" where
  "sigsys_stop P X V g s =
     (case z_siginfo V (c_kernel s) of
        (from_seccomp, si_syscall) \<Rightarrow>
          (if \<not> from_seccomp then Inr (SIGSYS, s)
           else
             (case (if IS_IN_SYSENTER s then Inr s else translate_syscall P X s) of
                Inl e \<Rightarrow> Inl e
              | Inr s \<Rightarrow>
                  Inr (if v_skip_signal s \<or> (g_after_enter g \<and> si_syscall = SYSCALL_AVOIDER)
                       then (0, s\<lparr>v_skip_signal := False\<rparr>)
                       else z_handle_seccomp_event V s))))"

definition sigstop_stop :: "('k, 'z) Event_scheme \<Rightarrow> int \<times> ('k, 'z) Event_scheme" where
  "sigstop_stop s =
     (let (sig, s) = (if \<not> v_exe s then (-1, s\<lparr>v_sigstop := SIGSTOP_PENDING\<rparr>) else (SIGSTOP, s))
      in if v_sigstop s = SIGSTOP_IGNORED then (0, s\<lparr>v_sigstop := SIGSTOP_ALLOWED\<rparr>) else (sig, s))"

definition other_signal :: "int \<Rightarrow> ('k, 'z) Event_scheme \<Rightarrow> int \<times> ('k, 'z) Event_scheme" where
  "other_signal sig s =
     (if c_syscalls s \<noteq> None \<or> restore_original_regs_after_seccomp_event (c_regs s)
      then (0, s\<lparr>v_suppressed_signal := sig\<rparr>) else (sig, s))"

text \<open>The first bare SIGTRAP sets the options of \<open>ptrace(2)\<close>.\<close>

definition first_trap ::
  "('k, ('k, 'z) Event_scheme) Event_Calls \<Rightarrow> Globals \<Rightarrow> ('k, 'z) Event_scheme \<Rightarrow> Globals option" where
  "first_trap V g s =
     (let g = g\<lparr>g_deliver_sigtrap := True\<rparr>
      in if z_setoptions V s True then Some (g\<lparr>g_event_supported := z_kernel_supports V\<rparr>)
         else if z_setoptions V s False then Some (g\<lparr>g_event_supported := False\<rparr>)
         else None)"

text \<open>The switch over the signals.\<close>

definition stopped ::
  "'k Ptrace_Regs \<Rightarrow> ('k, 'z) Event_scheme Handlers \<Rightarrow> ('k, ('k, 'z) Event_scheme) Event_Calls \<Rightarrow> bool \<Rightarrow> int
   \<Rightarrow> Globals \<Rightarrow> ('k, 'z) Event_scheme \<Rightarrow> halt + (int \<times> Globals \<times> ('k, 'z) Event_scheme \<times> bool)" where
  "stopped P X V necessary signal g s =
     (let syscall = (\<lambda>g. case syscall_stop P X g s of
                           Inl e \<Rightarrow> Inl (Fails e) | Inr (sig, s, now) \<Rightarrow> Inr (sig, g, s, now))
      in if signal = SIGTRAP then
           (if g_deliver_sigtrap g then Inr (signal, g, s, False)
            else (case first_trap V g s of None \<Rightarrow> Inl Exits | Some g \<Rightarrow> syscall g))
         else if signal = SYSCALL_STOP then syscall g
         else if signal = event EVENT_SECCOMP \<or> signal = event EVENT_SECCOMP2 then
           (case seccomp_stop P X V necessary g s of
              Inl e \<Rightarrow> Inl (Fails e) | Inr (g, s) \<Rightarrow> Inr (0, g, s, False))
         else if signal = event EVENT_VFORK then Inr (0, g, z_new_child V CLONE_VFORK s, False)
         else if signal = event EVENT_FORK \<or> signal = event EVENT_CLONE then Inr (0, g, z_new_child V 0 s, False)
         else if signal = event EVENT_VFORK_DONE \<or> signal = event EVENT_EXEC \<or> signal = event EVENT_EXIT then
           Inr (0, g, if v_last_restart_how s \<noteq> RESTART_DEFAULT
                      then s\<lparr>c_restart_how := v_last_restart_how s\<rparr> else s, False)
         else if signal = SIGSTOP then (case sigstop_stop s of (sig, s) \<Rightarrow> Inr (sig, g, s, False))
         else if signal = SIGSYS then
           (case sigsys_stop P X V g s of
              Inl e \<Rightarrow> Inl (Fails e) | Inr (sig, s) \<Rightarrow> Inr (sig, g, s, False))
         else (case other_signal signal s of (sig, s) \<Rightarrow> Inr (sig, g, s, False)))"

definition handle_tracee_event ::
  "'k Ptrace_Regs \<Rightarrow> ('k, 'z) Event_scheme Handlers \<Rightarrow> ('k, ('k, 'z) Event_scheme) Event_Calls \<Rightarrow> wait_status
   \<Rightarrow> Globals \<Rightarrow> ('k, 'z) Event_scheme \<Rightarrow> halt + (int \<times> Globals \<times> ('k, 'z) Event_scheme)" where
  "handle_tracee_event P X V status g s =
     (let g = (if g_checked g then g else g\<lparr>g_after_enter := z_assume_new V, g_checked := True\<rparr>);
          necessary = sysexit_necessary s;
          s = choose_restart s
      in case (if WIFEXITED status
               then Inr (0, g\<lparr>g_last_exit_status := WEXITSTATUS status\<rparr>, s\<lparr>v_terminated := True\<rparr>, False)
               else if WIFSIGNALED status then Inr (0, g, s\<lparr>v_terminated := True\<rparr>, False)
               else if WIFSTOPPED status then stopped P X V necessary (stop_signal status) g s
               else Inr (0, g, s, False)) of
           Inl h \<Rightarrow> Inl h
         | Inr (signal, g, s, now) \<Rightarrow> Inr (signal, g, if now then s else s\<lparr>v_pending := False\<rparr>))"

definition restart_tracee ::
  "('k, ('k, 'z) Event_scheme) Event_Calls \<Rightarrow> int \<Rightarrow> ('k, 'z) Event_scheme \<Rightarrow> bool \<times> ('k, 'z) Event_scheme" where
  "restart_tracee V signal s =
     (if v_waits s \<or> signal = -1 then (False, s)
      else if \<not> z_restart V s signal then (False, s)
      else (True, s\<lparr>v_last_restart_how := c_restart_how s, c_restart_how := RESTART_DEFAULT, v_running := True\<rparr>))"

subsection \<open>What a stop does to the state\<close>

text \<open>
  What the hooks never change, and what they may ask for: the exit stage, or chained calls.  No hook
  makes the registers be restored from another version, and the way of restarting is changed to ask
  for the exit only.
\<close>

abbreviation delayed :: "('k, 'z) Event_scheme \<Rightarrow> bool" where
  "delayed s \<equiv> restore_original_regs_after_seccomp_event (c_regs s)"

definition keeps :: "('k, 'z) Event_scheme \<Rightarrow> ('k, 'z) Event_scheme \<Rightarrow> bool" where
  "keeps s s' \<longleftrightarrow> v_exe s' = v_exe s \<and> v_seccomp s' = v_seccomp s \<and> v_handled_enter s' = v_handled_enter s
     \<and> v_last_restart_how s' = v_last_restart_how s \<and> c_cancelled s' = c_cancelled s
     \<and> c_relaunched s' = c_relaunched s \<and> (delayed s' \<longrightarrow> delayed s)"

definition alike :: "('k, 'z) Event_scheme \<Rightarrow> ('k, 'z) Event_scheme \<Rightarrow> bool" where
  "alike s s' \<longleftrightarrow> keeps s s' \<and> c_status s' = c_status s \<and> c_restart_how s' = c_restart_how s
     \<and> v_sysexit_pending s' = v_sysexit_pending s \<and> c_syscalls s' = c_syscalls s"

definition awaits :: "('k, 'z) Event_scheme \<Rightarrow> bool" where
  "awaits s \<longleftrightarrow> v_sysexit_pending s \<or> c_syscalls s \<noteq> None"

definition entered :: "('k, 'z) Event_scheme \<Rightarrow> ('k, 'z) Event_scheme \<Rightarrow> bool" where
  "entered s s' \<longleftrightarrow> keeps s s'
     \<and> (c_restart_how s' = c_restart_how s \<and> awaits s' = awaits s
        \<or> c_restart_how s' = PTRACE_SYSCALL \<and> awaits s')
     \<and> (awaits s \<longrightarrow> awaits s') \<and> (c_syscalls s \<noteq> None \<longrightarrow> c_syscalls s' \<noteq> None)"

definition left :: "('k, 'z) Event_scheme \<Rightarrow> ('k, 'z) Event_scheme \<Rightarrow> bool" where
  "left s s' \<longleftrightarrow> keeps s s'
     \<and> (c_restart_how s' = c_restart_how s \<and> v_sysexit_pending s' = v_sysexit_pending s
          \<and> (c_syscalls s' \<noteq> None \<longrightarrow> c_syscalls s \<noteq> None)
        \<or> c_restart_how s' = PTRACE_SYSCALL)"

definition tame :: "('k, 'z) Event_scheme Handlers \<Rightarrow> bool" where
  "tame X \<longleftrightarrow> (\<forall>s st s'. x_syscall_enter X s = Inr (st, s') \<longrightarrow> entered s s')
     \<and> (\<forall>s st s'. x_chained_enter X s = (st, s') \<longrightarrow> entered s s')
     \<and> (\<forall>s s'. x_syscall_exit X s = Inr s' \<longrightarrow> left s s')
     \<and> (\<forall>s. left s (x_chained_exit X s))"

lemma tameD:
  assumes "tame X"
  shows "x_syscall_enter X s = Inr (st, s') \<Longrightarrow> entered s s'" and "x_chained_enter X s = (st, s') \<Longrightarrow> entered s s'"
    and "x_syscall_exit X s = Inr s' \<Longrightarrow> left s s'" and "left s (x_chained_exit X s)"
  using assms by (auto simp: tame_def)

lemma restore_regs_keeps: "\<not> restore_original_regs_after_seccomp_event (restore_regs t)"
proof -
  have "\<not> restore_original_regs_after_seccomp_event t \<Longrightarrow>
      \<not> restore_original_regs_after_seccomp_event (fold (RESTORE v) rs t)" for v rs t
    by (induction rs arbitrary: t) (auto simp: RESTORE_def set_bank_def)
  then show ?thesis by (simp add: restore_regs_def Let_def del: fold.simps)
qed

lemma set_sysnum_keeps:
  "set_sysnum t n = Inr t' \<Longrightarrow>
    restore_original_regs_after_seccomp_event t' = restore_original_regs_after_seccomp_event t"
  by (auto simp: set_sysnum_def poke_keeps split: sum.splits)

lemma delayed_simps [simp]:
  "restore_original_regs_after_seccomp_event (poke_reg t r v) = restore_original_regs_after_seccomp_event t"
  "restore_original_regs_after_seccomp_event (poke_regs rvs t) = restore_original_regs_after_seccomp_event t"
  "restore_original_regs_after_seccomp_event (save_current_regs t w) = restore_original_regs_after_seccomp_event t"
  "restore_original_regs_after_seccomp_event (set_bank t w b) = restore_original_regs_after_seccomp_event t"
  by (simp_all add: poke_keeps pokes_keep save_current_regs_def set_bank_def)

locale ptrace_numbers = ptrace_registers P bank_of
  for P :: "'k Ptrace_Regs" and bank_of :: "'k \<Rightarrow> bank" +
  assumes set_system_call: "\<exists>k'. p_set_system_call P k n = (True, k')"
begin

lemma push_specific_regs_ok:
  "\<exists>t k'. push_specific_regs P t0 b k = (None, t, k')
     \<and> (restore_original_regs_after_seccomp_event t \<longrightarrow> restore_original_regs_after_seccomp_event t0)"
proof -
  let ?t = "if restore_original_regs t0 then restore_regs t0 else t0"
  have number: "\<exists>k1. (if c then p_set_system_call P k n else (True, k)) = (True, k1)" for c n
    using set_system_call[of k n] by simp
  obtain k1 where k1: "(if b \<and> REG ?t CURRENT SYSARG_NUM \<noteq> REG ?t ORIGINAL SYSARG_NUM
      then p_set_system_call P k (REG ?t CURRENT SYSARG_NUM) else (True, k)) = (True, k1)"
    using number by blast
  obtain k2 where k2: "p_setregset P k1 (regs ?t CURRENT) = (True, k2)" using setregset by blast
  have "restore_original_regs_after_seccomp_event ?t \<longrightarrow> restore_original_regs_after_seccomp_event t0"
    by (simp add: restore_regs_keeps)
  then show ?thesis unfolding push_specific_regs_def Let_def k1 by (simp add: k2)
qed

lemma push_stop_ok:
  obtains t k where "push_stop P b s = (None, s\<lparr>c_regs := t, c_kernel := k\<rparr>)"
    and "restore_original_regs_after_seccomp_event t \<longrightarrow> delayed s"
proof -
  obtain t k where t: "push_specific_regs P (c_regs s) b (c_kernel s) = (None, t, k)"
    and "restore_original_regs_after_seccomp_event t \<longrightarrow> delayed s"
    using push_specific_regs_ok by blast
  moreover have "push_stop P b s = (None, s\<lparr>c_regs := t, c_kernel := k\<rparr>)" using t by (simp add: push_stop_def)
  ultimately show thesis using that by blast
qed

lemma fetch_regs_delayed:
  obtains t k where "fetch_regs P (c_regs s) (c_kernel s) = (None, t, k)"
    and "restore_original_regs_after_seccomp_event t = delayed s"
proof -
  obtain k where "fetch_regs P (c_regs s) (c_kernel s) = (None, set_bank (c_regs s) CURRENT (bank_of (c_kernel s)), k)"
    by (rule fetch_regs_ok)
  then show thesis by (rule that) simp
qed

text \<open>An entry: the tracee is in its exit stage afterwards unless it is restarted without one.\<close>

lemma translate_enters:
  fixes s :: "('k, 'z) Event_scheme"
  assumes "tame X" and "c_status s = 0" and "\<not> c_cancelled s" and "\<not> c_relaunched s"
    and "translate_syscall P X s = Inr s'"
  shows "entered s s' \<and> (c_status s' = 0 \<longleftrightarrow> c_restart_how s' = PTRACE_CONT)"
proof -
  obtain t k where f: "fetch_regs P (c_regs s) (c_kernel s) = (None, t, k)"
    and t [simp]: "restore_original_regs_after_seccomp_event t = delayed s"
    by (rule fetch_regs_delayed)
  let ?s = "s\<lparr>c_regs := t, c_kernel := k\<rparr>"
  let ?start = "?s\<lparr>c_regs := (c_regs ?s)\<lparr>restore_original_regs := False\<rparr>\<rparr>"
  obtain r where r: "sysenter P X ?s = Inr r"
    using assms(2,5) f by (auto simp: translate_syscall_def IS_IN_SYSENTER_def Let_def split: sum.splits)
  let ?hook = "if c_syscalls ?start = None then
      (case x_syscall_enter X (?start\<lparr>c_regs := save_current_regs (c_regs ?start) ORIGINAL\<rparr>) of
         Inl e \<Rightarrow> Inl e | Inr (st, s) \<Rightarrow> Inr (st, s\<lparr>c_regs := save_current_regs (c_regs s) MODIFIED\<rparr>))
    else
      (case (if c_workaround ?start \<noteq> SYSNUM_WORKAROUND_PROCESS_REPLACED_CALL then x_chained_enter X ?start else (0, ?start)) of
         (st, s) \<Rightarrow> Inr (st, s\<lparr>c_restart_how := PTRACE_SYSCALL\<rparr>))"
  have fresh: "c_relaunched ?start = False" using assms(4) by simp
  note r0 = r[unfolded sysenter_def Let_def fresh if_False]
  obtain st s1 where h: "?hook = Inr (st, s1)"
    using r0 by (cases ?hook) auto
  note r1 = r0[unfolded h sum.case prod.case]
  have e1: "entered s s1"
  proof (cases "c_syscalls s = None")
    case True
    then obtain s2 where s2: "x_syscall_enter X (?start\<lparr>c_regs := save_current_regs (c_regs ?start) ORIGINAL\<rparr>) = Inr (st, s2)"
      "s1 = s2\<lparr>c_regs := save_current_regs (c_regs s2) MODIFIED\<rparr>"
      using h by (auto split: sum.splits)
    from tameD(1)[OF assms(1) s2(1)] show ?thesis by (simp add: s2(2) entered_def keeps_def awaits_def)
  next
    case False
    then obtain s2 where s2: "(if c_workaround ?start \<noteq> SYSNUM_WORKAROUND_PROCESS_REPLACED_CALL
        then x_chained_enter X ?start else (0, ?start)) = (st, s2)" "s1 = s2\<lparr>c_restart_how := PTRACE_SYSCALL\<rparr>"
      using h by (auto split: prod.splits)
    then have "entered ?start s2"
      using tameD(2)[OF assms(1), of ?start st s2] by (cases "c_workaround s = SYSNUM_WORKAROUND_PROCESS_REPLACED_CALL")
        (auto simp: entered_def keeps_def)
    then show ?thesis using False by (auto simp: s2(2) entered_def keeps_def awaits_def)
  qed
  let ?refused = "if st < 0 then
      (case set_sysnum (c_regs s1) PR_void of
         Inl e \<Rightarrow> Inl e | Inr t \<Rightarrow> Inr (c_poke SYSARG_RESULT (of_int st) (s1\<lparr>c_regs := t\<rparr>)\<lparr>c_status := st\<rparr>))
    else Inr (s1\<lparr>c_status := 1\<rparr>)"
  obtain s2 where s2: "?refused = Inr s2"
    using r1 by (cases ?refused) auto
  note r2 = r1[unfolded s2 sum.case]
  have e2: "entered s s2 \<and> c_status s2 \<noteq> 0"
  proof (cases "st < 0")
    case True
    then obtain t1 where t1: "set_sysnum (c_regs s1) PR_void = Inr t1"
      using s2 by (cases "set_sysnum (c_regs s1) PR_void") simp_all
    then have "s2 = c_poke SYSARG_RESULT (of_int st) (s1\<lparr>c_regs := t1\<rparr>)\<lparr>c_status := st\<rparr>"
      using s2 True t1 by simp
    then show ?thesis using e1 True set_sysnum_keeps[OF t1] by (simp add: entered_def keeps_def awaits_def c_poke_def)
  next
    case False
    then have "s2 = s1\<lparr>c_status := 1\<rparr>" using s2 by simp
    then show ?thesis using e1 by (simp add: entered_def keeps_def awaits_def)
  qed
  have c2: "\<not> c_cancelled s2" using e2 assms(3) by (simp add: entered_def keeps_def)
  obtain s3 v where s3: "r = (Some v, s3)" "entered s s3" "c_status s3 = 0 \<longleftrightarrow> c_restart_how s3 = PTRACE_CONT"
  proof (cases "c_restart_how s2 = PTRACE_CONT")
    case True
    let ?reset = "c_poke STACK_POINTER (c_peek s2 ORIGINAL STACK_POINTER) (s2\<lparr>c_status := 0\<rparr>)"
    have "r = (Some (c_status s2), ?reset)"
      using r2 c2 True by simp
    moreover have "entered s ?reset" using e2 by (simp add: entered_def keeps_def awaits_def c_poke_def)
    ultimately show ?thesis using that True by (simp add: c_poke_def)
  next
    case False
    have "r = (Some 0, s2)"
      using r2 c2 False by simp
    then show ?thesis using that e2 False by simp
  qed
  obtain t4 k4 where "push_stop P (c_syscalls s3 = None) s3 = (None, s3\<lparr>c_regs := t4, c_kernel := k4\<rparr>)"
    and t4: "restore_original_regs_after_seccomp_event t4 \<longrightarrow> delayed s3"
    by (rule push_stop_ok)
  then have "s' = s3\<lparr>c_regs := t4, c_kernel := k4\<rparr>"
    using assms(2,5) f r s3(1) by (simp add: translate_syscall_def IS_IN_SYSENTER_def Let_def)
  then show ?thesis using s3(2,3) t4 by (auto simp: entered_def keeps_def awaits_def)
qed

text \<open>An exit.\<close>

lemma translate_leaves:
  fixes s :: "('k, 'z) Event_scheme"
  assumes "tame X" and "c_status s \<noteq> 0" and "\<not> c_cancelled s" and "\<not> c_relaunched s"
    and "translate_syscall P X s = Inr s'"
  shows "left s s' \<and> c_status s' = 0 \<and> (c_syscalls s' = None \<or> c_restart_how s' = PTRACE_SYSCALL)"
proof -
  obtain t k where f: "fetch_regs P (c_regs s) (c_kernel s) = (None, t, k)"
    and t [simp]: "restore_original_regs_after_seccomp_event t = delayed s"
    by (rule fetch_regs_delayed)
  let ?s = "s\<lparr>c_regs := t, c_kernel := k\<rparr>"
  let ?start = "?s\<lparr>c_regs := (c_regs ?s)\<lparr>restore_original_regs := True\<rparr>\<rparr>"
  obtain r where r: "sysexit X ?s = Inr r"
    using assms(2,5) f by (auto simp: translate_syscall_def IS_IN_SYSENTER_def Let_def split: sum.splits)
  let ?hook = "if c_syscalls ?start = None \<or> c_workaround ?start = SYSNUM_WORKAROUND_PROCESS_REPLACED_CALL
               then x_syscall_exit X (?start\<lparr>c_workaround := SYSNUM_WORKAROUND_INACTIVE\<rparr>)
               else if c_workaround ?start = SYSNUM_WORKAROUND_PROCESS_FAULTY_CALL
               then Inr (?start\<lparr>c_workaround := SYSNUM_WORKAROUND_PROCESS_REPLACED_CALL\<rparr>)
               else Inr (x_chained_exit X ?start)"
  have fresh: "c_relaunched ?start = False" using assms(4) by simp
  note r0 = r[unfolded sysexit_def Let_def fresh if_False]
  obtain s1 where h: "?hook = Inr s1"
    using r0 by (cases ?hook) auto
  note r1 = r0[unfolded h sum.case]
  have l1: "left s s1"
  proof -
    have "left (?start\<lparr>c_workaround := SYSNUM_WORKAROUND_INACTIVE\<rparr>) s1 \<or> left ?start s1
        \<or> s1 = ?start\<lparr>c_workaround := SYSNUM_WORKAROUND_PROCESS_REPLACED_CALL\<rparr>"
      using h tameD(3,4)[OF assms(1)] by (auto split: if_split_asm)
    then show ?thesis by (auto simp: left_def keeps_def)
  qed
  let ?done = "s1\<lparr>c_status := 0, c_cancelled := False\<rparr>"
  have l2: "left s ?done" using l1 assms(3) by (simp add: left_def keeps_def)
  let ?chain = "if c_syscalls ?done \<noteq> None then chain_next_syscall ?done else Inr ?done"
  obtain s3 where s3: "?chain = Inr s3" using r1 by (cases ?chain) auto
  have r3: "r = (Some 0, s3)" using r1[unfolded s3 sum.case] by simp
  have chain: "left s s3 \<and> c_status s3 = 0 \<and> (c_syscalls s3 = None \<or> c_restart_how s3 = PTRACE_SYSCALL)"
  proof (cases "c_syscalls ?done")
    case None
    then have "s3 = ?done" using s3 by simp
    then show ?thesis using l2 None by simp
  next
    case (Some cs)
    then have "left ?done s3 \<and> c_status s3 = 0 \<and> (c_syscalls s3 = None \<or> c_restart_how s3 = PTRACE_SYSCALL)"
      using s3 by (cases cs) (auto simp: chain_next_syscall_def fold_c_poke c_poke_def Let_def left_def keeps_def
          split: sum.splits if_split_asm)
    then show ?thesis using l2 by (auto simp: left_def keeps_def)
  qed
  obtain t4 k4 where "push_stop P False s3 = (None, s3\<lparr>c_regs := t4, c_kernel := k4\<rparr>)"
    and t4: "restore_original_regs_after_seccomp_event t4 \<longrightarrow> delayed s3"
    by (rule push_stop_ok)
  then have "s' = s3\<lparr>c_regs := t4, c_kernel := k4\<rparr>"
    using assms(2,5) f r r3 by (simp add: translate_syscall_def IS_IN_SYSENTER_def Let_def)
  then show ?thesis using chain t4 by (auto simp: left_def keeps_def)
qed

end

interpretation plain_numbers: ptrace_numbers plain_registers "\<lambda>b. b"
  by unfold_locales (simp_all add: plain_registers_def)

end
