(* ===== verification/Event_Stops.thy ===== *)
theory Event_Stops
  imports Events
begin

unbundle bit_operations_syntax

section \<open>The stops of a tracee as the kernel reports them\<close>

text \<open>
  A step relation for the kernel and \<open>handle_tracee_event\<close> together, for both orders of the event of
  seccomp and of the stop at an entry, and its invariant: PRoot knows at each stop whether it is an
  entry or an exit.
\<close>

subsection \<open>The kernel and PRoot together\<close>

text \<open>
  What the kernel does with a traced process, one stop at a time.  Before Linux 4.8 the event of
  seccomp comes before the stop at the entry of a call, and the latter is reported if the process was
  restarted to stop there; since then (\<open>late\<close>) it is the other way round.  A phase tells where the
  process is and how it was restarted last; in a call, whether it is one that creates no child (the
  tables do not ask for the exit of those that do).
\<close>

datatype phase = Running restart | Entered restart | Filtered restart | In_call restart bool

fun restarted :: "phase \<Rightarrow> restart" where
  "restarted (Running h) = h" | "restarted (Entered h) = h" | "restarted (Filtered h) = h"
| "restarted (In_call h childless) = h"

definition stops_with :: "wait_status \<Rightarrow> int \<Rightarrow> bool" where
  "stops_with status sig \<longleftrightarrow> \<not> WIFEXITED status \<and> \<not> WIFSIGNALED status \<and> WIFSTOPPED status
     \<and> stop_signal status = sig"

definition ordinary :: "int \<Rightarrow> bool" where
  "ordinary sig \<longleftrightarrow> 0 < sig \<and> sig \<le> 64 \<and> sig \<notin> {SIGTRAP, SIGSTOP, SIGSYS}"

text \<open>A stop is handled and the process restarted; nothing where PRoot fails or keeps it stopped.\<close>

definition react ::
  "'k Ptrace_Regs \<Rightarrow> ('k, 'z) Event_scheme Handlers \<Rightarrow> ('k, ('k, 'z) Event_scheme) Event_Calls \<Rightarrow> int
   \<Rightarrow> Globals \<Rightarrow> ('k, 'z) Event_scheme \<Rightarrow> Globals \<Rightarrow> ('k, 'z) Event_scheme \<Rightarrow> bool" where
  "react P X V sig g s g' s' \<longleftrightarrow>
     (\<exists>status signal s1. stops_with status sig
        \<and> handle_tracee_event P X V status g (s\<lparr>v_running := False\<rparr>) = Inr (signal, g', s1)
        \<and> restart_tracee V signal s1 = (True, s'))"

text \<open>The event of seccomp: the message tells whether the exit of the call is wanted.\<close>

definition seccomp_react ::
  "'k Ptrace_Regs \<Rightarrow> ('k, 'z) Event_scheme Handlers \<Rightarrow> ('k, ('k, 'z) Event_scheme) Event_Calls \<Rightarrow> bool
   \<Rightarrow> Globals \<Rightarrow> ('k, 'z) Event_scheme \<Rightarrow> Globals \<Rightarrow> ('k, 'z) Event_scheme \<Rightarrow> bool" where
  "seccomp_react P X V childless g s g' s' \<longleftrightarrow>
     react P X V (event EVENT_SECCOMP) g s g' s'
     \<and> (\<exists>flags. z_geteventmsg V (c_kernel s) = Some flags
          \<and> (\<not> childless \<longrightarrow> g_detected g \<and> flags AND FILTER_SYSEXIT = 0))"

inductive step ::
  "'k Ptrace_Regs \<Rightarrow> ('k, 'z) Event_scheme Handlers \<Rightarrow> ('k, ('k, 'z) Event_scheme) Event_Calls \<Rightarrow> bool
   \<Rightarrow> phase \<times> Globals \<times> ('k, 'z) Event_scheme \<Rightarrow> phase \<times> Globals \<times> ('k, 'z) Event_scheme \<Rightarrow> bool"
  for P X V late where
  a_signal: "ordinary sig \<Longrightarrow> react P X V sig g (s\<lparr>c_kernel := k\<rparr>) g' s' \<Longrightarrow>
    step P X V late (Running h, g, s) (Running (v_last_restart_how s'), g', s')"
| late_entry: "late \<Longrightarrow> react P X V SYSCALL_STOP g (s\<lparr>c_kernel := k\<rparr>) g' s' \<Longrightarrow>
    step P X V late (Running PTRACE_SYSCALL, g, s) (Entered (v_last_restart_how s'), g', s')"
| late_unseen: "late \<Longrightarrow> step P X V late (Running PTRACE_CONT, g, s) (Entered PTRACE_CONT, g, s)"
| late_seccomp: "late \<Longrightarrow> seccomp_react P X V childless g (s\<lparr>c_kernel := k\<rparr>) g' s' \<Longrightarrow>
    step P X V late (Entered h, g, s) (In_call (v_last_restart_how s') childless, g', s')"
| late_unfiltered: "late \<Longrightarrow> step P X V late (Entered h, g, s) (In_call h False, g, s)"
| early_seccomp: "\<not> late \<Longrightarrow> seccomp_react P X V childless g (s\<lparr>c_kernel := k\<rparr>) g' s' \<Longrightarrow>
    step P X V late (Running h, g, s) (Filtered (v_last_restart_how s'), g', s')"
| early_unfiltered: "\<not> late \<Longrightarrow> step P X V late (Running h, g, s) (Filtered h, g, s)"
| early_entry: "\<not> late \<Longrightarrow> react P X V SYSCALL_STOP g (s\<lparr>c_kernel := k\<rparr>) g' s' \<Longrightarrow> (v_handled_enter s \<Longrightarrow> childless) \<Longrightarrow>
    step P X V late (Filtered PTRACE_SYSCALL, g, s) (In_call (v_last_restart_how s') childless, g', s')"
| early_unseen: "\<not> late \<Longrightarrow> step P X V late (Filtered PTRACE_CONT, g, s) (In_call PTRACE_CONT False, g, s)"
| child: "sig \<in> {event EVENT_FORK, event EVENT_VFORK, event EVENT_CLONE} \<Longrightarrow> react P X V sig g (s\<lparr>c_kernel := k\<rparr>) g' s' \<Longrightarrow>
    step P X V late (In_call h False, g, s) (In_call (v_last_restart_how s') False, g', s')"
| note_event: "sig \<in> {event EVENT_EXEC, event EVENT_EXIT, event EVENT_VFORK_DONE} \<Longrightarrow> react P X V sig g (s\<lparr>c_kernel := k\<rparr>) g' s' \<Longrightarrow>
    step P X V late (In_call h childless, g, s) (In_call (v_last_restart_how s') childless, g', s')"
| exit_stop: "react P X V SYSCALL_STOP g (s\<lparr>c_kernel := k\<rparr>) g' s' \<Longrightarrow>
    step P X V late (In_call PTRACE_SYSCALL childless, g, s) (Running (v_last_restart_how s'), g', s')"
| exit_unseen: "step P X V late (In_call PTRACE_CONT childless, g, s) (Running PTRACE_CONT, g, s)"

text \<open>The stops that may come next.\<close>

fun may_stop :: "bool \<Rightarrow> phase \<Rightarrow> int \<Rightarrow> bool" where
  "may_stop late (Running h) sig \<longleftrightarrow>
     (if late then sig = SYSCALL_STOP \<and> h = PTRACE_SYSCALL else sig = event EVENT_SECCOMP)"
| "may_stop late (Entered h) sig \<longleftrightarrow> late \<and> sig = event EVENT_SECCOMP"
| "may_stop late (Filtered h) sig \<longleftrightarrow> \<not> late \<and> sig = SYSCALL_STOP \<and> h = PTRACE_SYSCALL"
| "may_stop late (In_call h childless) sig \<longleftrightarrow> sig = SYSCALL_STOP \<and> h = PTRACE_SYSCALL"

text \<open>The assertions of \<open>handle_tracee_event\<close>, which are not compiled, at the stop they belong to.\<close>

definition assertions :: "int \<Rightarrow> Globals \<Rightarrow> ('k, 'z) Event_scheme \<Rightarrow> bool" where
  "assertions sig g s \<longleftrightarrow>
     (if sig = SYSCALL_STOP then
        (v_seccomp s \<noteq> DISABLING \<and> v_handled_enter s \<longrightarrow> \<not> IS_IN_SYSENTER s \<and> \<not> g_after_enter g)
      else
        (let after = (if g_detected g then g_after_enter g else \<not> IS_IN_SYSENTER s)
         in if after \<and> \<not> IS_IN_SYSENTER s then v_last_restart_how s \<noteq> PTRACE_CONT else IS_IN_SYSENTER s))"

text \<open>The invariant: what PRoot believes about the process is true.\<close>

definition believes :: "phase \<Rightarrow> ('k, 'z) Event_scheme \<Rightarrow> bool" where
  "believes ph s \<longleftrightarrow>
     (case ph of
        Running h \<Rightarrow> c_status s = 0 \<and> \<not> v_handled_enter s
      | Entered h \<Rightarrow> (c_status s = 0 \<longleftrightarrow> h = PTRACE_CONT) \<and> \<not> v_handled_enter s
          \<and> (v_seccomp s = ENABLED \<and> c_status s \<noteq> 0 \<longrightarrow> awaits s)
      | Filtered h \<Rightarrow> (if v_handled_enter s then h = PTRACE_SYSCALL \<and> c_status s \<noteq> 0 \<and> v_seccomp s = ENABLED
                     else c_status s = 0)
      | In_call h childless \<Rightarrow> (c_status s = 0 \<longleftrightarrow> h = PTRACE_CONT) \<and> \<not> v_handled_enter s
          \<and> (v_seccomp s = ENABLED \<and> c_status s \<noteq> 0 \<and> \<not> childless \<longrightarrow> awaits s))"

definition sound :: "bool \<Rightarrow> Globals \<Rightarrow> ('k, 'z) Event_scheme \<Rightarrow> bool" where
  "sound late g s \<longleftrightarrow> v_exe s \<and> v_seccomp s \<noteq> DISABLING \<and> \<not> c_cancelled s \<and> \<not> c_relaunched s
     \<and> c_restart_how s = RESTART_DEFAULT \<and> \<not> delayed s
     \<and> (v_last_restart_how s = PTRACE_SYSCALL \<or> v_last_restart_how s = PTRACE_CONT \<and> v_seccomp s = ENABLED \<and> \<not> awaits s)
     \<and> (g_detected g \<longrightarrow> g_checked g \<and> g_after_enter g = late)
     \<and> (\<not> g_detected g \<longrightarrow> v_seccomp s = DISABLED)"

definition tracked :: "bool \<Rightarrow> phase \<times> Globals \<times> ('k, 'z) Event_scheme \<Rightarrow> bool" where
  "tracked late c \<longleftrightarrow>
     (case c of (ph, g, s) \<Rightarrow> sound late g s \<and> restarted ph = v_last_restart_how s \<and> believes ph s)"

text \<open>A child leaves its parent as it is, as far as the stops are concerned.\<close>

definition tame_children :: "('k, ('k, 'z) Event_scheme) Event_Calls \<Rightarrow> bool" where
  "tame_children V \<longleftrightarrow> (\<forall>f s. alike s (z_new_child V f s))"

subsection \<open>The invariant is kept\<close>

definition checked :: "('k, 's) Event_Calls \<Rightarrow> Globals \<Rightarrow> Globals" where
  "checked V g = (if g_checked g then g else g\<lparr>g_after_enter := z_assume_new V, g_checked := True\<rparr>)"

definition restarts :: "('k, 'z) Event_scheme \<Rightarrow> bool \<Rightarrow> ('k, 'z) Event_scheme" where
  "restarts s now = (if now then s else s\<lparr>v_pending := False\<rparr>)
     \<lparr>v_last_restart_how := c_restart_how s, c_restart_how := RESTART_DEFAULT, v_running := True\<rparr>"

lemma reactE:
  assumes "react P X V sig g s g' s'"
  obtains signal s1 now where
    "stopped P X V (sysexit_necessary s) sig (checked V g) (choose_restart (s\<lparr>v_running := False\<rparr>)) = Inr (signal, g', s1, now)"
    and "s' = restarts s1 now"
proof -
  obtain status signal s0 where r: "stops_with status sig"
    "handle_tracee_event P X V status g (s\<lparr>v_running := False\<rparr>) = Inr (signal, g', s0)"
    "restart_tracee V signal s0 = (True, s')"
    using assms by (auto simp: react_def)
  have nec: "sysexit_necessary (s\<lparr>v_running := False\<rparr>) = sysexit_necessary s"
    by (simp add: sysexit_necessary_def)
  let ?st = "stopped P X V (sysexit_necessary s) sig (checked V g) (choose_restart (s\<lparr>v_running := False\<rparr>))"
  have h: "(case ?st of Inl h \<Rightarrow> Inl h
      | Inr (signal, g, s, now) \<Rightarrow> Inr (signal, g, if now then s else s\<lparr>v_pending := False\<rparr>)) = Inr (signal, g', s0)"
    using r(1,2) by (simp add: handle_tracee_event_def stops_with_def Let_def nec checked_def)
  then obtain s1 now where s1: "?st = Inr (signal, g', s1, now)" "s0 = (if now then s1 else s1\<lparr>v_pending := False\<rparr>)"
    by (cases ?st) auto
  have "s' = restarts s1 now"
    using r(3) by (auto simp: restart_tracee_def restarts_def s1(2) split: if_split_asm)
  with s1(1) show thesis by (rule that)
qed

lemma restarts_simps [simp]:
  "v_exe (restarts s now) = v_exe s" "v_seccomp (restarts s now) = v_seccomp s"
  "v_handled_enter (restarts s now) = v_handled_enter s" "c_cancelled (restarts s now) = c_cancelled s"
  "c_relaunched (restarts s now) = c_relaunched s" "c_restart_how (restarts s now) = RESTART_DEFAULT"
  "v_last_restart_how (restarts s now) = c_restart_how s" "c_status (restarts s now) = c_status s"
  "awaits (restarts s now) = awaits s"
  by (simp_all add: restarts_def awaits_def)

lemma choose_simps [simp]:
  "v_exe (choose_restart s) = v_exe s" "v_seccomp (choose_restart s) = v_seccomp s"
  "v_handled_enter (choose_restart s) = v_handled_enter s" "c_cancelled (choose_restart s) = c_cancelled s"
  "c_relaunched (choose_restart s) = c_relaunched s" "v_last_restart_how (choose_restart s) = v_last_restart_how s"
  "c_status (choose_restart s) = c_status s" "awaits (choose_restart s) = awaits s"
  "c_kernel (choose_restart s) = c_kernel s" "v_sysexit_pending (choose_restart s) = v_sysexit_pending s"
  "c_syscalls (choose_restart s) = c_syscalls s"
  by (simp_all add: choose_restart_def awaits_def)

lemma choose_restart_how:
  "c_restart_how s = RESTART_DEFAULT \<Longrightarrow> c_restart_how (choose_restart s) =
    (if v_seccomp s = ENABLED \<and> \<not> sysexit_necessary s then PTRACE_CONT else PTRACE_SYSCALL)"
  by (simp add: choose_restart_def)

lemmas signals = SIGTRAP_def SYSCALL_STOP_def SIGSTOP_def SIGSYS_def event_def EVENT_FORK_def EVENT_VFORK_def
  EVENT_CLONE_def EVENT_EXEC_def EVENT_VFORK_DONE_def EVENT_EXIT_def EVENT_SECCOMP_def EVENT_SECCOMP2_def

lemma stopped_simps:
  "stopped P X V n SYSCALL_STOP g s =
    (case syscall_stop P X g s of Inl e \<Rightarrow> Inl (Fails e) | Inr (sig, s, now) \<Rightarrow> Inr (sig, g, s, now))"
  "stopped P X V n (event EVENT_SECCOMP) g s =
    (case seccomp_stop P X V n g s of Inl e \<Rightarrow> Inl (Fails e) | Inr (g, s) \<Rightarrow> Inr (0, g, s, False))"
  "sig \<in> {event EVENT_FORK, event EVENT_VFORK, event EVENT_CLONE} \<Longrightarrow>
    \<exists>f. stopped P X V n sig g s = Inr (0, g, z_new_child V f s, False)"
  "sig \<in> {event EVENT_EXEC, event EVENT_EXIT, event EVENT_VFORK_DONE} \<Longrightarrow>
    stopped P X V n sig g s = Inr (0, g, if v_last_restart_how s \<noteq> RESTART_DEFAULT
      then s\<lparr>c_restart_how := v_last_restart_how s\<rparr> else s, False)"
  "ordinary sig \<Longrightarrow> stopped P X V n sig g s = (case other_signal sig s of (sig, s) \<Rightarrow> Inr (sig, g, s, False))"
  by (auto simp: stopped_def signals ordinary_def Let_def)

lemma checked_simps [simp]:
  "g_detected (checked V g) = g_detected g" "g_checked (checked V g)"
  "g_checked g \<Longrightarrow> checked V g = g"
  by (simp_all add: checked_def)

text \<open>How \<open>syscall_stop\<close> sets the way of restarting before the translation.\<close>

definition armed :: "('k, 'z) Event_scheme \<Rightarrow> ('k, 'z) Event_scheme" where
  "armed s =
     (if v_seccomp s = ENABLED then
        (if IS_IN_SYSENTER s
         then s\<lparr>c_restart_how := PTRACE_SYSCALL, v_sysexit_pending := True\<rparr>
         else s\<lparr>c_restart_how := PTRACE_CONT, v_sysexit_pending := False\<rparr>)
      else s)"

lemma armed_simps [simp]:
  "v_exe (armed s) = v_exe s" "v_seccomp (armed s) = v_seccomp s"
  "v_handled_enter (armed s) = v_handled_enter s" "c_cancelled (armed s) = c_cancelled s"
  "c_relaunched (armed s) = c_relaunched s" "v_last_restart_how (armed s) = v_last_restart_how s"
  "c_status (armed s) = c_status s" "c_regs (armed s) = c_regs s" "c_syscalls (armed s) = c_syscalls s"
  by (simp_all add: armed_def)

lemma syscall_stop_translates:
  assumes "v_exe s" and "v_seccomp s \<noteq> DISABLING" and "\<not> v_handled_enter s"
    and "syscall_stop P X g s = Inr (sig, s', now)"
  obtains s2 where "translate_syscall P X (armed s) = Inr s2" and "v_seccomp s2 \<noteq> DISABLING \<longrightarrow> alike s2 s'"
proof -
  have h: "(case translate_stop P X g (armed s) of
      Inl e \<Rightarrow> Inl e
    | Inr (sig, s) \<Rightarrow> Inr (sig, if v_seccomp s = DISABLING
        then s\<lparr>c_restart_how := PTRACE_SYSCALL, v_seccomp := DISABLED\<rparr> else s, False)) = Inr (sig, s', now)"
    using assms unfolding syscall_stop_def Let_def armed_def[symmetric] by simp
  then obtain sig3 s3 where s3: "translate_stop P X g (armed s) = Inr (sig3, s3)"
    "s' = (if v_seccomp s3 = DISABLING then s3\<lparr>c_restart_how := PTRACE_SYSCALL, v_seccomp := DISABLED\<rparr> else s3)"
    by (cases "translate_stop P X g (armed s)") auto
  then obtain s2 where s2: "translate_syscall P X (armed s) = Inr s2"
    by (cases "translate_syscall P X (armed s)") (auto simp: translate_stop_def)
  then have "alike s2 s3"
    using s3(1) by (auto simp: translate_stop_def alike_def keeps_def Let_def split: if_split_asm)
  then have "v_seccomp s2 \<noteq> DISABLING \<longrightarrow> alike s2 s'" by (simp add: s3(2) alike_def keeps_def)
  with s2 show thesis by (rule that)
qed

lemma sound_restarts:
  assumes "sound late g s" and "keeps s s1" and "c_restart_how s1 = PTRACE_SYSCALL
      \<or> c_restart_how s1 = PTRACE_CONT \<and> v_seccomp s = ENABLED \<and> \<not> awaits s1"
  shows "sound late (checked V g) (restarts s1 now)"
proof -
  have "g_detected g \<Longrightarrow> checked V g = g" using assms(1) by (simp add: sound_def)
  moreover have "\<not> delayed (restarts s1 now)" using assms(1,2) by (simp add: sound_def keeps_def restarts_def)
  ultimately show ?thesis using assms by (auto simp: sound_def keeps_def)
qed

lemma sound_simps:
  assumes "sound late g s"
  shows "v_exe s" "v_seccomp s \<noteq> DISABLING" "\<not> c_cancelled s" "\<not> c_relaunched s"
    "c_restart_how s = RESTART_DEFAULT" "\<not> delayed s"
    "sysexit_necessary s = awaits s"
    "c_restart_how (choose_restart (s\<lparr>v_running := r\<rparr>)) =
      (if v_seccomp s = ENABLED \<and> \<not> awaits s then PTRACE_CONT else PTRACE_SYSCALL)"
  using assms by (auto simp: sound_def sysexit_necessary_def awaits_def choose_restart_def)

lemma sound_kernel: "sound late g (s\<lparr>c_kernel := k\<rparr>) = sound late g s"
  by (simp add: sound_def awaits_def)

lemma keeps_chosen [simp]: "keeps s (choose_restart (s\<lparr>v_running := r\<rparr>))"
  by (simp add: keeps_def choose_restart_def)

lemma alikeD:
  "alike s s' \<Longrightarrow> keeps s s'" "alike s s' \<Longrightarrow> c_status s' = c_status s"
  "alike s s' \<Longrightarrow> c_restart_how s' = c_restart_how s" "alike s s' \<Longrightarrow> awaits s' = awaits s"
  by (simp_all add: alike_def awaits_def)

lemma enteredD:
  "entered s s' \<Longrightarrow> keeps s s'" "entered s s' \<Longrightarrow> awaits s \<Longrightarrow> awaits s'"
  "entered s s' \<Longrightarrow> c_restart_how s' \<noteq> PTRACE_SYSCALL \<Longrightarrow>
    c_restart_how s' = c_restart_how s \<and> awaits s' = awaits s"
  "entered s s' \<Longrightarrow> c_restart_how s = PTRACE_SYSCALL \<Longrightarrow> c_restart_how s' = PTRACE_SYSCALL"
  by (auto simp: entered_def)

lemma keepsD:
  "keeps s s' \<Longrightarrow> v_seccomp s' = v_seccomp s" "keeps s s' \<Longrightarrow> v_handled_enter s' = v_handled_enter s"
  "keeps s s' \<Longrightarrow> v_exe s' = v_exe s" "keeps s s' \<Longrightarrow> c_cancelled s' = c_cancelled s"
  "keeps s s' \<Longrightarrow> c_relaunched s' = c_relaunched s" "keeps s s' \<Longrightarrow> v_last_restart_how s' = v_last_restart_how s"
  "keeps s s' \<Longrightarrow> delayed s' \<Longrightarrow> delayed s"
  by (simp_all add: keeps_def)

lemma keeps_trans: "keeps s s' \<Longrightarrow> keeps s' s'' \<Longrightarrow> keeps s s''"
  by (simp add: keeps_def)

context ptrace_numbers
begin

lemma reacts_to_syscall:
  assumes "tame X" and "sound late g s" and "\<not> v_handled_enter s" and "react P X V SYSCALL_STOP g s g' s'"
  obtains s0 s2 s1 now where "s0 = choose_restart (s\<lparr>v_running := False\<rparr>)"
    and "translate_syscall P X (armed s0) = Inr s2" and "v_seccomp s2 \<noteq> DISABLING \<longrightarrow> alike s2 s1"
    and "g' = checked V g" and "s' = restarts s1 now"
proof -
  let ?c = "choose_restart (s\<lparr>v_running := False\<rparr>)"
  obtain signal s1 now where r: "stopped P X V (sysexit_necessary s) SYSCALL_STOP (checked V g) ?c
      = Inr (signal, g', s1, now)" "s' = restarts s1 now"
    using assms(4) by (rule reactE)
  then obtain sig where st: "syscall_stop P X (checked V g) ?c = Inr (sig, s1, now)" "g' = checked V g"
    by (auto simp: stopped_simps(1) split: sum.splits)
  note c = sound_simps[OF assms(2)]
  have "v_exe ?c" "v_seccomp ?c \<noteq> DISABLING" "\<not> v_handled_enter ?c" using c assms(3) by simp_all
  then obtain s2 where "translate_syscall P X (armed ?c) = Inr s2" "v_seccomp s2 \<noteq> DISABLING \<longrightarrow> alike s2 s1"
    using st(1) by (rule syscall_stop_translates)
  with st(2) r(2) show thesis using that[OF refl] by blast
qed

lemma entry_stop:
  assumes "tame X" and "sound late g s" and "\<not> v_handled_enter s" and "c_status s = 0"
    and "react P X V SYSCALL_STOP g s g' s'"
  shows "sound late g' s'" and "v_last_restart_how s' = PTRACE_SYSCALL" and "c_status s' \<noteq> 0"
    and "\<not> v_handled_enter s'" and "v_seccomp s' = ENABLED \<longrightarrow> awaits s'"
proof -
  obtain s0 s2 s1 now where r: "s0 = choose_restart (s\<lparr>v_running := False\<rparr>)"
    "translate_syscall P X (armed s0) = Inr s2" "v_seccomp s2 \<noteq> DISABLING \<longrightarrow> alike s2 s1"
    "g' = checked V g" "s' = restarts s1 now"
    by (rule reacts_to_syscall[OF assms(1,2,3,5)])
  note c = sound_simps[OF assms(2)]
  have s0: "keeps s s0" "c_status s0 = 0" by (simp_all add: r(1) assms(4))
  have a: "keeps s (armed s0)" "c_status (armed s0) = 0" using s0 by (simp_all add: keeps_def)
  have how: "c_restart_how (armed s0) = PTRACE_SYSCALL" "v_seccomp s = ENABLED \<Longrightarrow> awaits (armed s0)"
    using s0(2) keepsD(1)[OF s0(1)] by (simp_all add: armed_def IS_IN_SYSENTER_def awaits_def r(1) c(8))
  have "\<not> c_cancelled (armed s0)" "\<not> c_relaunched (armed s0)" using c(3,4) a(1) by (simp_all add: keeps_def)
  with assms(1) a(2) have e: "entered (armed s0) s2" "c_status s2 = 0 \<longleftrightarrow> c_restart_how s2 = PTRACE_CONT"
    using translate_enters r(2) by blast+
  have "alike s2 s1" using r(3) c(2) keepsD(1)[OF keeps_trans[OF a(1) enteredD(1)[OF e(1)]]] by simp
  note l = alikeD[OF this]
  have f: "keeps s s1" by (rule keeps_trans[OF a(1) keeps_trans[OF enteredD(1)[OF e(1)] l(1)]])
  have "c_restart_how s1 = PTRACE_SYSCALL" "c_status s1 \<noteq> 0" "v_seccomp s = ENABLED \<longrightarrow> awaits s1"
    using enteredD(2,4)[OF e(1)] how e(2) by (simp_all add: l)
  note f = f this
  show "sound late g' s'" unfolding r(4,5) using f(2) by (intro sound_restarts[OF assms(2) f(1)]) simp
  show "v_last_restart_how s' = PTRACE_SYSCALL" "c_status s' \<noteq> 0" "\<not> v_handled_enter s'"
    "v_seccomp s' = ENABLED \<longrightarrow> awaits s'"
    using f assms(3) keepsD(1,2)[OF f(1)] by (simp_all add: r(5))
qed

lemma exit_stop:
  assumes "tame X" and "sound late g s" and "\<not> v_handled_enter s" and "c_status s \<noteq> 0"
    and "react P X V SYSCALL_STOP g s g' s'"
  shows "sound late g' s'" and "c_status s' = 0" and "\<not> v_handled_enter s'"
proof -
  obtain s0 s2 s1 now where r: "s0 = choose_restart (s\<lparr>v_running := False\<rparr>)"
    "translate_syscall P X (armed s0) = Inr s2" "v_seccomp s2 \<noteq> DISABLING \<longrightarrow> alike s2 s1"
    "g' = checked V g" "s' = restarts s1 now"
    by (rule reacts_to_syscall[OF assms(1,2,3,5)])
  note c = sound_simps[OF assms(2)]
  have s0: "keeps s s0" "c_status s0 \<noteq> 0" by (simp_all add: r(1) assms(4))
  have a: "keeps s (armed s0)" "c_status (armed s0) \<noteq> 0" using s0 by (simp_all add: keeps_def)
  have how: "c_restart_how (armed s0) = PTRACE_SYSCALL
      \<or> c_restart_how (armed s0) = PTRACE_CONT \<and> v_seccomp s = ENABLED \<and> \<not> v_sysexit_pending (armed s0)"
    using s0(2) keepsD(1)[OF s0(1)] by (simp add: armed_def IS_IN_SYSENTER_def r(1) c(8))
  have "\<not> c_cancelled (armed s0)" "\<not> c_relaunched (armed s0)" using c(3,4) a(1) by (simp_all add: keeps_def)
  with assms(1) a(2) have e: "left (armed s0) s2" "c_status s2 = 0"
      "c_syscalls s2 = None \<or> c_restart_how s2 = PTRACE_SYSCALL"
    using translate_leaves r(2) by blast+
  have k: "keeps s s2" using keeps_trans[OF a(1)] e(1) by (simp add: left_def)
  have "alike s2 s1" using r(3) c(2) keepsD(1)[OF k] by simp
  note l = alikeD[OF this]
  have f: "keeps s s1" by (rule keeps_trans[OF k l(1)])
  have "c_restart_how s2 = PTRACE_SYSCALL \<or> c_restart_how s2 = PTRACE_CONT \<and> v_seccomp s = ENABLED \<and> \<not> awaits s2"
    using how e(1,3) unfolding left_def awaits_def by fastforce
  then have "c_restart_how s1 = PTRACE_SYSCALL \<or> c_restart_how s1 = PTRACE_CONT \<and> v_seccomp s = ENABLED \<and> \<not> awaits s1"
    "c_status s1 = 0" using e(2) by (simp_all add: l)
  note f = f this
  show "sound late g' s'" unfolding r(4,5) using f(2) by (intro sound_restarts[OF assms(2) f(1)]) simp
  show "c_status s' = 0" "\<not> v_handled_enter s'" using f(3) assms(3) keepsD(2)[OF f(1)] by (simp_all add: r(5))
qed

lemma chosen_how:
  assumes "sound late g s" and "keeps s s1"
    and "c_restart_how s1 = c_restart_how (choose_restart (s\<lparr>v_running := False\<rparr>))" and "awaits s1 = awaits s"
  shows "sound late (checked V g) (restarts s1 now)"
  using sound_simps(8)[OF assms(1)] assms(3,4) by (intro sound_restarts[OF assms(1,2)]) simp

lemma handled_stop:
  assumes "sound late g s" and "v_handled_enter s" and "c_status s \<noteq> 0" and "v_seccomp s = ENABLED"
    and "react P X V SYSCALL_STOP g s g' s'"
  shows "sound late g' s'" and "v_last_restart_how s' = PTRACE_SYSCALL" and "c_status s' \<noteq> 0"
    and "\<not> v_handled_enter s'"
proof -
  let ?c = "choose_restart (s\<lparr>v_running := False\<rparr>)"
  obtain signal s1 now where r: "stopped P X V (sysexit_necessary s) SYSCALL_STOP (checked V g) ?c
      = Inr (signal, g', s1, now)" "s' = restarts s1 now"
    using assms(5) by (rule reactE)
  note c = sound_simps[OF assms(1)]
  have s1: "s1 = ?c\<lparr>c_restart_how := PTRACE_SYSCALL, v_sysexit_pending := False, v_handled_enter := False\<rparr>"
    "g' = checked V g"
    using r(1) assms(2-4) c(1) by (auto simp: stopped_simps(1) syscall_stop_def IS_IN_SYSENTER_def Let_def)
  have k: "\<not> delayed s1" using c(6) keepsD(7)[OF keeps_chosen[of s False]] by (auto simp: s1(1))
  show "sound late g' s'"
    using assms(1) c k by (auto simp: r(2) s1 sound_def restarts_def choose_restart_def awaits_def split: if_split_asm)
  show "v_last_restart_how s' = PTRACE_SYSCALL" "c_status s' \<noteq> 0" "\<not> v_handled_enter s'"
    using assms(3) by (simp_all add: r(2) s1(1))
qed

lemma signal_stop:
  assumes "sound late g s" and "ordinary sig" and "react P X V sig g s g' s'"
  shows "sound late g' s'" and "c_status s' = c_status s" and "v_handled_enter s' = v_handled_enter s"
proof -
  let ?c = "choose_restart (s\<lparr>v_running := False\<rparr>)"
  obtain signal s1 now where r: "stopped P X V (sysexit_necessary s) sig (checked V g) ?c
      = Inr (signal, g', s1, now)" "s' = restarts s1 now"
    using assms(3) by (rule reactE)
  then have s1: "alike ?c s1" "g' = checked V g"
    using assms(2) by (auto simp: stopped_simps(5) other_signal_def alike_def keeps_def split: if_split_asm)
  have k: "keeps s s1" by (rule keeps_trans[OF keeps_chosen alikeD(1)[OF s1(1)]])
  have "awaits ?c = awaits s" by (simp add: awaits_def)
  then show "sound late g' s'"
    unfolding r(2) s1(2) by (intro chosen_how[OF assms(1) k]) (simp_all add: alikeD[OF s1(1)])
  show "c_status s' = c_status s" "v_handled_enter s' = v_handled_enter s"
    using keepsD(2)[OF k] by (simp_all add: r(2) alikeD(2)[OF s1(1)])
qed

lemma child_stop:
  assumes "tame_children V" and "sound late g s" and "sig \<in> {event EVENT_FORK, event EVENT_VFORK, event EVENT_CLONE}"
    and "react P X V sig g s g' s'"
  shows "sound late g' s'" and "c_status s' = c_status s" and "v_handled_enter s' = v_handled_enter s"
    and "v_seccomp s' = v_seccomp s" and "awaits s' = awaits s"
    and "v_last_restart_how s' = (if v_seccomp s = ENABLED \<and> \<not> awaits s then PTRACE_CONT else PTRACE_SYSCALL)"
proof -
  let ?c = "choose_restart (s\<lparr>v_running := False\<rparr>)"
  obtain signal s1 now where r: "stopped P X V (sysexit_necessary s) sig (checked V g) ?c
      = Inr (signal, g', s1, now)" "s' = restarts s1 now"
    using assms(4) by (rule reactE)
  obtain f where "s1 = z_new_child V f ?c" "g' = checked V g"
    using stopped_simps(3)[OF assms(3), of P X V "sysexit_necessary s" "checked V g" ?c] r(1) by auto
  then have s1: "alike ?c s1" "g' = checked V g" using assms(1) by (simp_all add: tame_children_def)
  have k: "keeps s s1" by (rule keeps_trans[OF keeps_chosen alikeD(1)[OF s1(1)]])
  have a: "awaits ?c = awaits s" by (simp add: awaits_def)
  then show "sound late g' s'"
    unfolding r(2) s1(2) by (intro chosen_how[OF assms(2) k]) (simp_all add: alikeD[OF s1(1)])
  show "c_status s' = c_status s" "v_handled_enter s' = v_handled_enter s" "v_seccomp s' = v_seccomp s"
    "awaits s' = awaits s"
    using keepsD(1,2)[OF k] a by (simp_all add: r(2) alikeD[OF s1(1)])
  show "v_last_restart_how s' = (if v_seccomp s = ENABLED \<and> \<not> awaits s then PTRACE_CONT else PTRACE_SYSCALL)"
    by (simp add: r(2) alikeD(3)[OF s1(1)] sound_simps(8)[OF assms(2)])
qed

lemma event_stop:
  assumes "sound late g s" and "sig \<in> {event EVENT_EXEC, event EVENT_EXIT, event EVENT_VFORK_DONE}"
    and "react P X V sig g s g' s'"
  shows "sound late g' s'" and "c_status s' = c_status s" and "v_handled_enter s' = v_handled_enter s"
    and "v_seccomp s' = v_seccomp s" and "awaits s' = awaits s" and "v_last_restart_how s' = v_last_restart_how s"
proof -
  let ?c = "choose_restart (s\<lparr>v_running := False\<rparr>)"
  obtain signal s1 now where r: "stopped P X V (sysexit_necessary s) sig (checked V g) ?c
      = Inr (signal, g', s1, now)" "s' = restarts s1 now"
    using assms(3) by (rule reactE)
  have last: "v_last_restart_how s \<noteq> RESTART_DEFAULT" using assms(1) by (auto simp: sound_def)
  have s1: "s1 = ?c\<lparr>c_restart_how := v_last_restart_how s\<rparr>" "g' = checked V g"
    using r(1) last by (simp_all add: stopped_simps(4)[OF assms(2)])
  have k: "keeps s s1" using keeps_chosen[of s False] by (simp add: s1(1) keeps_def)
  have a: "awaits s1 = awaits s" by (simp add: s1(1) awaits_def)
  have "v_last_restart_how s = PTRACE_SYSCALL \<or>
      v_last_restart_how s = PTRACE_CONT \<and> v_seccomp s = ENABLED \<and> \<not> awaits s1"
    using assms(1) a by (simp add: sound_def)
  then show "sound late g' s'"
    unfolding r(2) s1(2) by (intro sound_restarts[OF assms(1) k]) (simp add: s1(1))
  show "c_status s' = c_status s" "v_handled_enter s' = v_handled_enter s" "v_seccomp s' = v_seccomp s"
    "awaits s' = awaits s" "v_last_restart_how s' = v_last_restart_how s"
    using keepsD(1,2)[OF k] a by (simp_all add: r(2)) (simp_all add: s1(1))
qed

lemma detection:
  assumes "sound late g s" and "\<not> g_detected g \<Longrightarrow> late = (c_status s \<noteq> 0)"
  obtains g2 sd se where "seccomp_detection (checked V g) (choose_restart (s\<lparr>v_running := False\<rparr>)) = (g2, sd)"
    and "se = (if g_detected g then s else s\<lparr>v_seccomp := ENABLED\<rparr>)"
    and "sound late g2 se" and "g_after_enter g2 = late" and "checked V g2 = g2" and "keeps se sd" and "c_status sd = c_status s"
    and "awaits sd = awaits s" and "c_kernel sd = c_kernel s"
    and "c_restart_how sd = (if v_seccomp s = ENABLED \<and> \<not> awaits s then PTRACE_CONT else PTRACE_SYSCALL)"
    and "v_sysexit_pending sd = v_sysexit_pending s" and "c_syscalls sd = c_syscalls s"
proof -
  let ?c = "choose_restart (s\<lparr>v_running := False\<rparr>)"
  note c = sound_simps[OF assms(1)]
  show thesis
  proof (cases "g_detected g")
    case True
    then have g: "g_checked g" "g_after_enter g = late" using assms(1) by (simp_all add: sound_def)
    show thesis
    proof (rule that)
      show "seccomp_detection (checked V g) ?c = (g, ?c\<lparr>v_skip_signal := False\<rparr>)"
        using True g by (simp add: seccomp_detection_def)
      show "s = (if g_detected g then s else s\<lparr>v_seccomp := ENABLED\<rparr>)" using True by simp
      show "sound late g s" by (rule assms(1))
      show "keeps s (?c\<lparr>v_skip_signal := False\<rparr>)" using keeps_chosen[of s False] by (simp add: keeps_def)
      show "c_restart_how (?c\<lparr>v_skip_signal := False\<rparr>)
        = (if v_seccomp s = ENABLED \<and> \<not> awaits s then PTRACE_CONT else PTRACE_SYSCALL)" using c(8)[of False] by simp
    qed (use g in \<open>simp_all add: awaits_def\<close>)
  next
    case False
    let ?g = "(checked V g)\<lparr>g_detected := True, g_after_enter := late\<rparr>"
    let ?e = "s\<lparr>v_seccomp := ENABLED\<rparr>"
    let ?d = "?c\<lparr>v_seccomp := ENABLED, v_skip_signal := False\<rparr>"
    have g: "g_checked ?g" by simp
    show thesis
    proof (rule that)
      show "seccomp_detection (checked V g) ?c = (?g, ?d)"
        using False assms(2) by (simp add: seccomp_detection_def IS_IN_SYSENTER_def)
      show "?e = (if g_detected g then s else s\<lparr>v_seccomp := ENABLED\<rparr>)" using False by simp
      show "sound late ?g ?e" using assms(1) False g by (auto simp: sound_def)
      show "checked V ?g = ?g" using g by (simp only: checked_simps)
      show "keeps ?e ?d" using keeps_chosen[of s False] by (simp add: keeps_def)
      show "c_restart_how ?d = (if v_seccomp s = ENABLED \<and> \<not> awaits s then PTRACE_CONT else PTRACE_SYSCALL)"
        using c(8)[of False] by simp
    qed (simp_all add: awaits_def)
  qed
qed

lemma seccomp_both_stop:
  assumes "tame X" and "c_status s = 0" and "\<not> c_cancelled s" and "\<not> c_relaunched s"
    and "seccomp_both P X g s = Inr s'"
  shows "keeps s s'" and "c_restart_how s' = PTRACE_SYSCALL" and "c_status s' \<noteq> 0 \<longleftrightarrow> g_after_enter g"
    and "awaits s \<longrightarrow> awaits s'"
proof -
  let ?s = "s\<lparr>c_restart_how := PTRACE_SYSCALL\<rparr>"
  have "keeps s s' \<and> c_restart_how s' = PTRACE_SYSCALL \<and> (c_status s' \<noteq> 0 \<longleftrightarrow> g_after_enter g) \<and> (awaits s \<longrightarrow> awaits s')"
  proof (cases "g_after_enter g")
    case False
    then have "s' = ?s" using assms(5) by (simp add: seccomp_both_def)
    then show ?thesis using assms(2) False by (simp add: keeps_def awaits_def)
  next
    case True
    then obtain s2 where s2: "translate_syscall P X ?s = Inr s2" "s' = s2\<lparr>c_restart_how := PTRACE_SYSCALL\<rparr>"
      using assms(5) by (auto simp: seccomp_both_def split: sum.splits)
    then have e: "entered ?s s2" "c_status s2 = 0 \<longleftrightarrow> c_restart_how s2 = PTRACE_CONT"
      using translate_enters[OF assms(1), of ?s s2] assms(2-4) by simp_all
    have "awaits ?s = awaits s" by (simp add: awaits_def)
    then have "awaits s \<longrightarrow> awaits s'" using enteredD(2)[OF e(1)] by (simp add: s2(2) awaits_def)
    moreover have "keeps s s'" using enteredD(1)[OF e(1)] by (simp add: s2(2) keeps_def)
    ultimately show ?thesis using True e(2) enteredD(4)[OF e(1)] by (simp add: s2(2))
  qed
  then show "keeps s s'" "c_restart_how s' = PTRACE_SYSCALL" "c_status s' \<noteq> 0 \<longleftrightarrow> g_after_enter g"
    "awaits s \<longrightarrow> awaits s'" by blast+
qed

lemma seccomp_entry_stop:
  assumes "tame X" and "c_status s = 0" and "\<not> c_cancelled s" and "\<not> c_relaunched s" and "\<not> awaits s"
    and "v_seccomp s = ENABLED" and "seccomp_entry P X g s = Inr s'"
  obtains (cont) "keeps s s'" "c_restart_how s' = PTRACE_CONT" "c_status s' = 0" "\<not> awaits s'"
  | (exit) s2 where "keeps s s2" "c_restart_how s' = PTRACE_SYSCALL" "c_status s' \<noteq> 0" "awaits s'"
      "s' = (if g_after_enter g then s2 else s2\<lparr>v_handled_enter := True\<rparr>)"
proof -
  let ?s = "s\<lparr>c_restart_how := PTRACE_CONT\<rparr>"
  obtain s2 where s2: "translate_syscall P X ?s = Inr s2"
    using assms(7) by (cases "translate_syscall P X ?s") (simp_all add: seccomp_entry_def)
  then have e: "entered ?s s2" "c_status s2 = 0 \<longleftrightarrow> c_restart_how s2 = PTRACE_CONT"
    using translate_enters[OF assms(1), of ?s s2] assms(2-4) by simp_all
  have k: "keeps s s2" using enteredD(1)[OF e(1)] by (simp add: keeps_def)
  have seccomp: "v_seccomp s2 = ENABLED" using keepsD(1)[OF k] assms(6) by simp
  have s': "s' = (let s3 = (if v_sysexit_pending s2 then s2\<lparr>c_restart_how := PTRACE_SYSCALL\<rparr> else s2)
      in if \<not> g_after_enter g \<and> c_restart_how s3 = PTRACE_SYSCALL then s3\<lparr>v_handled_enter := True\<rparr> else s3)"
    using assms(7) s2 seccomp by (simp add: seccomp_entry_def Let_def)
  show thesis
  proof (cases "c_restart_how s2 = PTRACE_SYSCALL")
    case False
    then have how: "c_restart_how s2 = PTRACE_CONT" "awaits s2 = awaits s"
      using enteredD(3)[OF e(1)] by (simp_all add: awaits_def)
    then have "\<not> v_sysexit_pending s2" using assms(5) by (simp add: awaits_def)
    then have "s' = s2" using how(1) by (simp add: s')
    then show thesis using cont k how e(2) assms(5) by simp
  next
    case True
    then have "s2\<lparr>c_restart_how := PTRACE_SYSCALL\<rparr> = s2" by simp
    then have "s' = (if g_after_enter g then s2 else s2\<lparr>v_handled_enter := True\<rparr>)"
      using True by (simp add: s' Let_def)
    moreover have "awaits s2" using True e(1) by (auto simp: entered_def)
    then have "awaits s'" using calculation by (auto simp: awaits_def)
    ultimately show thesis using exit[OF k] True e(2) by simp
  qed
qed

lemma seccomp_late:
  assumes "tame X" and "sound True g s" and "\<not> v_handled_enter s" and "c_status s = 0 \<longleftrightarrow> v_last_restart_how s = PTRACE_CONT"
    and "v_seccomp s = ENABLED \<and> c_status s \<noteq> 0 \<longrightarrow> awaits s" and "seccomp_react P X V childless g s g' s'"
  shows "sound True g' s'" and "\<not> v_handled_enter s'" and "c_status s' = 0 \<longleftrightarrow> v_last_restart_how s' = PTRACE_CONT"
    and "v_seccomp s' = ENABLED \<and> c_status s' \<noteq> 0 \<and> \<not> childless \<longrightarrow> awaits s'"
proof -
  let ?c = "choose_restart (s\<lparr>v_running := False\<rparr>)"
  have react: "react P X V (event EVENT_SECCOMP) g s g' s'" using assms(6) by (simp add: seccomp_react_def)
  obtain flags where flags: "z_geteventmsg V (c_kernel s) = Some flags" "\<not> childless \<longrightarrow> g_detected g \<and> flags AND FILTER_SYSEXIT = 0"
    using assms(6) by (auto simp: seccomp_react_def)
  obtain signal s1 now where r: "stopped P X V (sysexit_necessary s) (event EVENT_SECCOMP) (checked V g) ?c
      = Inr (signal, g', s1, now)" "s' = restarts s1 now"
    using react by (rule reactE)
  then have st: "seccomp_stop P X V (sysexit_necessary s) (checked V g) ?c = Inr (g', s1)"
    by (auto simp: stopped_simps(2) split: sum.splits)
  have how: "v_last_restart_how s = PTRACE_SYSCALL \<or> v_last_restart_how s = PTRACE_CONT \<and> v_seccomp s = ENABLED \<and> \<not> awaits s"
    "\<not> g_detected g \<Longrightarrow> v_seccomp s = DISABLED" using assms(2) by (simp_all add: sound_def)
  then have "\<not> g_detected g \<Longrightarrow> True = (c_status s \<noteq> 0)" using assms(4) by auto
  then obtain g2 sd se where d: "seccomp_detection (checked V g) ?c = (g2, sd)"
    "se = (if g_detected g then s else s\<lparr>v_seccomp := ENABLED\<rparr>)"
    "sound True g2 se" "g_after_enter g2 = True" "checked V g2 = g2" "keeps se sd" "c_status sd = c_status s"
    "awaits sd = awaits s" "c_kernel sd = c_kernel s"
    "c_restart_how sd = (if v_seccomp s = ENABLED \<and> \<not> awaits s then PTRACE_CONT else PTRACE_SYSCALL)"
    "v_sysexit_pending sd = v_sysexit_pending s" "c_syscalls sd = c_syscalls s"
    by (rule detection[OF assms(2)])
  have se: "v_handled_enter se = v_handled_enter s" "v_last_restart_how se = v_last_restart_how s" by (simp_all add: d(2))
  note c = sound_simps[OF d(3)]
  have "sound True g' s' \<and> \<not> v_handled_enter s' \<and> (c_status s' = 0 \<longleftrightarrow> v_last_restart_how s' = PTRACE_CONT)
    \<and> (v_seccomp s' = ENABLED \<and> c_status s' \<noteq> 0 \<and> \<not> childless \<longrightarrow> awaits s')"
  proof (cases "c_status s = 0")
    case False
    then have "v_last_restart_how sd = PTRACE_SYSCALL" using how(1) assms(4) keepsD(6)[OF d(6)] se(2) by auto
    then have s1: "s1 = sd\<lparr>c_restart_how := PTRACE_SYSCALL\<rparr>" "g' = g2"
      using st False d(4,7) by (simp_all add: seccomp_stop_def d(1) IS_IN_SYSENTER_def)
    have k: "keeps se s1" using d(6) by (simp add: s1(1) keeps_def)
    have "sound True (checked V g2) (restarts s1 now)" by (rule sound_restarts[OF d(3) k]) (simp add: s1(1))
    moreover have "awaits s1 = awaits s" using d(8) by (simp add: s1(1) awaits_def)
    moreover have "v_seccomp s1 = ENABLED \<and> \<not> childless \<longrightarrow> v_seccomp s = ENABLED"
      using keepsD(1)[OF k] flags(2) by (auto simp: d(2))
    ultimately show ?thesis
      using False assms(3,5) keepsD(2)[OF k] d(5,7) by (simp add: r(2) s1 se)
  next
    case True
    then have q: "v_seccomp s = ENABLED" "\<not> awaits s" using assms(4) how(1) by auto
    then have e: "se = s" using how(2) d(2) by auto
    have sd: "c_status sd = 0" "v_seccomp sd = ENABLED" "\<not> awaits sd" "\<not> c_cancelled sd" "\<not> c_relaunched sd"
      "\<not> v_handled_enter sd"
      using True q d(7,8) keepsD[OF d(6)] c(3,4) assms(3) by (simp_all add: e)
    have necessary: "\<not> sysexit_necessary s" using q(2) sound_simps(7)[OF assms(2)] by simp
    have g': "g' = g2" and both: "(if flags AND FILTER_SYSEXIT \<noteq> 0 then seccomp_both P X g2 sd
        else seccomp_entry P X g2 sd) = Inr s1"
      using st sd flags(1) necessary d(4,9) by (auto simp: seccomp_stop_def d(1) IS_IN_SYSENTER_def split: sum.splits)
    show ?thesis
    proof (cases "flags AND FILTER_SYSEXIT = 0")
      case False
      then have "seccomp_both P X g2 sd = Inr s1" using both by simp
      note b = seccomp_both_stop[OF assms(1) sd(1,4,5) this]
      have k: "keeps se s1" by (rule keeps_trans[OF d(6) b(1)])
      have "sound True (checked V g2) (restarts s1 now)" by (rule sound_restarts[OF d(3) k]) (simp add: b(2))
      then show ?thesis
        using False flags(2) b(2,3) keepsD(2)[OF k] assms(3) by (simp add: r(2) g' d(4,5) se)
    next
      case True
      then have "seccomp_entry P X g2 sd = Inr s1" using both by simp
      from assms(1) sd(1,4,5,3,2) this show ?thesis
      proof (cases rule: seccomp_entry_stop)
        case cont
        have k: "keeps se s1" by (rule keeps_trans[OF d(6) cont(1)])
        have "sound True (checked V g2) (restarts s1 now)"
          by (rule sound_restarts[OF d(3) k]) (simp add: cont(2,4) e q(1))
        then show ?thesis using cont(2,3) keepsD(2)[OF k] assms(3) by (simp add: r(2) g' d(5) se)
      next
        case (exit s2)
        have k: "keeps se s1" using exit(5) keeps_trans[OF d(6) exit(1)] d(4) by simp
        have "sound True (checked V g2) (restarts s1 now)" by (rule sound_restarts[OF d(3) k]) (simp add: exit(2))
        then show ?thesis using exit(2-4) keepsD(2)[OF k] assms(3) by (simp add: r(2) g' d(5) se)
      qed
    qed
  qed
  then show "sound True g' s'" "\<not> v_handled_enter s'" "c_status s' = 0 \<longleftrightarrow> v_last_restart_how s' = PTRACE_CONT"
    "v_seccomp s' = ENABLED \<and> c_status s' \<noteq> 0 \<and> \<not> childless \<longrightarrow> awaits s'" by blast+
qed

lemma seccomp_early:
  assumes "tame X" and "sound False g s" and "\<not> v_handled_enter s" and "c_status s = 0"
    and "seccomp_react P X V childless g s g' s'"
  shows "sound False g' s'" and "if v_handled_enter s' then v_last_restart_how s' = PTRACE_SYSCALL \<and> c_status s' \<noteq> 0
      \<and> v_seccomp s' = ENABLED else c_status s' = 0"
proof -
  let ?c = "choose_restart (s\<lparr>v_running := False\<rparr>)"
  have react: "react P X V (event EVENT_SECCOMP) g s g' s'" using assms(5) by (simp add: seccomp_react_def)
  obtain flags where flags: "z_geteventmsg V (c_kernel s) = Some flags" using assms(5) by (auto simp: seccomp_react_def)
  obtain signal s1 now where r: "stopped P X V (sysexit_necessary s) (event EVENT_SECCOMP) (checked V g) ?c
      = Inr (signal, g', s1, now)" "s' = restarts s1 now"
    using react by (rule reactE)
  then have st: "seccomp_stop P X V (sysexit_necessary s) (checked V g) ?c = Inr (g', s1)"
    by (auto simp: stopped_simps(2) split: sum.splits)
  have "\<not> g_detected g \<Longrightarrow> False = (c_status s \<noteq> 0)" using assms(4) by simp
  then obtain g2 sd se where d: "seccomp_detection (checked V g) ?c = (g2, sd)"
    "se = (if g_detected g then s else s\<lparr>v_seccomp := ENABLED\<rparr>)"
    "sound False g2 se" "g_after_enter g2 = False" "checked V g2 = g2" "keeps se sd" "c_status sd = c_status s"
    "awaits sd = awaits s" "c_kernel sd = c_kernel s"
    "c_restart_how sd = (if v_seccomp s = ENABLED \<and> \<not> awaits s then PTRACE_CONT else PTRACE_SYSCALL)"
    "v_sysexit_pending sd = v_sysexit_pending s" "c_syscalls sd = c_syscalls s"
    by (rule detection[OF assms(2)])
  note c = sound_simps[OF d(3)]
  have sd: "c_status sd = 0" "\<not> c_cancelled sd" "\<not> c_relaunched sd" "\<not> v_handled_enter sd"
    using assms(3,4) d(7) keepsD[OF d(6)] c(3,4) by (simp_all add: d(2))
  have necessary: "sysexit_necessary s = awaits s" by (rule sound_simps(7)[OF assms(2)])
  have "sound False g' s' \<and> (if v_handled_enter s' then v_last_restart_how s' = PTRACE_SYSCALL \<and> c_status s' \<noteq> 0
      \<and> v_seccomp s' = ENABLED else c_status s' = 0)"
  proof (cases "v_seccomp sd = ENABLED")
    case False
    then have s1: "s1 = sd" "g' = g2" using st sd d(4) by (simp_all add: seccomp_stop_def d(1) IS_IN_SYSENTER_def)
    have "c_restart_how sd = PTRACE_SYSCALL" using False d(2,10) keepsD(1)[OF d(6)] by (simp split: if_split_asm)
    then have "sound False (checked V g2) (restarts s1 now)" using d(6) by (intro sound_restarts[OF d(3)]) (simp_all add: s1)
    then show ?thesis using sd by (simp add: r(2) s1 d(5))
  next
    case True
    have g': "g' = g2" and both: "(if flags AND FILTER_SYSEXIT \<noteq> 0 \<or> awaits s then seccomp_both P X g2 sd
        else seccomp_entry P X g2 sd) = Inr s1"
      using st sd True flags necessary d(4,9) by (auto simp: seccomp_stop_def d(1) IS_IN_SYSENTER_def split: sum.splits)
    show ?thesis
    proof (cases "flags AND FILTER_SYSEXIT \<noteq> 0 \<or> awaits s")
      case f: True
      then have "seccomp_both P X g2 sd = Inr s1" using both by simp
      note b = seccomp_both_stop[OF assms(1) sd(1-3) this]
      have k: "keeps se s1" by (rule keeps_trans[OF d(6) b(1)])
      have "sound False (checked V g2) (restarts s1 now)" by (rule sound_restarts[OF d(3) k]) (simp add: b(2))
      then show ?thesis using b(3) keepsD(2)[OF b(1)] sd(4) by (simp add: r(2) g' d(4,5))
    next
      case f: False
      then have entry: "seccomp_entry P X g2 sd = Inr s1" "\<not> awaits sd" using both d(8) by simp_all
      from assms(1) sd(1-3) entry(2) True entry(1) show ?thesis
      proof (cases rule: seccomp_entry_stop)
        case cont
        have k: "keeps se s1" by (rule keeps_trans[OF d(6) cont(1)])
        have "v_seccomp se = ENABLED" using True keepsD(1)[OF d(6)] by simp
        then have "sound False (checked V g2) (restarts s1 now)"
          by (intro sound_restarts[OF d(3) k]) (simp add: cont(2,4))
        then show ?thesis using cont(3) keepsD(2)[OF cont(1)] sd(4) by (simp add: r(2) g' d(5))
      next
        case (exit s2)
        have k: "keeps se s2" by (rule keeps_trans[OF d(6) exit(1)])
        have s1: "s1 = s2\<lparr>v_handled_enter := True\<rparr>" using exit(5) d(4) by simp
        then have "sound False (checked V g2) (restarts s2 now)"
          using exit(2) by (intro sound_restarts[OF d(3) k]) simp
        then have "sound False (checked V g2) (restarts s1 now)" by (cases now) (simp_all add: s1 sound_def restarts_def awaits_def)
        moreover have "v_seccomp s1 = ENABLED" using True keepsD(1)[OF exit(1)] by (simp add: s1)
        moreover have "v_handled_enter s1" by (simp add: s1)
        ultimately show ?thesis using exit(2,3) by (simp add: r(2) g' d(5))
      qed
    qed
  qed
  then show "sound False g' s'" "if v_handled_enter s' then v_last_restart_how s' = PTRACE_SYSCALL \<and> c_status s' \<noteq> 0
      \<and> v_seccomp s' = ENABLED else c_status s' = 0" by blast+
qed

lemma step_tracked:
  assumes "tame X" and "tame_children V" and "step P X V late c c'" and "tracked late c"
  shows "tracked late c'"
  using assms(3)
proof (cases rule: step.cases)
  case (a_signal sig g k s g' s' h)
  then have "sound late g (s\<lparr>c_kernel := k\<rparr>)" using assms(4) by (simp add: tracked_def sound_kernel)
  note t = signal_stop[OF this a_signal(3,4)]
  show ?thesis using a_signal(1,2) t assms(4) by (simp add: tracked_def believes_def)
next
  case (late_entry g k s g' s')
  then have s: "sound late g (s\<lparr>c_kernel := k\<rparr>)" "\<not> v_handled_enter (s\<lparr>c_kernel := k\<rparr>)" "c_status (s\<lparr>c_kernel := k\<rparr>) = 0"
    using assms(4) by (simp_all add: tracked_def sound_kernel believes_def)
  note t = entry_stop[OF assms(1) s late_entry(4)]
  show ?thesis using t by (simp add: late_entry(2) tracked_def believes_def)
next
  case (late_unseen g s)
  then show ?thesis using assms(4) by (simp add: tracked_def believes_def)
next
  case (late_seccomp childless g k s g' s' h)
  then have s: "sound True g (s\<lparr>c_kernel := k\<rparr>)" "\<not> v_handled_enter (s\<lparr>c_kernel := k\<rparr>)"
    "c_status (s\<lparr>c_kernel := k\<rparr>) = 0 \<longleftrightarrow> v_last_restart_how (s\<lparr>c_kernel := k\<rparr>) = PTRACE_CONT"
    "v_seccomp (s\<lparr>c_kernel := k\<rparr>) = ENABLED \<and> c_status (s\<lparr>c_kernel := k\<rparr>) \<noteq> 0 \<longrightarrow> awaits (s\<lparr>c_kernel := k\<rparr>)"
    using assms(4) by (auto simp: tracked_def sound_kernel believes_def awaits_def)
  note t = seccomp_late[OF assms(1) s late_seccomp(4)]
  show ?thesis using t late_seccomp(3) by (simp add: late_seccomp(2) tracked_def believes_def)
next
  case (late_unfiltered g s h)
  then show ?thesis using assms(4) by (simp add: tracked_def believes_def)
next
  case (early_seccomp childless g k s g' s' h)
  then have s: "sound False g (s\<lparr>c_kernel := k\<rparr>)" "\<not> v_handled_enter (s\<lparr>c_kernel := k\<rparr>)" "c_status (s\<lparr>c_kernel := k\<rparr>) = 0"
    using assms(4) by (simp_all add: tracked_def sound_kernel believes_def)
  note t = seccomp_early[OF assms(1) s early_seccomp(4)]
  show ?thesis using t early_seccomp(3) by (simp add: early_seccomp(2) tracked_def believes_def)
next
  case (early_unfiltered g s h)
  then show ?thesis using assms(4) by (simp add: tracked_def believes_def)
next
  case (early_entry g k s g' s' childless)
  then have s: "sound late g (s\<lparr>c_kernel := k\<rparr>)" using assms(4) by (simp add: tracked_def sound_kernel)
  show ?thesis
  proof (cases "v_handled_enter s")
    case True
    then have h: "v_handled_enter (s\<lparr>c_kernel := k\<rparr>)" "c_status (s\<lparr>c_kernel := k\<rparr>) \<noteq> 0" "v_seccomp (s\<lparr>c_kernel := k\<rparr>) = ENABLED"
      using early_entry(1) assms(4) by (simp_all add: tracked_def believes_def)
    note t = handled_stop[OF s h early_entry(4)]
    show ?thesis using t True early_entry(5) by (simp add: early_entry(2) tracked_def believes_def)
  next
    case False
    then have h: "\<not> v_handled_enter (s\<lparr>c_kernel := k\<rparr>)" "c_status (s\<lparr>c_kernel := k\<rparr>) = 0"
      using early_entry(1) assms(4) by (simp_all add: tracked_def believes_def)
    note t = entry_stop[OF assms(1) s h early_entry(4)]
    show ?thesis using t by (simp add: early_entry(2) tracked_def believes_def)
  qed
next
  case (early_unseen g s)
  then show ?thesis using assms(4) by (auto simp: tracked_def believes_def split: if_split_asm)
next
  case (child sig g k s g' s' h)
  then have s: "sound late g (s\<lparr>c_kernel := k\<rparr>)" using assms(4) by (simp add: tracked_def sound_kernel)
  note t = child_stop[OF assms(2) this child(3,4)]
  have b: "c_status s = 0 \<longleftrightarrow> v_last_restart_how s = PTRACE_CONT" "\<not> v_handled_enter s"
    "v_seccomp s = ENABLED \<and> c_status s \<noteq> 0 \<longrightarrow> awaits s"
    "v_last_restart_how s = PTRACE_SYSCALL \<or> v_last_restart_how s = PTRACE_CONT \<and> v_seccomp s = ENABLED \<and> \<not> awaits s"
    using child(1) assms(4) by (auto simp: tracked_def believes_def sound_def)
  have "awaits (s\<lparr>c_kernel := k\<rparr>) = awaits s" by (simp add: awaits_def)
  then show ?thesis using assms(4) t b by (auto simp: child(2) tracked_def believes_def)
next
  case (note_event sig g k s g' s' h childless)
  then have s: "sound late g (s\<lparr>c_kernel := k\<rparr>)" using assms(4) by (simp add: tracked_def sound_kernel)
  note t = event_stop[OF this note_event(3,4)]
  have b: "c_status s = 0 \<longleftrightarrow> v_last_restart_how s = PTRACE_CONT" "\<not> v_handled_enter s"
    "v_seccomp s = ENABLED \<and> c_status s \<noteq> 0 \<and> \<not> childless \<longrightarrow> awaits s"
    using note_event(1) assms(4) by (simp_all add: tracked_def believes_def)
  have "awaits (s\<lparr>c_kernel := k\<rparr>) = awaits s" by (simp add: awaits_def)
  then show ?thesis using assms(4) t b by (simp add: note_event(2) tracked_def believes_def)
next
  case e: (exit_stop g k s g' s' childless)
  then have s: "sound late g (s\<lparr>c_kernel := k\<rparr>)" "\<not> v_handled_enter (s\<lparr>c_kernel := k\<rparr>)" "c_status (s\<lparr>c_kernel := k\<rparr>) \<noteq> 0"
    using assms(4) by (auto simp: tracked_def sound_kernel believes_def)
  note t = exit_stop[OF assms(1) s e(3)]
  show ?thesis using t by (simp add: e(2) tracked_def believes_def)
next
  case (exit_unseen g s childless)
  then show ?thesis using assms(4) by (simp add: tracked_def believes_def)
qed

lemma steps_tracked:
  assumes "tame X" and "tame_children V" and "(step P X V late)\<^sup>*\<^sup>* c c'" and "tracked late c"
  shows "tracked late c'"
  using assms(3,4) by (induction rule: rtranclp_induct) (auto intro: step_tracked[OF assms(1,2)])

end

text \<open>Where the invariant holds, the assertions of the next stop do.\<close>

lemma tracked_assertions:
  assumes "tracked late (ph, g, s)" and "may_stop late ph sig"
  shows "assertions sig g s"
proof -
  have distinct: "SYSCALL_STOP \<noteq> event EVENT_SECCOMP" by (simp add: signals)
  have detected: "g_detected g \<Longrightarrow> g_after_enter g = late" "\<not> g_detected g \<Longrightarrow> v_last_restart_how s = PTRACE_SYSCALL"
    using assms(1) by (auto simp: tracked_def sound_def)
  show ?thesis
    using assms detected distinct
    by (cases ph) (auto simp: tracked_def believes_def sound_def assertions_def IS_IN_SYSENTER_def Let_def split: if_split_asm)
qed

end
