(* ===== verification/Tracee_Properties.thy ===== *)
theory Tracee_Properties
  imports System_Properties Syscall_Enter Event_Stops
begin

section \<open>Properties of the entry of a system call and of the events of a tracee\<close>

text \<open>
  The promise of \<open>translate_syscall_enter\<close> for the calls with one path, and the one of
  \<open>handle_tracee_event\<close> for the stops that the kernel reports.
\<close>

subsection \<open>The entry of a system call\<close>


definition ex_call :: "(word_t \<Rightarrow> byte option, unit) Call" where
  "ex_call = \<lparr>s_regs = save_current_regs (poke_reg (s_regs ex_argument) SYSARG_NUM 43) ORIGINAL,
     s_tracee = ex_tracee, s_mem = s_mem ex_argument, s_world = (),
     n_heap = \<lparr>h_base = 0, h_size = 0, h_disabled = False, heap_offset = 0\<rparr>, n_load_info = None, n_fds = [],
     n_pending_socket = False, n_reply = [], n_reply_len = 0, n_stripped_newns = False,
     n_sysexit_pending = False, n_restart_how = PTRACE_SYSCALL, n_execfn_addr = 0, n_auxv_fd = -1,
     n_no_new_privs = False\<rparr>"

definition ex_calls :: "(unit, (word_t \<Rightarrow> byte option, unit) Call) Calls" where
  "ex_calls = \<lparr>y_env = ex_env, y_temp = \<lparr>tmp_directory = ''/tmp'', tmp_pid = 1, tmp_mktemp = (\<lambda>w p. (p, w))\<rparr>,
     y_net = ex_host_net, y_netlink_blocked = False, y_page_size = 4096, y_seccomp_event = True,
     y_execve_enter = (\<lambda>s. (Inr 0, s)), y_ptrace_enter = (\<lambda>s. (Inr 0, s)), y_wait_enter = (\<lambda>s. (Inr 0, s)),
     y_enter_start = (\<lambda>s. (Inr 0, s)), y_enter_end = (\<lambda>r s. (Inr 0, s))\<rparr>"

lemma ex_call_sysnum: "get_sysnum (s_regs ex_call) ORIGINAL = Inr PR_statfs"
proof -
  have "peek_reg (s_regs ex_call) ORIGINAL SYSARG_NUM = peek_reg (poke_reg (s_regs ex_argument) SYSARG_NUM 43) CURRENT SYSARG_NUM"
    by (simp add: ex_call_def save_current_regs_def Let_def peek_reg_def REG_def set_bank_def is_32on64_mode_def REG_offset_def)
  also have "\<dots> = 43" by (simp add: peek_poke ex_argument_def ex_regs_def)
  finally have "peek_reg (s_regs ex_call) ORIGINAL SYSARG_NUM = 43" .
  moreover have "get_abi (s_regs ex_call) = ABI_DEFAULT"
    by (simp add: ex_call_def ex_argument_def get_abi_def save_current_regs_def ex_regs_def Let_def set_bank_def)
  ultimately show ?thesis
    by (simp add: get_sysnum_def translate_sysnum_def sysnums_simps array_get_def sysnums_arm64_def
        sysnums_arm64_1_def sysnums_arm64_2_def)
qed

lemma ex_call_registers: "peek ex_call STACK_POINTER = 0x7FFF0000" "peek ex_call SYSARG_1 = 0x1000"
proof -
  have "peek ex_call r = peek_reg (poke_reg (s_regs ex_argument) SYSARG_NUM 43) CURRENT r" for r
    by (simp add: ex_call_def peek_def save_current_regs_def Let_def peek_reg_def REG_def set_bank_def
        is_32on64_mode_def REG_offset_def)
  moreover have "\<not> is_aarch32 (s_regs ex_argument)" by (simp add: ex_argument_def ex_regs_def)
  ultimately show "peek ex_call STACK_POINTER = 0x7FFF0000" "peek ex_call SYSARG_1 = 0x1000"
    using ex_argument_registers by (simp_all add: peek_poke peek_def REG_offset_def reg_offset_def)
qed

lemma ex_call_path: "get_sysarg_path plain_memory SYSARG_1 ex_call = Inr ''/x/./b/../a/''"
  using ex_argument_path ex_argument_registers ex_call_registers
  by (simp add: get_sysarg_path_def) (simp add: ex_call_def)


subsection \<open>The events of a tracee\<close>


definition ex_event :: "bank Event" where
  "ex_event = \<lparr>c_regs = ex_regs False, c_syscalls = None, c_force_final_result = False, c_final_result = 0,
     c_workaround = SYSNUM_WORKAROUND_INACTIVE, c_restart_how = RESTART_DEFAULT, c_status = 0,
     c_cancelled = False, c_relaunched = False, c_kernel = (\<lambda>i. 0), v_exe = True, v_seccomp = DISABLED,
     v_sysexit_pending = False, v_handled_enter = False, v_skip_signal = False,
     v_last_restart_how = PTRACE_SYSCALL, v_suppressed_signal = 0, v_sigstop = SIGSTOP_IGNORED,
     v_pending = False, v_waits = False, v_running = True, v_terminated = False\<rparr>"

definition ex_globals :: Globals where
  "ex_globals = \<lparr>g_checked = False, g_after_enter = False, g_detected = False, g_deliver_sigtrap = True,
     g_event_supported = True, g_last_exit_status = 0\<rparr>"

definition ex_event_handlers :: "bank Event Handlers" where
  "ex_event_handlers = \<lparr>x_syscall_enter = (\<lambda>s. Inr (0, s)), x_syscall_exit = (\<lambda>s. Inr s),
     x_chained_enter = (\<lambda>s. (0, s)), x_chained_exit = (\<lambda>s. s)\<rparr>"

definition ex_event_calls :: "(bank, bank Event) Event_Calls" where
  "ex_event_calls = \<lparr>z_assume_new = False, z_setoptions = (\<lambda>s b. True), z_kernel_supports = True,
     z_geteventmsg = (\<lambda>k. Some 0), z_siginfo = (\<lambda>k. (False, 0)), z_new_child = (\<lambda>f s. s),
     z_handle_seccomp_event = (\<lambda>s. (0, s)), z_restart = (\<lambda>s n. True)\<rparr>"

lemma ex_event_entered:
  assumes "s = ex_event\<lparr>v_running := False, c_restart_how := PTRACE_SYSCALL\<rparr>"
  shows "\<exists>s2. translate_syscall plain_registers ex_event_handlers s = Inr s2 \<and> v_handled_enter s2 = v_handled_enter s
    \<and> v_seccomp s2 = v_seccomp s \<and> v_suppressed_signal s2 = 0 \<and> v_waits s2 = v_waits s"
proof -
  obtain t k where f: "fetch_regs plain_registers (c_regs s) (c_kernel s) = (None, t, k)"
    by (rule plain_numbers.fetch_regs_delayed)
  let ?s1 = "s\<lparr>c_regs := save_current_regs (save_current_regs (t\<lparr>restore_original_regs := False\<rparr>) ORIGINAL) MODIFIED,
    c_kernel := k, c_status := 1\<rparr>"
  have c: "c_status s = 0" "\<not> c_relaunched s" "c_syscalls s = None" "\<not> c_cancelled s" "c_restart_how s = PTRACE_SYSCALL"
    "v_suppressed_signal s = 0" by (simp_all add: assms ex_event_def)
  have "sysenter plain_registers ex_event_handlers (s\<lparr>c_regs := t, c_kernel := k\<rparr>) = Inr (Some 0, ?s1)"
    using c by (simp add: sysenter_def ex_event_handlers_def)
  moreover obtain t' k' where "push_stop plain_registers (c_syscalls ?s1 = None) ?s1 = (None, ?s1\<lparr>c_regs := t', c_kernel := k'\<rparr>)"
    by (rule plain_numbers.push_stop_ok)
  ultimately show ?thesis
    using c f by (simp add: translate_syscall_def IS_IN_SYSENTER_def)
qed

lemma ex_event_handled:
  "\<exists>g' s1. handle_tracee_event plain_registers ex_event_handlers ex_event_calls 0x857F ex_globals
      (ex_event\<lparr>v_running := False\<rparr>) = Inr (0, g', s1) \<and> \<not> v_waits s1"
proof -
  define e where "e = ex_event\<lparr>v_running := False, c_restart_how := PTRACE_SYSCALL\<rparr>"
  have e: "v_exe e" "v_seccomp e = DISABLED" "\<not> v_handled_enter e" "\<not> v_waits e"
    by (simp_all add: ex_event_def e_def)
  obtain s2 where s2: "translate_syscall plain_registers ex_event_handlers e = Inr s2"
      "v_seccomp s2 = DISABLED" "v_suppressed_signal s2 = 0" "\<not> v_waits s2"
    using ex_event_entered[OF e_def] e by auto
  have "\<exists>s3. syscall_stop plain_registers ex_event_handlers g e = Inr (0, s3, False) \<and> \<not> v_waits s3" for g
  proof -
    obtain s3 where s3: "translate_stop plain_registers ex_event_handlers g e = Inr (0, s3)"
      "v_seccomp s3 = DISABLED" "\<not> v_waits s3"
      using s2 by (cases "IS_IN_SYSENTER e") (simp_all add: translate_stop_def)
    have "syscall_stop plain_registers ex_event_handlers g e = Inr (0, s3, False)"
      unfolding syscall_stop_def Let_def using e s3 by simp
    with s3(3) show ?thesis by blast
  qed
  then obtain s3 where s3: "syscall_stop plain_registers ex_event_handlers (checked ex_event_calls ex_globals) e
      = Inr (0, s3, False)" "\<not> v_waits s3" by blast
  have choose: "choose_restart (ex_event\<lparr>v_running := False\<rparr>) = e" by (simp add: choose_restart_def ex_event_def e_def)
  have status: "\<not> WIFEXITED 0x857F" "\<not> WIFSIGNALED 0x857F" "WIFSTOPPED 0x857F" "stop_signal 0x857F = SYSCALL_STOP"
    by code_simp+
  show ?thesis
    unfolding handle_tracee_event_def Let_def choose checked_def[symmetric]
    using s3 status by (simp add: stopped_simps(1))
qed


end
