(* ===== verification/Statx.thy ===== *)
theory Statx
  imports Syscall_Enter Netlink_Props
begin

section \<open>Emulation of statx\<close>

text \<open>
  \<open>handle_statx_syscall\<close> of tracee/statx.c: what \<open>stat(2)\<close> or \<open>lstat(2)\<close> says of the translated path is
  put into the fields of \<open>struct statx\<close> that were asked for, the extensions look at it, and it is
  written to the tracee.  The calls of the host and the notification are arguments; the structure is
  the 256 bytes of linux/stat.h.
\<close>

subsection \<open>The operation\<close>

record Stat =
  st_rdev :: word_t
  st_ino :: word_t
  st_mode :: word_t
  st_nlink :: word_t
  st_uid :: word_t
  st_gid :: word_t
  st_size :: word_t
  st_blksize :: word_t
  st_blocks :: word_t
  st_atim :: "word_t \<times> word_t"
  st_mtim :: "word_t \<times> word_t"
  st_ctim :: "word_t \<times> word_t"

record 'w Host_Stat =
  hs_stat :: "'w \<Rightarrow> string \<Rightarrow> Stat res"
  hs_lstat :: "'w \<Rightarrow> string \<Rightarrow> Stat res"

text \<open>
  The notification \<open>STATX_SYSCALL\<close> gets the host path, the structure and whether it was changed, and
  may change the last two.
\<close>

type_synonym 's statx_hook = "string \<Rightarrow> byte list \<Rightarrow> bool \<Rightarrow> 's \<Rightarrow> (nat res \<times> byte list \<times> bool) \<times> 's"

definition AT_EMPTY_PATH :: word_t where "AT_EMPTY_PATH = 0x1000"
definition STATX_TYPE :: word_t where "STATX_TYPE = 1"
definition STATX_MODE :: word_t where "STATX_MODE = 2"
definition STATX_NLINK :: word_t where "STATX_NLINK = 4"
definition STATX_UID :: word_t where "STATX_UID = 8"
definition STATX_GID :: word_t where "STATX_GID = 0x10"
definition STATX_ATIME :: word_t where "STATX_ATIME = 0x20"
definition STATX_MTIME :: word_t where "STATX_MTIME = 0x40"
definition STATX_CTIME :: word_t where "STATX_CTIME = 0x80"
definition STATX_INO :: word_t where "STATX_INO = 0x100"
definition STATX_SIZE :: word_t where "STATX_SIZE = 0x200"
definition STATX_BLOCKS :: word_t where "STATX_BLOCKS = 0x400"
definition STATX_BTIME :: word_t where "STATX_BTIME = 0x800"

definition STATX_KNOWN :: word_t where
  "STATX_KNOWN = STATX_TYPE OR STATX_MODE OR STATX_NLINK OR STATX_UID OR STATX_GID OR STATX_ATIME
     OR STATX_MTIME OR STATX_CTIME OR STATX_INO OR STATX_SIZE OR STATX_BLOCKS OR STATX_BTIME"

text \<open>\<open>major\<close> and \<open>minor\<close> of sys/sysmacros.h.\<close>

definition dev_major :: "word_t \<Rightarrow> word_t" where
  "dev_major d = (drop_bit 32 d AND 0xFFFFF000) OR (drop_bit 8 d AND 0xFFF)"

definition dev_minor :: "word_t \<Rightarrow> word_t" where
  "dev_minor d = (drop_bit 12 d AND 0xFFFFFF00) OR (d AND 0xFF)"

text \<open>\<open>struct statx_timestamp\<close>: seconds, nanoseconds, padding.\<close>

definition timestamp :: "word_t \<times> word_t \<Rightarrow> byte list" where
  "timestamp t = le 8 (fst t) @ le 4 (snd t) @ le 4 0"

text \<open>The structure, zeroed first: the fields of \<open>asked\<close> only, and the device numbers of a device.\<close>

definition statx_bytes :: "word_t \<Rightarrow> Stat \<Rightarrow> byte list" where
  "statx_bytes asked st =
     (let field = (\<lambda>bits v. if asked AND bits \<noteq> 0 then v else 0);
          time = (\<lambda>bits t. timestamp (if asked AND bits \<noteq> 0 then t else (0, 0)))
      in le 4 (asked AND STATX_KNOWN) @ le 4 (st_blksize st) @ le 8 0
         @ le 4 (field STATX_NLINK (st_nlink st)) @ le 4 (field STATX_UID (st_uid st))
         @ le 4 (field STATX_GID (st_gid st)) @ le 2 (field (STATX_TYPE OR STATX_MODE) (st_mode st)) @ le 2 0
         @ le 8 (field STATX_INO (st_ino st)) @ le 8 (field STATX_SIZE (st_size st))
         @ le 8 (field STATX_BLOCKS (st_blocks st)) @ le 8 0
         @ time STATX_ATIME (st_atim st) @ time STATX_BTIME (st_ctim st)
         @ time STATX_CTIME (st_ctim st) @ time STATX_MTIME (st_mtim st)
         @ le 4 (dev_major (st_rdev st)) @ le 4 (dev_minor (st_rdev st)) @ le 8 0
         @ replicate 112 0)"

definition SIZEOF_STATX :: nat where "SIZEOF_STATX = 256"

text \<open>The path: that of a descriptor for an empty string, otherwise the translation of the argument.\<close>

definition statx_path ::
  "'w Env \<Rightarrow> word_t \<Rightarrow> word_t \<Rightarrow> string \<Rightarrow> nat \<Rightarrow> ('k, 'w, 'z) Sys_scheme
   \<Rightarrow> (string \<times> bool) res \<times> ('k, 'w, 'z) Sys_scheme" where
  "statx_path E flags dirfd guest_path status s =
     (if status = 0 then (Err EFAULT, s)
      else if status = 1 then
        (if flags AND AT_EMPTY_PATH = 0 then (Err ENOENT, s)
         else
           (case readlink_proc_pid_fd E (s_world s) (t_pid (s_tracee s)) (int_of_word dirfd) of
              Inl e \<Rightarrow> (Inl e, s)
            | Inr host_path \<Rightarrow> (Inr (host_path, True), s)))
      else if status \<ge> PATH_MAX then (Err ENAMETOOLONG, s)
      else
        (case translate_path E (s_tracee s) (s_world s) (int_of_word dirfd) guest_path
                (flags AND AT_SYMLINK_NOFOLLOW = 0) of
           (Inl e, t, w) \<Rightarrow> (Inl e, s\<lparr>s_tracee := t, s_world := w\<rparr>)
         | (Inr host_path, t, w) \<Rightarrow> (Inr (host_path, False), s\<lparr>s_tracee := t, s_world := w\<rparr>)))"

definition statx_status ::
  "'w Host_Stat \<Rightarrow> bool \<Rightarrow> word_t \<Rightarrow> word_t \<Rightarrow> string \<Rightarrow> ('k, 'w, 'z) Sys_scheme \<Rightarrow> Stat res" where
  "statx_status H do_fstat flags dirfd host_path s =
     (if do_fstat
      then hs_stat H (s_world s)
             (take 31 (''/proc/'' @ string_of_int (t_pid (s_tracee s)) @ ''/fd/'' @ string_of_int (int_of_word dirfd)))
      else if flags AND AT_SYMLINK_NOFOLLOW \<noteq> 0 then hs_lstat H (s_world s) host_path
      else hs_stat H (s_world s) host_path)"

text \<open>The end: the extensions are told, and the structure is written if someone changed it.\<close>

definition statx_return ::
  "'k Ptrace_Mem \<Rightarrow> ('k, 'w, 'z) Sys_scheme statx_hook \<Rightarrow> string \<Rightarrow> byte list \<Rightarrow> bool
   \<Rightarrow> ('k, 'w, 'z) Sys_scheme \<Rightarrow> unit res \<times> ('k, 'w, 'z) Sys_scheme" where
  "statx_return P hook host_path statx_buf updated_stats s =
     (case hook host_path statx_buf updated_stats s of
        ((Inl e, _), s) \<Rightarrow> (Inl e, s)
      | ((Inr _, statx_buf, updated_stats), s) \<Rightarrow>
          (if updated_stats then
             (case write_data P (s_mem s) (peek s SYSARG_5) statx_buf of
                (r, k) \<Rightarrow> (r, s\<lparr>s_mem := k\<rparr>))
           else (Inr (), s)))"

definition handle_statx_syscall ::
  "'k Ptrace_Mem \<Rightarrow> 'w Env \<Rightarrow> 'w Host_Stat \<Rightarrow> ('k, 'w, 'z) Sys_scheme statx_hook \<Rightarrow> bool
   \<Rightarrow> ('k, 'w, 'z) Sys_scheme \<Rightarrow> unit res \<times> ('k, 'w, 'z) Sys_scheme" where
  "handle_statx_syscall P E H hook from_sigsys s =
     (let version = (if from_sigsys then CURRENT else ORIGINAL);
          arg = peek_reg (s_regs s) version;
          flags = arg SYSARG_3; asked = arg SYSARG_4; dirfd = arg SYSARG_1
      in case read_string P (s_mem s) (arg SYSARG_2) PATH_MAX of
           Inl e \<Rightarrow> (Inl e, s)
         | Inr (bs, status) \<Rightarrow>
             (case statx_path E flags dirfd (string_of bs) status s of
                (Inl e, s) \<Rightarrow> (Inl e, s)
              | (Inr (host_path, do_fstat), s) \<Rightarrow>
                  (if from_sigsys \<or> peek s SYSARG_RESULT \<noteq> 0 then
                     (case statx_status H do_fstat flags dirfd host_path s of
                        Inl e \<Rightarrow> (Inl e, s)
                      | Inr st \<Rightarrow> statx_return P hook host_path (statx_bytes asked st) True s)
                   else
                     (case read_data P (s_mem s) (peek_reg (s_regs s) ORIGINAL SYSARG_5) SIZEOF_STATX of
                        Inl e \<Rightarrow> (Inl e, s)
                      | Inr bs \<Rightarrow> statx_return P hook host_path bs False s))))"

subsection \<open>The structure\<close>

lemma length_timestamp [simp]: "length (timestamp t) = 16"
  by (simp add: timestamp_def)

lemma length_statx_bytes [simp]: "length (statx_bytes asked st) = SIZEOF_STATX"
  by (simp add: statx_bytes_def SIZEOF_STATX_def Let_def)

text \<open>A field of a structure: \<open>n\<close> bytes at an offset.\<close>

definition field_at :: "nat \<Rightarrow> nat \<Rightarrow> byte list \<Rightarrow> byte list" where
  "field_at off n bs = take n (drop off bs)"

lemma field_at_append [simp]:
  "length as \<le> off \<Longrightarrow> field_at off n (as @ bs) = field_at (off - length as) n bs"
  "length as = n \<Longrightarrow> field_at 0 n (as @ bs) = as"
  by (simp_all add: field_at_def)

text \<open>What the tracee reads of a structure: each field that it asked for, as \<open>stat(2)\<close> gives it.\<close>

definition statx_shows :: "word_t \<Rightarrow> Stat \<Rightarrow> byte list \<Rightarrow> bool" where
  "statx_shows asked st bs \<longleftrightarrow>
     field_at 0 4 bs = le 4 (asked AND STATX_KNOWN)
   \<and> (asked AND (STATX_TYPE OR STATX_MODE) \<noteq> 0 \<longrightarrow> field_at 28 2 bs = le 2 (st_mode st))
   \<and> (asked AND STATX_NLINK \<noteq> 0 \<longrightarrow> field_at 16 4 bs = le 4 (st_nlink st))
   \<and> (asked AND STATX_UID \<noteq> 0 \<longrightarrow> field_at 20 4 bs = le 4 (st_uid st))
   \<and> (asked AND STATX_GID \<noteq> 0 \<longrightarrow> field_at 24 4 bs = le 4 (st_gid st))
   \<and> (asked AND STATX_INO \<noteq> 0 \<longrightarrow> field_at 32 8 bs = le 8 (st_ino st))
   \<and> (asked AND STATX_SIZE \<noteq> 0 \<longrightarrow> field_at 40 8 bs = le 8 (st_size st))
   \<and> (asked AND STATX_BLOCKS \<noteq> 0 \<longrightarrow> field_at 48 8 bs = le 8 (st_blocks st))
   \<and> (asked AND STATX_ATIME \<noteq> 0 \<longrightarrow> field_at 64 16 bs = timestamp (st_atim st))
   \<and> (asked AND STATX_CTIME \<noteq> 0 \<longrightarrow> field_at 96 16 bs = timestamp (st_ctim st))
   \<and> (asked AND STATX_MTIME \<noteq> 0 \<longrightarrow> field_at 112 16 bs = timestamp (st_mtim st))"

lemma statx_bytes_shows: "statx_shows asked st (statx_bytes asked st)"
  by (simp add: statx_shows_def statx_bytes_def Let_def)

lemma le_zero: "n \<le> 8 \<Longrightarrow> le n 0 = replicate n 0"
  by (simp add: le_def list_eq_iff_nth_eq byte_at_def)

text \<open>The device that contains the file is never filled in.\<close>

lemma statx_bytes_dev: "field_at 136 8 (statx_bytes asked st) = replicate 8 0"
  by (simp add: statx_bytes_def Let_def le_zero)

subsection \<open>Success\<close>

definition silent :: "'s statx_hook \<Rightarrow> bool" where
  "silent hook \<longleftrightarrow> (\<forall>p bs u s. hook p bs u s = ((Inr 0, bs, u), s))"

lemma statx_path_keeps:
  assumes "statx_path E flags dirfd g n s = (r, s1)"
  shows "s_regs s1 = s_regs s" "s_mem s1 = s_mem s"
  using assms by (auto simp: statx_path_def split: if_split_asm sum.splits prod.splits)

lemma statx_path_translated:
  assumes "statx_path E flags dirfd g n s = (Inr (host_path, False), s1)"
  shows "translate_path E (s_tracee s) (s_world s) (int_of_word dirfd) g (flags AND AT_SYMLINK_NOFOLLOW = 0)
    = (Inr host_path, s_tracee s1, s_world s1)"
  using assms by (auto simp: statx_path_def split: if_split_asm sum.splits prod.splits)

context ptrace_memory
begin

lemma statx_return_writes:
  assumes "silent hook" and "statx_return P hook host_path bs True s = (Inr (), s')" and "length bs = SIZEOF_STATX"
  shows "read_data P (s_mem s') (peek s SYSARG_5) SIZEOF_STATX = Inr bs" and "s_world s' = s_world s"
    and "s_tracee s' = s_tracee s" and "s_regs s' = s_regs s"
proof -
  obtain k where k: "write_data P (s_mem s) (peek s SYSARG_5) bs = (Inr (), k)" "s' = s\<lparr>s_mem := k\<rparr>"
    using assms(1,2) by (auto simp: statx_return_def silent_def split: prod.splits)
  have small: "length bs < 2 ^ 63" using assms(3) by (simp add: SIZEOF_STATX_def)
  from write_read_data[OF write_data_mapped[OF k(1) small] small] k assms(3)
  show "read_data P (s_mem s') (peek s SYSARG_5) SIZEOF_STATX = Inr bs" by auto
  show "s_world s' = s_world s" "s_tracee s' = s_tracee s" "s_regs s' = s_regs s" using k(2) by simp_all
qed

lemma emulated_statx:
  assumes "silent hook" and "handle_statx_syscall P E H hook True s = (Inr (), s')"
    and "read_string P (s_mem s) (peek s SYSARG_2) PATH_MAX = Inr (bs, n)" and "n \<noteq> 1"
  shows "\<exists>host_path st out.
    translate_path E (s_tracee s) (s_world s) (int_arg s SYSARG_1) (string_of bs)
        (peek s SYSARG_3 AND AT_SYMLINK_NOFOLLOW = 0) = (Inr host_path, s_tracee s', s_world s')
    \<and> (if peek s SYSARG_3 AND AT_SYMLINK_NOFOLLOW = 0 then hs_stat H else hs_lstat H) (s_world s') host_path = Inr st
    \<and> read_data P (s_mem s') (peek s SYSARG_5) SIZEOF_STATX = Inr out \<and> statx_shows (peek s SYSARG_4) st out"
proof -
  let ?flags = "peek s SYSARG_3"
  obtain host_path do_fstat s1 where p:
    "statx_path E ?flags (peek s SYSARG_1) (string_of bs) n s = (Inr (host_path, do_fstat), s1)"
    using assms(2,3) by (auto simp: handle_statx_syscall_def peek_def Let_def split: prod.splits sum.splits)
  have d: "do_fstat = False"
    using p assms(4) by (auto simp: statx_path_def split: if_split_asm sum.splits prod.splits)
  obtain st where st: "statx_status H do_fstat ?flags (peek s SYSARG_1) host_path s1 = Inr st"
    "statx_return P hook host_path (statx_bytes (peek s SYSARG_4) st) True s1 = (Inr (), s')"
    using assms(2,3) p by (auto simp: handle_statx_syscall_def peek_def Let_def split: sum.splits)
  note w = statx_return_writes[OF assms(1) st(2) length_statx_bytes]
  have "peek s1 SYSARG_5 = peek s SYSARG_5" using statx_path_keeps[OF p] by (simp add: peek_def)
  moreover note statx_path_translated[OF p[unfolded d]]
  moreover have "(if ?flags AND AT_SYMLINK_NOFOLLOW = 0 then hs_stat H else hs_lstat H) (s_world s') host_path = Inr st"
    using st(1) w(2) by (simp add: statx_status_def d split: if_split_asm)
  ultimately show ?thesis using w statx_bytes_shows by (auto simp: int_arg_def)
qed

end

text \<open>A call that the kernel served is only looked at, unless an extension changes the structure.\<close>

lemma served_statx:
  assumes "silent hook" and "handle_statx_syscall P E H hook False s = (Inr (), s')"
    and "peek s SYSARG_RESULT = 0"
  shows "s_mem s' = s_mem s \<and> s_regs s' = s_regs s"
proof -
  have ret: "statx_return P hook h bs False s1 = (Inr (), s1)" for h bs and s1 :: "('a, 'b, 'c) Sys_scheme"
    using assms(1) by (simp add: statx_return_def silent_def)
  obtain bs n where r: "read_string P (s_mem s) (peek_reg (s_regs s) ORIGINAL SYSARG_2) PATH_MAX = Inr (bs, n)"
    using assms(2) by (auto simp: handle_statx_syscall_def Let_def split: sum.splits)
  obtain x s1 where p: "statx_path E (peek_reg (s_regs s) ORIGINAL SYSARG_3) (peek_reg (s_regs s) ORIGINAL SYSARG_1)
      (string_of bs) n s = (Inr x, s1)"
    using assms(2) r by (auto simp: handle_statx_syscall_def Let_def split: sum.splits prod.splits)
  note keeps = statx_path_keeps[OF p]
  have "peek s1 SYSARG_RESULT = 0" using assms(3) keeps by (simp add: peek_def)
  then have "s' = s1"
    using assms(2) r p ret by (auto simp: handle_statx_syscall_def Let_def split: sum.splits prod.splits)
  then show ?thesis using keeps by simp
qed

end
