(* ===== verification/Sigsys.thy ===== *)
theory Sigsys
  imports Statx
begin

section \<open>System calls refused by the policy of the system\<close>

text \<open>
  tracee/seccomp.c: a call that a seccomp policy refuses raises SIGSYS; it is replaced by another one
  that is executed again, or emulated.  The calls that are only renamed, with their arguments moved,
  are the table \<open>rewriting\<close>.  The state adds \<open>tracee->status\<close> and \<open>tracee->seen_execve\<close>; the kernel,
  whose registers are pushed, is the state of \<open>Ptrace_Regs\<close> in \<open>s_mem\<close>.
\<close>

subsection \<open>The state\<close>

record ('k, 'w) Xcall = "('k, 'w) Call" +
  x_status :: int
  x_seen_execve :: bool

text \<open>\<open>struct statfs64\<close> as the host fills it.\<close>

record Statfs =
  f_type :: word_t
  f_bsize :: word_t
  f_blocks :: word_t
  f_bfree :: word_t
  f_bavail :: word_t
  f_files :: word_t
  f_ffree :: word_t
  f_fsid :: word_t
  f_namelen :: word_t
  f_frsize :: word_t
  f_flags :: word_t

text \<open>
  What the handlers of this file and of syscall/exit.c ask the host and the extensions.
  \<open>z_unfinished\<close> is what the buffer of \<open>statfs(2)\<close> holds where the translation of its path failed.
\<close>

record ('w, 's) Exits =
  z_env :: "'w Env"
  z_stat :: "'w Host_Stat"
  z_statx :: "'s statx_hook"
  z_sigsys_occ :: "'s \<Rightarrow> nat res \<times> 's"
  z_statfs :: "'w \<Rightarrow> string \<Rightarrow> Statfs res"
  z_unfinished :: string
  z_time :: "'w \<Rightarrow> word_t"
  z_getpgid :: "'w \<Rightarrow> int \<Rightarrow> int"
  z_getresuid :: "'w \<Rightarrow> (word_t \<times> word_t \<times> word_t) option"
  z_getresgid :: "'w \<Rightarrow> (word_t \<times> word_t \<times> word_t) option"

definition fail_code :: "errno \<Rightarrow> int" where "fail_code e = - errno_code e"

definition AT_FDCWD_word :: word_t where "AT_FDCWD_word = of_int AT_FDCWD"
definition AT_REMOVEDIR :: word_t where "AT_REMOVEDIR = 0x200"
definition SIGSYS :: nat where "SIGSYS = 31"
definition TMPFS_MAGIC :: word_t where "TMPFS_MAGIC = 0x01021994"

subsection \<open>Restart and result\<close>

definition push_registers ::
  "'k Ptrace_Regs \<Rightarrow> ('k, 'w, 'z) Sys_scheme \<Rightarrow> ('k, 'w, 'z) Sys_scheme" where
  "push_registers R s =
     (case push_specific_regs R (s_regs s) False (s_mem s) of (_, t, k) \<Rightarrow> s\<lparr>s_regs := t, s_mem := k\<rparr>)"

definition restart_syscall_after_seccomp ::
  "'k Ptrace_Regs \<Rightarrow> ('k, 'w, 'z) Call_scheme \<Rightarrow> ('k, 'w, 'z) Call_scheme" where
  "restart_syscall_after_seccomp R s =
     (let s = s\<lparr>s_regs := (s_regs s)\<lparr>restore_original_regs_after_seccomp_event := True\<rparr>,
               n_restart_how := PTRACE_SYSCALL\<rparr>
      in push_registers R (poke INSTR_POINTER (peek s INSTR_POINTER - get_systrap_size (s_regs s)) s))"

definition set_result_after_seccomp ::
  "'k Ptrace_Regs \<Rightarrow> int \<Rightarrow> ('k, 'w, 'z) Sys_scheme \<Rightarrow> ('k, 'w, 'z) Sys_scheme" where
  "set_result_after_seccomp R result s = push_registers R (poke SYSARG_RESULT (of_int result) s)"

subsection \<open>The calls that are renamed\<close>

text \<open>Where the new value of a register comes from; the assignments are in the order of the source.\<close>

datatype Source = Copy Reg | Const word_t

definition source_value :: "('k, 'w, 'z) Sys_scheme \<Rightarrow> Source \<Rightarrow> word_t" where
  "source_value s src = (case src of Copy r \<Rightarrow> peek s r | Const v \<Rightarrow> v)"

fun poke_args :: "(Reg \<times> Source) list \<Rightarrow> ('k, 'w, 'z) Sys_scheme \<Rightarrow> ('k, 'w, 'z) Sys_scheme" where
  "poke_args [] s = s"
| "poke_args ((r, src) # rest) s = poke_args rest (poke r (source_value s src) s)"

text \<open>The path goes from the first to the second argument, after the directory of the process.\<close>

definition to_at :: "(Reg \<times> Source) list" where
  "to_at = [(SYSARG_2, Copy SYSARG_1), (SYSARG_1, Const AT_FDCWD_word)]"

definition rewriting :: "nat \<Rightarrow> (nat \<times> (Reg \<times> Source) list) option" where
  "rewriting sysnum =
     (if sysnum = PR_open then
        Some (PR_openat, [(SYSARG_4, Copy SYSARG_3), (SYSARG_3, Copy SYSARG_2)] @ to_at)
      else if sysnum = PR_accept then Some (PR_accept4, [(SYSARG_4, Const 0)])
      else if sysnum = PR_symlink then
        Some (PR_symlinkat, [(SYSARG_3, Copy SYSARG_2), (SYSARG_2, Const AT_FDCWD_word)])
      else if sysnum = PR_link then
        Some (PR_linkat, [(SYSARG_4, Copy SYSARG_2)] @ to_at @ [(SYSARG_3, Const AT_FDCWD_word), (SYSARG_5, Const 0)])
      else if sysnum = PR_chmod then
        Some (PR_fchmodat, [(SYSARG_3, Copy SYSARG_2)] @ to_at @ [(SYSARG_4, Const 0)])
      else if sysnum = PR_chown \<or> sysnum = PR_lchown \<or> sysnum = PR_chown32 \<or> sysnum = PR_lchown32 then
        Some (PR_fchownat, [(SYSARG_4, Copy SYSARG_3), (SYSARG_3, Copy SYSARG_2)] @ to_at
          @ [(SYSARG_5, Const (if sysnum = PR_lchown \<or> sysnum = PR_lchown32 then AT_SYMLINK_NOFOLLOW else 0))])
      else if sysnum = PR_unlink \<or> sysnum = PR_rmdir then
        Some (PR_unlinkat, to_at @ [(SYSARG_3, Const (if sysnum = PR_rmdir then AT_REMOVEDIR else 0))])
      else if sysnum = PR_send then Some (PR_sendto, [(SYSARG_5, Const 0), (SYSARG_6, Const 0)])
      else if sysnum = PR_recv then Some (PR_recvfrom, [(SYSARG_5, Const 0), (SYSARG_6, Const 0)])
      else if sysnum = PR_waitpid then Some (PR_wait4, [(SYSARG_4, Const 0)])
      else if sysnum = PR_stat \<or> sysnum = PR_lstat then
        Some (PR_newfstatat,
          [(SYSARG_4, Const (if sysnum = PR_lstat then AT_SYMLINK_NOFOLLOW else 0)), (SYSARG_3, Copy SYSARG_2)] @ to_at)
      else if sysnum = PR_pipe then Some (PR_pipe2, [(SYSARG_2, Const 0)])
      else if sysnum = PR_dup2 then Some (PR_dup3, [(SYSARG_3, Const 0)])
      else if sysnum = PR_access then
        Some (PR_faccessat, [(SYSARG_4, Const 0), (SYSARG_3, Copy SYSARG_2)] @ to_at)
      else if sysnum = PR_mkdir then Some (PR_mkdirat, [(SYSARG_3, Copy SYSARG_2)] @ to_at)
      else if sysnum = PR_rename then
        Some (PR_renameat, [(SYSARG_4, Copy SYSARG_2), (SYSARG_3, Const AT_FDCWD_word)] @ to_at)
      else if sysnum = PR_epoll_wait then Some (PR_epoll_pwait, [(SYSARG_5, Const 0), (SYSARG_6, Const 0)])
      else None)"

definition restart_as ::
  "'k Ptrace_Regs \<Rightarrow> nat \<Rightarrow> (Reg \<times> Source) list \<Rightarrow> ('k, 'w, 'z) Call_scheme
   \<Rightarrow> nat res \<times> ('k, 'w, 'z) Call_scheme" where
  "restart_as R sysnum args s =
     (case set_call sysnum s of
        Inl e \<Rightarrow> (Inl e, s)
      | Inr s \<Rightarrow> (Inr 0, restart_syscall_after_seccomp R (poke_args args s)))"

subsection \<open>The calls that need more\<close>

definition with_result ::
  "'k Ptrace_Regs \<Rightarrow> int \<Rightarrow> ('k, 'w, 'z) Sys_scheme \<Rightarrow> nat res \<times> ('k, 'w, 'z) Sys_scheme" where
  "with_result R result s = (Inr 0, set_result_after_seccomp R result s)"

text \<open>A failure of a helper becomes the result of the call.\<close>

definition with_failure ::
  "'k Ptrace_Regs \<Rightarrow> failure \<Rightarrow> ('k, 'w, 'z) Sys_scheme \<Rightarrow> nat res \<times> ('k, 'w, 'z) Sys_scheme" where
  "with_failure R f s = (case f of Undefined \<Rightarrow> (Inl Undefined, s) | Errno e \<Rightarrow> with_result R (fail_code e) s)"

definition seccomp_openat2 ::
  "'k Ptrace_Mem \<Rightarrow> 'k Ptrace_Regs \<Rightarrow> ('k, 'w, 'z) Call_scheme \<Rightarrow> nat res \<times> ('k, 'w, 'z) Call_scheme" where
  "seccomp_openat2 P R s =
     (let how_size = min (unat (peek s SYSARG_4)) 24
      in case read_data P (s_mem s) (peek s SYSARG_3) how_size of
           Inl e \<Rightarrow> with_failure R e s
         | Inr bs \<Rightarrow>
             (let how = bs @ replicate (24 - how_size) 0
              in restart_as R PR_openat
                   [(SYSARG_3, Const (load_word (take 8 how))), (SYSARG_4, Const (load_word (take 8 (drop 8 how))))] s))"

definition emulated_mount ::
  "'k Ptrace_Regs \<Rightarrow> ('k, 'w, 'z) Sys_scheme res \<Rightarrow> ('k, 'w, 'z) Sys_scheme
   \<Rightarrow> nat res \<times> ('k, 'w, 'z) Sys_scheme" where
  "emulated_mount R r s = (case r of Inl e \<Rightarrow> (Inl e, s) | Inr s \<Rightarrow> with_result R 0 s)"

text \<open>\<open>struct compat_statfs\<close>: eleven 32-bit fields, an identifier of 64 bits and four spare words.\<close>

definition compat_statfs :: "Statfs \<Rightarrow> byte list" where
  "compat_statfs f =
     le 4 (f_type f) @ le 4 (f_bsize f) @ le 4 (f_blocks f) @ le 4 (f_bfree f) @ le 4 (f_bavail f)
     @ le 4 (f_files f) @ le 4 (f_ffree f) @ le 8 (f_fsid f) @ le 4 (f_namelen f) @ le 4 (f_frsize f)
     @ le 4 (f_flags f) @ replicate 16 0"

definition statfs_overflows :: "Statfs \<Rightarrow> bool" where
  "statfs_overflows f \<longleftrightarrow>
     (f_blocks f OR f_bfree f OR f_bavail f OR f_bsize f OR f_frsize f OR f_files f OR f_ffree f)
       AND 0xFFFFFFFF00000000 \<noteq> 0"

text \<open>The error of the first translation is not looked at.\<close>

definition statfs_path ::
  "('w, 's, 'y) Exits_scheme \<Rightarrow> string \<Rightarrow> ('k, 'w, 'z) Sys_scheme \<Rightarrow> string \<times> ('k, 'w, 'z) Sys_scheme" where
  "statfs_path Z original s =
     (case translate_path (z_env Z) (s_tracee s) (s_world s) AT_FDCWD original True of
        (r, t, w) \<Rightarrow> (case r of Inl e \<Rightarrow> z_unfinished Z | Inr path \<Rightarrow> path, s\<lparr>s_tracee := t, s_world := w\<rparr>))"

definition is_in_devshm :: "string res \<Rightarrow> string \<Rightarrow> bool" where
  "is_in_devshm devshm path =
     (case devshm of
        Inl e \<Rightarrow> False
      | Inr devshm_path \<Rightarrow> compare_paths devshm_path path \<in> {PATHS_ARE_EQUAL, PATH1_IS_PREFIX})"

definition seccomp_statfs ::
  "'k Ptrace_Mem \<Rightarrow> 'k Ptrace_Regs \<Rightarrow> ('w, ('k, 'w, 'z) Call_scheme, 'y) Exits_scheme \<Rightarrow> ('k, 'w, 'z) Call_scheme
   \<Rightarrow> nat res \<times> ('k, 'w, 'z) Call_scheme" where
  "seccomp_statfs P R Z s =
     (case read_string P (s_mem s) (peek s SYSARG_1) PATH_MAX of
        Inl e \<Rightarrow> with_failure R e s
      | Inr (bs, n) \<Rightarrow>
          (if n \<ge> PATH_MAX then with_failure R (Errno ENAMETOOLONG) s
           else
             (case statfs_path Z (string_of bs) s of
                (path, s) \<Rightarrow>
                  (case z_statfs Z (s_world s) path of
                     Inl e \<Rightarrow> with_failure R e s
                   | Inr f \<Rightarrow>
                       (case translate_path (z_env Z) (s_tracee s) (s_world s) AT_FDCWD ''/dev/shm'' True of
                          (devshm, t, w) \<Rightarrow>
                            (let s = s\<lparr>s_tracee := t, s_world := w\<rparr>;
                                 f = (if is_in_devshm devshm path then f\<lparr>f_type := TMPFS_MAGIC\<rparr> else f)
                             in if statfs_overflows f then with_failure R (Errno (EOTHER 75)) s
                                else
                                  with_result R 0
                                    (s\<lparr>s_mem := snd (write_data P (s_mem s) (peek s SYSARG_2) (compat_statfs f))\<rparr>)))))))"

text \<open>Two \<open>struct timespec\<close> replace what \<open>utimes\<close> and \<open>utime\<close> give.\<close>

definition timespec :: "word_t \<Rightarrow> word_t \<Rightarrow> byte list" where
  "timespec sec nsec = le 8 sec @ le 8 nsec"

definition word_of :: "byte list \<Rightarrow> nat \<Rightarrow> word_t" where
  "word_of bs i = load_word (take 8 (drop (8 * i) bs))"

definition utimes_timespecs :: "byte list \<Rightarrow> byte list" where
  "utimes_timespecs bs =
     timespec (word_of bs 0) (word_of bs 1 * 1000) @ timespec (word_of bs 2) (word_of bs 3 * 1000)"

definition utime_timespecs :: "byte list \<Rightarrow> byte list" where
  "utime_timespecs bs = timespec (word_of bs 0) 0 @ timespec (word_of bs 1) 0"

definition utimensat_args :: "(Reg \<times> Source) list" where
  "utimensat_args = [(SYSARG_4, Const 0), (SYSARG_3, Copy SYSARG_2)] @ to_at"

definition seccomp_utimes ::
  "'k Ptrace_Mem \<Rightarrow> 'k Ptrace_Regs \<Rightarrow> nat \<Rightarrow> (byte list \<Rightarrow> byte list) \<Rightarrow> ('k, 'w, 'z) Call_scheme
   \<Rightarrow> nat res \<times> ('k, 'w, 'z) Call_scheme" where
  "seccomp_utimes P R size_times convert s =
     (case set_call PR_utimensat s of
        Inl e \<Rightarrow> (Inl e, s)
      | Inr s \<Rightarrow>
          (case (if peek s SYSARG_2 = 0 then (Inr (), s)
                 else
                   (case read_data P (s_mem s) (peek s SYSARG_2) size_times of
                      Inl e \<Rightarrow> (Inl e, s)
                    | Inr given \<Rightarrow> set_sysarg_data P (convert given) SYSARG_2 s)) of
             (Inl e, s) \<Rightarrow> with_failure R e s
           | (Inr _, s) \<Rightarrow> (Inr 0, restart_syscall_after_seccomp R (poke_args utimensat_args s))))"

text \<open>A \<open>struct timespec\<close> below the stack pointer; the address is not checked before it is written.\<close>

definition push_timespec ::
  "'k Ptrace_Mem \<Rightarrow> byte list \<Rightarrow> ('k, 'w, 'z) Sys_scheme \<Rightarrow> word_t res \<times> ('k, 'w, 'z) Sys_scheme" where
  "push_timespec P ts s =
     (case alloc_mem (s_regs s) (int (length ts)) of
        (timespec_arg, t) \<Rightarrow>
          (case write_data P (s_mem s) timespec_arg ts of
             (Inl e, k) \<Rightarrow> (Err EFAULT, s\<lparr>s_regs := t, s_mem := k\<rparr>)
           | (Inr _, k) \<Rightarrow> (Inr timespec_arg, s\<lparr>s_regs := t, s_mem := k\<rparr>)))"

definition seccomp_select ::
  "'k Ptrace_Mem \<Rightarrow> 'k Ptrace_Regs \<Rightarrow> ('k, 'w, 'z) Call_scheme \<Rightarrow> nat res \<times> ('k, 'w, 'z) Call_scheme" where
  "seccomp_select P R s =
     (let timeval_arg = peek s SYSARG_5
      in case (if timeval_arg = 0 then (Inr 0, s)
               else
                 (case read_data P (s_mem s) timeval_arg 16 of
                    Inl e \<Rightarrow> (Err EFAULT, s)
                  | Inr tv \<Rightarrow>
                      (let usec = word_of tv 1
                       in if sint usec \<ge> 1000000 \<or> sint usec < 0 then (Err EINVAL, s)
                          else push_timespec P (timespec (word_of tv 0) (usec * 1000)) s))) of
           (Inl e, s) \<Rightarrow> with_failure R e s
         | (Inr timespec_arg, s) \<Rightarrow>
             restart_as R PR_pselect6 [(SYSARG_5, Const timespec_arg), (SYSARG_6, Const 0)] s)"

definition poll_timespec :: "int \<Rightarrow> byte list" where
  "poll_timespec ms = timespec (of_int (ms div 1000)) (of_int (ms mod 1000 * 1000000))"

definition seccomp_poll ::
  "'k Ptrace_Mem \<Rightarrow> 'k Ptrace_Regs \<Rightarrow> ('k, 'w, 'z) Call_scheme \<Rightarrow> nat res \<times> ('k, 'w, 'z) Call_scheme" where
  "seccomp_poll P R s =
     (let ms_arg = int_arg s SYSARG_3
      in case (if ms_arg \<ge> 0 then push_timespec P (poll_timespec ms_arg) s else (Inr 0, s)) of
           (Inl e, s) \<Rightarrow> with_failure R e s
         | (Inr timespec_arg, s) \<Rightarrow>
             restart_as R PR_ppoll [(SYSARG_3, Const timespec_arg), (SYSARG_4, Const 0), (SYSARG_5, Const 0)] s)"

definition seccomp_time ::
  "'k Ptrace_Mem \<Rightarrow> 'k Ptrace_Regs \<Rightarrow> ('w, ('k, 'w, 'z) Call_scheme, 'y) Exits_scheme \<Rightarrow> ('k, 'w, 'z) Call_scheme
   \<Rightarrow> nat res \<times> ('k, 'w, 'z) Call_scheme" where
  "seccomp_time P R Z s =
     (let t = z_time Z (s_world s); addr = peek s SYSARG_1
      in case (if addr = 0 then (None, s_mem s) else poke_word P (s_regs s) (s_mem s) addr t) of
           (None, k) \<Rightarrow> with_result R (sint t) (s\<lparr>s_mem := k\<rparr>)
         | (Some e, k) \<Rightarrow> with_failure R (Errno EFAULT) (s\<lparr>s_mem := k\<rparr>))"

definition seccomp_statx ::
  "'k Ptrace_Mem \<Rightarrow> 'k Ptrace_Regs \<Rightarrow> ('w, ('k, 'w, 'z) Call_scheme, 'y) Exits_scheme \<Rightarrow> ('k, 'w, 'z) Call_scheme
   \<Rightarrow> nat res \<times> ('k, 'w, 'z) Call_scheme" where
  "seccomp_statx P R Z s =
     (case handle_statx_syscall P (z_env Z) (z_stat Z) (z_statx Z) True s of
        (Inl e, s) \<Rightarrow> with_failure R e s
      | (Inr _, s) \<Rightarrow> with_result R 0 s)"

definition seccomp_ftruncate ::
  "'k Ptrace_Regs \<Rightarrow> ('k, 'w, 'z) Call_scheme \<Rightarrow> nat res \<times> ('k, 'w, 'z) Call_scheme" where
  "seccomp_ftruncate R s =
     (case detranslate_sysnum (get_abi (s_regs s)) PR_ftruncate64 of
        Inl e \<Rightarrow> (Inl e, s)
      | Inr n \<Rightarrow>
          (if n = SYSCALL_AVOIDER then with_failure R (Errno ENOSYS) s
           else restart_as R PR_ftruncate64
                  [(SYSARG_3, Copy SYSARG_2), (SYSARG_2, Const 0), (SYSARG_4, Const 0)] s))"

text \<open>The identifiers of PRoot itself decide: those asked for must be the ones it has, or -1.\<close>

definition xid_ok :: "word_t \<Rightarrow> word_t \<Rightarrow> bool" where
  "xid_ok asked current \<longleftrightarrow>
     (ucast asked :: 32 word) = ucast current \<or> (ucast asked :: 32 word) = -1"

definition seccomp_setresxid ::
  "'k Ptrace_Regs \<Rightarrow> (word_t \<times> word_t \<times> word_t) option \<Rightarrow> ('k, 'w, 'z) Call_scheme
   \<Rightarrow> nat res \<times> ('k, 'w, 'z) Call_scheme" where
  "seccomp_setresxid R current s =
     (case current of
        None \<Rightarrow> with_failure R (Errno EPERM) s
      | Some (r, e, sv) \<Rightarrow>
          (if xid_ok (peek s SYSARG_1) r \<and> xid_ok (peek s SYSARG_2) e \<and> xid_ok (peek s SYSARG_3) sv
           then with_result R 0 s else with_failure R (Errno EPERM) s))"

subsection \<open>The switch\<close>

definition seccomp_switch ::
  "'k Ptrace_Mem \<Rightarrow> 'k Ptrace_Regs \<Rightarrow> ('w, ('k, 'w, 'z) Call_scheme, 'y) Exits_scheme \<Rightarrow> nat \<Rightarrow> ('k, 'w, 'z) Call_scheme
   \<Rightarrow> nat res \<times> ('k, 'w, 'z) Call_scheme" where
  "seccomp_switch P R Z sysnum s =
     (case rewriting sysnum of
        Some (target, args) \<Rightarrow> restart_as R target args s
      | None \<Rightarrow>
          (if sysnum = PR_openat2 then seccomp_openat2 P R s
           else if sysnum = PR_setgroups \<or> sysnum = PR_setgroups32 \<or> sysnum = PR_unshare \<or> sysnum = PR_setns
           then with_result R 0 s
           else if sysnum = PR_mount then emulated_mount R (apply_emulated_mount P (z_env Z) s) s
           else if sysnum = PR_pivot_root then emulated_mount R (apply_emulated_pivot_root P (z_env Z) s) s
           else if sysnum = PR_umount \<or> sysnum = PR_umount2
           then emulated_mount R (apply_emulated_umount P (z_env Z) s) s
           else if sysnum = PR_getpgrp then with_result R (z_getpgid Z (s_world s) (t_pid (s_tracee s))) s
           else if sysnum = PR_statfs then seccomp_statfs P R Z s
           else if sysnum = PR_utimes then seccomp_utimes P R 32 utimes_timespecs s
           else if sysnum = PR_utime then seccomp_utimes P R 16 utime_timespecs s
           else if sysnum = PR_select then seccomp_select P R s
           else if sysnum = PR_poll then seccomp_poll P R s
           else if sysnum = PR_time then seccomp_time P R Z s
           else if sysnum = PR_statx then seccomp_statx P R Z s
           else if sysnum = PR_ftruncate then seccomp_ftruncate R s
           else if sysnum = PR_setresuid then seccomp_setresxid R (z_getresuid Z (s_world s)) s
           else if sysnum = PR_setresgid then seccomp_setresxid R (z_getresgid Z (s_world s)) s
           else with_failure R (Errno ENOSYS) s))"

text \<open>The extensions may have handled the signal; a status above 2 is none they use, and is ignored.\<close>

definition handle_seccomp_event_common ::
  "'k Ptrace_Mem \<Rightarrow> 'k Ptrace_Regs \<Rightarrow> ('w, ('k, 'w, 'z) Call_scheme, 'y) Exits_scheme \<Rightarrow> ('k, 'w, 'z) Call_scheme
   \<Rightarrow> nat res \<times> ('k, 'w, 'z) Call_scheme" where
  "handle_seccomp_event_common P R Z s =
     (case get_sysnum (s_regs s) CURRENT of
        Inl e \<Rightarrow> (Inl e, s)
      | Inr sysnum \<Rightarrow>
          (case z_sigsys_occ Z s of
             (Inl e, s) \<Rightarrow> with_failure R e s
           | (Inr status, s) \<Rightarrow>
               (if status = 1 then with_result R 0 s
                else if status = 2 then (Inr 0, s)
                else seccomp_switch P R Z sysnum s)))"

text \<open>The value is the signal to deliver: 0 or SIGSYS.\<close>

definition handle_seccomp_event ::
  "'k Ptrace_Mem \<Rightarrow> 'k Ptrace_Regs \<Rightarrow> ('w, ('k, 'w, 'z) Xcall_scheme, 'y) Exits_scheme \<Rightarrow> ('k, 'w, 'z) Xcall_scheme
   \<Rightarrow> nat res \<times> ('k, 'w, 'z) Xcall_scheme" where
  "handle_seccomp_event P R Z s =
     (let s = s\<lparr>x_status := 0, s_regs := (s_regs s)\<lparr>restore_original_regs := False\<rparr>\<rparr>
      in case fetch_regs R (s_regs s) (s_mem s) of
           (Some e, t, k) \<Rightarrow> (Inr SIGSYS, s\<lparr>s_regs := t, s_mem := k\<rparr>)
         | (None, t, k) \<Rightarrow>
             handle_seccomp_event_common P R Z
               (s\<lparr>s_regs := save_current_regs t ORIGINAL_SECCOMP_REWRITE, s_mem := k\<rparr>))"

definition fix_and_restart_enosys_syscall ::
  "'k Ptrace_Mem \<Rightarrow> 'k Ptrace_Regs \<Rightarrow> ('w, ('k, 'w, 'z) Xcall_scheme, 'y) Exits_scheme \<Rightarrow> ('k, 'w, 'z) Xcall_scheme
   \<Rightarrow> nat res \<times> ('k, 'w, 'z) Xcall_scheme" where
  "fix_and_restart_enosys_syscall P R Z s =
     (let t = (s_regs s)\<lparr>restore_original_regs := False\<rparr>;
          t = set_bank t CURRENT (regs t ORIGINAL)
      in handle_seccomp_event_common P R Z
           (s\<lparr>x_status := 0, s_regs := save_current_regs t ORIGINAL_SECCOMP_REWRITE\<rparr>))"

end
