(* ===== verification/Rlimit.thy ===== *)
theory Rlimit
  imports Sysargs
begin

section \<open>The limit of the stack\<close>

text \<open>
  \<open>translate_setrlimit_exit\<close> of syscall/rlimit.c: the soft limit of PRoot's own stack follows the limits
  that its tracees set, upwards only.  The two uses of \<open>prlimit64(2)\<close> on PRoot itself are arguments: the
  soft limit, if it can be read, and the attempt to change it.
\<close>

record 'w Stack_Limit =
  sl_get :: "'w \<Rightarrow> word_t option"
  sl_set :: "'w \<Rightarrow> word_t \<Rightarrow> 'w"

definition RLIMIT_STACK :: word_t where "RLIMIT_STACK = 3"
definition RLIM_INFINITY :: word_t where "RLIM_INFINITY = -1"

text \<open>The limit that the tracee asked for; \<open>None\<close> where the call is about something else.\<close>

definition tracee_stack_limit ::
  "'k Ptrace_Mem \<Rightarrow> bool \<Rightarrow> ('k, 'w, 'z) Sys_scheme \<Rightarrow> word_t option res" where
  "tracee_stack_limit P is_prlimit s =
     (let t = s_regs s;
          resource = peek_reg t ORIGINAL (if is_prlimit then SYSARG_2 else SYSARG_1);
          address = peek_reg t ORIGINAL (if is_prlimit then SYSARG_3 else SYSARG_2)
      in if resource \<noteq> RLIMIT_STACK then Inr None
         else if is_prlimit then
           (if address = 0 then Inr None
            else (case peek_uint P 8 (s_mem s) address of Inl e \<Rightarrow> Inl e | Inr v \<Rightarrow> Inr (Some v)))
         else
           (case peek_word P t (s_mem s) address of
              Inl e \<Rightarrow> Inl e
            | Inr v \<Rightarrow> Inr (Some (if is_32on64_mode t \<and> v = 0xFFFFFFFF then RLIM_INFINITY else v))))"

definition translate_setrlimit_exit ::
  "'k Ptrace_Mem \<Rightarrow> 'w Stack_Limit \<Rightarrow> bool \<Rightarrow> ('k, 'w, 'z) Sys_scheme
   \<Rightarrow> unit res \<times> ('k, 'w, 'z) Sys_scheme" where
  "translate_setrlimit_exit P L is_prlimit s =
     (case tracee_stack_limit P is_prlimit s of
        Inl e \<Rightarrow> (Inl e, s)
      | Inr None \<Rightarrow> (Inr (), s)
      | Inr (Some limit) \<Rightarrow>
          (case sl_get L (s_world s) of
             None \<Rightarrow> (Inr (), s)
           | Some proot_stack \<Rightarrow>
               (if proot_stack \<ge> limit then (Inr (), s)
                else (Inr (), s\<lparr>s_world := sl_set L (s_world s) limit\<rparr>))))"

text \<open>
  Where the system lets PRoot change its limit, that limit is at least what the tracee asked for
  afterwards, and it never goes down.
\<close>

lemma stack_limit_follows:
  assumes "tracee_stack_limit P is_prlimit s = Inr (Some limit)" and "sl_get L (s_world s) = Some old"
    and "\<And>w v. sl_get L (sl_set L w v) = Some v"
    and "translate_setrlimit_exit P L is_prlimit s = (Inr (), s')"
  shows "sl_get L (s_world s') = Some (max old limit)"
  using assms by (auto simp: translate_setrlimit_exit_def max_def split: if_split_asm)

end
