(* ===== verification/Syscall_Exit.thy ===== *)
theory Syscall_Exit
  imports Sigsys Rlimit
begin

section \<open>The exit of a system call\<close>

text \<open>
  \<open>translate_syscall_exit\<close> of syscall/exit.c, every case of its switch for an arm64 build: the results of
  the calls that were emulated or translated at the enter stage.  The exits of execve, ptrace and wait4
  and the notifications of the extensions are arguments.
\<close>

subsection \<open>The hosts and the outcome of a case\<close>

record ('w, 's) Exit_Calls = "('w, 's) Exits" +
  z_limit :: "'w Stack_Limit"
  z_exit_start :: "'s \<Rightarrow> nat res \<times> 's"
  z_exit_end :: "'s \<Rightarrow> nat res \<times> 's"
  z_execve_exit :: "'s \<Rightarrow> 's"
  z_ptrace_exit :: "'s \<Rightarrow> nat res \<times> 's"
  z_wait_exit :: "'s \<Rightarrow> nat res \<times> 's"
  z_waits_in_proot :: "'s \<Rightarrow> bool"

text \<open>\<open>Update status\<close> is a break: the status becomes the result.  \<open>End\<close> is \<open>goto end\<close>.\<close>

datatype exit_outcome = Update "nat res" | End

definition original :: "('k, 'w, 'z) Sys_scheme \<Rightarrow> Reg \<Rightarrow> word_t" where
  "original s reg = peek_reg (s_regs s) ORIGINAL reg"

definition modified :: "('k, 'w, 'z) Sys_scheme \<Rightarrow> Reg \<Rightarrow> word_t" where
  "modified s reg = peek_reg (s_regs s) MODIFIED reg"

definition result_int :: "('k, 'w, 'z) Sys_scheme \<Rightarrow> int" where
  "result_int s = int_arg s SYSARG_RESULT"

text \<open>The outcome of a helper whose success leaves the result of the kernel.\<close>

definition unless_failed :: "unit res \<Rightarrow> exit_outcome" where
  "unless_failed r = (case r of Inl e \<Rightarrow> Update (Inl e) | Inr _ \<Rightarrow> End)"

subsection \<open>The current directory\<close>

definition exit_getcwd ::
  "'k Ptrace_Mem \<Rightarrow> 'w Env \<Rightarrow> ('k, 'w, 'z) Sys_scheme \<Rightarrow> nat res \<times> ('k, 'w, 'z) Sys_scheme" where
  "exit_getcwd P E s =
     (if original s SYSARG_2 = 0 then (Err EINVAL, s)
      else
        (case translate_path E (s_tracee s) (s_world s) AT_FDCWD ''.'' False of
           (Inl e, t, w) \<Rightarrow> (Inl e, s\<lparr>s_tracee := t, s_world := w\<rparr>)
         | (Inr path, t, w) \<Rightarrow>
             (let s = s\<lparr>s_tracee := t, s_world := w\<rparr>;
                  cwd = fs_cwd (t_fs (s_tracee s));
                  new_size = length cwd + 1
              in if unat (original s SYSARG_2) < new_size then (Err ERANGE, s)
                 else
                   (case write_data P (s_mem s) (original s SYSARG_1) (string_bytes cwd) of
                      (Inl e, k) \<Rightarrow> (Inl e, s\<lparr>s_mem := k\<rparr>)
                    | (Inr _, k) \<Rightarrow> (Inr new_size, s\<lparr>s_mem := k\<rparr>)))))"

text \<open>A path of the host in the memory of the tracee, seen as the tracee names it, and its length.\<close>

definition guest_path_at ::
  "'k Ptrace_Mem \<Rightarrow> 'w Env \<Rightarrow> word_t \<Rightarrow> ('k, 'w, 'z) Sys_scheme \<Rightarrow> (string \<times> nat) res" where
  "guest_path_at P E address s =
     (case read_path P (s_mem s) address of
        Inl e \<Rightarrow> Inl e
      | Inr (path, _) \<Rightarrow>
          (case detranslate_path (e_tracees E) (s_tracee s) path None of
             Inl e \<Rightarrow> Inl e
           | Inr (status, path) \<Rightarrow> Inr (path, if status > 0 then status - 1 else length path)))"

definition exit_rename ::
  "'k Ptrace_Mem \<Rightarrow> 'w Env \<Rightarrow> Reg \<Rightarrow> Reg \<Rightarrow> ('k, 'w, 'z) Sys_scheme
   \<Rightarrow> nat res \<times> ('k, 'w, 'z) Sys_scheme" where
  "exit_rename P E old_reg new_reg s =
     (let cwd = fs_cwd (t_fs (s_tracee s)) in
      case guest_path_at P E (modified s old_reg) s of
        Inl e \<Rightarrow> (Inl e, s)
      | Inr (old_path, old_length) \<Rightarrow>
          (if compare_paths old_path cwd \<notin> {PATH1_IS_PREFIX, PATHS_ARE_EQUAL} then (Inr 0, s)
           else
             (case guest_path_at P E (modified s new_reg) s of
                Inl e \<Rightarrow> (Inl e, s)
              | Inr (new_path, new_length) \<Rightarrow>
                  (if length cwd \<ge> PATH_MAX then (Inr 0, s)
                   else
                     (case substitute_path_prefix cwd old_length new_path new_length of
                        Inl Undefined \<Rightarrow> (Inl Undefined, s)
                      | Inl (Errno e) \<Rightarrow> (Inr 0, s)
                      | Inr path \<Rightarrow> (Inr 0, s\<lparr>s_tracee := change_cwd path (s_tracee s)\<rparr>))))))"

subsection \<open>Links\<close>

text \<open>The registers of \<open>readlink\<close> and \<open>readlinkat\<close>: the buffer, its size, the path.\<close>

definition readlink_regs :: "nat \<Rightarrow> Reg \<times> Reg \<times> Reg" where
  "readlink_regs sysnum =
     (if sysnum = PR_readlink then (SYSARG_2, SYSARG_3, SYSARG_1) else (SYSARG_3, SYSARG_4, SYSARG_2))"

text \<open>The path of the link; an empty one is that of the descriptor (a negative one is never seen).\<close>

definition readlink_referer ::
  "'k Ptrace_Mem \<Rightarrow> 'w Env \<Rightarrow> nat \<Rightarrow> word_t \<Rightarrow> ('k, 'w, 'z) Sys_scheme \<Rightarrow> string res" where
  "readlink_referer P E sysnum input s =
     (case read_path P (s_mem s) input of
        Inl e \<Rightarrow> Inl e
      | Inr (referer, status) \<Rightarrow>
          (if status = 1 then
             (if sysnum = PR_readlink then Err EBADF
              else readlink_proc_pid_fd E (s_world s) (t_pid (s_tracee s)) (int_of_word (original s SYSARG_1)))
           else Inr referer))"

text \<open>A link that filled the buffer may have been cut: it is read again, and its size with it.\<close>

definition full_referee :: "'w Env \<Rightarrow> 'w \<Rightarrow> string \<Rightarrow> bool \<Rightarrow> string \<Rightarrow> string" where
  "full_referee E w referer filled referee =
     (if filled then
        (case h_readlink E w referer of
           Inl e \<Rightarrow> referee
         | Inr full \<Rightarrow> if full = [] then referee else take (PATH_MAX - 1) full)
      else referee)"

definition write_referee ::
  "'k Ptrace_Mem \<Rightarrow> word_t \<Rightarrow> nat \<Rightarrow> string \<Rightarrow> nat \<Rightarrow> ('k, 'w, 'z) Sys_scheme
   \<Rightarrow> nat res \<times> ('k, 'w, 'z) Sys_scheme" where
  "write_referee P output max_size path status s =
     (let (new_size, bs) = (if status < max_size then (status - 1, string_bytes path)
                            else (max_size, take max_size (string_bytes path)))
      in case write_data P (s_mem s) output bs of
           (Inl e, k) \<Rightarrow> (Inl e, s\<lparr>s_mem := k\<rparr>)
         | (Inr _, k) \<Rightarrow> (Inr new_size, s\<lparr>s_mem := k\<rparr>))"

definition exit_readlink ::
  "'k Ptrace_Mem \<Rightarrow> 'w Env \<Rightarrow> nat \<Rightarrow> ('k, 'w, 'z) Sys_scheme \<Rightarrow> exit_outcome \<times> ('k, 'w, 'z) Sys_scheme" where
  "exit_readlink P E sysnum s =
     (let old_size = unat (peek s SYSARG_RESULT);
          (out_reg, size_reg, in_reg) = readlink_regs sysnum;
          output = original s out_reg;
          max_size = min (unat (original s size_reg)) PATH_MAX
      in if max_size = 0 then (Update (Err EINVAL), s)
         else if old_size \<ge> PATH_MAX then (Update (Inl Undefined), s)
         else
           (case read_data P (s_mem s) output old_size of
              Inl e \<Rightarrow> (Update (Inl e), s)
            | Inr bs \<Rightarrow>
                (case readlink_referer P E sysnum (modified s in_reg) s of
                   Inl e \<Rightarrow> (Update (Inl e), s)
                 | Inr referer \<Rightarrow>
                     (let referee = full_referee E (s_world s) referer (old_size = max_size) (string_of bs) in
                      case detranslate_path (e_tracees E) (s_tracee s) referee (Some referer) of
                        Inl e \<Rightarrow> (Update (Inl e), s)
                      | Inr (0, _) \<Rightarrow> (End, s)
                      | Inr (status, path) \<Rightarrow>
                          (case write_referee P output max_size path status s of (r, s) \<Rightarrow> (Update r, s))))))"

subsection \<open>Sockets\<close>

definition exit_accept ::
  "'k Ptrace_Mem \<Rightarrow> 'w Env \<Rightarrow> nat \<Rightarrow> ('k, 'w, 'z) Sys_scheme \<Rightarrow> exit_outcome \<times> ('k, 'w, 'z) Sys_scheme" where
  "exit_accept P E sysnum s =
     (if (sysnum = PR_accept \<or> sysnum = PR_accept4) \<and> original s SYSARG_2 = 0 then (End, s)
      else
        (case translate_socketcall_exit P E (s_tracee s) (original s SYSARG_2) (modified s SYSARG_3)
                (modified s SYSARG_6) (s_mem s) of
           (r, k) \<Rightarrow> (unless_failed r, s\<lparr>s_mem := k\<rparr>)))"

text \<open>
  The first switch of \<open>socketcall\<close>: \<open>None\<close> where nothing is left to do, otherwise the status; the words
  that the enter stage replaced get their values back.
\<close>

definition poked :: "errno option \<times> 'k \<Rightarrow> unit res \<times> 'k" where
  "poked r = (case r of (Some e, k) \<Rightarrow> (Err e, k) | (None, k) \<Rightarrow> (Inr (), k))"

definition restore_socketcall ::
  "'k Ptrace_Mem \<Rightarrow> (nat \<Rightarrow> word_t) \<Rightarrow> ('k, 'w, 'z) Sys_scheme \<Rightarrow> unit res \<times> ('k, 'w, 'z) Sys_scheme" where
  "restore_socketcall P sysarg_addr s =
     (case poked (poke_word P (s_regs s) (s_mem s) (sysarg_addr 2) (modified s SYSARG_5)) of
        (Inl e, k) \<Rightarrow> (Inl e, s\<lparr>s_mem := k\<rparr>)
      | (Inr _, k) \<Rightarrow>
          (case poked (poke_word P (s_regs s) k (sysarg_addr 3) (modified s SYSARG_6)) of
             (r, k) \<Rightarrow> (r, s\<lparr>s_mem := k\<rparr>)))"

definition socketcall_translated ::
  "'k Ptrace_Mem \<Rightarrow> 'w Env \<Rightarrow> (nat \<Rightarrow> word_t) \<Rightarrow> ('k, 'w, 'z) Sys_scheme
   \<Rightarrow> exit_outcome \<times> ('k, 'w, 'z) Sys_scheme" where
  "socketcall_translated P E sysarg_addr s =
     (let t = s_regs s; k = s_mem s in
      case peek_word P t k (sysarg_addr 2) of
        Inl e \<Rightarrow> (Update (Inl e), s)
      | Inr sock_addr \<Rightarrow>
          (case peek_word P t k (sysarg_addr 3) of
             Inl e \<Rightarrow> (Update (Inl e), s)
           | Inr size_addr \<Rightarrow>
               (case translate_socketcall_exit P E (s_tracee s) sock_addr size_addr (modified s SYSARG_6) k of
                  (r, k) \<Rightarrow> (unless_failed r, s\<lparr>s_mem := k\<rparr>))))"

definition exit_socketcall ::
  "'k Ptrace_Mem \<Rightarrow> 'w Env \<Rightarrow> ('k, 'w, 'z) Sys_scheme \<Rightarrow> exit_outcome \<times> ('k, 'w, 'z) Sys_scheme" where
  "exit_socketcall P E s =
     (let args_addr = original s SYSARG_2; call = original s SYSARG_1;
          sysarg_addr = (\<lambda>n. args_addr + of_nat ((n - 1) * sizeof_word (s_regs s)));
          failed = result_int s < 0
      in if call = SYS_ACCEPT \<or> call = SYS_ACCEPT4 then
           (case peek_word P (s_regs s) (s_mem s) (sysarg_addr 2) of
              Inl e \<Rightarrow> (if failed then End else Update (Inl e), s)
            | Inr sock_addr \<Rightarrow>
                (if sock_addr = 0 \<or> failed then (End, s) else socketcall_translated P E sysarg_addr s))
         else if call = SYS_GETSOCKNAME \<or> call = SYS_GETPEERNAME then
           (if failed then (End, s) else socketcall_translated P E sysarg_addr s)
         else if call = SYS_BIND \<or> call = SYS_CONNECT then
           (case restore_socketcall P sysarg_addr s of
              (Inl e, s) \<Rightarrow> (if failed then End else Update (Inl e), s)
            | (Inr _, s) \<Rightarrow> (End, s))
         else (End, s))"

definition exit_socket :: "('k, 'w, 'z) Call_scheme \<Rightarrow> ('k, 'w, 'z) Call_scheme" where
  "exit_socket s =
     (if n_pending_socket s
      then s\<lparr>n_fds := mark_fake_netlink_fd (n_fds s) (result_int s), n_pending_socket := False\<rparr>
      else s)"

subsection \<open>The auxiliary vector\<close>

definition AT_NULL :: word_t where "AT_NULL = 0"
definition AT_EXECFN :: word_t where "AT_EXECFN = 31"

text \<open>
  The loop over the \<open>limit\<close> bytes at \<open>buf\<close>: the first entry of type \<open>AT_EXECFN\<close> before the end gets the
  value \<open>v\<close>.
\<close>

function patch_execfn ::
  "'k Ptrace_Mem \<Rightarrow> Tracee_Regs \<Rightarrow> word_t \<Rightarrow> nat \<Rightarrow> word_t \<Rightarrow> nat \<Rightarrow> 'k \<Rightarrow> 'k" where
  "patch_execfn P t buf limit v offset k =
     (if offset + 2 * sizeof_word t > limit then k
      else
        (case peek_word P t k (buf + of_nat offset) of
           Inl e \<Rightarrow> k
         | Inr type \<Rightarrow>
             (if type = AT_NULL then k
              else if type = AT_EXECFN
              then snd (poke_word P t k (buf + of_nat (offset + sizeof_word t)) v)
              else patch_execfn P t buf limit v (offset + 2 * sizeof_word t) k)))"
  by pat_completeness auto
termination
  by (relation "measure (\<lambda>(P, t, buf, limit, v, offset, k). limit + 1 - offset)")
     (auto simp: sizeof_word_def)

declare patch_execfn.simps [simp del]

definition exit_open ::
  "'k Ptrace_Mem \<Rightarrow> nat \<Rightarrow> ('k, 'w, 'z) Call_scheme \<Rightarrow> ('k, 'w, 'z) Call_scheme" where
  "exit_open P sysnum s =
     (if result_int s < 0 \<or> n_execfn_addr s = 0 then s
      else
        (case read_string P (s_mem s) (original s (if sysnum = PR_open then SYSARG_1 else SYSARG_2)) 16 of
           Inl e \<Rightarrow> s
         | Inr (bs, n) \<Rightarrow>
             (if n = 0 \<or> string_of bs \<noteq> ''/proc/self/auxv'' then s
              else want_sysexit (s\<lparr>n_auxv_fd := result_int s\<rparr>))))"

definition exit_read :: "'k Ptrace_Mem \<Rightarrow> ('k, 'w, 'z) Call_scheme \<Rightarrow> ('k, 'w, 'z) Call_scheme" where
  "exit_read P s =
     (let result = peek s SYSARG_RESULT in
      if n_auxv_fd s < 0 \<or> n_execfn_addr s = 0 \<or> result = 0 \<or> sint result < 0
         \<or> int_of_word (original s SYSARG_1) \<noteq> n_auxv_fd s then s
      else
        want_sysexit
          (s\<lparr>s_mem := patch_execfn P (s_regs s) (original s SYSARG_2) (unat result) (n_execfn_addr s) 0 (s_mem s)\<rparr>))"

definition exit_prctl :: "'k Ptrace_Mem \<Rightarrow> ('k, 'w, 'z) Xcall_scheme \<Rightarrow> ('k, 'w, 'z) Xcall_scheme" where
  "exit_prctl P s =
     (let option = original s SYSARG_1; result = peek s SYSARG_RESULT in
      if option = PR_SET_NO_NEW_PRIVS then
        (if x_seen_execve s \<and> result_int s = 0 then s\<lparr>n_no_new_privs := True\<rparr> else s)
      else if option \<noteq> PR_GET_AUXV \<or> result_int s < 0 \<or> n_execfn_addr s = 0 \<or> result > original s SYSARG_3 then s
      else
        s\<lparr>s_mem := patch_execfn P (s_regs s) (original s SYSARG_2) (unat result) (n_execfn_addr s) 0 (s_mem s)\<rparr>)"

subsection \<open>Other calls\<close>

text \<open>The magic number of tmpfs replaces the first bytes of the structure.\<close>

definition exit_statfs ::
  "'k Ptrace_Mem \<Rightarrow> 'w Env \<Rightarrow> nat \<Rightarrow> ('k, 'w, 'z) Sys_scheme \<Rightarrow> ('k, 'w, 'z) Sys_scheme" where
  "exit_statfs P E sysnum s =
     (if peek s SYSARG_RESULT \<noteq> 0 then s
      else
        (case translate_path E (s_tracee s) (s_world s) AT_FDCWD ''/dev/shm'' True of
           (devshm, t, w) \<Rightarrow>
             (let s = s\<lparr>s_tracee := t, s_world := w\<rparr> in
              case devshm of
                Inl e \<Rightarrow> s
              | Inr devshm_path \<Rightarrow>
                  (case read_path P (s_mem s) (modified s SYSARG_1) of
                     Inl e \<Rightarrow> s
                   | Inr (path, _) \<Rightarrow>
                       (if is_in_devshm (Inr devshm_path) path
                        then s\<lparr>s_mem := snd (write_data P (s_mem s)
                                 (original s (if sysnum = PR_statfs64 then SYSARG_3 else SYSARG_2)) (le 4 TMPFS_MAGIC))\<rparr>
                        else s)))))"

definition FICLONE :: word_t where "FICLONE = 0x40049409"

definition exit_ioctl :: "('k, 'w, 'z) Sys_scheme \<Rightarrow> ('k, 'w, 'z) Sys_scheme" where
  "exit_ioctl s =
     (if original s SYSARG_2 = FICLONE \<and> result_int s = - errno_code EACCES
      then poke SYSARG_RESULT (of_int (- errno_code ENOTSUP)) s else s)"

definition exit_utime ::
  "'k Ptrace_Mem \<Rightarrow> 'k Ptrace_Regs \<Rightarrow> ('w, ('k, 'w, 'z) Xcall_scheme, 'y) Exits_scheme
   \<Rightarrow> ('k, 'w, 'z) Xcall_scheme \<Rightarrow> exit_outcome \<times> ('k, 'w, 'z) Xcall_scheme" where
  "exit_utime P R Z s =
     (if result_int s = - errno_code ENOSYS then
        (case fix_and_restart_enosys_syscall P R Z s of
           (Inl e, s) \<Rightarrow> (Update (Inl e), s)
         | (Inr _, s) \<Rightarrow> (End, s))
      else (End, s))"

definition exit_brk :: "('k, 'w, 'z) Call_scheme \<Rightarrow> exit_outcome \<times> ('k, 'w, 'z) Call_scheme" where
  "exit_brk s =
     (case translate_brk_exit (n_heap s) (s_regs s) of
        Inl e \<Rightarrow> (Update (Inl e), s)
      | Inr (heap, t) \<Rightarrow> (End, s\<lparr>n_heap := heap, s_regs := t\<rparr>))"

definition updated :: "nat res \<times> 's \<Rightarrow> exit_outcome \<times> 's" where
  "updated r = (Update (fst r), snd r)"

definition zero_status :: "unit res \<Rightarrow> nat res" where
  "zero_status r = (case r of Inl e \<Rightarrow> Inl e | Inr _ \<Rightarrow> Inr 0)"

subsection \<open>The switch\<close>

text \<open>The calls whose case starts by leaving an error of the kernel as it is.\<close>

definition leaves_errors :: "nat \<Rightarrow> bool" where
  "leaves_errors sysnum \<longleftrightarrow>
     sysnum \<in> set [PR_accept, PR_accept4, PR_getsockname, PR_getpeername, PR_rename, PR_renameat, PR_readlink,
       PR_readlinkat, PR_setrlimit, PR_prlimit64]"

definition exit_switch ::
  "'k Ptrace_Mem \<Rightarrow> 'k Ptrace_Regs \<Rightarrow> ('w, ('k, 'w, 'z) Xcall_scheme) Exit_Calls \<Rightarrow> nat
   \<Rightarrow> ('k, 'w, 'z) Xcall_scheme \<Rightarrow> exit_outcome \<times> ('k, 'w, 'z) Xcall_scheme" where
  "exit_switch P R Z sysnum s =
     (let E = z_env Z in
      if sysnum = PR_brk then exit_brk s
      else if sysnum = PR_getcwd then updated (exit_getcwd P E s)
      else if leaves_errors sysnum \<and> result_int s < 0 then (End, s)
      else if sysnum = PR_accept \<or> sysnum = PR_accept4 \<or> sysnum = PR_getsockname \<or> sysnum = PR_getpeername
      then exit_accept P E sysnum s
      else if sysnum = PR_socketcall then exit_socketcall P E s
      else if sysnum \<in> set [PR_fchdir, PR_chdir, PR_unshare, PR_setns, PR_mount, PR_umount, PR_umount2, PR_pivot_root]
      then (Update (Inr 0), s)
      else if sysnum = PR_rename then updated (exit_rename P E SYSARG_1 SYSARG_2 s)
      else if sysnum = PR_renameat then updated (exit_rename P E SYSARG_2 SYSARG_4 s)
      else if sysnum = PR_readlink \<or> sysnum = PR_readlinkat then exit_readlink P E sysnum s
      else if sysnum = PR_execve \<or> sysnum = PR_execveat then (End, z_execve_exit Z s)
      else if sysnum = PR_openat2 \<or> sysnum = PR_openat \<or> sysnum = PR_open then (End, exit_open P sysnum s)
      else if sysnum = PR_read then (End, exit_read P s)
      else if sysnum = PR_prctl then (End, exit_prctl P s)
      else if sysnum = PR_ptrace then updated (z_ptrace_exit Z s)
      else if sysnum = PR_wait4 \<or> sysnum = PR_waitpid
      then (if z_waits_in_proot Z s then updated (z_wait_exit Z s) else (End, s))
      else if sysnum = PR_setrlimit \<or> sysnum = PR_prlimit64
      then (case translate_setrlimit_exit P (z_limit Z) (sysnum = PR_prlimit64) s of (r, s) \<Rightarrow> (unless_failed r, s))
      else if sysnum = PR_utime then exit_utime P R Z s
      else if sysnum = PR_statfs \<or> sysnum = PR_statfs64 then (End, exit_statfs P E sysnum s)
      else if sysnum = PR_statx
      then (case handle_statx_syscall P E (z_stat Z) (z_statx Z) False s of (r, s) \<Rightarrow> (Update (zero_status r), s))
      else if sysnum = PR_ioctl then (End, exit_ioctl s)
      else if sysnum = PR_socket then (End, exit_socket s)
      else (End, s))"

text \<open>A status as the result of the call.\<close>

definition set_status :: "nat res \<Rightarrow> ('k, 'w, 'z) Sys_scheme \<Rightarrow> unit res \<times> ('k, 'w, 'z) Sys_scheme" where
  "set_status r s =
     (case r of
        Inl Undefined \<Rightarrow> (Inl Undefined, s)
      | Inl (Errno e) \<Rightarrow> (Inr (), poke SYSARG_RESULT (of_int (fail_code e)) s)
      | Inr n \<Rightarrow> (Inr (), poke SYSARG_RESULT (of_nat n) s))"

definition exit_end ::
  "('w, ('k, 'w, 'z) Xcall_scheme) Exit_Calls \<Rightarrow> unit res \<times> ('k, 'w, 'z) Xcall_scheme
   \<Rightarrow> unit res \<times> ('k, 'w, 'z) Xcall_scheme" where
  "exit_end Z r =
     (case r of
        (Inl e, s) \<Rightarrow> (Inl e, s)
      | (Inr _, s) \<Rightarrow> (case z_exit_end Z s of (Inl e, s) \<Rightarrow> set_status (Inl e) s | (Inr _, s) \<Rightarrow> (Inr (), s)))"

text \<open>The result that the enter stage gave to a call that was not executed.\<close>

definition keep_void_result :: "('k, 'w, 'z) Sys_scheme \<Rightarrow> ('k, 'w, 'z) Sys_scheme" where
  "keep_void_result s =
     (if modified s SYSARG_NUM = (if is_32on64_mode (s_regs s) then SYSCALL_AVOIDER AND 0xFFFFFFFF else SYSCALL_AVOIDER)
         \<and> original s SYSARG_NUM \<noteq> modified s SYSARG_NUM
      then poke SYSARG_RESULT (modified s SYSARG_RESULT) s else s)"

definition translate_syscall_exit ::
  "'k Ptrace_Mem \<Rightarrow> 'k Ptrace_Regs \<Rightarrow> ('w, ('k, 'w, 'z) Xcall_scheme) Exit_Calls \<Rightarrow> ('k, 'w, 'z) Xcall_scheme
   \<Rightarrow> unit res \<times> ('k, 'w, 'z) Xcall_scheme" where
  "translate_syscall_exit P R Z s =
     (case z_exit_start Z s of
        (Inl e, s) \<Rightarrow> exit_end Z (set_status (Inl e) s)
      | (Inr n, s) \<Rightarrow>
          (if n > 0 then (Inr (), s)
           else if x_status s < 0 then exit_end Z (Inr (), poke SYSARG_RESULT (of_int (x_status s)) s)
           else
             (let s = keep_void_result s in
              case get_sysnum (s_regs s) ORIGINAL of
                Inl e \<Rightarrow> (Inl e, s)
              | Inr sysnum \<Rightarrow>
                  (case exit_switch P R Z sysnum s of
                     (End, s) \<Rightarrow> exit_end Z (Inr (), s)
                   | (Update r, s) \<Rightarrow> exit_end Z (set_status r s)))))"

end
