(* ===== verification/Sigsys_Props.thy ===== *)
theory Sigsys_Props
  imports Sigsys
begin

section \<open>What a replaced call does\<close>

text \<open>
  The calls that are renamed after a SIGSYS are given the same paths, relative to the same directories
  and with the same treatment of a link at the end, as the calls that were refused.
\<close>

subsection \<open>Arguments\<close>

lemma argument_offsets: "argument r \<Longrightarrow> argument r' \<Longrightarrow> REG_offset t r = REG_offset t r' \<longleftrightarrow> r = r'"
  by (auto simp: argument_def REG_offset_def reg_offset_def reg_offset_armeabi_def)

lemma argument_args [simp]:
  "argument SYSARG_1" "argument SYSARG_2" "argument SYSARG_3" "argument SYSARG_4" "argument SYSARG_5"
  "argument SYSARG_6"
  by (simp_all add: argument_def)

text \<open>What a register of the tracee keeps of a value.\<close>

definition cut :: "('k, 'w, 'z) Sys_scheme \<Rightarrow> word_t \<Rightarrow> word_t" where
  "cut s v = (if is_aarch32 (s_regs s) then v AND 0xFFFFFFFF else v)"

lemma peek_poke_arg [simp]:
  "argument r \<Longrightarrow> argument r' \<Longrightarrow> peek (poke r v s) r' = (if r' = r then cut s v else peek s r')"
  by (simp add: peek_def poke_def peek_poke argument_offsets cut_def)

lemma cut_simps [simp]:
  "cut (poke r v s) = cut s" "cut s 0 = 0" "cut s AT_SYMLINK_NOFOLLOW = AT_SYMLINK_NOFOLLOW"
  "cut s (peek s r) = peek s r"
  by (auto simp: cut_def poke_def fun_eq_iff AT_SYMLINK_NOFOLLOW_def peek_def peek_reg_def is_32on64_mode_def
        Let_def and.assoc)

lemma int_of_cut [simp]: "int_of_word (cut s v) = int_of_word v"
proof -
  have "(ucast (v AND 0xFFFFFFFF) :: 32 word) = ucast v"
    by (rule bit_word_eqI) (simp only: bit_ucast_iff low32, simp)
  then show ?thesis by (simp add: int_of_word_def cut_def)
qed

lemma int_of_AT_FDCWD [simp]: "int_of_word AT_FDCWD_word = AT_FDCWD"
  by (simp add: int_of_word_def AT_FDCWD_word_def AT_FDCWD_def)

subsection \<open>The paths of a call\<close>

text \<open>The directory, the address of the path and whether a link at its end is followed, for each path.\<close>

definition call_paths :: "nat \<Rightarrow> ('k, 'w, 'z) Sys_scheme \<Rightarrow> (int \<times> word_t \<times> Type) list" where
  "call_paths sysnum s =
     (case path_call sysnum s of
        Some (dirfd, reg, type) \<Rightarrow> [(dirfd, peek s reg, type)]
      | None \<Rightarrow>
          (if sysnum = PR_link \<or> sysnum = PR_rename
           then [(AT_FDCWD, peek s SYSARG_1, SYMLINK), (AT_FDCWD, peek s SYSARG_2, SYMLINK)]
           else if sysnum = PR_linkat \<or> sysnum = PR_renameat \<or> sysnum = PR_renameat2
           then [(int_arg s SYSARG_1, peek s SYSARG_2,
                  link_type (\<not> (sysnum = PR_linkat \<and> peek s SYSARG_5 AND AT_SYMLINK_FOLLOW \<noteq> 0))),
                 (int_arg s SYSARG_3, peek s SYSARG_4, SYMLINK)]
           else []))"

text \<open>The paths of each call involved.\<close>

lemmas call_paths_unfold = call_paths_def path_call_def path_argument_def path_at_argument_def Let_def

lemma call_paths_old:
  "call_paths PR_open s = [(AT_FDCWD, peek s SYSARG_1, open_type (peek s SYSARG_2))]"
  "call_paths PR_symlink s = [(AT_FDCWD, peek s SYSARG_2, SYMLINK)]"
  "call_paths PR_link s = [(AT_FDCWD, peek s SYSARG_1, SYMLINK), (AT_FDCWD, peek s SYSARG_2, SYMLINK)]"
  "call_paths PR_rename s = [(AT_FDCWD, peek s SYSARG_1, SYMLINK), (AT_FDCWD, peek s SYSARG_2, SYMLINK)]"
  "n \<in> {PR_chmod, PR_chown, PR_chown32, PR_stat, PR_access} \<Longrightarrow>
    call_paths n s = [(AT_FDCWD, peek s SYSARG_1, REGULAR)]"
  "n \<in> {PR_lchown, PR_lchown32, PR_unlink, PR_rmdir, PR_lstat, PR_mkdir} \<Longrightarrow>
    call_paths n s = [(AT_FDCWD, peek s SYSARG_1, SYMLINK)]"
  "n \<in> {PR_accept, PR_accept4, PR_send, PR_sendto, PR_recv, PR_recvfrom, PR_waitpid, PR_wait4, PR_pipe, PR_pipe2,
      PR_dup2, PR_dup3, PR_epoll_wait, PR_epoll_pwait} \<Longrightarrow> call_paths n s = []"
  by (simp add: call_paths_unfold, simp add: call_paths_unfold, simp add: call_paths_unfold,
      simp add: call_paths_unfold, (elim insertE emptyE; simp add: call_paths_unfold)+)

lemma call_paths_at:
  "call_paths PR_openat s = [(int_arg s SYSARG_1, peek s SYSARG_2, open_type (peek s SYSARG_3))]"
  "call_paths PR_symlinkat s = [(int_arg s SYSARG_2, peek s SYSARG_3, SYMLINK)]"
  "call_paths PR_linkat s = [(int_arg s SYSARG_1, peek s SYSARG_2, link_type (peek s SYSARG_5 AND AT_SYMLINK_FOLLOW = 0)),
     (int_arg s SYSARG_3, peek s SYSARG_4, SYMLINK)]"
  "call_paths PR_renameat s = [(int_arg s SYSARG_1, peek s SYSARG_2, SYMLINK),
     (int_arg s SYSARG_3, peek s SYSARG_4, SYMLINK)]"
  "n \<in> {PR_fchmodat, PR_faccessat} \<Longrightarrow> call_paths n s = [(int_arg s SYSARG_1, peek s SYSARG_2, REGULAR)]"
  "n \<in> {PR_unlinkat, PR_mkdirat} \<Longrightarrow> call_paths n s = [(int_arg s SYSARG_1, peek s SYSARG_2, SYMLINK)]"
  "call_paths PR_fchownat s =
    [(int_arg s SYSARG_1, peek s SYSARG_2, link_type (peek s SYSARG_5 AND AT_SYMLINK_NOFOLLOW \<noteq> 0))]"
  "n \<in> {PR_newfstatat, PR_utimensat} \<Longrightarrow> call_paths n s =
    [(int_arg s SYSARG_1, peek s SYSARG_2, link_type (peek s SYSARG_4 AND AT_SYMLINK_NOFOLLOW \<noteq> 0))]"
  by (simp add: call_paths_unfold, simp add: call_paths_unfold, simp add: call_paths_unfold,
      simp add: call_paths_unfold link_type_def, (elim insertE emptyE; simp add: call_paths_unfold)+,
      simp add: call_paths_unfold, (elim insertE emptyE; simp add: call_paths_unfold)+)

lemma link_type_simps [simp]: "link_type True = SYMLINK" "link_type False = REGULAR"
  by (simp_all add: link_type_def)

lemma int_arg_poke [simp]:
  "argument r \<Longrightarrow> argument r' \<Longrightarrow> int_arg (poke r v s) r' = (if r' = r then int_of_word v else int_arg s r')"
  by (simp add: int_arg_def)

lemma NOFOLLOW_nonzero [simp]: "AT_SYMLINK_NOFOLLOW \<noteq> 0"
  by (simp add: AT_SYMLINK_NOFOLLOW_def)

text \<open>The calls of the table.\<close>

lemma rewriting_sysnums:
  assumes "rewriting sysnum = Some (target, args)"
  shows "sysnum \<in> {PR_open, PR_accept, PR_symlink, PR_link, PR_chmod, PR_chown, PR_lchown, PR_chown32, PR_lchown32,
    PR_unlink, PR_rmdir, PR_send, PR_recv, PR_waitpid, PR_stat, PR_lstat, PR_pipe, PR_dup2, PR_access, PR_mkdir,
    PR_rename, PR_epoll_wait}"
  using assms by (auto simp: rewriting_def split: if_split_asm)

lemma rewriting_paths:
  assumes "rewriting sysnum = Some (target, args)"
  shows "call_paths target (poke_args args s) = call_paths sysnum s"
  using rewriting_sysnums[OF assms] assms
  by (elim insertE emptyE; clarsimp simp: rewriting_def to_at_def source_value_def call_paths_old call_paths_at)

subsection \<open>The registers that are not arguments\<close>

definition control :: "Reg set" where "control = {SYSARG_NUM, STACK_POINTER, INSTR_POINTER}"

lemma control_offset:
  "r \<in> control \<Longrightarrow> argument r' \<Longrightarrow> REG_offset t r \<noteq> REG_offset t r'"
  "r \<in> control \<Longrightarrow> r' \<in> control \<Longrightarrow> REG_offset t r = REG_offset t r' \<longleftrightarrow> r = r'"
  by (auto simp: control_def argument_def REG_offset_def reg_offset_def reg_offset_armeabi_def)

lemma poke_reg_fields [simp]:
  "restore_original_regs (poke_reg t r v) = restore_original_regs t"
  "restore_original_regs_after_seccomp_event (poke_reg t r v) = restore_original_regs_after_seccomp_event t"
  "version \<noteq> CURRENT \<Longrightarrow> regs (poke_reg t r v) version = regs t version"
  by (simp_all add: poke_reg_def set_bank_def)

definition same_control :: "('k, 'w, 'z) Sys_scheme \<Rightarrow> ('k, 'w, 'z) Sys_scheme \<Rightarrow> bool" where
  "same_control s s' \<longleftrightarrow> is_aarch32 (s_regs s') = is_aarch32 (s_regs s)
     \<and> restore_original_regs (s_regs s') = restore_original_regs (s_regs s)
     \<and> get_systrap_size (s_regs s') = get_systrap_size (s_regs s)
     \<and> (\<forall>version. version \<noteq> CURRENT \<longrightarrow> regs (s_regs s') version = regs (s_regs s) version)
     \<and> (\<forall>r \<in> control. peek s' r = peek s r)"

lemma same_control_poke: "argument r \<Longrightarrow> same_control s (poke r v s)"
  using control_offset(1) by (simp add: same_control_def poke_def peek_def peek_poke_other)

lemma same_control_trans: "same_control s s1 \<Longrightarrow> same_control s1 s2 \<Longrightarrow> same_control s s2"
  by (simp add: same_control_def)

lemma same_control_args: "list_all (\<lambda>x. argument (fst x)) args \<Longrightarrow> same_control s (poke_args args s)"
proof (induction args arbitrary: s)
  case (Cons a args)
  obtain r src where a: "a = (r, src)" by force
  have "argument r" using Cons.prems by (simp add: a)
  then have "same_control s (poke r (source_value s src) s)" by (rule same_control_poke)
  then show ?case using same_control_trans[OF _ Cons.IH] Cons.prems by (simp add: a)
qed (simp add: same_control_def)

lemma rewriting_arguments: "rewriting sysnum = Some (target, args) \<Longrightarrow> list_all (\<lambda>x. argument (fst x)) args"
  by (frule rewriting_sysnums) (elim insertE emptyE; clarsimp simp: rewriting_def to_at_def)

lemma path_at_argument_dir: "path_at_argument n s = Some (d, r, ty) \<Longrightarrow> argument d"
  by (auto simp: path_at_argument_def Let_def split: if_split_asm)

lemma path_call_cong:
  assumes "\<And>r. argument r \<Longrightarrow> peek s' r = peek s r"
  shows "path_call n s' = path_call n s"
proof -
  have p: "path_at_argument n s' = path_at_argument n s"
    by (simp add: path_at_argument_def Let_def assms)
  have i: "int_arg s' d = int_arg s d" if "argument d" for d
    using assms[OF that] by (simp add: int_arg_def)
  have pk: "peek s' SYSARG_2 = peek s SYSARG_2" "peek s' SYSARG_3 = peek s SYSARG_3" by (simp_all add: assms)
  have d: "(case path_at_argument n s of Some (dirfd, reg, type) \<Rightarrow> Some (int_arg s' dirfd, reg, type) | None \<Rightarrow> x)
      = (case path_at_argument n s of Some (dirfd, reg, type) \<Rightarrow> Some (int_arg s dirfd, reg, type) | None \<Rightarrow> x)" for x
    using path_at_argument_dir[of n s] i by (auto split: option.split)
  have i1: "int_arg s' SYSARG_1 = int_arg s SYSARG_1" by (rule i) simp
  show ?thesis unfolding path_call_def p pk i1 d ..
qed

lemma call_paths_cong:
  assumes "\<And>r. argument r \<Longrightarrow> peek s' r = peek s r"
  shows "call_paths n s' = call_paths n s"
proof (cases "path_call n s")
  case None
  then show ?thesis using assms path_call_cong[OF assms] by (simp add: call_paths_def int_arg_def)
next
  case (Some x)
  then show ?thesis
    using assms path_call_cong[of s' s n, OF assms] path_call_not_chdir[of n s]
    by (cases x) (auto simp: call_paths_def)
qed

subsection \<open>The restart\<close>

lemma push_registers_keeps:
  assumes "\<not> restore_original_regs (s_regs s)"
  shows "\<exists>k. push_registers R s = s\<lparr>s_mem := k\<rparr>"
  using assms by (auto simp: push_registers_def push_specific_regs_def Let_def intro: exI[of _ "s_mem s"] split: prod.splits)

lemma peek_flags [simp]:
  "peek_reg (t\<lparr>restore_original_regs_after_seccomp_event := b\<rparr>) version r = peek_reg t version r"
  "get_systrap_size (t\<lparr>restore_original_regs_after_seccomp_event := b\<rparr>) = get_systrap_size t"
  by (simp_all add: peek_reg_def REG_def REG_offset_def is_32on64_mode_def get_systrap_size_def)

lemma restart_effect:
  fixes s :: "('k, 'w, 'z) Call_scheme" and R :: "'k Ptrace_Regs"
  assumes "\<not> restore_original_regs (s_regs s)"
  defines "s' \<equiv> restart_syscall_after_seccomp R s"
  shows "\<And>r. argument r \<Longrightarrow> peek s' r = peek s r" and "peek s' SYSARG_NUM = peek s SYSARG_NUM"
    and "peek s' INSTR_POINTER = cut s (peek s INSTR_POINTER - get_systrap_size (s_regs s))"
    and "n_restart_how s' = PTRACE_SYSCALL" and "restore_original_regs_after_seccomp_event (s_regs s')"
    and "is_aarch32 (s_regs s') = is_aarch32 (s_regs s)"
    and "regs (s_regs s') ORIGINAL_SECCOMP_REWRITE = regs (s_regs s) ORIGINAL_SECCOMP_REWRITE"
    and "s_tracee s' = s_tracee s" and "s_world s' = s_world s"
proof -
  let ?t = "(s_regs s)\<lparr>restore_original_regs_after_seccomp_event := True\<rparr>"
  let ?ip = "peek s INSTR_POINTER - get_systrap_size (s_regs s)"
  let ?s1 = "poke INSTR_POINTER ?ip (s\<lparr>s_regs := ?t, n_restart_how := PTRACE_SYSCALL\<rparr>)"
  have "\<not> restore_original_regs (s_regs ?s1)" using assms(1) by (simp add: poke_def)
  then obtain k where k: "push_registers R ?s1 = ?s1\<lparr>s_mem := k\<rparr>" using push_registers_keeps by blast
  have s': "s' = ?s1\<lparr>s_mem := k\<rparr>"
    using k by (simp add: s'_def restart_syscall_after_seccomp_def Let_def peek_def)
  have ip: "INSTR_POINTER \<in> control" and num: "SYSARG_NUM \<in> control" by (simp_all add: control_def)
  have reg: "peek s' r = peek_reg (poke_reg ?t INSTR_POINTER ?ip) CURRENT r" for r
    by (simp add: s' peek_def poke_def)
  show "peek s' r = peek s r" if "argument r" for r
    using control_offset(1)[OF ip that, of ?t] by (simp add: reg peek_poke_other) (simp add: peek_def)
  show "peek s' SYSARG_NUM = peek s SYSARG_NUM"
    using control_offset(2)[OF ip num, of ?t] by (simp add: reg peek_poke_other) (simp add: peek_def)
  show "peek s' INSTR_POINTER = cut s ?ip" by (simp add: reg peek_poke cut_def)
  show "n_restart_how s' = PTRACE_SYSCALL" "restore_original_regs_after_seccomp_event (s_regs s')"
    "is_aarch32 (s_regs s') = is_aarch32 (s_regs s)"
    "regs (s_regs s') ORIGINAL_SECCOMP_REWRITE = regs (s_regs s) ORIGINAL_SECCOMP_REWRITE"
    "s_tracee s' = s_tracee s" "s_world s' = s_world s"
    by (simp_all add: s' poke_def)
qed

lemma poke_args_fields [simp]:
  "s_tracee (poke_args args s) = s_tracee s" "s_world (poke_args args s) = s_world s"
  "s_mem (poke_args args s) = s_mem s"
  by (induction args arbitrary: s) (auto simp: poke_def)

lemma set_call_effect:
  assumes "set_call target s = Inr s1"
  shows "\<And>r. argument r \<Longrightarrow> peek s1 r = peek s r" and "peek s1 INSTR_POINTER = peek s INSTR_POINTER"
    and "get_sysnum (s_regs s1) CURRENT =
      Inr (if detranslate_sysnum (get_abi (s_regs s)) target = Inr SYSCALL_AVOIDER then PR_void else target)"
    and "is_aarch32 (s_regs s1) = is_aarch32 (s_regs s)"
    and "restore_original_regs (s_regs s1) = restore_original_regs (s_regs s)"
    and "get_systrap_size (s_regs s1) = get_systrap_size (s_regs s)"
    and "\<And>version. version \<noteq> CURRENT \<Longrightarrow> regs (s_regs s1) version = regs (s_regs s) version"
    and "s_tracee s1 = s_tracee s" and "s_world s1 = s_world s"
proof -
  obtain t n where t: "set_sysnum (s_regs s) target = Inr t" "s1 = s\<lparr>s_regs := t\<rparr>" "t = poke_reg (s_regs s) SYSARG_NUM n"
    using assms by (auto simp: set_call_def set_sysnum_def split: sum.splits)
  have num: "SYSARG_NUM \<in> control" and ip: "INSTR_POINTER \<in> control" by (simp_all add: control_def)
  show "peek s1 r = peek s r" if "argument r" for r
    using control_offset(1)[OF num that, of "s_regs s"] set_sysnum_other[OF t(1), of r] by (simp add: t(2) peek_def)
  show "peek s1 INSTR_POINTER = peek s INSTR_POINTER"
    using control_offset(2)[OF ip num, of "s_regs s"] set_sysnum_other[OF t(1), of INSTR_POINTER]
    by (simp add: t(2) peek_def)
  show "get_sysnum (s_regs s1) CURRENT =
      Inr (if detranslate_sysnum (get_abi (s_regs s)) target = Inr SYSCALL_AVOIDER then PR_void else target)"
    using get_set_sysnum[OF t(1)] by (simp add: t(2))
  show "is_aarch32 (s_regs s1) = is_aarch32 (s_regs s)"
    "restore_original_regs (s_regs s1) = restore_original_regs (s_regs s)"
    "get_systrap_size (s_regs s1) = get_systrap_size (s_regs s)"
    "s_tracee s1 = s_tracee s" "s_world s1 = s_world s"
    by (simp_all add: t(2,3))
  show "regs (s_regs s1) version = regs (s_regs s) version" if "version \<noteq> CURRENT" for version
    using that by (simp add: t(2,3))
qed

text \<open>
  The call of the state \<open>s'\<close> replaces the call \<open>sysnum\<close> of \<open>s\<close> by \<open>target\<close>: same paths, executed again
  from the same instruction, registers saved for the end of the call.
\<close>

definition replaces :: "nat \<Rightarrow> nat \<Rightarrow> ('k, 'w, 'z) Call_scheme \<Rightarrow> ('k, 'w, 'z) Call_scheme \<Rightarrow> bool" where
  "replaces sysnum target s s' \<longleftrightarrow>
     get_sysnum (s_regs s') CURRENT =
       Inr (if detranslate_sysnum (get_abi (s_regs s)) target = Inr SYSCALL_AVOIDER then PR_void else target)
     \<and> call_paths target s' = call_paths sysnum s
     \<and> peek s' INSTR_POINTER = cut s (peek s INSTR_POINTER - get_systrap_size (s_regs s))
     \<and> regs (s_regs s') ORIGINAL_SECCOMP_REWRITE = regs (s_regs s) ORIGINAL_SECCOMP_REWRITE
     \<and> restore_original_regs_after_seccomp_event (s_regs s') \<and> n_restart_how s' = PTRACE_SYSCALL
     \<and> s_tracee s' = s_tracee s \<and> s_world s' = s_world s"

lemma set_call_defined: "\<exists>s1. set_call target s = Inr s1"
  using set_sysnum_defined[of "s_regs s" target] by (auto simp: set_call_def)

lemma restart_as_replaces:
  fixes s :: "('k, 'w, 'z) Call_scheme"
  assumes "\<not> restore_original_regs (s_regs s)" and "rewriting sysnum = Some (target, args)"
  shows "\<exists>s'. restart_as R target args s = (Inr 0, s') \<and> replaces sysnum target s s'"
proof -
  obtain s1 where s1: "set_call target s = Inr s1" using set_call_defined by blast
  note set = set_call_effect[OF s1]
  let ?s2 = "poke_args args s1"
  let ?s3 = "restart_syscall_after_seccomp R ?s2"
  have "same_control s1 ?s2" using rewriting_arguments[OF assms(2)] by (rule same_control_args)
  then have ctl: "is_aarch32 (s_regs ?s2) = is_aarch32 (s_regs s1)"
    "restore_original_regs (s_regs ?s2) = restore_original_regs (s_regs s1)"
    "get_systrap_size (s_regs ?s2) = get_systrap_size (s_regs s1)"
    "regs (s_regs ?s2) ORIGINAL_SECCOMP_REWRITE = regs (s_regs s1) ORIGINAL_SECCOMP_REWRITE"
    "peek ?s2 SYSARG_NUM = peek s1 SYSARG_NUM" "peek ?s2 INSTR_POINTER = peek s1 INSTR_POINTER"
    by (simp_all add: same_control_def control_def)
  have off: "\<not> restore_original_regs (s_regs ?s2)" using ctl(2) set(5) assms(1) by simp
  note restart = restart_effect[OF off, where R = R]
  have num: "get_sysnum (s_regs ?s3) CURRENT = get_sysnum (s_regs s1) CURRENT"
    using restart(2,6) ctl(1,5) by (simp add: get_sysnum_def peek_def get_abi_def)
  have "call_paths target ?s3 = call_paths target ?s2" by (rule call_paths_cong) (rule restart(1))
  also have "\<dots> = call_paths sysnum s1" by (rule rewriting_paths[OF assms(2)])
  also have "\<dots> = call_paths sysnum s" by (rule call_paths_cong) (rule set(1))
  finally have "call_paths target ?s3 = call_paths sysnum s" .
  moreover have "cut ?s2 = cut s" using ctl(1) set(4) by (simp add: cut_def fun_eq_iff)
  ultimately have "replaces sysnum target s ?s3"
    using restart num ctl set by (simp add: replaces_def)
  then show ?thesis using s1 by (simp add: restart_as_def)
qed

lemma handle_seccomp_replaces:
  fixes s :: "('k, 'w, 'z) Xcall_scheme"
  assumes "fetch_regs R ((s_regs s)\<lparr>restore_original_regs := False\<rparr>) (s_mem s) = (None, t, k)"
    and "get_sysnum t CURRENT = Inr sysnum" and "rewriting sysnum = Some (target, args)"
    and "z_sigsys_occ Z = (\<lambda>s. (Inr 0, s))"
  shows "\<exists>s'. handle_seccomp_event P R Z s = (Inr 0, s')
    \<and> replaces sysnum target (s\<lparr>x_status := 0, s_regs := save_current_regs t ORIGINAL_SECCOMP_REWRITE, s_mem := k\<rparr>) s'"
proof -
  let ?t = "save_current_regs t ORIGINAL_SECCOMP_REWRITE"
  let ?s = "s\<lparr>x_status := 0, s_regs := ?t, s_mem := k\<rparr>"
  have "\<not> restore_original_regs t"
    using assms(1) by (auto simp: fetch_regs_def set_bank_def split: prod.splits option.splits)
  then have off: "\<not> restore_original_regs (s_regs ?s)" by (simp add: save_current_regs_def set_bank_def)
  have num: "get_sysnum (s_regs ?s) CURRENT = Inr sysnum"
    using assms(2) by (simp add: save_current_regs_def set_bank_def get_sysnum_def get_abi_def peek_reg_def
        REG_def REG_offset_def is_32on64_mode_def)
  have "handle_seccomp_event P R Z s = restart_as R target args ?s"
    using num assms by (simp add: handle_seccomp_event_def handle_seccomp_event_common_def seccomp_switch_def)
  then show ?thesis using restart_as_replaces[OF off assms(3), where R = R] by auto
qed

subsection \<open>Time limits of 32-bit processes\<close>

text \<open>
  The time limit of \<open>poll\<close> is written with fields of 64 bits.  A 32-bit process, and only those have
  \<open>poll\<close>, gives the kernel a structure of two 32-bit fields: the seconds, then zero nanoseconds.
\<close>

lemma poll_timespec_32bit:
  assumes "0 \<le> ms" and "ms < 2 ^ 31"
  shows "field_at 0 4 (poll_timespec ms) = le 4 (of_int (ms div 1000))"
    and "field_at 4 4 (poll_timespec ms) = replicate 4 0"
proof -
  have split: "field_at 0 4 (le 8 v @ bs) = le 4 v" "field_at 4 4 (le 8 v @ bs) = le 4 (drop_bit 32 v)" for v bs
    by (auto simp: field_at_def le_def list_eq_iff_nth_eq byte_at_def ac_simps)
  have "ms div 1000 < 2 ^ 32" "0 \<le> ms div 1000" using assms by auto
  then have "uint (of_int (ms div 1000) :: word_t) < 2 ^ 32"
    by (simp add: unsigned_of_int take_bit_int_eq_self)
  then have "(of_int (ms div 1000) :: word_t) < 2 ^ 32" by (simp add: word_less_def)
  then have "drop_bit 32 (of_int (ms div 1000) :: word_t) = 0"
    by (simp only: drop_bit_eq_div div_word_less)
  then show "field_at 4 4 (poll_timespec ms) = replicate 4 0"
    by (simp add: poll_timespec_def timespec_def split le_zero)
  show "field_at 0 4 (poll_timespec ms) = le 4 (of_int (ms div 1000))"
    by (simp add: poll_timespec_def timespec_def split)
qed

end
