(* ===== verification/Exit_Props.thy ===== *)
theory Exit_Props
  imports Syscall_Exit Sigsys_Props
begin

section \<open>What the exit of a system call leaves\<close>

text \<open>
  The results of \<open>translate_syscall_exit\<close> where no extension interferes: those of the calls that were not
  executed, of \<open>getcwd\<close>, of \<open>readlink\<close> and of \<open>rename\<close>.
\<close>

subsection \<open>The frame of the switch\<close>

definition quiet_exit :: "('w, 's) Exit_Calls \<Rightarrow> bool" where
  "quiet_exit Z \<longleftrightarrow> (\<forall>s. z_exit_start Z s = (Inr 0, s)) \<and> (\<forall>s. z_exit_end Z s = (Inr 0, s))"

lemma quiet_end: "quiet_exit Z \<Longrightarrow> exit_end Z r = r"
  by (cases r; cases "fst r") (auto simp: exit_end_def quiet_exit_def)

lemma original_poke [simp]: "original (poke r v s) = original s" "modified (poke r v s) = modified s"
  by (simp_all add: fun_eq_iff original_def modified_def poke_def peek_poke_version)

lemma poke_fields [simp]:
  "s_mem (poke r v s) = s_mem s" "s_tracee (poke r v s) = s_tracee s" "s_world (poke r v s) = s_world s"
  by (simp_all add: poke_def)

lemma original_set_status: "set_status r s = (x, s') \<Longrightarrow> original s' = original s"
  by (auto simp: set_status_def split: sum.splits failure.splits)

lemma keep_void_original [simp]:
  "original (keep_void_result s) = original s" "modified (keep_void_result s) = modified s"
  "s_tracee (keep_void_result s) = s_tracee s" "s_mem (keep_void_result s) = s_mem s"
  "s_world (keep_void_result s) = s_world s" "is_aarch32 (s_regs (keep_void_result s)) = is_aarch32 (s_regs s)"
  "get_sysnum (s_regs (keep_void_result s)) ORIGINAL = get_sysnum (s_regs s) ORIGINAL"
  by (auto simp: keep_void_result_def) (simp_all add: poke_def get_sysnum_def peek_poke_version get_abi_def)

text \<open>The call was not made void at its entry.\<close>

definition executed :: "('k, 'w, 'z) Sys_scheme \<Rightarrow> bool" where
  "executed s \<longleftrightarrow> modified s SYSARG_NUM = original s SYSARG_NUM"

lemma keep_void_executed [simp]: "executed s \<Longrightarrow> keep_void_result s = s"
  by (simp add: executed_def keep_void_result_def)

lemma quiet_exit_switch:
  fixes s :: "('k, 'w, 'z) Xcall_scheme"
  assumes "quiet_exit Z" and "0 \<le> x_status s" and "get_sysnum (s_regs s) ORIGINAL = Inr sysnum"
  shows "translate_syscall_exit P R Z s =
    (case exit_switch P R Z sysnum (keep_void_result s) of
       (End, s) \<Rightarrow> (Inr (), s) | (Update r, s) \<Rightarrow> set_status r s)"
  using assms(1-3) by (simp add: translate_syscall_exit_def quiet_end quiet_exit_def Let_def
      split: prod.split exit_outcome.split)

text \<open>The results are small enough for the registers of both ABIs.\<close>

lemma cut_small: "n < 2 ^ 32 \<Longrightarrow> cut s (of_nat n) = of_nat n"
proof -
  assume n: "n < 2 ^ 32"
  then have "unat (of_nat n :: word_t) = n" by (simp add: unat_of_nat_small)
  then show ?thesis
    using fits_small[of "of_nat n" "s_regs s"] n by (simp add: cut_def fits_def)
qed

lemma peek_result [simp]: "peek (poke SYSARG_RESULT v s) SYSARG_RESULT = cut s v"
  by (simp add: peek_def poke_def peek_poke cut_def)

lemma set_status_result:
  assumes "set_status (Inr n) s = (x, s')" and "n < 2 ^ 32"
  shows "x = Inr () \<and> peek s' SYSARG_RESULT = of_nat n"
  using assms cut_small[of n s] by (auto simp: set_status_def)

subsection \<open>Calls that are not executed\<close>

lemma detranslate_void: "detranslate_sysnum abi PR_void = Inr SYSCALL_AVOIDER"
  by (simp add: detranslate_sysnum_def)

lemma avoider_cut: "SYSCALL_AVOIDER AND 0xFFFFFFFF = 0xFFFFFFFF"
  by (simp add: SYSCALL_AVOIDER_def)

text \<open>The enter stage left the state \<open>s1\<close>, which was saved; \<open>s\<close> is the state at the exit stage.\<close>

definition follows :: "('k, 'w, 'z) Sys_scheme \<Rightarrow> ('k, 'w, 'z) Sys_scheme \<Rightarrow> bool" where
  "follows s1 s \<longleftrightarrow> is_aarch32 (s_regs s) = is_aarch32 (s_regs s1)
     \<and> regs (s_regs s) MODIFIED = regs (s_regs s1) CURRENT"

lemma follows_modified: "follows s1 s \<Longrightarrow> modified s r = peek s1 r"
  by (simp add: follows_def modified_def peek_def peek_reg_def REG_def REG_offset_def is_32on64_mode_def)

lemma void_call_registers:
  assumes "void_call v s0 = (Inr n, s1)"
  shows "peek s1 SYSARG_RESULT = cut s1 v" and "peek s1 SYSARG_NUM = cut s1 SYSCALL_AVOIDER"
proof -
  have s1: "s1 = poke SYSARG_NUM SYSCALL_AVOIDER (poke SYSARG_RESULT v s0)"
    using assms by (auto simp: void_call_def set_call_def set_sysnum_def detranslate_void poke_def)
  have "REG_offset t SYSARG_RESULT \<noteq> REG_offset t SYSARG_NUM" for t
    by (simp add: REG_offset_def reg_offset_def reg_offset_armeabi_def)
  then show "peek s1 SYSARG_RESULT = cut s1 v" "peek s1 SYSARG_NUM = cut s1 SYSCALL_AVOIDER"
    by (simp_all add: s1 peek_def poke_def peek_poke cut_def)
qed

lemma sysnum_not_avoider:
  assumes "get_sysnum (s_regs s) ORIGINAL = Inr sysnum" and "sysnum \<noteq> PR_void"
  shows "original s SYSARG_NUM \<noteq> cut s SYSCALL_AVOIDER"
proof
  assume "original s SYSARG_NUM = cut s SYSCALL_AVOIDER"
  then have "get_sysnum (s_regs s) ORIGINAL = Inr PR_void"
    using translate_avoider[of ABI_DEFAULT] avoider_cut
    by (auto simp: get_sysnum_def original_def cut_def get_abi_def translate_sysnum_def sysnums_simps)
  then show False using assms by simp
qed

lemma void_result_kept:
  fixes s :: "('k, 'w, 'z) Xcall_scheme"
  assumes "void_call v s0 = (Inr n, s1)" and "follows s1 s" and "get_sysnum (s_regs s) ORIGINAL = Inr sysnum"
    and "sysnum \<noteq> PR_void"
  shows "peek (keep_void_result s) SYSARG_RESULT = cut s v"
proof -
  have c: "cut s1 = cut s" using assms(2) by (simp add: fun_eq_iff follows_def cut_def)
  have "modified s SYSARG_NUM = cut s SYSCALL_AVOIDER" "modified s SYSARG_RESULT = cut s v"
    using follows_modified[OF assms(2)] void_call_registers[OF assms(1)] c by simp_all
  moreover have "cut s (cut s v) = cut s v" by (simp add: cut_def and.assoc)
  ultimately show ?thesis
    using sysnum_not_avoider[OF assms(3,4)] by (simp add: keep_void_result_def cut_def is_32on64_mode_def)
qed

subsection \<open>Directories and links\<close>

lemma string_of_bytes: "takeWhile (\<lambda>b. b \<noteq> 0) bs = map of_char p \<Longrightarrow> string_of bs = p"
  by (simp add: string_of_def char_of_byte comp_def)

text \<open>What \<open>readlink(2)\<close> promises of a link to \<open>path\<close> for a buffer of \<open>n\<close> bytes.\<close>

definition readlink_result :: "string \<Rightarrow> nat \<Rightarrow> nat" where
  "readlink_result path n = min (length path) n"

context ptrace_memory
begin

lemma getcwd_writes:
  assumes "exit_getcwd P E s = (Inr n, s')" and "NUL \<notin> set (fs_cwd (t_fs (s_tracee s')))" and "n < PATH_MAX"
  shows "read_path P (s_mem s') (original s SYSARG_1) = Inr (fs_cwd (t_fs (s_tracee s')), n)"
    and "n = length (fs_cwd (t_fs (s_tracee s'))) + 1" and "n \<le> unat (original s SYSARG_2)"
proof -
  let ?cwd = "fs_cwd (t_fs (s_tracee s'))"
  obtain k where k: "write_data P k (original s SYSARG_1) (string_bytes ?cwd) = (Inr (), s_mem s')"
    "n = length ?cwd + 1" "n \<le> unat (original s SYSARG_2)"
    using assms(1) by (auto simp: exit_getcwd_def Let_def original_def split: if_split_asm sum.splits prod.splits)
  then show "n = length ?cwd + 1" "n \<le> unat (original s SYSARG_2)" by simp_all
  from written_path_read[OF k(1) assms(2)] assms(3) k(2)
  show "read_path P (s_mem s') (original s SYSARG_1) = Inr (?cwd, n)" by simp
qed

lemma write_referee_writes:
  assumes "mapped (bytes (s_mem s)) (untag_pointer output) (8 * ((max_size + 7) div 8))" and "max_size \<le> PATH_MAX"
  shows "\<exists>s'. write_referee P output max_size path (length path + 1) s =
      (Inr (if max_size = length path + 1 then length path + 1 else readlink_result path max_size), s')
    \<and> read_data P (s_mem s') output (readlink_result path max_size) =
        Inr (map of_char (take (readlink_result path max_size) path))
    \<and> s_regs s' = s_regs s"
proof -
  let ?bs = "take max_size (string_bytes path)"
  let ?n = "readlink_result path max_size"
  have n: "?n \<le> length ?bs" by (simp add: readlink_result_def)
  have eq: "?bs = (if length path + 1 < max_size then string_bytes path else ?bs)" by simp
  have len: "length ?bs \<le> max_size" by simp
  have m: "mapped (bytes (s_mem s)) (untag_pointer output) (8 * ((length ?bs + 7) div 8))"
    using assms(1) by (rule mapped_mono) (simp add: div_le_mono)
  have small: "length ?bs < 2 ^ 63" using assms(2) by (simp add: PATH_MAX_def)
  obtain k where k: "write_data P (s_mem s) output ?bs = (Inr (), k)"
    "bytes k = put (bytes (s_mem s)) (untag_pointer output) ?bs"
    using write_data_put[OF m small] by blast
  have "write_referee P output max_size path (length path + 1) s =
      (Inr (if max_size = length path + 1 then length path + 1 else ?n), s\<lparr>s_mem := k\<rparr>)"
    using k(1) by (auto simp: write_referee_def readlink_result_def Let_def)
  moreover have "read_data P k output ?n = Inr (map of_char (take ?n path))"
  proof -
    have "mapped (bytes k) (untag_pointer output) (8 * ((?n + 7) div 8))"
      unfolding k(2) by (rule mapped_put, rule mapped_mono[OF m]) (use n in \<open>simp add: div_le_mono\<close>)
    then have "read_data P k output ?n = Inr (contents (bytes k) (untag_pointer output) ?n)"
      by (rule read_data_contents)
    also have "contents (bytes k) (untag_pointer output) ?n
        = take ?n (contents (bytes k) (untag_pointer output) (length ?bs))"
      using n by (simp add: contents_take)
    also have "contents (bytes k) (untag_pointer output) (length ?bs) = ?bs"
      unfolding k(2) by (rule contents_put) (use small in simp)
    also have "take ?n ?bs = map of_char (take ?n path)"
      by (simp add: string_bytes_def readlink_result_def take_map min_def)
    finally show ?thesis .
  qed
  ultimately show ?thesis by simp
qed

end

subsection \<open>Moved directories\<close>

lemma under_iff_prefix:
  assumes "valid_comps os" and "valid_comps cs"
  shows "compare_paths (path_of os) (path_of cs) \<in> {PATH1_IS_PREFIX, PATHS_ARE_EQUAL} \<longleftrightarrow> prefix os cs"
  using covers_paths[OF assms] by (auto simp: Bindings.covers_def)

lemma rename_cwd:
  assumes "guest_path_at P E (modified s old_reg) s = Inr (path_of os, length (path_of os))"
    and "guest_path_at P E (modified s new_reg) s = Inr (path_of ns, length (path_of ns))"
    and "fs_cwd (t_fs (s_tracee s)) = path_of cs" and "valid_comps os" and "valid_comps ns" and "valid_comps cs"
    and "os \<noteq> []" and "length (path_of cs) < PATH_MAX" and "length (path_of ns) + length (path_of cs) < PATH_MAX"
  shows "exit_rename P E old_reg new_reg s =
    (Inr 0, if prefix os cs then s\<lparr>s_tracee := change_cwd (path_of (ns @ drop (length os) cs)) (s_tracee s)\<rparr> else s)"
proof (cases "prefix os cs")
  case False
  then have "compare_paths (path_of os) (path_of cs) \<notin> {PATH1_IS_PREFIX, PATHS_ARE_EQUAL}"
    using under_iff_prefix[OF assms(4,6)] by blast
  then show ?thesis using False assms(1,3) by (simp add: exit_rename_def Let_def)
next
  case True
  then obtain rest where cs: "cs = os @ rest" by (auto elim: prefixE)
  have rest: "valid_comps rest" using assms(6) by (simp add: cs)
  have "compare_paths (path_of os) (path_of cs) \<in> {PATH1_IS_PREFIX, PATHS_ARE_EQUAL}"
    using under_iff_prefix[OF assms(4,6)] True by blast
  moreover have "substitute_path_prefix (path_of cs) (length (path_of os)) (path_of ns) (length (path_of ns))
      = Inr (path_of (ns @ rest))"
  proof -
    have len: "length (path_of (ns @ rest)) < PATH_MAX"
      using assms(7,9) by (cases "ns = []"; cases "rest = []") (auto simp: cs PATH_MAX_def)
    then have "length (path_of (ns @ rest)) < 2 ^ 64" by (simp add: PATH_MAX_def)
    from substitute_path_prefix_comps[OF assms(4,5) rest _ this] assms(7) len
    show ?thesis by (simp add: cs substitution_fits_def)
  qed
  ultimately show ?thesis
    using True assms(1-3,8) by (auto simp: exit_rename_def Let_def cs)
qed

subsection \<open>What the exit stage leaves out\<close>

text \<open>The current directory does not follow a move by \<open>renameat2\<close>.\<close>

lemma renameat2_ignored: "exit_switch P R Z PR_renameat2 s = (End, s)"
  by (simp add: exit_switch_def leaves_errors_def Let_def)

text \<open>
  An address that the enter stage of \<open>socketcall\<close> leaves alone (another family) is overwritten at the exit
  stage by registers that nothing saved it in.
\<close>

lemma socketcall_untranslated:
  assumes "peek_word P (s_regs s) (s_mem s) (addr 2) = Inr sock_addr"
    and "peek_word P (s_regs s) (s_mem s) (addr 3) = Inr sz"
    and "translate_socketcall_enter P (y_temp Y) (y_env Y) sock_addr (int_of_word sz) s = (Inr (False, a), s)"
  shows "socketcall_address P Y addr s = (Inr 0, s)"
    and "restore_socketcall P addr s0 =
      (case poked (poke_word P (s_regs s0) (s_mem s0) (addr 2) (modified s0 SYSARG_5)) of
         (Inl e, k) \<Rightarrow> (Inl e, s0\<lparr>s_mem := k\<rparr>)
       | (Inr _, k) \<Rightarrow>
           (case poked (poke_word P (s_regs s0) k (addr 3) (modified s0 SYSARG_6)) of (r, k) \<Rightarrow> (r, s0\<lparr>s_mem := k\<rparr>)))"
  using assms by (simp_all add: socketcall_address_def restore_socketcall_def)

text \<open>An error of \<open>read\<close> in a 32-bit process is taken for a length of almost 4 GB.\<close>

lemma read_error_as_length:
  assumes "is_aarch32 (s_regs s)" and "result_int s = fail_code EFAULT" and "0 \<le> n_auxv_fd s"
    and "n_execfn_addr s \<noteq> 0" and "int_of_word (original s SYSARG_1) = n_auxv_fd s"
  shows "exit_read P s =
    want_sysexit (s\<lparr>s_mem := patch_execfn P (s_regs s) (original s SYSARG_2) 0xFFFFFFF2 (n_execfn_addr s) 0 (s_mem s)\<rparr>)"
proof -
  let ?v = "peek s SYSARG_RESULT"
  have "sint (ucast ?v :: 32 word) = -14"
    using assms(2) by (simp add: result_int_def int_arg_def int_of_word_def fail_code_def)
  then have "(ucast ?v :: 32 word) = -14" by (intro signed_word_eqI) simp
  then have u: "uint (ucast ?v :: 32 word) = 0xFFFFFFF2" by simp
  have small: "unat ?v < 2 ^ 32" using peek_reg_32[OF assms(1)] by (simp add: peek_def)
  have "uint ?v mod 2 ^ 32 = 0xFFFFFFF2" using u by (simp add: unsigned_ucast_eq take_bit_eq_mod)
  moreover have "uint ?v < 2 ^ 32" using small by (simp only: uint_nat of_nat_less_numeral_power_cancel_iff)
  ultimately have "uint ?v = 0xFFFFFFF2" by simp
  then have v: "?v = 0xFFFFFFF2" by (simp add: word_uint_eq_iff)
  show ?thesis using assms(3-5) by (simp add: exit_read_def v Let_def)
qed

text \<open>No ABI of the build has \<open>newfstatat\<close>, by which \<open>stat\<close> and \<open>lstat\<close> are replaced after a SIGSYS.\<close>

lemma newfstatat_missing: "abi \<noteq> ABI_3 \<Longrightarrow> detranslate_sysnum abi PR_newfstatat = Inr SYSCALL_AVOIDER"
proof -
  have "PR_newfstatat \<notin> snd ` set sysnums_arm64" "PR_newfstatat \<notin> snd ` set sysnums_arm"
    by (simp_all add: sysnums_arm64_def sysnums_arm64_1_def sysnums_arm64_2_def
        sysnums_arm_def sysnums_arm_1_def sysnums_arm_2_def sysnums_arm_3_def)
  then have "find (\<lambda>i. array_get sysnums_arm64 i = PR_newfstatat) is = None"
    "find (\<lambda>i. array_get sysnums_arm i = PR_newfstatat) is = None" for "is"
    by (force simp: find_None_iff dest: arm64.array_get_Some arm.array_get_Some)+
  then show "abi \<noteq> ABI_3 \<Longrightarrow> ?thesis" by (cases abi) (simp_all add: detranslate_sysnum_def sysnums_simps)
qed

end
