(* ===== verification/Exit_Properties.thy ===== *)
theory Exit_Properties
  imports Tracee_Properties Exit_Props
begin

section \<open>Properties of the exit of a system call and of the refused calls\<close>

text \<open>
  The promises of \<open>translate_syscall_exit\<close> for the calls whose results are replaced, and of
  \<open>handle_seccomp_event\<close> for the calls that a policy of the system refuses, with instances.
\<close>

subsection \<open>Refused calls\<close>


text \<open>A 32-bit process whose \<open>open\<close> is refused.\<close>

definition ex_open_regs :: Tracee_Regs where
  "ex_open_regs = poke_regs [(SYSARG_NUM, 5), (SYSARG_1, 0x1000)] (ex_regs True)"

definition ex_ptrace_regs :: "(word_t \<Rightarrow> byte option) Ptrace_Regs" where
  "ex_ptrace_regs = \<lparr>p_getregset = (\<lambda>k b. (Some (regs ex_open_regs CURRENT), k)),
     p_setregset = (\<lambda>k b. (True, k)), p_set_system_call = (\<lambda>k n. (True, k))\<rparr>"

definition ex_xcall :: "Tracee_Regs \<Rightarrow> (word_t \<Rightarrow> byte option) \<Rightarrow> (word_t \<Rightarrow> byte option, unit) Xcall" where
  "ex_xcall t m = \<lparr>s_regs = t, s_tracee = ex_tracee, s_mem = m, s_world = (),
     n_heap = n_heap ex_call, n_load_info = None, n_fds = [], n_pending_socket = False, n_reply = [],
     n_reply_len = 0, n_stripped_newns = False, n_sysexit_pending = False, n_restart_how = PTRACE_CONT,
     n_execfn_addr = 0, n_auxv_fd = -1, n_no_new_privs = False, x_status = 1, x_seen_execve = True\<rparr>"

definition ex_stat :: Stat where
  "ex_stat = \<lparr>st_rdev = 0, st_ino = 9, st_mode = 0x81A4, st_nlink = 1, st_uid = 0, st_gid = 0, st_size = 5,
     st_blksize = 4096, st_blocks = 8, st_atim = (1, 2), st_mtim = (3, 4), st_ctim = (5, 6)\<rparr>"

definition ex_exits :: "(unit, (word_t \<Rightarrow> byte option, unit) Xcall) Exit_Calls" where
  "ex_exits = \<lparr>z_env = ex_env, z_stat = \<lparr>hs_stat = (\<lambda>w p. Inr ex_stat), hs_lstat = (\<lambda>w p. Inr ex_stat)\<rparr>,
     z_statx = (\<lambda>p bs u s. ((Inr 0, bs, u), s)), z_sigsys_occ = (\<lambda>s. (Inr 0, s)), z_statfs = (\<lambda>w p. Err ENOENT),
     z_unfinished = [], z_time = (\<lambda>w. 0), z_getpgid = (\<lambda>w p. 1), z_getresuid = (\<lambda>w. Some (0, 0, 0)),
     z_getresgid = (\<lambda>w. Some (0, 0, 0)), z_limit = \<lparr>sl_get = (\<lambda>w. None), sl_set = (\<lambda>w v. w)\<rparr>,
     z_exit_start = (\<lambda>s. (Inr 0, s)), z_exit_end = (\<lambda>s. (Inr 0, s)), z_execve_exit = (\<lambda>s. s),
     z_ptrace_exit = (\<lambda>s. (Inr 0, s)), z_wait_exit = (\<lambda>s. (Inr 0, s)), z_waits_in_proot = (\<lambda>s. False)\<rparr>"

lemma same_bank_peek:
  "regs t v = regs t' v' \<Longrightarrow> is_aarch32 t = is_aarch32 t' \<Longrightarrow> peek_reg t v r = peek_reg t' v' r"
  by (simp add: peek_reg_def REG_def REG_offset_def is_32on64_mode_def)

lemma ex_open_registers:
  "peek_reg ex_open_regs CURRENT SYSARG_NUM = 5" "peek_reg ex_open_regs CURRENT SYSARG_1 = 0x1000"
  "peek_reg ex_open_regs CURRENT SYSARG_2 = 0"
  by (simp_all add: ex_open_regs_def peek_poke ex_regs_def REG_offset_def reg_offset_armeabi_def)
    (simp add: peek_reg_def REG_def load64_def numeral_eq_Suc)


subsection \<open>Results of the exit stage\<close>

text \<open>The result of the source for a link, without the case of a buffer of one byte more than the path.\<close>

definition readlink_returned :: "string \<Rightarrow> nat \<Rightarrow> nat" where
  "readlink_returned path n = (if n = length path + 1 then length path + 1 else readlink_result path n)"

text \<open>
  C10. Functional behaviour of the exit of \<open>readlink\<close> and \<open>readlinkat\<close>: where the target of the link has a
  name in the guest, the buffer of the process starts with that name, cut to the size of the buffer,
  and the result is its length, as the manual page promises; but a buffer that is exactly one byte
  longer than the name gets its size as the result, so that the process sees a NUL at the end.
\<close>

theorem readlink_detranslated:
  fixes s :: "('k, 'w, 'z) Xcall_scheme"
  assumes "ptrace_memory P bytes" and "quiet_exit Z" and "0 \<le> x_status s" and "executed s" and "0 \<le> result_int s"
    and "get_sysnum (s_regs s) ORIGINAL = Inr sysnum" and "sysnum = PR_readlink \<or> sysnum = PR_readlinkat"
    and "readlink_regs sysnum = (out, sz, i)" and "max_size = min (unat (original s sz)) PATH_MAX" and "0 < max_size"
    and "unat (peek s SYSARG_RESULT) = n" and "n < PATH_MAX" and "read_data P (s_mem s) (original s out) n = Inr bs"
    and "readlink_referer P (z_env Z) sysnum (modified s i) s = Inr referer"
    and "detranslate_path (e_tracees (z_env Z)) (s_tracee s)
           (full_referee (z_env Z) (s_world s) referer (n = max_size) (string_of bs)) (Some referer)
         = Inr (length path + 1, path)"
    and "mapped (bytes (s_mem s)) (untag_pointer (original s out)) (8 * ((max_size + 7) div 8))"
  shows "\<exists>s'. translate_syscall_exit P R Z s = (Inr (), s')
    \<and> peek s' SYSARG_RESULT = of_nat (readlink_returned path max_size)
    \<and> read_data P (s_mem s') (original s out) (readlink_result path max_size)
        = Inr (map of_char (take (readlink_result path max_size) path))"
proof -
  have max: "max_size \<le> PATH_MAX" using assms(9) by simp
  obtain s1 where s1: "write_referee P (original s out) max_size path (length path + 1) s =
      (Inr (readlink_returned path max_size), s1)"
    "read_data P (s_mem s1) (original s out) (readlink_result path max_size)
      = Inr (map of_char (take (readlink_result path max_size) path))"
    using ptrace_memory.write_referee_writes[OF assms(1,16) max, of path] by (auto simp: readlink_returned_def)
  have "exit_readlink P (z_env Z) sysnum s = (Update (Inr (readlink_returned path max_size)), s1)"
    using assms(8-15) s1(1) by (simp add: exit_readlink_def Let_def)
  then have sw: "exit_switch P R Z sysnum s = (Update (Inr (readlink_returned path max_size)), s1)"
    using assms(5,7) by (auto simp: exit_switch_def leaves_errors_def Let_def)
  obtain x s' where s': "set_status (Inr (readlink_returned path max_size)) s1 = (x, s')" by fastforce
  have "readlink_returned path max_size < 2 ^ 32"
    using max by (auto simp: readlink_returned_def readlink_result_def PATH_MAX_def)
  from set_status_result[OF s' this] have "x = Inr ()" "peek s' SYSARG_RESULT = of_nat (readlink_returned path max_size)"
    by simp_all
  moreover have "s_mem s' = s_mem s1" using s' by (auto simp: set_status_def poke_def)
  ultimately show ?thesis
    using quiet_exit_switch[OF assms(2,3,6), of P R] assms(4) sw s' s1(2) by simp
qed

text \<open>The registers at the exit of a call that returned \<open>v\<close>, whose arguments are \<open>rvs\<close>.\<close>

definition ex_exit_regs :: "(Reg \<times> word_t) list \<Rightarrow> word_t \<Rightarrow> Tracee_Regs" where
  "ex_exit_regs rvs v =
     (let t = poke_regs rvs (ex_regs False)
      in set_bank (save_current_regs (save_current_regs t ORIGINAL) MODIFIED) CURRENT
           (regs (poke_reg t SYSARG_RESULT v) CURRENT))"

lemma ex_exit_registers:
  "original (ex_xcall (ex_exit_regs rvs v) m) r = peek_reg (poke_regs rvs (ex_regs False)) CURRENT r"
  "modified (ex_xcall (ex_exit_regs rvs v) m) r = peek_reg (poke_regs rvs (ex_regs False)) CURRENT r"
  "peek (ex_xcall (ex_exit_regs rvs v) m) SYSARG_RESULT = v"
proof -
  let ?t = "poke_regs rvs (ex_regs False)" let ?s = "ex_xcall (ex_exit_regs rvs v) m"
  have a: "\<not> is_aarch32 ?t" by (simp add: ex_regs_def)
  show "original ?s r = peek_reg ?t CURRENT r" "modified ?s r = peek_reg ?t CURRENT r"
    unfolding original_def modified_def
    by (rule same_bank_peek; simp add: ex_xcall_def ex_exit_regs_def save_current_regs_def set_bank_def Let_def)+
  have "peek ?s SYSARG_RESULT = peek_reg (poke_reg ?t SYSARG_RESULT v) CURRENT SYSARG_RESULT"
    unfolding peek_def
    by (rule same_bank_peek; simp add: ex_xcall_def ex_exit_regs_def save_current_regs_def set_bank_def Let_def)
  then show "peek ?s SYSARG_RESULT = v" using a by (simp add: peek_poke)
qed

lemma ex_exit_sysnum:
  assumes "peek_reg (poke_regs rvs (ex_regs False)) CURRENT SYSARG_NUM = n"
    and "translate_sysnum ABI_DEFAULT n = Inr sysnum"
  shows "get_sysnum (s_regs (ex_xcall (ex_exit_regs rvs v) m)) ORIGINAL = Inr sysnum"
proof -
  have "get_abi (s_regs (ex_xcall (ex_exit_regs rvs v) m)) = ABI_DEFAULT"
    by (simp add: ex_xcall_def ex_exit_regs_def get_abi_def save_current_regs_def set_bank_def Let_def ex_regs_def)
  then show ?thesis
    using ex_exit_registers(1)[of rvs v m SYSARG_NUM] assms by (simp add: get_sysnum_def original_def)
qed

lemma ex_exits_quiet: "quiet_exit ex_exits"
  by (simp add: quiet_exit_def ex_exits_def)

lemma ex_exit_executed: "executed (ex_xcall (ex_exit_regs rvs v) m)"
  by (simp add: executed_def ex_exit_registers)

definition ex_link_regs :: "(Reg \<times> word_t) list" where
  "ex_link_regs = [(SYSARG_NUM, 78), (SYSARG_2, 0x1000), (SYSARG_3, 0x2000), (SYSARG_4, 3)]"

definition ex_link_mem :: "word_t \<Rightarrow> byte option" where
  "ex_link_mem = put (put (\<lambda>x. Some 0) 0x2000 (map of_char ''/r/'')) 0x1000 (string_bytes ''/r/l'')"

text \<open>A link to the guest path /a read into a buffer of three bytes: the result is 3 instead of 2.\<close>

theorem readlink_detranslated_witness:
  "\<exists>s'. translate_syscall_exit plain_memory ex_ptrace_regs
        (ex_exits\<lparr>z_env := ex_env\<lparr>h_readlink := (\<lambda>w p. Inr ''/r/a'')\<rparr>\<rparr>) (ex_xcall (ex_exit_regs ex_link_regs 3) ex_link_mem)
      = (Inr (), s') \<and> peek s' SYSARG_RESULT = 3
    \<and> read_data plain_memory (s_mem s') 0x2000 2 = Inr (map of_char ''/a'')"
proof -
  let ?s = "ex_xcall (ex_exit_regs ex_link_regs 3) ex_link_mem"
  let ?E = "ex_env\<lparr>h_readlink := (\<lambda>w p. Inr ''/r/a'')\<rparr>" let ?Z = "ex_exits\<lparr>z_env := ?E\<rparr>"
  have regs: "original ?s SYSARG_3 = 0x2000" "original ?s SYSARG_4 = 3" "modified ?s SYSARG_2 = 0x1000"
    by (simp_all add: ex_exit_registers ex_link_regs_def peek_poke ex_regs_def REG_offset_def reg_offset_def)
  have mem: "s_mem ?s = ex_link_mem" "s_tracee ?s = ex_tracee" by (simp_all add: ex_xcall_def)
  have "translate_sysnum ABI_DEFAULT 78 = Inr PR_readlinkat"
    by (simp add: translate_sysnum_def sysnums_simps array_get_def sysnums_arm64_def sysnums_arm64_1_def
        sysnums_arm64_2_def)
  then have num: "get_sysnum (s_regs ?s) ORIGINAL = Inr PR_readlinkat"
    by (rule ex_exit_sysnum[rotated])
      (simp add: ex_link_regs_def peek_poke ex_regs_def REG_offset_def reg_offset_def)
  have Z: "quiet_exit ?Z" "z_env ?Z = ?E" using ex_exits_quiet by (simp_all add: quiet_exit_def)
  have x: "0 \<le> x_status ?s" "0 \<le> result_int ?s" "unat (peek ?s SYSARG_RESULT) = 3"
    by (simp_all add: ex_exit_registers result_int_def int_arg_def int_of_word_def) (simp add: ex_xcall_def)
  have all: "mapped ex_link_mem a n" for a n by (simp add: mapped_def ex_link_mem_def put_def)
  have tag: "untag_pointer 0x1000 = 0x1000" "untag_pointer 0x2000 = 0x2000" by (simp_all add: untag_pointer_def)
  have rd: "read_data plain_memory ex_link_mem 0x2000 3 = Inr (contents ex_link_mem 0x2000 3)"
    using plain.read_data_contents[where k = ex_link_mem and a = "0x2000" and n = 3] all by (simp add: tag)
  have rp: "read_path plain_memory ex_link_mem 0x1000 = Inr (''/r/l'', 5)"
    using plain.path_in_memory[where k = ex_link_mem and a = "0x1000" and path = "''/r/l''"
        and m = "put (\<lambda>x. Some 0) 0x2000 (map of_char ''/r/'')"]
    by (simp add: tag ex_link_mem_def mapped_def put_def NUL_def PATH_MAX_def)
  have ref: "readlink_referer plain_memory (z_env ?Z) PR_readlinkat (modified ?s SYSARG_2) ?s = Inr ''/r/l''"
    by (simp add: readlink_referer_def regs mem rp)
  have de: "detranslate_path (e_tracees ?E) ex_tracee ''/r/a'' (Some ''/r/l'') = Inr (3, ''/a'')" by code_simp
  have full: "full_referee ?E w ''/r/l'' True q = ''/r/a''" for w q by (simp add: full_referee_def PATH_MAX_def)
  have "\<exists>s'. translate_syscall_exit plain_memory ex_ptrace_regs ?Z ?s = (Inr (), s')
      \<and> peek s' SYSARG_RESULT = of_nat (readlink_returned ''/a'' 3)
      \<and> read_data plain_memory (s_mem s') (original ?s SYSARG_3) (readlink_result ''/a'' 3)
        = Inr (map of_char (take (readlink_result ''/a'' 3) ''/a''))"
    by (rule readlink_detranslated[OF plain.ptrace_memory_axioms Z(1) x(1) ex_exit_executed x(2) num, where sz = SYSARG_4
          and i = SYSARG_2 and n = 3 and bs = "contents ex_link_mem 0x2000 3" and referer = "''/r/l''"])
      (use x regs mem rd ref de all full in
        \<open>simp_all add: readlink_regs_def PATH_MAX_def full_referee_def\<close>)
  then show ?thesis by (simp add: readlink_returned_def readlink_result_def regs numeral_2_eq_2)
qed

text \<open>
  C15. Functional behaviour of the exit of \<open>getcwd\<close>, errors included: once the current directory is
  known to exist, a buffer that is large enough holds its guest path with the terminating NUL and
  the result is its length; otherwise the memory is left as it was and the result is an error.
\<close>

theorem getcwd_answers:
  fixes s :: "('k, 'w, 'z) Xcall_scheme"
  assumes "ptrace_memory P bytes" and "quiet_exit Z" and "0 \<le> x_status s"
    and "get_sysnum (s_regs s) ORIGINAL = Inr PR_getcwd"
    and "translate_path (z_env Z) (s_tracee s) (s_world s) AT_FDCWD ''.'' False = (Inr p, t, w)"
    and "cwd = fs_cwd (t_fs t)" and "NUL \<notin> set cwd" and "length cwd + 1 < PATH_MAX"
    and "mapped (bytes (s_mem s)) (untag_pointer (original s SYSARG_1)) (8 * ((length cwd + 1 + 7) div 8))"
  shows "\<exists>s'. translate_syscall_exit P R Z s = (Inr (), s')
    \<and> (if length cwd + 1 \<le> unat (original s SYSARG_2)
        then peek s' SYSARG_RESULT = of_nat (length cwd + 1)
          \<and> read_path P (s_mem s') (original s SYSARG_1) = Inr (cwd, length cwd + 1)
        else s_mem s' = s_mem s
          \<and> peek s' SYSARG_RESULT = cut s (of_int (fail_code (if original s SYSARG_2 = 0 then EINVAL else ERANGE))))"
proof -
  let ?s = "keep_void_result s"
  let ?s1 = "?s\<lparr>s_tracee := t, s_world := w\<rparr>"
  obtain r s2 where g: "exit_getcwd P (z_env Z) ?s = (r, s2)" by fastforce
  obtain x s' where s': "set_status r s2 = (x, s')" by fastforce
  have run: "translate_syscall_exit P R Z s = (x, s')"
    using quiet_exit_switch[OF assms(2-4), of P R] g s' by (simp add: exit_switch_def updated_def Let_def)
  have orig: "original ?s1 = original s" by (simp add: fun_eq_iff original_def)
      (simp add: original_def[symmetric])
  show ?thesis
  proof (cases "length cwd + 1 \<le> unat (original s SYSARG_2)")
    case True
    have "length (string_bytes cwd) < 2 ^ 63" using assms(8) by (simp add: PATH_MAX_def)
    then obtain k where k: "write_data P (s_mem s) (original s SYSARG_1) (string_bytes cwd) = (Inr (), k)"
      using ptrace_memory.write_data_put[OF assms(1), of "s_mem s" "original s SYSARG_1" "string_bytes cwd"] assms(9)
      by auto
    have "original s SYSARG_2 \<noteq> 0" using True by auto
    then have e: "r = Inr (length cwd + 1)" "s2 = ?s1\<lparr>s_mem := k\<rparr>"
      using g assms(5,6) True k orig by (simp_all add: exit_getcwd_def Let_def)
    have "length cwd + 1 < 2 ^ 32" using assms(8) by (simp add: PATH_MAX_def)
    from set_status_result[OF s'[unfolded e(1)] this] have "x = Inr ()" "peek s' SYSARG_RESULT = of_nat (length cwd + 1)"
      by simp_all
    moreover have "s_mem s' = k" using s' by (auto simp: set_status_def e poke_def)
    moreover have "read_path P k (original s SYSARG_1) = Inr (cwd, length cwd + 1)"
      using ptrace_memory.written_path_read[OF assms(1) k assms(7,8)] .
    ultimately show ?thesis using True run by simp
  next
    case False
    let ?e = "if original s SYSARG_2 = 0 then EINVAL else ERANGE"
    have "r = Err ?e" "s_mem s2 = s_mem s" "is_aarch32 (s_regs s2) = is_aarch32 (s_regs s)"
      using g assms(5,6) False orig
      by (auto simp: exit_getcwd_def Let_def original_def[symmetric] split: if_split_asm)
    then have "x = Inr ()" "s' = poke SYSARG_RESULT (of_int (fail_code ?e)) s2" "s_mem s2 = s_mem s" "cut s2 = cut s"
      using s' by (auto simp: set_status_def cut_def fun_eq_iff)
    then show ?thesis using False run by simp
  qed
qed

definition ex_cwd_regs :: "word_t \<Rightarrow> (Reg \<times> word_t) list" where
  "ex_cwd_regs n = [(SYSARG_NUM, 17), (SYSARG_1, 0x1000), (SYSARG_2, n)]"

theorem getcwd_answers_witness:
  "\<exists>s'. translate_syscall_exit plain_memory ex_ptrace_regs ex_exits (ex_xcall (ex_exit_regs (ex_cwd_regs 3) 0) (\<lambda>x. Some 0))
      = (Inr (), s') \<and> peek s' SYSARG_RESULT = 3 \<and> read_path plain_memory (s_mem s') 0x1000 = Inr (''/x'', 3)"
proof -
  let ?s = "ex_xcall (ex_exit_regs (ex_cwd_regs 3) 0) (\<lambda>x. Some 0)"
  have regs: "original ?s SYSARG_1 = 0x1000" "original ?s SYSARG_2 = 3"
    by (simp_all add: ex_exit_registers ex_cwd_regs_def peek_poke ex_regs_def REG_offset_def reg_offset_def)
  have "translate_sysnum ABI_DEFAULT 17 = Inr PR_getcwd"
    by (simp add: translate_sysnum_def sysnums_simps array_get_def sysnums_arm64_def sysnums_arm64_1_def
        sysnums_arm64_2_def)
  then have num: "get_sysnum (s_regs ?s) ORIGINAL = Inr PR_getcwd"
    by (rule ex_exit_sysnum[rotated])
      (simp add: ex_cwd_regs_def peek_poke ex_regs_def REG_offset_def reg_offset_def)
  have "translate_path ex_env ex_tracee () AT_FDCWD ''.'' False = (Inr ''/h/.'', ex_tracee, ())" by code_simp
  then have tr: "translate_path (z_env ex_exits) (s_tracee ?s) (s_world ?s) AT_FDCWD ''.'' False = (Inr ''/h/.'', ex_tracee, ())"
    by (simp add: ex_exits_def ex_xcall_def)
  have x: "0 \<le> x_status ?s" by (simp add: ex_xcall_def)
  have cwd: "''/x'' = fs_cwd (t_fs ex_tracee)" "NUL \<notin> set ''/x''" "length ''/x'' + 1 < PATH_MAX"
    by (simp_all add: ex_tracee_def ex_fs_def NUL_def PATH_MAX_def)
  have m: "mapped (s_mem ?s) (untag_pointer (original ?s SYSARG_1)) (8 * ((length ''/x'' + 1 + 7) div 8))"
    by (simp add: mapped_def ex_xcall_def)
  from getcwd_answers[OF plain.ptrace_memory_axioms ex_exits_quiet x num tr cwd m, of ex_ptrace_regs]
  show ?thesis by (auto simp: regs)
qed


definition ex_move_regs :: "(Reg \<times> word_t) list" where
  "ex_move_regs = [(SYSARG_NUM, 38), (SYSARG_2, 0x1000), (SYSARG_4, 0x2000)]"

definition ex_move_mem :: "word_t \<Rightarrow> byte option" where
  "ex_move_mem = put (put (\<lambda>x. Some 0) 0x1000 (string_bytes ''/r/a'')) 0x2000 (string_bytes ''/r/b'')"

definition ex_moved :: "(word_t \<Rightarrow> byte option, unit) Xcall" where
  "ex_moved = (ex_xcall (ex_exit_regs ex_move_regs 0) ex_move_mem)\<lparr>s_tracee := change_cwd ''/a/tmp'' ex_tracee\<rparr>"

lemma ex_moved_sysnum: "get_sysnum (s_regs ex_moved) ORIGINAL = Inr PR_renameat"
proof -
  have "translate_sysnum ABI_DEFAULT 38 = Inr PR_renameat"
    by (simp add: translate_sysnum_def sysnums_simps array_get_def sysnums_arm64_def sysnums_arm64_1_def
        sysnums_arm64_2_def)
  then show ?thesis unfolding ex_moved_def
    using ex_exit_sysnum[of ex_move_regs 38 PR_renameat 0 ex_move_mem]
    by (simp add: ex_move_regs_def peek_poke ex_regs_def REG_offset_def reg_offset_def)
qed


text \<open>
  C25. Composition of the two stages for the calls of emulated netlink sockets: the result that the
  enter stage gives to a call that it makes void is the result that the process gets, whatever the
  kernel returned for the void call, and its memory is left as it was.
\<close>

theorem void_results_kept:
  fixes s :: "('k, 'w, 'z) Xcall_scheme"
  assumes "quiet_exit Z" and "0 \<le> x_status s" and "void_call v s0 = (Inr n, s1)" and "follows s1 s"
    and "get_sysnum (s_regs s) ORIGINAL = Inr sysnum"
    and "sysnum \<in> set [PR_bind, PR_sendto, PR_sendmsg, PR_recvfrom, PR_recvmsg]"
  shows "\<exists>s'. translate_syscall_exit P R Z s = (Inr (), s') \<and> peek s' SYSARG_RESULT = cut s v \<and> s_mem s' = s_mem s"
proof -
  have "exit_switch P R Z sysnum (keep_void_result s) = (End, keep_void_result s)" and "sysnum \<noteq> PR_void"
    using assms(6) by (auto simp: exit_switch_def leaves_errors_def Let_def)
  then show ?thesis
    using quiet_exit_switch[OF assms(1,2,5), of P R] void_result_kept[OF assms(3,4,5)] by simp
qed

theorem void_results_kept_witness:
  "\<exists>s'. translate_syscall_exit plain_memory ex_ptrace_regs ex_exits
      (ex_xcall (set_bank (save_current_regs (s_regs (snd (void_call 20 (ex_xcall (ex_exit_regs [(SYSARG_NUM, 206)] 0) (\<lambda>_. None))))) MODIFIED)
        CURRENT (\<lambda>i. 0)) (\<lambda>_. None)) = (Inr (), s') \<and> peek s' SYSARG_RESULT = 20"
proof -
  let ?before = "ex_xcall (ex_exit_regs [(SYSARG_NUM, 206)] 0) (\<lambda>_. None)"
  obtain s1 where s1: "void_call 20 ?before = (Inr 0, s1)"
    by (auto simp: void_call_def set_call_def set_sysnum_def detranslate_void Let_def)
  let ?s = "ex_xcall (set_bank (save_current_regs (s_regs s1) MODIFIED) CURRENT (\<lambda>i. 0)) (\<lambda>_. None)"
  have regs1: "regs (s_regs s1) ORIGINAL = regs (s_regs ?before) ORIGINAL" "is_aarch32 (s_regs s1) = is_aarch32 (s_regs ?before)"
    using s1 by (auto simp: void_call_def set_call_def set_sysnum_def detranslate_void poke_def Let_def)
  have f: "follows s1 ?s" by (simp add: follows_def ex_xcall_def save_current_regs_def set_bank_def Let_def)
  have "translate_sysnum ABI_DEFAULT 206 = Inr PR_sendto"
    by (simp add: translate_sysnum_def sysnums_simps array_get_def sysnums_arm64_def sysnums_arm64_1_def
        sysnums_arm64_2_def)
  then have "get_sysnum (s_regs ?before) ORIGINAL = Inr PR_sendto"
    by (rule ex_exit_sysnum[rotated]) (simp add: peek_poke ex_regs_def)
  moreover have "peek_reg (s_regs ?s) ORIGINAL SYSARG_NUM = peek_reg (s_regs ?before) ORIGINAL SYSARG_NUM"
    by (rule same_bank_peek) (simp_all add: regs1 ex_xcall_def save_current_regs_def set_bank_def Let_def)
  moreover have "get_abi (s_regs ?s) = get_abi (s_regs ?before)"
    using regs1(2) by (simp add: get_abi_def ex_xcall_def save_current_regs_def set_bank_def Let_def)
  ultimately have num: "get_sysnum (s_regs ?s) ORIGINAL = Inr PR_sendto" by (simp add: get_sysnum_def)
  have x: "0 \<le> x_status ?s" by (simp add: ex_xcall_def)
  have "\<not> is_aarch32 (s_regs ?s)"
    by (simp add: ex_xcall_def save_current_regs_def set_bank_def regs1 ex_exit_regs_def Let_def ex_regs_def)
  then show ?thesis
    using void_results_kept[OF ex_exits_quiet x s1 f num, of plain_memory ex_ptrace_regs] by (auto simp: s1 cut_def)
qed

subsection \<open>The emulation of statx\<close>


definition ex_statx_regs :: "(Reg \<times> word_t) list" where
  "ex_statx_regs = [(SYSARG_1, AT_FDCWD_word), (SYSARG_2, 0x1000), (SYSARG_4, STATX_SIZE), (SYSARG_5, 0x2000)]"

definition ex_statx :: "(word_t \<Rightarrow> byte option, unit) Sys" where
  "ex_statx = \<lparr>s_regs = poke_regs ex_statx_regs (ex_regs False), s_tracee = ex_tracee,
     s_mem = put (\<lambda>x. Some 0) 0x1000 (string_bytes ''/x/a''), s_world = ()\<rparr>"

lemma ex_statx_registers:
  "peek ex_statx SYSARG_1 = AT_FDCWD_word" "peek ex_statx SYSARG_2 = 0x1000" "peek ex_statx SYSARG_3 = 0"
  "peek ex_statx SYSARG_4 = STATX_SIZE" "peek ex_statx SYSARG_5 = 0x2000"
  by (simp_all add: ex_statx_def ex_statx_regs_def peek_def peek_poke ex_regs_def REG_offset_def reg_offset_def)
    (simp add: peek_reg_def REG_def load64_def numeral_eq_Suc)


end
