(* ===== verification/Tracees.thy ===== *)
theory Tracees
  imports Events Mounts
begin

section \<open>The tracees\<close>

text \<open>
  The list of the tracees (tracee/tracee.c): its members, the objects that they share, who traces
  whom.  The members of \<open>Tracee\<close> point to each other and to name-spaces, lists of bindings and heaps
  that several of them share; hence an explicit store, a map from addresses for each type of object.
  Addresses come from a counter, allocations succeed, and only the structures \<open>Tracee\<close> are freed: the
  others are counted by talloc, and live at least as long as a tracee points to them.
\<close>

subsection \<open>The state\<close>

text \<open>A name-space points to its lists of bindings, since a child shares those of its parent.\<close>

record Namespace =
  n_pending :: "Binding list option"
  n_guest :: "nat option"
  n_host :: "nat option"
  n_cwd :: "string option"

datatype wait_state = DOESNT_WAIT | WAITS_IN_KERNEL | WAITS_IN_PROOT

text \<open>
  The structure \<open>Tracee\<close> of tracee.h, beside the fields of \<open>Stop\<close> and \<open>Event\<close>.  In the latter \<open>v_exe\<close>
  says that \<open>exe\<close> is not NULL, \<open>v_pending\<close> is \<open>as_ptracee.event4.proot.pending\<close> and \<open>v_waits\<close> is
  \<open>as_ptracer.wait_pid != 0\<close>.  A NULL pointer is \<open>None\<close>.
\<close>

record 'k Process = "'k Event" +
  p_pid :: int
  p_vpid :: nat
  p_killall_on_exit :: bool
  p_parent :: "nat option"
  p_clone :: bool
  p_clone_stripped_newns :: bool
  p_nb_ptracees :: nat
  p_zombies :: "nat list"
  p_wait_pid :: int
  p_wait_options :: word_t
  p_waits_in :: wait_state
  p_ptracer :: "nat option"
  p_proot_value :: wait_status
  p_event_value :: wait_status
  p_event_pending :: bool
  p_tracing_started :: bool
  p_ignore_loader_syscalls :: bool
  p_ignore_syscalls :: bool
  p_options :: word_t
  p_is_zombie :: bool
  p_life_bindings :: "Binding list"
  p_load_info :: "nat option"
  p_execfn_addr :: word_t
  p_auxv_fd :: int
  p_pokedata_stub :: word_t
  p_verbose :: int
  p_no_new_privs :: bool
  p_seen_execve :: bool
  p_fs :: nat
  p_heap :: nat
  p_exe :: string
  p_qemu :: "string list option"
  p_glue_type :: mode
  p_glue :: "string option"
  p_extensions :: nat
  p_host_ldso_paths :: "string option"
  p_guest_ldso_paths :: "string option"
  p_tool_name :: string

text \<open>
  The store; \<open>tracees\<close> is the static list, in its order, and \<open>killed\<close> the signals that PRoot has sent
  with \<open>kill(2)\<close>, the last one first.
\<close>

record 'k World =
  procs :: "nat \<Rightarrow> 'k Process option"
  tracees :: "nat list"
  next_vpid :: nat
  namespaces :: "nat \<Rightarrow> Namespace option"
  binding_lists :: "nat \<Rightarrow> Binding list option"
  heaps :: "nat \<Rightarrow> Heap option"
  next_addr :: nat
  killed :: "(int \<times> int) list"
  w_globals :: Globals

definition proc :: "'k World \<Rightarrow> nat \<Rightarrow> 'k Process" where
  "proc w a = the (procs w a)"

definition update_proc :: "nat \<Rightarrow> ('k Process \<Rightarrow> 'k Process) \<Rightarrow> 'k World \<Rightarrow> 'k World" where
  "update_proc a f w = w\<lparr>procs := (procs w)(a := map_option f (procs w a))\<rparr>"

definition set_wait_pid :: "int \<Rightarrow> 'k Process \<Rightarrow> 'k Process" where
  "set_wait_pid pid p = p\<lparr>p_wait_pid := pid, v_waits := (pid \<noteq> 0)\<rparr>"

definition send_signal :: "int \<Rightarrow> int \<Rightarrow> 'k World \<Rightarrow> 'k World" where
  "send_signal pid sig w = w\<lparr>killed := (pid, sig) # killed w\<rparr>"

subsection \<open>What a tracee sees\<close>

definition fs_of :: "'k World \<Rightarrow> nat \<Rightarrow> FileSystemNameSpace" where
  "fs_of w n =
     (let ns = the (namespaces w n)
      in \<lparr>fs_pending = n_pending ns,
          fs_guest = Option.bind (n_guest ns) (binding_lists w),
          fs_host = Option.bind (n_host ns) (binding_lists w),
          fs_cwd = (case n_cwd ns of None \<Rightarrow> [] | Some cwd \<Rightarrow> cwd)\<rparr>)"

text \<open>An assignment to the lists and to the current directory of a name-space, through its pointers.\<close>

definition put_list :: "nat option \<Rightarrow> Binding list option \<Rightarrow> 'k World \<Rightarrow> 'k World" where
  "put_list pointer bs w =
     (case pointer of None \<Rightarrow> w | Some a \<Rightarrow> w\<lparr>binding_lists := (binding_lists w)(a := bs)\<rparr>)"

definition put_fs :: "nat \<Rightarrow> FileSystemNameSpace \<Rightarrow> 'k World \<Rightarrow> 'k World" where
  "put_fs n fs w =
     (let ns = the (namespaces w n);
          w = put_list (n_guest ns) (fs_guest fs) (put_list (n_host ns) (fs_host fs) w)
      in w\<lparr>namespaces := (namespaces w)(n \<mapsto> ns\<lparr>n_pending := fs_pending fs, n_cwd := Some (fs_cwd fs)\<rparr>)\<rparr>)"

definition tracee_of :: "'k World \<Rightarrow> nat \<Rightarrow> Tracee" where
  "tracee_of w a =
     \<lparr>t_pid = p_pid (proc w a), t_exe = p_exe (proc w a), t_fs = fs_of w (p_fs (proc w a)),
      t_glue_type = p_glue_type (proc w a), t_glue = p_glue (proc w a)\<rparr>"

subsection \<open>Allocation\<close>

text \<open>\<open>talloc_zero\<close> of a \<open>Tracee\<close>, whose process has the state \<open>k\<close> in the kernel.\<close>

definition zero_tracee :: "'k \<Rightarrow> nat \<Rightarrow> nat \<Rightarrow> 'k Process" where
  "zero_tracee k fs heap =
     \<lparr>c_regs = \<lparr>regs = (\<lambda>_ _. 0), regs_were_changed = False, restore_original_regs = False,
        restore_original_regs_after_seccomp_event = False, is_aarch32 = False\<rparr>,
      c_syscalls = None, c_force_final_result = False, c_final_result = 0,
      c_workaround = SYSNUM_WORKAROUND_INACTIVE, c_restart_how = RESTART_DEFAULT, c_status = 0,
      c_cancelled = False, c_relaunched = False, c_kernel = k,
      v_exe = False, v_seccomp = DISABLED, v_sysexit_pending = False, v_handled_enter = False,
      v_skip_signal = False, v_last_restart_how = RESTART_DEFAULT, v_suppressed_signal = 0,
      v_sigstop = SIGSTOP_IGNORED, v_pending = False, v_waits = False, v_running = False,
      v_terminated = False,
      p_pid = 0, p_vpid = 0, p_killall_on_exit = False, p_parent = None, p_clone = False,
      p_clone_stripped_newns = False, p_nb_ptracees = 0, p_zombies = [], p_wait_pid = 0,
      p_wait_options = 0, p_waits_in = DOESNT_WAIT, p_ptracer = None, p_proot_value = 0,
      p_event_value = 0, p_event_pending = False, p_tracing_started = False,
      p_ignore_loader_syscalls = False, p_ignore_syscalls = False, p_options = 0, p_is_zombie = False,
      p_life_bindings = [], p_load_info = None, p_execfn_addr = 0, p_auxv_fd = -1, p_pokedata_stub = 0,
      p_verbose = 0, p_no_new_privs = False, p_seen_execve = False, p_fs = fs, p_heap = heap,
      p_exe = [], p_qemu = None, p_glue_type = 0, p_glue = None, p_extensions = 0,
      p_host_ldso_paths = None, p_guest_ldso_paths = None, p_tool_name = []\<rparr>"

definition empty_namespace :: Namespace where
  "empty_namespace = \<lparr>n_pending = None, n_guest = None, n_host = None, n_cwd = None\<rparr>"

definition empty_heap :: Heap where
  "empty_heap = \<lparr>h_base = 0, h_size = 0, h_disabled = False, heap_offset = 0\<rparr>"

definition new_dummy_tracee :: "'k \<Rightarrow> 'k World \<Rightarrow> nat \<times> 'k World" where
  "new_dummy_tracee k w =
     (let a = next_addr w
      in (a, w\<lparr>procs := (procs w)(a \<mapsto> zero_tracee k (a + 1) (a + 2)),
              namespaces := (namespaces w)(a + 1 \<mapsto> empty_namespace),
              heaps := (heaps w)(a + 2 \<mapsto> empty_heap), next_addr := a + 3\<rparr>))"

definition new_tracee :: "'k \<Rightarrow> int \<Rightarrow> 'k World \<Rightarrow> nat \<times> 'k World" where
  "new_tracee k pid w =
     (case new_dummy_tracee k w of
        (a, w) \<Rightarrow>
          (a, (update_proc a (\<lambda>p. p\<lparr>p_pid := pid, p_vpid := next_vpid w\<rparr>) w)
                \<lparr>next_vpid := (next_vpid w + 1) mod 2 ^ 64, tracees := a # tracees w\<rparr>))"

text \<open>
  \<open>get_tracee\<close>: the current tracee, the first one of the list with this pid, or a new one; a new one
  gets the state \<open>k\<close> of its process.
\<close>

definition find_tracee :: "'k World \<Rightarrow> nat option \<Rightarrow> int \<Rightarrow> nat option" where
  "find_tracee w current pid =
     (case current of
        Some a \<Rightarrow> if p_pid (proc w a) = pid then Some a else find (\<lambda>a. p_pid (proc w a) = pid) (tracees w)
      | None \<Rightarrow> find (\<lambda>a. p_pid (proc w a) = pid) (tracees w))"

definition get_or_new_tracee :: "'k \<Rightarrow> nat option \<Rightarrow> int \<Rightarrow> 'k World \<Rightarrow> nat \<times> 'k World" where
  "get_or_new_tracee k current pid w =
     (case find_tracee w current pid of Some a \<Rightarrow> (a, w) | None \<Rightarrow> new_tracee k pid w)"

subsection \<open>Tracers\<close>

definition WNOHANG :: word_t where "WNOHANG = 1"
definition WALL :: word_t where "WALL = 0x40000000"
definition WCLONE :: word_t where "WCLONE = 0x80000000"

definition EXPECTED_WAIT_CLONE :: "word_t \<Rightarrow> 'k Process \<Rightarrow> bool" where
  "EXPECTED_WAIT_CLONE wait_options p \<longleftrightarrow>
     wait_options AND WALL \<noteq> 0 \<or> wait_options AND WCLONE \<noteq> 0 \<and> p_clone p
     \<or> wait_options AND WCLONE = 0 \<and> \<not> p_clone p"

text \<open>The \<open>bzero\<close> of \<open>as_ptracee\<close>.\<close>

definition zero_as_ptracee :: "'k Process \<Rightarrow> 'k Process" where
  "zero_as_ptracee p =
     p\<lparr>p_ptracer := None, v_pending := False, p_proot_value := 0, p_event_pending := False,
       p_event_value := 0, p_tracing_started := False, p_ignore_loader_syscalls := False,
       p_ignore_syscalls := False, p_options := 0, p_is_zombie := False\<rparr>"

definition attach_to_ptracer :: "nat \<Rightarrow> nat \<Rightarrow> 'k World \<Rightarrow> 'k World" where
  "attach_to_ptracer ptracee ptracer w =
     update_proc ptracer (\<lambda>p. p\<lparr>p_nb_ptracees := p_nb_ptracees p + 1\<rparr>)
       (update_proc ptracee (\<lambda>p. (zero_as_ptracee p)\<lparr>p_ptracer := Some ptracer\<rparr>) w)"

text \<open>A NULL tracer is dereferenced; a counter that is zero fails an assertion.\<close>

definition detach_from_ptracer :: "nat \<Rightarrow> 'k World \<Rightarrow> 'k World res" where
  "detach_from_ptracer ptracee w =
     (case p_ptracer (proc w ptracee) of
        None \<Rightarrow> Inl Undefined
      | Some ptracer \<Rightarrow>
          (if p_nb_ptracees (proc w ptracer) = 0 then Inl Undefined
           else Inr (update_proc ptracer (\<lambda>p. p\<lparr>p_nb_ptracees := p_nb_ptracees p - 1\<rparr>)
                      (update_proc ptracee (\<lambda>p. p\<lparr>p_ptracer := None\<rparr>) w))))"

text \<open>\<open>get_ptracee\<close>: the first fitting zombie, or the first fitting tracee of the list.\<close>

definition fitting :: "int \<Rightarrow> word_t \<Rightarrow> 'k Process \<Rightarrow> bool" where
  "fitting pid wait_options p \<longleftrightarrow> (pid = p_pid p \<or> pid = -1) \<and> EXPECTED_WAIT_CLONE wait_options p"

fun ptracee_loop :: "'k World \<Rightarrow> nat \<Rightarrow> int \<Rightarrow> bool \<Rightarrow> bool \<Rightarrow> word_t \<Rightarrow> nat list \<Rightarrow> nat option" where
  "ptracee_loop w ptracer pid only_stopped only_with_pevent wait_options [] = None"
| "ptracee_loop w ptracer pid only_stopped only_with_pevent wait_options (a # as) =
     (let p = proc w a; rest = ptracee_loop w ptracer pid only_stopped only_with_pevent wait_options as in
      if p_ptracer p \<noteq> Some ptracer then rest
      else if \<not> fitting pid wait_options p then rest
      else if \<not> only_stopped then Some a
      else if v_running p then rest
      else if p_event_pending p \<or> \<not> only_with_pevent then Some a
      else if pid = p_pid p then None
      else rest)"

definition get_ptracee :: "'k World \<Rightarrow> nat \<Rightarrow> int \<Rightarrow> bool \<Rightarrow> bool \<Rightarrow> word_t \<Rightarrow> nat option" where
  "get_ptracee w ptracer pid only_stopped only_with_pevent wait_options =
     (case find (\<lambda>z. fitting pid wait_options (proc w z)) (p_zombies (proc w ptracer)) of
        Some z \<Rightarrow> Some z
      | None \<Rightarrow> ptracee_loop w ptracer pid only_stopped only_with_pevent wait_options (tracees w))"

definition get_stopped_ptracee :: "'k World \<Rightarrow> nat \<Rightarrow> int \<Rightarrow> bool \<Rightarrow> word_t \<Rightarrow> nat option" where
  "get_stopped_ptracee w ptracer pid only_with_pevent wait_options =
     get_ptracee w ptracer pid True only_with_pevent wait_options"

definition has_ptracees :: "'k World \<Rightarrow> nat \<Rightarrow> int \<Rightarrow> word_t \<Rightarrow> bool" where
  "has_ptracees w ptracer pid wait_options \<longleftrightarrow> get_ptracee w ptracer pid False False wait_options \<noteq> None"

subsection \<open>Termination\<close>

definition SIGKILL :: int where "SIGKILL = 9"

definition kill_all_tracees :: "'k World \<Rightarrow> 'k World" where
  "kill_all_tracees w = fold (\<lambda>a w. send_signal (p_pid (proc w a)) SIGKILL w) (tracees w) w"

definition terminate_tracee :: "nat \<Rightarrow> 'k World \<Rightarrow> 'k World" where
  "terminate_tracee a w =
     (let w = update_proc a (\<lambda>p. p\<lparr>v_terminated := True\<rparr>) w
      in if p_killall_on_exit (proc w a) then kill_all_tracees w else w)"

text \<open>The release of a zombie, with its destructor.\<close>

definition free_zombie :: "nat \<Rightarrow> 'k World \<Rightarrow> 'k World" where
  "free_zombie z w =
     w\<lparr>procs := (\<lambda>a. map_option (\<lambda>p. p\<lparr>p_zombies := removeAll z (p_zombies p)\<rparr>) (((procs w)(z := None)) a))\<rparr>"

end
