(* ===== verification/Ptrace_Wait.thy ===== *)
theory Ptrace_Wait
  imports Tracees Syscall_Enter
begin

unbundle bit_operations_syntax

section \<open>Waiting for ptracees\<close>

text \<open>
  ptrace/wait.c: \<open>wait(2)\<close> made by a tracee that traces other tracees, and the notification of the
  events of the latter.  PRoot itself is the tracer of all of them for the kernel; the relation
  between tracees is emulated by keeping a ptracee stopped until its ptracer restarts it, and a
  waiting ptracer stopped until one of its ptracees has an event.
\<close>

subsection \<open>Vocabulary\<close>

definition reg_of :: "'k World \<Rightarrow> nat \<Rightarrow> RegVersion \<Rightarrow> Reg \<Rightarrow> word_t" where
  "reg_of w a version reg = c_peek (proc w a) version reg"

definition set_reg :: "nat \<Rightarrow> Reg \<Rightarrow> word_t \<Rightarrow> 'k World \<Rightarrow> 'k World" where
  "set_reg a reg v w = update_proc a (c_poke reg v) w"

text \<open>A partial operation on the fields of a stop, and one on the memory of the process.\<close>

definition try_proc :: "nat \<Rightarrow> ('k Process \<Rightarrow> 'k Process res) \<Rightarrow> 'k World \<Rightarrow> 'k World res" where
  "try_proc a f w =
     (case f (proc w a) of Inl e \<Rightarrow> Inl e | Inr p \<Rightarrow> Inr (update_proc a (\<lambda>_. p) w))"

definition set_kernel :: "nat \<Rightarrow> 'k \<Rightarrow> 'k World \<Rightarrow> 'k World" where
  "set_kernel a k w = update_proc a (\<lambda>p. p\<lparr>c_kernel := k\<rparr>) w"

definition set_void :: "nat \<Rightarrow> 'k World \<Rightarrow> 'k World res" where
  "set_void a w =
     try_proc a (\<lambda>p. case set_sysnum (c_regs p) PR_void of
                       Inl e \<Rightarrow> Inl e | Inr t \<Rightarrow> Inr (p\<lparr>c_regs := t\<rparr>)) w"

definition push :: "'k Ptrace_Regs \<Rightarrow> nat \<Rightarrow> 'k World \<Rightarrow> 'k World" where
  "push P a w = update_proc a (\<lambda>p. snd (push_stop P True p)) w"

definition restart_proc ::
  "('k, 'k Process) Event_Calls \<Rightarrow> nat \<Rightarrow> int \<Rightarrow> 'k World \<Rightarrow> bool \<times> 'k World" where
  "restart_proc V a signal w =
     (case restart_tracee V signal (proc w a) of (restarted, p) \<Rightarrow> (restarted, update_proc a (\<lambda>_. p) w))"

text \<open>A 32-bit integer as a status of \<open>wait(2)\<close> and back.\<close>

definition int_of_status :: "wait_status \<Rightarrow> int" where "int_of_status = sint"

definition is_terminal :: "wait_status \<Rightarrow> bool" where
  "is_terminal status \<longleftrightarrow> WIFEXITED status \<or> WIFSIGNALED status"

subsection \<open>The calls\<close>

definition translate_wait_enter :: "nat \<Rightarrow> 'k World \<Rightarrow> 'k World res" where
  "translate_wait_enter ptracer w =
     (let w = update_proc ptracer (\<lambda>p. p\<lparr>p_waits_in := WAITS_IN_KERNEL\<rparr>) w
      in if p_nb_ptracees (proc w ptracer) = 0 then Inr w
         else
           (let pid = int_of_word (reg_of w ptracer ORIGINAL SYSARG_1);
                is_ptracee = (case find_tracee w (Some ptracer) pid of
                                None \<Rightarrow> False | Some ptracee \<Rightarrow> p_ptracer (proc w ptracee) = Some ptracer)
            in if pid \<noteq> -1 \<and> \<not> is_ptracee then Inr w
               else
                 (case set_void ptracer w of
                    Inl e \<Rightarrow> Inl e
                  | Inr w \<Rightarrow> Inr (update_proc ptracer (\<lambda>p. p\<lparr>p_waits_in := WAITS_IN_PROOT\<rparr>) w))))"

text \<open>
  The terminating event of a child of its tracer is not reported: the call is made again, for the
  kernel to report it.
\<close>

definition hide_termination :: "nat \<Rightarrow> nat \<Rightarrow> 'k World \<Rightarrow> 'k World res" where
  "hide_termination ptracer ptracee w =
     (case try_proc ptracer restart_original_syscall w of
        Inl e \<Rightarrow> Inl e
      | Inr w \<Rightarrow>
          (case detach_from_ptracer ptracee w of
             Inl e \<Rightarrow> Inl e
           | Inr w \<Rightarrow> Inr (if p_is_zombie (proc w ptracee) then free_zombie ptracee w else w)))"

definition hides :: "nat \<Rightarrow> 'k World \<Rightarrow> bool" where
  "hides ptracee w \<longleftrightarrow> p_ptracer (proc w ptracee) = p_parent (proc w ptracee)
     \<and> is_terminal (p_event_value (proc w ptracee))"

definition write_status ::
  "'k Ptrace_Mem \<Rightarrow> nat \<Rightarrow> wait_status \<Rightarrow> 'k World \<Rightarrow> unit res \<times> 'k World" where
  "write_status M ptracer status w =
     (let address = reg_of w ptracer ORIGINAL SYSARG_2
      in if address = 0 then (Inr (), w)
         else
           (case poke_uint M 4 (c_kernel (proc w ptracer)) address (ucast status) of
              (r, k) \<Rightarrow> (r, set_kernel ptracer k w)))"

definition update_wait_status :: "'k Ptrace_Mem \<Rightarrow> nat \<Rightarrow> nat \<Rightarrow> 'k World \<Rightarrow> (int \<times> 'k World) res" where
  "update_wait_status M ptracer ptracee w =
     (if hides ptracee w then
        (case hide_termination ptracer ptracee w of Inl e \<Rightarrow> Inl e | Inr w \<Rightarrow> Inr (0, w))
      else
        (case write_status M ptracer (p_event_value (proc w ptracee)) w of
           (Inl Undefined, w) \<Rightarrow> Inl Undefined
         | (Inl (Errno e), w) \<Rightarrow> Inr (- errno_code e, w)
         | (Inr _, w) \<Rightarrow>
             (let w = update_proc ptracee (\<lambda>p. p\<lparr>p_event_pending := False\<rparr>) w;
                  pid = p_pid (proc w ptracee)
              in if p_is_zombie (proc w ptracee) then
                   (case detach_from_ptracer ptracee w of
                      Inl e \<Rightarrow> Inl e | Inr w \<Rightarrow> Inr (pid, free_zombie ptracee w))
                 else Inr (pid, w))))"

definition translate_wait_exit :: "'k Ptrace_Mem \<Rightarrow> nat \<Rightarrow> 'k World \<Rightarrow> (int \<times> 'k World) res" where
  "translate_wait_exit M ptracer w =
     (if p_waits_in (proc w ptracer) \<noteq> WAITS_IN_PROOT then Inl Undefined
      else
        (let w = update_proc ptracer (\<lambda>p. p\<lparr>p_waits_in := DOESNT_WAIT\<rparr>) w;
             pid = int_of_word (reg_of w ptracer ORIGINAL SYSARG_1);
             options = reg_of w ptracer ORIGINAL SYSARG_3
         in case get_stopped_ptracee w ptracer pid True options of
              Some ptracee \<Rightarrow> update_wait_status M ptracer ptracee w
            | None \<Rightarrow>
                (if p_nb_ptracees (proc w ptracer) = 0 then Inr (- errno_code ECHILD, w)
                 else if options AND WNOHANG \<noteq> 0 then
                   Inr (if has_ptracees w ptracer pid options then 0 else - errno_code ECHILD, w)
                 else
                   Inr (0, update_proc ptracer (\<lambda>p. (set_wait_pid pid p)\<lparr>p_wait_options := options\<rparr>) w))))"

subsection \<open>The events\<close>

definition PTRACE_O_TRACESYSGOOD :: word_t where "PTRACE_O_TRACESYSGOOD = 1"
definition PTRACE_O_TRACEFORK :: word_t where "PTRACE_O_TRACEFORK = 2"
definition PTRACE_O_TRACEVFORK :: word_t where "PTRACE_O_TRACEVFORK = 4"
definition PTRACE_O_TRACECLONE :: word_t where "PTRACE_O_TRACECLONE = 8"
definition PTRACE_O_TRACEEXEC :: word_t where "PTRACE_O_TRACEEXEC = 16"
definition PTRACE_O_TRACEVFORKDONE :: word_t where "PTRACE_O_TRACEVFORKDONE = 32"
definition PTRACE_O_TRACEEXIT :: word_t where "PTRACE_O_TRACEEXIT = 64"

definition SIGCHLD :: int where "SIGCHLD = 17"

text \<open>The option that asks for an event (the cases of \<open>CASE_FILTER_EVENT\<close>).\<close>

definition event_option :: "int \<Rightarrow> word_t option" where
  "event_option signal =
     map_of [(event EVENT_FORK, PTRACE_O_TRACEFORK), (event EVENT_VFORK, PTRACE_O_TRACEVFORK),
       (event EVENT_VFORK_DONE, PTRACE_O_TRACEVFORKDONE), (event EVENT_CLONE, PTRACE_O_TRACECLONE),
       (event EVENT_EXIT, PTRACE_O_TRACEEXIT), (event EVENT_EXEC, PTRACE_O_TRACEEXEC)] signal"

text \<open>
  What the first part of the function decides: the event is not one for the ptracer, or the event
  that the ptracer is told, whether the tracing starts with it, whether PRoot handles it first, whether
  the signal may be suppressed, and whether the ptracee is kept stopped.
\<close>

record Report =
  r_event :: wait_status
  r_starts :: bool
  r_proot_first :: bool
  r_may_suppress :: bool
  r_keep_stopped :: bool

definition report_of :: "wait_status \<Rightarrow> 'k Process \<Rightarrow> Report option" where
  "report_of status p =
     (let plain = \<lparr>r_event = status, r_starts = False, r_proot_first = False, r_may_suppress = False,
                   r_keep_stopped = True\<rparr>;
          signal = stop_signal status
      in if WIFSTOPPED status then
           (if signal = SYSCALL_STOP then
              (if p_ignore_syscalls p \<or> p_ignore_loader_syscalls p then None
               else Some (plain\<lparr>r_event := (if p_options p AND PTRACE_O_TRACESYSGOOD = 0
                                            then status AND NOT 0x8000 else status),
                                r_proot_first := \<not> IS_IN_SYSENTER p\<rparr>))
            else
              (case event_option signal of
                 Some asked \<Rightarrow>
                   (if p_options p AND asked = 0 then None
                    else Some (plain\<lparr>r_starts := True, r_proot_first := True\<rparr>))
               | None \<Rightarrow>
                   (if signal = event EVENT_SECCOMP2 \<or> signal = event EVENT_SECCOMP then None
                    else if signal = SIGSYS then Some (plain\<lparr>r_proot_first := True, r_may_suppress := True\<rparr>)
                    else Some (plain\<lparr>r_starts := True\<rparr>))))
         else if is_terminal status then Some (plain\<lparr>r_starts := True, r_keep_stopped := False\<rparr>)
         else Some plain)"

text \<open>
  The last part: the ptracer is told about the event, by SIGCHLD, and restarted if it waits for it.
  The result tells whether the ptracee is kept stopped.
\<close>

definition waits_for :: "'k World \<Rightarrow> nat \<Rightarrow> nat \<Rightarrow> bool" where
  "waits_for w ptracer ptracee \<longleftrightarrow>
     (p_wait_pid (proc w ptracer) = -1 \<or> p_wait_pid (proc w ptracer) = p_pid (proc w ptracee))
     \<and> EXPECTED_WAIT_CLONE (p_wait_options (proc w ptracer)) (proc w ptracee)"

definition wake_ptracer ::
  "'k Ptrace_Regs \<Rightarrow> 'k Ptrace_Mem \<Rightarrow> ('k, 'k Process) Event_Calls \<Rightarrow> nat \<Rightarrow> nat \<Rightarrow> bool \<Rightarrow> 'k World
   \<Rightarrow> (bool \<times> 'k World) res" where
  "wake_ptracer P M V ptracer ptracee keep_stopped w =
     (case update_wait_status M ptracer ptracee w of
        Inl e \<Rightarrow> Inl e
      | Inr (status, w) \<Rightarrow>
          (case (if status = 0 then try_proc ptracer chain_next_syscall w
                 else Inr (set_reg ptracer SYSARG_RESULT (of_int status) w)) of
             Inl e \<Rightarrow> Inl e
           | Inr w \<Rightarrow>
               (case restart_proc V ptracer 0 (update_proc ptracer (set_wait_pid 0) (push P ptracer w)) of
                  (restarted, w) \<Rightarrow> Inr (keep_stopped \<and> restarted, w))))"

definition notify_ptracer ::
  "'k Ptrace_Regs \<Rightarrow> 'k Ptrace_Mem \<Rightarrow> ('k, 'k Process) Event_Calls \<Rightarrow> nat \<Rightarrow> nat \<Rightarrow> wait_status \<Rightarrow> bool
   \<Rightarrow> 'k World \<Rightarrow> (bool \<times> 'k World) res" where
  "notify_ptracer P M V ptracer ptracee status keep_stopped w =
     (let w = update_proc ptracee (\<lambda>p. p\<lparr>p_event_value := status, p_event_pending := True\<rparr>) w;
          w = send_signal (p_pid (proc w ptracer)) SIGCHLD w
      in if waits_for w ptracer ptracee then wake_ptracer P M V ptracer ptracee keep_stopped w
         else Inr (keep_stopped, w))"

definition or_fail :: "'a res \<Rightarrow> halt + 'a" where
  "or_fail r = (case r of Inl e \<Rightarrow> Inl (Fails e) | Inr x \<Rightarrow> Inr x)"

text \<open>
  \<open>handle\<close> is \<open>handle_tracee_event\<close>.  A signal that PRoot suppresses is not reported; where the entry
  of the call was, its exit is reported instead.
\<close>

definition handle_ptracee_event ::
  "'k Ptrace_Regs \<Rightarrow> 'k Ptrace_Mem \<Rightarrow> ('k, 'k Process) Event_Calls
   \<Rightarrow> (nat \<Rightarrow> wait_status \<Rightarrow> 'k World \<Rightarrow> halt + (int \<times> 'k World)) \<Rightarrow> nat \<Rightarrow> wait_status \<Rightarrow> 'k World
   \<Rightarrow> halt + (bool \<times> 'k World)" where
  "handle_ptracee_event P M V handle ptracee status w =
     (case p_ptracer (proc w ptracee) of
        None \<Rightarrow> Inl (Fails Undefined)
      | Some ptracer \<Rightarrow>
          (let w = update_proc ptracee (\<lambda>p. p\<lparr>p_proot_value := status, v_pending := True\<rparr>) w
           in case report_of status (proc w ptracee) of
                None \<Rightarrow> Inr (False, w)
              | Some r \<Rightarrow>
                  (let w = (if r_starts r then update_proc ptracee (\<lambda>p. p\<lparr>p_tracing_started := True\<rparr>) w else w)
                   in if \<not> p_tracing_started (proc w ptracee) then Inr (False, w)
                      else if \<not> r_proot_first r then
                        or_fail (notify_ptracer P M V ptracer ptracee (r_event r) (r_keep_stopped r) w)
                      else
                        (case handle ptracee status w of
                           Inl h \<Rightarrow> Inl h
                         | Inr (signal, w) \<Rightarrow>
                             (let w = update_proc ptracee (\<lambda>p. p\<lparr>p_proot_value := of_int signal\<rparr>) w
                              in if r_may_suppress r \<and> signal = 0 then
                                   (if \<not> g_after_enter (w_globals w) \<and> \<not> p_ignore_syscalls (proc w ptracee) then
                                      or_fail (notify_ptracer P M V ptracer ptracee
                                        (if p_options (proc w ptracee) AND PTRACE_O_TRACESYSGOOD \<noteq> 0
                                         then 0x857F else 0x057F) (r_keep_stopped r) w)
                                    else Inr (True, snd (restart_proc V ptracee 0 w)))
                                 else if \<not> r_may_suppress r \<and> signal \<noteq> 0 then Inl (Fails Undefined)
                                 else or_fail (notify_ptracer P M V ptracer ptracee (r_event r)
                                        (r_keep_stopped r) w))))))"

end
