(* ===== verification/Children.thy ===== *)
theory Children
  imports Ptrace_Wait
begin

unbundle bit_operations_syntax

section \<open>Birth and death of tracees\<close>

text \<open>
  \<open>new_child\<close>, \<open>remove_tracee\<close>, \<open>free_terminated_tracees\<close> and \<open>swap_config\<close> of tracee/tracee.c, and a
  round of the loop of tracee/event.c that waits for the tracees.  What they call is the record \<open>Host\<close>: the
  requests of \<open>ptrace(2)\<close>, the translation of the system calls, the state of the process with a
  given pid, and two hooks of the extensions.
\<close>

record 'k Host =
  y_regs :: "'k Ptrace_Regs"
  y_mem :: "'k Ptrace_Mem"
  y_handlers :: "'k Process Handlers"
  y_events :: "('k, 'k Process) Event_Calls"
  y_kernel :: "int \<Rightarrow> 'k"
  y_inherit_extensions :: "nat \<Rightarrow> nat \<Rightarrow> word_t \<Rightarrow> 'k World \<Rightarrow> 'k World"
  y_new_status :: "nat \<Rightarrow> wait_status \<Rightarrow> 'k World \<Rightarrow> bool \<times> 'k World"

subsection \<open>An event, without the creation of a child\<close>

definition proot_event ::
  "'k Host \<Rightarrow> nat \<Rightarrow> wait_status \<Rightarrow> 'k World \<Rightarrow> halt + (int \<times> 'k World)" where
  "proot_event Y a status w =
     (case handle_tracee_event (y_regs Y) (y_handlers Y) ((y_events Y)\<lparr>z_new_child := (\<lambda>_ p. p)\<rparr>) status
             (w_globals w) (proc w a) of
        Inl h \<Rightarrow> Inl h
      | Inr (signal, g, p) \<Rightarrow>
          (let w = (update_proc a (\<lambda>_. p) w)\<lparr>w_globals := g\<rparr>
           in Inr (signal, if is_terminal status then terminate_tracee a w else w)))"

subsection \<open>The child\<close>

definition CLONE_VM :: word_t where "CLONE_VM = 0x100"
definition CLONE_FS :: word_t where "CLONE_FS = 0x200"
definition CLONE_PTRACE :: word_t where "CLONE_PTRACE = 0x2000"
definition CLONE_PARENT :: word_t where "CLONE_PARENT = 0x8000"
definition CLONE_THREAD :: word_t where "CLONE_THREAD = 0x10000"

text \<open>A word that cannot be read is -1; the caller does not test it.\<close>

definition clone_flags_of ::
  "'k Host \<Rightarrow> nat \<Rightarrow> word_t \<Rightarrow> 'k World \<Rightarrow> (word_t \<times> 'k World) res" where
  "clone_flags_of Y parent clone_flags w =
     (case fetch_regs (y_regs Y) (c_regs (proc w parent)) (c_kernel (proc w parent)) of
        (e, t, k) \<Rightarrow>
          (let w = update_proc parent (\<lambda>p. p\<lparr>c_regs := t, c_kernel := k\<rparr>) w
           in if e \<noteq> None then Inr (clone_flags, w)
              else
                (case get_sysnum t CURRENT of
                   Inl e \<Rightarrow> Inl e
                 | Inr sysnum \<Rightarrow>
                     (if sysnum = PR_clone then Inr (peek_reg t CURRENT SYSARG_1, w)
                      else if sysnum = PR_clone3 then
                        (case peek_word (y_mem Y) t k (peek_reg t CURRENT SYSARG_1) of
                           Inl Undefined \<Rightarrow> Inl Undefined
                         | Inl (Errno _) \<Rightarrow> Inr (if is_32on64_mode t then 0xFFFFFFFF else -1, w)
                         | Inr flags \<Rightarrow> Inr (flags, w))
                      else Inr (clone_flags, w)))))"

text \<open>The assertions on a child: it is new, or it stopped before its parent did.\<close>

definition unborn :: "'k World \<Rightarrow> nat \<Rightarrow> bool" where
  "unborn w child \<longleftrightarrow>
     (let p = proc w child
      in \<not> v_exe p \<and> the (namespaces w (p_fs p)) = empty_namespace \<and> p_qemu p = None \<and> p_glue p = None
         \<and> p_parent p = None \<and> p_ptracer p = None)"

definition inherit_state :: "'k Process \<Rightarrow> 'k Process \<Rightarrow> 'k Process" where
  "inherit_state parent child =
     child\<lparr>p_verbose := p_verbose parent, v_seccomp := v_seccomp parent,
           v_sysexit_pending := v_sysexit_pending parent, p_execfn_addr := p_execfn_addr parent,
           p_auxv_fd := p_auxv_fd parent, p_no_new_privs := p_no_new_privs parent,
           p_seen_execve := p_seen_execve parent, p_pokedata_stub := p_pokedata_stub parent,
           c_regs := (c_regs child)\<lparr>is_aarch32 := is_aarch32 (c_regs parent)\<rparr>\<rparr>"

definition inherit_heap :: "word_t \<Rightarrow> nat \<Rightarrow> nat \<Rightarrow> 'k World \<Rightarrow> 'k World" where
  "inherit_heap flags parent child w =
     (let heap = p_heap (proc w parent)
      in if flags AND CLONE_VM \<noteq> 0 then update_proc child (\<lambda>p. p\<lparr>p_heap := heap\<rparr>) w
         else (update_proc child (\<lambda>p. p\<lparr>p_heap := next_addr w\<rparr>) w)
                \<lparr>heaps := (heaps w)(next_addr w := heaps w heap), next_addr := next_addr w + 1\<rparr>)"

definition inherit_links :: "word_t \<Rightarrow> nat \<Rightarrow> nat \<Rightarrow> 'k World \<Rightarrow> 'k World" where
  "inherit_links flags parent child w =
     update_proc child
       (\<lambda>p. p\<lparr>p_load_info := p_load_info (proc w parent),
              p_parent := (if flags AND CLONE_PARENT \<noteq> 0 then p_parent (proc w parent) else Some parent),
              p_clone := (flags AND CLONE_THREAD \<noteq> 0)\<rparr>) w"

text \<open>The tracer of the parent traces the child if it asked for the children made in this way.\<close>

definition inherited_options :: word_t where
  "inherited_options = PTRACE_O_TRACECLONE OR PTRACE_O_TRACEEXEC OR PTRACE_O_TRACEEXIT OR PTRACE_O_TRACEFORK
     OR PTRACE_O_TRACESYSGOOD OR PTRACE_O_TRACEVFORK OR PTRACE_O_TRACEVFORKDONE"

definition fork_option :: "word_t \<Rightarrow> word_t" where
  "fork_option flags =
     (if flags = 0 then PTRACE_O_TRACEFORK
      else if flags AND 0xFF = of_int SIGCHLD then PTRACE_O_TRACEFORK
      else if flags AND CLONE_VFORK \<noteq> 0 then PTRACE_O_TRACEVFORK
      else PTRACE_O_TRACECLONE)"

definition inherit_ptracer :: "word_t \<Rightarrow> nat \<Rightarrow> nat \<Rightarrow> 'k World \<Rightarrow> 'k World" where
  "inherit_ptracer flags parent child w =
     (let options = p_options (proc w parent)
      in case p_ptracer (proc w parent) of
           None \<Rightarrow> w
         | Some ptracer \<Rightarrow>
             (if fork_option flags AND options \<noteq> 0 \<or> flags AND CLONE_PTRACE \<noteq> 0 then
                update_proc child (\<lambda>p. p\<lparr>p_options := p_options p OR (options AND inherited_options)\<rparr>)
                  (attach_to_ptracer child ptracer w)
              else w))"

text \<open>
  The name-space: shared with CLONE_FS, else a new one whose lists are those of the parent, or copies
  where the flag CLONE_NEWNS was taken out of the call.
\<close>

definition copy_bindings :: "string \<Rightarrow> Binding list \<Rightarrow> FileSystemNameSpace" where
  "copy_bindings cwd bs =
     fold (\<lambda>b fs. insort_binding3 fs (fresh_addr fs) (path_str (b_host b)) (path_str (b_guest b))) bs
       \<lparr>fs_pending = None, fs_guest = Some [], fs_host = Some [], fs_cwd = cwd\<rparr>"

definition inherit_fs :: "word_t \<Rightarrow> nat \<Rightarrow> nat \<Rightarrow> 'k World \<Rightarrow> errno option \<times> 'k World" where
  "inherit_fs flags parent child w =
     (let fs = p_fs (proc w parent); ns = the (namespaces w fs); a = next_addr w
      in if flags AND CLONE_FS \<noteq> 0 then (None, update_proc child (\<lambda>p. p\<lparr>p_fs := fs\<rparr>) w)
         else
           (let w = (update_proc child (\<lambda>p. p\<lparr>p_fs := a\<rparr>) w)
                      \<lparr>namespaces := (namespaces w)(a \<mapsto> empty_namespace), next_addr := a + 1\<rparr>
            in case n_cwd ns of
                 None \<Rightarrow> (Some ENOMEM, w)
               | Some cwd \<Rightarrow>
                   (if p_clone_stripped_newns (proc w parent) \<and> n_guest ns \<noteq> None then
                      (let new = copy_bindings cwd (foreach (fs_of w fs) GUEST)
                       in (None, w\<lparr>namespaces := (namespaces w)
                                     (a \<mapsto> \<lparr>n_pending = None, n_guest = Some (a + 1), n_host = Some (a + 2),
                                           n_cwd = Some cwd\<rparr>),
                                   binding_lists := (binding_lists w)(a + 1 := fs_guest new, a + 2 := fs_host new),
                                   next_addr := a + 3\<rparr>))
                    else
                      (None, w\<lparr>namespaces := (namespaces w)
                                 (a \<mapsto> \<lparr>n_pending = None, n_guest = n_guest ns, n_host = n_host ns,
                                       n_cwd = Some cwd\<rparr>)\<rparr>))))"

definition inherit_program :: "nat \<Rightarrow> nat \<Rightarrow> 'k World \<Rightarrow> 'k World" where
  "inherit_program parent child w =
     (let q = proc w parent
      in update_proc child
           (\<lambda>p. p\<lparr>v_exe := v_exe q, p_exe := p_exe q, p_qemu := p_qemu q, p_glue := p_glue q,
                  p_host_ldso_paths := p_host_ldso_paths q, p_guest_ldso_paths := p_guest_ldso_paths q,
                  p_tool_name := p_tool_name q\<rparr>)
           (update_proc parent (\<lambda>p. p\<lparr>p_clone_stripped_newns := False\<rparr>) w))"

text \<open>A child that stopped before its parent is told so and is restarted.\<close>

definition start_child :: "'k Host \<Rightarrow> nat \<Rightarrow> 'k World \<Rightarrow> halt + 'k World" where
  "start_child Y child w =
     (if v_sigstop (proc w child) \<noteq> SIGSTOP_PENDING then Inr w
      else
        (let w = update_proc child (\<lambda>p. p\<lparr>v_sigstop := SIGSTOP_ALLOWED\<rparr>) w
         in case (if p_ptracer (proc w child) = None then Inr (False, w)
                  else if p_tracing_started (proc w child) then Inl (Fails Undefined)
                  else
                    (case handle_ptracee_event (y_regs Y) (y_mem Y) (y_events Y) (proot_event Y) child 0x137F w of
                       Inl h \<Rightarrow> Inl h
                     | Inr (keep_stopped, w) \<Rightarrow>
                         Inr (keep_stopped, update_proc child (\<lambda>p. p\<lparr>v_pending := False, p_proot_value := 0\<rparr>) w))) of
              Inl h \<Rightarrow> Inl h
            | Inr (keep_stopped, w) \<Rightarrow>
                Inr (if keep_stopped then w else snd (restart_proc (y_events Y) child 0 w))))"

definition inherit_all :: "word_t \<Rightarrow> nat \<Rightarrow> nat \<Rightarrow> 'k World \<Rightarrow> errno option \<times> 'k World" where
  "inherit_all flags parent child w =
     (let w = update_proc child (inherit_state (proc w parent)) w;
          w = inherit_heap flags parent child w;
          w = inherit_links flags parent child w;
          w = inherit_ptracer flags parent child w
      in case inherit_fs flags parent child w of
           (Some e, w) \<Rightarrow> (Some e, w)
         | (None, w) \<Rightarrow> (None, inherit_program parent child w))"

definition new_child :: "'k Host \<Rightarrow> nat \<Rightarrow> word_t \<Rightarrow> 'k World \<Rightarrow> halt + (int \<times> 'k World)" where
  "new_child Y parent clone_flags w =
     (case clone_flags_of Y parent clone_flags w of
        Inl e \<Rightarrow> Inl (Fails e)
      | Inr (flags, w) \<Rightarrow>
          (case z_geteventmsg (y_events Y) (c_kernel (proc w parent)) of
             None \<Rightarrow> Inr (-1, w)
           | Some pid \<Rightarrow>
               (if pid = 0 then Inr (0, w)
                else
                  (case get_or_new_tracee (y_kernel Y (int_of_word pid)) (Some parent) (int_of_word pid) w of
                     (child, w) \<Rightarrow>
                       (if \<not> unborn w child then Inl (Fails Undefined)
                        else
                          (case inherit_all flags parent child w of
                             (Some e, w) \<Rightarrow> Inr (- errno_code e, w)
                           | (None, w) \<Rightarrow>
                               (case start_child Y child (y_inherit_extensions Y child parent flags w) of
                                  Inl h \<Rightarrow> Inl h
                                | Inr w \<Rightarrow> Inr (0, w))))))))"

subsection \<open>An event\<close>

text \<open>
  \<open>handle_tracee_event\<close> with the creation of the child, which does not look at what the function has
  changed before: the way of restarting the parent.
\<close>

definition tracee_event ::
  "'k Host \<Rightarrow> nat \<Rightarrow> wait_status \<Rightarrow> 'k World \<Rightarrow> halt + (int \<times> 'k World)" where
  "tracee_event Y a status w =
     (let signal = stop_signal status;
          flags = (if \<not> WIFSTOPPED status then None
                   else if signal = event EVENT_VFORK then Some CLONE_VFORK
                   else if signal = event EVENT_FORK \<or> signal = event EVENT_CLONE then Some 0
                   else None)
      in case (case flags of None \<Rightarrow> Inr (0, w) | Some flags \<Rightarrow> new_child Y a flags w) of
           Inl h \<Rightarrow> Inl h
         | Inr (_, w) \<Rightarrow> proot_event Y a status w)"

subsection \<open>The end of a tracee\<close>

text \<open>The bindings that live as long as the tracee.\<close>

definition clean_life_span :: "nat \<Rightarrow> 'k World \<Rightarrow> 'k World" where
  "clean_life_span a w =
     (let n = p_fs (proc w a); ns = the (namespaces w n);
          fs = fold (\<lambda>b fs. remove_binding_from_all_lists fs b) (p_life_bindings (proc w a)) (fs_of w n);
          w = put_list (n_guest ns) (fs_guest fs) (put_list (n_host ns) (fs_host fs) w)
      in w\<lparr>namespaces := (namespaces w)(n \<mapsto> ns\<lparr>n_pending := fs_pending fs\<rparr>)\<rparr>)"

text \<open>What happens to another tracee \<open>r\<close> when \<open>a\<close> ends: it is an orphan, it is no longer traced.\<close>

definition release_relative :: "'k Host \<Rightarrow> nat \<Rightarrow> nat \<Rightarrow> 'k World \<Rightarrow> halt + 'k World" where
  "release_relative Y a r w =
     (let w = (if p_parent (proc w r) = Some a then update_proc r (\<lambda>p. p\<lparr>p_parent := None\<rparr>) w else w)
      in if p_ptracer (proc w r) \<noteq> Some a then Inr w
         else
           (let w = update_proc r (\<lambda>p. p\<lparr>p_ptracer := None\<rparr>) w
            in case (if v_pending (proc w r) then
                       (case tracee_event Y r (p_proot_value (proc w r)) w of
                          Inl h \<Rightarrow> Inl h
                        | Inr (signal, w) \<Rightarrow> Inr (snd (restart_proc (y_events Y) r signal w)))
                     else if p_event_pending (proc w r) then
                       Inr (snd (restart_proc (y_events Y) r (int_of_status (p_proot_value (proc w r))) w))
                     else Inr w) of
                 Inl h \<Rightarrow> Inl h
               | Inr w \<Rightarrow> Inr (update_proc r zero_as_ptracee w)))"

fun release_relatives :: "'k Host \<Rightarrow> nat \<Rightarrow> nat list \<Rightarrow> 'k World \<Rightarrow> halt + 'k World" where
  "release_relatives Y a [] w = Inr w"
| "release_relatives Y a (r # rs) w =
     (case release_relative Y a r w of Inl h \<Rightarrow> Inl h | Inr w \<Rightarrow> release_relatives Y a rs w)"

text \<open>A ptracee whose end was not reported yet stays as a zombie until it is.\<close>

definition make_zombie :: "nat \<Rightarrow> nat \<Rightarrow> 'k World \<Rightarrow> 'k World res" where
  "make_zombie a ptracer w =
     (let p = proc w a;
          (z, w) = new_dummy_tracee (c_kernel p) w;
          w = update_proc ptracer (\<lambda>q. q\<lparr>p_zombies := z # p_zombies q\<rparr>) w;
          w = update_proc z (\<lambda>q. q\<lparr>p_parent := p_parent p, p_clone := p_clone p, p_pid := p_pid p\<rparr>) w
      in case detach_from_ptracer a w of
           Inl e \<Rightarrow> Inl e
         | Inr w \<Rightarrow>
             Inr (update_proc z (\<lambda>q. q\<lparr>p_event_pending := True, p_event_value := p_event_value p,
                                       p_is_zombie := True\<rparr>)
                    (attach_to_ptracer z ptracer w)))"

definition leave_ptracer :: "'k Host \<Rightarrow> nat \<Rightarrow> nat \<Rightarrow> 'k World \<Rightarrow> 'k World res" where
  "leave_ptracer Y a ptracer w =
     (if p_event_pending (proc w a) \<and> is_terminal (p_event_value (proc w a)) then make_zombie a ptracer w
      else
        (case detach_from_ptracer a w of
           Inl e \<Rightarrow> Inl e
         | Inr w \<Rightarrow>
             (if p_nb_ptracees (proc w ptracer) = 0 \<and> p_wait_pid (proc w ptracer) \<noteq> 0 then
                (let w = set_reg ptracer SYSARG_RESULT (of_int (- errno_code ECHILD)) w;
                     w = update_proc ptracer (set_wait_pid 0) (push (y_regs Y) ptracer w)
                 in Inr (snd (restart_proc (y_events Y) ptracer 0 w)))
              else Inr w)))"

text \<open>The release of the memory: the zombies of a tracee are allocated below it.\<close>

definition free_tracee :: "nat \<Rightarrow> 'k World \<Rightarrow> 'k World" where
  "free_tracee a w = w\<lparr>procs := (procs w) |` (- insert a (set (p_zombies (proc w a))))\<rparr>"

definition remove_tracee :: "'k Host \<Rightarrow> nat \<Rightarrow> 'k World \<Rightarrow> halt + 'k World" where
  "remove_tracee Y a w =
     (let w = clean_life_span a (w\<lparr>tracees := removeAll a (tracees w)\<rparr>)
      in case release_relatives Y a (tracees w) w of
           Inl h \<Rightarrow> Inl h
         | Inr w \<Rightarrow>
             (case (case p_ptracer (proc w a) of
                      None \<Rightarrow> Inr w | Some ptracer \<Rightarrow> leave_ptracer Y a ptracer w) of
                Inl e \<Rightarrow> Inl (Fails e)
              | Inr w \<Rightarrow> Inr (free_tracee a w)))"

fun free_loop :: "'k Host \<Rightarrow> nat list \<Rightarrow> 'k World \<Rightarrow> halt + 'k World" where
  "free_loop Y [] w = Inr w"
| "free_loop Y (a # as) w =
     (case (if v_terminated (proc w a) then remove_tracee Y a w else Inr w) of
        Inl h \<Rightarrow> Inl h
      | Inr w \<Rightarrow> free_loop Y as w)"

definition free_terminated_tracees :: "'k Host \<Rightarrow> 'k World \<Rightarrow> halt + 'k World" where
  "free_terminated_tracees Y w = free_loop Y (tracees w) w"

subsection \<open>Reconfiguration\<close>

definition reparent_config :: "'k Process \<Rightarrow> 'k Process \<Rightarrow> 'k Process" where
  "reparent_config old_parent new_parent =
     new_parent\<lparr>p_verbose := p_verbose old_parent, p_fs := p_fs old_parent, v_exe := v_exe old_parent,
       p_exe := p_exe old_parent, p_qemu := p_qemu old_parent, p_glue := p_glue old_parent,
       p_extensions := p_extensions old_parent\<rparr>"

definition swap_config :: "nat \<Rightarrow> nat \<Rightarrow> 'k World \<Rightarrow> 'k World" where
  "swap_config tracee1 tracee2 w =
     (let tmp = reparent_config (proc w tracee1) (zero_tracee (c_kernel (proc w tracee1)) 0 0);
          w = update_proc tracee1 (reparent_config (proc w tracee2)) w
      in update_proc tracee2 (reparent_config tmp) w)"

subsection \<open>The loop\<close>

definition event_loop_round :: "'k Host \<Rightarrow> int \<Rightarrow> wait_status \<Rightarrow> 'k World \<Rightarrow> halt + 'k World" where
  "event_loop_round Y pid status w =
     (case free_terminated_tracees Y w of
        Inl h \<Rightarrow> Inl h
      | Inr w \<Rightarrow>
          (case get_or_new_tracee (y_kernel Y pid) None pid w of
             (a, w) \<Rightarrow>
               (case y_new_status Y a status (update_proc a (\<lambda>p. p\<lparr>v_running := False\<rparr>) w) of
                  (True, w) \<Rightarrow> Inr w
                | (False, w) \<Rightarrow>
                    (case (if p_ptracer (proc w a) = None then Inr (False, w)
                           else handle_ptracee_event (y_regs Y) (y_mem Y) (y_events Y) (tracee_event Y) a status w) of
                       Inl h \<Rightarrow> Inl h
                     | Inr (True, w) \<Rightarrow> Inr w
                     | Inr (False, w) \<Rightarrow>
                         (case tracee_event Y a status w of
                            Inl h \<Rightarrow> Inl h
                          | Inr (signal, w) \<Rightarrow> Inr (snd (restart_proc (y_events Y) a signal w)))))))"

end
