(* ===== verification/Ptrace_Calls.thy ===== *)
theory Ptrace_Calls
  imports Children
begin

unbundle bit_operations_syntax

section \<open>Emulation of ptrace\<close>

text \<open>
  ptrace/ptrace.c on the arm64 target: the call \<open>ptrace(2)\<close> made by a tracee.  Its number is replaced
  at the entry by the one of a call without effect, and the request is carried out at the exit, with
  requests that PRoot itself makes to the process of the ptracee: the record \<open>Requests\<close>.  The
  functions of ptrace/user.h that convert the registers of a 32-bit process exist on x86 only, on
  arm64 they are a failing assertion.
\<close>

datatype Request =
    TRACEME | PEEKTEXT | PEEKDATA | PEEKUSER | POKETEXT | POKEDATA | POKEUSER | REQ_CONT | REQ_KILL
  | REQ_SINGLESTEP | GETREGS | SETREGS | GETFPREGS | SETFPREGS | ATTACH | DETACH | GETFPXREGS
  | SET_SYSCALL | REQ_SYSCALL | GETVFPREGS | REQ_SINGLEBLOCK | SETOPTIONS | GETEVENTMSG | GETSIGINFO
  | SETSIGINFO | GETREGSET | SETREGSET | OTHER_REQUEST

text \<open>The numbers (linux/ptrace.h, and compat.h for those that arm64 lacks).\<close>

definition request_of :: "word_t \<Rightarrow> Request" where
  "request_of request =
     (case map_of [(0, TRACEME), (1, PEEKTEXT), (2, PEEKDATA), (3, PEEKUSER), (4, POKETEXT), (5, POKEDATA),
             (6, POKEUSER), (7, REQ_CONT), (8, REQ_KILL), (9, REQ_SINGLESTEP), (12, GETREGS), (13, SETREGS),
             (14, GETFPREGS), (15, SETFPREGS), (16, ATTACH), (17, DETACH), (18, GETFPXREGS),
             (23, SET_SYSCALL), (24, REQ_SYSCALL), (27, GETVFPREGS), (33, REQ_SINGLEBLOCK),
             (0x4200, SETOPTIONS), (0x4201, GETEVENTMSG), (0x4202, GETSIGINFO), (0x4203, SETSIGINFO),
             (0x4204, GETREGSET), (0x4205, SETREGSET)] request of
        None \<Rightarrow> OTHER_REQUEST | Some r \<Rightarrow> r)"

text \<open>
  \<open>q_kill\<close> is whether \<open>kill(2)\<close> succeeds, the others are the requests: with a word, with a buffer
  of fixed size, with a set of registers.  \<open>q_alloc\<close> is whether talloc accepts a size.
\<close>

record 'k Requests =
  q_kill :: "int \<Rightarrow> bool"
  q_alloc :: "word_t \<Rightarrow> bool"
  q_ptrace_kill :: "'k \<Rightarrow> int \<times> 'k"
  q_eventmsg :: "'k \<Rightarrow> word_t res"
  q_peek :: "Request \<Rightarrow> 'k \<Rightarrow> word_t \<Rightarrow> word_t res"
  q_poke :: "Request \<Rightarrow> 'k \<Rightarrow> word_t \<Rightarrow> word_t \<Rightarrow> errno option \<times> 'k"
  q_get :: "Request \<Rightarrow> 'k \<Rightarrow> byte list res"
  q_set :: "Request \<Rightarrow> 'k \<Rightarrow> byte list \<Rightarrow> errno option \<times> 'k"
  q_getregset :: "'k \<Rightarrow> word_t \<Rightarrow> word_t \<Rightarrow> byte list option"
  q_setregset :: "'k \<Rightarrow> word_t \<Rightarrow> byte list \<Rightarrow> bool \<times> 'k"

text \<open>The sizes of \<open>siginfo_t\<close>, \<open>struct user_regs_struct\<close> and \<open>struct user_fpsimd_struct\<close>.\<close>

definition SIGINFO_SIZE :: nat where "SIGINFO_SIZE = 128"
definition REGS_SIZE :: nat where "REGS_SIZE = 272"
definition FPREGS_SIZE :: nat where "FPREGS_SIZE = 528"

definition translate_ptrace_enter :: "nat \<Rightarrow> 'k World \<Rightarrow> 'k World res" where
  "translate_ptrace_enter a w = set_void a w"

subsection \<open>Becoming a ptracee\<close>

text \<open>The parent may be NULL, which \<open>attach_to_ptracer\<close> dereferences.\<close>

definition ptrace_traceme :: "'k Requests \<Rightarrow> nat \<Rightarrow> 'k World \<Rightarrow> (int \<times> 'k World) res" where
  "ptrace_traceme Q ptracee w =
     (if p_ptracer (proc w ptracee) \<noteq> None \<or> p_parent (proc w ptracee) = Some ptracee
      then Inr (- errno_code EPERM, w)
      else
        (case p_parent (proc w ptracee) of
           None \<Rightarrow> Inl Undefined
         | Some ptracer \<Rightarrow>
             (let w = attach_to_ptracer ptracee ptracer w;
                  pid = p_pid (proc w ptracer);
                  w = (if p_waits_in (proc w ptracer) = WAITS_IN_KERNEL \<and> q_kill Q pid
                       then update_proc ptracer
                              (\<lambda>p. p\<lparr>v_sigstop := SIGSTOP_IGNORED, p_waits_in := WAITS_IN_PROOT\<rparr>)
                              (send_signal pid SIGSTOP w)
                       else w);
                  w = update_proc ptracee
                        (\<lambda>p. if v_seccomp p = ENABLED then p\<lparr>v_seccomp := DISABLING\<rparr> else p) w
              in Inr (0, w))))"

definition ptrace_attach :: "nat \<Rightarrow> word_t \<Rightarrow> 'k World \<Rightarrow> int \<times> 'k World" where
  "ptrace_attach ptracer pid w =
     (case find_tracee w (Some ptracer) (int_of_word pid) of
        None \<Rightarrow> (- errno_code ESRCH, w)
      | Some ptracee \<Rightarrow>
          (if p_ptracer (proc w ptracee) \<noteq> None \<or> ptracee = ptracer then (- errno_code EPERM, w)
           else (0, send_signal (int_of_word pid) SIGSTOP (attach_to_ptracer ptracee ptracer w))))"

subsection \<open>The requests of a ptracer\<close>

text \<open>Either the call returns, or the ptracee is restarted with a signal, where there is one, and a status.\<close>

datatype request_outcome = Returns int | Restarts "int option" int

definition err :: "errno \<Rightarrow> request_outcome" where "err e = Returns (- errno_code e)"

definition put_word ::
  "'k Ptrace_Mem \<Rightarrow> nat \<Rightarrow> word_t \<Rightarrow> word_t \<Rightarrow> 'k World \<Rightarrow> (request_outcome \<times> 'k World) res" where
  "put_word M a address v w =
     (case poke_word M (c_regs (proc w a)) (c_kernel (proc w a)) address v of
        (e, k) \<Rightarrow> Inr (case e of Some e \<Rightarrow> err e | None \<Rightarrow> Returns 0, set_kernel a k w))"

definition put_data ::
  "'k Ptrace_Mem \<Rightarrow> nat \<Rightarrow> word_t \<Rightarrow> byte list \<Rightarrow> 'k World \<Rightarrow> (request_outcome \<times> 'k World) res" where
  "put_data M a address bs w =
     (case write_data M (c_kernel (proc w a)) address bs of
        (Inl Undefined, k) \<Rightarrow> Inl Undefined
      | (Inl (Errno e), k) \<Rightarrow> Inr (err e, set_kernel a k w)
      | (Inr _, k) \<Rightarrow> Inr (Returns 0, set_kernel a k w))"

definition failing :: "failure \<Rightarrow> 'k World \<Rightarrow> (request_outcome \<times> 'k World) res" where
  "failing e w = (case e of Undefined \<Rightarrow> Inl Undefined | Errno e \<Rightarrow> Inr (err e, w))"

definition put_request ::
  "nat \<Rightarrow> (errno option \<times> 'k) \<Rightarrow> 'k World \<Rightarrow> (request_outcome \<times> 'k World) res" where
  "put_request ptracee r w =
     (case r of (e, k) \<Rightarrow> Inr (case e of Some e \<Rightarrow> err e | None \<Rightarrow> Returns 0, set_kernel ptracee k w))"

text \<open>PEEKUSER, PEEKTEXT and PEEKDATA; the word goes to the memory of the ptracer.\<close>

definition request_peek ::
  "'k Ptrace_Mem \<Rightarrow> 'k Requests \<Rightarrow> Request \<Rightarrow> nat \<Rightarrow> nat \<Rightarrow> word_t \<Rightarrow> word_t \<Rightarrow> 'k World
   \<Rightarrow> (request_outcome \<times> 'k World) res" where
  "request_peek M Q request ptracer ptracee address data w =
     (if request = PEEKUSER \<and> is_32on64_mode (c_regs (proc w ptracer)) then Inl Undefined
      else
        (case q_peek Q request (c_kernel (proc w ptracee)) (untag_pointer address) of
           Inl e \<Rightarrow> failing e w
         | Inr result \<Rightarrow> put_word M ptracer data result w))"

definition request_poke ::
  "'k Requests \<Rightarrow> Request \<Rightarrow> nat \<Rightarrow> nat \<Rightarrow> word_t \<Rightarrow> word_t \<Rightarrow> 'k World \<Rightarrow> (request_outcome \<times> 'k World) res" where
  "request_poke Q request ptracer ptracee address data w =
     (let k = c_kernel (proc w ptracee); address = untag_pointer address
      in if is_32on64_mode (c_regs (proc w ptracer)) then
           (case q_peek Q PEEKDATA k address of
              Inl e \<Rightarrow> failing e w
            | Inr tmp \<Rightarrow>
                put_request ptracee (q_poke Q request k address (data OR (tmp AND 0xFFFFFFFF00000000))) w)
         else put_request ptracee (q_poke Q request k address data) w)"

definition request_get ::
  "'k Ptrace_Mem \<Rightarrow> 'k Requests \<Rightarrow> Request \<Rightarrow> nat \<Rightarrow> nat \<Rightarrow> word_t \<Rightarrow> 'k World \<Rightarrow> (request_outcome \<times> 'k World) res" where
  "request_get M Q request ptracer ptracee data w =
     (case q_get Q request (c_kernel (proc w ptracee)) of
        Inl e \<Rightarrow> failing e w
      | Inr bs \<Rightarrow>
          (if request \<noteq> GETSIGINFO \<and> is_32on64_mode (c_regs (proc w ptracer)) then
             (if request = GETREGS then Inl Undefined else put_data M ptracer data [] w)
           else put_data M ptracer data bs w))"

definition request_size :: "Request \<Rightarrow> nat" where
  "request_size request =
     (if request = SETSIGINFO then SIGINFO_SIZE else if request = SETREGS then REGS_SIZE else FPREGS_SIZE)"

definition request_set ::
  "'k Ptrace_Mem \<Rightarrow> 'k Requests \<Rightarrow> Request \<Rightarrow> nat \<Rightarrow> nat \<Rightarrow> word_t \<Rightarrow> 'k World \<Rightarrow> (request_outcome \<times> 'k World) res" where
  "request_set M Q request ptracer ptracee data w =
     (let short = (request \<noteq> SETSIGINFO \<and> is_32on64_mode (c_regs (proc w ptracer)))
      in case read_data M (c_kernel (proc w ptracer)) data (if short then 0 else request_size request) of
           Inl e \<Rightarrow> failing e w
         | Inr bs \<Rightarrow>
             (if short then (if request = SETREGS then Inl Undefined else Inr (err ENOTSUP, w))
              else put_request ptracee (q_set Q request (c_kernel (proc w ptracee)) bs) w))"

text \<open>GETREGSET and SETREGSET take the address and the size of a buffer from the memory of the ptracer.\<close>

definition remote_iovec ::
  "'k Ptrace_Mem \<Rightarrow> nat \<Rightarrow> word_t \<Rightarrow> 'k World \<Rightarrow> (word_t \<times> word_t) res" where
  "remote_iovec M a data w =
     (let t = c_regs (proc w a); k = c_kernel (proc w a)
      in case peek_word M t k data of
           Inl e \<Rightarrow> Inl e
         | Inr base \<Rightarrow>
             (case peek_word M t k (data + of_nat (sizeof_word t)) of
                Inl e \<Rightarrow> Inl e | Inr len \<Rightarrow> Inr (base, len)))"

definition request_getregset ::
  "'k Ptrace_Mem \<Rightarrow> 'k Requests \<Rightarrow> nat \<Rightarrow> nat \<Rightarrow> word_t \<Rightarrow> word_t \<Rightarrow> 'k World \<Rightarrow> (request_outcome \<times> 'k World) res" where
  "request_getregset M Q ptracer ptracee address data w =
     (case remote_iovec M ptracer data w of
        Inl e \<Rightarrow> failing e w
      | Inr (base, len) \<Rightarrow>
          (if \<not> q_alloc Q len then Inr (err ENOMEM, w)
           else
             (case q_getregset Q (c_kernel (proc w ptracee)) address len of
                None \<Rightarrow> Inr (Returns (-1), w)
              | Some bs \<Rightarrow>
                  (let bs = take (unat len) bs
                   in case put_data M ptracer base bs w of
                        Inl e \<Rightarrow> Inl e
                      | Inr (r, w) \<Rightarrow>
                          (if r \<noteq> Returns 0 then Inr (r, w)
                           else put_word M ptracer (data + of_nat (sizeof_word (c_regs (proc w ptracer))))
                                  (of_nat (length bs)) w)))))"

definition request_setregset ::
  "'k Ptrace_Mem \<Rightarrow> 'k Requests \<Rightarrow> nat \<Rightarrow> nat \<Rightarrow> word_t \<Rightarrow> word_t \<Rightarrow> 'k World \<Rightarrow> (request_outcome \<times> 'k World) res" where
  "request_setregset M Q ptracer ptracee address data w =
     (case remote_iovec M ptracer data w of
        Inl e \<Rightarrow> failing e w
      | Inr (base, len) \<Rightarrow>
          (if \<not> q_alloc Q len then Inr (err ENOMEM, w)
           else
             (case read_data M (c_kernel (proc w ptracer)) base (unat len) of
                Inl e \<Rightarrow> failing e w
              | Inr bs \<Rightarrow>
                  (case q_setregset Q (c_kernel (proc w ptracee)) address bs of
                     (done, k) \<Rightarrow> Inr (Returns (if done then 0 else -1), set_kernel ptracee k w)))))"

text \<open>The switch over the requests.\<close>

definition ptrace_request ::
  "'k Ptrace_Mem \<Rightarrow> 'k Requests \<Rightarrow> Request \<Rightarrow> nat \<Rightarrow> nat \<Rightarrow> word_t \<Rightarrow> word_t \<Rightarrow> 'k World
   \<Rightarrow> (request_outcome \<times> 'k World) res" where
  "ptrace_request M Q request ptracer ptracee address data w =
     (let forced = Some (int_of_word data) in
      case request of
        REQ_SYSCALL \<Rightarrow> Inr (Restarts forced 0, update_proc ptracee (\<lambda>p. p\<lparr>p_ignore_syscalls := False\<rparr>) w)
      | REQ_CONT \<Rightarrow> Inr (Restarts forced 0, update_proc ptracee (\<lambda>p. p\<lparr>p_ignore_syscalls := True\<rparr>) w)
      | REQ_SINGLESTEP \<Rightarrow>
          Inr (Restarts forced 0, update_proc ptracee (\<lambda>p. p\<lparr>c_restart_how := PTRACE_SINGLESTEP\<rparr>) w)
      | REQ_SINGLEBLOCK \<Rightarrow>
          Inr (Restarts forced 0, update_proc ptracee (\<lambda>p. p\<lparr>c_restart_how := PTRACE_SINGLEBLOCK\<rparr>) w)
      | DETACH \<Rightarrow>
          (case detach_from_ptracer ptracee w of Inl e \<Rightarrow> Inl e | Inr w \<Rightarrow> Inr (Restarts None 0, w))
      | REQ_KILL \<Rightarrow>
          (case q_ptrace_kill Q (c_kernel (proc w ptracee)) of
             (status, k) \<Rightarrow> Inr (Restarts None status, set_kernel ptracee k w))
      | SETOPTIONS \<Rightarrow> Inr (Returns 0, update_proc ptracee (\<lambda>p. p\<lparr>p_options := data\<rparr>) w)
      | GETEVENTMSG \<Rightarrow>
          (case q_eventmsg Q (c_kernel (proc w ptracee)) of
             Inl e \<Rightarrow> failing e w | Inr result \<Rightarrow> put_word M ptracer data result w)
      | PEEKUSER \<Rightarrow> request_peek M Q request ptracer ptracee address data w
      | PEEKTEXT \<Rightarrow> request_peek M Q request ptracer ptracee address data w
      | PEEKDATA \<Rightarrow> request_peek M Q request ptracer ptracee address data w
      | POKEUSER \<Rightarrow>
          (if is_32on64_mode (c_regs (proc w ptracer)) then Inl Undefined
           else put_request ptracee (q_poke Q request (c_kernel (proc w ptracee)) address data) w)
      | POKETEXT \<Rightarrow> request_poke Q request ptracer ptracee address data w
      | POKEDATA \<Rightarrow> request_poke Q request ptracer ptracee address data w
      | GETSIGINFO \<Rightarrow> request_get M Q request ptracer ptracee data w
      | GETREGS \<Rightarrow> request_get M Q request ptracer ptracee data w
      | GETFPREGS \<Rightarrow> request_get M Q request ptracer ptracee data w
      | SETSIGINFO \<Rightarrow> request_set M Q request ptracer ptracee data w
      | SETREGS \<Rightarrow> request_set M Q request ptracer ptracee data w
      | SETFPREGS \<Rightarrow> request_set M Q request ptracer ptracee data w
      | GETREGSET \<Rightarrow> request_getregset M Q ptracer ptracee address data w
      | SETREGSET \<Rightarrow> request_setregset M Q ptracer ptracee address data w
      | SET_SYSCALL \<Rightarrow> put_request ptracee (q_poke Q request (c_kernel (proc w ptracee)) address data) w
      | _ \<Rightarrow> Inr (err ENOTSUP, w))"

text \<open>The event that PRoot kept for later is handled now; the signal of the ptracer goes first.\<close>

definition restart_ptracee ::
  "'k Host \<Rightarrow> nat \<Rightarrow> int option \<Rightarrow> 'k World \<Rightarrow> halt + 'k World" where
  "restart_ptracee Y ptracee forced_signal w =
     (case (if v_pending (proc w ptracee) then tracee_event Y ptracee (p_proot_value (proc w ptracee)) w
            else Inr (int_of_status (p_proot_value (proc w ptracee)), w)) of
        Inl h \<Rightarrow> Inl h
      | Inr (signal, w) \<Rightarrow>
          (let signal = (case forced_signal of Some s \<Rightarrow> if s \<noteq> -1 then s else signal | None \<Rightarrow> signal)
           in Inr (snd (restart_proc (y_events Y) ptracee signal w))))"

definition ptrace_as_ptracer ::
  "'k Host \<Rightarrow> 'k Requests \<Rightarrow> Request \<Rightarrow> nat \<Rightarrow> word_t \<Rightarrow> word_t \<Rightarrow> word_t \<Rightarrow> 'k World
   \<Rightarrow> halt + (int \<times> 'k World)" where
  "ptrace_as_ptracer Y Q request ptracer pid address data w =
     (case get_stopped_ptracee w ptracer (int_of_word pid) False WALL of
        None \<Rightarrow> Inr (- errno_code ESRCH, w)
      | Some ptracee \<Rightarrow>
          (if p_is_zombie (proc w ptracee) \<or> p_ptracer (proc w ptracee) \<noteq> Some ptracer \<or> pid = -1
           then Inr (- errno_code ESRCH, w)
           else
             (case ptrace_request (y_mem Y) Q request ptracer ptracee address data w of
                Inl e \<Rightarrow> Inl (Fails e)
              | Inr (Returns status, w) \<Rightarrow> Inr (status, w)
              | Inr (Restarts forced_signal status, w) \<Rightarrow>
                  (case restart_ptracee Y ptracee forced_signal w of
                     Inl h \<Rightarrow> Inl h | Inr w \<Rightarrow> Inr (status, w)))))"

definition translate_ptrace_exit :: "'k Host \<Rightarrow> 'k Requests \<Rightarrow> nat \<Rightarrow> 'k World \<Rightarrow> halt + (int \<times> 'k World)" where
  "translate_ptrace_exit Y Q tracee w =
     (let request = request_of (reg_of w tracee ORIGINAL SYSARG_1);
          pid = reg_of w tracee ORIGINAL SYSARG_2;
          address = reg_of w tracee ORIGINAL SYSARG_3;
          data = reg_of w tracee ORIGINAL SYSARG_4;
          pid = (if is_32on64_mode (c_regs (proc w tracee)) \<and> pid = 0xFFFFFFFF then -1 else pid)
      in if request = TRACEME then or_fail (ptrace_traceme Q tracee w)
         else if request = ATTACH then Inr (ptrace_attach tracee pid w)
         else ptrace_as_ptracer Y Q request tracee pid address data w)"

end
