(* ===== verification/Children_Props.thy ===== *)
theory Children_Props
  imports Children
begin

unbundle bit_operations_syntax

section \<open>What a child shares with its parent\<close>

text \<open>
  Lemmas on \<open>Children\<close>: the copy of the bindings answers every look-up as the original does, and what
  an assignment through the name-space of one tracee changes for the others.
\<close>

subsection \<open>Name-spaces with the same bindings\<close>

definition same_bindings :: "FileSystemNameSpace \<Rightarrow> FileSystemNameSpace \<Rightarrow> bool" where
  "same_bindings fs fs' \<longleftrightarrow>
     (\<lambda>b. (guest_key b, host_key b)) ` bindings_of fs = (\<lambda>b. (guest_key b, host_key b)) ` bindings_of fs'"

lemma same_bindings_sym: "same_bindings fs fs' \<Longrightarrow> same_bindings fs' fs"
  by (simp add: same_bindings_def)

lemma same_bindingsD:
  "same_bindings fs fs' \<Longrightarrow> b \<in> bindings_of fs \<Longrightarrow>
    \<exists>b' \<in> bindings_of fs'. guest_key b' = guest_key b \<and> host_key b' = host_key b"
proof -
  assume "same_bindings fs fs'" and "b \<in> bindings_of fs"
  then have "(guest_key b, host_key b) \<in> (\<lambda>b. (guest_key b, host_key b)) ` bindings_of fs'"
    by (auto simp: same_bindings_def)
  then show ?thesis by auto
qed

lemma covers_antisym:
  assumes "canonical p" and "canonical q" and "Bindings.covers compare_paths p q" and "Bindings.covers compare_paths q p"
  shows "p = q"
proof -
  obtain ps qs where "p = path_of ps" "valid_comps ps" "q = path_of qs" "valid_comps qs"
    using assms(1,2) by (elim canonicalE)
  then show ?thesis using assms(3,4) by (auto simp: covers_paths dest: prefix_order.antisym)
qed

text \<open>The keys of a well-formed binding determine it up to its address.\<close>

lemma wf_binding_eqI:
  assumes "wf_binding b" and "wf_binding b'" and "guest_key b = guest_key b'" and "host_key b = host_key b'"
  shows "b_guest b = b_guest b'" and "b_host b = b_host b'" and "need_substitution b = need_substitution b'"
  using assms by (auto simp: wf_binding_def wf_Path_def guest_key_def host_key_def intro!: Path.equality)

lemma get_binding_same:
  assumes "wf_fs fs" and "wf_fs fs'" and same: "same_bindings fs fs'" and p: "canonical p"
    and b: "get_binding fs GUEST p = Some b"
  shows "\<exists>b'. get_binding fs' GUEST p = Some b' \<and> b_guest b' = b_guest b \<and> b_host b' = b_host b
    \<and> need_substitution b' = need_substitution b"
proof -
  obtain c where c: "c \<in> bindings_of fs" "get_binding fs GUEST p = Some c" "Bindings.covers compare_paths (guest_key c) p"
    "\<And>y. y \<in> bindings_of fs \<Longrightarrow> Bindings.covers compare_paths (guest_key y) p \<Longrightarrow> Bindings.covers compare_paths (guest_key y) (guest_key c)"
    using get_binding_GUEST_deepest[OF assms(1) p] by blast
  obtain b' where b': "b' \<in> bindings_of fs'" "get_binding fs' GUEST p = Some b'" "Bindings.covers compare_paths (guest_key b') p"
    "\<And>y. y \<in> bindings_of fs' \<Longrightarrow> Bindings.covers compare_paths (guest_key y) p \<Longrightarrow> Bindings.covers compare_paths (guest_key y) (guest_key b')"
    using get_binding_GUEST_deepest[OF assms(2) p] by blast
  obtain d where d: "d \<in> bindings_of fs'" "guest_key d = guest_key c" "host_key d = host_key c"
    using same_bindingsD[OF same c(1)] by blast
  obtain d' where d': "d' \<in> bindings_of fs" "guest_key d' = guest_key b'"
    using same_bindingsD[OF same_bindings_sym[OF same] b'(1)] by blast
  have wf: "wf_binding c" "wf_binding b'" "wf_binding d"
    using bindings_of_wf assms(1,2) c(1) b'(1) d(1) by blast+
  have "Bindings.covers compare_paths (guest_key c) (guest_key b')" using b'(4)[OF d(1)] c(3) d(2) by simp
  moreover have "Bindings.covers compare_paths (guest_key b') (guest_key c)" using c(4)[OF d'(1)] b'(3) d'(2) by simp
  ultimately have "guest_key c = guest_key b'"
    using covers_antisym wf_binding_paths(1) wf(1,2) by blast
  then have "d = b'"
    using d b'(1) assms(2) by (auto simp: wf_fs_def bindings_of_def foreach_def HEAD_def distinct_map inj_on_def)
  then show ?thesis
    using wf_binding_eqI[OF wf(2,1)] d b'(2) b c(2) by auto
qed

lemma substitute_binding_same:
  assumes "wf_fs fs" and "wf_fs fs'" and "same_bindings fs fs'" and "canonical p"
  shows "substitute_binding fs' GUEST p = substitute_binding fs GUEST p"
proof -
  obtain b where "get_binding fs GUEST p = Some b"
    using get_binding_GUEST_deepest[OF assms(1,4)] by blast
  moreover from get_binding_same[OF assms this] obtain b' where "get_binding fs' GUEST p = Some b'"
    "b_guest b' = b_guest b" "b_host b' = b_host b" "need_substitution b' = need_substitution b" by blast
  ultimately show ?thesis by (simp add: substitute_binding_def)
qed

subsection \<open>The copy of the bindings\<close>

definition insert_copy :: "Binding \<Rightarrow> FileSystemNameSpace \<Rightarrow> FileSystemNameSpace" where
  "insert_copy b fs = insort_binding3 fs (fresh_addr fs) (path_str (b_host b)) (path_str (b_guest b))"

lemma insert_copy_sorted:
  assumes "sorted_fs fs" and "wf_binding b"
  shows "sorted_fs (insert_copy b fs)"
    and "\<exists>b'. guest_key b' = guest_key b \<and> host_key b' = host_key b
      \<and> set (foreach (insert_copy b fs) GUEST) = insert b' {x \<in> set (foreach fs GUEST). guest_key x \<noteq> guest_key b}"
proof -
  have fresh: "\<forall>x \<in> set (foreach fs GUEST). b_addr x \<noteq> fresh_addr fs"
    by (auto dest: fresh_addr_fresh)
  have eq: "insert_copy b fs = insort_binding3 fs (fresh_addr fs) (host_key b) (guest_key b)"
    by (simp add: insert_copy_def guest_key_def host_key_def)
  note ins = insort_binding3_sorted[OF assms(1) wf_binding_path_ok(2,1)[OF assms(2)] fresh]
  show "sorted_fs (insert_copy b fs)" unfolding eq by (rule ins(1))
  show "\<exists>b'. guest_key b' = guest_key b \<and> host_key b' = host_key b
      \<and> set (foreach (insert_copy b fs) GUEST) = insert b' {x \<in> set (foreach fs GUEST). guest_key x \<noteq> guest_key b}"
    unfolding eq using ins(2) by blast
qed

lemma fold_insert_copy:
  assumes "sorted_fs fs" and "\<forall>b \<in> set bs. wf_binding b" and "distinct (map guest_key bs)"
    and "guest_key ` set (foreach fs GUEST) \<inter> guest_key ` set bs = {}"
  shows "sorted_fs (fold insert_copy bs fs)
    \<and> (\<lambda>b. (guest_key b, host_key b)) ` set (foreach (fold insert_copy bs fs) GUEST) =
      (\<lambda>b. (guest_key b, host_key b)) ` (set (foreach fs GUEST) \<union> set bs)"
  using assms
proof (induction bs arbitrary: fs)
  case (Cons b bs)
  from Cons.prems(2) have wb: "wf_binding b" by simp
  obtain b' where b': "guest_key b' = guest_key b" "host_key b' = host_key b"
    "set (foreach (insert_copy b fs) GUEST) = insert b' {x \<in> set (foreach fs GUEST). guest_key x \<noteq> guest_key b}"
    using insert_copy_sorted(2)[OF Cons.prems(1) wb] by blast
  have "{x \<in> set (foreach fs GUEST). guest_key x \<noteq> guest_key b} = set (foreach fs GUEST)"
    using Cons.prems(4) by (auto dest: image_eqI[of _ guest_key, OF sym])
  with b'(3) have new: "set (foreach (insert_copy b fs) GUEST) = insert b' (set (foreach fs GUEST))" by simp
  have "guest_key ` set (foreach (insert_copy b fs) GUEST) \<inter> guest_key ` set bs = {}"
    using Cons.prems(3,4) by (auto simp: new b'(1))
  then show ?case
    using Cons.IH[OF insert_copy_sorted(1)[OF Cons.prems(1) wb]] Cons.prems(2,3) by (simp add: new b')
qed simp

lemma fold_insert_copy_cwd: "fs_cwd (fold insert_copy bs fs) = fs_cwd fs"
  by (induction bs arbitrary: fs) (simp_all add: insert_copy_def insort_binding3_cwd)

lemma copy_bindings_wf:
  assumes "wf_fs fs"
  shows "wf_fs (copy_bindings cwd (foreach fs GUEST))" and "same_bindings (copy_bindings cwd (foreach fs GUEST)) fs"
    and "fs_cwd (copy_bindings cwd bs) = cwd"
proof -
  let ?fs0 = "\<lparr>fs_pending = None, fs_guest = Some [], fs_host = Some [], fs_cwd = cwd\<rparr>"
  obtain gs where gs: "fs_guest fs = Some gs" "\<forall>b \<in> set gs. wf_binding b" "distinct (map guest_key gs)"
    "\<exists>r \<in> set gs. guest_key r = ''/''"
    using assms by (auto simp: wf_fs_def)
  have eq: "copy_bindings cwd bs = fold insert_copy bs ?fs0" for bs
    by (simp add: copy_bindings_def insert_copy_def[abs_def])
  have f: "foreach fs GUEST = gs" using gs(1) by (simp add: foreach_def HEAD_def)
  have "sorted_fs ?fs0" by (simp add: sorted_fs_def nested_def)
  then have *: "sorted_fs (fold insert_copy gs ?fs0)"
    "(\<lambda>b. (guest_key b, host_key b)) ` set (foreach (fold insert_copy gs ?fs0) GUEST) =
      (\<lambda>b. (guest_key b, host_key b)) ` set gs"
    using fold_insert_copy[OF _ gs(2,3), of ?fs0] by (simp_all add: foreach_def HEAD_def)
  show "same_bindings (copy_bindings cwd (foreach fs GUEST)) fs"
    using *(2) by (simp add: same_bindings_def bindings_of_def f eq)
  have "guest_key ` set (foreach (fold insert_copy gs ?fs0) GUEST) = guest_key ` set gs"
    using arg_cong[OF *(2), of "image fst"] by (simp add: image_image)
  moreover have "''/'' \<in> guest_key ` set gs" using gs(4) by force
  ultimately have "''/'' \<in> guest_key ` set (foreach (fold insert_copy gs ?fs0) GUEST)" by simp
  then show "wf_fs (copy_bindings cwd (foreach fs GUEST))"
    using *(1) unfolding wf_fs_sorted f eq by (metis imageE)
  show "fs_cwd (copy_bindings cwd bs) = cwd" by (simp add: eq fold_insert_copy_cwd)
qed

text \<open>
  The copy inserts in the order of the guest, so that of two bindings of one host path it finds the
  other one first: the child and the parent give the same host path different guest paths.
\<close>

lemma copy_reorders_hosts:
  "let none = \<lparr>fs_pending = None, fs_guest = Some [], fs_host = Some [], fs_cwd = ''/''\<rparr>;
       fs = insort_binding3 (insort_binding3 (insort_binding3 none 1 ''/r'' ''/'') 2 ''/h'' ''/a'') 3 ''/h'' ''/b''
   in substitute_binding fs HOST ''/h'' = Inr (1, ''/a'')
      \<and> substitute_binding (copy_bindings ''/'' (foreach fs GUEST)) HOST ''/h'' = Inr (1, ''/b'')"
  by code_simp

subsection \<open>The store\<close>

lemma update_proc_simps [simp]:
  "tracees (update_proc a f w) = tracees w" "next_vpid (update_proc a f w) = next_vpid w"
  "namespaces (update_proc a f w) = namespaces w" "binding_lists (update_proc a f w) = binding_lists w"
  "heaps (update_proc a f w) = heaps w" "next_addr (update_proc a f w) = next_addr w"
  "killed (update_proc a f w) = killed w" "w_globals (update_proc a f w) = w_globals w"
  "procs (update_proc a f w) b = (if b = a then map_option f (procs w a) else procs w b)"
  by (simp_all add: update_proc_def)

lemma proc_update_proc [simp]:
  "proc (update_proc a f w) b = (if b = a \<and> procs w a \<noteq> None then f (proc w a) else proc w b)"
  by (cases "procs w a") (auto simp: proc_def)

lemma proc_stores [simp]:
  "proc (w\<lparr>namespaces := x\<rparr>) a = proc w a" "proc (w\<lparr>binding_lists := y\<rparr>) a = proc w a"
  "proc (w\<lparr>heaps := z\<rparr>) a = proc w a" "proc (w\<lparr>next_addr := n\<rparr>) a = proc w a"
  "proc (w\<lparr>killed := k\<rparr>) a = proc w a" "proc (w\<lparr>tracees := ts\<rparr>) a = proc w a"
  "proc (w\<lparr>w_globals := g\<rparr>) a = proc w a"
  by (simp_all add: proc_def)

lemma fs_of_cong:
  "namespaces w n = namespaces w' n \<Longrightarrow> binding_lists w = binding_lists w' \<Longrightarrow> fs_of w n = fs_of w' n"
  by (simp add: fs_of_def)

lemma fs_of_update_proc [simp]: "fs_of (update_proc a f w) n = fs_of w n"
  by (rule fs_of_cong) simp_all

text \<open>Every pointer into the store is below the counter; the two lists of a name-space are not one.\<close>

definition wf_store :: "'k World \<Rightarrow> bool" where
  "wf_store w \<longleftrightarrow>
     (\<forall>n ns. namespaces w n = Some ns \<longrightarrow> n < next_addr w
        \<and> (\<forall>g. n_guest ns = Some g \<or> n_host ns = Some g \<longrightarrow> g < next_addr w)
        \<and> (n_guest ns \<noteq> None \<longrightarrow> n_guest ns \<noteq> n_host ns))
     \<and> (\<forall>a p. procs w a = Some p \<longrightarrow> a < next_addr w \<and> namespaces w (p_fs p) \<noteq> None)"

lemma wf_storeD:
  assumes "wf_store w"
  shows "namespaces w n = Some ns \<Longrightarrow> n < next_addr w"
    and "namespaces w n = Some ns \<Longrightarrow> n_guest ns = Some g \<Longrightarrow> g < next_addr w"
    and "namespaces w n = Some ns \<Longrightarrow> n_host ns = Some g \<Longrightarrow> g < next_addr w"
    and "namespaces w n = Some ns \<Longrightarrow> n_guest ns = Some g \<Longrightarrow> n_host ns \<noteq> Some g"
    and "procs w a = Some p \<Longrightarrow> a < next_addr w"
    and "procs w a = Some p \<Longrightarrow> \<exists>ns. namespaces w (p_fs p) = Some ns"
  using assms unfolding wf_store_def by fastforce+

definition sees :: "'k World \<Rightarrow> nat \<Rightarrow> FileSystemNameSpace" where
  "sees w a = fs_of w (p_fs (proc w a))"

text \<open>The effect of an operation of the tracee on its name-space: a mount, a change of directory.\<close>

definition assign :: "nat \<Rightarrow> FileSystemNameSpace \<Rightarrow> 'k World \<Rightarrow> 'k World" where
  "assign a fs w = put_fs (p_fs (proc w a)) fs w"

text \<open>What the tracees see is left as it is.\<close>

definition same_store :: "'k World \<Rightarrow> 'k World \<Rightarrow> bool" where
  "same_store w w' \<longleftrightarrow> namespaces w' = namespaces w \<and> binding_lists w' = binding_lists w
     \<and> (\<forall>a. p_fs (proc w' a) = p_fs (proc w a)
          \<and> p_clone_stripped_newns (proc w' a) = p_clone_stripped_newns (proc w a))"

lemma same_store_refl [simp]: "same_store w w"
  by (simp add: same_store_def)

lemma same_store_trans [trans]: "same_store w w1 \<Longrightarrow> same_store w1 w2 \<Longrightarrow> same_store w w2"
  by (simp add: same_store_def)

lemma same_storeD:
  "same_store w w' \<Longrightarrow> sees w' a = sees w a" "same_store w w' \<Longrightarrow> sees (assign a fs w') b = sees (assign a fs w) b"
  by (auto simp: same_store_def sees_def assign_def put_fs_def put_list_def fs_of_def Let_def proc_def
      split: option.splits)

text \<open>An update of the fields that the operations of \<open>Chain\<close>, \<open>Events\<close> and \<open>Ptrace_Wait\<close> write.\<close>

definition keeps_space :: "('k Process \<Rightarrow> 'k Process) \<Rightarrow> bool" where
  "keeps_space f \<longleftrightarrow> (\<forall>p. p_fs (f p) = p_fs p \<and> p_clone_stripped_newns (f p) = p_clone_stripped_newns p)"

lemma same_store_update: "keeps_space f \<Longrightarrow> same_store w (update_proc a f w)"
  by (auto simp: same_store_def keeps_space_def)

lemma more_c_poke: "Stop.more (c_poke r v s) = Stop.more s"
  by (simp add: c_poke_def)

lemma more_fold_c_poke: "Stop.more (fold (\<lambda>(reg, v). c_poke reg v) rvs s) = Stop.more s"
  by (induction rvs arbitrary: s) (auto simp: more_c_poke)

lemma more_chain_next: "chain_next_syscall s = Inr s' \<Longrightarrow> Stop.more s' = Stop.more s"
  by (auto simp: chain_next_syscall_def Let_def more_c_poke more_fold_c_poke
      split: option.splits list.splits sum.splits if_split_asm)

lemma more_restart_original: "restart_original_syscall s = Inr s' \<Longrightarrow> Stop.more s' = Stop.more s"
  by (auto simp: restart_original_syscall_def register_chained_syscall_def
      register_chained_syscall_internal_def Let_def split: sum.splits)

lemma more_push_stop: "Stop.more (snd (push_stop P b s)) = Stop.more s"
  by (auto simp: push_stop_def split: prod.splits)

lemma more_process:
  fixes p p' :: "'k Process"
  assumes "Stop.more p' = Stop.more p"
  shows "Event.more p' = Event.more p"
  using assms by (cases p; cases p') simp

lemma more_event:
  fixes p p' :: "'k Process"
  assumes "Event.more p' = Event.more p"
  shows "p_fs p' = p_fs p" and "p_clone_stripped_newns p' = p_clone_stripped_newns p"
    and "p_is_zombie p' = p_is_zombie p" and "p_ptracer p' = p_ptracer p" and "p_parent p' = p_parent p"
    and "p_nb_ptracees p' = p_nb_ptracees p" and "p_zombies p' = p_zombies p" and "p_pid p' = p_pid p"
    and "p_heap p' = p_heap p" and "p_wait_pid p' = p_wait_pid p" and "p_wait_options p' = p_wait_options p"
    and "p_event_value p' = p_event_value p" and "p_event_pending p' = p_event_pending p"
    and "p_clone p' = p_clone p"
  using assms by (cases p; cases p'; simp)+

lemma more_restart_tracee:
  fixes p :: "'k Process"
  shows "Event.more (snd (restart_tracee V signal p)) = Event.more p"
  by (cases p) (simp add: restart_tracee_def)

lemma same_store_restart [simp]: "same_store w (snd (restart_proc V a signal w))"
proof -
  have "Event.more (snd (restart_tracee V signal (proc w a))) = Event.more (proc w a)"
    by (rule more_restart_tracee)
  from more_event[OF this] show ?thesis
    by (auto simp: restart_proc_def same_store_def split: prod.splits)
qed

lemma same_store_push [simp]: "same_store w (push P a w)"
  unfolding push_def by (rule same_store_update)
    (simp add: keeps_space_def more_event[OF more_process[OF more_push_stop]])

lemma same_store_set_reg [simp]: "same_store w (set_reg a r v w)"
  unfolding set_reg_def by (rule same_store_update)
    (simp add: keeps_space_def more_event[OF more_process[OF more_c_poke]])

lemma same_store_set_kernel [simp]: "same_store w (set_kernel a k w)"
  unfolding set_kernel_def by (rule same_store_update) (simp add: keeps_space_def)

lemma same_store_try:
  assumes "try_proc a f w = Inr w'" and "\<And>p p'. f p = Inr p' \<Longrightarrow> Stop.more p' = Stop.more p"
  shows "same_store w w'"
proof -
  from assms(1) obtain p where p: "f (proc w a) = Inr p" "w' = update_proc a (\<lambda>_. p) w"
    by (auto simp: try_proc_def split: sum.splits)
  from more_event[OF more_process[OF assms(2)[OF p(1)]]] show ?thesis by (auto simp: same_store_def p(2))
qed

lemma same_store_send_signal [simp]: "same_store w (send_signal pid sig w)"
  by (simp add: same_store_def send_signal_def)

lemma same_store_write_status: "write_status M a st w = (r, w') \<Longrightarrow> same_store w w'"
  by (auto simp: write_status_def Let_def split: if_splits prod.splits)

lemma same_store_update_wait_status:
  assumes "update_wait_status M t a w = Inr (n, w')" and "\<not> p_is_zombie (proc w a)" and "\<not> hides a w"
  shows "same_store w w'"
proof -
  obtain r w1 where w1: "write_status M t (p_event_value (proc w a)) w = (r, w1)" by fastforce
  have "p_is_zombie (proc w1 b) = p_is_zombie (proc w b)" for b
    using w1 by (auto simp: write_status_def set_kernel_def Let_def split: if_splits prod.splits)
  then have "\<not> p_is_zombie (proc (update_proc a (\<lambda>p. p\<lparr>p_event_pending := False\<rparr>) w1) a)"
    using assms(2) by simp
  then have "w' = w1 \<or> w' = update_proc a (\<lambda>p. p\<lparr>p_event_pending := False\<rparr>) w1"
    using assms w1 by (auto simp: update_wait_status_def Let_def simp del: proc_update_proc
        split: sum.splits failure.splits)
  then show ?thesis
    using same_store_write_status[OF w1] same_store_update[of "\<lambda>p. p\<lparr>p_event_pending := False\<rparr>" w1 a]
    by (auto simp: keeps_space_def intro: same_store_trans)
qed

lemma same_store_wake:
  assumes "wake_ptracer P M V t a keep w = Inr (b, w')" and "\<not> p_is_zombie (proc w a)" and "\<not> hides a w"
  shows "same_store w w'"
proof -
  obtain st w1 where w1: "update_wait_status M t a w = Inr (st, w1)"
    using assms(1) by (auto simp: wake_ptracer_def split: sum.splits)
  obtain w2 where w2: "(if st = 0 then try_proc t chain_next_syscall w1
      else Inr (set_reg t SYSARG_RESULT (of_int st) w1)) = Inr w2"
    "w' = snd (restart_proc V t 0 (update_proc t (set_wait_pid 0) (push P t w2)))"
    using assms(1) w1 by (auto simp: wake_ptracer_def split: sum.splits prod.splits)
  have "same_store w w1" using same_store_update_wait_status[OF w1 assms(2,3)] .
  also have "same_store w1 w2"
    using w2(1) same_store_try[OF _ more_chain_next] by (auto split: if_splits)
  also have "same_store w2 (push P t w2)" by simp
  also have "same_store (push P t w2) (update_proc t (set_wait_pid 0) (push P t w2))"
    by (rule same_store_update) (simp add: keeps_space_def set_wait_pid_def)
  also have "same_store \<dots> w'" using w2(2) by simp
  finally show ?thesis .
qed

text \<open>A child that has stopped with SIGSTOP.\<close>

lemma report_of_SIGSTOP:
  "report_of 0x137F p = Some \<lparr>r_event = 0x137F, r_starts = True, r_proot_first = False,
     r_may_suppress = False, r_keep_stopped = True\<rparr>"
  by (simp add: report_of_def Let_def WIFSTOPPED_def WTERMSIG_def stop_signal_def SYSCALL_STOP_def
      event_option_def event_def SIGTRAP_def SIGSYS_def EVENT_FORK_def EVENT_VFORK_def EVENT_VFORK_DONE_def
      EVENT_CLONE_def EVENT_EXIT_def EVENT_EXEC_def EVENT_SECCOMP_def EVENT_SECCOMP2_def)

lemma not_terminal_SIGSTOP: "\<not> is_terminal 0x137F"
  by (simp add: is_terminal_def WIFEXITED_def WIFSIGNALED_def WTERMSIG_def)

lemma same_store_notify:
  assumes "notify_ptracer P M V t a status keep w = Inr (b, w')" and "\<not> p_is_zombie (proc w a)"
    and "\<not> is_terminal status" and "procs w a \<noteq> None"
  shows "same_store w w'"
proof -
  define w1 where "w1 = update_proc a (\<lambda>p. p\<lparr>p_event_value := status, p_event_pending := True\<rparr>) w"
  define w2 where "w2 = send_signal (p_pid (proc w1 t)) SIGCHLD w1"
  have "same_store w w1" unfolding w1_def by (rule same_store_update) (simp add: keeps_space_def)
  then have s: "same_store w w2" unfolding w2_def by (rule same_store_trans) simp
  have "\<not> p_is_zombie (proc w2 a)" "\<not> hides a w2"
    using assms(2,3,4) by (simp_all add: w2_def w1_def send_signal_def hides_def)
  then show ?thesis
    using assms(1) s same_store_trans[OF s same_store_wake[of P M V t a keep w2 b w']]
    by (auto simp: notify_ptracer_def Let_def w1_def w2_def split: if_splits)
qed

lemma same_store_start_child:
  assumes "start_child Y a w = Inr w'" and "p_ptracer (proc w a) \<noteq> None \<Longrightarrow> \<not> p_is_zombie (proc w a)"
    and "procs w a \<noteq> None"
  shows "same_store w w'"
proof (cases "v_sigstop (proc w a) = SIGSTOP_PENDING")
  case True
  define w1 where "w1 = update_proc a (\<lambda>p. p\<lparr>v_sigstop := SIGSTOP_ALLOWED\<rparr>) w"
  have s1: "same_store w w1" unfolding w1_def by (rule same_store_update) (simp add: keeps_space_def)
  have restart: "same_store w2 (if keep then w2 else snd (restart_proc (y_events Y) a 0 w2))" for keep w2
    by simp
  show ?thesis
  proof (cases "p_ptracer (proc w1 a)")
    case None
    then show ?thesis
      using assms(1) True s1 restart[of w1 False] by (auto simp: start_child_def w1_def Let_def intro: same_store_trans)
  next
    case (Some t)
    define w2 where "w2 = update_proc a (\<lambda>p. p\<lparr>p_tracing_started := True\<rparr>)
      (update_proc a (\<lambda>p. p\<lparr>p_proot_value := 0x137F, v_pending := True\<rparr>) w1)"
    have s2: "same_store w1 w2" unfolding w2_def
      by (rule same_store_trans; rule same_store_update) (simp_all add: keeps_space_def)
    have z: "\<not> p_is_zombie (proc w2 a)" "p_tracing_started (proc w2 a)"
      "procs w2 a \<noteq> None" "procs w1 a \<noteq> None"
      using assms(2,3) Some by (simp_all add: w1_def w2_def)
    obtain keep w3 where w3: "notify_ptracer (y_regs Y) (y_mem Y) (y_events Y) t a 0x137F True w2 = Inr (keep, w3)"
      "w' = (let w4 = update_proc a (\<lambda>p. p\<lparr>v_pending := False, p_proot_value := 0\<rparr>) w3
             in if keep then w4 else snd (restart_proc (y_events Y) a 0 w4))"
      using assms(1) True Some z(2,4)
      by (auto simp: start_child_def handle_ptracee_event_def report_of_SIGSTOP or_fail_def Let_def
          simp flip: w1_def w2_def split: sum.splits prod.splits if_split_asm)
    have "same_store w2 w3" using same_store_notify[OF w3(1) z(1) not_terminal_SIGSTOP z(3)] .
    moreover have "same_store w3 (update_proc a (\<lambda>p. p\<lparr>v_pending := False, p_proot_value := 0\<rparr>) w3)"
      by (rule same_store_update) (simp add: keeps_space_def)
    ultimately show ?thesis
      using s1 s2 restart[of _ keep] unfolding w3(2) Let_def by (blast intro: same_store_trans)
  qed
qed (use assms(1) in \<open>simp add: start_child_def\<close>)

subsection \<open>The name-space of a child\<close>

text \<open>How the name-space \<open>n\<close> of the child stands to the one of the parent, \<open>m\<close>.\<close>

definition inherits_fs :: "word_t \<Rightarrow> bool \<Rightarrow> 'k World \<Rightarrow> nat \<Rightarrow> nat \<Rightarrow> 'k World \<Rightarrow> bool" where
  "inherits_fs flags stripped w m n w' \<longleftrightarrow>
     fs_of w' m = fs_of w m \<and> wf_fs (fs_of w' n) \<and> fs_cwd (fs_of w' n) = fs_cwd (fs_of w m)
     \<and> same_bindings (fs_of w m) (fs_of w' n)
     \<and> (\<forall>fs. fs_of (put_fs n fs w') m =
          (if flags AND CLONE_FS \<noteq> 0 then fs
           else if stripped then fs_of w m
           else (fs_of w m)\<lparr>fs_guest := fs_guest fs, fs_host := fs_host fs\<rparr>))"

lemma inherit_fs_inherits:
  assumes wf: "wf_store w" and live: "procs w parent \<noteq> None" "procs w child \<noteq> None" and ne: "child \<noteq> parent"
    and fs: "wf_fs (fs_of w (p_fs (proc w parent)))"
    and run: "inherit_fs flags parent child w = (None, w')"
  shows "inherits_fs flags (p_clone_stripped_newns (proc w parent)) w (p_fs (proc w parent)) (p_fs (proc w' child)) w'"
    and "a \<noteq> child \<Longrightarrow> proc w' a = proc w a" and "procs w' a = None \<longleftrightarrow> procs w a = None"
    and "proc w' child = (proc w child)\<lparr>p_fs := p_fs (proc w' child)\<rparr>"
proof -
  let ?m = "p_fs (proc w parent)" and ?a = "next_addr w"
  obtain p where p: "procs w parent = Some p" using live(1) by blast
  obtain ns where ns: "namespaces w ?m = Some ns"
    using wf_storeD(6)[OF wf p] p by (auto simp: proc_def)
  obtain g h where gh: "n_guest ns = Some g" "n_host ns = Some h" "binding_lists w g \<noteq> None"
    using fs by (auto simp: wf_fs_def fs_of_def ns bind_eq_Some_conv)
  have lt: "?m < ?a" "g < ?a" "h < ?a" "g \<noteq> h"
    using wf_storeD(1-4)[OF wf ns] gh by auto
  have refl: "same_bindings x x" for x by (simp add: same_bindings_def)
  show "a \<noteq> child \<Longrightarrow> proc w' a = proc w a" and "procs w' a = None \<longleftrightarrow> procs w a = None"
    and "proc w' child = (proc w child)\<lparr>p_fs := p_fs (proc w' child)\<rparr>"
    using run live by (auto simp: inherit_fs_def Let_def split: if_split_asm option.splits)
  show "inherits_fs flags (p_clone_stripped_newns (proc w parent)) w ?m (p_fs (proc w' child)) w'"
  proof (cases "flags AND CLONE_FS = 0")
    case False
    then have w': "w' = update_proc child (\<lambda>p. p\<lparr>p_fs := ?m\<rparr>) w"
      using run by (simp add: inherit_fs_def Let_def)
    show ?thesis
      using False live fs lt(4) gh
      by (simp add: w' inherits_fs_def refl put_fs_def put_list_def fs_of_def ns Let_def)
  next
    case True
    obtain cwd where cwd: "n_cwd ns = Some cwd" using run True by (auto simp: inherit_fs_def Let_def ns split: option.splits)
    have cwd': "fs_cwd (fs_of w ?m) = cwd" by (simp add: fs_of_def ns cwd)
    show ?thesis
    proof (cases "p_clone_stripped_newns (proc w parent)")
      case copied: True
      define new where "new = copy_bindings cwd (foreach (fs_of w ?m) GUEST)"
      have c: "wf_fs new" "same_bindings new (fs_of w ?m)" "fs_cwd new = cwd"
        unfolding new_def by (rule copy_bindings_wf[OF fs])+
      define w1 where "w1 = (update_proc child (\<lambda>p. p\<lparr>p_fs := ?a\<rparr>) w)
        \<lparr>namespaces := (namespaces w)(?a \<mapsto> empty_namespace), next_addr := ?a + 1\<rparr>"
      have "fs_of w1 ?m = fs_of w ?m" using lt(1) by (intro fs_of_cong) (simp_all add: w1_def)
      then have w': "w' = w1\<lparr>namespaces := (namespaces w1)(?a \<mapsto> \<lparr>n_pending = None, n_guest = Some (?a + 1),
          n_host = Some (?a + 2), n_cwd = Some cwd\<rparr>),
          binding_lists := (binding_lists w1)(?a + 1 := fs_guest new, ?a + 2 := fs_host new), next_addr := ?a + 3\<rparr>"
        using run True copied gh cwd ne ns by (simp add: inherit_fs_def Let_def w1_def new_def)
      have ptr: "p_fs (proc w' child) = ?a" "namespaces w' ?a = Some \<lparr>n_pending = None, n_guest = Some (?a + 1),
           n_host = Some (?a + 2), n_cwd = Some cwd\<rparr>" "namespaces w' ?m = Some ns" "binding_lists w' g = binding_lists w g"
          "binding_lists w' h = binding_lists w h" "binding_lists w' (?a + 1) = fs_guest new"
          "binding_lists w' (?a + 2) = fs_host new"
        using lt ns live by (simp_all add: w' w1_def)
      have news: "fs_of w' (p_fs (proc w' child)) = new\<lparr>fs_pending := None\<rparr>" and old: "fs_of w' ?m = fs_of w ?m"
        using c(3) gh
        by (simp_all add: fs_of_def ptr[simplified] ns)
      have "fs_of (put_fs ?a fs w') ?m = fs_of w ?m" for fs
        using lt by (simp add: put_fs_def put_list_def fs_of_def ptr ns gh Let_def)
      moreover have "wf_fs (new\<lparr>fs_pending := None\<rparr>)" "same_bindings (fs_of w ?m) (new\<lparr>fs_pending := None\<rparr>)"
        using c(1) same_bindings_sym[OF c(2)] by (simp_all add: wf_fs_def same_bindings_def bindings_of_def foreach_def HEAD_def)
      ultimately show ?thesis
        using True copied c(3) by (simp add: inherits_fs_def news[unfolded ptr(1)] old ptr(1) cwd')
    next
      case shared: False
      have ptr: "p_fs (proc w' child) = ?a" "namespaces w' = (namespaces w)(?a \<mapsto> \<lparr>n_pending = None, n_guest = Some g,
           n_host = Some h, n_cwd = Some cwd\<rparr>)" "binding_lists w' = binding_lists w"
        using run True shared gh cwd live ne by (auto simp: inherit_fs_def Let_def ns)
      have new: "fs_of w' ?a = (fs_of w ?m)\<lparr>fs_pending := None\<rparr>" and old: "fs_of w' ?m = fs_of w ?m"
        using lt by (simp_all add: fs_of_def ptr ns gh cwd)
      have "fs_of (put_fs ?a fs w') ?m = (fs_of w ?m)\<lparr>fs_guest := fs_guest fs, fs_host := fs_host fs\<rparr>" for fs
        using lt by (simp add: put_fs_def put_list_def fs_of_def ptr ns gh Let_def)
      moreover have "wf_fs ((fs_of w ?m)\<lparr>fs_pending := None\<rparr>)" "same_bindings (fs_of w ?m) ((fs_of w ?m)\<lparr>fs_pending := None\<rparr>)"
        using fs by (simp_all add: wf_fs_def same_bindings_def bindings_of_def foreach_def HEAD_def)
      ultimately show ?thesis using True shared by (simp add: inherits_fs_def new old ptr(1))
    qed
  qed
qed

lemma inherits_fs_cong:
  assumes "namespaces w1 = namespaces w" "binding_lists w1 = binding_lists w"
    and "namespaces w2 = namespaces w'" "binding_lists w2 = binding_lists w'"
  shows "inherits_fs flags stripped w1 m n w2 = inherits_fs flags stripped w m n w'"
proof -
  have "fs_of w1 k = fs_of w k" "fs_of w2 k = fs_of w' k" for k
    using assms by (simp_all add: fs_of_def)
  moreover have "fs_of (put_fs n fs w2) m = fs_of (put_fs n fs w') m" for fs
    using assms(3,4) by (simp add: fs_of_def put_fs_def put_list_def Let_def split: option.splits)
  ultimately show ?thesis by (simp add: inherits_fs_def)
qed

lemma wf_store_mono:
  assumes "wf_store w" and "same_store w w'" and "next_addr w \<le> next_addr w'"
    and "\<And>a. procs w' a = None \<longleftrightarrow> procs w a = None"
  shows "wf_store w'"
proof -
  have "a < next_addr w' \<and> namespaces w' (p_fs p) \<noteq> None" if p: "procs w' a = Some p" for a p
  proof -
    obtain q where q: "procs w a = Some q" using assms(4)[of a] p by fastforce
    then have "p_fs p = p_fs q" using assms(2) p by (simp add: same_store_def proc_def) (metis option.sel)
    then show ?thesis using wf_storeD(5,6)[OF assms(1) q] assms(2,3) by (auto simp: same_store_def)
  qed
  moreover have "n < next_addr w' \<and> (\<forall>g. n_guest ns = Some g \<or> n_host ns = Some g \<longrightarrow> g < next_addr w')
      \<and> (n_guest ns \<noteq> None \<longrightarrow> n_guest ns \<noteq> n_host ns)" if "namespaces w' n = Some ns" for n ns
  proof -
    have ns: "namespaces w n = Some ns" using that assms(2) by (simp add: same_store_def)
    show ?thesis using wf_storeD(1-4)[OF assms(1) ns] assms(3) by fastforce
  qed
  ultimately show ?thesis unfolding wf_store_def by blast
qed

lemma same_store_inherit_heap: "same_store w (inherit_heap flags parent child w)"
proof -
  have "same_store w (update_proc child (\<lambda>p. p\<lparr>p_heap := a\<rparr>) w)" for a
    by (rule same_store_update) (simp add: keeps_space_def)
  then show ?thesis by (simp add: inherit_heap_def Let_def same_store_def)
qed

lemma same_store_inherit_ptracer: "same_store w (inherit_ptracer flags parent child w)"
  by (auto simp: inherit_ptracer_def attach_to_ptracer_def same_store_def zero_as_ptracee_def Let_def split: option.splits)

lemma inherit_heap_fields:
  "procs (inherit_heap flags parent child w) a = None \<longleftrightarrow> procs w a = None"
  "next_addr w \<le> next_addr (inherit_heap flags parent child w)"
  "p_ptracer (proc (inherit_heap flags parent child w) a) = p_ptracer (proc w a)"
  "p_is_zombie (proc (inherit_heap flags parent child w) a) = p_is_zombie (proc w a)"
  by (simp_all add: inherit_heap_def Let_def)

lemma inherit_ptracer_fields:
  "procs (inherit_ptracer flags parent child w) a = None \<longleftrightarrow> procs w a = None"
  "next_addr (inherit_ptracer flags parent child w) = next_addr w"
  by (simp_all add: inherit_ptracer_def attach_to_ptracer_def Let_def split: option.splits)

lemma inherit_ptracer_zombie:
  assumes "procs w child \<noteq> None" and "p_ptracer (proc w child) = None"
    and "p_ptracer (proc (inherit_ptracer flags parent child w) child) \<noteq> None"
  shows "\<not> p_is_zombie (proc (inherit_ptracer flags parent child w) child)"
  using assms by (auto simp: inherit_ptracer_def attach_to_ptracer_def zero_as_ptracee_def Let_def split: option.splits if_splits)

lemma inherit_all_inherits:
  assumes wf: "wf_store w" and live: "procs w parent \<noteq> None" "procs w child \<noteq> None" and ne: "child \<noteq> parent"
    and fs: "wf_fs (sees w parent)" and untraced: "p_ptracer (proc w child) = None"
    and run: "inherit_all flags parent child w = (None, w')"
  shows "inherits_fs flags (p_clone_stripped_newns (proc w parent)) w (p_fs (proc w parent)) (p_fs (proc w' child)) w'"
    and "a \<noteq> child \<Longrightarrow> p_fs (proc w' a) = p_fs (proc w a)" and "\<not> p_clone_stripped_newns (proc w' parent)"
    and "procs w' a = None \<longleftrightarrow> procs w a = None"
    and "p_ptracer (proc w' child) \<noteq> None \<Longrightarrow> \<not> p_is_zombie (proc w' child)"
proof -
  define w1 where "w1 = update_proc child (inherit_state (proc w parent)) w"
  define w2 where "w2 = inherit_heap flags parent child w1"
  define w3 where "w3 = inherit_links flags parent child w2"
  define w4 where "w4 = inherit_ptracer flags parent child w3"
  have "same_store w w1" unfolding w1_def
    by (rule same_store_update) (simp add: keeps_space_def inherit_state_def)
  also have "same_store w1 w2" unfolding w2_def by (rule same_store_inherit_heap)
  also have "same_store w2 w3" unfolding w3_def inherit_links_def
    by (rule same_store_update) (simp add: keeps_space_def)
  also have "same_store w3 w4" unfolding w4_def by (rule same_store_inherit_ptracer)
  finally have s: "same_store w w4" .
  have dom: "procs w4 a = None \<longleftrightarrow> procs w a = None" for a
    by (simp add: w4_def w3_def w2_def w1_def inherit_links_def inherit_heap_fields inherit_ptracer_fields)
  have "next_addr w \<le> next_addr w4"
    using inherit_heap_fields(2)[of w1] by (simp add: w4_def w3_def w2_def w1_def inherit_links_def inherit_ptracer_fields)
  note wf4 = wf_store_mono[OF wf s this dom]
  have fields: "p_fs (proc w4 a) = p_fs (proc w a)"
    "p_clone_stripped_newns (proc w4 a) = p_clone_stripped_newns (proc w a)" for a
    using s by (simp_all add: same_store_def)
  have stores: "namespaces w4 = namespaces w" "binding_lists w4 = binding_lists w"
    using s by (simp_all add: same_store_def)
  have "p_ptracer (proc w3 child) = None" "procs w3 child \<noteq> None"
    using untraced live
    by (simp_all add: w3_def w2_def w1_def inherit_links_def inherit_heap_fields inherit_state_def)
  then have z4: "p_ptracer (proc w4 child) \<noteq> None \<Longrightarrow> \<not> p_is_zombie (proc w4 child)"
    unfolding w4_def by (intro inherit_ptracer_zombie)
  obtain w5 where w5: "inherit_fs flags parent child w4 = (None, w5)" "w' = inherit_program parent child w5"
    using run by (auto simp: inherit_all_def Let_def simp flip: w1_def w2_def w3_def w4_def split: prod.splits option.splits)
  have live4: "procs w4 parent \<noteq> None" "procs w4 child \<noteq> None" using live dom by simp_all
  have fs4: "wf_fs (fs_of w4 (p_fs (proc w4 parent)))"
    using fs fields(1)[of parent] fs_of_cong[of w4 _ w] stores by (simp add: sees_def)
  note i = inherit_fs_inherits[OF wf4 live4 ne fs4 w5(1)]
  have out: "p_fs (proc w' a) = p_fs (proc w5 a)" "namespaces w' = namespaces w5" "binding_lists w' = binding_lists w5"
    "p_ptracer (proc w' a) = p_ptracer (proc w5 a)" "p_is_zombie (proc w' a) = p_is_zombie (proc w5 a)" for a
    by (simp_all add: w5(2) inherit_program_def Let_def)
  show "inherits_fs flags (p_clone_stripped_newns (proc w parent)) w (p_fs (proc w parent)) (p_fs (proc w' child)) w'"
    using i(1) inherits_fs_cong[OF stores[symmetric] out(2,3)] by (simp add: fields out(1))
  show "a \<noteq> child \<Longrightarrow> p_fs (proc w' a) = p_fs (proc w a)" using i(2) by (simp add: out(1) fields)
  show "\<not> p_clone_stripped_newns (proc w' parent)"
    using i(3)[of parent] live4 ne by (auto simp: w5(2) inherit_program_def Let_def)
  show "procs w' a = None \<longleftrightarrow> procs w a = None"
    using i(3)[of a] dom[of a] by (auto simp: w5(2) inherit_program_def Let_def)
  show "p_ptracer (proc w' child) \<noteq> None \<Longrightarrow> \<not> p_is_zombie (proc w' child)"
    using z4 arg_cong[OF i(4), of p_ptracer] arg_cong[OF i(4), of p_is_zombie] by (simp add: out)
qed

text \<open>The child that the kernel names: a new tracee, or one that has stopped already.\<close>

lemma get_or_new_tracee_child:
  assumes wf: "wf_store w" and p: "procs w parent \<noteq> None" and ts: "\<forall>a \<in> set (tracees w). procs w a \<noteq> None"
    and run: "get_or_new_tracee k (Some parent) pid w = (child, w')"
  shows "wf_store w'" and "procs w' child \<noteq> None" and "procs w' parent \<noteq> None"
    and "proc w' parent = proc w parent" and "fs_of w' (p_fs (proc w parent)) = fs_of w (p_fs (proc w parent))"
proof -
  obtain q where q: "procs w parent = Some q" using p by blast
  obtain ns where ns: "namespaces w (p_fs q) = Some ns" using wf_storeD(6)[OF wf q] by blast
  show "wf_store w'" and "procs w' child \<noteq> None" and "procs w' parent \<noteq> None"
    and "proc w' parent = proc w parent" and "fs_of w' (p_fs (proc w parent)) = fs_of w (p_fs (proc w parent))"
  proof -
    have "wf_store w' \<and> procs w' child \<noteq> None \<and> procs w' parent \<noteq> None \<and> proc w' parent = proc w parent
      \<and> fs_of w' (p_fs (proc w parent)) = fs_of w (p_fs (proc w parent))"
    proof (cases "find_tracee w (Some parent) pid")
      case (Some a)
      then have "a = parent \<or> a \<in> set (tracees w)"
        by (auto simp: find_tracee_def find_Some_iff split: if_splits)
      then show ?thesis using Some run wf p ts by (auto simp: get_or_new_tracee_def)
    next
      case None
      let ?a = "next_addr w"
      have w': "child = ?a" "namespaces w' = (namespaces w)(?a + 1 \<mapsto> empty_namespace)" "binding_lists w' = binding_lists w"
        "next_addr w' = ?a + 3" "\<And>b. b \<noteq> ?a \<Longrightarrow> procs w' b = procs w b"
        "\<exists>p. procs w' ?a = Some p \<and> p_fs p = ?a + 1"
        using run None by (auto simp: get_or_new_tracee_def new_tracee_def new_dummy_tracee_def Let_def zero_tracee_def)
      have pa: "parent \<noteq> ?a" "p_fs q \<noteq> ?a + 1" using wf_storeD(5)[OF wf q] wf_storeD(1)[OF wf ns] by auto
      have "wf_store w'"
        unfolding wf_store_def
      proof (intro conjI allI impI)
        fix n ms assume m: "namespaces w' n = Some ms"
        show "n < next_addr w'" using m wf_storeD(1)[OF wf, of n ms] by (auto simp: w' split: if_splits)
        show "g < next_addr w'" if "n_guest ms = Some g \<or> n_host ms = Some g" for g
          using m that wf_storeD(2,3)[OF wf, of n ms g] by (auto simp: w' empty_namespace_def split: if_splits)
        show "n_guest ms \<noteq> n_host ms" if "n_guest ms \<noteq> None"
          using m that wf_storeD(4)[OF wf, of n ms] by (fastforce simp: w' empty_namespace_def split: if_splits)
      next
        fix b r assume r: "procs w' b = Some r"
        have *: "b < ?a \<and> (\<exists>ms. namespaces w (p_fs r) = Some ms)" if "b \<noteq> ?a"
          using r that w'(5) wf_storeD(5,6)[OF wf, of b r] by simp
        show "b < next_addr w'" using * by (cases "b = ?a") (auto simp: w'(4))
        show "namespaces w' (p_fs r) \<noteq> None" using * r w'(6) by (cases "b = ?a") (auto simp: w'(2))
      qed
      moreover have "proc w' parent = proc w parent" using w'(5) pa(1) by (simp add: proc_def)
      moreover have "fs_of w' (p_fs q) = fs_of w (p_fs q)"
        using pa(2) by (intro fs_of_cong) (simp_all add: w')
      ultimately show ?thesis using w'(1,5,6) pa(1) q by (auto simp: proc_def)
    qed
    then show "wf_store w'" and "procs w' child \<noteq> None" and "procs w' parent \<noteq> None"
      and "proc w' parent = proc w parent" and "fs_of w' (p_fs (proc w parent)) = fs_of w (p_fs (proc w parent))"
      by blast+
  qed
qed

end
