(* ===== verification/Ptrace_Props.thy ===== *)
theory Ptrace_Props
  imports Ptrace_Calls Children_Props
begin

unbundle bit_operations_syntax

section \<open>The emulation of ptrace and wait\<close>

text \<open>
  Lemmas on \<open>Ptrace_Wait\<close> and \<open>Ptrace_Calls\<close>: which ptracee a call finds, the two orders of an event and
  of the call that waits for it, what a request may change, and the requests that PRoot does not
  survive.
\<close>

subsection \<open>Finding a ptracee\<close>

lemma ptracee_loop_Some:
  "ptracee_loop w t pid only_stopped with_event options as = Some a \<Longrightarrow>
    a \<in> set as \<and> p_ptracer (proc w a) = Some t \<and> fitting pid options (proc w a) \<and> (only_stopped \<longrightarrow> \<not> v_running (proc w a))"
  by (induction as) (auto simp: Let_def split: if_split_asm)

text \<open>The event of one ptracee, where no other one has an event.\<close>

lemma ptracee_loop_event:
  assumes "ptracee_loop w t pid True True options as = None" and "a \<in> set as"
    and "distinct (map (\<lambda>a. p_pid (proc w a)) as)" and "\<forall>b \<in> set as. p_pid (proc w b) \<noteq> -1"
    and "p_ptracer (proc w' a) = Some t" and "fitting pid options (proc w' a)" and "\<not> v_running (proc w' a)"
    and "p_event_pending (proc w' a)" and "p_pid (proc w' a) = p_pid (proc w a)"
    and "\<And>b. b \<noteq> a \<Longrightarrow> p_ptracer (proc w' b) = p_ptracer (proc w b) \<and> p_pid (proc w' b) = p_pid (proc w b)
      \<and> p_clone (proc w' b) = p_clone (proc w b) \<and> v_running (proc w' b) = v_running (proc w b)
      \<and> p_event_pending (proc w' b) = p_event_pending (proc w b)"
  shows "ptracee_loop w' t pid True True options as = Some a"
  using assms(1-4)
proof (induction as)
  case (Cons b as)
  show ?case
  proof (cases "b = a")
    case True
    then show ?thesis using assms(5-8) by (simp add: Let_def)
  next
    case False
    note b = assms(10)[OF False]
    have "p_pid (proc w b) \<noteq> p_pid (proc w a)" using Cons.prems(2,3) False by force
    then have "fitting pid options (proc w b) \<Longrightarrow> pid \<noteq> p_pid (proc w b)"
      using assms(6,9) Cons.prems(4) by (auto simp: fitting_def)
    then show ?thesis
      using Cons b False
      by (auto simp: Let_def fitting_def EXPECTED_WAIT_CLONE_def split: if_split_asm)
  qed
qed simp

subsection \<open>A wait and an event, in either order\<close>

lemma push_set_wait_pid:
  fixes p :: "'k Process"
  shows "snd (push_stop P b (set_wait_pid n p)) = set_wait_pid n (snd (push_stop P b p))"
  by (simp add: push_stop_def set_wait_pid_def split: prod.splits)

text \<open>What an event that PRoot does not handle first does to the ptracee.\<close>

definition reports :: "nat \<Rightarrow> wait_status \<Rightarrow> wait_status \<Rightarrow> bool \<Rightarrow> 'k World \<Rightarrow> 'k World" where
  "reports a status reported starts w =
     update_proc a (\<lambda>p. p\<lparr>p_proot_value := status, v_pending := True,
       p_tracing_started := (starts \<or> p_tracing_started p), p_event_value := reported, p_event_pending := True\<rparr>) w"

lemma update_proc_update_proc:
  "update_proc a f (update_proc a g w) = update_proc a (\<lambda>p. f (g p)) w"
  by (simp add: update_proc_def option.map_comp comp_def)

lemma update_proc_commute:
  "a \<noteq> b \<Longrightarrow> update_proc a f (update_proc b g w) = update_proc b g (update_proc a f w)"
  by (simp add: update_proc_def fun_upd_twist)

lemma update_proc_cong:
  "f (proc w a) = g (proc w a) \<Longrightarrow> update_proc a f w = update_proc a g w"
  by (cases "procs w a") (simp_all add: update_proc_def proc_def)

lemma report_of_cong:
  assumes "p_ignore_syscalls p = p_ignore_syscalls q" and "p_ignore_loader_syscalls p = p_ignore_loader_syscalls q"
    and "p_options p = p_options q" and "c_status p = c_status q"
  shows "report_of status p = report_of status q"
  unfolding report_of_def IS_IN_SYSENTER_def assms ..

lemma handle_reported:
  assumes "p_ptracer (proc w a) = Some t" and "procs w a \<noteq> None"
    and "report_of status (proc w a) = Some r" and "\<not> r_proot_first r"
    and "r_starts r \<or> p_tracing_started (proc w a)" and "a \<noteq> t"
  shows "handle_ptracee_event P M V h a status w =
    or_fail (let w1 = send_signal (p_pid (proc w t)) SIGCHLD (reports a status (r_event r) (r_starts r) w)
      in if waits_for w1 t a then wake_ptracer P M V t a (r_keep_stopped r) w1 else Inr (r_keep_stopped r, w1))"
proof -
  let ?f = "\<lambda>p::'a Process. p\<lparr>p_proot_value := status, v_pending := True\<rparr>"
  have rep: "report_of status (?f (proc w a)) = Some r"
    using assms(3) report_of_cong[of "?f (proc w a)" "proc w a" status] by simp
  have eq: "update_proc a (\<lambda>p. p\<lparr>p_event_value := r_event r, p_event_pending := True\<rparr>)
      (if r_starts r then update_proc a (\<lambda>p. p\<lparr>p_tracing_started := True\<rparr>) (update_proc a ?f w)
       else update_proc a ?f w) = reports a status (r_event r) (r_starts r) w"
    using assms(2) by (simp add: reports_def update_proc_update_proc)
  have started: "p_tracing_started (proc (if r_starts r then update_proc a (\<lambda>p. p\<lparr>p_tracing_started := True\<rparr>)
      (update_proc a ?f w) else update_proc a ?f w) a)"
    using assms(2,5) by auto
  have pid: "p_pid (proc (reports a status x y w) t) = p_pid (proc w t)" for x y
    using assms(6) by (simp add: reports_def)
  show ?thesis
    using assms(1,2,4) rep started eq pid
    by (simp add: handle_ptracee_event_def notify_ptracer_def Let_def)
qed

lemma write_status_anywhere:
  assumes "write_status M t st w = (Inr (), w1)"
  obtains k where "\<And>w'. c_kernel (proc w' t) = c_kernel (proc w t) \<Longrightarrow> c_regs (proc w' t) = c_regs (proc w t) \<Longrightarrow>
    write_status M t st w' = (Inr (), set_kernel t k w')"
proof -
  let ?k = "c_kernel (proc w t)" and ?address = "peek_reg (c_regs (proc w t)) ORIGINAL SYSARG_2"
  have same: "set_kernel t (c_kernel (proc w' t)) w' = w'" for w' :: "'a World"
    by (cases "procs w' t") (auto simp: set_kernel_def update_proc_def proc_def fun_upd_idem)
  show thesis
  proof (cases "?address = 0")
    case True
    have "write_status M t st w' = (Inr (), set_kernel t ?k w')"
      if "c_kernel (proc w' t) = ?k" "c_regs (proc w' t) = c_regs (proc w t)" for w'
      using True that same[of w'] by (simp add: write_status_def reg_of_def c_peek_def Let_def)
    then show ?thesis by (rule that)
  next
    case False
    then obtain k where "poke_uint M 4 ?k ?address (ucast st) = (Inr (), k)"
      using assms by (auto simp: write_status_def reg_of_def c_peek_def Let_def split: prod.splits)
    then show ?thesis using False
      by (intro that[of k]) (simp add: write_status_def reg_of_def c_peek_def Let_def)
  qed
qed

lemma update_wait_status_reports:
  assumes "\<not> hides a w" and "\<not> p_is_zombie (proc w a)" and "a \<noteq> t"
    and "write_status M t (p_event_value (proc w a)) w = (Inr (), set_kernel t k w)"
  shows "update_wait_status M t a w =
    Inr (p_pid (proc w a), update_proc a (\<lambda>p. p\<lparr>p_event_pending := False\<rparr>) (set_kernel t k w))"
  using assms by (simp add: update_wait_status_def set_kernel_def Let_def)

text \<open>The ptracee \<open>a\<close> is stopped with an event that its tracer \<open>t\<close>, about to wait, expects.\<close>

definition awaited :: "nat \<Rightarrow> nat \<Rightarrow> wait_status \<Rightarrow> Report \<Rightarrow> 'k World \<Rightarrow> bool" where
  "awaited t a status r w \<longleftrightarrow>
     (let pid = int_of_word (reg_of w t ORIGINAL SYSARG_1); options = reg_of w t ORIGINAL SYSARG_3
      in procs w t \<noteq> None \<and> procs w a \<noteq> None \<and> a \<in> set (tracees w) \<and> a \<noteq> t
         \<and> distinct (map (\<lambda>a. p_pid (proc w a)) (tracees w)) \<and> (\<forall>b \<in> set (tracees w). 0 < p_pid (proc w b))
         \<and> p_ptracer (proc w a) = Some t \<and> \<not> v_running (proc w a) \<and> \<not> p_is_zombie (proc w a)
         \<and> p_waits_in (proc w t) = WAITS_IN_PROOT \<and> p_wait_pid (proc w t) = 0 \<and> \<not> v_waits (proc w t)
         \<and> p_nb_ptracees (proc w t) \<noteq> 0 \<and> options AND WNOHANG = 0
         \<and> fitting pid options (proc w a) \<and> get_stopped_ptracee w t pid True options = None
         \<and> report_of status (proc w a) = Some r \<and> \<not> r_proot_first r
         \<and> (r_starts r \<or> p_tracing_started (proc w a))
         \<and> \<not> (p_parent (proc w a) = Some t \<and> is_terminal (r_event r)))"

lemma get_stopped_reported:
  assumes "awaited t a status r w" and "pid = int_of_word (reg_of w t ORIGINAL SYSARG_1)"
    and "options = reg_of w t ORIGINAL SYSARG_3"
  shows "get_stopped_ptracee (send_signal n s (reports a status (r_event r) (r_starts r)
    (update_proc t (\<lambda>p. p\<lparr>p_waits_in := DOESNT_WAIT\<rparr>) w))) t pid True options = Some a"
proof -
  define w1 where "w1 = send_signal n s (reports a status (r_event r) (r_starts r)
    (update_proc t (\<lambda>p. p\<lparr>p_waits_in := DOESNT_WAIT\<rparr>) w))"
  note aw = assms(1)[unfolded awaited_def, folded assms(2,3), unfolded Let_def]
  have none: "find (\<lambda>z. fitting pid options (proc w z)) (p_zombies (proc w t)) = None"
    "ptracee_loop w t pid True True options (tracees w) = None"
    using aw by (auto simp: get_stopped_ptracee_def get_ptracee_def split: option.splits)
  have fit: "fitting pid options (proc w1 b) = fitting pid options (proc w b)" for b
    by (simp add: w1_def send_signal_def reports_def fitting_def EXPECTED_WAIT_CLONE_def)
  have "ptracee_loop w1 t pid True True options (tracees w) = Some a"
  proof (rule ptracee_loop_event[OF none(2)])
    show "a \<in> set (tracees w)" "distinct (map (\<lambda>a. p_pid (proc w a)) (tracees w))"
      "\<forall>b \<in> set (tracees w). p_pid (proc w b) \<noteq> -1" "fitting pid options (proc w1 a)"
      using aw fit by auto
    show "p_ptracer (proc w1 a) = Some t" "\<not> v_running (proc w1 a)" "p_event_pending (proc w1 a)"
      "p_pid (proc w1 a) = p_pid (proc w a)"
      using aw by (auto simp: w1_def send_signal_def reports_def)
    show "b \<noteq> a \<Longrightarrow> p_ptracer (proc w1 b) = p_ptracer (proc w b) \<and> p_pid (proc w1 b) = p_pid (proc w b)
      \<and> p_clone (proc w1 b) = p_clone (proc w b) \<and> v_running (proc w1 b) = v_running (proc w b)
      \<and> p_event_pending (proc w1 b) = p_event_pending (proc w b)" for b
      by (simp add: w1_def send_signal_def reports_def)
  qed
  moreover have "p_zombies (proc w1 t) = p_zombies (proc w t)" "tracees w1 = tracees w"
    by (simp_all add: w1_def send_signal_def reports_def)
  ultimately have "get_stopped_ptracee w1 t pid True options = Some a"
    using none(1) fit by (simp add: get_stopped_ptracee_def get_ptracee_def)
  then show ?thesis by (simp add: w1_def)
qed

text \<open>The event first: it is kept, and the call finds it.\<close>

lemma event_then_wait:
  assumes aw: "awaited t a status r w" and writes: "write_status M t (r_event r) w = (Inr (), w0)"
  obtains k where "\<And>w'. c_kernel (proc w' t) = c_kernel (proc w t) \<Longrightarrow> c_regs (proc w' t) = c_regs (proc w t) \<Longrightarrow>
      write_status M t (r_event r) w' = (Inr (), set_kernel t k w')"
    and "handle_ptracee_event P M V h a status w = Inr (r_keep_stopped r,
      send_signal (p_pid (proc w t)) SIGCHLD (reports a status (r_event r) (r_starts r) w))"
    and "translate_wait_exit M t (send_signal (p_pid (proc w t)) SIGCHLD (reports a status (r_event r) (r_starts r) w)) =
      Inr (p_pid (proc w a), update_proc a (\<lambda>p. p\<lparr>p_event_pending := False\<rparr>) (set_kernel t k
        (update_proc t (\<lambda>p. p\<lparr>p_waits_in := DOESNT_WAIT\<rparr>)
          (send_signal (p_pid (proc w t)) SIGCHLD (reports a status (r_event r) (r_starts r) w)))))"
proof -
  obtain k where k: "\<And>w'. c_kernel (proc w' t) = c_kernel (proc w t) \<Longrightarrow> c_regs (proc w' t) = c_regs (proc w t) \<Longrightarrow>
      write_status M t (r_event r) w' = (Inr (), set_kernel t k w')"
    using write_status_anywhere[OF writes] by metis
  define pid options where "pid = int_of_word (reg_of w t ORIGINAL SYSARG_1)" and "options = reg_of w t ORIGINAL SYSARG_3"
  note aw' = aw[unfolded awaited_def, folded pid_def options_def, unfolded Let_def]
  define w1 where "w1 = send_signal (p_pid (proc w t)) SIGCHLD (reports a status (r_event r) (r_starts r) w)"
  define w2 where "w2 = update_proc t (\<lambda>p. p\<lparr>p_waits_in := DOESNT_WAIT\<rparr>) w1"
  have "\<not> waits_for w1 t a"
    using aw' by (auto simp: waits_for_def w1_def send_signal_def reports_def)
  then have handled: "handle_ptracee_event P M V h a status w = Inr (r_keep_stopped r, w1)"
    using aw' by (subst handle_reported[of w a t status r]) (simp_all add: w1_def or_fail_def)
  have w2': "w2 = send_signal (p_pid (proc w t)) SIGCHLD (reports a status (r_event r) (r_starts r)
      (update_proc t (\<lambda>p. p\<lparr>p_waits_in := DOESNT_WAIT\<rparr>) w))"
    using aw' by (simp add: w2_def w1_def send_signal_def reports_def update_proc_def fun_upd_twist)
  have found: "get_stopped_ptracee w2 t pid True options = Some a"
    unfolding w2' by (rule get_stopped_reported[OF aw pid_def options_def])
  have regs: "reg_of w2 t ORIGINAL x = reg_of w t ORIGINAL x" "c_regs (proc w2 t) = c_regs (proc w t)"
    "c_kernel (proc w2 t) = c_kernel (proc w t)" for x
    using aw' by (auto simp: w2_def w1_def send_signal_def reports_def reg_of_def c_peek_def)
  have a: "p_event_value (proc w2 a) = r_event r" "\<not> p_is_zombie (proc w2 a)" "\<not> hides a w2"
    "p_pid (proc w2 a) = p_pid (proc w a)" "p_waits_in (proc w1 t) = WAITS_IN_PROOT"
    using aw' by (auto simp: w2_def w1_def send_signal_def reports_def hides_def)
  have reg1: "reg_of (update_proc t (\<lambda>p. p\<lparr>p_waits_in := DOESNT_WAIT\<rparr>) w1) t ORIGINAL x = reg_of w t ORIGINAL x" for x
    using regs(1) by (simp add: w2_def)
  have ws: "write_status M t (p_event_value (proc w2 a)) w2 = (Inr (), set_kernel t k w2)"
    unfolding a(1) using regs by (intro k)
  have "update_wait_status M t a w2 =
      Inr (p_pid (proc w a), update_proc a (\<lambda>p. p\<lparr>p_event_pending := False\<rparr>) (set_kernel t k w2))"
    using update_wait_status_reports[OF a(3,2) _ ws] aw' a(4) by simp
  then have "translate_wait_exit M t w1 =
      Inr (p_pid (proc w a), update_proc a (\<lambda>p. p\<lparr>p_event_pending := False\<rparr>) (set_kernel t k w2))"
    using a(5) found reg1
    by (simp add: translate_wait_exit_def Let_def pid_def options_def flip: w2_def)
  then show thesis using that k handled by (simp add: w1_def w2_def)
qed

text \<open>The call first: the tracer waits, and the event wakes it up.\<close>

lemma wait_then_event:
  assumes aw: "awaited t a status r w"
    and k: "\<And>w'. c_kernel (proc w' t) = c_kernel (proc w t) \<Longrightarrow> c_regs (proc w' t) = c_regs (proc w t) \<Longrightarrow>
      write_status M t (r_event r) w' = (Inr (), set_kernel t k w')"
    and w1: "w1 = update_proc t (\<lambda>p. (set_wait_pid (int_of_word (reg_of w t ORIGINAL SYSARG_1))
        (p\<lparr>p_waits_in := DOESNT_WAIT\<rparr>))\<lparr>p_wait_options := reg_of w t ORIGINAL SYSARG_3\<rparr>) w"
    and w2: "w2 = send_signal (p_pid (proc w t)) SIGCHLD (reports a status (r_event r) (r_starts r) w1)"
  shows "translate_wait_exit M t w = Inr (0, w1)"
    and "handle_ptracee_event P M V h a status w1 =
      (case restart_proc V t 0 (update_proc t (set_wait_pid 0) (push P t (set_reg t SYSARG_RESULT (of_int (p_pid (proc w a)))
         (update_proc a (\<lambda>p. p\<lparr>p_event_pending := False\<rparr>) (set_kernel t k w2))))) of
         (restarted, w') \<Rightarrow> Inr (r_keep_stopped r \<and> restarted, w'))"
proof -
  define pid options where "pid = int_of_word (reg_of w t ORIGINAL SYSARG_1)" and "options = reg_of w t ORIGINAL SYSARG_3"
  note aw' = aw[unfolded awaited_def, folded pid_def options_def, unfolded Let_def]
  let ?d = "\<lambda>p::'a Process. p\<lparr>p_waits_in := DOESNT_WAIT\<rparr>"
  have none: "get_stopped_ptracee (update_proc t ?d w) t pid True options = get_stopped_ptracee w t pid True options"
  proof -
    have fit: "fitting pid options (proc (update_proc t ?d w) b) = fitting pid options (proc w b)" for b
      by (simp add: fitting_def EXPECTED_WAIT_CLONE_def)
    have "ptracee_loop (update_proc t ?d w) t pid x y options as = ptracee_loop w t pid x y options as" for x y as
      by (induction as) (simp_all add: Let_def fit del: proc_update_proc, simp add: fit)
    moreover have "p_zombies (proc (update_proc t ?d w) t) = p_zombies (proc w t)" by simp
    ultimately show ?thesis
      by (simp add: get_stopped_ptracee_def get_ptracee_def fit del: proc_update_proc split: option.split)
  qed
  have regs: "reg_of (update_proc t ?d w) t ORIGINAL x = reg_of w t ORIGINAL x" for x
    by (simp add: reg_of_def c_peek_def)
  show exit: "translate_wait_exit M t w = Inr (0, w1)"
    using aw' none regs
    by (simp add: translate_wait_exit_def Let_def w1 update_proc_update_proc comp_def flip: pid_def options_def)
  have same: "proc w1 a = proc w a" "procs w1 a = procs w a" "c_regs (proc w1 t) = c_regs (proc w t)"
      "c_kernel (proc w1 t) = c_kernel (proc w t)" "p_pid (proc w1 t) = p_pid (proc w t)"
      "p_wait_pid (proc w1 t) = pid" "p_wait_options (proc w1 t) = options"
    using aw' by (auto simp: w1 set_wait_pid_def pid_def options_def)
  have a: "p_event_value (proc w2 a) = r_event r" "\<not> p_is_zombie (proc w2 a)" "\<not> hides a w2"
      "p_pid (proc w2 a) = p_pid (proc w a)" "waits_for w2 t a"
      "c_regs (proc w2 t) = c_regs (proc w t)" "c_kernel (proc w2 t) = c_kernel (proc w t)"
    using aw' same by (auto simp: w2 send_signal_def reports_def hides_def waits_for_def fitting_def EXPECTED_WAIT_CLONE_def)
  have ws: "write_status M t (p_event_value (proc w2 a)) w2 = (Inr (), set_kernel t k w2)"
    unfolding a(1) by (rule k[OF a(7,6)])
  have upd: "update_wait_status M t a w2 =
      Inr (p_pid (proc w a), update_proc a (\<lambda>p. p\<lparr>p_event_pending := False\<rparr>) (set_kernel t k w2))"
    using update_wait_status_reports[OF a(3,2) _ ws] aw' a(4) by simp
  have "p_pid (proc w a) \<noteq> 0" using aw' by auto
  then have "wake_ptracer P M V t a keep w2 =
      (case restart_proc V t 0 (update_proc t (set_wait_pid 0) (push P t (set_reg t SYSARG_RESULT (of_int (p_pid (proc w a)))
         (update_proc a (\<lambda>p. p\<lparr>p_event_pending := False\<rparr>) (set_kernel t k w2))))) of
         (restarted, w') \<Rightarrow> Inr (keep \<and> restarted, w'))" for keep
    by (simp add: wake_ptracer_def upd)
  then show "handle_ptracee_event P M V h a status w1 =
      (case restart_proc V t 0 (update_proc t (set_wait_pid 0) (push P t (set_reg t SYSARG_RESULT (of_int (p_pid (proc w a)))
         (update_proc a (\<lambda>p. p\<lparr>p_event_pending := False\<rparr>) (set_kernel t k w2))))) of
         (restarted, w') \<Rightarrow> Inr (r_keep_stopped r \<and> restarted, w'))"
    using aw' same a(5)
    by (subst handle_reported[of w1 a t status r]) (simp_all add: or_fail_def flip: w2 split: prod.splits)
qed

text \<open>Waking the tracer up gives it what the call returns to a tracer that does not wait.\<close>

lemma orders_agree:
  assumes aw: "awaited t a status r w"
    and w1: "w1 = update_proc t (\<lambda>p. (set_wait_pid pid (p\<lparr>p_waits_in := DOESNT_WAIT\<rparr>))\<lparr>p_wait_options := options\<rparr>) w"
  shows "update_proc t (set_wait_pid 0) (push P t (set_reg t SYSARG_RESULT v
      (update_proc a (\<lambda>p. p\<lparr>p_event_pending := False\<rparr>) (set_kernel t k (send_signal n s (reports a status e b w1)))))) =
    push P t (set_reg t SYSARG_RESULT v (update_proc t (\<lambda>p. p\<lparr>p_wait_options := options\<rparr>)
      (update_proc a (\<lambda>p. p\<lparr>p_event_pending := False\<rparr>) (set_kernel t k
        (update_proc t (\<lambda>p. p\<lparr>p_waits_in := DOESNT_WAIT\<rparr>) (send_signal n s (reports a status e b w)))))))"
proof -
  obtain p where p: "procs w t = Some p" "p_wait_pid p = 0" "\<not> v_waits p" and ne: "a \<noteq> t"
    using aw by (auto simp: awaited_def proc_def Let_def)
  let ?q = "c_poke SYSARG_RESULT v (p\<lparr>p_waits_in := DOESNT_WAIT, c_kernel := k, p_wait_options := options\<rparr>)"
  have "set_wait_pid 0 (c_poke SYSARG_RESULT v
      ((set_wait_pid pid (p\<lparr>p_waits_in := DOESNT_WAIT\<rparr>))\<lparr>p_wait_options := options, c_kernel := k\<rparr>)) = ?q"
    using p(2,3) by (cases p) (simp add: set_wait_pid_def c_poke_def)
  then have "set_wait_pid 0 (snd (push_stop P True (c_poke SYSARG_RESULT v
      ((set_wait_pid pid (p\<lparr>p_waits_in := DOESNT_WAIT\<rparr>))\<lparr>p_wait_options := options, c_kernel := k\<rparr>)))) =
      snd (push_stop P True ?q)"
    by (simp flip: push_set_wait_pid)
  then show ?thesis
    using ne p(1)
    by (intro World.equality)
      (auto simp: w1 push_def set_reg_def set_kernel_def send_signal_def reports_def fun_eq_iff)
qed

subsection \<open>What a request may change\<close>

definition touches :: "nat set \<Rightarrow> 'k World \<Rightarrow> 'k World \<Rightarrow> bool" where
  "touches S w w' \<longleftrightarrow> w' = w\<lparr>procs := procs w'\<rparr> \<and> (\<forall>b. b \<notin> S \<longrightarrow> procs w' b = procs w b)
     \<and> (\<forall>b. p_ptracer (proc w' b) = p_ptracer (proc w b) \<and> p_parent (proc w' b) = p_parent (proc w b))"

lemma touches_refl [simp]: "touches S w w"
  by (simp add: touches_def)

lemma touches_trans:
  assumes "touches S w w1" and "touches S w1 w2"
  shows "touches S w w2"
proof -
  have "w1 = w\<lparr>procs := procs w1\<rparr>" and 2: "w2 = w1\<lparr>procs := procs w2\<rparr>"
    using assms unfolding touches_def by blast+
  from arg_cong[OF this(1), of "\<lambda>u. u\<lparr>procs := procs w2\<rparr>"] 2 have "w2 = w\<lparr>procs := procs w2\<rparr>" by simp
  then show ?thesis using assms unfolding touches_def by simp
qed

lemma touches_update:
  "a \<in> S \<Longrightarrow> (\<And>p. p_ptracer (f p) = p_ptracer p \<and> p_parent (f p) = p_parent p) \<Longrightarrow> touches S w (update_proc a f w)"
  by (simp add: touches_def)

lemma touches_set_kernel: "a \<in> S \<Longrightarrow> touches S w (set_kernel a k w)"
  unfolding set_kernel_def by (rule touches_update) simp_all

lemma put_word_touches: "put_word M a address v w = Inr (r, w') \<Longrightarrow> a \<in> S \<Longrightarrow> touches S w w'"
  by (auto simp: put_word_def touches_set_kernel split: prod.splits)

lemma put_data_touches: "put_data M a address bs w = Inr (r, w') \<Longrightarrow> a \<in> S \<Longrightarrow> touches S w w'"
  by (auto simp: put_data_def touches_set_kernel split: prod.splits sum.splits failure.splits)

lemma put_request_touches: "put_request a x w = Inr (r, w') \<Longrightarrow> a \<in> S \<Longrightarrow> touches S w w'"
  by (auto simp: put_request_def touches_set_kernel split: prod.splits)

lemma failing_same: "failing e w = Inr (r, w') \<Longrightarrow> w' = w"
  by (auto simp: failing_def split: failure.splits)

text \<open>The requests that do not restart the ptracee.\<close>

definition looks :: "Request \<Rightarrow> bool" where
  "looks request \<longleftrightarrow>
     request \<notin> set [TRACEME, ATTACH, REQ_SYSCALL, REQ_CONT, REQ_SINGLESTEP, REQ_SINGLEBLOCK, DETACH, REQ_KILL]"

lemma request_touches:
  assumes "ptrace_request M Q request t a address data w = Inr (r, w')" and "looks request"
  shows "touches {a, t} w w' \<and> (\<exists>n. r = Returns n)"
proof -
  have ret: "put_word M t x v w1 = Inr (r, w') \<Longrightarrow> \<exists>n. r = Returns n"
    "put_data M t x bs w1 = Inr (r, w') \<Longrightarrow> \<exists>n. r = Returns n"
    "put_request a y w1 = Inr (r, w') \<Longrightarrow> \<exists>n. r = Returns n"
    "failing e w1 = Inr (r, w') \<Longrightarrow> \<exists>n. r = Returns n" for x y v bs e w1
    by (auto simp: put_word_def put_data_def put_request_def failing_def err_def
        split: prod.splits sum.splits failure.splits option.splits)
  note simple = put_word_touches[of M t _ _ w r w' "{a, t}"] put_data_touches[of M t _ _ w r w' "{a, t}"]
    put_request_touches[of a _ w r w' "{a, t}"] failing_same[of _ w r w'] ret
  have peek: "request_peek M Q request t a address data w = Inr (r, w') \<Longrightarrow> ?thesis"
    by (auto simp: request_peek_def split: if_splits sum.splits dest: simple)
  have poke: "request_poke Q request t a address data w = Inr (r, w') \<Longrightarrow> ?thesis"
    by (auto simp: request_poke_def Let_def split: if_splits sum.splits dest: simple)
  have get: "request_get M Q request t a data w = Inr (r, w') \<Longrightarrow> ?thesis"
    by (auto simp: request_get_def split: if_splits sum.splits dest: simple)
  have set: "request_set M Q request t a data w = Inr (r, w') \<Longrightarrow> ?thesis"
    by (auto simp: request_set_def err_def Let_def split: if_splits sum.splits dest: simple)
  have getregset: "request_getregset M Q t a address data w = Inr (r, w') \<Longrightarrow> ?thesis"
    by (auto simp: request_getregset_def err_def Let_def split: if_splits sum.splits option.splits prod.splits
        dest: simple ret put_data_touches[of M t _ _ w _ _ "{a, t}"] put_word_touches[of M t _ _ _ r w' "{a, t}"]
        intro: touches_trans)
  have setregset: "request_setregset M Q t a address data w = Inr (r, w') \<Longrightarrow> ?thesis"
    by (auto simp: request_setregset_def err_def Let_def touches_set_kernel split: if_splits sum.splits prod.splits
        dest: simple)
  show ?thesis
    using assms peek poke get set getregset setregset
    by (cases request) (auto simp: ptrace_request_def looks_def err_def Let_def split: sum.splits if_splits
        dest: simple intro: touches_update)
qed

text \<open>A request that does not restart its ptracee looks at a stopped ptracee of the caller.\<close>

lemma looks_only:
  assumes run: "translate_ptrace_exit Y Q t w = Inr (n, w')"
    and looks: "looks (request_of (reg_of w t ORIGINAL SYSARG_1))"
    and zombies: "\<forall>z \<in> set (p_zombies (proc w t)). p_is_zombie (proc w z)"
  shows "n = - errno_code ESRCH \<and> w' = w
    \<or> (\<exists>a \<in> set (tracees w). p_ptracer (proc w a) = Some t \<and> \<not> v_running (proc w a)
         \<and> (p_pid (proc w a) = int_of_word (reg_of w t ORIGINAL SYSARG_2)
              \<or> int_of_word (reg_of w t ORIGINAL SYSARG_2) = -1 \<and> reg_of w t ORIGINAL SYSARG_2 \<noteq> -1)
         \<and> touches {a, t} w w')"
proof -
  let ?r = "request_of (reg_of w t ORIGINAL SYSARG_1)"
  define pid where "pid = (if is_32on64_mode (c_regs (proc w t)) \<and> reg_of w t ORIGINAL SYSARG_2 = 0xFFFFFFFF
    then -1 else reg_of w t ORIGINAL SYSARG_2)"
  have req: "?r \<noteq> TRACEME" "?r \<noteq> ATTACH" using looks by (auto simp: looks_def)
  have "ptrace_as_ptracer Y Q ?r t pid (reg_of w t ORIGINAL SYSARG_3) (reg_of w t ORIGINAL SYSARG_4) w = Inr (n, w')"
    using run req by (simp add: translate_ptrace_exit_def Let_def pid_def split: if_splits)
  then consider "n = - errno_code ESRCH \<and> w' = w"
    | a r where "get_stopped_ptracee w t (int_of_word pid) False WALL = Some a" "\<not> p_is_zombie (proc w a)" "pid \<noteq> -1"
        "ptrace_request (y_mem Y) Q ?r t a (reg_of w t ORIGINAL SYSARG_3) (reg_of w t ORIGINAL SYSARG_4) w = Inr (r, w')"
    using request_touches[OF _ looks]
    by (fastforce simp: ptrace_as_ptracer_def split: option.splits if_splits sum.splits prod.splits request_outcome.splits)
  then show ?thesis
  proof cases
    case 2
    then have "ptracee_loop w t (int_of_word pid) True False WALL (tracees w) = Some a"
      using zombies by (auto simp: get_stopped_ptracee_def get_ptracee_def find_Some_iff split: option.splits)
    from ptracee_loop_Some[OF this] have a: "a \<in> set (tracees w)" "p_ptracer (proc w a) = Some t" "\<not> v_running (proc w a)"
      "int_of_word pid = p_pid (proc w a) \<or> int_of_word pid = -1"
      by (auto simp: fitting_def)
    have "pid = reg_of w t ORIGINAL SYSARG_2" using 2(3) by (auto simp: pid_def split: if_splits)
    then show ?thesis using a 2(3) request_touches[OF 2(4) looks] by auto
  qed simp
qed

subsection \<open>What PRoot does not survive, or does not mean\<close>

text \<open>An orphan that asks to be traced by its parent: the pointer to the parent is NULL.\<close>

lemma orphan_traceme:
  assumes "p_parent (proc w a) = None" and "p_ptracer (proc w a) = None"
  shows "ptrace_traceme Q a w = Inl Undefined"
  using assms by (simp add: ptrace_traceme_def)

text \<open>A 32-bit tracer that reads or writes the user area of its ptracee meets a failing assertion.\<close>

lemma user_area_32bit:
  assumes "is_32on64_mode (c_regs (proc w t))"
  shows "ptrace_request M Q PEEKUSER t a address data w = Inl Undefined"
    and "ptrace_request M Q POKEUSER t a address data w = Inl Undefined"
    and "q_get Q GETREGS (c_kernel (proc w a)) = Inr bs \<Longrightarrow> ptrace_request M Q GETREGS t a address data w = Inl Undefined"
  using assms by (simp_all add: ptrace_request_def request_peek_def request_get_def Let_def)

text \<open>
  A tracee that has called \<open>wait(2)\<close> is taken for one that waits in the kernel for ever: the next child
  that asks to be traced makes PRoot stop it.
\<close>

lemma wait_enter_kernel:
  assumes "p_nb_ptracees (proc w t) = 0" and "procs w t \<noteq> None"
  shows "\<exists>w'. translate_wait_enter t w = Inr w' \<and> p_waits_in (proc w' t) = WAITS_IN_KERNEL"
  using assms by (auto simp: translate_wait_enter_def Let_def)

lemma traceme_stops_ptracer:
  assumes "p_ptracer (proc w a) = None" and "p_parent (proc w a) = Some t" and "a \<noteq> t" and "procs w t \<noteq> None"
    and "p_waits_in (proc w t) = WAITS_IN_KERNEL" and "q_kill Q (p_pid (proc w t))"
  shows "\<exists>w'. ptrace_traceme Q a w = Inr (0, w') \<and> killed w' = (p_pid (proc w t), SIGSTOP) # killed w
    \<and> p_waits_in (proc w' t) = WAITS_IN_PROOT"
  using assms by (auto simp: ptrace_traceme_def attach_to_ptracer_def send_signal_def Let_def)

end
