(* ===== verification/Links.thy ===== *)
theory Links
  imports Ptrace_Props
begin

unbundle bit_operations_syntax

section \<open>The graph of the tracees\<close>

text \<open>
  The pointers between tracees: every parent and every tracer is a tracee of the list, every counter
  of ptracees is exact, every zombie is in the list of its tracer.  The invariant \<open>wf_links\<close> holds along
  the operations of \<open>Children\<close>, \<open>Ptrace_Wait\<close> and \<open>Ptrace_Calls\<close>.  While a tracee is being freed it is
  no longer in the list, but others may still point to it: \<open>D\<close> is the set of the tracees being freed,
  \<open>R\<close> the set of those not yet released from them.
\<close>

definition links :: "'k Process \<Rightarrow> nat option \<times> nat option \<times> nat \<times> nat list \<times> bool" where
  "links p = (p_parent p, p_ptracer p, p_nb_ptracees p, p_zombies p, p_is_zombie p)"

definition ptracees :: "'k World \<Rightarrow> nat \<Rightarrow> nat set" where
  "ptracees w t = {a. procs w a \<noteq> None \<and> p_ptracer (proc w a) = Some t}"

definition listed :: "nat set \<Rightarrow> 'k World \<Rightarrow> bool" where
  "listed D w \<longleftrightarrow> distinct (tracees w) \<and> set (tracees w) \<inter> D = {}
     \<and> (\<forall>a. procs w a \<noteq> None \<and> \<not> p_is_zombie (proc w a) \<longleftrightarrow> a \<in> set (tracees w) \<union> D)
     \<and> (\<forall>a. procs w a \<noteq> None \<longrightarrow> a < next_addr w)"

definition parents_live :: "nat set \<Rightarrow> nat set \<Rightarrow> 'k World \<Rightarrow> bool" where
  "parents_live D R w \<longleftrightarrow>
     (\<forall>a q. a \<in> set (tracees w) \<longrightarrow> p_parent (proc w a) = Some q \<longrightarrow> q \<in> set (tracees w) \<or> q \<in> D \<and> a \<in> R)"

definition tracers_live :: "nat set \<Rightarrow> nat set \<Rightarrow> 'k World \<Rightarrow> bool" where
  "tracers_live D R w \<longleftrightarrow>
     (\<forall>a t. procs w a \<noteq> None \<longrightarrow> p_ptracer (proc w a) = Some t \<longrightarrow>
        t \<in> set (tracees w) \<or> t \<in> D \<and> (a \<in> R \<or> a \<in> D \<or> p_is_zombie (proc w a)))"

definition counted :: "'k World \<Rightarrow> bool" where
  "counted w \<longleftrightarrow> (\<forall>t \<in> set (tracees w). p_nb_ptracees (proc w t) = card (ptracees w t))"

definition zombies_kept :: "nat set \<Rightarrow> 'k World \<Rightarrow> bool" where
  "zombies_kept D w \<longleftrightarrow>
     (\<forall>z. procs w z \<noteq> None \<longrightarrow> p_is_zombie (proc w z) \<longrightarrow>
        (\<exists>t. p_ptracer (proc w z) = Some t \<and> z \<in> set (p_zombies (proc w t))))
     \<and> (\<forall>t \<in> set (tracees w) \<union> D. distinct (p_zombies (proc w t))
          \<and> (\<forall>z \<in> set (p_zombies (proc w t)). procs w z \<noteq> None \<and> p_is_zombie (proc w z)
               \<and> p_ptracer (proc w z) = Some t))"

definition wf_links :: "nat set \<Rightarrow> nat set \<Rightarrow> 'k World \<Rightarrow> bool" where
  "wf_links D R w \<longleftrightarrow> listed D w \<and> parents_live D R w \<and> tracers_live D R w \<and> counted w \<and> zombies_kept D w"

lemma wf_linksD:
  assumes "wf_links D R w"
  shows "distinct (tracees w)" and "set (tracees w) \<inter> D = {}"
    and "a \<in> set (tracees w) \<union> D \<Longrightarrow> procs w a \<noteq> None \<and> \<not> p_is_zombie (proc w a)"
    and "procs w a \<noteq> None \<Longrightarrow> \<not> p_is_zombie (proc w a) \<Longrightarrow> a \<in> set (tracees w) \<union> D"
    and "procs w a \<noteq> None \<Longrightarrow> a < next_addr w"
proof -
  note c = assms[unfolded wf_links_def listed_def, THEN conjunct1]
  show "distinct (tracees w)" and "set (tracees w) \<inter> D = {}"
    using c[THEN conjunct1] c[THEN conjunct2, THEN conjunct1] by simp_all
  show "a \<in> set (tracees w) \<union> D \<Longrightarrow> procs w a \<noteq> None \<and> \<not> p_is_zombie (proc w a)"
    and "procs w a \<noteq> None \<Longrightarrow> \<not> p_is_zombie (proc w a) \<Longrightarrow> a \<in> set (tracees w) \<union> D"
    using c[THEN conjunct2, THEN conjunct2, THEN conjunct1] by blast+
  show "procs w a \<noteq> None \<Longrightarrow> a < next_addr w"
    using c[THEN conjunct2, THEN conjunct2, THEN conjunct2] by blast
qed

lemma finite_ptracees: "wf_links D R w \<Longrightarrow> finite (ptracees w t)"
  by (rule finite_subset[of _ "{..<next_addr w}"]) (auto simp: ptracees_def intro: wf_linksD(5))

subsection \<open>Operations that keep the pointers\<close>

definition same_links :: "'k World \<Rightarrow> 'k World \<Rightarrow> bool" where
  "same_links w w' \<longleftrightarrow> tracees w' = tracees w \<and> next_addr w \<le> next_addr w'
     \<and> (\<forall>a. (procs w' a = None \<longleftrightarrow> procs w a = None) \<and> links (proc w' a) = links (proc w a))"

lemma same_links_refl [simp]: "same_links w w"
  by (simp add: same_links_def)

lemma same_links_trans [trans]: "same_links w w1 \<Longrightarrow> same_links w1 w2 \<Longrightarrow> same_links w w2"
  by (simp add: same_links_def)

lemma same_linksD:
  assumes "same_links w w'"
  shows "tracees w' = tracees w" "procs w' a = None \<longleftrightarrow> procs w a = None" "p_parent (proc w' a) = p_parent (proc w a)"
    "p_ptracer (proc w' a) = p_ptracer (proc w a)" "p_nb_ptracees (proc w' a) = p_nb_ptracees (proc w a)"
    "p_zombies (proc w' a) = p_zombies (proc w a)" "p_is_zombie (proc w' a) = p_is_zombie (proc w a)"
    "ptracees w' t = ptracees w t"
  using assms by (auto simp: same_links_def links_def ptracees_def)

lemma wf_links_same:
  assumes "wf_links D R w" and "same_links w w'"
  shows "wf_links D R w'"
proof -
  note same = same_linksD[OF assms(2)]
  have "listed D w'"
    unfolding listed_def same
  proof (intro conjI allI impI)
    show "distinct (tracees w)" and "set (tracees w) \<inter> D = {}" using wf_linksD(1,2)[OF assms(1)] by simp_all
    show "procs w a \<noteq> None \<and> \<not> p_is_zombie (proc w a) \<longleftrightarrow> a \<in> set (tracees w) \<union> D" for a
      using wf_linksD(3,4)[OF assms(1)] by blast
    show "procs w a \<noteq> None \<Longrightarrow> a < next_addr w'" for a
      using wf_linksD(5)[OF assms(1)] assms(2) by (fastforce simp: same_links_def)
  qed
  then show ?thesis
    using assms(1) unfolding wf_links_def parents_live_def tracers_live_def counted_def zombies_kept_def same by blast
qed

definition keeps_links :: "('k Process \<Rightarrow> 'k Process) \<Rightarrow> bool" where
  "keeps_links f \<longleftrightarrow> (\<forall>p. links (f p) = links p)"

lemma same_links_update: "keeps_links f \<Longrightarrow> same_links w (update_proc a f w)"
  by (simp add: keeps_links_def same_links_def)

lemma same_links_fields:
  "same_links w w' \<Longrightarrow> same_links w (w'\<lparr>namespaces := n\<rparr>)" "same_links w w' \<Longrightarrow> same_links w (w'\<lparr>binding_lists := l\<rparr>)"
  "same_links w w' \<Longrightarrow> same_links w (w'\<lparr>heaps := h\<rparr>)" "same_links w w' \<Longrightarrow> same_links w (w'\<lparr>w_globals := g\<rparr>)"
  "same_links w w' \<Longrightarrow> same_links w (w'\<lparr>killed := ks\<rparr>)"
  "same_links w w' \<Longrightarrow> next_addr w' \<le> m \<Longrightarrow> same_links w (w'\<lparr>next_addr := m\<rparr>)"
  by (simp_all add: same_links_def proc_def)

lemma links_more:
  fixes p p' :: "'k Process"
  assumes "Event.more p' = Event.more p"
  shows "links p' = links p"
  using more_event[OF assms] by (simp add: links_def)

lemma keeps_linksI:
  "(\<And>p. Event.more (f p) = Event.more p) \<Longrightarrow> keeps_links f"
  unfolding keeps_links_def by (intro allI links_more)

lemma same_links_restart: "same_links w (snd (restart_proc V a signal w))"
proof -
  have "links (snd (restart_tracee V signal (proc w a))) = links (proc w a)"
    by (rule links_more) (rule more_restart_tracee)
  then show ?thesis by (auto simp: restart_proc_def same_links_def split: prod.splits)
qed

lemma same_links_push: "same_links w (push P a w)"
  unfolding push_def by (intro same_links_update keeps_linksI more_process more_push_stop)

lemma same_links_set_reg: "same_links w (set_reg a r v w)"
  unfolding set_reg_def by (intro same_links_update keeps_linksI more_process more_c_poke)

lemma same_links_set_kernel: "same_links w (set_kernel a k w)"
  unfolding set_kernel_def by (intro same_links_update) (simp add: keeps_links_def links_def)

lemma same_links_signal: "same_links w (send_signal pid s w)"
  unfolding send_signal_def by (intro same_links_fields) simp

lemma same_links_try:
  assumes "try_proc a f w = Inr w'" and "\<And>p p'. f p = Inr p' \<Longrightarrow> links p' = links p"
  shows "same_links w w'"
proof -
  obtain p where "f (proc w a) = Inr p" "w' = update_proc a (\<lambda>_. p) w"
    using assms(1) by (auto simp: try_proc_def split: sum.splits)
  then show ?thesis using assms(2)[of "proc w a" p] by (simp add: same_links_def)
qed

lemma same_links_set_void: "set_void a w = Inr w' \<Longrightarrow> same_links w w'"
  unfolding set_void_def by (erule same_links_try) (auto simp: links_def split: sum.splits)

lemma same_links_write_status: "write_status M t st w = (r, w') \<Longrightarrow> same_links w w'"
  by (auto simp: write_status_def Let_def same_links_set_kernel split: if_splits prod.splits)

lemma same_links_put_list: "same_links w w' \<Longrightarrow> same_links w (put_list x bs w')"
  by (auto simp: put_list_def intro: same_links_fields split: option.splits)

lemmas same_links_steps = same_links_restart same_links_push same_links_set_reg same_links_set_kernel same_links_signal

subsection \<open>Tracing\<close>

lemma ptracees_update:
  "ptracees (update_proc a f w) t =
    (if procs w a = None then ptracees w t
     else if p_ptracer (f (proc w a)) = Some t then insert a (ptracees w t) else ptracees w t - {a})"
  by (auto simp: ptracees_def)

lemma attach_wf:
  assumes wf: "wf_links D R w" and a: "a \<in> set (tracees w)" and t: "t \<in> set (tracees w)"
    and free: "p_ptracer (proc w a) = None"
  shows "wf_links D R (attach_to_ptracer a t w)"
proof -
  let ?w = "attach_to_ptracer a t w"
  note live = wf_linksD(3)[OF wf]
  have la: "procs w a \<noteq> None" "\<not> p_is_zombie (proc w a)" "procs w t \<noteq> None" "\<not> p_is_zombie (proc w t)"
    using live a t by auto
  have f: "tracees ?w = tracees w" "next_addr ?w = next_addr w" "procs ?w b = None \<longleftrightarrow> procs w b = None"
    "p_parent (proc ?w b) = p_parent (proc w b)" "p_ptracer (proc ?w b) = (if b = a then Some t else p_ptracer (proc w b))"
    "p_zombies (proc ?w b) = p_zombies (proc w b)" "p_is_zombie (proc ?w b) = p_is_zombie (proc w b)"
    "p_nb_ptracees (proc ?w b) = p_nb_ptracees (proc w b) + (if b = t then 1 else 0)" for b
    using la by (auto simp: attach_to_ptracer_def zero_as_ptracee_def)
  have pt: "ptracees ?w u = (if u = t then insert a (ptracees w u) else ptracees w u)" for u
    using la free by (auto simp: ptracees_def f)
  have "a \<notin> ptracees w t" using free by (simp add: ptracees_def)
  then have card: "card (ptracees ?w u) = card (ptracees w u) + (if u = t then 1 else 0)" for u
    using finite_ptracees[OF wf] by (simp add: pt)
  have "listed D ?w" and "parents_live D R ?w" and "counted ?w"
    using wf by (simp_all add: wf_links_def listed_def parents_live_def counted_def f card)
  moreover have "tracers_live D R ?w"
    using wf t by (simp add: wf_links_def tracers_live_def f)
  moreover have "zombies_kept D ?w"
    unfolding zombies_kept_def f
  proof (intro conjI allI ballI impI)
    fix z assume z: "procs w z \<noteq> None" "p_is_zombie (proc w z)"
    then have "z \<noteq> a" using la by blast
    with z wf show "\<exists>u. (if z = a then Some t else p_ptracer (proc w z)) = Some u \<and> z \<in> set (p_zombies (proc w u))"
      by (simp add: wf_links_def zombies_kept_def)
  next
    fix u assume u: "u \<in> set (tracees w) \<union> D"
    then show "distinct (p_zombies (proc w u))" using wf by (simp add: wf_links_def zombies_kept_def)
    fix z assume "z \<in> set (p_zombies (proc w u))"
    then have "procs w z \<noteq> None \<and> p_is_zombie (proc w z) \<and> p_ptracer (proc w z) = Some u"
      using wf u unfolding wf_links_def zombies_kept_def by blast
    moreover from this have "z \<noteq> a" using la by blast
    ultimately show "procs w z \<noteq> None" "p_is_zombie (proc w z)" "(if z = a then Some t else p_ptracer (proc w z)) = Some u"
      by simp_all
  qed
  ultimately show ?thesis unfolding wf_links_def by blast
qed

lemma detach_defined:
  assumes wf: "wf_links D R w" and t: "p_ptracer (proc w a) = Some t" "t \<in> set (tracees w)" and a: "procs w a \<noteq> None"
  obtains w' where "detach_from_ptracer a w = Inr w'"
    and "w' = update_proc t (\<lambda>p. p\<lparr>p_nb_ptracees := p_nb_ptracees p - 1\<rparr>) (update_proc a (\<lambda>p. p\<lparr>p_ptracer := None\<rparr>) w)"
proof -
  have "a \<in> ptracees w t" using t a by (simp add: ptracees_def)
  then have "card (ptracees w t) \<noteq> 0" using finite_ptracees[OF wf] by auto
  then have "p_nb_ptracees (proc w t) \<noteq> 0" using wf t(2) by (simp add: wf_links_def counted_def)
  then show thesis using that t(1) by (simp add: detach_from_ptracer_def)
qed

text \<open>What a detachment, with the release of the ptracee where it is a zombie, does to the links.\<close>

lemma detach_fields:
  assumes wf: "wf_links D R w" and t: "p_ptracer (proc w a) = Some t" "t \<in> set (tracees w) \<union> D" and a: "procs w a \<noteq> None"
    and run: "detach_from_ptracer a w = Inr w'"
  shows "tracees w' = tracees w" "next_addr w' = next_addr w" "procs w' b = None \<longleftrightarrow> procs w b = None"
    "p_parent (proc w' b) = p_parent (proc w b)" "p_ptracer (proc w' b) = (if b = a then None else p_ptracer (proc w b))"
    "p_zombies (proc w' b) = p_zombies (proc w b)" "p_is_zombie (proc w' b) = p_is_zombie (proc w b)"
    "u \<in> set (tracees w) \<Longrightarrow> p_nb_ptracees (proc w' u) = card (ptracees w u - {a})"
proof -
  have w': "w' = update_proc t (\<lambda>p. p\<lparr>p_nb_ptracees := p_nb_ptracees p - 1\<rparr>) (update_proc a (\<lambda>p. p\<lparr>p_ptracer := None\<rparr>) w)"
    using run t(1) by (auto simp: detach_from_ptracer_def split: if_splits)
  have lt: "procs w t \<noteq> None" using wf_linksD(3)[OF wf] t(2) by blast
  show "tracees w' = tracees w" "next_addr w' = next_addr w" "procs w' b = None \<longleftrightarrow> procs w b = None"
    "p_parent (proc w' b) = p_parent (proc w b)" "p_ptracer (proc w' b) = (if b = a then None else p_ptracer (proc w b))"
    "p_zombies (proc w' b) = p_zombies (proc w b)" "p_is_zombie (proc w' b) = p_is_zombie (proc w b)"
    using a by (auto simp: w')
  assume u: "u \<in> set (tracees w)"
  have "p_nb_ptracees (proc w u) = card (ptracees w u)" using wf u by (simp add: wf_links_def counted_def)
  moreover have "a \<in> ptracees w u \<longleftrightarrow> u = t" using t(1) a by (auto simp: ptracees_def)
  ultimately show "p_nb_ptracees (proc w' u) = card (ptracees w u - {a})"
    using lt finite_ptracees[OF wf, of u] by (auto simp: w' card_Diff_singleton_if)
qed

lemma detach_wf:
  assumes wf: "wf_links D R w" and t: "p_ptracer (proc w a) = Some t" "t \<in> set (tracees w) \<union> D"
    and a: "procs w a \<noteq> None" "\<not> p_is_zombie (proc w a)" and run: "detach_from_ptracer a w = Inr w'"
  shows "wf_links D R w'"
proof -
  note f = detach_fields[OF wf t a(1) run]
  have pt: "ptracees w' u = ptracees w u - {a}" for u
    using a(1) by (auto simp: ptracees_def f)
  have "listed D w'" and "parents_live D R w'"
    using wf by (simp_all add: wf_links_def listed_def parents_live_def f)
  moreover have "counted w'" by (simp add: counted_def f pt)
  moreover have "tracers_live D R w'" using wf by (auto simp: wf_links_def tracers_live_def f)
  moreover have "zombies_kept D w'"
    unfolding zombies_kept_def f
  proof (intro conjI allI ballI impI)
    fix z assume z: "procs w z \<noteq> None" "p_is_zombie (proc w z)"
    then have "z \<noteq> a" using a by blast
    with z wf show "\<exists>u. (if z = a then None else p_ptracer (proc w z)) = Some u \<and> z \<in> set (p_zombies (proc w u))"
      by (simp add: wf_links_def zombies_kept_def)
  next
    fix u assume u: "u \<in> set (tracees w) \<union> D"
    then show "distinct (p_zombies (proc w u))" using wf by (simp add: wf_links_def zombies_kept_def)
    fix z assume "z \<in> set (p_zombies (proc w u))"
    then have "procs w z \<noteq> None \<and> p_is_zombie (proc w z) \<and> p_ptracer (proc w z) = Some u"
      using wf u unfolding wf_links_def zombies_kept_def by blast
    moreover from this have "z \<noteq> a" using a by blast
    ultimately show "procs w z \<noteq> None" "p_is_zombie (proc w z)" "(if z = a then None else p_ptracer (proc w z)) = Some u"
      by simp_all
  qed
  ultimately show ?thesis unfolding wf_links_def by blast
qed

lemma free_zombie_fields:
  "tracees (free_zombie z w) = tracees w" "next_addr (free_zombie z w) = next_addr w"
  "procs (free_zombie z w) b = None \<longleftrightarrow> procs w b = None \<or> b = z"
  "procs w b \<noteq> None \<Longrightarrow> b \<noteq> z \<Longrightarrow> proc (free_zombie z w) b = (proc w b)\<lparr>p_zombies := removeAll z (p_zombies (proc w b))\<rparr>"
  by (auto simp: free_zombie_def proc_def)

lemma bury_wf:
  assumes wf: "wf_links D R w" and t: "p_ptracer (proc w z) = Some t" "t \<in> set (tracees w) \<union> D"
    and z: "procs w z \<noteq> None" "p_is_zombie (proc w z)" and run: "detach_from_ptracer z w = Inr w1"
  shows "wf_links D R (free_zombie z w1)"
proof -
  note f = detach_fields[OF wf t z(1) run]
  note g = free_zombie_fields[where z = z and w = w1]
  let ?w = "free_zombie z w1"
  have dom: "procs ?w b = None \<longleftrightarrow> procs w b = None \<or> b = z" for b by (simp add: g f)
  have h: "p_parent (proc ?w b) = p_parent (proc w b)" "p_ptracer (proc ?w b) = p_ptracer (proc w b)"
    "p_is_zombie (proc ?w b) = p_is_zombie (proc w b)" "p_zombies (proc ?w b) = removeAll z (p_zombies (proc w b))"
    "p_nb_ptracees (proc ?w b) = p_nb_ptracees (proc w1 b)" if "procs w b \<noteq> None" "b \<noteq> z" for b
    using that f(3)[of b] by (simp_all add: g(4) f)
  have live: "procs w b \<noteq> None" "b \<noteq> z" if "b \<in> set (tracees w) \<union> D" for b
    using wf_linksD(3)[OF wf that] z by auto
  have pt: "ptracees ?w u = ptracees w u - {z}" for u
    by (auto simp: ptracees_def dom h)
  have tr: "tracees ?w = tracees w" by (simp add: g f)
  have "listed D ?w"
    unfolding listed_def tr
  proof (intro conjI allI impI)
    show "distinct (tracees w)" and "set (tracees w) \<inter> D = {}" using wf_linksD(1,2)[OF wf] by simp_all
    show "procs ?w b \<noteq> None \<and> \<not> p_is_zombie (proc ?w b) \<longleftrightarrow> b \<in> set (tracees w) \<union> D" for b
    proof (cases "procs w b = None \<or> b = z")
      case True
      then show ?thesis using dom[of b] live[of b] by auto
    next
      case False
      then show ?thesis using dom[of b] h(3)[of b] wf_linksD(3,4)[OF wf, of b] by auto
    qed
    show "procs ?w b \<noteq> None \<Longrightarrow> b < next_addr ?w" for b
      using dom[of b] wf_linksD(5)[OF wf, of b] by (simp add: g f)
  qed
  moreover have "parents_live D R ?w"
    using wf live h(1) unfolding wf_links_def parents_live_def tr by (metis UnI1)
  moreover have "tracers_live D R ?w"
    using wf h(2,3) dom unfolding wf_links_def tracers_live_def tr by metis
  moreover have "counted ?w"
    using live h(5) f(8) by (simp add: counted_def tr pt)
  moreover have "zombies_kept D ?w"
    unfolding zombies_kept_def tr
  proof (intro conjI allI ballI impI)
    fix y assume y: "procs ?w y \<noteq> None" "p_is_zombie (proc ?w y)"
    then have y': "procs w y \<noteq> None" "y \<noteq> z" "p_is_zombie (proc w y)"
      using dom[of y] h(3)[of y] by auto
    then obtain u where u: "p_ptracer (proc w y) = Some u" "y \<in> set (p_zombies (proc w u))"
      using wf unfolding wf_links_def zombies_kept_def by blast
    have "u \<in> set (tracees w) \<union> D"
      using wf y'(1) u(1) unfolding wf_links_def tracers_live_def by blast
    from live[OF this] show "\<exists>u. p_ptracer (proc ?w y) = Some u \<and> y \<in> set (p_zombies (proc ?w u))"
      using u y' h by auto
  next
    fix u assume u: "u \<in> set (tracees w) \<union> D"
    note lu = h[OF live[OF u]]
    have d: "distinct (p_zombies (proc w u))" "\<And>y. y \<in> set (p_zombies (proc w u)) \<Longrightarrow>
        procs w y \<noteq> None \<and> p_is_zombie (proc w y) \<and> p_ptracer (proc w y) = Some u"
      using wf u unfolding wf_links_def zombies_kept_def by blast+
    show "distinct (p_zombies (proc ?w u))" using d(1) by (simp add: lu distinct_removeAll)
    fix y assume "y \<in> set (p_zombies (proc ?w u))"
    then have "y \<noteq> z" "y \<in> set (p_zombies (proc w u))" by (auto simp: lu)
    then show "procs ?w y \<noteq> None" "p_is_zombie (proc ?w y)" "p_ptracer (proc ?w y) = Some u"
      using d(2)[of y] h[of y] dom[of y] by simp_all
  qed
  ultimately show ?thesis unfolding wf_links_def by blast
qed

end
