(* ===== verification/Links_Events.thy ===== *)
theory Links_Events
  imports Links
begin

unbundle bit_operations_syntax

section \<open>The graph of the tracees along events\<close>

text \<open>
  The invariant of \<open>Links\<close> along the events of a tracee, the calls \<open>ptrace(2)\<close> and \<open>wait(2)\<close>, the birth and
  the death of tracees, and a round of the loop of PRoot.
\<close>

subsection \<open>What PRoot does by itself\<close>

text \<open>The translation of the calls and the hooks of the extensions leave the pointers alone.\<close>

definition keeps_graph :: "'k Host \<Rightarrow> bool" where
  "keeps_graph Y \<longleftrightarrow>
     (\<forall>s st s'. x_syscall_enter (y_handlers Y) s = Inr (st, s') \<longrightarrow> links s' = links s)
     \<and> (\<forall>s s'. x_syscall_exit (y_handlers Y) s = Inr s' \<longrightarrow> links s' = links s)
     \<and> (\<forall>s. links (snd (x_chained_enter (y_handlers Y) s)) = links s)
     \<and> (\<forall>s. links (x_chained_exit (y_handlers Y) s) = links s)
     \<and> (\<forall>s. links (snd (z_handle_seccomp_event (y_events Y) s)) = links s)
     \<and> (\<forall>c p f w. same_links w (y_inherit_extensions Y c p f w))
     \<and> (\<forall>a st w. same_links w (snd (y_new_status Y a st w)))"

lemma keeps_graphD:
  assumes "keeps_graph Y"
  shows "x_syscall_enter (y_handlers Y) s = Inr (st, s') \<Longrightarrow> links s' = links s"
    and "x_syscall_exit (y_handlers Y) s = Inr s' \<Longrightarrow> links s' = links s"
    and "x_chained_enter (y_handlers Y) s = (st, s') \<Longrightarrow> links s' = links s"
    and "links (x_chained_exit (y_handlers Y) s) = links s"
    and "z_handle_seccomp_event (y_events Y) s = (st, s') \<Longrightarrow> links s' = links s"
    and "same_links w (y_inherit_extensions Y c p f w)"
    and "y_new_status Y a status w = (b, w') \<Longrightarrow> same_links w w'"
  using assms unfolding keeps_graph_def by (metis snd_conv)+

lemma links_updates [simp]:
  fixes p :: "'k Process"
  shows "links (p\<lparr>c_regs := x1\<rparr>) = links p" "links (p\<lparr>c_syscalls := x2\<rparr>) = links p" "links (p\<lparr>c_status := x3\<rparr>) = links p"
    "links (p\<lparr>c_restart_how := x4\<rparr>) = links p" "links (p\<lparr>c_cancelled := x5\<rparr>) = links p"
    "links (p\<lparr>c_relaunched := x6\<rparr>) = links p" "links (p\<lparr>c_workaround := x7\<rparr>) = links p"
    "links (p\<lparr>c_kernel := x8\<rparr>) = links p" "links (p\<lparr>v_skip_signal := x9\<rparr>) = links p"
    "links (p\<lparr>v_suppressed_signal := y1\<rparr>) = links p" "links (p\<lparr>v_seccomp := y2\<rparr>) = links p"
    "links (p\<lparr>v_sysexit_pending := y3\<rparr>) = links p" "links (p\<lparr>v_handled_enter := y4\<rparr>) = links p"
    "links (p\<lparr>v_terminated := y5\<rparr>) = links p" "links (p\<lparr>v_pending := y6\<rparr>) = links p"
    "links (p\<lparr>v_sigstop := y7\<rparr>) = links p" "links (p\<lparr>v_running := y8\<rparr>) = links p"
  by (simp_all add: links_def)

lemma links_stop:
  fixes p p' :: "'k Process"
  shows "Stop.more p' = Stop.more p \<Longrightarrow> links p' = links p"
  by (intro links_more more_process)

lemma links_c_poke [simp]: "links (c_poke r v p) = links p" for p :: "'k Process"
  by (intro links_stop more_c_poke)

lemma links_fold_c_poke [simp]: "links (fold (\<lambda>reg. c_poke reg v) rs p) = links p" for p :: "'k Process"
  by (induction rs arbitrary: p) simp_all

lemma links_push_stop [simp]: "links (snd (push_stop P b p)) = links p" for p :: "'k Process"
  by (intro links_stop more_push_stop)

lemma push_stop_links: "push_stop P b p = (e, p') \<Longrightarrow> links p' = links p" for p :: "'k Process"
  using links_push_stop[of P b p] by simp

lemma sysenter_links:
  fixes s :: "'k Process"
  assumes "keeps_graph Y" and "sysenter P (y_handlers Y) s = Inr (x, s')"
  shows "links s' = links s"
  using assms(2)
  by (auto simp: sysenter_def Let_def split: if_split_asm sum.splits prod.splits
      dest!: keeps_graphD(1,3)[OF assms(1)])

lemma sysexit_links:
  fixes s :: "'k Process"
  assumes "keeps_graph Y" and "sysexit (y_handlers Y) s = Inr (x, s')"
  shows "links s' = links s"
  using assms(2)
  by (auto simp: sysexit_def Let_def keeps_graphD(4)[OF assms(1)] split: if_split_asm sum.splits
      dest!: keeps_graphD(2)[OF assms(1)] more_chain_next[THEN links_stop])

lemma restart_current_links:
  fixes s :: "'k Process"
  shows "restart_current_syscall_as_chained s = Inr s' \<Longrightarrow> links s' = links s"
  by (auto simp: restart_current_syscall_as_chained_def register_chained_syscall_internal_def Let_def split: sum.splits)

lemma sysnum_workaround_links:
  fixes s :: "'k Process"
  shows "sysnum_workaround P n s = Inr s' \<Longrightarrow> links s' = links s"
  by (auto simp: sysnum_workaround_def Let_def split: if_split_asm sum.splits dest!: restart_current_links)

lemma translate_syscall_links:
  fixes s :: "'k Process"
  assumes "keeps_graph Y" and "translate_syscall P (y_handlers Y) s = Inr s'"
  shows "links s' = links s"
  using assms(2)
  by (auto simp: translate_syscall_def Let_def split: if_split_asm sum.splits prod.splits option.splits
      dest!: sysenter_links[OF assms(1)] sysexit_links[OF assms(1)] sysnum_workaround_links push_stop_links)

lemma translate_stop_links:
  fixes s :: "'k Process"
  assumes "keeps_graph Y" and "translate_stop P (y_handlers Y) g s = Inr (n, s')"
  shows "links s' = links s"
  using assms(2)
  by (auto simp: translate_stop_def Let_def split: if_split_asm sum.splits dest!: translate_syscall_links[OF assms(1)])

lemma syscall_stop_links:
  fixes s :: "'k Process"
  assumes "keeps_graph Y" and "syscall_stop P (y_handlers Y) g s = Inr (n, s', b)"
  shows "links s' = links s"
  using assms(2)
  by (auto simp: syscall_stop_def Let_def split: if_split_asm sum.splits prod.splits
      dest!: translate_stop_links[OF assms(1)])

lemma seccomp_links:
  fixes s :: "'k Process"
  assumes "keeps_graph Y"
  shows "seccomp_both P (y_handlers Y) g s = Inr s' \<Longrightarrow> links s' = links s"
    and "seccomp_entry P (y_handlers Y) g s = Inr s' \<Longrightarrow> links s' = links s"
    and "seccomp_detection g s = (g', s') \<Longrightarrow> links s' = links s"
  by (auto simp: seccomp_both_def seccomp_entry_def seccomp_detection_def Let_def
      split: if_split_asm sum.splits prod.splits dest!: translate_syscall_links[OF assms])

lemma seccomp_stop_links:
  fixes s :: "'k Process"
  assumes "keeps_graph Y" and "seccomp_stop P (y_handlers Y) V n g s = Inr (g', s')"
  shows "links s' = links s"
  using assms(2)
  by (auto simp: seccomp_stop_def split: if_split_asm sum.splits prod.splits option.splits
      dest!: seccomp_links[OF assms(1)])

lemma sigsys_stop_links:
  fixes s :: "'k Process"
  assumes "keeps_graph Y"
    and "sigsys_stop P (y_handlers Y) ((y_events Y)\<lparr>z_new_child := c\<rparr>) g s = Inr (n, s')"
  shows "links s' = links s"
  using assms(2)
  by (auto simp: sigsys_stop_def split: if_split_asm sum.splits prod.splits
      dest!: translate_syscall_links[OF assms(1)] keeps_graphD(5)[OF assms(1)])

lemma stopped_links:
  fixes s :: "'k Process"
  assumes "keeps_graph Y"
    and "stopped P (y_handlers Y) ((y_events Y)\<lparr>z_new_child := (\<lambda>_ p. p)\<rparr>) b n g s = Inr (m, g', s', c)"
  shows "links s' = links s"
  using assms(2)
  by (auto simp: stopped_def Let_def sigstop_stop_def other_signal_def
      split: if_split_asm sum.splits prod.splits option.splits
      dest!: syscall_stop_links[OF assms(1)] seccomp_stop_links[OF assms(1)] sigsys_stop_links[OF assms(1)])

lemma handle_tracee_event_links:
  fixes s :: "'k Process"
  assumes "keeps_graph Y"
    and "handle_tracee_event P (y_handlers Y) ((y_events Y)\<lparr>z_new_child := (\<lambda>_ p. p)\<rparr>) st g s = Inr (m, g', s')"
  shows "links s' = links s"
proof -
  have "links (choose_restart s) = links s" by (simp add: choose_restart_def)
  then show ?thesis
    using assms(2)
    by (auto simp: handle_tracee_event_def Let_def split: if_split_asm sum.splits prod.splits
        dest!: stopped_links[OF assms(1)])
qed

lemma same_links_terminate: "same_links w (terminate_tracee a w)"
proof -
  have "same_links w (fold (\<lambda>a w. send_signal (p_pid (proc w a)) s w) as w)" for as s and w :: "'k World"
    by (induction as arbitrary: w) (auto intro: same_links_trans same_links_signal)
  moreover have "same_links w (update_proc a (\<lambda>p. p\<lparr>v_terminated := True\<rparr>) w)"
    by (rule same_links_update) (simp add: keeps_links_def)
  ultimately show ?thesis
    by (auto simp: terminate_tracee_def kill_all_tracees_def Let_def intro: same_links_trans)
qed

lemma proot_event_links:
  assumes "keeps_graph Y" and "proot_event Y a st w = Inr (n, w')"
  shows "same_links w w'"
proof -
  obtain g p where p: "handle_tracee_event (y_regs Y) (y_handlers Y) ((y_events Y)\<lparr>z_new_child := (\<lambda>_ p. p)\<rparr>) st
      (w_globals w) (proc w a) = Inr (n, g, p)"
    "w' = (let w1 = (update_proc a (\<lambda>_. p) w)\<lparr>w_globals := g\<rparr> in if is_terminal st then terminate_tracee a w1 else w1)"
    using assms(2) by (auto simp: proot_event_def Let_def split: sum.splits)
  have "same_links w (update_proc a (\<lambda>_. p) w)"
    using handle_tracee_event_links[OF assms(1) p(1)] by (simp add: same_links_def)
  then have "same_links w ((update_proc a (\<lambda>_. p) w)\<lparr>w_globals := g\<rparr>)" by (rule same_links_fields)
  then show ?thesis using same_links_terminate[of "(update_proc a (\<lambda>_. p) w)\<lparr>w_globals := g\<rparr>" a]
    by (auto simp: p(2) Let_def intro: same_links_trans)
qed

subsection \<open>Notifications\<close>

lemma links_restart_original:
  fixes p :: "'k Process"
  shows "restart_original_syscall p = Inr p' \<Longrightarrow> links p' = links p"
  by (intro links_stop more_restart_original)

text \<open>What else may change: tracees are added, and a tracee whose end is reported loses its tracer.\<close>

definition world_grows :: "nat set \<Rightarrow> 'k World \<Rightarrow> 'k World \<Rightarrow> bool" where
  "world_grows S w w' \<longleftrightarrow> set (tracees w) \<subseteq> set (tracees w')
     \<and> (\<forall>x \<in> set (tracees w). p_ptracer (proc w x) \<noteq> None \<longrightarrow> x \<notin> S \<longrightarrow> p_ptracer (proc w' x) = p_ptracer (proc w x))"

lemma world_grows_same: "same_links w w' \<Longrightarrow> world_grows S w w'"
  by (simp add: world_grows_def same_linksD)

lemma world_grows_trans: "world_grows S w w1 \<Longrightarrow> world_grows S w1 w2 \<Longrightarrow> world_grows S w w2"
  unfolding world_grows_def by (metis subset_eq)

text \<open>A ptracee that its tracer \<open>t\<close> is told about: a zombie of it, or another process.\<close>

lemma update_wait_status_wf:
  assumes wf: "wf_links D R w" and a: "procs w a \<noteq> None" "p_ptracer (proc w a) = Some t" "t \<in> set (tracees w)"
    and run: "update_wait_status M u a w = Inr (n, w')"
  shows "wf_links D R w' \<and> world_grows {a} w w' \<and> tracees w' = tracees w"
proof -
  have ends: "wf_links D R (if p_is_zombie (proc w2 a) then free_zombie a w2 else w2)
      \<and> world_grows {a} w1 (if p_is_zombie (proc w2 a) then free_zombie a w2 else w2)
      \<and> tracees (if p_is_zombie (proc w2 a) then free_zombie a w2 else w2) = tracees w1"
    if same: "same_links w w1" and d: "detach_from_ptracer a w1 = Inr w2" for w1 w2
  proof -
    note s = same_linksD[OF same]
    have w1: "wf_links D R w1" "procs w1 a \<noteq> None" "p_ptracer (proc w1 a) = Some t" "t \<in> set (tracees w1) \<union> D"
      using wf_links_same[OF wf same] a by (simp_all add: s)
    note f = detach_fields[OF w1(1,3,4,2) d]
    show ?thesis
    proof (cases "p_is_zombie (proc w1 a)")
      case True
      have "p_ptracer (proc (free_zombie a w2) x) = p_ptracer (proc w1 x)" if "x \<in> set (tracees w1)" "x \<noteq> a" for x
        using free_zombie_fields(4)[of w2 x a] wf_linksD(3)[OF w1(1), of x] that f(3)[of x] f(5)[of x] by simp
      then show ?thesis
        using bury_wf[OF w1(1,3,4,2) True d] True by (simp add: f world_grows_def free_zombie_fields)
    next
      case False
      then show ?thesis using detach_wf[OF w1(1,3,4,2) False d] by (simp add: f world_grows_def)
    qed
  qed
  show ?thesis
  proof (cases "hides a w")
    case True
    then obtain w1 w2 where "try_proc u restart_original_syscall w = Inr w1" "detach_from_ptracer a w1 = Inr w2"
      "w' = (if p_is_zombie (proc w2 a) then free_zombie a w2 else w2)"
      using run by (auto simp: update_wait_status_def hide_termination_def split: sum.splits)
    moreover from this(1) have "same_links w w1" using links_restart_original by (rule same_links_try)
    ultimately show ?thesis
      using ends[of w1 w2] world_grows_trans[OF world_grows_same[of w w1 "{a}"]] same_linksD(1)[of w w1] by simp
  next
    case False
    obtain r w1 where w1: "write_status M u (p_event_value (proc w a)) w = (r, w1)" by fastforce
    note s1 = same_links_write_status[OF w1]
    define w2 where "w2 = update_proc a (\<lambda>p. p\<lparr>p_event_pending := False\<rparr>) w1"
    have "same_links w1 w2" unfolding w2_def by (rule same_links_update) (simp add: keeps_links_def links_def)
    then have s2: "same_links w w2" using s1 same_links_trans by blast
    consider "same_links w w'" | w3 where "detach_from_ptracer a w2 = Inr w3" "p_is_zombie (proc w2 a)" "w' = free_zombie a w3"
      using run False w1 s1 s2
      by (auto simp: update_wait_status_def Let_def simp del: proc_update_proc simp flip: w2_def
          split: sum.splits failure.splits if_split_asm)
    then show ?thesis
    proof cases
      case 1
      then show ?thesis using wf_links_same[OF wf] world_grows_same same_linksD(1) by blast
    next
      case 2
      have w2: "wf_links D R w2" "procs w2 a \<noteq> None" "p_ptracer (proc w2 a) = Some t" "t \<in> set (tracees w2) \<union> D"
        using wf_links_same[OF wf s2] a same_linksD[OF s2] by simp_all
      have "p_is_zombie (proc w3 a)" using detach_fields(7)[OF w2(1,3,4,2) 2(1)] 2(2) by simp
      then show ?thesis
        using ends[OF s2 2(1)] 2(3) world_grows_trans[OF world_grows_same[OF s2]] same_linksD(1)[OF s2] by simp
    qed
  qed
qed

lemma same_links_fields_update [simp]:
  "same_links w (update_proc a (\<lambda>p. p\<lparr>p_event_value := x, p_event_pending := True\<rparr>) w)"
  "same_links w (update_proc a (\<lambda>p. p\<lparr>p_proot_value := x, v_pending := True\<rparr>) w)"
  "same_links w (update_proc a (\<lambda>p. p\<lparr>v_pending := False, p_proot_value := x\<rparr>) w)"
  "same_links w (update_proc a (\<lambda>p. p\<lparr>p_tracing_started := True\<rparr>) w)"
  "same_links w (update_proc a (\<lambda>p. p\<lparr>p_proot_value := x\<rparr>) w)"
  "same_links w (update_proc a (\<lambda>p. p\<lparr>p_waits_in := y\<rparr>) w)"
  "same_links w (update_proc a (\<lambda>p. (set_wait_pid n p)\<lparr>p_wait_options := x'\<rparr>) w)"
  "same_links w (update_proc a (set_wait_pid n) w)"
  "same_links w (update_proc a (\<lambda>p. p\<lparr>p_ignore_syscalls := b\<rparr>) w)"
  "same_links w (update_proc a (\<lambda>p. p\<lparr>p_options := x'\<rparr>) w)"
  "same_links w (update_proc a (\<lambda>p. p\<lparr>v_sigstop := sg\<rparr>) w)"
  "same_links w (update_proc a (\<lambda>p. p\<lparr>v_running := b\<rparr>) w)"
  "same_links w (update_proc a (\<lambda>p. p\<lparr>c_restart_how := how\<rparr>) w)"
  "same_links w (update_proc a (\<lambda>p. p\<lparr>c_regs := cr, c_kernel := ck\<rparr>) w)"
  "same_links w (update_proc a (\<lambda>p. if v_seccomp p = ENABLED then p\<lparr>v_seccomp := DISABLING\<rparr> else p) w)"
  "same_links w (update_proc a (\<lambda>p. p\<lparr>v_sigstop := sg, p_waits_in := y\<rparr>) w)"
  by (rule same_links_update; simp add: keeps_links_def links_def set_wait_pid_def)+

lemma wf_world_grows_same:
  assumes "wf_links D R w1 \<and> world_grows S w w1" and "same_links w1 w2"
  shows "wf_links D R w2 \<and> world_grows S w w2"
  using assms wf_links_same world_grows_same world_grows_trans by blast

lemma wake_ptracer_wf:
  assumes wf: "wf_links D R w" and a: "procs w a \<noteq> None" "p_ptracer (proc w a) = Some t" "t \<in> set (tracees w)"
    and run: "wake_ptracer P M V u a keep w = Inr (b, w')"
  shows "wf_links D R w' \<and> world_grows {a} w w'"
proof -
  obtain st w1 where w1: "update_wait_status M u a w = Inr (st, w1)"
    using run by (auto simp: wake_ptracer_def split: sum.splits)
  obtain w2 where w2: "(if st = 0 then try_proc u chain_next_syscall w1
      else Inr (set_reg u SYSARG_RESULT (of_int st) w1)) = Inr w2"
    "w' = snd (restart_proc V u 0 (update_proc u (set_wait_pid 0) (push P u w2)))"
    using run w1 by (auto simp: wake_ptracer_def split: sum.splits prod.splits)
  have "same_links w1 w2"
    using w2(1) same_links_try[OF _ links_stop[OF more_chain_next]] by (auto simp: same_links_set_reg split: if_splits)
  also have "same_links w2 (push P u w2)" by (rule same_links_push)
  also have "same_links (push P u w2) (update_proc u (set_wait_pid 0) (push P u w2))" by simp
  also have "same_links \<dots> w'" unfolding w2(2) by (rule same_links_restart)
  finally show ?thesis using wf_world_grows_same update_wait_status_wf[OF wf a w1] by blast
qed

lemma notify_ptracer_wf:
  assumes wf: "wf_links D R w" and a: "procs w a \<noteq> None" "p_ptracer (proc w a) = Some t" "t \<in> set (tracees w)"
    and run: "notify_ptracer P M V u a st keep w = Inr (b, w')"
  shows "wf_links D R w' \<and> world_grows {a} w w'"
proof -
  define w1 where "w1 = update_proc a (\<lambda>p. p\<lparr>p_event_value := st, p_event_pending := True\<rparr>) w"
  define w2 where "w2 = send_signal (p_pid (proc w1 u)) SIGCHLD w1"
  have "same_links w w1" unfolding w1_def by simp
  also have "same_links w1 w2" unfolding w2_def by (rule same_links_signal)
  finally have s: "same_links w w2" .
  have r: "w' = w2 \<or> wake_ptracer P M V u a keep w2 = Inr (b, w')"
    using run by (auto simp: notify_ptracer_def Let_def w1_def w2_def split: if_splits)
  have w2: "wf_links D R w2" "procs w2 a \<noteq> None" "p_ptracer (proc w2 a) = Some t" "t \<in> set (tracees w2)"
    using wf_links_same[OF wf s] a same_linksD[OF s] by simp_all
  show ?thesis
    using r w2(1) world_grows_same[OF s] wake_ptracer_wf[OF w2, of P M V u keep b w'] world_grows_trans by blast
qed

lemma handle_ptracee_event_wf:
  assumes wf: "wf_links D R w" and a: "a \<in> set (tracees w)" "p_ptracer (proc w a) = Some t" "t \<in> set (tracees w)"
    and handle: "\<And>w st n w'. wf_links D R w \<Longrightarrow> a \<in> set (tracees w) \<Longrightarrow> handle a st w = Inr (n, w') \<Longrightarrow>
      wf_links D R w' \<and> world_grows {} w w'"
    and run: "handle_ptracee_event P M V handle a st w = Inr (b, w')"
  shows "wf_links D R w' \<and> world_grows {a} w w'"
proof -
  define ready where "ready w1 \<longleftrightarrow> wf_links D R w1 \<and> a \<in> set (tracees w1) \<and> p_ptracer (proc w1 a) = Some t
    \<and> t \<in> set (tracees w1) \<and> world_grows {a} w w1" for w1
  have readyI: "ready w2" if "ready w1" "same_links w1 w2" for w1 w2
    using that wf_world_grows_same[of D R w1 "{a}" w w2] by (simp add: ready_def same_linksD)
  have done_ready: "ready w1 \<Longrightarrow> wf_links D R w1 \<and> world_grows {a} w w1" for w1 by (simp add: ready_def)
  have notify: "wf_links D R w' \<and> world_grows {a} w w'"
    if "ready w1" "notify_ptracer P M V t a st' keep w1 = Inr (b, w')" for w1 st' keep
  proof -
    have "procs w1 a \<noteq> None" using that(1) wf_linksD(3) unfolding ready_def by blast
    then show ?thesis
      using that(1) notify_ptracer_wf[OF _ _ _ _ that(2)] world_grows_trans[of "{a}" w w1 w'] unfolding ready_def by blast
  qed
  define w1 where "w1 = update_proc a (\<lambda>p. p\<lparr>p_proot_value := st, v_pending := True\<rparr>) w"
  have r0: "ready w" using wf a by (simp add: ready_def world_grows_def)
  have r1: "ready w1" using readyI[OF r0] by (simp add: w1_def)
  show ?thesis
  proof (cases "report_of st (proc w1 a)")
    case None
    then show ?thesis
      using run done_ready[OF r1] by (simp add: handle_ptracee_event_def a(2) Let_def flip: w1_def)
  next
    case (Some r)
    define w2 where "w2 = (if r_starts r then update_proc a (\<lambda>p. p\<lparr>p_tracing_started := True\<rparr>) w1 else w1)"
    have r2: "ready w2" using readyI[OF r1] r1 by (simp add: w2_def)
    have run2: "(if \<not> p_tracing_started (proc w2 a) then Inr (False, w2)
        else if \<not> r_proot_first r then or_fail (notify_ptracer P M V t a (r_event r) (r_keep_stopped r) w2)
        else (case handle a st w2 of Inl h \<Rightarrow> Inl h
          | Inr (signal, w) \<Rightarrow>
             (let w = update_proc a (\<lambda>p. p\<lparr>p_proot_value := of_int signal\<rparr>) w
              in if r_may_suppress r \<and> signal = 0 then
                   (if \<not> g_after_enter (w_globals w) \<and> \<not> p_ignore_syscalls (proc w a) then
                      or_fail (notify_ptracer P M V t a
                        (if p_options (proc w a) AND PTRACE_O_TRACESYSGOOD \<noteq> 0 then 0x857F else 0x057F) (r_keep_stopped r) w)
                    else Inr (True, snd (restart_proc V a 0 w)))
                 else if \<not> r_may_suppress r \<and> signal \<noteq> 0 then Inl (Fails Undefined)
                 else or_fail (notify_ptracer P M V t a (r_event r) (r_keep_stopped r) w)))) = Inr (b, w')"
      using run Some by (simp add: handle_ptracee_event_def a(2) Let_def flip: w1_def w2_def)
    consider "w' = w2" | "notify_ptracer P M V t a (r_event r) (r_keep_stopped r) w2 = Inr (b, w')"
      | n w3 where "handle a st w2 = Inr (n, w3)"
          "w' = snd (restart_proc V a 0 (update_proc a (\<lambda>p. p\<lparr>p_proot_value := of_int n\<rparr>) w3))
           \<or> (\<exists>st' keep. notify_ptracer P M V t a st' keep (update_proc a (\<lambda>p. p\<lparr>p_proot_value := of_int n\<rparr>) w3) = Inr (b, w'))"
      using run2 by (auto simp: or_fail_def Let_def simp del: proc_update_proc split: if_split_asm sum.splits prod.splits)
    then show ?thesis
    proof cases
      case 3
      have h: "wf_links D R w3" "world_grows {} w2 w3" using handle 3(1) r2 by (auto simp: ready_def)
      have "ready w3"
        using h r2 world_grows_trans[of "{a}" w w2 w3] unfolding ready_def world_grows_def by (auto simp: subset_eq)
      then have r4: "ready (update_proc a (\<lambda>p. p\<lparr>p_proot_value := of_int n\<rparr>) w3)"
        by (rule readyI) simp
      then show ?thesis using 3(2) notify[OF r4] done_ready readyI[OF r4 same_links_restart] by blast
    qed (use r2 done_ready notify in blast)+
  qed
qed

lemma get_stopped_ptracee_traced:
  assumes wf: "wf_links D R w" and t: "t \<in> set (tracees w)" and "get_ptracee w t pid x y options = Some a"
  shows "procs w a \<noteq> None \<and> p_ptracer (proc w a) = Some t \<and> (p_is_zombie (proc w a) \<or> a \<in> set (tracees w))"
proof -
  have z: "procs w z \<noteq> None \<and> p_is_zombie (proc w z) \<and> p_ptracer (proc w z) = Some t" if "z \<in> set (p_zombies (proc w t))" for z
    using wf t that unfolding wf_links_def zombies_kept_def by blast
  show ?thesis
  proof (cases "find (\<lambda>z. fitting pid options (proc w z)) (p_zombies (proc w t))")
    case None
    then have "ptracee_loop w t pid x y options (tracees w) = Some a"
      using assms(3) by (simp add: get_ptracee_def)
    from ptracee_loop_Some[OF this] show ?thesis using wf_linksD(3)[OF wf] by blast
  next
    case (Some b)
    then have "b = a" using assms(3) by (simp add: get_ptracee_def)
    moreover have "b \<in> set (p_zombies (proc w t))" using Some by (auto simp: find_Some_iff)
    ultimately have "a \<in> set (p_zombies (proc w t))" by simp
    then show ?thesis using z by blast
  qed
qed

lemma translate_wait_exit_wf:
  assumes wf: "wf_links D R w" and t: "t \<in> set (tracees w)" and run: "translate_wait_exit M t w = Inr (n, w')"
  shows "wf_links D R w'"
proof -
  define w1 where "w1 = update_proc t (\<lambda>p. p\<lparr>p_waits_in := DOESNT_WAIT\<rparr>) w"
  have s: "same_links w w1" by (simp add: w1_def)
  have w1: "wf_links D R w1" "t \<in> set (tracees w1)" using wf_links_same[OF wf s] t same_linksD[OF s] by simp_all
  consider a pid options where "get_stopped_ptracee w1 t pid True options = Some a" "update_wait_status M t a w1 = Inr (n, w')"
    | "same_links w1 w'"
    using run by (auto simp: translate_wait_exit_def Let_def simp del: proc_update_proc simp flip: w1_def
        split: if_split_asm option.splits)
  then show ?thesis
  proof cases
    case 1
    have "procs w1 a \<noteq> None" "p_ptracer (proc w1 a) = Some t"
      using get_stopped_ptracee_traced[OF w1] 1(1) by (simp_all add: get_stopped_ptracee_def)
    then show ?thesis using update_wait_status_wf[OF w1(1) _ _ w1(2) 1(2)] by blast
  qed (use wf_links_same[OF w1(1)] in blast)
qed

lemma translate_wait_enter_links: "translate_wait_enter t w = Inr w' \<Longrightarrow> same_links w w'"
proof -
  assume run: "translate_wait_enter t w = Inr w'"
  define w1 where "w1 = update_proc t (\<lambda>p. p\<lparr>p_waits_in := WAITS_IN_KERNEL\<rparr>) w"
  have s: "same_links w w1" by (simp add: w1_def)
  have "w' = w1 \<or> (\<exists>w2. set_void t w1 = Inr w2 \<and> w' = update_proc t (\<lambda>p. p\<lparr>p_waits_in := WAITS_IN_PROOT\<rparr>) w2)"
    using run by (auto simp: translate_wait_enter_def Let_def simp del: proc_update_proc simp flip: w1_def
        split: if_split_asm sum.splits)
  moreover have "same_links w2 (update_proc t (\<lambda>p. p\<lparr>p_waits_in := WAITS_IN_PROOT\<rparr>) w2)" for w2 :: "'a World" by simp
  ultimately show ?thesis using s same_links_set_void[of t w1] same_links_trans by blast
qed

subsection \<open>Birth\<close>

lemma new_tracee_wf:
  assumes wf: "wf_links D R w" and run: "new_tracee k pid w = (a, w')"
  shows "wf_links D R w' \<and> world_grows {} w w' \<and> a \<in> set (tracees w') \<and> p_ptracer (proc w' a) = None"
proof -
  have "procs w (next_addr w) = None" using wf_linksD(5)[OF wf, of "next_addr w"] by (meson less_irrefl)
  then have new: "a = next_addr w" "procs w a = None"
    using run by (auto simp: new_tracee_def new_dummy_tracee_def Let_def)
  define p where "p = (zero_tracee k (a + 1) (a + 2))\<lparr>p_pid := pid, p_vpid := next_vpid w\<rparr>"
  have w': "tracees w' = a # tracees w" "next_addr w' = next_addr w + 3" "procs w' = (procs w)(a \<mapsto> p)"
    using run by (auto simp: new_tracee_def new_dummy_tracee_def update_proc_def p_def Let_def)
  have f: "tracees w' = a # tracees w" "next_addr w' = next_addr w + 3"
    "procs w' b = None \<longleftrightarrow> b \<noteq> a \<and> procs w b = None" "b \<noteq> a \<Longrightarrow> proc w' b = proc w b"
    "links (proc w' a) = (None, None, 0, [], False)" for b
    using w' by (auto simp: proc_def links_def p_def zero_tracee_def)
  have z: "p_parent (proc w' a) = None" "p_ptracer (proc w' a) = None" "p_nb_ptracees (proc w' a) = 0"
    "p_zombies (proc w' a) = []" "\<not> p_is_zombie (proc w' a)"
    using f(5) by (simp_all add: links_def)
  have na: "a \<notin> set (tracees w) \<union> D" using wf_linksD(3)[OF wf, of a] new(2) by blast
  have no: "p_ptracer (proc w b) \<noteq> Some a" if "procs w b \<noteq> None" for b
    using wf that na unfolding wf_links_def tracers_live_def by blast
  have "b \<in> ptracees w' u \<longleftrightarrow> b \<in> ptracees w u" for b u
    using f(3,4)[of b] z(2) new(2) by (cases "b = a") (simp_all add: ptracees_def del: not_None_eq)
  then have pt: "ptracees w' u = ptracees w u" for u by blast
  have pa: "ptracees w a = {}" using no by (auto simp: ptracees_def)
  have "listed D w'"
    unfolding listed_def
  proof (intro conjI allI impI)
    show "distinct (tracees w')" and "set (tracees w') \<inter> D = {}" using wf_linksD(1,2)[OF wf] na by (auto simp: f)
    show "procs w' b \<noteq> None \<and> \<not> p_is_zombie (proc w' b) \<longleftrightarrow> b \<in> set (tracees w') \<union> D" for b
    proof (cases "b = a")
      case False
      then show ?thesis using f(1) f(3,4)[of b] wf_linksD(3,4)[OF wf, of b] by auto
    qed (use f z in simp)
    show "procs w' b \<noteq> None \<Longrightarrow> b < next_addr w'" for b
      using f(2) f(3)[of b] wf_linksD(5)[OF wf, of b] new(1) by (cases "b = a") auto
  qed
  moreover have "parents_live D R w'"
    unfolding parents_live_def
  proof (intro allI impI)
    fix b q assume "b \<in> set (tracees w')" "p_parent (proc w' b) = Some q"
    moreover from this have "b \<noteq> a" using z(1) by auto
    ultimately have "b \<in> set (tracees w)" "p_parent (proc w b) = Some q" using f(1) f(4)[of b] by auto
    then show "q \<in> set (tracees w') \<or> q \<in> D \<and> b \<in> R"
      using wf unfolding wf_links_def parents_live_def by (auto simp: f(1))
  qed
  moreover have "tracers_live D R w'"
    unfolding tracers_live_def
  proof (intro allI impI)
    fix b t assume b: "procs w' b \<noteq> None" "p_ptracer (proc w' b) = Some t"
    then have "b \<noteq> a" using z(2) by auto
    then have "procs w b \<noteq> None" "p_ptracer (proc w b) = Some t" "proc w' b = proc w b"
      using b f(3,4)[of b] by simp_all
    then show "t \<in> set (tracees w') \<or> t \<in> D \<and> (b \<in> R \<or> b \<in> D \<or> p_is_zombie (proc w' b))"
      using wf unfolding wf_links_def tracers_live_def by (auto simp: f(1))
  qed
  moreover have "counted w'"
    unfolding counted_def
  proof
    fix t assume "t \<in> set (tracees w')"
    then consider "t = a" | "t \<in> set (tracees w)" "t \<noteq> a" using f(1) na by auto
    then show "p_nb_ptracees (proc w' t) = card (ptracees w' t)"
      using wf z(3) f(4)[of t] pa by cases (simp_all add: pt wf_links_def counted_def)
  qed
  moreover have "zombies_kept D w'"
    unfolding zombies_kept_def
  proof (intro conjI allI ballI impI)
    fix y assume y: "procs w' y \<noteq> None" "p_is_zombie (proc w' y)"
    then have "y \<noteq> a" using z(5) by auto
    then have y': "y \<noteq> a" "procs w y \<noteq> None" "p_is_zombie (proc w y)" using y f(3,4)[of y] by auto
    then obtain t where t: "p_ptracer (proc w y) = Some t" "y \<in> set (p_zombies (proc w t))"
      using wf unfolding wf_links_def zombies_kept_def by blast
    then have "t \<noteq> a" using no[of y] y'(2) by auto
    then show "\<exists>t. p_ptracer (proc w' y) = Some t \<and> y \<in> set (p_zombies (proc w' t))" using t f(4) y'(1) by auto
  next
    fix t assume t: "t \<in> set (tracees w') \<union> D"
    have d: "t \<noteq> a \<Longrightarrow> distinct (p_zombies (proc w t)) \<and> (\<forall>y \<in> set (p_zombies (proc w t)).
        procs w y \<noteq> None \<and> p_is_zombie (proc w y) \<and> p_ptracer (proc w y) = Some t)"
      using wf t f(1) unfolding wf_links_def zombies_kept_def by auto
    then show "distinct (p_zombies (proc w' t))" using z(4) f(4)[of t] by (cases "t = a") auto
    fix y assume "y \<in> set (p_zombies (proc w' t))"
    moreover from this have "t \<noteq> a" using z(4) by auto
    ultimately have "t \<noteq> a" "y \<in> set (p_zombies (proc w t))" using f(4)[of t] by auto
    then have y: "procs w y \<noteq> None" "p_is_zombie (proc w y)" "p_ptracer (proc w y) = Some t" using d by blast+
    then have "y \<noteq> a" using new(2) by auto
    then show "procs w' y \<noteq> None" "p_is_zombie (proc w' y)" "p_ptracer (proc w' y) = Some t"
      using f(3,4)[of y] y by auto
  qed
  ultimately have "wf_links D R w'" unfolding wf_links_def by blast
  moreover have "world_grows {} w w'"
    unfolding world_grows_def
  proof (intro conjI ballI impI)
    fix x assume "x \<in> set (tracees w)"
    then have "x \<noteq> a" using na by auto
    then show "p_ptracer (proc w' x) = p_ptracer (proc w x)" using f(4) by simp
  qed (simp add: f(1) subset_insertI)
  ultimately show ?thesis using f(1) z(2) by simp
qed

lemma get_or_new_tracee_wf:
  assumes wf: "wf_links D R w" and p: "\<And>p. current = Some p \<Longrightarrow> p \<in> set (tracees w)"
    and run: "get_or_new_tracee k current pid w = (a, w')"
  shows "wf_links D R w' \<and> world_grows {} w w' \<and> a \<in> set (tracees w')"
proof (cases "find_tracee w current pid")
  case None
  then show ?thesis using run new_tracee_wf[OF wf] by (simp add: get_or_new_tracee_def)
next
  case (Some b)
  then have "b \<in> set (tracees w)" using p by (auto simp: find_tracee_def find_Some_iff split: if_splits option.splits)
  then show ?thesis using run Some wf by (simp add: get_or_new_tracee_def world_grows_def)
qed

lemma set_parent_wf:
  assumes wf: "wf_links D R w" and a: "procs w a \<noteq> None" and q: "\<And>q. x = Some q \<Longrightarrow> q \<in> set (tracees w)"
    and f: "\<And>p. links (f p) = (x, snd (links p))"
  shows "wf_links D R (update_proc a f w)"
proof -
  let ?w = "update_proc a f w"
  have g: "tracees ?w = tracees w" "next_addr ?w = next_addr w" "procs ?w b = None \<longleftrightarrow> procs w b = None"
    "p_parent (proc ?w b) = (if b = a then x else p_parent (proc w b))" "p_ptracer (proc ?w b) = p_ptracer (proc w b)"
    "p_zombies (proc ?w b) = p_zombies (proc w b)" "p_is_zombie (proc ?w b) = p_is_zombie (proc w b)"
    "p_nb_ptracees (proc ?w b) = p_nb_ptracees (proc w b)" for b
    using a f[of "proc w a"] by (auto simp: links_def)
  have pt: "ptracees ?w t = ptracees w t" for t by (simp add: ptracees_def g del: update_proc_simps proc_update_proc)
  have "listed D ?w" "tracers_live D R ?w" "counted ?w" "zombies_kept D ?w"
    using wf unfolding wf_links_def listed_def tracers_live_def counted_def zombies_kept_def g pt by blast+
  moreover have "parents_live D R ?w"
    using wf q unfolding wf_links_def parents_live_def g by auto
  ultimately show ?thesis unfolding wf_links_def by blast
qed

lemma inherit_ptracer_wf:
  assumes wf: "wf_links D R w" and p: "parent \<in> set (tracees w)" "parent \<notin> R" and c: "child \<in> set (tracees w)"
    and free: "p_ptracer (proc w child) = None"
  shows "wf_links D R (inherit_ptracer flags parent child w) \<and> world_grows {} w (inherit_ptracer flags parent child w)
    \<and> tracees (inherit_ptracer flags parent child w) = tracees w"
proof (cases "p_ptracer (proc w parent)")
  case (Some t)
  have lp: "procs w parent \<noteq> None" "\<not> p_is_zombie (proc w parent)" using wf_linksD(3)[OF wf] p(1) by blast+
  have pd: "parent \<notin> D" using wf_linksD(2)[OF wf] p(1) by blast
  have t: "t \<in> set (tracees w)"
    using wf Some p(2) lp pd unfolding wf_links_def tracers_live_def by blast
  have o: "same_links w1 (update_proc child (\<lambda>p. p\<lparr>p_options := f p\<rparr>) w1)" for f and w1 :: "'a World"
    by (rule same_links_update) (simp add: keeps_links_def links_def)
  define w1 where "w1 = attach_to_ptracer child t w"
  define w2 where "w2 = update_proc child
    (\<lambda>p. p\<lparr>p_options := p_options p OR (p_options (proc w parent) AND inherited_options)\<rparr>) w1"
  have "wf_links D R w1 \<and> world_grows {} w w1" "tracees w1 = tracees w"
    using attach_wf[OF wf c t free] free by (auto simp: w1_def world_grows_def attach_to_ptracer_def)
  moreover have "same_links w1 w2" unfolding w2_def by (rule o)
  ultimately have "wf_links D R w2 \<and> world_grows {} w w2 \<and> tracees w2 = tracees w"
    using wf_world_grows_same same_linksD(1) by metis
  moreover have "inherit_ptracer flags parent child w \<in> {w, w2}"
    using Some by (simp add: inherit_ptracer_def Let_def w1_def w2_def)
  ultimately show ?thesis using wf by (auto simp: world_grows_def)
qed (use wf in \<open>simp add: inherit_ptracer_def world_grows_def\<close>)

lemma inherit_ptracer_tracer:
  "p_ptracer (proc (inherit_ptracer flags parent child w) x) = p_ptracer (proc w x)
   \<or> x = child \<and> p_ptracer (proc (inherit_ptracer flags parent child w) x) = p_ptracer (proc w parent)"
  by (auto simp: inherit_ptracer_def attach_to_ptracer_def zero_as_ptracee_def Let_def split: option.splits)

lemma inherit_all_wf:
  assumes wf: "wf_links D R w" and p: "parent \<in> set (tracees w)" "parent \<notin> R" and c: "child \<in> set (tracees w)"
    and free: "p_ptracer (proc w child) = None" and run: "inherit_all flags parent child w = (e, w')"
  shows "wf_links D R w' \<and> world_grows {} w w' \<and> tracees w' = tracees w"
    and "p_ptracer (proc w' x) = p_ptracer (proc w x) \<or> x = child \<and> p_ptracer (proc w' x) = p_ptracer (proc w parent)"
proof -
  define w1 where "w1 = update_proc child (inherit_state (proc w parent)) w"
  define w2 where "w2 = inherit_heap flags parent child w1"
  define w3 where "w3 = inherit_links flags parent child w2"
  define w4 where "w4 = inherit_ptracer flags parent child w3"
  have "same_links w w1" unfolding w1_def
    by (rule same_links_update) (simp add: keeps_links_def links_def inherit_state_def)
  also have "same_links w1 w2"
  proof -
    have "same_links w1 (update_proc child (\<lambda>p. p\<lparr>p_heap := h\<rparr>) w1)" for h
      by (rule same_links_update) (simp add: keeps_links_def links_def)
    then show ?thesis by (simp add: w2_def inherit_heap_def Let_def same_links_fields)
  qed
  finally have s: "same_links w w2" .
  note sd = same_linksD[OF s]
  have wf2: "wf_links D R w2" using wf_links_same[OF wf s] .
  have p2: "parent \<in> set (tracees w2)" "child \<in> set (tracees w2)" using p c by (simp_all add: sd)
  have live: "procs w2 child \<noteq> None" using wf_linksD(3)[OF wf2] p2 by blast
  have wf3: "wf_links D R w3"
    unfolding w3_def inherit_links_def
  proof (rule set_parent_wf[OF wf2 live])
    fix q assume "(if flags AND CLONE_PARENT \<noteq> 0 then p_parent (proc w2 parent) else Some parent) = Some q"
    then show "q \<in> set (tracees w2)"
      using wf2 p2 p(2) unfolding wf_links_def parents_live_def by (auto split: if_splits)
  qed (simp add: links_def)
  have s3: "tracees w3 = tracees w" "p_ptracer (proc w3 x) = p_ptracer (proc w x)" for x
    using live by (simp_all add: w3_def inherit_links_def sd)
  have "world_grows {} w w3" by (simp add: world_grows_def s3)
  then have 4: "wf_links D R w4 \<and> world_grows {} w w4 \<and> tracees w4 = tracees w"
    using inherit_ptracer_wf[OF wf3, of parent child flags] p c free world_grows_trans[of "{}" w w3 w4]
    unfolding w4_def by (simp add: s3)
  obtain w5 where w5: "inherit_fs flags parent child w4 = (e, w5)" "w' = (if e = None then inherit_program parent child w5 else w5)"
    using run by (auto simp: inherit_all_def Let_def simp flip: w1_def w2_def w3_def w4_def split: prod.splits option.splits)
  have fs: "same_links w4 (update_proc child (\<lambda>p. p\<lparr>p_fs := n\<rparr>) w4)" for n
    by (rule same_links_update) (simp add: keeps_links_def links_def)
  have "same_links w4 w5"
    using w5(1) by (auto simp: inherit_fs_def Let_def intro!: same_links_fields fs split: if_splits option.splits)
  moreover have "same_links w5 (inherit_program parent child w5)"
    unfolding inherit_program_def Let_def
    by (rule same_links_trans; rule same_links_update) (simp_all add: keeps_links_def links_def)
  ultimately have s4: "same_links w4 w'" using w5(2) same_links_trans by auto
  then show "wf_links D R w' \<and> world_grows {} w w' \<and> tracees w' = tracees w"
    using 4 wf_world_grows_same[of D R w4 "{}" w w'] same_linksD(1)[of w4 w'] by auto
  show "p_ptracer (proc w' x) = p_ptracer (proc w x) \<or> x = child \<and> p_ptracer (proc w' x) = p_ptracer (proc w parent)"
    using inherit_ptracer_tracer[of flags parent child w3 x] same_linksD(4)[OF s4] s3(2) by (simp add: w4_def)
qed

end
