(* ===== verification/Links_Rounds.thy ===== *)
theory Links_Rounds
  imports Links_Events
begin

unbundle bit_operations_syntax

section \<open>The graph of the tracees along the rounds of PRoot\<close>

text \<open>
  The invariant of \<open>Links\<close> along the creation of a child, the requests of \<open>ptrace(2)\<close>, the end of a
  tracee, and a round of the loop that waits for events.
\<close>

subsection \<open>The creation of a child\<close>

lemma clone_flags_links: "clone_flags_of Y a f w = Inr (flags, w') \<Longrightarrow> same_links w w'"
  by (auto simp: clone_flags_of_def Let_def simp del: proc_update_proc
      split: prod.splits if_split_asm sum.splits failure.splits)

lemma start_child_wf:
  assumes Y: "keeps_graph Y" and wf: "wf_links D R w" and c: "child \<in> set (tracees w)"
    and t: "\<And>t. p_ptracer (proc w child) = Some t \<Longrightarrow> t \<in> set (tracees w)"
    and run: "start_child Y child w = Inr w'"
  shows "wf_links D R w' \<and> world_grows {child} w w'" and "p_ptracer (proc w child) = None \<Longrightarrow> same_links w w'"
proof -
  define w1 where "w1 = update_proc child (\<lambda>p. p\<lparr>v_sigstop := SIGSTOP_ALLOWED\<rparr>) w"
  have s: "same_links w w1" by (simp add: w1_def)
  have r: "same_links w2 (if keep then w2 else snd (restart_proc (y_events Y) child 0 w2))" for keep and w2 :: "'a World"
    using same_links_restart[of w2] by simp
  have untraced: "same_links w w'" if "p_ptracer (proc w1 child) = None"
    using run that s same_links_trans[OF s] same_links_restart[of w1]
    by (auto simp: start_child_def Let_def simp del: proc_update_proc simp flip: w1_def split: if_split_asm)
  have pt: "p_ptracer (proc w1 child) = p_ptracer (proc w child)" using same_linksD(4)[OF s] .
  then show "p_ptracer (proc w child) = None \<Longrightarrow> same_links w w'" using untraced by simp
  show "wf_links D R w' \<and> world_grows {child} w w'"
  proof (cases "p_ptracer (proc w child)")
    case None
    then show ?thesis using untraced pt wf_links_same[OF wf] world_grows_same by simp
  next
    case (Some t')
    then have tr: "p_ptracer (proc w1 child) = Some t'" by (simp add: pt)
    have ok: "wf_links D R w1" "child \<in> set (tracees w1)" "t' \<in> set (tracees w1)"
      using wf_links_same[OF wf s] c t[OF Some] same_linksD(1)[OF s] by simp_all
    consider "w' = w"
      | keep w2 where "handle_ptracee_event (y_regs Y) (y_mem Y) (y_events Y) (proot_event Y) child 0x137F w1 = Inr (keep, w2)"
          "w' = (let w3 = update_proc child (\<lambda>p. p\<lparr>v_pending := False, p_proot_value := 0\<rparr>) w2
                 in if keep then w3 else snd (restart_proc (y_events Y) child 0 w3))"
      using run tr
      by (auto simp: start_child_def Let_def simp del: proc_update_proc simp flip: w1_def
          split: if_split_asm sum.splits prod.splits)
    then show ?thesis
    proof cases
      case 2
      have h: "wf_links D R v' \<and> world_grows {} v v'"
        if "wf_links D R v" "proot_event Y child st v = Inr (n, v')" for v v' st n
        using wf_links_same[OF that(1)] world_grows_same proot_event_links[OF Y that(2)] by blast
      have "wf_links D R w2 \<and> world_grows {child} w1 w2"
        by (rule handle_ptracee_event_wf[OF ok(1,2) tr ok(3) _ 2(1)]) (rule h)
      then have "wf_links D R w2 \<and> world_grows {child} w w2" using world_grows_trans[OF world_grows_same[OF s]] by blast
      moreover have "same_links w2 w'"
        unfolding 2(2) Let_def by (rule same_links_trans[OF _ r]) simp
      ultimately show ?thesis by (rule wf_world_grows_same)
    qed (use wf in \<open>simp add: world_grows_same\<close>)
  qed
qed

lemma tracer_listed:
  assumes "wf_links D R w" and "a \<in> set (tracees w)" "a \<notin> R" and "p_ptracer (proc w a) = Some t"
  shows "t \<in> set (tracees w)"
proof -
  have "procs w a \<noteq> None" "\<not> p_is_zombie (proc w a)" "a \<notin> D"
    using assms(2) wf_linksD(2,3)[OF assms(1)] by blast+
  then show ?thesis using assms unfolding wf_links_def tracers_live_def by blast
qed

lemma get_or_new_tracee_same:
  assumes "wf_links D R w" and "procs w x \<noteq> None" and "get_or_new_tracee k current pid w = (a, w')"
  shows "proc w' x = proc w x"
proof -
  have "x \<noteq> next_addr w" using wf_linksD(5)[OF assms(1,2)] by simp
  then show ?thesis
    using assms(3)
    by (auto simp: get_or_new_tracee_def new_tracee_def new_dummy_tracee_def update_proc_def proc_def Let_def split: option.splits)
qed

lemma world_grows_fresh:
  assumes "world_grows {} w w2" and "p_ptracer (proc w2 c) = None" and "world_grows {c} w2 w'"
  shows "world_grows {} w w'"
  unfolding world_grows_def
proof (intro conjI ballI impI)
  show "set (tracees w) \<subseteq> set (tracees w')" using assms(1,3) unfolding world_grows_def by blast
  fix x assume x: "x \<in> set (tracees w)" "p_ptracer (proc w x) \<noteq> None"
  have 2: "x \<in> set (tracees w2)" "p_ptracer (proc w2 x) = p_ptracer (proc w x)"
    using assms(1) x unfolding world_grows_def by blast+
  then have "x \<notin> {c}" using x(2) assms(2) by auto
  then show "p_ptracer (proc w' x) = p_ptracer (proc w x)"
    using assms(3) 2 x(2) unfolding world_grows_def by metis
qed

lemma new_child_wf:
  assumes Y: "keeps_graph Y" and wf: "wf_links D R w" and p: "parent \<in> set (tracees w)" "parent \<notin> R"
    and run: "new_child Y parent clone_flags w = Inr (n, w')"
  shows "wf_links D R w' \<and> world_grows {} w w' \<and> (p_ptracer (proc w parent) = None \<longrightarrow> p_ptracer (proc w' parent) = None)"
proof -
  obtain flags w1 where f: "clone_flags_of Y parent clone_flags w = Inr (flags, w1)"
    using run by (auto simp: new_child_def split: sum.splits)
  have s: "same_links w w1" using clone_flags_links[OF f] .
  note sd = same_linksD[OF s]
  have 1: "wf_links D R w1 \<and> world_grows {} w w1" using wf_links_same[OF wf s] world_grows_same[OF s] by blast
  consider "w' = w1"
    | pid child w2 e w3 where "get_or_new_tracee (y_kernel Y pid) (Some parent) pid w1 = (child, w2)"
        "unborn w2 child" "inherit_all flags parent child w2 = (e, w3)"
        "w' = w3 \<or> start_child Y child (y_inherit_extensions Y child parent flags w3) = Inr w'"
    using run f
    by (auto simp: new_child_def simp del: not_None_eq split: if_split_asm sum.splits prod.splits option.splits)
  then show ?thesis
  proof cases
    case 1
    then show ?thesis using \<open>wf_links D R w1 \<and> world_grows {} w w1\<close> sd(4) by simp
  next
    case 2
    have p1: "parent \<in> set (tracees w1)" using p(1) sd(1) by simp
    have g: "wf_links D R w2 \<and> world_grows {} w1 w2 \<and> child \<in> set (tracees w2)"
      by (rule get_or_new_tracee_wf[OF _ _ 2(1)]) (use 1 p1 in auto)
    have p2: "parent \<in> set (tracees w2)" using g p1 unfolding world_grows_def by blast
    have "procs w1 parent \<noteq> None" using 1 p1 wf_linksD(3) by blast
    then have "proc w2 parent = proc w1 parent" using get_or_new_tracee_same[OF _ _ 2(1)] 1 by blast
    then have tp: "p_ptracer (proc w2 parent) = p_ptracer (proc w parent)" by (simp add: sd)
    have free: "p_ptracer (proc w2 child) = None" using 2(2) by (simp add: unborn_def Let_def)
    have i: "wf_links D R w3 \<and> world_grows {} w2 w3 \<and> tracees w3 = tracees w2"
      using inherit_all_wf(1)[OF _ p2 p(2) _ free 2(3)] g by blast
    have tr: "p_ptracer (proc w3 x) = p_ptracer (proc w2 x) \<or> x = child \<and> p_ptracer (proc w3 x) = p_ptracer (proc w2 parent)" for x
      using inherit_all_wf(2)[OF _ p2 p(2) _ free 2(3)] g by blast
    have 3: "wf_links D R w3 \<and> world_grows {} w w3" "world_grows {} w w2"
      using i g 1 world_grows_trans[of "{}"] by blast+
    from 2(4) show ?thesis
    proof
      assume "w' = w3"
      then show ?thesis using 3 tr[of parent] tp free by auto
    next
      assume run': "start_child Y child (y_inherit_extensions Y child parent flags w3) = Inr w'"
      define w4 where "w4 = y_inherit_extensions Y child parent flags w3"
      have s4: "same_links w3 w4" unfolding w4_def by (rule keeps_graphD(6)[OF Y])
      note sd4 = same_linksD[OF s4]
      have wf4: "wf_links D R w4" using 3 wf_links_same[OF _ s4] by blast
      have c4: "child \<in> set (tracees w4)" using g i by (simp add: sd4)
      have t4: "t \<in> set (tracees w4)" if "p_ptracer (proc w4 child) = Some t" for t
      proof -
        have "p_ptracer (proc w2 parent) = Some t" using that tr[of child] free by (simp add: sd4)
        then have "t \<in> set (tracees w2)" using tracer_listed[of D R w2 parent t] g p2 p(2) by blast
        then show ?thesis using i by (simp add: sd4)
      qed
      note st = start_child_wf[OF Y wf4 c4 t4 run'[folded w4_def]]
      have "world_grows {} w w'"
      proof (rule world_grows_fresh[OF 3(2) free])
        have "world_grows {child} w2 w3" using i unfolding world_grows_def by blast
        then show "world_grows {child} w2 w'" using world_grows_trans world_grows_same[OF s4] st(1) by blast
      qed
      moreover have "p_ptracer (proc w' parent) = None" if none: "p_ptracer (proc w parent) = None"
      proof -
        have "p_ptracer (proc w3 x) = p_ptracer (proc w2 x)" for x using tr[of x] tp none free by auto
        then have "p_ptracer (proc w4 child) = None" "p_ptracer (proc w4 parent) = None"
          using free tp none by (simp_all add: sd4)
        then show ?thesis using same_linksD(4)[OF st(2)] by simp
      qed
      ultimately show ?thesis using st(1) by blast
    qed
  qed
qed

subsection \<open>Events and calls\<close>

lemma tracee_event_wf:
  assumes Y: "keeps_graph Y" and wf: "wf_links D R w" and a: "a \<in> set (tracees w)" "a \<notin> R"
    and run: "tracee_event Y a status w = Inr (n, w')"
  shows "wf_links D R w' \<and> world_grows {} w w' \<and> (p_ptracer (proc w a) = None \<longrightarrow> p_ptracer (proc w' a) = None)"
proof -
  obtain w1 where w1: "w1 = w \<or> (\<exists>flags m. new_child Y a flags w = Inr (m, w1))" "proot_event Y a status w1 = Inr (n, w')"
    using run by (auto simp: tracee_event_def Let_def split: sum.splits prod.splits option.splits if_split_asm)
  have "wf_links D R w1 \<and> world_grows {} w w1 \<and> (p_ptracer (proc w a) = None \<longrightarrow> p_ptracer (proc w1 a) = None)"
    using w1(1) wf new_child_wf[OF Y wf a] by (auto simp: world_grows_same)
  moreover have s: "same_links w1 w'" using proot_event_links[OF Y w1(2)] .
  ultimately show ?thesis using wf_world_grows_same[of D R w1 "{}" w w'] same_linksD(4)[OF s, of a] by simp
qed

lemma ptrace_request_links:
  assumes "ptrace_request M Q request t a address data w = Inr (r, w')"
  shows "same_links w w' \<or> detach_from_ptracer a w = Inr w'"
proof -
  have put: "put_word M x y z w1 = Inr (r, w2) \<Longrightarrow> same_links w1 w2" "put_data M x y bs w1 = Inr (r, w2) \<Longrightarrow> same_links w1 w2"
    "put_request x u w1 = Inr (r, w2) \<Longrightarrow> same_links w1 w2" "failing e w1 = Inr (r, w2) \<Longrightarrow> same_links w1 w2"
    for x y z bs u e r and w1 w2 :: "'a World"
    by (auto simp: put_word_def put_data_def put_request_def failing_def same_links_set_kernel
        split: prod.splits sum.splits failure.splits)
  have 1: "request_peek M Q request t a address data w = Inr (r, w') \<Longrightarrow> same_links w w'"
    by (auto simp: request_peek_def split: if_splits sum.splits dest: put)
  have 2: "request_poke Q request t a address data w = Inr (r, w') \<Longrightarrow> same_links w w'"
    by (auto simp: request_poke_def Let_def split: if_splits sum.splits dest: put)
  have 3: "request_get M Q request t a data w = Inr (r, w') \<Longrightarrow> same_links w w'"
    by (auto simp: request_get_def split: if_splits sum.splits dest: put)
  have 4: "request_set M Q request t a data w = Inr (r, w') \<Longrightarrow> same_links w w'"
    by (auto simp: request_set_def Let_def split: if_splits sum.splits dest: put)
  have 5: "request_getregset M Q t a address data w = Inr (r, w') \<Longrightarrow> same_links w w'"
    by (auto simp: request_getregset_def Let_def split: if_splits sum.splits option.splits prod.splits
        dest: put intro: same_links_trans)
  have 6: "request_setregset M Q t a address data w = Inr (r, w') \<Longrightarrow> same_links w w'"
    by (auto simp: request_setregset_def Let_def same_links_set_kernel split: if_splits sum.splits prod.splits dest: put)
  show ?thesis
    using assms 1 2 3 4 5 6
    by (cases request) (auto simp: ptrace_request_def Let_def same_links_set_kernel split: sum.splits if_splits prod.splits
        dest: put)
qed

lemma restart_ptracee_wf:
  assumes Y: "keeps_graph Y" and wf: "wf_links D R w" and a: "a \<in> set (tracees w)" "a \<notin> R"
    and run: "restart_ptracee Y a forced w = Inr w'"
  shows "wf_links D R w'"
proof -
  obtain n w1 signal where w1: "w1 = w \<or> tracee_event Y a (p_proot_value (proc w a)) w = Inr (n, w1)"
    "w' = snd (restart_proc (y_events Y) a signal w1)"
    using run by (auto simp: restart_ptracee_def Let_def split: sum.splits if_split_asm)
  then have "wf_links D R w1" using wf tracee_event_wf[OF Y wf a] by blast
  then show ?thesis unfolding w1(2) by (rule wf_links_same) (rule same_links_restart)
qed

lemma ptrace_traceme_wf:
  assumes wf: "wf_links D R w" and a: "a \<in> set (tracees w)" "a \<notin> R" and run: "ptrace_traceme Q a w = Inr (n, w')"
  shows "wf_links D R w'"
proof (cases "p_ptracer (proc w a) = None \<and> w' \<noteq> w")
  case True
  obtain t where t: "p_parent (proc w a) = Some t"
    using run True by (auto simp: ptrace_traceme_def split: if_splits option.splits)
  then have "t \<in> set (tracees w)" using wf a unfolding wf_links_def parents_live_def by blast
  then have at: "wf_links D R (attach_to_ptracer a t w)" using attach_wf[OF wf a(1)] True by blast
  define w1 where "w1 = attach_to_ptracer a t w"
  define w2 where "w2 = (if p_waits_in (proc w1 t) = WAITS_IN_KERNEL \<and> q_kill Q (p_pid (proc w1 t))
    then update_proc t (\<lambda>p. p\<lparr>v_sigstop := SIGSTOP_IGNORED, p_waits_in := WAITS_IN_PROOT\<rparr>)
      (send_signal (p_pid (proc w1 t)) SIGSTOP w1) else w1)"
  have w': "w' = update_proc a (\<lambda>p. if v_seccomp p = ENABLED then p\<lparr>v_seccomp := DISABLING\<rparr> else p) w2"
    using run True t by (auto simp: ptrace_traceme_def Let_def simp del: proc_update_proc simp flip: w1_def w2_def split: if_splits)
  have "same_links w1 w2"
    unfolding w2_def by (simp add: same_links_trans[OF same_links_signal same_links_fields_update(16)])
  also have "same_links w2 w'" unfolding w' by simp
  finally show ?thesis using wf_links_same at unfolding w1_def by blast
next
  case False
  then have "w' = w" using run by (auto simp: ptrace_traceme_def split: if_splits)
  then show ?thesis using wf by simp
qed

lemma find_tracee_listed:
  assumes "find_tracee w current pid = Some a" and "\<And>p. current = Some p \<Longrightarrow> p \<in> set (tracees w)"
  shows "a \<in> set (tracees w)"
proof -
  have "find f xs = Some y \<Longrightarrow> y \<in> set xs" for f xs and y :: nat by (auto simp: find_Some_iff)
  then show ?thesis using assms by (auto simp: find_tracee_def split: option.splits if_split_asm)
qed

lemma translate_ptrace_exit_wf:
  assumes Y: "keeps_graph Y" and wf: "wf_links D {} w" and t: "t \<in> set (tracees w)"
    and run: "translate_ptrace_exit Y Q t w = Inr (n, w')"
  shows "wf_links D {} w'"
proof -
  consider "ptrace_traceme Q t w = Inr (n, w')"
    | pid where "ptrace_attach t pid w = (n, w')"
    | request pid x y where "ptrace_as_ptracer Y Q request t pid x y w = Inr (n, w')"
    using run by (auto simp: translate_ptrace_exit_def or_fail_def Let_def split: if_split_asm sum.splits)
  then show ?thesis
  proof cases
    case 1
    then show ?thesis using ptrace_traceme_wf[OF wf t] by simp
  next
    case 2
    show ?thesis
    proof (cases "w' = w")
      case False
      then obtain a where a: "find_tracee w (Some t) (int_of_word pid) = Some a" "p_ptracer (proc w a) = None"
        "w' = send_signal (int_of_word pid) SIGSTOP (attach_to_ptracer a t w)"
        using 2 by (cases "find_tracee w (Some t) (int_of_word pid)") (simp_all add: ptrace_attach_def split: if_split_asm)
      have "a \<in> set (tracees w)" using find_tracee_listed[OF a(1)] t by simp
      from attach_wf[OF wf this t a(2)] show ?thesis unfolding a(3) by (rule wf_links_same) (rule same_links_signal)
    qed (use wf in simp)
  next
    case 3
    consider "w' = w" | a r w1 where "get_stopped_ptracee w t (int_of_word pid) False WALL = Some a"
        "\<not> p_is_zombie (proc w a)" "ptrace_request (y_mem Y) Q request t a x y w = Inr (r, w1)"
        "w' = w1 \<or> (\<exists>forced. restart_ptracee Y a forced w1 = Inr w')"
      using 3 by (auto simp: ptrace_as_ptracer_def split: option.splits if_split_asm sum.splits prod.splits request_outcome.splits)
    then show ?thesis
    proof cases
      case 2
      have a: "procs w a \<noteq> None" "p_ptracer (proc w a) = Some t" "a \<in> set (tracees w)"
        using get_stopped_ptracee_traced[OF wf t] 2(1,2) unfolding get_stopped_ptracee_def by blast+
      have d: "wf_links D {} v \<and> tracees v = tracees w" if "detach_from_ptracer a w = Inr v" for v
        using detach_wf[OF wf a(2) _ a(1) 2(2) that] detach_fields(1)[OF wf a(2) _ a(1) that] t by blast
      have 1: "wf_links D {} w1 \<and> tracees w1 = tracees w"
        using ptrace_request_links[OF 2(3)] d wf_links_same[OF wf] same_linksD(1) by blast
      then show ?thesis using 2(4) restart_ptracee_wf[OF Y, of D "{}" w1 a] a(3) by auto
    qed (use wf in simp)
  qed
qed

end
