(* ===== verification/Links_Ends.thy ===== *)
theory Links_Ends
  imports Links_Rounds
begin

unbundle bit_operations_syntax

section \<open>The graph of the tracees along their ends\<close>

text \<open>
  The invariant of \<open>Links\<close> along \<open>remove_tracee\<close>: the tracee leaves the list, its children and its
  ptracees are released one by one, its own tracer is told, and its memory is freed.  Then a round of
  the loop, and the steps of PRoot as a relation.
\<close>

subsection \<open>The release of the others\<close>

lemma same_links_clean: "same_links w (clean_life_span a w)"
  unfolding clean_life_span_def Let_def
  by (intro same_links_fields(1) same_links_put_list same_links_refl)

lemma unlist_wf:
  assumes wf: "wf_links {} {} w" and a: "a \<in> set (tracees w)"
  shows "wf_links {a} (set (removeAll a (tracees w))) (w\<lparr>tracees := removeAll a (tracees w)\<rparr>)"
proof -
  let ?w = "w\<lparr>tracees := removeAll a (tracees w)\<rparr>"
  have pt: "ptracees ?w t = ptracees w t" for t by (simp add: ptracees_def)
  have "listed {a} ?w"
    unfolding listed_def
  proof (intro conjI allI impI)
    show "distinct (tracees ?w)" using wf_linksD(1)[OF wf] by (simp add: distinct_removeAll)
    show "set (tracees ?w) \<inter> {a} = {}" by simp
    show "procs ?w b \<noteq> None \<and> \<not> p_is_zombie (proc ?w b) \<longleftrightarrow> b \<in> set (tracees ?w) \<union> {a}" for b
      using wf_linksD(3,4)[OF wf, of b] a by (cases "b = a") auto
    show "procs ?w b \<noteq> None \<Longrightarrow> b < next_addr ?w" for b using wf_linksD(5)[OF wf, of b] by simp
  qed
  moreover have "parents_live {a} (set (removeAll a (tracees w))) ?w"
    using wf unfolding wf_links_def parents_live_def by auto
  moreover have "tracers_live {a} (set (removeAll a (tracees w))) ?w"
    unfolding tracers_live_def
  proof (intro allI impI)
    fix b t assume b: "procs ?w b \<noteq> None" "p_ptracer (proc ?w b) = Some t"
    then have "t \<in> set (tracees w)" using wf unfolding wf_links_def tracers_live_def by auto
    moreover have "b \<in> set (tracees w) \<or> p_is_zombie (proc w b)" using wf_linksD(4)[OF wf, of b] b(1) by auto
    ultimately show "t \<in> set (tracees ?w) \<or> t \<in> {a} \<and>
        (b \<in> set (removeAll a (tracees w)) \<or> b \<in> {a} \<or> p_is_zombie (proc ?w b))" by auto
  qed
  moreover have "counted ?w" using wf by (simp add: wf_links_def counted_def pt)
  moreover have "zombies_kept {a} ?w"
  proof -
    have "(set (removeAll a (tracees w)) \<union> {a}) = set (tracees w)" using a by auto
    then show ?thesis using wf by (simp add: wf_links_def zombies_kept_def)
  qed
  ultimately show ?thesis unfolding wf_links_def by blast
qed

lemma untrace_wf:
  assumes wf: "wf_links {a} R w" and r: "r \<in> set (tracees w)" and t: "p_ptracer (proc w r) = Some a"
  shows "wf_links {a} R (update_proc r (\<lambda>p. p\<lparr>p_ptracer := None\<rparr>) w)"
proof -
  let ?w = "update_proc r (\<lambda>p. p\<lparr>p_ptracer := None\<rparr>) w"
  have lr: "procs w r \<noteq> None" "\<not> p_is_zombie (proc w r)" and na: "a \<notin> set (tracees w)"
    using wf_linksD(2,3)[OF wf] r by blast+
  have f: "tracees ?w = tracees w" "next_addr ?w = next_addr w" "procs ?w b = None \<longleftrightarrow> procs w b = None"
    "p_parent (proc ?w b) = p_parent (proc w b)" "p_ptracer (proc ?w b) = (if b = r then None else p_ptracer (proc w b))"
    "p_zombies (proc ?w b) = p_zombies (proc w b)" "p_is_zombie (proc ?w b) = p_is_zombie (proc w b)"
    "p_nb_ptracees (proc ?w b) = p_nb_ptracees (proc w b)" for b
    using lr by auto
  have pt: "ptracees ?w u = ptracees w u" if "u \<in> set (tracees w)" for u
    using that na t by (auto simp: ptracees_def f(3,5) simp del: proc_update_proc update_proc_simps)
  have "listed {a} ?w" and "parents_live {a} R ?w"
    using wf unfolding wf_links_def listed_def parents_live_def f by blast+
  moreover have "tracers_live {a} R ?w"
    using wf unfolding wf_links_def tracers_live_def f by (metis option.distinct(1))
  moreover have "counted ?w" using wf by (simp add: wf_links_def counted_def f pt del: proc_update_proc)
  moreover have "zombies_kept {a} ?w"
    unfolding zombies_kept_def f
  proof (intro conjI allI ballI impI)
    fix z assume z: "procs w z \<noteq> None" "p_is_zombie (proc w z)"
    then have "z \<noteq> r" using lr by blast
    with z wf show "\<exists>u. (if z = r then None else p_ptracer (proc w z)) = Some u \<and> z \<in> set (p_zombies (proc w u))"
      by (simp add: wf_links_def zombies_kept_def)
  next
    fix u assume u: "u \<in> set (tracees w) \<union> {a}"
    then show "distinct (p_zombies (proc w u))" using wf unfolding wf_links_def zombies_kept_def by blast
    fix z assume "z \<in> set (p_zombies (proc w u))"
    then have "procs w z \<noteq> None \<and> p_is_zombie (proc w z) \<and> p_ptracer (proc w z) = Some u"
      using wf u unfolding wf_links_def zombies_kept_def by blast
    moreover from this have "z \<noteq> r" using lr by blast
    ultimately show "procs w z \<noteq> None" "p_is_zombie (proc w z)" "(if z = r then None else p_ptracer (proc w z)) = Some u"
      by simp_all
  qed
  ultimately show ?thesis unfolding wf_links_def by blast
qed

text \<open>A tracee that has neither its parent nor its tracer being freed is released.\<close>

lemma released_wf:
  assumes wf: "wf_links {a} R w" and p: "p_parent (proc w r) \<noteq> Some a" and t: "p_ptracer (proc w r) \<noteq> Some a"
  shows "wf_links {a} (R - {r}) w"
proof -
  have "parents_live {a} (R - {r}) w"
    unfolding parents_live_def
  proof (intro allI impI)
    fix x q assume x: "x \<in> set (tracees w)" "p_parent (proc w x) = Some q"
    then have "q \<in> set (tracees w) \<or> q \<in> {a} \<and> x \<in> R" using wf unfolding wf_links_def parents_live_def by blast
    then show "q \<in> set (tracees w) \<or> q \<in> {a} \<and> x \<in> R - {r}" using x(2) p by auto
  qed
  moreover have "tracers_live {a} (R - {r}) w"
    unfolding tracers_live_def
  proof (intro allI impI)
    fix x u assume x: "procs w x \<noteq> None" "p_ptracer (proc w x) = Some u"
    then have "u \<in> set (tracees w) \<or> u \<in> {a} \<and> (x \<in> R \<or> x \<in> {a} \<or> p_is_zombie (proc w x))"
      using wf unfolding wf_links_def tracers_live_def by blast
    then show "u \<in> set (tracees w) \<or> u \<in> {a} \<and> (x \<in> R - {r} \<or> x \<in> {a} \<or> p_is_zombie (proc w x))" using x(2) t by auto
  qed
  ultimately show ?thesis using wf unfolding wf_links_def by blast
qed

lemma release_relative_wf:
  assumes Y: "keeps_graph Y" and wf: "wf_links {a} R w" and r: "r \<in> set (tracees w)"
    and run: "release_relative Y a r w = Inr w'"
  shows "wf_links {a} (R - {r}) w' \<and> set (tracees w) \<subseteq> set (tracees w')"
proof -
  have lr: "procs w r \<noteq> None" using wf_linksD(3)[OF wf] r by blast
  define w1 where "w1 = (if p_parent (proc w r) = Some a then update_proc r (\<lambda>p. p\<lparr>p_parent := None\<rparr>) w else w)"
  have 1: "wf_links {a} R w1" "tracees w1 = tracees w" "p_parent (proc w1 r) \<noteq> Some a"
    "p_ptracer (proc w1 r) = p_ptracer (proc w r)" "procs w1 r \<noteq> None"
    using wf lr set_parent_wf[OF wf lr, of None "\<lambda>p. p\<lparr>p_parent := None\<rparr>"] by (auto simp: w1_def links_def)
  show ?thesis
  proof (cases "p_ptracer (proc w1 r) = Some a")
    case False
    then have "w' = w1" using run by (simp add: release_relative_def Let_def flip: w1_def)
    then show ?thesis using released_wf[OF 1(1,3) False] 1(2) by simp
  next
    case True
    define w2 where "w2 = update_proc r (\<lambda>p. p\<lparr>p_ptracer := None\<rparr>) w1"
    have 2: "wf_links {a} R w2" "tracees w2 = tracees w" "p_parent (proc w2 r) \<noteq> Some a" "p_ptracer (proc w2 r) = None"
      using untrace_wf[OF 1(1) _ True] 1 r by (auto simp: w2_def)
    have rel: "wf_links {a} (R - {r}) w2" using released_wf[OF 2(1,3)] 2(4) by simp
    have r2: "r \<in> set (tracees w2)" "r \<notin> R - {r}" using r 2(2) by simp_all
    define w4 where "w4 = (if v_pending (proc w2 r) then
        (case tracee_event Y r (p_proot_value (proc w2 r)) w2 of
           Inl h \<Rightarrow> Inl h | Inr (signal, w) \<Rightarrow> Inr (snd (restart_proc (y_events Y) r signal w)))
      else if p_event_pending (proc w2 r) then
        Inr (snd (restart_proc (y_events Y) r (int_of_status (p_proot_value (proc w2 r))) w2))
      else Inr w2)"
    obtain w3 where w3: "w4 = Inr w3" "w' = update_proc r zero_as_ptracee w3"
      using run True by (auto simp: release_relative_def Let_def simp del: proc_update_proc
          simp flip: w1_def w2_def w4_def split: sum.splits)
    consider "w3 = w2" | s where "w3 = snd (restart_proc (y_events Y) r s w2)"
      | n st s v where "tracee_event Y r st w2 = Inr (n, v)" "w3 = snd (restart_proc (y_events Y) r s v)"
      using w3(1) by (auto simp: w4_def split: if_split_asm sum.splits)
    then have 3: "wf_links {a} (R - {r}) w3 \<and> set (tracees w) \<subseteq> set (tracees w3) \<and> p_ptracer (proc w3 r) = None"
    proof cases
      case 1
      then show ?thesis using rel 2 by simp
    next
      case 2
      have "same_links w2 w3" unfolding 2 by (rule same_links_restart)
      then show ?thesis
        using wf_links_same[OF rel] same_linksD(1,4)[of w2 w3] \<open>tracees w2 = tracees w\<close> \<open>p_ptracer (proc w2 r) = None\<close>
        by simp
    next
      case 3
      have "wf_links {a} (R - {r}) v \<and> world_grows {} w2 v \<and> p_ptracer (proc v r) = None"
        using tracee_event_wf[OF Y rel r2 3(1)] \<open>p_ptracer (proc w2 r) = None\<close> by blast
      moreover have "same_links v w3" unfolding 3(2) by (rule same_links_restart)
      ultimately show ?thesis
        using wf_links_same[of "{a}" "R - {r}" v w3] same_linksD(1,4)[of v w3] \<open>tracees w2 = tracees w\<close> by (simp add: world_grows_def)
    qed
    then have "\<not> p_is_zombie (proc w3 r)" using wf_linksD(3)[of "{a}" "R - {r}" w3 r] r by blast
    then have "links (zero_as_ptracee (proc w3 r)) = links (proc w3 r)" using 3 by (simp add: links_def zero_as_ptracee_def)
    then have "same_links w3 w'" by (simp add: same_links_def w3(2))
    then show ?thesis using 3 wf_links_same same_linksD(1) by metis
  qed
qed

lemma release_relatives_wf:
  assumes Y: "keeps_graph Y" and "wf_links {a} (set rs) w" and "distinct rs" and "set rs \<subseteq> set (tracees w)"
    and "release_relatives Y a rs w = Inr w'"
  shows "wf_links {a} {} w' \<and> set (tracees w) \<subseteq> set (tracees w')"
  using assms(2-5)
proof (induction rs arbitrary: w)
  case (Cons r rs)
  obtain w1 where w1: "release_relative Y a r w = Inr w1" "release_relatives Y a rs w1 = Inr w'"
    using Cons.prems(4) by (auto split: sum.splits)
  have "set (r # rs) - {r} = set rs" using Cons.prems(2) by auto
  then have "wf_links {a} (set rs) w1 \<and> set (tracees w) \<subseteq> set (tracees w1)"
    using release_relative_wf[OF Y Cons.prems(1) _ w1(1)] Cons.prems(3) by simp
  then show ?case using Cons.IH[OF _ _ _ w1(2)] Cons.prems(2,3) by auto
qed simp

subsection \<open>The end of a tracee\<close>

lemma make_zombie_fields:
  assumes a: "procs w a \<noteq> None" "p_ptracer (proc w a) = Some t" and t: "procs w t \<noteq> None"
    and new: "procs w z = None" "z = next_addr w" and run: "make_zombie a t w = Inr w'"
  shows "tracees w' = tracees w" and "next_addr w' = z + 3" and "procs w' b = None \<longleftrightarrow> b \<noteq> z \<and> procs w b = None"
    and "b \<noteq> z \<Longrightarrow> p_parent (proc w' b) = p_parent (proc w b) \<and> p_is_zombie (proc w' b) = p_is_zombie (proc w b)
      \<and> p_ptracer (proc w' b) = (if b = a then None else p_ptracer (proc w b))
      \<and> p_zombies (proc w' b) = (if b = t then z # p_zombies (proc w t) else p_zombies (proc w b))
      \<and> p_nb_ptracees (proc w' b) = p_nb_ptracees (proc w b)"
    and "p_ptracer (proc w' z) = Some t" and "p_is_zombie (proc w' z)" and "p_zombies (proc w' z) = []"
proof -
  have ne: "a \<noteq> z" "t \<noteq> z" using a t new by auto
  define w1 where "w1 = snd (new_dummy_tracee (c_kernel (proc w a)) w)"
  have w1: "new_dummy_tracee (c_kernel (proc w a)) w = (z, w1)" "tracees w1 = tracees w" "next_addr w1 = z + 3"
    "procs w1 b = None \<longleftrightarrow> b \<noteq> z \<and> procs w b = None" "b \<noteq> z \<Longrightarrow> proc w1 b = proc w b"
    "p_zombies (proc w1 z) = []" for b
    using new(2) by (auto simp: w1_def new_dummy_tracee_def proc_def zero_tracee_def Let_def)
  define w2 where "w2 = update_proc z (\<lambda>q. q\<lparr>p_parent := p_parent (proc w a), p_clone := p_clone (proc w a), p_pid := p_pid (proc w a)\<rparr>)
    (update_proc t (\<lambda>q. q\<lparr>p_zombies := z # p_zombies q\<rparr>) w1)"
  have w2: "tracees w2 = tracees w" "next_addr w2 = z + 3" "procs w2 b = None \<longleftrightarrow> b \<noteq> z \<and> procs w b = None"
    "b \<noteq> z \<Longrightarrow> proc w2 b = (if b = t then (proc w t)\<lparr>p_zombies := z # p_zombies (proc w t)\<rparr> else proc w b)"
    "p_zombies (proc w2 z) = []" for b
    using w1 ne t by (auto simp: w2_def)
  have tr: "p_ptracer (proc w2 a) = Some t" using w2(4)[OF ne(1)] a(2) by auto
  note run' = run[unfolded make_zombie_def Let_def w1(1) prod.case w2_def[symmetric]]
  have nb: "p_nb_ptracees (proc w2 t) \<noteq> 0"
    using run' tr by (auto simp: detach_from_ptracer_def split: if_split_asm)
  define w3 where "w3 = update_proc t (\<lambda>p. p\<lparr>p_nb_ptracees := p_nb_ptracees p - 1\<rparr>) (update_proc a (\<lambda>p. p\<lparr>p_ptracer := None\<rparr>) w2)"
  have w': "w' = update_proc z (\<lambda>q. q\<lparr>p_event_pending := True, p_event_value := p_event_value (proc w a), p_is_zombie := True\<rparr>)
      (attach_to_ptracer z t w3)"
    using run' tr nb by (simp add: detach_from_ptracer_def w3_def)
  have live: "procs w2 t \<noteq> None" "procs w2 a \<noteq> None" using w2(3) ne a(1) t by metis+
  have w3: "tracees w3 = tracees w" "next_addr w3 = z + 3" "p_zombies (proc w3 z) = []"
    using w2(1,2,5) ne by (simp_all add: w3_def)
  have w3_dom: "procs w3 b = None \<longleftrightarrow> b \<noteq> z \<and> procs w b = None" for b
    unfolding w2(3)[symmetric] by (simp add: w3_def)
  have w3_proc: "p_parent (proc w3 b) = p_parent (proc w b) \<and> p_is_zombie (proc w3 b) = p_is_zombie (proc w b)
      \<and> p_ptracer (proc w3 b) = (if b = a then None else p_ptracer (proc w b))
      \<and> p_zombies (proc w3 b) = (if b = t then z # p_zombies (proc w t) else p_zombies (proc w b))
      \<and> p_nb_ptracees (proc w3 b) = (if b = t then p_nb_ptracees (proc w b) - 1 else p_nb_ptracees (proc w b))"
    if "b \<noteq> z" for b
    using w2(4)[OF that] live by (cases "b = t"; cases "b = a") (simp_all add: w3_def)
  have nbt: "p_nb_ptracees (proc w t) \<noteq> 0" using nb w2(4)[OF ne(2)] by simp
  show "tracees w' = tracees w" "next_addr w' = z + 3"
    "p_ptracer (proc w' z) = Some t" "p_is_zombie (proc w' z)" "p_zombies (proc w' z) = []"
    using w3 w3_dom[of z] w3_dom[of t] ne t
    by (simp_all add: w' attach_to_ptracer_def zero_as_ptracee_def)
  show "procs w' b = None \<longleftrightarrow> b \<noteq> z \<and> procs w b = None"
    unfolding w3_dom[symmetric] by (simp add: w' attach_to_ptracer_def)
  show "b \<noteq> z \<Longrightarrow> p_parent (proc w' b) = p_parent (proc w b) \<and> p_is_zombie (proc w' b) = p_is_zombie (proc w b)
      \<and> p_ptracer (proc w' b) = (if b = a then None else p_ptracer (proc w b))
      \<and> p_zombies (proc w' b) = (if b = t then z # p_zombies (proc w t) else p_zombies (proc w b))
      \<and> p_nb_ptracees (proc w' b) = p_nb_ptracees (proc w b)"
    using w3_proc[of b] w3_dom[of t] ne t nbt
    by (cases "b = t"; cases "b = a") (simp_all add: w' attach_to_ptracer_def zero_as_ptracee_def)
qed

lemma make_zombie_wf:
  assumes wf: "wf_links D {} w" and a: "a \<in> D" "p_ptracer (proc w a) = Some t" and t: "t \<in> set (tracees w) \<union> D"
    and run: "make_zombie a t w = Inr w'"
  shows "wf_links D {} w'" and "p_ptracer (proc w' a) = None" and "tracees w' = tracees w"
proof -
  define z where "z = next_addr w"
  have new: "procs w z = None" unfolding z_def using wf_linksD(5)[OF wf, of "next_addr w"] by (meson less_irrefl)
  have la: "procs w a \<noteq> None" "\<not> p_is_zombie (proc w a)" and lt: "procs w t \<noteq> None"
    using wf_linksD(3)[OF wf] a(1) t by blast+
  have az: "a \<noteq> z" using la new by auto
  note f = make_zombie_fields[OF la(1) a(2) lt new z_def run]
  have parent: "p_parent (proc w' b) = p_parent (proc w b)" and zombie: "p_is_zombie (proc w' b) = p_is_zombie (proc w b)"
    and ptracer: "p_ptracer (proc w' b) = (if b = a then None else p_ptracer (proc w b))"
    and zombies: "p_zombies (proc w' b) = (if b = t then z # p_zombies (proc w t) else p_zombies (proc w b))"
    and nb: "p_nb_ptracees (proc w' b) = p_nb_ptracees (proc w b)" if "b \<noteq> z" for b
    using f(4)[OF that] by blast+
  show "p_ptracer (proc w' a) = None" using ptracer[OF az] by simp
  show tr: "tracees w' = tracees w" by (rule f(1))
  have nz: "b \<noteq> z" if "b \<in> set (tracees w) \<union> D" for b using wf_linksD(3)[OF wf that] new by auto
  have pt: "ptracees w' u = (if u = t then insert z (ptracees w u - {a}) else ptracees w u)" for u
  proof (rule set_eqI)
    fix b
    have "procs w a \<noteq> None" by (rule la)
    then show "b \<in> ptracees w' u \<longleftrightarrow> b \<in> (if u = t then insert z (ptracees w u - {a}) else ptracees w u)"
      using f(3)[of b] f(5) ptracer[of b] a(2) new
      by (cases "b = z"; cases "b = a") (simp_all add: ptracees_def del: not_None_eq)
  qed
  have "z \<notin> ptracees w t" "a \<in> ptracees w t" using new la a(2) by (simp_all add: ptracees_def)
  moreover have "finite (ptracees w t)" using finite_ptracees[OF wf] .
  ultimately have card: "card (ptracees w' u) = card (ptracees w u)" for u
    using card_Suc_Diff1[of "ptracees w t" a] by (simp add: pt)
  have "listed D w'"
    unfolding listed_def tr
  proof (intro conjI allI impI)
    show "distinct (tracees w)" and "set (tracees w) \<inter> D = {}" using wf_linksD(1,2)[OF wf] by simp_all
    show "procs w' b \<noteq> None \<and> \<not> p_is_zombie (proc w' b) \<longleftrightarrow> b \<in> set (tracees w) \<union> D" for b
    proof (cases "b = z")
      case True
      then show ?thesis using f(6) nz by blast
    next
      case False
      then show ?thesis using f(3)[of b] zombie[OF False] wf_linksD(3,4)[OF wf, of b] by metis
    qed
    show "procs w' b \<noteq> None \<Longrightarrow> b < next_addr w'" for b
      using f(3)[of b] wf_linksD(5)[OF wf, of b] unfolding f(2) z_def by (cases "b = next_addr w") auto
  qed
  moreover have "parents_live D {} w'"
    using wf parent nz unfolding wf_links_def parents_live_def tr by (metis UnI1)
  moreover have "tracers_live D {} w'"
    unfolding tracers_live_def tr
  proof (intro allI impI)
    fix b u assume b: "procs w' b \<noteq> None" "p_ptracer (proc w' b) = Some u"
    show "u \<in> set (tracees w) \<or> u \<in> D \<and> (b \<in> {} \<or> b \<in> D \<or> p_is_zombie (proc w' b))"
    proof (cases "b = z")
      case True
      then show ?thesis using b(2) f(5,6) t by auto
    next
      case False
      then have "procs w b \<noteq> None" "p_ptracer (proc w b) = Some u" "p_is_zombie (proc w' b) = p_is_zombie (proc w b)"
        using b f(3)[of b] ptracer[OF False] zombie[OF False] by (auto split: if_splits)
      then show ?thesis using wf unfolding wf_links_def tracers_live_def by auto
    qed
  qed
  moreover have "counted w'"
    using wf nb nz by (simp add: wf_links_def counted_def tr card)
  moreover have "zombies_kept D w'"
    unfolding zombies_kept_def tr
  proof (intro conjI allI ballI impI)
    fix y assume y: "procs w' y \<noteq> None" "p_is_zombie (proc w' y)"
    show "\<exists>u. p_ptracer (proc w' y) = Some u \<and> y \<in> set (p_zombies (proc w' u))"
    proof (cases "y = z")
      case True
      then show ?thesis using f(5) zombies[of t] nz[OF t] by simp
    next
      case False
      then have y': "procs w y \<noteq> None" "p_is_zombie (proc w y)" using y f(3)[of y] zombie by auto
      then obtain u where u: "p_ptracer (proc w y) = Some u" "y \<in> set (p_zombies (proc w u))"
        using wf unfolding wf_links_def zombies_kept_def by blast
      then have "u \<in> set (tracees w) \<union> D" using wf y'(1) unfolding wf_links_def tracers_live_def by blast
      moreover have "y \<noteq> a" using y' la by blast
      ultimately show ?thesis using u ptracer[OF False] zombies[OF nz] by auto
    qed
  next
    fix u assume u: "u \<in> set (tracees w) \<union> D"
    have d: "distinct (p_zombies (proc w u))" "\<And>y. y \<in> set (p_zombies (proc w u)) \<Longrightarrow>
        procs w y \<noteq> None \<and> p_is_zombie (proc w y) \<and> p_ptracer (proc w y) = Some u"
      using wf u unfolding wf_links_def zombies_kept_def by blast+
    have "z \<notin> set (p_zombies (proc w u))" using d(2)[of z] new by auto
    then show "distinct (p_zombies (proc w' u))" using d(1) zombies[OF nz[OF u]] by auto
    fix y assume y: "y \<in> set (p_zombies (proc w' u))"
    show "procs w' y \<noteq> None" "p_is_zombie (proc w' y)" "p_ptracer (proc w' y) = Some u"
    proof -
      have "procs w' y \<noteq> None \<and> p_is_zombie (proc w' y) \<and> p_ptracer (proc w' y) = Some u"
      proof (cases "y = z")
        case True
        then have "u = t" using y zombies[OF nz[OF u]] \<open>z \<notin> set (p_zombies (proc w u))\<close> by (auto split: if_splits)
        then show ?thesis using True f(3)[of z] f(5,6) by simp
      next
        case False
        then have "y \<in> set (p_zombies (proc w u))" using y zombies[OF nz[OF u]] by (auto split: if_splits)
        note y' = d(2)[OF this]
        then have "y \<noteq> a" using la by blast
        then show ?thesis using y' f(3)[of y] zombie[OF False] ptracer[OF False] by simp
      qed
      then show "procs w' y \<noteq> None" "p_is_zombie (proc w' y)" "p_ptracer (proc w' y) = Some u" by blast+
    qed
  qed
  ultimately show "wf_links D {} w'" unfolding wf_links_def by blast
qed

lemma leave_ptracer_wf:
  assumes wf: "wf_links {a} {} w" and a: "p_ptracer (proc w a) = Some t" and run: "leave_ptracer Y a t w = Inr w'"
  shows "wf_links {a} {} w' \<and> p_ptracer (proc w' a) = None \<and> tracees w' = tracees w"
proof -
  have la: "procs w a \<noteq> None" "\<not> p_is_zombie (proc w a)" using wf_linksD(3)[OF wf] by blast+
  have t: "t \<in> set (tracees w) \<union> {a}" using wf a la unfolding wf_links_def tracers_live_def by blast
  consider "make_zombie a t w = Inr w'"
    | w1 where "detach_from_ptracer a w = Inr w1" "w' = w1 \<or> w' = snd (restart_proc (y_events Y) t 0
        (update_proc t (set_wait_pid 0) (push (y_regs Y) t (set_reg t SYSARG_RESULT (of_int (- errno_code ECHILD)) w1))))"
    using run by (auto simp: leave_ptracer_def Let_def split: if_split_asm sum.splits)
  then show ?thesis
  proof cases
    case 1
    then show ?thesis using make_zombie_wf[OF wf _ a t] by simp
  next
    case 2
    have 3: "wf_links {a} {} w1" "p_ptracer (proc w1 a) = None" "tracees w1 = tracees w"
      using detach_wf[OF wf a t la 2(1)] detach_fields(1,5)[OF wf a t la(1) 2(1)] by simp_all
    have "same_links w1 (snd (restart_proc (y_events Y) t 0 (update_proc t (set_wait_pid 0)
        (push (y_regs Y) t (set_reg t SYSARG_RESULT v w1)))))" for v
      by (rule same_links_trans[OF same_links_set_reg same_links_trans[OF same_links_push
          same_links_trans[OF same_links_fields_update(8) same_links_restart]]])
    then have "same_links w1 w'" using 2(2) by auto
    then show ?thesis using 3 wf_links_same same_linksD(1,4)[of w1 w'] by metis
  qed
qed

lemma free_tracee_wf:
  assumes wf: "wf_links {a} {} w" and a: "p_ptracer (proc w a) = None"
  shows "wf_links {} {} (free_tracee a w)"
proof -
  let ?w = "free_tracee a w" and ?Z = "set (p_zombies (proc w a))"
  have Z: "procs w z \<noteq> None \<and> p_is_zombie (proc w z) \<and> p_ptracer (proc w z) = Some a" if "z \<in> ?Z" for z
    using wf that unfolding wf_links_def zombies_kept_def by blast
  have tr: "tracees ?w = tracees w" "next_addr ?w = next_addr w" by (simp_all add: free_tracee_def)
  have dom: "procs ?w b = None \<longleftrightarrow> procs w b = None \<or> b = a \<or> b \<in> ?Z" for b
    by (auto simp: free_tracee_def restrict_map_def)
  have same: "proc ?w b = proc w b" if "procs ?w b \<noteq> None" for b
    using that by (auto simp: free_tracee_def proc_def restrict_map_def split: if_splits)
  have live: "procs ?w b \<noteq> None" "b \<noteq> a" if "b \<in> set (tracees w)" for b
    using wf_linksD(2)[OF wf] wf_linksD(3)[OF wf, of b] that dom[of b] Z[of b] by auto
  have not_a: "p_ptracer (proc w b) \<noteq> Some a" if "procs ?w b \<noteq> None" for b
  proof
    assume t: "p_ptracer (proc w b) = Some a"
    have b: "procs w b \<noteq> None" "b \<noteq> a" "b \<notin> ?Z" using that dom[of b] by auto
    have "a \<notin> set (tracees w)" using wf_linksD(2)[OF wf] by blast
    then have "p_is_zombie (proc w b)" using wf b t unfolding wf_links_def tracers_live_def by blast
    then show False using wf b t unfolding wf_links_def zombies_kept_def by auto
  qed
  have pt: "ptracees ?w u = ptracees w u" if "u \<noteq> a" for u
  proof (rule set_eqI)
    fix b
    show "b \<in> ptracees ?w u \<longleftrightarrow> b \<in> ptracees w u"
      using dom[of b] same[of b] Z[of b] a that by (auto simp: ptracees_def)
  qed
  have "listed {} ?w"
    unfolding listed_def tr
  proof (intro conjI allI impI)
    show "distinct (tracees w)" and "set (tracees w) \<inter> {} = {}" using wf_linksD(1)[OF wf] by simp_all
    show "procs ?w b \<noteq> None \<and> \<not> p_is_zombie (proc ?w b) \<longleftrightarrow> b \<in> set (tracees w) \<union> {}" for b
      using live[of b] same[of b] dom[of b] wf_linksD(3,4)[OF wf, of b] by auto
    show "procs ?w b \<noteq> None \<Longrightarrow> b < next_addr w" for b using dom[of b] wf_linksD(5)[OF wf, of b] by metis
  qed
  moreover have "parents_live {} {} ?w"
    unfolding parents_live_def tr
  proof (intro allI impI)
    fix b q assume b: "b \<in> set (tracees w)" "p_parent (proc ?w b) = Some q"
    then have "p_parent (proc w b) = Some q" using live same by metis
    then show "q \<in> set (tracees w) \<or> q \<in> {} \<and> b \<in> {}" using wf b(1) unfolding wf_links_def parents_live_def by blast
  qed
  moreover have "tracers_live {} {} ?w"
    unfolding tracers_live_def tr
  proof (intro allI impI)
    fix b u assume b: "procs ?w b \<noteq> None" "p_ptracer (proc ?w b) = Some u"
    then have "p_ptracer (proc w b) = Some u" "procs w b \<noteq> None" using same[of b] dom[of b] by simp_all
    moreover from this have "u \<noteq> a" using not_a[OF b(1)] by auto
    ultimately show "u \<in> set (tracees w) \<or> u \<in> {} \<and> (b \<in> {} \<or> b \<in> {} \<or> p_is_zombie (proc ?w b))"
      using wf unfolding wf_links_def tracers_live_def by blast
  qed
  moreover have "counted ?w"
    unfolding counted_def tr
  proof
    fix u assume "u \<in> set (tracees w)"
    then show "p_nb_ptracees (proc ?w u) = card (ptracees ?w u)"
      using live[of u] same[of u] pt[of u] wf by (simp add: wf_links_def counted_def)
  qed
  moreover have "zombies_kept {} ?w"
    unfolding zombies_kept_def tr
  proof (intro conjI allI ballI impI)
    fix y assume y: "procs ?w y \<noteq> None" "p_is_zombie (proc ?w y)"
    then have y': "procs w y \<noteq> None" "p_is_zombie (proc w y)" using same[of y] dom[of y] by simp_all
    then obtain u where u: "p_ptracer (proc w y) = Some u" "y \<in> set (p_zombies (proc w u))"
      using wf unfolding wf_links_def zombies_kept_def by blast
    have "u \<noteq> a" using u(1) not_a[OF y(1)] by auto
    then have "u \<in> set (tracees w)" using wf y'(1) u(1) unfolding wf_links_def tracers_live_def by blast
    then show "\<exists>u. p_ptracer (proc ?w y) = Some u \<and> y \<in> set (p_zombies (proc ?w u))"
      using u same[OF y(1)] same[of u] live[of u] by auto
  next
    fix u assume "u \<in> set (tracees w) \<union> {}"
    then have u: "u \<in> set (tracees w)" by simp
    have d: "distinct (p_zombies (proc w u))" "\<And>y. y \<in> set (p_zombies (proc w u)) \<Longrightarrow>
        procs w y \<noteq> None \<and> p_is_zombie (proc w y) \<and> p_ptracer (proc w y) = Some u"
      using wf u unfolding wf_links_def zombies_kept_def by blast+
    have pu: "proc ?w u = proc w u" using same[of u] live(1)[OF u] by simp
    show "distinct (p_zombies (proc ?w u))" using d(1) pu by simp
    fix y assume "y \<in> set (p_zombies (proc ?w u))"
    then have y: "procs w y \<noteq> None" "p_is_zombie (proc w y)" "p_ptracer (proc w y) = Some u" using d(2) pu by simp_all
    have "y \<noteq> a" using y(3) a by auto
    moreover have "y \<notin> ?Z" using Z[of y] y(3) live(2)[OF u] by auto
    ultimately have ly: "procs ?w y \<noteq> None" using dom[of y] y(1) by metis
    then show "procs ?w y \<noteq> None" "p_is_zombie (proc ?w y)" "p_ptracer (proc ?w y) = Some u"
      using same[OF ly] y by simp_all
  qed
  ultimately show ?thesis unfolding wf_links_def by blast
qed

lemma remove_tracee_wf:
  assumes Y: "keeps_graph Y" and wf: "wf_links {} {} w" and a: "a \<in> set (tracees w)"
    and run: "remove_tracee Y a w = Inr w'"
  shows "wf_links {} {} w' \<and> set (tracees w) - {a} \<subseteq> set (tracees w')"
proof -
  define w1 where "w1 = clean_life_span a (w\<lparr>tracees := removeAll a (tracees w)\<rparr>)"
  have s: "same_links (w\<lparr>tracees := removeAll a (tracees w)\<rparr>) w1" unfolding w1_def by (rule same_links_clean)
  have tr: "tracees w1 = removeAll a (tracees w)" using same_linksD(1)[OF s] by simp
  have 1: "wf_links {a} (set (tracees w1)) w1" using wf_links_same[OF unlist_wf[OF wf a] s] by (simp add: tr)
  obtain w2 where w2: "release_relatives Y a (tracees w1) w1 = Inr w2"
    using run by (auto simp: remove_tracee_def Let_def simp flip: w1_def split: sum.splits)
  obtain w3 where w3: "p_ptracer (proc w2 a) = None \<and> w3 = w2
      \<or> (\<exists>t. p_ptracer (proc w2 a) = Some t \<and> leave_ptracer Y a t w2 = Inr w3)" "w' = free_tracee a w3"
    using run w2 by (auto simp: remove_tracee_def Let_def simp flip: w1_def split: sum.splits option.splits)
  have 2: "wf_links {a} {} w2 \<and> set (tracees w1) \<subseteq> set (tracees w2)"
    by (rule release_relatives_wf[OF Y 1 _ subset_refl w2]) (simp add: tr distinct_removeAll wf_linksD(1)[OF wf])
  have "wf_links {a} {} w3 \<and> p_ptracer (proc w3 a) = None \<and> tracees w3 = tracees w2"
    using w3(1) 2 leave_ptracer_wf[of a w2] by blast
  then show ?thesis using free_tracee_wf[of a w3] 2 by (auto simp: w3(2) tr free_tracee_def)
qed

subsection \<open>A round\<close>

lemma free_loop_wf:
  assumes Y: "keeps_graph Y" and "wf_links {} {} w" and "distinct as" and "set as \<subseteq> set (tracees w)"
    and "free_loop Y as w = Inr w'"
  shows "wf_links {} {} w'"
  using assms(2-5)
proof (induction as arbitrary: w)
  case (Cons a as)
  obtain w1 where w1: "(if v_terminated (proc w a) then remove_tracee Y a w else Inr w) = Inr w1" "free_loop Y as w1 = Inr w'"
    using Cons.prems(4) by (auto split: sum.splits)
  have "wf_links {} {} w1 \<and> set (tracees w) - {a} \<subseteq> set (tracees w1)"
    using w1(1) Cons.prems(1,3) remove_tracee_wf[OF Y Cons.prems(1), of a w1] by (auto split: if_splits)
  moreover from this have "set as \<subseteq> set (tracees w1)" using Cons.prems(2,3) by auto
  ultimately show ?case using Cons.IH[OF _ _ _ w1(2)] Cons.prems(2) by simp
qed simp

lemma free_terminated_wf:
  assumes "keeps_graph Y" and "wf_links {} {} w" and "free_terminated_tracees Y w = Inr w'"
  shows "wf_links {} {} w'"
  using free_loop_wf[OF assms(1,2) wf_linksD(1)[OF assms(2)]] assms(3) by (simp add: free_terminated_tracees_def)

lemma event_loop_round_wf:
  assumes Y: "keeps_graph Y" and wf: "wf_links {} {} w" and run: "event_loop_round Y pid status w = Inr w'"
  shows "wf_links {} {} w'"
proof -
  obtain w1 where w1: "free_terminated_tracees Y w = Inr w1" using run by (auto simp: event_loop_round_def split: sum.splits)
  obtain a w2 where w2: "get_or_new_tracee (y_kernel Y pid) None pid w1 = (a, w2)" by fastforce
  define w3 where "w3 = update_proc a (\<lambda>p. p\<lparr>v_running := False\<rparr>) w2"
  obtain b w4 where w4: "y_new_status Y a status w3 = (b, w4)" by fastforce
  have g: "wf_links {} {} w2 \<and> world_grows {} w1 w2 \<and> a \<in> set (tracees w2)"
    by (rule get_or_new_tracee_wf[OF free_terminated_wf[OF Y wf w1] _ w2]) simp
  have s: "same_links w2 w4"
    using keeps_graphD(7)[OF Y w4] same_links_trans[of w2 w3 w4] by (simp add: w3_def)
  have 4: "wf_links {} {} w4" "a \<in> set (tracees w4)" using g wf_links_same[OF _ s] same_linksD(1)[OF s] by auto
  have e: "wf_links {} {} v' \<and> world_grows {} v v'" if "wf_links {} {} v" "a \<in> set (tracees v)" "tracee_event Y a st v = Inr (n, v')"
    for v v' st n
    using tracee_event_wf[OF Y that(1,2) _ that(3)] by simp
  consider "w' = w4" | keep w5 where "(if p_ptracer (proc w4 a) = None then Inr (False, w4)
        else handle_ptracee_event (y_regs Y) (y_mem Y) (y_events Y) (tracee_event Y) a status w4) = Inr (keep, w5)"
      "if keep then w' = w5 else \<exists>n v s. tracee_event Y a status w5 = Inr (n, v) \<and> w' = snd (restart_proc (y_events Y) a s v)"
    using run w1 w2 w4
    by (auto simp: event_loop_round_def simp del: proc_update_proc simp flip: w3_def
        split: sum.splits prod.splits bool.splits if_split_asm)
  then show ?thesis
  proof cases
    case 2
    have 5: "wf_links {} {} w5 \<and> a \<in> set (tracees w5)"
    proof (cases "p_ptracer (proc w4 a)")
      case None
      then show ?thesis using 2(1) 4 by simp
    next
      case (Some t)
      have "t \<in> set (tracees w4)" using tracer_listed[OF 4 _ Some] by simp
      then have "wf_links {} {} w5 \<and> world_grows {a} w4 w5"
        using 2(1) Some by (intro handle_ptracee_event_wf[OF 4 Some _ e]) auto
      then show ?thesis using 4(2) by (auto simp: world_grows_def)
    qed
    show ?thesis
    proof (cases keep)
      case False
      then obtain n v s where v: "tracee_event Y a status w5 = Inr (n, v)" "w' = snd (restart_proc (y_events Y) a s v)"
        using 2(2) by auto
      have "wf_links {} {} v" using e[OF _ _ v(1)] 5 by blast
      then show ?thesis unfolding v(2) by (rule wf_links_same) (rule same_links_restart)
    qed (use 2(2) 5 in simp)
  qed (use 4 in simp)
qed

subsection \<open>The steps of PRoot\<close>

text \<open>
  PRoot starts with one tracee, which is PRoot itself until its program is started.  A step is a round of the loop,
  or one of the calls that PRoot emulates for a tracee.
\<close>

definition launched :: "'k \<Rightarrow> int \<Rightarrow> Globals \<Rightarrow> 'k World" where
  "launched k pid g =
     (case new_tracee k 0 \<lparr>procs = Map.empty, tracees = [], next_vpid = 1, namespaces = Map.empty,
             binding_lists = Map.empty, heaps = Map.empty, next_addr = 0, killed = [], w_globals = g\<rparr> of
        (a, w) \<Rightarrow> update_proc a (\<lambda>p. p\<lparr>p_pid := pid\<rparr>) w)"

inductive proot_step :: "'k Host \<Rightarrow> 'k Requests \<Rightarrow> 'k World \<Rightarrow> 'k World \<Rightarrow> bool"
  for Y :: "'k Host" and Q :: "'k Requests" where
  round: "event_loop_round Y pid status w = Inr w' \<Longrightarrow> proot_step Y Q w w'"
| ptrace: "t \<in> set (tracees w) \<Longrightarrow> translate_ptrace_exit Y Q t w = Inr (n, w') \<Longrightarrow> proot_step Y Q w w'"
| wait_enter: "t \<in> set (tracees w) \<Longrightarrow> translate_wait_enter t w = Inr w' \<Longrightarrow> proot_step Y Q w w'"
| wait_exit: "t \<in> set (tracees w) \<Longrightarrow> translate_wait_exit (y_mem Y) t w = Inr (n, w') \<Longrightarrow> proot_step Y Q w w'"

inductive_cases proot_stepE: "proot_step Y Q w w'"

lemma proot_step_wf:
  assumes "keeps_graph Y" and "proot_step Y Q w w'" and "wf_links {} {} w"
  shows "wf_links {} {} w'"
  using assms(2,3)
proof (cases rule: proot_step.cases)
  case (wait_enter t)
  then show ?thesis using wf_links_same[OF assms(3) translate_wait_enter_links] by blast
qed (use assms event_loop_round_wf translate_ptrace_exit_wf translate_wait_exit_wf in blast)+

lemma launched_wf: "wf_links {} {} (launched k pid g)"
proof -
  define w :: "'a World" where "w = \<lparr>procs = Map.empty, tracees = [], next_vpid = 1, namespaces = Map.empty, binding_lists = Map.empty,
    heaps = Map.empty, next_addr = 0, killed = [], w_globals = g\<rparr>"
  have "wf_links {} {} w"
    by (simp add: w_def wf_links_def listed_def parents_live_def tracers_live_def counted_def zombies_kept_def)
  obtain a w1 where 1: "new_tracee k 0 w = (a, w1)" by fastforce
  have "wf_links {} {} w1" by (rule new_tracee_wf[OF \<open>wf_links {} {} w\<close> 1, THEN conjunct1])
  moreover have "same_links w1 (update_proc a (\<lambda>p. p\<lparr>p_pid := pid\<rparr>) w1)"
    by (rule same_links_update) (simp add: keeps_links_def links_def)
  moreover have "launched k pid g = update_proc a (\<lambda>p. p\<lparr>p_pid := pid\<rparr>) w1"
    unfolding launched_def w_def[symmetric] 1 by simp
  ultimately show ?thesis using wf_links_same by metis
qed

lemma proot_steps_wf:
  assumes "keeps_graph Y" and "(proot_step Y Q)\<^sup>*\<^sup>* w w'" and "wf_links {} {} w"
  shows "wf_links {} {} w'"
  using assms(2,3) by (induction rule: rtranclp_induct) (auto intro: proot_step_wf[OF assms(1)])

end
