(* ===== verification/Process_Properties.thy ===== *)
theory Process_Properties
  imports Exit_Properties Links_Ends
begin

unbundle bit_operations_syntax

section \<open>Properties of the tracees\<close>

text \<open>
  The correctness of the list of the tracees, of the inheritance of name-spaces, and of the emulation
  of \<open>ptrace(2)\<close> and \<open>wait(2)\<close>.
\<close>

subsection \<open>The graph of the tracees\<close>

text \<open>
  C11.  Whatever the events and the calls \<open>ptrace(2)\<close> and \<open>wait(2)\<close>, PRoot keeps no dangling pointer: the
  list has no duplicates, its tracees are allocated, the parent of a tracee of the list is in the list, the
  tracer of any allocated tracee is in the list, the counter of ptracees of a tracer is exact, and an
  allocated tracee out of the list is a zombie that its tracer can report.
\<close>

theorem tracees_linked:
  assumes "keeps_graph Y" and "(proot_step Y Q)\<^sup>*\<^sup>* (launched k pid g) w"
  shows "distinct (tracees w)
    \<and> (\<forall>a \<in> set (tracees w). procs w a \<noteq> None
         \<and> (\<forall>q. p_parent (proc w a) = Some q \<longrightarrow> q \<in> set (tracees w))
         \<and> p_nb_ptracees (proc w a) = card {b. procs w b \<noteq> None \<and> p_ptracer (proc w b) = Some a})
    \<and> (\<forall>b t. procs w b \<noteq> None \<longrightarrow> p_ptracer (proc w b) = Some t \<longrightarrow> t \<in> set (tracees w))
    \<and> (\<forall>z. procs w z \<noteq> None \<longrightarrow> z \<notin> set (tracees w) \<longrightarrow> p_is_zombie (proc w z)
         \<and> (\<exists>t \<in> set (tracees w). p_ptracer (proc w z) = Some t \<and> z \<in> set (p_zombies (proc w t))))"
proof -
  note wf = proot_steps_wf[OF assms launched_wf]
  have live: "procs w a \<noteq> None" if "a \<in> set (tracees w)" for a using wf_linksD(3)[OF wf] that by blast
  have tracer: "t \<in> set (tracees w)" if "procs w b \<noteq> None" "p_ptracer (proc w b) = Some t" for b t
    using wf that unfolding wf_links_def tracers_live_def by blast
  have zombie: "p_is_zombie (proc w z)" if "procs w z \<noteq> None" "z \<notin> set (tracees w)" for z
    using wf_linksD(4)[OF wf, of z] that by blast
  have parent: "q \<in> set (tracees w)" if "a \<in> set (tracees w)" "p_parent (proc w a) = Some q" for a q
    using wf that unfolding wf_links_def parents_live_def by blast
  have count: "p_nb_ptracees (proc w a) = card {b. procs w b \<noteq> None \<and> p_ptracer (proc w b) = Some a}"
    if "a \<in> set (tracees w)" for a
    using wf that by (simp add: wf_links_def counted_def ptracees_def del: not_None_eq)
  have kept: "\<exists>t \<in> set (tracees w). p_ptracer (proc w z) = Some t \<and> z \<in> set (p_zombies (proc w t))"
    if "procs w z \<noteq> None" "z \<notin> set (tracees w)" for z
  proof -
    have "zombies_kept {} w" using wf by (simp add: wf_links_def)
    from this[unfolded zombies_kept_def, THEN conjunct1, rule_format, OF that(1) zombie[OF that]]
    obtain t where t: "p_ptracer (proc w z) = Some t" "z \<in> set (p_zombies (proc w t))" by blast
    then show ?thesis using tracer[OF that(1)] by blast
  qed
  show ?thesis
    by (intro conjI ballI allI impI)
      (rule wf_linksD(1)[OF wf] live count parent tracer zombie kept; assumption)+
qed

definition ex_silent :: "unit Process Handlers" where
  "ex_silent = \<lparr>x_syscall_enter = (\<lambda>s. Inr (0, s)), x_syscall_exit = (\<lambda>s. Inr s),
     x_chained_enter = (\<lambda>s. (0, s)), x_chained_exit = (\<lambda>s. s)\<rparr>"

definition ex_process_calls :: "(unit, unit Process) Event_Calls" where
  "ex_process_calls = \<lparr>z_assume_new = True, z_setoptions = (\<lambda>s b. True), z_kernel_supports = True,
     z_geteventmsg = (\<lambda>k. Some 43), z_siginfo = (\<lambda>k. (False, 0)), z_new_child = (\<lambda>f s. s),
     z_handle_seccomp_event = (\<lambda>s. (0, s)), z_restart = (\<lambda>s n. True)\<rparr>"

definition ex_memory :: "unit Ptrace_Mem" where
  "ex_memory = \<lparr>p_peekdata = (\<lambda>k a. Err EIO), p_pokedata = (\<lambda>k a v. (Some EIO, k))\<rparr>"

text \<open>A host that cannot read registers, and on which the status of a new process needs no action.\<close>

definition ex_host :: "unit Host" where
  "ex_host = \<lparr>y_regs = \<lparr>p_getregset = (\<lambda>k b. (None, k)), p_setregset = (\<lambda>k b. (False, k)),
       p_set_system_call = (\<lambda>k n. (False, k))\<rparr>, y_mem = ex_memory, y_handlers = ex_silent, y_events = ex_process_calls,
     y_kernel = (\<lambda>pid. ()), y_inherit_extensions = (\<lambda>c p f w. w), y_new_status = (\<lambda>a s w. (True, w))\<rparr>"

definition ex_requests :: "unit Requests" where
  "ex_requests = \<lparr>q_kill = (\<lambda>pid. True), q_alloc = (\<lambda>n. True), q_ptrace_kill = (\<lambda>k. (0, k)),
     q_eventmsg = (\<lambda>k. Inr 0), q_peek = (\<lambda>r k a. Inr 0), q_poke = (\<lambda>r k a v. (None, k)), q_get = (\<lambda>r k. Inr []),
     q_set = (\<lambda>r k bs. (None, k)), q_getregset = (\<lambda>k a n. None), q_setregset = (\<lambda>k a bs. (False, k))\<rparr>"

lemma ex_host_keeps_graph: "keeps_graph ex_host"
  by (simp add: keeps_graph_def ex_host_def ex_silent_def ex_process_calls_def)

theorem tracees_linked_witness:
  "\<exists>w. (proot_step ex_host ex_requests)\<^sup>*\<^sup>* (launched () 42 ex_globals) w \<and> length (tracees w) = 2
    \<and> (\<forall>a \<in> set (tracees w). procs w a \<noteq> None)"
proof -
  have "\<exists>w. event_loop_round ex_host 43 0x137F (launched () 42 ex_globals) = Inr w \<and> length (tracees w) = 2"
    by (simp add: event_loop_round_def free_terminated_tracees_def launched_def new_tracee_def new_dummy_tracee_def
        get_or_new_tracee_def find_tracee_def zero_tracee_def ex_host_def update_proc_def proc_def Let_def)
  then obtain w where w: "event_loop_round ex_host 43 0x137F (launched () 42 ex_globals) = Inr w" "length (tracees w) = 2"
    by blast
  have "(proot_step ex_host ex_requests)\<^sup>*\<^sup>* (launched () 42 ex_globals) w"
    using proot_step.round[OF w(1)] by (rule r_into_rtranclp)
  with tracees_linked[OF ex_host_keeps_graph this] w(2) show ?thesis by blast
qed

subsection \<open>The name-space of a child\<close>

lemma clone_flags_store:
  assumes "clone_flags_of Y a f w = Inr (flags, w')"
  shows "same_store w w'" and "next_addr w' = next_addr w" and "tracees w' = tracees w"
    and "procs w' b = None \<longleftrightarrow> procs w b = None"
proof -
  obtain t k where w': "w' = update_proc a (\<lambda>p. p\<lparr>c_regs := t, c_kernel := k\<rparr>) w"
    using assms by (auto simp: clone_flags_of_def Let_def simp del: proc_update_proc
        split: prod.splits if_split_asm sum.splits failure.splits)
  show "same_store w w'" unfolding w' by (rule same_store_update) (simp add: keeps_space_def)
  show "next_addr w' = next_addr w" "tracees w' = tracees w" "procs w' b = None \<longleftrightarrow> procs w b = None"
    by (simp_all add: w')
qed

lemma inherit_all_errors: "inherit_all flags parent child w = (Some e, w') \<Longrightarrow> e = ENOMEM"
  by (auto simp: inherit_all_def inherit_fs_def Let_def split: prod.splits option.splits if_split_asm)

text \<open>
  C20.  The child of a tracee starts with a sound name-space of its own in which every guest path has
  the host path that it has for the parent, and in the current directory of the parent; the parent sees what
  it saw.  From then on a mount or a change of directory of the child concerns the parent as the call
  asked: wholly with CLONE_FS, not at all where PRoot removed CLONE_NEWNS from the call, else for the
  mounts only.
\<close>

theorem child_namespace:
  assumes "wf_store w" and "procs w parent \<noteq> None" and "\<forall>a \<in> set (tracees w). procs w a \<noteq> None"
    and "wf_fs (sees w parent)" and "y_inherit_extensions Y = (\<lambda>c p f w. w)"
    and "clone_flags_of Y parent clone_flags w = Inr (flags, w0)"
    and "z_geteventmsg (y_events Y) (c_kernel (proc w0 parent)) = Some pid" and "pid \<noteq> 0"
    and "get_or_new_tracee (y_kernel Y (int_of_word pid)) (Some parent) (int_of_word pid) w0 = (child, w1)"
    and "new_child Y parent clone_flags w = Inr (0, w')"
  shows "wf_fs (sees w' child) \<and> fs_cwd (sees w' child) = fs_cwd (sees w parent)
    \<and> (\<forall>p. canonical p \<longrightarrow> substitute_binding (sees w' child) GUEST p = substitute_binding (sees w parent) GUEST p)
    \<and> sees w' parent = sees w parent
    \<and> (\<forall>fs. sees (assign child fs w') parent =
         (if flags AND CLONE_FS \<noteq> 0 then fs
          else if p_clone_stripped_newns (proc w parent) then sees w parent
          else (sees w parent)\<lparr>fs_guest := fs_guest fs, fs_host := fs_host fs\<rparr>))
    \<and> \<not> p_clone_stripped_newns (proc w' parent)"
proof -
  note s0 = clone_flags_store[OF assms(6)]
  have wf0: "wf_store w0" using wf_store_mono[OF assms(1) s0(1) _ s0(4)] s0(2) by simp
  have live0: "procs w0 parent \<noteq> None" "\<forall>a \<in> set (tracees w0). procs w0 a \<noteq> None"
    using assms(2,3) s0(3,4) by metis+
  note c = get_or_new_tracee_child[OF wf0 live0 assms(9)]
  have fields: "p_fs (proc w1 parent) = p_fs (proc w parent)"
    "p_clone_stripped_newns (proc w1 parent) = p_clone_stripped_newns (proc w parent)"
    using s0(1) c(4) by (simp_all add: same_store_def)
  have seen: "sees w1 parent = sees w parent"
    using c(4,5) same_storeD(1)[OF s0(1), of parent] by (simp add: sees_def)
  obtain e w2 where run: "unborn w1 child" "inherit_all flags parent child w1 = (e, w2)"
    "case e of Some e \<Rightarrow> - errno_code e = 0 \<and> w' = w2 | None \<Rightarrow> start_child Y child w2 = Inr w'"
    using assms(10)
    by (auto simp: new_child_def assms(5-9) split: if_split_asm prod.splits option.splits sum.splits)
  have "e = None"
    using run(2,3) inherit_all_errors[of flags parent child w1] by (cases e) auto
  then have 2: "inherit_all flags parent child w1 = (None, w2)" "start_child Y child w2 = Inr w'" using run by simp_all
  have ne: "child \<noteq> parent"
  proof
    assume "child = parent"
    then have "fs_guest (sees w1 parent) = None"
      using run(1) by (simp add: unborn_def sees_def fs_of_def empty_namespace_def Let_def)
    then show False using seen assms(4) by (simp add: wf_fs_def)
  qed
  have free: "p_ptracer (proc w1 child) = None" using run(1) by (simp add: unborn_def Let_def)
  have fs1: "wf_fs (sees w1 parent)" using seen assms(4) by simp
  note i = inherit_all_inherits[OF c(1,3,2) ne fs1 free 2(1)]
  have "procs w2 child \<noteq> None" using i(4) c(2) by simp
  then have s: "same_store w2 w'" using same_store_start_child[OF 2(2) i(5)] by simp
  note in_fs = i(1)[unfolded inherits_fs_def fields]
  have p2: "p_fs (proc w2 parent) = p_fs (proc w parent)" using i(2)[of parent] ne fields(1) by simp
  have old: "fs_of w1 (p_fs (proc w parent)) = sees w parent" using seen fields(1) by (simp add: sees_def)
  have new: "sees w' child = fs_of w2 (p_fs (proc w2 child))" using same_storeD(1)[OF s] by (simp add: sees_def)
  have "substitute_binding (sees w' child) GUEST p = substitute_binding (sees w parent) GUEST p" if "canonical p" for p
    by (rule substitute_binding_same[OF assms(4) _ _ that]) (use in_fs in \<open>simp_all add: new old\<close>)
  moreover have "sees w' parent = sees w parent"
    using in_fs same_storeD(1)[OF s, of parent] by (simp add: sees_def p2 old)
  moreover have "sees (assign child fs w') parent = fs_of (put_fs (p_fs (proc w2 child)) fs w2) (p_fs (proc w parent))" for fs
    using same_storeD(2)[OF s, of child fs parent] p2
    by (simp add: sees_def assign_def put_fs_def put_list_def Let_def proc_def split: option.splits)
  moreover have "\<not> p_clone_stripped_newns (proc w' parent)" using i(3) s by (simp add: same_store_def)
  ultimately show ?thesis using in_fs by (simp add: new old)
qed

definition ex_process :: "unit Process" where
  "ex_process = (zero_tracee () 1 2)\<lparr>p_pid := 42, v_exe := True, p_exe := ''/bin/sh''\<rparr>"

text \<open>One tracee with the name-space \<open>ex_fs\<close>, whose lists are at the addresses 3 and 4.\<close>

definition ex_world :: "unit World" where
  "ex_world = \<lparr>procs = [0 \<mapsto> ex_process], tracees = [0], next_vpid = 2,
     namespaces = [1 \<mapsto> \<lparr>n_pending = None, n_guest = Some 3, n_host = Some 4, n_cwd = Some ''/x''\<rparr>],
     binding_lists = [3 \<mapsto> [x_binding, root_binding], 4 \<mapsto> [x_binding, root_binding]], heaps = [2 \<mapsto> empty_heap],
     next_addr = 5, killed = [], w_globals = ex_globals\<rparr>"

lemma ex_world_sees: "sees ex_world 0 = ex_fs"
  by (simp add: sees_def fs_of_def ex_world_def ex_process_def zero_tracee_def proc_def ex_fs_def Let_def)

lemma ex_world_wf: "wf_store ex_world"
  by (simp add: wf_store_def ex_world_def ex_process_def zero_tracee_def)

theorem child_namespace_witness:
  "\<exists>child w'. new_child ex_host 0 0 ex_world = Inr (0, w') \<and> child \<noteq> 0
    \<and> substitute_binding (sees w' child) GUEST ''/x/a'' = substitute_binding ex_fs GUEST ''/x/a''
    \<and> sees (assign child (ex_fs\<lparr>fs_cwd := ''/''\<rparr>) w') 0 = ex_fs"
proof -
  have f: "clone_flags_of ex_host 0 0 ex_world = Inr (0, ex_world)"
    by (simp add: clone_flags_of_def fetch_regs_def ex_host_def ex_world_def ex_process_def zero_tracee_def
        update_proc_def proc_def Let_def)
  have p: "z_geteventmsg (y_events ex_host) (c_kernel (proc ex_world 0)) = Some 43"
    by (simp add: ex_host_def ex_process_calls_def)
  have "fst (get_or_new_tracee (y_kernel ex_host (int_of_word 43)) (Some 0) (int_of_word 43) ex_world) = 5"
    by (simp add: ex_host_def int_of_word_def get_or_new_tracee_def find_tracee_def new_tracee_def new_dummy_tracee_def
        ex_world_def ex_process_def zero_tracee_def proc_def Let_def)
  then obtain w1 where g: "get_or_new_tracee (y_kernel ex_host (int_of_word 43)) (Some 0) (int_of_word 43) ex_world = (5, w1)"
    by (metis prod.collapse)
  have "\<exists>w'. new_child ex_host 0 0 ex_world = Inr (0, w')"
    unfolding new_child_def f
    by (simp add: ex_host_def ex_process_calls_def int_of_word_def get_or_new_tracee_def find_tracee_def new_tracee_def
        new_dummy_tracee_def unborn_def inherit_all_def inherit_state_def inherit_heap_def inherit_links_def inherit_ptracer_def
        inherit_fs_def inherit_program_def start_child_def ex_world_def ex_process_def zero_tracee_def update_proc_def proc_def
        empty_namespace_def Let_def)
  then obtain w' where n: "new_child ex_host 0 0 ex_world = Inr (0, w')" by blast
  have live: "procs ex_world 0 \<noteq> None" "\<forall>a \<in> set (tracees ex_world). procs ex_world a \<noteq> None"
    by (simp_all add: ex_world_def)
  have "wf_fs (sees ex_world 0)" "y_inherit_extensions ex_host = (\<lambda>c p f w. w)" "(43 :: word_t) \<noteq> 0"
    by (simp_all add: ex_world_sees ex_host_def)
  note r = child_namespace[OF ex_world_wf live this(1,2) f p this(3) g n, unfolded ex_world_sees]
  have "\<not> p_clone_stripped_newns (proc ex_world 0)" by (simp add: ex_world_def ex_process_def zero_tracee_def proc_def)
  then have "sees (assign 5 (ex_fs\<lparr>fs_cwd := ''/''\<rparr>) w') 0 = ex_fs" using r by simp
  moreover have "substitute_binding (sees w' 5) GUEST ''/x/a'' = substitute_binding ex_fs GUEST ''/x/a''" using r by simp
  ultimately show ?thesis using n by (intro exI[of _ 5] exI[of _ w']) simp
qed

subsection \<open>The emulation of wait\<close>

text \<open>
  C16.  For a tracer that waits for a stopped ptracee it makes no difference whether the event of the
  ptracee or its own call comes first.  If the event comes first it is kept, and the call returns the pid
  of the ptracee, with the status in memory and the event consumed.  If the call comes first it returns nothing yet,
  and the event wakes the tracer up: it is restarted with the pid of the ptracee as the result of the
  call, in the store that the call would have left, but for the options that it waited with.
\<close>

theorem wait_order_irrelevant:
  assumes "awaited t a status r w" and "write_status M t (r_event r) w = (Inr (), w0)"
  shows "\<exists>told returned waiting.
      handle_ptracee_event P M V h a status w = Inr (r_keep_stopped r, told)
    \<and> translate_wait_exit M t told = Inr (p_pid (proc w a), returned)
    \<and> \<not> p_event_pending (proc returned a) \<and> p_event_value (proc returned a) = r_event r
    \<and> translate_wait_exit M t w = Inr (0, waiting)
    \<and> handle_ptracee_event P M V h a status waiting =
        (case restart_proc V t 0 (push P t (set_reg t SYSARG_RESULT (of_int (p_pid (proc w a)))
            (update_proc t (\<lambda>p. p\<lparr>p_wait_options := reg_of w t ORIGINAL SYSARG_3\<rparr>) returned))) of
           (done_restart, w') \<Rightarrow> Inr (r_keep_stopped r \<and> done_restart, w'))"
proof -
  let ?told = "send_signal (p_pid (proc w t)) SIGCHLD (reports a status (r_event r) (r_starts r) w)"
  obtain k where k: "\<And>w'. c_kernel (proc w' t) = c_kernel (proc w t) \<Longrightarrow> c_regs (proc w' t) = c_regs (proc w t) \<Longrightarrow>
      write_status M t (r_event r) w' = (Inr (), set_kernel t k w')"
    and 1: "handle_ptracee_event P M V h a status w = Inr (r_keep_stopped r, ?told)"
    and 2: "translate_wait_exit M t ?told = Inr (p_pid (proc w a), update_proc a (\<lambda>p. p\<lparr>p_event_pending := False\<rparr>)
      (set_kernel t k (update_proc t (\<lambda>p. p\<lparr>p_waits_in := DOESNT_WAIT\<rparr>) ?told)))"
    using event_then_wait[OF assms] by metis
  let ?returned = "update_proc a (\<lambda>p. p\<lparr>p_event_pending := False\<rparr>)
      (set_kernel t k (update_proc t (\<lambda>p. p\<lparr>p_waits_in := DOESNT_WAIT\<rparr>) ?told))"
  have live: "procs w a \<noteq> None" "a \<noteq> t" using assms(1) by (simp_all add: awaited_def Let_def)
  then have "\<not> p_event_pending (proc ?returned a)" "p_event_value (proc ?returned a) = r_event r"
    by (simp_all add: set_kernel_def send_signal_def reports_def)
  moreover note wait_then_event(1)[OF assms(1) k refl refl]
  moreover note wait_then_event(2)[OF assms(1) k refl refl, where P = P and V = V and h = h,
      unfolded orders_agree[OF assms(1) refl]]
  ultimately show ?thesis using 1 2 by blast
qed

definition ex_pair :: "bank \<Rightarrow> unit World" where
  "ex_pair b =
     \<lparr>procs = [0 \<mapsto> (zero_tracee () 2 3)\<lparr>p_pid := 41, c_regs := (ex_regs False)\<lparr>regs := (\<lambda>_. b)\<rparr>, p_nb_ptracees := 1,
                    p_waits_in := WAITS_IN_PROOT\<rparr>,
              1 \<mapsto> (zero_tracee () 4 5)\<lparr>p_pid := 42, p_ptracer := Some 0\<rparr>],
      tracees = [1, 0], next_vpid = 3, namespaces = [2 \<mapsto> empty_namespace, 4 \<mapsto> empty_namespace],
      binding_lists = Map.empty, heaps = [3 \<mapsto> empty_heap, 5 \<mapsto> empty_heap], next_addr = 6, killed = [],
      w_globals = ex_globals\<rparr>"

lemma ex_pair_simps [simp]:
  "procs (ex_pair b) x = (if x = 0 then Some ((zero_tracee () 2 3)\<lparr>p_pid := 41, c_regs := (ex_regs False)\<lparr>regs := (\<lambda>_. b)\<rparr>,
       p_nb_ptracees := 1, p_waits_in := WAITS_IN_PROOT\<rparr>)
     else if x = 1 then Some ((zero_tracee () 4 5)\<lparr>p_pid := 42, p_ptracer := Some 0\<rparr>) else None)"
  "tracees (ex_pair b) = [1, 0]" "next_addr (ex_pair b) = 6"
  by (simp_all add: ex_pair_def)

lemma ex_pair_reg: "reg_of (ex_pair b) 0 version reg = load64 b (reg_offset reg)"
  by (simp add: reg_of_def c_peek_def peek_reg_def REG_def REG_offset_def is_32on64_mode_def ex_regs_def proc_def Let_def)

lemma load64_blank: "load64 (\<lambda>_. 0) off = 0"
  by (simp add: load64_def eval_nat_numeral)

theorem wait_order_irrelevant_witness:
  "\<exists>told returned. handle_ptracee_event (y_regs ex_host) ex_memory ex_process_calls (\<lambda>a s w. Inr (0, w)) 1 0
       (ex_pair (store_bytes 8 (\<lambda>_. 0) 0 42)) = Inr (False, told)
    \<and> translate_wait_exit ex_memory 0 told = Inr (42, returned) \<and> \<not> p_event_pending (proc returned 1)"
proof -
  let ?w = "ex_pair (store_bytes 8 (\<lambda>_. 0) 0 42)"
  have regs: "reg_of ?w 0 ORIGINAL SYSARG_1 = 42" "reg_of ?w 0 ORIGINAL SYSARG_2 = 0" "reg_of ?w 0 ORIGINAL SYSARG_3 = 0"
    by (simp_all add: ex_pair_reg reg_offset_def load64_store64 load64_store_other load64_blank)
  define r where "r = \<lparr>r_event = 0, r_starts = True, r_proot_first = False, r_may_suppress = False, r_keep_stopped = False\<rparr>"
  have report: "report_of 0 (proc ?w 1) = Some r"
    by (simp add: report_of_def WIFSTOPPED_def WTERMSIG_def is_terminal_def WIFEXITED_def r_def Let_def)
  have "awaited 0 1 0 r ?w"
    unfolding awaited_def regs report Let_def
    by (simp add: r_def proc_def zero_tracee_def int_of_word_def fitting_def EXPECTED_WAIT_CLONE_def WNOHANG_def
        get_stopped_ptracee_def get_ptracee_def)
  moreover have "write_status ex_memory 0 (r_event r) ?w = (Inr (), ?w)"
    by (simp add: write_status_def regs Let_def)
  ultimately show ?thesis
    using wait_order_irrelevant[where h = "\<lambda>a s w. Inr (0, w)" and P = "y_regs ex_host" and V = ex_process_calls] 
    by (fastforce simp: r_def proc_def zero_tracee_def)
qed

subsection \<open>The emulation of ptrace\<close>

text \<open>
  C18.  A request of \<open>ptrace(2)\<close> that does not restart its ptracee is refused with ESRCH and changes
  nothing, or it is about one stopped ptracee of the caller, with the pid of the call, and
  changes no tracee but this one and the caller, nor any parent or tracer.  A pid whose low half alone
  is -1 stands for any of the stopped ptracees of the caller.
\<close>

theorem ptrace_confined:
  assumes "wf_links {} {} w" and "t \<in> set (tracees w)"
    and "translate_ptrace_exit Y Q t w = Inr (n, w')" and "looks (request_of (reg_of w t ORIGINAL SYSARG_1))"
  shows "n = - errno_code ESRCH \<and> w' = w
    \<or> (\<exists>a \<in> set (tracees w). p_ptracer (proc w a) = Some t \<and> \<not> v_running (proc w a)
         \<and> (p_pid (proc w a) = int_of_word (reg_of w t ORIGINAL SYSARG_2)
              \<or> int_of_word (reg_of w t ORIGINAL SYSARG_2) = -1 \<and> reg_of w t ORIGINAL SYSARG_2 \<noteq> -1)
         \<and> w' = w\<lparr>procs := procs w'\<rparr> \<and> (\<forall>b. b \<noteq> a \<longrightarrow> b \<noteq> t \<longrightarrow> procs w' b = procs w b)
         \<and> (\<forall>b. p_ptracer (proc w' b) = p_ptracer (proc w b) \<and> p_parent (proc w' b) = p_parent (proc w b)))"
proof -
  have "\<forall>z \<in> set (p_zombies (proc w t)). p_is_zombie (proc w z)"
    using assms(1,2) unfolding wf_links_def zombies_kept_def by blast
  from looks_only[OF assms(3,4) this] show ?thesis unfolding touches_def by auto
qed

lemma ex_pair_wf: "wf_links {} {} (ex_pair b)"
proof -
  have "ptracees (ex_pair b) 0 = {1}" "ptracees (ex_pair b) 1 = {}"
    by (auto simp: ptracees_def proc_def zero_tracee_def split: if_splits)
  then show ?thesis
    by (simp add: wf_links_def listed_def parents_live_def tracers_live_def counted_def zombies_kept_def proc_def
        zero_tracee_def)
qed

text \<open>PTRACE_SETOPTIONS (0x4200) on the process 42.\<close>

theorem ptrace_confined_witness:
  "\<exists>w'. let w = ex_pair (store_bytes 8 (store_bytes 8 (store_bytes 8 (\<lambda>_. 0) 24 1) 8 42) 0 0x4200)
     in translate_ptrace_exit ex_host ex_requests 0 w = Inr (0, w') \<and> p_options (proc w' 1) = 1
        \<and> p_ptracer (proc w' 1) = p_ptracer (proc w 1)"
proof -
  let ?w = "ex_pair (store_bytes 8 (store_bytes 8 (store_bytes 8 (\<lambda>_. 0) 24 1) 8 42) 0 0x4200)"
  let ?w' = "update_proc 1 (\<lambda>p. p\<lparr>p_options := 1\<rparr>) ?w"
  have regs: "reg_of ?w 0 ORIGINAL SYSARG_1 = 0x4200" "reg_of ?w 0 ORIGINAL SYSARG_2 = 42"
    "reg_of ?w 0 ORIGINAL SYSARG_3 = 0" "reg_of ?w 0 ORIGINAL SYSARG_4 = 1"
    by (simp_all add: ex_pair_reg reg_offset_def load64_store64 load64_store_other load64_blank)
  have request: "request_of 0x4200 = SETOPTIONS" by (simp add: request_of_def)
  have arch: "\<not> is_32on64_mode (c_regs (proc ?w 0))" by (simp add: proc_def ex_regs_def is_32on64_mode_def)
  have "get_stopped_ptracee ?w 0 42 False WALL = Some 1"
    by (simp add: get_stopped_ptracee_def get_ptracee_def proc_def zero_tracee_def fitting_def EXPECTED_WAIT_CLONE_def WALL_def
        Let_def)
  then have run: "translate_ptrace_exit ex_host ex_requests 0 ?w = Inr (0, ?w')"
    unfolding translate_ptrace_exit_def regs request Let_def
    using arch by (simp add: ptrace_as_ptracer_def ptrace_request_def int_of_word_def proc_def zero_tracee_def)
  have "looks (request_of (reg_of ?w 0 ORIGINAL SYSARG_1))" unfolding regs request by (simp add: looks_def)
  from ptrace_confined[OF ex_pair_wf _ run this]
  have "p_ptracer (proc ?w' 1) = p_ptracer (proc ?w 1)" by auto
  then show ?thesis using run by (intro exI[of _ ?w']) (simp add: Let_def proc_def zero_tracee_def)
qed

end
