(* ===== verification/Spec2Isabelle.thy ===== *)
theory Spec2Isabelle
  imports Path_Properties Syscall_Properties Exec_Properties Entry_Properties System_Properties Tracee_Properties
    Exit_Properties Process_Properties
begin

text \<open>
  Verification of the PRoot that ReTerminal ships (core/proot/src/main/cpp, called cpp/ below), for
  the arm64 target of the application, which also runs 32-bit ARM programs.

  PRoot makes a process, its tracee, believe that a directory of the host is the root of its file
  system.  It stops the tracee with \<open>ptrace(2)\<close> at the entry and at the exit of its system calls,
  replaces guest paths by host paths in their arguments and back in their results, emulates the
  calls that need privileges, and loads programs in place of the kernel.  The parts of the program
  are modelled by the following groups of theories, from the bottom to the top.

  Vocabulary.  \<open>Prelude\<close>: results (a value, an error number, or \<open>Undefined\<close> for what C leaves
  undefined), C strings as lists of characters without the terminating
  NUL, the canonical form of paths, the host file system as a parameter.  \<open>Cnum\<close>: the decimal
  conversions of the C library.

  Paths (cpp/path).  \<open>Paths\<close> (the pure functions of path.c), \<open>Bindings\<close> and \<open>Bindings_Order\<close>
  (binding.c: the two sorted circular lists of a name-space, and their invariant \<open>wf_fs\<close>),
  \<open>Substitution\<close>, \<open>Proc_Links\<close> (proc.c), \<open>Canon\<close> (canon.c and glue.c: the walk over symbolic links),
  \<open>Translate\<close> (path.c: \<open>translate_path\<close>, \<open>detranslate_path\<close>), \<open>Init_Bindings\<close> (binding.c: the lists at
  startup).  \<open>Canon_Props\<close> shows that the walk stays inside the guest, \<open>Canon_Lexical\<close> that without
  links it is lexical normalization, \<open>Effects\<close> which state a translation can change.
  \<open>Path_Properties\<close> holds C1 to C9: confinement, purity, round trips, look-up, the invariant.

  System calls (cpp/syscall, cpp/tracee).  \<open>Sysnum_Tables\<close> and \<open>Sysnum\<close> (sysnum.c and its tables),
  \<open>Registers\<close> (reg.c: four banks of registers as bytes, as in the source), \<open>Seccomp\<close> (seccomp.c: the
  BPF program, read by a locale of BPF machines and interpreted on a machine).
  \<open>Syscall_Properties\<close> holds C13, C17 and C19.

  Memory and programs (cpp/tracee/mem.c, cpp/execve, cpp/loader).  \<open>Memory\<close> (word-wise access with
  \<open>ptrace(2)\<close>; the locale \<open>ptrace_memory\<close> states the laws of the two requests), \<open>Elf\<close> (elf.c),
  \<open>Load_Info\<close> (enter.c: from program headers to mappings), \<open>Load_Script\<close> (exit.c: the script put on
  the stack of the tracee), \<open>Loader\<close> (loader.c: the program that executes the script), \<open>Shebang\<close> and
  \<open>Aoxp\<close> (shebang.c, aoxp.c: scripts and the arrays of arguments).  \<open>Exec_Properties\<close> holds C21 to
  C24.

  Translation of the calls (cpp/syscall).  \<open>Heap\<close> (heap.c), \<open>Sysargs\<close> (syscall.c: path arguments, and
  the state \<open>Sys\<close> of a call: registers, tracee, memory, host), \<open>Netlink\<close> and \<open>Netlink_Props\<close> (enter.c:
  replies of emulated netlink sockets), \<open>Mounts\<close> (enter.c: mount, umount, pivot_root), \<open>Sockets\<close>
  (socket.c), \<open>Chain\<close> (chain.c and \<open>translate_syscall\<close>: the stops of a tracee and the calls that
  PRoot inserts), \<open>Syscall_Enter\<close> (enter.c: \<open>translate_syscall_enter\<close>, the switch over the calls, in
  the order of the source within each group).  \<open>Entry_Properties\<close> holds C26 to C28, C30 and C31,
  \<open>System_Properties\<close> C32 to C38, \<open>Tracee_Properties\<close> C39 (the calls with one path) and C40.

  Results of the calls.  \<open>Statx\<close> (statx.c: the call emulated with the stat of the host), \<open>Rlimit\<close>
  (rlimit.c) and \<open>Syscall_Exit\<close> (exit.c: \<open>translate_syscall_exit\<close>, the switch over the original
  number, on the state of a call and the host \<open>Exit_Calls\<close>).  \<open>Sigsys\<close> models the handler of SIGSYS
  (cpp/tracee/seccomp.c), which replaces each call that the filter of Android refuses by an older or
  newer one, fails it or emulates it, on the state \<open>Xcall\<close> (a \<open>Call\<close> with the status of the tracee) and
  the host \<open>Exits\<close>.  \<open>Sigsys_Props\<close> and \<open>Exit_Props\<close> hold their lemmas: what a rewriting of the
  registers leaves alone, which results an exit keeps.  \<open>Exit_Properties\<close> holds C10, C12, C14, C15,
  C25 and C29.

  Events (cpp/tracee/event.c).  \<open>Events\<close> models \<open>handle_tracee_event\<close> and \<open>restart_tracee\<close>, on top of the
  stops of \<open>Chain\<close>.  \<open>Event_Stops\<close> composes them with the kernel, which reports the entry, the event
  of seccomp and the exit of a call in one of two orders, as a step relation, and proves its
  invariant by cases over the stops: C40.

  Tracees (cpp/tracee/tracee.c, cpp/ptrace, the loop of cpp/tracee/event.c).  \<open>Tracees\<close> is the store of the
  tracees: a map from addresses to the structures \<open>Tracee\<close> (the record \<open>Process\<close>, which extends \<open>Event\<close>), to
  the name-spaces, lists of bindings and heaps that they share, and the list of the tracees.
  \<open>Ptrace_Wait\<close> (wait.c: the emulation of \<open>wait(2)\<close> and the notification of tracers), \<open>Children\<close>
  (tracee.c: \<open>new_child\<close>, \<open>remove_tracee\<close>, the release of terminated tracees, \<open>swap_config\<close>; event.c: a round of
  the loop), \<open>Ptrace_Calls\<close> (ptrace.c: every request of \<open>ptrace(2)\<close> on arm64).  \<open>Children_Props\<close> shows what
  a child shares with its parent, \<open>Ptrace_Props\<close> which ptracee a call finds, the two orders of a
  wait and an event, what a request changes, and requests that PRoot does not survive.  \<open>Links\<close>,
  \<open>Links_Events\<close>, \<open>Links_Rounds\<close> and \<open>Links_Ends\<close> define and prove the invariant of the pointers between
  tracees, operation by operation: tracing, events, births and calls, ends, and the steps of PRoot as a relation.
  \<open>Process_Properties\<close> holds C11, C16, C18 and C20.  An event and the call of a tracee are
  separate steps here: the hooks of a round are assumed to leave the pointers alone, the calls of \<open>ptrace(2)\<close> and
  \<open>wait(2)\<close> are steps of their own.

  How to read the model.  A structure of the source is a record with its fields, an enumeration is a
  datatype or its numbers, a machine word is a word of 64 bits, an error is a value.  Circular lists
  are lists in their forward order; an object that is compared by address has an address in the
  model.  State is passed explicitly: \<open>Tracee\<close> for the file-system part, \<open>Tracee_Regs\<close> for the
  registers, \<open>Stop\<close> and its extension \<open>Event\<close> for the stops, \<open>Sys\<close> and its extensions \<open>Call\<close> and \<open>Xcall\<close> for the
  arguments and the result of a call, and a polymorphic world for the host.  The host (record \<open>Env\<close>), the
  requests of \<open>ptrace(2)\<close> (records \<open>Ptrace_Regs\<close> and \<open>Ptrace_Mem\<close>), the system calls of the loader
  (\<open>Loader_Sys\<close>) and the hooks of the extensions are parameters.  Their laws are the locales
  \<open>ptrace_memory\<close>, \<open>ptrace_registers\<close> (extended by \<open>ptrace_numbers\<close>) and the locale of BPF machines, which are
  interpreted on memories, registers and machines defined here.

  Bounds.  The recursion of \<open>canonicalize\<close> has the fuel of the source, MAXSYMLINKS; the expansion of
  scripts has the same bound.  Walks over bytes of the tracee and over the records of netlink
  have termination measures.  Nothing else is cut: PATH_MAX and the sizes of the buffers are those of the
  source, and exceeding them is an error value.

  Not modelled.  The vendored talloc library (allocations succeed, except where a size is refused);
  the printing of notes; the command line (cpp/cli) and the start of the first program; the entry and the exit of execve as a whole, of which the load information,
  the load script and the scripts are modelled (parameters of the two switches); the dynamic linker and auxiliary
  vector of execve (ldso.c, auxv.c); the extensions; the user interface in Kotlin, which only starts
  PRoot.
\<close>

end
